(* ===== verification/Js_Prelude.thy ===== *)
theory Js_Prelude
  imports Main "HOL-Library.AList" "HOL-Library.Sublist"
begin

section \<open>The parts of JavaScript the services rely on\<close>

text \<open>
  Shared vocabulary of the development.

  \<^item> A JavaScript \<open>Map\<close> iterates in insertion order, \<open>set\<close> on a present key keeps its position
    and on a new key appends.  That is an association list with \<^const>\<open>AList.update\<close>,
    \<^const>\<open>AList.delete\<close> and \<^const>\<open>map_of\<close>; \<open>jmodify\<close> is the in-place mutation of the
    object stored under a key.
  \<^item> \<open>truthy\<close> is the test \<open>if (x)\<close> on \<open>string | null | undefined\<close>: the empty string is falsy.
  \<^item> Instants are integers, the milliseconds of \<open>Date.getTime()\<close>.  The code stores instants
    as the text of \<open>toISOString()\<close> and reads them back with \<open>Date.parse\<close>, which are inverse to
    each other; the model keeps the instant and converts it to text only where the text itself
    is used (in hashed audit payloads, see \<open>Iso_Date\<close>).
  \<^item> An operation that can throw returns the error together with the state it leaves behind,
    since an exception does not roll back what was already mutated.
  \<^item> The injected clock, \<open>randomUUID\<close>, \<open>randomBytes\<close> and the SHA-256 digest are an explicit
    environment; the state counts how often each was consulted, so that two calls inside one
    operation may answer differently.
\<close>

named_theorems js_simps "definitions that unfold to plain list and option operations"
named_theorems inv_intros "invariant preservation, one rule per operation"

type_synonym ('k, 'v) jsmap = "('k \<times> 'v) list"
type_synonym instant = int
type_synonym ('e, 'a, 's) outcome = "('e + 'a) \<times> 's"

subsection \<open>Truthiness and small list operations\<close>

fun truthy :: "string option \<Rightarrow> bool" where
  "truthy None = False"
| "truthy (Some s) = (s \<noteq> [])"

lemma truthy_iff: "truthy x \<longleftrightarrow> (\<exists>s. x = Some s \<and> s \<noteq> [])"
  by (cases x) auto

lemma truthyE: "truthy x \<Longrightarrow> (\<And>s. x = Some s \<Longrightarrow> s \<noteq> [] \<Longrightarrow> P) \<Longrightarrow> P"
  by (cases x) auto

text \<open>The nullish operator \<open>a ?? b\<close>.\<close>

fun nullish :: "'a option \<Rightarrow> 'a option \<Rightarrow> 'a option" where
  "nullish (Some x) y = Some x"
| "nullish None y = y"

lemma nullish_None2 [simp]: "nullish x None = x"
  by (cases x) auto

lemma nullish_eq_None_iff [simp]: "nullish x y = None \<longleftrightarrow> x = None \<and> y = None"
  by (cases x) auto

text \<open>\<open>[...new Set(xs)]\<close>: first occurrences, in order.\<close>

fun js_unique :: "'a list \<Rightarrow> 'a list" where
  "js_unique [] = []"
| "js_unique (x # xs) = x # filter (\<lambda>y. y \<noteq> x) (js_unique xs)"

lemma set_js_unique [simp]: "set (js_unique xs) = set xs"
  by (induction xs) auto

lemma distinct_js_unique [simp]: "distinct (js_unique xs)"
  by (induction xs) auto

lemma js_unique_Nil_iff [simp]: "js_unique xs = [] \<longleftrightarrow> xs = []"
  by (cases xs) auto

lemma length_js_unique_le: "length (js_unique xs) \<le> length xs"
  by (induction xs) (auto intro: le_trans [OF length_filter_le])

text \<open>\<open>xs.at(-1)\<close>.\<close>

definition at_last :: "'a list \<Rightarrow> 'a option" where
  "at_last xs = (if xs = [] then None else Some (last xs))"

lemma at_last_Nil [simp]: "at_last [] = None"
  by (simp add: at_last_def)

lemma at_last_snoc [simp]: "at_last (xs @ [x]) = Some x"
  by (simp add: at_last_def)

text \<open>\<open>String.prototype.trim\<close> on the white space and line terminators of the character range.\<close>

definition js_white :: "char \<Rightarrow> bool" where
  "js_white c \<longleftrightarrow> of_char c \<in> {9, 10, 11, 12, 13, 32, 160 :: nat}"

definition js_trim :: "string \<Rightarrow> string" where
  "js_trim s = rev (dropWhile js_white (rev (dropWhile js_white s)))"

lemma length_js_trim_le: "length (js_trim s) \<le> length s"
  unfolding js_trim_def by (metis length_dropWhile_le length_rev order_trans)

lemma dropWhile_fixed: "xs = [] \<or> \<not> P (hd xs) \<Longrightarrow> dropWhile P xs = xs"
  by (cases xs) auto

lemma js_trim_idem: "js_trim (js_trim s) = js_trim s"
proof -
  define u where "u = dropWhile js_white s"
  define v where "v = rev (dropWhile js_white (rev u))"
  have "u = v @ rev (takeWhile js_white (rev u))"
    unfolding v_def by (metis rev_append rev_rev_ident takeWhile_dropWhile_id)
  then have "v \<noteq> [] \<Longrightarrow> hd v = hd u" by (metis hd_append2)
  then have v: "v = [] \<or> \<not> js_white (hd v)"
    unfolding u_def by (metis hd_dropWhile append_is_Nil_conv dropWhile.simps(1) v_def
        rev_is_Nil_conv u_def)
  have "rev v = [] \<or> \<not> js_white (hd (rev v))"
    unfolding v_def using hd_dropWhile [of js_white "rev u"] by (metis rev_rev_ident)
  then show ?thesis
    using v by (simp add: js_trim_def dropWhile_fixed flip: u_def v_def)
qed

lemma fold_frame: "(\<And>x s. h (f x s) = h s) \<Longrightarrow> h (fold f xs s) = h s"
  by (induction xs arbitrary: s) auto

text \<open>Loops over a list of keys: an invariant with a reflexive and transitive relation between the states
  passed through, and a goal that the iteration for one key establishes and the others keep.\<close>

lemma fold_relates:
  assumes "I s" and "\<And>x u. I u \<Longrightarrow> I (f x u) \<and> R u (f x u)"
    and "\<And>u. I u \<Longrightarrow> R u u" and "\<And>u v w. R u v \<Longrightarrow> R v w \<Longrightarrow> R u w"
  shows "I (fold f xs s) \<and> R s (fold f xs s)"
  using assms(1)
proof (induction xs arbitrary: s)
  case (Cons x xs)
  then have 1: "I (f x s)" "R s (f x s)" using assms(2) by blast+
  with Cons.IH [OF 1(1)] have "R s (fold f xs (f x s))" "I (fold f xs (f x s))" using assms(4) by blast+
  then show ?case by simp
qed (simp add: assms(3))

lemma fold_establishes:
  assumes "I s" and "\<And>x u. I u \<Longrightarrow> I (f x u)" and "\<And>x u. I u \<Longrightarrow> x = k \<or> P u \<Longrightarrow> P (f x u)"
    and "k \<in> set xs \<or> P s"
  shows "P (fold f xs s)"
  using assms(1,4)
proof (induction xs arbitrary: s)
  case (Cons x xs)
  then show ?case using assms(2,3) by auto
qed simp

subsection \<open>Insertion-ordered maps\<close>

definition jmodify :: "'k \<Rightarrow> ('v \<Rightarrow> 'v) \<Rightarrow> ('k, 'v) jsmap \<Rightarrow> ('k, 'v) jsmap" where
  "jmodify k f m = map (\<lambda>(k', v). (k', if k' = k then f v else v)) m"

definition jvalues :: "('k, 'v) jsmap \<Rightarrow> 'v list" where
  "jvalues m = map snd m"

definition jkeys :: "('k, 'v) jsmap \<Rightarrow> 'k list" where
  "jkeys m = map fst m"

lemma jkeys_jmodify [simp]: "map fst (jmodify k f m) = map fst m"
  by (simp add: jmodify_def case_prod_beta comp_def)

lemma map_of_jmodify:
  "map_of (jmodify k f m) k' = (if k' = k then map_option f (map_of m k) else map_of m k')"
  by (induction m) (auto simp: jmodify_def)

lemma map_of_jmodify_same [simp]: "map_of (jmodify k f m) k = map_option f (map_of m k)"
  by (simp add: map_of_jmodify)

lemma map_of_jmodify_other [simp]: "k' \<noteq> k \<Longrightarrow> map_of (jmodify k f m) k' = map_of m k'"
  by (simp add: map_of_jmodify)

lemma jmodify_absent: "map_of m k = None \<Longrightarrow> jmodify k f m = m"
  by (induction m) (auto simp: jmodify_def split: if_splits)

lemma map_of_jset [simp]: "map_of (AList.update k v m) = (map_of m)(k \<mapsto> v)"
  by (rule update_conv')

lemma distinct_keys_jset [simp]: "distinct (map fst m) \<Longrightarrow> distinct (map fst (AList.update k v m))"
  by (rule distinct_update)

lemma map_of_jdelete [simp]: "map_of (AList.delete k m) = (map_of m)(k := None)"
  by (rule delete_conv')

text \<open>A mutation of every stored value, as in \<open>for (const v of m.values()) ...\<close>.\<close>

definition jmap_values :: "('v \<Rightarrow> 'v) \<Rightarrow> ('k, 'v) jsmap \<Rightarrow> ('k, 'v) jsmap" where
  "jmap_values f m = map (\<lambda>(k, v). (k, f v)) m"

lemma map_of_jmap_values [simp]: "map_of (jmap_values f m) k = map_option f (map_of m k)"
  by (induction m) (auto simp: jmap_values_def)

lemma jkeys_jmap_values [simp]: "map fst (jmap_values f m) = map fst m"
  by (simp add: jmap_values_def case_prod_beta comp_def)

lemma map_of_in_values: "map_of m k = Some v \<Longrightarrow> v \<in> snd ` set m"
  by (metis imageI map_of_SomeD snd_conv)

lemma distinct_keys_values:
  "distinct (map fst m) \<Longrightarrow> (k, v) \<in> set m \<longleftrightarrow> map_of m k = Some v"
  by (metis map_of_eq_Some_iff)

subsection \<open>Strings\<close>

text \<open>\<open>key.startsWith(p)\<close> is \<^const>\<open>prefix\<close>; distinct literal prefixes give distinct keys.\<close>

lemma prefix_key_neq: "\<not> prefix p q \<Longrightarrow> \<not> prefix q p \<Longrightarrow> p @ a \<noteq> q @ b"
  by (metis prefixI prefix_same_cases)

subsection \<open>The environment of a service\<close>

text \<open>
  \<open>clock n\<close> is what the \<open>n\<close>th call of the injected \<open>now\<close> answers, \<open>uuid n\<close> and \<open>token n\<close> what
  \<open>randomUUID\<close> and \<open>randomBytes(32).toString('base64url')\<close> give at the \<open>n\<close>th random draw, and
  \<open>sha256\<close> is the digest.  None of them is code of the repository, so all are arbitrary.
\<close>

record js_env =
  clock :: "nat \<Rightarrow> instant"
  uuid :: "nat \<Rightarrow> string"
  token :: "nat \<Rightarrow> string"
  sha256 :: "string \<Rightarrow> string"

text \<open>What a call may throw: an error with a message, or something else.\<close>

datatype thrown = ErrorMsg string | OtherThrown

text \<open>Mutating the first element that \<open>find\<close> returns.\<close>

fun update_first :: "('a \<Rightarrow> bool) \<Rightarrow> ('a \<Rightarrow> 'a) \<Rightarrow> 'a list \<Rightarrow> 'a list" where
  "update_first p f [] = []"
| "update_first p f (x # xs) = (if p x then f x # xs else x # update_first p f xs)"

lemma update_first_none: "find p xs = None \<Longrightarrow> update_first p f xs = xs"
  by (induction xs) (auto split: if_splits)

lemma length_update_first [simp]: "length (update_first p f xs) = length xs"
  by (induction xs) auto

lemma find_update_first:
  "find p xs = Some x \<Longrightarrow> p (f x) \<Longrightarrow> find p (update_first p f xs) = Some (f x)"
  by (induction xs) (auto split: if_splits)

lemma map_update_first: "(\<And>x. g (f x) = g x) \<Longrightarrow> map g (update_first p f xs) = map g xs"
  by (induction xs) auto

lemma in_set_update_first: "x \<in> set (update_first p f xs) \<Longrightarrow> x \<in> set xs \<or> (\<exists>y \<in> set xs. x = f y)"
  by (induction xs) (auto split: if_splits)

subsection \<open>Splitting text\<close>

text \<open>\<open>text.split(sep)\<close> for one character.\<close>

fun js_split :: "char \<Rightarrow> string \<Rightarrow> string list" where
  "js_split sep [] = [[]]"
| "js_split sep (c # s) =
    (if c = sep then [] # js_split sep s
     else case js_split sep s of [] \<Rightarrow> [[c]] | p # ps \<Rightarrow> (c # p) # ps)"

lemma js_split_clean: "sep \<notin> set a \<Longrightarrow> js_split sep a = [a]"
  by (induction a) auto

lemma js_split_sep: "sep \<notin> set a \<Longrightarrow> js_split sep (a @ sep # b) = a # js_split sep b"
  by (induction a) auto

lemma map_of_filter_key: "map_of (filter (\<lambda>(k, v). P k) m) k = (if P k then map_of m k else None)"
  by (induction m) auto

subsection \<open>Fallible computations\<close>

text \<open>A result is an error on the left or a value on the right; \<open>sum_bind\<close> goes on only with a value.\<close>

fun sum_bind :: "'e + 'a \<Rightarrow> ('a \<Rightarrow> 'e + 'b) \<Rightarrow> 'e + 'b" where
  "sum_bind (Inl err) f = Inl err"
| "sum_bind (Inr x) f = f x"

lemma sum_bind_Inr_iff: "sum_bind m f = Inr y \<longleftrightarrow> (\<exists>x. m = Inr x \<and> f x = Inr y)"
  by (cases m) auto

lemma map_sum_Inr_iff: "map_sum id f r = Inr y \<longleftrightarrow> (\<exists>x. r = Inr x \<and> y = f x)"
  by (cases r) auto

subsection \<open>Sorting\<close>

text \<open>\<open>Array.prototype.sort\<close> with a comparison function is stable.\<close>

fun insert_by :: "('a \<Rightarrow> 'a \<Rightarrow> 'n :: {zero, linorder}) \<Rightarrow> 'a \<Rightarrow> 'a list \<Rightarrow> 'a list" where
  "insert_by cmp x [] = [x]"
| "insert_by cmp x (y # ys) = (if cmp x y \<le> 0 then x # y # ys else y # insert_by cmp x ys)"

definition js_sort :: "('a \<Rightarrow> 'a \<Rightarrow> 'n :: {zero, linorder}) \<Rightarrow> 'a list \<Rightarrow> 'a list" where
  "js_sort cmp xs = foldr (insert_by cmp) xs []"

lemma set_insert_by [simp]: "set (insert_by cmp x ys) = insert x (set ys)"
  by (induction ys) auto

lemma set_js_sort [simp]: "set (js_sort cmp xs) = set xs"
  by (induction xs) (simp_all add: js_sort_def)

subsection \<open>Schema checks\<close>

text \<open>\<open>z.string().min(1)\<close>, its nullable form, and \<open>z.iso.datetime()\<close>, which admits four digit years.\<close>

definition ident :: "string \<Rightarrow> bool" where
  "ident x \<longleftrightarrow> x \<noteq> []"

definition nullable_ident :: "string option \<Rightarrow> bool" where
  "nullable_ident x \<longleftrightarrow> x \<noteq> Some []"

definition iso_datetime :: "instant \<Rightarrow> bool" where
  "iso_datetime t \<longleftrightarrow> - 62167219200000 \<le> t \<and> t < 253402300800000"

definition nullable_datetime :: "instant option \<Rightarrow> bool" where
  "nullable_datetime x \<longleftrightarrow> (case x of None \<Rightarrow> True | Some t \<Rightarrow> iso_datetime t)"

subsection \<open>Reachability\<close>

text \<open>
  A component is a set of initial states and a step relation.  An invariant that holds initially
  and is kept by every step holds in every reachable state; a relation between a state and what
  follows it that is reflexive, transitive and established by every step holds along every run.
\<close>

inductive reaches :: "('s \<Rightarrow> 's \<Rightarrow> bool) \<Rightarrow> 's \<Rightarrow> 's \<Rightarrow> bool" for step where
  reaches_refl: "reaches step s s"
| reaches_step: "reaches step s t \<Longrightarrow> step t u \<Longrightarrow> reaches step s u"

lemma reaches_trans: "reaches step s t \<Longrightarrow> reaches step t u \<Longrightarrow> reaches step s u"
  by (rotate_tac, induction rule: reaches.induct) (auto intro: reaches.intros)

locale transition_system =
  fixes init :: "'s \<Rightarrow> bool"
    and step :: "'s \<Rightarrow> 's \<Rightarrow> bool"
    and inv :: "'s \<Rightarrow> bool"
  assumes init_inv: "init s \<Longrightarrow> inv s"
    and step_inv: "inv s \<Longrightarrow> step s t \<Longrightarrow> inv t"
begin

lemma reaches_inv: "reaches step s t \<Longrightarrow> inv s \<Longrightarrow> inv t"
  by (induction rule: reaches.induct) (auto intro: step_inv)

lemma reachable_inv: "init s \<Longrightarrow> reaches step s t \<Longrightarrow> inv t"
  by (blast intro: reaches_inv init_inv)

lemma reaches_preserves:
  assumes "reaches step s t" and "inv s" and "P s"
    and "\<And>u v. inv u \<Longrightarrow> P u \<Longrightarrow> step u v \<Longrightarrow> P v"
  shows "P t"
  using assms(1-3)
proof (induction rule: reaches.induct)
  case (reaches_step s t u)
  then show ?case using assms(4) reaches_inv by blast
qed simp

end

end
