(* ===== verification/Json_Text.thy ===== *)
theory Json_Text
  imports Js_Prelude
begin

section \<open>JSON text\<close>

text \<open>
  \<open>JSON.stringify\<close> and \<open>JSON.parse\<close> on the values the services serialise: null, booleans,
  integers, strings, arrays and objects whose properties are written in the order of the object
  literal.  Scope keys, idempotency keys, audit payloads and access tokens are built with them.

  The parser is total (it carries fuel; the length of the text is always enough) and is a left
  inverse of the printer.  Unique readability of the text, which is what makes a JSON array usable
  as a compound key, follows from that.
\<close>

datatype json =
    JNull
  | JBool bool
  | JNum int
  | JStr string
  | JArr "json list"
  | JObj "(string \<times> json) list"

subsection \<open>Decimal numbers\<close>

definition digit_char :: "nat \<Rightarrow> char" where
  "digit_char d = char_of (48 + d)"

definition is_digit :: "char \<Rightarrow> bool" where
  "is_digit c \<longleftrightarrow> 48 \<le> (of_char c :: nat) \<and> (of_char c :: nat) \<le> 57"

definition digit_val :: "char \<Rightarrow> nat" where
  "digit_val c = of_char c - 48"

fun show_nat :: "nat \<Rightarrow> string" where
  "show_nat n = (if n < 10 then [digit_char n] else show_nat (n div 10) @ [digit_char (n mod 10)])"

declare show_nat.simps [simp del]

definition show_int :: "int \<Rightarrow> string" where
  "show_int i = (if i < 0 then CHR ''-'' # show_nat (nat (- i)) else show_nat (nat i))"

definition read_nat :: "string \<Rightarrow> nat" where
  "read_nat ds = foldl (\<lambda>n c. 10 * n + digit_val c) 0 ds"

lemma of_char_digit_char: "d < 10 \<Longrightarrow> (of_char (digit_char d) :: nat) = 48 + d"
  by (simp add: digit_char_def)

lemma digit_char_props [simp]:
  "d < 10 \<Longrightarrow> is_digit (digit_char d)"
  "d < 10 \<Longrightarrow> digit_val (digit_char d) = d"
  by (simp_all add: is_digit_def digit_val_def of_char_digit_char)

lemma show_nat_digits: "\<forall>c \<in> set (show_nat n). is_digit c"
proof (induction n rule: show_nat.induct)
  case (1 n)
  then show ?case by (subst show_nat.simps) auto
qed

lemma show_nat_nonempty [simp]: "show_nat n \<noteq> []"
  by (subst show_nat.simps) simp

lemma read_show_nat [simp]: "read_nat (show_nat n) = n"
proof (induction n rule: show_nat.induct)
  case (1 n)
  show ?case
  proof (cases "n < 10")
    case True
    then show ?thesis by (subst show_nat.simps) (simp add: read_nat_def)
  next
    case False
    with 1 show ?thesis by (subst show_nat.simps) (simp add: read_nat_def)
  qed
qed

lemma show_nat_inj [simp]: "show_nat m = show_nat n \<longleftrightarrow> m = n"
  by (metis read_show_nat)

subsection \<open>String literals\<close>

definition hex_char :: "nat \<Rightarrow> char" where
  "hex_char d = (if d < 10 then char_of (48 + d) else char_of (87 + d))"

definition hex_val :: "char \<Rightarrow> nat option" where
  "hex_val c = (let n = of_char c in
     if 48 \<le> n \<and> n \<le> 57 then Some (n - 48)
     else if 97 \<le> n \<and> n \<le> 102 then Some (n - 87)
     else if 65 \<le> n \<and> n \<le> 70 then Some (n - 55) else None)"

lemma hex_val_hex_char [simp]: "d < 16 \<Longrightarrow> hex_val (hex_char d) = Some d"
  by (simp add: hex_val_def hex_char_def Let_def)

definition esc_char :: "char \<Rightarrow> string" where
  "esc_char c = (let n = of_char c :: nat in
     if n = 34 then [CHR 0x5C, CHR 0x22]
     else if n = 92 then [CHR 0x5C, CHR 0x5C]
     else if n = 8 then [CHR 0x5C, CHR ''b'']
     else if n = 12 then [CHR 0x5C, CHR ''f'']
     else if n = 10 then [CHR 0x5C, CHR ''n'']
     else if n = 13 then [CHR 0x5C, CHR ''r'']
     else if n = 9 then [CHR 0x5C, CHR ''t'']
     else if n < 32 then [CHR 0x5C, CHR ''u'', CHR ''0'', CHR ''0'', hex_char (n div 16), hex_char (n mod 16)]
     else [c])"

definition quote :: "string \<Rightarrow> string" where
  "quote s = CHR 0x22 # concat (map esc_char s) @ [CHR 0x22]"

text \<open>The character an escape sequence denotes, with the text behind the sequence.\<close>

fun unesc :: "string \<Rightarrow> (char \<times> string) option" where
  "unesc [] = None"
| "unesc (e # r) =
    (if e = CHR 0x22 \<or> e = CHR 0x5C \<or> e = CHR ''/'' then Some (e, r)
     else if e = CHR ''b'' then Some (CHR 0x08, r)
     else if e = CHR ''f'' then Some (CHR 0x0C, r)
     else if e = CHR ''n'' then Some (CHR 0x0A, r)
     else if e = CHR ''r'' then Some (CHR 0x0D, r)
     else if e = CHR ''t'' then Some (CHR 0x09, r)
     else if e = CHR ''u'' then
       (case r of
          a # b # c # d # r' \<Rightarrow>
            (case (hex_val a, hex_val b, hex_val c, hex_val d) of
               (Some 0, Some 0, Some hi, Some lo) \<Rightarrow> Some (char_of (16 * hi + lo), r')
             | _ \<Rightarrow> None)
        | _ \<Rightarrow> None)
     else None)"

lemma unesc_shorter: "unesc s = Some (c, r) \<Longrightarrow> length r < length s"
  by (cases s) (auto split: if_splits list.splits option.splits nat.splits)

function (sequential) parse_str :: "string \<Rightarrow> (string \<times> string) option" where
  "parse_str [] = None"
| "parse_str (c # r) =
    (if c = CHR 0x22 then Some ([], r)
     else if c = CHR 0x5C then
       (case unesc r of
          None \<Rightarrow> None
        | Some (d, r') \<Rightarrow> map_option (\<lambda>(s, q). (d # s, q)) (parse_str r'))
     else if (of_char c :: nat) < 32 then None
     else map_option (\<lambda>(s, q). (c # s, q)) (parse_str r))"
  by pat_completeness auto
termination
  by (relation "measure length") (auto dest: unesc_shorter)

lemma char_eq_of_nat: "(of_char c :: nat) = n \<Longrightarrow> c = char_of n"
  by (metis char_of_char)

lemma esc_char_cases:
  "esc_char c = [c] \<and> c \<noteq> CHR 0x22 \<and> c \<noteq> CHR 0x5C \<and> \<not> (of_char c :: nat) < 32 \<or>
   (\<exists>t. esc_char c = CHR 0x5C # t \<and> (\<forall>r. unesc (t @ r) = Some (c, r)))"
proof (cases "(of_char c :: nat) \<in> {34, 92, 8, 12, 10, 13, 9}")
  case True
  then show ?thesis
    by (elim insertE) (auto dest!: char_eq_of_nat simp: esc_char_def char_of_def bit_Suc_0_iff)
next
  case False
  then have other: "(of_char c :: nat) \<notin> {34, 92, 8, 12, 10, 13, 9}" .
  show ?thesis
  proof (cases "(of_char c :: nat) < 32")
    case True
    have "hex_val (CHR ''0'') = Some 0" by (simp add: hex_val_def Let_def)
    moreover have "hex_val (hex_char (of_char c div 16)) = Some (of_char c div 16)"
      "hex_val (hex_char (of_char c mod 16)) = Some (of_char c mod 16)"
      using True by simp_all
    moreover have "char_of (16 * (of_char c div 16 :: nat) + of_char c mod 16) = c"
      by (simp flip: minus_mod_eq_mult_div)
    ultimately show ?thesis using True other by (simp add: esc_char_def Let_def)
  next
    case False
    then show ?thesis using other by (auto simp: esc_char_def Let_def)
  qed
qed

lemma parse_str_quote:
  "parse_str (concat (map esc_char s) @ CHR 0x22 # r) = Some (s, r)"
proof (induction s)
  case (Cons c s)
  then show ?case using esc_char_cases [of c] by auto
qed simp

lemma quote_parse: "quote s @ r = CHR 0x22 # t \<Longrightarrow> parse_str t = Some (s, r)"
  unfolding quote_def by (auto simp: parse_str_quote)

subsection \<open>Values\<close>

fun comma_sep :: "string list \<Rightarrow> string" where
  "comma_sep [] = []"
| "comma_sep [x] = x"
| "comma_sep (x # y # ys) = x @ CHR '','' # comma_sep (y # ys)"

fun stringify :: "json \<Rightarrow> string" where
  "stringify JNull = ''null''"
| "stringify (JBool b) = (if b then ''true'' else ''false'')"
| "stringify (JNum i) = show_int i"
| "stringify (JStr s) = quote s"
| "stringify (JArr xs) = CHR ''['' # comma_sep (map stringify xs) @ '']''"
| "stringify (JObj ms) =
     CHR ''{'' # comma_sep (map (\<lambda>m. quote (fst m) @ CHR '':'' # stringify (snd m)) ms) @ ''}''"

definition is_ws :: "char \<Rightarrow> bool" where
  "is_ws c \<longleftrightarrow> (of_char c :: nat) \<in> {9, 10, 13, 32}"

definition skip_ws :: "string \<Rightarrow> string" where
  "skip_ws s = dropWhile is_ws s"

definition parse_int :: "string \<Rightarrow> (int \<times> string) option" where
  "parse_int s =
    (let neg = (s \<noteq> [] \<and> hd s = CHR ''-'');
         t = (if neg then tl s else s);
         ds = takeWhile is_digit t
     in if ds = [] then None
        else Some (if neg then - int (read_nat ds) else int (read_nat ds), dropWhile is_digit t))"

text \<open>One unit of fuel per recursive call; the length of the text bounds the nesting.\<close>

fun parse_val :: "nat \<Rightarrow> string \<Rightarrow> (json \<times> string) option"
and parse_elems :: "nat \<Rightarrow> string \<Rightarrow> (json list \<times> string) option"
and parse_members :: "nat \<Rightarrow> string \<Rightarrow> ((string \<times> json) list \<times> string) option" where
  "parse_val 0 s = None"
| "parse_val (Suc n) s =
    (case skip_ws s of
       [] \<Rightarrow> None
     | c # r \<Rightarrow>
        if c = CHR 0x22 then map_option (\<lambda>(t, q). (JStr t, q)) (parse_str r)
        else if c = CHR ''['' then
          (if skip_ws r \<noteq> [] \<and> hd (skip_ws r) = CHR '']'' then Some (JArr [], tl (skip_ws r))
           else map_option (\<lambda>(xs, q). (JArr xs, q)) (parse_elems n r))
        else if c = CHR ''{'' then
          (if skip_ws r \<noteq> [] \<and> hd (skip_ws r) = CHR ''}'' then Some (JObj [], tl (skip_ws r))
           else map_option (\<lambda>(ms, q). (JObj ms, q)) (parse_members n r))
        else if c = CHR ''n'' then (if prefix ''ull'' r then Some (JNull, drop 3 r) else None)
        else if c = CHR ''t'' then (if prefix ''rue'' r then Some (JBool True, drop 3 r) else None)
        else if c = CHR ''f'' then (if prefix ''alse'' r then Some (JBool False, drop 4 r) else None)
        else map_option (\<lambda>(i, q). (JNum i, q)) (parse_int (c # r)))"
| "parse_elems 0 s = None"
| "parse_elems (Suc n) s =
    (case parse_val n s of
       None \<Rightarrow> None
     | Some (x, r) \<Rightarrow>
        (case skip_ws r of
           [] \<Rightarrow> None
         | c # q \<Rightarrow>
            if c = CHR '']'' then Some ([x], q)
            else if c = CHR '','' then map_option (\<lambda>(xs, z). (x # xs, z)) (parse_elems n q)
            else None))"
| "parse_members 0 s = None"
| "parse_members (Suc n) s =
    (case skip_ws s of
       [] \<Rightarrow> None
     | c # r \<Rightarrow>
        if c \<noteq> CHR 0x22 then None
        else (case parse_str r of
          None \<Rightarrow> None
        | Some (k, q) \<Rightarrow>
           (case skip_ws q of
              [] \<Rightarrow> None
            | d # z \<Rightarrow>
               if d \<noteq> CHR '':'' then None
               else (case parse_val n z of
                 None \<Rightarrow> None
               | Some (v, y) \<Rightarrow>
                  (case skip_ws y of
                     [] \<Rightarrow> None
                   | e # w \<Rightarrow>
                      if e = CHR ''}'' then Some ([(k, v)], w)
                      else if e = CHR '','' then
                        map_option (\<lambda>(ms, z). ((k, v) # ms, z)) (parse_members n w)
                      else None)))))"

definition json_parse :: "string \<Rightarrow> json option" where
  "json_parse s =
    (case parse_val (Suc (length s)) s of
       None \<Rightarrow> None
     | Some (v, r) \<Rightarrow> if skip_ws r = [] then Some v else None)"

subsection \<open>The parser inverts the printer\<close>

text \<open>What may follow a value: nothing that could still belong to a number.\<close>

definition ends_value :: "string \<Rightarrow> bool" where
  "ends_value r \<longleftrightarrow> r = [] \<or> \<not> is_digit (hd r)"

fun json_depth :: "json \<Rightarrow> nat" where
  "json_depth (JArr xs) = Suc (length xs + sum_list (map json_depth xs))"
| "json_depth (JObj ms) = Suc (length ms + sum_list (map (\<lambda>m. json_depth (snd m)) ms))"
| "json_depth _ = 1"

lemma not_ws [simp]:
  "\<not> is_ws (CHR 0x22)" "\<not> is_ws (CHR ''['')" "\<not> is_ws (CHR '']'')" "\<not> is_ws (CHR ''{'')"
  "\<not> is_ws (CHR ''}'')" "\<not> is_ws (CHR '','')" "\<not> is_ws (CHR '':'')" "\<not> is_ws (CHR ''n'')"
  "\<not> is_ws (CHR ''t'')" "\<not> is_ws (CHR ''f'')" "\<not> is_ws (CHR ''-'')"
  by (simp_all add: is_ws_def)

lemma not_ws_digit: "is_digit c \<Longrightarrow> \<not> is_ws c"
  by (auto simp: is_ws_def is_digit_def)

lemma skip_ws_Cons [simp]: "\<not> is_ws c \<Longrightarrow> skip_ws (c # r) = c # r"
  by (simp add: skip_ws_def)

lemma ends_value_simps [simp]:
  "ends_value []" "ends_value (CHR '','' # r)" "ends_value (CHR '']'' # r)" "ends_value (CHR ''}'' # r)"
  by (simp_all add: ends_value_def is_digit_def)

lemma not_digit [simp]:
  "\<not> is_digit (CHR ''-'')" "\<not> is_digit (CHR 0x22)" "\<not> is_digit (CHR ''['')" "\<not> is_digit (CHR ''{'')"
  "\<not> is_digit (CHR ''n'')" "\<not> is_digit (CHR ''t'')" "\<not> is_digit (CHR ''f'')"
  by (simp_all add: is_digit_def)

lemma takeWhile_show_nat:
  "ends_value r \<Longrightarrow> takeWhile is_digit (show_nat n @ r) = show_nat n"
  "ends_value r \<Longrightarrow> dropWhile is_digit (show_nat n @ r) = r"
  using show_nat_digits [of n]
  by (cases r; auto simp: ends_value_def takeWhile_append dropWhile_append)+

lemma hd_show_nat: "is_digit (hd (show_nat n))"
  using show_nat_digits [of n] by (metis hd_in_set show_nat_nonempty)

lemma parse_int_show_int: "ends_value r \<Longrightarrow> parse_int (show_int i @ r) = Some (i, r)"
proof (cases "i < 0")
  case True
  assume "ends_value r"
  with True show ?thesis
    by (simp add: parse_int_def show_int_def takeWhile_show_nat Let_def)
next
  case False
  assume r: "ends_value r"
  have "hd (show_nat (nat i) @ r) \<noteq> CHR ''-''"
    using hd_show_nat [of "nat i"] by (metis hd_append2 not_digit(1) show_nat_nonempty)
  with False r show ?thesis
    by (simp add: parse_int_def show_int_def takeWhile_show_nat Let_def)
qed

lemma show_int_hd: "\<exists>c t. show_int i = c # t \<and> (c = CHR ''-'' \<or> is_digit c)"
  using hd_show_nat [of "nat i"] show_nat_nonempty [of "nat i"] unfolding show_int_def
  by (cases "show_nat (nat i)") auto

lemma stringify_hd:
  "\<exists>c t. stringify j = c # t \<and> \<not> is_ws c \<and> c \<noteq> CHR '']'' \<and> c \<noteq> CHR ''}''"
proof (cases j)
  case (JNum i)
  then show ?thesis
    using show_int_hd [of i] by (auto simp: not_ws_digit) (auto simp: is_digit_def)
qed (auto simp: quote_def)

lemma comma_sep_hd:
  "xs \<noteq> [] \<Longrightarrow> (\<And>x. x \<in> set xs \<Longrightarrow> \<exists>c t. x = c # t \<and> P c) \<Longrightarrow> \<exists>c t. comma_sep xs = c # t \<and> P c"
  by (cases xs rule: comma_sep.cases) fastforce+

abbreviation reads_back :: "json \<Rightarrow> bool" where
  "reads_back j \<equiv>
    \<forall>n r. json_depth j \<le> n \<longrightarrow> ends_value r \<longrightarrow> parse_val n (stringify j @ r) = Some (j, r)"

lemma parse_elems_stringify:
  assumes "xs \<noteq> []" and "\<forall>x \<in> set xs. reads_back x"
    and "length xs + sum_list (map json_depth xs) \<le> n"
  shows "parse_elems n (comma_sep (map stringify xs) @ CHR '']'' # r) = Some (xs, r)"
  using assms
proof (induction xs arbitrary: n rule: induct_list012)
  case (2 x)
  then show ?case by (cases n) auto
next
  case (3 x y ys)
  from "3.prems" obtain m where n: "n = Suc m" and m: "json_depth x \<le> m"
    "length (y # ys) + sum_list (map json_depth (y # ys)) \<le> m"
    by (cases n) auto
  with 3 have "parse_elems m (comma_sep (map stringify (y # ys)) @ CHR '']'' # r) = Some (y # ys, r)"
    by simp
  with "3.prems" n m show ?case by simp
qed simp

lemma parse_members_stringify:
  assumes "ms \<noteq> []" and "\<forall>m \<in> set ms. reads_back (snd m)"
    and "length ms + sum_list (map (\<lambda>m. json_depth (snd m)) ms) \<le> n"
  shows "parse_members n
    (comma_sep (map (\<lambda>m. quote (fst m) @ CHR '':'' # stringify (snd m)) ms) @ CHR ''}'' # r) = Some (ms, r)"
  using assms
proof (induction ms arbitrary: n rule: induct_list012)
  case (2 m)
  then show ?case by (cases n; cases m) (auto simp: quote_def parse_str_quote)
next
  case (3 x y ys)
  from "3.prems" obtain k where n: "n = Suc k" and k: "json_depth (snd x) \<le> k"
    "length (y # ys) + sum_list (map (\<lambda>m. json_depth (snd m)) (y # ys)) \<le> k"
    by (cases n) auto
  with 3 have "parse_members k
      (comma_sep (map (\<lambda>m. quote (fst m) @ CHR '':'' # stringify (snd m)) (y # ys)) @ CHR ''}'' # r)
      = Some (y # ys, r)"
    by simp
  with "3.prems" n k show ?case by (cases x) (simp add: quote_def parse_str_quote)
qed simp

lemma parse_val_stringify: "reads_back j"
proof (induction j rule: stringify.induct)
  case 1
  show ?case by (auto simp: less_eq_Suc_le [symmetric] gr0_conv_Suc)
next
  case (2 b)
  show ?case by (cases b) (auto simp: less_eq_Suc_le [symmetric] gr0_conv_Suc)
next
  case (3 i)
  show ?case
  proof (intro allI impI)
    fix n r assume "json_depth (JNum i) \<le> n" and r: "ends_value r"
    then obtain m where n: "n = Suc m" by (cases n) auto
    obtain c t where ct: "show_int i = c # t" "c = CHR ''-'' \<or> is_digit c"
      using show_int_hd by blast
    then have "\<not> is_ws c" "c \<notin> {CHR 0x22, CHR ''['', CHR ''{'', CHR ''n'', CHR ''t'', CHR ''f''}"
      by (auto simp: not_ws_digit)
    then show "parse_val n (stringify (JNum i) @ r) = Some (JNum i, r)"
      using parse_int_show_int [OF r, of i] ct n by simp
  qed
next
  case (4 s)
  show ?case by (auto simp: quote_def parse_str_quote less_eq_Suc_le [symmetric] gr0_conv_Suc)
next
  case (5 xs)
  show ?case
  proof (intro allI impI)
    fix n r assume fuel: "json_depth (JArr xs) \<le> n" and "ends_value r"
    then obtain m where n: "n = Suc m" by (cases n) auto
    show "parse_val n (stringify (JArr xs) @ r) = Some (JArr xs, r)"
    proof (cases "xs = []")
      case False
      then have "\<exists>c t. comma_sep (map stringify xs) = c # t \<and> \<not> is_ws c \<and> c \<noteq> CHR '']''"
        by (intro comma_sep_hd) (use stringify_hd in \<open>auto, metis\<close>)
      then obtain c t where "comma_sep (map stringify xs) = c # t" "\<not> is_ws c" "c \<noteq> CHR '']''"
        by blast
      with parse_elems_stringify [OF False, of m r] 5 fuel n show ?thesis by simp
    qed (simp add: n)
  qed
next
  case (6 ms)
  show ?case
  proof (intro allI impI)
    fix n r assume fuel: "json_depth (JObj ms) \<le> n" and "ends_value r"
    then obtain m where n: "n = Suc m" by (cases n) auto
    show "parse_val n (stringify (JObj ms) @ r) = Some (JObj ms, r)"
    proof (cases "ms = []")
      case False
      let ?f = "\<lambda>m. quote (fst m) @ CHR '':'' # stringify (snd m)"
      obtain t where "comma_sep (map ?f ms) = CHR 0x22 # t"
        using comma_sep_hd [of "map ?f ms" "\<lambda>c. c = CHR 0x22"] False by (auto simp: quote_def)
      with parse_members_stringify [OF False, of m r] 6 fuel n show ?thesis by simp
    qed (simp add: n)
  qed
qed

lemma length_comma_sep:
  "xs \<noteq> [] \<Longrightarrow> Suc (length (comma_sep xs)) = length xs + sum_list (map length xs)"
  by (induction xs rule: comma_sep.induct) auto

lemma json_depth_le: "json_depth j \<le> length (stringify j)"
proof (induction j rule: stringify.induct)
  case (3 i)
  show ?case using show_int_hd [of i] by auto
next
  case (5 xs)
  then have "sum_list (map json_depth xs) \<le> sum_list (map length (map stringify xs))"
    by (auto intro: sum_list_mono simp: comp_def)
  with length_comma_sep [of "map stringify xs"] show ?case by (cases "xs = []") auto
next
  case (6 ms)
  let ?f = "\<lambda>m. quote (fst m) @ CHR '':'' # stringify (snd m)"
  have "sum_list (map (\<lambda>m. json_depth (snd m)) ms) \<le> sum_list (map length (map ?f ms))"
    unfolding map_map by (rule sum_list_mono) (use 6 in \<open>fastforce intro: le_SucI trans_le_add2\<close>)
  with length_comma_sep [of "map ?f ms"] show ?case by (cases "ms = []") auto
qed (auto simp: quote_def)

theorem json_parse_stringify: "json_parse (stringify j) = Some j"
proof -
  have "parse_val (Suc (length (stringify j))) (stringify j @ []) = Some (j, [])"
    using parse_val_stringify [of j] json_depth_le [of j] le_SucI ends_value_simps(1) by blast
  then show ?thesis by (simp add: json_parse_def skip_ws_def del: parse_val.simps)
qed

lemma stringify_inj [simp]: "stringify a = stringify b \<longleftrightarrow> a = b"
  by (metis json_parse_stringify option.inject)

text \<open>Unique readability: a value printed in front of other text is recovered from it.\<close>

lemma stringify_append_inj:
  assumes "stringify a @ r = stringify b @ q" and "ends_value r" and "ends_value q"
  shows "a = b \<and> r = q"
proof -
  let ?n = "json_depth a + json_depth b"
  have "parse_val ?n (stringify a @ r) = Some (a, r)"
    by (rule parse_val_stringify [rule_format]) (simp_all add: assms)
  moreover have "parse_val ?n (stringify b @ q) = Some (b, q)"
    by (rule parse_val_stringify [rule_format]) (simp_all add: assms)
  ultimately have "Some (a, r) = Some (b, q)" unfolding assms(1) by (rule trans [OF sym])
  then show ?thesis by simp
qed

text \<open>\<open>JSON.stringify\<close> of an optional string, an absent value being \<open>null\<close>.\<close>

definition jopt :: "string option \<Rightarrow> json" where
  "jopt x = (case x of None \<Rightarrow> JNull | Some s \<Rightarrow> JStr s)"

lemma jopt_inj [simp]: "jopt a = jopt b \<longleftrightarrow> a = b"
  by (auto simp: jopt_def split: option.splits)

subsection \<open>Reading parsed values\<close>

fun json_str :: "json option \<Rightarrow> string option" where
  "json_str (Some (JStr s)) = Some s"
| "json_str _ = None"

fun json_num :: "json option \<Rightarrow> int option" where
  "json_num (Some (JNum n)) = Some n"
| "json_num _ = None"

fun json_strs :: "json option \<Rightarrow> string list option" where
  "json_strs (Some (JArr xs)) = those (map (\<lambda>x. json_str (Some x)) xs)"
| "json_strs _ = None"

fun json_fields :: "json \<Rightarrow> (string \<times> json) list" where
  "json_fields (JObj fs) = fs"
| "json_fields _ = []"

text \<open>A property of a parsed object; the last of several with one name counts.\<close>

definition json_get :: "json \<Rightarrow> string \<Rightarrow> json option" where
  "json_get j k = map_of (rev (json_fields j)) k"

end
