(* ===== verification/Hash_Chain.thy ===== *)
theory Hash_Chain
  imports Json_Text
begin

section \<open>Instants as text, and hash-chained audit logs\<close>

text \<open>
  \<open>toISOString\<close> renders an instant as \<open>YYYY-MM-DDTHH:mm:ss.sssZ\<close> (the extended six digit year
  outside 0 to 9999), by the usual conversion of a day number to a proleptic Gregorian date.

  Two services keep an append-only audit log in which every record carries the hash of its
  predecessor and the hash of its own JSON text without that field.  \<open>chain_ok\<close> is the check both
  verify with; the locale \<open>audit_log\<close> states what a log has to provide (the hashed text together
  with the stored hash determines the record, and shows its predecessor) and derives that
  appending keeps the check true and that two logs with the same head are equal unless the digest
  collides.
\<close>

subsection \<open>ISO 8601 text\<close>

definition pad_left :: "nat \<Rightarrow> string \<Rightarrow> string" where
  "pad_left n s = replicate (n - length s) (CHR ''0'') @ s"

definition civil_from_days :: "int \<Rightarrow> int \<times> int \<times> int" where
  "civil_from_days days =
    (let z = days + 719468;
         era = z div 146097;
         doe = z mod 146097;
         yoe = (doe - doe div 1460 + doe div 36524 - doe div 146096) div 365;
         doy = doe - (365 * yoe + yoe div 4 - yoe div 100);
         mp = (5 * doy + 2) div 153;
         d = doy - (153 * mp + 2) div 5 + 1;
         m = (if mp < 10 then mp + 3 else mp - 9)
     in (yoe + era * 400 + (if m \<le> 2 then 1 else 0), m, d))"

definition year_text :: "int \<Rightarrow> string" where
  "year_text y =
    (if 0 \<le> y \<and> y \<le> 9999 then pad_left 4 (show_int y)
     else if y < 0 then CHR ''-'' # pad_left 6 (show_int (- y))
     else CHR ''+'' # pad_left 6 (show_int y))"

definition toISOString :: "instant \<Rightarrow> string" where
  "toISOString t =
    (case civil_from_days (t div 86400000) of (y, m, d) \<Rightarrow>
      (let ms = t mod 86400000; two = (\<lambda>i. pad_left 2 (show_int i)) in
       year_text y @ ''-'' @ two m @ ''-'' @ two d @ ''T'' @ two (ms div 3600000) @ '':''
       @ two (ms div 60000 mod 60) @ '':'' @ two (ms div 1000 mod 60) @ ''.''
       @ pad_left 3 (show_int (ms mod 1000)) @ ''Z''))"

lemma toISOString_nonempty: "toISOString t \<noteq> []"
  by (simp add: toISOString_def case_prod_beta Let_def)

subsection \<open>Chains\<close>

fun chain_ok :: "('r \<Rightarrow> string) \<Rightarrow> ('r \<Rightarrow> string) \<Rightarrow> ('r \<Rightarrow> string) \<Rightarrow> (string \<Rightarrow> string) \<Rightarrow>
    string \<Rightarrow> 'r list \<Rightarrow> bool" where
  "chain_ok body prev rhash sha p [] = True"
| "chain_ok body prev rhash sha p (r # rs) =
     (prev r = p \<and> sha (body r) = rhash r \<and> chain_ok body prev rhash sha (rhash r) rs)"

definition chain_head :: "('r \<Rightarrow> string) \<Rightarrow> string \<Rightarrow> 'r list \<Rightarrow> string" where
  "chain_head rhash p rs = (if rs = [] then p else rhash (last rs))"

lemma chain_head_simps [simp]:
  "chain_head rhash p [] = p"
  "chain_head rhash p (rs @ [r]) = rhash r"
  by (simp_all add: chain_head_def)

lemma chain_ok_snoc:
  "chain_ok body prev rhash sha p (rs @ [r]) \<longleftrightarrow>
   chain_ok body prev rhash sha p rs \<and> prev r = chain_head rhash p rs \<and> sha (body r) = rhash r"
  by (induction rs arbitrary: p) (auto simp: chain_head_def)

text \<open>A digest that collides, or that hits the literal the first record points to.\<close>

definition digest_broken :: "(string \<Rightarrow> string) \<Rightarrow> string \<Rightarrow> bool" where
  "digest_broken sha genesis \<longleftrightarrow> (\<exists>a b. a \<noteq> b \<and> sha a = sha b) \<or> (\<exists>a. sha a = genesis)"

locale audit_log =
  fixes body :: "'r \<Rightarrow> string"
    and prev :: "'r \<Rightarrow> string"
    and rhash :: "'r \<Rightarrow> string"
    and sha :: "string \<Rightarrow> string"
  assumes body_inj: "body a = body b \<Longrightarrow> rhash a = rhash b \<Longrightarrow> a = b"
begin

lemma append_keeps_chain:
  "chain_ok body prev rhash sha g rs \<Longrightarrow> prev r = chain_head rhash g rs \<Longrightarrow> rhash r = sha (body r) \<Longrightarrow>
   chain_ok body prev rhash sha g (rs @ [r])"
  by (simp add: chain_ok_snoc)

lemma same_head_same_log:
  assumes "chain_ok body prev rhash sha g xs" and "chain_ok body prev rhash sha g ys"
    and "chain_head rhash g xs = chain_head rhash g ys"
    and sound: "\<not> digest_broken sha g"
  shows "xs = ys"
  using assms(1-3)
proof (induction xs arbitrary: ys rule: rev_induct)
  case Nil
  show ?case
  proof (cases ys rule: rev_cases)
    case (snoc zs z)
    with Nil have "sha (body z) = g" by (auto simp: chain_ok_snoc)
    with sound show ?thesis by (auto simp: digest_broken_def)
  qed simp
next
  case (snoc x xs)
  show ?case
  proof (cases ys rule: rev_cases)
    case Nil
    with snoc.prems have "sha (body x) = g" by (auto simp: chain_ok_snoc)
    with sound show ?thesis by (auto simp: digest_broken_def)
  next
    case (snoc zs z)
    with snoc.prems have h: "sha (body x) = sha (body z)" "rhash x = rhash z"
      by (auto simp: chain_ok_snoc)
    with sound have "x = z" by (metis body_inj digest_broken_def)
    moreover from this snoc snoc.prems have "chain_head rhash g xs = chain_head rhash g zs"
      by (auto simp: chain_ok_snoc)
    then have "xs = zs" using snoc.IH snoc snoc.prems by (auto simp: chain_ok_snoc)
    ultimately show ?thesis using snoc by simp
  qed
qed

end

end
