(* ===== verification/Support_Access.thy ===== *)
theory Support_Access
  imports Hash_Chain
begin

section \<open>Support access: grants, break-glass requests and access leases\<close>

text \<open>
  \<open>packages/support-access/src/index.ts\<close>: a tenant user asks for a support grant, confirms it with
  a second factor, approvers activate it, the support principal draws short-lived one-time leases
  from it, and every action is recorded in a hash-chained audit log.  Break-glass requests are the
  operator's emergency variant with two approvals and an alarm.

  The service object is the record \<open>sa_state\<close>; each public method is a function that returns its
  result or the thrown error code together with the new state.  \<open>ticks\<close> counts the calls of the
  injected clock and \<open>draws\<close> the random draws, so no two calls are assumed to agree.
  The literal field \<open>schemaVersion: 1\<close> of the records is left out.
\<close>

subsection \<open>Data\<close>

datatype support_action = ContentView | ArtifactDownload | AttachmentDownload | ContentDecrypt

fun action_text :: "support_action \<Rightarrow> string" where
  "action_text ContentView = ''content.view''"
| "action_text ArtifactDownload = ''artifact.download''"
| "action_text AttachmentDownload = ''attachment.download''"
| "action_text ContentDecrypt = ''content.decrypt''"

datatype support_role = TenantUser | Admin | Support | Operator | SecurityApprover | KmsOperator

datatype grant_status =
  PendingVerification | PendingApproval | Active | Revoked | Expired | Denied

datatype audit_outcome = Requested | Success | Failure

fun outcome_text :: "audit_outcome \<Rightarrow> string" where
  "outcome_text Requested = ''requested''"
| "outcome_text Success = ''success''"
| "outcome_text Failure = ''failure''"

datatype sa_error =
    TENANT_USER_INITIATION_REQUIRED | SEPARATION_OF_DUTY_REQUIRED | TTL_OUT_OF_RANGE
  | NARROW_OBJECT_SCOPE_REQUIRED | AMBIGUOUS_OBJECT_SCOPE | REQUESTER_MFA_REQUIRED | INVALID_STATE
  | APPROVER_ROLE_REQUIRED | DISTINCT_APPROVER_REQUIRED | KMS_OPERATOR_APPROVAL_REQUIRED
  | REVOKE_FORBIDDEN | GRANT_INACTIVE | SUPPORT_PRINCIPAL_MISMATCH | ACTION_SCOPE_MISMATCH
  | SESSION_SCOPE_MISMATCH | OBJECT_SCOPE_MISMATCH | KMS_DECRYPT_ROLE_REQUIRED | BREAK_GLASS_INACTIVE
  | BREAK_GLASS_PRINCIPAL_MISMATCH | BREAK_GLASS_SCOPE_MISMATCH | LEASE_INVALID
  | LEASE_REVOKED_OR_EXPIRED | LEASE_SCOPE_MISMATCH | OPERATOR_REQUIRED | INCIDENT_ID_REQUIRED
  | OUTBOX_NOT_FOUND | GRANT_NOT_FOUND | BREAK_GLASS_NOT_FOUND | VERSION_CONFLICT
  | IDEMPOTENCY_CONFLICT | ZodError

record support_actor =
  principalId :: string
  role :: support_role

text \<open>The fields grants and break-glass requests share.\<close>

record aggregate =
  tenantId :: string
  organizationId :: string
  workspaceId :: string
  sessionId :: "string option"
  actions :: "support_action list"
  reason :: string
  requesterPrincipalId :: string
  mfaEvidenceId :: "string option"
  approvalPrincipalIds :: "string list"
  status :: grant_status
  issuedAt :: "instant option"
  expiresAt :: instant
  revokedAt :: "instant option"
  version :: nat
  generation :: nat
  idempotencyKey :: string

record support_grant = aggregate +
  grantId :: string
  artifactId :: "string option"
  attachmentId :: "string option"
  supportPrincipalId :: string
  requiredApprovals :: nat

record break_glass = aggregate +
  breakGlassId :: string
  bgObjectId :: string
  incidentId :: string

record public_lease =
  leaseId :: string
  lGrantId :: "string option"
  lBreakGlassId :: "string option"
  lTenantId :: string
  lOrganizationId :: string
  lWorkspaceId :: string
  lSessionId :: "string option"
  lObjectId :: "string option"
  lAction :: support_action
  lPrincipalId :: string
  lGeneration :: nat
  lIssuedAt :: instant
  lExpiresAt :: instant
  lConsumedAt :: "instant option"
  lRevokedAt :: "instant option"

record access_lease = public_lease +
  tokenHash :: string

record audit_record =
  sequence :: nat
  aTenantId :: string
  aOrganizationId :: string
  aWorkspaceId :: string
  actorPrincipalId :: string
  scope :: string
  aAction :: string
  aOutcome :: audit_outcome
  aReason :: string
  aGrantId :: "string option"
  aBreakGlassId :: "string option"
  occurredAt :: string
  correlationId :: string
  previousHash :: string
  recordHash :: string

datatype aggregate_kind = KSupportGrant | KBreakGlass
datatype decision = Approve | Deny

record approval_record =
  aggregateKind :: aggregate_kind
  aggregateId :: string
  approvalId :: string
  approverPrincipalId :: string
  approverRole :: support_role
  apDecision :: decision
  apMfaEvidenceId :: string
  apIdempotencyKey :: string
  decidedAt :: instant

datatype outbox_kind = BreakGlassAlarm | TenantNotification
datatype outbox_status = OPending | ODelivered

record outbox_record =
  outboxId :: string
  oTenantId :: string
  oOrganizationId :: string
  oWorkspaceId :: string
  kind :: outbox_kind
  oAggregateId :: string
  oStatus :: outbox_status
  attempts :: nat
  availableAt :: instant
  deliveredAt :: "instant option"
  oIdempotencyKey :: string
  lastResultIdempotencyKey :: "string option"

record sa_state =
  grants :: "(string, support_grant) jsmap"
  breakGlass :: "(string, break_glass) jsmap"
  leases :: "(string, access_lease) jsmap"
  approvals :: "approval_record list"
  idempotency :: "(string, string) jsmap"
  audit :: "audit_record list"
  outbox :: "outbox_record list"
  ticks :: nat
  draws :: nat

type_synonym 'a sa_outcome = "(sa_error, 'a, sa_state) outcome"

definition HIGH_RISK :: "support_action list" where
  "HIGH_RISK = [ArtifactDownload, AttachmentDownload, ContentDecrypt]"

definition objectId :: "support_grant \<Rightarrow> string option" where
  "objectId g = nullish (artifactId g) (attachmentId g)"

definition terminal :: "grant_status \<Rightarrow> bool" where
  "terminal st \<longleftrightarrow> st \<in> {Revoked, Expired, Denied}"

text \<open>\<open>this.now()\<close> and a random draw.\<close>

definition tick :: "sa_state \<Rightarrow> sa_state" where
  "tick s = s\<lparr>ticks := Suc (ticks s)\<rparr>"

definition now :: "js_env \<Rightarrow> sa_state \<Rightarrow> instant" where
  "now e s = clock e (ticks s)"

definition draw :: "sa_state \<Rightarrow> sa_state" where
  "draw s = s\<lparr>draws := Suc (draws s)\<rparr>"

subsection \<open>The audit log\<close>

definition audit_body :: "audit_record \<Rightarrow> string" where
  "audit_body r = stringify (JObj
    [(''sequence'', JNum (int (sequence r))), (''tenantId'', JStr (aTenantId r)),
     (''organizationId'', JStr (aOrganizationId r)), (''workspaceId'', JStr (aWorkspaceId r)),
     (''actorPrincipalId'', JStr (actorPrincipalId r)), (''scope'', JStr (scope r)),
     (''action'', JStr (aAction r)), (''outcome'', JStr (outcome_text (aOutcome r))),
     (''reason'', JStr (aReason r)), (''grantId'', jopt (aGrantId r)),
     (''breakGlassId'', jopt (aBreakGlassId r)), (''occurredAt'', JStr (occurredAt r)),
     (''correlationId'', JStr (correlationId r)), (''previousHash'', JStr (previousHash r))])"

definition audit_scope :: "'a aggregate_scheme \<Rightarrow> string option \<Rightarrow> string" where
  "audit_scope a oid = stringify (JObj
    [(''workspaceId'', JStr (workspaceId a)), (''sessionId'', jopt (sessionId a)),
     (''objectId'', jopt oid), (''actions'', JArr (map (JStr \<circ> action_text) (actions a)))])"

text \<open>
  \<open>#appendAggregateAudit\<close>.  The code tells grants and break-glass requests apart with
  \<open>'grantId' in aggregate\<close>; here the caller passes the object id and the two optional ids.
\<close>

definition appendAggregateAudit :: "js_env \<Rightarrow> 'a aggregate_scheme \<Rightarrow> string option \<Rightarrow> string option \<Rightarrow>
    string option \<Rightarrow> string \<Rightarrow> string \<Rightarrow> audit_outcome \<Rightarrow> string \<Rightarrow> string \<Rightarrow> sa_state \<Rightarrow> sa_state" where
  "appendAggregateAudit e a oid gid bid actor act out rsn corr s =
    (let u = \<lparr>sequence = length (audit s) + 1,
              aTenantId = tenantId a, aOrganizationId = organizationId a, aWorkspaceId = workspaceId a,
              actorPrincipalId = actor, scope = audit_scope a oid, aAction = act, aOutcome = out,
              aReason = rsn, aGrantId = gid, aBreakGlassId = bid, occurredAt = toISOString (now e s),
              correlationId = corr,
              previousHash = (case at_last (audit s) of None \<Rightarrow> ''GENESIS'' | Some r \<Rightarrow> recordHash r),
              recordHash = []\<rparr>
     in (tick s)\<lparr>audit := audit s @ [u\<lparr>recordHash := sha256 e (audit_body u)\<rparr>]\<rparr>)"

definition appendAudit :: "js_env \<Rightarrow> support_grant \<Rightarrow> string \<Rightarrow> string \<Rightarrow> audit_outcome \<Rightarrow> string \<Rightarrow>
    string \<Rightarrow> sa_state \<Rightarrow> sa_state" where
  "appendAudit e g actor act out rsn corr s =
    appendAggregateAudit e g (objectId g) (Some (grantId g)) None actor act out rsn corr s"

definition appendBreakGlassAudit :: "js_env \<Rightarrow> break_glass \<Rightarrow> string \<Rightarrow> string \<Rightarrow> audit_outcome \<Rightarrow> string \<Rightarrow>
    string \<Rightarrow> sa_state \<Rightarrow> sa_state" where
  "appendBreakGlassAudit e b actor act out rsn corr s =
    appendAggregateAudit e b (Some (bgObjectId b)) None (Some (breakGlassId b)) actor act out rsn corr s"

fun verifyAuditChain_from :: "(string \<Rightarrow> string) \<Rightarrow> string \<Rightarrow> audit_record list \<Rightarrow> bool" where
  "verifyAuditChain_from sha p [] = True"
| "verifyAuditChain_from sha p (r # rs) =
    (if previousHash r \<noteq> p \<or> sha (audit_body r) \<noteq> recordHash r then False
     else verifyAuditChain_from sha (recordHash r) rs)"

definition verifyAuditChain :: "js_env \<Rightarrow> sa_state \<Rightarrow> bool" where
  "verifyAuditChain e s = verifyAuditChain_from (sha256 e) ''GENESIS'' (audit s)"

subsection \<open>Private helpers of the service\<close>

definition decisionReplay :: "string \<Rightarrow> string \<Rightarrow> sa_state \<Rightarrow> sa_error + bool" where
  "decisionReplay key aid s =
    (let seen = map_of (idempotency s) key in
     if truthy seen \<and> seen \<noteq> Some aid then Inl IDEMPOTENCY_CONFLICT else Inr (truthy seen))"

definition setIdempotency :: "string \<Rightarrow> string \<Rightarrow> sa_state \<Rightarrow> sa_state" where
  "setIdempotency key aid s = s\<lparr>idempotency := AList.update key aid (idempotency s)\<rparr>"

definition setGrant :: "support_grant \<Rightarrow> sa_state \<Rightarrow> sa_state" where
  "setGrant g s = s\<lparr>grants := AList.update (grantId g) g (grants s)\<rparr>"

definition setBreakGlass :: "break_glass \<Rightarrow> sa_state \<Rightarrow> sa_state" where
  "setBreakGlass b s = s\<lparr>breakGlass := AList.update (breakGlassId b) b (breakGlass s)\<rparr>"

definition revokeLease :: "js_env \<Rightarrow> string option \<Rightarrow> string option \<Rightarrow> string \<Rightarrow> sa_state \<Rightarrow> sa_state" where
  "revokeLease e gid bid lid s =
    (case map_of (leases s) lid of
       None \<Rightarrow> s
     | Some l \<Rightarrow>
        if lGrantId l = gid \<and> lBreakGlassId l = bid \<and> lRevokedAt l = None
        then (tick s)\<lparr>leases := AList.update lid (l\<lparr>lRevokedAt := Some (now e s)\<rparr>) (leases s)\<rparr>
        else s)"

definition revokeLeases :: "js_env \<Rightarrow> string option \<Rightarrow> string option \<Rightarrow> sa_state \<Rightarrow> sa_state" where
  "revokeLeases e gid bid s = fold (revokeLease e gid bid) (map fst (leases s)) s"

definition queueTenantNotification :: "js_env \<Rightarrow> break_glass \<Rightarrow> sa_state \<Rightarrow> sa_state" where
  "queueTenantNotification e b s =
    (if \<exists>v \<in> set (outbox s). kind v = TenantNotification \<and> oAggregateId v = breakGlassId b then s
     else (tick (draw s))\<lparr>outbox := outbox s @
       [\<lparr>outboxId = ''out_'' @ uuid e (draws s), oTenantId = tenantId b,
         oOrganizationId = organizationId b, oWorkspaceId = workspaceId b, kind = TenantNotification,
         oAggregateId = breakGlassId b, oStatus = OPending, attempts = 0, availableAt = now e s,
         deliveredAt = None, oIdempotencyKey = ''tenant-notification:'' @ breakGlassId b,
         lastResultIdempotencyKey = None\<rparr>]\<rparr>)"

subsection \<open>Expiry\<close>

definition expireGrant :: "js_env \<Rightarrow> instant \<Rightarrow> string \<Rightarrow> sa_state \<Rightarrow> sa_state" where
  "expireGrant e t gid s =
    (case map_of (grants s) gid of
       None \<Rightarrow> s
     | Some g \<Rightarrow>
        if \<not> terminal (status g) \<and> expiresAt g \<le> t
        then let g' = g\<lparr>status := Expired, generation := Suc (generation g), version := Suc (version g)\<rparr>
             in appendAudit e g' ''system'' ''grant.expired'' Success ''ttl'' (''expiry:'' @ grantId g)
                  (revokeLeases e (Some (grantId g)) None (setGrant g' s))
        else s)"

definition expireBreakGlass :: "js_env \<Rightarrow> instant \<Rightarrow> string \<Rightarrow> sa_state \<Rightarrow> sa_state" where
  "expireBreakGlass e t bid s =
    (case map_of (breakGlass s) bid of
       None \<Rightarrow> s
     | Some b \<Rightarrow>
        if \<not> terminal (status b) \<and> expiresAt b \<le> t
        then let b' = b\<lparr>status := Expired, generation := Suc (generation b), version := Suc (version b)\<rparr>
             in appendBreakGlassAudit e b' ''system'' ''break_glass.ended'' Success ''ttl''
                  (''expiry:'' @ breakGlassId b)
                  (queueTenantNotification e b'
                    (revokeLeases e None (Some (breakGlassId b)) (setBreakGlass b' s)))
        else s)"

definition expire :: "js_env \<Rightarrow> sa_state \<Rightarrow> sa_state" where
  "expire e s =
    (let t = now e s;
         s1 = fold (expireGrant e t) (map fst (grants s)) (tick s)
     in fold (expireBreakGlass e t) (map fst (breakGlass s1)) s1)"

subsection \<open>Grants\<close>

record grant_request =
  rqTenantId :: string
  rqOrganizationId :: string
  rqWorkspaceId :: string
  rqSessionId :: "string option"
  rqArtifactId :: "string option"
  rqAttachmentId :: "string option"
  rqActions :: "support_action list"
  rqReason :: string
  rqRequester :: support_actor
  rqSupportPrincipalId :: string
  rqDurationMinutes :: int
  rqIdempotencyKey :: string
  rqCorrelationId :: string

text \<open>\<open>supportGrantSchema.parse\<close>: the reason is trimmed, everything else is only checked.
  \<open>z.iso.datetime\<close> accepts four digit years.\<close>

definition supportGrantSchema_parse :: "support_grant \<Rightarrow> support_grant option" where
  "supportGrantSchema_parse g =
    (let g' = g\<lparr>reason := js_trim (reason g)\<rparr> in
     if ident (grantId g) \<and> ident (tenantId g) \<and> ident (organizationId g)
        \<and> ident (workspaceId g) \<and> nullable_ident (sessionId g)
        \<and> nullable_ident (artifactId g) \<and> nullable_ident (attachmentId g)
        \<and> 1 \<le> length (actions g) \<and> length (actions g) \<le> 4
        \<and> 8 \<le> length (reason g') \<and> length (reason g') \<le> 500
        \<and> ident (requesterPrincipalId g) \<and> ident (supportPrincipalId g)
        \<and> nullable_ident (mfaEvidenceId g)
        \<and> 1 \<le> requiredApprovals g \<and> requiredApprovals g \<le> 2
        \<and> list_all ident (approvalPrincipalIds g) \<and> length (approvalPrincipalIds g) \<le> 2
        \<and> nullable_datetime (issuedAt g) \<and> iso_datetime (expiresAt g) \<and> nullable_datetime (revokedAt g)
        \<and> 0 < version g \<and> ident (idempotencyKey g)
     then Some g' else None)"

text \<open>The object literal handed to the schema.\<close>

definition requested_grant :: "js_env \<Rightarrow> grant_request \<Rightarrow> sa_state \<Rightarrow> support_grant" where
  "requested_grant e rq s =
    (let highRisk = list_ex (\<lambda>a. a \<in> set HIGH_RISK) (rqActions rq) in
     \<lparr>tenantId = rqTenantId rq, organizationId = rqOrganizationId rq,
      workspaceId = rqWorkspaceId rq, sessionId = rqSessionId rq,
      actions = js_unique (rqActions rq), reason = rqReason rq,
      requesterPrincipalId = principalId (rqRequester rq), mfaEvidenceId = None,
      approvalPrincipalIds = [], status = PendingVerification, issuedAt = None,
      expiresAt = now e s + rqDurationMinutes rq * 60000, revokedAt = None,
      version = 1, generation = 0, idempotencyKey = rqIdempotencyKey rq,
      grantId = ''sgr_'' @ uuid e (draws s), artifactId = rqArtifactId rq,
      attachmentId = rqAttachmentId rq, supportPrincipalId = rqSupportPrincipalId rq,
      requiredApprovals = (if highRisk then 2 else 1)\<rparr>)"

text \<open>
  A replayed creation returns the grant stored under the recorded id; \<open>structuredClone\<close> of a
  missing entry is \<open>undefined\<close>, hence the optional result.
\<close>

definition createGrant :: "js_env \<Rightarrow> grant_request \<Rightarrow> sa_state \<Rightarrow> support_grant option sa_outcome" where
  "createGrant e rq s =
    (if role (rqRequester rq) \<noteq> TenantUser then (Inl TENANT_USER_INITIATION_REQUIRED, s)
     else if principalId (rqRequester rq) = rqSupportPrincipalId rq
       then (Inl SEPARATION_OF_DUTY_REQUIRED, s)
     else if rqDurationMinutes rq < 5 \<or> rqDurationMinutes rq > 60 then (Inl TTL_OUT_OF_RANGE, s)
     else if \<not> truthy (rqSessionId rq) \<and> \<not> truthy (rqArtifactId rq) \<and> \<not> truthy (rqAttachmentId rq)
       then (Inl NARROW_OBJECT_SCOPE_REQUIRED, s)
     else if truthy (rqArtifactId rq) \<and> truthy (rqAttachmentId rq)
       then (Inl AMBIGUOUS_OBJECT_SCOPE, s)
     else
       (let key = ''grant:'' @ rqIdempotencyKey rq in
        if truthy (map_of (idempotency s) key)
        then (Inr (map_of (grants s) (the (map_of (idempotency s) key))), s)
        else
          (let s1 = draw (tick s) in
           case supportGrantSchema_parse (requested_grant e rq s) of
             None \<Rightarrow> (Inl ZodError, s1)
           | Some g \<Rightarrow>
              (Inr (Some g),
               appendAudit e g (principalId (rqRequester rq)) ''grant.created'' Requested (rqReason rq)
                 (rqCorrelationId rq) (setIdempotency key (grantId g) (setGrant g s1))))))"

record decision_request =
  dAggregateId :: string
  dActor :: support_actor
  dExpectedVersion :: nat
  dIdempotencyKey :: string
  dMfaEvidenceId :: "string option"
  dCorrelationId :: string

text \<open>\<open>verifyGrantMfa\<close>; the evidence id is a mandatory argument of its own.\<close>

definition verifyGrantMfa :: "js_env \<Rightarrow> decision_request \<Rightarrow> string \<Rightarrow> sa_state \<Rightarrow> support_grant sa_outcome" where
  "verifyGrantMfa e rq evidence s =
    (case map_of (grants s) (dAggregateId rq) of
       None \<Rightarrow> (Inl GRANT_NOT_FOUND, s)
     | Some g \<Rightarrow>
       (case decisionReplay (''grant-mfa:'' @ dIdempotencyKey rq) (grantId g) s of
          Inl err \<Rightarrow> (Inl err, s)
        | Inr True \<Rightarrow> (Inr g, s)
        | Inr False \<Rightarrow>
          if version g \<noteq> dExpectedVersion rq then (Inl VERSION_CONFLICT, s)
          else if principalId (dActor rq) \<noteq> requesterPrincipalId g then (Inl REQUESTER_MFA_REQUIRED, s)
          else if status g \<noteq> PendingVerification then (Inl INVALID_STATE, s)
          else
            (let g' = g\<lparr>mfaEvidenceId := Some evidence, status := PendingApproval,
                        version := Suc (version g)\<rparr>
             in (Inr g',
                 appendAudit e g' (principalId (dActor rq)) ''grant.mfa_verified'' Success ''strong_mfa''
                   (dCorrelationId rq)
                   (setIdempotency (''grant-mfa:'' @ dIdempotencyKey rq) (grantId g) (setGrant g' s))))))"

definition approvals_for :: "aggregate_kind \<Rightarrow> string \<Rightarrow> approval_record list \<Rightarrow> approval_record list" where
  "approvals_for k aid aps =
    filter (\<lambda>v. aggregateKind v = k \<and> aggregateId v = aid \<and> apDecision v = Approve) aps"

definition grantDecision :: "js_env \<Rightarrow> decision_request \<Rightarrow> decision \<Rightarrow> support_grant \<Rightarrow> sa_state \<Rightarrow> approval_record" where
  "grantDecision e rq d g s =
    \<lparr>aggregateKind = KSupportGrant, aggregateId = grantId g,
     approvalId = ''sap_'' @ uuid e (draws s), approverPrincipalId = principalId (dActor rq),
     approverRole = role (dActor rq), apDecision = d,
     apMfaEvidenceId = (case dMfaEvidenceId rq of None \<Rightarrow> ''strong_mfa'' | Some m \<Rightarrow> m),
     apIdempotencyKey = dIdempotencyKey rq, decidedAt = now e s\<rparr>"

text \<open>The common tail of \<open>decideGrant\<close>, once the new status and approvers of the grant are set.\<close>

definition recordGrantDecision :: "js_env \<Rightarrow> decision_request \<Rightarrow> decision \<Rightarrow> approval_record \<Rightarrow> support_grant \<Rightarrow>
    sa_state \<Rightarrow> support_grant sa_outcome" where
  "recordGrantDecision e rq d ap g s =
    (let g2 = g\<lparr>version := Suc (version g)\<rparr>;
         actor = principalId (dActor rq);
         s3 = appendAudit e g2 actor
                (if d = Approve then ''grant.approved'' else ''grant.denied'') Success
                (if d = Approve then ''approve'' else ''deny'') (dCorrelationId rq)
                (setIdempotency (''grant-decision:'' @ dIdempotencyKey rq) (grantId g2)
                  (setGrant g2 (s\<lparr>approvals := approvals s @ [ap]\<rparr>)))
     in (Inr g2,
         if status g2 = Active
         then appendAudit e g2 actor ''grant.activated'' Success ''approval_threshold_met''
                (dCorrelationId rq) s3
         else s3))"

definition decideGrant :: "js_env \<Rightarrow> decision_request \<Rightarrow> decision \<Rightarrow> sa_state \<Rightarrow> support_grant sa_outcome" where
  "decideGrant e rq d s =
    (case map_of (grants s) (dAggregateId rq) of
       None \<Rightarrow> (Inl GRANT_NOT_FOUND, s)
     | Some g \<Rightarrow>
       (case decisionReplay (''grant-decision:'' @ dIdempotencyKey rq) (grantId g) s of
          Inl err \<Rightarrow> (Inl err, s)
        | Inr True \<Rightarrow> (Inr g, s)
        | Inr False \<Rightarrow>
          if version g \<noteq> dExpectedVersion rq then (Inl VERSION_CONFLICT, s)
          else if status g \<noteq> PendingApproval then (Inl INVALID_STATE, s)
          else if role (dActor rq) \<notin> {Support, SecurityApprover, KmsOperator}
            then (Inl APPROVER_ROLE_REQUIRED, s)
          else if principalId (dActor rq) = requesterPrincipalId g
            then (Inl SEPARATION_OF_DUTY_REQUIRED, s)
          else if principalId (dActor rq) \<in> set (approvalPrincipalIds g)
            then (Inl DISTINCT_APPROVER_REQUIRED, s)
          else
            (let ap = grantDecision e rq d g s;
                 s1 = tick (draw s);
                 approvers = approvalPrincipalIds g @ [principalId (dActor rq)];
                 candidates = approvals_for KSupportGrant (grantId g) (approvals s) @ [ap]
             in if d = Deny then
                  recordGrantDecision e rq d ap (g\<lparr>status := Denied, generation := Suc (generation g)\<rparr>) s1
                else if length candidates < requiredApprovals g then
                  recordGrantDecision e rq d ap (g\<lparr>approvalPrincipalIds := approvers\<rparr>) s1
                else if ContentDecrypt \<in> set (actions g)
                     \<and> \<not> list_ex (\<lambda>v. approverRole v = KmsOperator) candidates then
                  (Inl KMS_OPERATOR_APPROVAL_REQUIRED, s1)
                else
                  recordGrantDecision e rq d ap
                    (g\<lparr>status := Active, issuedAt := Some (now e s1), approvalPrincipalIds := approvers\<rparr>)
                    (tick s1))))"

definition revokeGrant :: "js_env \<Rightarrow> decision_request \<Rightarrow> sa_state \<Rightarrow> support_grant sa_outcome" where
  "revokeGrant e rq s =
    (case map_of (grants s) (dAggregateId rq) of
       None \<Rightarrow> (Inl GRANT_NOT_FOUND, s)
     | Some g \<Rightarrow>
       (case decisionReplay (''grant-revoke:'' @ dIdempotencyKey rq) (grantId g) s of
          Inl err \<Rightarrow> (Inl err, s)
        | Inr True \<Rightarrow> (Inr g, s)
        | Inr False \<Rightarrow>
          if version g \<noteq> dExpectedVersion rq then (Inl VERSION_CONFLICT, s)
          else if principalId (dActor rq) \<noteq> requesterPrincipalId g \<and> role (dActor rq) \<noteq> SecurityApprover
            then (Inl REVOKE_FORBIDDEN, s)
          else if terminal (status g) then (Inr g, s)
          else
            (let g' = g\<lparr>status := Revoked, revokedAt := Some (now e s),
                        generation := Suc (generation g), version := Suc (version g)\<rparr>
             in (Inr g',
                 appendAudit e g' (principalId (dActor rq)) ''grant.revoked'' Success ''early_revoke''
                   (dCorrelationId rq)
                   (setIdempotency (''grant-revoke:'' @ dIdempotencyKey rq) (grantId g)
                     (revokeLeases e (Some (grantId g)) None (setGrant g' (tick s))))))))"

definition listGrants :: "js_env \<Rightarrow> string \<Rightarrow> string \<Rightarrow> sa_state \<Rightarrow> support_grant list \<times> sa_state" where
  "listGrants e org ws s =
    (let s1 = expire e s in
     (filter (\<lambda>g. organizationId g = org \<and> workspaceId g = ws) (jvalues (grants s1)), s1))"

subsection \<open>Leases\<close>

record lease_request =
  lqAggregateId :: string
  lqActor :: support_actor
  lqSessionId :: "string option"
  lqObjectId :: "string option"
  lqAction :: support_action
  lqCorrelationId :: string

text \<open>
  \<open>randomBytes\<close> is drawn before \<open>randomUUID\<close>, and the clock is read in between; the public part
  of the lease and the clear token are returned, the stored lease keeps only the token's hash.
\<close>

definition grant_lease :: "js_env \<Rightarrow> lease_request \<Rightarrow> support_grant \<Rightarrow> sa_state \<Rightarrow> access_lease" where
  "grant_lease e rq g s =
    \<lparr>leaseId = ''jit_'' @ uuid e (Suc (draws s)), lGrantId = Some (grantId g),
     lBreakGlassId = None, lTenantId = tenantId g, lOrganizationId = organizationId g,
     lWorkspaceId = workspaceId g, lSessionId = sessionId g, lObjectId = objectId g,
     lAction = lqAction rq, lPrincipalId = principalId (lqActor rq),
     lGeneration = generation g, lIssuedAt = now e s,
     lExpiresAt = min (expiresAt g) (now e s + 5 * 60000), lConsumedAt = None,
     lRevokedAt = None, tokenHash = sha256 e (token e (draws s))\<rparr>"

definition issueLease :: "js_env \<Rightarrow> lease_request \<Rightarrow> sa_state \<Rightarrow> (public_lease \<times> string) sa_outcome" where
  "issueLease e rq s0 =
    (let s = expire e s0 in
     case map_of (grants s) (lqAggregateId rq) of
       None \<Rightarrow> (Inl GRANT_NOT_FOUND, s)
     | Some g \<Rightarrow>
       if status g \<noteq> Active then (Inl GRANT_INACTIVE, s)
       else if principalId (lqActor rq) \<noteq> supportPrincipalId g then (Inl SUPPORT_PRINCIPAL_MISMATCH, s)
       else if lqAction rq \<notin> set (actions g) then (Inl ACTION_SCOPE_MISMATCH, s)
       else if sessionId g \<noteq> lqSessionId rq then (Inl SESSION_SCOPE_MISMATCH, s)
       else if objectId g \<noteq> lqObjectId rq then (Inl OBJECT_SCOPE_MISMATCH, s)
       else if lqAction rq = ContentDecrypt \<and> role (lqActor rq) \<noteq> KmsOperator
         then (Inl KMS_DECRYPT_ROLE_REQUIRED, s)
       else
         (let tok = token e (draws s); s1 = draw (tick (draw s));
              l = grant_lease e rq g s
          in (Inr (public_lease.truncate l, tok),
              appendAudit e g (principalId (lqActor rq)) ''lease.issued'' Success
                (action_text (lqAction rq)) (lqCorrelationId rq)
                (s1\<lparr>leases := AList.update (leaseId l) l (leases s1)\<rparr>))))"

definition break_glass_lease :: "js_env \<Rightarrow> lease_request \<Rightarrow> break_glass \<Rightarrow> sa_state \<Rightarrow> access_lease" where
  "break_glass_lease e rq b s =
    \<lparr>leaseId = ''jit_'' @ uuid e (Suc (draws s)), lGrantId = None,
     lBreakGlassId = Some (breakGlassId b), lTenantId = tenantId b,
     lOrganizationId = organizationId b, lWorkspaceId = workspaceId b,
     lSessionId = sessionId b, lObjectId = Some (bgObjectId b), lAction = lqAction rq,
     lPrincipalId = principalId (lqActor rq), lGeneration = generation b, lIssuedAt = now e s,
     lExpiresAt = min (expiresAt b) (now e s + 2 * 60000), lConsumedAt = None,
     lRevokedAt = None, tokenHash = sha256 e (token e (draws s))\<rparr>"

definition issueBreakGlassLease :: "js_env \<Rightarrow> lease_request \<Rightarrow> sa_state \<Rightarrow> (public_lease \<times> string) sa_outcome" where
  "issueBreakGlassLease e rq s0 =
    (let s = expire e s0 in
     case map_of (breakGlass s) (lqAggregateId rq) of
       None \<Rightarrow> (Inl BREAK_GLASS_NOT_FOUND, s)
     | Some b \<Rightarrow>
       if status b \<noteq> Active then (Inl BREAK_GLASS_INACTIVE, s)
       else if principalId (lqActor rq) \<noteq> requesterPrincipalId b
            \<and> principalId (lqActor rq) \<notin> set (approvalPrincipalIds b)
         then (Inl BREAK_GLASS_PRINCIPAL_MISMATCH, s)
       else if sessionId b \<noteq> lqSessionId rq \<or> Some (bgObjectId b) \<noteq> lqObjectId rq
            \<or> lqAction rq \<notin> set (actions b)
         then (Inl BREAK_GLASS_SCOPE_MISMATCH, s)
       else if lqAction rq = ContentDecrypt \<and> role (lqActor rq) \<noteq> KmsOperator
         then (Inl KMS_DECRYPT_ROLE_REQUIRED, s)
       else
         (let tok = token e (draws s); s1 = draw (tick (draw s));
              l = break_glass_lease e rq b s
          in (Inr (public_lease.truncate l, tok),
              appendBreakGlassAudit e b (principalId (lqActor rq)) ''lease.issued'' Success
                (action_text (lqAction rq)) (lqCorrelationId rq)
                (s1\<lparr>leases := AList.update (leaseId l) l (leases s1)\<rparr>))))"

record consume_request =
  cLeaseId :: string
  cToken :: string
  cTenantId :: string
  cOrganizationId :: string
  cWorkspaceId :: string
  cSessionId :: "string option"
  cObjectId :: "string option"
  cAction :: support_action
  cPrincipalId :: string
  cCorrelationId :: string

definition consume_audit_action :: "support_action \<Rightarrow> string" where
  "consume_audit_action a =
    (if a = ContentView then ''content.viewed''
     else if a = ContentDecrypt then ''content.decrypted'' else ''content.downloaded'')"

definition lease_scope_mismatch :: "access_lease \<Rightarrow> consume_request \<Rightarrow> bool" where
  "lease_scope_mismatch l rq \<longleftrightarrow>
    lTenantId l \<noteq> cTenantId rq \<or> lOrganizationId l \<noteq> cOrganizationId rq
    \<or> lWorkspaceId l \<noteq> cWorkspaceId rq \<or> lSessionId l \<noteq> cSessionId rq \<or> lObjectId l \<noteq> cObjectId rq
    \<or> lAction l \<noteq> cAction rq \<or> lPrincipalId l \<noteq> cPrincipalId rq"

text \<open>
  The part of \<open>consumeLease\<close> after the aggregate was found; \<open>log\<close> appends the final audit record for
  that aggregate.  The clock is read only when the cheaper tests passed, as \<open>||\<close> does.
\<close>

definition consume_checked :: "js_env \<Rightarrow> consume_request \<Rightarrow> access_lease \<Rightarrow> grant_status \<Rightarrow> nat \<Rightarrow>
    (sa_state \<Rightarrow> sa_state) \<Rightarrow> sa_state \<Rightarrow> bool sa_outcome" where
  "consume_checked e rq l st gen log s =
    (if st \<noteq> Active \<or> gen \<noteq> lGeneration l \<or> lConsumedAt l \<noteq> None \<or> lRevokedAt l \<noteq> None
       then (Inl LEASE_REVOKED_OR_EXPIRED, s)
     else let s1 = tick s in
       if lExpiresAt l \<le> now e s then (Inl LEASE_REVOKED_OR_EXPIRED, s1)
       else if lease_scope_mismatch l rq then (Inl LEASE_SCOPE_MISMATCH, s1)
       else (Inr True,
             log ((tick s1)\<lparr>leases :=
               AList.update (cLeaseId rq) (l\<lparr>lConsumedAt := Some (now e s1)\<rparr>) (leases s1)\<rparr>)))"

definition consumeLease :: "js_env \<Rightarrow> consume_request \<Rightarrow> sa_state \<Rightarrow> bool sa_outcome" where
  "consumeLease e rq s0 =
    (let s = expire e s0 in
     case map_of (leases s) (cLeaseId rq) of
       None \<Rightarrow> (Inl LEASE_INVALID, s)
     | Some l \<Rightarrow>
       if tokenHash l \<noteq> sha256 e (cToken rq) then (Inl LEASE_INVALID, s)
       else if truthy (lGrantId l) then
         (case map_of (grants s) (the (lGrantId l)) of
            None \<Rightarrow> (Inl GRANT_NOT_FOUND, s)
          | Some g \<Rightarrow>
            consume_checked e rq l (status g) (generation g)
              (appendAudit e g (cPrincipalId rq) (consume_audit_action (cAction rq)) Success
                (action_text (cAction rq)) (cCorrelationId rq)) s)
       else
         (case Option.bind (lBreakGlassId l) (map_of (breakGlass s)) of
            None \<Rightarrow> (Inl BREAK_GLASS_NOT_FOUND, s)
          | Some b \<Rightarrow>
            consume_checked e rq l (status b) (generation b)
              (appendBreakGlassAudit e b (cPrincipalId rq) (consume_audit_action (cAction rq)) Success
                (action_text (cAction rq)) (cCorrelationId rq)) s))"

subsection \<open>Break-glass requests\<close>

record break_glass_request =
  bqTenantId :: string
  bqOrganizationId :: string
  bqWorkspaceId :: string
  bqSessionId :: "string option"
  bqObjectId :: string
  bqActions :: "support_action list"
  bqIncidentId :: string
  bqReason :: string
  bqRequester :: support_actor
  bqDurationMinutes :: int
  bqIdempotencyKey :: string
  bqCorrelationId :: string

text \<open>The pattern \<open>/^INC-[A-Z0-9-]{4,64}$/\<close>.\<close>

definition incident_char :: "char \<Rightarrow> bool" where
  "incident_char c \<longleftrightarrow> (let n = of_char c :: nat in 65 \<le> n \<and> n \<le> 90 \<or> 48 \<le> n \<and> n \<le> 57 \<or> n = 45)"

definition incident_id_ok :: "string \<Rightarrow> bool" where
  "incident_id_ok x \<longleftrightarrow>
    take 4 x = ''INC-'' \<and> list_all incident_char (drop 4 x)
    \<and> 4 \<le> length (drop 4 x) \<and> length (drop 4 x) \<le> 64"

definition requested_break_glass :: "js_env \<Rightarrow> break_glass_request \<Rightarrow> sa_state \<Rightarrow> break_glass" where
  "requested_break_glass e rq s =
    \<lparr>tenantId = bqTenantId rq, organizationId = bqOrganizationId rq,
     workspaceId = bqWorkspaceId rq, sessionId = bqSessionId rq,
     actions = js_unique (bqActions rq), reason = bqReason rq,
     requesterPrincipalId = principalId (bqRequester rq), mfaEvidenceId = None,
     approvalPrincipalIds = [], status = PendingVerification, issuedAt = None,
     expiresAt = now e s + bqDurationMinutes rq * 60000, revokedAt = None,
     version = 1, generation = 0, idempotencyKey = bqIdempotencyKey rq,
     breakGlassId = ''bgr_'' @ uuid e (draws s), bgObjectId = bqObjectId rq,
     incidentId = bqIncidentId rq\<rparr>"

definition createBreakGlass :: "js_env \<Rightarrow> break_glass_request \<Rightarrow> sa_state \<Rightarrow> break_glass option sa_outcome" where
  "createBreakGlass e rq s =
    (if role (bqRequester rq) \<noteq> Operator then (Inl OPERATOR_REQUIRED, s)
     else if \<not> incident_id_ok (bqIncidentId rq) then (Inl INCIDENT_ID_REQUIRED, s)
     else if \<not> truthy (bqSessionId rq) \<or> bqObjectId rq = [] \<or> bqActions rq = []
       then (Inl NARROW_OBJECT_SCOPE_REQUIRED, s)
     else if bqDurationMinutes rq < 1 \<or> bqDurationMinutes rq > 15 then (Inl TTL_OUT_OF_RANGE, s)
     else
       (let key = ''break-glass:'' @ bqIdempotencyKey rq in
        if truthy (map_of (idempotency s) key)
        then (Inr (map_of (breakGlass s) (the (map_of (idempotency s) key))), s)
        else
          (let s1 = draw (tick s);
               b = requested_break_glass e rq s
           in (Inr (Some b),
               appendBreakGlassAudit e b (principalId (bqRequester rq)) ''break_glass.started'' Requested
                 (bqIncidentId rq) (bqCorrelationId rq)
                 (setIdempotency key (breakGlassId b) (setBreakGlass b s1))))))"

definition verifyBreakGlassMfa :: "js_env \<Rightarrow> decision_request \<Rightarrow> string \<Rightarrow> sa_state \<Rightarrow> break_glass sa_outcome" where
  "verifyBreakGlassMfa e rq evidence s =
    (case map_of (breakGlass s) (dAggregateId rq) of
       None \<Rightarrow> (Inl BREAK_GLASS_NOT_FOUND, s)
     | Some b \<Rightarrow>
       (case decisionReplay (''break-mfa:'' @ dIdempotencyKey rq) (breakGlassId b) s of
          Inl err \<Rightarrow> (Inl err, s)
        | Inr True \<Rightarrow> (Inr b, s)
        | Inr False \<Rightarrow>
          if version b \<noteq> dExpectedVersion rq then (Inl VERSION_CONFLICT, s)
          else if principalId (dActor rq) \<noteq> requesterPrincipalId b then (Inl REQUESTER_MFA_REQUIRED, s)
          else
            (let b' = b\<lparr>mfaEvidenceId := Some evidence, status := PendingApproval,
                        version := Suc (version b)\<rparr>
             in (Inr b',
                 appendBreakGlassAudit e b' (principalId (dActor rq)) ''break_glass.mfa_verified'' Success
                   ''strong_mfa'' (dCorrelationId rq)
                   (setIdempotency (''break-mfa:'' @ dIdempotencyKey rq) (breakGlassId b)
                     (setBreakGlass b' s))))))"

text \<open>
  All break-glass approvals carry \<open>decision: 'approve'\<close>, and the code counts them without looking
  at the decision.
\<close>

definition break_approvals :: "string \<Rightarrow> approval_record list \<Rightarrow> approval_record list" where
  "break_approvals bid aps = filter (\<lambda>v. aggregateKind v = KBreakGlass \<and> aggregateId v = bid) aps"

definition breakGlassApproval :: "js_env \<Rightarrow> decision_request \<Rightarrow> break_glass \<Rightarrow> sa_state \<Rightarrow> approval_record" where
  "breakGlassApproval e rq b s =
    \<lparr>aggregateKind = KBreakGlass, aggregateId = breakGlassId b,
     approvalId = ''bap_'' @ uuid e (draws s), approverPrincipalId = principalId (dActor rq),
     approverRole = role (dActor rq), apDecision = Approve,
     apMfaEvidenceId = (case dMfaEvidenceId rq of None \<Rightarrow> ''strong_mfa'' | Some m \<Rightarrow> m),
     apIdempotencyKey = dIdempotencyKey rq, decidedAt = now e s\<rparr>"

definition breakGlassAlarm :: "js_env \<Rightarrow> break_glass \<Rightarrow> sa_state \<Rightarrow> outbox_record" where
  "breakGlassAlarm e b s =
    \<lparr>outboxId = ''out_'' @ uuid e (draws s), oTenantId = tenantId b,
     oOrganizationId = organizationId b, oWorkspaceId = workspaceId b,
     kind = BreakGlassAlarm, oAggregateId = breakGlassId b, oStatus = OPending,
     attempts = 0, availableAt = now e s, deliveredAt = None,
     oIdempotencyKey = ''break-glass-alarm:'' @ breakGlassId b, lastResultIdempotencyKey = None\<rparr>"

text \<open>The second approval: enqueue the alarm, activate, log both.\<close>

definition activateBreakGlass :: "js_env \<Rightarrow> decision_request \<Rightarrow> break_glass \<Rightarrow> sa_state \<Rightarrow> break_glass \<times> sa_state" where
  "activateBreakGlass e rq b s =
    (let s1 = (tick (draw s))\<lparr>outbox := outbox s @ [breakGlassAlarm e b s]\<rparr>;
         b' = b\<lparr>status := Active, issuedAt := Some (now e s1)\<rparr>;
         actor = principalId (dActor rq)
     in (b', appendBreakGlassAudit e b' actor ''break_glass.activated'' Success ''double_approval''
               (dCorrelationId rq)
               (appendBreakGlassAudit e b' actor ''alarm.enqueued'' Success ''durable_outbox''
                 (dCorrelationId rq) (setBreakGlass b' (tick s1)))))"

definition approveBreakGlass :: "js_env \<Rightarrow> decision_request \<Rightarrow> sa_state \<Rightarrow> break_glass sa_outcome" where
  "approveBreakGlass e rq s =
    (case map_of (breakGlass s) (dAggregateId rq) of
       None \<Rightarrow> (Inl BREAK_GLASS_NOT_FOUND, s)
     | Some b \<Rightarrow>
       (case decisionReplay (''break-approval:'' @ dIdempotencyKey rq) (breakGlassId b) s of
          Inl err \<Rightarrow> (Inl err, s)
        | Inr True \<Rightarrow> (Inr b, s)
        | Inr False \<Rightarrow>
          if version b \<noteq> dExpectedVersion rq then (Inl VERSION_CONFLICT, s)
          else if status b \<noteq> PendingApproval then (Inl INVALID_STATE, s)
          else if role (dActor rq) \<notin> {SecurityApprover, KmsOperator} then (Inl APPROVER_ROLE_REQUIRED, s)
          else if principalId (dActor rq) = requesterPrincipalId b
               \<or> principalId (dActor rq) \<in> set (approvalPrincipalIds b)
            then (Inl SEPARATION_OF_DUTY_REQUIRED, s)
          else
            (let ap = breakGlassApproval e rq b s;
                 s1 = tick (draw s);
                 candidates = break_approvals (breakGlassId b) (approvals s) @ [ap];
                 b1 = b\<lparr>approvalPrincipalIds := approvalPrincipalIds b @ [principalId (dActor rq)],
                        version := Suc (version b)\<rparr>;
                 s2 = setBreakGlass b1 (s1\<lparr>approvals := approvals s @ [ap]\<rparr>);
                 key = ''break-approval:'' @ dIdempotencyKey rq
             in if length candidates = 2 \<and> ContentDecrypt \<in> set (actions b)
                   \<and> \<not> list_ex (\<lambda>v. approverRole v = KmsOperator) candidates
                then (Inl KMS_OPERATOR_APPROVAL_REQUIRED, s1)
                else if length candidates = 2 then
                  (case activateBreakGlass e rq b1 s2 of
                     (b2, s3) \<Rightarrow> (Inr b2, setIdempotency key (breakGlassId b) s3))
                else (Inr b1, setIdempotency key (breakGlassId b) s2))))"

definition revokeBreakGlass :: "js_env \<Rightarrow> decision_request \<Rightarrow> sa_state \<Rightarrow> break_glass sa_outcome" where
  "revokeBreakGlass e rq s =
    (case map_of (breakGlass s) (dAggregateId rq) of
       None \<Rightarrow> (Inl BREAK_GLASS_NOT_FOUND, s)
     | Some b \<Rightarrow>
       if version b \<noteq> dExpectedVersion rq then (Inl VERSION_CONFLICT, s)
       else if role (dActor rq) \<notin> {Operator, SecurityApprover} then (Inl REVOKE_FORBIDDEN, s)
       else
         (let b' = b\<lparr>status := Revoked, revokedAt := Some (now e s),
                     generation := Suc (generation b), version := Suc (version b)\<rparr>
          in (Inr b',
              appendBreakGlassAudit e b' (principalId (dActor rq)) ''break_glass.ended'' Success
                ''early_revoke'' (dCorrelationId rq)
                (queueTenantNotification e b'
                  (revokeLeases e None (Some (breakGlassId b)) (setBreakGlass b' (tick s)))))))"

subsection \<open>Listing and the outbox\<close>

definition listAudit :: "string \<Rightarrow> string \<Rightarrow> sa_state \<Rightarrow> audit_record list" where
  "listAudit org ws s = filter (\<lambda>v. aOrganizationId v = org \<and> aWorkspaceId v = ws) (audit s)"

definition listOutbox :: "string \<Rightarrow> string \<Rightarrow> sa_state \<Rightarrow> outbox_record list" where
  "listOutbox org ws s = filter (\<lambda>v. oOrganizationId v = org \<and> oWorkspaceId v = ws) (outbox s)"

definition deliverOutbox :: "js_env \<Rightarrow> string \<Rightarrow> string option \<Rightarrow> sa_state \<Rightarrow> outbox_record sa_outcome" where
  "deliverOutbox e oid key s =
    (case find (\<lambda>v. outboxId v = oid) (outbox s) of
       None \<Rightarrow> (Inl OUTBOX_NOT_FOUND, s)
     | Some r \<Rightarrow>
       if oStatus r = ODelivered \<or> (truthy key \<and> lastResultIdempotencyKey r = key) then (Inr r, s)
       else
         (let r' = r\<lparr>attempts := Suc (attempts r), oStatus := ODelivered,
                     deliveredAt := Some (now e s), lastResultIdempotencyKey := key\<rparr>
          in (Inr r', (tick s)\<lparr>outbox := update_first (\<lambda>v. outboxId v = oid) (\<lambda>_. r') (outbox s)\<rparr>)))"

definition failOutbox :: "js_env \<Rightarrow> string \<Rightarrow> instant \<Rightarrow> string option \<Rightarrow> sa_state \<Rightarrow> outbox_record sa_outcome" where
  "failOutbox e oid retryAt key s =
    (case find (\<lambda>v. outboxId v = oid) (outbox s) of
       None \<Rightarrow> (Inl OUTBOX_NOT_FOUND, s)
     | Some r \<Rightarrow>
       if truthy key \<and> lastResultIdempotencyKey r = key then (Inr r, s)
       else
         (let r' = r\<lparr>attempts := Suc (attempts r), oStatus := OPending, availableAt := retryAt,
                     deliveredAt := None, lastResultIdempotencyKey := key\<rparr>
          in (Inr r', s\<lparr>outbox := update_first (\<lambda>v. outboxId v = oid) (\<lambda>_. r') (outbox s)\<rparr>)))"

subsection \<open>Snapshot and restart\<close>

record sa_snapshot =
  snGrants :: "support_grant list"
  snBreakGlass :: "break_glass list"
  snLeases :: "access_lease list"
  snApprovals :: "approval_record list"
  snIdempotency :: "(string \<times> string) list"
  snAudit :: "audit_record list"
  snOutbox :: "outbox_record list"

definition snapshot :: "sa_state \<Rightarrow> sa_snapshot" where
  "snapshot s = \<lparr>snGrants = jvalues (grants s), snBreakGlass = jvalues (breakGlass s),
     snLeases = jvalues (leases s), snApprovals = approvals s, snIdempotency = idempotency s,
     snAudit = audit s, snOutbox = outbox s\<rparr>"

definition initial_state :: sa_state where
  "initial_state = \<lparr>grants = [], breakGlass = [], leases = [], approvals = [], idempotency = [],
     audit = [], outbox = [], ticks = 0, draws = 0\<rparr>"

text \<open>The constructor: load the stored grants (each parsed again), requests, leases, approvals,
  idempotency entries, audit and outbox, in that order.\<close>

fun restoreGrants :: "support_grant list \<Rightarrow> sa_state \<Rightarrow> sa_state option" where
  "restoreGrants [] s = Some s"
| "restoreGrants (g # gs) s =
    (case supportGrantSchema_parse g of
       None \<Rightarrow> None
     | Some p \<Rightarrow>
        restoreGrants gs (setIdempotency (''grant:'' @ idempotencyKey p) (grantId p) (setGrant p s)))"

definition restoreBreakGlass :: "break_glass \<Rightarrow> sa_state \<Rightarrow> sa_state" where
  "restoreBreakGlass b s =
    setIdempotency (''break-glass:'' @ idempotencyKey b) (breakGlassId b) (setBreakGlass b s)"

definition restoreLease :: "access_lease \<Rightarrow> sa_state \<Rightarrow> sa_state" where
  "restoreLease l s = s\<lparr>leases := AList.update (leaseId l) l (leases s)\<rparr>"

definition restoreApprovalKey :: "approval_record \<Rightarrow> sa_state \<Rightarrow> sa_state" where
  "restoreApprovalKey a s =
    setIdempotency
      ((if aggregateKind a = KSupportGrant then ''grant-decision'' else ''break-approval'') @ '':''
        @ apIdempotencyKey a) (aggregateId a) s"

definition restore :: "sa_snapshot \<Rightarrow> sa_state option" where
  "restore sn =
    (case restoreGrants (snGrants sn) initial_state of
       None \<Rightarrow> None
     | Some s1 \<Rightarrow>
       (let s2 = fold restoreBreakGlass (snBreakGlass sn) s1;
            s3 = fold restoreLease (snLeases sn) s2;
            s4 = fold restoreApprovalKey (snApprovals sn) (s3\<lparr>approvals := snApprovals sn\<rparr>);
            s5 = fold (\<lambda>(k, a). setIdempotency k a) (snIdempotency sn) s4
        in Some (s5\<lparr>audit := snAudit sn, outbox := snOutbox sn\<rparr>)))"

subsection \<open>One step of the service\<close>

text \<open>Every state-changing method as one event; the result of the call is dropped.\<close>

datatype sa_event =
    CreateGrant grant_request
  | VerifyGrantMfa decision_request string
  | DecideGrant decision_request decision
  | RevokeGrant decision_request
  | ListGrants string string
  | IssueLease lease_request
  | IssueBreakGlassLease lease_request
  | ConsumeLease consume_request
  | CreateBreakGlass break_glass_request
  | VerifyBreakGlassMfa decision_request string
  | ApproveBreakGlass decision_request
  | RevokeBreakGlass decision_request
  | Expire
  | DeliverOutbox string "string option"
  | FailOutbox string instant "string option"

fun sa_exec :: "js_env \<Rightarrow> sa_event \<Rightarrow> sa_state \<Rightarrow> sa_state" where
  "sa_exec e (CreateGrant rq) s = snd (createGrant e rq s)"
| "sa_exec e (VerifyGrantMfa rq m) s = snd (verifyGrantMfa e rq m s)"
| "sa_exec e (DecideGrant rq d) s = snd (decideGrant e rq d s)"
| "sa_exec e (RevokeGrant rq) s = snd (revokeGrant e rq s)"
| "sa_exec e (ListGrants org ws) s = snd (listGrants e org ws s)"
| "sa_exec e (IssueLease rq) s = snd (issueLease e rq s)"
| "sa_exec e (IssueBreakGlassLease rq) s = snd (issueBreakGlassLease e rq s)"
| "sa_exec e (ConsumeLease rq) s = snd (consumeLease e rq s)"
| "sa_exec e (CreateBreakGlass rq) s = snd (createBreakGlass e rq s)"
| "sa_exec e (VerifyBreakGlassMfa rq m) s = snd (verifyBreakGlassMfa e rq m s)"
| "sa_exec e (ApproveBreakGlass rq) s = snd (approveBreakGlass e rq s)"
| "sa_exec e (RevokeBreakGlass rq) s = snd (revokeBreakGlass e rq s)"
| "sa_exec e Expire s = expire e s"
| "sa_exec e (DeliverOutbox oid key) s = snd (deliverOutbox e oid key s)"
| "sa_exec e (FailOutbox oid t key) s = snd (failOutbox e oid t key s)"

inductive sa_step :: "js_env \<Rightarrow> sa_state \<Rightarrow> sa_state \<Rightarrow> bool" for e where
  sa_stepI: "sa_step e s (sa_exec e ev s)"

inductive_cases sa_stepE: "sa_step e s t"

fun sa_run :: "js_env \<Rightarrow> sa_event list \<Rightarrow> sa_state \<Rightarrow> sa_state" where
  "sa_run e [] s = s"
| "sa_run e (ev # evs) s = sa_run e evs (sa_exec e ev s)"

lemma sa_reaches_exec: "reaches (sa_step e) s t \<Longrightarrow> reaches (sa_step e) s (sa_exec e ev t)"
  by (erule reaches_step) (rule sa_stepI)

lemma sa_run_reaches: "reaches (sa_step e) s (sa_run e evs s)"
proof (induction evs arbitrary: s)
  case (Cons ev evs)
  then show ?case
    by (auto intro: reaches_trans [OF sa_reaches_exec [OF reaches_refl]])
qed (simp add: reaches_refl)

subsection \<open>What the helpers leave alone\<close>

lemma tick_frame [simp]:
  "grants (tick s) = grants s" "breakGlass (tick s) = breakGlass s" "leases (tick s) = leases s"
  "approvals (tick s) = approvals s" "idempotency (tick s) = idempotency s" "audit (tick s) = audit s"
  "outbox (tick s) = outbox s" "draws (tick s) = draws s" "ticks (tick s) = Suc (ticks s)"
  by (simp_all add: tick_def)

lemma draw_frame [simp]:
  "grants (draw s) = grants s" "breakGlass (draw s) = breakGlass s" "leases (draw s) = leases s"
  "approvals (draw s) = approvals s" "idempotency (draw s) = idempotency s" "audit (draw s) = audit s"
  "outbox (draw s) = outbox s" "draws (draw s) = Suc (draws s)" "ticks (draw s) = ticks s"
  by (simp_all add: draw_def)

lemma appendAggregateAudit_frame [simp]:
  "grants (appendAggregateAudit e a oid gid bid actor act out rsn corr s) = grants s"
  "breakGlass (appendAggregateAudit e a oid gid bid actor act out rsn corr s) = breakGlass s"
  "leases (appendAggregateAudit e a oid gid bid actor act out rsn corr s) = leases s"
  "approvals (appendAggregateAudit e a oid gid bid actor act out rsn corr s) = approvals s"
  "idempotency (appendAggregateAudit e a oid gid bid actor act out rsn corr s) = idempotency s"
  "outbox (appendAggregateAudit e a oid gid bid actor act out rsn corr s) = outbox s"
  "draws (appendAggregateAudit e a oid gid bid actor act out rsn corr s) = draws s"
  by (simp_all add: appendAggregateAudit_def Let_def)

lemmas audit_defs = appendAudit_def appendBreakGlassAudit_def

lemma appendAudit_frame [simp]:
  "grants (appendAudit e g actor act out rsn corr s) = grants s"
  "breakGlass (appendAudit e g actor act out rsn corr s) = breakGlass s"
  "leases (appendAudit e g actor act out rsn corr s) = leases s"
  "approvals (appendAudit e g actor act out rsn corr s) = approvals s"
  "idempotency (appendAudit e g actor act out rsn corr s) = idempotency s"
  "outbox (appendAudit e g actor act out rsn corr s) = outbox s"
  "draws (appendAudit e g actor act out rsn corr s) = draws s"
  "grants (appendBreakGlassAudit e b actor act out rsn corr s) = grants s"
  "breakGlass (appendBreakGlassAudit e b actor act out rsn corr s) = breakGlass s"
  "leases (appendBreakGlassAudit e b actor act out rsn corr s) = leases s"
  "approvals (appendBreakGlassAudit e b actor act out rsn corr s) = approvals s"
  "idempotency (appendBreakGlassAudit e b actor act out rsn corr s) = idempotency s"
  "outbox (appendBreakGlassAudit e b actor act out rsn corr s) = outbox s"
  "draws (appendBreakGlassAudit e b actor act out rsn corr s) = draws s"
  by (simp_all add: audit_defs)

lemma set_frame [simp]:
  "grants (setIdempotency k a s) = grants s" "breakGlass (setIdempotency k a s) = breakGlass s"
  "leases (setIdempotency k a s) = leases s" "approvals (setIdempotency k a s) = approvals s"
  "audit (setIdempotency k a s) = audit s" "outbox (setIdempotency k a s) = outbox s"
  "draws (setIdempotency k a s) = draws s"
  "idempotency (setIdempotency k a s) = AList.update k a (idempotency s)"
  "grants (setGrant g s) = AList.update (grantId g) g (grants s)" "breakGlass (setGrant g s) = breakGlass s"
  "leases (setGrant g s) = leases s" "approvals (setGrant g s) = approvals s"
  "audit (setGrant g s) = audit s" "outbox (setGrant g s) = outbox s"
  "draws (setGrant g s) = draws s" "idempotency (setGrant g s) = idempotency s"
  "grants (setBreakGlass b s) = grants s"
  "breakGlass (setBreakGlass b s) = AList.update (breakGlassId b) b (breakGlass s)"
  "leases (setBreakGlass b s) = leases s" "approvals (setBreakGlass b s) = approvals s"
  "audit (setBreakGlass b s) = audit s" "outbox (setBreakGlass b s) = outbox s"
  "draws (setBreakGlass b s) = draws s" "idempotency (setBreakGlass b s) = idempotency s"
  by (simp_all add: setIdempotency_def setGrant_def setBreakGlass_def)

lemma ticks_frame [simp]:
  "ticks (appendAudit e g actor act out rsn corr s) = Suc (ticks s)"
  "ticks (appendBreakGlassAudit e b actor act out rsn corr s) = Suc (ticks s)"
  "ticks (setIdempotency k a s) = ticks s" "ticks (setGrant g s) = ticks s" "ticks (setBreakGlass b s) = ticks s"
  by (simp_all add: audit_defs appendAggregateAudit_def Let_def setIdempotency_def setGrant_def setBreakGlass_def)

lemma initial_state_fields [simp]:
  "grants initial_state = []" "breakGlass initial_state = []" "leases initial_state = []"
  "approvals initial_state = []" "idempotency initial_state = []" "audit initial_state = []"
  "outbox initial_state = []" "ticks initial_state = 0" "draws initial_state = 0"
  by (simp_all add: initial_state_def)

end
