(* ===== verification/Support_Ops.thy ===== *)
theory Support_Ops
  imports Support_Access
begin

section \<open>The operations of the support service, case by case\<close>

text \<open>
  For every operation, the parts of the state it leaves alone (simplification rules) and a case rule
  that lists its state-changing branches with the guards that hold there and the exact new state.
  The invariant proofs of the following theories are built on these rules and never unfold an
  operation again.
\<close>

subsection \<open>Frames\<close>

lemma revokeLease_frame [simp]:
  "grants (revokeLease e gid bid l s) = grants s" "breakGlass (revokeLease e gid bid l s) = breakGlass s"
  "approvals (revokeLease e gid bid l s) = approvals s" "audit (revokeLease e gid bid l s) = audit s"
  "idempotency (revokeLease e gid bid l s) = idempotency s" "outbox (revokeLease e gid bid l s) = outbox s"
  "draws (revokeLease e gid bid l s) = draws s"
  by (simp_all add: revokeLease_def split: option.splits)

lemma revokeLeases_frame [simp]:
  "grants (revokeLeases e gid bid s) = grants s" "breakGlass (revokeLeases e gid bid s) = breakGlass s"
  "approvals (revokeLeases e gid bid s) = approvals s" "audit (revokeLeases e gid bid s) = audit s"
  "idempotency (revokeLeases e gid bid s) = idempotency s" "outbox (revokeLeases e gid bid s) = outbox s"
  "draws (revokeLeases e gid bid s) = draws s"
  by (simp_all add: revokeLeases_def fold_frame)

lemma queueTenantNotification_frame [simp]:
  "grants (queueTenantNotification e b s) = grants s"
  "breakGlass (queueTenantNotification e b s) = breakGlass s"
  "leases (queueTenantNotification e b s) = leases s"
  "approvals (queueTenantNotification e b s) = approvals s"
  "audit (queueTenantNotification e b s) = audit s"
  "idempotency (queueTenantNotification e b s) = idempotency s"
  by (simp_all add: queueTenantNotification_def)

lemma draws_queueTenantNotification: "draws s \<le> draws (queueTenantNotification e b s)"
  by (simp add: queueTenantNotification_def)

lemma expireGrant_frame [simp]:
  "breakGlass (expireGrant e t k s) = breakGlass s" "approvals (expireGrant e t k s) = approvals s"
  "idempotency (expireGrant e t k s) = idempotency s" "outbox (expireGrant e t k s) = outbox s"
  "draws (expireGrant e t k s) = draws s"
  by (simp_all add: expireGrant_def Let_def split: option.splits)

lemma expireBreakGlass_frame [simp]:
  "grants (expireBreakGlass e t k s) = grants s" "approvals (expireBreakGlass e t k s) = approvals s"
  "idempotency (expireBreakGlass e t k s) = idempotency s"
  by (simp_all add: expireBreakGlass_def Let_def split: option.splits)

lemma expire_frame [simp]:
  "approvals (expire e s) = approvals s" "idempotency (expire e s) = idempotency s"
  by (simp_all add: expire_def Let_def fold_frame)

lemma grants_expire: "grants (expire e s) = grants (fold (expireGrant e (now e s)) (map fst (grants s)) (tick s))"
  by (simp add: expire_def Let_def fold_frame)

lemma draws_expire: "draws s \<le> draws (expire e s)"
proof -
  have "draws u \<le> draws (fold (expireBreakGlass e t) ks u)" for u ks t
  proof (induction ks arbitrary: u)
    case (Cons k ks)
    have "draws u \<le> draws (expireBreakGlass e t k u)"
      by (auto simp: expireBreakGlass_def Let_def split: option.splits
          intro: order_trans [OF _ draws_queueTenantNotification])
    with Cons show ?case by (auto intro: order_trans)
  qed simp
  then show ?thesis
    unfolding expire_def Let_def by (rule order_trans [rotated]) (simp add: fold_frame)
qed


subsection \<open>Decisions on grants\<close>

lemma decisionReplay_cases:
  "decisionReplay k a s = Inr False \<longleftrightarrow> \<not> truthy (map_of (idempotency s) k)"
  "decisionReplay k a s = Inr True \<longleftrightarrow> map_of (idempotency s) k = Some a \<and> a \<noteq> []"
  "decisionReplay k a s = Inl err \<longleftrightarrow>
    err = IDEMPOTENCY_CONFLICT \<and> truthy (map_of (idempotency s) k) \<and> map_of (idempotency s) k \<noteq> Some a"
  by (auto simp: decisionReplay_def Let_def truthy_iff)

lemma recordGrantDecision_frame [simp]:
  "grants (snd (recordGrantDecision e rq d ap g s)) =
    AList.update (grantId g) (g\<lparr>version := Suc (version g)\<rparr>) (grants s)"
  "approvals (snd (recordGrantDecision e rq d ap g s)) = approvals s @ [ap]"
  "breakGlass (snd (recordGrantDecision e rq d ap g s)) = breakGlass s"
  "leases (snd (recordGrantDecision e rq d ap g s)) = leases s"
  "outbox (snd (recordGrantDecision e rq d ap g s)) = outbox s"
  "draws (snd (recordGrantDecision e rq d ap g s)) = draws s"
  "idempotency (snd (recordGrantDecision e rq d ap g s)) =
    AList.update (''grant-decision:'' @ dIdempotencyKey rq) (grantId g) (idempotency s)"
  by (simp_all add: recordGrantDecision_def Let_def)

definition may_decide :: "decision_request \<Rightarrow> support_grant \<Rightarrow> bool" where
  "may_decide rq g \<longleftrightarrow> status g = PendingApproval \<and> version g = dExpectedVersion rq \<and>
    role (dActor rq) \<in> {Support, SecurityApprover, KmsOperator} \<and>
    principalId (dActor rq) \<noteq> requesterPrincipalId g \<and>
    principalId (dActor rq) \<notin> set (approvalPrincipalIds g)"

lemma decideGrant_cases:
  obtains (same) "snd (decideGrant e rq d s) = s"
  | (kms) "snd (decideGrant e rq d s) = tick (draw s)" "fst (decideGrant e rq d s) = Inl KMS_OPERATOR_APPROVAL_REQUIRED"
  | (denied) g where "map_of (grants s) (dAggregateId rq) = Some g" "may_decide rq g" "d = Deny"
      "decideGrant e rq d s = recordGrantDecision e rq d (grantDecision e rq d g s)
        (g\<lparr>status := Denied, generation := Suc (generation g)\<rparr>) (tick (draw s))"
  | (approved) g where "map_of (grants s) (dAggregateId rq) = Some g" "may_decide rq g" "d = Approve"
      "Suc (length (approvals_for KSupportGrant (grantId g) (approvals s))) < requiredApprovals g"
      "decideGrant e rq d s = recordGrantDecision e rq d (grantDecision e rq d g s)
        (g\<lparr>approvalPrincipalIds := approvalPrincipalIds g @ [principalId (dActor rq)]\<rparr>) (tick (draw s))"
  | (activated) g where "map_of (grants s) (dAggregateId rq) = Some g" "may_decide rq g" "d = Approve"
      "requiredApprovals g \<le> Suc (length (approvals_for KSupportGrant (grantId g) (approvals s)))"
      "ContentDecrypt \<in> set (actions g) \<Longrightarrow>
        \<exists>v \<in> set (approvals_for KSupportGrant (grantId g) (approvals s) @ [grantDecision e rq d g s]).
          approverRole v = KmsOperator"
      "decideGrant e rq d s = recordGrantDecision e rq d (grantDecision e rq d g s)
        (g\<lparr>status := Active, issuedAt := Some (now e (tick (draw s))),
           approvalPrincipalIds := approvalPrincipalIds g @ [principalId (dActor rq)]\<rparr>) (tick (tick (draw s)))"
proof (cases "map_of (grants s) (dAggregateId rq)")
  case None
  then show ?thesis by (intro same) (simp add: decideGrant_def)
next
  case (Some g)
  note g = Some
  show ?thesis
  proof (cases "decisionReplay (''grant-decision:'' @ dIdempotencyKey rq) (grantId g) s = Inr False \<and> may_decide rq g")
    case False
    with g show ?thesis
      by (intro same) (auto simp: decideGrant_def may_decide_def split: sum.splits bool.splits)
  next
    case True
    let ?cs = "approvals_for KSupportGrant (grantId g) (approvals s) @ [grantDecision e rq d g s]"
    have eq: "decideGrant e rq d s =
      (if d = Deny then
         recordGrantDecision e rq d (grantDecision e rq d g s)
           (g\<lparr>status := Denied, generation := Suc (generation g)\<rparr>) (tick (draw s))
       else if length ?cs < requiredApprovals g then
         recordGrantDecision e rq d (grantDecision e rq d g s)
           (g\<lparr>approvalPrincipalIds := approvalPrincipalIds g @ [principalId (dActor rq)]\<rparr>) (tick (draw s))
       else if ContentDecrypt \<in> set (actions g) \<and> \<not> list_ex (\<lambda>v. approverRole v = KmsOperator) ?cs
       then (Inl KMS_OPERATOR_APPROVAL_REQUIRED, tick (draw s))
       else recordGrantDecision e rq d (grantDecision e rq d g s)
        (g\<lparr>status := Active, issuedAt := Some (now e (tick (draw s))),
           approvalPrincipalIds := approvalPrincipalIds g @ [principalId (dActor rq)]\<rparr>) (tick (tick (draw s))))"
      using True g by (auto simp: decideGrant_def may_decide_def Let_def)
    consider "d = Deny" | "d = Approve" "length ?cs < requiredApprovals g"
      | "d = Approve" "\<not> length ?cs < requiredApprovals g" "ContentDecrypt \<in> set (actions g)"
        "\<not> list_ex (\<lambda>v. approverRole v = KmsOperator) ?cs"
      | "d = Approve" "\<not> length ?cs < requiredApprovals g"
        "ContentDecrypt \<in> set (actions g) \<Longrightarrow> list_ex (\<lambda>v. approverRole v = KmsOperator) ?cs"
      by (cases d) auto
    then show ?thesis
    proof cases
      case 1
      with eq show ?thesis using g True by (intro denied [of g]) auto
    next
      case 2
      with eq show ?thesis using g True by (intro approved [of g]) auto
    next
      case 3
      with eq show ?thesis by (intro kms) auto
    next
      case 4
      then have "decideGrant e rq d s = recordGrantDecision e rq d (grantDecision e rq d g s)
        (g\<lparr>status := Active, issuedAt := Some (now e (tick (draw s))),
           approvalPrincipalIds := approvalPrincipalIds g @ [principalId (dActor rq)]\<rparr>) (tick (tick (draw s)))"
        using eq by auto
      then show ?thesis using 4 g True by (intro activated [of g]) (auto simp: list_ex_iff)
    qed
  qed
qed


lemma verifyGrantMfa_cases:
  obtains (same) "snd (verifyGrantMfa e rq m s) = s"
  | (verified) g where "map_of (grants s) (dAggregateId rq) = Some g" "version g = dExpectedVersion rq"
      "principalId (dActor rq) = requesterPrincipalId g" "status g = PendingVerification"
      "snd (verifyGrantMfa e rq m s) =
        appendAudit e (g\<lparr>mfaEvidenceId := Some m, status := PendingApproval, version := Suc (version g)\<rparr>)
          (principalId (dActor rq)) ''grant.mfa_verified'' Success ''strong_mfa'' (dCorrelationId rq)
          (setIdempotency (''grant-mfa:'' @ dIdempotencyKey rq) (grantId g)
            (setGrant (g\<lparr>mfaEvidenceId := Some m, status := PendingApproval, version := Suc (version g)\<rparr>) s))"
proof (cases "snd (verifyGrantMfa e rq m s) = s")
  case True
  then show ?thesis by (rule same)
next
  case False
  then show ?thesis
    by (intro verified [of "the (map_of (grants s) (dAggregateId rq))"])
      (auto simp: verifyGrantMfa_def Let_def split: option.splits sum.splits bool.splits if_splits)
qed

lemma revokeGrant_cases:
  obtains (same) "snd (revokeGrant e rq s) = s"
  | (revoked) g where "map_of (grants s) (dAggregateId rq) = Some g" "version g = dExpectedVersion rq"
      "principalId (dActor rq) = requesterPrincipalId g \<or> role (dActor rq) = SecurityApprover"
      "\<not> terminal (status g)"
      "snd (revokeGrant e rq s) =
        appendAudit e (g\<lparr>status := Revoked, revokedAt := Some (now e s), generation := Suc (generation g),
            version := Suc (version g)\<rparr>)
          (principalId (dActor rq)) ''grant.revoked'' Success ''early_revoke'' (dCorrelationId rq)
          (setIdempotency (''grant-revoke:'' @ dIdempotencyKey rq) (grantId g)
            (revokeLeases e (Some (grantId g)) None
              (setGrant (g\<lparr>status := Revoked, revokedAt := Some (now e s), generation := Suc (generation g),
                version := Suc (version g)\<rparr>) (tick s))))"
proof (cases "snd (revokeGrant e rq s) = s")
  case True
  then show ?thesis by (rule same)
next
  case False
  then show ?thesis
    by (intro revoked [of "the (map_of (grants s) (dAggregateId rq))"])
      (auto simp: revokeGrant_def Let_def split: option.splits sum.splits bool.splits if_splits)
qed

lemma issueLease_frame [simp]:
  "grants (snd (issueLease e rq s)) = grants (expire e s)"
  "approvals (snd (issueLease e rq s)) = approvals s"
  "breakGlass (snd (issueLease e rq s)) = breakGlass (expire e s)"
  "outbox (snd (issueLease e rq s)) = outbox (expire e s)"
  "idempotency (snd (issueLease e rq s)) = idempotency s"
  by (simp_all add: issueLease_def Let_def split: option.splits)

lemma issueBreakGlassLease_frame [simp]:
  "grants (snd (issueBreakGlassLease e rq s)) = grants (expire e s)"
  "approvals (snd (issueBreakGlassLease e rq s)) = approvals s"
  "breakGlass (snd (issueBreakGlassLease e rq s)) = breakGlass (expire e s)"
  "outbox (snd (issueBreakGlassLease e rq s)) = outbox (expire e s)"
  "idempotency (snd (issueBreakGlassLease e rq s)) = idempotency s"
  by (simp_all add: issueBreakGlassLease_def Let_def split: option.splits)

lemma consume_checked_frame:
  assumes "\<And>u. h (log u) = h u" and "\<And>u. h (tick u) = h u" and "\<And>u ls. h (u\<lparr>leases := ls\<rparr>) = h u"
  shows "h (snd (consume_checked e rq l st gen log s)) = h s"
  using assms by (simp add: consume_checked_def Let_def)

lemma consumeLease_frame [simp]:
  "grants (snd (consumeLease e rq s)) = grants (expire e s)"
  "approvals (snd (consumeLease e rq s)) = approvals s"
  "breakGlass (snd (consumeLease e rq s)) = breakGlass (expire e s)"
  "outbox (snd (consumeLease e rq s)) = outbox (expire e s)"
  "idempotency (snd (consumeLease e rq s)) = idempotency s"
  "draws (snd (consumeLease e rq s)) = draws (expire e s)"
  by (auto simp: consumeLease_def Let_def consume_checked_frame split: option.splits)

lemma breakGlass_ops_frame [simp]:
  "grants (snd (createBreakGlass e bq s)) = grants s"
  "approvals (snd (createBreakGlass e bq s)) = approvals s"
  "leases (snd (createBreakGlass e bq s)) = leases s"
  "outbox (snd (createBreakGlass e bq s)) = outbox s"
  "grants (snd (verifyBreakGlassMfa e rq m s)) = grants s"
  "approvals (snd (verifyBreakGlassMfa e rq m s)) = approvals s"
  "leases (snd (verifyBreakGlassMfa e rq m s)) = leases s"
  "outbox (snd (verifyBreakGlassMfa e rq m s)) = outbox s"
  "draws (snd (verifyBreakGlassMfa e rq m s)) = draws s"
  "grants (snd (revokeBreakGlass e rq s)) = grants s"
  "approvals (snd (revokeBreakGlass e rq s)) = approvals s"
  "grants (snd (approveBreakGlass e rq s)) = grants s"
  "leases (snd (approveBreakGlass e rq s)) = leases s"
  by (simp_all add: createBreakGlass_def verifyBreakGlassMfa_def revokeBreakGlass_def approveBreakGlass_def
      activateBreakGlass_def Let_def split: option.splits sum.splits bool.splits)

lemma outbox_ops_frame [simp]:
  "grants (snd (deliverOutbox e oid key s)) = grants s" "grants (snd (failOutbox e oid t key s)) = grants s"
  "approvals (snd (deliverOutbox e oid key s)) = approvals s"
  "approvals (snd (failOutbox e oid t key s)) = approvals s"
  "breakGlass (snd (deliverOutbox e oid key s)) = breakGlass s"
  "breakGlass (snd (failOutbox e oid t key s)) = breakGlass s"
  "leases (snd (deliverOutbox e oid key s)) = leases s" "leases (snd (failOutbox e oid t key s)) = leases s"
  "draws (snd (deliverOutbox e oid key s)) = draws s" "draws (snd (failOutbox e oid t key s)) = draws s"
  "audit (snd (deliverOutbox e oid key s)) = audit s" "audit (snd (failOutbox e oid t key s)) = audit s"
  by (simp_all add: deliverOutbox_def failOutbox_def Let_def split: option.splits)

lemma listGrants_state [simp]: "snd (listGrants e org ws s) = expire e s"
  by (simp add: listGrants_def Let_def)

lemma createGrant_frame [simp]:
  "approvals (snd (createGrant e rq s)) = approvals s" "breakGlass (snd (createGrant e rq s)) = breakGlass s"
  "leases (snd (createGrant e rq s)) = leases s" "outbox (snd (createGrant e rq s)) = outbox s"
  by (simp_all add: createGrant_def Let_def split: option.splits)

lemma draws_createGrant: "draws s \<le> draws (snd (createGrant e rq s))"
  by (simp add: createGrant_def Let_def split: option.splits)

subsection \<open>Break-glass requests\<close>

definition may_approve :: "decision_request \<Rightarrow> break_glass \<Rightarrow> bool" where
  "may_approve rq b \<longleftrightarrow> status b = PendingApproval \<and> version b = dExpectedVersion rq \<and>
    role (dActor rq) \<in> {SecurityApprover, KmsOperator} \<and>
    principalId (dActor rq) \<noteq> requesterPrincipalId b \<and>
    principalId (dActor rq) \<notin> set (approvalPrincipalIds b)"

abbreviation approved_request :: "decision_request \<Rightarrow> break_glass \<Rightarrow> break_glass" where
  "approved_request rq b \<equiv> b\<lparr>approvalPrincipalIds := approvalPrincipalIds b @ [principalId (dActor rq)],
     version := Suc (version b)\<rparr>"

abbreviation approval_recorded :: "js_env \<Rightarrow> decision_request \<Rightarrow> break_glass \<Rightarrow> sa_state \<Rightarrow> sa_state" where
  "approval_recorded e rq b s \<equiv> setBreakGlass (approved_request rq b)
     ((tick (draw s))\<lparr>approvals := approvals s @ [breakGlassApproval e rq b s]\<rparr>)"

lemma approveBreakGlass_cases:
  obtains (same) "snd (approveBreakGlass e rq s) = s"
  | (kms) "snd (approveBreakGlass e rq s) = tick (draw s)"
      "fst (approveBreakGlass e rq s) = Inl KMS_OPERATOR_APPROVAL_REQUIRED"
  | (approved) b where "map_of (breakGlass s) (dAggregateId rq) = Some b" "may_approve rq b"
      "length (break_approvals (breakGlassId b) (approvals s)) \<noteq> 1"
      "approveBreakGlass e rq s = (Inr (approved_request rq b),
        setIdempotency (''break-approval:'' @ dIdempotencyKey rq) (breakGlassId b) (approval_recorded e rq b s))"
  | (activated) b where "map_of (breakGlass s) (dAggregateId rq) = Some b" "may_approve rq b"
      "length (break_approvals (breakGlassId b) (approvals s)) = 1"
      "ContentDecrypt \<in> set (actions b) \<Longrightarrow>
        \<exists>v \<in> set (break_approvals (breakGlassId b) (approvals s) @ [breakGlassApproval e rq b s]).
          approverRole v = KmsOperator"
      "approveBreakGlass e rq s =
        (Inr (fst (activateBreakGlass e rq (approved_request rq b) (approval_recorded e rq b s))),
         setIdempotency (''break-approval:'' @ dIdempotencyKey rq) (breakGlassId b)
          (snd (activateBreakGlass e rq (approved_request rq b) (approval_recorded e rq b s))))"
proof (cases "map_of (breakGlass s) (dAggregateId rq)")
  case None
  then show ?thesis by (intro same) (simp add: approveBreakGlass_def)
next
  case (Some b)
  note b = Some
  show ?thesis
  proof (cases "decisionReplay (''break-approval:'' @ dIdempotencyKey rq) (breakGlassId b) s = Inr False \<and> may_approve rq b")
    case False
    with b show ?thesis
      by (intro same) (auto simp: approveBreakGlass_def may_approve_def split: sum.splits bool.splits)
  next
    case True
    let ?cs = "break_approvals (breakGlassId b) (approvals s) @ [breakGlassApproval e rq b s]"
    let ?k = "''break-approval:'' @ dIdempotencyKey rq"
    have eq: "approveBreakGlass e rq s =
      (if length ?cs = 2 \<and> ContentDecrypt \<in> set (actions b) \<and> \<not> list_ex (\<lambda>v. approverRole v = KmsOperator) ?cs
       then (Inl KMS_OPERATOR_APPROVAL_REQUIRED, tick (draw s))
       else if length ?cs = 2 then
         (case activateBreakGlass e rq (approved_request rq b) (approval_recorded e rq b s) of
            (b2, s3) \<Rightarrow> (Inr b2, setIdempotency ?k (breakGlassId b) s3))
       else (Inr (approved_request rq b), setIdempotency ?k (breakGlassId b) (approval_recorded e rq b s)))"
      using True b by (auto simp: approveBreakGlass_def may_approve_def Let_def)
    consider "length ?cs = 2" "ContentDecrypt \<in> set (actions b)" "\<not> list_ex (\<lambda>v. approverRole v = KmsOperator) ?cs"
      | "length ?cs = 2" "ContentDecrypt \<in> set (actions b) \<Longrightarrow> list_ex (\<lambda>v. approverRole v = KmsOperator) ?cs"
      | "length ?cs \<noteq> 2"
      by blast
    then show ?thesis
    proof cases
      case 1
      then show ?thesis using eq by (intro kms) auto
    next
      case 2
      then have "approveBreakGlass e rq s =
        (Inr (fst (activateBreakGlass e rq (approved_request rq b) (approval_recorded e rq b s))),
         setIdempotency ?k (breakGlassId b)
          (snd (activateBreakGlass e rq (approved_request rq b) (approval_recorded e rq b s))))"
        using eq by (auto simp: case_prod_beta)
      then show ?thesis using 2 b True by (intro activated [of b]) (auto simp: list_ex_iff)
    next
      case 3
      then show ?thesis using eq b True by (intro approved [of b]) auto
    qed
  qed
qed

lemma activateBreakGlass_frame [simp]:
  "fst (activateBreakGlass e rq b s) = b\<lparr>status := Active, issuedAt := Some (now e (tick s))\<rparr>"
  "grants (snd (activateBreakGlass e rq b s)) = grants s"
  "breakGlass (snd (activateBreakGlass e rq b s)) =
    AList.update (breakGlassId b) (b\<lparr>status := Active, issuedAt := Some (now e (tick s))\<rparr>) (breakGlass s)"
  "leases (snd (activateBreakGlass e rq b s)) = leases s"
  "approvals (snd (activateBreakGlass e rq b s)) = approvals s"
  "idempotency (snd (activateBreakGlass e rq b s)) = idempotency s"
  "draws (snd (activateBreakGlass e rq b s)) = Suc (draws s)"
  "outbox (snd (activateBreakGlass e rq b s)) = outbox s @ [breakGlassAlarm e b s]"
  by (simp_all add: activateBreakGlass_def Let_def now_def)

lemma verifyBreakGlassMfa_cases:
  obtains (same) "snd (verifyBreakGlassMfa e rq m s) = s"
  | (verified) b where "map_of (breakGlass s) (dAggregateId rq) = Some b" "version b = dExpectedVersion rq"
      "principalId (dActor rq) = requesterPrincipalId b"
      "snd (verifyBreakGlassMfa e rq m s) =
        appendBreakGlassAudit e (b\<lparr>mfaEvidenceId := Some m, status := PendingApproval, version := Suc (version b)\<rparr>)
          (principalId (dActor rq)) ''break_glass.mfa_verified'' Success ''strong_mfa'' (dCorrelationId rq)
          (setIdempotency (''break-mfa:'' @ dIdempotencyKey rq) (breakGlassId b)
            (setBreakGlass (b\<lparr>mfaEvidenceId := Some m, status := PendingApproval, version := Suc (version b)\<rparr>) s))"
proof (cases "snd (verifyBreakGlassMfa e rq m s) = s")
  case True
  then show ?thesis by (rule same)
next
  case False
  then show ?thesis
    by (intro verified [of "the (map_of (breakGlass s) (dAggregateId rq))"])
      (auto simp: verifyBreakGlassMfa_def Let_def split: option.splits sum.splits bool.splits if_splits)
qed

lemma revokeBreakGlass_cases:
  obtains (same) "snd (revokeBreakGlass e rq s) = s"
  | (revoked) b where "map_of (breakGlass s) (dAggregateId rq) = Some b" "version b = dExpectedVersion rq"
      "role (dActor rq) \<in> {Operator, SecurityApprover}"
      "snd (revokeBreakGlass e rq s) =
        (let b' = b\<lparr>status := Revoked, revokedAt := Some (now e s),
                    generation := Suc (generation b), version := Suc (version b)\<rparr>
         in appendBreakGlassAudit e b' (principalId (dActor rq)) ''break_glass.ended'' Success
              ''early_revoke'' (dCorrelationId rq)
              (queueTenantNotification e b'
                (revokeLeases e None (Some (breakGlassId b)) (setBreakGlass b' (tick s)))))"
proof (cases "map_of (breakGlass s) (dAggregateId rq)")
  case None
  then show ?thesis by (intro same) (simp add: revokeBreakGlass_def)
next
  case (Some b)
  then show ?thesis
    by (cases "version b = dExpectedVersion rq \<and> role (dActor rq) \<in> {Operator, SecurityApprover}")
      (auto simp: revokeBreakGlass_def Let_def intro: same revoked [of b])
qed

lemma createBreakGlass_cases:
  obtains (same) "snd (createBreakGlass e rq s) = s"
  | (created) "0 < bqDurationMinutes rq" "bqDurationMinutes rq \<le> 15" "truthy (bqSessionId rq)"
      "bqObjectId rq \<noteq> []" "bqActions rq \<noteq> []"
      "\<not> truthy (map_of (idempotency s) (''break-glass:'' @ bqIdempotencyKey rq))"
      "snd (createBreakGlass e rq s) =
        appendBreakGlassAudit e (requested_break_glass e rq s) (principalId (bqRequester rq))
          ''break_glass.started'' Requested (bqIncidentId rq) (bqCorrelationId rq)
          (setIdempotency (''break-glass:'' @ bqIdempotencyKey rq) (''bgr_'' @ uuid e (draws s))
            (setBreakGlass (requested_break_glass e rq s) (draw (tick s))))"
proof (cases "snd (createBreakGlass e rq s) = s")
  case True
  then show ?thesis by (rule same)
next
  case False
  then show ?thesis
    by (intro created)
      (auto simp: createBreakGlass_def Let_def requested_break_glass_def split: if_splits)
qed

subsection \<open>Recorded idempotency keys\<close>

definition idem_kept :: "sa_state \<Rightarrow> sa_state \<Rightarrow> bool" where
  "idem_kept s t \<longleftrightarrow> (\<forall>k a. map_of (idempotency s) k = Some a \<longrightarrow> a \<noteq> [] \<longrightarrow> map_of (idempotency t) k = Some a)"

lemma idem_kept_same: "idempotency t = idempotency s \<Longrightarrow> idem_kept s t"
  by (simp add: idem_kept_def)

lemma idem_kept_set:
  "idempotency t = AList.update k a (idempotency s) \<Longrightarrow> \<not> truthy (map_of (idempotency s) k) \<Longrightarrow> idem_kept s t"
  by (auto simp: idem_kept_def truthy_iff)

text \<open>A request whose key is already recorded changes nothing; one whose key is new records at most that key.\<close>

lemma decisionReplay_truthy:
  "truthy (map_of (idempotency s) k) \<Longrightarrow>
   decisionReplay k a s = (if map_of (idempotency s) k = Some a then Inr True else Inl IDEMPOTENCY_CONFLICT)"
  by (auto simp: decisionReplay_def)

lemma replayed_state:
  "truthy (map_of (idempotency s) (''grant-decision:'' @ dIdempotencyKey rq)) \<Longrightarrow> snd (decideGrant e rq d s) = s"
  "truthy (map_of (idempotency s) (''grant-mfa:'' @ dIdempotencyKey rq)) \<Longrightarrow> snd (verifyGrantMfa e rq m s) = s"
  "truthy (map_of (idempotency s) (''grant-revoke:'' @ dIdempotencyKey rq)) \<Longrightarrow> snd (revokeGrant e rq s) = s"
  "truthy (map_of (idempotency s) (''break-mfa:'' @ dIdempotencyKey rq)) \<Longrightarrow> snd (verifyBreakGlassMfa e rq m s) = s"
  "truthy (map_of (idempotency s) (''break-approval:'' @ dIdempotencyKey rq)) \<Longrightarrow> snd (approveBreakGlass e rq s) = s"
  by (simp_all add: decideGrant_def verifyGrantMfa_def revokeGrant_def verifyBreakGlassMfa_def approveBreakGlass_def decisionReplay_truthy split: option.split)

lemma recorded_key_decide:
  "idempotency (snd (decideGrant e rq d s)) \<noteq> idempotency s \<Longrightarrow>
    \<exists>a. idempotency (snd (decideGrant e rq d s)) = AList.update (''grant-decision:'' @ dIdempotencyKey rq) a (idempotency s)"
  by (cases rule: decideGrant_cases [of e rq d s]) auto

lemma recorded_key_verify:
  "idempotency (snd (verifyGrantMfa e rq m s)) \<noteq> idempotency s \<Longrightarrow>
    \<exists>a. idempotency (snd (verifyGrantMfa e rq m s)) = AList.update (''grant-mfa:'' @ dIdempotencyKey rq) a (idempotency s)"
  by (cases rule: verifyGrantMfa_cases [of e rq m s]) auto

lemma recorded_key_revoke:
  "idempotency (snd (revokeGrant e rq s)) \<noteq> idempotency s \<Longrightarrow>
    \<exists>a. idempotency (snd (revokeGrant e rq s)) = AList.update (''grant-revoke:'' @ dIdempotencyKey rq) a (idempotency s)"
  by (cases rule: revokeGrant_cases [of e rq s]) auto

lemma recorded_key_break_mfa:
  "idempotency (snd (verifyBreakGlassMfa e rq m s)) \<noteq> idempotency s \<Longrightarrow>
    \<exists>a. idempotency (snd (verifyBreakGlassMfa e rq m s)) = AList.update (''break-mfa:'' @ dIdempotencyKey rq) a (idempotency s)"
  by (cases rule: verifyBreakGlassMfa_cases [of e rq m s]) auto

lemma recorded_key_break_approve:
  "idempotency (snd (approveBreakGlass e rq s)) \<noteq> idempotency s \<Longrightarrow>
    \<exists>a. idempotency (snd (approveBreakGlass e rq s)) = AList.update (''break-approval:'' @ dIdempotencyKey rq) a (idempotency s)"
  by (cases rule: approveBreakGlass_cases [of e rq s]) auto

lemma idem_kept_keyed:
  assumes "truthy (map_of (idempotency s) k) \<Longrightarrow> t = s"
    and "idempotency t \<noteq> idempotency s \<Longrightarrow> \<exists>a. idempotency t = AList.update k a (idempotency s)"
  shows "idem_kept s t"
proof (cases "idempotency t = idempotency s")
  case False
  then show ?thesis using assms idem_kept_set by blast
qed (rule idem_kept_same)

lemma idempotency_other:
  "idempotency (snd (createGrant e gq s)) = idempotency s \<or>
   (\<exists>k a. idempotency (snd (createGrant e gq s)) = AList.update k a (idempotency s)
    \<and> \<not> truthy (map_of (idempotency s) k))"
  "idempotency (snd (createBreakGlass e bq s)) = idempotency s \<or>
   (\<exists>k a. idempotency (snd (createBreakGlass e bq s)) = AList.update k a (idempotency s)
    \<and> \<not> truthy (map_of (idempotency s) k))"
  by (simp_all add: createGrant_def createBreakGlass_def Let_def split: option.splits) blast+

lemma idempotency_kept_ops [simp]:
  "idempotency (snd (revokeBreakGlass e rq s)) = idempotency s"
  "idempotency (snd (deliverOutbox e oid key s)) = idempotency s"
  "idempotency (snd (failOutbox e oid t key s)) = idempotency s"
  by (simp_all add: revokeBreakGlass_def deliverOutbox_def failOutbox_def Let_def split: option.splits)

lemma idem_kept_exec: "idem_kept s (sa_exec e ev s)"
proof (cases ev)
  case (CreateGrant rq)
  then show ?thesis using idempotency_other(1) [of e rq s] by (auto intro: idem_kept_same idem_kept_set)
next
  case (CreateBreakGlass rq)
  then show ?thesis using idempotency_other(2) [of e rq s] by (auto intro: idem_kept_same idem_kept_set)
next
  case (DecideGrant rq d)
  then show ?thesis using idem_kept_keyed [OF replayed_state(1) recorded_key_decide] by simp
next
  case (VerifyGrantMfa rq m)
  then show ?thesis using idem_kept_keyed [OF replayed_state(2) recorded_key_verify] by simp
next
  case (RevokeGrant rq)
  then show ?thesis using idem_kept_keyed [OF replayed_state(3) recorded_key_revoke] by simp
next
  case (VerifyBreakGlassMfa rq m)
  then show ?thesis using idem_kept_keyed [OF replayed_state(4) recorded_key_break_mfa] by simp
next
  case (ApproveBreakGlass rq)
  then show ?thesis using idem_kept_keyed [OF replayed_state(5) recorded_key_break_approve] by simp
qed (auto intro: idem_kept_same)

lemma idem_kept_run: "reaches (sa_step e) s t \<Longrightarrow> idem_kept s t"
proof (induction rule: reaches.induct)
  case (reaches_step s t u)
  then show ?case using idem_kept_exec by (fastforce simp: idem_kept_def elim!: sa_stepE)
qed (simp add: idem_kept_def)


end
