(* ===== verification/Support_Grants.thy ===== *)
theory Support_Grants
  imports Support_Ops
begin

section \<open>The life cycle of a support grant\<close>

text \<open>
  \<open>grant_step\<close> is the life cycle the service is meant to follow, \<open>grant_wf\<close> its invariant, and
  \<open>grants_next\<close> states that an operation moves every stored grant along that life cycle and keeps the
  stored approvals in step with it.  There is one such lemma per operation; the reachability theorems
  follow from the locale \<open>transition_system\<close>, interpreted on the life cycle and on the service.
\<close>

subsection \<open>The life cycle\<close>

inductive grant_step :: "support_grant \<Rightarrow> support_grant \<Rightarrow> bool" where
  gs_verify: "status g = PendingVerification \<Longrightarrow>
    grant_step g (g\<lparr>mfaEvidenceId := Some m, status := PendingApproval, version := Suc (version g)\<rparr>)"
| gs_approve: "status g = PendingApproval \<Longrightarrow> p \<notin> set (approvalPrincipalIds g) \<Longrightarrow>
    p \<noteq> requesterPrincipalId g \<Longrightarrow> Suc (length (approvalPrincipalIds g)) < requiredApprovals g \<Longrightarrow>
    grant_step g (g\<lparr>approvalPrincipalIds := approvalPrincipalIds g @ [p], version := Suc (version g)\<rparr>)"
| gs_activate: "status g = PendingApproval \<Longrightarrow> p \<notin> set (approvalPrincipalIds g) \<Longrightarrow>
    p \<noteq> requesterPrincipalId g \<Longrightarrow> requiredApprovals g \<le> Suc (length (approvalPrincipalIds g)) \<Longrightarrow>
    grant_step g (g\<lparr>status := Active, issuedAt := Some t,
      approvalPrincipalIds := approvalPrincipalIds g @ [p], version := Suc (version g)\<rparr>)"
| gs_deny: "status g = PendingApproval \<Longrightarrow>
    grant_step g (g\<lparr>status := Denied, generation := Suc (generation g), version := Suc (version g)\<rparr>)"
| gs_revoke: "\<not> terminal (status g) \<Longrightarrow>
    grant_step g (g\<lparr>status := Revoked, revokedAt := Some t, generation := Suc (generation g),
      version := Suc (version g)\<rparr>)"
| gs_expire: "\<not> terminal (status g) \<Longrightarrow>
    grant_step g (g\<lparr>status := Expired, generation := Suc (generation g), version := Suc (version g)\<rparr>)"

definition grant_init :: "support_grant \<Rightarrow> bool" where
  "grant_init g \<longleftrightarrow> status g = PendingVerification \<and> mfaEvidenceId g = None \<and> approvalPrincipalIds g = []
    \<and> issuedAt g = None \<and> revokedAt g = None \<and> version g = 1 \<and> generation g = 0
    \<and> grantId g \<noteq> [] \<and> requesterPrincipalId g \<noteq> supportPrincipalId g \<and> actions g \<noteq> []
    \<and> requiredApprovals g = (if \<exists>a \<in> set (actions g). a \<in> set HIGH_RISK then 2 else 1)
    \<and> (sessionId g \<noteq> None \<or> objectId g \<noteq> None)"

lemma parse_grant_Some:
  assumes "supportGrantSchema_parse g = Some p"
  shows "p = g\<lparr>reason := js_trim (reason g)\<rparr>" and "tenantId g \<noteq> []" and "actions g \<noteq> []"
    and "requesterPrincipalId g \<noteq> []" and "8 \<le> length (js_trim (reason g))"
    and "nullable_ident (sessionId g)" and "nullable_ident (artifactId g)" and "nullable_ident (attachmentId g)"
  using assms by (auto simp: supportGrantSchema_parse_def Let_def ident_def split: if_splits)

lemma requested_grant_init:
  assumes "supportGrantSchema_parse (requested_grant e rq s) = Some p"
    and "principalId (rqRequester rq) \<noteq> rqSupportPrincipalId rq"
    and "truthy (rqSessionId rq) \<or> truthy (rqArtifactId rq) \<or> truthy (rqAttachmentId rq)"
  shows "grant_init p"
proof -
  have p: "p = (requested_grant e rq s)\<lparr>reason := js_trim (rqReason rq)\<rparr>" "rqActions rq \<noteq> []"
    using parse_grant_Some(1,3) [OF assms(1)] by (auto simp: requested_grant_def Let_def)
  show ?thesis
    using assms(2,3) p(2) unfolding p(1) grant_init_def
    by (auto simp: requested_grant_def Let_def objectId_def list_ex_iff truthy_iff split: option.splits)
qed

lemma createGrant_effect:
  "grants (snd (createGrant e rq s)) = grants s \<or>
   (\<exists>g. grant_init g \<and> grantId g = ''sgr_'' @ uuid e (draws s) \<and> expiresAt g \<le> now e s + 60 * 60000 \<and>
     grants (snd (createGrant e rq s)) = AList.update (grantId g) g (grants s)
     \<and> draws (snd (createGrant e rq s)) = Suc (draws s))"
proof (cases "grants (snd (createGrant e rq s)) = grants s")
  case False
  then obtain p where p: "supportGrantSchema_parse (requested_grant e rq s) = Some p"
    "principalId (rqRequester rq) \<noteq> rqSupportPrincipalId rq" "rqDurationMinutes rq \<le> 60"
    "truthy (rqSessionId rq) \<or> truthy (rqArtifactId rq) \<or> truthy (rqAttachmentId rq)"
    "grants (snd (createGrant e rq s)) = AList.update (grantId p) p (grants s)"
    "draws (snd (createGrant e rq s)) = Suc (draws s)"
    unfolding createGrant_def by (auto simp: Let_def split: if_splits option.splits)
  moreover have "grantId p = ''sgr_'' @ uuid e (draws s)" "expiresAt p \<le> now e s + 60 * 60000"
    using parse_grant_Some(1) [OF p(1)] p(3) by (auto simp: requested_grant_def Let_def)
  ultimately show ?thesis using requested_grant_init by blast
qed simp

lemmas grant_step_simps = grant_step.simps terminal_def

lemma grant_step_static:
  assumes "grant_step g g'"
  shows "grantId g' = grantId g" "tenantId g' = tenantId g" "organizationId g' = organizationId g"
    "workspaceId g' = workspaceId g" "sessionId g' = sessionId g" "objectId g' = objectId g"
    "actions g' = actions g" "requesterPrincipalId g' = requesterPrincipalId g"
    "supportPrincipalId g' = supportPrincipalId g" "requiredApprovals g' = requiredApprovals g"
    "expiresAt g' = expiresAt g" "idempotencyKey g' = idempotencyKey g" "version g' = Suc (version g)"
    "generation g \<le> generation g'" "\<not> terminal (status g)" "reason g' = reason g"
  using assms by (cases; simp add: objectId_def terminal_def)+

definition grant_wf :: "support_grant \<Rightarrow> bool" where
  "grant_wf g \<longleftrightarrow>
    requesterPrincipalId g \<noteq> supportPrincipalId g \<and> actions g \<noteq> []
    \<and> requiredApprovals g = (if \<exists>a \<in> set (actions g). a \<in> set HIGH_RISK then 2 else 1)
    \<and> (sessionId g \<noteq> None \<or> objectId g \<noteq> None)
    \<and> distinct (approvalPrincipalIds g) \<and> requesterPrincipalId g \<notin> set (approvalPrincipalIds g)
    \<and> length (approvalPrincipalIds g) \<le> requiredApprovals g
    \<and> (status g = PendingVerification \<longrightarrow> mfaEvidenceId g = None \<and> approvalPrincipalIds g = [])
    \<and> (status g = PendingApproval \<longrightarrow>
        mfaEvidenceId g \<noteq> None \<and> length (approvalPrincipalIds g) < requiredApprovals g)
    \<and> (status g = Active \<longrightarrow>
        mfaEvidenceId g \<noteq> None \<and> length (approvalPrincipalIds g) = requiredApprovals g)
    \<and> (issuedAt g \<noteq> None \<longrightarrow> status g \<noteq> PendingVerification \<and> status g \<noteq> PendingApproval \<and> status g \<noteq> Denied)
    \<and> (status g = Active \<longrightarrow> issuedAt g \<noteq> None)
    \<and> (revokedAt g \<noteq> None \<longleftrightarrow> status g = Revoked)
    \<and> generation g = (if terminal (status g) then 1 else 0)"

interpretation lifecycle: transition_system grant_init grant_step grant_wf
proof
  show "grant_init g \<Longrightarrow> grant_wf g" for g
    by (auto simp: grant_init_def grant_wf_def terminal_def)
  show "grant_wf g \<Longrightarrow> grant_step g g' \<Longrightarrow> grant_wf g'" for g g'
    by (elim grant_step.cases) (auto simp: grant_wf_def terminal_def objectId_def)
qed

text \<open>Along a life cycle the identity of a grant stays, and an ended grant never changes again.\<close>

definition grant_static :: "support_grant \<Rightarrow> support_grant \<Rightarrow> bool" where
  "grant_static g h \<longleftrightarrow> grantId h = grantId g \<and> tenantId h = tenantId g \<and> organizationId h = organizationId g
    \<and> workspaceId h = workspaceId g \<and> sessionId h = sessionId g \<and> objectId h = objectId g
    \<and> actions h = actions g \<and> requesterPrincipalId h = requesterPrincipalId g
    \<and> supportPrincipalId h = supportPrincipalId g \<and> requiredApprovals h = requiredApprovals g
    \<and> expiresAt h = expiresAt g \<and> reason h = reason g \<and> version g \<le> version h
    \<and> generation g \<le> generation h"

lemma grant_reaches_static: "reaches grant_step g h \<Longrightarrow> grant_static g h"
proof (induction rule: reaches.induct)
  case (reaches_step g h k)
  then show ?case using grant_step_static [of h k] by (simp add: grant_static_def)
qed (simp add: grant_static_def)

lemma terminal_absorbing: "reaches grant_step g h \<Longrightarrow> terminal (status g) \<Longrightarrow> h = g"
proof (induction rule: reaches.induct)
  case (reaches_step g h k)
  then show ?case using grant_step_static(15) [of h k] by simp
qed simp

lemma generation_same_not_ended:
  assumes "reaches grant_step g h" and "grant_wf g" and "generation h = generation g" "\<not> terminal (status g)"
  shows "\<not> terminal (status h)"
proof -
  have "grant_wf h" using lifecycle.reaches_inv [OF assms(1,2)] .
  then show ?thesis using assms by (simp add: grant_wf_def split: if_splits)
qed

subsection \<open>The service refines the life cycle\<close>

lemma grant_init_start: "grant_init g \<Longrightarrow> approvalPrincipalIds g = []" "grant_init g \<Longrightarrow> status g = PendingVerification"
  by (simp_all add: grant_init_def)

definition minted :: "js_env \<Rightarrow> string \<Rightarrow> nat \<Rightarrow> string \<Rightarrow> bool" where
  "minted e p n k \<longleftrightarrow> (\<exists>i<n. k = p @ uuid e i)"

lemma minted_mono: "minted e p m k \<Longrightarrow> m \<le> n \<Longrightarrow> minted e p n k"
  by (auto simp: minted_def intro: less_le_trans)

lemma minted_Suc [simp]: "minted e p (Suc n) (p @ uuid e n)"
  by (auto simp: minted_def)

lemma minted_SucI: "minted e p n k \<Longrightarrow> minted e p (Suc n) k"
  by (erule minted_mono) simp

lemma minted_fresh: "inj (uuid e) \<Longrightarrow> n \<le> m \<Longrightarrow> \<not> minted e p n (p @ uuid e m)"
  by (auto simp: minted_def dest: injD)

definition grant_approvals :: "sa_state \<Rightarrow> approval_record list" where
  "grant_approvals s = filter (\<lambda>v. aggregateKind v = KSupportGrant) (approvals s)"

lemma approvals_for_grant:
  "approvals_for KSupportGrant k (approvals s) =
   filter (\<lambda>v. aggregateId v = k \<and> apDecision v = Approve) (grant_approvals s)"
  by (simp add: approvals_for_def grant_approvals_def conj_commute conj_left_commute)

definition approver_ok :: "approval_record \<Rightarrow> bool" where
  "approver_ok v \<longleftrightarrow> approverRole v \<in> {Support, SecurityApprover, KmsOperator}"

definition grant_ok :: "approval_record list \<Rightarrow> string \<Rightarrow> support_grant \<Rightarrow> bool" where
  "grant_ok aps k g \<longleftrightarrow> grantId g = k \<and> (\<exists>g0. grant_init g0 \<and> reaches grant_step g0 g)
    \<and> map approverPrincipalId (filter (\<lambda>v. aggregateId v = k \<and> apDecision v = Approve) aps)
        = approvalPrincipalIds g
    \<and> (status g = Active \<and> ContentDecrypt \<in> set (actions g) \<longrightarrow>
        (\<exists>v \<in> set aps. aggregateId v = k \<and> apDecision v = Approve \<and> approverRole v = KmsOperator))"

definition grants_inv :: "js_env \<Rightarrow> sa_state \<Rightarrow> bool" where
  "grants_inv e s \<longleftrightarrow>
    (\<forall>k g. map_of (grants s) k = Some g \<longrightarrow> minted e ''sgr_'' (draws s) k \<and> grant_ok (grant_approvals s) k g)
    \<and> (\<forall>v \<in> set (grant_approvals s). approver_ok v \<and> map_of (grants s) (aggregateId v) \<noteq> None)"

lemma grants_invD:
  assumes "grants_inv e s" "map_of (grants s) k = Some g"
  shows "grantId g = k" "grant_wf g" "grant_ok (grant_approvals s) k g" "minted e ''sgr_'' (draws s) k"
proof -
  show a: "grant_ok (grant_approvals s) k g" and "minted e ''sgr_'' (draws s) k"
    using assms by (auto simp: grants_inv_def)
  then show "grantId g = k" "grant_wf g"
    using lifecycle.reachable_inv by (auto simp: grant_ok_def)
qed

lemma grants_inv_init: "grants_inv e initial_state"
  by (simp add: grants_inv_def initial_state_def grant_approvals_def)

text \<open>Three ways in which an operation touches the grants: not at all, by a new grant, by one step
  of a stored grant that may add one decision.\<close>

lemma grants_inv_frame:
  assumes "grants_inv e s" "grants t = grants s" "grant_approvals t = grant_approvals s" "draws s \<le> draws t"
  shows "grants_inv e t"
  using assms by (auto simp: grants_inv_def intro: minted_mono)

lemma grants_fresh:
  assumes "grants_inv e s" and "inj (uuid e)"
  shows "map_of (grants s) (''sgr_'' @ uuid e (draws s)) = None"
proof (rule ccontr)
  assume "map_of (grants s) (''sgr_'' @ uuid e (draws s)) \<noteq> None"
  then obtain g where "map_of (grants s) (''sgr_'' @ uuid e (draws s)) = Some g" by blast
  from grants_invD(4) [OF assms(1) this] show False
    using minted_fresh [OF assms(2) order_refl] by blast
qed

lemma grants_inv_new:
  assumes inv: "grants_inv e s" and uu: "inj (uuid e)" and g: "grant_init g" "grantId g = ''sgr_'' @ uuid e (draws s)"
    and t: "grants t = AList.update (grantId g) g (grants s)" "grant_approvals t = grant_approvals s"
      "draws t = Suc (draws s)"
  shows "grants_inv e t"
proof -
  have "map_of (grants s) (grantId g) = None"
    unfolding g(2) by (rule grants_fresh [OF inv uu])
  then have "\<forall>v \<in> set (grant_approvals s). aggregateId v \<noteq> grantId g"
    using inv by (auto simp: grants_inv_def)
  then have "filter (\<lambda>v. aggregateId v = grantId g \<and> apDecision v = Approve) (grant_approvals s) = []"
    by (auto simp: filter_empty_conv)
  then have "grant_ok (grant_approvals s) (grantId g) g"
    using g(1) reaches_refl [of grant_step g] grant_init_start [OF g(1)] unfolding grant_ok_def by auto
  moreover have "minted e ''sgr_'' (Suc (draws s)) (grantId g)"
    unfolding g(2) by (rule minted_Suc)
  ultimately show ?thesis
    using inv t unfolding grants_inv_def by (auto intro: minted_SucI)
qed

lemma grants_inv_update:
  assumes inv: "grants_inv e s" and k: "map_of (grants s) k = Some g" and st: "grant_step g g'"
    and t: "grants t = AList.update k g' (grants s)" "grant_approvals t = grant_approvals s @ aps" "draws s \<le> draws t"
    and aps: "\<forall>v \<in> set aps. approver_ok v \<and> aggregateId v = k"
    and ids: "approvalPrincipalIds g' =
      approvalPrincipalIds g @ map approverPrincipalId (filter (\<lambda>v. apDecision v = Approve) aps)"
    and kms: "status g' = Active \<Longrightarrow> ContentDecrypt \<in> set (actions g) \<Longrightarrow>
      \<exists>v \<in> set (grant_approvals t). aggregateId v = k \<and> apDecision v = Approve \<and> approverRole v = KmsOperator"
  shows "grants_inv e t"
proof -
  note gd = grants_invD [OF inv k]
  have fk: "filter (\<lambda>v. aggregateId v = k \<and> apDecision v = Approve) aps = filter (\<lambda>v. apDecision v = Approve) aps"
    using aps by (auto intro: filter_cong)
  have "\<exists>g0. grant_init g0 \<and> reaches grant_step g0 g'"
    using gd(3) st by (auto simp: grant_ok_def intro: reaches_step)
  then have "grant_ok (grant_approvals t) k g'"
    using gd(1,3) kms grant_step_static(1,7) [OF st] by (simp add: grant_ok_def t(2) fk ids)
  moreover have "grant_ok (grant_approvals t) j h" if "map_of (grants s) j = Some h" "j \<noteq> k" for j h
  proof -
    have "filter (\<lambda>v. aggregateId v = j \<and> apDecision v = Approve) aps = []"
      using aps that(2) by (auto simp: filter_empty_conv)
    with grants_invD(3) [OF inv that(1)] show ?thesis by (auto simp: grant_ok_def t(2))
  qed
  moreover have "\<forall>j h. map_of (grants s) j = Some h \<longrightarrow> minted e ''sgr_'' (draws t) j"
    using inv t(3) by (auto simp: grants_inv_def intro: minted_mono)
  moreover have "\<forall>v \<in> set (grant_approvals s). approver_ok v \<and> map_of (grants s) (aggregateId v) \<noteq> None"
    using inv by (simp add: grants_inv_def)
  ultimately show ?thesis
    using k aps unfolding grants_inv_def t(1,2) by auto
qed

definition grants_evolve :: "sa_state \<Rightarrow> sa_state \<Rightarrow> bool" where
  "grants_evolve s t \<longleftrightarrow>
    (\<forall>k g. map_of (grants s) k = Some g \<longrightarrow> (\<exists>g'. map_of (grants t) k = Some g' \<and> reaches grant_step g g'))"

lemma grants_evolve_frame: "grants t = grants s \<Longrightarrow> grants_evolve s t"
  by (auto simp: grants_evolve_def intro: reaches_refl)

lemma grants_evolve_trans: "grants_evolve s t \<Longrightarrow> grants_evolve t u \<Longrightarrow> grants_evolve s u"
  unfolding grants_evolve_def by (meson reaches_trans)

lemma grants_evolve_update:
  "map_of (grants s) k = Some g \<Longrightarrow> grant_step g g' \<Longrightarrow> grants t = AList.update k g' (grants s) \<Longrightarrow>
   grants_evolve s t"
  by (auto simp: grants_evolve_def intro: reaches_refl reaches_step)

definition grants_next :: "js_env \<Rightarrow> sa_state \<Rightarrow> sa_state \<Rightarrow> bool" where
  "grants_next e s t \<longleftrightarrow> grants_inv e t \<and> grants_evolve s t \<and> draws s \<le> draws t"

lemma grants_next_refl: "grants_inv e s \<Longrightarrow> grants_next e s s"
  by (simp add: grants_next_def grants_evolve_frame)

lemma grants_next_trans: "grants_next e s t \<Longrightarrow> grants_next e t u \<Longrightarrow> grants_next e s u"
  by (auto simp: grants_next_def intro: grants_evolve_trans)

lemma grants_next_frame:
  assumes "grants_inv e s" "grants t = grants s" "approvals t = approvals s" "draws s \<le> draws t"
  shows "grants_next e s t"
  using assms grants_inv_frame [of e s t] by (simp add: grants_next_def grants_evolve_frame grant_approvals_def)

lemma grants_next_silent:
  assumes "grants_inv e s" "map_of (grants s) k = Some g" "grant_step g g'"
    and "grants t = AList.update k g' (grants s)" "approvals t = approvals s" "draws s \<le> draws t"
    and "approvalPrincipalIds g' = approvalPrincipalIds g" "status g' \<noteq> Active"
  shows "grants_next e s t"
proof -
  have a: "grant_approvals t = grant_approvals s @ []"
    using assms(5) by (simp add: grant_approvals_def)
  have "grants_inv e t"
    using assms(6-8) by (intro grants_inv_update [OF assms(1-4) a]) simp_all
  moreover have "grants_evolve s t" by (rule grants_evolve_update [OF assms(2-4)])
  ultimately show ?thesis using assms(6) by (simp add: grants_next_def)
qed

lemma grants_next_decision:
  assumes "grants_inv e s" "map_of (grants s) k = Some g" "grant_step g g'"
    and "grants t = AList.update k g' (grants s)" "approvals t = approvals s @ [v]" "draws s \<le> draws t"
    and "aggregateKind v = KSupportGrant" "aggregateId v = k" "approver_ok v"
    and "approvalPrincipalIds g' =
      approvalPrincipalIds g @ (if apDecision v = Approve then [approverPrincipalId v] else [])"
    and "status g' = Active \<Longrightarrow> ContentDecrypt \<in> set (actions g) \<Longrightarrow>
      \<exists>w \<in> set (approvals_for KSupportGrant k (approvals t)). approverRole w = KmsOperator"
  shows "grants_next e s t"
proof -
  have a: "grant_approvals t = grant_approvals s @ [v]"
    using assms(5,7) by (simp add: grant_approvals_def)
  have "grants_inv e t"
    using assms(6-11) by (intro grants_inv_update [OF assms(1-4) a]) (auto simp: approvals_for_grant)
  then show ?thesis
    using assms(6) grants_evolve_update [OF assms(2-4)] by (simp add: grants_next_def)
qed

lemma grant_approvers_count:
  assumes "grants_inv e s" "map_of (grants s) k = Some g"
  shows "length (approvalPrincipalIds g) = length (approvals_for KSupportGrant k (approvals s))"
  using grants_invD(3) [OF assms] unfolding grant_ok_def approvals_for_grant by (metis length_map)

subsubsection \<open>One lemma per operation\<close>

lemma grants_next_expireGrant: "grants_inv e s \<Longrightarrow> grants_next e s (expireGrant e t k s)"
proof (cases "map_of (grants s) k")
  case None
  assume "grants_inv e s"
  with None show ?thesis by (simp add: expireGrant_def grants_next_refl)
next
  case (Some g)
  assume inv: "grants_inv e s"
  let ?g = "g\<lparr>status := Expired, generation := Suc (generation g), version := Suc (version g)\<rparr>"
  show ?thesis
  proof (cases "\<not> terminal (status g) \<and> expiresAt g \<le> t")
    case True
    then have "grants (expireGrant e t k s) = AList.update k ?g (grants s)"
      using Some grants_invD(1) [OF inv Some] by (simp add: expireGrant_def Let_def)
    with True show ?thesis
      by (intro grants_next_silent [OF inv Some gs_expire]) simp_all
  next
    case False
    then have "expireGrant e t k s = s" using Some by (auto simp: expireGrant_def)
    with inv show ?thesis by (simp add: grants_next_refl)
  qed
qed

lemma grants_next_fold:
  assumes "grants_inv e s" and "\<And>x u. grants_inv e u \<Longrightarrow> grants_next e u (f x u)"
  shows "grants_next e s (fold f xs s)"
proof -
  have "grants_inv e (fold f xs s) \<and> grants_next e s (fold f xs s)"
  proof (rule fold_relates [where I = "grants_inv e" and R = "grants_next e"])
    show "grants_inv e s" by (rule assms(1))
    show "grants_inv e (f x u) \<and> grants_next e u (f x u)" if "grants_inv e u" for x u
      using assms(2) [OF that] by (simp add: grants_next_def)
  qed (blast intro: grants_next_refl grants_next_trans)+
  then show ?thesis by blast
qed

lemma grants_next_expire: "grants_inv e s \<Longrightarrow> grants_next e s (expire e s)"
proof -
  assume inv: "grants_inv e s"
  let ?s1 = "fold (expireGrant e (now e s)) (map fst (grants s)) (tick s)"
  have t: "grants_next e s (tick s)" using inv by (intro grants_next_frame) auto
  have "grants_next e (tick s) ?s1"
    using t by (intro grants_next_fold grants_next_expireGrant) (auto simp: grants_next_def)
  with t have 1: "grants_next e s ?s1" by (rule grants_next_trans)
  have 2: "draws ?s1 \<le> draws (expire e s)"
    using draws_expire [of s e] by (simp add: fold_frame)
  have "grants_next e ?s1 (expire e s)"
    using 1 2 by (intro grants_next_frame) (auto simp: grants_next_def grants_expire fold_frame)
  with 1 show ?thesis by (rule grants_next_trans)
qed

lemma grants_next_createGrant:
  assumes "grants_inv e s" "inj (uuid e)"
  shows "grants_next e s (snd (createGrant e rq s))"
proof -
  let ?t = "snd (createGrant e rq s)"
  from createGrant_effect [of e rq s] show ?thesis
  proof (elim disjE exE conjE)
    assume "grants ?t = grants s"
    then show ?thesis using assms(1) draws_createGrant by (intro grants_next_frame) auto
  next
    fix g assume g: "grant_init g" "grantId g = ''sgr_'' @ uuid e (draws s)"
      "grants ?t = AList.update (grantId g) g (grants s)" "draws ?t = Suc (draws s)"
    have i: "grants_inv e ?t"
      by (rule grants_inv_new [OF assms g(1-3) _ g(4)]) (simp add: grant_approvals_def)
    have "map_of (grants s) (grantId g) = None"
      unfolding g(2) by (rule grants_fresh [OF assms])
    then have "grants_evolve s ?t"
      unfolding grants_evolve_def g(3) by (auto intro: reaches_refl)
    with i g(4) show ?thesis by (simp add: grants_next_def)
  qed
qed

lemma grants_next_verifyGrantMfa:
  assumes "grants_inv e s" shows "grants_next e s (snd (verifyGrantMfa e rq m s))"
proof (cases rule: verifyGrantMfa_cases [of e rq m s])
  case same
  then show ?thesis using assms by (simp add: grants_next_refl)
next
  case (verified g)
  then show ?thesis using assms grants_invD(1) [OF assms verified(1)]
    by (intro grants_next_silent [OF assms verified(1) gs_verify [of g m]]) (simp_all add: verified(5))
qed

lemma grants_next_revokeGrant:
  assumes "grants_inv e s" shows "grants_next e s (snd (revokeGrant e rq s))"
proof (cases rule: revokeGrant_cases [of e rq s])
  case same
  then show ?thesis using assms by (simp add: grants_next_refl)
next
  case (revoked g)
  then show ?thesis using assms grants_invD(1) [OF assms revoked(1)]
    by (intro grants_next_silent [OF assms revoked(1) gs_revoke [of g "now e s"]]) (simp_all add: revoked(5))
qed

lemma grants_next_decideGrant:
  assumes inv: "grants_inv e s" shows "grants_next e s (snd (decideGrant e rq d s))"
proof (cases rule: decideGrant_cases [of e rq d s])
  case same
  then show ?thesis using inv by (simp add: grants_next_refl)
next
  case kms
  then show ?thesis using inv by (intro grants_next_frame) auto
next
  case (denied g)
  note k = grants_invD(1) [OF inv denied(1)]
  have t: "grants (snd (decideGrant e rq d s)) = AList.update (dAggregateId rq)
      (g\<lparr>status := Denied, generation := Suc (generation g), version := Suc (version g)\<rparr>) (grants s)"
    by (simp add: denied(4) k)
  have a: "approvals (snd (decideGrant e rq d s)) = approvals s @ [grantDecision e rq d g s]"
    and n: "draws s \<le> draws (snd (decideGrant e rq d s))"
    by (simp_all add: denied(4))
  from denied(2,3) show ?thesis
    by (intro grants_next_decision [OF inv denied(1) gs_deny t a n])
      (simp_all add: k may_decide_def grantDecision_def approver_ok_def)
next
  case (approved g)
  note k = grants_invD(1) [OF inv approved(1)]
  have t: "grants (snd (decideGrant e rq d s)) = AList.update (dAggregateId rq)
      (g\<lparr>approvalPrincipalIds := approvalPrincipalIds g @ [principalId (dActor rq)],
         version := Suc (version g)\<rparr>) (grants s)"
    by (simp add: approved(5) k)
  have a: "approvals (snd (decideGrant e rq d s)) = approvals s @ [grantDecision e rq d g s]"
    and n: "draws s \<le> draws (snd (decideGrant e rq d s))"
    by (simp_all add: approved(5))
  from approved(2-4) show ?thesis
    by (intro grants_next_decision [OF inv approved(1) gs_approve t a n])
      (simp_all add: k may_decide_def grantDecision_def approver_ok_def
        grant_approvers_count [OF inv approved(1)])
next
  case (activated g)
  note k = grants_invD(1) [OF inv activated(1)]
  have t: "grants (snd (decideGrant e rq d s)) = AList.update (dAggregateId rq)
      (g\<lparr>status := Active, issuedAt := Some (now e (tick (draw s))),
         approvalPrincipalIds := approvalPrincipalIds g @ [principalId (dActor rq)],
         version := Suc (version g)\<rparr>) (grants s)"
    by (simp add: activated(6) k)
  have a: "approvals (snd (decideGrant e rq d s)) = approvals s @ [grantDecision e rq d g s]"
    and n: "draws s \<le> draws (snd (decideGrant e rq d s))"
    by (simp_all add: activated(6))
  have kms: "ContentDecrypt \<in> set (actions g) \<Longrightarrow>
    \<exists>w \<in> set (approvals_for KSupportGrant (dAggregateId rq) (approvals (snd (decideGrant e rq d s)))).
      approverRole w = KmsOperator"
    using activated(3,5) unfolding a by (simp add: k approvals_for_def grantDecision_def)
  from activated(2-4) kms show ?thesis
    by (intro grants_next_decision [OF inv activated(1) gs_activate t a n])
      (simp_all add: k may_decide_def grantDecision_def approver_ok_def
        grant_approvers_count [OF inv activated(1)])
qed

lemma grants_next_via_expire:
  assumes "grants_inv e s" "grants t = grants (expire e s)" "approvals t = approvals s" "draws (expire e s) \<le> draws t"
  shows "grants_next e s t"
proof -
  have 1: "grants_next e s (expire e s)" using assms(1) by (rule grants_next_expire)
  then have "grants_next e (expire e s) t"
    using assms by (intro grants_next_frame) (auto simp: grants_next_def)
  with 1 show ?thesis by (rule grants_next_trans)
qed

lemma draws_issue:
  "draws (expire e s) \<le> draws (snd (issueLease e rq s))"
  "draws (expire e s) \<le> draws (snd (issueBreakGlassLease e rq s))"
  by (simp_all add: issueLease_def issueBreakGlassLease_def Let_def split: option.splits)

lemma draws_break_glass:
  "draws s \<le> draws (snd (createBreakGlass e bq s))"
  "draws s \<le> draws (snd (approveBreakGlass e rq s))"
  "draws s \<le> draws (snd (revokeBreakGlass e rq s))"
proof -
  show "draws s \<le> draws (snd (createBreakGlass e bq s))"
    by (simp add: createBreakGlass_def Let_def)
  show "draws s \<le> draws (snd (approveBreakGlass e rq s))"
    by (simp add: approveBreakGlass_def activateBreakGlass_def Let_def split: option.splits sum.splits bool.splits)
  show "draws s \<le> draws (snd (revokeBreakGlass e rq s))"
    by (auto simp: revokeBreakGlass_def Let_def split: option.splits
        intro: order_trans [OF _ draws_queueTenantNotification])
qed

lemma grant_approvals_approveBreakGlass:
  "grant_approvals (snd (approveBreakGlass e rq s)) = grant_approvals s"
  by (simp add: approveBreakGlass_def activateBreakGlass_def breakGlassApproval_def grant_approvals_def Let_def
      split: option.splits sum.splits bool.splits)

lemma grants_next_approveBreakGlass:
  assumes "grants_inv e s" shows "grants_next e s (snd (approveBreakGlass e rq s))"
  using assms draws_break_glass(2) grant_approvals_approveBreakGlass
    grants_inv_frame [of e s "snd (approveBreakGlass e rq s)"]
  by (simp add: grants_next_def grants_evolve_frame)

lemma grants_next_exec:
  assumes "grants_inv e s" and "inj (uuid e)"
  shows "grants_next e s (sa_exec e ev s)"
proof (cases ev)
  case (CreateGrant rq)
  then show ?thesis using assms by (simp add: grants_next_createGrant)
next
  case (VerifyGrantMfa rq m)
  then show ?thesis using assms by (simp add: grants_next_verifyGrantMfa)
next
  case (DecideGrant rq d)
  then show ?thesis using assms by (simp add: grants_next_decideGrant)
next
  case (RevokeGrant rq)
  then show ?thesis using assms by (simp add: grants_next_revokeGrant)
next
  case (ApproveBreakGlass rq)
  then show ?thesis using assms by (simp add: grants_next_approveBreakGlass)
next
  case (IssueLease rq)
  then show ?thesis using assms draws_issue by (simp add: grants_next_via_expire)
next
  case (IssueBreakGlassLease rq)
  then show ?thesis using assms draws_issue by (simp add: grants_next_via_expire)
next
  case (ConsumeLease rq)
  then show ?thesis using assms by (simp add: grants_next_via_expire)
next
  case (CreateBreakGlass rq)
  then show ?thesis using assms draws_break_glass(1) by (simp add: grants_next_frame)
next
  case (RevokeBreakGlass rq)
  then show ?thesis using assms draws_break_glass(3) by (simp add: grants_next_frame)
next
  case (VerifyBreakGlassMfa rq m)
  then show ?thesis using assms by (simp add: grants_next_frame)
next
  case (DeliverOutbox oid key)
  then show ?thesis using assms by (simp add: grants_next_frame)
next
  case (FailOutbox oid t key)
  then show ?thesis using assms by (simp add: grants_next_frame)
qed (use assms in \<open>simp_all add: grants_next_expire\<close>)

interpretation grant_service: transition_system "\<lambda>s. s = initial_state" "sa_step e"
  "\<lambda>s. inj (uuid e) \<longrightarrow> grants_inv e s" for e
proof
  show "s = initial_state \<Longrightarrow> inj (uuid e) \<longrightarrow> grants_inv e s" for s
    by (simp add: grants_inv_init)
  show "inj (uuid e) \<longrightarrow> grants_inv e t" if "inj (uuid e) \<longrightarrow> grants_inv e s" "sa_step e s t" for s t
    using that grants_next_exec by (auto elim!: sa_stepE simp: grants_next_def)
qed

lemma reachable_grants_inv:
  "inj (uuid e) \<Longrightarrow> reaches (sa_step e) initial_state s \<Longrightarrow> grants_inv e s"
  using grant_service.reachable_inv [of initial_state e s] by simp

lemma grants_evolve_run:
  assumes "reaches (sa_step e) s t" and "grants_inv e s" and "inj (uuid e)"
  shows "grants_evolve s t"
proof (rule grant_service.reaches_preserves [OF assms(1)])
  show "grants_evolve s s" by (simp add: grants_evolve_frame)
  show "grants_evolve s v" if "inj (uuid e) \<longrightarrow> grants_inv e u" "grants_evolve s u" "sa_step e u v" for u v
    using that assms(3) grants_next_exec [of e u]
    by (auto elim!: sa_stepE simp: grants_next_def intro: grants_evolve_trans)
qed (use assms in simp)


subsection \<open>A sample run\<close>

text \<open>A concrete environment and the states of one complete approval, used to instantiate the theorems.\<close>

definition demo_env :: js_env where
  "demo_env = \<lparr>clock = (\<lambda>n. int n * 1000), uuid = (\<lambda>n. replicate n (CHR ''u'')),
     token = (\<lambda>n. replicate n (CHR ''t'')), sha256 = (\<lambda>x. ''h'')\<rparr>"

definition demo_request :: grant_request where
  "demo_request = \<lparr>rqTenantId = ''t'', rqOrganizationId = ''o'', rqWorkspaceId = ''w'', rqSessionId = Some ''s'',
    rqArtifactId = None, rqAttachmentId = None, rqActions = [ContentDecrypt], rqReason = ''incident 42'',
    rqRequester = \<lparr>principalId = ''user'', role = TenantUser\<rparr>, rqSupportPrincipalId = ''sup'',
    rqDurationMinutes = 30, rqIdempotencyKey = ''k'', rqCorrelationId = ''c''\<rparr>"

definition demo_decision :: "string \<Rightarrow> support_role \<Rightarrow> nat \<Rightarrow> decision_request" where
  "demo_decision p r n = \<lparr>dAggregateId = ''sgr_'', dActor = \<lparr>principalId = p, role = r\<rparr>, dExpectedVersion = n,
     dIdempotencyKey = p, dMfaEvidenceId = None, dCorrelationId = ''c''\<rparr>"

definition demo_created :: sa_state where
  "demo_created = sa_exec demo_env (CreateGrant demo_request) initial_state"

definition demo_verified :: sa_state where
  "demo_verified = sa_exec demo_env (VerifyGrantMfa (demo_decision ''user'' TenantUser 1) ''mfa'') demo_created"

definition demo_approved :: sa_state where
  "demo_approved = sa_exec demo_env (DecideGrant (demo_decision ''sec'' SecurityApprover 2) Approve) demo_verified"

definition demo_active :: sa_state where
  "demo_active = sa_exec demo_env (DecideGrant (demo_decision ''kms'' KmsOperator 3) Approve) demo_approved"

definition demo_grant :: support_grant where
  "demo_grant = \<lparr>tenantId = ''t'', organizationId = ''o'', workspaceId = ''w'', sessionId = Some ''s'',
    actions = [ContentDecrypt], reason = ''incident 42'', requesterPrincipalId = ''user'', mfaEvidenceId = None,
    approvalPrincipalIds = [], status = PendingVerification, issuedAt = None, expiresAt = 1800000,
    revokedAt = None, version = 1, generation = 0, idempotencyKey = ''k'', grantId = ''sgr_'',
    artifactId = None, attachmentId = None, supportPrincipalId = ''sup'', requiredApprovals = 2\<rparr>"

lemma demo_inj: "inj (uuid demo_env)"
  by (auto simp: demo_env_def inj_def)

lemma demo_parse: "supportGrantSchema_parse (requested_grant demo_env demo_request initial_state) = Some demo_grant"
  by code_simp

lemma demo_created_state:
  "demo_created = appendAudit demo_env demo_grant ''user'' ''grant.created'' Requested ''incident 42'' ''c''
     (setIdempotency ''grant:k'' ''sgr_'' (setGrant demo_grant (draw (tick initial_state))))"
  using demo_parse by (simp add: demo_created_def createGrant_def Let_def demo_request_def demo_grant_def)

lemma demo_created_facts [simp]:
  "grants demo_created = [(''sgr_'', demo_grant)]"
  "idempotency demo_created = [(''grant:k'', ''sgr_'')]"
  "approvals demo_created = []" "ticks demo_created = 2" "draws demo_created = 1"
  "leases demo_created = []" "breakGlass demo_created = []"
  by (simp_all add: demo_created_state) (simp_all add: demo_grant_def)

lemma demo_verified_facts [simp]:
  "grants demo_verified =
    [(''sgr_'', demo_grant\<lparr>mfaEvidenceId := Some ''mfa'', status := PendingApproval, version := 2\<rparr>)]"
  "idempotency demo_verified = [(''grant:k'', ''sgr_''), (''grant-mfa:user'', ''sgr_'')]"
  "approvals demo_verified = []" "ticks demo_verified = 3" "draws demo_verified = 1"
  "leases demo_verified = []" "breakGlass demo_verified = []"
  by (simp_all add: demo_verified_def verifyGrantMfa_def demo_decision_def decisionReplay_def demo_grant_def Let_def eval_nat_numeral)

lemma demo_approved_facts [simp]:
  "grants demo_approved =
    [(''sgr_'', demo_grant\<lparr>mfaEvidenceId := Some ''mfa'', status := PendingApproval, version := 3,
       approvalPrincipalIds := [''sec'']\<rparr>)]"
  "map_of (idempotency demo_approved) ''grant-decision:kms'' = None"
  "map approverPrincipalId (approvals demo_approved) = [''sec'']"
  "length (approvals_for KSupportGrant ''sgr_'' (approvals demo_approved)) = 1" "ticks demo_approved = 5" "draws demo_approved = 2"
  "leases demo_approved = []" "breakGlass demo_approved = []"
  by (simp_all add: demo_approved_def decideGrant_def demo_decision_def decisionReplay_def demo_grant_def Let_def eval_nat_numeral
      approvals_for_def grantDecision_def)
   (simp_all add: recordGrantDecision_def Let_def)

lemma demo_active_facts [simp]:
  "grants demo_active =
    [(''sgr_'', demo_grant\<lparr>mfaEvidenceId := Some ''mfa'', status := Active, issuedAt := Some 6000, version := 4,
       approvalPrincipalIds := [''sec'', ''kms'']\<rparr>)]"
  "leases demo_active = []" "breakGlass demo_active = []" "draws demo_active = 3" "ticks demo_active = 9"
  by (simp_all add: demo_active_def decideGrant_def demo_decision_def decisionReplay_def demo_grant_def Let_def eval_nat_numeral
       grantDecision_def now_def)
   (simp_all add: recordGrantDecision_def Let_def demo_env_def)

lemma demo_reachable:
  "reaches (sa_step demo_env) initial_state demo_created"
  "reaches (sa_step demo_env) initial_state demo_verified"
  "reaches (sa_step demo_env) initial_state demo_approved"
  "reaches (sa_step demo_env) initial_state demo_active"
proof -
  show 1: "reaches (sa_step demo_env) initial_state demo_created"
    unfolding demo_created_def by (rule sa_reaches_exec [OF reaches_refl])
  show 2: "reaches (sa_step demo_env) initial_state demo_verified"
    unfolding demo_verified_def by (rule sa_reaches_exec [OF 1])
  show 3: "reaches (sa_step demo_env) initial_state demo_approved"
    unfolding demo_approved_def by (rule sa_reaches_exec [OF 2])
  show "reaches (sa_step demo_env) initial_state demo_active"
    unfolding demo_active_def by (rule sa_reaches_exec [OF 3])
qed

subsection \<open>Properties\<close>

text \<open>C17. In every state the service can reach, an active grant was confirmed by its requester's
  second factor and approved by as many distinct principals as its actions require (two as soon as
  one of them is high risk), none of them the requester; the stored approval records name exactly
  these principals, each in an approver role, and a grant that allows decryption has the approval of
  a KMS operator.\<close>

theorem active_grant_four_eyes:
  assumes "inj (uuid e)" and "reaches (sa_step e) initial_state s"
    and "map_of (grants s) k = Some g" and "status g = Active"
  shows "mfaEvidenceId g \<noteq> None \<and> requesterPrincipalId g \<noteq> supportPrincipalId g
    \<and> length (approvalPrincipalIds g) = (if \<exists>a \<in> set (actions g). a \<in> set HIGH_RISK then 2 else 1)
    \<and> distinct (approvalPrincipalIds g) \<and> requesterPrincipalId g \<notin> set (approvalPrincipalIds g)
    \<and> map approverPrincipalId (approvals_for KSupportGrant k (approvals s)) = approvalPrincipalIds g
    \<and> (\<forall>v \<in> set (approvals_for KSupportGrant k (approvals s)).
        approverRole v \<in> {Support, SecurityApprover, KmsOperator})
    \<and> (ContentDecrypt \<in> set (actions g) \<longrightarrow>
        (\<exists>v \<in> set (approvals_for KSupportGrant k (approvals s)). approverRole v = KmsOperator))"
proof -
  have inv: "grants_inv e s" using assms(1,2) by (rule reachable_grants_inv)
  note d = grants_invD(2,3) [OF inv assms(3)]
  have 1: "mfaEvidenceId g \<noteq> None \<and> requesterPrincipalId g \<noteq> supportPrincipalId g
    \<and> length (approvalPrincipalIds g) = (if \<exists>a \<in> set (actions g). a \<in> set HIGH_RISK then 2 else 1)
    \<and> distinct (approvalPrincipalIds g) \<and> requesterPrincipalId g \<notin> set (approvalPrincipalIds g)"
    using d(1) assms(4) by (simp add: grant_wf_def)
  have 2: "map approverPrincipalId (approvals_for KSupportGrant k (approvals s)) = approvalPrincipalIds g"
    using d(2) by (simp add: grant_ok_def approvals_for_grant)
  have 3: "\<forall>v \<in> set (approvals_for KSupportGrant k (approvals s)).
      approverRole v \<in> {Support, SecurityApprover, KmsOperator}"
    using inv by (auto simp: approvals_for_grant grants_inv_def approver_ok_def)
  have "ContentDecrypt \<in> set (actions g) \<longrightarrow>
      (\<exists>v \<in> set (approvals_for KSupportGrant k (approvals s)). approverRole v = KmsOperator)"
    using d(2) assms(4) by (auto simp: grant_ok_def approvals_for_grant)
  with 1 2 3 show ?thesis by blast
qed

theorem active_grant_four_eyes_witness:
  "\<exists>v \<in> set (approvals_for KSupportGrant ''sgr_'' (approvals demo_active)). approverRole v = KmsOperator"
  using active_grant_four_eyes [OF demo_inj demo_reachable(4), of "''sgr_''"] by (simp add: demo_grant_def)

text \<open>C18. The service refines the life cycle \<open>grant_step\<close>: every stored grant carries the key it is
  stored under and was reached from a freshly requested one by life-cycle steps, and whatever the
  service does next moves it only along further life-cycle steps, keeping its scope.\<close>

theorem service_refines_grant_lifecycle:
  assumes "inj (uuid e)" and "reaches (sa_step e) initial_state s" and "map_of (grants s) k = Some g"
  shows "grantId g = k \<and> (\<exists>g0. grant_init g0 \<and> reaches grant_step g0 g)
    \<and> (\<forall>t. reaches (sa_step e) s t \<longrightarrow>
        (\<exists>h. map_of (grants t) k = Some h \<and> reaches grant_step g h \<and> grant_static g h))"
proof -
  have inv: "grants_inv e s" using assms(1,2) by (rule reachable_grants_inv)
  show ?thesis
    using grants_invD(3) [OF inv assms(3)] grants_evolve_run [OF _ inv assms(1)] assms(3) grant_reaches_static
    unfolding grant_ok_def grants_evolve_def by blast
qed

theorem service_refines_grant_lifecycle_witness:
  "\<exists>g. map_of (grants demo_created) ''sgr_'' = Some g \<and> grantId g = ''sgr_''
    \<and> (\<exists>h. map_of (grants demo_created) ''sgr_'' = Some h \<and> reaches grant_step g h)"
  using service_refines_grant_lifecycle [OF demo_inj demo_reachable(1), of "''sgr_''" demo_grant] reaches_refl
  by auto

text \<open>A grant that was revoked, denied or has expired never changes again.\<close>

theorem ended_grant_is_final:
  assumes "inj (uuid e)" and "reaches (sa_step e) initial_state s" and "reaches (sa_step e) s t"
    and "map_of (grants s) k = Some g" and "status g \<in> {Revoked, Expired, Denied}"
  shows "map_of (grants t) k = Some g"
proof -
  have inv: "grants_inv e s" using assms(1,2) by (rule reachable_grants_inv)
  obtain h where "map_of (grants t) k = Some h" "reaches grant_step g h"
    using grants_evolve_run [OF assms(3) inv assms(1)] assms(4) unfolding grants_evolve_def by blast
  with assms(5) show ?thesis using terminal_absorbing [of g h] by (simp add: terminal_def)
qed

definition demo_denied :: sa_state where
  "demo_denied = sa_exec demo_env (DecideGrant (demo_decision ''sec'' SecurityApprover 2) Deny) demo_verified"

lemma demo_denied_grants:
  "grants demo_denied = [(''sgr_'', demo_grant\<lparr>mfaEvidenceId := Some ''mfa'', status := Denied, generation := 1, version := 3\<rparr>)]"
  by (simp add: demo_denied_def decideGrant_def demo_decision_def decisionReplay_def demo_grant_def Let_def
      eval_nat_numeral)

theorem ended_grant_is_final_witness:
  "map_of (grants (sa_exec demo_env Expire demo_denied)) ''sgr_'' = map_of (grants demo_denied) ''sgr_''"
  using ended_grant_is_final [OF demo_inj
      sa_reaches_exec [OF demo_reachable(2), of "DecideGrant (demo_decision ''sec'' SecurityApprover 2) Deny"]
      sa_reaches_exec [OF reaches_refl, of demo_env _ Expire], of "''sgr_''"]
    demo_denied_grants by (simp add: demo_denied_def)

subsection \<open>Optimistic locking and replays\<close>

lemma recordGrantDecision_result:
  assumes "recordGrantDecision e rq d ap g s = (Inr g', t)"
  shows "version g' = Suc (version g)" and "map_of (grants t) (grantId g) = Some g'"
proof -
  have "g' = g\<lparr>version := Suc (version g)\<rparr>"
    using assms by (simp add: recordGrantDecision_def Let_def)
  moreover have "grants t = AList.update (grantId g) (g\<lparr>version := Suc (version g)\<rparr>) (grants s)"
    using recordGrantDecision_frame(1) [of e rq d ap g s] assms by simp
  ultimately show "version g' = Suc (version g)" "map_of (grants t) (grantId g) = Some g'" by simp_all
qed

lemma decideGrant_bumps_version:
  assumes inv: "grants_inv e s" and run: "decideGrant e rq d s = (Inr g', t)" and "t \<noteq> s"
  shows "version g' = Suc (dExpectedVersion rq)" and "map_of (grants t) (dAggregateId rq) = Some g'"
proof -
  have "version g' = Suc (dExpectedVersion rq) \<and> map_of (grants t) (dAggregateId rq) = Some g'"
  proof (cases rule: decideGrant_cases [of e rq d s])
    case same
    with run assms(3) show ?thesis by simp
  next
    case kms
    with run show ?thesis by simp
  next
    case (denied g)
    from recordGrantDecision_result [OF trans [OF denied(4) [symmetric] run]]
    show ?thesis using denied(2) grants_invD(1) [OF inv denied(1)] by (simp add: may_decide_def)
  next
    case (approved g)
    from recordGrantDecision_result [OF trans [OF approved(5) [symmetric] run]]
    show ?thesis using approved(2) grants_invD(1) [OF inv approved(1)] by (simp add: may_decide_def)
  next
    case (activated g)
    from recordGrantDecision_result [OF trans [OF activated(6) [symmetric] run]]
    show ?thesis using activated(2) grants_invD(1) [OF inv activated(1)] by (simp add: may_decide_def)
  qed
  then show "version g' = Suc (dExpectedVersion rq)" "map_of (grants t) (dAggregateId rq) = Some g'"
    by blast+
qed

text \<open>Of two decisions taken against the same version of a grant only the first is applied: the
  second one, whoever takes it and whatever it decides, is refused and changes nothing, and so is a
  revocation against the stale version.\<close>

theorem stale_decision_refused:
  assumes "inj (uuid e)" and "reaches (sa_step e) initial_state s"
    and "decideGrant e rq d s = (Inr g', t)" and "t \<noteq> s"
    and "dAggregateId rq2 = dAggregateId rq" and "dExpectedVersion rq2 = dExpectedVersion rq"
    and "map_of (idempotency t) (''grant-decision:'' @ dIdempotencyKey rq2) = None"
    and "map_of (idempotency t) (''grant-revoke:'' @ dIdempotencyKey rq2) = None"
  shows "decideGrant e rq2 d2 t = (Inl VERSION_CONFLICT, t) \<and> revokeGrant e rq2 t = (Inl VERSION_CONFLICT, t)"
proof -
  have inv: "grants_inv e s" using assms(1,2) by (rule reachable_grants_inv)
  note v = decideGrant_bumps_version [OF inv assms(3,4)]
  have 1: "decisionReplay (''grant-decision:'' @ dIdempotencyKey rq2) (grantId g') t = Inr False"
    "decisionReplay (''grant-revoke:'' @ dIdempotencyKey rq2) (grantId g') t = Inr False"
    using assms(7,8) by (simp_all only: decisionReplay_cases truthy.simps not_False_eq_True)
  have "decideGrant e rq2 d2 t = (Inl VERSION_CONFLICT, t)"
    unfolding decideGrant_def assms(5,6) v(2) option.case 1 sum.case bool.case by (simp add: v(1))
  moreover have "revokeGrant e rq2 t = (Inl VERSION_CONFLICT, t)"
    unfolding revokeGrant_def assms(5,6) v(2) option.case 1 sum.case bool.case by (simp add: v(1))
  ultimately show ?thesis by blast
qed

lemma demo_approved_run:
  "decideGrant demo_env (demo_decision ''sec'' SecurityApprover 2) Approve demo_verified =
    (Inr (demo_grant\<lparr>mfaEvidenceId := Some ''mfa'', status := PendingApproval, version := 3,
       approvalPrincipalIds := [''sec'']\<rparr>), demo_approved)"
  unfolding demo_approved_def sa_exec.simps
  by (simp add: decideGrant_def demo_decision_def decisionReplay_def demo_grant_def Let_def eval_nat_numeral
      approvals_for_def grantDecision_def)
    (simp add: recordGrantDecision_def Let_def)

lemma demo_approved_keys:
  "idempotency demo_approved = [(''grant:k'', ''sgr_''), (''grant-mfa:user'', ''sgr_''), (''grant-decision:sec'', ''sgr_'')]"
  by (simp add: demo_approved_def decideGrant_def demo_decision_def decisionReplay_def demo_grant_def Let_def
      eval_nat_numeral approvals_for_def grantDecision_def)

theorem stale_decision_refused_witness:
  "decideGrant demo_env (demo_decision ''kms'' KmsOperator 2) Deny demo_approved = (Inl VERSION_CONFLICT, demo_approved)"
proof -
  have "demo_approved \<noteq> demo_verified"
    by (metis demo_approved_facts(6) demo_verified_facts(5) one_eq_numeral_iff num.distinct(1))
  from stale_decision_refused [OF demo_inj demo_reachable(2) demo_approved_run this,
      of "demo_decision ''kms'' KmsOperator 2" Deny]
  show ?thesis by (simp add: demo_approved_keys) (simp add: demo_decision_def)
qed

lemma decideGrant_records_key:
  assumes "decideGrant e rq d s = (Inr g', t)" and "t \<noteq> s" and "grants_inv e s"
  shows "map_of (idempotency t) (''grant-decision:'' @ dIdempotencyKey rq) = Some (dAggregateId rq)"
proof -
  note i = recordGrantDecision_frame(7)
  show ?thesis
  proof (cases rule: decideGrant_cases [of e rq d s])
    case (denied g)
    then have "t = snd (recordGrantDecision e rq d (grantDecision e rq d g s)
        (g\<lparr>status := Denied, generation := Suc (generation g)\<rparr>) (tick (draw s)))"
      using assms(1) by (metis snd_conv)
    then show ?thesis using i grants_invD(1) [OF assms(3) denied(1)] by simp
  next
    case (approved g)
    then have "t = snd (recordGrantDecision e rq d (grantDecision e rq d g s)
        (g\<lparr>approvalPrincipalIds := approvalPrincipalIds g @ [principalId (dActor rq)]\<rparr>) (tick (draw s)))"
      using assms(1) by (metis snd_conv)
    then show ?thesis using i grants_invD(1) [OF assms(3) approved(1)] by simp
  next
    case (activated g)
    then have "t = snd (recordGrantDecision e rq d (grantDecision e rq d g s)
        (g\<lparr>status := Active, issuedAt := Some (now e (tick (draw s))),
           approvalPrincipalIds := approvalPrincipalIds g @ [principalId (dActor rq)]\<rparr>) (tick (tick (draw s))))"
      using assms(1) by (metis snd_conv)
    then show ?thesis using i grants_invD(1) [OF assms(3) activated(1)] by simp
  qed (use assms in auto)
qed

text \<open>A decision that was applied is applied once: repeating the same request, at any later time and
  with any decision, answers with the grant as it is then and changes nothing.\<close>

theorem decision_replay_is_idempotent:
  assumes "inj (uuid e)" and "reaches (sa_step e) initial_state s"
    and "decideGrant e rq d s = (Inr g', t)" and "t \<noteq> s" and "reaches (sa_step e) t u"
    and "dIdempotencyKey rq2 = dIdempotencyKey rq" and "dAggregateId rq2 = dAggregateId rq"
  shows "\<exists>h. map_of (grants u) (dAggregateId rq) = Some h \<and> reaches grant_step g' h
    \<and> decideGrant e rq2 d2 u = (Inr h, u)"
proof -
  have inv: "grants_inv e s" using assms(1,2) by (rule reachable_grants_inv)
  have st: "reaches (sa_step e) s t"
    using sa_reaches_exec [OF reaches_refl, of e s "DecideGrant rq d"] assms(3) by simp
  have invt: "grants_inv e t"
    using reachable_grants_inv [OF assms(1) reaches_trans [OF assms(2) st]] .
  have invu: "grants_inv e u"
    using reachable_grants_inv [OF assms(1)] reaches_trans [OF assms(2)] reaches_trans [OF st assms(5)] by blast
  obtain h where h: "map_of (grants u) (dAggregateId rq) = Some h" "reaches grant_step g' h"
    using grants_evolve_run [OF assms(5) invt assms(1)] decideGrant_bumps_version(2) [OF inv assms(3,4)]
    unfolding grants_evolve_def by blast
  have id: "grantId h = dAggregateId rq" "dAggregateId rq \<noteq> []"
    using grants_invD(1,4) [OF invu h(1)] by (auto simp: minted_def)
  then have "map_of (idempotency u) (''grant-decision:'' @ dIdempotencyKey rq) = Some (dAggregateId rq)"
    using decideGrant_records_key [OF assms(3,4) inv] idem_kept_run [OF assms(5)] unfolding idem_kept_def by blast
  then have "decisionReplay (''grant-decision:'' @ dIdempotencyKey rq) (grantId h) u = Inr True"
    using id by (simp only: decisionReplay_cases) simp
  then have "decideGrant e rq2 d2 u = (Inr h, u)"
    unfolding decideGrant_def assms(6,7) h(1) option.case by simp
  with h show ?thesis by blast
qed

theorem decision_replay_is_idempotent_witness:
  "snd (decideGrant demo_env (demo_decision ''sec'' Support 9) Deny demo_active) = demo_active"
proof -
  have "demo_approved \<noteq> demo_verified"
    by (metis demo_approved_facts(6) demo_verified_facts(5) one_eq_numeral_iff num.distinct(1))
  moreover have "reaches (sa_step demo_env) demo_approved demo_active"
    unfolding demo_active_def by (rule sa_reaches_exec [OF reaches_refl])
  ultimately have "\<exists>h. decideGrant demo_env (demo_decision ''sec'' Support 9) Deny demo_active = (Inr h, demo_active)"
    using decision_replay_is_idempotent [OF demo_inj demo_reachable(2) demo_approved_run,
        of demo_active "demo_decision ''sec'' Support 9" Deny] by (auto simp: demo_decision_def)
  then show ?thesis by auto
qed

end
