(* ===== verification/Support_BreakGlass.thy ===== *)
theory Support_BreakGlass
  imports Support_Grants
begin

section \<open>Break-glass requests\<close>

text \<open>
  The life cycle of a break-glass request as the code implements it (\<open>bg_step\<close>: a second factor may be
  confirmed and a revocation recorded in any status), and the invariant that ties each request to its
  approval records and to the alarm and notification records of the outbox.  One lemma
  per operation, as for the grants.
\<close>

subsection \<open>The life cycle of a request\<close>

inductive bg_step :: "break_glass \<Rightarrow> break_glass \<Rightarrow> bool" where
  bs_verify: "bg_step b (b\<lparr>mfaEvidenceId := Some m, status := PendingApproval, version := Suc (version b)\<rparr>)"
| bs_approve: "status b = PendingApproval \<Longrightarrow> p \<notin> set (approvalPrincipalIds b) \<Longrightarrow>
    p \<noteq> requesterPrincipalId b \<Longrightarrow> length (approvalPrincipalIds b) \<noteq> 1 \<Longrightarrow>
    bg_step b (b\<lparr>approvalPrincipalIds := approvalPrincipalIds b @ [p], version := Suc (version b)\<rparr>)"
| bs_activate: "status b = PendingApproval \<Longrightarrow> p \<notin> set (approvalPrincipalIds b) \<Longrightarrow>
    p \<noteq> requesterPrincipalId b \<Longrightarrow> length (approvalPrincipalIds b) = 1 \<Longrightarrow>
    bg_step b (b\<lparr>approvalPrincipalIds := approvalPrincipalIds b @ [p], version := Suc (version b),
      status := Active, issuedAt := Some t\<rparr>)"
| bs_revoke: "bg_step b (b\<lparr>status := Revoked, revokedAt := Some t, generation := Suc (generation b),
      version := Suc (version b)\<rparr>)"
| bs_expire: "\<not> terminal (status b) \<Longrightarrow>
    bg_step b (b\<lparr>status := Expired, generation := Suc (generation b), version := Suc (version b)\<rparr>)"

definition bg_init :: "break_glass \<Rightarrow> bool" where
  "bg_init b \<longleftrightarrow> status b = PendingVerification \<and> mfaEvidenceId b = None \<and> approvalPrincipalIds b = []
    \<and> generation b = 0 \<and> version b = 1 \<and> issuedAt b = None \<and> revokedAt b = None
    \<and> actions b \<noteq> [] \<and> truthy (sessionId b) \<and> bgObjectId b \<noteq> []"

definition bg_wf :: "break_glass \<Rightarrow> bool" where
  "bg_wf b \<longleftrightarrow> actions b \<noteq> [] \<and> truthy (sessionId b) \<and> bgObjectId b \<noteq> []
    \<and> distinct (approvalPrincipalIds b) \<and> requesterPrincipalId b \<notin> set (approvalPrincipalIds b)
    \<and> (status b = PendingVerification \<longrightarrow> approvalPrincipalIds b = [] \<and> generation b = 0)
    \<and> (status b = PendingApproval \<longrightarrow> mfaEvidenceId b \<noteq> None)
    \<and> (status b = Active \<longrightarrow> mfaEvidenceId b \<noteq> None \<and> length (approvalPrincipalIds b) = 2)
    \<and> (status b \<in> {Revoked, Expired} \<longrightarrow> 0 < generation b)
    \<and> status b \<noteq> Denied"

interpretation bg_lifecycle: transition_system bg_init bg_step bg_wf
proof
  show "bg_init b \<Longrightarrow> bg_wf b" for b
    by (simp add: bg_init_def bg_wf_def)
  show "bg_wf b \<Longrightarrow> bg_step b b' \<Longrightarrow> bg_wf b'" for b b'
    by (elim bg_step.cases) (auto simp: bg_wf_def)
qed

definition bg_static :: "break_glass \<Rightarrow> break_glass \<Rightarrow> bool" where
  "bg_static b c \<longleftrightarrow> breakGlassId c = breakGlassId b \<and> tenantId c = tenantId b
    \<and> organizationId c = organizationId b \<and> workspaceId c = workspaceId b \<and> sessionId c = sessionId b
    \<and> bgObjectId c = bgObjectId b \<and> incidentId c = incidentId b \<and> actions c = actions b
    \<and> requesterPrincipalId c = requesterPrincipalId b \<and> expiresAt c = expiresAt b
    \<and> version b \<le> version c \<and> generation b \<le> generation c
    \<and> prefix (approvalPrincipalIds b) (approvalPrincipalIds c)"

lemma bg_step_static: "bg_step b c \<Longrightarrow> bg_static b c"
  by (cases rule: bg_step.cases) (auto simp: bg_static_def)

lemma bg_static_trans: "bg_static a b \<Longrightarrow> bg_static b c \<Longrightarrow> bg_static a c"
  unfolding bg_static_def by (auto intro: prefix_order.trans)

lemma bg_reaches_static: "reaches bg_step b c \<Longrightarrow> bg_static b c"
proof (induction rule: reaches.induct)
  case (reaches_step a b c)
  then show ?case using bg_step_static bg_static_trans by blast
qed (simp add: bg_static_def)

subsection \<open>The service and its outbox\<close>

definition outbox_tags :: "sa_state \<Rightarrow> (outbox_kind \<times> string) list" where
  "outbox_tags s = map (\<lambda>v. (kind v, oAggregateId v)) (outbox s)"

definition bg_approvals :: "sa_state \<Rightarrow> approval_record list" where
  "bg_approvals s = filter (\<lambda>v. aggregateKind v = KBreakGlass) (approvals s)"

lemma break_approvals_bg:
  "break_approvals k (approvals s) = filter (\<lambda>v. aggregateId v = k) (bg_approvals s)"
  by (simp add: break_approvals_def bg_approvals_def conj_commute)

definition bg_ok :: "approval_record list \<Rightarrow> (outbox_kind \<times> string) list \<Rightarrow> string \<Rightarrow> break_glass \<Rightarrow> bool" where
  "bg_ok aps tags k b \<longleftrightarrow> breakGlassId b = k \<and> (\<exists>b0. bg_init b0 \<and> reaches bg_step b0 b)
    \<and> map approverPrincipalId (filter (\<lambda>v. aggregateId v = k) aps) = approvalPrincipalIds b
    \<and> count_list tags (BreakGlassAlarm, k) = (if 2 \<le> length (approvalPrincipalIds b) then 1 else 0)
    \<and> count_list tags (TenantNotification, k) = (if 0 < generation b then 1 else 0)
    \<and> (status b = Active \<and> ContentDecrypt \<in> set (actions b) \<longrightarrow>
        (\<exists>v \<in> set aps. aggregateId v = k \<and> approverRole v = KmsOperator))"

definition bgs_inv :: "js_env \<Rightarrow> sa_state \<Rightarrow> bool" where
  "bgs_inv e s \<longleftrightarrow>
    (\<forall>k b. map_of (breakGlass s) k = Some b \<longrightarrow>
      minted e ''bgr_'' (draws s) k \<and> bg_ok (bg_approvals s) (outbox_tags s) k b)
    \<and> (\<forall>v \<in> set (bg_approvals s). approverRole v \<in> {SecurityApprover, KmsOperator}
        \<and> map_of (breakGlass s) (aggregateId v) \<noteq> None)
    \<and> (\<forall>x \<in> set (outbox_tags s). map_of (breakGlass s) (snd x) \<noteq> None)"

lemma bgs_invD:
  assumes "bgs_inv e s" "map_of (breakGlass s) k = Some b"
  shows "breakGlassId b = k" "bg_wf b" "bg_ok (bg_approvals s) (outbox_tags s) k b" "minted e ''bgr_'' (draws s) k"
proof -
  show a: "bg_ok (bg_approvals s) (outbox_tags s) k b" and "minted e ''bgr_'' (draws s) k"
    using assms by (auto simp: bgs_inv_def)
  then show "breakGlassId b = k" "bg_wf b"
    using bg_lifecycle.reachable_inv by (auto simp: bg_ok_def)
qed

lemma bgs_inv_init: "bgs_inv e initial_state"
  by (simp add: bgs_inv_def bg_approvals_def outbox_tags_def)

lemma bgs_fresh:
  assumes "bgs_inv e s" and "inj (uuid e)"
  shows "map_of (breakGlass s) (''bgr_'' @ uuid e (draws s)) = None"
proof (rule ccontr)
  assume "map_of (breakGlass s) (''bgr_'' @ uuid e (draws s)) \<noteq> None"
  then obtain b where "map_of (breakGlass s) (''bgr_'' @ uuid e (draws s)) = Some b" by blast
  from bgs_invD(4) [OF assms(1) this] show False
    using minted_fresh [OF assms(2) order_refl] by blast
qed

definition bgs_evolve :: "sa_state \<Rightarrow> sa_state \<Rightarrow> bool" where
  "bgs_evolve s t \<longleftrightarrow>
    (\<forall>k b. map_of (breakGlass s) k = Some b \<longrightarrow> (\<exists>b'. map_of (breakGlass t) k = Some b' \<and> reaches bg_step b b'))"

definition bgs_next :: "js_env \<Rightarrow> sa_state \<Rightarrow> sa_state \<Rightarrow> bool" where
  "bgs_next e s t \<longleftrightarrow> bgs_inv e t \<and> bgs_evolve s t \<and> draws s \<le> draws t"

lemma bgs_evolve_frame: "breakGlass t = breakGlass s \<Longrightarrow> bgs_evolve s t"
  by (auto simp: bgs_evolve_def intro: reaches_refl)

lemma bgs_evolve_trans: "bgs_evolve s t \<Longrightarrow> bgs_evolve t u \<Longrightarrow> bgs_evolve s u"
  unfolding bgs_evolve_def by (meson reaches_trans)

lemma bgs_next_refl: "bgs_inv e s \<Longrightarrow> bgs_next e s s"
  by (simp add: bgs_next_def bgs_evolve_frame)

lemma bgs_next_trans: "bgs_next e s t \<Longrightarrow> bgs_next e t u \<Longrightarrow> bgs_next e s u"
  by (auto simp: bgs_next_def intro: bgs_evolve_trans)

lemma bgs_next_frame:
  assumes "bgs_inv e s" "breakGlass t = breakGlass s" "bg_approvals t = bg_approvals s"
    "outbox_tags t = outbox_tags s" "draws s \<le> draws t"
  shows "bgs_next e s t"
proof -
  have "bgs_inv e t"
    using assms by (auto simp: bgs_inv_def intro: minted_mono)
  then show ?thesis using assms(2,5) by (simp add: bgs_next_def bgs_evolve_frame)
qed

lemma bgs_next_update:
  assumes inv: "bgs_inv e s" and k: "map_of (breakGlass s) k = Some b" and st: "bg_step b b'"
    and t: "breakGlass t = AList.update k b' (breakGlass s)" "bg_approvals t = bg_approvals s @ aps"
      "outbox_tags t = outbox_tags s @ tags" "draws s \<le> draws t"
    and aps: "\<forall>v \<in> set aps. approverRole v \<in> {SecurityApprover, KmsOperator} \<and> aggregateId v = k"
    and tags: "\<forall>x \<in> set tags. snd x = k"
    and ids: "approvalPrincipalIds b' = approvalPrincipalIds b @ map approverPrincipalId aps"
    and alarm: "count_list tags (BreakGlassAlarm, k) =
      (if length (approvalPrincipalIds b) < 2 \<and> 2 \<le> length (approvalPrincipalIds b') then 1 else 0)"
    and notif: "count_list tags (TenantNotification, k) =
      (if generation b = 0 \<and> 0 < generation b' then 1 else 0)"
    and kms: "status b' = Active \<Longrightarrow> ContentDecrypt \<in> set (actions b) \<Longrightarrow>
      \<exists>v \<in> set (bg_approvals t). aggregateId v = k \<and> approverRole v = KmsOperator"
  shows "bgs_next e s t"
proof -
  note bd = bgs_invD [OF inv k]
  note sta = bg_step_static [OF st, unfolded bg_static_def]
  have fk: "filter (\<lambda>v. aggregateId v = k) aps = aps"
    using aps by (simp add: filter_id_conv)
  have "\<exists>b0. bg_init b0 \<and> reaches bg_step b0 b'"
    using bd(3) st by (auto simp: bg_ok_def intro: reaches_step)
  then have "bg_ok (bg_approvals t) (outbox_tags t) k b'"
    using bd(1,3) sta kms prefix_length_le [of "approvalPrincipalIds b" "approvalPrincipalIds b'"]
    by (auto simp: bg_ok_def t(2,3) fk ids alarm notif)
  moreover have "bg_ok (bg_approvals t) (outbox_tags t) j c" if "map_of (breakGlass s) j = Some c" "j \<noteq> k" for j c
  proof -
    have "filter (\<lambda>v. aggregateId v = j) aps = []"
      using aps that(2) by (auto simp: filter_empty_conv)
    moreover have "count_list tags (x, j) = 0" for x
      using tags that(2) by (auto simp: count_list_0_iff)
    ultimately show ?thesis
      using bgs_invD(3) [OF inv that(1)] by (auto simp: bg_ok_def t(2,3))
  qed
  moreover have "\<forall>j c. map_of (breakGlass s) j = Some c \<longrightarrow> minted e ''bgr_'' (draws t) j"
    using inv t(4) by (auto simp: bgs_inv_def intro: minted_mono)
  moreover have "\<forall>x \<in> set (outbox_tags t). map_of (breakGlass t) (snd x) \<noteq> None"
    using inv tags k by (auto simp: bgs_inv_def t)
  moreover have "\<forall>v \<in> set (bg_approvals t). approverRole v \<in> {SecurityApprover, KmsOperator}
        \<and> map_of (breakGlass t) (aggregateId v) \<noteq> None"
    using inv aps by (auto simp: bgs_inv_def t)
  ultimately have "bgs_inv e t"
    using k unfolding bgs_inv_def t(1) by auto
  moreover have "bgs_evolve s t"
    using k st by (auto simp: bgs_evolve_def t(1) intro: reaches_refl reaches_step)
  ultimately show ?thesis using t(4) by (simp add: bgs_next_def)
qed

lemma count_tags:
  "count_list (outbox_tags s) (x, k) = length (filter (\<lambda>v. kind v = x \<and> oAggregateId v = k) (outbox s))"
proof -
  have "count_list (map (\<lambda>v. (kind v, oAggregateId v)) vs) (x, k) =
    length (filter (\<lambda>v. kind v = x \<and> oAggregateId v = k) vs)" for vs :: "outbox_record list"
    by (induction vs) auto
  then show ?thesis by (simp add: outbox_tags_def)
qed

lemma outbox_tags_queue:
  "outbox_tags (queueTenantNotification e b s) = outbox_tags s @
    (if count_list (outbox_tags s) (TenantNotification, breakGlassId b) = 0
     then [(TenantNotification, breakGlassId b)] else [])"
proof -
  have "(\<exists>v \<in> set (outbox s). kind v = TenantNotification \<and> oAggregateId v = breakGlassId b) \<longleftrightarrow>
    (TenantNotification, breakGlassId b) \<in> set (outbox_tags s)"
    by (force simp: outbox_tags_def image_iff)
  then show ?thesis
    by (auto simp: queueTenantNotification_def count_list_0_iff outbox_tags_def)
qed

lemma outbox_tags_frame:
  "outbox t = outbox s \<Longrightarrow> outbox_tags t = outbox_tags s"
  by (simp add: outbox_tags_def)

lemma outbox_tags_ops [simp]:
  "outbox_tags (snd (deliverOutbox e oid key s)) = outbox_tags s"
  "outbox_tags (snd (failOutbox e oid t key s)) = outbox_tags s"
proof -
  have "map (\<lambda>v. (kind v, oAggregateId v)) (update_first p (\<lambda>_. r') xs) = map (\<lambda>v. (kind v, oAggregateId v)) xs"
    if "find p xs = Some r" "kind r' = kind r" "oAggregateId r' = oAggregateId r" for p xs r and r' :: outbox_record
    using that by (induction xs) (auto split: if_splits)
  then show "outbox_tags (snd (deliverOutbox e oid key s)) = outbox_tags s"
    "outbox_tags (snd (failOutbox e oid t key s)) = outbox_tags s"
    by (auto simp: deliverOutbox_def failOutbox_def outbox_tags_def Let_def split: option.splits)
qed

lemma bgs_next_frame':
  assumes "bgs_inv e s" "breakGlass t = breakGlass s" "approvals t = approvals s" "outbox t = outbox s"
    "draws s \<le> draws t"
  shows "bgs_next e s t"
  using assms by (intro bgs_next_frame) (simp_all add: bg_approvals_def outbox_tags_def)

text \<open>Ending a request: its generation grows and the tenant is notified the first time.\<close>

lemma bgs_next_end:
  assumes inv: "bgs_inv e s" and k: "map_of (breakGlass s) k = Some b" and st: "bg_step b b'"
    and ends: "generation b' = Suc (generation b)" "approvalPrincipalIds b' = approvalPrincipalIds b" "status b' \<noteq> Active"
    and u: "breakGlass u = AList.update k b' (breakGlass s)" "approvals u = approvals s" "outbox u = outbox s"
      "draws u = draws s"
    and t: "breakGlass t = breakGlass u" "approvals t = approvals u" "outbox t = outbox (queueTenantNotification e b' u)"
      "draws t = draws (queueTenantNotification e b' u)"
  shows "bgs_next e s t"
proof -
  note bd = bgs_invD [OF inv k]
  have id: "breakGlassId b' = k" using bd(1) bg_step_static [OF st] by (simp add: bg_static_def)
  have "count_list (outbox_tags s) (TenantNotification, k) = (if 0 < generation b then 1 else 0)"
    using bd(3) by (simp add: bg_ok_def)
  then have tags: "outbox_tags t = outbox_tags s @ (if generation b = 0 then [(TenantNotification, k)] else [])"
    using outbox_tags_frame [OF t(3)] outbox_tags_frame [OF u(3)] by (simp add: outbox_tags_queue id)
  have aps: "bg_approvals t = bg_approvals s @ []" using t(2) u(2) by (simp add: bg_approvals_def)
  have d: "draws s \<le> draws t" using draws_queueTenantNotification [of u e b'] by (simp add: t(4) u(4))
  have "breakGlass t = AList.update k b' (breakGlass s)" by (simp add: t(1) u(1))
  from bgs_next_update [OF inv k st this aps tags d] ends show ?thesis by simp
qed

subsubsection \<open>One lemma per operation\<close>

lemma bgs_next_expireBreakGlass:
  assumes inv: "bgs_inv e s" shows "bgs_next e s (expireBreakGlass e t k s)"
proof (cases "\<exists>b. map_of (breakGlass s) k = Some b \<and> \<not> terminal (status b) \<and> expiresAt b \<le> t")
  case False
  then have "expireBreakGlass e t k s = s" by (auto simp: expireBreakGlass_def split: option.split)
  with inv show ?thesis by (simp add: bgs_next_refl)
next
  case True
  then obtain b where b: "map_of (breakGlass s) k = Some b" "\<not> terminal (status b)" "expiresAt b \<le> t" by blast
  let ?b = "b\<lparr>status := Expired, generation := Suc (generation b), version := Suc (version b)\<rparr>"
  let ?u = "revokeLeases e None (Some (breakGlassId b)) (setBreakGlass ?b s)"
  have eq: "expireBreakGlass e t k s = appendBreakGlassAudit e ?b ''system'' ''break_glass.ended'' Success ''ttl''
      (''expiry:'' @ breakGlassId b) (queueTenantNotification e ?b ?u)"
    using b by (simp add: expireBreakGlass_def Let_def)
  show ?thesis
    by (rule bgs_next_end [OF inv b(1) bs_expire [OF b(2)], where u = ?u])
      (simp_all add: eq bgs_invD(1) [OF inv b(1)])
qed

lemma bgs_next_fold:
  assumes "bgs_inv e s" and "\<And>x u. bgs_inv e u \<Longrightarrow> bgs_next e u (f x u)"
  shows "bgs_next e s (fold f xs s)"
proof -
  have "bgs_inv e (fold f xs s) \<and> bgs_next e s (fold f xs s)"
  proof (rule fold_relates [where I = "bgs_inv e" and R = "bgs_next e"])
    show "bgs_inv e s" by (rule assms(1))
    show "bgs_inv e (f x u) \<and> bgs_next e u (f x u)" if "bgs_inv e u" for x u
      using assms(2) [OF that] by (simp add: bgs_next_def)
  qed (blast intro: bgs_next_refl bgs_next_trans)+
  then show ?thesis by blast
qed

lemma bgs_next_expire: "bgs_inv e s \<Longrightarrow> bgs_next e s (expire e s)"
proof -
  assume inv: "bgs_inv e s"
  let ?s1 = "fold (expireGrant e (now e s)) (map fst (grants s)) (tick s)"
  have 1: "bgs_next e s ?s1"
    using inv by (intro bgs_next_frame') (simp_all add: fold_frame)
  have "bgs_next e ?s1 (expire e s)"
    unfolding expire_def Let_def
    using 1 by (intro bgs_next_fold bgs_next_expireBreakGlass) (simp_all add: bgs_next_def)
  with 1 show ?thesis by (rule bgs_next_trans)
qed

lemma bgs_next_via_expire:
  assumes "bgs_inv e s" "breakGlass t = breakGlass (expire e s)" "approvals t = approvals s"
    "outbox t = outbox (expire e s)" "draws (expire e s) \<le> draws t"
  shows "bgs_next e s t"
proof -
  have 1: "bgs_next e s (expire e s)" using assms(1) by (rule bgs_next_expire)
  then have "bgs_next e (expire e s) t"
    using assms by (intro bgs_next_frame') (simp_all add: bgs_next_def)
  with 1 show ?thesis by (rule bgs_next_trans)
qed

lemma bgs_next_revokeBreakGlass:
  assumes inv: "bgs_inv e s" shows "bgs_next e s (snd (revokeBreakGlass e rq s))"
proof (cases rule: revokeBreakGlass_cases [of e rq s])
  case same
  with inv show ?thesis by (simp add: bgs_next_refl)
next
  case (revoked b)
  let ?b = "b\<lparr>status := Revoked, revokedAt := Some (now e s), generation := Suc (generation b),
    version := Suc (version b)\<rparr>"
  let ?u = "revokeLeases e None (Some (breakGlassId b)) (setBreakGlass ?b (tick s))"
  show ?thesis
    by (rule bgs_next_end [OF inv revoked(1) bs_revoke, where u = ?u])
      (simp_all add: revoked(4) Let_def bgs_invD(1) [OF inv revoked(1)])
qed

lemma bgs_next_verifyBreakGlassMfa:
  assumes inv: "bgs_inv e s" shows "bgs_next e s (snd (verifyBreakGlassMfa e rq m s))"
proof (cases rule: verifyBreakGlassMfa_cases [of e rq m s])
  case same
  with inv show ?thesis by (simp add: bgs_next_refl)
next
  case (verified b)
  let ?t = "snd (verifyBreakGlassMfa e rq m s)"
  have a: "bg_approvals ?t = bg_approvals s @ []" "outbox_tags ?t = outbox_tags s @ []"
    by (simp_all add: bg_approvals_def outbox_tags_def)
  show ?thesis
    by (rule bgs_next_update [OF inv verified(1) bs_verify _ a])
      (auto simp: verified(4) bgs_invD(1) [OF inv verified(1)])
qed

lemma bgs_next_createBreakGlass:
  assumes inv: "bgs_inv e s" and uu: "inj (uuid e)"
  shows "bgs_next e s (snd (createBreakGlass e rq s))"
proof (cases rule: createBreakGlass_cases [of e rq s])
  case same
  with inv show ?thesis by (simp add: bgs_next_refl)
next
  case created
  let ?t = "snd (createBreakGlass e rq s)" and ?b = "requested_break_glass e rq s"
  have id: "breakGlassId ?b = ''bgr_'' @ uuid e (draws s)" and init: "bg_init ?b"
    using created by (simp_all add: requested_break_glass_def bg_init_def)
  have none: "map_of (breakGlass s) (breakGlassId ?b) = None"
    unfolding id by (rule bgs_fresh [OF inv uu])
  have tags: "outbox_tags ?t = outbox_tags s" "bg_approvals ?t = bg_approvals s"
    by (simp_all add: outbox_tags_def bg_approvals_def)
  have t: "breakGlass ?t = AList.update (breakGlassId ?b) ?b (breakGlass s)" "draws ?t = Suc (draws s)"
    by (simp_all add: created(7))
  have "filter (\<lambda>v. aggregateId v = breakGlassId ?b) (bg_approvals s) = []"
    using inv none by (auto simp: bgs_inv_def filter_empty_conv)
  moreover have "(x, breakGlassId ?b) \<notin> set (outbox_tags s)" for x
    using inv none unfolding bgs_inv_def by force
  ultimately have "bg_ok (bg_approvals s) (outbox_tags s) (breakGlassId ?b) ?b"
    using init reaches_refl [of bg_step ?b] init [unfolded bg_init_def]
    unfolding bg_ok_def by (auto simp: count_list_0_iff)
  moreover have "minted e ''bgr_'' (Suc (draws s)) (breakGlassId ?b)"
    unfolding id by (rule minted_Suc)
  ultimately have "bgs_inv e ?t"
    using inv unfolding bgs_inv_def t tags by (auto intro: minted_SucI)
  moreover have "bgs_evolve s ?t"
    using none unfolding bgs_evolve_def t by (auto intro: reaches_refl)
  ultimately show ?thesis by (simp add: bgs_next_def t)
qed

lemma bg_approvers_count:
  assumes "bgs_inv e s" "map_of (breakGlass s) k = Some b"
  shows "length (break_approvals k (approvals s)) = length (approvalPrincipalIds b)"
  using bgs_invD(3) [OF assms] unfolding bg_ok_def break_approvals_bg by (metis length_map)

lemma bgs_next_approveBreakGlass:
  assumes inv: "bgs_inv e s" shows "bgs_next e s (snd (approveBreakGlass e rq s))"
proof (cases rule: approveBreakGlass_cases [of e rq s])
  case same
  with inv show ?thesis by (simp add: bgs_next_refl)
next
  case kms
  with inv show ?thesis by (intro bgs_next_frame') simp_all
next
  case (approved b)
  let ?t = "snd (approveBreakGlass e rq s)"
  note k = bgs_invD(1) [OF inv approved(1)] and n = bg_approvers_count [OF inv approved(1)]
  have t: "breakGlass ?t = AList.update (dAggregateId rq) (approved_request rq b) (breakGlass s)"
    "bg_approvals ?t = bg_approvals s @ [breakGlassApproval e rq b s]" "outbox_tags ?t = outbox_tags s @ []"
    by (simp_all add: approved(4) bg_approvals_def outbox_tags_def breakGlassApproval_def k)
  from approved(2,3) have st: "bg_step b (approved_request rq b)"
    by (intro bs_approve) (simp_all add: may_approve_def n k)
  from approved(2,3) show ?thesis
    by (intro bgs_next_update [OF inv approved(1) st t])
      (auto simp: approved(4) may_approve_def n k breakGlassApproval_def)
next
  case (activated b)
  let ?t = "snd (approveBreakGlass e rq s)"
  note k = bgs_invD(1) [OF inv activated(1)] and n = bg_approvers_count [OF inv activated(1)]
  let ?b = "(approved_request rq b)\<lparr>status := Active, issuedAt := Some (now e (tick (approval_recorded e rq b s)))\<rparr>"
  have t: "breakGlass ?t = AList.update (dAggregateId rq) ?b (breakGlass s)"
    "bg_approvals ?t = bg_approvals s @ [breakGlassApproval e rq b s]"
    "outbox_tags ?t = outbox_tags s @ [(BreakGlassAlarm, dAggregateId rq)]"
    by (simp_all add: activated(5) bg_approvals_def outbox_tags_def breakGlassApproval_def breakGlassAlarm_def k)
  from activated(2,3) have st: "bg_step b ?b"
    by (intro bs_activate) (simp_all add: may_approve_def n k)
  have kms: "ContentDecrypt \<in> set (actions b) \<Longrightarrow>
      \<exists>v \<in> set (bg_approvals ?t). aggregateId v = dAggregateId rq \<and> approverRole v = KmsOperator"
    using activated(4) unfolding t(2) break_approvals_bg k by (auto simp: breakGlassApproval_def k)
  from activated(2,3) kms show ?thesis
    by (intro bgs_next_update [OF inv activated(1) st t])
      (auto simp: activated(5) may_approve_def n k breakGlassApproval_def)
qed

lemma bg_approvals_decideGrant: "bg_approvals (snd (decideGrant e rq d s)) = bg_approvals s"
  by (cases rule: decideGrant_cases [of e rq d s]) (simp_all add: bg_approvals_def grantDecision_def)

lemma grant_ops_frame [simp]:
  "breakGlass (snd (decideGrant e rq d s)) = breakGlass s" "outbox (snd (decideGrant e rq d s)) = outbox s"
  "leases (snd (decideGrant e rq d s)) = leases s"
  "breakGlass (snd (verifyGrantMfa e rq m s)) = breakGlass s" "outbox (snd (verifyGrantMfa e rq m s)) = outbox s"
  "approvals (snd (verifyGrantMfa e rq m s)) = approvals s" "draws (snd (verifyGrantMfa e rq m s)) = draws s"
  "leases (snd (verifyGrantMfa e rq m s)) = leases s"
  "breakGlass (snd (revokeGrant e rq s)) = breakGlass s" "outbox (snd (revokeGrant e rq s)) = outbox s"
  "approvals (snd (revokeGrant e rq s)) = approvals s" "draws (snd (revokeGrant e rq s)) = draws s"
  by ((cases rule: decideGrant_cases [of e rq d s]; simp),
      (cases rule: decideGrant_cases [of e rq d s]; simp),
      (cases rule: decideGrant_cases [of e rq d s]; simp))
    (cases rule: verifyGrantMfa_cases [of e rq m s]; cases rule: revokeGrant_cases [of e rq s]; simp)+

lemma draws_decideGrant: "draws s \<le> draws (snd (decideGrant e rq d s))"
  by (cases rule: decideGrant_cases [of e rq d s]) simp_all

lemma bgs_next_exec:
  assumes "bgs_inv e s" and "inj (uuid e)"
  shows "bgs_next e s (sa_exec e ev s)"
proof (cases ev)
  case (CreateGrant rq)
  then show ?thesis using assms draws_createGrant by (simp add: bgs_next_frame')
next
  case (VerifyGrantMfa rq m)
  then show ?thesis using assms by (simp add: bgs_next_frame')
next
  case (DecideGrant rq d)
  then show ?thesis
    using assms draws_decideGrant
    by (simp add: bgs_next_frame bg_approvals_decideGrant outbox_tags_def)
next
  case (RevokeGrant rq)
  then show ?thesis using assms by (simp add: bgs_next_frame')
next
  case (ApproveBreakGlass rq)
  then show ?thesis using assms by (simp add: bgs_next_approveBreakGlass)
next
  case (IssueLease rq)
  then show ?thesis using assms draws_issue by (simp add: bgs_next_via_expire)
next
  case (IssueBreakGlassLease rq)
  then show ?thesis using assms draws_issue by (simp add: bgs_next_via_expire)
next
  case (ConsumeLease rq)
  then show ?thesis using assms by (simp add: bgs_next_via_expire)
next
  case (CreateBreakGlass rq)
  then show ?thesis using assms by (simp add: bgs_next_createBreakGlass)
next
  case (RevokeBreakGlass rq)
  then show ?thesis using assms by (simp add: bgs_next_revokeBreakGlass)
next
  case (VerifyBreakGlassMfa rq m)
  then show ?thesis using assms by (simp add: bgs_next_verifyBreakGlassMfa)
next
  case (DeliverOutbox oid key)
  then show ?thesis using assms by (simp add: bgs_next_frame bg_approvals_def)
next
  case (FailOutbox oid t key)
  then show ?thesis using assms by (simp add: bgs_next_frame bg_approvals_def)
qed (use assms in \<open>simp_all add: bgs_next_expire\<close>)

interpretation bg_service: transition_system "\<lambda>s. s = initial_state" "sa_step e"
  "\<lambda>s. inj (uuid e) \<longrightarrow> bgs_inv e s" for e
proof
  show "s = initial_state \<Longrightarrow> inj (uuid e) \<longrightarrow> bgs_inv e s" for s
    by (simp add: bgs_inv_init)
  show "inj (uuid e) \<longrightarrow> bgs_inv e t" if "inj (uuid e) \<longrightarrow> bgs_inv e s" "sa_step e s t" for s t
    using that bgs_next_exec by (auto elim!: sa_stepE simp: bgs_next_def)
qed

lemma reachable_bgs_inv: "inj (uuid e) \<Longrightarrow> reaches (sa_step e) initial_state s \<Longrightarrow> bgs_inv e s"
  using bg_service.reachable_inv [of initial_state e s] by simp

subsection \<open>A sample run\<close>

definition demo_incident :: break_glass_request where
  "demo_incident = \<lparr>bqTenantId = ''t'', bqOrganizationId = ''o'', bqWorkspaceId = ''w'', bqSessionId = Some ''s'',
    bqObjectId = ''obj'', bqActions = [ContentDecrypt], bqIncidentId = ''INC-1234'', bqReason = ''outage'',
    bqRequester = \<lparr>principalId = ''op'', role = Operator\<rparr>, bqDurationMinutes = 15,
    bqIdempotencyKey = ''b'', bqCorrelationId = ''c''\<rparr>"

definition demo_bg :: break_glass where
  "demo_bg = \<lparr>tenantId = ''t'', organizationId = ''o'', workspaceId = ''w'', sessionId = Some ''s'',
    actions = [ContentDecrypt], reason = ''outage'', requesterPrincipalId = ''op'', mfaEvidenceId = None,
    approvalPrincipalIds = [], status = PendingVerification, issuedAt = None, expiresAt = 900000,
    revokedAt = None, version = 1, generation = 0, idempotencyKey = ''b'', breakGlassId = ''bgr_'',
    bgObjectId = ''obj'', incidentId = ''INC-1234''\<rparr>"

definition demo_action :: "string \<Rightarrow> string \<Rightarrow> support_role \<Rightarrow> nat \<Rightarrow> decision_request" where
  "demo_action key p r n = \<lparr>dAggregateId = ''bgr_'', dActor = \<lparr>principalId = p, role = r\<rparr>, dExpectedVersion = n,
     dIdempotencyKey = key, dMfaEvidenceId = None, dCorrelationId = ''c''\<rparr>"

definition bg_created :: sa_state where
  "bg_created = sa_exec demo_env (CreateBreakGlass demo_incident) initial_state"
definition bg_verified :: sa_state where
  "bg_verified = sa_exec demo_env (VerifyBreakGlassMfa (demo_action ''1'' ''op'' Operator 1) ''mfa'') bg_created"
definition bg_revoked :: sa_state where
  "bg_revoked = sa_exec demo_env (RevokeBreakGlass (demo_action ''2'' ''op'' Operator 2)) bg_verified"
definition bg_reopened :: sa_state where
  "bg_reopened = sa_exec demo_env (VerifyBreakGlassMfa (demo_action ''3'' ''op'' Operator 3) ''mfa'') bg_revoked"
definition bg_approved :: sa_state where
  "bg_approved = sa_exec demo_env (ApproveBreakGlass (demo_action ''4'' ''sec'' SecurityApprover 4)) bg_reopened"
definition bg_active :: sa_state where
  "bg_active = sa_exec demo_env (ApproveBreakGlass (demo_action ''5'' ''kms'' KmsOperator 5)) bg_approved"

lemma demo_bg_requested: "requested_break_glass demo_env demo_incident initial_state = demo_bg"
  by code_simp

lemma demo_incident_ok: "incident_id_ok ''INC-1234''"
  by code_simp

lemma bg_created_facts [simp]:
  "breakGlass bg_created = [(''bgr_'', demo_bg)]" "idempotency bg_created = [(''break-glass:b'', ''bgr_'')]"
  "approvals bg_created = []" "outbox bg_created = []" "leases bg_created = []"
  "grants bg_created = []" "ticks bg_created = 2"
  using demo_bg_requested demo_incident_ok
  by (simp_all add: bg_created_def createBreakGlass_def Let_def demo_incident_def) (simp_all add: demo_bg_def)

lemma bg_verified_facts [simp]:
  "breakGlass bg_verified =
    [(''bgr_'', demo_bg\<lparr>mfaEvidenceId := Some ''mfa'', status := PendingApproval, version := 2\<rparr>)]"
  "idempotency bg_verified = [(''break-glass:b'', ''bgr_''), (''break-mfa:1'', ''bgr_'')]"
  "approvals bg_verified = []" "outbox bg_verified = []" "leases bg_verified = []" "ticks bg_verified = 3"
  "grants bg_verified = []"
  by (simp_all add: bg_verified_def verifyBreakGlassMfa_def demo_action_def decisionReplay_def Let_def demo_bg_def
      eval_nat_numeral)

lemma bg_revoked_facts [simp]:
  "breakGlass bg_revoked =
    [(''bgr_'', demo_bg\<lparr>mfaEvidenceId := Some ''mfa'', status := Revoked, version := 3, generation := 1,
       revokedAt := Some 3000\<rparr>)]"
  "idempotency bg_revoked = [(''break-glass:b'', ''bgr_''), (''break-mfa:1'', ''bgr_'')]"
  "approvals bg_revoked = []" "leases bg_revoked = []" "grants bg_revoked = []"
  by (simp_all add: bg_revoked_def revokeBreakGlass_def demo_action_def Let_def demo_bg_def
      eval_nat_numeral now_def demo_env_def revokeLeases_def)

lemma bg_reopened_facts [simp]:
  "breakGlass bg_reopened =
    [(''bgr_'', demo_bg\<lparr>mfaEvidenceId := Some ''mfa'', status := PendingApproval, version := 4, generation := 1,
       revokedAt := Some 3000\<rparr>)]"
  "idempotency bg_reopened =
    [(''break-glass:b'', ''bgr_''), (''break-mfa:1'', ''bgr_''), (''break-mfa:3'', ''bgr_'')]"
  "approvals bg_reopened = []" "leases bg_reopened = []" "grants bg_reopened = []"
  by (simp_all add: bg_reopened_def verifyBreakGlassMfa_def demo_action_def decisionReplay_def Let_def demo_bg_def
      eval_nat_numeral)

lemma bg_approved_facts [simp]:
  "breakGlass bg_approved =
    [(''bgr_'', demo_bg\<lparr>mfaEvidenceId := Some ''mfa'', status := PendingApproval, version := 5, generation := 1,
       revokedAt := Some 3000, approvalPrincipalIds := [''sec'']\<rparr>)]"
  "map_of (idempotency bg_approved) ''break-approval:5'' = None"
  "length (break_approvals ''bgr_'' (approvals bg_approved)) = 1" "leases bg_approved = []" "grants bg_approved = []"
  by (simp_all add: bg_approved_def approveBreakGlass_def demo_action_def decisionReplay_def Let_def demo_bg_def
      eval_nat_numeral break_approvals_def breakGlassApproval_def)

lemma bg_active_facts:
  "map_option status (map_of (breakGlass bg_active) ''bgr_'') = Some Active"
  "leases bg_active = []" "grants bg_active = []"
  by (simp_all add: bg_active_def approveBreakGlass_def demo_action_def decisionReplay_def Let_def demo_bg_def
      eval_nat_numeral breakGlassApproval_def case_prod_beta)

lemma bg_demo_reachable:
  "reaches (sa_step demo_env) initial_state bg_revoked"
  "reaches (sa_step demo_env) bg_revoked bg_active"
proof -
  show "reaches (sa_step demo_env) initial_state bg_revoked"
    unfolding bg_revoked_def bg_verified_def bg_created_def by (intro sa_reaches_exec reaches_refl)
  show "reaches (sa_step demo_env) bg_revoked bg_active"
    unfolding bg_active_def bg_approved_def bg_reopened_def by (intro sa_reaches_exec reaches_refl)
qed

subsection \<open>Properties\<close>

text \<open>In every reachable state an active break-glass request has its requester's second factor and
  exactly two distinct approvers, neither of them the requester and both security approvers or KMS
  operators (one of them a KMS operator when decryption is requested), and its activation has put
  exactly one alarm into the outbox.\<close>

theorem active_break_glass_double_approval:
  assumes "inj (uuid e)" and "reaches (sa_step e) initial_state s"
    and "map_of (breakGlass s) k = Some b" and "status b = Active"
  shows "mfaEvidenceId b \<noteq> None \<and> length (approvalPrincipalIds b) = 2 \<and> distinct (approvalPrincipalIds b)
    \<and> requesterPrincipalId b \<notin> set (approvalPrincipalIds b)
    \<and> map approverPrincipalId (break_approvals k (approvals s)) = approvalPrincipalIds b
    \<and> (\<forall>v \<in> set (break_approvals k (approvals s)). approverRole v \<in> {SecurityApprover, KmsOperator})
    \<and> (ContentDecrypt \<in> set (actions b) \<longrightarrow>
        (\<exists>v \<in> set (break_approvals k (approvals s)). approverRole v = KmsOperator))
    \<and> length (filter (\<lambda>v. kind v = BreakGlassAlarm \<and> oAggregateId v = k) (outbox s)) = 1"
proof -
  have inv: "bgs_inv e s" using assms(1,2) by (rule reachable_bgs_inv)
  note d = bgs_invD(2,3) [OF inv assms(3)]
  have w: "mfaEvidenceId b \<noteq> None" "length (approvalPrincipalIds b) = 2" "distinct (approvalPrincipalIds b)"
    "requesterPrincipalId b \<notin> set (approvalPrincipalIds b)"
    using d(1) assms(4) by (simp_all add: bg_wf_def)
  have "\<forall>v \<in> set (break_approvals k (approvals s)). approverRole v \<in> {SecurityApprover, KmsOperator}"
    using inv by (auto simp: break_approvals_bg bgs_inv_def)
  moreover have "ContentDecrypt \<in> set (actions b) \<longrightarrow>
      (\<exists>v \<in> set (break_approvals k (approvals s)). approverRole v = KmsOperator)"
    using d(2) assms(4) by (auto simp: bg_ok_def break_approvals_bg)
  moreover have "map approverPrincipalId (break_approvals k (approvals s)) = approvalPrincipalIds b"
    using d(2) by (simp add: bg_ok_def break_approvals_bg)
  moreover have "length (filter (\<lambda>v. kind v = BreakGlassAlarm \<and> oAggregateId v = k) (outbox s)) = 1"
    using d(2) w(2) by (simp add: bg_ok_def count_tags [symmetric])
  ultimately show ?thesis using w by blast
qed

theorem active_break_glass_double_approval_witness:
  "length (filter (\<lambda>v. kind v = BreakGlassAlarm \<and> oAggregateId v = ''bgr_'') (outbox bg_active)) = 1"
proof -
  obtain b where "map_of (breakGlass bg_active) ''bgr_'' = Some b" "status b = Active"
    using bg_active_facts(1) by (auto simp: map_option_eq_Some)
  from active_break_glass_double_approval [OF demo_inj reaches_trans [OF bg_demo_reachable] this]
  show ?thesis by blast
qed

text \<open>The tenant is told about the end of a break-glass request once: for a request that was revoked
  or has expired the outbox holds exactly one tenant notification, and never more than one for any
  request, however often it is ended.\<close>

theorem ended_break_glass_notified_once:
  assumes "inj (uuid e)" and "reaches (sa_step e) initial_state s" and "map_of (breakGlass s) k = Some b"
  shows "length (filter (\<lambda>v. kind v = TenantNotification \<and> oAggregateId v = k) (outbox s)) \<le> 1
    \<and> (status b \<in> {Revoked, Expired} \<longrightarrow>
        length (filter (\<lambda>v. kind v = TenantNotification \<and> oAggregateId v = k) (outbox s)) = 1)"
proof -
  have inv: "bgs_inv e s" using assms(1,2) by (rule reachable_bgs_inv)
  note d = bgs_invD(2,3) [OF inv assms(3)]
  then show ?thesis unfolding count_tags [symmetric] by (simp add: bg_ok_def bg_wf_def)
qed

theorem ended_break_glass_notified_once_witness:
  "length (filter (\<lambda>v. kind v = TenantNotification \<and> oAggregateId v = ''bgr_'') (outbox bg_revoked)) = 1"
  using ended_break_glass_notified_once [OF demo_inj bg_demo_reachable(1), of "''bgr_''"] by simp

text \<open>The end of a break-glass request is not final: \<open>verifyBreakGlassMfa\<close> does not look at the status,
  so there is a run in which a revoked request is confirmed again, approved and becomes active.\<close>

theorem revoked_break_glass_can_become_active:
  "\<exists>e s t b c. inj (uuid e) \<and> reaches (sa_step e) initial_state s \<and> reaches (sa_step e) s t
    \<and> map_of (breakGlass s) ''bgr_'' = Some b \<and> status b = Revoked
    \<and> map_of (breakGlass t) ''bgr_'' = Some c \<and> status c = Active"
proof -
  obtain c where "map_of (breakGlass bg_active) ''bgr_'' = Some c" "status c = Active"
    using bg_active_facts(1) by (auto simp: map_option_eq_Some)
  moreover have "\<exists>b. map_of (breakGlass bg_revoked) ''bgr_'' = Some b \<and> status b = Revoked" by simp
  ultimately show ?thesis using demo_inj bg_demo_reachable by blast
qed

end
