(* ===== verification/Support_Leases.thy ===== *)
theory Support_Leases
  imports Support_BreakGlass
begin

section \<open>Access leases\<close>

text \<open>
  A lease is drawn from an active grant or break-glass request and is worth one access.  The invariant
  \<open>leases_inv\<close> binds every stored lease to the aggregate it was drawn from: same scope, an action and a
  principal the aggregate allows, not longer than the aggregate, and revoked as soon as the generation of
  the aggregate moves on.  \<open>leases_evolve\<close> relates the leases of a state to those of a later one.
\<close>

subsection \<open>What a lease is bound to\<close>

record lease_parent =
  pScope :: "string \<times> string \<times> string \<times> string option \<times> string option"
  pActions :: "support_action list"
  pPrincipals :: "string list"
  pExpires :: instant
  pTtl :: int
  pUsable :: "nat option"

definition grant_parent :: "support_grant \<Rightarrow> lease_parent" where
  "grant_parent g = \<lparr>pScope = (tenantId g, organizationId g, workspaceId g, sessionId g, objectId g),
     pActions = actions g, pPrincipals = [supportPrincipalId g], pExpires = expiresAt g, pTtl = 5 * 60000,
     pUsable = (if status g = Active then Some (generation g) else None)\<rparr>"

definition bg_parent :: "break_glass \<Rightarrow> lease_parent" where
  "bg_parent b = \<lparr>pScope = (tenantId b, organizationId b, workspaceId b, sessionId b, Some (bgObjectId b)),
     pActions = actions b, pPrincipals = requesterPrincipalId b # approvalPrincipalIds b, pExpires = expiresAt b,
     pTtl = 2 * 60000, pUsable = Some (generation b)\<rparr>"

definition parent_of :: "sa_state \<Rightarrow> access_lease \<Rightarrow> lease_parent option" where
  "parent_of s l = (case (lGrantId l, lBreakGlassId l) of
     (Some gid, None) \<Rightarrow> map_option grant_parent (map_of (grants s) gid)
   | (None, Some bid) \<Rightarrow> map_option bg_parent (map_of (breakGlass s) bid)
   | _ \<Rightarrow> None)"

definition lease_scope :: "access_lease \<Rightarrow> string \<times> string \<times> string \<times> string option \<times> string option" where
  "lease_scope l = (lTenantId l, lOrganizationId l, lWorkspaceId l, lSessionId l, lObjectId l)"

definition bound_to :: "access_lease \<Rightarrow> lease_parent \<Rightarrow> bool" where
  "bound_to l p \<longleftrightarrow> lease_scope l = pScope p \<and> lAction l \<in> set (pActions p) \<and> lPrincipalId l \<in> set (pPrincipals p)
    \<and> lExpiresAt l \<le> pExpires p \<and> lExpiresAt l \<le> lIssuedAt l + pTtl p
    \<and> (pUsable p = Some (lGeneration l) \<or> lRevokedAt l \<noteq> None)"

definition leases_inv :: "js_env \<Rightarrow> sa_state \<Rightarrow> bool" where
  "leases_inv e s \<longleftrightarrow> (\<forall>k l. map_of (leases s) k = Some l \<longrightarrow>
     minted e ''jit_'' (draws s) k \<and> leaseId l = k \<and> (\<exists>p. parent_of s l = Some p \<and> bound_to l p))"

text \<open>Only the two stamps of a lease ever change, and each of them only once.\<close>

definition lease_later :: "access_lease \<Rightarrow> access_lease \<Rightarrow> bool" where
  "lease_later l m \<longleftrightarrow> m\<lparr>lConsumedAt := None, lRevokedAt := None\<rparr> = l\<lparr>lConsumedAt := None, lRevokedAt := None\<rparr>
    \<and> (lConsumedAt l \<noteq> None \<longrightarrow> lConsumedAt m = lConsumedAt l)
    \<and> (lRevokedAt l \<noteq> None \<longrightarrow> lRevokedAt m = lRevokedAt l)"

lemma lease_later_refl [simp]: "lease_later l l"
  by (simp add: lease_later_def)

lemma lease_later_trans: "lease_later l m \<Longrightarrow> lease_later m n \<Longrightarrow> lease_later l n"
  by (auto simp: lease_later_def)

lemma lease_later_static:
  assumes "lease_later l m"
  shows "leaseId m = leaseId l" "lGrantId m = lGrantId l" "lBreakGlassId m = lBreakGlassId l"
    "lease_scope m = lease_scope l" "lAction m = lAction l" "lPrincipalId m = lPrincipalId l"
    "lGeneration m = lGeneration l" "lIssuedAt m = lIssuedAt l" "lExpiresAt m = lExpiresAt l"
    "tokenHash m = tokenHash l"
  using assms unfolding lease_later_def lease_scope_def by (cases l; cases m; simp)+

lemma lease_later_consume: "lConsumedAt l = None \<Longrightarrow> lease_later l (l\<lparr>lConsumedAt := Some t\<rparr>)"
  by (simp add: lease_later_def)

lemma lease_later_revoke: "lRevokedAt l = None \<Longrightarrow> lease_later l (l\<lparr>lRevokedAt := Some t\<rparr>)"
  by (simp add: lease_later_def)

lemma parent_of_later [simp]: "lease_later l m \<Longrightarrow> parent_of s m = parent_of s l"
  by (simp add: parent_of_def lease_later_static)

definition parent_keeps :: "lease_parent \<Rightarrow> lease_parent \<Rightarrow> bool" where
  "parent_keeps p q \<longleftrightarrow> pScope q = pScope p \<and> pActions q = pActions p \<and> set (pPrincipals p) \<subseteq> set (pPrincipals q)
    \<and> pExpires q = pExpires p \<and> pTtl q = pTtl p"

definition usable_kept :: "lease_parent \<Rightarrow> lease_parent \<Rightarrow> bool" where
  "usable_kept p q \<longleftrightarrow> pUsable p = None \<or> pUsable q = pUsable p"

lemma parent_keeps_refl [simp]: "parent_keeps p p" "usable_kept p p"
  by (simp_all add: parent_keeps_def usable_kept_def)

text \<open>How the leases of a state and what they are bound to carry over to a later state.\<close>

definition leases_evolve :: "sa_state \<Rightarrow> sa_state \<Rightarrow> bool" where
  "leases_evolve s t \<longleftrightarrow> (\<forall>k l. map_of (leases s) k = Some l \<longrightarrow>
    (\<exists>m. map_of (leases t) k = Some m \<and> lease_later l m \<and>
      (\<forall>p. parent_of s l = Some p \<longrightarrow>
        (\<exists>q. parent_of t l = Some q \<and> parent_keeps p q \<and> (usable_kept p q \<or> lRevokedAt m \<noteq> None)))))"

definition leases_next :: "js_env \<Rightarrow> sa_state \<Rightarrow> sa_state \<Rightarrow> bool" where
  "leases_next e s t \<longleftrightarrow> leases_inv e t \<and> leases_evolve s t \<and> draws s \<le> draws t"

lemma leases_evolveE:
  assumes "leases_evolve s t" "map_of (leases s) k = Some l"
  obtains m where "map_of (leases t) k = Some m" "lease_later l m"
    "\<And>p. parent_of s l = Some p \<Longrightarrow>
      \<exists>q. parent_of t l = Some q \<and> parent_keeps p q \<and> (usable_kept p q \<or> lRevokedAt m \<noteq> None)"
  using assms unfolding leases_evolve_def by blast

lemma leases_evolve_trans:
  assumes "leases_evolve s t" "leases_evolve t u" shows "leases_evolve s u"
  unfolding leases_evolve_def
proof (intro allI impI)
  fix k l assume "map_of (leases s) k = Some l"
  from leases_evolveE [OF assms(1) this] obtain m where m: "map_of (leases t) k = Some m" "lease_later l m"
    "\<And>p. parent_of s l = Some p \<Longrightarrow>
      \<exists>q. parent_of t l = Some q \<and> parent_keeps p q \<and> (usable_kept p q \<or> lRevokedAt m \<noteq> None)" by metis
  from leases_evolveE [OF assms(2) m(1)] obtain n where n: "map_of (leases u) k = Some n" "lease_later m n"
    "\<And>p. parent_of t l = Some p \<Longrightarrow>
      \<exists>q. parent_of u l = Some q \<and> parent_keeps p q \<and> (usable_kept p q \<or> lRevokedAt n \<noteq> None)"
    unfolding parent_of_later [OF m(2)] by metis
  have "\<exists>q. parent_of u l = Some q \<and> parent_keeps p q \<and> (usable_kept p q \<or> lRevokedAt n \<noteq> None)"
    if "parent_of s l = Some p" for p
  proof -
    from m(3) [OF that] obtain q where q: "parent_of t l = Some q" "parent_keeps p q"
      "usable_kept p q \<or> lRevokedAt m \<noteq> None" by blast
    from n(3) [OF q(1)] obtain r where r: "parent_of u l = Some r" "parent_keeps q r"
      "usable_kept q r \<or> lRevokedAt n \<noteq> None" by blast
    have "lRevokedAt m \<noteq> None \<Longrightarrow> lRevokedAt n \<noteq> None" using n(2) by (simp add: lease_later_def)
    then show ?thesis using q r by (fastforce simp: parent_keeps_def usable_kept_def)
  qed
  then show "\<exists>m. map_of (leases u) k = Some m \<and> lease_later l m \<and>
      (\<forall>p. parent_of s l = Some p \<longrightarrow>
        (\<exists>q. parent_of u l = Some q \<and> parent_keeps p q \<and> (usable_kept p q \<or> lRevokedAt m \<noteq> None)))"
    using n(1) lease_later_trans [OF m(2) n(2)] by blast
qed

lemma leases_next_trans: "leases_next e s t \<Longrightarrow> leases_next e t u \<Longrightarrow> leases_next e s u"
  by (auto simp: leases_next_def intro: leases_evolve_trans)

lemma leases_evolve_refl: "leases_evolve s s"
  by (auto simp: leases_evolve_def)

lemma leases_next_refl: "leases_inv e s \<Longrightarrow> leases_next e s s"
  by (simp add: leases_next_def leases_evolve_refl)

lemma bound_to_later:
  assumes "bound_to l p" "lease_later l m" "parent_keeps p q" "usable_kept p q \<or> lRevokedAt m \<noteq> None"
  shows "bound_to m q"
proof -
  have "lRevokedAt l \<noteq> None \<Longrightarrow> lRevokedAt m \<noteq> None" using assms(2) by (simp add: lease_later_def)
  then have "pUsable q = Some (lGeneration m) \<or> lRevokedAt m \<noteq> None"
    using assms lease_later_static(7) [OF assms(2)] by (auto simp: bound_to_def usable_kept_def)
  then show ?thesis
    using assms(1,3) unfolding bound_to_def parent_keeps_def lease_later_static [OF assms(2)] by auto
qed

text \<open>A step that adds no lease keeps the invariant when the leases evolve.\<close>

lemma leases_nextI:
  assumes inv: "leases_inv e s" and ev: "leases_evolve s t"
    and old: "\<And>k m. map_of (leases t) k = Some m \<Longrightarrow> map_of (leases s) k \<noteq> None"
    and d: "draws s \<le> draws t"
  shows "leases_next e s t"
proof -
  have "minted e ''jit_'' (draws t) k \<and> leaseId m = k \<and> (\<exists>q. parent_of t m = Some q \<and> bound_to m q)"
    if "map_of (leases t) k = Some m" for k m
  proof -
    have "map_of (leases s) k \<noteq> None" using old that by blast
    then obtain l where l: "map_of (leases s) k = Some l" by blast
    then obtain p where p: "parent_of s l = Some p" "bound_to l p" "minted e ''jit_'' (draws s) k" "leaseId l = k"
      using inv unfolding leases_inv_def by blast
    from leases_evolveE [OF ev l] obtain m' where m': "map_of (leases t) k = Some m'" "lease_later l m'"
      "\<And>p. parent_of s l = Some p \<Longrightarrow>
        \<exists>q. parent_of t l = Some q \<and> parent_keeps p q \<and> (usable_kept p q \<or> lRevokedAt m' \<noteq> None)" by metis
    have "m' = m" using that m'(1) by simp
    with m'(2) m'(3) [OF p(1)] obtain q where q: "lease_later l m" "parent_of t l = Some q" "parent_keeps p q"
      "usable_kept p q \<or> lRevokedAt m \<noteq> None" by blast
    have "parent_of t m = Some q" using q by simp
    moreover have "bound_to m q" using bound_to_later [OF p(2) q(1,3,4)] .
    ultimately show ?thesis
      using minted_mono [OF p(3) d] lease_later_static(1) [OF q(1)] p(4) by simp
  qed
  then have "leases_inv e t" by (simp add: leases_inv_def)
  then show ?thesis using ev d by (simp add: leases_next_def)
qed

subsection \<open>Revoking the leases of an aggregate\<close>

lemma revokeLease_lookup:
  assumes "map_of (leases s) k = Some l"
  obtains m where "map_of (leases (revokeLease e gid bid j s)) k = Some m" "lease_later l m"
    "k = j \<Longrightarrow> lGrantId l = gid \<Longrightarrow> lBreakGlassId l = bid \<Longrightarrow> lRevokedAt m \<noteq> None"
proof (cases "k = j \<and> lGrantId l = gid \<and> lBreakGlassId l = bid \<and> lRevokedAt l = None")
  case True
  then show ?thesis
    using assms by (intro that [of "l\<lparr>lRevokedAt := Some (now e s)\<rparr>"]) (auto simp: revokeLease_def lease_later_revoke)
next
  case False
  then show ?thesis
    using assms by (intro that [of l]) (auto simp: revokeLease_def split: option.split)
qed

lemma revokeLease_keys: "map fst (leases (revokeLease e gid bid j s)) = map fst (leases s)"
proof (cases "map_of (leases s) j")
  case (Some l)
  then have "j \<in> set (map fst (leases s))" by (metis domI dom_map_of_conv_image_fst list.set_map)
  with Some show ?thesis by (auto simp: revokeLease_def AList.update_keys)
qed (simp add: revokeLease_def)

lemma fold_revokeLease_keys: "map fst (leases (fold (revokeLease e gid bid) js s)) = map fst (leases s)"
  by (rule fold_frame) (rule revokeLease_keys)

lemma fold_revokeLease_lookup:
  assumes "map_of (leases s) k = Some l"
  shows "\<exists>m. map_of (leases (fold (revokeLease e gid bid) js s)) k = Some m \<and> lease_later l m \<and>
    (k \<in> set js \<longrightarrow> lGrantId l = gid \<longrightarrow> lBreakGlassId l = bid \<longrightarrow> lRevokedAt m \<noteq> None)"
  using assms
proof (induction js arbitrary: s l)
  case (Cons j js)
  obtain m where m: "map_of (leases (revokeLease e gid bid j s)) k = Some m" "lease_later l m"
    "k = j \<Longrightarrow> lGrantId l = gid \<Longrightarrow> lBreakGlassId l = bid \<Longrightarrow> lRevokedAt m \<noteq> None"
    using revokeLease_lookup [OF Cons.prems, of e gid bid j] by blast
  from Cons.IH [OF m(1)] obtain n where n:
    "map_of (leases (fold (revokeLease e gid bid) js (revokeLease e gid bid j s))) k = Some n" "lease_later m n"
    "k \<in> set js \<longrightarrow> lGrantId m = gid \<longrightarrow> lBreakGlassId m = bid \<longrightarrow> lRevokedAt n \<noteq> None" by blast
  have "lRevokedAt m \<noteq> None \<Longrightarrow> lRevokedAt n \<noteq> None" using n(2) by (simp add: lease_later_def)
  then show ?case
    using n m lease_later_trans [OF m(2) n(2)] lease_later_static(2,3) [OF m(2)] by auto
qed auto

lemma revokeLeases_lookup:
  assumes "map_of (leases s) k = Some l"
  obtains m where "map_of (leases (revokeLeases e gid bid s)) k = Some m" "lease_later l m"
    "lGrantId l = gid \<Longrightarrow> lBreakGlassId l = bid \<Longrightarrow> lRevokedAt m \<noteq> None"
proof -
  have "k \<in> set (map fst (leases s))" using assms by (metis domI dom_map_of_conv_image_fst list.set_map)
  then show ?thesis
    using fold_revokeLease_lookup [OF assms, of e gid bid "map fst (leases s)"] that
    unfolding revokeLeases_def by blast
qed

lemma revokeLeases_old:
  "map_of (leases (revokeLeases e gid bid s)) k = Some m \<Longrightarrow> map_of (leases s) k \<noteq> None"
  by (metis fold_revokeLease_keys map_of_eq_None_iff option.distinct(1) revokeLeases_def list.set_map)

subsection \<open>How the aggregates carry over\<close>

definition aggs_keep :: "sa_state \<Rightarrow> sa_state \<Rightarrow> bool" where
  "aggs_keep s t \<longleftrightarrow>
    (\<forall>k g. map_of (grants s) k = Some g \<longrightarrow> (\<exists>g'. map_of (grants t) k = Some g'
      \<and> parent_keeps (grant_parent g) (grant_parent g') \<and> usable_kept (grant_parent g) (grant_parent g')))
    \<and> (\<forall>k b. map_of (breakGlass s) k = Some b \<longrightarrow> (\<exists>b'. map_of (breakGlass t) k = Some b'
      \<and> parent_keeps (bg_parent b) (bg_parent b') \<and> usable_kept (bg_parent b) (bg_parent b')))"

lemma parent_of_keep:
  assumes "aggs_keep s t" "parent_of s l = Some p"
  shows "\<exists>q. parent_of t l = Some q \<and> parent_keeps p q \<and> usable_kept p q"
  using assms unfolding parent_of_def aggs_keep_def
  by (cases "lGrantId l"; cases "lBreakGlassId l") (fastforce simp: map_option_eq_Some)+

lemma leases_next_frame:
  assumes "leases_inv e s" "leases t = leases s" "aggs_keep s t" "draws s \<le> draws t"
  shows "leases_next e s t"
proof (rule leases_nextI [OF assms(1) _ _ assms(4)])
  show "leases_evolve s t"
    unfolding leases_evolve_def assms(2)
    using parent_of_keep [OF assms(3)] lease_later_refl by blast
qed (simp add: assms(2))

lemma parent_of_same: "grants t = grants s \<Longrightarrow> breakGlass t = breakGlass s \<Longrightarrow> parent_of t = parent_of s"
  by (simp add: parent_of_def fun_eq_iff split: option.split)

lemma aggs_keep_same: "grants t = grants s \<Longrightarrow> breakGlass t = breakGlass s \<Longrightarrow> aggs_keep s t"
  by (auto simp: aggs_keep_def)

lemma grant_parent_keeps: "grant_step g g' \<Longrightarrow> parent_keeps (grant_parent g) (grant_parent g')"
  by (simp add: parent_keeps_def grant_parent_def grant_step_static)

lemma bg_parent_keeps: "bg_step b b' \<Longrightarrow> parent_keeps (bg_parent b) (bg_parent b')"
  using bg_step_static [of b b'] set_mono_prefix [of "approvalPrincipalIds b" "approvalPrincipalIds b'"]
  by (auto simp: parent_keeps_def bg_parent_def bg_static_def)

lemma aggs_keep_grant:
  assumes "map_of (grants s) k = Some g" "grant_step g g'" "status g \<noteq> Active"
    "grants t = AList.update k g' (grants s)" "breakGlass t = breakGlass s"
  shows "aggs_keep s t"
  using assms grant_parent_keeps [OF assms(2)]
  by (auto simp: aggs_keep_def usable_kept_def grant_parent_def)

lemma aggs_keep_bg:
  assumes "map_of (breakGlass s) k = Some b" "bg_step b b'" "generation b' = generation b"
    "breakGlass t = AList.update k b' (breakGlass s)" "grants t = grants s"
  shows "aggs_keep s t"
  using assms bg_parent_keeps [OF assms(2)]
  by (auto simp: aggs_keep_def usable_kept_def bg_parent_def)

lemma leases_next_revoke_grant:
  assumes inv: "leases_inv e s" and k: "map_of (grants s) k = Some g" and st: "grant_step g g'"
    and t: "grants t = AList.update k g' (grants s)" "breakGlass t = breakGlass s" "draws s \<le> draws t"
      "leases t = leases (revokeLeases e (Some k) None u)" "leases u = leases s"
  shows "leases_next e s t"
proof (rule leases_nextI [OF inv _ _ t(3)])
  show "leases_evolve s t"
    unfolding leases_evolve_def
  proof (intro allI impI)
    fix j l assume "map_of (leases s) j = Some l"
    then have "map_of (leases u) j = Some l" by (simp add: t(5))
    then obtain m where m: "map_of (leases t) j = Some m" "lease_later l m"
      "lGrantId l = Some k \<Longrightarrow> lBreakGlassId l = None \<Longrightarrow> lRevokedAt m \<noteq> None"
      using revokeLeases_lookup [of u j l e "Some k" None] t(4) by metis
    have "\<exists>q. parent_of t l = Some q \<and> parent_keeps p q \<and> (usable_kept p q \<or> lRevokedAt m \<noteq> None)"
      if "parent_of s l = Some p" for p
    proof (cases "lGrantId l = Some k \<and> lBreakGlassId l = None")
      case True
      then show ?thesis
        using that k m(3) grant_parent_keeps [OF st] by (auto simp: parent_of_def t(1))
    next
      case False
      then have "parent_of t l = parent_of s l"
        by (auto simp: parent_of_def t(1,2) split: option.splits)
      with that show ?thesis by simp
    qed
    with m(1,2) show "\<exists>m. map_of (leases t) j = Some m \<and> lease_later l m \<and>
      (\<forall>p. parent_of s l = Some p \<longrightarrow>
        (\<exists>q. parent_of t l = Some q \<and> parent_keeps p q \<and> (usable_kept p q \<or> lRevokedAt m \<noteq> None)))"
      by blast
  qed
  show "map_of (leases t) j = Some m \<Longrightarrow> map_of (leases s) j \<noteq> None" for j m
    using revokeLeases_old [of e "Some k" None u j m] by (simp add: t(4,5))
qed

lemma leases_next_revoke_bg:
  assumes inv: "leases_inv e s" and k: "map_of (breakGlass s) k = Some b" and st: "bg_step b b'"
    and t: "breakGlass t = AList.update k b' (breakGlass s)" "grants t = grants s" "draws s \<le> draws t"
      "leases t = leases (revokeLeases e None (Some k) u)" "leases u = leases s"
  shows "leases_next e s t"
proof (rule leases_nextI [OF inv _ _ t(3)])
  show "leases_evolve s t"
    unfolding leases_evolve_def
  proof (intro allI impI)
    fix j l assume "map_of (leases s) j = Some l"
    then have "map_of (leases u) j = Some l" by (simp add: t(5))
    then obtain m where m: "map_of (leases t) j = Some m" "lease_later l m"
      "lGrantId l = None \<Longrightarrow> lBreakGlassId l = Some k \<Longrightarrow> lRevokedAt m \<noteq> None"
      using revokeLeases_lookup [of u j l e None "Some k"] t(4) by metis
    have "\<exists>q. parent_of t l = Some q \<and> parent_keeps p q \<and> (usable_kept p q \<or> lRevokedAt m \<noteq> None)"
      if "parent_of s l = Some p" for p
    proof (cases "lGrantId l = None \<and> lBreakGlassId l = Some k")
      case True
      then show ?thesis
        using that k m(3) bg_parent_keeps [OF st] by (auto simp: parent_of_def t(1))
    next
      case False
      then have "parent_of t l = parent_of s l"
        by (auto simp: parent_of_def t(1,2) split: option.splits)
      with that show ?thesis by simp
    qed
    with m(1,2) show "\<exists>m. map_of (leases t) j = Some m \<and> lease_later l m \<and>
      (\<forall>p. parent_of s l = Some p \<longrightarrow>
        (\<exists>q. parent_of t l = Some q \<and> parent_keeps p q \<and> (usable_kept p q \<or> lRevokedAt m \<noteq> None)))"
      by blast
  qed
  show "map_of (leases t) j = Some m \<Longrightarrow> map_of (leases s) j \<noteq> None" for j m
    using revokeLeases_old [of e None "Some k" u j m] by (simp add: t(4,5))
qed

subsection \<open>One lemma per operation\<close>

lemma leases_next_expireGrant:
  assumes inv: "leases_inv e s" and g: "grants_inv e s"
  shows "leases_next e s (expireGrant e t k s)"
proof (cases "\<exists>g. map_of (grants s) k = Some g \<and> \<not> terminal (status g) \<and> expiresAt g \<le> t")
  case False
  then have "expireGrant e t k s = s" by (auto simp: expireGrant_def split: option.split)
  with inv show ?thesis by (simp add: leases_next_refl)
next
  case True
  then obtain g where b: "map_of (grants s) k = Some g" "\<not> terminal (status g)" "expiresAt g \<le> t" by blast
  let ?g = "g\<lparr>status := Expired, generation := Suc (generation g), version := Suc (version g)\<rparr>"
  have eq: "expireGrant e t k s = appendAudit e ?g ''system'' ''grant.expired'' Success ''ttl''
      (''expiry:'' @ grantId g) (revokeLeases e (Some (grantId g)) None (setGrant ?g s))"
    using b by (simp add: expireGrant_def Let_def)
  show ?thesis
    by (rule leases_next_revoke_grant [OF inv b(1) gs_expire [OF b(2)], where u = "setGrant ?g s"])
      (simp_all add: eq grants_invD(1) [OF g b(1)])
qed

lemma leases_next_expireBreakGlass:
  assumes inv: "leases_inv e s" and g: "bgs_inv e s"
  shows "leases_next e s (expireBreakGlass e t k s)"
proof (cases "\<exists>g. map_of (breakGlass s) k = Some g \<and> \<not> terminal (status g) \<and> expiresAt g \<le> t")
  case False
  then have "expireBreakGlass e t k s = s" by (auto simp: expireBreakGlass_def split: option.split)
  with inv show ?thesis by (simp add: leases_next_refl)
next
  case True
  then obtain g where b: "map_of (breakGlass s) k = Some g" "\<not> terminal (status g)" "expiresAt g \<le> t" by blast
  let ?g = "g\<lparr>status := Expired, generation := Suc (generation g), version := Suc (version g)\<rparr>"
  let ?u = "revokeLeases e None (Some (breakGlassId g)) (setBreakGlass ?g s)"
  have eq: "expireBreakGlass e t k s = appendBreakGlassAudit e ?g ''system'' ''break_glass.ended'' Success ''ttl''
      (''expiry:'' @ breakGlassId g) (queueTenantNotification e ?g ?u)"
    using b by (simp add: expireBreakGlass_def Let_def)
  show ?thesis
    by (rule leases_next_revoke_bg [OF inv b(1) bs_expire [OF b(2)], where u = "setBreakGlass ?g s"])
      (simp_all add: eq bgs_invD(1) [OF g b(1)] order_trans [OF _ draws_queueTenantNotification])
qed

definition sa_inv :: "js_env \<Rightarrow> sa_state \<Rightarrow> bool" where
  "sa_inv e s \<longleftrightarrow> grants_inv e s \<and> bgs_inv e s \<and> leases_inv e s"

lemma sa_inv_ids:
  "sa_inv e s \<Longrightarrow> map_of (grants s) k = Some g \<Longrightarrow> grantId g = k"
  "sa_inv e s \<Longrightarrow> map_of (breakGlass s) k = Some b \<Longrightarrow> breakGlassId b = k"
  by (auto simp: sa_inv_def dest: grants_invD(1) bgs_invD(1))

lemma sa_inv_init: "sa_inv e initial_state"
  by (simp add: sa_inv_def grants_inv_init bgs_inv_init leases_inv_def)

lemma sa_expireGrant: "sa_inv e s \<Longrightarrow> sa_inv e (expireGrant e t k s) \<and> leases_next e s (expireGrant e t k s)"
  using leases_next_expireGrant [of e s t k] grants_next_expireGrant [of e s t k]
    bgs_next_frame' [of e s "expireGrant e t k s"]
  by (simp add: sa_inv_def leases_next_def grants_next_def bgs_next_def)

lemma sa_expireBreakGlass:
  assumes "sa_inv e s"
  shows "sa_inv e (expireBreakGlass e t k s) \<and> leases_next e s (expireBreakGlass e t k s)"
proof -
  have b: "bgs_next e s (expireBreakGlass e t k s)"
    using assms by (intro bgs_next_expireBreakGlass) (simp add: sa_inv_def)
  then have "grants_next e s (expireBreakGlass e t k s)"
    using assms by (intro grants_next_frame) (simp_all add: sa_inv_def bgs_next_def)
  with b show ?thesis
    using assms leases_next_expireBreakGlass [of e s t k]
    by (simp add: sa_inv_def leases_next_def grants_next_def bgs_next_def)
qed

lemma aggs_keep_tick [simp]: "aggs_keep s (tick s)"
  by (simp add: aggs_keep_same)

lemma sa_inv_tick: "sa_inv e s \<Longrightarrow> sa_inv e (tick s)"
  using grants_next_frame [of e s "tick s"] bgs_next_frame' [of e s "tick s"] leases_next_frame [of e s "tick s"]
  by (simp add: sa_inv_def leases_next_def grants_next_def bgs_next_def)

lemma sa_expire:
  assumes "sa_inv e s" shows "sa_inv e (expire e s)" and "leases_next e s (expire e s)"
proof -
  have 0: "sa_inv e (tick s)" "leases_next e s (tick s)"
    using assms by (simp_all add: sa_inv_tick) (simp add: sa_inv_def leases_next_frame)
  let ?s1 = "fold (expireGrant e (now e s)) (map fst (grants s)) (tick s)"
  have 1: "sa_inv e ?s1 \<and> leases_next e (tick s) ?s1"
    by (rule fold_relates) (use 0(1) sa_expireGrant leases_next_trans in \<open>auto simp: sa_inv_def leases_next_refl\<close>)
  have "sa_inv e (expire e s) \<and> leases_next e ?s1 (expire e s)"
    unfolding expire_def Let_def
    by (rule fold_relates) (use 1 sa_expireBreakGlass leases_next_trans in \<open>auto simp: sa_inv_def leases_next_refl\<close>)
  with 0 1 show "sa_inv e (expire e s)" "leases_next e s (expire e s)"
    by (auto intro: leases_next_trans)
qed

lemma issueLease_cases:
  obtains (refused) err where "issueLease e rq s0 = (Inl err, expire e s0)"
  | (issued) g where "map_of (grants (expire e s0)) (lqAggregateId rq) = Some g" "status g = Active"
      "principalId (lqActor rq) = supportPrincipalId g" "lqAction rq \<in> set (actions g)"
      "sessionId g = lqSessionId rq" "objectId g = lqObjectId rq"
      "lqAction rq = ContentDecrypt \<Longrightarrow> role (lqActor rq) = KmsOperator"
      "fst (issueLease e rq s0) =
        Inr (public_lease.truncate (grant_lease e rq g (expire e s0)), token e (draws (expire e s0)))"
      "leases (snd (issueLease e rq s0)) =
        AList.update (''jit_'' @ uuid e (Suc (draws (expire e s0)))) (grant_lease e rq g (expire e s0))
          (leases (expire e s0))"
      "draws (snd (issueLease e rq s0)) = Suc (Suc (draws (expire e s0)))"
proof (cases "fst (issueLease e rq s0)")
  case (Inl err)
  then show ?thesis
    by (intro refused [of err]) (auto simp: issueLease_def Let_def split: option.splits if_splits)
next
  case (Inr r)
  then show ?thesis
    by (intro issued [of "the (map_of (grants (expire e s0)) (lqAggregateId rq))"])
      (auto simp: issueLease_def Let_def grant_lease_def split: option.splits if_splits)
qed

lemma issueBreakGlassLease_cases:
  obtains (refused) err where "issueBreakGlassLease e rq s0 = (Inl err, expire e s0)"
  | (issued) b where "map_of (breakGlass (expire e s0)) (lqAggregateId rq) = Some b" "status b = Active"
      "principalId (lqActor rq) = requesterPrincipalId b \<or> principalId (lqActor rq) \<in> set (approvalPrincipalIds b)"
      "lqAction rq \<in> set (actions b)"
      "fst (issueBreakGlassLease e rq s0) =
        Inr (public_lease.truncate (break_glass_lease e rq b (expire e s0)), token e (draws (expire e s0)))"
      "leases (snd (issueBreakGlassLease e rq s0)) =
        AList.update (''jit_'' @ uuid e (Suc (draws (expire e s0)))) (break_glass_lease e rq b (expire e s0))
          (leases (expire e s0))"
      "draws (snd (issueBreakGlassLease e rq s0)) = Suc (Suc (draws (expire e s0)))"
proof (cases "fst (issueBreakGlassLease e rq s0)")
  case (Inl err)
  then show ?thesis
    by (intro refused [of err]) (auto simp: issueBreakGlassLease_def Let_def split: option.splits if_splits)
next
  case (Inr r)
  then show ?thesis
    by (intro issued [of "the (map_of (breakGlass (expire e s0)) (lqAggregateId rq))"])
      (auto simp: issueBreakGlassLease_def Let_def break_glass_lease_def split: option.splits if_splits)
qed

text \<open>What holds when a lease is consumed; \<open>u\<close> is the state after the expiry check.\<close>

definition consumable :: "js_env \<Rightarrow> consume_request \<Rightarrow> access_lease \<Rightarrow> sa_state \<Rightarrow> bool" where
  "consumable e rq l u \<longleftrightarrow> map_of (leases u) (cLeaseId rq) = Some l \<and> tokenHash l = sha256 e (cToken rq)
    \<and> lConsumedAt l = None \<and> lRevokedAt l = None \<and> now e u < lExpiresAt l
    \<and> lease_scope l = (cTenantId rq, cOrganizationId rq, cWorkspaceId rq, cSessionId rq, cObjectId rq)
    \<and> lAction l = cAction rq \<and> lPrincipalId l = cPrincipalId rq"

lemma consumeLease_cases:
  obtains (refused) err where "fst (consumeLease e rq s) = Inl err"
      "leases (snd (consumeLease e rq s)) = leases (expire e s)"
  | (grant) l g where "consumable e rq l (expire e s)" "truthy (lGrantId l)"
      "map_of (grants (expire e s)) (the (lGrantId l)) = Some g" "status g = Active" "generation g = lGeneration l"
      "fst (consumeLease e rq s) = Inr True"
      "leases (snd (consumeLease e rq s)) = AList.update (cLeaseId rq)
        (l\<lparr>lConsumedAt := Some (now e (tick (expire e s)))\<rparr>) (leases (expire e s))"
  | (emergency) l b where "consumable e rq l (expire e s)" "\<not> truthy (lGrantId l)"
      "Option.bind (lBreakGlassId l) (map_of (breakGlass (expire e s))) = Some b"
      "status b = Active" "generation b = lGeneration l"
      "fst (consumeLease e rq s) = Inr True"
      "leases (snd (consumeLease e rq s)) = AList.update (cLeaseId rq)
        (l\<lparr>lConsumedAt := Some (now e (tick (expire e s)))\<rparr>) (leases (expire e s))"
proof (cases "fst (consumeLease e rq s)")
  case (Inl err)
  moreover from this have "leases (snd (consumeLease e rq s)) = leases (expire e s)"
    by (auto simp: consumeLease_def consume_checked_def Let_def split: option.splits if_splits)
  ultimately show ?thesis by (rule refused)
next
  case (Inr r)
  then obtain l where l: "map_of (leases (expire e s)) (cLeaseId rq) = Some l"
    "tokenHash l = sha256 e (cToken rq)"
    by (auto simp: consumeLease_def Let_def split: option.splits if_splits)
  show ?thesis
  proof (cases "truthy (lGrantId l)")
    case True
    with Inr l obtain g where g: "map_of (grants (expire e s)) (the (lGrantId l)) = Some g"
      by (auto simp: consumeLease_def Let_def split: option.splits)
    have eq: "consumeLease e rq s = consume_checked e rq l (status g) (generation g)
              (appendAudit e g (cPrincipalId rq) (consume_audit_action (cAction rq)) Success
                (action_text (cAction rq)) (cCorrelationId rq)) (expire e s)"
      using l True g by (simp add: consumeLease_def Let_def)
    have "status g = Active \<and> generation g = lGeneration l \<and> consumable e rq l (expire e s)
      \<and> fst (consumeLease e rq s) = Inr True
      \<and> leases (snd (consumeLease e rq s)) = AList.update (cLeaseId rq)
        (l\<lparr>lConsumedAt := Some (now e (tick (expire e s)))\<rparr>) (leases (expire e s))"
      using Inr l unfolding eq
      by (auto simp: consume_checked_def Let_def consumable_def lease_scope_mismatch_def lease_scope_def
          split: if_splits)
    then show ?thesis using True g by (intro grant [of l g]) auto
  next
    case False
    with Inr l obtain b where b: "Option.bind (lBreakGlassId l) (map_of (breakGlass (expire e s))) = Some b"
      by (auto simp: consumeLease_def Let_def split: option.splits)
    have eq: "consumeLease e rq s = consume_checked e rq l (status b) (generation b)
              (appendBreakGlassAudit e b (cPrincipalId rq) (consume_audit_action (cAction rq)) Success
                (action_text (cAction rq)) (cCorrelationId rq)) (expire e s)"
      using l False b by (simp add: consumeLease_def Let_def)
    have "status b = Active \<and> generation b = lGeneration l \<and> consumable e rq l (expire e s)
      \<and> fst (consumeLease e rq s) = Inr True
      \<and> leases (snd (consumeLease e rq s)) = AList.update (cLeaseId rq)
        (l\<lparr>lConsumedAt := Some (now e (tick (expire e s)))\<rparr>) (leases (expire e s))"
      using Inr l unfolding eq
      by (auto simp: consume_checked_def Let_def consumable_def lease_scope_mismatch_def lease_scope_def
          split: if_splits)
    then show ?thesis using False b by (intro emergency [of l b]) auto
  qed
qed

lemma leases_next_after_expire:
  assumes "sa_inv e s" "leases_next e (expire e s) t" shows "leases_next e s t"
  using leases_next_trans [OF sa_expire(2) [OF assms(1)] assms(2)] .

lemma leases_next_new:
  assumes inv: "leases_inv e s" and uu: "inj (uuid e)"
    and t: "leases t = AList.update (''jit_'' @ uuid e (Suc (draws s))) l (leases s)" "aggs_keep s t"
      "draws t = Suc (Suc (draws s))"
    and l: "leaseId l = ''jit_'' @ uuid e (Suc (draws s))" "parent_of t l = Some p" "bound_to l p"
  shows "leases_next e s t"
proof -
  let ?k = "''jit_'' @ uuid e (Suc (draws s))"
  have none: "map_of (leases s) ?k = None"
  proof (rule ccontr)
    assume "map_of (leases s) ?k \<noteq> None"
    then have "minted e ''jit_'' (draws s) ?k" using inv unfolding leases_inv_def by blast
    then show False using minted_fresh [OF uu le_SucI [OF order_refl]] by blast
  qed
  define u where "u = t\<lparr>leases := leases s\<rparr>"
  have "aggs_keep s u" using t(2) by (simp add: aggs_keep_def u_def)
  then have n: "leases_next e s u"
    using inv t(3) by (intro leases_next_frame) (simp_all add: u_def)
  have p: "parent_of u = parent_of t" by (rule parent_of_same) (simp_all add: u_def)
  have d: "draws u = draws t" "leases u = leases s" by (simp_all add: u_def)
  have m: "minted e ''jit_'' (draws t) ?k" unfolding t(3) by (rule minted_Suc)
  have "minted e ''jit_'' (draws t) k \<and> leaseId m = k \<and> (\<exists>p. parent_of t m = Some p \<and> bound_to m p)"
    if "map_of (leases t) k = Some m" for k m
  proof (cases "k = ?k")
    case True
    with that have "m = l" by (simp add: t(1))
    with True l m show ?thesis by simp
  next
    case False
    with that have "map_of (leases u) k = Some m" by (simp add: t(1) d(2))
    then show ?thesis using n unfolding leases_next_def leases_inv_def p d(1) by blast
  qed
  then have "leases_inv e t" by (simp add: leases_inv_def)
  moreover have "leases_evolve s t"
    using n none unfolding leases_next_def leases_evolve_def p by (auto simp: t(1) u_def)
  ultimately show ?thesis by (simp add: leases_next_def t(3))
qed

lemma leases_next_issueLease:
  assumes inv: "sa_inv e s" and uu: "inj (uuid e)"
  shows "leases_next e s (snd (issueLease e rq s))"
proof (rule leases_next_after_expire [OF inv])
  let ?u = "expire e s"
  have iu: "sa_inv e ?u" using sa_expire(1) [OF inv] .
  show "leases_next e ?u (snd (issueLease e rq s))"
  proof (cases rule: issueLease_cases [of e rq s])
    case (refused err)
    with iu show ?thesis by (simp add: leases_next_refl sa_inv_def)
  next
    case (issued g)
    have k: "grantId g = lqAggregateId rq" using sa_inv_ids(1) [OF iu issued(1)] .
    have "parent_of (snd (issueLease e rq s)) (grant_lease e rq g ?u) = Some (grant_parent g)"
      by (simp add: parent_of_def grant_lease_def k issued(1))
    moreover have "bound_to (grant_lease e rq g ?u) (grant_parent g)"
      using issued(2-6) by (simp add: bound_to_def grant_lease_def grant_parent_def lease_scope_def)
    ultimately show ?thesis
      using iu by (intro leases_next_new [OF _ uu issued(9) _ issued(10)])
        (simp_all add: sa_inv_def aggs_keep_same grant_lease_def)
  qed
qed

lemma leases_next_issueBreakGlassLease:
  assumes inv: "sa_inv e s" and uu: "inj (uuid e)"
  shows "leases_next e s (snd (issueBreakGlassLease e rq s))"
proof (rule leases_next_after_expire [OF inv])
  let ?u = "expire e s"
  have iu: "sa_inv e ?u" using sa_expire(1) [OF inv] .
  show "leases_next e ?u (snd (issueBreakGlassLease e rq s))"
  proof (cases rule: issueBreakGlassLease_cases [of e rq s])
    case (refused err)
    with iu show ?thesis by (simp add: leases_next_refl sa_inv_def)
  next
    case (issued b)
    have k: "breakGlassId b = lqAggregateId rq" using sa_inv_ids(2) [OF iu issued(1)] .
    have "parent_of (snd (issueBreakGlassLease e rq s)) (break_glass_lease e rq b ?u) = Some (bg_parent b)"
      by (simp add: parent_of_def break_glass_lease_def k issued(1))
    moreover have "bound_to (break_glass_lease e rq b ?u) (bg_parent b)"
      using issued(2-4) by (auto simp: bound_to_def break_glass_lease_def bg_parent_def lease_scope_def)
    ultimately show ?thesis
      using iu by (intro leases_next_new [OF _ uu issued(6) _ issued(7)])
        (simp_all add: sa_inv_def aggs_keep_same break_glass_lease_def)
  qed
qed

lemma leases_next_stamp:
  assumes inv: "leases_inv e s" and l: "map_of (leases s) k = Some l" "lConsumedAt l = None"
    and t: "leases t = AList.update k (l\<lparr>lConsumedAt := Some x\<rparr>) (leases s)" "grants t = grants s"
      "breakGlass t = breakGlass s" "draws s \<le> draws t"
  shows "leases_next e s t"
proof (rule leases_nextI [OF inv _ _ t(4)])
  have p: "parent_of t = parent_of s" by (rule parent_of_same) (simp_all add: t)
  show "leases_evolve s t"
    using l lease_later_consume by (auto simp: leases_evolve_def p t(1))
  show "map_of (leases t) j = Some m \<Longrightarrow> map_of (leases s) j \<noteq> None" for j m
    using l by (auto simp: t(1) split: if_splits)
qed

lemma leases_next_consumeLease:
  assumes inv: "sa_inv e s" shows "leases_next e s (snd (consumeLease e rq s))"
proof (rule leases_next_after_expire [OF inv])
  let ?u = "expire e s"
  have iu: "leases_inv e ?u" using sa_expire(1) [OF inv] by (simp add: sa_inv_def)
  show "leases_next e ?u (snd (consumeLease e rq s))"
  proof (cases rule: consumeLease_cases [of e rq s])
    case (refused err)
    with iu show ?thesis by (intro leases_next_frame) (simp_all add: aggs_keep_same)
  next
    case (grant l g)
    with iu show ?thesis by (intro leases_next_stamp [OF iu _ _ grant(7)]) (simp_all add: consumable_def)
  next
    case (emergency l b)
    with iu show ?thesis by (intro leases_next_stamp [OF iu _ _ emergency(7)]) (simp_all add: consumable_def)
  qed
qed

lemma leases_next_createGrant:
  assumes inv: "sa_inv e s" and uu: "inj (uuid e)"
  shows "leases_next e s (snd (createGrant e rq s))"
proof -
  let ?t = "snd (createGrant e rq s)"
  have "aggs_keep s ?t"
    using createGrant_effect [of e rq s]
  proof (elim disjE exE conjE)
    fix g assume g: "grantId g = ''sgr_'' @ uuid e (draws s)" "grants ?t = AList.update (grantId g) g (grants s)"
    have "map_of (grants s) (grantId g) = None"
      unfolding g(1) using inv uu by (intro grants_fresh) (simp_all add: sa_inv_def)
    then show ?thesis unfolding aggs_keep_def g(2) by auto
  qed (simp add: aggs_keep_same)
  then show ?thesis
    using inv draws_createGrant by (intro leases_next_frame) (simp_all add: sa_inv_def)
qed

lemma leases_next_createBreakGlass:
  assumes inv: "sa_inv e s" and uu: "inj (uuid e)"
  shows "leases_next e s (snd (createBreakGlass e rq s))"
proof (cases rule: createBreakGlass_cases [of e rq s])
  case same
  with inv show ?thesis by (simp add: leases_next_refl sa_inv_def)
next
  case created
  let ?b = "requested_break_glass e rq s" and ?t = "snd (createBreakGlass e rq s)"
  have id: "breakGlassId ?b = ''bgr_'' @ uuid e (draws s)" by (simp add: requested_break_glass_def)
  have "map_of (breakGlass s) (breakGlassId ?b) = None"
    unfolding id using inv uu by (intro bgs_fresh) (simp_all add: sa_inv_def)
  moreover have "breakGlass ?t = AList.update (breakGlassId ?b) ?b (breakGlass s)" by (simp add: created(7))
  ultimately have "aggs_keep s ?t" unfolding aggs_keep_def by auto
  then show ?thesis
    using inv draws_break_glass(1) by (intro leases_next_frame) (simp_all add: sa_inv_def)
qed

lemma leases_next_decideGrant:
  assumes inv: "sa_inv e s" shows "leases_next e s (snd (decideGrant e rq d s))"
proof -
  let ?t = "snd (decideGrant e rq d s)"
  have gi: "grants_inv e s" using inv by (simp add: sa_inv_def)
  have "aggs_keep s ?t"
  proof (cases rule: decideGrant_cases [of e rq d s])
    case (denied g)
    show ?thesis
      by (rule aggs_keep_grant [OF denied(1) gs_deny])
        (use denied(2) in \<open>simp_all add: denied(4) may_decide_def sa_inv_ids(1) [OF inv denied(1)]\<close>)
  next
    case (approved g)
    note k = sa_inv_ids(1) [OF inv approved(1)] and n = grant_approvers_count [OF gi approved(1)]
    show ?thesis
      by (rule aggs_keep_grant [OF approved(1) gs_approve [of g "principalId (dActor rq)"]])
        (use approved(2,4) n k in \<open>simp_all add: approved(5) may_decide_def\<close>)
  next
    case (activated g)
    note k = sa_inv_ids(1) [OF inv activated(1)] and n = grant_approvers_count [OF gi activated(1)]
    show ?thesis
      by (rule aggs_keep_grant [OF activated(1) gs_activate [of g "principalId (dActor rq)"]])
        (use activated(2,4) n k in \<open>simp_all add: activated(6) may_decide_def\<close>)
  qed (auto intro: aggs_keep_same)
  then show ?thesis
    using inv draws_decideGrant by (intro leases_next_frame) (simp_all add: sa_inv_def)
qed

lemma leases_next_verifyGrantMfa:
  assumes inv: "sa_inv e s" shows "leases_next e s (snd (verifyGrantMfa e rq m s))"
proof (cases rule: verifyGrantMfa_cases [of e rq m s])
  case same
  with inv show ?thesis by (simp add: leases_next_refl sa_inv_def)
next
  case (verified g)
  have k: "grantId g = dAggregateId rq" using sa_inv_ids(1) [OF inv verified(1)] .
  have "aggs_keep s (snd (verifyGrantMfa e rq m s))"
    by (rule aggs_keep_grant [OF verified(1) gs_verify]) (simp_all add: verified(4,5) k)
  then show ?thesis using inv by (intro leases_next_frame) (simp_all add: sa_inv_def)
qed

lemma leases_next_revokeGrant:
  assumes inv: "sa_inv e s" shows "leases_next e s (snd (revokeGrant e rq s))"
proof (cases rule: revokeGrant_cases [of e rq s])
  case same
  with inv show ?thesis by (simp add: leases_next_refl sa_inv_def)
next
  case (revoked g)
  have k: "grantId g = dAggregateId rq" using sa_inv_ids(1) [OF inv revoked(1)] .
  have li: "leases_inv e s" using inv by (simp add: sa_inv_def)
  show ?thesis
    by (rule leases_next_revoke_grant [OF li revoked(1) gs_revoke, where
          u = "setGrant (g\<lparr>status := Revoked, revokedAt := Some (now e s), generation := Suc (generation g),
            version := Suc (version g)\<rparr>) (tick s)"]) (simp_all add: revoked(4,5) k)
qed

lemma leases_next_verifyBreakGlassMfa:
  assumes inv: "sa_inv e s" shows "leases_next e s (snd (verifyBreakGlassMfa e rq m s))"
proof (cases rule: verifyBreakGlassMfa_cases [of e rq m s])
  case same
  with inv show ?thesis by (simp add: leases_next_refl sa_inv_def)
next
  case (verified b)
  have k: "breakGlassId b = dAggregateId rq" using sa_inv_ids(2) [OF inv verified(1)] .
  have "aggs_keep s (snd (verifyBreakGlassMfa e rq m s))"
    by (rule aggs_keep_bg [OF verified(1) bs_verify]) (simp_all add: verified(4) k)
  then show ?thesis using inv by (intro leases_next_frame) (simp_all add: sa_inv_def)
qed

lemma leases_next_revokeBreakGlass:
  assumes inv: "sa_inv e s" shows "leases_next e s (snd (revokeBreakGlass e rq s))"
proof (cases rule: revokeBreakGlass_cases [of e rq s])
  case same
  with inv show ?thesis by (simp add: leases_next_refl sa_inv_def)
next
  case (revoked b)
  have k: "breakGlassId b = dAggregateId rq" using sa_inv_ids(2) [OF inv revoked(1)] .
  have li: "leases_inv e s" using inv by (simp add: sa_inv_def)
  show ?thesis
    by (rule leases_next_revoke_bg [OF li revoked(1) bs_revoke, where
          u = "setBreakGlass (b\<lparr>status := Revoked, revokedAt := Some (now e s), generation := Suc (generation b),
            version := Suc (version b)\<rparr>) (tick s)"])
      (simp_all add: revoked(4) k Let_def order_trans [OF _ draws_queueTenantNotification])
qed

lemma leases_next_approveBreakGlass:
  assumes inv: "sa_inv e s" shows "leases_next e s (snd (approveBreakGlass e rq s))"
proof -
  let ?t = "snd (approveBreakGlass e rq s)"
  have bi: "bgs_inv e s" using inv by (simp add: sa_inv_def)
  have "aggs_keep s ?t"
  proof (cases rule: approveBreakGlass_cases [of e rq s])
    case (approved b)
    note k = bgs_invD(1) [OF bi approved(1)] and n = bg_approvers_count [OF bi approved(1)]
    show ?thesis
      by (rule aggs_keep_bg [OF approved(1) bs_approve [of b "principalId (dActor rq)"]])
        (use approved(2,3) n k in \<open>simp_all add: approved(4) may_approve_def\<close>)
  next
    case (activated b)
    note k = bgs_invD(1) [OF bi activated(1)] and n = bg_approvers_count [OF bi activated(1)]
    show ?thesis
      by (rule aggs_keep_bg [OF activated(1) bs_activate [of b "principalId (dActor rq)"]])
        (use activated(2,3) n k in \<open>simp_all add: activated(5) may_approve_def\<close>)
  qed (auto intro: aggs_keep_same)
  then show ?thesis
    using inv draws_break_glass(2) by (intro leases_next_frame) (simp_all add: sa_inv_def)
qed

lemma leases_next_exec:
  assumes inv: "sa_inv e s" and uu: "inj (uuid e)" shows "leases_next e s (sa_exec e ev s)"
proof (cases ev)
  case (DeliverOutbox oid key)
  with inv show ?thesis by (simp add: sa_inv_def leases_next_frame aggs_keep_same)
next
  case (FailOutbox oid t key)
  with inv show ?thesis by (simp add: sa_inv_def leases_next_frame aggs_keep_same)
qed (use inv uu sa_expire(2) in \<open>simp_all add: leases_next_createGrant leases_next_verifyGrantMfa
  leases_next_decideGrant leases_next_revokeGrant leases_next_issueLease leases_next_issueBreakGlassLease
  leases_next_consumeLease leases_next_createBreakGlass leases_next_verifyBreakGlassMfa
  leases_next_approveBreakGlass leases_next_revokeBreakGlass\<close>)

interpretation support_service: transition_system "\<lambda>s. s = initial_state" "sa_step e"
  "\<lambda>s. inj (uuid e) \<longrightarrow> sa_inv e s" for e
proof
  show "s = initial_state \<Longrightarrow> inj (uuid e) \<longrightarrow> sa_inv e s" for s
    by (simp add: sa_inv_init)
  show "inj (uuid e) \<longrightarrow> sa_inv e t" if "inj (uuid e) \<longrightarrow> sa_inv e s" "sa_step e s t" for s t
    using that leases_next_exec bgs_next_exec grants_next_exec
    by (auto elim!: sa_stepE simp: sa_inv_def leases_next_def bgs_next_def grants_next_def)
qed

lemma reachable_sa_inv: "inj (uuid e) \<Longrightarrow> reaches (sa_step e) initial_state s \<Longrightarrow> sa_inv e s"
  using support_service.reachable_inv [of initial_state e s] by simp

lemma leases_evolve_run:
  assumes "reaches (sa_step e) s t" and "sa_inv e s" and "inj (uuid e)"
  shows "leases_evolve s t"
proof (rule support_service.reaches_preserves [OF assms(1)])
  show "leases_evolve s s" by (rule leases_evolve_refl)
  show "leases_evolve s v" if "inj (uuid e) \<longrightarrow> sa_inv e u" "leases_evolve s u" "sa_step e u v" for u v
    using that assms(3) leases_next_exec [of e u]
    by (auto elim!: sa_stepE simp: leases_next_def intro: leases_evolve_trans)
qed (use assms in simp)

subsection \<open>Nothing overdue survives the expiry check\<close>

definition overdue_ended :: "instant \<Rightarrow> string \<Rightarrow> (string, 'a aggregate_scheme) jsmap \<Rightarrow> bool" where
  "overdue_ended t k m \<longleftrightarrow> (\<forall>g. map_of m k = Some g \<longrightarrow> expiresAt g \<le> t \<longrightarrow> terminal (status g))"

lemma expireGrant_overdue:
  assumes "sa_inv e s" "j = k \<or> overdue_ended t k (grants s)"
  shows "overdue_ended t k (grants (expireGrant e t j s))"
proof (cases "\<exists>g. map_of (grants s) j = Some g \<and> \<not> terminal (status g) \<and> expiresAt g \<le> t")
  case True
  then obtain g where g: "map_of (grants s) j = Some g" "\<not> terminal (status g)" "expiresAt g \<le> t" by blast
  then have "grants (expireGrant e t j s) = AList.update j
      (g\<lparr>status := Expired, generation := Suc (generation g), version := Suc (version g)\<rparr>) (grants s)"
    using sa_inv_ids(1) [OF assms(1) g(1)] by (simp add: expireGrant_def Let_def)
  then show ?thesis using assms(2) by (auto simp: overdue_ended_def terminal_def)
next
  case False
  then have "expireGrant e t j s = s" by (auto simp: expireGrant_def split: option.split)
  with False assms(2) show ?thesis by (auto simp: overdue_ended_def)
qed

lemma expireBreakGlass_overdue:
  assumes "sa_inv e s" "j = k \<or> overdue_ended t k (breakGlass s)"
  shows "overdue_ended t k (breakGlass (expireBreakGlass e t j s))"
proof (cases "\<exists>g. map_of (breakGlass s) j = Some g \<and> \<not> terminal (status g) \<and> expiresAt g \<le> t")
  case True
  then obtain g where g: "map_of (breakGlass s) j = Some g" "\<not> terminal (status g)" "expiresAt g \<le> t" by blast
  then have "breakGlass (expireBreakGlass e t j s) = AList.update j
      (g\<lparr>status := Expired, generation := Suc (generation g), version := Suc (version g)\<rparr>) (breakGlass s)"
    using sa_inv_ids(2) [OF assms(1) g(1)] by (simp add: expireBreakGlass_def Let_def)
  then show ?thesis using assms(2) by (auto simp: overdue_ended_def terminal_def)
next
  case False
  then have "expireBreakGlass e t j s = s" by (auto simp: expireBreakGlass_def split: option.split)
  with False assms(2) show ?thesis by (auto simp: overdue_ended_def)
qed

lemma expire_overdue:
  assumes "sa_inv e s"
  shows "overdue_ended (now e s) k (grants (expire e s))" "overdue_ended (now e s) k (breakGlass (expire e s))"
proof -
  let ?s1 = "fold (expireGrant e (now e s)) (map fst (grants s)) (tick s)"
  have none: "map_of m k = None \<or> k \<in> set (map fst m)" for m :: "(string, 'b) jsmap"
    by (metis map_of_eq_None_iff list.set_map)
  have i1: "sa_inv e ?s1"
    using fold_relates [of "sa_inv e" "tick s" "expireGrant e (now e s)" "\<lambda>_ _. True" "map fst (grants s)"]
      sa_inv_tick [OF assms] sa_expireGrant by blast
  have "overdue_ended (now e s) k (grants ?s1)"
  proof (rule fold_establishes [where I = "sa_inv e" and k = k])
    show "sa_inv e (tick s)" by (rule sa_inv_tick [OF assms])
    show "k \<in> set (map fst (grants s)) \<or> overdue_ended (now e s) k (grants (tick s))"
      using none [of "grants s"] by (auto simp: overdue_ended_def)
  qed (use sa_expireGrant expireGrant_overdue in blast)+
  then show "overdue_ended (now e s) k (grants (expire e s))" by (simp add: grants_expire)
  show "overdue_ended (now e s) k (breakGlass (expire e s))"
    unfolding expire_def Let_def
  proof (rule fold_establishes [where I = "sa_inv e" and k = k])
    show "sa_inv e ?s1" by (rule i1)
    show "k \<in> set (map fst (breakGlass ?s1)) \<or> overdue_ended (now e s) k (breakGlass ?s1)"
      using none [of "breakGlass ?s1"] by (auto simp: overdue_ended_def)
  qed (use sa_expireBreakGlass expireBreakGlass_overdue in blast)+
qed

subsection \<open>Properties\<close>

lemma consume_needs_fresh_lease:
  assumes "map_of (leases (expire e s)) (cLeaseId rq) = Some l" "lConsumedAt l \<noteq> None \<or> lRevokedAt l \<noteq> None"
  shows "\<exists>err. fst (consumeLease e rq s) = Inl err"
  by (cases rule: consumeLease_cases [of e rq s]) (use assms in \<open>auto simp: consumable_def\<close>)

lemma stamped_lease_unusable:
  assumes "inj (uuid e)" "sa_inv e s" "map_of (leases s) (cLeaseId rq) = Some l"
    and "lConsumedAt l \<noteq> None \<or> lRevokedAt l \<noteq> None" "reaches (sa_step e) s u"
  shows "\<exists>err. fst (consumeLease e rq u) = Inl err"
proof -
  have "leases_evolve s (expire e u)"
    using leases_evolve_run [OF sa_reaches_exec [OF assms(5)] assms(2,1), of Expire] by simp
  from leases_evolveE [OF this assms(3)] obtain m where
    m: "map_of (leases (expire e u)) (cLeaseId rq) = Some m" "lease_later l m" by metis
  have "lConsumedAt m \<noteq> None \<or> lRevokedAt m \<noteq> None" using assms(4) m(2) by (auto simp: lease_later_def)
  then show ?thesis by (rule consume_needs_fresh_lease [OF m(1)])
qed

text \<open>C25. A lease is used at most once: after a successful consumption every further attempt with the same
  lease fails, whatever happened in between.\<close>

theorem lease_consumed_at_most_once:
  assumes "inj (uuid e)" and "reaches (sa_step e) initial_state s"
    and "consumeLease e rq s = (Inr True, t)" and "reaches (sa_step e) t u" and "cLeaseId rq2 = cLeaseId rq"
  shows "\<exists>err. fst (consumeLease e rq2 u) = Inl err"
proof -
  have "reaches (sa_step e) initial_state t"
    using sa_reaches_exec [OF assms(2), of "ConsumeLease rq"] assms(3) by simp
  then have inv: "sa_inv e t" using reachable_sa_inv [OF assms(1)] by blast
  have "\<exists>l. map_of (leases t) (cLeaseId rq) = Some l \<and> lConsumedAt l \<noteq> None"
    by (cases rule: consumeLease_cases [of e rq s]) (use assms(3) in auto)
  then show ?thesis using stamped_lease_unusable [OF assms(1) inv _ _ assms(4)] assms(5) by metis
qed

text \<open>Content is released only under a live authorisation: when a consumption succeeds, the presented
  token matches the lease, the requested tenant, organization, workspace, session, object, action and
  principal are those of an aggregate that is active and not yet expired, a support grant
  whose support principal asks or a break-glass request of which the principal is requester or approver.\<close>

theorem consumption_is_authorised:
  assumes "inj (uuid e)" and "reaches (sa_step e) initial_state s" and "consumeLease e rq s = (Inr True, t)"
  shows "\<exists>l. map_of (leases t) (cLeaseId rq) = Some l \<and> tokenHash l = sha256 e (cToken rq) \<and>
    ((\<exists>g. lGrantId l = Some (grantId g) \<and> map_of (grants t) (grantId g) = Some g \<and> status g = Active
        \<and> now e s < expiresAt g \<and> cAction rq \<in> set (actions g) \<and> cPrincipalId rq = supportPrincipalId g
        \<and> cTenantId rq = tenantId g \<and> cOrganizationId rq = organizationId g \<and> cWorkspaceId rq = workspaceId g
        \<and> cSessionId rq = sessionId g \<and> cObjectId rq = objectId g)
     \<or> (\<exists>b. lBreakGlassId l = Some (breakGlassId b) \<and> map_of (breakGlass t) (breakGlassId b) = Some b
        \<and> status b = Active \<and> now e s < expiresAt b \<and> cAction rq \<in> set (actions b)
        \<and> cPrincipalId rq \<in> set (requesterPrincipalId b # approvalPrincipalIds b)
        \<and> cTenantId rq = tenantId b \<and> cOrganizationId rq = organizationId b \<and> cWorkspaceId rq = workspaceId b
        \<and> cSessionId rq = sessionId b \<and> cObjectId rq = Some (bgObjectId b)))"
proof -
  let ?u = "expire e s"
  have inv: "sa_inv e s" using reachable_sa_inv assms(1,2) by blast
  have iu: "sa_inv e ?u" using sa_expire(1) [OF inv] .
  have t: "t = snd (consumeLease e rq s)" by (simp add: assms(3))
  have bound: "\<exists>p. parent_of ?u l = Some p \<and> bound_to l p" if "consumable e rq l ?u" for l
    using that iu unfolding consumable_def sa_inv_def leases_inv_def by blast
  show ?thesis
  proof (cases rule: consumeLease_cases [of e rq s])
    case (refused err)
    with assms(3) show ?thesis by simp
  next
    case (grant l g)
    obtain gid where gid: "lGrantId l = Some gid" using grant(2) by (auto simp: truthy_iff)
    from bound [OF grant(1)] grant(3) gid have b: "bound_to l (grant_parent g)"
      by (auto simp: parent_of_def split: option.splits)
    have id: "grantId g = gid" using sa_inv_ids(1) [OF iu] grant(3) gid by simp
    have "now e s < expiresAt g"
      using expire_overdue(1) [OF inv, of gid] grant(3,4) gid by (force simp: overdue_ended_def terminal_def)
    then show ?thesis
      using grant(1,3,4) b gid id unfolding t
      by (intro exI [of _ "l\<lparr>lConsumedAt := Some (now e (tick ?u))\<rparr>"] conjI disjI1 exI [of _ g])
        (simp_all add: grant(7) consumable_def bound_to_def grant_parent_def)
  next
    case (emergency l b)
    then obtain bid where bid: "lBreakGlassId l = Some bid" "map_of (breakGlass ?u) bid = Some b"
      by (cases "lBreakGlassId l") auto
    from bound [OF emergency(1)] bid have bd: "bound_to l (bg_parent b)"
      by (auto simp: parent_of_def split: option.splits)
    have id: "breakGlassId b = bid" using sa_inv_ids(2) [OF iu bid(2)] .
    have "now e s < expiresAt b"
      using expire_overdue(2) [OF inv, of bid] emergency(4) bid(2) by (force simp: overdue_ended_def terminal_def)
    then show ?thesis
      using emergency(1,4) bd bid id unfolding t
      by (intro exI [of _ "l\<lparr>lConsumedAt := Some (now e (tick ?u))\<rparr>"] conjI disjI2 exI [of _ b])
        (simp_all add: emergency(7) consumable_def bound_to_def bg_parent_def)
  qed
qed

text \<open>Ending a grant kills its leases: in every reachable state each lease of a revoked, denied or
  expired grant carries a revocation stamp and can never be consumed again.\<close>

theorem ended_grant_has_no_live_lease:
  assumes "inj (uuid e)" and "reaches (sa_step e) initial_state s"
    and "map_of (leases s) k = Some l" and "lGrantId l = Some gid" and "map_of (grants s) gid = Some g"
    and "status g \<in> {Revoked, Expired, Denied}" and "reaches (sa_step e) s u" and "cLeaseId rq = k"
  shows "lRevokedAt l \<noteq> None \<and> (\<exists>err. fst (consumeLease e rq u) = Inl err)"
proof -
  have inv: "sa_inv e s" using reachable_sa_inv assms(1,2) by blast
  then obtain p where p: "parent_of s l = Some p" "bound_to l p"
    using assms(3) unfolding sa_inv_def leases_inv_def by blast
  from p(1) assms(4,5) have "p = grant_parent g" by (auto simp: parent_of_def split: option.splits)
  with p(2) assms(6) have "lRevokedAt l \<noteq> None" by (auto simp: bound_to_def grant_parent_def)
  then show ?thesis
    using stamped_lease_unusable [OF assms(1) inv _ _ assms(7)] assms(3,8) by metis
qed

text \<open>Every lease the service ever stores is short-lived and stays inside what it was drawn from: it
  belongs to an existing grant or break-glass request, runs at most five or two minutes, and never longer
  than that aggregate.\<close>

theorem lease_lifetime_is_bounded:
  assumes "inj (uuid e)" and "reaches (sa_step e) initial_state s" and "map_of (leases s) k = Some l"
  shows "leaseId l = k \<and>
    ((\<exists>gid g. lGrantId l = Some gid \<and> lBreakGlassId l = None \<and> map_of (grants s) gid = Some g
        \<and> lExpiresAt l \<le> expiresAt g \<and> lExpiresAt l \<le> lIssuedAt l + 300000)
     \<or> (\<exists>bid b. lGrantId l = None \<and> lBreakGlassId l = Some bid \<and> map_of (breakGlass s) bid = Some b
        \<and> lExpiresAt l \<le> expiresAt b \<and> lExpiresAt l \<le> lIssuedAt l + 120000))"
proof -
  have inv: "sa_inv e s" using reachable_sa_inv assms(1,2) by blast
  then obtain p where p: "parent_of s l = Some p" "bound_to l p" "leaseId l = k"
    using assms(3) unfolding sa_inv_def leases_inv_def by blast
  then show ?thesis
    by (auto simp: parent_of_def bound_to_def grant_parent_def bg_parent_def split: option.splits)
qed

subsubsection \<open>Witnesses\<close>

definition demo_lease_request :: lease_request where
  "demo_lease_request = \<lparr>lqAggregateId = ''sgr_'', lqActor = \<lparr>principalId = ''sup'', role = KmsOperator\<rparr>,
    lqSessionId = Some ''s'', lqObjectId = None, lqAction = ContentDecrypt, lqCorrelationId = ''c''\<rparr>"

definition demo_consume :: consume_request where
  "demo_consume = \<lparr>cLeaseId = ''jit_uuuu'', cToken = ''ttt'', cTenantId = ''t'', cOrganizationId = ''o'',
    cWorkspaceId = ''w'', cSessionId = Some ''s'', cObjectId = None, cAction = ContentDecrypt,
    cPrincipalId = ''sup'', cCorrelationId = ''c''\<rparr>"

definition demo_leased :: sa_state where
  "demo_leased = sa_exec demo_env (IssueLease demo_lease_request) demo_active"

definition demo_consumed :: sa_state where
  "demo_consumed = sa_exec demo_env (ConsumeLease demo_consume) demo_leased"

definition demo_ended :: sa_state where
  "demo_ended = sa_exec demo_env (RevokeGrant (demo_decision ''user'' TenantUser 4)) demo_leased"

lemma expire_nothing:
  assumes "\<forall>g \<in> snd ` set (grants s). now e s < expiresAt g" "breakGlass s = []"
  shows "expire e s = tick s"
proof -
  have k: "map_of (grants s) k = Some g \<Longrightarrow> now e s < expiresAt g" for k g
    using assms(1) map_of_in_values [of "grants s" k g] by auto
  have "expireGrant e (now e s) k (tick s) = tick s" for k
    using k [of k] by (force simp: expireGrant_def split: option.split)
  then have "fold (expireGrant e (now e s)) ks (tick s) = tick s" for ks by (induction ks) auto
  then show ?thesis using assms(2) by (simp add: expire_def Let_def)
qed

lemma demo_active_expire: "expire demo_env demo_active = tick demo_active"
  by (rule expire_nothing) (simp_all add: now_def demo_env_def demo_grant_def)

lemma demo_leased_facts [simp]:
  "grants demo_leased = grants demo_active" "breakGlass demo_leased = []" "ticks demo_leased = 12"
  "leases demo_leased = [(''jit_uuuu'', \<lparr>leaseId = ''jit_uuuu'', lGrantId = Some ''sgr_'', lBreakGlassId = None,
     lTenantId = ''t'', lOrganizationId = ''o'', lWorkspaceId = ''w'', lSessionId = Some ''s'', lObjectId = None,
     lAction = ContentDecrypt, lPrincipalId = ''sup'', lGeneration = 0, lIssuedAt = 10000, lExpiresAt = 310000,
     lConsumedAt = None, lRevokedAt = None, tokenHash = ''h''\<rparr>)]"
  by (simp_all add: demo_leased_def issueLease_def demo_active_expire Let_def demo_lease_request_def demo_grant_def
      objectId_def grant_lease_def now_def)
    (simp_all add: demo_env_def eval_nat_numeral)

lemma demo_leased_expire: "expire demo_env demo_leased = tick demo_leased"
  by (rule expire_nothing) (simp_all add: now_def demo_env_def demo_grant_def)

lemma demo_lease_reachable:
  "reaches (sa_step demo_env) initial_state demo_leased" "reaches (sa_step demo_env) initial_state demo_ended"
  unfolding demo_leased_def demo_ended_def by (intro sa_reaches_exec demo_reachable)+

lemma demo_consume_ok: "consumeLease demo_env demo_consume demo_leased = (Inr True, demo_consumed)"
  by (simp add: demo_consumed_def consumeLease_def demo_leased_expire Let_def demo_consume_def consume_checked_def
      demo_grant_def lease_scope_mismatch_def now_def)
    (simp add: demo_env_def)

theorem lease_consumed_at_most_once_witness:
  "\<exists>err. fst (consumeLease demo_env demo_consume demo_consumed) = Inl err"
  using lease_consumed_at_most_once [OF demo_inj demo_lease_reachable(1) demo_consume_ok reaches_refl] by blast

theorem consumption_is_authorised_witness:
  "\<exists>l. map_of (leases demo_consumed) ''jit_uuuu'' = Some l \<and> tokenHash l = ''h''"
  using consumption_is_authorised [OF demo_inj demo_lease_reachable(1) demo_consume_ok]
  by (auto simp: demo_consume_def demo_env_def)

lemma demo_leased_key: "map_of (idempotency demo_leased) ''grant-revoke:user'' = None"
proof -
  have "idempotency demo_active = AList.update ''grant-decision:kms'' ''sgr_'' (idempotency demo_approved)"
    by (simp add: demo_active_def decideGrant_def demo_decision_def decisionReplay_def demo_grant_def Let_def
        eval_nat_numeral grantDecision_def)
  then show ?thesis by (simp add: demo_leased_def demo_approved_keys)
qed

lemma demo_ended_facts:
  "map_option status (map_of (grants demo_ended) ''sgr_'') = Some Revoked"
  "map_option lGrantId (map_of (leases demo_ended) ''jit_uuuu'') = Some (Some ''sgr_'')"
  "cLeaseId demo_consume = ''jit_uuuu''"
  using demo_leased_key
  by (simp_all add: demo_ended_def revokeGrant_def demo_decision_def decisionReplay_def Let_def demo_grant_def
      terminal_def revokeLeases_def revokeLease_def demo_consume_def)

theorem ended_grant_has_no_live_lease_witness:
  "\<exists>err. fst (consumeLease demo_env demo_consume demo_ended) = Inl err"
proof -
  obtain l g where "map_of (leases demo_ended) ''jit_uuuu'' = Some l" "lGrantId l = Some ''sgr_''"
    "map_of (grants demo_ended) ''sgr_'' = Some g" "status g = Revoked"
    using demo_ended_facts by (auto simp: map_option_eq_Some)
  then show ?thesis
    using ended_grant_has_no_live_lease [OF demo_inj demo_lease_reachable(2) _ _ _ _ reaches_refl demo_ended_facts(3)]
    by blast
qed

theorem lease_lifetime_is_bounded_witness:
  "\<exists>l g. map_of (leases demo_leased) ''jit_uuuu'' = Some l \<and> map_of (grants demo_leased) ''sgr_'' = Some g
    \<and> lExpiresAt l \<le> expiresAt g"
  using lease_lifetime_is_bounded [OF demo_inj demo_lease_reachable(1), of "''jit_uuuu''"] by auto

end
