(* ===== verification/Support_Audit.thy ===== *)
theory Support_Audit
  imports Support_Leases
begin

section \<open>The audit log of the support service\<close>

text \<open>
  The locale \<open>audit_log\<close> is interpreted on the records of the service (their hashed text determines every
  field), and every operation is shown to only append to the log and to keep the chain verifying.
\<close>

subsection \<open>The chain\<close>

lemma outcome_text_inj [simp]: "outcome_text a = outcome_text b \<longleftrightarrow> a = b"
  by (cases a; cases b) simp_all

interpretation support_log: audit_log audit_body previousHash recordHash sha for sha
proof
  show "a = b" if "audit_body a = audit_body b" "recordHash a = recordHash b" for a b
    using that unfolding audit_body_def stringify_inj by (auto intro!: audit_record.equality)
qed

lemma verifyAuditChain_from_chain_ok:
  "verifyAuditChain_from sha p rs = chain_ok audit_body previousHash recordHash sha p rs"
  by (induction rs arbitrary: p) auto

lemma verifyAuditChain_chain_ok:
  "verifyAuditChain e s = chain_ok audit_body previousHash recordHash (sha256 e) ''GENESIS'' (audit s)"
  by (simp add: verifyAuditChain_def verifyAuditChain_from_chain_ok)

definition audit_inv :: "js_env \<Rightarrow> sa_state \<Rightarrow> bool" where
  "audit_inv e s \<longleftrightarrow> verifyAuditChain e s \<and> map sequence (audit s) = [1..<Suc (length (audit s))]"

definition audit_next :: "js_env \<Rightarrow> sa_state \<Rightarrow> sa_state \<Rightarrow> bool" where
  "audit_next e s t \<longleftrightarrow> prefix (audit s) (audit t) \<and> (audit_inv e s \<longrightarrow> audit_inv e t)"

lemma audit_next_same [inv_intros]: "audit t = audit s \<Longrightarrow> audit_next e s t"
  by (simp add: audit_next_def audit_inv_def verifyAuditChain_def)

lemma audit_next_refl: "audit_next e s s"
  by (rule audit_next_same) simp

lemma audit_next_trans: "audit_next e s t \<Longrightarrow> audit_next e t u \<Longrightarrow> audit_next e s u"
  by (auto simp: audit_next_def intro: prefix_order.trans)

lemma audit_body_hash [simp]: "audit_body (r\<lparr>recordHash := h\<rparr>) = audit_body r"
  by (simp add: audit_body_def)

lemma audit_next_append:
  "audit_next e s (appendAggregateAudit e a oid gid bid actor act out rsn corr s)"
proof -
  let ?t = "appendAggregateAudit e a oid gid bid actor act out rsn corr s"
  obtain r where r: "audit ?t = audit s @ [r]" "recordHash r = sha256 e (audit_body r)"
    "previousHash r = chain_head recordHash ''GENESIS'' (audit s)" "sequence r = Suc (length (audit s))"
    by (cases "audit s = []") (simp_all add: appendAggregateAudit_def Let_def at_last_def chain_head_def audit_body_def)
  then have "audit_inv e s \<longrightarrow> audit_inv e ?t"
    by (auto simp: audit_inv_def verifyAuditChain_chain_ok intro: support_log.append_keeps_chain)
  with r(1) show ?thesis by (simp add: audit_next_def)
qed

lemma audit_next_after [inv_intros]:
  "audit_next e s u \<Longrightarrow> audit_next e s (appendAudit e g actor act out rsn corr u)"
  "audit_next e s u \<Longrightarrow> audit_next e s (appendBreakGlassAudit e b actor act out rsn corr u)"
  unfolding audit_defs by (blast intro: audit_next_trans audit_next_append)+

lemma audit_next_fold: "(\<And>x u. audit_next e u (f x u)) \<Longrightarrow> audit_next e s (fold f xs s)"
  by (induction xs arbitrary: s) (auto intro: audit_next_refl audit_next_trans)

lemma audit_next_expire: "audit_next e s (expire e s)"
proof -
  have g: "audit_next e u (expireGrant e t k u)" for t k u
    by (auto simp: expireGrant_def Let_def split: option.split intro!: inv_intros)
  have b: "audit_next e u (expireBreakGlass e t k u)" for t k u
    by (auto simp: expireBreakGlass_def Let_def split: option.split intro!: inv_intros)
  have t: "audit_next e s (tick s)" by (rule audit_next_same) simp
  show ?thesis
    unfolding expire_def Let_def
    by (rule audit_next_trans [OF audit_next_trans [OF t audit_next_fold [OF g]] audit_next_fold [OF b]])
qed

lemma audit_next_via_expire: "audit_next e (expire e s) t \<Longrightarrow> audit_next e s t"
  by (rule audit_next_trans [OF audit_next_expire])

lemma audit_next_recordGrantDecision:
  "audit s = audit s0 \<Longrightarrow> audit_next e s0 (snd (recordGrantDecision e rq d ap g s))"
  by (auto simp: recordGrantDecision_def Let_def intro!: inv_intros)

lemma audit_next_createGrant: "audit_next e s (snd (createGrant e rq s))"
  by (auto simp: createGrant_def Let_def split: option.split intro!: inv_intros)

lemma audit_next_grant_ops:
  "audit_next e s (snd (verifyGrantMfa e rq m s))" "audit_next e s (snd (revokeGrant e rq s))"
  "audit_next e s (snd (decideGrant e rq d s))"
proof -
  show "audit_next e s (snd (verifyGrantMfa e rq m s))"
    by (cases rule: verifyGrantMfa_cases [of e rq m s]) (auto intro!: inv_intros)
  show "audit_next e s (snd (revokeGrant e rq s))"
    by (cases rule: revokeGrant_cases [of e rq s]) (auto intro!: inv_intros)
  show "audit_next e s (snd (decideGrant e rq d s))"
    by (cases rule: decideGrant_cases [of e rq d s])
      (simp_all add: audit_next_recordGrantDecision audit_next_refl audit_next_same)
qed

lemma audit_next_break_glass_ops:
  "audit_next e s (snd (createBreakGlass e bq s))" "audit_next e s (snd (verifyBreakGlassMfa e rq m s))"
  "audit_next e s (snd (revokeBreakGlass e rq s))" "audit_next e s (snd (approveBreakGlass e rq s))"
proof -
  show "audit_next e s (snd (createBreakGlass e bq s))"
    by (cases rule: createBreakGlass_cases [of e bq s]) (auto intro!: inv_intros)
  show "audit_next e s (snd (verifyBreakGlassMfa e rq m s))"
    by (cases rule: verifyBreakGlassMfa_cases [of e rq m s]) (auto intro!: inv_intros)
  show "audit_next e s (snd (revokeBreakGlass e rq s))"
    by (cases rule: revokeBreakGlass_cases [of e rq s]) (auto simp: Let_def intro!: inv_intros)
  have "audit u = audit s \<Longrightarrow> audit_next e s (setIdempotency k a (snd (activateBreakGlass e rq b u)))" for b u k a
    by (rule audit_next_trans [of _ _ "snd (activateBreakGlass e rq b u)"])
      (auto simp: activateBreakGlass_def Let_def intro!: inv_intros)
  then show "audit_next e s (snd (approveBreakGlass e rq s))"
    by (cases rule: approveBreakGlass_cases [of e rq s]) (auto intro!: audit_next_same)
qed

lemma audit_next_lease_ops:
  "audit_next e s (snd (issueLease e lq s))" "audit_next e s (snd (issueBreakGlassLease e lq s))"
  "audit_next e s (snd (consumeLease e cq s))"
proof -
  have "audit_next e (expire e s) (snd (issueLease e lq s))"
    by (simp add: issueLease_def Let_def audit_next_refl audit_next_after audit_next_same split: option.split)
  then show "audit_next e s (snd (issueLease e lq s))" by (rule audit_next_via_expire)
  have "audit_next e (expire e s) (snd (issueBreakGlassLease e lq s))"
    by (simp add: issueBreakGlassLease_def Let_def audit_next_refl audit_next_after audit_next_same split: option.split)
  then show "audit_next e s (snd (issueBreakGlassLease e lq s))" by (rule audit_next_via_expire)
  have "audit_next e u (snd (consume_checked e cq l st gen log u))" if "\<And>v. audit v = audit u \<Longrightarrow> audit_next e u (log v)"
    for l st gen log u
    by (simp add: consume_checked_def Let_def audit_next_refl audit_next_same that)
  then have "audit_next e (expire e s) (snd (consumeLease e cq s))"
    by (simp add: consumeLease_def Let_def audit_next_refl audit_next_after audit_next_same split: option.split)
  then show "audit_next e s (snd (consumeLease e cq s))" by (rule audit_next_via_expire)
qed

lemma audit_next_exec: "audit_next e s (sa_exec e ev s)"
  by (cases ev) (simp_all add: audit_next_createGrant audit_next_grant_ops audit_next_break_glass_ops
      audit_next_lease_ops audit_next_expire audit_next_same)

interpretation support_audit: transition_system "\<lambda>s. s = initial_state" "sa_step e" "audit_inv e" for e
proof
  show "s = initial_state \<Longrightarrow> audit_inv e s" for s
    by (simp add: audit_inv_def verifyAuditChain_def)
  show "audit_inv e s \<Longrightarrow> sa_step e s t \<Longrightarrow> audit_inv e t" for s t
    using audit_next_exec by (auto elim!: sa_stepE simp: audit_next_def)
qed

subsection \<open>Properties\<close>

text \<open>C26. The audit log is append-only and always verifies: in every reachable state \<open>verifyAuditChain\<close>
  answers true and the records are numbered from one without gaps, and no later operation changes or
  removes a record.\<close>

theorem audit_chain_always_verifies:
  assumes "reaches (sa_step e) initial_state s" and "reaches (sa_step e) s t"
  shows "verifyAuditChain e s \<and> map sequence (audit s) = [1..<Suc (length (audit s))]
    \<and> prefix (audit s) (audit t)"
proof -
  have "audit_inv e s" using support_audit.reachable_inv [OF refl assms(1)] .
  moreover have "prefix (audit s) (audit t)"
    using assms(2)
  proof (induction rule: reaches.induct)
    case (reaches_step s t u)
    then show ?case
      using audit_next_exec by (auto elim!: sa_stepE simp: audit_next_def intro: prefix_order.trans)
  qed simp
  ultimately show ?thesis by (simp add: audit_inv_def)
qed

theorem audit_chain_always_verifies_witness:
  "verifyAuditChain demo_env demo_active \<and> map sequence (audit demo_active) = [1..<Suc (length (audit demo_active))]"
  using audit_chain_always_verifies [OF demo_reachable(4) reaches_refl] by blast







end
