(* ===== verification/Shared_Folders.thy ===== *)
theory Shared_Folders
  imports Hash_Chain
begin

section \<open>Shared folders\<close>

text \<open>
  \<open>packages/shared-folders/src/index.ts\<close>: folders with owners, editors and viewers, invitations by
  secret token, resources bound to folders, task reservations and settlements, an authorization cache
  and a hash-chained audit log.  The private maps of \<open>InMemorySharedFolderCore\<close> are the fields of
  \<open>sf_state\<close>; the string keys the code builds (\<open>scopeKey\<close>, \<open>folderKey\<close>, \<open>memberKey\<close>) are built here in
  the same way, so that the prefix tests of the code are prefix tests of the model.

  The optional \<open>now\<close> of the inputs is an argument.  Listeners are identified by numbers and the
  calls they receive are recorded in \<open>delivered\<close>.  The constant fields \<open>schemaVersion\<close>, \<open>visibility\<close>
  and \<open>type\<close> are left out.  A non-null assertion (\<open>!\<close>) on a missing entry is the error \<open>TypeError\<close>.
\<close>

subsection \<open>Data\<close>

datatype folder_role = Owner | Editor | Viewer
datatype capability = CRead | CMutate | CTurn | CApproval | CManage | CExport
datatype resource_type = Conversation | Source | Attachment | Artifact | AgentTask
datatype membership_status = MActive | MRevoked
datatype invitation_status = IPending | IAccepted | IExpired | IRevoked
datatype change_reason = RAccepted | RRevoked | RRoleChanged | ROwnershipTransferred | RResourceMoved
datatype task_status = TReserved | TRunning | TCompleted | TFailed | TInterrupted | TIncomplete
  | TAdmissionDenied | TStartFailed | TRecoveryRequired
datatype folder_audit_outcome = FSuccess | FFailure

datatype sf_error = FOLDER_NAME_INVALID | FOLDER_NOT_FOUND | FOLDER_ACCESS_DENIED | INVITATION_TTL_INVALID
  | INVITATION_INVALID | INVITATION_SCOPE_MISMATCH | INVITATION_STATUS invitation_status
  | INVITATION_NOT_FOUND | INVITATION_NOT_PENDING | FOLDER_VERSION_CONFLICT | MEMBERSHIP_NOT_FOUND
  | LAST_OWNER_PROTECTED | RESOURCE_ALREADY_BOUND | RESOURCE_NOT_FOUND | TASK_IDEMPOTENCY_CONFLICT
  | TASK_NOT_FOUND | BILLING_SETTLEMENT_CONFLICT | TypeError

record folder_scope =
  scTenant :: string
  scOrganization :: string
  scWorkspace :: string

record folder_identity = folder_scope +
  idPrincipal :: string

record shared_folder = folder_scope +
  folderId :: string
  folderName :: string
  aclVersion :: nat
  cacheEpoch :: nat
  folderVersion :: nat
  createdByPrincipalId :: string
  folderCreatedAt :: instant
  folderUpdatedAt :: instant
  archivedAt :: "instant option"

record folder_membership = folder_scope +
  memFolderId :: string
  memPrincipalId :: string
  memRole :: folder_role
  memStatus :: membership_status
  memVersion :: nat
  acceptedInvitationId :: "string option"
  memCreatedAt :: instant
  memUpdatedAt :: instant
  memRevokedAt :: "instant option"

record folder_invitation = folder_scope +
  invFolderId :: string
  invitationId :: string
  invitedByPrincipalId :: string
  acceptedByPrincipalId :: "string option"
  invRole :: folder_role
  invStatus :: invitation_status
  invExpiresAt :: instant
  acceptedAt :: "instant option"
  invRevokedAt :: "instant option"
  invVersion :: nat
  invCreatedAt :: instant
  invUpdatedAt :: instant

record stored_invitation = folder_invitation +
  tokenDigest :: string

record resource_binding = folder_scope +
  bindFolderId :: string
  bindResourceType :: resource_type
  bindResourceId :: string
  bindVersion :: nat
  bindCreatedAt :: instant
  bindUpdatedAt :: instant

record folder_audit_record =
  faSequence :: nat
  faAuditId :: string
  faTenantId :: string
  faOrganizationId :: string
  faWorkspaceId :: string
  faFolderId :: string
  faActorPrincipalId :: string
  faSubjectPrincipalId :: "string option"
  faResourceType :: "resource_type option"
  faResourceId :: "string option"
  faAction :: string
  faOutcome :: folder_audit_outcome
  faReasonCode :: string
  faAggregateVersion :: nat
  faCorrelationId :: "string option"
  faOccurredAt :: string
  faPreviousHash :: string
  faRecordHash :: string

record access_changed = folder_scope +
  acFolderId :: string
  acAclVersion :: nat
  acCacheEpoch :: nat
  acReason :: change_reason
  acAffectedPrincipalId :: "string option"
  acOccurredAt :: instant

record task_reservation =
  taskKey :: string
  taskFolderId :: string
  taskPrincipalId :: string
  taskSessionId :: string
  taskRequestHash :: string
  taskId :: string
  runId :: "string option"
  codexTurnId :: "string option"
  upstreamWorkId :: "string option"
  admissionDecisionId :: "string option"
  usageDedupeKey :: "string option"
  creditReservationId :: "string option"
  billingSettlementId :: "string option"
  taskStatus :: task_status

record sf_state =
  folders :: "(string, shared_folder) jsmap"
  memberships :: "(string, folder_membership) jsmap"
  invitations :: "(string, stored_invitation) jsmap"
  invitationByDigest :: "(string, string) jsmap"
  bindings :: "(string, resource_binding) jsmap"
  folderAudit :: "folder_audit_record list"
  listeners :: "nat list"
  delivered :: "(nat \<times> access_changed) list"
  authorizationCache :: "(string, nat \<times> folder_role option) jsmap"
  tasks :: "(string, task_reservation) jsmap"
  approvalSettlements :: "(string, string) jsmap"
  billingSettlements :: "(string, string) jsmap"
  sfDraws :: nat

type_synonym 'a sf_outcome = "(sf_error, 'a, sf_state) outcome"

definition sf_initial :: sf_state where
  "sf_initial = \<lparr>folders = [], memberships = [], invitations = [], invitationByDigest = [], bindings = [],
     folderAudit = [], listeners = [], delivered = [], authorizationCache = [], tasks = [],
     approvalSettlements = [], billingSettlements = [], sfDraws = 0\<rparr>"

subsection \<open>Keys\<close>

definition scopeKey :: "'a folder_scope_scheme \<Rightarrow> string" where
  "scopeKey sc = stringify (JArr [JStr (scTenant sc), JStr (scOrganization sc), JStr (scWorkspace sc)])"

definition folderKey :: "'a folder_scope_scheme \<Rightarrow> string \<Rightarrow> string" where
  "folderKey sc fid = scopeKey sc @ '':'' @ fid"

definition memberKey :: "'a folder_scope_scheme \<Rightarrow> string \<Rightarrow> string \<Rightarrow> string" where
  "memberKey sc fid p = folderKey sc fid @ '':'' @ p"

fun resource_type_text :: "resource_type \<Rightarrow> string" where
  "resource_type_text Conversation = ''conversation''"
| "resource_type_text Source = ''source''"
| "resource_type_text Attachment = ''attachment''"
| "resource_type_text Artifact = ''artifact''"
| "resource_type_text AgentTask = ''agent_task''"

definition bindingKey :: "'a folder_scope_scheme \<Rightarrow> resource_type \<Rightarrow> string \<Rightarrow> string" where
  "bindingKey sc rt rid = scopeKey sc @ '':'' @ resource_type_text rt @ '':'' @ rid"

definition folderRoleAllows :: "folder_role \<Rightarrow> capability \<Rightarrow> bool" where
  "folderRoleAllows r c =
    (if c = CRead then True
     else if c = CManage \<or> c = CExport then r = Owner
     else r = Owner \<or> r = Editor)"

subsection \<open>Private helpers\<close>

definition lookupFolder :: "'a folder_scope_scheme \<Rightarrow> string \<Rightarrow> sf_state \<Rightarrow> sf_error + shared_folder" where
  "lookupFolder sc fid s =
    (case map_of (folders s) (folderKey sc fid) of None \<Rightarrow> Inl FOLDER_NOT_FOUND | Some f \<Rightarrow> Inr f)"

definition activeMembership :: "'a folder_scope_scheme \<Rightarrow> string \<Rightarrow> string \<Rightarrow> sf_state \<Rightarrow> folder_membership option" where
  "activeMembership sc p fid s =
    (case map_of (memberships s) (memberKey sc fid p) of
       None \<Rightarrow> None
     | Some m \<Rightarrow> if memStatus m = MActive then Some m else None)"

definition ownerCount :: "'a folder_scope_scheme \<Rightarrow> string \<Rightarrow> sf_state \<Rightarrow> nat" where
  "ownerCount sc fid s =
    length (filter (\<lambda>(k, m). prefix (folderKey sc fid @ '':'') k \<and> memStatus m = MActive \<and> memRole m = Owner)
      (memberships s))"

definition expireInvitation :: "instant \<Rightarrow> stored_invitation \<Rightarrow> stored_invitation" where
  "expireInvitation t i =
    (if invStatus i = IPending \<and> invExpiresAt i \<le> t
     then i\<lparr>invStatus := IExpired, invUpdatedAt := t, invVersion := Suc (invVersion i)\<rparr> else i)"

definition publicInvitation :: "stored_invitation \<Rightarrow> folder_invitation" where
  "publicInvitation i = folder_invitation.truncate i"

definition bumped :: "instant \<Rightarrow> shared_folder \<Rightarrow> shared_folder" where
  "bumped t f = f\<lparr>aclVersion := Suc (aclVersion f), cacheEpoch := Suc (cacheEpoch f),
     folderVersion := Suc (folderVersion f), folderUpdatedAt := t\<rparr>"

definition accessChanged :: "shared_folder \<Rightarrow> string \<Rightarrow> change_reason \<Rightarrow> string option \<Rightarrow> instant \<Rightarrow> access_changed" where
  "accessChanged f fid reason affected t =
    \<lparr>scTenant = scTenant f, scOrganization = scOrganization f, scWorkspace = scWorkspace f, acFolderId = fid,
     acAclVersion = aclVersion f, acCacheEpoch = cacheEpoch f, acReason = reason,
     acAffectedPrincipalId = affected, acOccurredAt = t\<rparr>"

definition bump :: "'a folder_scope_scheme \<Rightarrow> string \<Rightarrow> change_reason \<Rightarrow> string option \<Rightarrow> instant \<Rightarrow> sf_state \<Rightarrow>
    shared_folder sf_outcome" where
  "bump sc fid reason affected t s =
    (case lookupFolder sc fid s of
       Inl err \<Rightarrow> (Inl err, s)
     | Inr f0 \<Rightarrow>
       (let f = bumped t f0;
            ev = accessChanged f fid reason affected t
        in (Inr f,
            s\<lparr>folders := AList.update (folderKey sc fid) f (folders s),
              authorizationCache :=
                filter (\<lambda>(k, c). \<not> prefix (folderKey sc fid @ '':'') k) (authorizationCache s),
              delivered := delivered s @ map (\<lambda>l. (l, ev)) (listeners s)\<rparr>)))"

fun folder_outcome_text :: "folder_audit_outcome \<Rightarrow> string" where
  "folder_outcome_text FSuccess = ''success''"
| "folder_outcome_text FFailure = ''failure''"

definition folder_audit_body :: "folder_audit_record \<Rightarrow> string" where
  "folder_audit_body r = stringify (JObj
    [(''schemaVersion'', JNum 1), (''sequence'', JNum (int (faSequence r))), (''auditId'', JStr (faAuditId r)),
     (''tenantId'', JStr (faTenantId r)), (''organizationId'', JStr (faOrganizationId r)),
     (''workspaceId'', JStr (faWorkspaceId r)), (''folderId'', JStr (faFolderId r)),
     (''actorPrincipalId'', JStr (faActorPrincipalId r)),
     (''subjectPrincipalId'', jopt (faSubjectPrincipalId r)),
     (''resourceType'', jopt (map_option resource_type_text (faResourceType r))),
     (''resourceId'', jopt (faResourceId r)), (''action'', JStr (faAction r)),
     (''outcome'', JStr (folder_outcome_text (faOutcome r))), (''reasonCode'', JStr (faReasonCode r)),
     (''aggregateVersion'', JNum (int (faAggregateVersion r))), (''correlationId'', jopt (faCorrelationId r)),
     (''occurredAt'', JStr (faOccurredAt r)), (''previousHash'', JStr (faPreviousHash r))])"

definition appendFolderAudit :: "js_env \<Rightarrow> string \<Rightarrow> shared_folder \<Rightarrow> string \<Rightarrow> folder_audit_outcome \<Rightarrow> string \<Rightarrow>
    string option \<Rightarrow> resource_type option \<Rightarrow> string option \<Rightarrow> string option \<Rightarrow> sf_state \<Rightarrow> sf_state" where
  "appendFolderAudit e actor f act out code subj rt rid corr s =
    (let u = \<lparr>faSequence = length (folderAudit s) + 1, faAuditId = ''fau_'' @ uuid e (sfDraws s),
              faTenantId = scTenant f, faOrganizationId = scOrganization f, faWorkspaceId = scWorkspace f,
              faFolderId = folderId f, faActorPrincipalId = actor, faSubjectPrincipalId = subj,
              faResourceType = rt, faResourceId = rid, faAction = act, faOutcome = out, faReasonCode = code,
              faAggregateVersion = folderVersion f, faCorrelationId = corr,
              faOccurredAt = toISOString (folderUpdatedAt f),
              faPreviousHash = (case at_last (folderAudit s) of None \<Rightarrow> ''GENESIS'' | Some r \<Rightarrow> faRecordHash r),
              faRecordHash = []\<rparr>
     in s\<lparr>sfDraws := Suc (sfDraws s),
          folderAudit := folderAudit s @ [u\<lparr>faRecordHash := sha256 e (folder_audit_body u)\<rparr>]\<rparr>)"

subsection \<open>Folders and roles\<close>

definition createFolder :: "js_env \<Rightarrow> folder_identity \<Rightarrow> string \<Rightarrow> instant \<Rightarrow> sf_state \<Rightarrow>
    (shared_folder \<times> folder_membership) sf_outcome" where
  "createFolder e who name t s =
    (let fid = ''fld_'' @ uuid e (sfDraws s);
         s1 = s\<lparr>sfDraws := Suc (sfDraws s)\<rparr>;
         f = \<lparr>scTenant = scTenant who, scOrganization = scOrganization who, scWorkspace = scWorkspace who,
              folderId = fid, folderName = js_trim name, aclVersion = 1, cacheEpoch = 0, folderVersion = 1,
              createdByPrincipalId = idPrincipal who, folderCreatedAt = t, folderUpdatedAt = t,
              archivedAt = None\<rparr>
     in if js_trim name = [] \<or> 80 < length (js_trim name) then (Inl FOLDER_NAME_INVALID, s1)
        else
          (let m = \<lparr>scTenant = scTenant who, scOrganization = scOrganization who, scWorkspace = scWorkspace who,
                    memFolderId = fid, memPrincipalId = idPrincipal who, memRole = Owner, memStatus = MActive,
                    memVersion = 1, acceptedInvitationId = None, memCreatedAt = t, memUpdatedAt = t,
                    memRevokedAt = None\<rparr>
           in (Inr (f, m),
               appendFolderAudit e (idPrincipal who) f ''folder.created'' FSuccess ''CREATED'' None None None None
                 (s1\<lparr>folders := AList.update (folderKey who fid) f (folders s1),
                     memberships := AList.update (memberKey who fid (idPrincipal who)) m (memberships s1)\<rparr>))))"

text \<open>The role a principal has, without the cache.\<close>

definition storedRole :: "folder_identity \<Rightarrow> string \<Rightarrow> sf_state \<Rightarrow> folder_role option" where
  "storedRole who fid s = map_option memRole (activeMembership who (idPrincipal who) fid s)"

definition role_cached :: "folder_identity \<Rightarrow> string \<Rightarrow> sf_state \<Rightarrow> folder_role option \<times> sf_state" where
  "role_cached who fid s =
    (case map_of (folders s) (folderKey who fid) of
       None \<Rightarrow> (None, s)
     | Some f \<Rightarrow>
       if archivedAt f \<noteq> None then (None, s)
       else
         (let key = memberKey who fid (idPrincipal who);
              miss = (storedRole who fid s,
                s\<lparr>authorizationCache :=
                  AList.update key (cacheEpoch f, storedRole who fid s) (authorizationCache s)\<rparr>)
          in case map_of (authorizationCache s) key of
               None \<Rightarrow> miss
             | Some (ep, r) \<Rightarrow> if ep = cacheEpoch f then (r, s) else miss))"

definition getFolder :: "folder_identity \<Rightarrow> string \<Rightarrow> capability \<Rightarrow> sf_state \<Rightarrow> shared_folder sf_outcome" where
  "getFolder who fid cap s =
    (case lookupFolder who fid s of
       Inl err \<Rightarrow> (Inl err, s)
     | Inr f \<Rightarrow>
       (case role_cached who fid s of
          (None, s1) \<Rightarrow> (Inl FOLDER_ACCESS_DENIED, s1)
        | (Some r, s1) \<Rightarrow> if folderRoleAllows r cap then (Inr f, s1) else (Inl FOLDER_ACCESS_DENIED, s1)))"

definition deleteFolder :: "js_env \<Rightarrow> folder_identity \<Rightarrow> string \<Rightarrow> instant \<Rightarrow> sf_state \<Rightarrow> shared_folder sf_outcome" where
  "deleteFolder e who fid t s =
    (case getFolder who fid CManage s of
       (Inl err, s1) \<Rightarrow> (Inl err, s1)
     | (Inr f, s1) \<Rightarrow>
       (case bump who fid RRevoked None t s1 of
          (Inl err, s2) \<Rightarrow> (Inl err, s2)
        | (Inr changed, s2) \<Rightarrow>
          (let s3 = appendFolderAudit e (idPrincipal who) changed ''folder.deleted'' FSuccess ''DELETED''
                      None None None None s2
           in case map_of (folders s3) (folderKey who fid) of
                None \<Rightarrow> (Inl TypeError, s3)
              | Some stored \<Rightarrow>
                (let stored' = stored\<lparr>archivedAt := Some t\<rparr>
                 in (Inr stored', s3\<lparr>folders := AList.update (folderKey who fid) stored' (folders s3)\<rparr>)))))"

definition listFolders :: "folder_identity \<Rightarrow> sf_state \<Rightarrow> (shared_folder \<times> folder_membership) list" where
  "listFolders who s =
    concat (map (\<lambda>(k, f). case activeMembership who (idPrincipal who) (folderId f) s of
                   None \<Rightarrow> [] | Some m \<Rightarrow> [(f, m)])
      (filter (\<lambda>(k, f). prefix (scopeKey who @ '':'') k \<and> archivedAt f = None) (folders s)))"

definition listMembers :: "folder_identity \<Rightarrow> string \<Rightarrow> sf_state \<Rightarrow> folder_membership list sf_outcome" where
  "listMembers who fid s =
    (case getFolder who fid CManage s of
       (Inl err, s1) \<Rightarrow> (Inl err, s1)
     | (Inr f, s1) \<Rightarrow>
       (Inr (map snd (filter (\<lambda>(k, m). prefix (folderKey who fid @ '':'') k \<and> memStatus m = MActive)
          (memberships s1))), s1))"

subsection \<open>Invitations\<close>

text \<open>\<open>randomUUID\<close> is drawn before \<open>randomBytes\<close>.\<close>

definition createInvitation :: "js_env \<Rightarrow> folder_identity \<Rightarrow> string \<Rightarrow> folder_role \<Rightarrow> int \<Rightarrow> instant \<Rightarrow> sf_state \<Rightarrow>
    (folder_invitation \<times> string) sf_outcome" where
  "createInvitation e who fid r secs t s =
    (case getFolder who fid CManage s of
       (Inl err, s1) \<Rightarrow> (Inl err, s1)
     | (Inr f, s1) \<Rightarrow>
       if secs < 60 \<or> 604800 < secs then (Inl INVITATION_TTL_INVALID, s1)
       else
         (let iid = ''inv_'' @ uuid e (sfDraws s1);
              tok = token e (Suc (sfDraws s1));
              i = \<lparr>scTenant = scTenant who, scOrganization = scOrganization who, scWorkspace = scWorkspace who,
                   invFolderId = fid, invitationId = iid, invitedByPrincipalId = idPrincipal who,
                   acceptedByPrincipalId = None, invRole = r, invStatus = IPending,
                   invExpiresAt = t + secs * 1000, acceptedAt = None, invRevokedAt = None, invVersion = 1,
                   invCreatedAt = t, invUpdatedAt = t, tokenDigest = sha256 e tok\<rparr>
          in (Inr (publicInvitation i, tok),
              appendFolderAudit e (idPrincipal who) f ''invitation.created'' FSuccess ''CREATED''
                None None None None
                (s1\<lparr>sfDraws := Suc (Suc (sfDraws s1)),
                    invitations := AList.update iid i (invitations s1),
                    invitationByDigest := AList.update (tokenDigest i) iid (invitationByDigest s1)\<rparr>))))"

definition listInvitations :: "folder_identity \<Rightarrow> string \<Rightarrow> instant \<Rightarrow> sf_state \<Rightarrow> folder_invitation list sf_outcome" where
  "listInvitations who fid t s =
    (case getFolder who fid CManage s of
       (Inl err, s1) \<Rightarrow> (Inl err, s1)
     | (Inr f, s1) \<Rightarrow>
       (let mine = (\<lambda>i. invFolderId i = fid \<and> scopeKey i = scopeKey who);
            is' = jmap_values (\<lambda>i. if mine i then expireInvitation t i else i) (invitations s1)
        in (Inr (map publicInvitation (filter mine (jvalues is'))), s1\<lparr>invitations := is'\<rparr>)))"

definition acceptedMembership :: "folder_identity \<Rightarrow> stored_invitation \<Rightarrow> folder_membership option \<Rightarrow> instant \<Rightarrow>
    folder_membership" where
  "acceptedMembership who i existing t =
    \<lparr>scTenant = scTenant who, scOrganization = scOrganization who, scWorkspace = scWorkspace who,
     memFolderId = invFolderId i, memPrincipalId = idPrincipal who, memRole = invRole i, memStatus = MActive,
     memVersion = (case existing of None \<Rightarrow> 0 | Some m \<Rightarrow> memVersion m) + 1,
     acceptedInvitationId = Some (invitationId i),
     memCreatedAt = (case existing of None \<Rightarrow> t | Some m \<Rightarrow> memCreatedAt m), memUpdatedAt = t,
     memRevokedAt = None\<rparr>"

text \<open>The part of \<open>acceptInvitation\<close> that turns a pending invitation into a membership.\<close>

definition acceptPending :: "js_env \<Rightarrow> folder_identity \<Rightarrow> string \<Rightarrow> stored_invitation \<Rightarrow> instant \<Rightarrow> sf_state \<Rightarrow>
    (folder_invitation \<times> folder_membership \<times> bool) sf_outcome" where
  "acceptPending e who iid i t s =
    (if invStatus i \<noteq> IPending then (Inl (INVITATION_STATUS (invStatus i)), s)
     else
       (let i' = i\<lparr>invStatus := IAccepted, acceptedByPrincipalId := Some (idPrincipal who),
                   acceptedAt := Some t, invUpdatedAt := t, invVersion := Suc (invVersion i)\<rparr>;
            key = memberKey who (invFolderId i) (idPrincipal who);
            m = acceptedMembership who i (map_of (memberships s) key) t;
            s1 = s\<lparr>invitations := AList.update iid i' (invitations s),
                   memberships := AList.update key m (memberships s)\<rparr>
        in case bump who (invFolderId i) RAccepted (Some (idPrincipal who)) t s1 of
             (Inl err, s2) \<Rightarrow> (Inl err, s2)
           | (Inr f, s2) \<Rightarrow>
             (Inr (publicInvitation i', m, False),
              appendFolderAudit e (idPrincipal who) f ''invitation.accepted'' FSuccess ''ACCEPTED''
                (Some (idPrincipal who)) None None None s2)))"

definition acceptInvitation :: "js_env \<Rightarrow> folder_identity \<Rightarrow> string \<Rightarrow> instant \<Rightarrow> sf_state \<Rightarrow>
    (folder_invitation \<times> folder_membership \<times> bool) sf_outcome" where
  "acceptInvitation e who tok t s =
    (if \<not> truthy (map_of (invitationByDigest s) (sha256 e tok)) then (Inl INVITATION_INVALID, s)
     else
       (let iid = the (map_of (invitationByDigest s) (sha256 e tok)) in
        case map_of (invitations s) iid of
          None \<Rightarrow> (Inl TypeError, s)
        | Some i0 \<Rightarrow>
          if scopeKey i0 \<noteq> scopeKey who then (Inl INVITATION_SCOPE_MISMATCH, s)
          else
            (let i = expireInvitation t i0;
                 s1 = s\<lparr>invitations := AList.update iid i (invitations s)\<rparr>
             in case map_of (memberships s1) (memberKey who (invFolderId i) (idPrincipal who)) of
                  Some m \<Rightarrow>
                    if invStatus i = IAccepted \<and> acceptedByPrincipalId i = Some (idPrincipal who)
                       \<and> memStatus m = MActive
                    then (Inr (publicInvitation i, m, True), s1)
                    else acceptPending e who iid i t s1
                | None \<Rightarrow> acceptPending e who iid i t s1)))"

definition revokeInvitation :: "js_env \<Rightarrow> folder_identity \<Rightarrow> string \<Rightarrow> string \<Rightarrow> nat \<Rightarrow> instant \<Rightarrow> sf_state \<Rightarrow>
    folder_invitation sf_outcome" where
  "revokeInvitation e who fid iid expected t s =
    (case getFolder who fid CManage s of
       (Inl err, s1) \<Rightarrow> (Inl err, s1)
     | (Inr f, s1) \<Rightarrow>
       (case map_of (invitations s1) iid of
          None \<Rightarrow> (Inl INVITATION_NOT_FOUND, s1)
        | Some i \<Rightarrow>
          if invFolderId i \<noteq> fid \<or> scopeKey i \<noteq> scopeKey who then (Inl INVITATION_NOT_FOUND, s1)
          else if invVersion i \<noteq> expected then (Inl FOLDER_VERSION_CONFLICT, s1)
          else if invStatus i = IRevoked then (Inr (publicInvitation i), s1)
          else if invStatus i \<noteq> IPending then (Inl INVITATION_NOT_PENDING, s1)
          else
            (let i' = i\<lparr>invStatus := IRevoked, invRevokedAt := Some t, invUpdatedAt := t,
                        invVersion := Suc (invVersion i)\<rparr>
             in (Inr (publicInvitation i'),
                 appendFolderAudit e (idPrincipal who) f ''invitation.revoked'' FSuccess ''REVOKED''
                   None None None None (s1\<lparr>invitations := AList.update iid i' (invitations s1)\<rparr>)))))"

subsection \<open>Memberships\<close>

text \<open>
  The common tail of \<open>changeRole\<close> and \<open>revokeMembership\<close>: store the changed membership, bump the
  folder, log.
\<close>

definition storeMembership :: "js_env \<Rightarrow> folder_identity \<Rightarrow> string \<Rightarrow> string \<Rightarrow> folder_membership \<Rightarrow> change_reason \<Rightarrow>
    string \<Rightarrow> string \<Rightarrow> instant \<Rightarrow> sf_state \<Rightarrow> folder_membership sf_outcome" where
  "storeMembership e who fid target m reason act code t s =
    (case bump who fid reason (Some target) t
            (s\<lparr>memberships := AList.update (memberKey who fid target) m (memberships s)\<rparr>) of
       (Inl err, s2) \<Rightarrow> (Inl err, s2)
     | (Inr f, s2) \<Rightarrow>
       (Inr m, appendFolderAudit e (idPrincipal who) f act FSuccess code (Some target) None None None s2))"

definition changeRole :: "js_env \<Rightarrow> folder_identity \<Rightarrow> string \<Rightarrow> string \<Rightarrow> folder_role \<Rightarrow> nat \<Rightarrow> instant \<Rightarrow> sf_state \<Rightarrow>
    folder_membership sf_outcome" where
  "changeRole e who fid target r expected t s =
    (case getFolder who fid CManage s of
       (Inl err, s1) \<Rightarrow> (Inl err, s1)
     | (Inr f, s1) \<Rightarrow>
       (case activeMembership who target fid s1 of
          None \<Rightarrow> (Inl MEMBERSHIP_NOT_FOUND, s1)
        | Some m \<Rightarrow>
          if memVersion m \<noteq> expected then (Inl FOLDER_VERSION_CONFLICT, s1)
          else if memRole m = Owner \<and> r \<noteq> Owner \<and> ownerCount who fid s1 = 1 then (Inl LAST_OWNER_PROTECTED, s1)
          else
            storeMembership e who fid target
              (m\<lparr>memRole := r, memVersion := Suc (memVersion m), memUpdatedAt := t\<rparr>)
              RRoleChanged ''membership.role_changed'' ''ROLE_CHANGED'' t s1))"

definition revokeMembership :: "js_env \<Rightarrow> folder_identity \<Rightarrow> string \<Rightarrow> string \<Rightarrow> nat \<Rightarrow> instant \<Rightarrow> sf_state \<Rightarrow>
    folder_membership sf_outcome" where
  "revokeMembership e who fid target expected t s =
    (case getFolder who fid CManage s of
       (Inl err, s1) \<Rightarrow> (Inl err, s1)
     | (Inr f, s1) \<Rightarrow>
       (case activeMembership who target fid s1 of
          None \<Rightarrow> (Inl MEMBERSHIP_NOT_FOUND, s1)
        | Some m \<Rightarrow>
          if memVersion m \<noteq> expected then (Inl FOLDER_VERSION_CONFLICT, s1)
          else if memRole m = Owner \<and> ownerCount who fid s1 = 1 then (Inl LAST_OWNER_PROTECTED, s1)
          else
            storeMembership e who fid target
              (m\<lparr>memStatus := MRevoked, memVersion := Suc (memVersion m), memUpdatedAt := t,
                 memRevokedAt := Some t\<rparr>)
              RRevoked ''membership.revoked'' ''REVOKED'' t s1))"

text \<open>
  The target is promoted first and the actor demoted after it; both are read from the map before, and
  when they are the same principal only the promotion happens.
\<close>

definition transferOwnership :: "js_env \<Rightarrow> folder_identity \<Rightarrow> string \<Rightarrow> string \<Rightarrow> nat \<Rightarrow> folder_role \<Rightarrow> instant \<Rightarrow>
    sf_state \<Rightarrow> (shared_folder \<times> folder_membership \<times> folder_membership) sf_outcome" where
  "transferOwnership e who fid target expected previous t s =
    (case getFolder who fid CManage s of
       (Inl err, s1) \<Rightarrow> (Inl err, s1)
     | (Inr f, s1) \<Rightarrow>
       if folderVersion f \<noteq> expected then (Inl FOLDER_VERSION_CONFLICT, s1)
       else
       (case activeMembership who target fid s1 of
          None \<Rightarrow> (Inl MEMBERSHIP_NOT_FOUND, s1)
        | Some m \<Rightarrow>
          (let m' = m\<lparr>memRole := Owner, memVersion := Suc (memVersion m), memUpdatedAt := t\<rparr>;
               ms = AList.update (memberKey who fid target) m' (memberships s1)
           in case map_of ms (memberKey who fid (idPrincipal who)) of
                None \<Rightarrow> (Inl TypeError, s1\<lparr>memberships := ms\<rparr>)
              | Some a \<Rightarrow>
                (let demote = (target \<noteq> idPrincipal who \<and> previous = Editor);
                     a' = (if demote then a\<lparr>memRole := Editor, memVersion := Suc (memVersion a), memUpdatedAt := t\<rparr>
                           else a);
                     ms' = (if demote then AList.update (memberKey who fid (idPrincipal who)) a' ms else ms)
                 in case bump who fid ROwnershipTransferred (Some target) t (s1\<lparr>memberships := ms'\<rparr>) of
                      (Inl err, s2) \<Rightarrow> (Inl err, s2)
                    | (Inr changed, s2) \<Rightarrow>
                      (Inr (changed, a', m'),
                       appendFolderAudit e (idPrincipal who) changed ''ownership.transferred'' FSuccess
                         ''TRANSFERRED'' (Some target) None None None s2)))))"

subsection \<open>Resources\<close>

definition bindResource :: "folder_identity \<Rightarrow> string \<Rightarrow> resource_type \<Rightarrow> string \<Rightarrow> instant \<Rightarrow> sf_state \<Rightarrow>
    resource_binding sf_outcome" where
  "bindResource who fid rt rid t s =
    (case getFolder who fid CMutate s of
       (Inl err, s1) \<Rightarrow> (Inl err, s1)
     | (Inr f, s1) \<Rightarrow>
       (let key = bindingKey who rt rid;
            b = \<lparr>scTenant = scTenant who, scOrganization = scOrganization who, scWorkspace = scWorkspace who,
                 bindFolderId = fid, bindResourceType = rt, bindResourceId = rid, bindVersion = 1,
                 bindCreatedAt = t, bindUpdatedAt = t\<rparr>
        in if map_of (bindings s1) key \<noteq> None then (Inl RESOURCE_ALREADY_BOUND, s1)
           else (Inr b, s1\<lparr>bindings := AList.update key b (bindings s1)\<rparr>)))"

text \<open>The tail of \<open>moveResource\<close>: rebind, bump the source folder if there is one and then the target.\<close>

definition rebind :: "js_env \<Rightarrow> folder_identity \<Rightarrow> string option \<Rightarrow> string \<Rightarrow> resource_type \<Rightarrow> string \<Rightarrow>
    resource_binding \<Rightarrow> instant \<Rightarrow> sf_state \<Rightarrow> resource_binding sf_outcome" where
  "rebind e who source target rt rid b t s =
    (let b' = b\<lparr>bindFolderId := target, bindVersion := Suc (bindVersion b), bindUpdatedAt := t\<rparr>;
         s1 = s\<lparr>bindings := AList.update (bindingKey who rt rid) b' (bindings s)\<rparr>
     in case (if truthy source then map_prod (map_sum id (\<lambda>_. ())) id (bump who (the source) RResourceMoved None t s1)
              else (Inr (), s1)) of
          (Inl err, s2) \<Rightarrow> (Inl err, s2)
        | (Inr _, s2) \<Rightarrow>
          (case bump who target RResourceMoved None t s2 of
             (Inl err, s3) \<Rightarrow> (Inl err, s3)
           | (Inr f, s3) \<Rightarrow>
             (Inr b', appendFolderAudit e (idPrincipal who) f ''resource.moved'' FSuccess ''MOVED''
                        None (Some rt) (Some rid) None s3)))"

definition moveResource :: "js_env \<Rightarrow> folder_identity \<Rightarrow> string option \<Rightarrow> string \<Rightarrow> resource_type \<Rightarrow> string \<Rightarrow> nat \<Rightarrow>
    instant \<Rightarrow> sf_state \<Rightarrow> resource_binding sf_outcome" where
  "moveResource e who source target rt rid expected t s =
    (case getFolder who target CMutate s of
       (Inl err, s1) \<Rightarrow> (Inl err, s1)
     | (Inr f, s1) \<Rightarrow>
       (case map_of (bindings s1) (bindingKey who rt rid) of
          None \<Rightarrow> (Inl RESOURCE_NOT_FOUND, s1)
        | Some b \<Rightarrow>
          if Some (bindFolderId b) \<noteq> source then (Inl RESOURCE_NOT_FOUND, s1)
          else if bindVersion b \<noteq> expected then (Inl FOLDER_VERSION_CONFLICT, s1)
          else if truthy source then
            (case getFolder who (the source) CMutate s1 of
               (Inl err, s2) \<Rightarrow> (Inl err, s2)
             | (Inr _, s2) \<Rightarrow> rebind e who source target rt rid b t s2)
          else rebind e who source target rt rid b t s1))"

definition authorizeResource :: "folder_identity \<Rightarrow> resource_type \<Rightarrow> string \<Rightarrow> capability \<Rightarrow> sf_state \<Rightarrow>
    resource_binding sf_outcome" where
  "authorizeResource who rt rid cap s =
    (case map_of (bindings s) (bindingKey who rt rid) of
       None \<Rightarrow> (Inl RESOURCE_NOT_FOUND, s)
     | Some b \<Rightarrow>
       (case getFolder who (bindFolderId b) cap s of
          (Inl err, s1) \<Rightarrow> (Inl err, s1)
        | (Inr f, s1) \<Rightarrow> (Inr b, s1)))"

definition authorizeWorkloadResource :: "folder_scope \<Rightarrow> resource_type \<Rightarrow> string \<Rightarrow> sf_state \<Rightarrow>
    sf_error + resource_binding" where
  "authorizeWorkloadResource sc rt rid s =
    (case map_of (bindings s) (bindingKey sc rt rid) of
       None \<Rightarrow> Inl RESOURCE_NOT_FOUND
     | Some b \<Rightarrow>
       (case find (\<lambda>x. taskFolderId x = bindFolderId b
               \<and> activeMembership sc (taskPrincipalId x) (bindFolderId b) s \<noteq> None) (rev (jvalues (tasks s))) of
          None \<Rightarrow> Inl FOLDER_ACCESS_DENIED
        | Some x \<Rightarrow> Inr b))"

definition hasSharedFolders :: "'a folder_scope_scheme \<Rightarrow> sf_state \<Rightarrow> bool" where
  "hasSharedFolders sc s = list_ex (prefix (scopeKey sc @ '':'')) (jkeys (folders s))"

definition recordExport :: "js_env \<Rightarrow> folder_identity \<Rightarrow> string \<Rightarrow> string option \<Rightarrow> sf_state \<Rightarrow> unit sf_outcome" where
  "recordExport e who fid corr s =
    (case getFolder who fid CExport s of
       (Inl err, s1) \<Rightarrow> (Inl err, s1)
     | (Inr f, s1) \<Rightarrow>
       (Inr (), appendFolderAudit e (idPrincipal who) f ''folder.exported'' FSuccess ''EXPORTED''
                  None None None corr s1))"

definition listFolderAudit :: "folder_identity \<Rightarrow> string \<Rightarrow> sf_state \<Rightarrow> folder_audit_record list sf_outcome" where
  "listFolderAudit who fid s =
    (case getFolder who fid CManage s of
       (Inl err, s1) \<Rightarrow> (Inl err, s1)
     | (Inr f, s1) \<Rightarrow>
       (Inr (filter (\<lambda>r. faFolderId r = fid
            \<and> scopeKey \<lparr>scTenant = faTenantId r, scOrganization = faOrganizationId r,
                       scWorkspace = faWorkspaceId r\<rparr> = scopeKey who) (folderAudit s1)), s1))"

subsection \<open>Tasks and settlements\<close>

definition reserveTask :: "js_env \<Rightarrow> folder_identity \<Rightarrow> string \<Rightarrow> string \<Rightarrow> string \<Rightarrow> string \<Rightarrow> sf_state \<Rightarrow>
    (task_reservation \<times> bool) sf_outcome" where
  "reserveTask e who fid session idem rhash s =
    (case getFolder who fid CTurn s of
       (Inl err, s1) \<Rightarrow> (Inl err, s1)
     | (Inr f, s1) \<Rightarrow>
       (let key = scopeKey who @ '':'' @ idem in
        case map_of (tasks s1) key of
          Some x \<Rightarrow>
            if taskFolderId x \<noteq> fid \<or> taskSessionId x \<noteq> session \<or> taskRequestHash x \<noteq> rhash
            then (Inl TASK_IDEMPOTENCY_CONFLICT, s1) else (Inr (x, False), s1)
        | None \<Rightarrow>
            (let x = \<lparr>taskKey = key, taskFolderId = fid, taskPrincipalId = idPrincipal who,
                      taskSessionId = session, taskRequestHash = rhash, taskId = ''tsk_'' @ uuid e (sfDraws s1),
                      runId = None, codexTurnId = None, upstreamWorkId = None, admissionDecisionId = None,
                      usageDedupeKey = None, creditReservationId = None, billingSettlementId = None,
                      taskStatus = TReserved\<rparr>
             in (Inr (x, True),
                 s1\<lparr>sfDraws := Suc (sfDraws s1), tasks := AList.update key x (tasks s1)\<rparr>))))"

definition getTask :: "folder_identity \<Rightarrow> string \<Rightarrow> string \<Rightarrow> sf_state \<Rightarrow> task_reservation sf_outcome" where
  "getTask who session idem s =
    (case map_of (tasks s) (scopeKey who @ '':'' @ idem) of
       None \<Rightarrow> (Inl TASK_NOT_FOUND, s)
     | Some x \<Rightarrow>
       if taskSessionId x \<noteq> session then (Inl TASK_NOT_FOUND, s)
       else
         (case getFolder who (taskFolderId x) CRead s of
            (Inl err, s1) \<Rightarrow> (Inl err, s1)
          | (Inr f, s1) \<Rightarrow> (Inr x, s1)))"

text \<open>A turn id is compared with \<open>===\<close>, so a task without one never matches.\<close>

definition findTaskByTurn :: "folder_scope \<Rightarrow> string \<Rightarrow> sf_state \<Rightarrow> (folder_identity \<times> string) option" where
  "findTaskByTurn sc turn s =
    (case find (\<lambda>x. codexTurnId x = Some turn) (jvalues (tasks s)) of
       None \<Rightarrow> None
     | Some x \<Rightarrow>
       Some (\<lparr>scTenant = scTenant sc, scOrganization = scOrganization sc, scWorkspace = scWorkspace sc,
              idPrincipal = taskPrincipalId x\<rparr>, taskId x))"

definition setTask :: "string \<Rightarrow> task_reservation \<Rightarrow> sf_state \<Rightarrow> sf_state" where
  "setTask tid x s =
    s\<lparr>tasks := update_first (\<lambda>(k, y). taskId y = tid) (\<lambda>(k, y). (k, x)) (tasks s)\<rparr>"

definition bindTaskRuntime :: "string \<Rightarrow> string \<Rightarrow> string \<Rightarrow> string \<Rightarrow> string option \<Rightarrow> string option \<Rightarrow> sf_state \<Rightarrow>
    task_reservation sf_outcome" where
  "bindTaskRuntime tid run turn work admission credit s =
    (case find (\<lambda>x. taskId x = tid) (jvalues (tasks s)) of
       None \<Rightarrow> (Inl TASK_NOT_FOUND, s)
     | Some x \<Rightarrow>
       (let x' = x\<lparr>runId := nullish (runId x) (Some run), codexTurnId := nullish (codexTurnId x) (Some turn),
                   upstreamWorkId := nullish (upstreamWorkId x) (Some work),
                   admissionDecisionId := nullish (admissionDecisionId x) admission,
                   creditReservationId := nullish (creditReservationId x) credit, taskStatus := TRunning\<rparr>
        in (Inr x', setTask tid x' s)))"

definition settleTask :: "string \<Rightarrow> task_status \<Rightarrow> string option \<Rightarrow> string option \<Rightarrow> string option \<Rightarrow> sf_state \<Rightarrow>
    task_reservation sf_outcome" where
  "settleTask tid st usage credit settlement s =
    (case find (\<lambda>x. taskId x = tid) (jvalues (tasks s)) of
       None \<Rightarrow> (Inl TASK_NOT_FOUND, s)
     | Some x \<Rightarrow>
       (let existing = (if truthy settlement then map_of (billingSettlements s) (the settlement) else None) in
        if truthy existing \<and> existing \<noteq> Some (taskId x) then (Inl BILLING_SETTLEMENT_CONFLICT, s)
        else
          (let s1 = (if truthy settlement \<and> \<not> truthy existing
                     then s\<lparr>billingSettlements :=
                            AList.update (the settlement) (taskId x) (billingSettlements s)\<rparr> else s);
               x' = x\<lparr>usageDedupeKey := nullish (usageDedupeKey x) usage,
                      creditReservationId := nullish (creditReservationId x) credit,
                      billingSettlementId := nullish (billingSettlementId x) settlement, taskStatus := st\<rparr>
           in (Inr x', setTask tid x' s1))))"

definition reserveApprovalResolution :: "folder_identity \<Rightarrow> string \<Rightarrow> string \<Rightarrow> nat \<Rightarrow> string \<Rightarrow> sf_state \<Rightarrow>
    (string \<times> bool) sf_outcome" where
  "reserveApprovalResolution who fid approval expected event s =
    (case getFolder who fid CApproval s of
       (Inl err, s1) \<Rightarrow> (Inl err, s1)
     | (Inr f, s1) \<Rightarrow>
       (let key = approval @ '':'' @ show_nat expected;
            current = map_of (approvalSettlements s1) key
        in if truthy current then (Inr (the current, False), s1)
           else (Inr (event, True),
                 s1\<lparr>approvalSettlements := AList.update key event (approvalSettlements s1)\<rparr>)))"

definition getApprovalResolution :: "string \<Rightarrow> sf_state \<Rightarrow> string option" where
  "getApprovalResolution approval s =
    map_option snd (find (\<lambda>(k, v). prefix (approval @ '':'') k) (approvalSettlements s))"

definition onAccessChanged :: "nat \<Rightarrow> sf_state \<Rightarrow> sf_state" where
  "onAccessChanged l s = s\<lparr>listeners := (if l \<in> set (listeners s) then listeners s else listeners s @ [l])\<rparr>"

definition removeListener :: "nat \<Rightarrow> sf_state \<Rightarrow> sf_state" where
  "removeListener l s = s\<lparr>listeners := filter (\<lambda>x. x \<noteq> l) (listeners s)\<rparr>"

subsection \<open>One step of the service\<close>

datatype sf_event =
    CreateFolder folder_identity string instant
  | DeleteFolder folder_identity string instant
  | GetFolder folder_identity string capability
  | Role folder_identity string
  | ListMembers folder_identity string
  | CreateInvitation folder_identity string folder_role int instant
  | ListInvitations folder_identity string instant
  | AcceptInvitation folder_identity string instant
  | RevokeInvitation folder_identity string string nat instant
  | ChangeRole folder_identity string string folder_role nat instant
  | RevokeMembership folder_identity string string nat instant
  | TransferOwnership folder_identity string string nat folder_role instant
  | BindResource folder_identity string resource_type string instant
  | MoveResource folder_identity "string option" string resource_type string nat instant
  | AuthorizeResource folder_identity resource_type string capability
  | RecordExport folder_identity string "string option"
  | ListFolderAudit folder_identity string
  | ReserveTask folder_identity string string string string
  | GetTask folder_identity string string
  | BindTaskRuntime string string string string "string option" "string option"
  | SettleTask string task_status "string option" "string option" "string option"
  | ReserveApproval folder_identity string string nat string
  | Listen nat
  | Unlisten nat

fun sf_exec :: "js_env \<Rightarrow> sf_event \<Rightarrow> sf_state \<Rightarrow> sf_state" where
  "sf_exec e (CreateFolder who n t) s = snd (createFolder e who n t s)"
| "sf_exec e (DeleteFolder who f t) s = snd (deleteFolder e who f t s)"
| "sf_exec e (GetFolder who f c) s = snd (getFolder who f c s)"
| "sf_exec e (Role who f) s = snd (role_cached who f s)"
| "sf_exec e (ListMembers who f) s = snd (listMembers who f s)"
| "sf_exec e (CreateInvitation who f r n t) s = snd (createInvitation e who f r n t s)"
| "sf_exec e (ListInvitations who f t) s = snd (listInvitations who f t s)"
| "sf_exec e (AcceptInvitation who tok t) s = snd (acceptInvitation e who tok t s)"
| "sf_exec e (RevokeInvitation who f i v t) s = snd (revokeInvitation e who f i v t s)"
| "sf_exec e (ChangeRole who f p r v t) s = snd (changeRole e who f p r v t s)"
| "sf_exec e (RevokeMembership who f p v t) s = snd (revokeMembership e who f p v t s)"
| "sf_exec e (TransferOwnership who f p v r t) s = snd (transferOwnership e who f p v r t s)"
| "sf_exec e (BindResource who f rt rid t) s = snd (bindResource who f rt rid t s)"
| "sf_exec e (MoveResource who src f rt rid v t) s = snd (moveResource e who src f rt rid v t s)"
| "sf_exec e (AuthorizeResource who rt rid c) s = snd (authorizeResource who rt rid c s)"
| "sf_exec e (RecordExport who f c) s = snd (recordExport e who f c s)"
| "sf_exec e (ListFolderAudit who f) s = snd (listFolderAudit who f s)"
| "sf_exec e (ReserveTask who f ses idem h) s = snd (reserveTask e who f ses idem h s)"
| "sf_exec e (GetTask who ses idem) s = snd (getTask who ses idem s)"
| "sf_exec e (BindTaskRuntime tid r c u a b) s = snd (bindTaskRuntime tid r c u a b s)"
| "sf_exec e (SettleTask tid st u c b) s = snd (settleTask tid st u c b s)"
| "sf_exec e (ReserveApproval who f a v ev) s = snd (reserveApprovalResolution who f a v ev s)"
| "sf_exec e (Listen l) s = onAccessChanged l s"
| "sf_exec e (Unlisten l) s = removeListener l s"

inductive sf_step :: "js_env \<Rightarrow> sf_state \<Rightarrow> sf_state \<Rightarrow> bool" for e where
  sf_stepI: "sf_step e s (sf_exec e ev s)"

inductive_cases sf_stepE: "sf_step e s t"

end
