(* ===== verification/Shared_Folders_Inv.thy ===== *)
theory Shared_Folders_Inv
  imports Shared_Folders
begin

section \<open>Shared folders: the invariant\<close>

text \<open>
  The string keys are injective (the scope part is JSON text, folder ids contain no colon), every entry
  of the private maps is stored under its own key, the authorization cache agrees with the memberships
  whenever its epoch is the folder's, and the digest index points to the invitation with that digest.
  One case rule per operation, and the proof that every operation keeps the invariant.
\<close>

subsection \<open>Keys\<close>

definition same_scope :: "'a folder_scope_scheme \<Rightarrow> 'b folder_scope_scheme \<Rightarrow> bool" where
  "same_scope a b \<longleftrightarrow> scTenant a = scTenant b \<and> scOrganization a = scOrganization b \<and> scWorkspace a = scWorkspace b"

lemma same_scope_refl [simp]: "same_scope a a"
  by (simp add: same_scope_def)

lemma same_scope_sym: "same_scope a b \<Longrightarrow> same_scope b a"
  by (simp add: same_scope_def)

lemma same_scope_trans: "same_scope a b \<Longrightarrow> same_scope b c \<Longrightarrow> same_scope a c"
  by (simp add: same_scope_def)

lemma scopeKey_cong: "same_scope a b \<Longrightarrow> scopeKey a = scopeKey b"
  by (simp add: same_scope_def scopeKey_def)

lemma folderKey_cong: "same_scope a b \<Longrightarrow> folderKey a = folderKey b"
  by (simp add: fun_eq_iff folderKey_def scopeKey_cong)

lemma memberKey_cong: "same_scope a b \<Longrightarrow> memberKey a = memberKey b"
  by (simp add: fun_eq_iff memberKey_def folderKey_cong)

lemma scopeKey_append_inj:
  "scopeKey a @ CHR '':'' # x = scopeKey b @ CHR '':'' # y \<longleftrightarrow> same_scope a b \<and> x = y"
proof
  assume h: "scopeKey a @ CHR '':'' # x = scopeKey b @ CHR '':'' # y"
  have v: "ends_value (CHR '':'' # z)" for z
    by (simp add: ends_value_def) code_simp
  from stringify_append_inj [OF h [unfolded scopeKey_def] v v] show "same_scope a b \<and> x = y"
    by (simp add: same_scope_def)
qed (auto simp: scopeKey_cong)

lemma scopeKey_inj: "scopeKey a = scopeKey b \<longleftrightarrow> same_scope a b"
  using scopeKey_append_inj [of a "[]" b "[]"] by simp

lemma folderKey_inj [simp]: "folderKey a f = folderKey b g \<longleftrightarrow> same_scope a b \<and> f = g"
  by (simp add: folderKey_def scopeKey_append_inj)

definition colon_free :: "string \<Rightarrow> bool" where
  "colon_free x \<longleftrightarrow> CHR '':'' \<notin> set x"

lemma split_at_colon:
  "colon_free f \<Longrightarrow> colon_free g \<Longrightarrow> f @ CHR '':'' # x = g @ CHR '':'' # y \<longleftrightarrow> f = g \<and> x = y"
  unfolding colon_free_def
proof (induction f arbitrary: g)
  case Nil
  then show ?case by (cases g) auto
next
  case (Cons c f)
  then show ?case by (cases g) auto
qed

lemma memberKey_inj:
  "colon_free f \<Longrightarrow> colon_free g \<Longrightarrow> memberKey a f p = memberKey b g q \<longleftrightarrow> same_scope a b \<and> f = g \<and> p = q"
  by (auto simp: memberKey_def folderKey_def scopeKey_append_inj split_at_colon)

lemma member_prefix:
  assumes "colon_free f" "colon_free g"
  shows "prefix (folderKey a f @ '':'') (memberKey b g p) \<longleftrightarrow> same_scope a b \<and> f = g"
proof
  assume "prefix (folderKey a f @ '':'') (memberKey b g p)"
  then obtain z where "memberKey a f z = memberKey b g p" by (auto simp: prefix_def memberKey_def)
  with assms show "same_scope a b \<and> f = g" by (simp add: memberKey_inj)
qed (auto simp: memberKey_def folderKey_cong)

lemma member_prefix_same [simp]: "prefix (folderKey a f @ '':'') (memberKey a f p)"
  by (simp add: memberKey_def)

subsection \<open>The invariant\<close>

definition good_env :: "js_env \<Rightarrow> bool" where
  "good_env e \<longleftrightarrow> inj (uuid e) \<and> (\<forall>n. colon_free (uuid e n))"

definition folder_known :: "'a folder_scope_scheme \<Rightarrow> string \<Rightarrow> sf_state \<Rightarrow> bool" where
  "folder_known sc fid s \<longleftrightarrow> map_of (folders s) (folderKey sc fid) \<noteq> None"

definition folders_ok :: "js_env \<Rightarrow> sf_state \<Rightarrow> bool" where
  "folders_ok e s \<longleftrightarrow> (\<forall>k f. map_of (folders s) k = Some f \<longrightarrow>
     k = folderKey f (folderId f) \<and> (\<exists>i < sfDraws s. folderId f = ''fld_'' @ uuid e i))"

definition memberships_ok :: "sf_state \<Rightarrow> bool" where
  "memberships_ok s \<longleftrightarrow> distinct (map fst (memberships s)) \<and> (\<forall>k m. map_of (memberships s) k = Some m \<longrightarrow>
     k = memberKey m (memFolderId m) (memPrincipalId m) \<and> folder_known m (memFolderId m) s)"

definition cache_ok :: "sf_state \<Rightarrow> bool" where
  "cache_ok s \<longleftrightarrow> (\<forall>k ep r. map_of (authorizationCache s) k = Some (ep, r) \<longrightarrow>
     (\<exists>sc fid p f. k = memberKey sc fid p \<and> map_of (folders s) (folderKey (sc :: folder_scope) fid) = Some f
       \<and> ep \<le> cacheEpoch f \<and> (ep = cacheEpoch f \<longrightarrow> r = map_option memRole (activeMembership sc p fid s))))"

definition invitations_ok :: "js_env \<Rightarrow> sf_state \<Rightarrow> bool" where
  "invitations_ok e s \<longleftrightarrow>
    (\<forall>k i. map_of (invitations s) k = Some i \<longrightarrow> invitationId i = k \<and> folder_known i (invFolderId i) s
      \<and> (\<exists>j < sfDraws s. k = ''inv_'' @ uuid e j))
    \<and> (\<forall>d k. map_of (invitationByDigest s) d = Some k \<longrightarrow>
      (\<exists>i. map_of (invitations s) k = Some i \<and> tokenDigest i = d))"

definition sf_inv :: "js_env \<Rightarrow> sf_state \<Rightarrow> bool" where
  "sf_inv e s \<longleftrightarrow> folders_ok e s \<and> memberships_ok s \<and> cache_ok s \<and> invitations_ok e s"

lemma sf_inv_initial: "sf_inv e sf_initial"
  by (simp add: sf_inv_def sf_initial_def folders_ok_def memberships_ok_def cache_ok_def invitations_ok_def)

definition core_same :: "sf_state \<Rightarrow> sf_state \<Rightarrow> bool" where
  "core_same s t \<longleftrightarrow> folders t = folders s \<and> memberships t = memberships s
    \<and> authorizationCache t = authorizationCache s \<and> invitations t = invitations s
    \<and> invitationByDigest t = invitationByDigest s \<and> sfDraws s \<le> sfDraws t"

lemma activeMembership_cong:
  "memberships t = memberships s \<Longrightarrow> activeMembership sc p fid t = activeMembership sc p fid s"
  by (simp add: activeMembership_def)

lemma activeMembership_scope: "same_scope a b \<Longrightarrow> activeMembership a = activeMembership b"
  by (simp add: fun_eq_iff activeMembership_def memberKey_cong)

lemma folders_ok_mono:
  "folders_ok e s \<Longrightarrow> folders t = folders s \<Longrightarrow> sfDraws s \<le> sfDraws t \<Longrightarrow> folders_ok e t"
  unfolding folders_ok_def using less_le_trans by auto blast

lemma invitations_ok_mono:
  assumes "invitations_ok e s" "invitations t = invitations s" "invitationByDigest t = invitationByDigest s"
    and "\<And>sc fid. folder_known (sc :: stored_invitation) fid s \<Longrightarrow> folder_known sc fid t" and "sfDraws s \<le> sfDraws t"
  shows "invitations_ok e t"
  unfolding invitations_ok_def
proof (intro conjI allI impI)
  show "\<exists>i. map_of (invitations t) k = Some i \<and> tokenDigest i = d"
    if "map_of (invitationByDigest t) d = Some k" for d k
    using assms(1-3) that unfolding invitations_ok_def by simp
  fix k i assume "map_of (invitations t) k = Some i"
  then have h: "invitationId i = k" "folder_known i (invFolderId i) s" "\<exists>j < sfDraws s. k = ''inv_'' @ uuid e j"
    using assms(1,2) unfolding invitations_ok_def by simp_all
  then show "invitationId i = k" "folder_known i (invFolderId i) t" using assms(4) by simp_all
  show "\<exists>j < sfDraws t. k = ''inv_'' @ uuid e j" using h(3) assms(5) less_le_trans by blast
qed

lemma sf_inv_core:
  assumes "sf_inv e s" "core_same s t" shows "sf_inv e t"
proof -
  have "memberships_ok t" "cache_ok t"
    using assms unfolding sf_inv_def core_same_def memberships_ok_def cache_ok_def folder_known_def
      activeMembership_def by simp_all
  moreover have "folders_ok e t"
    using assms by (intro folders_ok_mono [of e s t]) (simp_all add: sf_inv_def core_same_def)
  moreover have "invitations_ok e t"
    using assms by (intro invitations_ok_mono [of e s t]) (simp_all add: sf_inv_def core_same_def folder_known_def)
  ultimately show ?thesis by (simp add: sf_inv_def)
qed

lemma known_colon_free:
  assumes "good_env e" "folders_ok e s" "map_of (folders s) (folderKey sc fid) = Some f"
  shows "colon_free fid" "folderId f = fid" "same_scope sc f"
proof -
  have k: "folderKey sc fid = folderKey f (folderId f)" and "\<exists>i. folderId f = ''fld_'' @ uuid e i"
    using assms(2,3) unfolding folders_ok_def by blast+
  then show "folderId f = fid" "same_scope sc f" by simp_all
  then show "colon_free fid"
    using assms(1) \<open>\<exists>i. _\<close> by (auto simp: good_env_def colon_free_def)
qed

subsection \<open>Roles through the cache\<close>

definition effectiveRole :: "folder_identity \<Rightarrow> string \<Rightarrow> sf_state \<Rightarrow> folder_role option" where
  "effectiveRole who fid s =
    (case map_of (folders s) (folderKey who fid) of
       None \<Rightarrow> None
     | Some f \<Rightarrow> if archivedAt f = None then storedRole who fid s else None)"

lemma cache_entry:
  assumes "good_env e" "sf_inv e s" "map_of (folders s) (folderKey who fid) = Some f"
    and "map_of (authorizationCache s) (memberKey who fid p) = Some (ep, r)"
  shows "ep \<le> cacheEpoch f" and "ep = cacheEpoch f \<Longrightarrow> r = map_option memRole (activeMembership who p fid s)"
proof -
  obtain sc g q h where h: "memberKey who fid p = memberKey sc g q"
    "map_of (folders s) (folderKey (sc :: folder_scope) g) = Some h" "ep \<le> cacheEpoch h"
    "ep = cacheEpoch h \<longrightarrow> r = map_option memRole (activeMembership sc q g s)"
    using assms(2,4) unfolding sf_inv_def cache_ok_def by blast
  have "colon_free fid" "colon_free g"
    using known_colon_free(1) [OF assms(1)] assms(2,3) h(2) by (auto simp: sf_inv_def)
  then have eq: "same_scope who sc" "fid = g" "p = q" using h(1) by (auto simp: memberKey_inj)
  then have "h = f" using assms(3) h(2) folderKey_cong [OF eq(1)] by simp
  then show "ep \<le> cacheEpoch f" "ep = cacheEpoch f \<Longrightarrow> r = map_option memRole (activeMembership who p fid s)"
    using h(3,4) eq activeMembership_scope [OF eq(1)] by auto
qed

lemma role_cached_cases:
  assumes "good_env e" "sf_inv e s"
  obtains c where "role_cached who fid s = (effectiveRole who fid s, s\<lparr>authorizationCache := c\<rparr>)"
    "sf_inv e (s\<lparr>authorizationCache := c\<rparr>)"
    "\<And>k. map_of c k = map_of (authorizationCache s) k \<or> k = memberKey who fid (idPrincipal who)"
proof -
  let ?k = "memberKey who fid (idPrincipal who)"
  have same: "\<exists>c. (r, s) = (r, s\<lparr>authorizationCache := c\<rparr>) \<and> sf_inv e (s\<lparr>authorizationCache := c\<rparr>)
    \<and> (\<forall>k. map_of c k = map_of (authorizationCache s) k \<or> k = ?k)" for r :: "folder_role option"
    using assms(2) by (intro exI [of _ "authorizationCache s"]) simp
  have "\<exists>c. role_cached who fid s = (effectiveRole who fid s, s\<lparr>authorizationCache := c\<rparr>)
    \<and> sf_inv e (s\<lparr>authorizationCache := c\<rparr>) \<and> (\<forall>k. map_of c k = map_of (authorizationCache s) k \<or> k = ?k)"
  proof (cases "\<exists>f. map_of (folders s) (folderKey who fid) = Some f \<and> archivedAt f = None")
    case False
    then have "role_cached who fid s = (effectiveRole who fid s, s)"
      by (auto simp: role_cached_def effectiveRole_def split: option.splits)
    then show ?thesis using same by simp
  next
    case True
    then obtain f where f: "map_of (folders s) (folderKey who fid) = Some f" "archivedAt f = None" by blast
    let ?c = "AList.update ?k (cacheEpoch f, storedRole who fid s) (authorizationCache s)"
    have eff: "effectiveRole who fid s = storedRole who fid s" by (simp add: effectiveRole_def f)
    show ?thesis
    proof (cases "\<exists>r. map_of (authorizationCache s) ?k = Some (cacheEpoch f, r)")
      case True
      then obtain r where r: "map_of (authorizationCache s) ?k = Some (cacheEpoch f, r)" by blast
      then have "role_cached who fid s = (r, s)" by (simp add: role_cached_def f Let_def)
      moreover have "r = effectiveRole who fid s"
        using cache_entry(2) [OF assms f(1) r] by (simp add: eff storedRole_def)
      ultimately show ?thesis using same by simp
    next
      case False
      then have "role_cached who fid s = (storedRole who fid s, s\<lparr>authorizationCache := ?c\<rparr>)"
        by (auto simp: role_cached_def f Let_def split: option.splits)
      moreover have "cache_ok (s\<lparr>authorizationCache := ?c\<rparr>)"
        unfolding cache_ok_def
      proof (intro allI impI)
        fix k ep r assume h: "map_of (authorizationCache (s\<lparr>authorizationCache := ?c\<rparr>)) k = Some (ep, r)"
        show "\<exists>sc fid p f. k = memberKey sc fid p
            \<and> map_of (folders (s\<lparr>authorizationCache := ?c\<rparr>)) (folderKey (sc :: folder_scope) fid) = Some f
            \<and> ep \<le> cacheEpoch f \<and> (ep = cacheEpoch f \<longrightarrow>
              r = map_option memRole (activeMembership sc p fid (s\<lparr>authorizationCache := ?c\<rparr>)))"
        proof (cases "k = ?k")
          case True
          have sc: "same_scope who (folder_scope.truncate who)"
            by (simp add: same_scope_def folder_scope.defs)
          with h True show ?thesis
            by (intro exI [of _ "folder_scope.truncate who"] exI [of _ fid] exI [of _ "idPrincipal who"] exI [of _ f])
              (auto simp: f storedRole_def activeMembership_def memberKey_cong [OF sc] folderKey_cong [OF sc, symmetric])
        next
          case False
          with h have "map_of (authorizationCache s) k = Some (ep, r)" by simp
          with assms(2) show ?thesis unfolding sf_inv_def cache_ok_def activeMembership_def by simp
        qed
      qed
      then have "sf_inv e (s\<lparr>authorizationCache := ?c\<rparr>)"
        using assms(2)
        by (simp add: sf_inv_def folders_ok_def memberships_ok_def invitations_ok_def folder_known_def)
      ultimately show ?thesis using eff by (intro exI [of _ ?c]) auto
    qed
  qed
  then show ?thesis using that by blast
qed

lemma getFolder_cases:
  assumes "good_env e" "sf_inv e s"
  obtains (denied) err c where "getFolder who fid cap s = (Inl err, s\<lparr>authorizationCache := c\<rparr>)"
      "err \<in> {FOLDER_NOT_FOUND, FOLDER_ACCESS_DENIED}" "sf_inv e (s\<lparr>authorizationCache := c\<rparr>)"
      "\<And>r. effectiveRole who fid s = Some r \<Longrightarrow> \<not> folderRoleAllows r cap"
  | (ok) f r c where "getFolder who fid cap s = (Inr f, s\<lparr>authorizationCache := c\<rparr>)"
      "map_of (folders s) (folderKey who fid) = Some f" "archivedAt f = None"
      "storedRole who fid s = Some r" "folderRoleAllows r cap" "sf_inv e (s\<lparr>authorizationCache := c\<rparr>)"
proof (cases "map_of (folders s) (folderKey who fid)")
  case None
  then show ?thesis
    using assms(2) by (intro denied [of FOLDER_NOT_FOUND "authorizationCache s"])
      (auto simp: getFolder_def lookupFolder_def effectiveRole_def)
next
  case (Some f)
  obtain c where c: "role_cached who fid s = (effectiveRole who fid s, s\<lparr>authorizationCache := c\<rparr>)"
    "sf_inv e (s\<lparr>authorizationCache := c\<rparr>)"
    using role_cached_cases [OF assms] by blast
  have eq: "getFolder who fid cap s = (case effectiveRole who fid s of
      None \<Rightarrow> (Inl FOLDER_ACCESS_DENIED, s\<lparr>authorizationCache := c\<rparr>)
    | Some r \<Rightarrow> if folderRoleAllows r cap then (Inr f, s\<lparr>authorizationCache := c\<rparr>)
                else (Inl FOLDER_ACCESS_DENIED, s\<lparr>authorizationCache := c\<rparr>))"
    using Some c(1) by (simp add: getFolder_def lookupFolder_def split: option.split)
  show ?thesis
  proof (cases "\<exists>r. effectiveRole who fid s = Some r \<and> folderRoleAllows r cap")
    case True
    then obtain r where r: "effectiveRole who fid s = Some r" "folderRoleAllows r cap" by blast
    then have "archivedAt f = None" "storedRole who fid s = Some r"
      using Some by (auto simp: effectiveRole_def split: if_splits)
    then show ?thesis using r eq c(2) Some by (intro ok [of f c r]) auto
  next
    case False
    then have "getFolder who fid cap s = (Inl FOLDER_ACCESS_DENIED, s\<lparr>authorizationCache := c\<rparr>)"
      using eq by (auto split: option.splits)
    then show ?thesis using False c(2) by (intro denied [of FOLDER_ACCESS_DENIED c]) auto
  qed
qed

subsection \<open>Changing memberships\<close>

text \<open>Storing memberships of one folder and bumping it afterwards restores the invariant.\<close>

definition bump_effect :: "'a folder_scope_scheme \<Rightarrow> string \<Rightarrow> change_reason \<Rightarrow> string option \<Rightarrow> instant \<Rightarrow>
    shared_folder \<Rightarrow> sf_state \<Rightarrow> sf_state" where
  "bump_effect sc fid reason affected t f s =
    s\<lparr>folders := AList.update (folderKey sc fid) (bumped t f) (folders s),
      authorizationCache := filter (\<lambda>(k, c). \<not> prefix (folderKey sc fid @ '':'') k) (authorizationCache s),
      delivered := delivered s @ map (\<lambda>l. (l, accessChanged (bumped t f) fid reason affected t)) (listeners s)\<rparr>"

lemma bump_known:
  "map_of (folders s) (folderKey sc fid) = Some f \<Longrightarrow>
   bump sc fid reason affected t s = (Inr (bumped t f), bump_effect sc fid reason affected t f s)"
  by (simp add: bump_def lookupFolder_def Let_def bump_effect_def)

lemma bumped_fields [simp]:
  "folderId (bumped t f) = folderId f" "scTenant (bumped t f) = scTenant f"
  "scOrganization (bumped t f) = scOrganization f" "scWorkspace (bumped t f) = scWorkspace f"
  "cacheEpoch (bumped t f) = Suc (cacheEpoch f)" "archivedAt (bumped t f) = archivedAt f"
  "folderVersion (bumped t f) = Suc (folderVersion f)"
  by (simp_all add: bumped_def)

lemma map_of_filter_keys: "map_of (filter (\<lambda>(k, v). P k) m) k = (if P k then map_of m k else None)"
  by (induction m) auto

lemma folder_known_update: "folder_known sc fid s \<Longrightarrow> folders t = AList.update k f (folders s) \<Longrightarrow> folder_known sc fid t"
  by (simp add: folder_known_def)

lemma sf_inv_bump:
  assumes env: "good_env e" and inv: "sf_inv e s" and f: "map_of (folders s) (folderKey sc fid) = Some f"
    and u: "folders u = folders s" "authorizationCache u = authorizationCache s" "invitations u = invitations s"
      "invitationByDigest u = invitationByDigest s" "sfDraws u = sfDraws s"
    and ms: "\<And>k. \<not> prefix (folderKey sc fid @ '':'') k \<Longrightarrow> map_of (memberships u) k = map_of (memberships s) k"
      "memberships_ok u"
  shows "sf_inv e (bump_effect sc fid reason affected t f u)"
proof -
  let ?t = "bump_effect sc fid reason affected t f u"
  note fk = known_colon_free [OF env _ f]
  have fo: "folders_ok e s" using inv by (simp add: sf_inv_def)
  have ft: "folders ?t = AList.update (folderKey sc fid) (bumped t f) (folders s)"
    by (simp add: bump_effect_def u)
  have kn: "folder_known a g s \<Longrightarrow> folder_known a g ?t" for a :: "'c folder_scope_scheme" and g
    using folder_known_update [OF _ ft] .
  have "folderKey sc fid = folderKey (bumped t f) fid"
    using fk(3) [OF fo] by (simp add: same_scope_def)
  then have "folders_ok e ?t"
    using fo fk(2) [OF fo] f by (auto simp: folders_ok_def ft bump_effect_def u)
  moreover have "memberships_ok ?t"
    using ms(2) kn unfolding memberships_ok_def by (simp add: bump_effect_def folder_known_def u)
  moreover have "cache_ok ?t"
    unfolding cache_ok_def
  proof (intro allI impI)
    fix k ep r assume "map_of (authorizationCache ?t) k = Some (ep, r)"
    then have h: "map_of (authorizationCache s) k = Some (ep, r)" "\<not> prefix (folderKey sc fid @ '':'') k"
      by (simp_all add: bump_effect_def u map_of_filter_keys split: if_splits)
    obtain a g p h' where a: "k = memberKey a g p" "map_of (folders s) (folderKey (a :: folder_scope) g) = Some h'"
      "ep \<le> cacheEpoch h'" "ep = cacheEpoch h' \<longrightarrow> r = map_option memRole (activeMembership a p g s)"
      using inv h(1) unfolding sf_inv_def cache_ok_def by blast
    have "folderKey a g \<noteq> folderKey sc fid"
    proof
      assume "folderKey a g = folderKey sc fid"
      then have "prefix (folderKey sc fid @ '':'') (memberKey a g p)" by (auto simp: memberKey_def folderKey_cong)
      with h(2) a(1) show False by simp
    qed
    then have "map_of (folders ?t) (folderKey a g) = Some h'" using a(2) by (auto simp: ft)
    moreover have "activeMembership a p g ?t = activeMembership a p g s"
      using ms(1) [OF h(2)] a(1) by (simp add: activeMembership_def bump_effect_def)
    ultimately show "\<exists>sc fid p f. k = memberKey sc fid p \<and> map_of (folders ?t) (folderKey (sc :: folder_scope) fid) = Some f
       \<and> ep \<le> cacheEpoch f \<and> (ep = cacheEpoch f \<longrightarrow> r = map_option memRole (activeMembership sc p fid ?t))"
      using a by metis
  qed
  moreover have "invitations_ok e ?t"
    using inv kn by (intro invitations_ok_mono [of e s ?t]) (simp_all add: sf_inv_def bump_effect_def u)
  ultimately show ?thesis by (simp add: sf_inv_def)
qed

subsection \<open>One lemma per operation\<close>

lemma appendFolderAudit_frame [simp]:
  "folders (appendFolderAudit e a f act out code subj rt rid corr s) = folders s"
  "memberships (appendFolderAudit e a f act out code subj rt rid corr s) = memberships s"
  "invitations (appendFolderAudit e a f act out code subj rt rid corr s) = invitations s"
  "invitationByDigest (appendFolderAudit e a f act out code subj rt rid corr s) = invitationByDigest s"
  "authorizationCache (appendFolderAudit e a f act out code subj rt rid corr s) = authorizationCache s"
  "bindings (appendFolderAudit e a f act out code subj rt rid corr s) = bindings s"
  "tasks (appendFolderAudit e a f act out code subj rt rid corr s) = tasks s"
  "billingSettlements (appendFolderAudit e a f act out code subj rt rid corr s) = billingSettlements s"
  "approvalSettlements (appendFolderAudit e a f act out code subj rt rid corr s) = approvalSettlements s"
  "sfDraws (appendFolderAudit e a f act out code subj rt rid corr s) = Suc (sfDraws s)"
  by (simp_all add: appendFolderAudit_def Let_def)

lemma sf_inv_append:
  "sf_inv e s \<Longrightarrow> sf_inv e (appendFolderAudit e' a f act out code subj rt rid corr s)"
  by (erule sf_inv_core) (simp add: core_same_def)

lemma memberships_ok_set:
  assumes "memberships_ok s" "k = memberKey m (memFolderId m) (memPrincipalId m)" "folder_known m (memFolderId m) s"
  shows "memberships_ok (s\<lparr>memberships := AList.update k m (memberships s)\<rparr>)"
  using assms unfolding memberships_ok_def folder_known_def by (auto simp: distinct_update)

lemma memberships_ok_cong:
  "memberships_ok s \<Longrightarrow> memberships t = memberships s \<Longrightarrow> folders t = folders s \<Longrightarrow> memberships_ok t"
  by (simp add: memberships_ok_def folder_known_def)

lemma activeMembership_stored:
  assumes "memberships_ok s" "activeMembership sc p fid s = Some m"
  shows "map_of (memberships s) (memberKey sc fid p) = Some m" "memStatus m = MActive"
    "memberKey sc fid p = memberKey m (memFolderId m) (memPrincipalId m)" "folder_known m (memFolderId m) s"
  using assms unfolding activeMembership_def memberships_ok_def by (auto split: option.splits if_splits)

text \<open>Changing the membership of \<open>target\<close>: the new record keeps scope, folder and principal.\<close>

definition same_member :: "folder_membership \<Rightarrow> folder_membership \<Rightarrow> bool" where
  "same_member m n \<longleftrightarrow> same_scope m n \<and> memFolderId n = memFolderId m \<and> memPrincipalId n = memPrincipalId m"

lemma sf_inv_member_bump:
  assumes env: "good_env e" and inv: "sf_inv e s" and f: "map_of (folders s) (folderKey who fid) = Some f"
    and m: "map_of (memberships s) (memberKey who fid p) = Some m" "same_member m n"
  shows "sf_inv e (bump_effect who fid reason affected t f
    (s\<lparr>memberships := AList.update (memberKey who fid p) n (memberships s)\<rparr>))"
proof (rule sf_inv_bump [OF env inv f])
  have "memberKey who fid p = memberKey m (memFolderId m) (memPrincipalId m)" "folder_known m (memFolderId m) s"
    using inv m(1) by (auto simp: sf_inv_def memberships_ok_def)
  then have "memberKey who fid p = memberKey n (memFolderId n) (memPrincipalId n)" "folder_known n (memFolderId n) s"
    using m(2) memberKey_cong [of m n] folderKey_cong [of m n] by (auto simp: same_member_def folder_known_def)
  then show "memberships_ok (s\<lparr>memberships := AList.update (memberKey who fid p) n (memberships s)\<rparr>)"
    using inv by (intro memberships_ok_set) (auto simp: sf_inv_def)
qed (auto simp: memberKey_def)

lemma sf_inv_getFolder: "good_env e \<Longrightarrow> sf_inv e s \<Longrightarrow> sf_inv e (snd (getFolder who fid cap s))"
  by (cases rule: getFolder_cases [of e s who fid cap]) auto

lemma sf_inv_role: "good_env e \<Longrightarrow> sf_inv e s \<Longrightarrow> sf_inv e (snd (role_cached who fid s))"
  using role_cached_cases [of e s who fid] by (metis snd_conv)

lemma cache_irrelevant [simp]:
  "activeMembership sc p fid (s\<lparr>authorizationCache := c\<rparr>) = activeMembership sc p fid s"
  "ownerCount sc fid (s\<lparr>authorizationCache := c\<rparr>) = ownerCount sc fid s"
  by (simp_all add: activeMembership_def ownerCount_def)

definition member_stored :: "js_env \<Rightarrow> folder_identity \<Rightarrow> string \<Rightarrow> string \<Rightarrow> folder_membership \<Rightarrow> change_reason \<Rightarrow>
    string \<Rightarrow> string \<Rightarrow> instant \<Rightarrow> shared_folder \<Rightarrow> sf_state \<Rightarrow> sf_state" where
  "member_stored e who fid target n reason act code t f s =
    appendFolderAudit e (idPrincipal who) (bumped t f) act FSuccess code (Some target) None None None
      (bump_effect who fid reason (Some target) t f
        (s\<lparr>memberships := AList.update (memberKey who fid target) n (memberships s)\<rparr>))"

lemma storeMembership_known:
  "map_of (folders s) (folderKey who fid) = Some f \<Longrightarrow>
   storeMembership e who fid target n reason act code t s =
     (Inr n, member_stored e who fid target n reason act code t f s)"
  by (simp add: storeMembership_def bump_known member_stored_def)

lemma changeRole_cases:
  assumes "good_env e0" "sf_inv e0 s"
  obtains (quiet) err c where "changeRole e who fid target r v t s = (Inl err, s\<lparr>authorizationCache := c\<rparr>)"
      "sf_inv e0 (s\<lparr>authorizationCache := c\<rparr>)" "err \<noteq> TypeError"
  | (changed) f c m where "map_of (folders s) (folderKey who fid) = Some f" "archivedAt f = None"
      "storedRole who fid s = Some Owner" "sf_inv e0 (s\<lparr>authorizationCache := c\<rparr>)"
      "activeMembership who target fid s = Some m" "memVersion m = v"
      "memRole m = Owner \<Longrightarrow> r \<noteq> Owner \<Longrightarrow> ownerCount who fid s \<noteq> 1"
      "changeRole e who fid target r v t s =
        (Inr (m\<lparr>memRole := r, memVersion := Suc (memVersion m), memUpdatedAt := t\<rparr>),
         member_stored e who fid target (m\<lparr>memRole := r, memVersion := Suc (memVersion m), memUpdatedAt := t\<rparr>)
           RRoleChanged ''membership.role_changed'' ''ROLE_CHANGED'' t f (s\<lparr>authorizationCache := c\<rparr>))"
  using assms
proof (cases rule: getFolder_cases [where who = who and fid = fid and cap = CManage])
  case (denied err c)
  then show ?thesis by (intro quiet [of err c]) (auto simp: changeRole_def)
next
  case (ok f q c)
  have own: "storedRole who fid s = Some Owner" using ok(4,5) by (auto simp: folderRoleAllows_def)
  show ?thesis
  proof (cases "activeMembership who target fid s")
    case None
    with ok show ?thesis by (intro quiet [of MEMBERSHIP_NOT_FOUND c]) (simp_all add: changeRole_def)
  next
    case (Some m)
    have st: "map_of (folders (s\<lparr>authorizationCache := c\<rparr>)) (folderKey who fid) = Some f" using ok(2) by simp
    show ?thesis
    proof (cases "memVersion m = v \<and> \<not> (memRole m = Owner \<and> r \<noteq> Owner \<and> ownerCount who fid s = 1)")
      case True
      with Some ok(1) show ?thesis
        by (intro changed [OF ok(2,3) own ok(6) Some]) (auto simp: changeRole_def storeMembership_known [OF st])
    next
      case False
      with Some ok(1,6) show ?thesis
        by (intro quiet [of "if memVersion m \<noteq> v then FOLDER_VERSION_CONFLICT else LAST_OWNER_PROTECTED" c])
          (auto simp: changeRole_def)
    qed
  qed
qed

lemma revokeMembership_cases:
  assumes "good_env e0" "sf_inv e0 s"
  obtains (quiet) err c where "revokeMembership e who fid target v t s = (Inl err, s\<lparr>authorizationCache := c\<rparr>)"
      "sf_inv e0 (s\<lparr>authorizationCache := c\<rparr>)" "err \<noteq> TypeError"
  | (changed) f c m where "map_of (folders s) (folderKey who fid) = Some f" "archivedAt f = None"
      "storedRole who fid s = Some Owner" "sf_inv e0 (s\<lparr>authorizationCache := c\<rparr>)"
      "activeMembership who target fid s = Some m" "memVersion m = v"
      "memRole m = Owner \<Longrightarrow> ownerCount who fid s \<noteq> 1"
      "revokeMembership e who fid target v t s =
        (Inr (m\<lparr>memStatus := MRevoked, memVersion := Suc (memVersion m), memUpdatedAt := t, memRevokedAt := Some t\<rparr>),
         member_stored e who fid target
           (m\<lparr>memStatus := MRevoked, memVersion := Suc (memVersion m), memUpdatedAt := t, memRevokedAt := Some t\<rparr>)
           RRevoked ''membership.revoked'' ''REVOKED'' t f (s\<lparr>authorizationCache := c\<rparr>))"
  using assms
proof (cases rule: getFolder_cases [where who = who and fid = fid and cap = CManage])
  case (denied err c)
  then show ?thesis by (intro quiet [of err c]) (auto simp: revokeMembership_def)
next
  case (ok f q c)
  have own: "storedRole who fid s = Some Owner" using ok(4,5) by (auto simp: folderRoleAllows_def)
  show ?thesis
  proof (cases "activeMembership who target fid s")
    case None
    with ok show ?thesis by (intro quiet [of MEMBERSHIP_NOT_FOUND c]) (simp_all add: revokeMembership_def)
  next
    case (Some m)
    have st: "map_of (folders (s\<lparr>authorizationCache := c\<rparr>)) (folderKey who fid) = Some f" using ok(2) by simp
    show ?thesis
    proof (cases "memVersion m = v \<and> \<not> (memRole m = Owner \<and> ownerCount who fid s = 1)")
      case True
      with Some ok(1) show ?thesis
        by (intro changed [OF ok(2,3) own ok(6) Some]) (auto simp: revokeMembership_def storeMembership_known [OF st])
    next
      case False
      with Some ok(1,6) show ?thesis
        by (intro quiet [of "if memVersion m \<noteq> v then FOLDER_VERSION_CONFLICT else LAST_OWNER_PROTECTED" c])
          (auto simp: revokeMembership_def)
    qed
  qed
qed

lemma sf_inv_member_stored:
  assumes "good_env e" "sf_inv e s" "map_of (folders s) (folderKey who fid) = Some f"
    and "activeMembership who target fid s = Some m" "same_member m n"
  shows "sf_inv e (member_stored e' who fid target n reason act code t f s)"
proof -
  have "memberships_ok s" using assms(2) by (simp add: sf_inv_def)
  from activeMembership_stored(1) [OF this assms(4)] show ?thesis
    unfolding member_stored_def by (intro sf_inv_append sf_inv_member_bump [OF assms(1-3) _ assms(5)])
qed

lemma sf_inv_member_ops:
  assumes "good_env e" "sf_inv e s"
  shows "sf_inv e (snd (changeRole e' who fid target r v t s))"
    and "sf_inv e (snd (revokeMembership e' who fid target v t s))"
proof -
  show "sf_inv e (snd (changeRole e' who fid target r v t s))"
    using assms
  proof (cases rule: changeRole_cases [where e = e' and who = who and fid = fid and target = target and r = r and v = v and t = t])
    case (changed f c m)
    then show ?thesis
      using sf_inv_member_stored [OF assms(1) changed(4), of who fid f target m]
      by (simp add: same_member_def same_scope_def)
  qed simp
  show "sf_inv e (snd (revokeMembership e' who fid target v t s))"
    using assms
  proof (cases rule: revokeMembership_cases [where e = e' and who = who and fid = fid and target = target and v = v and t = t])
    case (changed f c m)
    then show ?thesis
      using sf_inv_member_stored [OF assms(1) changed(4), of who fid f target m]
      by (simp add: same_member_def same_scope_def)
  qed simp
qed

lemma memberKey_same [simp]: "memberKey a f p = memberKey a f q \<longleftrightarrow> p = q"
  by (simp add: memberKey_def)

definition promoted :: "instant \<Rightarrow> folder_membership \<Rightarrow> folder_membership" where
  "promoted t m = m\<lparr>memRole := Owner, memVersion := Suc (memVersion m), memUpdatedAt := t\<rparr>"

definition demoted :: "instant \<Rightarrow> folder_membership \<Rightarrow> folder_membership" where
  "demoted t m = m\<lparr>memRole := Editor, memVersion := Suc (memVersion m), memUpdatedAt := t\<rparr>"

definition transferred :: "folder_identity \<Rightarrow> string \<Rightarrow> string \<Rightarrow> bool \<Rightarrow> instant \<Rightarrow> folder_membership \<Rightarrow> folder_membership \<Rightarrow>
    (string, folder_membership) jsmap \<Rightarrow> (string, folder_membership) jsmap" where
  "transferred who fid target demote t m a ms =
    (let ms1 = AList.update (memberKey who fid target) (promoted t m) ms
     in if demote then AList.update (memberKey who fid (idPrincipal who)) (demoted t a) ms1 else ms1)"

lemma transferOwnership_cases:
  assumes "good_env e0" "sf_inv e0 s"
  obtains (quiet) err c where "transferOwnership e who fid target v previous t s = (Inl err, s\<lparr>authorizationCache := c\<rparr>)"
      "sf_inv e0 (s\<lparr>authorizationCache := c\<rparr>)" "err \<noteq> TypeError"
  | (changed) f c m a where "map_of (folders s) (folderKey who fid) = Some f" "archivedAt f = None"
      "sf_inv e0 (s\<lparr>authorizationCache := c\<rparr>)" "folderVersion f = v"
      "activeMembership who target fid s = Some m"
      "activeMembership who (idPrincipal who) fid s = Some a" "memRole a = Owner"
      "\<exists>x. fst (transferOwnership e who fid target v previous t s) = Inr x"
      "snd (transferOwnership e who fid target v previous t s) =
        appendFolderAudit e (idPrincipal who) (bumped t f) ''ownership.transferred'' FSuccess ''TRANSFERRED''
          (Some target) None None None
          (bump_effect who fid ROwnershipTransferred (Some target) t f
            (s\<lparr>authorizationCache := c, memberships :=
               transferred who fid target (target \<noteq> idPrincipal who \<and> previous = Editor) t m a (memberships s)\<rparr>))"
  using assms
proof (cases rule: getFolder_cases [where who = who and fid = fid and cap = CManage])
  case (denied err c)
  then show ?thesis by (intro quiet [of err c]) (auto simp: transferOwnership_def)
next
  case (ok f q c)
  obtain a where a: "activeMembership who (idPrincipal who) fid s = Some a" "memRole a = Owner"
    using ok(4,5) by (auto simp: folderRoleAllows_def storedRole_def)
  then have as: "map_of (memberships s) (memberKey who fid (idPrincipal who)) = Some a"
    by (auto simp: activeMembership_def split: option.splits if_splits)
  show ?thesis
  proof (cases "folderVersion f = v \<and> activeMembership who target fid s \<noteq> None")
    case False
    with ok(1,6) show ?thesis
      by (intro quiet [of "if folderVersion f \<noteq> v then FOLDER_VERSION_CONFLICT else MEMBERSHIP_NOT_FOUND" c])
        (auto simp: transferOwnership_def)
  next
    case True
    then obtain m where m: "activeMembership who target fid s = Some m" by blast
    have st: "map_of (folders (s\<lparr>authorizationCache := c, memberships := ms\<rparr>)) (folderKey who fid) = Some f" for ms
      using ok(2) by simp
    show ?thesis
      by (rule changed [OF ok(2,3,6) _ m a])
        (use True m as ok(1) in \<open>auto simp: transferOwnership_def Let_def bump_known [OF st] transferred_def promoted_def demoted_def\<close>)
  qed
qed

lemma same_member_roles [simp]: "same_member m (promoted t m)" "same_member m (demoted t m)"
  by (simp_all add: same_member_def same_scope_def promoted_def demoted_def)

lemma memberships_ok_replace:
  assumes "memberships_ok s" "map_of (memberships s) k = Some m" "same_member m n"
  shows "memberships_ok (s\<lparr>memberships := AList.update k n (memberships s)\<rparr>)"
proof -
  have "k = memberKey m (memFolderId m) (memPrincipalId m)" "folder_known m (memFolderId m) s"
    using assms(1,2) by (auto simp: memberships_ok_def)
  then have "k = memberKey n (memFolderId n) (memPrincipalId n)" "folder_known n (memFolderId n) s"
    using assms(3) memberKey_cong [of m n] folderKey_cong [of m n] by (auto simp: same_member_def folder_known_def)
  then show ?thesis using assms(1) by (intro memberships_ok_set)
qed

lemma sf_inv_transferOwnership:
  assumes "good_env e" "sf_inv e s"
  shows "sf_inv e (snd (transferOwnership e' who fid target v previous t s))"
  using assms
proof (cases rule: transferOwnership_cases [where e = e' and who = who and fid = fid and target = target and v = v
      and previous = previous and t = t])
  case (changed f c m a)
  let ?s = "s\<lparr>authorizationCache := c\<rparr>" and ?d = "target \<noteq> idPrincipal who \<and> previous = Editor"
  have mo: "memberships_ok ?s" using changed(3) by (simp add: sf_inv_def)
  have st: "map_of (memberships ?s) (memberKey who fid target) = Some m"
    "map_of (memberships ?s) (memberKey who fid (idPrincipal who)) = Some a"
    using activeMembership_stored(1) [OF mo] changed(5,6) by simp_all
  have "memberships_ok (?s\<lparr>memberships := transferred who fid target ?d t m a (memberships s)\<rparr>)"
  proof (cases ?d)
    case True
    have "memberships_ok (?s\<lparr>memberships := AList.update (memberKey who fid target) (promoted t m) (memberships s)\<rparr>)"
      using memberships_ok_replace [OF mo st(1), of "promoted t m"] by simp
    from memberships_ok_replace [OF this, of "memberKey who fid (idPrincipal who)" a "demoted t a"]
    show ?thesis using True st(2) by (auto simp: transferred_def)
  next
    case False
    then show ?thesis using memberships_ok_replace [OF mo st(1), of "promoted t m"] by (auto simp: transferred_def Let_def)
  qed
  then show ?thesis
    unfolding changed(9)
    by (intro sf_inv_append sf_inv_bump [OF assms(1) changed(3), of who fid f])
      (auto simp: changed(1) transferred_def Let_def memberKey_def)
qed simp

text \<open>Accepting an invitation.\<close>

lemma expireInvitation_pending: "invStatus (expireInvitation t i) = IPending \<Longrightarrow> expireInvitation t i = i"
  by (auto simp: expireInvitation_def split: if_splits)

lemma expireInvitation_fields [simp]:
  "scTenant (expireInvitation t i) = scTenant i" "scOrganization (expireInvitation t i) = scOrganization i"
  "scWorkspace (expireInvitation t i) = scWorkspace i" "invFolderId (expireInvitation t i) = invFolderId i"
  "invitationId (expireInvitation t i) = invitationId i" "tokenDigest (expireInvitation t i) = tokenDigest i"
  "acceptedByPrincipalId (expireInvitation t i) = acceptedByPrincipalId i" "invRole (expireInvitation t i) = invRole i"
  by (simp_all add: expireInvitation_def)

definition accepted_invitation :: "folder_identity \<Rightarrow> instant \<Rightarrow> stored_invitation \<Rightarrow> stored_invitation" where
  "accepted_invitation who t i = i\<lparr>invStatus := IAccepted, acceptedByPrincipalId := Some (idPrincipal who),
     acceptedAt := Some t, invUpdatedAt := t, invVersion := Suc (invVersion i)\<rparr>"

lemma acceptInvitation_cases:
  assumes "sf_inv e0 s"
  obtains (refused) err where "acceptInvitation e who tok t s = (Inl err, s)" "err \<noteq> TypeError"
  | (looked) iid i where "map_of (invitationByDigest s) (sha256 e tok) = Some iid"
      "map_of (invitations s) iid = Some i" "same_scope i who"
      "invStatus (expireInvitation t i) \<noteq> IPending"
      "\<And>p m. fst (acceptInvitation e who tok t s) = Inr (p, m, False) \<Longrightarrow> False"
      "fst (acceptInvitation e who tok t s) \<noteq> Inl TypeError"
      "\<And>x. fst (acceptInvitation e who tok t s) = Inr x \<Longrightarrow>
        invStatus i = IAccepted \<and> acceptedByPrincipalId i = Some (idPrincipal who)"
      "snd (acceptInvitation e who tok t s) = s\<lparr>invitations := AList.update iid (expireInvitation t i) (invitations s)\<rparr>"
  | (accepted) iid i f where "map_of (invitationByDigest s) (sha256 e tok) = Some iid"
      "map_of (invitations s) iid = Some i" "same_scope i who" "invStatus i = IPending" "t < invExpiresAt i"
      "map_of (folders s) (folderKey who (invFolderId i)) = Some f"
      "acceptInvitation e who tok t s =
        (Inr (publicInvitation (accepted_invitation who t i),
              acceptedMembership who i (map_of (memberships s) (memberKey who (invFolderId i) (idPrincipal who))) t, False),
         appendFolderAudit e (idPrincipal who) (bumped t f) ''invitation.accepted'' FSuccess ''ACCEPTED''
           (Some (idPrincipal who)) None None None
           (bump_effect who (invFolderId i) RAccepted (Some (idPrincipal who)) t f
             (s\<lparr>invitations := AList.update iid (accepted_invitation who t i) (invitations s),
                memberships := AList.update (memberKey who (invFolderId i) (idPrincipal who))
                  (acceptedMembership who i (map_of (memberships s) (memberKey who (invFolderId i) (idPrincipal who))) t)
                  (memberships s)\<rparr>)))"
proof (cases "truthy (map_of (invitationByDigest s) (sha256 e tok))")
  case False
  then show ?thesis by (intro refused [of INVITATION_INVALID]) (simp_all add: acceptInvitation_def)
next
  case True
  then obtain iid where iid: "map_of (invitationByDigest s) (sha256 e tok) = Some iid" "iid \<noteq> []"
    by (auto simp: truthy_iff)
  then obtain i where i: "map_of (invitations s) iid = Some i"
    using assms unfolding sf_inv_def invitations_ok_def by blast
  show ?thesis
  proof (cases "same_scope i who")
    case False
    then show ?thesis
      using iid i by (intro refused [of INVITATION_SCOPE_MISMATCH]) (simp_all add: acceptInvitation_def scopeKey_inj)
  next
    case sc: True
    let ?i = "expireInvitation t i" and ?k = "memberKey who (invFolderId i) (idPrincipal who)"
    let ?s1 = "s\<lparr>invitations := AList.update iid ?i (invitations s)\<rparr>"
    have eq: "acceptInvitation e who tok t s =
      (if \<exists>m. map_of (memberships s) ?k = Some m \<and> invStatus ?i = IAccepted
          \<and> acceptedByPrincipalId i = Some (idPrincipal who) \<and> memStatus m = MActive
       then (Inr (publicInvitation ?i, the (map_of (memberships s) ?k), True), ?s1)
       else acceptPending e who iid ?i t ?s1)"
      using iid i sc by (auto simp: acceptInvitation_def Let_def scopeKey_inj split: option.split)
    show ?thesis
    proof (cases "invStatus ?i = IPending")
      case False
      then have "acceptInvitation e who tok t s =
        (if \<exists>m. map_of (memberships s) ?k = Some m \<and> invStatus ?i = IAccepted
          \<and> acceptedByPrincipalId i = Some (idPrincipal who) \<and> memStatus m = MActive
         then (Inr (publicInvitation ?i, the (map_of (memberships s) ?k), True), ?s1)
         else (Inl (INVITATION_STATUS (invStatus ?i)), ?s1))"
        unfolding eq by (auto simp: acceptPending_def)
      moreover have "invStatus ?i = IAccepted \<Longrightarrow> invStatus i = IAccepted"
        by (auto simp: expireInvitation_def split: if_splits)
      ultimately show ?thesis using False by (intro looked [OF iid(1) i sc]) (auto split: if_splits)
    next
      case True
      note ei = expireInvitation_pending [OF True]
      have s1: "?s1 = s" using i by (simp add: ei AList.update_triv)
      have p: "invStatus i = IPending" using True ei by simp
      have exp: "t < invExpiresAt i" using True by (auto simp: expireInvitation_def split: if_splits)
      have "folder_known i (invFolderId i) s" using assms i by (auto simp: sf_inv_def invitations_ok_def)
      then obtain f where f: "map_of (folders s) (folderKey who (invFolderId i)) = Some f"
        using folderKey_cong [OF sc] by (auto simp: folder_known_def)
      then have st: "map_of (folders (s\<lparr>invitations := x, memberships := y\<rparr>)) (folderKey who (invFolderId i)) = Some f" for x y
        by simp
      show ?thesis
        by (rule accepted [OF iid(1) i sc p exp f])
          (simp add: eq ei s1 p acceptPending_def Let_def bump_known [OF st] accepted_invitation_def)
    qed
  qed
qed


lemma same_scope_acceptedMembership [simp]:
  "memFolderId (acceptedMembership who i x t) = invFolderId i"
  "memPrincipalId (acceptedMembership who i x t) = idPrincipal who"
  "memRole (acceptedMembership who i x t) = invRole i" "memStatus (acceptedMembership who i x t) = MActive"
  "same_scope (acceptedMembership who i x t) who"
  by (simp_all add: acceptedMembership_def same_scope_def)

lemma invitations_ok_set:
  assumes "invitations_ok e s" "map_of (invitations s) k = Some i" "invitationId j = invitationId i"
    "same_scope j i" "invFolderId j = invFolderId i" "tokenDigest j = tokenDigest i"
  shows "invitations_ok e (s\<lparr>invitations := AList.update k j (invitations s)\<rparr>)"
proof -
  let ?t = "s\<lparr>invitations := AList.update k j (invitations s)\<rparr>"
  have fk: "folderKey j (invFolderId j) = folderKey i (invFolderId i)"
    using assms(4,5) by simp
  have i: "invitationId i = k" "folder_known i (invFolderId i) s" "\<exists>n < sfDraws s. k = ''inv_'' @ uuid e n"
    using assms(1,2) by (auto simp: invitations_ok_def)
  have "invitationId i' = k' \<and> folder_known i' (invFolderId i') ?t \<and> (\<exists>n < sfDraws ?t. k' = ''inv_'' @ uuid e n)"
    if "map_of (invitations ?t) k' = Some i'" for k' i'
  proof (cases "k' = k")
    case True
    have "folder_known j (invFolderId j) s" using i(2) unfolding folder_known_def fk .
    with True that i(1,3) assms(3) show ?thesis by (auto simp: folder_known_def)
  next
    case False
    with that assms(1) show ?thesis by (auto simp: invitations_ok_def folder_known_def)
  qed
  moreover have "\<exists>i'. map_of (invitations ?t) k' = Some i' \<and> tokenDigest i' = d"
    if "map_of (invitationByDigest ?t) d = Some k'" for d k'
  proof -
    have "\<exists>i'. map_of (invitations s) k' = Some i' \<and> tokenDigest i' = d"
      using that assms(1) unfolding invitations_ok_def by simp
    then obtain i' where "map_of (invitations s) k' = Some i'" "tokenDigest i' = d" by blast
    with assms(2,6) show ?thesis by (cases "k' = k") auto
  qed
  ultimately show ?thesis unfolding invitations_ok_def by blast
qed

lemma sf_inv_invitation:
  assumes "sf_inv e s" "map_of (invitations s) k = Some i" "invitationId j = invitationId i"
    "same_scope j i" "invFolderId j = invFolderId i" "tokenDigest j = tokenDigest i"
  shows "sf_inv e (s\<lparr>invitations := AList.update k j (invitations s)\<rparr>)"
proof -
  have "invitations_ok e (s\<lparr>invitations := AList.update k j (invitations s)\<rparr>)"
    using assms by (intro invitations_ok_set) (simp_all add: sf_inv_def)
  then show ?thesis
    using assms(1) unfolding sf_inv_def folders_ok_def memberships_ok_def cache_ok_def folder_known_def
      activeMembership_def by simp
qed

lemma sf_inv_acceptInvitation:
  assumes env: "good_env e" and inv: "sf_inv e s"
  shows "sf_inv e (snd (acceptInvitation e' who tok t s))"
  using inv
proof (cases rule: acceptInvitation_cases [where e = e' and who = who and tok = tok and t = t])
  case (refused err)
  with inv show ?thesis by simp
next
  case (looked iid i)
  then show ?thesis
    using sf_inv_invitation [OF inv looked(2), of "expireInvitation t i"] by (simp add: same_scope_def)
next
  case (accepted iid i f)
  let ?m = "acceptedMembership who i (map_of (memberships s) (memberKey who (invFolderId i) (idPrincipal who))) t"
  let ?u = "s\<lparr>invitations := AList.update iid (accepted_invitation who t i) (invitations s)\<rparr>"
  have u: "sf_inv e ?u"
    by (rule sf_inv_invitation [OF inv accepted(2)]) (simp_all add: accepted_invitation_def same_scope_def)
  have f: "map_of (folders ?u) (folderKey who (invFolderId i)) = Some f" using accepted(6) by simp
  have "memberKey who (invFolderId i) (idPrincipal who) = memberKey ?m (memFolderId ?m) (memPrincipalId ?m)"
    using memberKey_cong [OF same_scope_acceptedMembership(5) [of who i _ t]] by (simp only: same_scope_acceptedMembership)
  moreover have "folder_known ?m (memFolderId ?m) ?u"
    using f folderKey_cong [OF same_scope_acceptedMembership(5) [of who i _ t]]
    by (simp only: same_scope_acceptedMembership folder_known_def) simp
  ultimately have "memberships_ok (?u\<lparr>memberships :=
      AList.update (memberKey who (invFolderId i) (idPrincipal who)) ?m (memberships ?u)\<rparr>)"
    using u by (intro memberships_ok_set) (simp_all only: sf_inv_def simp_thms)
  then show ?thesis
    unfolding accepted(7) snd_conv
    by (intro sf_inv_append sf_inv_bump [OF env u f]) (simp_all, auto simp: memberKey_def)
qed

lemma sf_fresh_folder:
  assumes "good_env e" "sf_inv e s"
  shows "map_of (folders s) (folderKey sc (''fld_'' @ uuid e (sfDraws s))) = None"
proof (rule ccontr)
  assume "\<not> ?thesis"
  then obtain f where f: "map_of (folders s) (folderKey sc (''fld_'' @ uuid e (sfDraws s))) = Some f" by blast
  then have "folderId f = ''fld_'' @ uuid e (sfDraws s)"
    using known_colon_free(2) [OF assms(1) _ f] assms(2) by (simp add: sf_inv_def)
  moreover obtain i where "i < sfDraws s" "folderId f = ''fld_'' @ uuid e i"
    using assms(2) f unfolding sf_inv_def folders_ok_def by blast
  ultimately show False using assms(1) by (auto simp: good_env_def dest: injD)
qed

lemma createFolder_cases:
  obtains (refused) "createFolder e who name t s = (Inl FOLDER_NAME_INVALID, s\<lparr>sfDraws := Suc (sfDraws s)\<rparr>)"
  | (created) f m where "createFolder e who name t s =
        (Inr (f, m), appendFolderAudit e (idPrincipal who) f ''folder.created'' FSuccess ''CREATED'' None None None None
          (s\<lparr>sfDraws := Suc (sfDraws s), folders := AList.update (folderKey who (folderId f)) f (folders s),
             memberships := AList.update (memberKey who (folderId f) (idPrincipal who)) m (memberships s)\<rparr>))"
      "folderId f = ''fld_'' @ uuid e (sfDraws s)" "same_scope f who" "cacheEpoch f = 0" "archivedAt f = None"
      "memFolderId m = folderId f" "memPrincipalId m = idPrincipal who" "same_scope m who" "memRole m = Owner"
      "memStatus m = MActive"
proof (cases "js_trim name = [] \<or> 80 < length (js_trim name)")
  case True
  then show ?thesis by (intro refused) (simp add: createFolder_def Let_def)
next
  case False
  let ?r = "createFolder e who name t s"
  obtain f m where r: "fst ?r = Inr (f, m)" using False by (simp add: createFolder_def Let_def)
  show ?thesis
    by (rule created [of f m]) (use False r in \<open>auto simp: createFolder_def Let_def same_scope_def\<close>)
qed

lemma folders_ok_set:
  assumes "folders_ok e s" "k = folderKey f (folderId f)" "\<exists>i < n. folderId f = ''fld_'' @ uuid e i" "sfDraws s \<le> n"
  shows "folders_ok e (s\<lparr>sfDraws := n, folders := AList.update k f (folders s)\<rparr>)"
  unfolding folders_ok_def
proof (intro allI impI)
  fix k' f' assume h: "map_of (folders (s\<lparr>sfDraws := n, folders := AList.update k f (folders s)\<rparr>)) k' = Some f'"
  show "k' = folderKey f' (folderId f') \<and>
    (\<exists>i < sfDraws (s\<lparr>sfDraws := n, folders := AList.update k f (folders s)\<rparr>). folderId f' = ''fld_'' @ uuid e i)"
  proof (cases "k' = k")
    case True
    with h assms(2,3) show ?thesis by simp
  next
    case False
    with h have "map_of (folders s) k' = Some f'" by simp
    then have "k' = folderKey f' (folderId f')" "\<exists>i < sfDraws s. folderId f' = ''fld_'' @ uuid e i"
      using assms(1) unfolding folders_ok_def by blast+
    then show ?thesis using assms(4) less_le_trans by auto
  qed
qed

lemma sf_inv_createFolder:
  assumes env: "good_env e" and inv: "sf_inv e s"
  shows "sf_inv e (snd (createFolder e who name t s))"
proof (cases rule: createFolder_cases [of e who name t s])
  case refused
  then show ?thesis using sf_inv_core [OF inv] by (simp add: core_same_def)
next
  case (created f m)
  have none: "map_of (folders s) (folderKey who (folderId f)) = None"
    unfolding created(2) by (rule sf_fresh_folder [OF env inv])
  let ?t = "s\<lparr>sfDraws := Suc (sfDraws s), folders := AList.update (folderKey who (folderId f)) f (folders s),
      memberships := AList.update (memberKey who (folderId f) (idPrincipal who)) m (memberships s)\<rparr>"
  have kn: "folder_known a g s \<Longrightarrow> folder_known a g ?t" for a :: "'c folder_scope_scheme" and g
    by (simp add: folder_known_def)
  have cf: "colon_free (folderId f)"
    using env by (auto simp: created(2) good_env_def colon_free_def)
  have "folderKey who (folderId f) = folderKey f (folderId f)"
    using folderKey_cong [OF created(3)] by simp
  then have "folders_ok e (s\<lparr>sfDraws := Suc (sfDraws s), folders := AList.update (folderKey who (folderId f)) f (folders s)\<rparr>)"
    using inv by (intro folders_ok_set) (auto simp: sf_inv_def created(2))
  then have "folders_ok e ?t" by (rule folders_ok_mono) simp_all
  moreover have "memberships_ok ?t"
  proof -
    have "memberships_ok (?t\<lparr>memberships := memberships s\<rparr>)"
      using inv unfolding sf_inv_def memberships_ok_def folder_known_def by auto
    moreover have "memberKey who (folderId f) (idPrincipal who) = memberKey m (memFolderId m) (memPrincipalId m)"
      using memberKey_cong [OF created(8)] created(6,7) by simp
    moreover have "folder_known m (memFolderId m) (?t\<lparr>memberships := memberships s\<rparr>)"
      using folderKey_cong [OF created(8)] created(6) by (simp add: folder_known_def)
    ultimately show ?thesis by (auto dest: memberships_ok_set)
  qed
  moreover have "cache_ok ?t"
    unfolding cache_ok_def
  proof (intro allI impI)
    fix k ep r assume "map_of (authorizationCache ?t) k = Some (ep, r)"
    then obtain a g p h where a: "k = memberKey a g p" "map_of (folders s) (folderKey (a :: folder_scope) g) = Some h"
      "ep \<le> cacheEpoch h" "ep = cacheEpoch h \<longrightarrow> r = map_option memRole (activeMembership a p g s)"
      using inv unfolding sf_inv_def cache_ok_def by (simp; blast)
    have ne: "folderKey a g \<noteq> folderKey who (folderId f)"
    proof
      assume "folderKey a g = folderKey who (folderId f)"
      from a(2) [unfolded this] none show False by simp
    qed
    have "colon_free g" using known_colon_free(1) [OF env _ a(2)] inv by (simp add: sf_inv_def)
    then have "memberKey a g p \<noteq> memberKey who (folderId f) (idPrincipal who)"
      using cf ne by (auto simp: memberKey_inj)
    then have "activeMembership a p g ?t = activeMembership a p g s" by (simp add: activeMembership_def)
    moreover have "map_of (folders ?t) (folderKey a g) = Some h" using ne a(2) by auto
    ultimately show "\<exists>sc fid p f. k = memberKey sc fid p \<and> map_of (folders ?t) (folderKey (sc :: folder_scope) fid) = Some f
       \<and> ep \<le> cacheEpoch f \<and> (ep = cacheEpoch f \<longrightarrow> r = map_option memRole (activeMembership sc p fid ?t))"
      using a by metis
  qed
  moreover have "invitations_ok e ?t"
    using inv kn by (intro invitations_ok_mono [of e s ?t]) (simp_all add: sf_inv_def)
  ultimately have "sf_inv e ?t" by (simp add: sf_inv_def)
  then show ?thesis unfolding created(1) snd_conv by (rule sf_inv_append)
qed

text \<open>Replacing a folder by one that differs only in the archive stamp.\<close>

lemma sf_inv_archive:
  assumes env: "good_env e" and inv: "sf_inv e s" and f: "map_of (folders s) (folderKey sc fid) = Some f"
  shows "sf_inv e (s\<lparr>folders := AList.update (folderKey sc fid) (f\<lparr>archivedAt := x\<rparr>) (folders s)\<rparr>)"
proof -
  let ?t = "s\<lparr>folders := AList.update (folderKey sc fid) (f\<lparr>archivedAt := x\<rparr>) (folders s)\<rparr>"
  have fo: "folders_ok e s" using inv by (simp add: sf_inv_def)
  note k = known_colon_free [OF env fo f]
  have kn: "folder_known a g s \<Longrightarrow> folder_known a g ?t" for a :: "'c folder_scope_scheme" and g
    by (simp add: folder_known_def)
  have "folderKey sc fid = folderKey (f\<lparr>archivedAt := x\<rparr>) (folderId (f\<lparr>archivedAt := x\<rparr>))"
    using k(2,3) by (auto simp: same_scope_def)
  moreover have "\<exists>i < sfDraws s. folderId (f\<lparr>archivedAt := x\<rparr>) = ''fld_'' @ uuid e i"
    using fo f unfolding folders_ok_def by simp
  ultimately have "folders_ok e ?t" by (rule folders_ok_set [OF fo _ _ order_refl, THEN folders_ok_mono]) simp_all
  moreover have "memberships_ok ?t"
    using inv unfolding sf_inv_def memberships_ok_def folder_known_def by auto
  moreover have "cache_ok ?t"
    unfolding cache_ok_def
  proof (intro allI impI)
    fix k' ep r assume "map_of (authorizationCache ?t) k' = Some (ep, r)"
    then obtain a g p h where a: "k' = memberKey a g p" "map_of (folders s) (folderKey (a :: folder_scope) g) = Some h"
      "ep \<le> cacheEpoch h" "ep = cacheEpoch h \<longrightarrow> r = map_option memRole (activeMembership a p g s)"
      using inv unfolding sf_inv_def cache_ok_def by (simp; blast)
    obtain h' where "map_of (folders ?t) (folderKey a g) = Some h'" "cacheEpoch h' = cacheEpoch h"
      using a(2) f folderKey_cong [of a sc] by (cases "same_scope a sc \<and> g = fid") auto
    with a show "\<exists>sc fid p f. k' = memberKey sc fid p \<and> map_of (folders ?t) (folderKey (sc :: folder_scope) fid) = Some f
       \<and> ep \<le> cacheEpoch f \<and> (ep = cacheEpoch f \<longrightarrow> r = map_option memRole (activeMembership sc p fid ?t))"
      unfolding activeMembership_def by (intro exI [of _ a] exI [of _ g] exI [of _ p] exI [of _ h']) simp
  qed
  moreover have "invitations_ok e ?t"
    using inv kn by (intro invitations_ok_mono [of e s ?t]) (simp_all add: sf_inv_def)
  ultimately show ?thesis by (simp add: sf_inv_def)
qed

lemma deleteFolder_cases:
  assumes "good_env e0" "sf_inv e0 s"
  obtains (quiet) err c where "deleteFolder e who fid t s = (Inl err, s\<lparr>authorizationCache := c\<rparr>)"
      "sf_inv e0 (s\<lparr>authorizationCache := c\<rparr>)" "err \<noteq> TypeError"
  | (deleted) f c where "map_of (folders s) (folderKey who fid) = Some f" "archivedAt f = None"
      "storedRole who fid s = Some Owner" "sf_inv e0 (s\<lparr>authorizationCache := c\<rparr>)"
      "deleteFolder e who fid t s =
        (let s1 = appendFolderAudit e (idPrincipal who) (bumped t f) ''folder.deleted'' FSuccess ''DELETED''
                    None None None None
                    (bump_effect who fid RRevoked None t f (s\<lparr>authorizationCache := c\<rparr>))
         in (Inr ((bumped t f)\<lparr>archivedAt := Some t\<rparr>),
             s1\<lparr>folders := AList.update (folderKey who fid) ((bumped t f)\<lparr>archivedAt := Some t\<rparr>) (folders s1)\<rparr>))"
  using assms
proof (cases rule: getFolder_cases [where who = who and fid = fid and cap = CManage])
  case (denied err c)
  then show ?thesis by (intro quiet [of err c]) (auto simp: deleteFolder_def)
next
  case (ok f r c)
  have own: "storedRole who fid s = Some Owner" using ok(4,5) by (auto simp: folderRoleAllows_def)
  have st: "map_of (folders (s\<lparr>authorizationCache := c\<rparr>)) (folderKey who fid) = Some f" using ok(2) by simp
  have "map_of (folders (bump_effect who fid RRevoked None t f (s\<lparr>authorizationCache := c\<rparr>))) (folderKey who fid)
    = Some (bumped t f)" by (simp add: bump_effect_def)
  then show ?thesis
    using ok(1) by (intro deleted [OF ok(2,3) own ok(6)]) (simp add: deleteFolder_def bump_known [OF st] Let_def)
qed

lemma sf_inv_plain_bump:
  assumes "good_env e" "sf_inv e s" "map_of (folders s) (folderKey sc fid) = Some f"
  shows "sf_inv e (bump_effect sc fid reason affected t f s)"
  using assms by (intro sf_inv_bump [OF assms]) (simp_all add: sf_inv_def)

lemma sf_inv_deleteFolder:
  assumes env: "good_env e" and inv: "sf_inv e s"
  shows "sf_inv e (snd (deleteFolder e' who fid t s))"
  using assms
proof (cases rule: deleteFolder_cases [where e = e' and who = who and fid = fid and t = t])
  case (deleted f c)
  let ?s1 = "appendFolderAudit e' (idPrincipal who) (bumped t f) ''folder.deleted'' FSuccess ''DELETED''
                    None None None None (bump_effect who fid RRevoked None t f (s\<lparr>authorizationCache := c\<rparr>))"
  have "sf_inv e ?s1" using deleted(1) by (intro sf_inv_append sf_inv_plain_bump [OF env deleted(4)]) simp
  moreover have "map_of (folders ?s1) (folderKey who fid) = Some (bumped t f)" by (simp add: bump_effect_def)
  ultimately show ?thesis unfolding deleted(5) Let_def snd_conv by (rule sf_inv_archive [OF env])
qed simp

lemma getFolder_keeps:
  assumes "good_env e" "sf_inv e s" and "getFolder who fid cap s = (x, s1)"
  shows "sf_inv e s1" "\<exists>c. s1 = s\<lparr>authorizationCache := c\<rparr>"
  using assms by (cases rule: getFolder_cases [of e s who fid cap]; force)+

lemma sf_inv_createInvitation:
  assumes env: "good_env e" and inv: "sf_inv e s"
  shows "sf_inv e (snd (createInvitation e who fid r secs t s))"
  using assms
proof (cases rule: getFolder_cases [where who = who and fid = fid and cap = CManage])
  case (denied err c)
  then show ?thesis by (simp add: createInvitation_def)
next
  case (ok f q c)
  let ?s = "s\<lparr>authorizationCache := c\<rparr>" and ?iid = "''inv_'' @ uuid e (sfDraws s)"
  have "sf_inv e (?s\<lparr>sfDraws := Suc (Suc (sfDraws s)), invitations := AList.update ?iid i (invitations s),
      invitationByDigest := AList.update (tokenDigest i) ?iid (invitationByDigest s)\<rparr>)" (is "sf_inv e ?t")
    if i: "invitationId i = ?iid" "same_scope i who" "invFolderId i = fid" for i
  proof -
    have io: "invitations_ok e ?s" using ok(6) by (simp add: sf_inv_def)
    have fresh: "map_of (invitations s) ?iid = None"
    proof (rule ccontr)
      assume "map_of (invitations s) ?iid \<noteq> None"
      then obtain i where "map_of (invitations ?s) ?iid = Some i" by auto
      then have "\<exists>j < sfDraws ?s. ?iid = ''inv_'' @ uuid e j"
        using io unfolding invitations_ok_def by blast
      then obtain j where "j < sfDraws s" "?iid = ''inv_'' @ uuid e j" by auto
      with env show False by (auto simp: good_env_def inj_def)
    qed
    have known: "folder_known i fid s" using ok(2) folderKey_cong [OF i(2)] by (simp add: folder_known_def)
    have "invitationId j = k \<and> folder_known j (invFolderId j) ?t \<and> (\<exists>n < sfDraws ?t. k = ''inv_'' @ uuid e n)"
      if "map_of (invitations ?t) k = Some j" for k j
    proof (cases "k = ?iid")
      case True
      with that i known show ?thesis by (auto simp: folder_known_def intro!: exI [of _ "sfDraws s"])
    next
      case False
      with that have "map_of (invitations s) k = Some j" by auto
      then have "invitationId j = k" "folder_known j (invFolderId j) s" "\<exists>n < sfDraws s. k = ''inv_'' @ uuid e n"
        using io unfolding invitations_ok_def folder_known_def by simp_all
      then show ?thesis by (auto simp: folder_known_def less_Suc_eq)
    qed
    moreover have "\<exists>j. map_of (invitations ?t) k = Some j \<and> tokenDigest j = d"
      if "map_of (invitationByDigest ?t) d = Some k" for d k
    proof (cases "d = tokenDigest i")
      case True
      with that show ?thesis by auto
    next
      case False
      with that have "map_of (invitationByDigest ?s) d = Some k" by auto
      then have "\<exists>j. map_of (invitations ?s) k = Some j \<and> tokenDigest j = d"
        using io unfolding invitations_ok_def by blast
      then obtain j where "map_of (invitations s) k = Some j" "tokenDigest j = d" by auto
      with fresh show ?thesis by (cases "k = ?iid") auto
    qed
    ultimately have "invitations_ok e ?t" unfolding invitations_ok_def by blast
    moreover have "folders_ok e ?t" by (rule folders_ok_mono [of e ?s]) (use ok(6) in \<open>simp_all add: sf_inv_def\<close>)
    ultimately show ?thesis
      using ok(6) unfolding sf_inv_def memberships_ok_def cache_ok_def folder_known_def activeMembership_def by simp
  qed
  note stored = this
  let ?i = "\<lparr>scTenant = scTenant who, scOrganization = scOrganization who, scWorkspace = scWorkspace who,
     invFolderId = fid, invitationId = ?iid, invitedByPrincipalId = idPrincipal who,
     acceptedByPrincipalId = None, invRole = r, invStatus = IPending, invExpiresAt = t + secs * 1000,
     acceptedAt = None, invRevokedAt = None, invVersion = 1, invCreatedAt = t, invUpdatedAt = t,
     tokenDigest = sha256 e (token e (Suc (sfDraws s)))\<rparr>"
  show ?thesis
    using ok(1,6) sf_inv_append [OF stored [of ?i]] by (simp add: createInvitation_def Let_def same_scope_def)
qed

lemma jmap_values_find:
  "map_of (jmap_values h m) k = Some y \<longleftrightarrow> (\<exists>x. map_of m k = Some x \<and> y = h x)"
  by auto

lemma sf_inv_listInvitations:
  assumes env: "good_env e" and inv: "sf_inv e s"
  shows "sf_inv e (snd (listInvitations who fid t s))"
  using assms
proof (cases rule: getFolder_cases [where who = who and fid = fid and cap = CManage])
  case (denied err c)
  then show ?thesis by (simp add: listInvitations_def)
next
  case (ok f q c)
  let ?s = "s\<lparr>authorizationCache := c\<rparr>"
  have "sf_inv e (?s\<lparr>invitations := jmap_values h (invitations s)\<rparr>)"
    if h: "\<And>i. invitationId (h i) = invitationId i" "\<And>i. same_scope (h i) i"
      "\<And>i. invFolderId (h i) = invFolderId i" "\<And>i. tokenDigest (h i) = tokenDigest i" for h
  proof -
    have fk: "folderKey (h i) = folderKey i" for i by (rule folderKey_cong [OF h(2)])
    have "invitations_ok e ?s" using ok(6) by (simp add: sf_inv_def)
    then have "invitations_ok e (?s\<lparr>invitations := jmap_values h (invitations s)\<rparr>)"
      unfolding invitations_ok_def folder_known_def by (fastforce simp: h fk)
    then show ?thesis
      using ok(6) unfolding sf_inv_def folders_ok_def memberships_ok_def cache_ok_def folder_known_def
        activeMembership_def by simp
  qed
  then show ?thesis
    using ok(1) by (simp add: listInvitations_def Let_def same_scope_def)
qed

lemma sf_inv_revokeInvitation:
  assumes env: "good_env e" and inv: "sf_inv e s"
  shows "sf_inv e (snd (revokeInvitation e' who fid iid v t s))"
  using assms
proof (cases rule: getFolder_cases [where who = who and fid = fid and cap = CManage])
  case (denied err c)
  then show ?thesis by (simp add: revokeInvitation_def)
next
  case (ok f q c)
  have "sf_inv e (s\<lparr>authorizationCache := c, invitations := AList.update iid j (invitations s)\<rparr>)"
    if "map_of (invitations s) iid = Some i" "invitationId j = invitationId i"
    "same_scope j i" "invFolderId j = invFolderId i" "tokenDigest j = tokenDigest i" for i j
    using sf_inv_invitation [OF ok(6), of iid i j] that by simp
  then show ?thesis
    using ok(1,6) by (auto simp: revokeInvitation_def Let_def same_scope_def intro!: sf_inv_append split: option.split)
qed

lemma core_same_quiet:
  "core_same s (s\<lparr>bindings := b\<rparr>)" "core_same s (s\<lparr>tasks := x\<rparr>)" "core_same s (s\<lparr>billingSettlements := y\<rparr>)"
  "core_same s (s\<lparr>approvalSettlements := z\<rparr>)" "core_same s (s\<lparr>listeners := l\<rparr>)"
  "core_same s (s\<lparr>sfDraws := Suc (sfDraws s), tasks := x\<rparr>)"
  "core_same s (s\<lparr>billingSettlements := y, tasks := x\<rparr>)"
  by (simp_all add: core_same_def)

lemmas sf_inv_quiet = core_same_quiet [THEN sf_inv_core [rotated]]

lemma sf_inv_bindResource:
  "good_env e \<Longrightarrow> sf_inv e s \<Longrightarrow> sf_inv e (snd (bindResource who fid rt rid t s))"
  by (cases rule: getFolder_cases [of e s who fid CMutate])
    (auto simp: bindResource_def Let_def dest: sf_inv_quiet)

lemma sf_inv_authorizeResource:
  "good_env e \<Longrightarrow> sf_inv e s \<Longrightarrow> sf_inv e (snd (authorizeResource who rt rid cap s))"
  by (auto simp: authorizeResource_def split: option.split sum.split prod.split dest: getFolder_keeps(1))

lemma sf_inv_bump_any:
  "good_env e \<Longrightarrow> sf_inv e s \<Longrightarrow> sf_inv e (snd (bump sc fid reason affected t s))"
proof (cases "map_of (folders s) (folderKey sc fid)")
  case None
  then show "sf_inv e s \<Longrightarrow> ?thesis" by (simp add: bump_def lookupFolder_def)
next
  case (Some f)
  then show "good_env e \<Longrightarrow> sf_inv e s \<Longrightarrow> ?thesis" by (simp add: bump_known sf_inv_plain_bump)
qed

lemma sf_inv_rebind:
  assumes env: "good_env e" and inv: "sf_inv e s"
  shows "sf_inv e (snd (rebind e' who source target rt rid b t s))"
proof -
  let ?s1 = "s\<lparr>bindings := AList.update (bindingKey who rt rid)
    (b\<lparr>bindFolderId := target, bindVersion := Suc (bindVersion b), bindUpdatedAt := t\<rparr>) (bindings s)\<rparr>"
  let ?r = "if truthy source then map_prod (map_sum id (\<lambda>_. ())) id (bump who (the source) RResourceMoved None t ?s1)
    else (Inr (), ?s1)"
  have 1: "sf_inv e ?s1" by (rule sf_inv_quiet(1) [OF inv])
  then have 2: "sf_inv e (snd ?r)" by (simp add: sf_inv_bump_any [OF env])
  have 3: "sf_inv e (snd (bump who target RResourceMoved None t (snd ?r)))" by (rule sf_inv_bump_any [OF env 2])
  obtain x s2 where r: "?r = (x, s2)" by fastforce
  obtain y s3 where b: "bump who target RResourceMoved None t s2 = (y, s3)" by fastforce
  have "sf_inv e s2" "sf_inv e s3" using 2 3 unfolding r snd_conv b by simp_all
  then show ?thesis
    unfolding rebind_def Let_def r by (cases x; cases y) (simp_all add: b sf_inv_append)
qed

lemma sf_inv_moveResource:
  assumes env: "good_env e" and inv: "sf_inv e s"
  shows "sf_inv e (snd (moveResource e' who source target rt rid v t s))"
proof -
  obtain x s1 where g: "getFolder who target CMutate s = (x, s1)" by fastforce
  have 1: "sf_inv e s1" by (rule getFolder_keeps(1) [OF env inv g])
  have "sf_inv e s2" if "getFolder who (the source) CMutate s1 = (y, s2)" for y s2
    by (rule getFolder_keeps(1) [OF env 1 that])
  then show ?thesis
    using 1 by (cases x) (auto simp: moveResource_def g sf_inv_rebind [OF env] split: option.split sum.split prod.split)
qed

lemma sf_inv_reads:
  assumes "good_env e" "sf_inv e s"
  shows "sf_inv e (snd (recordExport e' who fid corr s))" "sf_inv e (snd (listFolderAudit who fid s))"
    "sf_inv e (snd (listMembers who fid s))" "sf_inv e (snd (getTask who ses idem s))"
  using assms
  by (auto simp: recordExport_def listFolderAudit_def listMembers_def getTask_def
      split: option.split sum.split prod.split dest: getFolder_keeps(1) intro!: sf_inv_append)

lemma sf_inv_tasks:
  assumes "good_env e" "sf_inv e s"
  shows "sf_inv e (snd (reserveTask e' who fid ses idem h s))"
    "sf_inv e (snd (reserveApprovalResolution who fid a v ev s))"
    "sf_inv e (snd (bindTaskRuntime tid r c u ad cr s))" "sf_inv e (snd (settleTask tid st us cr bs s))"
proof -
  show "sf_inv e (snd (reserveTask e' who fid ses idem h s))"
    using assms by (cases rule: getFolder_cases [of e s who fid CTurn])
      (auto simp: reserveTask_def Let_def split: option.split dest: sf_inv_quiet(6))
  show "sf_inv e (snd (reserveApprovalResolution who fid a v ev s))"
    using assms by (cases rule: getFolder_cases [of e s who fid CApproval])
      (auto simp: reserveApprovalResolution_def Let_def dest: sf_inv_quiet)
  show "sf_inv e (snd (bindTaskRuntime tid r c u ad cr s))" "sf_inv e (snd (settleTask tid st us cr bs s))"
    using assms(2) by (auto simp: bindTaskRuntime_def settleTask_def Let_def setTask_def split: option.split
        intro: sf_inv_quiet)
qed

lemma sf_inv_exec: "good_env e \<Longrightarrow> sf_inv e s \<Longrightarrow> sf_inv e (sf_exec e ev s)"
  by (cases ev) (simp_all add: sf_inv_createFolder sf_inv_deleteFolder sf_inv_getFolder sf_inv_role sf_inv_reads
      sf_inv_createInvitation sf_inv_listInvitations sf_inv_acceptInvitation sf_inv_revokeInvitation
      sf_inv_member_ops sf_inv_transferOwnership sf_inv_bindResource sf_inv_moveResource
      sf_inv_authorizeResource sf_inv_tasks onAccessChanged_def removeListener_def sf_inv_quiet)

text \<open>With colon-free identifiers the invariant holds in every reachable state.\<close>

definition sf_start :: "js_env \<Rightarrow> sf_state \<Rightarrow> bool" where
  "sf_start e s \<longleftrightarrow> good_env e \<and> s = sf_initial"

interpretation folders_run: transition_system "sf_start e" "sf_step e" "\<lambda>s. good_env e \<and> sf_inv e s" for e
proof
  show "sf_start e s \<Longrightarrow> good_env e \<and> sf_inv e s" for s
    by (simp add: sf_start_def sf_inv_initial)
  show "good_env e \<and> sf_inv e s \<Longrightarrow> sf_step e s t \<Longrightarrow> good_env e \<and> sf_inv e t" for s t
    by (auto elim!: sf_stepE simp: sf_inv_exec)
qed

lemma reachable_sf_inv: "good_env e \<Longrightarrow> reaches (sf_step e) sf_initial s \<Longrightarrow> sf_inv e s"
  using folders_run.reachable_inv [of e sf_initial s] by (simp add: sf_start_def)

end
