(* ===== verification/Shared_Folders_Props.thy ===== *)
theory Shared_Folders_Props
  imports Shared_Folders_Inv
begin

section \<open>Shared folders: properties\<close>

text \<open>
  What the operations leave untouched, how a step can change a membership, and the properties of the component:
  the cache is transparent, revocation is final until a new invitation is accepted, memberships change only
  with authority, folders keep an owner (and the one way in which they do not), invitations and settlements are
  used once, reservations are idempotent, the audit log is chained.
\<close>

lemma member_stored_memberships [simp]:
  "memberships (member_stored e who fid p n reason act code t f s) = AList.update (memberKey who fid p) n (memberships s)"
  by (simp add: member_stored_def bump_effect_def)

lemma bump_frame [simp]:
  "memberships (snd (bump sc fid reason affected t s)) = memberships s"
  "invitations (snd (bump sc fid reason affected t s)) = invitations s"
  "bindings (snd (bump sc fid reason affected t s)) = bindings s"
  "tasks (snd (bump sc fid reason affected t s)) = tasks s"
  "billingSettlements (snd (bump sc fid reason affected t s)) = billingSettlements s"
  "folderAudit (snd (bump sc fid reason affected t s)) = folderAudit s"
  by (simp_all add: bump_def Let_def split: sum.split)

lemma getFolder_frame [simp]:
  "folders (snd (getFolder who fid cap s)) = folders s"
  "memberships (snd (getFolder who fid cap s)) = memberships s"
  "invitations (snd (getFolder who fid cap s)) = invitations s"
  "invitationByDigest (snd (getFolder who fid cap s)) = invitationByDigest s"
  "bindings (snd (getFolder who fid cap s)) = bindings s"
  "tasks (snd (getFolder who fid cap s)) = tasks s"
  "billingSettlements (snd (getFolder who fid cap s)) = billingSettlements s"
  "folderAudit (snd (getFolder who fid cap s)) = folderAudit s"
  "sfDraws (snd (getFolder who fid cap s)) = sfDraws s"
  by (simp_all add: getFolder_def role_cached_def Let_def split: sum.split option.split prod.split)

lemma getFolder_frame_eq:
  assumes "getFolder who fid cap s = (x, s1)"
  shows "folders s1 = folders s" "memberships s1 = memberships s" "invitations s1 = invitations s"
    "invitationByDigest s1 = invitationByDigest s" "bindings s1 = bindings s" "tasks s1 = tasks s"
    "billingSettlements s1 = billingSettlements s" "folderAudit s1 = folderAudit s" "sfDraws s1 = sfDraws s"
  using getFolder_frame [of who fid cap s] by (simp_all only: assms snd_conv)

lemma bump_frame_eq:
  assumes "bump sc fid reason affected t s = (x, s1)"
  shows "memberships s1 = memberships s" "invitations s1 = invitations s" "bindings s1 = bindings s"
    "tasks s1 = tasks s" "billingSettlements s1 = billingSettlements s" "folderAudit s1 = folderAudit s"
  using bump_frame [where sc = sc and fid = fid and reason = reason and affected = affected and t = t and s = s]
  by (simp_all only: assms snd_conv)

lemma rebind_frame [simp]:
  "memberships (snd (rebind e who source target rt rid b t s)) = memberships s"
  "invitations (snd (rebind e who source target rt rid b t s)) = invitations s"
  "tasks (snd (rebind e who source target rt rid b t s)) = tasks s"
  "billingSettlements (snd (rebind e who source target rt rid b t s)) = billingSettlements s"
proof -
  let ?s1 = "s\<lparr>bindings := AList.update (bindingKey who rt rid)
    (b\<lparr>bindFolderId := target, bindVersion := Suc (bindVersion b), bindUpdatedAt := t\<rparr>) (bindings s)\<rparr>"
  let ?r = "if truthy source then map_prod (map_sum id (\<lambda>_. ())) id (bump who (the source) RResourceMoved None t ?s1)
    else (Inr (), ?s1)"
  have f: "memberships (snd ?r) = memberships s" "invitations (snd ?r) = invitations s" "tasks (snd ?r) = tasks s"
    "billingSettlements (snd ?r) = billingSettlements s" by simp_all
  obtain x s2 where r: "?r = (x, s2)" by fastforce
  obtain y s3 where b: "bump who target RResourceMoved None t s2 = (y, s3)" by fastforce
  note h = f [unfolded r snd_conv] bump_frame_eq [OF b]
  show "memberships (snd (rebind e who source target rt rid b t s)) = memberships s"
    "invitations (snd (rebind e who source target rt rid b t s)) = invitations s"
    "tasks (snd (rebind e who source target rt rid b t s)) = tasks s"
    "billingSettlements (snd (rebind e who source target rt rid b t s)) = billingSettlements s"
    unfolding rebind_def Let_def r by (cases x; cases y; simp add: b h)+
qed

lemmas op_defs = createFolder_def deleteFolder_def listMembers_def createInvitation_def listInvitations_def
  acceptInvitation_def acceptPending_def revokeInvitation_def changeRole_def revokeMembership_def storeMembership_def
  transferOwnership_def bindResource_def moveResource_def authorizeResource_def recordExport_def listFolderAudit_def
  reserveTask_def getTask_def bindTaskRuntime_def settleTask_def setTask_def reserveApprovalResolution_def
  onAccessChanged_def removeListener_def

lemma role_frame [simp]: "memberships (snd (role_cached who fid s)) = memberships s"
  "invitations (snd (role_cached who fid s)) = invitations s"
  "folders (snd (role_cached who fid s)) = folders s"
  "billingSettlements (snd (role_cached who fid s)) = billingSettlements s"
  "folderAudit (snd (role_cached who fid s)) = folderAudit s"
  by (simp_all add: role_cached_def Let_def split: option.split prod.split)

text \<open>The events that touch no membership.\<close>

fun membership_event :: "sf_event \<Rightarrow> bool" where
  "membership_event (CreateFolder who n t) = True"
| "membership_event (AcceptInvitation who tok t) = True"
| "membership_event (ChangeRole who f p r v t) = True"
| "membership_event (RevokeMembership who f p v t) = True"
| "membership_event (TransferOwnership who f p v r t) = True"
| "membership_event _ = False"

lemma memberships_frame: "\<not> membership_event ev \<Longrightarrow> memberships (sf_exec e ev s) = memberships s"
  by (cases ev) (simp_all add: op_defs Let_def case_prod_beta split: option.split sum.split)

lemma bump_effect_memberships [simp]: "memberships (bump_effect sc fid reason affected t f s) = memberships s"
  by (simp add: bump_effect_def)

lemma same_member_refl [simp]: "same_member m m"
  by (simp add: same_member_def)

lemma same_member_fields:
  "memFolderId n = memFolderId m \<Longrightarrow> memPrincipalId n = memPrincipalId m \<Longrightarrow> scTenant n = scTenant m \<Longrightarrow>
   scOrganization n = scOrganization m \<Longrightarrow> scWorkspace n = scWorkspace m \<Longrightarrow> same_member m n"
  by (simp add: same_member_def same_scope_def)

text \<open>How a step can change what is stored under a membership key.\<close>

definition owner_acts :: "folder_identity \<Rightarrow> string \<Rightarrow> sf_state \<Rightarrow> bool" where
  "owner_acts who fid s \<longleftrightarrow> effectiveRole who fid s = Some Owner"

lemma owner_actsI:
  "map_of (folders s) (folderKey who fid) = Some f \<Longrightarrow> archivedAt f = None \<Longrightarrow> storedRole who fid s = Some Owner \<Longrightarrow>
   owner_acts who fid s"
  by (simp add: owner_acts_def effectiveRole_def)

text \<open>A folder has an active owner.\<close>

definition has_owner :: "'a folder_scope_scheme \<Rightarrow> string \<Rightarrow> sf_state \<Rightarrow> bool" where
  "has_owner sc fid s \<longleftrightarrow>
    (\<exists>p m. map_of (memberships s) (memberKey sc fid p) = Some m \<and> memStatus m = MActive \<and> memRole m = Owner)"

lemma has_ownerI:
  "map_of (memberships s) (memberKey sc fid p) = Some m \<Longrightarrow> memStatus m = MActive \<Longrightarrow> memRole m = Owner \<Longrightarrow>
   has_owner sc fid s"
  by (auto simp: has_owner_def)

lemma has_owner_scope: "same_scope a b \<Longrightarrow> has_owner a fid s = has_owner b fid s"
  by (simp add: has_owner_def memberKey_cong)

lemma prefix_memberKey: "prefix (folderKey sc fid @ '':'') k \<longleftrightarrow> (\<exists>p. k = memberKey sc fid p)"
  by (auto simp: prefix_def memberKey_def)

lemma ownerCount_pos:
  assumes "distinct (map fst (memberships s))"
  shows "1 \<le> ownerCount sc fid s \<longleftrightarrow> has_owner sc fid s"
proof -
  have "1 \<le> ownerCount sc fid s \<longleftrightarrow>
    (\<exists>k m. (k, m) \<in> set (memberships s) \<and> prefix (folderKey sc fid @ '':'') k \<and> memStatus m = MActive \<and> memRole m = Owner)"
    by (simp add: ownerCount_def Suc_le_eq filter_empty_conv) blast
  then show ?thesis
    using assms by (auto simp: has_owner_def prefix_memberKey)
qed

text \<open>When the count is not one, a given owner is not the only one.\<close>

lemma second_owner:
  assumes d: "distinct (map fst (memberships s))" and "ownerCount sc fid s \<noteq> 1"
    and m: "map_of (memberships s) (memberKey sc fid p) = Some m" "memStatus m = MActive" "memRole m = Owner"
  obtains q n where "q \<noteq> p" "map_of (memberships s) (memberKey sc fid q) = Some n" "memStatus n = MActive" "memRole n = Owner"
proof -
  define xs where "xs = filter (\<lambda>(k, m). prefix (folderKey sc fid @ '':'') k \<and> memStatus m = MActive \<and> memRole m = Owner)
      (memberships s)"
  have mem: "(memberKey sc fid p, m) \<in> set xs" using m by (auto simp: xs_def dest: map_of_SomeD)
  have "distinct (map fst xs)" using d by (simp add: xs_def distinct_map_filter)
  moreover have "length xs \<noteq> 1" using assms(2) by (simp add: ownerCount_def xs_def)
  ultimately obtain k n where kn: "(k, n) \<in> set xs" "k \<noteq> memberKey sc fid p"
  proof -
    from mem obtain ys zs where xs: "xs = ys @ (memberKey sc fid p, m) # zs" by (auto dest: split_list)
    with \<open>length xs \<noteq> 1\<close> have "ys @ zs \<noteq> []" by auto
    then obtain k n where kn: "(k, n) \<in> set (ys @ zs)" by (cases "ys @ zs") auto
    moreover have "k \<noteq> memberKey sc fid p"
      using kn \<open>distinct (map fst xs)\<close> unfolding xs by (auto simp: image_iff)
    ultimately show ?thesis using xs by (intro that [of k n]) auto
  qed
  then have "(k, n) \<in> set (memberships s)" "prefix (folderKey sc fid @ '':'') k" "memStatus n = MActive" "memRole n = Owner"
    by (auto simp: xs_def)
  then obtain q where "k = memberKey sc fid q" "map_of (memberships s) k = Some n" "memStatus n = MActive" "memRole n = Owner"
    using d by (auto simp: prefix_memberKey)
  with kn(2) show ?thesis by (intro that [of q n]) auto
qed

lemma membership_change:
  assumes env: "good_env e" and inv: "sf_inv e s"
    and ch: "map_of (memberships (sf_exec e ev s)) k \<noteq> map_of (memberships s) k"
  obtains (created) who n t f m where "ev = CreateFolder who n t"
      "createFolder e who n t s = (Inr (f, m), sf_exec e ev s)"
      "map_of (folders s) (folderKey who (folderId f)) = None" "colon_free (folderId f)"
      "k = memberKey who (folderId f) (idPrincipal who)"
      "map_of (memberships (sf_exec e ev s)) k = Some m" "memRole m = Owner" "memStatus m = MActive"
  | (joined) who tok t i m where "ev = AcceptInvitation who tok t" "same_scope i who"
      "map_of (invitationByDigest s) (sha256 e tok) = Some (invitationId i)"
      "map_of (invitations s) (invitationId i) = Some i" "invStatus i = IPending" "t < invExpiresAt i"
      "k = memberKey who (invFolderId i) (idPrincipal who)"
      "map_of (memberships (sf_exec e ev s)) k = Some m" "memRole m = invRole i" "memStatus m = MActive"
  | (owner) who fid p m n where "owner_acts who fid s" "k = memberKey who fid p"
      "map_of (memberships s) k = Some m" "memStatus m = MActive"
      "map_of (memberships (sf_exec e ev s)) k = Some n" "same_member m n"
      "memRole m = Owner \<Longrightarrow> has_owner who fid (sf_exec e ev s)"
proof -
  have dist: "distinct (map fst (memberships s))" using inv by (simp add: sf_inv_def memberships_ok_def)
  have "membership_event ev" using ch memberships_frame by metis
  then consider who n t where "ev = CreateFolder who n t"
    | who tok t where "ev = AcceptInvitation who tok t"
    | who fid p r v t where "ev = ChangeRole who fid p r v t"
    | who fid p v t where "ev = RevokeMembership who fid p v t"
    | who fid p v r t where "ev = TransferOwnership who fid p v r t"
    by (cases ev) auto
  then show ?thesis
  proof cases
    case 1
    show ?thesis
    proof (cases rule: createFolder_cases [of e who n t s])
      case refused
      with ch 1 show ?thesis by simp
    next
      case (created f m)
      have none: "map_of (folders s) (folderKey who (folderId f)) = None"
        unfolding created(2) by (rule sf_fresh_folder [OF env inv])
      have "colon_free (folderId f)" using env by (auto simp: created(2) good_env_def colon_free_def)
      then show ?thesis
        by (intro that(1) [OF 1 _ none, of m]) (use created ch 1 in \<open>auto split: if_splits\<close>)
    qed
  next
    case 2
    show ?thesis
      using inv
    proof (cases rule: acceptInvitation_cases [where e = e and who = who and tok = tok and t = t])
      case (accepted iid i f)
      have "invitationId i = iid" using inv accepted(2) by (simp add: sf_inv_def invitations_ok_def)
      with accepted ch 2 show ?thesis
        by (intro that(2) [OF 2 accepted(3)]) (auto split: if_splits)
    qed (use ch 2 in auto)
  next
    case 3
    show ?thesis
      using env inv
    proof (cases rule: changeRole_cases [where e = e and who = who and fid = fid and target = p and r = r and v = v and t = t])
      case (changed f c m)
      have "map_of (memberships s) (memberKey who fid p) = Some m" "memStatus m = MActive"
        using activeMembership_stored [OF _ changed(5)] inv by (auto simp: sf_inv_def)
      note m = this
      have "has_owner who fid (sf_exec e ev s)" if "memRole m = Owner"
      proof (cases "r = Owner")
        case True
        then show ?thesis using 3 changed(8) m by (auto simp: has_owner_def)
      next
        case False
        from second_owner [OF dist changed(7) [OF that False] m that] obtain q n where "q \<noteq> p"
          "map_of (memberships s) (memberKey who fid q) = Some n" "memStatus n = MActive" "memRole n = Owner" .
        then show ?thesis using 3 changed(8) by (intro has_ownerI [of _ _ _ q n]) auto
      qed
      then show ?thesis
        using ch 3 changed(8) m
        by (intro that(3) [OF owner_actsI [OF changed(1-3)], of p m]) (auto simp: same_member_fields split: if_splits)
    qed (use ch 3 in auto)
  next
    case 4
    show ?thesis
      using env inv
    proof (cases rule: revokeMembership_cases [where e = e and who = who and fid = fid and target = p and v = v and t = t])
      case (changed f c m)
      have "map_of (memberships s) (memberKey who fid p) = Some m" "memStatus m = MActive"
        using activeMembership_stored [OF _ changed(5)] inv by (auto simp: sf_inv_def)
      note m = this
      have "has_owner who fid (sf_exec e ev s)" if "memRole m = Owner"
      proof -
        from second_owner [OF dist changed(7) [OF that] m that] obtain q n where "q \<noteq> p"
          "map_of (memberships s) (memberKey who fid q) = Some n" "memStatus n = MActive" "memRole n = Owner" .
        then show ?thesis using 4 changed(8) by (intro has_ownerI [of _ _ _ q n]) auto
      qed
      then show ?thesis
        using ch 4 changed(8) m
        by (intro that(3) [OF owner_actsI [OF changed(1-3)], of p m]) (auto simp: same_member_fields split: if_splits)
    qed (use ch 4 in auto)
  next
    case 5
    show ?thesis
      using env inv
    proof (cases rule: transferOwnership_cases [where e = e and who = who and fid = fid and target = p and v = v and previous = r and t = t])
      case (changed f c m a)
      have own: "owner_acts who fid s"
        using changed(6,7) by (intro owner_actsI [OF changed(1,2)]) (simp add: storedRole_def)
      have st: "map_of (memberships s) (memberKey who fid p) = Some m" "memStatus m = MActive"
        "map_of (memberships s) (memberKey who fid (idPrincipal who)) = Some a" "memStatus a = MActive"
        using activeMembership_stored [OF _ changed(5)] activeMembership_stored [OF _ changed(6)] inv
        by (auto simp: sf_inv_def)
      let ?d = "p \<noteq> idPrincipal who \<and> r = Editor"
      have ms: "memberships (sf_exec e ev s) = transferred who fid p ?d t m a (memberships s)"
        using 5 changed(9) by simp
      have "map_of (memberships (sf_exec e ev s)) (memberKey who fid p) = Some (promoted t m)"
        by (auto simp: ms transferred_def Let_def)
      then have ho: "has_owner who fid (sf_exec e ev s)"
        by (rule has_ownerI) (simp_all add: promoted_def st)
      show ?thesis
      proof (cases "?d \<and> k = memberKey who fid (idPrincipal who)")
        case True
        then show ?thesis
          using st by (intro that(3) [OF own, of "idPrincipal who" a "demoted t a"]) (auto simp: ms transferred_def ho simp del: sf_exec.simps)
      next
        case False
        then have "k = memberKey who fid p" "map_of (memberships (sf_exec e ev s)) k = Some (promoted t m)"
          using ch by (auto simp: ms transferred_def Let_def split: if_splits)
        then show ?thesis using st by (intro that(3) [OF own, of p m "promoted t m"]) (auto simp: ho simp del: sf_exec.simps)
      qed
    qed (use ch 5 in auto)
  qed
qed

subsection \<open>Folders are never removed\<close>

abbreviation folder_dom :: "sf_state \<Rightarrow> string set" where
  "folder_dom s \<equiv> dom (map_of (folders s))"

lemma bump_folder_dom [simp]: "folder_dom (snd (bump sc fid reason affected t s)) = folder_dom s"
  by (auto simp: bump_def lookupFolder_def Let_def split: option.splits sum.splits if_splits)

lemma rebind_folder_dom [simp]: "folder_dom (snd (rebind e who source target rt rid b t s)) = folder_dom s"
  by (simp add: rebind_def Let_def case_prod_beta del: dom_map_of_conv_image_fst split: sum.split)

lemma deleteFolder_folder_dom: "folder_dom (snd (deleteFolder e who fid t s)) = folder_dom s"
proof -
  let ?s2 = "snd (bump who fid RRevoked None t (snd (getFolder who fid CManage s)))"
  have "folder_dom ?s2 = folder_dom s" unfolding bump_folder_dom by simp
  then have "map_of (folders ?s2) (folderKey who fid) = Some f \<Longrightarrow> insert (folderKey who fid) (folder_dom ?s2) = folder_dom s" for f
    by blast
  then show ?thesis
    by (simp add: deleteFolder_def Let_def case_prod_beta del: dom_map_of_conv_image_fst split: option.split sum.split)
qed

fun creation_event :: "sf_event \<Rightarrow> bool" where
  "creation_event (CreateFolder who n t) = True"
| "creation_event _ = False"

lemma folder_dom_frame: "\<not> creation_event ev \<Longrightarrow> folder_dom (sf_exec e ev s) = folder_dom s"
  by (cases ev) (simp_all add: deleteFolder_folder_dom listMembers_def createInvitation_def listInvitations_def
    acceptInvitation_def acceptPending_def revokeInvitation_def changeRole_def revokeMembership_def storeMembership_def
    transferOwnership_def bindResource_def moveResource_def authorizeResource_def recordExport_def listFolderAudit_def
    reserveTask_def getTask_def bindTaskRuntime_def settleTask_def setTask_def reserveApprovalResolution_def
    onAccessChanged_def removeListener_def Let_def case_prod_beta
    del: dom_map_of_conv_image_fst split: option.split sum.split)

lemma new_folder:
  assumes "good_env e" "sf_inv e s" "k \<in> folder_dom (sf_exec e ev s)" "k \<notin> folder_dom s"
  obtains who n t and f :: shared_folder and m where "ev = CreateFolder who n t" "k = folderKey who (folderId f)"
    "map_of (memberships (sf_exec e ev s)) (memberKey who (folderId f) (idPrincipal who)) = Some m"
    "memStatus m = MActive" "memRole m = Owner"
proof -
  obtain who n t where ev: "ev = CreateFolder who n t" using folder_dom_frame [of ev e s] assms(3,4) by (cases ev) auto
  show ?thesis
  proof (cases rule: createFolder_cases [of e who n t s])
    case (created f m)
    with assms(3,4) ev show ?thesis by (intro that [OF ev, of f m]) (auto split: if_splits)
  qed (use ev assms(3,4) in auto)
qed

text \<open>
  A step in which an owner of a folder accepts an invitation to it.  All other steps keep the promise that
  every folder has an owner.
\<close>

definition owner_accepts :: "js_env \<Rightarrow> sf_event \<Rightarrow> sf_state \<Rightarrow> bool" where
  "owner_accepts e ev s \<longleftrightarrow> (\<exists>who tok t iid i. ev = AcceptInvitation who tok t
     \<and> map_of (invitationByDigest s) (sha256 e tok) = Some iid \<and> map_of (invitations s) iid = Some i
     \<and> storedRole who (invFolderId i) s = Some Owner)"

inductive guarded_step :: "js_env \<Rightarrow> sf_state \<Rightarrow> sf_state \<Rightarrow> bool" for e where
  guarded_stepI: "\<not> owner_accepts e ev s \<Longrightarrow> guarded_step e s (sf_exec e ev s)"

inductive_cases guarded_stepE: "guarded_step e s t"

definition owned :: "sf_state \<Rightarrow> bool" where
  "owned s \<longleftrightarrow> (\<forall>k f. map_of (folders s) k = Some f \<longrightarrow> has_owner f (folderId f) s)"

lemma has_owner_kept:
  assumes env: "good_env e" and inv: "sf_inv e s" and ho: "has_owner sc fid s"
    and f: "map_of (folders s) (folderKey sc fid) = Some f" and g: "\<not> owner_accepts e ev s"
  shows "has_owner sc fid (sf_exec e ev s)"
proof -
  let ?t = "sf_exec e ev s"
  obtain p m where m: "map_of (memberships s) (memberKey sc fid p) = Some m" "memStatus m = MActive" "memRole m = Owner"
    using ho by (auto simp: has_owner_def)
  have fo: "folders_ok e s" using inv by (simp add: sf_inv_def)
  note cf = known_colon_free [OF env fo f]
  show ?thesis
  proof (cases "map_of (memberships ?t) (memberKey sc fid p) = map_of (memberships s) (memberKey sc fid p)")
    case True
    with m show ?thesis by (intro has_ownerI [of _ _ _ p m]) simp_all
  next
    case False
    show ?thesis
      using env inv False
    proof (cases rule: membership_change)
      case (created who n t h m')
      then show ?thesis by (intro has_ownerI [of _ _ _ p m']) simp_all
    next
      case (joined who tok t i m')
      have "folder_known i (invFolderId i) s" using inv joined(4) by (auto simp: sf_inv_def invitations_ok_def)
      then have "colon_free (invFolderId i)"
        using known_colon_free(1) [OF env fo] by (auto simp: folder_known_def)
      with joined(7) cf(1) have eq: "same_scope sc who" "fid = invFolderId i" "p = idPrincipal who"
        by (simp_all add: memberKey_inj)
      have "storedRole who (invFolderId i) s = Some Owner"
        using m joined(7) by (simp add: storedRole_def activeMembership_def)
      with g joined(1,3,4) show ?thesis unfolding owner_accepts_def by blast
    next
      case (owner who fid' q m' n)
      have "colon_free fid'"
        using owner(1) known_colon_free(1) [OF env fo]
        by (auto simp: owner_acts_def effectiveRole_def split: option.splits)
      with owner(2) cf(1) have "same_scope sc who" "fid = fid'" by (simp_all add: memberKey_inj)
      moreover have "memRole m' = Owner" using owner(3) m by simp
      ultimately show ?thesis using owner(7) has_owner_scope by blast
    qed
  qed
qed

lemma owned_step:
  assumes "good_env e" "sf_inv e s" "owned s" "\<not> owner_accepts e ev s"
  shows "owned (sf_exec e ev s)"
  unfolding owned_def
proof (intro allI impI)
  fix k f assume f: "map_of (folders (sf_exec e ev s)) k = Some f"
  have "sf_inv e (sf_exec e ev s)" by (rule sf_inv_exec [OF assms(1,2)])
  then have k: "k = folderKey f (folderId f)" using f by (simp add: sf_inv_def folders_ok_def)
  show "has_owner f (folderId f) (sf_exec e ev s)"
  proof (cases "k \<in> folder_dom s")
    case True
    then obtain f0 where f0: "map_of (folders s) k = Some f0" by blast
    have k0: "k = folderKey f0 (folderId f0)" using f0 assms(2) by (simp add: sf_inv_def folders_ok_def)
    have "has_owner f0 (folderId f0) s" using assms(3) f0 by (simp add: owned_def)
    from has_owner_kept [OF assms(1,2) this _ assms(4), of f0] f0 k0
    have "has_owner f0 (folderId f0) (sf_exec e ev s)" by simp
    then show ?thesis using k k0 has_owner_scope [of f0 f] by simp
  next
    case False
    have "k \<in> folder_dom (sf_exec e ev s)" using f by blast
    from assms(1,2) this False show ?thesis
    proof (cases rule: new_folder)
      case (1 who n t h m)
      then have "has_owner who (folderId h) (sf_exec e ev s)" by (intro has_ownerI [of _ _ _ "idPrincipal who" m]) simp_all
      moreover have "same_scope who f" "folderId h = folderId f" using k 1(2) by simp_all
      ultimately show ?thesis using has_owner_scope by metis
    qed
  qed
qed

interpretation owned_run: transition_system "sf_start e" "guarded_step e" "\<lambda>s. good_env e \<and> sf_inv e s \<and> owned s" for e
proof
  show "sf_start e s \<Longrightarrow> good_env e \<and> sf_inv e s \<and> owned s" for s
    by (simp add: sf_start_def sf_inv_initial owned_def) (simp add: sf_initial_def)
  show "good_env e \<and> sf_inv e s \<and> owned s \<Longrightarrow> guarded_step e s t \<Longrightarrow> good_env e \<and> sf_inv e t \<and> owned t" for s t
    by (auto elim!: guarded_stepE simp: sf_inv_exec owned_step)
qed

subsection \<open>Invitations are accepted once\<close>

text \<open>A settled invitation stays settled.\<close>

definition settled_kept :: "sf_state \<Rightarrow> sf_state \<Rightarrow> bool" where
  "settled_kept s t \<longleftrightarrow> (\<forall>k i. map_of (invitations s) k = Some i \<and> invStatus i \<noteq> IPending \<longrightarrow>
     (\<exists>j. map_of (invitations t) k = Some j \<and> invStatus j = invStatus i))"

lemma settled_kept_same: "invitations t = invitations s \<Longrightarrow> settled_kept s t"
  by (auto simp: settled_kept_def)

lemma settled_kept_set:
  "map_of (invitations s) k = Some i \<Longrightarrow> invStatus i = IPending \<or> invStatus j = invStatus i \<Longrightarrow>
   invitations t = AList.update k j (invitations s) \<Longrightarrow> settled_kept s t"
  by (auto simp: settled_kept_def)

lemma expire_status: "invStatus i = IPending \<or> invStatus (expireInvitation t i) = invStatus i"
  by (simp add: expireInvitation_def)

lemma settled_kept_new:
  assumes "sf_inv e s" "good_env e"
  shows "settled_kept s (snd (createInvitation e who fid r secs t s))"
proof -
  obtain x s1 where g: "getFolder who fid CManage s = (x, s1)" by fastforce
  have fresh: "map_of (invitations s) (''inv_'' @ uuid e (sfDraws s)) = None"
  proof (rule ccontr)
    assume "map_of (invitations s) (''inv_'' @ uuid e (sfDraws s)) \<noteq> None"
    then have "\<exists>j < sfDraws s. ''inv_'' @ uuid e (sfDraws s) = ''inv_'' @ uuid e j"
      using assms(1) unfolding sf_inv_def invitations_ok_def by blast
    with assms(2) show False by (auto simp: good_env_def inj_def)
  qed
  show ?thesis
    unfolding createInvitation_def g
    by (cases x) (use fresh in \<open>auto simp: settled_kept_def Let_def getFolder_frame_eq [OF g]\<close>)
qed

fun invitation_event :: "sf_event \<Rightarrow> bool" where
  "invitation_event (CreateInvitation who f r n t) = True"
| "invitation_event (ListInvitations who f t) = True"
| "invitation_event (AcceptInvitation who tok t) = True"
| "invitation_event (RevokeInvitation who f i v t) = True"
| "invitation_event _ = False"

lemma invitations_frame: "\<not> invitation_event ev \<Longrightarrow> invitations (sf_exec e ev s) = invitations s"
  by (cases ev) (simp_all add: op_defs Let_def case_prod_beta split: option.split sum.split)

lemma settled_kept_exec:
  assumes env: "good_env e" and inv: "sf_inv e s"
  shows "settled_kept s (sf_exec e ev s)"
proof -
  consider who f r n t where "ev = CreateInvitation who f r n t" | who f t where "ev = ListInvitations who f t"
    | who tok t where "ev = AcceptInvitation who tok t" | who f i v t where "ev = RevokeInvitation who f i v t"
    | "invitations (sf_exec e ev s) = invitations s"
    using invitations_frame [of ev e s] by (cases ev) auto
  then show ?thesis
  proof cases
    case 1
    then show ?thesis by (simp add: settled_kept_new [OF inv env])
  next
    case 2
    obtain x s1 where g: "getFolder who f CManage s = (x, s1)" by fastforce
    show ?thesis
      unfolding 2 sf_exec.simps listInvitations_def g
      by (cases x) (use expire_status in \<open>auto simp: settled_kept_def Let_def getFolder_frame_eq [OF g]\<close>)
  next
    case 3
    show ?thesis
      using inv
    proof (cases rule: acceptInvitation_cases [where e = e and who = who and tok = tok and t = t])
      case (refused err)
      then show ?thesis by (simp add: 3 settled_kept_same)
    next
      case (looked iid i)
      then show ?thesis by (intro settled_kept_set [OF looked(2) expire_status]) (simp add: 3)
    next
      case (accepted iid i f)
      then show ?thesis by (intro settled_kept_set [OF accepted(2)]) (simp_all add: 3 bump_effect_def)
    qed
  next
    case 4
    obtain x s1 where g: "getFolder who f CManage s = (x, s1)" by fastforce
    show ?thesis
      unfolding 4 sf_exec.simps revokeInvitation_def g
      by (cases x) (auto simp: settled_kept_same getFolder_frame_eq [OF g] Let_def intro: settled_kept_set split: option.split)
  next
    case 5
    then show ?thesis by (rule settled_kept_same)
  qed
qed

lemma settled_kept_run:
  assumes "reaches (sf_step e) s t" "good_env e" "sf_inv e s"
  shows "settled_kept s t"
  using assms
proof (induction rule: reaches.induct)
  case (reaches_refl s)
  show ?case by (rule settled_kept_same) simp
next
  case (reaches_step s t u)
  have "sf_inv e t" using folders_run.reaches_inv [OF reaches_step.hyps(1)] reaches_step.prems by simp
  then have "settled_kept t u"
    using reaches_step.hyps(2) settled_kept_exec [OF reaches_step.prems(1)] by (auto elim!: sf_stepE)
  then show ?case using reaches_step.IH [OF reaches_step.prems] by (fastforce simp: settled_kept_def)
qed

subsection \<open>Billing settlements\<close>

definition billed_kept :: "sf_state \<Rightarrow> sf_state \<Rightarrow> bool" where
  "billed_kept s t \<longleftrightarrow> (\<forall>b x. map_of (billingSettlements s) b = Some x \<and> x \<noteq> [] \<longrightarrow>
     map_of (billingSettlements t) b = Some x)"

fun settlement_event :: "sf_event \<Rightarrow> bool" where
  "settlement_event (SettleTask tid st u c b) = True"
| "settlement_event _ = False"

lemma billing_frame: "\<not> settlement_event ev \<Longrightarrow> billingSettlements (sf_exec e ev s) = billingSettlements s"
  by (cases ev) (simp_all add: op_defs Let_def case_prod_beta split: option.split sum.split)

lemma billed_kept_exec: "billed_kept s (sf_exec e ev s)"
proof (cases "settlement_event ev")
  case True
  then obtain tid st u c b where "ev = SettleTask tid st u c b" by (cases ev) auto
  then show ?thesis
    by (auto simp: billed_kept_def settleTask_def Let_def setTask_def truthy_iff split: option.split if_splits)
next
  case False
  then show ?thesis by (simp add: billing_frame billed_kept_def)
qed

lemma billed_kept_run: "reaches (sf_step e) s t \<Longrightarrow> billed_kept s t"
proof (induction rule: reaches.induct)
  case (reaches_step s t u)
  then show ?case using billed_kept_exec by (auto elim!: sf_stepE simp: billed_kept_def)
qed (simp add: billed_kept_def)

subsection \<open>Reserved tasks keep their identity\<close>

definition task_same :: "task_reservation \<Rightarrow> task_reservation \<Rightarrow> bool" where
  "task_same x y \<longleftrightarrow> taskId y = taskId x \<and> taskFolderId y = taskFolderId x \<and> taskSessionId y = taskSessionId x
     \<and> taskRequestHash y = taskRequestHash x"

definition tasks_kept :: "sf_state \<Rightarrow> sf_state \<Rightarrow> bool" where
  "tasks_kept s t \<longleftrightarrow> (\<forall>k x. map_of (tasks s) k = Some x \<longrightarrow> (\<exists>y. map_of (tasks t) k = Some y \<and> task_same x y))"

lemma task_same_refl [simp]: "task_same x x"
  by (simp add: task_same_def)

lemma tasks_kept_same: "tasks t = tasks s \<Longrightarrow> tasks_kept s t"
  by (simp add: tasks_kept_def task_same_def)

lemma tasks_kept_trans: "tasks_kept s t \<Longrightarrow> tasks_kept t u \<Longrightarrow> tasks_kept s u"
  by (fastforce simp: tasks_kept_def task_same_def)

lemma tasks_kept_replace:
  assumes "find (\<lambda>x. taskId x = tid) (map snd xs) = Some x" "task_same x x'" "map_of xs k = Some z"
  shows "\<exists>y. map_of (update_first (\<lambda>(k, y). taskId y = tid) (\<lambda>(k, y). (k, x')) xs) k = Some y \<and> task_same z y"
  using assms(1,3)
proof (induction xs)
  case (Cons a xs)
  then show ?case using assms(2) by (cases a) (auto simp: task_same_def split: if_splits)
qed simp

fun task_event :: "sf_event \<Rightarrow> bool" where
  "task_event (ReserveTask who f ses idem h) = True"
| "task_event (BindTaskRuntime tid r c u a b) = True"
| "task_event (SettleTask tid st u c b) = True"
| "task_event _ = False"

lemma tasks_frame: "\<not> task_event ev \<Longrightarrow> tasks (sf_exec e ev s) = tasks s"
  by (cases ev) (simp_all add: op_defs role_cached_def Let_def case_prod_beta split: option.split sum.split)

lemma reserveTask_new:
  "map_of (tasks s) k = Some x \<Longrightarrow> map_of (tasks (snd (reserveTask e who f ses idem h s))) k = Some x"
  by (auto simp: reserveTask_def Let_def case_prod_beta split: option.split sum.split)

lemma tasks_kept_exec: "tasks_kept s (sf_exec e ev s)"
proof (cases "task_event ev")
  case False
  then show ?thesis by (simp add: tasks_frame tasks_kept_same)
next
  case True
  then consider who f ses idem h where "ev = ReserveTask who f ses idem h"
    | tid r c u a b where "ev = BindTaskRuntime tid r c u a b" | tid st u c b where "ev = SettleTask tid st u c b"
    by (cases ev) auto
  then show ?thesis
  proof cases
    case 1
    then show ?thesis by (auto simp: tasks_kept_def task_same_def reserveTask_new)
  next
    case 2
    then show ?thesis
      by (cases "find (\<lambda>x. taskId x = tid) (jvalues (tasks s))")
        (auto simp: bindTaskRuntime_def Let_def setTask_def tasks_kept_same jvalues_def tasks_kept_def task_same_def [of _ "_\<lparr>taskStatus := _\<rparr>"] intro!: tasks_kept_replace)
  next
    case 3
    then show ?thesis
      by (cases "find (\<lambda>x. taskId x = tid) (jvalues (tasks s))")
        (auto simp: settleTask_def Let_def setTask_def tasks_kept_same jvalues_def tasks_kept_def task_same_def [of _ "_\<lparr>taskStatus := _\<rparr>"] intro!: tasks_kept_replace)
  qed
qed

lemma tasks_kept_run: "reaches (sf_step e) s t \<Longrightarrow> tasks_kept s t"
proof (induction rule: reaches.induct)
  case (reaches_step s t u)
  then show ?case using tasks_kept_exec by (auto elim!: sf_stepE intro: tasks_kept_trans)
qed (simp add: tasks_kept_same)

subsection \<open>The folder audit log\<close>

lemma resource_type_text_inj [simp]: "resource_type_text a = resource_type_text b \<longleftrightarrow> a = b"
  by (cases a; cases b) simp_all

lemma folder_outcome_text_inj [simp]: "folder_outcome_text a = folder_outcome_text b \<longleftrightarrow> a = b"
  by (cases a; cases b) simp_all

lemma map_option_text_inj [simp]:
  "map_option resource_type_text a = map_option resource_type_text b \<longleftrightarrow> a = b"
  by (cases a; cases b) simp_all

interpretation folder_log: audit_log folder_audit_body faPreviousHash faRecordHash sha for sha
proof
  show "a = b" if "folder_audit_body a = folder_audit_body b" "faRecordHash a = faRecordHash b" for a b
    using that unfolding folder_audit_body_def stringify_inj by (auto intro!: folder_audit_record.equality)
qed

abbreviation folder_chain :: "js_env \<Rightarrow> sf_state \<Rightarrow> bool" where
  "folder_chain e s \<equiv> chain_ok folder_audit_body faPreviousHash faRecordHash (sha256 e) ''GENESIS'' (folderAudit s)"

definition folder_audit_next :: "js_env \<Rightarrow> sf_state \<Rightarrow> sf_state \<Rightarrow> bool" where
  "folder_audit_next e s t \<longleftrightarrow> prefix (folderAudit s) (folderAudit t) \<and> (folder_chain e s \<longrightarrow> folder_chain e t)"

lemma folder_audit_next_same: "folderAudit t = folderAudit s \<Longrightarrow> folder_audit_next e s t"
  by (simp add: folder_audit_next_def)

lemma folder_audit_next_append:
  assumes "folderAudit u = folderAudit s"
  shows "folder_audit_next e s (appendFolderAudit e a f act out code subj rt rid corr u)"
proof -
  let ?t = "appendFolderAudit e a f act out code subj rt rid corr u"
  obtain r where r: "folderAudit ?t = folderAudit s @ [r]" "faRecordHash r = sha256 e (folder_audit_body r)"
    "faPreviousHash r = chain_head faRecordHash ''GENESIS'' (folderAudit s)"
    by (cases "folderAudit s = []")
      (simp_all add: appendFolderAudit_def Let_def at_last_def chain_head_def folder_audit_body_def assms)
  then have "folder_chain e s \<longrightarrow> folder_chain e ?t" by (auto intro: folder_log.append_keeps_chain)
  with r(1) show ?thesis by (simp add: folder_audit_next_def)
qed

lemma folder_audit_next_folders:
  "folder_audit_next e s t \<Longrightarrow> folder_audit_next e s (t\<lparr>folders := x\<rparr>)"
  by (simp add: folder_audit_next_def)

lemma rebind_audit: "folder_audit_next e s (snd (rebind e who source target rt rid b t s))"
  by (simp add: rebind_def Let_def case_prod_beta folder_audit_next_same folder_audit_next_append split: sum.split)

lemma rebind_audit': "folderAudit u = folderAudit s \<Longrightarrow> folder_audit_next e s (snd (rebind e who source target rt rid b t u))"
  using rebind_audit [of e u] by (simp add: folder_audit_next_def)

lemma folder_audit_next_exec: "folder_audit_next e s (sf_exec e ev s)"
  by (cases ev) (simp_all add: op_defs Let_def case_prod_beta folder_audit_next_same folder_audit_next_append
    folder_audit_next_folders rebind_audit' split: option.split sum.split)

interpretation folder_audit_run: transition_system "\<lambda>s. s = sf_initial" "sf_step e" "folder_chain e" for e
proof
  show "s = sf_initial \<Longrightarrow> folder_chain e s" for s by (simp add: sf_initial_def)
  show "folder_chain e s \<Longrightarrow> sf_step e s t \<Longrightarrow> folder_chain e t" for s t
    using folder_audit_next_exec by (auto elim!: sf_stepE simp: folder_audit_next_def)
qed

subsection \<open>A sample run\<close>

definition sf_env :: js_env where
  "sf_env = \<lparr>clock = (\<lambda>n. 0), uuid = (\<lambda>n. replicate n CHR ''u''), token = (\<lambda>n. replicate n CHR ''t''),
     sha256 = (\<lambda>x. CHR ''h'' # x)\<rparr>"

definition sf_run :: "js_env \<Rightarrow> sf_event list \<Rightarrow> sf_state \<Rightarrow> sf_state" where
  "sf_run e evs s = fold (sf_exec e) evs s"

lemma sf_run_simps [simp]: "sf_run e [] s = s" "sf_run e (ev # evs) s = sf_run e evs (sf_exec e ev s)"
  by (simp_all add: sf_run_def)

lemma reaches_exec: "reaches (sf_step e) r s \<Longrightarrow> reaches (sf_step e) r (sf_exec e ev s)"
  using reaches_step [where step = "sf_step e"] sf_stepI by blast

lemma sf_run_reaches: "reaches (sf_step e) r s \<Longrightarrow> reaches (sf_step e) r (sf_run e evs s)"
  by (induction evs arbitrary: s) (simp_all add: reaches_exec del: sf_exec.simps)

lemma sf_env_good: "good_env sf_env"
  by (auto simp: good_env_def sf_env_def colon_free_def inj_def dest: arg_cong [of _ _ length])

definition person :: "string \<Rightarrow> folder_identity" where
  "person p = \<lparr>scTenant = ''t'', scOrganization = ''o'', scWorkspace = ''w'', idPrincipal = p\<rparr>"

lemma person_fields [simp]: "idPrincipal (person p) = p" "same_scope (person p) (person q)"
  "scTenant (person p) = ''t''" "scOrganization (person p) = ''o''" "scWorkspace (person p) = ''w''"
  by (simp_all add: person_def same_scope_def)

definition plansKey :: string where
  "plansKey = folderKey (person []) ''fld_''"

definition plansMember :: "string \<Rightarrow> string" where
  "plansMember q = memberKey (person []) ''fld_'' q"

lemma person_keys [simp]:
  "folderKey (person p) ''fld_'' = plansKey" "memberKey (person p) ''fld_'' q = plansMember q"
  "plansMember p = plansMember q \<longleftrightarrow> p = q"
  by (simp_all add: plansKey_def plansMember_def folderKey_cong [of "person p" "person []"]
      memberKey_cong [of "person p" "person []"])

definition ann_folder :: sf_state where
  "ann_folder = sf_exec sf_env (CreateFolder (person ''ann'') ''Plans'' 0) sf_initial"

definition bob_invited :: sf_state where
  "bob_invited = sf_exec sf_env (CreateInvitation (person ''ann'') ''fld_'' Editor 3600 1000) ann_folder"

definition bob_joined :: sf_state where
  "bob_joined = sf_exec sf_env (AcceptInvitation (person ''bob'') ''ttt'' 2000) bob_invited"

lemma demo_reaches:
  "reaches (sf_step sf_env) sf_initial ann_folder" "reaches (sf_step sf_env) sf_initial bob_invited"
  "reaches (sf_step sf_env) sf_initial bob_joined"
  unfolding bob_joined_def bob_invited_def ann_folder_def by (intro reaches_exec reaches_refl)+

definition ann_member :: folder_membership where
  "ann_member = \<lparr>scTenant = ''t'', scOrganization = ''o'', scWorkspace = ''w'', memFolderId = ''fld_'',
     memPrincipalId = ''ann'', memRole = Owner, memStatus = MActive, memVersion = 1, acceptedInvitationId = None,
     memCreatedAt = 0, memUpdatedAt = 0, memRevokedAt = None\<rparr>"

definition plans_folder :: shared_folder where
  "plans_folder = \<lparr>scTenant = ''t'', scOrganization = ''o'', scWorkspace = ''w'', folderId = ''fld_'',
     folderName = ''Plans'', aclVersion = 1, cacheEpoch = 0, folderVersion = 1, createdByPrincipalId = ''ann'',
     folderCreatedAt = 0, folderUpdatedAt = 0, archivedAt = None\<rparr>"

lemma trim_plans: "js_trim ''Plans'' = ''Plans''"
  by code_simp

lemma ann_folder_facts [simp]:
  "folders ann_folder = [(plansKey, plans_folder)]"
  "memberships ann_folder = [(plansMember ''ann'', ann_member)]"
  "invitations ann_folder = []" "invitationByDigest ann_folder = []" "authorizationCache ann_folder = []"
  "sfDraws ann_folder = 2"
  by (simp_all add: ann_folder_def createFolder_def Let_def trim_plans sf_env_def sf_initial_def plans_folder_def
      ann_member_def)

definition bob_invitation :: stored_invitation where
  "bob_invitation = \<lparr>scTenant = ''t'', scOrganization = ''o'', scWorkspace = ''w'', invFolderId = ''fld_'',
     invitationId = ''inv_uu'', invitedByPrincipalId = ''ann'', acceptedByPrincipalId = None, invRole = Editor,
     invStatus = IPending, invExpiresAt = 3601000, acceptedAt = None, invRevokedAt = None, invVersion = 1,
     invCreatedAt = 1000, invUpdatedAt = 1000, tokenDigest = ''httt''\<rparr>"

lemma bob_invited_facts [simp]:
  "folders bob_invited = folders ann_folder" "memberships bob_invited = memberships ann_folder"
  "sfDraws bob_invited = 5" "invitations bob_invited = [(''inv_uu'', bob_invitation)]" "invitationByDigest bob_invited = [(''httt'', ''inv_uu'')]"
  by (simp_all add: bob_invited_def createInvitation_def getFolder_def lookupFolder_def role_cached_def storedRole_def
      activeMembership_def folderRoleAllows_def plans_folder_def ann_member_def sf_env_def Let_def bob_invitation_def
      eval_nat_numeral)

lemma bob_joined_facts:
  "map_of (memberships bob_joined) (plansMember ''bob'')
     = Some (acceptedMembership (person ''bob'') bob_invitation None 2000)"
  "map_of (folders bob_joined) plansKey = Some (bumped 2000 plans_folder)"
  "map_of (memberships bob_joined) (plansMember ''ann'') = Some ann_member"
  "sfDraws bob_joined = 6"
  "\<exists>p m. acceptInvitation sf_env (person ''bob'') ''ttt'' 2000 bob_invited = (Inr (p, m, False), bob_joined)
     \<and> invitationId p = ''inv_uu''"
  "\<And>p. p \<noteq> ''ann'' \<Longrightarrow> p \<noteq> ''bob'' \<Longrightarrow> map_of (memberships bob_joined) (plansMember p) = None"
proof -
  have sk: "scopeKey bob_invitation = scopeKey (person ''bob'')" by (simp add: bob_invitation_def scopeKey_def)
  note eval = acceptInvitation_def sf_env_def Let_def expireInvitation_def acceptPending_def bump_def lookupFolder_def
  have m: "memberships bob_joined = [(plansMember ''ann'', ann_member),
      (plansMember ''bob'', acceptedMembership (person ''bob'') bob_invitation None 2000)]"
    using sk by (simp add: bob_joined_def eval) (simp add: bob_invitation_def)
  then show "map_of (memberships bob_joined) (plansMember ''bob'')
     = Some (acceptedMembership (person ''bob'') bob_invitation None 2000)"
    "map_of (memberships bob_joined) (plansMember ''ann'') = Some ann_member"
    "\<And>p. p \<noteq> ''ann'' \<Longrightarrow> p \<noteq> ''bob'' \<Longrightarrow> map_of (memberships bob_joined) (plansMember p) = None"
    by simp_all
  show "map_of (folders bob_joined) plansKey = Some (bumped 2000 plans_folder)" "sfDraws bob_joined = 6"
    using sk by (simp_all add: bob_joined_def eval) (simp_all add: bob_invitation_def)
  show "\<exists>p m. acceptInvitation sf_env (person ''bob'') ''ttt'' 2000 bob_invited = (Inr (p, m, False), bob_joined)
     \<and> invitationId p = ''inv_uu''"
    using sk by (simp add: bob_joined_def eval)
      (simp add: bob_invitation_def publicInvitation_def folder_invitation.defs)
qed

subsection \<open>Properties\<close>

text \<open>C28. The authorization cache is transparent: in every reachable state the role answered through the
  cache is the role read from the folder and its memberships.\<close>

theorem cached_role_is_current:
  assumes "good_env e" and "reaches (sf_step e) sf_initial s"
  shows "fst (role_cached who fid s) = effectiveRole who fid s"
  using assms reachable_sf_inv role_cached_cases by (metis fst_conv)

theorem cached_role_is_current_witness:
  "fst (role_cached (person ''bob'') ''fld_'' bob_joined) = Some Editor"
  unfolding cached_role_is_current [OF sf_env_good demo_reaches(3)]
  by (simp add: effectiveRole_def bob_joined_facts storedRole_def activeMembership_def acceptedMembership_def
      bob_invitation_def plans_folder_def)

lemma getFolder_allowed:
  assumes "good_env e" "sf_inv e s" "map_of (folders s) (folderKey who fid) = Some f" "archivedAt f = None"
    and "storedRole who fid s = Some r" "folderRoleAllows r cap"
  shows "\<exists>c. getFolder who fid cap s = (Inr f, s\<lparr>authorizationCache := c\<rparr>)"
proof -
  have eff: "effectiveRole who fid s = Some r" using assms(3-5) by (simp add: effectiveRole_def)
  obtain c where "role_cached who fid s = (effectiveRole who fid s, s\<lparr>authorizationCache := c\<rparr>)"
    using role_cached_cases [OF assms(1,2)] by blast
  then show ?thesis using assms(3,6) eff by (intro exI [of _ c]) (simp add: getFolder_def lookupFolder_def)
qed

lemma no_role_denied:
  assumes "good_env e" "sf_inv e s" "folder_known who fid s" "activeMembership who (idPrincipal who) fid s = None"
  shows "fst (getFolder who fid cap s) = Inl FOLDER_ACCESS_DENIED"
proof -
  obtain f where f: "map_of (folders s) (folderKey who fid) = Some f" using assms(3) by (auto simp: folder_known_def)
  have "effectiveRole who fid s = None" using assms(4) f by (simp add: effectiveRole_def storedRole_def)
  moreover obtain c where "role_cached who fid s = (effectiveRole who fid s, s\<lparr>authorizationCache := c\<rparr>)"
    using role_cached_cases [OF assms(1,2)] by blast
  ultimately have "fst (role_cached who fid s) = None" by simp
  then show ?thesis using f by (cases "role_cached who fid s") (simp add: getFolder_def lookupFolder_def)
qed

text \<open>Without an active membership a principal stays out until it accepts an invitation itself.\<close>

lemma stays_out:
  assumes "good_env e" "sf_inv e s" "folder_known him fid s" "activeMembership him (idPrincipal him) fid s = None"
    and "\<And>tok t. ev \<noteq> AcceptInvitation him tok t"
  shows "folder_known him fid (sf_exec e ev s) \<and> activeMembership him (idPrincipal him) fid (sf_exec e ev s) = None"
proof
  let ?t = "sf_exec e ev s" and ?k = "memberKey him fid (idPrincipal him)"
  obtain f where f: "map_of (folders s) (folderKey him fid) = Some f" using assms(3) by (auto simp: folder_known_def)
  have fo: "folders_ok e s" using assms(2) by (simp add: sf_inv_def)
  have cf: "colon_free fid" by (rule known_colon_free(1) [OF assms(1) fo f])
  have "folderKey him fid \<in> folder_dom ?t"
  proof (cases "creation_event ev")
    case True
    then obtain who n t where ev: "ev = CreateFolder who n t" by (cases ev) auto
    show ?thesis
      unfolding ev sf_exec.simps by (cases rule: createFolder_cases [of e who n t s]) (use f in auto)
  next
    case False
    then show ?thesis using folder_dom_frame [OF False] f by blast
  qed
  then show "folder_known him fid ?t" by (auto simp: folder_known_def)
  have "map_of (memberships ?t) ?k = map_of (memberships s) ?k"
  proof (rule ccontr)
    assume "map_of (memberships ?t) ?k \<noteq> map_of (memberships s) ?k"
    with assms(1,2) show False
    proof (cases rule: membership_change)
      case (created who n t h m)
      then have "same_scope him who" "fid = folderId h" using cf by (simp_all add: memberKey_inj)
      then have "folderKey him fid = folderKey who (folderId h)" by simp
      from f [unfolded this] created(3) show False by simp
    next
      case (joined who tok t i m)
      have "folder_known i (invFolderId i) s" using assms(2) joined(4) by (auto simp: sf_inv_def invitations_ok_def)
      then have "colon_free (invFolderId i)" using known_colon_free(1) [OF assms(1) fo] by (auto simp: folder_known_def)
      with joined(7) cf have "same_scope him who" "idPrincipal him = idPrincipal who" by (simp_all add: memberKey_inj)
      then have "him = who" by (auto simp: same_scope_def intro: folder_identity.equality)
      with joined(1) assms(5) show False by blast
    next
      case (owner who fid' p m n)
      then show False using assms(4) by (simp add: activeMembership_def)
    qed
  qed
  then show "activeMembership him (idPrincipal him) fid ?t = None" using assms(4) by (simp add: activeMembership_def)
qed

lemma stays_out_run:
  assumes "good_env e" "sf_inv e s" "folder_known him fid s" "activeMembership him (idPrincipal him) fid s = None"
    and "\<And>tok t. AcceptInvitation him tok t \<notin> set evs"
  shows "sf_inv e (sf_run e evs s) \<and> folder_known him fid (sf_run e evs s)
    \<and> activeMembership him (idPrincipal him) fid (sf_run e evs s) = None"
  using assms(2-5)
proof (induction evs arbitrary: s)
  case (Cons ev evs)
  have 1: "sf_inv e (sf_exec e ev s)" by (rule sf_inv_exec [OF assms(1) Cons.prems(1)])
  have "folder_known him fid (sf_exec e ev s) \<and> activeMembership him (idPrincipal him) fid (sf_exec e ev s) = None"
    by (rule stays_out [OF assms(1) Cons.prems(1-3)]) (use Cons.prems(4) in auto)
  then show ?case using Cons.IH [OF 1] Cons.prems(4) by (simp del: sf_exec.simps)
qed simp

text \<open>C29. A revocation is effective at once and for good: after \<open>revokeMembership\<close> the revoked principal is
  denied every capability on the folder, cache or not, through any further operations of anybody,
  until that principal accepts a new invitation.\<close>

theorem revoked_member_stays_out:
  assumes "good_env e" and "reaches (sf_step e) sf_initial s"
    and "revokeMembership e who fid (idPrincipal him) v t s = (Inr m, s1)" and "same_scope him who"
    and "\<forall>tok t. AcceptInvitation him tok t \<notin> set evs"
  shows "fst (getFolder him fid cap (sf_run e evs s1)) = Inl FOLDER_ACCESS_DENIED"
proof -
  have inv: "sf_inv e s" by (rule reachable_sf_inv [OF assms(1,2)])
  have s1: "s1 = snd (revokeMembership e who fid (idPrincipal him) v t s)" using assms(3) by simp
  have inv1: "sf_inv e s1" unfolding s1 by (rule sf_inv_member_ops [OF assms(1) inv])
  have "folder_known him fid s1 \<and> activeMembership him (idPrincipal him) fid s1 = None"
    using assms(1) inv
  proof (cases rule: revokeMembership_cases [where e = e and who = who and fid = fid and target = "idPrincipal him" and v = v and t = t])
    case (changed f c n)
    then show ?thesis
      using folderKey_cong [OF assms(4)] memberKey_cong [OF assms(4)] unfolding s1
      by (simp add: folder_known_def activeMembership_def member_stored_def bump_effect_def)
  qed (use assms(3) in simp)
  then show ?thesis
    using stays_out_run [OF assms(1) inv1, of him fid evs] no_role_denied [OF assms(1)] assms(5) by simp
qed

lemma ann_manages_joined:
  "\<exists>c. getFolder (person ''ann'') ''fld_'' CManage bob_joined =
    (Inr (bumped 2000 plans_folder), bob_joined\<lparr>authorizationCache := c\<rparr>)"
proof (rule getFolder_allowed [OF sf_env_good reachable_sf_inv [OF sf_env_good demo_reaches(3)]])
  show "storedRole (person ''ann'') ''fld_'' bob_joined = Some Owner"
    by (simp add: storedRole_def activeMembership_def bob_joined_facts ann_member_def)
qed (simp_all add: bob_joined_facts folderRoleAllows_def plans_folder_def)

theorem revoked_member_stays_out_witness:
  "fst (getFolder (person ''bob'') ''fld_'' CRead
     (snd (revokeMembership sf_env (person ''ann'') ''fld_'' ''bob'' 1 3000 bob_joined))) = Inl FOLDER_ACCESS_DENIED"
proof -
  let ?r = "revokeMembership sf_env (person ''ann'') ''fld_'' ''bob'' 1 3000 bob_joined"
  obtain m where m: "revokeMembership sf_env (person ''ann'') ''fld_'' (idPrincipal (person ''bob'')) 1 3000 bob_joined
    = (Inr m, snd ?r)"
  proof -
    obtain c where g: "getFolder (person ''ann'') ''fld_'' CManage bob_joined =
      (Inr (bumped 2000 plans_folder), bob_joined\<lparr>authorizationCache := c\<rparr>)" using ann_manages_joined by blast
    have f: "map_of (folders (bob_joined\<lparr>authorizationCache := c\<rparr>)) (folderKey (person ''ann'') ''fld_'')
      = Some (bumped 2000 plans_folder)" by (simp add: bob_joined_facts)
    show ?thesis
      by (rule that, rule prod_eqI)
        (simp_all add: revokeMembership_def g activeMembership_def bob_joined_facts acceptedMembership_def
          bob_invitation_def storeMembership_known [OF f])
  qed
  show ?thesis
    using revoked_member_stays_out [OF sf_env_good demo_reaches(3) m, of "[]" CRead] by simp
qed



text \<open>C31. Every folder keeps an owner: along any run in which no owner of a folder accepts an invitation to
  that same folder, every stored folder has at least one active owner, whatever roles are changed,
  memberships revoked or ownerships transferred.\<close>

theorem folder_keeps_an_owner:
  assumes "good_env e" and "reaches (guarded_step e) sf_initial s" and "map_of (folders s) k = Some f"
  shows "1 \<le> ownerCount f (folderId f) s"
proof -
  have "sf_start e sf_initial" using assms(1) by (simp add: sf_start_def)
  from owned_run.reachable_inv [OF this assms(2)] have "sf_inv e s" "owned s" by simp_all
  then show ?thesis
    using assms(3) by (simp only: owned_def ownerCount_pos sf_inv_def memberships_ok_def)
qed

lemma demo_guarded: "reaches (guarded_step sf_env) sf_initial bob_joined"
proof -
  have 1: "guarded_step sf_env sf_initial ann_folder"
    unfolding ann_folder_def by (rule guarded_stepI) (simp add: owner_accepts_def)
  have 2: "guarded_step sf_env ann_folder bob_invited"
    unfolding bob_invited_def by (rule guarded_stepI) (simp add: owner_accepts_def)
  have 3: "guarded_step sf_env bob_invited bob_joined"
    unfolding bob_joined_def
    by (rule guarded_stepI) (auto simp: owner_accepts_def storedRole_def activeMembership_def bob_invitation_def)
  show ?thesis using 1 2 3 by (meson reaches_refl reaches_step)
qed

theorem folder_keeps_an_owner_witness: "1 \<le> ownerCount (bumped 2000 plans_folder) ''fld_'' bob_joined"
  using folder_keeps_an_owner [OF sf_env_good demo_guarded bob_joined_facts(2)] by (simp add: plans_folder_def)

definition ann_demoted :: sf_state where
  "ann_demoted = sf_exec sf_env (AcceptInvitation (person ''ann'') ''ttt'' 2000) bob_invited"

text \<open>The exception for accepting owners is real: the sole owner of a folder who accepts an invitation to it is
  demoted to the invited role, and the folder is left without any owner.\<close>

theorem owner_acceptance_orphans_folder:
  "\<exists>e s f. good_env e \<and> reaches (sf_step e) sf_initial s \<and> map_of (folders s) (folderKey f (folderId f)) = Some f
     \<and> archivedAt f = None \<and> ownerCount f (folderId f) s = 0"
proof -
  have sk: "scopeKey bob_invitation = scopeKey (person ''ann'')" by (simp add: bob_invitation_def scopeKey_def)
  let ?f = "bumped 2000 plans_folder"
  have sc: "same_scope ?f (person ''ann'')" by (simp add: same_scope_def plans_folder_def)
  have fid: "folderId ?f = ''fld_''" by (simp add: plans_folder_def)
  have fold: "map_of (folders ann_demoted) plansKey = Some ?f"
    and mem: "memberships ann_demoted = [(plansMember ''ann'', acceptedMembership (person ''ann'') bob_invitation (Some ann_member) 2000)]"
    using sk by (simp_all add: ann_demoted_def acceptInvitation_def sf_env_def Let_def expireInvitation_def acceptPending_def
      bump_def lookupFolder_def) (simp_all add: bob_invitation_def)
  have "ownerCount ?f (folderId ?f) ann_demoted = 0"
    by (simp add: ownerCount_def mem acceptedMembership_def bob_invitation_def)
  moreover have "map_of (folders ann_demoted) (folderKey ?f (folderId ?f)) = Some ?f"
    using fold folderKey_cong [OF sc] fid by simp
  moreover have "archivedAt ?f = None" by (simp add: plans_folder_def)
  moreover have "reaches (sf_step sf_env) sf_initial ann_demoted"
    unfolding ann_demoted_def by (rule reaches_exec [OF demo_reaches(2)])
  ultimately show ?thesis using sf_env_good by blast
qed

text \<open>An invitation is used at most once and never after its expiry: when an acceptance creates a membership,
  the invitation was unexpired, and no later acceptance, by anybody and with any token, creates a
  membership from the same invitation.\<close>

theorem invitation_accepted_at_most_once:
  assumes "good_env e" and "reaches (sf_step e) sf_initial s"
    and "acceptInvitation e who tok t s = (Inr (p, m, False), s1)" and "reaches (sf_step e) s1 u"
    and "acceptInvitation e who2 tok2 t2 u = (Inr (p2, m2, False), u1)"
  shows "t < invExpiresAt p \<and> invitationId p2 \<noteq> invitationId p"
proof -
  have inv: "sf_inv e s" by (rule reachable_sf_inv [OF assms(1,2)])
  have s1: "s1 = sf_exec e (AcceptInvitation who tok t) s" using assms(3) by simp
  have inv1: "sf_inv e s1" unfolding s1 by (rule sf_inv_exec [OF assms(1) inv])
  have invu: "sf_inv e u" using folders_run.reaches_inv [OF assms(4)] assms(1) inv1 by simp
  obtain i where i: "map_of (invitations s1) (invitationId p) = Some i" "invStatus i = IAccepted" "t < invExpiresAt p"
    using inv
  proof (cases rule: acceptInvitation_cases [where e = e and who = who and tok = tok and t = t])
    case (accepted iid i f)
    have "invitationId i = iid" using inv accepted(2) by (simp add: sf_inv_def invitations_ok_def)
    with accepted assms(3) show ?thesis
      by (intro that [of "accepted_invitation who t i"])
        (auto simp: bump_effect_def publicInvitation_def folder_invitation.defs accepted_invitation_def)
  qed (use assms(3) in auto)
  have "settled_kept s1 u" by (rule settled_kept_run [OF assms(4,1) inv1])
  then obtain j where j: "map_of (invitations u) (invitationId p) = Some j" "invStatus j = IAccepted"
    using i(1,2) by (fastforce simp: settled_kept_def)
  obtain k where k: "map_of (invitations u) (invitationId p2) = Some k" "invStatus k = IPending"
    using invu
  proof (cases rule: acceptInvitation_cases [where e = e and who = who2 and tok = tok2 and t = t2])
    case (accepted iid i f)
    have "invitationId i = iid" using invu accepted(2) by (simp add: sf_inv_def invitations_ok_def)
    with accepted assms(5) show ?thesis
      by (intro that [of i]) (auto simp: publicInvitation_def folder_invitation.defs accepted_invitation_def)
  qed (use assms(5) in auto)
  from i(3) j k show ?thesis by auto
qed

definition cid_invited :: sf_state where
  "cid_invited = sf_exec sf_env (CreateInvitation (person ''ann'') ''fld_'' Viewer 3600 3000) bob_joined"

lemma cid_invited_facts:
  "map_of (invitationByDigest cid_invited) ''httttttt'' = Some ''inv_uuuuuu''"
  "\<exists>i. map_of (invitations cid_invited) ''inv_uuuuuu'' = Some i \<and> invStatus i = IPending \<and> invExpiresAt i = 3603000
     \<and> scopeKey i = scopeKey (person ''cid'') \<and> invFolderId i = ''fld_'' \<and> invitationId i = ''inv_uuuuuu''"
  "map_of (memberships cid_invited) (plansMember ''cid'') = None"
  "map_of (folders cid_invited) plansKey = Some (bumped 2000 plans_folder)"
proof -
  obtain c where g: "getFolder (person ''ann'') ''fld_'' CManage bob_joined =
    (Inr (bumped 2000 plans_folder), bob_joined\<lparr>authorizationCache := c\<rparr>)" using ann_manages_joined by blast
  have d: "uuid sf_env (sfDraws bob_joined) = ''uuuuuu''" "token sf_env (Suc (sfDraws bob_joined)) = ''ttttttt''"
    by (simp_all add: bob_joined_facts sf_env_def eval_nat_numeral)
  show "map_of (invitationByDigest cid_invited) ''httttttt'' = Some ''inv_uuuuuu''"
    by (simp add: cid_invited_def createInvitation_def g Let_def d) (simp add: sf_env_def)
  show "\<exists>i. map_of (invitations cid_invited) ''inv_uuuuuu'' = Some i \<and> invStatus i = IPending \<and> invExpiresAt i = 3603000
     \<and> scopeKey i = scopeKey (person ''cid'') \<and> invFolderId i = ''fld_'' \<and> invitationId i = ''inv_uuuuuu''"
    by (simp add: cid_invited_def createInvitation_def g Let_def d) (simp add: scopeKey_def)
  show "map_of (memberships cid_invited) (plansMember ''cid'') = None"
    "map_of (folders cid_invited) plansKey = Some (bumped 2000 plans_folder)"
    by (simp_all add: cid_invited_def createInvitation_def g Let_def bob_joined_facts)
qed

theorem invitation_accepted_at_most_once_witness:
  "\<exists>m u1 p2. acceptInvitation sf_env (person ''cid'') ''ttttttt'' 4000 cid_invited = (Inr (p2, m, False), u1)
     \<and> invitationId p2 \<noteq> ''inv_uu''"
proof -
  obtain p m where b: "acceptInvitation sf_env (person ''bob'') ''ttt'' 2000 bob_invited = (Inr (p, m, False), bob_joined)"
    "invitationId p = ''inv_uu''"
    using bob_joined_facts(5) by blast
  obtain i where i: "map_of (invitations cid_invited) ''inv_uuuuuu'' = Some i" "invStatus i = IPending"
    "invExpiresAt i = 3603000" "scopeKey i = scopeKey (person ''cid'')" "invFolderId i = ''fld_''"
    using cid_invited_facts(2) by blast
  obtain p2 m2 u1 where c: "acceptInvitation sf_env (person ''cid'') ''ttttttt'' 4000 cid_invited = (Inr (p2, m2, False), u1)"
    using i cid_invited_facts(1,3,4)
    by (simp add: acceptInvitation_def sf_env_def Let_def expireInvitation_def acceptPending_def bump_def lookupFolder_def)
  have r: "reaches (sf_step sf_env) bob_joined cid_invited" unfolding cid_invited_def by (rule reaches_exec [OF reaches_refl])
  from invitation_accepted_at_most_once [OF sf_env_good demo_reaches(2) b(1) r c] b(2) c show ?thesis by auto
qed

text \<open>The non-null assertions of the code hold: in a reachable state neither the deletion of a folder nor
  the acceptance of an invitation nor a transfer of ownership meets a missing entry.\<close>

theorem non_null_assertions_hold:
  assumes "good_env e" and "reaches (sf_step e) sf_initial s"
  shows "fst (deleteFolder e who fid t s) \<noteq> Inl TypeError
    \<and> fst (acceptInvitation e who tok t s) \<noteq> Inl TypeError
    \<and> fst (transferOwnership e who fid target v previous t s) \<noteq> Inl TypeError"
proof (intro conjI)
  note inv = reachable_sf_inv [OF assms]
  show "fst (deleteFolder e who fid t s) \<noteq> Inl TypeError"
    using assms(1) inv
    by (cases rule: deleteFolder_cases [where e = e and who = who and fid = fid and t = t]) (simp_all add: Let_def)
  show "fst (acceptInvitation e who tok t s) \<noteq> Inl TypeError"
    using inv by (cases rule: acceptInvitation_cases [where e = e and who = who and tok = tok and t = t]) simp_all
  show "fst (transferOwnership e who fid target v previous t s) \<noteq> Inl TypeError"
    using assms(1) inv
    by (cases rule: transferOwnership_cases [where e = e and who = who and fid = fid and target = target
          and v = v and previous = previous and t = t]) auto
qed

theorem non_null_assertions_hold_witness:
  "fst (transferOwnership sf_env (person ''ann'') ''fld_'' ''bob'' 2 Editor 3000 bob_joined) \<noteq> Inl TypeError"
  using non_null_assertions_hold [OF sf_env_good demo_reaches(3)] by blast

text \<open>The folder audit log is append-only and hash-chained: in every reachable state each record carries the
  hash of its predecessor and of its own text, and no later operation changes or removes a record.\<close>

theorem folder_audit_chained:
  assumes "reaches (sf_step e) sf_initial s" and "reaches (sf_step e) s t"
  shows "folder_chain e s \<and> prefix (folderAudit s) (folderAudit t)"
proof
  show "folder_chain e s" by (rule folder_audit_run.reachable_inv [OF refl assms(1)])
  show "prefix (folderAudit s) (folderAudit t)"
    using assms(2)
  proof (induction rule: reaches.induct)
    case (reaches_step s t u)
    then show ?case
      using folder_audit_next_exec by (auto elim!: sf_stepE simp: folder_audit_next_def intro: prefix_order.trans)
  qed simp
qed

theorem folder_audit_chained_witness:
  "folder_chain sf_env bob_invited \<and> prefix (folderAudit bob_invited) (folderAudit bob_joined)"
  by (rule folder_audit_chained [OF demo_reaches(2)])
    (simp only: bob_joined_def reaches_exec [OF reaches_refl])

lemma reserveTask_stored:
  assumes "reserveTask e who fid session idem h s = (Inr (x, fresh), s1)"
  shows "map_of (tasks s1) (scopeKey who @ '':'' @ idem) = Some x" "taskFolderId x = fid" "taskSessionId x = session"
    "taskRequestHash x = h"
  using assms by (auto simp: reserveTask_def Let_def split: option.splits sum.splits prod.splits if_splits)

text \<open>A retried reservation starts no second task: after a task was reserved under an idempotency key, the
  same request answers, whenever it is admitted, with the same task and reports it as not created.\<close>

theorem task_reservation_is_idempotent:
  assumes "reserveTask e who fid session idem h s = (Inr (x, fresh), s1)" and "reaches (sf_step e) s1 u"
    and "reserveTask e who fid session idem h u = (Inr (y, fresh2), u1)"
  shows "taskId y = taskId x \<and> \<not> fresh2"
proof -
  let ?k = "scopeKey who @ '':'' @ idem"
  note x = reserveTask_stored [OF assms(1)]
  then obtain z where z: "map_of (tasks u) ?k = Some z" "task_same x z"
    using tasks_kept_run [OF assms(2)] unfolding tasks_kept_def by blast
  obtain v u2 where g: "getFolder who fid CTurn u = (v, u2)" by fastforce
  have "map_of (tasks u2) ?k = Some z" using z(1) getFolder_frame_eq(6) [OF g] by simp
  then show ?thesis
    using assms(3) x z(2) by (cases v) (auto simp: reserveTask_def g Let_def task_same_def)
qed

definition ann_task :: sf_state where
  "ann_task = snd (reserveTask sf_env (person ''ann'') ''fld_'' ''ses'' ''idem'' ''hash'' bob_joined)"

theorem task_reservation_is_idempotent_witness:
  "\<exists>x y u1. fst (reserveTask sf_env (person ''ann'') ''fld_'' ''ses'' ''idem'' ''hash'' bob_joined) = Inr (x, True)
     \<and> reserveTask sf_env (person ''ann'') ''fld_'' ''ses'' ''idem'' ''hash'' ann_task = (Inr (y, False), u1)
     \<and> taskId y = taskId x"
proof -
  have inv: "sf_inv sf_env bob_joined" by (rule reachable_sf_inv [OF sf_env_good demo_reaches(3)])
  have r: "storedRole (person ''ann'') ''fld_'' bob_joined = Some Owner"
    by (simp add: storedRole_def activeMembership_def bob_joined_facts ann_member_def)
  obtain c where g: "getFolder (person ''ann'') ''fld_'' CTurn bob_joined =
      (Inr (bumped 2000 plans_folder), bob_joined\<lparr>authorizationCache := c\<rparr>)"
    using getFolder_allowed [OF sf_env_good inv _ _ r, of "bumped 2000 plans_folder" CTurn]
    by (auto simp: bob_joined_facts plans_folder_def folderRoleAllows_def)
  have none: "tasks bob_joined = []"
    unfolding bob_joined_def bob_invited_def ann_folder_def by (simp only: tasks_frame task_event.simps not_False_eq_True) (simp add: sf_initial_def)
  obtain x where x: "reserveTask sf_env (person ''ann'') ''fld_'' ''ses'' ''idem'' ''hash'' bob_joined = (Inr (x, True), ann_task)"
    by (simp add: ann_task_def reserveTask_def g Let_def none)
  have inv2: "sf_inv sf_env ann_task" unfolding ann_task_def by (rule sf_inv_tasks(1) [OF sf_env_good inv])
  have f2: "map_of (folders ann_task) (folderKey (person ''ann'') ''fld_'') = Some (bumped 2000 plans_folder)"
    "storedRole (person ''ann'') ''fld_'' ann_task = Some Owner"
    using r by (simp_all add: ann_task_def reserveTask_def g Let_def none bob_joined_facts storedRole_def activeMembership_def)
  obtain c2 where g2: "getFolder (person ''ann'') ''fld_'' CTurn ann_task =
      (Inr (bumped 2000 plans_folder), ann_task\<lparr>authorizationCache := c2\<rparr>)"
    using getFolder_allowed [OF sf_env_good inv2 f2(1) _ f2(2), of CTurn] by (auto simp: plans_folder_def folderRoleAllows_def)
  obtain y b u1 where y: "reserveTask sf_env (person ''ann'') ''fld_'' ''ses'' ''idem'' ''hash'' ann_task = (Inr (y, b), u1)"
    using reserveTask_stored [OF x] by (auto simp: reserveTask_def g2 Let_def)
  from task_reservation_is_idempotent [OF x reaches_refl y] x y show ?thesis by auto
qed

text \<open>A billing settlement pays for one task: once a task is settled under a settlement id, no other task
  is ever settled under it, and every attempt to do so is a conflict.\<close>

theorem settlement_pays_one_task:
  assumes "settleTask tid st usage credit (Some b) s = (Inr x, s1)" and "b \<noteq> []" and "tid \<noteq> []"
    and "reaches (sf_step e) s1 u" and "tid2 \<noteq> tid"
  shows "\<exists>err. settleTask tid2 st2 usage2 credit2 (Some b) u = (Inl err, u)"
proof -
  have "map_of (billingSettlements s1) b = Some tid"
    using assms(1-3) by (auto simp: settleTask_def Let_def setTask_def truthy_iff find_Some_iff split: option.splits if_splits)
  then have "map_of (billingSettlements u) b = Some tid"
    using billed_kept_run [OF assms(4)] assms(3) by (simp add: billed_kept_def)
  then show ?thesis
    using assms(2,3,5) by (auto simp: settleTask_def Let_def find_Some_iff split: option.split)
qed

definition sample_task :: task_reservation where
  "sample_task = \<lparr>taskKey = ''k'', taskFolderId = ''fld_'', taskPrincipalId = ''ann'', taskSessionId = ''ses'',
     taskRequestHash = ''hash'', taskId = ''tsk_1'', runId = None, codexTurnId = None, upstreamWorkId = None,
     admissionDecisionId = None, usageDedupeKey = None, creditReservationId = None, billingSettlementId = None,
     taskStatus = TRunning\<rparr>"

definition two_tasks :: sf_state where
  "two_tasks = sf_initial\<lparr>tasks := [(''k'', sample_task), (''l'', sample_task\<lparr>taskId := ''tsk_2''\<rparr>)]\<rparr>"

theorem settlement_pays_one_task_witness:
  "\<exists>err u. u = snd (settleTask ''tsk_1'' TCompleted None None (Some ''bill'') two_tasks)
     \<and> settleTask ''tsk_2'' TCompleted None None (Some ''bill'') u = (Inl err, u)"
proof -
  let ?u = "snd (settleTask ''tsk_1'' TCompleted None None (Some ''bill'') two_tasks)"
  obtain x where x: "settleTask ''tsk_1'' TCompleted None None (Some ''bill'') two_tasks = (Inr x, ?u)"
    by (simp add: settleTask_def two_tasks_def sample_task_def jvalues_def sf_initial_def Let_def)
  have "\<exists>err. settleTask ''tsk_2'' TCompleted None None (Some ''bill'') ?u = (Inl err, ?u)"
    by (rule settlement_pays_one_task [OF x _ _ reaches_refl [of "sf_step sf_env"]]) simp_all
  then show ?thesis by blast
qed

end
