(* ===== verification/Authorization.thy ===== *)
theory Authorization
  imports Js_Prelude
begin

section \<open>Authorization decisions\<close>

text \<open>
  \<open>packages/authz/src/index.ts\<close>: the role table, \<open>authorize\<close>, the static membership directory and the explicit
  development adapter, over the principal and membership schemas of
  \<open>packages/control-plane-contracts/src/index.ts\<close>.  Actions are strings, as in the code, and an action is
  known when it is in the enumeration of the contracts.
\<close>

datatype org_role = OrgOwner | OrgAdmin | OrgDeveloper | OrgViewer | OrgBilling | OrgSupport | OrgOperator
  | OrgSecurityApprover | OrgKmsOperator
datatype org_membership_status = OmActive | OmDisabled | OmRevoked
datatype principal_kind = EndUser | InternalService

record org_membership =
  omSubject :: string
  omIssuer :: string
  omOrganizationId :: string
  omRole :: org_role
  omStatus :: org_membership_status
  omWorkspaceIds :: "string list"
  omUpdatedAt :: instant

record auth_principal =
  apKind :: principal_kind
  apSubject :: string
  apIssuer :: string
  apAudience :: "string list"
  apAuthenticatedAt :: instant
  apExpiresAt :: instant
  apLevel :: string
  apMfa :: bool
  apMemberships :: "org_membership list"

datatype reason_code = ROLE_ALLOWED | ROLE_DENIED | UNKNOWN_ACTION | RESOURCE_SCOPE_MISSING
  | PRINCIPAL_KIND_MISMATCH | MEMBERSHIP_INACTIVE | WORKSPACE_MEMBERSHIP_MISSING

record auth_decision =
  allow :: bool
  reasonCode :: reason_code

record auth_resource =
  rsOrganizationId :: string
  rsWorkspaceId :: "string option"
  rsSessionId :: "string option"
  rsResourceType :: string
  rsResourceId :: "string option"

definition organizationMembershipSchema_ok :: "org_membership \<Rightarrow> bool" where
  "organizationMembershipSchema_ok m \<longleftrightarrow>
    ident (omSubject m) \<and> ident (omIssuer m) \<and> ident (omOrganizationId m)
    \<and> list_all ident (omWorkspaceIds m) \<and> length (omWorkspaceIds m) \<le> 1000 \<and> iso_datetime (omUpdatedAt m)"

definition authPrincipalSchema_parse :: "auth_principal \<Rightarrow> auth_principal option" where
  "authPrincipalSchema_parse p =
    (if ident (apSubject p) \<and> ident (apIssuer p) \<and> list_all ident (apAudience p)
        \<and> 1 \<le> length (apAudience p) \<and> length (apAudience p) \<le> 16
        \<and> iso_datetime (apAuthenticatedAt p) \<and> iso_datetime (apExpiresAt p)
        \<and> 1 \<le> length (apLevel p) \<and> length (apLevel p) \<le> 128
        \<and> list_all organizationMembershipSchema_ok (apMemberships p) \<and> length (apMemberships p) \<le> 1000
     then Some p else None)"

subsection \<open>The role table\<close>

definition authorizationActions :: "string list" where
  "authorizationActions =
    [''session.read'', ''session.create'', ''session.update'', ''turn.start'', ''turn.interrupt'',
     ''turn.steer'', ''event.replay'', ''event.subscribe'', ''approval.read'', ''approval.decide'',
     ''notification.subscribe'', ''notification.read'', ''notification.revoke'', ''attachment.upload'',
     ''attachment.read'', ''attachment.delete'', ''source.create'', ''source.read'', ''source.delete'',
     ''source.reindex'', ''source.search'', ''citation.read'', ''artifact.metadata.read'', ''artifact.read'',
     ''artifact.download'', ''workspace.snapshot.read'', ''usage.read'', ''usage.reconcile'',
     ''billing.read'', ''billing.financial.read'', ''billing.webhook.receive'', ''audit.read'',
     ''metrics.read'', ''folder.read'', ''folder.manage'', ''folder.create'', ''folder.invite.create'',
     ''folder.invite.accept'', ''folder.invite.revoke'', ''folder.membership.manage'',
     ''folder.ownership.transfer'', ''folder.resource.move'', ''folder.export'', ''provider.catalog.read'',
     ''provider.readiness.read'', ''support.grant.create'', ''support.grant.read'', ''support.grant.revoke'',
     ''support.grant.approve'', ''support.access.use'', ''break_glass.request'', ''break_glass.approve'']"

fun ROLE_ACTIONS :: "org_role \<Rightarrow> string list" where
  "ROLE_ACTIONS OrgOwner =
    [''*'']"
| "ROLE_ACTIONS OrgAdmin =
    [''session.read'', ''session.create'', ''session.update'', ''turn.start'', ''turn.interrupt'',
     ''turn.steer'', ''workspace.snapshot.read'', ''usage.read'', ''billing.read'',
     ''billing.financial.read'', ''usage.reconcile'', ''audit.read'', ''metrics.read'', ''folder.read'',
     ''folder.manage'', ''folder.create'', ''folder.invite.create'', ''folder.invite.accept'',
     ''folder.invite.revoke'', ''folder.membership.manage'', ''folder.ownership.transfer'',
     ''folder.resource.move'', ''folder.export'', ''provider.catalog.read'', ''provider.readiness.read'',
     ''source.create'', ''source.read'', ''source.delete'', ''source.reindex'', ''source.search'',
     ''citation.read'', ''notification.subscribe'', ''notification.read'', ''notification.revoke'',
     ''support.grant.read'', ''support.grant.approve'', ''break_glass.approve'']"
| "ROLE_ACTIONS OrgDeveloper =
    [''session.read'', ''session.create'', ''session.update'', ''turn.start'', ''turn.interrupt'',
     ''turn.steer'', ''event.replay'', ''event.subscribe'', ''approval.read'', ''approval.decide'',
     ''notification.subscribe'', ''notification.read'', ''notification.revoke'', ''attachment.upload'',
     ''attachment.read'', ''attachment.delete'', ''artifact.metadata.read'', ''artifact.read'',
     ''artifact.download'', ''workspace.snapshot.read'', ''usage.read'', ''billing.read'', ''audit.read'',
     ''folder.read'', ''folder.manage'', ''folder.create'', ''folder.invite.create'',
     ''folder.invite.accept'', ''folder.invite.revoke'', ''folder.membership.manage'',
     ''folder.ownership.transfer'', ''folder.resource.move'', ''folder.export'', ''provider.catalog.read'',
     ''provider.readiness.read'', ''source.create'', ''source.read'', ''source.delete'', ''source.reindex'',
     ''source.search'', ''citation.read'', ''support.grant.create'', ''support.grant.read'',
     ''support.grant.revoke'']"
| "ROLE_ACTIONS OrgViewer =
    [''session.read'', ''event.replay'', ''event.subscribe'', ''approval.read'', ''notification.subscribe'',
     ''notification.read'', ''notification.revoke'', ''attachment.read'', ''artifact.metadata.read'',
     ''artifact.read'', ''artifact.download'', ''workspace.snapshot.read'', ''usage.read'', ''billing.read'',
     ''audit.read'', ''folder.read'', ''folder.invite.accept'', ''provider.catalog.read'',
     ''provider.readiness.read'', ''source.read'', ''source.search'', ''citation.read'',
     ''support.grant.create'', ''support.grant.read'', ''support.grant.revoke'']"
| "ROLE_ACTIONS OrgBilling =
    [''usage.read'', ''billing.read'', ''billing.financial.read'', ''usage.reconcile'', ''audit.read'']"
| "ROLE_ACTIONS OrgSupport =
    [''session.read'', ''support.grant.read'', ''support.grant.approve'', ''support.access.use'']"
| "ROLE_ACTIONS OrgOperator =
    [''metrics.read'', ''provider.readiness.read'', ''support.grant.read'', ''break_glass.request'']"
| "ROLE_ACTIONS OrgSecurityApprover =
    [''support.grant.read'', ''support.grant.approve'', ''break_glass.approve'']"
| "ROLE_ACTIONS OrgKmsOperator =
    [''support.grant.read'', ''support.grant.approve'', ''support.access.use'', ''break_glass.approve'']"

subsection \<open>The decision\<close>

definition decision :: "bool \<Rightarrow> reason_code \<Rightarrow> auth_decision" where
  "decision a r = \<lparr>allow = a, reasonCode = r\<rparr>"

definition authorize :: "auth_principal \<Rightarrow> string \<Rightarrow> auth_resource option \<Rightarrow> org_membership list \<Rightarrow> auth_decision" where
  "authorize p act resource ms =
    (if act \<notin> set authorizationActions then decision False UNKNOWN_ACTION
     else
       (case resource of
          None \<Rightarrow> decision False RESOURCE_SCOPE_MISSING
        | Some r \<Rightarrow>
          if rsOrganizationId r = [] \<or> rsResourceType r = [] then decision False RESOURCE_SCOPE_MISSING
          else if apKind p \<noteq> EndUser then decision False PRINCIPAL_KIND_MISMATCH
          else
            (case find (\<lambda>m. omOrganizationId m = rsOrganizationId r \<and> omSubject m = apSubject p
                     \<and> omIssuer m = apIssuer p) ms of
               None \<Rightarrow> decision False MEMBERSHIP_INACTIVE
             | Some m \<Rightarrow>
               if omStatus m \<noteq> OmActive then decision False MEMBERSHIP_INACTIVE
               else if truthy (rsWorkspaceId r) \<and> omWorkspaceIds m \<noteq> []
                       \<and> the (rsWorkspaceId r) \<notin> set (omWorkspaceIds m)
                 then decision False WORKSPACE_MEMBERSHIP_MISSING
               else if ''*'' \<in> set (ROLE_ACTIONS (omRole m)) \<or> act \<in> set (ROLE_ACTIONS (omRole m))
                 then decision True ROLE_ALLOWED
               else decision False ROLE_DENIED)))"

definition membershipsFor :: "org_membership list \<Rightarrow> string \<Rightarrow> string \<Rightarrow> org_membership list" where
  "membershipsFor directory subject issuer = filter (\<lambda>m. omSubject m = subject \<and> omIssuer m = issuer) directory"

subsection \<open>The development adapter\<close>

text \<open>A header is absent, one value or a list of values, of which the first counts.\<close>

datatype header = HAbsent | HOne string | HMany "string list"

fun firstHeader :: "header \<Rightarrow> string option" where
  "firstHeader HAbsent = None"
| "firstHeader (HOne v) = Some v"
| "firstHeader (HMany []) = None"
| "firstHeader (HMany (v # vs)) = Some v"

datatype auth_error = AUTH_REQUIRED | ZodError

definition dev_authenticate :: "string \<Rightarrow> string \<Rightarrow> (string \<Rightarrow> header) \<Rightarrow> instant \<Rightarrow> auth_error + auth_principal" where
  "dev_authenticate issuer subject headers t =
    (let org = firstHeader (headers ''x-tenant-id''); ws = firstHeader (headers ''x-workspace-id'')
     in if \<not> truthy org \<or> \<not> truthy ws then Inl AUTH_REQUIRED
        else
          (case authPrincipalSchema_parse
             \<lparr>apKind = EndUser, apSubject = subject, apIssuer = issuer, apAudience = [''persistent-codex-local''],
              apAuthenticatedAt = t, apExpiresAt = t + 5 * 60000, apLevel = ''dev'', apMfa = False,
              apMemberships =
                [\<lparr>omSubject = subject, omIssuer = issuer, omOrganizationId = the org, omRole = OrgOwner,
                  omStatus = OmActive, omWorkspaceIds = [the ws], omUpdatedAt = t\<rparr>]\<rparr> of
             None \<Rightarrow> Inl ZodError
           | Some p \<Rightarrow> Inr p))"

end
