(* ===== verification/Authorization_Props.thy ===== *)
theory Authorization_Props
  imports Authorization
begin

section \<open>Authorization: properties\<close>

text \<open>The role table, the isolation of decisions from foreign memberships, and the separation of duties between
  opening and approving support access.\<close>

subsection \<open>The role table and the decision\<close>

lemma role_actions_known: "set (ROLE_ACTIONS r) \<subseteq> insert ''*'' (set authorizationActions)"
  by (cases r) (simp_all add: authorizationActions_def)

lemma star_only_owner: "''*'' \<in> set (ROLE_ACTIONS r) \<longleftrightarrow> r = OrgOwner"
  by (cases r) simp_all

text \<open>The role table is well formed: every action a role lists is an action of the contracts, or the
  wildcard, which only the owner role has; the decision is an allowance exactly with the code ROLE_ALLOWED.\<close>

theorem role_table_is_well_formed:
  "set (ROLE_ACTIONS r) \<subseteq> insert ''*'' (set authorizationActions) \<and> (''*'' \<in> set (ROLE_ACTIONS r) \<longleftrightarrow> r = OrgOwner)
   \<and> (allow (authorize p act res ms) \<longleftrightarrow> reasonCode (authorize p act res ms) = ROLE_ALLOWED)"
  using role_actions_known star_only_owner by (simp add: authorize_def decision_def split: option.split)

lemma authorize_cases:
  "allow (authorize p act (Some r) ms) \<longleftrightarrow>
     act \<in> set authorizationActions \<and> rsOrganizationId r \<noteq> [] \<and> rsResourceType r \<noteq> [] \<and> apKind p = EndUser
     \<and> (\<exists>m. find (\<lambda>m. omOrganizationId m = rsOrganizationId r \<and> omSubject m = apSubject p \<and> omIssuer m = apIssuer p) ms
            = Some m
          \<and> omStatus m = OmActive
          \<and> (case rsWorkspaceId r of None \<Rightarrow> True | Some w \<Rightarrow> w = [] \<or> omWorkspaceIds m = [] \<or> w \<in> set (omWorkspaceIds m))
          \<and> (omRole m = OrgOwner \<or> act \<in> set (ROLE_ACTIONS (omRole m))))"
  by (cases "rsWorkspaceId r")
    (auto simp: authorize_def decision_def star_only_owner split: option.split)

definition same_member :: "auth_principal \<Rightarrow> auth_resource \<Rightarrow> org_membership \<Rightarrow> bool" where
  "same_member p r m \<longleftrightarrow> omOrganizationId m = rsOrganizationId r \<and> omSubject m = apSubject p \<and> omIssuer m = apIssuer p"

lemma find_filter: "find P (filter P xs) = find P xs"
  by (induction xs) simp_all

lemma authorize_own_memberships: "authorize p act (Some r) (filter (same_member p r) ms) = authorize p act (Some r) ms"
  by (simp only: authorize_def same_member_def [abs_def] find_filter option.case)

text \<open>Tenant isolation: the decision depends on nothing but the memberships of this subject and issuer in the
  resource's organization.  Memberships of other principals or organizations, wherever they stand in the list and
  whatever their role, change neither the decision nor its reason, and a principal with no membership of its own there
  is refused.\<close>

theorem decision_ignores_foreign_memberships:
  assumes "filter (same_member p r) ms = filter (same_member p r) ms'"
  shows "authorize p act (Some r) ms = authorize p act (Some r) ms'
    \<and> (allow (authorize p act (Some r) ms) \<longrightarrow> filter (same_member p r) ms' \<noteq> [])"
proof
  show "authorize p act (Some r) ms = authorize p act (Some r) ms'"
    using authorize_own_memberships [of p act r ms] authorize_own_memberships [of p act r ms'] assms by simp
  have "\<not> allow (authorize p act (Some r) [])" by (simp add: authorize_cases)
  then show "allow (authorize p act (Some r) ms) \<longrightarrow> filter (same_member p r) ms' \<noteq> []"
    using authorize_own_memberships [of p act r ms] assms by auto
qed

lemma separated_duties:
  "\<not> (''support.grant.create'' \<in> set (ROLE_ACTIONS r) \<and> ''support.grant.approve'' \<in> set (ROLE_ACTIONS r))"
  "\<not> (''break_glass.request'' \<in> set (ROLE_ACTIONS r) \<and> ''break_glass.approve'' \<in> set (ROLE_ACTIONS r))"
  by (cases r; simp)+

text \<open>Separation of duties: whoever may both open and approve support grants, or both request and approve
  break-glass access, holds an owner membership of that organization.\<close>

theorem only_owners_hold_both_duties:
  assumes "allow (authorize p ''support.grant.create'' (Some r) ms) \<and> allow (authorize p ''support.grant.approve'' (Some r) ms)
    \<or> allow (authorize p ''break_glass.request'' (Some r) ms) \<and> allow (authorize p ''break_glass.approve'' (Some r) ms)"
  shows "\<exists>m \<in> set ms. omRole m = OrgOwner \<and> omStatus m = OmActive \<and> omSubject m = apSubject p
    \<and> omOrganizationId m = rsOrganizationId r"
proof -
  obtain m where m: "find (\<lambda>m. omOrganizationId m = rsOrganizationId r \<and> omSubject m = apSubject p \<and> omIssuer m = apIssuer p) ms
      = Some m" "omStatus m = OmActive"
    and both: "omRole m = OrgOwner \<or> ''support.grant.create'' \<in> set (ROLE_ACTIONS (omRole m)) \<and> ''support.grant.approve'' \<in> set (ROLE_ACTIONS (omRole m))
      \<or> ''break_glass.request'' \<in> set (ROLE_ACTIONS (omRole m)) \<and> ''break_glass.approve'' \<in> set (ROLE_ACTIONS (omRole m))"
    using assms unfolding authorize_cases by auto
  from both have "omRole m = OrgOwner" using separated_duties [of "omRole m"] by blast
  moreover have "m \<in> set ms" "omSubject m = apSubject p" "omOrganizationId m = rsOrganizationId r"
    using m(1) by (auto simp: find_Some_iff)
  ultimately show ?thesis using m(2) by blast
qed

definition sample_membership :: org_membership where
  "sample_membership = \<lparr>omSubject = ''u'', omIssuer = ''i'', omOrganizationId = ''o'', omRole = OrgOwner,
     omStatus = OmActive, omWorkspaceIds = [], omUpdatedAt = 0\<rparr>"

definition sample_principal :: auth_principal where
  "sample_principal = \<lparr>apKind = EndUser, apSubject = ''u'', apIssuer = ''i'', apAudience = [''a''], apAuthenticatedAt = 0,
     apExpiresAt = 1, apLevel = ''l'', apMfa = False, apMemberships = []\<rparr>"

definition sample_resource :: auth_resource where
  "sample_resource = \<lparr>rsOrganizationId = ''o'', rsWorkspaceId = None, rsSessionId = None,
     rsResourceType = ''session'', rsResourceId = None\<rparr>"

lemma sample_allowed:
  "act \<in> set authorizationActions \<Longrightarrow> allow (authorize sample_principal act (Some sample_resource) [sample_membership])"
  by (simp add: authorize_cases sample_membership_def sample_principal_def sample_resource_def)

theorem decision_ignores_foreign_memberships_witness:
  "authorize sample_principal ''session.read'' (Some sample_resource)
     [sample_membership\<lparr>omOrganizationId := ''x''\<rparr>, sample_membership\<lparr>omSubject := ''v''\<rparr>]
   = authorize sample_principal ''session.read'' (Some sample_resource) []"
  using decision_ignores_foreign_memberships [of sample_principal sample_resource
      "[sample_membership\<lparr>omOrganizationId := ''x''\<rparr>, sample_membership\<lparr>omSubject := ''v''\<rparr>]" "[]"]
  by (simp add: same_member_def sample_membership_def sample_principal_def sample_resource_def)

theorem only_owners_hold_both_duties_witness:
  "\<exists>m \<in> set [sample_membership]. omRole m = OrgOwner \<and> omStatus m = OmActive \<and> omSubject m = apSubject sample_principal
    \<and> omOrganizationId m = rsOrganizationId sample_resource"
proof (rule only_owners_hold_both_duties)
  have "''support.grant.create'' \<in> set authorizationActions" "''support.grant.approve'' \<in> set authorizationActions"
    by (simp_all add: authorizationActions_def)
  then show "allow (authorize sample_principal ''support.grant.create'' (Some sample_resource) [sample_membership])
      \<and> allow (authorize sample_principal ''support.grant.approve'' (Some sample_resource) [sample_membership])
    \<or> allow (authorize sample_principal ''break_glass.request'' (Some sample_resource) [sample_membership])
      \<and> allow (authorize sample_principal ''break_glass.approve'' (Some sample_resource) [sample_membership])"
    using sample_allowed by blast
qed

end
