(* ===== verification/Base64_Url.thy ===== *)
theory Base64_Url
  imports Json_Text
begin

section \<open>Buffers as text\<close>

text \<open>
  \<open>Buffer.from(text)\<close> is the UTF-8 encoding; the characters of the model are the code units 0 to 255, so an
  encoded character is one byte or two.  \<open>toString('utf8')\<close> of bytes that encode anything else leaves that
  range and is \<open>None\<close>.  \<open>base64url\<close> is the unpadded alphabet with minus and underscore; decoding follows Node:
  the characters of both base64 alphabets count, an equals sign ends the input, everything else is skipped.
\<close>

subsection \<open>UTF-8\<close>

definition utf8_char :: "char \<Rightarrow> string" where
  "utf8_char c =
    (let n = of_char c :: nat in
     if n < 128 then [c] else [char_of (192 + n div 64), char_of (128 + n mod 64)])"

definition utf8_bytes :: "string \<Rightarrow> string" where
  "utf8_bytes s = concat (map utf8_char s)"

fun utf8_text :: "string \<Rightarrow> string option" where
  "utf8_text [] = Some []"
| "utf8_text (b # bs) =
    (let n = of_char b :: nat in
     if n < 128 then map_option ((#) b) (utf8_text bs)
     else case bs of
       [] \<Rightarrow> None
     | d # ds \<Rightarrow>
       (let m = of_char d :: nat in
        if (n = 194 \<or> n = 195) \<and> 128 \<le> m \<and> m < 192
        then map_option ((#) (char_of ((n - 192) * 64 + (m - 128)))) (utf8_text ds) else None))"

lemma of_char_less [simp]: "of_char c < (256 :: nat)"
  by (metis mod_less_divisor of_char_mod_256 zero_less_numeral)

lemma of_char_char_of [simp]: "n < 256 \<Longrightarrow> of_char (char_of (n :: nat)) = n"
  by simp

lemma high_byte: "\<not> n < 128 \<Longrightarrow> n < 256 \<Longrightarrow> n div 64 = 2 \<or> n div 64 = (3 :: nat)"
  by arith

lemma utf8_round_trip: "utf8_text (utf8_bytes s) = Some s"
proof (induction s)
  case (Cons c s)
  define n :: nat where "n = of_char c"
  have IH: "utf8_text (concat (map utf8_char s)) = Some s" using Cons by (simp add: utf8_bytes_def)
  have lt: "n < 256" by (simp add: n_def)
  have c: "char_of n = c" by (simp add: n_def)
  show ?case
  proof (cases "n < 128")
    case True
    then show ?thesis by (simp add: utf8_bytes_def utf8_char_def IH n_def)
  next
    case False
    have lo: "n mod 64 < 64" by simp
    have "of_char (char_of (192 + n div 64)) = 192 + n div 64"
      using high_byte [OF False lt] by (intro of_char_char_of) auto
    moreover have "of_char (char_of (128 + n mod 64)) = 128 + n mod 64"
      using lo by (intro of_char_char_of) linarith
    moreover have "192 + n div 64 = 194 \<or> 192 + n div 64 = 195" using high_byte [OF False lt] by auto
    moreover have "n div 64 * 64 + n mod 64 = n" by simp
    ultimately show ?thesis
      using False lo by (simp add: utf8_bytes_def utf8_char_def Let_def IH c flip: n_def)
  qed
qed (simp add: utf8_bytes_def)

subsection \<open>Base64\<close>

definition sextet_char :: "nat \<Rightarrow> char" where
  "sextet_char n =
    (if n < 26 then char_of (65 + n) else if n < 52 then char_of (71 + n) else if n < 62 then char_of (n - 4)
     else if n = 62 then CHR ''-'' else CHR ''_'')"

definition sextet :: "char \<Rightarrow> nat option" where
  "sextet c =
    (let n = of_char c :: nat in
     if 65 \<le> n \<and> n \<le> 90 then Some (n - 65)
     else if 97 \<le> n \<and> n \<le> 122 then Some (n - 71)
     else if 48 \<le> n \<and> n \<le> 57 then Some (n + 4)
     else if n = 45 \<or> n = 43 then Some 62
     else if n = 95 \<or> n = 47 then Some 63 else None)"

fun b64_sextets :: "nat list \<Rightarrow> nat list" where
  "b64_sextets [] = []"
| "b64_sextets [a] = [a div 4, a mod 4 * 16]"
| "b64_sextets [a, b] = [a div 4, a mod 4 * 16 + b div 16, b mod 16 * 4]"
| "b64_sextets (a # b # c # bs) =
     [a div 4, a mod 4 * 16 + b div 16, b mod 16 * 4 + c div 64, c mod 64] @ b64_sextets bs"

fun b64_octets :: "nat list \<Rightarrow> nat list" where
  "b64_octets (a # b # c # d # ds) =
     [a * 4 + b div 16, b mod 16 * 16 + c div 4, c mod 4 * 64 + d] @ b64_octets ds"
| "b64_octets [a, b, c] = [a * 4 + b div 16, b mod 16 * 16 + c div 4]"
| "b64_octets [a, b] = [a * 4 + b div 16]"
| "b64_octets _ = []"

definition base64url :: "string \<Rightarrow> string" where
  "base64url bytes = map sextet_char (b64_sextets (map of_char bytes))"

definition from_base64url :: "string \<Rightarrow> string" where
  "from_base64url text =
    map char_of (b64_octets (List.map_filter sextet (takeWhile (\<lambda>c. c \<noteq> CHR ''='') text)))"

lemma sextet_sextet_char [simp]: "n < 64 \<Longrightarrow> sextet (sextet_char n) = Some n"
  by (auto simp: sextet_def sextet_char_def Let_def)

text \<open>The characters of encoded text: none of them separates tokens or ends an encoding.\<close>

definition b64_text :: "string \<Rightarrow> bool" where
  "b64_text s \<longleftrightarrow> (\<forall>c \<in> set s. sextet c \<noteq> None)"

lemma sextet_clean: "sextet c \<noteq> None \<Longrightarrow> c \<noteq> CHR ''.'' \<and> c \<noteq> CHR ''='' \<and> \<not> js_white c"
  by (auto simp: sextet_def js_white_def Let_def split: if_splits)

lemma sextets_small: "\<forall>b \<in> set bs. b < 256 \<Longrightarrow> \<forall>n \<in> set (b64_sextets bs). n < 64"
  by (induction bs rule: b64_sextets.induct) (auto simp: less_mult_imp_div_less)

lemma b64_text_base64url [simp]: "b64_text (base64url bytes)"
proof -
  have "n < 64" if "n \<in> set (b64_sextets (map of_char bytes))" for n
    using sextets_small [of "map of_char bytes"] that by auto
  then show ?thesis by (auto simp: b64_text_def base64url_def)
qed

lemma octets_sextets: "\<forall>b \<in> set bs. b < 256 \<Longrightarrow> b64_octets (b64_sextets bs) = bs"
  by (induction bs rule: b64_sextets.induct) (auto simp: div_mult_mod_eq)

lemma base64url_round_trip: "from_base64url (base64url bytes) = bytes"
proof -
  let ?ns = "b64_sextets (map of_char bytes)"
  have small: "\<forall>n \<in> set ?ns. n < 64" using sextets_small [of "map of_char bytes"] by auto
  have "c \<noteq> CHR ''=''" if "c \<in> set (base64url bytes)" for c
    using b64_text_base64url [of bytes] that sextet_clean unfolding b64_text_def by blast
  then have "takeWhile (\<lambda>c. c \<noteq> CHR ''='') (base64url bytes) = base64url bytes" by (auto simp: takeWhile_eq_all_conv)
  moreover have "List.map_filter sextet (base64url bytes) = ?ns"
    using small by (auto simp: base64url_def map_filter_def comp_def intro!: map_idI)
  ultimately show ?thesis
    using octets_sextets [of "map of_char bytes"] unfolding from_base64url_def by (simp only:) (simp add: map_idI)
qed

lemma base64url_Nil_iff [simp]: "base64url bytes = [] \<longleftrightarrow> bytes = []"
  by (metis base64url_round_trip base64url_def b64_sextets.simps(1) list.map_disc_iff)

subsection \<open>Padded base64\<close>

definition std_char :: "char \<Rightarrow> char" where
  "std_char c = (if c = CHR ''-'' then CHR ''+'' else if c = CHR ''_'' then CHR ''/'' else c)"

definition base64 :: "string \<Rightarrow> string" where
  "base64 bytes = map std_char (base64url bytes) @ replicate ((3 - length bytes mod 3) mod 3) CHR ''=''"

lemma sextet_std_char [simp]: "sextet (std_char c) = sextet c"
  by (simp add: std_char_def sextet_def)

lemma not_equals: "sextet c \<noteq> None \<Longrightarrow> c \<noteq> CHR ''=''"
  using sextet_clean by blast

lemma base64_round_trip: "from_base64url (base64 bytes) = bytes"
proof -
  let ?b = "base64url bytes" and ?p = "\<lambda>c. c \<noteq> CHR ''=''"
  have b: "?p c" if "c \<in> set ?b" for c
    using b64_text_base64url [of bytes] that unfolding b64_text_def by (intro not_equals) blast
  have sb: "?p c" if "c \<in> set (map std_char ?b)" for c
    using b64_text_base64url [of bytes] that unfolding b64_text_def by (intro not_equals) auto
  have "takeWhile ?p (base64 bytes) = map std_char ?b @ takeWhile ?p (replicate ((3 - length bytes mod 3) mod 3) CHR ''='')"
    unfolding base64_def using sb by (rule takeWhile_append2)
  then have 1: "takeWhile ?p (base64 bytes) = map std_char ?b" by simp
  have 2: "takeWhile ?p ?b = ?b" using b by (simp only: takeWhile_eq_all_conv) blast
  have "List.map_filter sextet (map std_char ?b) = List.map_filter sextet ?b"
    by (simp add: map_filter_def filter_map comp_def)
  with 1 2 have "from_base64url (base64 bytes) = from_base64url ?b"
    by (simp only: from_base64url_def)
  then show ?thesis by (simp add: base64url_round_trip)
qed

lemma utf8_bytes_inj [simp]: "utf8_bytes a = utf8_bytes b \<longleftrightarrow> a = b"
  by (metis option.inject utf8_round_trip)

end
