(* ===== verification/Workload_Credentials.thy ===== *)
theory Workload_Credentials
  imports Base64_Url Authorization Complex_Main
begin

section \<open>Workload credentials\<close>

text \<open>
  \<open>CorpusWorkloadCredentialAuthority\<close> of \<open>packages/authz/src/index.ts\<close>: signed bearer tokens for the corpus
  workload, with a proof of possession and replay protection.  The keyed hash \<open>hmac key message\<close> and the
  digest of proof keys, both as base64url text, and JavaScript's \<open>Number\<close> on the timestamp text are
  parameters.  The payload is JSON text in base64url; a signed payload that has not the shape of
  \<open>WorkloadClaims\<close>, which the code casts without a check, is the error \<open>UNSHAPED_CLAIMS\<close>.
\<close>

datatype workload_error = WORKLOAD_SIGNING_KEY_TOO_SHORT | WORKLOAD_TTL_INVALID | WORKLOAD_AUTH_REQUIRED
  | WORKLOAD_TOKEN_MALFORMED | WORKLOAD_TOKEN_SIGNATURE_INVALID | WORKLOAD_TOKEN_REJECTED
  | WORKLOAD_SCOPE_REJECTED | WORKLOAD_PROOF_REQUIRED | WORKLOAD_REPLAY_REJECTED | WORKLOAD_PROOF_INVALID
  | WORKLOAD_PRINCIPAL_INVALID | UNSHAPED_CLAIMS

record crypto =
  hmac :: "string \<Rightarrow> string \<Rightarrow> string"
  keyHash :: "string \<Rightarrow> string"
  toNumber :: "string \<Rightarrow> rat option"

record workload_claims =
  wcVersion :: int
  wcJti :: string
  wcSubject :: string
  wcAudience :: string
  wcTenantId :: string
  wcOrganizationId :: string
  wcWorkspaceId :: string
  wcActions :: "string list"
  wcProofKeyHash :: string
  wcIssuedAt :: int
  wcExpiresAt :: int

record authority =
  signingKey :: string
  auAudience :: string
  maxTtlMs :: int
  revoked :: "string list"
  nonces :: "(string, int) jsmap"

record issued_credential =
  accessToken :: string
  proofKey :: string
  credExpiresAt :: int
  credentialId :: string

definition CORPUS_WORKLOAD_AUDIENCE :: string where
  "CORPUS_WORKLOAD_AUDIENCE = ''urn:perseverance:workspace-corpus''"

definition newAuthority :: "string \<Rightarrow> string option \<Rightarrow> int option \<Rightarrow> workload_error + authority" where
  "newAuthority key aud ttl =
    (if length key < 32 then Inl WORKLOAD_SIGNING_KEY_TOO_SHORT
     else Inr \<lparr>signingKey = key, auAudience = (case aud of None \<Rightarrow> CORPUS_WORKLOAD_AUDIENCE | Some a \<Rightarrow> a),
               maxTtlMs = (case ttl of None \<Rightarrow> 5 * 60000 | Some n \<Rightarrow> n), revoked = [], nonces = []\<rparr>)"

subsection \<open>Encoding of claims\<close>

definition claims_json :: "workload_claims \<Rightarrow> json" where
  "claims_json c = JObj
    [(''version'', JNum (wcVersion c)), (''jti'', JStr (wcJti c)), (''subject'', JStr (wcSubject c)),
     (''audience'', JStr (wcAudience c)), (''tenantId'', JStr (wcTenantId c)),
     (''organizationId'', JStr (wcOrganizationId c)), (''workspaceId'', JStr (wcWorkspaceId c)),
     (''actions'', JArr (map JStr (wcActions c))), (''proofKeyHash'', JStr (wcProofKeyHash c)),
     (''issuedAt'', JNum (wcIssuedAt c)), (''expiresAt'', JNum (wcExpiresAt c))]"

definition claims_of_json :: "json \<Rightarrow> workload_claims option" where
  "claims_of_json j =
    (case (json_num (json_get j ''version''), json_str (json_get j ''jti''), json_str (json_get j ''subject''),
           json_str (json_get j ''audience''), json_str (json_get j ''tenantId''),
           json_str (json_get j ''organizationId''), json_str (json_get j ''workspaceId''),
           json_strs (json_get j ''actions''), json_str (json_get j ''proofKeyHash''),
           json_num (json_get j ''issuedAt''), json_num (json_get j ''expiresAt'')) of
       (Some v, Some jti, Some sub, Some aud, Some t, Some org, Some ws, Some acts, Some pk, Some ia, Some ex) \<Rightarrow>
         Some \<lparr>wcVersion = v, wcJti = jti, wcSubject = sub, wcAudience = aud, wcTenantId = t,
               wcOrganizationId = org, wcWorkspaceId = ws, wcActions = acts, wcProofKeyHash = pk,
               wcIssuedAt = ia, wcExpiresAt = ex\<rparr>
     | _ \<Rightarrow> None)"

definition encode_json :: "json \<Rightarrow> string" where
  "encode_json v = base64url (utf8_bytes (stringify v))"

definition decode_json :: "string \<Rightarrow> json option" where
  "decode_json text = Option.bind (utf8_text (from_base64url text)) json_parse"

subsection \<open>Operations\<close>

definition item :: "'a list \<Rightarrow> nat \<Rightarrow> 'a option" where
  "item xs i = (if i < length xs then Some (xs ! i) else None)"

text \<open>\<open>text.match(/^Bearer (p[^\s]+)$/)?.[1]\<close> with a literal prefix \<open>p\<close>.\<close>

definition bearer :: "string \<Rightarrow> string \<Rightarrow> string option" where
  "bearer p text =
    (if prefix (''Bearer '' @ p) text
     then (let rest = drop (length (''Bearer '' @ p)) text
           in if rest \<noteq> [] \<and> list_all (\<lambda>c. \<not> js_white c) rest then Some (p @ rest) else None)
     else None)"

definition constantTimeEqual :: "string \<Rightarrow> string \<Rightarrow> bool" where
  "constantTimeEqual l r \<longleftrightarrow> length (utf8_bytes l) = length (utf8_bytes r) \<and> utf8_bytes l = utf8_bytes r"

record issue_input =
  isTenantId :: string
  isOrganizationId :: string
  isWorkspaceId :: string
  isTtlMs :: "int option"

text \<open>\<open>key\<close> and \<open>jti\<close> are what \<open>randomBytes\<close> and \<open>randomUUID\<close> answer.\<close>

definition issued_claims :: "crypto \<Rightarrow> authority \<Rightarrow> issue_input \<Rightarrow> instant \<Rightarrow> int \<Rightarrow> string \<Rightarrow> string \<Rightarrow> workload_claims" where
  "issued_claims cr a rq t ttl key jti =
    \<lparr>wcVersion = 1, wcJti = jti, wcSubject = ''workspace-corpus:'' @ isWorkspaceId rq, wcAudience = auAudience a,
     wcTenantId = isTenantId rq, wcOrganizationId = isOrganizationId rq, wcWorkspaceId = isWorkspaceId rq,
     wcActions = [''source.search'', ''citation.read''], wcProofKeyHash = keyHash cr key,
     wcIssuedAt = t, wcExpiresAt = t + ttl\<rparr>"

definition issue :: "crypto \<Rightarrow> issue_input \<Rightarrow> instant \<Rightarrow> string \<Rightarrow> string \<Rightarrow> authority \<Rightarrow> workload_error + issued_credential" where
  "issue cr rq t key jti a =
    (let ttl = min (case isTtlMs rq of None \<Rightarrow> 60000 | Some n \<Rightarrow> n) (maxTtlMs a)
     in if ttl < 1000 then Inl WORKLOAD_TTL_INVALID
        else
          (let c = issued_claims cr a rq t ttl key jti;
               payload = encode_json (claims_json c)
           in Inr \<lparr>accessToken = ''pcw1.'' @ payload @ ''.'' @ hmac cr (signingKey a) payload, proofKey = key,
                   credExpiresAt = wcExpiresAt c, credentialId = jti\<rparr>))"

definition revoke :: "string \<Rightarrow> authority \<Rightarrow> authority" where
  "revoke cid a = a\<lparr>revoked := (if cid \<in> set (revoked a) then revoked a else revoked a @ [cid])\<rparr>"

record verify_input =
  viAuthorization :: "string option"
  viProof :: "string option"
  viTimestamp :: "string option"
  viNonce :: "string option"
  viAction :: string
  viTenantId :: string
  viOrganizationId :: string
  viWorkspaceId :: string

text \<open>The signed claims of the presented token, with the token.\<close>

definition verified_claims :: "crypto \<Rightarrow> verify_input \<Rightarrow> authority \<Rightarrow> workload_error + (string \<times> workload_claims)" where
  "verified_claims cr rq a =
    (case Option.bind (viAuthorization rq) (bearer ''pcw1.'') of
       None \<Rightarrow> Inl WORKLOAD_AUTH_REQUIRED
     | Some tok \<Rightarrow>
       (let payload = item (js_split CHR ''.'' tok) 1; signature = item (js_split CHR ''.'' tok) 2
        in if \<not> truthy payload \<or> \<not> truthy signature then Inl WORKLOAD_TOKEN_MALFORMED
           else if \<not> constantTimeEqual (the signature) (hmac cr (signingKey a) (the payload))
             then Inl WORKLOAD_TOKEN_SIGNATURE_INVALID
           else
             (case decode_json (the payload) of
                None \<Rightarrow> Inl WORKLOAD_TOKEN_MALFORMED
              | Some j \<Rightarrow>
                (case claims_of_json j of None \<Rightarrow> Inl UNSHAPED_CLAIMS | Some c \<Rightarrow> Inr (tok, c)))))"

text \<open>\<open>Number(undefined)\<close> is not finite.\<close>

definition fresh_timestamp :: "crypto \<Rightarrow> string option \<Rightarrow> instant \<Rightarrow> bool" where
  "fresh_timestamp cr ts t \<longleftrightarrow>
    (case Option.bind ts (toNumber cr) of None \<Rightarrow> False | Some n \<Rightarrow> \<bar>of_int t - n\<bar> \<le> 30000)"

definition workload_principal :: "workload_claims \<Rightarrow> auth_principal" where
  "workload_principal c =
    \<lparr>apKind = InternalService, apSubject = wcSubject c, apIssuer = ''urn:perseverance:workload'',
     apAudience = [wcAudience c], apAuthenticatedAt = wcIssuedAt c, apExpiresAt = wcExpiresAt c,
     apLevel = ''workload-proof-v1'', apMfa = False, apMemberships = []\<rparr>"

definition proofMessage :: "string \<Rightarrow> verify_input \<Rightarrow> string" where
  "proofMessage tok rq = tok @ [CHR 0x0A] @ the (viTimestamp rq) @ [CHR 0x0A] @ the (viNonce rq) @ [CHR 0x0A] @ viAction rq"

definition purge :: "instant \<Rightarrow> authority \<Rightarrow> authority" where
  "purge t a = a\<lparr>nonces := filter (\<lambda>(n, ex). \<not> ex \<le> t) (nonces a)\<rparr>"

definition replayKey :: "workload_claims \<Rightarrow> verify_input \<Rightarrow> string" where
  "replayKey c rq = wcJti c @ '':'' @ the (viNonce rq)"

definition verify :: "crypto \<Rightarrow> verify_input \<Rightarrow> instant \<Rightarrow> authority \<Rightarrow> (workload_error, auth_principal, authority) outcome" where
  "verify cr rq t a =
    (case verified_claims cr rq a of
       Inl err \<Rightarrow> (Inl err, a)
     | Inr (tok, c) \<Rightarrow>
       if wcVersion c \<noteq> 1 \<or> wcAudience c \<noteq> auAudience a \<or> wcExpiresAt c \<le> t \<or> wcIssuedAt c > t + 5000
          \<or> wcJti c \<in> set (revoked a)
       then (Inl WORKLOAD_TOKEN_REJECTED, a)
       else if wcTenantId c \<noteq> viTenantId rq \<or> wcOrganizationId c \<noteq> viOrganizationId rq
          \<or> wcWorkspaceId c \<noteq> viWorkspaceId rq \<or> viAction rq \<notin> set (wcActions c)
       then (Inl WORKLOAD_SCOPE_REJECTED, a)
       else if \<not> truthy (viNonce rq) \<or> 128 < length (the (viNonce rq)) \<or> \<not> fresh_timestamp cr (viTimestamp rq) t
          \<or> \<not> truthy (viProof rq)
       then (Inl WORKLOAD_PROOF_REQUIRED, a)
       else
         (let a1 = purge t a;
              pk = item (js_split CHR ''.'' (the (viProof rq))) 0;
              ps = item (js_split CHR ''.'' (the (viProof rq))) 1
          in if map_of (nonces a1) (replayKey c rq) \<noteq> None then (Inl WORKLOAD_REPLAY_REJECTED, a1)
             else if \<not> truthy pk \<or> \<not> truthy ps \<or> keyHash cr (the pk) \<noteq> wcProofKeyHash c
               then (Inl WORKLOAD_PROOF_INVALID, a1)
             else if \<not> constantTimeEqual (the ps) (hmac cr (the pk) (proofMessage tok rq))
               then (Inl WORKLOAD_PROOF_INVALID, a1)
             else
               (let a2 = a1\<lparr>nonces := AList.update (replayKey c rq) (wcExpiresAt c) (nonces a1)\<rparr>
                in case authPrincipalSchema_parse (workload_principal c) of
                     None \<Rightarrow> (Inl WORKLOAD_PRINCIPAL_INVALID, a2)
                   | Some p \<Rightarrow> (Inr p, a2))))"

end
