(* ===== verification/Workload_Props.thy ===== *)
theory Workload_Props
  imports Workload_Credentials
begin

section \<open>Workload credentials: properties\<close>

text \<open>Claims survive encoding and decoding; an issued credential is accepted with a proof of its key; an accepted
  request cannot be replayed; and acceptance implies a signature of the authority and a proof for this very request.\<close>

subsection \<open>Encoding and splitting\<close>

lemma those_json_strs: "those (map (\<lambda>x. json_str (Some x)) (map JStr xs)) = Some xs"
  by (induction xs) auto

lemma claims_round_trip: "claims_of_json (claims_json c) = Some c"
  by (simp add: claims_of_json_def claims_json_def json_get_def those_json_strs [simplified])

lemma decode_encode: "decode_json (encode_json v) = Some v"
  by (simp add: decode_json_def encode_json_def base64url_round_trip utf8_round_trip json_parse_stringify)

lemma encode_json_clean: "b64_text (encode_json v)"
  by (simp add: encode_json_def)

lemma stringify_nonempty: "stringify j \<noteq> []"
proof
  assume "stringify j = []"
  with json_parse_stringify [of j] have "json_parse [] = Some j" by simp
  then show False by (simp add: json_parse_def skip_ws_def)
qed

lemma utf8_bytes_Nil_iff [simp]: "utf8_bytes s = [] \<longleftrightarrow> s = []"
  by (cases s) (auto simp: utf8_bytes_def utf8_char_def Let_def)

lemma encode_json_nonempty: "encode_json v \<noteq> []"
  by (simp add: encode_json_def stringify_nonempty)

lemma constantTimeEqual_iff [simp]: "constantTimeEqual l r \<longleftrightarrow> l = r"
  unfolding constantTimeEqual_def by (metis option.inject utf8_round_trip)

lemma b64_text_clean:
  "b64_text s \<Longrightarrow> CHR ''.'' \<notin> set s" "b64_text s \<Longrightarrow> list_all (\<lambda>c. \<not> js_white c) s"
  using sextet_clean by (auto simp: b64_text_def list_all_iff)

lemma bearer_match:
  "rest \<noteq> [] \<Longrightarrow> list_all (\<lambda>c. \<not> js_white c) rest \<Longrightarrow> bearer p (''Bearer '' @ p @ rest) = Some (p @ rest)"
  unfolding bearer_def Let_def by (simp add: prefix_def)

text \<open>What the proofs ask of the keyed hash: its digests are base64url text.\<close>

definition digests_are_base64url :: "crypto \<Rightarrow> bool" where
  "digests_are_base64url cr \<longleftrightarrow> (\<forall>k m. b64_text (hmac cr k m) \<and> hmac cr k m \<noteq> [])"

lemma token_parts:
  assumes "b64_text x" "b64_text y"
  shows "js_split CHR ''.'' (''pcw1.'' @ x @ ''.'' @ y) = [''pcw1'', x, y]"
  using assms js_split_sep [of "CHR ''.''" "''pcw1''" "x @ ''.'' @ y"] js_split_sep [of "CHR ''.''" x y]
  by (simp add: b64_text_clean js_split_clean)

lemma verified_claims_issued:
  assumes "digests_are_base64url cr"
    and "viAuthorization rq = Some (''Bearer '' @ ''pcw1.'' @ encode_json (claims_json c) @ ''.''
          @ hmac cr (signingKey a) (encode_json (claims_json c)))"
  shows "verified_claims cr rq a = Inr (''pcw1.'' @ encode_json (claims_json c) @ ''.''
          @ hmac cr (signingKey a) (encode_json (claims_json c)), c)"
proof -
  let ?p = "encode_json (claims_json c)" and ?s = "hmac cr (signingKey a) (encode_json (claims_json c))"
  have s: "b64_text ?s" "?s \<noteq> []" using assms(1) by (auto simp: digests_are_base64url_def)
  have w: "list_all (\<lambda>c. \<not> js_white c) (?p @ ''.'' @ ?s)"
    using b64_text_clean(2) [OF s(1)] b64_text_clean(2) [OF encode_json_clean] by (auto simp: js_white_def)
  have tok: "bearer ''pcw1.'' (''Bearer '' @ ''pcw1.'' @ ?p @ ''.'' @ ?s) = Some (''pcw1.'' @ ?p @ ''.'' @ ?s)"
    by (rule bearer_match [OF _ w]) simp
  note parts = token_parts [OF encode_json_clean s(1), of "claims_json c"]
  have i: "item (js_split CHR ''.'' (''pcw1.'' @ ?p @ ''.'' @ ?s)) 1 = Some ?p"
    "item (js_split CHR ''.'' (''pcw1.'' @ ?p @ ''.'' @ ?s)) 2 = Some ?s"
    unfolding parts by (simp_all add: item_def)
  show ?thesis
    unfolding verified_claims_def assms(2) Option.bind.simps tok option.case Let_def i
    using encode_json_nonempty s(2) by (simp add: decode_encode claims_round_trip)
qed


subsection \<open>Accepted requests\<close>

lemma verify_accepted:
  assumes "verify cr rq t a = (Inr p, b)"
  obtains tok c pk ps where "verified_claims cr rq a = Inr (tok, c)" "wcVersion c = 1" "wcAudience c = auAudience a"
    "t < wcExpiresAt c" "wcIssuedAt c \<le> t + 5000" "wcJti c \<notin> set (revoked a)"
    "wcTenantId c = viTenantId rq" "wcOrganizationId c = viOrganizationId rq" "wcWorkspaceId c = viWorkspaceId rq"
    "viAction rq \<in> set (wcActions c)" "fresh_timestamp cr (viTimestamp rq) t"
    "map_of (nonces (purge t a)) (replayKey c rq) = None"
    "item (js_split CHR ''.'' (the (viProof rq))) 0 = Some pk" "item (js_split CHR ''.'' (the (viProof rq))) 1 = Some ps"
    "keyHash cr pk = wcProofKeyHash c" "ps = hmac cr pk (proofMessage tok rq)" "p = workload_principal c"
    "b = (purge t a)\<lparr>nonces := AList.update (replayKey c rq) (wcExpiresAt c) (nonces (purge t a))\<rparr>"
proof -
  obtain tok c where vc: "verified_claims cr rq a = Inr (tok, c)"
    using assms by (auto simp: verify_def split: sum.splits)
  obtain pk ps where p: "item (js_split CHR ''.'' (the (viProof rq))) 0 = Some pk"
    "item (js_split CHR ''.'' (the (viProof rq))) 1 = Some ps"
    using assms by (auto simp: verify_def vc Let_def truthy_iff split: if_splits)
  show ?thesis
    by (rule that [OF vc _ _ _ _ _ _ _ _ _ _ _ p])
      (use assms in \<open>auto simp: verify_def vc p p [unfolded One_nat_def] Let_def authPrincipalSchema_parse_def split: if_splits\<close>)
qed

text \<open>The state after a verification: the nonces are purged or not, and at most one is added.\<close>

lemma verify_state:
  obtains (same) "snd (verify cr rq t a) = a" | (purged) "snd (verify cr rq t a) = purge t a"
  | (added) k ex where "map_of (nonces (purge t a)) k = None"
      "snd (verify cr rq t a) = (purge t a)\<lparr>nonces := AList.update k ex (nonces (purge t a))\<rparr>"
proof -
  have "snd (verify cr rq t a) = a \<or> snd (verify cr rq t a) = purge t a
    \<or> (\<exists>k ex. map_of (nonces (purge t a)) k = None
         \<and> snd (verify cr rq t a) = (purge t a)\<lparr>nonces := AList.update k ex (nonces (purge t a))\<rparr>)"
  proof (cases "verified_claims cr rq a")
    case (Inr tc)
    then show ?thesis
      by (cases tc; cases "authPrincipalSchema_parse (workload_principal (snd tc))") (simp_all add: verify_def Let_def, blast+)
  qed (simp add: verify_def)
  then show ?thesis using that by blast
qed

lemma purge_frame [simp]:
  "signingKey (purge t a) = signingKey a" "revoked (purge t a) = revoked a" "auAudience (purge t a) = auAudience a"
  by (simp_all add: purge_def)

lemma verify_frame [simp]:
  "signingKey (snd (verify cr rq t a)) = signingKey a" "revoked (snd (verify cr rq t a)) = revoked a"
  by (cases rule: verify_state [of cr rq t a]; simp)+

subsection \<open>Histories of an authority\<close>

text \<open>\<open>history cr a t b u\<close>: from the authority \<open>a\<close> at time \<open>t\<close> to \<open>b\<close> at time \<open>u\<close>, through verifications with a
  clock that does not run backwards, and revocations.\<close>

inductive history :: "crypto \<Rightarrow> authority \<Rightarrow> instant \<Rightarrow> authority \<Rightarrow> instant \<Rightarrow> bool" for cr where
  history_start: "history cr a t a t"
| history_verify: "history cr a t b u \<Longrightarrow> u \<le> v \<Longrightarrow> history cr a t (snd (verify cr rq v b)) v"
| history_revoke: "history cr a t b u \<Longrightarrow> history cr a t (revoke cid b) u"

lemma history_frame:
  "history cr a t b u \<Longrightarrow> signingKey b = signingKey a \<and> set (revoked a) \<subseteq> set (revoked b) \<and> t \<le> u"
  by (induction rule: history.induct) (auto simp: revoke_def)

text \<open>Nonce entries with distinct keys: an entry disappears only when it has expired, and is never changed.\<close>

definition nonces_ok :: "authority \<Rightarrow> bool" where
  "nonces_ok a \<longleftrightarrow> distinct (map fst (nonces a))"

lemma map_of_filter_distinct:
  "distinct (map fst m) \<Longrightarrow> map_of (filter (\<lambda>(k, v). P v) m) k =
    (case map_of m k of None \<Rightarrow> None | Some v \<Rightarrow> if P v then Some v else None)"
proof (induction m)
  case (Cons kv m)
  obtain k' v where kv: "kv = (k', v)" by fastforce
  have "map_of m k' = None" using Cons.prems kv by (auto simp: map_of_eq_None_iff)
  with Cons kv show ?case by (auto split: option.split)
qed simp

lemma nonces_ok_verify: "nonces_ok a \<Longrightarrow> nonces_ok (snd (verify cr rq t a))"
  by (cases rule: verify_state [of cr rq t a])
    (auto simp: nonces_ok_def purge_def intro!: distinct_update distinct_map_filter)

lemma nonce_kept_verify:
  assumes "nonces_ok a" "map_of (nonces a) k = Some ex" "t < ex"
  shows "map_of (nonces (snd (verify cr rq t a))) k = Some ex"
proof -
  have p: "map_of (nonces (purge t a)) k = Some ex"
    using assms by (simp add: nonces_ok_def purge_def map_of_filter_distinct)
  then show ?thesis
    by (cases rule: verify_state [of cr rq t a]) (use assms(2) in auto)
qed

lemma nonce_kept_history:
  "history cr a t b u \<Longrightarrow> nonces_ok a \<Longrightarrow> map_of (nonces a) k = Some ex \<Longrightarrow>
   nonces_ok b \<and> (u < ex \<longrightarrow> map_of (nonces b) k = Some ex)"
proof (induction rule: history.induct)
  case (history_verify a t b u v rq)
  then show ?case using nonces_ok_verify nonce_kept_verify by auto
qed (auto simp: revoke_def nonces_ok_def)

lemma verified_claims_cong:
  "viAuthorization r = viAuthorization q \<Longrightarrow> signingKey b = signingKey a \<Longrightarrow>
   verified_claims cr r b = verified_claims cr q a"
  by (simp add: verified_claims_def Let_def split: option.split)


subsection \<open>Properties\<close>

lemma issued_accepted:
  assumes "digests_are_base64url cr" and "issue cr iq t key jti a = Inr cred"
    and "b64_text key" and "key \<noteq> []"
    and "viAuthorization rq = Some (''Bearer '' @ accessToken cred)"
    and "viProof rq = Some (key @ ''.'' @ hmac cr key (proofMessage (accessToken cred) rq))"
    and "viTenantId rq = isTenantId iq" and "viOrganizationId rq = isOrganizationId iq"
    and "viWorkspaceId rq = isWorkspaceId iq" and "viAction rq = ''source.search'' \<or> viAction rq = ''citation.read''"
    and "viNonce rq = Some nonce" and "nonce \<noteq> []" and "length nonce \<le> 128"
    and "fresh_timestamp cr (viTimestamp rq) u" and "u < credExpiresAt cred" and "t \<le> u + 5000"
    and "jti \<notin> set (revoked a)" and "map_of (nonces (purge u a)) (jti @ '':'' @ nonce) = None"
    and "auAudience a \<noteq> []" and "iso_datetime t" and "iso_datetime (credExpiresAt cred)"
  shows "\<exists>p b. verify cr rq u a = (Inr p, b) \<and> apSubject p = ''workspace-corpus:'' @ isWorkspaceId iq
    \<and> apKind p = InternalService \<and> apExpiresAt p = credExpiresAt cred"
proof -
  define ttl where "ttl = min (case isTtlMs iq of None \<Rightarrow> 60000 | Some n \<Rightarrow> n) (maxTtlMs a)"
  define c where "c = issued_claims cr a iq t ttl key jti"
  have cred: "accessToken cred = ''pcw1.'' @ encode_json (claims_json c) @ ''.''
      @ hmac cr (signingKey a) (encode_json (claims_json c))" "credExpiresAt cred = wcExpiresAt c"
    using assms(2) by (auto simp: issue_def Let_def c_def ttl_def split: if_splits)
  have vc: "verified_claims cr rq a = Inr (accessToken cred, c)"
    unfolding cred(1) by (rule verified_claims_issued [OF assms(1)]) (simp add: assms(5) cred(1))
  have digest: "b64_text (hmac cr key m)" "hmac cr key m \<noteq> []" for m using assms(1) by (auto simp: digests_are_base64url_def)
  have parts: "js_split CHR ''.'' (the (viProof rq)) = [key, hmac cr key (proofMessage (accessToken cred) rq)]"
    using js_split_sep [of "CHR ''.''" key] b64_text_clean(1) [OF assms(3)] b64_text_clean(1) [OF digest(1)]
    by (simp add: assms(6) js_split_clean)
  have c: "wcVersion c = 1" "wcAudience c = auAudience a" "wcIssuedAt c = t" "wcJti c = jti"
    "wcTenantId c = isTenantId iq" "wcOrganizationId c = isOrganizationId iq" "wcWorkspaceId c = isWorkspaceId iq"
    "wcActions c = [''source.search'', ''citation.read'']" "wcProofKeyHash c = keyHash cr key"
    "wcSubject c = ''workspace-corpus:'' @ isWorkspaceId iq"
    by (simp_all add: c_def issued_claims_def)
  have parse: "authPrincipalSchema_parse (workload_principal c) = Some (workload_principal c)"
    using assms(19-21) c cred(2) by (simp add: authPrincipalSchema_parse_def workload_principal_def ident_def)
  have guards: "u < wcExpiresAt c" "\<not> t > u + 5000" "viAction rq \<in> set (wcActions c)"
    "map_of (nonces (purge u a)) (replayKey c rq) = None" "\<not> 128 < length (the (viNonce rq))"
    using assms(10,13,15,16,18) cred(2) c(4,8) by (auto simp: replayKey_def assms(11))
  have "truthy (viNonce rq)" "truthy (viProof rq)" using assms(4,12) by (simp_all add: assms(6,11))
  then have "verify cr rq u a = (Inr (workload_principal c),
      (purge u a)\<lparr>nonces := AList.update (replayKey c rq) (wcExpiresAt c) (nonces (purge u a))\<rparr>)"
    unfolding verify_def vc sum.case prod.case
    using guards assms(4,14,17) digest(2) by (simp add: c assms(7-9) Let_def parts item_def parse)
  then show ?thesis using cred(2) c(10) by (simp add: workload_principal_def)
qed

text \<open>A sample credential and a request that uses it.\<close>

definition demo_crypto :: crypto where
  "demo_crypto = \<lparr>hmac = (\<lambda>k m. ''sig''), keyHash = (\<lambda>k. k), toNumber = (\<lambda>s. Some 0)\<rparr>"

definition demo_authority :: authority where
  "demo_authority = \<lparr>signingKey = replicate 32 CHR ''k'', auAudience = CORPUS_WORKLOAD_AUDIENCE, maxTtlMs = 300000,
     revoked = [], nonces = []\<rparr>"

definition demo_input :: issue_input where
  "demo_input = \<lparr>isTenantId = ''t'', isOrganizationId = ''o'', isWorkspaceId = ''w'', isTtlMs = None\<rparr>"

definition demo_cred :: issued_credential where
  "demo_cred = projr (issue demo_crypto demo_input 1000 ''key'' ''j'' demo_authority)"

definition demo_verify :: verify_input where
  "demo_verify = \<lparr>viAuthorization = Some (''Bearer '' @ accessToken demo_cred), viProof = Some ''key.sig'',
     viTimestamp = Some ''0'', viNonce = Some ''n'', viAction = ''source.search'', viTenantId = ''t'',
     viOrganizationId = ''o'', viWorkspaceId = ''w''\<rparr>"

lemma demo_issue: "issue demo_crypto demo_input 1000 ''key'' ''j'' demo_authority = Inr demo_cred" "credExpiresAt demo_cred = 61000"
  by (simp_all add: demo_cred_def issue_def Let_def demo_input_def demo_authority_def issued_claims_def)

lemma b64_text_samples: "b64_text ''sig''" "b64_text ''key''"
  by (simp_all add: b64_text_def sextet_def Let_def)

lemma demo_digests: "digests_are_base64url demo_crypto"
  by (simp add: digests_are_base64url_def demo_crypto_def b64_text_samples)

lemma demo_conditions:
  "viProof demo_verify = Some (''key'' @ ''.'' @ hmac demo_crypto ''key'' (proofMessage (accessToken demo_cred) demo_verify))"
  "fresh_timestamp demo_crypto (viTimestamp demo_verify) 2000" "iso_datetime 1000" "iso_datetime (credExpiresAt demo_cred)"
  "auAudience demo_authority \<noteq> []"
  "map_of (nonces (purge 2000 demo_authority)) (''j'' @ '':'' @ ''n'') = None"
  by (simp_all add: demo_verify_def demo_crypto_def fresh_timestamp_def iso_datetime_def demo_issue(2) demo_authority_def
      CORPUS_WORKLOAD_AUDIENCE_def purge_def)

lemma demo_accepted: "\<exists>p b. verify demo_crypto demo_verify 2000 demo_authority = (Inr p, b)"
  using issued_accepted [OF demo_digests demo_issue(1) b64_text_samples(2) _ _ demo_conditions(1), where nonce = "''n''" and u = 2000]
    demo_conditions demo_issue(2)
  by (auto simp: demo_verify_def demo_input_def demo_authority_def)

text \<open>A credential that was issued can be used: a request that carries the issued token, names its scope and
  one of the two actions, is made before the token expires and within the skew, and proves possession of
  the proof key over a fresh timestamp and an unused nonce, is accepted, as the workload of that workspace.\<close>

theorem issued_credential_is_accepted:
  assumes "digests_are_base64url cr" and "issue cr iq t key jti a = Inr cred"
    and "b64_text key" and "key \<noteq> []"
    and "viAuthorization rq = Some (''Bearer '' @ accessToken cred)"
    and "viProof rq = Some (key @ ''.'' @ hmac cr key (proofMessage (accessToken cred) rq))"
    and "viTenantId rq = isTenantId iq" and "viOrganizationId rq = isOrganizationId iq"
    and "viWorkspaceId rq = isWorkspaceId iq" and "viAction rq = ''source.search'' \<or> viAction rq = ''citation.read''"
    and "viNonce rq = Some nonce" and "nonce \<noteq> []" and "length nonce \<le> 128"
    and "fresh_timestamp cr (viTimestamp rq) u" and "u < credExpiresAt cred" and "t \<le> u + 5000"
    and "jti \<notin> set (revoked a)" and "map_of (nonces (purge u a)) (jti @ '':'' @ nonce) = None"
    and "auAudience a \<noteq> []" and "iso_datetime t" and "iso_datetime (credExpiresAt cred)"
  shows "\<exists>p b. verify cr rq u a = (Inr p, b) \<and> apSubject p = ''workspace-corpus:'' @ isWorkspaceId iq
    \<and> apKind p = InternalService \<and> apExpiresAt p = credExpiresAt cred"
  using assms by (rule issued_accepted)

theorem issued_credential_is_accepted_witness:
  "\<exists>p b. verify demo_crypto demo_verify 2000 demo_authority = (Inr p, b) \<and> apSubject p = ''workspace-corpus:w''
    \<and> apKind p = InternalService \<and> apExpiresAt p = 61000"
  using issued_credential_is_accepted [OF demo_digests demo_issue(1) b64_text_samples(2) _ _ demo_conditions(1), where nonce = "''n''" and u = 2000]
    demo_conditions demo_issue(2)
  by (simp add: demo_verify_def demo_input_def demo_authority_def)

text \<open>C33. A request cannot be replayed: once a token was accepted with a nonce, no later request with the same
  token and nonce is accepted, through any verifications and revocations with a clock that does not run
  backwards.\<close>

theorem accepted_request_is_not_replayed:
  assumes "nonces_ok a" and "verify cr rq t a = (Inr p, a1)" and "history cr a1 t b u" and "u \<le> v"
    and "viAuthorization rq2 = viAuthorization rq" and "viNonce rq2 = viNonce rq"
  shows "\<exists>err b1. verify cr rq2 v b = (Inl err, b1)"
proof (rule ccontr)
  assume "\<not> ?thesis"
  then obtain p2 b2 where acc: "verify cr rq2 v b = (Inr p2, b2)" by (cases "verify cr rq2 v b"; cases "fst (verify cr rq2 v b)") auto
  obtain tok c where c: "verified_claims cr rq a = Inr (tok, c)"
    and a1: "a1 = (purge t a)\<lparr>nonces := AList.update (replayKey c rq) (wcExpiresAt c) (nonces (purge t a))\<rparr>"
    by (rule verify_accepted [OF assms(2)]) blast
  have ok1: "nonces_ok a1" using nonces_ok_verify [OF assms(1), of cr rq t] assms(2) by simp
  have key: "map_of (nonces a1) (replayKey c rq) = Some (wcExpiresAt c)" by (simp add: a1)
  note kept = nonce_kept_history [OF assms(3) ok1 key]
  have sk: "signingKey b = signingKey a" using history_frame [OF assms(3)] by (simp add: a1)
  obtain tok2 c2 where c2: "verified_claims cr rq2 b = Inr (tok2, c2)" "v < wcExpiresAt c2"
    "map_of (nonces (purge v b)) (replayKey c2 rq2) = None"
    by (rule verify_accepted [OF acc]) blast
  have "c2 = c" using verified_claims_cong [OF assms(5) sk, of cr] c c2(1) by simp
  with kept c2(2) assms(4) have "map_of (nonces b) (replayKey c2 rq2) = Some (wcExpiresAt c2)"
    by (simp add: replayKey_def assms(6))
  then have "map_of (nonces (purge v b)) (replayKey c2 rq2) = Some (wcExpiresAt c2)"
    using kept c2(2) by (simp add: purge_def map_of_filter_distinct nonces_ok_def)
  with c2(3) show False by simp
qed

theorem accepted_request_is_not_replayed_witness:
  "\<exists>err b. verify demo_crypto demo_verify 2500 (snd (verify demo_crypto demo_verify 2000 demo_authority)) = (Inl err, b)"
proof -
  obtain p b where acc: "verify demo_crypto demo_verify 2000 demo_authority = (Inr p, b)" using demo_accepted by blast
  have ok: "nonces_ok demo_authority" by (simp add: nonces_ok_def demo_authority_def)
  show ?thesis
    using accepted_request_is_not_replayed [OF ok acc history_start, of 2500 demo_verify] by (simp add: acc)
qed

text \<open>What an accepted request has shown: a token signed with the authority's key, for its audience, not
  expired and not revoked, of exactly the requested tenant, organization, workspace and action, and a
  proof under the key the token is bound to.  A revoked credential is never accepted again.\<close>

theorem acceptance_is_authenticated:
  assumes "verify cr rq t a = (Inr p, b)"
  shows "\<exists>tok c pk. verified_claims cr rq a = Inr (tok, c) \<and> wcAudience c = auAudience a \<and> t < wcExpiresAt c
    \<and> wcTenantId c = viTenantId rq \<and> wcOrganizationId c = viOrganizationId rq \<and> wcWorkspaceId c = viWorkspaceId rq
    \<and> viAction rq \<in> set (wcActions c) \<and> keyHash cr pk = wcProofKeyHash c
    \<and> item (js_split CHR ''.'' (the (viProof rq))) 0 = Some pk
    \<and> item (js_split CHR ''.'' (the (viProof rq))) 1 = Some (hmac cr pk (proofMessage tok rq))
    \<and> apSubject p = wcSubject c \<and> apMemberships p = []
    \<and> (\<forall>a0 s. \<not> history cr (revoke (wcJti c) a0) s a t)"
proof (rule verify_accepted [OF assms])
  fix tok c pk ps
  assume h: "verified_claims cr rq a = Inr (tok, c)" "wcAudience c = auAudience a"
    "t < wcExpiresAt c" "wcJti c \<notin> set (revoked a)"
    "wcTenantId c = viTenantId rq" "wcOrganizationId c = viOrganizationId rq" "wcWorkspaceId c = viWorkspaceId rq"
    "viAction rq \<in> set (wcActions c)"
    "item (js_split CHR ''.'' (the (viProof rq))) 0 = Some pk" "item (js_split CHR ''.'' (the (viProof rq))) 1 = Some ps"
    "keyHash cr pk = wcProofKeyHash c" "ps = hmac cr pk (proofMessage tok rq)" "p = workload_principal c"
  have "\<not> history cr (revoke (wcJti c) a0) s a t" for a0 s
    using history_frame [of cr "revoke (wcJti c) a0" s a t] h(4) by (auto simp: revoke_def split: if_splits)
  then show ?thesis
    using h by (intro exI [of _ tok] exI [of _ c] exI [of _ pk] conjI) (simp_all add: workload_principal_def)
qed

theorem acceptance_is_authenticated_witness:
  "\<exists>tok c. verified_claims demo_crypto demo_verify demo_authority = Inr (tok, c) \<and> 2000 < wcExpiresAt c
    \<and> wcTenantId c = ''t''"
proof -
  obtain p b where "verify demo_crypto demo_verify 2000 demo_authority = (Inr p, b)" using demo_accepted by blast
  from acceptance_is_authenticated [OF this] show ?thesis by (auto simp: demo_verify_def)
qed

end
