(* ===== verification/Scheduling.thy ===== *)
theory Scheduling
  imports Json_Text Complex_Main
begin

section \<open>Production topology and scheduling\<close>

text \<open>
  \<open>packages/production-topology/src/index.ts\<close> with the records of its \<open>contracts.ts\<close>: capacity vectors,
  the weighted fair choice among queued runs, retry backoff, fencing, dependency readiness, the storage guard,
  cgroup controls, the durable scheduler and the fenced writer.

  Quotients of virtual finish times and weights are exact rationals.  \<open>localeCompare\<close> depends on the
  collation of the host and is a parameter.  The repository port and the runtime executor of the scheduler are
  parameters too: functions on an arbitrary repository state that may throw.
\<close>

subsection \<open>Capacity\<close>

record capacity_vector =
  cpuMillis :: int
  memoryBytes :: int
  pids :: int
  ioBytesPerSecond :: int
  diskBytes :: int
  diskInodes :: int
  diskIops :: int
  egressBytesPerSecond :: int
  egressRequestsPerMinute :: int
  eventBytesPerSecond :: int
  artifactBytes :: int
  outputBytes :: int
  corpusIndexBytes :: int

definition ZERO_CAPACITY :: capacity_vector where
  "ZERO_CAPACITY = \<lparr>cpuMillis = 0, memoryBytes = 0, pids = 0, ioBytesPerSecond = 0, diskBytes = 0, diskInodes = 0,
     diskIops = 0, egressBytesPerSecond = 0, egressRequestsPerMinute = 0, eventBytesPerSecond = 0,
     artifactBytes = 0, outputBytes = 0, corpusIndexBytes = 0\<rparr>"

text \<open>The numeric keys of \<open>ZERO_CAPACITY\<close>, as reading functions.\<close>

definition capacity_keys :: "(capacity_vector \<Rightarrow> int) list" where
  "capacity_keys = [cpuMillis, memoryBytes, pids, ioBytesPerSecond, diskBytes, diskInodes, diskIops,
     egressBytesPerSecond, egressRequestsPerMinute, eventBytesPerSecond, artifactBytes, outputBytes, corpusIndexBytes]"

definition fitsCapacity :: "capacity_vector \<Rightarrow> capacity_vector \<Rightarrow> bool" where
  "fitsCapacity available requested = list_all (\<lambda>key. key available \<ge> key requested) capacity_keys"

definition subtractCapacity :: "capacity_vector \<Rightarrow> capacity_vector \<Rightarrow> thrown + capacity_vector" where
  "subtractCapacity available requested =
    (if \<not> fitsCapacity available requested then Inl (ErrorMsg ''CAPACITY_EXHAUSTED'')
     else Inr
       \<lparr>cpuMillis = cpuMillis available - cpuMillis requested,
        memoryBytes = memoryBytes available - memoryBytes requested,
        pids = pids available - pids requested,
        ioBytesPerSecond = ioBytesPerSecond available - ioBytesPerSecond requested,
        diskBytes = diskBytes available - diskBytes requested,
        diskInodes = diskInodes available - diskInodes requested,
        diskIops = diskIops available - diskIops requested,
        egressBytesPerSecond = egressBytesPerSecond available - egressBytesPerSecond requested,
        egressRequestsPerMinute = egressRequestsPerMinute available - egressRequestsPerMinute requested,
        eventBytesPerSecond = eventBytesPerSecond available - eventBytesPerSecond requested,
        artifactBytes = artifactBytes available - artifactBytes requested,
        outputBytes = outputBytes available - outputBytes requested,
        corpusIndexBytes = corpusIndexBytes available - corpusIndexBytes requested\<rparr>)"

subsection \<open>The weighted fair choice\<close>

record topology_scope =
  tpTenantId :: string
  tpOrganizationId :: string
  tpWorkspaceId :: string

text \<open>\<open>enqueuedAtText\<close> is the stored text, \<open>enqueuedAt\<close> the instant that \<open>Date\<close> reads from it.\<close>

datatype queue_state = QsQueued | QsLeased | QsStarting | QsRunning | QsRetryWait | QsCompleted | QsFailed
  | QsPoisoned | QsRecoveryRequired

record queue_item = topology_scope +
  queueItemId :: string
  qiRunId :: string
  qiSessionId :: string
  providerId :: string
  qiIdempotencyKey :: string
  qiState :: queue_state
  priority :: int
  virtualFinish :: rat
  qiAttempt :: nat
  qiMaxAttempts :: nat
  notBefore :: instant
  enqueuedAt :: instant
  enqueuedAtText :: string
  lastErrorCode :: "string option"

record fair_candidate = queue_item +
  tenantRunning :: int
  workspaceRunning :: int
  providerRunning :: int
  providerRequestsLastMinute :: int

record retry_policy =
  maxAttempts :: nat
  initialBackoffMs :: int
  maxBackoffMs :: int
  poisonAfterAttempts :: nat

record scheduling_policy =
  spTenantId :: string
  spOrganizationId :: string
  policyVersion :: nat
  weight :: int
  tenantConcurrency :: int
  workspaceConcurrency :: int
  providerConcurrency :: "(string, int) jsmap"
  providerRequestsPerMinute :: "(string, int) jsmap"
  starvationAgeMs :: int
  retry :: retry_policy
  effectiveAt :: instant

definition limit_of :: "(string, int) jsmap \<Rightarrow> string \<Rightarrow> int" where
  "limit_of m k = (case map_of m k of None \<Rightarrow> 0 | Some n \<Rightarrow> n)"

definition eligible :: "(string, scheduling_policy) jsmap \<Rightarrow> instant \<Rightarrow> fair_candidate \<Rightarrow> bool" where
  "eligible policies t c =
    (case map_of policies (tpTenantId c) of
       None \<Rightarrow> False
     | Some p \<Rightarrow>
       \<not> notBefore c > t \<and> tenantRunning c < tenantConcurrency p \<and> workspaceRunning c < workspaceConcurrency p
       \<and> providerRunning c < limit_of (providerConcurrency p) (providerId c)
       \<and> providerRequestsLastMinute c < limit_of (providerRequestsPerMinute p) (providerId c))"

definition starved :: "scheduling_policy \<Rightarrow> instant \<Rightarrow> fair_candidate \<Rightarrow> bool" where
  "starved p t c \<longleftrightarrow> max 0 (t - enqueuedAt c) \<ge> starvationAgeMs p"

text \<open>A chain of comparisons joined by the or operator: the first that is not zero decides.\<close>

fun first_nonzero :: "rat list \<Rightarrow> rat" where
  "first_nonzero [] = 0"
| "first_nonzero (x # xs) = (if x \<noteq> 0 then x else first_nonzero xs)"

definition score :: "scheduling_policy \<Rightarrow> fair_candidate \<Rightarrow> rat" where
  "score p c = virtualFinish c / of_int (weight p)"

definition policy_of :: "(string, scheduling_policy) jsmap \<Rightarrow> fair_candidate \<Rightarrow> scheduling_policy" where
  "policy_of policies c = the (map_of policies (tpTenantId c))"

definition compare_candidates :: "(string \<Rightarrow> string \<Rightarrow> int) \<Rightarrow> (string, scheduling_policy) jsmap \<Rightarrow> instant \<Rightarrow>
    fair_candidate \<Rightarrow> fair_candidate \<Rightarrow> rat" where
  "compare_candidates localeCompare policies t l r =
    (let ls = (if starved (policy_of policies l) t l then 1 else 0);
         rs = (if starved (policy_of policies r) t r then 1 else 0)
     in if ls \<noteq> rs then rs - ls
        else first_nonzero
          [score (policy_of policies l) l - score (policy_of policies r) r,
           of_int (priority r - priority l),
           of_int (localeCompare (enqueuedAtText l) (enqueuedAtText r)),
           of_int (localeCompare (queueItemId l) (queueItemId r))])"

definition selectWeightedFairCandidate :: "(string \<Rightarrow> string \<Rightarrow> int) \<Rightarrow> fair_candidate list \<Rightarrow>
    (string, scheduling_policy) jsmap \<Rightarrow> instant \<Rightarrow> fair_candidate option" where
  "selectWeightedFairCandidate localeCompare candidates policies t =
    (case js_sort (compare_candidates localeCompare policies t) (filter (eligible policies t) candidates) of
       [] \<Rightarrow> None
     | c # cs \<Rightarrow> Some c)"

definition boundedBackoffMs :: "int \<Rightarrow> retry_policy \<Rightarrow> int" where
  "boundedBackoffMs attempt p = min (maxBackoffMs p) (initialBackoffMs p * 2 ^ nat (max 0 (attempt - 1)))"

subsection \<open>Fencing, readiness, storage and cgroups\<close>

definition assertCurrentFence :: "int \<Rightarrow> int \<Rightarrow> thrown + unit" where
  "assertCurrentFence expected actual =
    (if expected \<noteq> actual then Inl (ErrorMsg ''STALE_FENCING_TOKEN'') else Inr ())"

datatype topology_role = TrApi | TrRealtime | TrScheduler | TrWorkspaceAgent
datatype topology_mode = DevelopmentMode | ProductionMode

record dependency =
  depName :: string
  depRequired :: bool
  depReady :: bool
  depCode :: "string option"

record dependency_readiness =
  drInstanceId :: string
  drRole :: topology_role
  drMode :: topology_mode
  drReady :: bool
  drCheckedAt :: instant
  drDependencies :: "dependency list"

definition requiredNames :: "string list" where
  "requiredNames = [''postgresql'', ''event-broker'', ''object-storage'', ''runtime-control'', ''kms'']"

definition evaluateDependencyReadiness :: "string \<Rightarrow> topology_role \<Rightarrow> topology_mode \<Rightarrow> instant \<Rightarrow> dependency list \<Rightarrow>
    dependency_readiness" where
  "evaluateDependencyReadiness instanceId role mode t supplied =
    (let dependencies = map (\<lambda>name.
           case find (\<lambda>d. depName d = name) supplied of
             Some d \<Rightarrow> d
           | None \<Rightarrow> \<lparr>depName = name, depRequired = (mode = ProductionMode), depReady = False,
                      depCode = Some ''DEPENDENCY_NOT_CONFIGURED''\<rparr>) requiredNames
     in \<lparr>drInstanceId = instanceId, drRole = role, drMode = mode,
         drReady = (\<not> list_ex (\<lambda>d. depRequired d \<and> \<not> depReady d) dependencies), drCheckedAt = t,
         drDependencies = dependencies\<rparr>)"

text \<open>The configuration as the entries of the object, in their order.\<close>

fun joined :: "string \<Rightarrow> string list \<Rightarrow> string" where
  "joined sep [] = []"
| "joined sep [x] = x"
| "joined sep (x # y # ys) = x @ sep @ joined sep (y # ys)"

definition invalid_entry :: "string \<times> string \<Rightarrow> bool" where
  "invalid_entry e =
    (case e of (key, v) \<Rightarrow>
       (key = ''eventStore'' \<and> v \<noteq> ''postgresql'') \<or> (key = ''queue'' \<and> v \<noteq> ''postgresql'')
       \<or> (key = ''locks'' \<and> v \<noteq> ''postgresql'')
       \<or> (key \<in> set [''artifacts'', ''attachments'', ''sources''] \<and> v \<noteq> ''object-storage''))"

definition assertProductionStorage :: "(string \<times> string) list \<Rightarrow> thrown + unit" where
  "assertProductionStorage config =
    (let invalid = filter invalid_entry config
     in if 0 < length invalid
        then Inl (ErrorMsg (''PRODUCTION_FALLBACK_FORBIDDEN:'' @ joined '','' (map fst invalid))) else Inr ())"

definition cgroupV2Controls :: "capacity_vector \<Rightarrow> (string \<times> string) list" where
  "cgroupV2Controls c =
    [(''cpu.max'', show_int (cpuMillis c * 100) @ '' 100000''),
     (''memory.max'', show_int (memoryBytes c)),
     (''memory.swap.max'', ''0''),
     (''pids.max'', show_int (pids c)),
     (''io.max'', ''rbps='' @ show_int (ioBytesPerSecond c) @ '' wbps='' @ show_int (ioBytesPerSecond c)
        @ '' riops='' @ show_int (diskIops c) @ '' wiops='' @ show_int (diskIops c))]"

subsection \<open>The durable scheduler\<close>

datatype workspace_lease_state = WlActive | WlReleased | WlExpired | WlRevoked

record workspace_lease = topology_scope +
  wlLeaseId :: string
  wlQueueItemId :: string
  wlRunId :: string
  wlOwnerId :: string
  wlFencingToken :: int
  wlState :: workspace_lease_state
  wlAcquiredAt :: instant
  wlRenewedAt :: instant
  wlExpiresAt :: instant

record scheduler_claim =
  scItem :: queue_item
  scLease :: workspace_lease
  capacityReservationId :: string

record claim_input =
  ciOwnerId :: string
  ciLeaseId :: string
  ciLeaseMs :: int
  ciReservationId :: string
  ciCapacity :: capacity_vector
  ciNow :: instant

record fence_input = topology_scope +
  fiRunId :: string
  fiFencingToken :: int

datatype terminal_state = TsCompleted | TsFailed | TsPoisoned | TsRecoveryRequired

record release_input = topology_scope +
  riLeaseId :: string
  riOwnerId :: string
  riFencingToken :: int
  riTerminalState :: terminal_state
  riErrorCode :: "string option"

record start_input = topology_scope +
  siSessionId :: string
  siRunId :: string
  siQueueItemId :: string
  siLeaseId :: string
  siFencingToken :: int
  siReservationId :: string

record 'r scheduler_port =
  pClaim :: "claim_input \<Rightarrow> 'r \<Rightarrow> (thrown, scheduler_claim option, 'r) outcome"
  pAssertFence :: "fence_input \<Rightarrow> 'r \<Rightarrow> (thrown, unit, 'r) outcome"
  pReleaseLease :: "release_input \<Rightarrow> 'r \<Rightarrow> (thrown, bool, 'r) outcome"

text \<open>The executor is given the fence check, to call when it likes; it answers one of the states completed, failed and
  recovery required, or throws.\<close>

type_synonym 'r executor = "start_input \<Rightarrow> ('r \<Rightarrow> (thrown, unit, 'r) outcome) \<Rightarrow> 'r \<Rightarrow> (thrown, terminal_state, 'r) outcome"

record 'r scheduler =
  schedPort :: "'r scheduler_port"
  schedOwnerId :: string
  schedLeaseMs :: int
  schedCapacity :: capacity_vector
  schedExecute :: "'r executor"

definition code_char :: "char \<Rightarrow> bool" where
  "code_char c = (let n = of_char c :: nat in 65 \<le> n \<and> n \<le> 90 \<or> 48 \<le> n \<and> n \<le> 57 \<or> n = 95 \<or> n = 58 \<or> n = 45)"

definition fence_of :: "scheduler_claim \<Rightarrow> fence_input" where
  "fence_of c = \<lparr>tpTenantId = tpTenantId (scItem c), tpOrganizationId = tpOrganizationId (scItem c),
     tpWorkspaceId = tpWorkspaceId (scItem c), fiRunId = qiRunId (scItem c),
     fiFencingToken = wlFencingToken (scLease c)\<rparr>"

definition start_of :: "scheduler_claim \<Rightarrow> start_input" where
  "start_of c = \<lparr>tpTenantId = tpTenantId (scItem c), tpOrganizationId = tpOrganizationId (scItem c),
     tpWorkspaceId = tpWorkspaceId (scItem c), siSessionId = qiSessionId (scItem c), siRunId = qiRunId (scItem c),
     siQueueItemId = queueItemId (scItem c), siLeaseId = wlLeaseId (scLease c),
     siFencingToken = wlFencingToken (scLease c), siReservationId = capacityReservationId c\<rparr>"

definition release_of :: "'r scheduler \<Rightarrow> scheduler_claim \<Rightarrow> terminal_state \<Rightarrow> string option \<Rightarrow> release_input" where
  "release_of sch c st code = \<lparr>tpTenantId = tpTenantId (scItem c), tpOrganizationId = tpOrganizationId (scItem c),
     tpWorkspaceId = tpWorkspaceId (scItem c), riLeaseId = wlLeaseId (scLease c), riOwnerId = schedOwnerId sch,
     riFencingToken = wlFencingToken (scLease c), riTerminalState = st, riErrorCode = code\<rparr>"

definition failure_state :: "thrown \<Rightarrow> terminal_state" where
  "failure_state err = (if err = ErrorMsg ''STALE_FENCING_TOKEN'' then TsRecoveryRequired else TsFailed)"

fun failure_code :: "thrown \<Rightarrow> string" where
  "failure_code (ErrorMsg m) = (if m \<noteq> [] \<and> list_all code_char m then m else ''RUNTIME_START_FAILED'')"
| "failure_code OtherThrown = ''RUNTIME_START_FAILED''"

text \<open>The body of the \<open>try\<close> block: fence, execute, fence, release.\<close>

definition run_claimed :: "'r scheduler \<Rightarrow> scheduler_claim \<Rightarrow> 'r \<Rightarrow> (thrown, terminal_state, 'r) outcome" where
  "run_claimed sch c r =
    (case pAssertFence (schedPort sch) (fence_of c) r of
       (Inl err, r1) \<Rightarrow> (Inl err, r1)
     | (Inr _, r1) \<Rightarrow>
       (case schedExecute sch (start_of c) (pAssertFence (schedPort sch) (fence_of c)) r1 of
          (Inl err, r2) \<Rightarrow> (Inl err, r2)
        | (Inr out, r2) \<Rightarrow>
          (case pAssertFence (schedPort sch) (fence_of c) r2 of
             (Inl err, r3) \<Rightarrow> (Inl err, r3)
           | (Inr _, r3) \<Rightarrow>
             (case pReleaseLease (schedPort sch) (release_of sch c out None) r3 of
                (Inl err, r4) \<Rightarrow> (Inl err, r4)
              | (Inr _, r4) \<Rightarrow> (Inr out, r4)))))"

text \<open>\<open>lid\<close> and \<open>rid\<close> are what \<open>idFactory\<close> answers.  An error inside the \<open>catch\<close> block replaces the first.\<close>

definition runOnce :: "'r scheduler \<Rightarrow> string \<Rightarrow> string \<Rightarrow> instant \<Rightarrow> 'r \<Rightarrow>
    (thrown, (scheduler_claim \<times> terminal_state) option, 'r) outcome" where
  "runOnce sch lid rid t r =
    (case pClaim (schedPort sch) \<lparr>ciOwnerId = schedOwnerId sch, ciLeaseId = lid, ciLeaseMs = schedLeaseMs sch,
            ciReservationId = rid, ciCapacity = schedCapacity sch, ciNow = t\<rparr> r of
       (Inl err, r1) \<Rightarrow> (Inl err, r1)
     | (Inr None, r1) \<Rightarrow> (Inr None, r1)
     | (Inr (Some c), r1) \<Rightarrow>
       (case run_claimed sch c r1 of
          (Inr out, r2) \<Rightarrow> (Inr (Some (c, out)), r2)
        | (Inl err, r2) \<Rightarrow>
          (case pReleaseLease (schedPort sch) (release_of sch c (failure_state err) (Some (failure_code err))) r2 of
             (Inl err', r3) \<Rightarrow> (Inl err', r3)
           | (Inr _, r3) \<Rightarrow> (Inl err, r3))))"

definition fenced_write :: "'r scheduler_port \<Rightarrow> fence_input \<Rightarrow> ('r \<Rightarrow> (thrown, 'a, 'r) outcome) \<Rightarrow> 'r \<Rightarrow> (thrown, 'a, 'r) outcome" where
  "fenced_write port identity operation r =
    (case pAssertFence port identity r of
       (Inl err, r1) \<Rightarrow> (Inl err, r1)
     | (Inr _, r1) \<Rightarrow>
       (case operation r1 of
          (Inl err, r2) \<Rightarrow> (Inl err, r2)
        | (Inr x, r2) \<Rightarrow>
          (case pAssertFence port identity r2 of
             (Inl err, r3) \<Rightarrow> (Inl err, r3)
           | (Inr _, r3) \<Rightarrow> (Inr x, r3))))"

end
