(* ===== verification/Scheduling_Props.thy ===== *)
theory Scheduling_Props
  imports Scheduling
begin

section \<open>Scheduling: properties\<close>

text \<open>
  A comparison function is consistent when it flips with its arguments and is transitive; the locale
  \<open>comparison\<close> proves of such a function that the first element of a sorted list is least.  The comparison of
  queued runs is consistent for every consistent collation of strings (the sublocale), and the code unit order
  is such a collation (the interpretation).
\<close>

subsection \<open>Comparisons\<close>

locale comparison =
  fixes cmp :: "'a \<Rightarrow> 'a \<Rightarrow> rat"
  assumes flip: "cmp a b < 0 \<longleftrightarrow> 0 < cmp b a"
    and trans: "cmp a b \<le> 0 \<Longrightarrow> cmp b c \<le> 0 \<Longrightarrow> cmp a c \<le> 0"
begin

lemma refl: "cmp a a = 0"
  using flip [of a a] by linarith

lemma zero_flip: "cmp a b = 0 \<longleftrightarrow> cmp b a = 0"
  using flip [of a b] flip [of b a] by linarith

lemma less_trans1: "cmp a b < 0 \<Longrightarrow> cmp b c \<le> 0 \<Longrightarrow> cmp a c < 0"
  using trans [of a b c] trans [of b c a] zero_flip [of a c] flip [of a b] by linarith

lemma less_trans2: "cmp a b \<le> 0 \<Longrightarrow> cmp b c < 0 \<Longrightarrow> cmp a c < 0"
  using trans [of a b c] trans [of c a b] zero_flip [of a c] flip [of b c] by linarith

lemma sorted_insert_by:
  "sorted_wrt (\<lambda>a b. cmp a b \<le> 0) ys \<Longrightarrow> sorted_wrt (\<lambda>a b. cmp a b \<le> 0) (insert_by cmp x ys)"
proof (induction ys)
  case (Cons y ys)
  show ?case
  proof (cases "cmp x y \<le> 0")
    case True
    then show ?thesis using Cons.prems trans by auto
  next
    case False
    then have "cmp y x \<le> 0" using flip [of y x] by linarith
    with False Cons show ?thesis by simp
  qed
qed simp

lemma sorted_js_sort: "sorted_wrt (\<lambda>a b. cmp a b \<le> 0) (js_sort cmp xs)"
  unfolding js_sort_def by (induction xs) (simp_all add: sorted_insert_by)

lemma js_sort_first: "js_sort cmp xs = y # ys \<Longrightarrow> y \<in> set xs \<and> (\<forall>x \<in> set xs. cmp y x \<le> 0)"
proof -
  assume h: "js_sort cmp xs = y # ys"
  have "set xs = insert y (set ys)" using set_js_sort [of cmp xs] h by simp
  moreover have "\<forall>x \<in> set ys. cmp y x \<le> 0" using sorted_js_sort [of xs] h by simp
  ultimately show ?thesis using refl [of y] by simp
qed

lemma js_sort_Nil: "js_sort cmp xs = [] \<longleftrightarrow> xs = []"
  using set_js_sort [of cmp xs] by (metis set_empty)

end

lemma comparison_by: "comparison (\<lambda>a b. f a - f b)"
  by unfold_locales auto

lemma comparison_lex:
  assumes "comparison c" "comparison d"
  shows "comparison (\<lambda>a b. if c a b \<noteq> 0 then c a b else d a b)"
proof
  fix a b e
  show "(if c a b \<noteq> 0 then c a b else d a b) < 0 \<longleftrightarrow> 0 < (if c b a \<noteq> 0 then c b a else d b a)"
    using comparison.flip [OF assms(1), of a b] comparison.flip [OF assms(2), of a b]
      comparison.zero_flip [OF assms(1), of a b] by auto
  assume "(if c a b \<noteq> 0 then c a b else d a b) \<le> 0" "(if c b e \<noteq> 0 then c b e else d b e) \<le> 0"
  then show "(if c a e \<noteq> 0 then c a e else d a e) \<le> 0"
    using comparison.trans [OF assms(1), of a b e] comparison.trans [OF assms(2), of a b e]
      comparison.less_trans1 [OF assms(1), of a b e] comparison.less_trans2 [OF assms(1), of a b e]
    by (auto split: if_splits)
qed

locale collation =
  fixes lc :: "string \<Rightarrow> string \<Rightarrow> int"
  assumes lc_flip: "lc a b < 0 \<longleftrightarrow> 0 < lc b a"
    and lc_trans: "lc a b \<le> 0 \<Longrightarrow> lc b c \<le> 0 \<Longrightarrow> lc a c \<le> 0"
begin

lemma comparison_lc: "comparison (\<lambda>a b. of_int (lc (f a) (f b)))"
  by unfold_locales (simp_all add: lc_flip, blast intro: lc_trans)

lemma comparison_candidates: "comparison (compare_candidates lc policies t)"
proof -
  let ?s = "\<lambda>c. if starved (policy_of policies c) t c then 1 else 0 :: rat"
  note tie = comparison_lex [OF comparison_by [of "\<lambda>c. score (policy_of policies c) c"]
      comparison_lex [OF comparison_by [of "\<lambda>c. - of_int (priority c)"]
        comparison_lex [OF comparison_lc [of enqueuedAtText] comparison_lc [of queueItemId]]]]
  have eq: "compare_candidates lc policies t = (\<lambda>l r. if - ?s l - - ?s r \<noteq> 0 then - ?s l - - ?s r
      else if score (policy_of policies l) l - score (policy_of policies r) r \<noteq> 0
        then score (policy_of policies l) l - score (policy_of policies r) r
      else if - of_int (priority l) - - of_int (priority r) \<noteq> (0 :: rat) then - of_int (priority l) - - of_int (priority r)
      else if of_int (lc (enqueuedAtText l) (enqueuedAtText r)) \<noteq> (0 :: rat)
        then of_int (lc (enqueuedAtText l) (enqueuedAtText r))
      else of_int (lc (queueItemId l) (queueItemId r)))"
    by (intro ext) (simp add: compare_candidates_def Let_def)
  show ?thesis unfolding eq by (rule comparison_lex [OF comparison_by tie])
qed

end

sublocale collation \<subseteq> fair: comparison "compare_candidates lc policies t" for policies t
  by (rule comparison_candidates)

text \<open>The code unit order of strings.\<close>

fun code_unit_compare :: "string \<Rightarrow> string \<Rightarrow> int" where
  "code_unit_compare [] [] = 0"
| "code_unit_compare [] (y # ys) = -1"
| "code_unit_compare (x # xs) [] = 1"
| "code_unit_compare (x # xs) (y # ys) =
    (if (of_char x :: int) < of_char y then -1 else if (of_char y :: int) < of_char x then 1 else code_unit_compare xs ys)"

lemma code_unit_compare_flip: "code_unit_compare a b < 0 \<longleftrightarrow> 0 < code_unit_compare b a"
  by (induction a b rule: code_unit_compare.induct) simp_all

lemma code_unit_compare_trans:
  "code_unit_compare a b \<le> 0 \<Longrightarrow> code_unit_compare b c \<le> 0 \<Longrightarrow> code_unit_compare a c \<le> 0"
proof (induction a arbitrary: b c)
  case Nil
  then show ?case by (cases c) simp_all
next
  case (Cons x xs)
  then obtain y ys where b: "b = y # ys" by (cases b) auto
  with Cons.prems obtain z zs where c: "c = z # zs" by (cases c) auto
  show ?case
    using Cons.prems Cons.IH [of ys zs] unfolding b c by (auto split: if_splits)
qed

interpretation code_units: collation code_unit_compare
  by unfold_locales (rule code_unit_compare_flip, rule code_unit_compare_trans)

subsection \<open>The scheduler\<close>

lemma run_claimed_released:
  assumes "run_claimed sch c r = (Inr out, r')"
  shows "\<exists>r0 r1. pAssertFence (schedPort sch) (fence_of c) r0 = (Inr (), r1)
    \<and> r' = snd (pReleaseLease (schedPort sch) (release_of sch c out None) r1)"
proof -
  obtain x1 r1 where 1: "pAssertFence (schedPort sch) (fence_of c) r = (x1, r1)" by fastforce
  obtain x2 r2 where 2: "schedExecute sch (start_of c) (pAssertFence (schedPort sch) (fence_of c)) r1 = (x2, r2)" by fastforce
  obtain x3 r3 where 3: "pAssertFence (schedPort sch) (fence_of c) r2 = (x3, r3)" by fastforce
  have "\<exists>u. x1 = Inr u" "x2 = Inr out" "\<exists>u. x3 = Inr u"
    "r' = snd (pReleaseLease (schedPort sch) (release_of sch c out None) r3)"
    using assms by (auto simp: run_claimed_def 1 2 3 split: sum.splits prod.splits)
  then show ?thesis using 3 by (intro exI [of _ r2] exI [of _ r3]) auto
qed

lemma runOnce_released:
  assumes "pClaim (schedPort sch) \<lparr>ciOwnerId = schedOwnerId sch, ciLeaseId = lid, ciLeaseMs = schedLeaseMs sch,
            ciReservationId = rid, ciCapacity = schedCapacity sch, ciNow = t\<rparr> r = (Inr (Some c), r1)"
    and "runOnce sch lid rid t r = (res, r')"
  shows "\<exists>st code r2. r' = snd (pReleaseLease (schedPort sch) (release_of sch c st code) r2)
    \<and> (st = TsCompleted \<longrightarrow> (\<exists>r0. pAssertFence (schedPort sch) (fence_of c) r0 = (Inr (), r2)))"
proof (cases "run_claimed sch c r1")
  case (Pair x r2)
  show ?thesis
  proof (cases x)
    case (Inr out)
    then have "r' = r2" using assms Pair by (simp add: runOnce_def)
    then show ?thesis using run_claimed_released Pair Inr by metis
  next
    case (Inl err)
    let ?i = "release_of sch c (failure_state err) (Some (failure_code err))"
    have "r' = snd (pReleaseLease (schedPort sch) ?i r2)"
      using assms Pair Inl by (auto simp: runOnce_def split: sum.splits prod.splits)
    moreover have "failure_state err \<noteq> TsCompleted" by (simp add: failure_state_def)
    ultimately show ?thesis by blast
  qed
qed

subsection \<open>Properties\<close>

text \<open>The weighted fair choice: nothing is chosen only when nothing is eligible, and otherwise the chosen run is
  eligible, no eligible run precedes it in the order of the comparison, and when any eligible run has
  waited past its starvation age, so has the chosen one.\<close>

theorem fair_choice_is_least:
  assumes "collation lc"
  shows "case selectWeightedFairCandidate lc cs policies t of
      None \<Rightarrow> filter (eligible policies t) cs = []
    | Some c \<Rightarrow> c \<in> set cs \<and> eligible policies t c
        \<and> (\<forall>d \<in> set cs. eligible policies t d \<longrightarrow> compare_candidates lc policies t c d \<le> 0
             \<and> (starved (policy_of policies d) t d \<longrightarrow> starved (policy_of policies c) t c))"
proof (cases "js_sort (compare_candidates lc policies t) (filter (eligible policies t) cs)")
  case Nil
  then have "filter (eligible policies t) cs = []"
    using comparison.js_sort_Nil [OF collation.comparison_candidates [OF assms]] by blast
  with Nil show ?thesis by (simp add: selectWeightedFairCandidate_def)
next
  case (Cons c xs)
  note first = comparison.js_sort_first [OF collation.comparison_candidates [OF assms] Cons]
  have "starved (policy_of policies c) t c"
    if "compare_candidates lc policies t c d \<le> 0" "starved (policy_of policies d) t d" for d
    using that by (auto simp: compare_candidates_def Let_def split: if_splits)
  with first show ?thesis by (auto simp: selectWeightedFairCandidate_def Cons)
qed

definition sample_candidate :: "string \<Rightarrow> rat \<Rightarrow> instant \<Rightarrow> fair_candidate" where
  "sample_candidate qid vf t0 = \<lparr>tpTenantId = ''t'', tpOrganizationId = ''o'', tpWorkspaceId = ''w'', queueItemId = qid,
     qiRunId = ''r'', qiSessionId = ''s'', providerId = ''p'', qiIdempotencyKey = qid, qiState = QsQueued,
     priority = 0, virtualFinish = vf, qiAttempt = 0, qiMaxAttempts = 5, notBefore = 0,
     enqueuedAt = t0, enqueuedAtText = qid, lastErrorCode = None, tenantRunning = 0, workspaceRunning = 0, providerRunning = 0,
     providerRequestsLastMinute = 0\<rparr>"

definition sample_policies :: "(string, scheduling_policy) jsmap" where
  "sample_policies = [(''t'', \<lparr>spTenantId = ''t'', spOrganizationId = ''o'', policyVersion = 1, weight = 2, tenantConcurrency = 4, workspaceConcurrency = 1,
     providerConcurrency = [(''p'', 1)], providerRequestsPerMinute = [(''p'', 10)], starvationAgeMs = 1000,
     retry = \<lparr>maxAttempts = 5, initialBackoffMs = 100, maxBackoffMs = 1000, poisonAfterAttempts = 5\<rparr>, effectiveAt = 0\<rparr>)]"

theorem fair_choice_is_least_witness:
  "\<exists>c. selectWeightedFairCandidate code_unit_compare [sample_candidate ''a'' 1 900, sample_candidate ''b'' 7 0] sample_policies 1000
      = Some c \<and> starved (policy_of sample_policies c) 1000 c"
proof -
  let ?cs = "[sample_candidate ''a'' 1 900, sample_candidate ''b'' 7 0]"
  have e: "eligible sample_policies 1000 d" if "d \<in> set ?cs" for d
    using that by (auto simp: eligible_def sample_candidate_def sample_policies_def limit_of_def)
  have st: "starved (policy_of sample_policies (sample_candidate ''b'' 7 0)) 1000 (sample_candidate ''b'' 7 0)"
    by (simp add: starved_def policy_of_def sample_candidate_def sample_policies_def)
  show ?thesis
    using fair_choice_is_least [OF code_units.collation_axioms, where cs = ?cs and policies = sample_policies and t = 1000] e st
    by (auto split: option.splits)
qed

text \<open>Retry delays are bounded: with positive settings every delay is positive and at most the maximum, never
  shrinks from one attempt to the next, and reaches the smaller of the initial delay and the maximum at first and the
  maximum in the end.\<close>

theorem backoff_is_bounded:
  assumes "0 < initialBackoffMs p" and "0 < maxBackoffMs p"
  shows "0 < boundedBackoffMs n p \<and> boundedBackoffMs n p \<le> maxBackoffMs p
    \<and> boundedBackoffMs n p \<le> boundedBackoffMs (n + 1) p
    \<and> boundedBackoffMs 1 p = min (maxBackoffMs p) (initialBackoffMs p)
    \<and> (\<exists>k. \<forall>m \<ge> k. boundedBackoffMs m p = maxBackoffMs p)"
proof (intro conjI)
  have mono: "(2 :: int) ^ nat (max 0 (n - 1)) \<le> 2 ^ nat (max 0 (n + 1 - 1))"
    by (rule power_increasing) auto
  show "0 < boundedBackoffMs n p" using assms by (simp add: boundedBackoffMs_def)
  show "boundedBackoffMs n p \<le> boundedBackoffMs (n + 1) p"
    using mult_left_mono [OF mono, of "initialBackoffMs p"] assms unfolding boundedBackoffMs_def by linarith
  show "\<exists>k. \<forall>m \<ge> k. boundedBackoffMs m p = maxBackoffMs p"
  proof (intro exI [of _ "maxBackoffMs p + 1"] allI impI)
    fix m assume m: "maxBackoffMs p + 1 \<le> m"
    let ?e = "nat (max 0 (m - 1))"
    have "maxBackoffMs p \<le> int ?e" using m assms by auto
    also have "int ?e \<le> 2 ^ ?e" using of_nat_less_two_power [of ?e, where 'a = int] by linarith
    also have "\<dots> \<le> initialBackoffMs p * 2 ^ ?e" using assms by simp
    finally show "boundedBackoffMs m p = maxBackoffMs p" by (simp add: boundedBackoffMs_def)
  qed
qed (simp_all add: boundedBackoffMs_def)

theorem backoff_is_bounded_witness:
  "boundedBackoffMs 3 \<lparr>maxAttempts = 5, initialBackoffMs = 100, maxBackoffMs = 1000, poisonAfterAttempts = 5\<rparr> \<le> 1000"
  using backoff_is_bounded [of "\<lparr>maxAttempts = 5, initialBackoffMs = 100, maxBackoffMs = 1000, poisonAfterAttempts = 5\<rparr>" 3] by simp

text \<open>C35. A claimed lease is always released: whatever the fence, the executor and the release itself do, the last
  thing that happens to the repository in \<open>runOnce\<close> is a release of the claimed lease by its owner under its
  fencing token, and it reports completion only directly after a fence check that passed.\<close>

theorem claimed_lease_is_released:
  assumes "pClaim (schedPort sch) \<lparr>ciOwnerId = schedOwnerId sch, ciLeaseId = lid, ciLeaseMs = schedLeaseMs sch,
            ciReservationId = rid, ciCapacity = schedCapacity sch, ciNow = t\<rparr> r = (Inr (Some c), r1)"
    and "runOnce sch lid rid t r = (res, r')"
  shows "\<exists>inp r2. r' = snd (pReleaseLease (schedPort sch) inp r2) \<and> riLeaseId inp = wlLeaseId (scLease c)
    \<and> riOwnerId inp = schedOwnerId sch \<and> riFencingToken inp = wlFencingToken (scLease c)
    \<and> (riTerminalState inp = TsCompleted \<longrightarrow> (\<exists>r0. pAssertFence (schedPort sch) (fence_of c) r0 = (Inr (), r2)))"
proof -
  obtain st code r2 where "r' = snd (pReleaseLease (schedPort sch) (release_of sch c st code) r2)"
    "st = TsCompleted \<longrightarrow> (\<exists>r0. pAssertFence (schedPort sch) (fence_of c) r0 = (Inr (), r2))"
    using runOnce_released [OF assms] by blast
  then show ?thesis by (intro exI [of _ "release_of sch c st code"] exI [of _ r2]) (simp add: release_of_def)
qed

text \<open>A port over a list of the leases that were released, whose fence is stale.\<close>

definition sample_claim :: scheduler_claim where
  "sample_claim = \<lparr>scItem = queue_item.truncate (sample_candidate ''a'' 1 0), scLease = \<lparr>tpTenantId = ''t'', tpOrganizationId = ''o'', tpWorkspaceId = ''w'',
       wlLeaseId = ''l'', wlQueueItemId = ''a'', wlRunId = ''r'', wlOwnerId = ''w1'', wlFencingToken = 7, wlState = WlActive,
       wlAcquiredAt = 0, wlRenewedAt = 0, wlExpiresAt = 1000\<rparr>,
     capacityReservationId = ''c''\<rparr>"

definition sample_scheduler :: "string list scheduler" where
  "sample_scheduler = \<lparr>schedPort = \<lparr>pClaim = (\<lambda>i r. (Inr (Some sample_claim), r)),
       pAssertFence = (\<lambda>i r. (Inl (ErrorMsg ''STALE_FENCING_TOKEN''), r)),
       pReleaseLease = (\<lambda>i r. (Inr True, riLeaseId i # r))\<rparr>,
     schedOwnerId = ''w1'', schedLeaseMs = 1000, schedCapacity = ZERO_CAPACITY, schedExecute = (\<lambda>i f r. (Inr TsCompleted, r))\<rparr>"

theorem claimed_lease_is_released_witness:
  "\<exists>r2. snd (runOnce sample_scheduler ''l'' ''c'' 0 []) = ''l'' # r2"
proof -
  have 1: "pClaim (schedPort sample_scheduler) \<lparr>ciOwnerId = schedOwnerId sample_scheduler, ciLeaseId = ''l'',
    ciLeaseMs = schedLeaseMs sample_scheduler, ciReservationId = ''c'', ciCapacity = schedCapacity sample_scheduler,
    ciNow = 0\<rparr> [] = (Inr (Some sample_claim), [])"
    by (simp add: sample_scheduler_def)
  obtain res r' where 2: "runOnce sample_scheduler ''l'' ''c'' 0 [] = (res, r')" by fastforce
  from claimed_lease_is_released [OF 1 2] 2 show ?thesis by (auto simp: sample_scheduler_def sample_claim_def)
qed

text \<open>A subtraction fails exactly when some resource does not suffice, and otherwise lowers every resource by what
  was requested and leaves none negative.\<close>

lemma capacity_is_not_overdrawn:
  "case subtractCapacity a r of
     Inl err \<Rightarrow> \<exists>key \<in> set capacity_keys. key a < key r
   | Inr b \<Rightarrow> list_all (\<lambda>key. key b = key a - key r \<and> 0 \<le> key b) capacity_keys"
  by (auto simp: subtractCapacity_def fitsCapacity_def capacity_keys_def)

end
