(* ===== verification/Push_Notifications.thy ===== *)
theory Push_Notifications
  imports Base64_Url Hash_Chain
begin

section \<open>Push notifications\<close>

text \<open>
  \<open>InMemoryPushRepository\<close> and \<open>PushProviderEmulator\<close> of \<open>packages/push-notifications/src/index.ts\<close>.  The three
  maps are the fields of \<open>push_state\<close>.  The envelope encryption of the endpoint and its keys is an argument
  (a sealing and an opening function that may throw; \<open>psDraws\<close> counts the calls, since sealing is
  randomised), and so is the provider, a function on a state of its own.  The time an operation reads from
  the clock is an argument.

  \<open>drain\<close> first picks its candidates and then handles them one by one; between two of them it waits for the
  provider, so other operations can run there.  \<open>drain_candidates\<close>, \<open>drain_item\<close> and \<open>drain_items\<close> are these parts.
\<close>

datatype subscription_status = SubActive | SubRevoked | SubExpired | SubInvalid
datatype notification_status = NsApprovalRequired | NsApprovalResolved | NsTurnCompleted | NsTurnFailed
datatype push_outbox_status = PoPending | PoDelivering | PoDelivered | PoRetry | PoDiscarded
datatype delivery_outcome = DoDelivered | DoRetry | DoInvalidEndpoint
datatype push_error = PUSH_SUBSCRIPTION_NOT_FOUND | PUSH_SUBSCRIPTION_VERSION_CONFLICT | PushThrown thrown

record push_scope =
  puTenantId :: string
  puOrganizationId :: string
  puWorkspaceId :: string

record push_identity = push_scope +
  puPrincipalId :: string

record secret_material =
  smEndpoint :: string
  smP256dh :: string
  smAuth :: string

record subscription_request =
  srDeviceId :: string
  srMaterial :: secret_material
  srExpiresAt :: "instant option"

record push_subscription = push_identity +
  subscriptionId :: string
  deviceId :: string
  subStatus :: subscription_status
  endpointFingerprint :: string
  subExpiresAt :: "instant option"
  subCreatedAt :: instant
  rotatedAt :: instant
  subRevokedAt :: "instant option"
  rowVersion :: nat

record 'env stored_subscription = push_subscription +
  secret :: 'env

record push_payload =
  plNotificationId :: string
  plSessionId :: string
  plApprovalId :: "string option"
  plStatus :: notification_status

record push_outbox_record = push_identity +
  obOutboxId :: string
  obNotificationId :: string
  obDeviceId :: string
  obSubscriptionId :: string
  obPayload :: push_payload
  obStatus :: push_outbox_status
  obAttempt :: nat
  obAvailableAt :: instant
  obDeliveredAt :: "instant option"
  obCreatedAt :: instant

record delivery_receipt =
  deliveryId :: string
  rcOutboxId :: string
  providerMessageId :: "string option"
  rcOutcome :: delivery_outcome
  rcAttempt :: nat
  rcOccurredAt :: instant

record 'env push_state =
  rows :: "(string, 'env stored_subscription) jsmap"
  pushOutbox :: "(string, push_outbox_record) jsmap"
  receipts :: "(string, delivery_receipt) jsmap"
  psDraws :: nat

record encryption_context = push_scope +
  ecRecordId :: string
  ecPrincipalId :: string

record 'env cipher =
  seal :: "nat \<Rightarrow> encryption_context \<Rightarrow> string \<Rightarrow> thrown + 'env"
  unseal :: "encryption_context \<Rightarrow> 'env \<Rightarrow> thrown + string"

record provider_delivery =
  pdMaterial :: secret_material
  pdPayload :: push_payload

type_synonym 'p provider = "provider_delivery \<Rightarrow> 'p \<Rightarrow> (thrown, delivery_outcome \<times> string option, 'p) outcome"

definition fingerprint :: "js_env \<Rightarrow> string \<Rightarrow> string" where
  "fingerprint e endpoint = ''sha256:'' @ sha256 e endpoint"

definition encryptionContext :: "'a push_identity_scheme \<Rightarrow> string \<Rightarrow> encryption_context" where
  "encryptionContext sc sid = \<lparr>puTenantId = puTenantId sc, puOrganizationId = puOrganizationId sc,
     puWorkspaceId = puWorkspaceId sc, ecRecordId = sid, ecPrincipalId = puPrincipalId sc\<rparr>"

definition publicSubscription :: "'env stored_subscription \<Rightarrow> push_subscription" where
  "publicSubscription row = push_subscription.truncate row"

definition in_scope :: "'a push_scope_scheme \<Rightarrow> 'b push_scope_scheme \<Rightarrow> bool" where
  "in_scope sc row \<longleftrightarrow> puTenantId row = puTenantId sc \<and> puOrganizationId row = puOrganizationId sc
     \<and> puWorkspaceId row = puWorkspaceId sc"

definition of_identity :: "'a push_identity_scheme \<Rightarrow> 'b push_identity_scheme \<Rightarrow> bool" where
  "of_identity sc row \<longleftrightarrow> in_scope sc row \<and> puPrincipalId row = puPrincipalId sc"

subsection \<open>Secret material as text\<close>

definition material_json :: "secret_material \<Rightarrow> json" where
  "material_json m = JObj [(''endpoint'', JStr (smEndpoint m)),
     (''keys'', JObj [(''p256dh'', JStr (smP256dh m)), (''auth'', JStr (smAuth m))])]"

definition material_of_json :: "json \<Rightarrow> secret_material option" where
  "material_of_json j =
    (case (json_str (json_get j ''endpoint''), json_get j ''keys'') of
       (Some ep, Some ks) \<Rightarrow>
         (case (json_str (json_get ks ''p256dh''), json_str (json_get ks ''auth'')) of
            (Some p, Some a) \<Rightarrow> Some \<lparr>smEndpoint = ep, smP256dh = p, smAuth = a\<rparr>
          | _ \<Rightarrow> None)
     | _ \<Rightarrow> None)"

text \<open>Text that does not parse throws; a value of another shape, which the code casts, throws here too.\<close>

definition read_material :: "string \<Rightarrow> thrown + secret_material" where
  "read_material plaintext =
    (case Option.bind (Option.bind (utf8_text plaintext) json_parse) material_of_json of
       None \<Rightarrow> Inl OtherThrown
     | Some m \<Rightarrow> Inr m)"

subsection \<open>Subscriptions\<close>

definition upsert :: "js_env \<Rightarrow> 'env cipher \<Rightarrow> push_identity \<Rightarrow> subscription_request \<Rightarrow> instant \<Rightarrow> 'env push_state \<Rightarrow>
    (push_error, push_subscription, 'env push_state) outcome" where
  "upsert e cy sc rq t s =
    (let existing = find (\<lambda>row. of_identity sc row \<and> deviceId row = srDeviceId rq) (jvalues (rows s));
         sid = (case existing of Some row \<Rightarrow> subscriptionId row | None \<Rightarrow> uuid e (psDraws s));
         s1 = s\<lparr>psDraws := Suc (psDraws s)\<rparr>
     in case seal cy (psDraws s) (encryptionContext sc sid) (utf8_bytes (stringify (material_json (srMaterial rq)))) of
          Inl err \<Rightarrow> (Inl (PushThrown err), s1)
        | Inr env \<Rightarrow>
          (let row = \<lparr>puTenantId = puTenantId sc, puOrganizationId = puOrganizationId sc,
                 puWorkspaceId = puWorkspaceId sc, puPrincipalId = puPrincipalId sc, subscriptionId = sid,
                 deviceId = srDeviceId rq, subStatus = SubActive,
                 endpointFingerprint = fingerprint e (smEndpoint (srMaterial rq)), subExpiresAt = srExpiresAt rq,
                 subCreatedAt = (case existing of Some row \<Rightarrow> subCreatedAt row | None \<Rightarrow> t), rotatedAt = t,
                 subRevokedAt = None,
                 rowVersion = (case existing of Some row \<Rightarrow> rowVersion row | None \<Rightarrow> 0) + 1, secret = env\<rparr>
           in (Inr (publicSubscription row), s1\<lparr>rows := AList.update sid row (rows s1)\<rparr>)))"

definition list_subscriptions :: "push_identity \<Rightarrow> 'env push_state \<Rightarrow> push_subscription list" where
  "list_subscriptions sc s = map publicSubscription (filter (of_identity sc) (jvalues (rows s)))"

definition revoked_row :: "instant \<Rightarrow> 'env stored_subscription \<Rightarrow> 'env stored_subscription" where
  "revoked_row t row = row\<lparr>subStatus := SubRevoked, subRevokedAt := Some t, rowVersion := Suc (rowVersion row)\<rparr>"

definition revoke_subscription :: "push_identity \<Rightarrow> string \<Rightarrow> nat \<Rightarrow> instant \<Rightarrow> 'env push_state \<Rightarrow>
    (push_error, push_subscription, 'env push_state) outcome" where
  "revoke_subscription sc sid expected t s =
    (case map_of (rows s) sid of
       None \<Rightarrow> (Inl PUSH_SUBSCRIPTION_NOT_FOUND, s)
     | Some row \<Rightarrow>
       if \<not> of_identity sc row then (Inl PUSH_SUBSCRIPTION_NOT_FOUND, s)
       else if rowVersion row \<noteq> expected then (Inl PUSH_SUBSCRIPTION_VERSION_CONFLICT, s)
       else (Inr (publicSubscription (revoked_row t row)),
             s\<lparr>rows := AList.update sid (revoked_row t row) (rows s)\<rparr>))"

definition device_row :: "push_identity \<Rightarrow> string \<Rightarrow> 'env stored_subscription \<Rightarrow> bool" where
  "device_row sc dev row \<longleftrightarrow> deviceId row = dev \<and> subStatus row = SubActive \<and> of_identity sc row"

definition revokeDevice :: "push_identity \<Rightarrow> string \<Rightarrow> instant \<Rightarrow> 'env push_state \<Rightarrow> nat \<times> 'env push_state" where
  "revokeDevice sc dev t s =
    (length (filter (device_row sc dev) (jvalues (rows s))),
     s\<lparr>rows := jmap_values (\<lambda>row. if device_row sc dev row then revoked_row t row else row) (rows s)\<rparr>)"

definition expired_row :: "instant \<Rightarrow> 'env stored_subscription \<Rightarrow> bool" where
  "expired_row t row \<longleftrightarrow> subStatus row = SubActive \<and> (case subExpiresAt row of None \<Rightarrow> False | Some x \<Rightarrow> x \<le> t)"

definition expire_subscriptions :: "instant \<Rightarrow> 'env push_state \<Rightarrow> nat \<times> 'env push_state" where
  "expire_subscriptions t s =
    (length (filter (expired_row t) (jvalues (rows s))),
     s\<lparr>rows := jmap_values (\<lambda>row. if expired_row t row
          then row\<lparr>subStatus := SubExpired, rowVersion := Suc (rowVersion row)\<rparr> else row) (rows s)\<rparr>)"

subsection \<open>The outbox\<close>

record notification_resolution = push_scope +
  nrNotificationId :: string
  nrSessionId :: string
  nrApprovalId :: "string option"
  nrStatus :: notification_status

definition resolveNotification :: "string \<Rightarrow> string \<Rightarrow> instant \<Rightarrow> 'env push_state \<Rightarrow> notification_resolution option" where
  "resolveNotification pid nid t s =
    (case find (\<lambda>o1. obNotificationId o1 = nid \<and> puPrincipalId o1 = pid) (jvalues (pushOutbox s)) of
       None \<Rightarrow> None
     | Some ob \<Rightarrow>
       (case map_of (rows s) (obSubscriptionId ob) of
          None \<Rightarrow> None
        | Some row \<Rightarrow>
          if subStatus row \<noteq> SubActive \<or> (case subExpiresAt row of None \<Rightarrow> False | Some x \<Rightarrow> x \<le> t) then None
          else Some \<lparr>puTenantId = puTenantId ob, puOrganizationId = puOrganizationId ob,
                     puWorkspaceId = puWorkspaceId ob, nrNotificationId = nid,
                     nrSessionId = plSessionId (obPayload ob), nrApprovalId = plApprovalId (obPayload ob),
                     nrStatus = plStatus (obPayload ob)\<rparr>))"

definition outbox_id :: "js_env \<Rightarrow> string \<Rightarrow> string \<Rightarrow> string" where
  "outbox_id e nid sid = sha256 e (stringify (JArr [JStr nid, JStr sid]))"

definition enqueue_row :: "js_env \<Rightarrow> push_scope \<Rightarrow> push_payload \<Rightarrow> instant \<Rightarrow> 'env stored_subscription \<Rightarrow>
    nat \<times> 'env push_state \<Rightarrow> nat \<times> 'env push_state" where
  "enqueue_row e sc pl t row cs =
    (case cs of (n, s) \<Rightarrow>
       if subStatus row \<noteq> SubActive \<or> \<not> in_scope sc row then (n, s)
       else
         (let oid = outbox_id e (plNotificationId pl) (subscriptionId row)
          in if map_of (pushOutbox s) oid \<noteq> None then (n, s)
             else (Suc n, s\<lparr>pushOutbox := AList.update oid
               \<lparr>puTenantId = puTenantId sc, puOrganizationId = puOrganizationId sc, puWorkspaceId = puWorkspaceId sc,
                puPrincipalId = puPrincipalId row, obOutboxId = oid, obNotificationId = plNotificationId pl,
                obDeviceId = deviceId row, obSubscriptionId = subscriptionId row, obPayload = pl,
                obStatus = PoPending, obAttempt = 0, obAvailableAt = t, obDeliveredAt = None, obCreatedAt = t\<rparr>
               (pushOutbox s)\<rparr>)))"

definition enqueue :: "js_env \<Rightarrow> push_scope \<Rightarrow> push_payload \<Rightarrow> instant \<Rightarrow> 'env push_state \<Rightarrow> nat \<times> 'env push_state" where
  "enqueue e sc pl t s = fold (enqueue_row e sc pl t) (jvalues (rows s)) (0, s)"

definition drain_candidates :: "instant \<Rightarrow> nat \<Rightarrow> 'env push_state \<Rightarrow> string list" where
  "drain_candidates t limit s =
    take limit (map fst (filter (\<lambda>(k, ob). obStatus ob \<in> {PoPending, PoRetry} \<and> obAvailableAt ob \<le> t) (pushOutbox s)))"

definition set_outbox :: "string \<Rightarrow> push_outbox_record \<Rightarrow> 'env push_state \<Rightarrow> 'env push_state" where
  "set_outbox oid ob s = s\<lparr>pushOutbox := AList.update oid ob (pushOutbox s)\<rparr>"

definition retry_delay :: "nat \<Rightarrow> int" where
  "retry_delay attempt = min 300000 (1000 * 2 ^ attempt)"

text \<open>After the provider has answered: the receipt, and the new state of the record and of the subscription.\<close>

definition record_delivery :: "js_env \<Rightarrow> instant \<Rightarrow> string \<Rightarrow> push_outbox_record \<Rightarrow> 'env stored_subscription \<Rightarrow> delivery_outcome \<Rightarrow>
    string option \<Rightarrow> 'env push_state \<Rightarrow> delivery_receipt \<times> 'env push_state" where
  "record_delivery e t oid ob row out mid s =
    (let rc = \<lparr>deliveryId = sha256 e (obOutboxId ob @ '':'' @ show_nat (obAttempt ob)), rcOutboxId = obOutboxId ob,
               providerMessageId = mid, rcOutcome = out, rcAttempt = obAttempt ob, rcOccurredAt = t\<rparr>;
         s1 = (if map_of (receipts s) (deliveryId rc) = None
               then s\<lparr>receipts := AList.update (deliveryId rc) rc (receipts s)\<rparr> else s)
     in (rc,
         case out of
           DoDelivered \<Rightarrow> set_outbox oid (ob\<lparr>obStatus := PoDelivered, obDeliveredAt := Some t\<rparr>) s1
         | DoInvalidEndpoint \<Rightarrow>
             (set_outbox oid (ob\<lparr>obStatus := PoDiscarded\<rparr>) s1)\<lparr>rows :=
                AList.update (obSubscriptionId ob)
                  (row\<lparr>subStatus := SubInvalid, rowVersion := Suc (rowVersion row)\<rparr>) (rows s1)\<rparr>
         | DoRetry \<Rightarrow>
             set_outbox oid (ob\<lparr>obStatus := PoRetry, obAvailableAt := t + retry_delay (obAttempt ob)\<rparr>) s1))"

definition drain_item :: "js_env \<Rightarrow> 'env cipher \<Rightarrow> 'p provider \<Rightarrow> instant \<Rightarrow> string \<Rightarrow> 'env push_state \<times> 'p \<Rightarrow>
    (thrown, delivery_receipt list, 'env push_state \<times> 'p) outcome" where
  "drain_item e cy prov t oid sp =
    (case sp of (s, p) \<Rightarrow>
       (case map_of (pushOutbox s) oid of
          None \<Rightarrow> (Inr [], (s, p))
        | Some ob0 \<Rightarrow>
          (case map_of (rows s) (obSubscriptionId ob0) of
             None \<Rightarrow> (Inr [], (set_outbox oid (ob0\<lparr>obStatus := PoDiscarded\<rparr>) s, p))
           | Some row \<Rightarrow>
             if subStatus row \<noteq> SubActive
             then (Inr [], (set_outbox oid (ob0\<lparr>obStatus := PoDiscarded\<rparr>) s, p))
             else
               (let ob = ob0\<lparr>obStatus := PoDelivering, obAttempt := Suc (obAttempt ob0)\<rparr>;
                    s1 = set_outbox oid ob s
                in case unseal cy (encryptionContext row (subscriptionId row)) (secret row) of
                     Inl err \<Rightarrow> (Inl err, (s1, p))
                   | Inr plain \<Rightarrow>
                     (case read_material plain of
                        Inl err \<Rightarrow> (Inl err, (s1, p))
                      | Inr m \<Rightarrow>
                        (case prov \<lparr>pdMaterial = m, pdPayload = obPayload ob\<rparr> p of
                           (Inl err, p1) \<Rightarrow> (Inl err, (s1, p1))
                         | (Inr (out, mid), p1) \<Rightarrow>
                           (case record_delivery e t oid ob row out mid s1 of
                              (rc, s2) \<Rightarrow> (Inr [rc], (s2, p1)))))))))"

fun drain_items :: "js_env \<Rightarrow> 'env cipher \<Rightarrow> 'p provider \<Rightarrow> instant \<Rightarrow> string list \<Rightarrow> 'env push_state \<times> 'p \<Rightarrow>
    (thrown, delivery_receipt list, 'env push_state \<times> 'p) outcome" where
  "drain_items e cy prov t [] sp = (Inr [], sp)"
| "drain_items e cy prov t (oid # oids) sp =
    (case drain_item e cy prov t oid sp of
       (Inl err, sp1) \<Rightarrow> (Inl err, sp1)
     | (Inr rs, sp1) \<Rightarrow>
       (case drain_items e cy prov t oids sp1 of
          (Inl err, sp2) \<Rightarrow> (Inl err, sp2)
        | (Inr rs', sp2) \<Rightarrow> (Inr (rs @ rs'), sp2)))"

definition drain :: "js_env \<Rightarrow> 'env cipher \<Rightarrow> 'p provider \<Rightarrow> instant \<Rightarrow> nat \<Rightarrow> 'env push_state \<times> 'p \<Rightarrow>
    (thrown, delivery_receipt list, 'env push_state \<times> 'p) outcome" where
  "drain e cy prov t limit sp = drain_items e cy prov t (drain_candidates t limit (fst sp)) sp"

subsection \<open>The emulated provider\<close>

record emulator =
  emDeliveries :: "(string \<times> push_payload) list"
  emDraws :: nat

definition emulator_deliver :: "js_env \<Rightarrow> emulator provider" where
  "emulator_deliver e d p =
    (if sublist ''/invalid'' (smEndpoint (pdMaterial d)) then (Inr (DoInvalidEndpoint, None), p)
     else if sublist ''/retry'' (smEndpoint (pdMaterial d)) then (Inr (DoRetry, None), p)
     else (Inr (DoDelivered, Some (uuid e (emDraws p))),
           p\<lparr>emDeliveries := emDeliveries p @ [(fingerprint e (smEndpoint (pdMaterial d)), pdPayload d)],
             emDraws := Suc (emDraws p)\<rparr>))"

subsection \<open>One step of the repository\<close>

datatype push_event =
    Upsert push_identity subscription_request instant
  | RevokeSub push_identity string nat instant
  | RevokeDevice push_identity string instant
  | ExpireSubs instant
  | Enqueue push_scope push_payload instant
  | Drain instant nat

fun push_exec :: "js_env \<Rightarrow> 'env cipher \<Rightarrow> 'p provider \<Rightarrow> push_event \<Rightarrow> 'env push_state \<times> 'p \<Rightarrow> 'env push_state \<times> 'p" where
  "push_exec e cy prov (Upsert sc rq t) (s, p) = (snd (upsert e cy sc rq t s), p)"
| "push_exec e cy prov (RevokeSub sc sid v t) (s, p) = (snd (revoke_subscription sc sid v t s), p)"
| "push_exec e cy prov (RevokeDevice sc dev t) (s, p) = (snd (revokeDevice sc dev t s), p)"
| "push_exec e cy prov (ExpireSubs t) (s, p) = (snd (expire_subscriptions t s), p)"
| "push_exec e cy prov (Enqueue sc pl t) (s, p) = (snd (enqueue e sc pl t s), p)"
| "push_exec e cy prov (Drain t n) (s, p) = snd (drain e cy prov t n (s, p))"

definition push_initial :: "'env push_state" where
  "push_initial = \<lparr>rows = [], pushOutbox = [], receipts = [], psDraws = 0\<rparr>"

inductive push_step :: "js_env \<Rightarrow> 'env cipher \<Rightarrow> 'p provider \<Rightarrow> 'env push_state \<times> 'p \<Rightarrow> 'env push_state \<times> 'p \<Rightarrow> bool"
  for e cy prov where
  push_stepI: "push_step e cy prov sp (push_exec e cy prov ev sp)"

inductive_cases push_stepE: "push_step e cy prov sp sq"

end
