(* ===== verification/Push_Props.thy ===== *)
theory Push_Props
  imports Push_Notifications
begin

section \<open>Push notifications: properties\<close>

text \<open>
  Every outbox record is stored under the digest of its notification and subscription, every subscription can be
  opened to the endpoint it was registered with, records that are delivered or discarded never change in
  runs of whole operations, and two drains that overlap can deliver a record twice.
\<close>

subsection \<open>Secret material\<close>

definition opens_what_it_seals :: "'env cipher \<Rightarrow> bool" where
  "opens_what_it_seals cy \<longleftrightarrow> (\<forall>n ctx txt env. seal cy n ctx txt = Inr env \<longrightarrow> unseal cy ctx env = Inr txt)"

abbreviation material_text :: "secret_material \<Rightarrow> string" where
  "material_text m \<equiv> utf8_bytes (stringify (material_json m))"

lemma read_material_text [simp]: "read_material (material_text m) = Inr m"
proof -
  have "material_of_json (material_json m) = Some m"
    by (simp add: material_of_json_def material_json_def json_get_def)
  then show ?thesis by (simp add: read_material_def utf8_round_trip json_parse_stringify)
qed

subsection \<open>The invariant\<close>

definition row_ok :: "js_env \<Rightarrow> 'env cipher \<Rightarrow> string \<Rightarrow> 'env stored_subscription \<Rightarrow> bool" where
  "row_ok e cy sid row \<longleftrightarrow> subscriptionId row = sid
     \<and> (\<exists>m. unseal cy (encryptionContext row sid) (secret row) = Inr (material_text m)
          \<and> endpointFingerprint row = fingerprint e (smEndpoint m))"

definition record_ok :: "js_env \<Rightarrow> string \<Rightarrow> push_outbox_record \<Rightarrow> bool" where
  "record_ok e k ob \<longleftrightarrow> k = outbox_id e (obNotificationId ob) (obSubscriptionId ob) \<and> obOutboxId ob = k"

definition push_inv :: "js_env \<Rightarrow> 'env cipher \<Rightarrow> 'env push_state \<Rightarrow> bool" where
  "push_inv e cy s \<longleftrightarrow> (\<forall>sid row. map_of (rows s) sid = Some row \<longrightarrow> row_ok e cy sid row)
     \<and> (\<forall>k ob. map_of (pushOutbox s) k = Some ob \<longrightarrow> record_ok e k ob)"

lemma push_invD:
  assumes "push_inv e cy s"
  shows "map_of (rows s) sid = Some row \<Longrightarrow> row_ok e cy sid row" "map_of (pushOutbox s) k = Some ob \<Longrightarrow> record_ok e k ob"
  using assms unfolding push_inv_def by blast+

lemma push_inv_initial: "push_inv e cy push_initial"
  by (simp add: push_inv_def push_initial_def)

lemma push_inv_same: "push_inv e cy s \<Longrightarrow> rows t = rows s \<Longrightarrow> pushOutbox t = pushOutbox s \<Longrightarrow> push_inv e cy t"
  by (simp add: push_inv_def)

lemma push_inv_row:
  "push_inv e cy s \<Longrightarrow> row_ok e cy sid row \<Longrightarrow> push_inv e cy (s\<lparr>rows := AList.update sid row (rows s)\<rparr>)"
  by (auto simp: push_inv_def)

lemma push_inv_record:
  "push_inv e cy s \<Longrightarrow> record_ok e k ob \<Longrightarrow> push_inv e cy (set_outbox k ob s)"
  by (auto simp: push_inv_def set_outbox_def)

lemma row_ok_status:
  "row_ok e cy sid (row\<lparr>subStatus := a, rowVersion := b\<rparr>) = row_ok e cy sid row"
  "row_ok e cy sid (revoked_row t row) = row_ok e cy sid row"
  by (simp_all add: row_ok_def encryptionContext_def revoked_row_def)

lemma push_inv_rows_map:
  "push_inv e cy s \<Longrightarrow> (\<And>sid row. row_ok e cy sid row \<Longrightarrow> row_ok e cy sid (h row)) \<Longrightarrow>
   push_inv e cy (s\<lparr>rows := jmap_values h (rows s)\<rparr>)"
  by (auto simp: push_inv_def)

lemma record_ok_status [simp]:
  "record_ok e k (ob\<lparr>obStatus := a\<rparr>) = record_ok e k ob"
  "record_ok e k (ob\<lparr>obStatus := a, obAttempt := b\<rparr>) = record_ok e k ob"
  "record_ok e k (ob\<lparr>obStatus := a, obDeliveredAt := c\<rparr>) = record_ok e k ob"
  "record_ok e k (ob\<lparr>obStatus := a, obAvailableAt := d\<rparr>) = record_ok e k ob"
  by (simp_all add: record_ok_def)

lemma push_inv_upsert:
  assumes "opens_what_it_seals cy" "push_inv e cy s"
  shows "push_inv e cy (snd (upsert e cy sc rq t s))"
proof -
  let ?ex = "find (\<lambda>row. of_identity sc row \<and> deviceId row = srDeviceId rq) (jvalues (rows s))"
  define sid where "sid = (case ?ex of Some row \<Rightarrow> subscriptionId row | None \<Rightarrow> uuid e (psDraws s))"
  let ?s1 = "s\<lparr>psDraws := Suc (psDraws s)\<rparr>"
  have 1: "push_inv e cy ?s1" using assms(2) by (rule push_inv_same) simp_all
  show ?thesis
  proof (cases "seal cy (psDraws s) (encryptionContext sc sid) (material_text (srMaterial rq))")
    case (Inl err)
    then show ?thesis using 1 by (simp add: upsert_def Let_def flip: sid_def)
  next
    case (Inr env)
    then have u: "unseal cy (encryptionContext sc sid) env = Inr (material_text (srMaterial rq))"
      using assms(1) unfolding opens_what_it_seals_def by blast
    have ok: "row_ok e cy sid row"
      if "subscriptionId row = sid" "encryptionContext row sid = encryptionContext sc sid" "secret row = env"
        "endpointFingerprint row = fingerprint e (smEndpoint (srMaterial rq))" for row
      unfolding row_ok_def that(2) using u that by blast
    note stored = push_inv_row [OF 1 ok, simplified]
    show ?thesis
      using Inr by (simp add: upsert_def Let_def flip: sid_def) (rule stored; simp add: encryptionContext_def)
  qed
qed

lemma push_inv_enqueue:
  assumes "push_inv e cy s"
  shows "push_inv e cy (snd (enqueue e sc pl t s))"
proof -
  have step: "push_inv e cy (snd ns) \<Longrightarrow> push_inv e cy (snd (enqueue_row e sc pl t row ns))" for row ns
    by (auto simp: enqueue_row_def Let_def split: prod.split intro!: push_inv_record [unfolded set_outbox_def])
      (simp add: record_ok_def)
  have "push_inv e cy (snd (fold (enqueue_row e sc pl t) rs ns))" if "push_inv e cy (snd ns)" for rs ns
    using that by (induction rs arbitrary: ns) (simp_all add: step)
  then show ?thesis using assms by (simp add: enqueue_def)
qed

lemma push_inv_record_delivery:
  assumes "push_inv e cy s" "record_ok e oid ob" "row_ok e cy (obSubscriptionId ob) row"
  shows "push_inv e cy (snd (record_delivery e t oid ob row out mid s))"
proof -
  have r: "push_inv e cy (s\<lparr>receipts := x\<rparr>)" for x using assms(1) by (rule push_inv_same) simp_all
  have "push_inv e cy u \<Longrightarrow> push_inv e cy ((set_outbox oid (ob\<lparr>obStatus := PoDiscarded\<rparr>) u)\<lparr>rows :=
    AList.update (obSubscriptionId ob) (row\<lparr>subStatus := SubInvalid, rowVersion := Suc (rowVersion row)\<rparr>) (rows u)\<rparr>)" for u
    using push_inv_row [OF push_inv_record [of e cy u oid "ob\<lparr>obStatus := PoDiscarded\<rparr>"], of "obSubscriptionId ob"
        "row\<lparr>subStatus := SubInvalid, rowVersion := Suc (rowVersion row)\<rparr>"] assms(2,3)
    by (simp add: row_ok_status set_outbox_def)
  then show ?thesis
    using assms r by (cases out) (simp_all add: record_delivery_def Let_def push_inv_record)
qed

lemma push_inv_drain_item:
  assumes "push_inv e cy (fst sp)"
  shows "push_inv e cy (fst (snd (drain_item e cy prov t oid sp)))"
proof -
  obtain s p where sp: "sp = (s, p)" by fastforce
  have inv: "push_inv e cy s" using assms sp by simp
  show ?thesis
  proof (cases "map_of (pushOutbox s) oid")
    case None
    then show ?thesis using inv by (simp add: sp drain_item_def)
  next
    case (Some ob0)
    have ok: "record_ok e oid ob0" by (rule push_invD(2) [OF inv Some])
    show ?thesis
    proof (cases "\<exists>row. map_of (rows s) (obSubscriptionId ob0) = Some row \<and> subStatus row = SubActive")
      case False
      then have "fst (snd (drain_item e cy prov t oid sp)) = set_outbox oid (ob0\<lparr>obStatus := PoDiscarded\<rparr>) s"
        using Some by (auto simp: sp drain_item_def split: option.split)
      then show ?thesis using push_inv_record [OF inv] ok by simp
    next
      case True
      then obtain row where row: "map_of (rows s) (obSubscriptionId ob0) = Some row" "subStatus row = SubActive" by blast
      let ?ob = "ob0\<lparr>obStatus := PoDelivering, obAttempt := Suc (obAttempt ob0)\<rparr>"
      have 1: "push_inv e cy (set_outbox oid ?ob s)" using push_inv_record [OF inv] ok by simp
      have 2: "push_inv e cy (snd (record_delivery e t oid ?ob row out mid (set_outbox oid ?ob s)))" for out mid
        using push_inv_record_delivery [OF 1] ok push_invD(1) [OF inv row(1)] by simp
      show ?thesis
        using 1 2 Some row by (auto simp: sp drain_item_def Let_def case_prod_beta split: sum.split)
    qed
  qed
qed

lemma push_inv_drain_items:
  "push_inv e cy (fst sp) \<Longrightarrow> push_inv e cy (fst (snd (drain_items e cy prov t oids sp)))"
proof (induction oids arbitrary: sp)
  case (Cons oid oids)
  then show ?case
    using push_inv_drain_item [of e cy sp prov t oid] by (auto simp: case_prod_beta split: sum.split)
qed simp

lemma push_inv_exec:
  assumes "opens_what_it_seals cy" "push_inv e cy (fst sp)"
  shows "push_inv e cy (fst (push_exec e cy prov ev sp))"
proof -
  obtain s p where sp: "sp = (s, p)" by fastforce
  have inv: "push_inv e cy s" using assms(2) sp by simp
  show ?thesis
  proof (cases ev)
    case (RevokeSub sc sid v t)
    then show ?thesis
      using inv push_inv_row [OF inv] push_invD(1) [OF inv]
      by (auto simp: sp revoke_subscription_def row_ok_status split: option.split)
  next
    case (RevokeDevice sc dev t)
    then show ?thesis using push_inv_rows_map [OF inv] by (simp add: sp revokeDevice_def row_ok_status)
  next
    case (ExpireSubs t)
    then show ?thesis using push_inv_rows_map [OF inv] by (simp add: sp expire_subscriptions_def row_ok_status)
  qed (simp_all add: sp inv push_inv_upsert [OF assms(1)] push_inv_enqueue drain_def push_inv_drain_items)
qed

definition push_start :: "'env cipher \<Rightarrow> 'env push_state \<times> 'p \<Rightarrow> bool" where
  "push_start cy sp \<longleftrightarrow> opens_what_it_seals cy \<and> fst sp = push_initial"

interpretation push_run: transition_system "push_start cy" "push_step e cy prov"
  "\<lambda>sp. opens_what_it_seals cy \<and> push_inv e cy (fst sp)" for e cy prov
proof
  show "push_start cy sp \<Longrightarrow> opens_what_it_seals cy \<and> push_inv e cy (fst sp)" for sp
    by (simp add: push_start_def push_inv_initial)
  show "opens_what_it_seals cy \<and> push_inv e cy (fst sp) \<Longrightarrow> push_step e cy prov sp sq \<Longrightarrow>
    opens_what_it_seals cy \<and> push_inv e cy (fst sq)" for sp sq
    using push_inv_exec [of cy e sp prov] by (auto elim!: push_stepE)
qed


subsection \<open>Finished records\<close>

definition finished :: "push_outbox_record \<Rightarrow> bool" where
  "finished ob \<longleftrightarrow> obStatus ob = PoDelivered \<or> obStatus ob = PoDiscarded"

lemma record_delivery_outbox:
  "k \<noteq> oid \<Longrightarrow> map_of (pushOutbox (snd (record_delivery e t oid ob row out mid s))) k = map_of (pushOutbox s) k"
  by (cases out) (simp_all add: record_delivery_def Let_def set_outbox_def)

lemma drain_item_outbox:
  "k \<noteq> oid \<Longrightarrow> map_of (pushOutbox (fst (snd (drain_item e cy prov t oid sp)))) k = map_of (pushOutbox (fst sp)) k"
  by (cases sp) (auto simp: drain_item_def Let_def case_prod_beta record_delivery_outbox set_outbox_def
      split: option.split sum.split)

lemma drain_items_outbox:
  "k \<notin> set oids \<Longrightarrow> map_of (pushOutbox (fst (snd (drain_items e cy prov t oids sp)))) k = map_of (pushOutbox (fst sp)) k"
proof (induction oids arbitrary: sp)
  case (Cons oid oids)
  then show ?case using drain_item_outbox [of k oid e cy prov t sp] by (auto simp: case_prod_beta split: sum.split)
qed simp

text \<open>Candidates of a drain are pending or waiting for a retry.\<close>

definition outbox_keys_ok :: "'env push_state \<Rightarrow> bool" where
  "outbox_keys_ok s \<longleftrightarrow> distinct (map fst (pushOutbox s))"

lemma candidates_unfinished:
  assumes "outbox_keys_ok s" "map_of (pushOutbox s) k = Some ob" "finished ob"
  shows "k \<notin> set (drain_candidates t n s)"
proof
  assume "k \<in> set (drain_candidates t n s)"
  then have "\<exists>ob'. (k, ob') \<in> set (pushOutbox s) \<and> obStatus ob' \<in> {PoPending, PoRetry}"
    unfolding drain_candidates_def by (auto dest!: in_set_takeD) blast+
  then obtain ob' where ob': "(k, ob') \<in> set (pushOutbox s)" "obStatus ob' \<in> {PoPending, PoRetry}" by blast
  then have "map_of (pushOutbox s) k = Some ob'" using assms(1) by (simp add: outbox_keys_ok_def)
  with assms(2,3) ob'(2) show False by (auto simp: finished_def)
qed

lemma enqueue_outbox:
  "map_of (pushOutbox s) k = Some ob \<Longrightarrow> map_of (pushOutbox (snd (enqueue e sc pl t s))) k = Some ob"
proof -
  have step: "map_of (pushOutbox (snd ns)) k = Some ob \<Longrightarrow> map_of (pushOutbox (snd (enqueue_row e sc pl t row ns))) k = Some ob"
    for row and ns :: "nat \<times> 'a push_state"
    by (auto simp: enqueue_row_def Let_def split: prod.split)
  have "map_of (pushOutbox (snd (fold (enqueue_row e sc pl t) rs ns))) k = Some ob"
    if "map_of (pushOutbox (snd ns)) k = Some ob" for rs and ns :: "nat \<times> 'a push_state"
    using that by (induction rs arbitrary: ns) (simp_all add: step)
  then show "map_of (pushOutbox s) k = Some ob \<Longrightarrow> map_of (pushOutbox (snd (enqueue e sc pl t s))) k = Some ob"
    by (simp add: enqueue_def)
qed

lemma upsert_outbox [simp]: "pushOutbox (snd (upsert e cy sc rq t s)) = pushOutbox s"
  by (simp add: upsert_def Let_def split: sum.split)

lemma finished_kept:
  assumes "outbox_keys_ok (fst sp)" "map_of (pushOutbox (fst sp)) k = Some ob" "finished ob"
  shows "map_of (pushOutbox (fst (push_exec e cy prov ev sp))) k = Some ob"
proof -
  obtain s p where sp: "sp = (s, p)" by fastforce
  have h: "outbox_keys_ok s" "map_of (pushOutbox s) k = Some ob" using assms sp by simp_all
  show ?thesis
    by (cases ev) (auto simp: sp h enqueue_outbox drain_def drain_items_outbox [OF candidates_unfinished [OF h assms(3)]]
        revoke_subscription_def revokeDevice_def expire_subscriptions_def split: option.split)
qed

lemma keys_record_delivery:
  "outbox_keys_ok s \<Longrightarrow> outbox_keys_ok (snd (record_delivery e t oid ob row out mid s))"
  by (cases out) (simp_all add: record_delivery_def Let_def set_outbox_def outbox_keys_ok_def)

lemma keys_set: "outbox_keys_ok s \<Longrightarrow> outbox_keys_ok (set_outbox oid ob s)"
  by (simp add: set_outbox_def outbox_keys_ok_def)

lemma keys_drain_item: "outbox_keys_ok (fst sp) \<Longrightarrow> outbox_keys_ok (fst (snd (drain_item e cy prov t oid sp)))"
  by (cases sp) (auto simp: drain_item_def Let_def case_prod_beta keys_record_delivery keys_set
      split: option.split sum.split)

lemma keys_drain_items: "outbox_keys_ok (fst sp) \<Longrightarrow> outbox_keys_ok (fst (snd (drain_items e cy prov t oids sp)))"
proof (induction oids arbitrary: sp)
  case (Cons oid oids)
  then show ?case using keys_drain_item [of sp e cy prov t oid] by (auto simp: case_prod_beta split: sum.split)
qed simp

lemma keys_enqueue: "outbox_keys_ok s \<Longrightarrow> outbox_keys_ok (snd (enqueue e sc pl t s))"
proof -
  have step: "outbox_keys_ok (snd ns) \<Longrightarrow> outbox_keys_ok (snd (enqueue_row e sc pl t row ns))" for row and ns :: "nat \<times> 'a push_state"
    by (auto simp: enqueue_row_def Let_def outbox_keys_ok_def split: prod.split)
  have "outbox_keys_ok (snd (fold (enqueue_row e sc pl t) rs ns))" if "outbox_keys_ok (snd ns)"
    for rs and ns :: "nat \<times> 'a push_state"
    using that by (induction rs arbitrary: ns) (simp_all add: step)
  then show "outbox_keys_ok s \<Longrightarrow> outbox_keys_ok (snd (enqueue e sc pl t s))" by (simp add: enqueue_def)
qed

lemma keys_same [simp]: "outbox_keys_ok (s\<lparr>rows := r\<rparr>) = outbox_keys_ok s"
  "outbox_keys_ok (snd (upsert e cy sc rq t s)) = outbox_keys_ok s"
  by (simp_all add: outbox_keys_ok_def)

lemma keys_exec: "outbox_keys_ok (fst sp) \<Longrightarrow> outbox_keys_ok (fst (push_exec e cy prov ev sp))"
  by (cases sp; cases ev) (auto simp: keys_enqueue drain_def keys_drain_items revoke_subscription_def revokeDevice_def expire_subscriptions_def split: option.split)

interpretation push_keys: transition_system "\<lambda>sp. fst sp = push_initial" "push_step e cy prov"
  "\<lambda>sp. outbox_keys_ok (fst sp)" for e cy prov
proof
  show "fst sp = push_initial \<Longrightarrow> outbox_keys_ok (fst sp)" for sp :: "'a push_state \<times> 'b"
    by (simp add: outbox_keys_ok_def push_initial_def)
  show "outbox_keys_ok (fst sp) \<Longrightarrow> push_step e cy prov sp sq \<Longrightarrow> outbox_keys_ok (fst sq)" for sp sq
    by (auto elim!: push_stepE simp: keys_exec)
qed

subsection \<open>Properties\<close>


text \<open>One record per notification and subscription, and finished records stay finished: in runs of whole
  operations an outbox record is the only one for its notification and subscription, however often the
  notification is enqueued, and once it is delivered or discarded no later operation changes it or hands it
  to the provider again.\<close>

theorem finished_notification_is_final:
  assumes "opens_what_it_seals cy" and "fst sp = push_initial" and "reaches (push_step e cy prov) sp sq"
    and "map_of (pushOutbox (fst sq)) k = Some ob"
  shows "(\<forall>k' ob'. map_of (pushOutbox (fst sq)) k' = Some ob' \<and> obNotificationId ob' = obNotificationId ob
        \<and> obSubscriptionId ob' = obSubscriptionId ob \<longrightarrow> k' = k)
    \<and> (finished ob \<longrightarrow> (\<forall>sr. reaches (push_step e cy prov) sq sr \<longrightarrow>
        map_of (pushOutbox (fst sr)) k = Some ob \<and> (\<forall>t n. k \<notin> set (drain_candidates t n (fst sr)))))"
proof (intro conjI allI impI)
  have inv: "push_inv e cy (fst sq)"
    using push_run.reachable_inv [of cy sp e prov sq] assms(1-3) by (simp add: push_start_def)
  show "k' = k" if "map_of (pushOutbox (fst sq)) k' = Some ob' \<and> obNotificationId ob' = obNotificationId ob
        \<and> obSubscriptionId ob' = obSubscriptionId ob" for k' ob'
    using push_invD(2) [OF inv assms(4)] push_invD(2) [OF inv, of k' ob'] that by (simp add: record_ok_def)
  fix sr assume fin: "finished ob" and r: "reaches (push_step e cy prov) sq sr"
  have keys: "outbox_keys_ok (fst sq)" by (rule push_keys.reachable_inv [OF assms(2,3)])
  have "outbox_keys_ok (fst sr) \<and> map_of (pushOutbox (fst sr)) k = Some ob"
    using r keys assms(4)
  proof (induction rule: reaches.induct)
    case (reaches_step s t u)
    then have t: "outbox_keys_ok (fst t)" "map_of (pushOutbox (fst t)) k = Some ob" by simp_all
    from reaches_step.hyps(2) t show ?case
      using fin by (auto elim!: push_stepE simp: keys_exec finished_kept)
  qed simp
  then show "map_of (pushOutbox (fst sr)) k = Some ob" "k \<notin> set (drain_candidates t n (fst sr))" for t n
    using candidates_unfinished fin by blast+
qed


text \<open>A sample repository with one device and two notifications.\<close>

definition push_env :: js_env where
  "push_env = \<lparr>clock = (\<lambda>n. 0), uuid = (\<lambda>n. replicate n CHR ''u''), token = (\<lambda>n. []), sha256 = (\<lambda>x. CHR ''h'' # x)\<rparr>"

definition plain_cipher :: "string cipher" where
  "plain_cipher = \<lparr>seal = (\<lambda>n ctx txt. Inr txt), unseal = (\<lambda>ctx env. Inr env)\<rparr>"

definition phone :: push_identity where
  "phone = \<lparr>puTenantId = ''t'', puOrganizationId = ''o'', puWorkspaceId = ''w'', puPrincipalId = ''ann''\<rparr>"

definition phone_request :: subscription_request where
  "phone_request = \<lparr>srDeviceId = ''d'', srMaterial = \<lparr>smEndpoint = ''ep'', smP256dh = ''k'', smAuth = ''a''\<rparr>,
     srExpiresAt = None\<rparr>"

definition notice :: "string \<Rightarrow> push_payload" where
  "notice n = \<lparr>plNotificationId = n, plSessionId = ''s'', plApprovalId = None, plStatus = NsTurnCompleted\<rparr>"

definition emulator0 :: emulator where
  "emulator0 = \<lparr>emDeliveries = [], emDraws = 0\<rparr>"

definition queued :: "string push_state \<times> emulator" where
  "queued = fold (push_exec push_env plain_cipher (emulator_deliver push_env))
     [Upsert phone phone_request 0, Enqueue (push_scope.truncate phone) (notice ''1'') 0,
      Enqueue (push_scope.truncate phone) (notice ''2'') 0] (push_initial, emulator0)"

lemma push_reaches_exec:
  "reaches (push_step e cy prov) sp sq \<Longrightarrow> reaches (push_step e cy prov) sp (push_exec e cy prov ev sq)"
  using reaches_step [where step = "push_step e cy prov"] push_stepI by blast

lemma queued_reachable:
  "reaches (push_step push_env plain_cipher (emulator_deliver push_env)) (push_initial, emulator0) queued"
  unfolding queued_def by (simp del: push_exec.simps) (intro push_reaches_exec reaches_refl)

lemma plain_opens: "opens_what_it_seals plain_cipher"
  by (simp add: opens_what_it_seals_def plain_cipher_def)

definition drained :: "string push_state \<times> emulator" where
  "drained = push_exec push_env plain_cipher (emulator_deliver push_env) (Drain 0 100) queued"

lemma drained_facts:
  "map_option obStatus (map_of (pushOutbox (fst drained)) (outbox_id push_env ''1'' [])) = Some PoDelivered"
  "map_option obSubscriptionId (map_of (pushOutbox (fst queued)) (outbox_id push_env ''1'' [])) = Some []"
  "map_option subStatus (map_of (rows (fst queued)) []) = Some SubActive"
  by code_simp+

theorem finished_notification_is_final_witness:
  "\<exists>ob. map_of (pushOutbox (fst drained)) (outbox_id push_env ''1'' []) = Some ob \<and> finished ob
     \<and> (\<forall>t n. outbox_id push_env ''1'' [] \<notin> set (drain_candidates t n (fst drained)))"
proof -
  obtain ob where ob: "map_of (pushOutbox (fst drained)) (outbox_id push_env ''1'' []) = Some ob" "obStatus ob = PoDelivered"
    using drained_facts(1) by auto
  have r: "reaches (push_step push_env plain_cipher (emulator_deliver push_env)) (push_initial, emulator0) drained"
    unfolding drained_def by (rule push_reaches_exec [OF queued_reachable])
  have fin: "finished ob" using ob(2) by (simp add: finished_def)
  have "\<forall>t n. outbox_id push_env ''1'' [] \<notin> set (drain_candidates t n (fst drained))"
    using finished_notification_is_final [OF plain_opens _ r ob(1), THEN conjunct2, rule_format, OF _ fin reaches_refl]
    by simp
  with ob(1) fin show ?thesis by (intro exI [of _ ob] conjI)
qed


text \<open>Overlapping drains deliver twice: the status of a record is tested when the candidates are picked and not
  again before it is handed over, so a second drain that runs while the first waits for the provider
  delivers a record that the first one then delivers again.\<close>

theorem overlapping_drains_deliver_twice:
  "reaches (push_step push_env plain_cipher (emulator_deliver push_env)) (push_initial, emulator0) queued
   \<and> (\<exists>a b. drain_candidates 0 100 (fst queued) = [a, b]
       \<and> (let first = snd (drain_item push_env plain_cipher (emulator_deliver push_env) 0 a queued);
              between = snd (drain push_env plain_cipher (emulator_deliver push_env) 0 100 first);
              end = snd (drain_items push_env plain_cipher (emulator_deliver push_env) 0 [b] between)
          in map (plNotificationId o snd) (emDeliveries (snd end)) = [''1'', ''2'', ''2'']))"
proof -
  let ?a = "outbox_id push_env ''1'' []" and ?b = "outbox_id push_env ''2'' []"
  have c: "drain_candidates 0 100 (fst queued) = [?a, ?b]" by code_simp
  have d: "map (plNotificationId o snd) (emDeliveries (snd (snd (drain_items push_env plain_cipher (emulator_deliver push_env) 0 [?b]
      (snd (drain push_env plain_cipher (emulator_deliver push_env) 0 100
        (snd (drain_item push_env plain_cipher (emulator_deliver push_env) 0 ?a queued)))))))) = [''1'', ''2'', ''2'']"
    by code_simp
  show ?thesis
    unfolding Let_def by (intro conjI queued_reachable exI [of _ ?a] exI [of _ ?b] c d)
qed

end
