(* ===== verification/Envelope_Encryption.thy ===== *)
theory Envelope_Encryption
  imports Base64_Url
begin

section \<open>Envelope encryption\<close>

text \<open>
  The cryptography of \<open>packages/workspace-security/src/index.ts\<close>: encryption contexts, key providers, envelope
  and chunked encryption, backups.  AES-256-GCM, the random source, SHA-256 and \<open>localeCompare\<close> are not code of
  the repository and are the fields of \<open>aes_env\<close>: \<open>aeSeal\<close> answers ciphertext and tag, or nothing when Node
  throws; \<open>aeOpen\<close> answers the plaintext, or nothing when it does not authenticate.  \<open>aeRandom l n\<close> is what
  \<open>randomBytes(l)\<close> answers at the \<open>n\<close>th draw.  Buffers are strings of bytes.

  A key provider (\<open>KmsProvider\<close>) is a record of functions on a state of its own; wrapping and unwrapping read
  it, revocation changes it.  \<open>LocalKmsProvider\<close>, \<open>UserContentKmsProvider\<close> and \<open>AwsKmsProvider\<close> are three such
  records.

  The loops that cut a plaintext into chunks run for ever when the chunk size is zero, which the constructor
  excludes; they are partial functions, and that they return is proved.
\<close>

record aes_env =
  aeSeal :: "string \<Rightarrow> string \<Rightarrow> string \<Rightarrow> string \<Rightarrow> (string \<times> string) option"
  aeOpen :: "string \<Rightarrow> string \<Rightarrow> string \<Rightarrow> string \<Rightarrow> string \<Rightarrow> string option"
  aeRandom :: "nat \<Rightarrow> nat \<Rightarrow> string"
  aeSha256 :: "string \<Rightarrow> string"
  aeCollate :: "string \<Rightarrow> string \<Rightarrow> int"

datatype crypto_error = INVALID_SECURITY_SCOPE | INVALID_ENCRYPTION_CONTEXT_AAD | INVALID_LOCAL_KEK | KMS_KEY_MISSING
  | KMS_PROVIDER_MISMATCH | KMS_KEY_REVOKED_OR_MISSING | WRAPPED_KEY_INVALID | WRAPPED_KEY_TOO_SHORT
  | WRAPPED_KEY_AUTHENTICATION_FAILED | WORKSPACE_CRYPTO_ERASED | KMS_KEY_SUBSTITUTION_DENIED
  | ENVELOPE_FORMAT_OR_KEY_SUBSTITUTION | ENCRYPTION_CONTEXT_MISMATCH | CIPHERTEXT_AUTHENTICATION_FAILED
  | INVALID_CHUNK_SIZE | INVALID_PLAINTEXT_LENGTH | PLAINTEXT_LENGTH_OVERFLOW | PLAINTEXT_LENGTH_MISMATCH
  | CHUNKED_ENVELOPE_INVALID | CHUNK_ORDER_INVALID | CHUNK_AUTHENTICATION_FAILED | CHUNK_LENGTH_MISMATCH
  | CROSS_TENANT_RESTORE_DENIED | INVALID_CONTENT_KEY | INVALID_USER_KEK | CONTENT_KEY_FORMAT_INVALID
  | CONTENT_KEY_UNWRAP_FAILED | INVALID_BACKFILL_BATCH_SIZE | CryptoThrown thrown

subsection \<open>Contexts\<close>

record security_scope =
  seTenantId :: string
  seOrganizationId :: string
  seWorkspaceId :: string

datatype record_type = RtPrompt | RtModelOutput | RtRawEvent | RtArtifact | RtAttachment | RtBackup | RtCorpusSnapshot
  | RtCodexRollout | RtPushSubscription | RtProviderCredential

fun record_type_text :: "record_type \<Rightarrow> string" where
  "record_type_text RtPrompt = ''prompt''"
| "record_type_text RtModelOutput = ''model_output''"
| "record_type_text RtRawEvent = ''raw_event''"
| "record_type_text RtArtifact = ''artifact''"
| "record_type_text RtAttachment = ''attachment''"
| "record_type_text RtBackup = ''backup''"
| "record_type_text RtCorpusSnapshot = ''corpus_snapshot''"
| "record_type_text RtCodexRollout = ''codex_rollout''"
| "record_type_text RtPushSubscription = ''push_subscription''"
| "record_type_text RtProviderCredential = ''provider_credential''"

record enc_context = security_scope +
  ecRecordType :: record_type
  ecRecord :: string
  ecAdditional :: "(string \<times> string) list option"

definition scope_char :: "char \<Rightarrow> bool" where
  "scope_char c = (let n = of_char c :: nat in
     65 \<le> n \<and> n \<le> 90 \<or> 97 \<le> n \<and> n \<le> 122 \<or> 48 \<le> n \<and> n \<le> 57 \<or> n = 46 \<or> n = 95 \<or> n = 58 \<or> n = 45)"

definition SAFE_SCOPE :: "string \<Rightarrow> bool" where
  "SAFE_SCOPE v \<longleftrightarrow> 1 \<le> length v \<and> length v \<le> 160 \<and> list_all scope_char v"

definition requireScopePart :: "string \<Rightarrow> crypto_error + string" where
  "requireScopePart v = (if \<not> SAFE_SCOPE v \<or> v = ''.'' \<or> v = ''..'' then Inl INVALID_SECURITY_SCOPE else Inr v)"

definition scope_parts :: "string list \<Rightarrow> crypto_error + unit" where
  "scope_parts vs = fold (\<lambda>v r. sum_bind r (\<lambda>_. sum_bind (requireScopePart v) (\<lambda>_. Inr ()))) vs (Inr ())"

definition additional_entry :: "string \<times> string \<Rightarrow> crypto_error + (string \<times> string)" where
  "additional_entry e =
    (case e of (name, v) \<Rightarrow>
       sum_bind (requireScopePart name) (\<lambda>_.
         if length v < 1 \<or> 2048 < length v \<or> CHR 0x00 \<in> set v then Inl INVALID_ENCRYPTION_CONTEXT_AAD
         else Inr (name, v)))"

fun additional_entries :: "(string \<times> string) list \<Rightarrow> crypto_error + (string \<times> string) list" where
  "additional_entries [] = Inr []"
| "additional_entries (e # es) =
    sum_bind (additional_entry e) (\<lambda>x. sum_bind (additional_entries es) (\<lambda>xs. Inr (x # xs)))"

definition canonicalContext :: "aes_env \<Rightarrow> enc_context \<Rightarrow> crypto_error + string" where
  "canonicalContext E c =
    sum_bind (scope_parts [seTenantId c, seOrganizationId c, seWorkspaceId c, record_type_text (ecRecordType c), ecRecord c])
      (\<lambda>_.
        (let base = [JNum 1, JStr (seTenantId c), JStr (seOrganizationId c), JStr (seWorkspaceId c),
               JStr (record_type_text (ecRecordType c)), JStr (ecRecord c)]
         in case ecAdditional c of
              None \<Rightarrow> Inr (utf8_bytes (stringify (JArr base)))
            | Some entries \<Rightarrow>
              sum_bind (additional_entries entries) (\<lambda>es.
                Inr (utf8_bytes (stringify (JArr (base @
                  [JArr (map (\<lambda>(k, v). JArr [JStr k, JStr v]) (js_sort (\<lambda>l r. aeCollate E (fst l) (fst r)) es))])))))))"

definition workspaceContext :: "'a security_scope_scheme \<Rightarrow> crypto_error + string" where
  "workspaceContext sc =
    sum_bind (scope_parts [seTenantId sc, seOrganizationId sc, seWorkspaceId sc]) (\<lambda>_.
      Inr (utf8_bytes (stringify (JArr [JStr ''workspace-kek-context-v1'', JStr (seTenantId sc),
        JStr (seOrganizationId sc), JStr (seWorkspaceId sc)]))))"

subsection \<open>Key providers\<close>

record wrapped_key =
  wkProvider :: string
  wkKeyId :: string
  wkKeyVersion :: string
  wkCiphertext :: string

record 'k kms =
  kCurrent :: "security_scope \<Rightarrow> 'k \<Rightarrow> crypto_error + string"
  kWrap :: "nat \<Rightarrow> security_scope \<Rightarrow> string \<Rightarrow> string \<Rightarrow> 'k \<Rightarrow> crypto_error + wrapped_key"
  kUnwrap :: "security_scope \<Rightarrow> wrapped_key \<Rightarrow> 'k \<Rightarrow> crypto_error + string"
  kRevoke :: "security_scope \<Rightarrow> 'k \<Rightarrow> (crypto_error, unit, 'k) outcome"

text \<open>Both providers that hold keys in memory store the nonce, the tag and the ciphertext of a wrapped key in one buffer.\<close>

definition seal_key :: "aes_env \<Rightarrow> nat \<Rightarrow> string \<Rightarrow> string \<Rightarrow> string \<Rightarrow> crypto_error + string" where
  "seal_key E n key aad dek =
    (let nonce = aeRandom E 12 n
     in case aeSeal E key nonce aad dek of
          None \<Rightarrow> Inl (CryptoThrown OtherThrown)
        | Some (ct, tag) \<Rightarrow> Inr (base64 (nonce @ tag @ ct)))"

definition open_key :: "aes_env \<Rightarrow> string \<Rightarrow> crypto_error + string \<Rightarrow> string \<Rightarrow> crypto_error + string" where
  "open_key E key aad bytes =
    (case aad of
       Inl _ \<Rightarrow> Inl WRAPPED_KEY_AUTHENTICATION_FAILED
     | Inr a \<Rightarrow>
       (case aeOpen E key (take 12 bytes) a (drop 28 bytes) (take 16 (drop 12 bytes)) of
          None \<Rightarrow> Inl WRAPPED_KEY_AUTHENTICATION_FAILED
        | Some dek \<Rightarrow> Inr dek))"

record local_kms =
  lkKeys :: "(string, string) jsmap"
  lkRevoked :: "string list"
  lkCurrent :: nat

definition newLocalKms :: "string \<Rightarrow> crypto_error + local_kms" where
  "newLocalKms seed = (if length seed \<noteq> 32 then Inl INVALID_LOCAL_KEK
     else Inr \<lparr>lkKeys = [(''1'', seed)], lkRevoked = [], lkCurrent = 1\<rparr>)"

definition rotate_kms :: "string \<Rightarrow> local_kms \<Rightarrow> string \<times> local_kms" where
  "rotate_kms seed k =
    (let v = Suc (lkCurrent k)
     in (show_nat v, k\<lparr>lkKeys := AList.update (show_nat v) seed (lkKeys k), lkCurrent := v\<rparr>))"

definition revokeKeyVersion :: "string \<Rightarrow> local_kms \<Rightarrow> local_kms" where
  "revokeKeyVersion v k = k\<lparr>lkKeys := AList.delete v (lkKeys k)\<rparr>"

definition workspaceKey :: "aes_env \<Rightarrow> security_scope \<Rightarrow> crypto_error + string" where
  "workspaceKey E sc = sum_bind (workspaceContext sc) (\<lambda>a. Inr (aeSha256 E a))"

definition assertWorkspace :: "aes_env \<Rightarrow> security_scope \<Rightarrow> local_kms \<Rightarrow> crypto_error + unit" where
  "assertWorkspace E sc k =
    sum_bind (workspaceKey E sc) (\<lambda>h. if h \<in> set (lkRevoked k) then Inl WORKSPACE_CRYPTO_ERASED else Inr ())"

definition local_currentKeyVersion :: "aes_env \<Rightarrow> security_scope \<Rightarrow> local_kms \<Rightarrow> crypto_error + string" where
  "local_currentKeyVersion E sc k = sum_bind (assertWorkspace E sc k) (\<lambda>_. Inr (show_nat (lkCurrent k)))"

definition local_wrapKey :: "aes_env \<Rightarrow> nat \<Rightarrow> security_scope \<Rightarrow> string \<Rightarrow> string \<Rightarrow> local_kms \<Rightarrow> crypto_error + wrapped_key" where
  "local_wrapKey E n sc dek v k =
    sum_bind (assertWorkspace E sc k) (\<lambda>_.
      (case map_of (lkKeys k) v of
         None \<Rightarrow> Inl KMS_KEY_MISSING
       | Some key \<Rightarrow>
         sum_bind (workspaceContext sc) (\<lambda>aad. sum_bind (seal_key E n key aad dek) (\<lambda>ct.
           Inr \<lparr>wkProvider = ''local-memory'', wkKeyId = ''development-only'', wkKeyVersion = v, wkCiphertext = ct\<rparr>))))"

definition local_unwrapKey :: "aes_env \<Rightarrow> security_scope \<Rightarrow> wrapped_key \<Rightarrow> local_kms \<Rightarrow> crypto_error + string" where
  "local_unwrapKey E sc w k =
    sum_bind (assertWorkspace E sc k) (\<lambda>_.
      if wkProvider w \<noteq> ''local-memory'' then Inl KMS_PROVIDER_MISMATCH
      else
        (case map_of (lkKeys k) (wkKeyVersion w) of
           None \<Rightarrow> Inl KMS_KEY_REVOKED_OR_MISSING
         | Some key \<Rightarrow>
           (let bytes = from_base64url (wkCiphertext w)
            in if length bytes < 29 then Inl WRAPPED_KEY_INVALID else open_key E key (workspaceContext sc) bytes)))"

definition local_revokeWorkspace :: "aes_env \<Rightarrow> security_scope \<Rightarrow> local_kms \<Rightarrow> (crypto_error, unit, local_kms) outcome" where
  "local_revokeWorkspace E sc k =
    (case workspaceKey E sc of
       Inl err \<Rightarrow> (Inl err, k)
     | Inr h \<Rightarrow> (Inr (), k\<lparr>lkRevoked := (if h \<in> set (lkRevoked k) then lkRevoked k else lkRevoked k @ [h])\<rparr>))"

definition LocalKmsProvider :: "aes_env \<Rightarrow> local_kms kms" where
  "LocalKmsProvider E = \<lparr>kCurrent = local_currentKeyVersion E, kWrap = local_wrapKey E, kUnwrap = local_unwrapKey E,
     kRevoke = local_revokeWorkspace E\<rparr>"

text \<open>The provider over an unlocked user content key; \<open>revokeWorkspace\<close> overwrites the key with zeros.\<close>

record user_kms =
  ukKey :: string
  ukKeyVersion :: string

definition newUserContentKms :: "string \<Rightarrow> string \<Rightarrow> crypto_error + user_kms" where
  "newUserContentKms key v = (if length key \<noteq> 32 then Inl INVALID_CONTENT_KEY else Inr \<lparr>ukKey = key, ukKeyVersion = v\<rparr>)"

definition user_wrapKey :: "aes_env \<Rightarrow> nat \<Rightarrow> security_scope \<Rightarrow> string \<Rightarrow> string \<Rightarrow> user_kms \<Rightarrow> crypto_error + wrapped_key" where
  "user_wrapKey E n sc dek v k =
    (if v \<noteq> ukKeyVersion k then Inl KMS_KEY_REVOKED_OR_MISSING
     else sum_bind (workspaceContext sc) (\<lambda>aad. sum_bind (seal_key E n (ukKey k) aad dek) (\<lambda>ct.
       Inr \<lparr>wkProvider = ''user-content-key'', wkKeyId = ''user-content-key'', wkKeyVersion = v, wkCiphertext = ct\<rparr>)))"

definition user_unwrapKey :: "aes_env \<Rightarrow> security_scope \<Rightarrow> wrapped_key \<Rightarrow> user_kms \<Rightarrow> crypto_error + string" where
  "user_unwrapKey E sc w k =
    (if wkProvider w \<noteq> ''user-content-key'' then Inl KMS_KEY_SUBSTITUTION_DENIED
     else
       (let raw = from_base64url (wkCiphertext w)
        in if length raw < 29 then Inl WRAPPED_KEY_TOO_SHORT else open_key E (ukKey k) (workspaceContext sc) raw))"

definition user_revokeWorkspace :: "security_scope \<Rightarrow> user_kms \<Rightarrow> (crypto_error, unit, user_kms) outcome" where
  "user_revokeWorkspace sc k = (Inr (), k\<lparr>ukKey := replicate (length (ukKey k)) CHR 0x00\<rparr>)"

definition UserContentKmsProvider :: "aes_env \<Rightarrow> user_kms kms" where
  "UserContentKmsProvider E = \<lparr>kCurrent = (\<lambda>sc k. Inr (ukKeyVersion k)), kWrap = user_wrapKey E,
     kUnwrap = user_unwrapKey E, kRevoke = user_revokeWorkspace\<rparr>"

text \<open>The provider over a remote key service: its client is the state, a record of functions.\<close>

record aws_client =
  awsEncrypt :: "string \<Rightarrow> string \<Rightarrow> string \<Rightarrow> (string \<times> string) list \<Rightarrow> thrown + string"
  awsDecrypt :: "string \<Rightarrow> (string \<times> string) list \<Rightarrow> string \<Rightarrow> thrown + string"

record aws_kms =
  akKeyId :: string
  akKeyVersion :: string
  akClient :: aws_client
  akErase :: "security_scope \<Rightarrow> aws_client \<Rightarrow> (thrown, unit, aws_client) outcome"

definition kmsContext :: "security_scope \<Rightarrow> crypto_error + (string \<times> string) list" where
  "kmsContext sc =
    sum_bind (scope_parts [seTenantId sc, seOrganizationId sc, seWorkspaceId sc]) (\<lambda>_.
      Inr [(''tenantId'', seTenantId sc), (''organizationId'', seOrganizationId sc), (''workspaceId'', seWorkspaceId sc),
           (''purpose'', ''perseverance-envelope-v1'')])"

definition caught :: "thrown + 'a \<Rightarrow> crypto_error + 'a" where
  "caught r = map_sum CryptoThrown id r"

definition aws_wrapKey :: "nat \<Rightarrow> security_scope \<Rightarrow> string \<Rightarrow> string \<Rightarrow> aws_kms \<Rightarrow> crypto_error + wrapped_key" where
  "aws_wrapKey n sc dek v k =
    sum_bind (kmsContext sc) (\<lambda>ctx.
      sum_bind (caught (awsEncrypt (akClient k) (akKeyId k) v dek ctx)) (\<lambda>ct.
        Inr \<lparr>wkProvider = ''aws-kms'', wkKeyId = akKeyId k, wkKeyVersion = v, wkCiphertext = base64 ct\<rparr>))"

definition aws_unwrapKey :: "security_scope \<Rightarrow> wrapped_key \<Rightarrow> aws_kms \<Rightarrow> crypto_error + string" where
  "aws_unwrapKey sc w k =
    (if wkProvider w \<noteq> ''aws-kms'' \<or> wkKeyId w \<noteq> akKeyId k then Inl KMS_KEY_SUBSTITUTION_DENIED
     else sum_bind (kmsContext sc) (\<lambda>ctx.
       caught (awsDecrypt (akClient k) (from_base64url (wkCiphertext w)) ctx (akKeyId k))))"

definition aws_revokeWorkspace :: "security_scope \<Rightarrow> aws_kms \<Rightarrow> (crypto_error, unit, aws_kms) outcome" where
  "aws_revokeWorkspace sc k =
    (case akErase k sc (akClient k) of (r, c) \<Rightarrow> (caught r, k\<lparr>akClient := c\<rparr>))"

definition AwsKmsProvider :: "aws_kms kms" where
  "AwsKmsProvider = \<lparr>kCurrent = (\<lambda>sc k. Inr (akKeyVersion k)), kWrap = aws_wrapKey, kUnwrap = aws_unwrapKey,
     kRevoke = aws_revokeWorkspace\<rparr>"

subsection \<open>Envelopes\<close>

record envelope =
  evFormatVersion :: int
  evAlgorithm :: string
  evKeyVersion :: string
  evEncryptedDek :: wrapped_key
  evNonce :: string
  evAuthenticationTag :: string
  evAadSha256 :: string
  evCiphertext :: string

datatype crypto_action = KeyRotated | WorkspaceCryptoErased

record crypto_audit =
  caScope :: security_scope
  caAction :: crypto_action
  caKeyVersion :: "string option"

abbreviation scope_of :: "'a security_scope_scheme \<Rightarrow> security_scope" where
  "scope_of c \<equiv> security_scope.truncate c"

text \<open>The random draws of a call are numbered from \<open>n\<close>: the data key, its nonce, and the nonce of the wrapped key.\<close>

definition envelope_encrypt :: "aes_env \<Rightarrow> 'k kms \<Rightarrow> enc_context \<Rightarrow> string \<Rightarrow> nat \<Rightarrow> 'k \<Rightarrow> crypto_error + envelope" where
  "envelope_encrypt E K ctx plaintext n k =
    sum_bind (canonicalContext E ctx) (\<lambda>aad.
      (let dek = aeRandom E 32 n; nonce = aeRandom E 12 (n + 1)
       in case aeSeal E dek nonce aad plaintext of
            None \<Rightarrow> Inl (CryptoThrown OtherThrown)
          | Some (ct, tag) \<Rightarrow>
            sum_bind (kCurrent K (scope_of ctx) k) (\<lambda>v.
              sum_bind (kWrap K (n + 2) (scope_of ctx) dek v k) (\<lambda>w.
                Inr \<lparr>evFormatVersion = 1, evAlgorithm = ''AES-256-GCM'', evKeyVersion = v, evEncryptedDek = w,
                     evNonce = base64 nonce, evAuthenticationTag = base64 tag, evAadSha256 = aeSha256 E aad,
                     evCiphertext = base64 ct\<rparr>))))"

definition envelope_decrypt :: "aes_env \<Rightarrow> 'k kms \<Rightarrow> enc_context \<Rightarrow> envelope \<Rightarrow> 'k \<Rightarrow> crypto_error + string" where
  "envelope_decrypt E K ctx ev k =
    (if evFormatVersion ev \<noteq> 1 \<or> evAlgorithm ev \<noteq> ''AES-256-GCM'' \<or> evKeyVersion ev \<noteq> wkKeyVersion (evEncryptedDek ev)
     then Inl ENVELOPE_FORMAT_OR_KEY_SUBSTITUTION
     else sum_bind (canonicalContext E ctx) (\<lambda>aad.
       if aeSha256 E aad \<noteq> evAadSha256 ev then Inl ENCRYPTION_CONTEXT_MISMATCH
       else sum_bind (kUnwrap K (scope_of ctx) (evEncryptedDek ev) k) (\<lambda>dek.
         (case aeOpen E dek (from_base64url (evNonce ev)) aad (from_base64url (evCiphertext ev))
                 (from_base64url (evAuthenticationTag ev)) of
            None \<Rightarrow> Inl CIPHERTEXT_AUTHENTICATION_FAILED
          | Some plaintext \<Rightarrow> Inr plaintext))))"

text \<open>The audit callback as the list of the events it was given.\<close>

definition envelope_rotate :: "aes_env \<Rightarrow> 'k kms \<Rightarrow> enc_context \<Rightarrow> envelope \<Rightarrow> nat \<Rightarrow> 'k \<Rightarrow> crypto_audit list \<Rightarrow>
    (crypto_error, envelope, crypto_audit list) outcome" where
  "envelope_rotate E K ctx ev n k au =
    (case sum_bind (envelope_decrypt E K ctx ev k) (\<lambda>p. envelope_encrypt E K ctx p n k) of
       Inl err \<Rightarrow> (Inl err, au)
     | Inr r \<Rightarrow> (Inr r, au @ [\<lparr>caScope = scope_of ctx, caAction = KeyRotated, caKeyVersion = Some (evKeyVersion r)\<rparr>]))"

definition cryptoErase :: "'k kms \<Rightarrow> security_scope \<Rightarrow> 'k \<times> crypto_audit list \<Rightarrow>
    (crypto_error, unit, 'k \<times> crypto_audit list) outcome" where
  "cryptoErase K sc s =
    (case s of (k, au) \<Rightarrow>
       (case kRevoke K sc k of
          (Inl err, k') \<Rightarrow> (Inl err, (k', au))
        | (Inr _, k') \<Rightarrow>
          (Inr (), (k', au @ [\<lparr>caScope = sc, caAction = WorkspaceCryptoErased, caKeyVersion = None\<rparr>]))))"

subsection \<open>Chunks\<close>

record chunk_meta =
  chIndex :: nat
  chNonce :: string
  chAuthenticationTag :: string

record chunk = chunk_meta +
  chCiphertext :: string

record stored_chunk = chunk_meta +
  chCiphertextBytes :: nat

record envelope_head =
  heFormatVersion :: int
  heAlgorithm :: string
  heChunkBytes :: nat
  hePlaintextBytes :: int
  heEncryptedDek :: wrapped_key
  heKeyVersion :: string

record chunked_envelope = envelope_head +
  ceChunks :: "chunk list"

record stored_envelope = envelope_head +
  seChunks :: "stored_chunk list"

definition newChunkedEncryption :: "int \<Rightarrow> crypto_error + nat" where
  "newChunkedEncryption cb = (if \<bar>cb\<bar> > 9007199254740991 \<or> cb < 1024 then Inl INVALID_CHUNK_SIZE else Inr (nat cb))"

definition chunkAad :: "aes_env \<Rightarrow> enc_context \<Rightarrow> nat \<Rightarrow> int \<Rightarrow> crypto_error + string" where
  "chunkAad E ctx index ptBytes =
    sum_bind (canonicalContext E ctx) (\<lambda>a. Inr (a @ utf8_bytes (stringify (JArr [JNum (int index), JNum ptBytes]))))"

text \<open>One chunk: nonce, tag and ciphertext.\<close>

definition seal_chunk :: "aes_env \<Rightarrow> enc_context \<Rightarrow> string \<Rightarrow> nat \<Rightarrow> int \<Rightarrow> nat \<Rightarrow> string \<Rightarrow> crypto_error + (string \<times> string \<times> string)" where
  "seal_chunk E ctx dek n ptBytes index source =
    (let nonce = aeRandom E 12 (n + index)
     in sum_bind (chunkAad E ctx index ptBytes) (\<lambda>aad.
          (case aeSeal E dek nonce aad source of
             None \<Rightarrow> Inl (CryptoThrown OtherThrown)
           | Some (ct, tag) \<Rightarrow> Inr (nonce, tag, ct))))"

definition chunk_of :: "nat \<Rightarrow> string \<times> string \<times> string \<Rightarrow> chunk" where
  "chunk_of index x = (case x of (nonce, tag, ct) \<Rightarrow>
     \<lparr>chIndex = index, chNonce = base64 nonce, chAuthenticationTag = base64 tag, chCiphertext = base64 ct\<rparr>)"

partial_function (option) encrypt_chunks :: "aes_env \<Rightarrow> nat \<Rightarrow> enc_context \<Rightarrow> string \<Rightarrow> nat \<Rightarrow> int \<Rightarrow> nat \<Rightarrow> string \<Rightarrow>
    (crypto_error + chunk list) option" where
  "encrypt_chunks E cb ctx dek n ptBytes index rest =
    (if rest = [] then Some (Inr [])
     else
       (case seal_chunk E ctx dek n ptBytes index (take cb rest) of
          Inl err \<Rightarrow> Some (Inl err)
        | Inr x \<Rightarrow>
          Option.bind (encrypt_chunks E cb ctx dek n ptBytes (Suc index) (drop cb rest)) (\<lambda>r.
            Some (map_sum id (Cons (chunk_of index x)) r))))"

definition head_of :: "nat \<Rightarrow> int \<Rightarrow> wrapped_key \<Rightarrow> string \<Rightarrow> envelope_head" where
  "head_of cb ptBytes w v = \<lparr>heFormatVersion = 1, heAlgorithm = ''AES-256-GCM-CHUNKED'', heChunkBytes = cb,
     hePlaintextBytes = ptBytes, heEncryptedDek = w, heKeyVersion = v\<rparr>"

definition chunked_encrypt :: "aes_env \<Rightarrow> 'k kms \<Rightarrow> nat \<Rightarrow> enc_context \<Rightarrow> string \<Rightarrow> nat \<Rightarrow> 'k \<Rightarrow>
    (crypto_error + chunked_envelope) option" where
  "chunked_encrypt E K cb ctx plaintext n k =
    (let dek = aeRandom E 32 n
     in case sum_bind (kCurrent K (scope_of ctx) k) (\<lambda>v. sum_bind (kWrap K (n + 1) (scope_of ctx) dek v k) (\<lambda>w. Inr (v, w))) of
          Inl err \<Rightarrow> Some (Inl err)
        | Inr (v, w) \<Rightarrow>
          map_option (map_sum id (\<lambda>cs. envelope_head.extend (head_of cb (int (length plaintext)) w v) \<lparr>ceChunks = cs\<rparr>))
            (encrypt_chunks E cb ctx dek (n + 2) (int (length plaintext)) 0 plaintext))"

text \<open>The streaming form: the source is a sequence of buffers, the sink a function on a state of its own.\<close>

type_synonym 'w sink = "nat \<Rightarrow> string \<Rightarrow> 'w \<Rightarrow> (thrown, unit, 'w) outcome"

definition write_chunk :: "aes_env \<Rightarrow> enc_context \<Rightarrow> string \<Rightarrow> nat \<Rightarrow> int \<Rightarrow> 'w sink \<Rightarrow> string \<Rightarrow> stored_chunk list \<times> 'w \<Rightarrow>
    (crypto_error, unit, stored_chunk list \<times> 'w) outcome" where
  "write_chunk E ctx dek n ptBytes sink plaintext s =
    (case s of (cs, w) \<Rightarrow>
       (case seal_chunk E ctx dek n ptBytes (length cs) plaintext of
          Inl err \<Rightarrow> (Inl err, s)
        | Inr (nonce, tag, ct) \<Rightarrow>
          (case sink (length cs) ct w of
             (Inl err, w') \<Rightarrow> (Inl (CryptoThrown err), (cs, w'))
           | (Inr _, w') \<Rightarrow>
             (Inr (), (cs @ [\<lparr>chIndex = length cs, chNonce = base64 nonce, chAuthenticationTag = base64 tag,
                            chCiphertextBytes = length ct\<rparr>], w')))))"

partial_function (option) write_full :: "aes_env \<Rightarrow> nat \<Rightarrow> enc_context \<Rightarrow> string \<Rightarrow> nat \<Rightarrow> int \<Rightarrow> 'w sink \<Rightarrow> string \<Rightarrow>
    stored_chunk list \<times> 'w \<Rightarrow> (crypto_error, string, stored_chunk list \<times> 'w) outcome option" where
  "write_full E cb ctx dek n ptBytes sink pending s =
    (if cb \<le> length pending
     then
       (case write_chunk E ctx dek n ptBytes sink (take cb pending) s of
          (Inl err, s') \<Rightarrow> Some (Inl err, s')
        | (Inr _, s') \<Rightarrow> write_full E cb ctx dek n ptBytes sink (drop cb pending) s')
     else Some (Inr pending, s))"

fun consume :: "aes_env \<Rightarrow> nat \<Rightarrow> enc_context \<Rightarrow> string \<Rightarrow> nat \<Rightarrow> int \<Rightarrow> 'w sink \<Rightarrow> string list \<Rightarrow> nat \<Rightarrow> string \<Rightarrow>
    stored_chunk list \<times> 'w \<Rightarrow> (crypto_error, nat \<times> string, stored_chunk list \<times> 'w) outcome option" where
  "consume E cb ctx dek n ptBytes sink [] consumed pending s = Some (Inr (consumed, pending), s)"
| "consume E cb ctx dek n ptBytes sink (input # source) consumed pending s =
    (if int (consumed + length input) > ptBytes then Some (Inl PLAINTEXT_LENGTH_OVERFLOW, s)
     else Option.bind (write_full E cb ctx dek n ptBytes sink (pending @ input) s) (\<lambda>(r, s').
       (case r of
          Inl err \<Rightarrow> Some (Inl err, s')
        | Inr pending' \<Rightarrow> consume E cb ctx dek n ptBytes sink source (consumed + length input) pending' s')))"

definition finish_stream :: "aes_env \<Rightarrow> enc_context \<Rightarrow> string \<Rightarrow> nat \<Rightarrow> int \<Rightarrow> 'w sink \<Rightarrow>
    (crypto_error, nat \<times> string, stored_chunk list \<times> 'w) outcome \<Rightarrow> (crypto_error, unit, stored_chunk list \<times> 'w) outcome" where
  "finish_stream E ctx dek n ptBytes sink o1 =
    (case o1 of
       (Inl err, s) \<Rightarrow> (Inl err, s)
     | (Inr (consumed, pending), s) \<Rightarrow>
       (case (if 0 < length pending then write_chunk E ctx dek n ptBytes sink pending s else (Inr (), s)) of
          (Inl err, s') \<Rightarrow> (Inl err, s')
        | (Inr _, s') \<Rightarrow> if int consumed \<noteq> ptBytes then (Inl PLAINTEXT_LENGTH_MISMATCH, s') else (Inr (), s')))"

definition encryptToSink :: "aes_env \<Rightarrow> 'k kms \<Rightarrow> nat \<Rightarrow> enc_context \<Rightarrow> int \<Rightarrow> string list \<Rightarrow> 'w sink \<Rightarrow> nat \<Rightarrow> 'k \<Rightarrow> 'w \<Rightarrow>
    (crypto_error, stored_envelope, 'w) outcome option" where
  "encryptToSink E K cb ctx ptBytes source sink n k w0 =
    (if \<bar>ptBytes\<bar> > 9007199254740991 \<or> ptBytes < 0 then Some (Inl INVALID_PLAINTEXT_LENGTH, w0)
     else
       (let dek = aeRandom E 32 n
        in case sum_bind (kCurrent K (scope_of ctx) k) (\<lambda>v. sum_bind (kWrap K (n + 1) (scope_of ctx) dek v k) (\<lambda>w. Inr (v, w))) of
             Inl err \<Rightarrow> Some (Inl err, w0)
           | Inr (v, w) \<Rightarrow>
             map_option (\<lambda>o1.
                 case finish_stream E ctx dek (n + 2) ptBytes sink o1 of
                   (Inl err, (cs, w')) \<Rightarrow> (Inl err, w')
                 | (Inr _, (cs, w')) \<Rightarrow>
                     (Inr (envelope_head.extend (head_of cb ptBytes w v) \<lparr>seChunks = cs\<rparr>), w'))
               (consume E cb ctx dek (n + 2) ptBytes sink source 0 [] ([], w0))))"

definition bad_head :: "'a envelope_head_scheme \<Rightarrow> bool" where
  "bad_head ev \<longleftrightarrow> heFormatVersion ev \<noteq> 1 \<or> heAlgorithm ev \<noteq> ''AES-256-GCM-CHUNKED''
     \<or> heKeyVersion ev \<noteq> wkKeyVersion (heEncryptedDek ev)"

definition open_chunk :: "aes_env \<Rightarrow> enc_context \<Rightarrow> string \<Rightarrow> int \<Rightarrow> nat \<Rightarrow> 'a chunk_meta_scheme \<Rightarrow> string \<Rightarrow> crypto_error + string" where
  "open_chunk E ctx dek ptBytes index c ct =
    (case chunkAad E ctx index ptBytes of
       Inl _ \<Rightarrow> Inl CHUNK_AUTHENTICATION_FAILED
     | Inr aad \<Rightarrow>
       (case aeOpen E dek (from_base64url (chNonce c)) aad ct (from_base64url (chAuthenticationTag c)) of
          None \<Rightarrow> Inl CHUNK_AUTHENTICATION_FAILED
        | Some p \<Rightarrow> Inr p))"

fun decrypt_chunks :: "aes_env \<Rightarrow> enc_context \<Rightarrow> string \<Rightarrow> int \<Rightarrow> nat \<Rightarrow> chunk list \<Rightarrow> crypto_error + string list" where
  "decrypt_chunks E ctx dek ptBytes index [] = Inr []"
| "decrypt_chunks E ctx dek ptBytes index (c # cs) =
    (if chIndex c \<noteq> index then Inl CHUNK_ORDER_INVALID
     else sum_bind (open_chunk E ctx dek ptBytes index c (from_base64url (chCiphertext c))) (\<lambda>p.
       sum_bind (decrypt_chunks E ctx dek ptBytes (Suc index) cs) (\<lambda>ps. Inr (p # ps))))"

definition chunked_decrypt :: "aes_env \<Rightarrow> 'k kms \<Rightarrow> enc_context \<Rightarrow> chunked_envelope \<Rightarrow> 'k \<Rightarrow> crypto_error + string" where
  "chunked_decrypt E K ctx ev k =
    (if bad_head ev then Inl CHUNKED_ENVELOPE_INVALID
     else sum_bind (kUnwrap K (scope_of ctx) (heEncryptedDek ev) k) (\<lambda>dek.
       sum_bind (decrypt_chunks E ctx dek (hePlaintextBytes ev) 0 (ceChunks ev)) (\<lambda>output.
         (let plaintext = concat output
          in if int (length plaintext) \<noteq> hePlaintextBytes ev then Inl CHUNK_LENGTH_MISMATCH else Inr plaintext))))"

text \<open>The generator: the buffers it yields, and the error it ends with, if any.  \<open>source\<close> reads a stored chunk.\<close>

fun yield_chunks :: "aes_env \<Rightarrow> enc_context \<Rightarrow> string \<Rightarrow> int \<Rightarrow> (nat \<Rightarrow> thrown + string) \<Rightarrow> nat \<Rightarrow> nat \<Rightarrow> stored_chunk list \<Rightarrow>
    string list \<times> crypto_error option" where
  "yield_chunks E ctx dek ptBytes source index sofar [] =
    ([], if int sofar \<noteq> ptBytes then Some CHUNK_LENGTH_MISMATCH else None)"
| "yield_chunks E ctx dek ptBytes source index sofar (c # cs) =
    (if chIndex c \<noteq> index then ([], Some CHUNK_ORDER_INVALID)
     else
       (case source index of
          Inl err \<Rightarrow> ([], Some (CryptoThrown err))
        | Inr ct \<Rightarrow>
          if length ct \<noteq> chCiphertextBytes c then ([], Some CHUNK_LENGTH_MISMATCH)
          else
            (case open_chunk E ctx dek ptBytes index c ct of
               Inl err \<Rightarrow> ([], Some err)
             | Inr p \<Rightarrow>
               (case yield_chunks E ctx dek ptBytes source (Suc index) (sofar + length p) cs of
                  (ps, r) \<Rightarrow> (p # ps, r)))))"

definition decryptFromSource :: "aes_env \<Rightarrow> 'k kms \<Rightarrow> enc_context \<Rightarrow> stored_envelope \<Rightarrow> (nat \<Rightarrow> thrown + string) \<Rightarrow> 'k \<Rightarrow>
    string list \<times> crypto_error option" where
  "decryptFromSource E K ctx ev source k =
    (if bad_head ev then ([], Some CHUNKED_ENVELOPE_INVALID)
     else
       (case kUnwrap K (scope_of ctx) (heEncryptedDek ev) k of
          Inl err \<Rightarrow> ([], Some err)
        | Inr dek \<Rightarrow> yield_chunks E ctx dek (hePlaintextBytes ev) source 0 0 (seChunks ev)))"

subsection \<open>Backups\<close>

definition backup_context :: "security_scope \<Rightarrow> string \<Rightarrow> enc_context" where
  "backup_context sc backupId = security_scope.extend sc \<lparr>ecRecordType = RtBackup, ecRecord = backupId, ecAdditional = None\<rparr>"

definition backup_create :: "aes_env \<Rightarrow> 'k kms \<Rightarrow> nat \<Rightarrow> security_scope \<Rightarrow> string \<Rightarrow> string \<Rightarrow> nat \<Rightarrow> 'k \<Rightarrow>
    (crypto_error + chunked_envelope) option" where
  "backup_create E K cb sc backupId data n k = chunked_encrypt E K cb (backup_context sc backupId) data n k"

definition backup_restore :: "aes_env \<Rightarrow> 'k kms \<Rightarrow> security_scope \<Rightarrow> security_scope \<Rightarrow> string \<Rightarrow> chunked_envelope \<Rightarrow> 'k \<Rightarrow> crypto_error + string" where
  "backup_restore E K source destination backupId ev k =
    (if seTenantId source \<noteq> seTenantId destination \<or> seOrganizationId source \<noteq> seOrganizationId destination
        \<or> seWorkspaceId source \<noteq> seWorkspaceId destination
     then Inl CROSS_TENANT_RESTORE_DENIED
     else chunked_decrypt E K (backup_context source backupId) ev k)"

end
