(* ===== verification/Envelope_Props.thy ===== *)
theory Envelope_Props
  imports Envelope_Encryption
begin

section \<open>Envelope encryption: properties\<close>

text \<open>
  The streaming and the buffered encryption are both equal to sealing the pieces of the plaintext one by one
  (\<open>write_all\<close>, \<open>seal_all\<close>), which gives their termination and their agreement.  The locale \<open>kms_provider\<close> is what
  encryption needs of a key provider; the two providers that keep their keys in memory are interpretations.
  The runs of the local provider are a transition system with the invariant that a rotation never replaces a key.
\<close>

subsection \<open>Cutting a plaintext into chunks\<close>

text \<open>\<open>full_pieces\<close> are the chunks of exactly the chunk size, \<open>last_piece\<close> what remains, \<open>pieces\<close> both.\<close>

function full_pieces :: "nat \<Rightarrow> 'a list \<Rightarrow> 'a list list" where
  "full_pieces cb p = (if cb = 0 \<or> length p < cb then [] else take cb p # full_pieces cb (drop cb p))"
  by auto
termination by (relation "measure (length o snd)") auto

function last_piece :: "nat \<Rightarrow> 'a list \<Rightarrow> 'a list" where
  "last_piece cb p = (if cb = 0 \<or> length p < cb then p else last_piece cb (drop cb p))"
  by auto
termination by (relation "measure (length o snd)") auto

declare full_pieces.simps [simp del] last_piece.simps [simp del]

definition pieces :: "nat \<Rightarrow> 'a list \<Rightarrow> 'a list list" where
  "pieces cb p = full_pieces cb p @ (if last_piece cb p = [] then [] else [last_piece cb p])"

lemma full_append:
  "full_pieces cb (a @ b) = full_pieces cb a @ full_pieces cb (last_piece cb a @ b)
   \<and> last_piece cb (a @ b) = last_piece cb (last_piece cb a @ b)"
proof (induction cb a rule: full_pieces.induct)
  case (1 cb p)
  show ?case
  proof (cases "cb = 0 \<or> length p < cb")
    case True
    then show ?thesis by (simp add: full_pieces.simps [of cb p] last_piece.simps [of cb p])
  next
    case False
    then have "full_pieces cb (p @ b) = take cb p # full_pieces cb (drop cb p @ b)"
      "last_piece cb (p @ b) = last_piece cb (drop cb p @ b)"
      by (simp_all add: full_pieces.simps [of cb "p @ b"] last_piece.simps [of cb "p @ b"])
    with 1 [OF False] False show ?thesis
      by (simp add: full_pieces.simps [of cb p] last_piece.simps [of cb p])
  qed
qed

lemma last_piece_short: "0 < cb \<Longrightarrow> length (last_piece cb p) < cb"
proof (induction cb p rule: last_piece.induct)
  case (1 cb p)
  then show ?case by (cases "length p < cb") (simp_all add: last_piece.simps [of cb p])
qed

lemma short_pieces [simp]: "length p < cb \<Longrightarrow> full_pieces cb p = []" "length p < cb \<Longrightarrow> last_piece cb p = p"
  by (simp_all add: full_pieces.simps [of cb p] last_piece.simps [of cb p])

lemma pieces_Nil0: "full_pieces cb [] = []" "last_piece cb [] = []"
  by (cases cb; subst full_pieces.simps, simp) (cases cb; subst last_piece.simps, simp)

lemma pieces_Nil [simp]: "pieces cb [] = []"
  by (simp add: pieces_def pieces_Nil0)

lemma pieces_Cons: "0 < cb \<Longrightarrow> p \<noteq> [] \<Longrightarrow> pieces cb p = take cb p # pieces cb (drop cb p)"
proof (cases "length p < cb")
  case True
  assume "p \<noteq> []" "0 < cb"
  with True show ?thesis
    by (simp add: pieces_def full_pieces.simps [of cb p] last_piece.simps [of cb p]
        full_pieces.simps [of cb "[]"] last_piece.simps [of cb "[]"])
next
  case False
  assume "0 < cb"
  with False show ?thesis by (simp add: pieces_def full_pieces.simps [of cb p] last_piece.simps [of cb p])
qed

lemma concat_pieces: "0 < cb \<Longrightarrow> concat (pieces cb p) = p"
proof (induction p rule: length_induct)
  case (1 p)
  then show ?case by (cases "p = []") (auto simp: pieces_Cons)
qed

lemma pieces_induct [case_names Nil Cons]:
  assumes "P []" and "\<And>p. p \<noteq> [] \<Longrightarrow> P (drop cb p) \<Longrightarrow> P p" and "0 < cb"
  shows "P p"
proof (induction p rule: length_induct)
  case (1 p)
  then show ?case using assms by (cases "p = []") auto
qed

subsection \<open>The loops return\<close>

fun seal_all :: "aes_env \<Rightarrow> enc_context \<Rightarrow> string \<Rightarrow> nat \<Rightarrow> int \<Rightarrow> nat \<Rightarrow> string list \<Rightarrow> crypto_error + chunk list" where
  "seal_all E ctx dek n N index [] = Inr []"
| "seal_all E ctx dek n N index (x # xs) =
    sum_bind (seal_chunk E ctx dek n N index x) (\<lambda>y. map_sum id (Cons (chunk_of index y)) (seal_all E ctx dek n N (Suc index) xs))"

fun write_all :: "aes_env \<Rightarrow> enc_context \<Rightarrow> string \<Rightarrow> nat \<Rightarrow> int \<Rightarrow> 'w sink \<Rightarrow> string list \<Rightarrow> stored_chunk list \<times> 'w \<Rightarrow>
    (crypto_error, unit, stored_chunk list \<times> 'w) outcome" where
  "write_all E ctx dek n N sink [] s = (Inr (), s)"
| "write_all E ctx dek n N sink (x # xs) s =
    (case write_chunk E ctx dek n N sink x s of
       (Inl err, s') \<Rightarrow> (Inl err, s')
     | (Inr _, s') \<Rightarrow> write_all E ctx dek n N sink xs s')"

lemma encrypt_chunks_eq:
  assumes "0 < cb"
  shows "encrypt_chunks E cb ctx dek n N index p = Some (seal_all E ctx dek n N index (pieces cb p))"
  using assms
proof (induction p arbitrary: index rule: pieces_induct [of _ cb])
  case (Cons p)
  then show ?case
    by (simp add: encrypt_chunks.simps [of E cb ctx dek n N index p] pieces_Cons split: sum.split)
qed (simp_all add: encrypt_chunks.simps assms)

lemma write_all_append:
  "write_all E ctx dek n N sink (xs @ ys) s =
    (case write_all E ctx dek n N sink xs s of
       (Inl err, s') \<Rightarrow> (Inl err, s')
     | (Inr _, s') \<Rightarrow> write_all E ctx dek n N sink ys s')"
  by (induction xs arbitrary: s) (simp_all split: prod.split sum.split)

lemma write_full_eq:
  assumes "0 < cb"
  shows "write_full E cb ctx dek n N sink p s = Some
    (case write_all E ctx dek n N sink (full_pieces cb p) s of
       (Inl err, s') \<Rightarrow> (Inl err, s')
     | (Inr _, s') \<Rightarrow> (Inr (last_piece cb p), s'))"
proof (induction p arbitrary: s rule: length_induct)
  case (1 p)
  show ?case
  proof (cases "length p < cb")
    case True
    then show ?thesis by (simp add: write_full.simps [of E cb ctx dek n N sink p])
  next
    case False
    then have "length (drop cb p) < length p" using assms by simp
    with 1 False assms show ?thesis
      by (simp add: write_full.simps [of E cb ctx dek n N sink p] full_pieces.simps [of cb p] last_piece.simps [of cb p]
          split: prod.split sum.split)
  qed
qed

lemma consume_eq:
  assumes "0 < cb" and "length pending < cb" and "int (consumed + length (concat source)) \<le> N"
  shows "consume E cb ctx dek n N sink source consumed pending s = Some
    (case write_all E ctx dek n N sink (full_pieces cb (pending @ concat source)) s of
       (Inl err, s') \<Rightarrow> (Inl err, s')
     | (Inr _, s') \<Rightarrow> (Inr (consumed + length (concat source), last_piece cb (pending @ concat source)), s'))"
  using assms
proof (induction source arbitrary: consumed pending s)
  case (Cons x source)
  let ?l = "last_piece cb (pending @ x)"
  have IH: "consume E cb ctx dek n N sink source (consumed + length x) ?l s' = Some
    (case write_all E ctx dek n N sink (full_pieces cb (?l @ concat source)) s' of
       (Inl err, s') \<Rightarrow> (Inl err, s')
     | (Inr _, s') \<Rightarrow> (Inr (consumed + length x + length (concat source), last_piece cb (?l @ concat source)), s'))" for s'
    using Cons.IH [of ?l "consumed + length x" s'] Cons.prems last_piece_short [OF assms(1), of "pending @ x"] by simp
  have fits: "\<not> int (consumed + length x) > N" using Cons.prems by simp
  note app = full_append [of cb "pending @ x" "concat source"]
  show ?case
    using fits IH app
    by (simp add: write_full_eq [OF assms(1)] write_all_append split: prod.split sum.split)
qed simp

lemma stream_eq:
  assumes "0 < cb" and "concat source = p" and "N = int (length p)"
  shows "map_option (finish_stream E ctx dek n N sink) (consume E cb ctx dek n N sink source 0 [] s)
    = Some (write_all E ctx dek n N sink (pieces cb p) s)"
  using assms consume_eq [of cb "[]" 0 source N E ctx dek n sink s]
  by (simp add: pieces_def write_all_append finish_stream_def split: prod.split sum.split)

subsection \<open>The recording sink\<close>

text \<open>A sink that keeps what it is given; the stored form of a chunk.\<close>

definition record_sink :: "string list sink" where
  "record_sink index ct w = (Inr (), w @ [ct])"

definition stored_of :: "chunk \<Rightarrow> stored_chunk" where
  "stored_of c = chunk_meta.extend (chunk_meta.truncate c) \<lparr>chCiphertextBytes = length (from_base64url (chCiphertext c))\<rparr>"

lemma write_all_seal_all:
  "case seal_all E ctx dek n N (length cs) xs of
     Inl err \<Rightarrow> fst (write_all E ctx dek n N record_sink xs (cs, w)) = Inl err
   | Inr ys \<Rightarrow> write_all E ctx dek n N record_sink xs (cs, w)
        = (Inr (), (cs @ map stored_of ys, w @ map (\<lambda>c. from_base64url (chCiphertext c)) ys))"
proof (induction xs arbitrary: cs w)
  case (Cons x xs)
  show ?case
  proof (cases "seal_chunk E ctx dek n N (length cs) x")
    case (Inr y)
    obtain nonce tag ct where y: "y = (nonce, tag, ct)" by (cases y)
    let ?c = "\<lparr>chIndex = length cs, chNonce = base64 nonce, chAuthenticationTag = base64 tag, chCiphertextBytes = length ct\<rparr>"
    have c: "stored_of (chunk_of (length cs) y) = ?c" "from_base64url (chCiphertext (chunk_of (length cs) y)) = ct"
      by (simp_all add: stored_of_def chunk_of_def y chunk_meta.defs base64_round_trip)
    have w: "write_chunk E ctx dek n N record_sink x (cs, w) = (Inr (), (cs @ [?c], w @ [ct]))"
      using Inr by (simp add: write_chunk_def record_sink_def y)
    show ?thesis
      using Cons.IH [of "cs @ [?c]" "w @ [ct]"] Inr w c by (cases "seal_all E ctx dek n N (Suc (length cs)) xs") auto
  qed (simp add: write_chunk_def)
qed simp

subsection \<open>What AES-256-GCM promises\<close>

text \<open>Sealing under a key of 32 bytes succeeds, keeps the length and gives a tag of 16 bytes; opening what was sealed
  gives it back; \<open>randomBytes\<close> answers as many bytes as asked.\<close>

definition aes_laws :: "aes_env \<Rightarrow> bool" where
  "aes_laws E \<longleftrightarrow>
    (\<forall>key nonce aad p. length key = 32 \<longrightarrow> aeSeal E key nonce aad p \<noteq> None)
    \<and> (\<forall>key nonce aad p ct tag. aeSeal E key nonce aad p = Some (ct, tag) \<longrightarrow>
         aeOpen E key nonce aad ct tag = Some p \<and> length ct = length p \<and> length tag = 16)
    \<and> (\<forall>l n. length (aeRandom E l n) = l)"

lemma aes_lawsD:
  assumes "aes_laws E"
  shows "length key = 32 \<Longrightarrow> \<exists>ct tag. aeSeal E key nonce aad p = Some (ct, tag)"
    and "aeSeal E key nonce aad p = Some (ct, tag) \<Longrightarrow> aeOpen E key nonce aad ct tag = Some p"
    and "aeSeal E key nonce aad p = Some (ct, tag) \<Longrightarrow> length ct = length p \<and> length tag = 16"
    and "length (aeRandom E l n) = l"
  using assms unfolding aes_laws_def by fastforce+

lemma open_seal_key:
  assumes "aes_laws E" and "seal_key E n key aad dek = Inr ct"
  shows "open_key E key (Inr aad) (from_base64url ct) = Inr dek \<and> length (from_base64url ct) = 28 + length dek"
proof -
  obtain c tag where c: "aeSeal E key (aeRandom E 12 n) aad dek = Some (c, tag)" "ct = base64 (aeRandom E 12 n @ tag @ c)"
    using assms(2) by (auto simp: seal_key_def Let_def split: option.splits)
  note l = aes_lawsD(3) [OF assms(1) c(1)] aes_lawsD(4) [OF assms(1), of 12 n]
  show ?thesis
    using l aes_lawsD(2) [OF assms(1) c(1)] by (simp add: c(2) base64_round_trip open_key_def)
qed

lemma dek_nonempty: "aes_laws E \<Longrightarrow> aeRandom E 32 n \<noteq> []"
  using aes_lawsD(4) [of E 32 n] by (cases "aeRandom E 32 n") auto

lemma open_sealed_chunk:
  assumes "aes_laws E" and "seal_chunk E ctx dek n N i x = Inr y"
  shows "open_chunk E ctx dek N i (chunk_of i y) (from_base64url (chCiphertext (chunk_of i y))) = Inr x"
  using assms(2) aes_lawsD(2) [OF assms(1)]
  by (auto simp: seal_chunk_def open_chunk_def chunk_of_def sum_bind_Inr_iff base64_round_trip Let_def split: option.splits)

lemma decrypt_sealed:
  assumes "aes_laws E"
  shows "seal_all E ctx dek n N i xs = Inr cs \<Longrightarrow> decrypt_chunks E ctx dek N i cs = Inr xs"
proof (induction xs arbitrary: i cs)
  case (Cons x xs)
  from Cons.prems obtain y ds where y: "seal_chunk E ctx dek n N i x = Inr y" "seal_all E ctx dek n N (Suc i) xs = Inr ds"
    "cs = chunk_of i y # ds"
    by (auto simp: sum_bind_Inr_iff map_sum_Inr_iff)
  moreover have "chIndex (chunk_of i y) = i" by (simp add: chunk_of_def case_prod_beta)
  ultimately show ?case using Cons.IH [OF y(2)] open_sealed_chunk [OF assms y(1)] by simp
qed simp

subsection \<open>The contract of a key provider\<close>

text \<open>A provider that unwraps what it wrapped makes both encryptions invertible.\<close>

locale kms_provider =
  fixes K :: "aes_env \<Rightarrow> 'k kms"
  assumes wrap_version: "kWrap (K E) n sc dek v k = Inr w \<Longrightarrow> wkKeyVersion w = v"
    and unwrap_wrap: "aes_laws E \<Longrightarrow> dek \<noteq> [] \<Longrightarrow> kWrap (K E) n sc dek v k = Inr w \<Longrightarrow> kUnwrap (K E) sc w k = Inr dek"
begin

lemma envelope_opens:
  assumes "aes_laws E" and "envelope_encrypt E (K E) ctx p n k = Inr ev"
    and "kUnwrap (K E) (scope_of ctx) (evEncryptedDek ev) k' = Inr (aeRandom E 32 n)"
  shows "envelope_decrypt E (K E) ctx ev k' = Inr p"
proof -
  obtain aad ct tag v w where ev: "canonicalContext E ctx = Inr aad"
    "aeSeal E (aeRandom E 32 n) (aeRandom E 12 (n + 1)) aad p = Some (ct, tag)"
    "kWrap (K E) (n + 2) (scope_of ctx) (aeRandom E 32 n) v k = Inr w"
    "ev = \<lparr>evFormatVersion = 1, evAlgorithm = ''AES-256-GCM'', evKeyVersion = v, evEncryptedDek = w,
       evNonce = base64 (aeRandom E 12 (n + 1)), evAuthenticationTag = base64 tag, evAadSha256 = aeSha256 E aad,
       evCiphertext = base64 ct\<rparr>"
    using assms(2) by (auto simp: envelope_encrypt_def sum_bind_Inr_iff Let_def split: option.splits)
  then show ?thesis
    using assms(3) aes_lawsD(2) [OF assms(1) ev(2)] wrap_version [OF ev(3)]
    by (simp add: envelope_decrypt_def base64_round_trip)
qed

lemma envelope_key:
  assumes "envelope_encrypt E (K E) ctx p n k = Inr ev"
  shows "\<exists>v. kWrap (K E) (n + 2) (scope_of ctx) (aeRandom E 32 n) v k = Inr (evEncryptedDek ev) \<and> evKeyVersion ev = v
    \<and> wkKeyVersion (evEncryptedDek ev) = v \<and> kCurrent (K E) (scope_of ctx) k = Inr v"
  using assms wrap_version
  by (fastforce simp: envelope_encrypt_def sum_bind_Inr_iff Let_def split: option.splits)

lemma envelope_round_trip:
  assumes "aes_laws E" and "envelope_encrypt E (K E) ctx p n k = Inr ev"
  shows "envelope_decrypt E (K E) ctx ev k = Inr p"
  using envelope_opens [OF assms] envelope_key [OF assms(2)] unwrap_wrap [OF assms(1) dek_nonempty [OF assms(1)]] by blast

lemma chunked_opens:
  assumes "aes_laws E" and "0 < cb" and "chunked_encrypt E (K E) cb ctx p n k = Some (Inr ev)"
    and "kUnwrap (K E) (scope_of ctx) (heEncryptedDek ev) k' = Inr (aeRandom E 32 n)"
  shows "chunked_decrypt E (K E) ctx ev k' = Inr p"
proof -
  let ?N = "int (length p)"
  obtain v w cs where ev: "kWrap (K E) (n + 1) (scope_of ctx) (aeRandom E 32 n) v k = Inr w"
    "seal_all E ctx (aeRandom E 32 n) (n + 2) ?N 0 (pieces cb p) = Inr cs"
    "ev = envelope_head.extend (head_of cb ?N w v) \<lparr>ceChunks = cs\<rparr>"
    using assms(3) encrypt_chunks_eq [OF assms(2)]
    by (auto simp: chunked_encrypt_def sum_bind_Inr_iff map_sum_Inr_iff Let_def split: sum.splits)
  then show ?thesis
    using assms(4) decrypt_sealed [OF assms(1) ev(2)] concat_pieces [OF assms(2), of p] wrap_version [OF ev(1)]
    by (simp add: chunked_decrypt_def bad_head_def head_of_def envelope_head.defs)
qed

end

subsection \<open>The local provider\<close>

lemma local_wrap_Inr:
  assumes "local_wrapKey E n sc dek v k = Inr w"
  shows "\<exists>key aad ct. map_of (lkKeys k) v = Some key \<and> workspaceContext sc = Inr aad \<and> seal_key E n key aad dek = Inr ct
    \<and> assertWorkspace E sc k = Inr ()
    \<and> w = \<lparr>wkProvider = ''local-memory'', wkKeyId = ''development-only'', wkKeyVersion = v, wkCiphertext = ct\<rparr>"
  using assms by (auto simp: local_wrapKey_def sum_bind_Inr_iff split: option.splits)

lemma local_unwrap_wrapped:
  assumes "aes_laws E" and "dek \<noteq> []" and "local_wrapKey E n sc dek v k = Inr w"
    and "map_of (lkKeys k') v = None \<or> map_of (lkKeys k') v = map_of (lkKeys k) v"
  shows "local_unwrapKey E sc w k' =
    sum_bind (assertWorkspace E sc k') (\<lambda>_. if map_of (lkKeys k') v = None then Inl KMS_KEY_REVOKED_OR_MISSING else Inr dek)"
proof -
  obtain key aad ct where w: "map_of (lkKeys k) v = Some key" "workspaceContext sc = Inr aad" "seal_key E n key aad dek = Inr ct"
    "w = \<lparr>wkProvider = ''local-memory'', wkKeyId = ''development-only'', wkKeyVersion = v, wkCiphertext = ct\<rparr>"
    using local_wrap_Inr [OF assms(3)] by blast
  have "length (from_base64url ct) \<ge> 29" "open_key E key (Inr aad) (from_base64url ct) = Inr dek"
    using open_seal_key [OF assms(1) w(3)] assms(2) by (cases dek; simp)+
  then show ?thesis
    using assms(4) w by (cases "assertWorkspace E sc k'") (auto simp: local_unwrapKey_def Let_def split: option.splits)
qed

interpretation in_memory: kms_provider LocalKmsProvider
proof
  show "wkKeyVersion w = v" if "kWrap (LocalKmsProvider E) n sc dek v k = Inr w" for E n sc dek v k w
    using that local_wrap_Inr by (fastforce simp: LocalKmsProvider_def)
  show "kUnwrap (LocalKmsProvider E) sc w k = Inr dek"
    if "aes_laws E" "dek \<noteq> []" "kWrap (LocalKmsProvider E) n sc dek v k = Inr w" for E n sc dek v k w
    using that local_wrap_Inr [of E n sc dek v k w] local_unwrap_wrapped [of E dek n sc v k w k]
    by (auto simp: LocalKmsProvider_def)
qed

lemma user_wrap_Inr:
  assumes "user_wrapKey E n sc dek v k = Inr w"
  shows "\<exists>aad ct. workspaceContext sc = Inr aad \<and> seal_key E n (ukKey k) aad dek = Inr ct
    \<and> w = \<lparr>wkProvider = ''user-content-key'', wkKeyId = ''user-content-key'', wkKeyVersion = v, wkCiphertext = ct\<rparr>"
  using assms by (auto simp: user_wrapKey_def sum_bind_Inr_iff split: if_splits)

interpretation user_content: kms_provider UserContentKmsProvider
proof
  show "wkKeyVersion w = v" if "kWrap (UserContentKmsProvider E) n sc dek v k = Inr w" for E n sc dek v k w
    using that user_wrap_Inr by (fastforce simp: UserContentKmsProvider_def)
  show "kUnwrap (UserContentKmsProvider E) sc w k = Inr dek"
    if h: "aes_laws E" "dek \<noteq> []" "kWrap (UserContentKmsProvider E) n sc dek v k = Inr w" for E n sc dek v k w
  proof -
    obtain aad ct where w: "workspaceContext sc = Inr aad" "seal_key E n (ukKey k) aad dek = Inr ct"
      "w = \<lparr>wkProvider = ''user-content-key'', wkKeyId = ''user-content-key'', wkKeyVersion = v, wkCiphertext = ct\<rparr>"
      using h(3) user_wrap_Inr by (fastforce simp: UserContentKmsProvider_def)
    have "length (from_base64url ct) \<ge> 29" "open_key E (ukKey k) (Inr aad) (from_base64url ct) = Inr dek"
      using open_seal_key [OF h(1) w(2)] h(2) by (cases dek; simp)+
    with w show ?thesis by (simp add: UserContentKmsProvider_def user_unwrapKey_def Let_def)
  qed
qed

subsection \<open>Runs of the local provider\<close>

datatype kms_event = Rotate string | RevokeVersion string | RevokeWorkspace security_scope

fun kms_exec :: "aes_env \<Rightarrow> kms_event \<Rightarrow> local_kms \<Rightarrow> local_kms" where
  "kms_exec E (Rotate seed) k = snd (rotate_kms seed k)"
| "kms_exec E (RevokeVersion v) k = revokeKeyVersion v k"
| "kms_exec E (RevokeWorkspace sc) k = snd (local_revokeWorkspace E sc k)"

inductive kms_step :: "aes_env \<Rightarrow> local_kms \<Rightarrow> local_kms \<Rightarrow> bool" for E where
  kms_stepI: "kms_step E k (kms_exec E ev k)"

inductive_cases kms_stepE: "kms_step E k k'"

definition kms_start :: "local_kms \<Rightarrow> bool" where
  "kms_start k \<longleftrightarrow> (\<exists>seed. newLocalKms seed = Inr k)"

text \<open>Every stored version was given out already, so a rotation never replaces a key.\<close>

definition kms_inv :: "local_kms \<Rightarrow> bool" where
  "kms_inv k \<longleftrightarrow> (\<forall>v key. map_of (lkKeys k) v = Some key \<longrightarrow> (\<exists>m \<le> lkCurrent k. v = show_nat m))"

definition version_given :: "string \<Rightarrow> local_kms \<Rightarrow> bool" where
  "version_given v k \<longleftrightarrow> (\<exists>m \<le> lkCurrent k. v = show_nat m)"

lemmas kms_defs = rotate_kms_def revokeKeyVersion_def local_revokeWorkspace_def

lemma kms_exec_keys:
  "map_of (lkKeys (kms_exec E ev k)) v = Some key \<Longrightarrow> version_given v k \<Longrightarrow> map_of (lkKeys k) v = Some key"
  by (cases ev) (auto simp: kms_defs version_given_def update_conv' delete_conv' Let_def split: if_splits sum.splits)

lemma kms_exec_given: "version_given v k \<Longrightarrow> version_given v (kms_exec E ev k)"
  by (cases ev) (auto simp: kms_defs version_given_def Let_def intro: le_SucI split: sum.splits)

lemma kms_exec_inv: "kms_inv k \<Longrightarrow> kms_inv (kms_exec E ev k)"
  by (cases ev) (auto simp: kms_inv_def kms_defs update_conv' delete_conv' Let_def intro: le_SucI split: if_splits sum.splits)

interpretation kms_run: transition_system kms_start "kms_step E" kms_inv for E
proof
  have one: "show_nat 1 = ''1''" by code_simp
  show "kms_inv k" if "kms_start k" for k
    using that one [symmetric] by (auto simp: kms_start_def newLocalKms_def kms_inv_def split: if_splits)
  show "kms_inv k'" if "kms_inv k" "kms_step E k k'" for k k'
    using that kms_exec_inv by (auto elim: kms_stepE)
qed

lemma kms_run_keys:
  assumes "reaches (kms_step E) k k'" and "version_given v k"
  shows "version_given v k' \<and> (map_of (lkKeys k') v = None \<or> map_of (lkKeys k') v = map_of (lkKeys k) v)"
  using assms
proof (induction rule: reaches.induct)
  case (reaches_step s t u)
  then obtain ev where u: "u = kms_exec E ev t" by (auto elim: kms_stepE)
  from reaches_step have t: "version_given v t" "map_of (lkKeys t) v = None \<or> map_of (lkKeys t) v = map_of (lkKeys s) v"
    by simp_all
  then show ?case
    using kms_exec_given [OF t(1)] kms_exec_keys [of E ev t v, OF _ t(1)] unfolding u
    by (cases "map_of (lkKeys (kms_exec E ev t)) v") auto
qed simp

lemma revoked_kept: "h \<in> set (lkRevoked k) \<Longrightarrow> h \<in> set (lkRevoked (kms_exec E ev k))"
  by (cases ev) (auto simp: kms_defs Let_def split: sum.splits)

lemma revoked_run: "reaches (kms_step E) k k' \<Longrightarrow> h \<in> set (lkRevoked k) \<Longrightarrow> h \<in> set (lkRevoked k')"
  by (induction rule: reaches.induct) (auto elim!: kms_stepE intro: revoked_kept)

definition erased :: "aes_env \<Rightarrow> 'a security_scope_scheme \<Rightarrow> local_kms \<Rightarrow> bool" where
  "erased E sc k \<longleftrightarrow> (\<exists>a. workspaceContext sc = Inr a \<and> aeSha256 E a \<in> set (lkRevoked k))"

lemma workspaceContext_scope [simp]: "workspaceContext (scope_of c) = workspaceContext c"
  by (simp add: workspaceContext_def security_scope.defs)

lemma assertWorkspace_eq:
  "workspaceContext sc = Inr a \<Longrightarrow> assertWorkspace E (scope_of sc) k = (if erased E sc k then Inl WORKSPACE_CRYPTO_ERASED else Inr ())"
  by (simp add: assertWorkspace_def workspaceKey_def erased_def)

subsection \<open>Reading a stream back\<close>

text \<open>The source that reads what a recording sink kept; an index that was not written throws.\<close>

definition recorded :: "string list \<Rightarrow> nat \<Rightarrow> thrown + string" where
  "recorded w i = (if i < length w then Inr (w ! i) else Inl OtherThrown)"

lemma stored_of_sel [simp]: "chIndex (stored_of c) = chIndex c" "chNonce (stored_of c) = chNonce c"
  "chAuthenticationTag (stored_of c) = chAuthenticationTag c"
  "chCiphertextBytes (stored_of c) = length (from_base64url (chCiphertext c))"
  by (simp_all add: stored_of_def chunk_meta.defs)

lemma open_chunk_stored [simp]: "open_chunk E ctx dek N i (stored_of c) ct = open_chunk E ctx dek N i c ct"
  by (simp add: open_chunk_def split: sum.split)

lemma yield_sealed:
  assumes "aes_laws E"
  shows "seal_all E ctx dek n N i xs = Inr cs \<Longrightarrow> length w = i \<Longrightarrow>
    yield_chunks E ctx dek N (recorded (w @ map (\<lambda>c. from_base64url (chCiphertext c)) cs)) i sofar (map stored_of cs)
    = (xs, if int (sofar + length (concat xs)) \<noteq> N then Some CHUNK_LENGTH_MISMATCH else None)"
proof (induction xs arbitrary: i cs sofar w)
  case (Cons x xs)
  let ?t = "\<lambda>c. from_base64url (chCiphertext c)"
  from Cons.prems obtain y ds where y: "seal_chunk E ctx dek n N i x = Inr y" "seal_all E ctx dek n N (Suc i) xs = Inr ds"
    "cs = chunk_of i y # ds"
    by (auto simp: sum_bind_Inr_iff map_sum_Inr_iff)
  have i: "chIndex (chunk_of i y) = i" by (simp add: chunk_of_def case_prod_beta)
  have r: "recorded (w @ map ?t cs) i = Inr (?t (chunk_of i y))"
    using Cons.prems(2) by (simp add: recorded_def y(3) nth_append)
  have "w @ map ?t cs = (w @ [?t (chunk_of i y)]) @ map ?t ds" by (simp add: y(3))
  then show ?case
    using Cons.IH [OF y(2), of "w @ [?t (chunk_of i y)]" "sofar + length x"] Cons.prems(2) r i open_sealed_chunk [OF assms y(1)]
    by (simp add: y(3) add.assoc)
qed simp

lemma envelope_decrypt_unwrap_error:
  assumes "envelope_encrypt E K ctx p n k = Inr ev" and "wkKeyVersion (evEncryptedDek ev) = evKeyVersion ev"
    and "kUnwrap K (scope_of ctx) (evEncryptedDek ev) k' = Inl err"
  shows "envelope_decrypt E K ctx ev k' = Inl err"
  using assms by (auto simp: envelope_encrypt_def envelope_decrypt_def sum_bind_Inr_iff Let_def split: option.splits)

subsection \<open>Contexts, totality and erasure\<close>

lemma scope_parts_iff: "scope_parts vs = Inr () \<longleftrightarrow> list_all (\<lambda>v. requireScopePart v = Inr v) vs"
proof -
  have err: "fold (\<lambda>v r. sum_bind r (\<lambda>_. sum_bind (requireScopePart v) (\<lambda>_. Inr ()))) vs (Inl x) = Inl x" for x vs
    by (induction vs) simp_all
  show ?thesis
    unfolding scope_parts_def
  proof (induction vs)
    case (Cons v vs)
    have "requireScopePart v = Inr x \<Longrightarrow> x = v" for x by (simp add: requireScopePart_def split: if_splits)
    with Cons show ?case by (cases "requireScopePart v") (auto simp: err)
  qed simp
qed

lemma canonical_workspace:
  assumes "canonicalContext E ctx = Inr aad"
  shows "\<exists>a. workspaceContext ctx = Inr a"
proof -
  have "scope_parts [seTenantId ctx, seOrganizationId ctx, seWorkspaceId ctx, record_type_text (ecRecordType ctx), ecRecord ctx] = Inr ()"
    using assms unfolding canonicalContext_def sum_bind_Inr_iff by force
  then have "scope_parts [seTenantId ctx, seOrganizationId ctx, seWorkspaceId ctx] = Inr ()"
    by (simp add: scope_parts_iff)
  then show ?thesis by (simp add: workspaceContext_def del: stringify.simps)
qed

lemma workspace_text:
  "workspaceContext c = Inr x \<Longrightarrow> x = utf8_bytes (stringify (JArr [JStr ''workspace-kek-context-v1'', JStr (seTenantId c),
     JStr (seOrganizationId c), JStr (seWorkspaceId c)]))"
  unfolding workspaceContext_def sum_bind_Inr_iff by blast

lemma workspaceContext_inj:
  assumes "workspaceContext a = Inr x" and "workspaceContext b = Inr x"
  shows "scope_of a = scope_of b"
proof -
  have "seTenantId a = seTenantId b \<and> seOrganizationId a = seOrganizationId b \<and> seWorkspaceId a = seWorkspaceId b"
    using workspace_text [OF assms(1)] workspace_text [OF assms(2)] by (simp del: stringify.simps)
  then show ?thesis by (simp add: security_scope.defs)
qed

lemma length_pieces:
  assumes "0 < cb"
  shows "length (pieces cb p) = (length p + cb - 1) div cb"
  using assms
proof (induction p rule: pieces_induct [of _ cb])
  case (Cons p)
  show ?case
  proof (cases "length p < cb")
    case True
    with Cons show ?thesis by (cases p) (simp_all add: pieces_Cons div_eq_dividend_iff le_div_geq)
  next
    case False
    then have "length p + cb - 1 = (length p - 1) + cb" using Cons.prems by simp
    then have "(length p + cb - 1) div cb = Suc ((length p - 1) div cb)" using Cons.prems by (simp only: div_add_self2)
    with Cons False show ?thesis by (simp add: pieces_Cons)
  qed
qed (simp_all add: assms)

lemma seal_chunk_total:
  assumes "aes_laws E" and "length dek = 32" and "canonicalContext E ctx = Inr aad"
  shows "\<exists>y. seal_chunk E ctx dek n N i x = Inr y"
proof -
  let ?a = "aad @ utf8_bytes (stringify (JArr [JNum (int i), JNum N]))"
  obtain ct tag where "aeSeal E dek (aeRandom E 12 (n + i)) ?a x = Some (ct, tag)"
    using aes_lawsD(1) [OF assms(1,2)] by blast
  then show ?thesis using assms(3) by (simp add: seal_chunk_def chunkAad_def Let_def del: stringify.simps)
qed

lemma seal_all_total:
  assumes "aes_laws E" and "length dek = 32" and "canonicalContext E ctx = Inr aad"
  shows "\<exists>cs. seal_all E ctx dek n N i xs = Inr cs \<and> length cs = length xs"
proof (induction xs arbitrary: i)
  case (Cons x xs)
  then obtain cs y where "seal_all E ctx dek n N (Suc i) xs = Inr cs" "length cs = length xs"
    "seal_chunk E ctx dek n N i x = Inr y"
    using seal_chunk_total [OF assms] by blast
  then show ?case by simp
qed simp

lemma local_wrap_total:
  assumes "aes_laws E" and "workspaceContext ctx = Inr a" and "\<not> erased E ctx k"
    and "map_of (lkKeys k) v = Some key" and "length key = 32"
  shows "\<exists>w. local_wrapKey E n (scope_of ctx) dek v k = Inr w"
proof -
  obtain ct tag where "aeSeal E key (aeRandom E 12 n) a dek = Some (ct, tag)" using aes_lawsD(1) [OF assms(1,5)] by blast
  then show ?thesis using assms by (simp add: local_wrapKey_def assertWorkspace_eq seal_key_def)
qed

lemma erased_assert: "erased E ctx k \<Longrightarrow> assertWorkspace E (scope_of ctx) k = Inl WORKSPACE_CRYPTO_ERASED"
  by (auto simp: erased_def assertWorkspace_def workspaceKey_def)

lemma erased_provider:
  assumes "erased E ctx k"
  shows "kCurrent (LocalKmsProvider E) (scope_of ctx) k = Inl WORKSPACE_CRYPTO_ERASED"
    and "kUnwrap (LocalKmsProvider E) (scope_of ctx) w k = Inl WORKSPACE_CRYPTO_ERASED"
  using erased_assert [OF assms] by (simp_all add: LocalKmsProvider_def local_currentKeyVersion_def local_unwrapKey_def)

lemma erased_refuses:
  assumes "erased E ctx k"
  shows "envelope_decrypt E (LocalKmsProvider E) ctx ev k \<noteq> Inr p"
    and "envelope_encrypt E (LocalKmsProvider E) ctx p n k \<noteq> Inr ev"
    and "chunked_decrypt E (LocalKmsProvider E) ctx cev k \<noteq> Inr p"
    and "chunked_encrypt E (LocalKmsProvider E) cb ctx p n k \<noteq> Some (Inr cev)"
  by (simp_all add: envelope_decrypt_def envelope_encrypt_def chunked_decrypt_def chunked_encrypt_def
      erased_provider [OF assms] sum_bind_Inr_iff Let_def split: option.split)

lemma decrypt_same_revocations:
  assumes "lkKeys k1 = lkKeys k" and "assertWorkspace E (scope_of ctx) k1 = assertWorkspace E (scope_of ctx) k"
  shows "envelope_decrypt E (LocalKmsProvider E) ctx ev k1 = envelope_decrypt E (LocalKmsProvider E) ctx ev k"
proof -
  have "kUnwrap (LocalKmsProvider E) (scope_of ctx) w k1 = kUnwrap (LocalKmsProvider E) (scope_of ctx) w k" for w
    by (simp add: LocalKmsProvider_def local_unwrapKey_def assms)
  then show ?thesis by (simp only: envelope_decrypt_def)
qed

subsection \<open>Properties\<close>

text \<open>C38. Sealed content follows its key: whatever rotations and revocations the local key provider goes through
  before and after, decryption of an envelope under its context answers the plaintext as long as its key version
  is held and its workspace is not erased, and otherwise fails with the error that says which of the two it was.
  In particular a rotation never makes older content unreadable.\<close>

theorem sealed_content_follows_its_key:
  assumes "aes_laws E" and "kms_start k0" and "reaches (kms_step E) k0 k"
    and "envelope_encrypt E (LocalKmsProvider E) ctx p n k = Inr ev" and "reaches (kms_step E) k k'"
  shows "envelope_decrypt E (LocalKmsProvider E) ctx ev k' =
    (if erased E ctx k' then Inl WORKSPACE_CRYPTO_ERASED
     else if map_of (lkKeys k') (evKeyVersion ev) = None then Inl KMS_KEY_REVOKED_OR_MISSING
     else Inr p)"
proof -
  let ?K = "LocalKmsProvider E" and ?dek = "aeRandom E 32 n"
  have w: "local_wrapKey E (n + 2) (scope_of ctx) ?dek (evKeyVersion ev) k = Inr (evEncryptedDek ev)"
    using in_memory.envelope_key [OF assms(4)] by (auto simp: LocalKmsProvider_def)
  then obtain key aad where key: "map_of (lkKeys k) (evKeyVersion ev) = Some key" "workspaceContext ctx = Inr aad"
    using local_wrap_Inr by fastforce
  have "kms_inv k" by (rule kms_run.reachable_inv [OF assms(2,3)])
  with key(1) have "version_given (evKeyVersion ev) k" unfolding kms_inv_def version_given_def by blast
  then have "local_unwrapKey E (scope_of ctx) (evEncryptedDek ev) k' = sum_bind (assertWorkspace E (scope_of ctx) k')
      (\<lambda>_. if map_of (lkKeys k') (evKeyVersion ev) = None then Inl KMS_KEY_REVOKED_OR_MISSING else Inr ?dek)"
    using local_unwrap_wrapped [OF assms(1) dek_nonempty [OF assms(1)] w] kms_run_keys [OF assms(5)] by blast
  then have u: "kUnwrap ?K (scope_of ctx) (evEncryptedDek ev) k' =
      (if erased E ctx k' then Inl WORKSPACE_CRYPTO_ERASED
       else if map_of (lkKeys k') (evKeyVersion ev) = None then Inl KMS_KEY_REVOKED_OR_MISSING else Inr ?dek)"
    by (simp add: LocalKmsProvider_def assertWorkspace_eq [OF key(2)])
  show ?thesis
  proof (cases "kUnwrap ?K (scope_of ctx) (evEncryptedDek ev) k'")
    case (Inl err)
    then show ?thesis using u envelope_decrypt_unwrap_error [OF assms(4)] in_memory.envelope_key [OF assms(4)]
      by (auto split: if_splits)
  next
    case (Inr d)
    then show ?thesis using u in_memory.envelope_opens [OF assms(1,4), of k'] by (auto split: if_splits)
  qed
qed

text \<open>C39. Streaming and buffered encryption agree: for every way of cutting a plaintext into buffers, streaming it
  into a sink gives, draw for draw, the chunks of the buffered encryption, with their ciphertexts in the sink in
  order, and it fails exactly when the buffered encryption fails, with the same error.  No property of the cipher
  or of the key provider is needed.\<close>

theorem stream_equals_buffer:
  assumes "newChunkedEncryption c = Inr cb" and "concat source = p" and "int (length p) \<le> 9007199254740991"
  shows "\<exists>r. chunked_encrypt E K cb ctx p n k = Some r \<and>
    (case r of
       Inl err \<Rightarrow> \<exists>w. encryptToSink E K cb ctx (int (length p)) source record_sink n k [] = Some (Inl err, w)
     | Inr ev \<Rightarrow> encryptToSink E K cb ctx (int (length p)) source record_sink n k [] = Some
         (Inr (envelope_head.extend (envelope_head.truncate ev) \<lparr>seChunks = map stored_of (ceChunks ev)\<rparr>),
          map (\<lambda>c. from_base64url (chCiphertext c)) (ceChunks ev)))"
proof -
  have cb: "0 < cb" using assms(1) by (auto simp: newChunkedEncryption_def split: if_splits)
  let ?dek = "aeRandom E 32 n" and ?N = "int (length p)"
  let ?kw = "sum_bind (kCurrent K (scope_of ctx) k) (\<lambda>v. sum_bind (kWrap K (n + 1) (scope_of ctx) ?dek v k) (\<lambda>w. Inr (v, w)))"
  let ?seal = "seal_all E ctx ?dek (n + 2) ?N 0 (pieces cb p)"
  let ?sinked = "write_all E ctx ?dek (n + 2) ?N record_sink (pieces cb p) ([], [])"
  obtain o1 where o1: "consume E cb ctx ?dek (n + 2) ?N record_sink source 0 [] ([], []) = Some o1"
    "finish_stream E ctx ?dek (n + 2) ?N record_sink o1 = ?sinked"
    using stream_eq [OF cb assms(2) refl, of E ctx ?dek "n + 2" record_sink "([], [])"] by auto
  note both = write_all_seal_all [where E = E and ctx = ctx and dek = ?dek and n = "n + 2" and N = ?N and cs = "[]" and xs = "pieces cb p" and w = "[]"]
  show ?thesis
  proof (cases ?kw)
    case (Inl err)
    then show ?thesis using assms(3) by (auto simp: chunked_encrypt_def encryptToSink_def Let_def)
  next
    case (Inr vw)
    obtain v w where vw: "vw = (v, w)" by (cases vw)
    show ?thesis
    proof (cases ?seal)
      case (Inl err)
      then show ?thesis
        using Inr vw both o1 assms(3) encrypt_chunks_eq [OF cb, of E ctx ?dek "n + 2" ?N 0 p]
        by (cases ?sinked) (auto simp: chunked_encrypt_def encryptToSink_def Let_def)
    next
      case (Inr cs)
      then show ?thesis
        using \<open>?kw = Inr vw\<close> vw both o1 assms(3) encrypt_chunks_eq [OF cb, of E ctx ?dek "n + 2" ?N 0 p]
        by (simp add: chunked_encrypt_def encryptToSink_def Let_def envelope_head.defs)
    qed
  qed
qed

text \<open>C40. Chunked encryption returns: with a chunk size the constructor accepts, the loop over the plaintext ends for
  every plaintext; with a key of 32 bytes as the current version, a valid context and a workspace that is not erased
  the result is an envelope of as many chunks as fill the plaintext, and both decryptions answer the plaintext: the
  buffered one at once, the streaming one chunk by chunk and without an error at the end.\<close>

theorem chunked_encryption_returns:
  assumes "aes_laws E" and "newChunkedEncryption c = Inr cb" and "canonicalContext E ctx = Inr aad"
    and "\<not> erased E ctx k" and "map_of (lkKeys k) (show_nat (lkCurrent k)) = Some key" and "length key = 32"
  shows "\<exists>ev. chunked_encrypt E (LocalKmsProvider E) cb ctx p n k = Some (Inr ev)
    \<and> length (ceChunks ev) = (length p + cb - 1) div cb
    \<and> chunked_decrypt E (LocalKmsProvider E) ctx ev k = Inr p
    \<and> decryptFromSource E (LocalKmsProvider E) ctx
        (envelope_head.extend (envelope_head.truncate ev) \<lparr>seChunks = map stored_of (ceChunks ev)\<rparr>)
        (recorded (map (\<lambda>c. from_base64url (chCiphertext c)) (ceChunks ev))) k = (pieces cb p, None)"
proof -
  have cb: "0 < cb" using assms(2) by (auto simp: newChunkedEncryption_def split: if_splits)
  let ?L = "LocalKmsProvider E" and ?dek = "aeRandom E 32 n" and ?N = "int (length p)" and ?v = "show_nat (lkCurrent k)"
  obtain a where a: "workspaceContext ctx = Inr a" using canonical_workspace [OF assms(3)] by blast
  have cur: "kCurrent ?L (scope_of ctx) k = Inr ?v"
    using assms(4) by (simp add: LocalKmsProvider_def local_currentKeyVersion_def assertWorkspace_eq [OF a])
  obtain w where w: "kWrap ?L (n + 1) (scope_of ctx) ?dek ?v k = Inr w"
    using local_wrap_total [OF assms(1) a assms(4-6)] by (auto simp: LocalKmsProvider_def)
  obtain cs where cs: "seal_all E ctx ?dek (n + 2) ?N 0 (pieces cb p) = Inr cs" "length cs = length (pieces cb p)"
    using seal_all_total [OF assms(1) aes_lawsD(4) [OF assms(1)] assms(3)] by blast
  let ?ev = "envelope_head.extend (head_of cb ?N w ?v) \<lparr>ceChunks = cs\<rparr>"
  have enc: "chunked_encrypt E ?L cb ctx p n k = Some (Inr ?ev)"
    using cs(1) cur w encrypt_chunks_eq [OF cb, of E ctx ?dek "n + 2" ?N 0 p] by (simp add: chunked_encrypt_def Let_def)
  have unwrap: "kUnwrap ?L (scope_of ctx) w k = Inr ?dek"
    using in_memory.unwrap_wrap [OF assms(1) dek_nonempty [OF assms(1)] w] .
  have "chunked_decrypt E ?L ctx ?ev k = Inr p"
    using in_memory.chunked_opens [OF assms(1) cb enc, of k] unwrap by (simp add: head_of_def envelope_head.defs)
  moreover have "yield_chunks E ctx ?dek ?N (recorded (map (\<lambda>c. from_base64url (chCiphertext c)) cs)) 0 0 (map stored_of cs)
      = (pieces cb p, None)"
    using yield_sealed [OF assms(1) cs(1), of "[]" 0] concat_pieces [OF cb, of p] by simp
  ultimately show ?thesis
    using enc cs(2) length_pieces [OF cb] unwrap in_memory.wrap_version [OF w]
    by (intro exI [of _ ?ev]) (simp add: decryptFromSource_def bad_head_def head_of_def envelope_head.defs)
qed

text \<open>Erasure is final and local: after \<open>cryptoErase\<close> of a workspace nothing of that workspace is encrypted or
  decrypted any more, in one piece or in chunks, whatever the provider does afterwards; and decryption in any other
  workspace answers what it answered before, unless two workspaces collide in the digest.\<close>

theorem erased_workspace_stays_unreadable:
  assumes "cryptoErase (LocalKmsProvider E) sc (k, au) = (Inr (), (k1, au1))" and "reaches (kms_step E) k1 k'"
  shows "(\<forall>ctx ev p n cb cev. scope_of ctx = sc \<longrightarrow>
      envelope_decrypt E (LocalKmsProvider E) ctx ev k' \<noteq> Inr p \<and> envelope_encrypt E (LocalKmsProvider E) ctx p n k' \<noteq> Inr ev
      \<and> chunked_decrypt E (LocalKmsProvider E) ctx cev k' \<noteq> Inr p
      \<and> chunked_encrypt E (LocalKmsProvider E) cb ctx p n k' \<noteq> Some (Inr cev))
    \<and> (\<forall>ctx ev. scope_of ctx \<noteq> sc \<longrightarrow>
      envelope_decrypt E (LocalKmsProvider E) ctx ev k1 = envelope_decrypt E (LocalKmsProvider E) ctx ev k
      \<or> (\<exists>x y. x \<noteq> y \<and> aeSha256 E x = aeSha256 E y))"
proof (intro conjI allI impI)
  obtain a where a: "workspaceContext sc = Inr a" and k1: "lkKeys k1 = lkKeys k" "set (lkRevoked k1) = insert (aeSha256 E a) (set (lkRevoked k))"
    using assms(1) by (auto simp: cryptoErase_def LocalKmsProvider_def local_revokeWorkspace_def workspaceKey_def
        sum_bind_Inr_iff split: sum.splits if_splits)
  have er: "erased E ctx k'" if "scope_of ctx = sc" for ctx :: enc_context
    unfolding erased_def
    using a k1(2) revoked_run [OF assms(2), of "aeSha256 E a"] that workspaceContext_scope [of ctx]
    by (intro exI [of _ a]) simp
  fix ctx :: enc_context
  show "envelope_decrypt E (LocalKmsProvider E) ctx ev k' \<noteq> Inr p" "envelope_encrypt E (LocalKmsProvider E) ctx p n k' \<noteq> Inr ev"
    "chunked_decrypt E (LocalKmsProvider E) ctx cev k' \<noteq> Inr p"
    "chunked_encrypt E (LocalKmsProvider E) cb ctx p n k' \<noteq> Some (Inr cev)" if "scope_of ctx = sc" for ev p n cb cev
    by (rule erased_refuses [OF er [OF that]])+
  fix ev
  assume other: "scope_of ctx \<noteq> sc"
  show "envelope_decrypt E (LocalKmsProvider E) ctx ev k1 = envelope_decrypt E (LocalKmsProvider E) ctx ev k
      \<or> (\<exists>x y. x \<noteq> y \<and> aeSha256 E x = aeSha256 E y)"
  proof (cases "workspaceContext ctx")
    case (Inl err)
    then show ?thesis by (intro disjI1 decrypt_same_revocations k1(1)) (simp add: assertWorkspace_def workspaceKey_def)
  next
    case (Inr b)
    have "scope_of sc = sc" by (simp add: security_scope.defs)
    then have "a \<noteq> b" using workspaceContext_inj [of ctx b sc] Inr a other by auto
    show ?thesis
    proof (cases "aeSha256 E a = aeSha256 E b")
      case True
      with \<open>a \<noteq> b\<close> show ?thesis by blast
    next
      case False
      then show ?thesis
        using Inr k1(2) by (intro disjI1 decrypt_same_revocations k1(1)) (simp add: assertWorkspace_def workspaceKey_def)
    qed
  qed
qed

subsection \<open>Witnesses\<close>

text \<open>A stand-in for the cipher that keeps the plaintext, with a constant random source.\<close>

definition plain_aes :: aes_env where
  "plain_aes = \<lparr>aeSeal = (\<lambda>key nonce aad p. if length key = 32 then Some (p, replicate 16 CHR ''t'') else None),
     aeOpen = (\<lambda>key nonce aad ct tag. Some ct), aeRandom = (\<lambda>l n. replicate l CHR ''r''), aeSha256 = (\<lambda>x. x),
     aeCollate = (\<lambda>x y. 0)\<rparr>"

lemma plain_aes_laws: "aes_laws plain_aes"
  by (auto simp: aes_laws_def plain_aes_def split: if_splits)

definition sample_context :: enc_context where
  "sample_context = \<lparr>seTenantId = ''t'', seOrganizationId = ''o'', seWorkspaceId = ''w'', ecRecordType = RtPrompt,
     ecRecord = ''r1'', ecAdditional = Some [(''principalId'', ''ann'')]\<rparr>"

definition sample_kms :: local_kms where
  "sample_kms = \<lparr>lkKeys = [(''1'', replicate 32 CHR ''k'')], lkRevoked = [], lkCurrent = 1\<rparr>"

lemma sample_kms_start: "kms_start sample_kms"
  unfolding kms_start_def by (intro exI [of _ "replicate 32 CHR ''k''"]) (simp add: newLocalKms_def sample_kms_def)

lemma sample_canonical: "\<exists>aad. canonicalContext plain_aes sample_context = Inr aad"
proof -
  have "isl (canonicalContext plain_aes sample_context) = False" by code_simp
  then show ?thesis by (cases "canonicalContext plain_aes sample_context") simp_all
qed

theorem sealed_content_follows_its_key_witness:
  "\<exists>ev. envelope_encrypt plain_aes (LocalKmsProvider plain_aes) sample_context ''hello'' 0 sample_kms = Inr ev
    \<and> envelope_decrypt plain_aes (LocalKmsProvider plain_aes) sample_context ev (kms_exec plain_aes (Rotate (replicate 32 CHR ''n'')) sample_kms)
      = Inr ''hello''
    \<and> envelope_decrypt plain_aes (LocalKmsProvider plain_aes) sample_context ev (kms_exec plain_aes (RevokeVersion ''1'') sample_kms)
      = Inl KMS_KEY_REVOKED_OR_MISSING"
proof -
  have "isl (envelope_encrypt plain_aes (LocalKmsProvider plain_aes) sample_context ''hello'' 0 sample_kms) = False" by code_simp
  then obtain ev where ev: "envelope_encrypt plain_aes (LocalKmsProvider plain_aes) sample_context ''hello'' 0 sample_kms = Inr ev"
    by (cases "envelope_encrypt plain_aes (LocalKmsProvider plain_aes) sample_context ''hello'' 0 sample_kms") simp_all
  have one: "show_nat (lkCurrent sample_kms) = ''1''" by code_simp
  have v: "evKeyVersion ev = ''1''"
    using in_memory.envelope_key [OF ev] one by (auto simp: LocalKmsProvider_def local_currentKeyVersion_def sum_bind_Inr_iff)
  have step: "reaches (kms_step plain_aes) sample_kms (kms_exec plain_aes e sample_kms)" for e
    by (meson reaches_refl reaches_step kms_stepI)
  note final = sealed_content_follows_its_key [OF plain_aes_laws sample_kms_start reaches_refl ev step]
  have "\<not> erased plain_aes sample_context (kms_exec plain_aes (Rotate (replicate 32 CHR ''n'')) sample_kms)"
    "\<not> erased plain_aes sample_context (kms_exec plain_aes (RevokeVersion ''1'') sample_kms)"
    by (simp_all add: erased_def sample_kms_def rotate_kms_def revokeKeyVersion_def)
  moreover have "map_of (lkKeys (kms_exec plain_aes (Rotate (replicate 32 CHR ''n'')) sample_kms)) ''1'' \<noteq> None"
    "map_of (lkKeys (kms_exec plain_aes (RevokeVersion ''1'') sample_kms)) ''1'' = None" by code_simp+
  ultimately show ?thesis using ev v by (simp del: kms_exec.simps add: final)
qed

theorem stream_equals_buffer_witness:
  "\<exists>r. chunked_encrypt plain_aes (LocalKmsProvider plain_aes) 1024 sample_context ''hello'' 0 sample_kms = Some r"
  using stream_equals_buffer [of 1024 1024 "[''he'', [], ''llo'']" "''hello''" plain_aes "LocalKmsProvider plain_aes" sample_context 0 sample_kms]
  by (auto simp: newChunkedEncryption_def)

theorem chunked_encryption_returns_witness:
  "\<exists>ev. chunked_encrypt plain_aes (LocalKmsProvider plain_aes) 1024 sample_context (replicate 2500 CHR ''x'') 0 sample_kms = Some (Inr ev)
    \<and> length (ceChunks ev) = 3"
proof -
  obtain aad where aad: "canonicalContext plain_aes sample_context = Inr aad" using sample_canonical by blast
  have 1: "newChunkedEncryption 1024 = Inr 1024" by (simp add: newChunkedEncryption_def)
  have 2: "\<not> erased plain_aes sample_context sample_kms" by (simp add: erased_def sample_kms_def)
  have 3: "map_of (lkKeys sample_kms) (show_nat (lkCurrent sample_kms)) = Some (replicate 32 CHR ''k'')" by code_simp
  show ?thesis
    using chunked_encryption_returns [OF plain_aes_laws 1 aad 2 3, of "replicate 2500 CHR ''x''" 0] by auto
qed

theorem erased_workspace_stays_unreadable_witness:
  "\<exists>k1. cryptoErase (LocalKmsProvider plain_aes) (scope_of sample_context) (sample_kms, []) = (Inr (), (k1,
      [\<lparr>caScope = scope_of sample_context, caAction = WorkspaceCryptoErased, caKeyVersion = None\<rparr>]))
    \<and> (\<forall>ev p. envelope_decrypt plain_aes (LocalKmsProvider plain_aes) sample_context ev k1 \<noteq> Inr p)"
proof -
  let ?au = "[\<lparr>caScope = scope_of sample_context, caAction = WorkspaceCryptoErased, caKeyVersion = None\<rparr>]"
  obtain a where "workspaceContext sample_context = Inr a"
    using sample_canonical canonical_workspace by blast
  then obtain k1 where k1: "cryptoErase (LocalKmsProvider plain_aes) (scope_of sample_context) (sample_kms, []) = (Inr (), (k1, ?au))"
    by (auto simp: cryptoErase_def LocalKmsProvider_def local_revokeWorkspace_def workspaceKey_def)
  then show ?thesis using erased_workspace_stays_unreadable [OF k1 reaches_refl] by blast
qed

end
