(* ===== verification/Workspace_Guards.thy ===== *)
theory Workspace_Guards
  imports Envelope_Encryption "HOL-Library.Word"
begin

unbundle bit_operations_syntax

section \<open>Workspace guards\<close>

text \<open>
  The guards of \<open>packages/workspace-security/src/index.ts\<close> around a workspace: the network policy, the leases on
  secrets that are mounted as files, and the leases on unlocked content keys.

  Resolver and secret provider are functions on a state of their own that may throw; \<open>net.isIP\<close> is modelled for
  IPv4 text and is a parameter for IPv6.  The bit arithmetic of the address test is on words of 32 bits, as in the
  code.  Dates are compared as instants, which \<open>dateParse\<close> reads from their text; each operation reads the clock
  once, at \<open>t\<close>.
\<close>

subsection \<open>Addresses\<close>

definition octet_text :: "string \<Rightarrow> bool" where
  "octet_text s \<longleftrightarrow> s \<noteq> [] \<and> length s \<le> 3 \<and> list_all is_digit s \<and> (1 < length s \<longrightarrow> hd s \<noteq> CHR ''0'') \<and> read_nat s \<le> 255"

definition isIPv4 :: "string \<Rightarrow> bool" where
  "isIPv4 ip \<longleftrightarrow> length (js_split CHR ''.'' ip) = 4 \<and> list_all octet_text (js_split CHR ''.'' ip)"

definition ipv4Number :: "string \<Rightarrow> 32 word" where
  "ipv4Number ip = fold (\<lambda>octet value. push_bit 8 value + octet) (map (\<lambda>p. word_of_nat (read_nat p)) (js_split CHR ''.'' ip)) 0"

definition inCidr :: "string \<Rightarrow> string \<Rightarrow> nat \<Rightarrow> bool" where
  "inCidr ip base pre =
    (let mask = (if pre = 0 then 0 else push_bit (32 - pre) (0xFFFFFFFF :: 32 word))
     in ipv4Number ip AND mask = ipv4Number base AND mask)"

definition denied_blocks :: "(string \<times> nat) list" where
  "denied_blocks = [(''0.0.0.0'', 8), (''10.0.0.0'', 8), (''100.64.0.0'', 10), (''127.0.0.0'', 8), (''169.254.0.0'', 16),
     (''172.16.0.0'', 12), (''192.0.0.0'', 24), (''192.168.0.0'', 16), (''198.18.0.0'', 15), (''224.0.0.0'', 4),
     (''240.0.0.0'', 4)]"

definition lower_char :: "char \<Rightarrow> char" where
  "lower_char c = (let n = of_char c :: nat in
     if 65 \<le> n \<and> n \<le> 90 \<or> 192 \<le> n \<and> n \<le> 222 \<and> n \<noteq> 215 then char_of (n + 32) else c)"

definition isDeniedNetworkAddress :: "(string \<Rightarrow> bool) \<Rightarrow> string \<Rightarrow> bool" where
  "isDeniedNetworkAddress isIPv6 ip =
    (if isIPv4 ip then list_ex (\<lambda>(base, pre). inCidr ip base pre) denied_blocks
     else if isIPv6 ip
       then (let normalized = map lower_char ip
             in normalized = ''::'' \<or> normalized = ''::1''
                \<or> list_ex (\<lambda>p. prefix p normalized) [''fc'', ''fd'', ''fe8'', ''fe9'', ''fea'', ''feb'', ''ff''])
     else True)"

subsection \<open>The network policy\<close>

datatype guard_error = NETWORK_GRANT_IDEMPOTENCY_CONFLICT | EGRESS_DEFAULT_DENY | NETWORK_ADDRESS_DENIED
  | NETWORK_REBINDING_DENIED | SECRET_NOT_FOUND | INVALID_SECRET_LEASE_TTL | SECRET_PATH_ESCAPE | SECRET_LEASE_INACTIVE
  | SECRET_LEASE_EXPIRED | GuardThrown thrown

datatype net_protocol = Tcp | Tls | Https

record network_target =
  ntProtocol :: net_protocol
  ntHostname :: string
  ntPort :: int

record runtime_scope = security_scope +
  rtRuntimeId :: string

record network_grant_input = runtime_scope +
  ngTarget :: network_target
  ngExpiresAt :: string
  ngIdempotencyKey :: string

record network_grant = network_grant_input +
  ngGrantId :: string

datatype net_outcome = NetAllow | NetDeny

record network_audit = runtime_scope +
  naHostname :: string
  naPort :: int
  naOutcome :: net_outcome
  naReasonCode :: string

record network_policy =
  npGrants :: "(string, network_grant) jsmap"
  npAudit :: "network_audit list"
  npDraws :: nat

definition grant_key :: "'a network_grant_input_scheme \<Rightarrow> string" where
  "grant_key i = stringify (JArr [JStr (seTenantId i), JStr (seOrganizationId i), JStr (seWorkspaceId i),
     JStr (rtRuntimeId i), JStr (ngIdempotencyKey i)])"

definition network_grant_op :: "js_env \<Rightarrow> network_grant_input \<Rightarrow> network_policy \<Rightarrow> (guard_error, network_grant, network_policy) outcome" where
  "network_grant_op e inp s =
    (case map_of (npGrants s) (grant_key inp) of
       Some g \<Rightarrow>
         if ngTarget g \<noteq> ngTarget inp \<or> ngExpiresAt g \<noteq> ngExpiresAt inp then (Inl NETWORK_GRANT_IDEMPOTENCY_CONFLICT, s)
         else (Inr g, s)
     | None \<Rightarrow>
         (let g = network_grant_input.extend inp \<lparr>ngGrantId = ''net_'' @ uuid e (npDraws s)\<rparr>
          in (Inr g, s\<lparr>npGrants := AList.update (grant_key inp) g (npGrants s), npDraws := Suc (npDraws s)\<rparr>)))"

definition grant_matches :: "(string \<Rightarrow> instant option) \<Rightarrow> instant \<Rightarrow> runtime_scope \<Rightarrow> network_target \<Rightarrow> network_grant \<Rightarrow> bool" where
  "grant_matches dateParse t sc tg g \<longleftrightarrow>
     seTenantId g = seTenantId sc \<and> seOrganizationId g = seOrganizationId sc \<and> seWorkspaceId g = seWorkspaceId sc
     \<and> rtRuntimeId g = rtRuntimeId sc \<and> ntHostname (ngTarget g) = ntHostname tg \<and> ntPort (ngTarget g) = ntPort tg
     \<and> ntProtocol (ngTarget g) = ntProtocol tg
     \<and> (case dateParse (ngExpiresAt g) of None \<Rightarrow> False | Some x \<Rightarrow> t < x)"

definition network_record :: "runtime_scope \<Rightarrow> network_target \<Rightarrow> net_outcome \<Rightarrow> string \<Rightarrow> network_policy \<Rightarrow> network_policy" where
  "network_record sc tg out code s = s\<lparr>npAudit := npAudit s @
     [runtime_scope.extend sc \<lparr>naHostname = ntHostname tg, naPort = ntPort tg, naOutcome = out, naReasonCode = code\<rparr>]\<rparr>"

fun deny_code :: "guard_error \<Rightarrow> string" where
  "deny_code EGRESS_DEFAULT_DENY = ''EGRESS_DEFAULT_DENY''"
| "deny_code NETWORK_ADDRESS_DENIED = ''NETWORK_ADDRESS_DENIED''"
| "deny_code _ = ''NETWORK_REBINDING_DENIED''"

definition deny :: "runtime_scope \<Rightarrow> network_target \<Rightarrow> guard_error \<Rightarrow> network_policy \<Rightarrow> 'r \<Rightarrow>
    (guard_error, string \<times> string, network_policy \<times> 'r) outcome" where
  "deny sc tg err s r = (Inl err, (network_record sc tg NetDeny (deny_code err) s, r))"

type_synonym 'r resolver = "string \<Rightarrow> 'r \<Rightarrow> (thrown, string list, 'r) outcome"

definition network_authorize :: "(string \<Rightarrow> instant option) \<Rightarrow> (string \<Rightarrow> bool) \<Rightarrow> 'r resolver \<Rightarrow> instant \<Rightarrow> runtime_scope \<Rightarrow>
    network_target \<Rightarrow> network_policy \<times> 'r \<Rightarrow> (guard_error, string \<times> string, network_policy \<times> 'r) outcome" where
  "network_authorize dateParse isIPv6 resolve t sc tg sr =
    (case sr of (s, r) \<Rightarrow>
       (case filter (grant_matches dateParse t sc tg) (jvalues (npGrants s)) of
          [] \<Rightarrow> deny sc tg EGRESS_DEFAULT_DENY s r
        | g # gs \<Rightarrow>
          (case resolve (ntHostname tg) r of
             (Inl err, r1) \<Rightarrow> (Inl (GuardThrown err), (s, r1))
           | (Inr first, r1) \<Rightarrow>
             if first = [] \<or> list_ex (isDeniedNetworkAddress isIPv6) first then deny sc tg NETWORK_ADDRESS_DENIED s r1
             else
               (case resolve (ntHostname tg) r1 of
                  (Inl err, r2) \<Rightarrow> (Inl (GuardThrown err), (s, r2))
                | (Inr [], r2) \<Rightarrow> deny sc tg NETWORK_REBINDING_DENIED s r2
                | (Inr (a # as), r2) \<Rightarrow>
                  if list_ex (isDeniedNetworkAddress isIPv6) (a # as) then deny sc tg NETWORK_REBINDING_DENIED s r2
                  else if \<not> list_all (\<lambda>x. x \<in> set first) (a # as) then deny sc tg NETWORK_REBINDING_DENIED s r2
                  else (Inr (a, ngGrantId g), (network_record sc tg NetAllow ''SCOPED_NETWORK_GRANT'' s, r2))))))"

subsection \<open>Secret leases\<close>

text \<open>
  \<open>SecretLeaseManager\<close>: a secret is read from a provider and written to a file that belongs to a lease.  The files
  below the root are a map from paths to contents.  A path is the root, the hash of the runtime and the lease,
  joined by slashes.
\<close>

record workload_identity = runtime_scope +
  wiSubject :: string

datatype secret_lease_status = SlActive | SlRevoked | SlExpired
datatype secret_lease_action = SaIssued | SaRenewed | SaRevoked | SaExpired

record secret_lease =
  slLeaseId :: string
  slIdentity :: workload_identity
  slSecretRefHash :: string
  slExpiresAt :: instant
  slPath :: string
  slStatus :: secret_lease_status

record secret_lease_audit =
  auIdentity :: workload_identity
  auLeaseId :: string
  auSecretRefHash :: string
  auAction :: secret_lease_action

record secret_manager =
  smRoot :: string
  smLeases :: "(string, secret_lease) jsmap"
  smFiles :: "(string, string) jsmap"
  smAudit :: "secret_lease_audit list"
  smDraws :: nat

type_synonym 'p secret_provider = "workload_identity \<Rightarrow> string \<Rightarrow> 'p \<Rightarrow> (thrown, string, 'p) outcome"

definition DevSecretProvider :: "(string, string) jsmap secret_provider" where
  "DevSecretProvider identity ref vs =
    (case map_of vs ref of None \<Rightarrow> (Inl (ErrorMsg ''SECRET_NOT_FOUND''), vs) | Some v \<Rightarrow> (Inr v, vs))"

definition scopeHash :: "js_env \<Rightarrow> string \<Rightarrow> string" where
  "scopeHash e v = take 24 (sha256 e v)"

definition secret_directory :: "js_env \<Rightarrow> secret_manager \<Rightarrow> string \<Rightarrow> string" where
  "secret_directory e s runtimeId = smRoot s @ ''/'' @ scopeHash e runtimeId"

definition newSecretManager :: "string \<Rightarrow> secret_manager" where
  "newSecretManager root = \<lparr>smRoot = root, smLeases = [], smFiles = [], smAudit = [], smDraws = 0\<rparr>"

definition secret_event :: "secret_lease \<Rightarrow> secret_lease_action \<Rightarrow> secret_lease_audit" where
  "secret_event l a = \<lparr>auIdentity = slIdentity l, auLeaseId = slLeaseId l, auSecretRefHash = slSecretRefHash l, auAction = a\<rparr>"

definition bad_ttl :: "int \<Rightarrow> bool" where
  "bad_ttl ttl \<longleftrightarrow> \<bar>ttl\<bar> > 9007199254740991 \<or> ttl < 1000 \<or> ttl > 15 * 60000"

definition secret_issue :: "js_env \<Rightarrow> 'p secret_provider \<Rightarrow> workload_identity \<Rightarrow> string \<Rightarrow> int \<Rightarrow> instant \<Rightarrow> secret_manager \<times> 'p \<Rightarrow>
    (guard_error, secret_lease, secret_manager \<times> 'p) outcome" where
  "secret_issue e prov identity ref ttl t sp =
    (case sp of (s, p) \<Rightarrow>
       if bad_ttl ttl then (Inl INVALID_SECRET_LEASE_TTL, (s, p))
       else
         (let leaseId = ''lease_'' @ uuid e (smDraws s);
              path = secret_directory e s (rtRuntimeId identity) @ ''/'' @ leaseId;
              s1 = s\<lparr>smDraws := Suc (smDraws s)\<rparr>
          in if prefix ''../'' (scopeHash e (rtRuntimeId identity) @ ''/'' @ leaseId) then (Inl SECRET_PATH_ESCAPE, (s1, p))
             else case prov identity ref p of
               (Inl err, p1) \<Rightarrow> (Inl (GuardThrown err), (s1, p1))
             | (Inr v, p1) \<Rightarrow>
               if map_of (smFiles s1) path \<noteq> None then (Inl (GuardThrown OtherThrown), (s1, p1))
               else
                 (let l = \<lparr>slLeaseId = leaseId, slIdentity = identity, slSecretRefHash = scopeHash e ref,
                           slExpiresAt = t + ttl, slPath = path, slStatus = SlActive\<rparr>
                  in (Inr l, (s1\<lparr>smFiles := AList.update path v (smFiles s1),
                         smLeases := AList.update leaseId l (smLeases s1),
                         smAudit := smAudit s1 @ [secret_event l SaIssued]\<rparr>, p1)))))"

text \<open>\<open>rmSync\<close> with \<open>force\<close>, then the new status and the audit event.\<close>

definition end_secret_lease :: "secret_lease \<Rightarrow> secret_lease_status \<Rightarrow> secret_lease_action \<Rightarrow> secret_manager \<Rightarrow> secret_manager" where
  "end_secret_lease l st a s = s\<lparr>smFiles := AList.delete (slPath l) (smFiles s),
     smLeases := AList.update (slLeaseId l) (l\<lparr>slStatus := st\<rparr>) (smLeases s), smAudit := smAudit s @ [secret_event l a]\<rparr>"

definition secret_requireActive :: "string \<Rightarrow> instant \<Rightarrow> secret_manager \<Rightarrow> (guard_error, secret_lease, secret_manager) outcome" where
  "secret_requireActive leaseId t s =
    (case map_of (smLeases s) leaseId of
       None \<Rightarrow> (Inl SECRET_LEASE_INACTIVE, s)
     | Some l \<Rightarrow>
       if slStatus l \<noteq> SlActive then (Inl SECRET_LEASE_INACTIVE, s)
       else if slExpiresAt l \<le> t then (Inl SECRET_LEASE_EXPIRED, end_secret_lease l SlExpired SaExpired s)
       else (Inr l, s))"

definition secret_renew :: "string \<Rightarrow> int \<Rightarrow> instant \<Rightarrow> secret_manager \<Rightarrow> (guard_error, secret_lease, secret_manager) outcome" where
  "secret_renew leaseId ttl t s =
    (case secret_requireActive leaseId t s of
       (Inl err, s1) \<Rightarrow> (Inl err, s1)
     | (Inr l, s1) \<Rightarrow>
       if bad_ttl ttl then (Inl INVALID_SECRET_LEASE_TTL, s1)
       else
         (let l' = l\<lparr>slExpiresAt := t + ttl\<rparr>
          in (Inr l', s1\<lparr>smLeases := AList.update leaseId l' (smLeases s1), smAudit := smAudit s1 @ [secret_event l' SaRenewed]\<rparr>)))"

definition secret_revoke :: "string \<Rightarrow> secret_manager \<Rightarrow> secret_manager" where
  "secret_revoke leaseId s =
    (case map_of (smLeases s) leaseId of None \<Rightarrow> s | Some l \<Rightarrow> end_secret_lease l SlRevoked SaRevoked s)"

definition cleaned :: "string option \<Rightarrow> instant \<Rightarrow> secret_lease \<Rightarrow> bool" where
  "cleaned rid t l \<longleftrightarrow>
    (if truthy rid then rtRuntimeId (slIdentity l) = the rid else slStatus l \<noteq> SlActive \<or> slExpiresAt l \<le> t)"

definition secret_cleanup :: "js_env \<Rightarrow> string option \<Rightarrow> instant \<Rightarrow> secret_manager \<Rightarrow> nat \<times> secret_manager" where
  "secret_cleanup e rid t s =
    (let ls = filter (cleaned rid t) (jvalues (smLeases s));
         files1 = filter (\<lambda>(path, v). path \<notin> slPath ` set ls) (smFiles s);
         files2 = (if truthy rid then filter (\<lambda>(path, v). \<not> prefix (secret_directory e s (the rid) @ ''/'') path) files1 else files1)
     in (length ls,
         s\<lparr>smFiles := files2,
           smLeases := jmap_values (\<lambda>l. if cleaned rid t l \<and> slStatus l = SlActive then l\<lparr>slStatus := SlExpired\<rparr> else l) (smLeases s),
           smAudit := smAudit s @ map (\<lambda>l. secret_event l SaExpired) (filter (\<lambda>l. slStatus l = SlActive) ls)\<rparr>))"

subsection \<open>Content key leases\<close>

text \<open>
  \<open>ContentKeyLeaseManager\<close>: one unlocked content key per workspace.  A key is a buffer, and revocation overwrites the
  buffer that earlier calls of \<open>acquire\<close> handed out, so the buffers are a store: \<open>ckHeap\<close>, addressed by position.
\<close>

record content_key_lease =
  ckLeaseId :: string
  ckScope :: security_scope
  ckUserId :: string
  ckKeyVersion :: string
  ckExpiresAt :: instant
  ckContentKey :: nat

datatype content_key_action = CkIssued | CkRevoked

record content_key_audit =
  kaScope :: security_scope
  kaUserId :: string
  kaAction :: content_key_action
  kaLeaseId :: string

record content_key_manager =
  ckTtlMs :: int
  ckLeases :: "(string, content_key_lease) jsmap"
  ckHeap :: "string list"
  ckAudit :: "content_key_audit list"
  ckDraws :: nat

datatype content_key_error = INVALID_CONTENT_KEY_LEASE_TTL | INVALID_LEASED_KEY

definition newContentKeyManager :: "int \<Rightarrow> content_key_error + content_key_manager" where
  "newContentKeyManager ttl = (if ttl \<le> 0 then Inl INVALID_CONTENT_KEY_LEASE_TTL
     else Inr \<lparr>ckTtlMs = ttl, ckLeases = [], ckHeap = [], ckAudit = [], ckDraws = 0\<rparr>)"

definition content_event :: "content_key_lease \<Rightarrow> content_key_action \<Rightarrow> content_key_audit" where
  "content_event l a = \<lparr>kaScope = ckScope l, kaUserId = ckUserId l, kaAction = a, kaLeaseId = ckLeaseId l\<rparr>"

definition zeroed :: "nat \<Rightarrow> string list \<Rightarrow> string list" where
  "zeroed i heap = heap[i := replicate (length (heap ! i)) CHR 0x00]"

definition content_revoke :: "string \<Rightarrow> content_key_manager \<Rightarrow> bool \<times> content_key_manager" where
  "content_revoke ws s =
    (case map_of (ckLeases s) ws of
       None \<Rightarrow> (False, s)
     | Some l \<Rightarrow> (True, s\<lparr>ckHeap := zeroed (ckContentKey l) (ckHeap s), ckLeases := AList.delete ws (ckLeases s),
                          ckAudit := ckAudit s @ [content_event l CkRevoked]\<rparr>))"

definition content_issue :: "js_env \<Rightarrow> security_scope \<Rightarrow> string \<Rightarrow> string \<Rightarrow> string \<Rightarrow> instant \<Rightarrow> content_key_manager \<Rightarrow>
    (content_key_error, content_key_lease, content_key_manager) outcome" where
  "content_issue e sc user version key t s =
    (if length key \<noteq> 32 then (Inl INVALID_LEASED_KEY, s)
     else
       (let s1 = snd (content_revoke (seWorkspaceId sc) s);
            l = \<lparr>ckLeaseId = ''ckl_'' @ uuid e (ckDraws s1), ckScope = sc, ckUserId = user, ckKeyVersion = version,
                 ckExpiresAt = t + ckTtlMs s1, ckContentKey = length (ckHeap s1)\<rparr>
        in (Inr l, s1\<lparr>ckHeap := ckHeap s1 @ [key], ckLeases := AList.update (seWorkspaceId sc) l (ckLeases s1),
              ckAudit := ckAudit s1 @ [content_event l CkIssued], ckDraws := Suc (ckDraws s1)\<rparr>)))"

definition content_acquire :: "string \<Rightarrow> instant \<Rightarrow> content_key_manager \<Rightarrow> content_key_lease option \<times> content_key_manager" where
  "content_acquire ws t s =
    (case map_of (ckLeases s) ws of
       None \<Rightarrow> (None, s)
     | Some l \<Rightarrow>
       if ckExpiresAt l \<le> t then (None, snd (content_revoke ws s))
       else
         (let l' = l\<lparr>ckExpiresAt := t + ckTtlMs s\<rparr> in (Some l', s\<lparr>ckLeases := AList.update ws l' (ckLeases s)\<rparr>)))"

definition hasActiveLease :: "string \<Rightarrow> instant \<Rightarrow> content_key_manager \<Rightarrow> bool \<times> content_key_manager" where
  "hasActiveLease ws t s =
    (case map_of (ckLeases s) ws of
       None \<Rightarrow> (False, s)
     | Some l \<Rightarrow> if ckExpiresAt l \<le> t then (False, snd (content_revoke ws s)) else (True, s))"

definition revokeAll :: "content_key_manager \<Rightarrow> content_key_manager" where
  "revokeAll s = fold (\<lambda>ws s. snd (content_revoke ws s)) (jkeys (ckLeases s)) s"

end
