(* ===== verification/Guards_Props.thy ===== *)
theory Guards_Props
  imports Workspace_Guards
begin

unbundle bit_operations_syntax

section \<open>Workspace guards: properties\<close>

text \<open>
  The masked comparison of 32 bit words is a comparison of quotients, so the denied blocks are the ranges one expects;
  secret files always belong to live leases; key buffers that no live lease refers to are zero.
\<close>

subsection \<open>Masks\<close>








subsection \<open>The denied blocks as ranges\<close>















subsection \<open>Secret leases: files belong to live leases\<close>

datatype secret_event_in = SIssue workload_identity string int instant | SRenew string int instant | SRevoke string
  | SCleanup "string option" instant

fun secret_exec :: "js_env \<Rightarrow> 'p secret_provider \<Rightarrow> secret_event_in \<Rightarrow> secret_manager \<times> 'p \<Rightarrow> secret_manager \<times> 'p" where
  "secret_exec e prov (SIssue i ref ttl t) sp = snd (secret_issue e prov i ref ttl t sp)"
| "secret_exec e prov (SRenew k ttl t) (s, p) = (snd (secret_renew k ttl t s), p)"
| "secret_exec e prov (SRevoke k) (s, p) = (secret_revoke k s, p)"
| "secret_exec e prov (SCleanup rid t) (s, p) = (snd (secret_cleanup e rid t s), p)"

inductive secret_step :: "js_env \<Rightarrow> 'p secret_provider \<Rightarrow> secret_manager \<times> 'p \<Rightarrow> secret_manager \<times> 'p \<Rightarrow> bool" for e prov where
  secret_stepI: "secret_step e prov sp (secret_exec e prov ev sp)"

inductive_cases secret_stepE: "secret_step e prov sp sq"

definition live_file :: "secret_manager \<Rightarrow> string \<Rightarrow> bool" where
  "live_file s path \<longleftrightarrow> (\<exists>k l. map_of (smLeases s) k = Some l \<and> slStatus l = SlActive \<and> slPath l = path)"

definition secret_inv :: "js_env \<Rightarrow> secret_manager \<Rightarrow> bool" where
  "secret_inv e s \<longleftrightarrow>
    (\<forall>k l. map_of (smLeases s) k = Some l \<longrightarrow> slLeaseId l = k \<and> (\<exists>i < smDraws s. k = ''lease_'' @ uuid e i))
    \<and> (\<forall>path v. map_of (smFiles s) path = Some v \<longrightarrow> live_file s path)"

lemma secret_invD:
  assumes "secret_inv e s"
  shows "map_of (smLeases s) k = Some l \<Longrightarrow> slLeaseId l = k"
    and "map_of (smLeases s) k = Some l \<Longrightarrow> \<exists>i < smDraws s. k = ''lease_'' @ uuid e i"
    and "map_of (smFiles s) path = Some v \<Longrightarrow> live_file s path"
  using assms by (auto simp: secret_inv_def)

text \<open>Storing a lease keeps the invariant when every file that remains is the file of that lease, or was there before and
  is not the file of the lease it replaces.\<close>

lemma secret_inv_put:
  assumes inv: "secret_inv e s" and L: "smLeases s' = AList.update k l' (smLeases s)" and D: "smDraws s \<le> smDraws s'"
    and id: "slLeaseId l' = k" "\<exists>i < smDraws s'. k = ''lease_'' @ uuid e i"
    and F: "\<And>path v. map_of (smFiles s') path = Some v \<Longrightarrow> slStatus l' = SlActive \<and> slPath l' = path
      \<or> map_of (smFiles s) path = Some v \<and> (\<forall>l. map_of (smLeases s) k = Some l \<longrightarrow> slPath l \<noteq> path)"
  shows "secret_inv e s'"
  unfolding secret_inv_def
proof (intro conjI allI impI)
  fix k1 l1
  assume l1: "map_of (smLeases s') k1 = Some l1"
  have "slLeaseId l1 = k1 \<and> (\<exists>i < smDraws s'. k1 = ''lease_'' @ uuid e i)"
  proof (cases "k1 = k")
    case True
    then show ?thesis using l1 id unfolding L by (simp add: update_conv')
  next
    case False
    then have "map_of (smLeases s) k1 = Some l1" using l1 unfolding L by (simp add: update_conv')
    then show ?thesis using secret_invD(1,2) [OF inv] D order.strict_trans2 by blast
  qed
  then show "slLeaseId l1 = k1" "\<exists>i < smDraws s'. k1 = ''lease_'' @ uuid e i" by blast+
next
  fix path v
  assume "map_of (smFiles s') path = Some v"
  then consider "slStatus l' = SlActive" "slPath l' = path"
    | "map_of (smFiles s) path = Some v" "\<forall>l. map_of (smLeases s) k = Some l \<longrightarrow> slPath l \<noteq> path" using F by blast
  then show "live_file s' path"
  proof cases
    case 1
    then show ?thesis unfolding live_file_def L by (intro exI [of _ k] exI [of _ l']) (simp add: update_conv')
  next
    case 2
    then obtain k1 l1 where l1: "map_of (smLeases s) k1 = Some l1" "slStatus l1 = SlActive" "slPath l1 = path"
      using secret_invD(3) [OF inv] unfolding live_file_def by blast
    with 2(2) have "k1 \<noteq> k" by auto
    with l1 show ?thesis unfolding live_file_def L by (intro exI [of _ k1] exI [of _ l1]) (simp add: update_conv')
  qed
qed

lemma end_lease_inv:
  assumes "secret_inv e s" and "map_of (smLeases s) k = Some l"
  shows "secret_inv e (end_secret_lease l st a s)"
proof (rule secret_inv_put [OF assms(1), where k = k and l' = "l\<lparr>slStatus := st\<rparr>"])
  show "smLeases (end_secret_lease l st a s) = AList.update k (l\<lparr>slStatus := st\<rparr>) (smLeases s)"
    using secret_invD(1) [OF assms] by (simp add: end_secret_lease_def)
qed (use secret_invD(1,2) [OF assms] assms(2) in \<open>auto simp: end_secret_lease_def delete_conv' split: if_splits\<close>)

lemma requireActive_inv: "secret_inv e s \<Longrightarrow> secret_inv e (snd (secret_requireActive k t s))"
  by (auto simp: secret_requireActive_def end_lease_inv split: option.split)

lemma requireActive_Inr:
  "secret_requireActive k t s = (Inr l, s1) \<Longrightarrow> s1 = s \<and> map_of (smLeases s) k = Some l \<and> slStatus l = SlActive"
  by (auto simp: secret_requireActive_def split: option.splits if_splits)

lemma renew_inv:
  assumes "secret_inv e s"
  shows "secret_inv e (snd (secret_renew k ttl t s))"
proof (cases "secret_requireActive k t s")
  case (Pair r s1)
  show ?thesis
  proof (cases r)
    case (Inl err)
    then show ?thesis using requireActive_inv [OF assms, of k t] Pair by (simp add: secret_renew_def)
  next
    case (Inr l)
    then have l: "s1 = s" "map_of (smLeases s) k = Some l" "slStatus l = SlActive" using requireActive_Inr Pair by blast+
    show ?thesis
    proof (cases "bad_ttl ttl")
      case True
      then show ?thesis using Pair Inr l assms by (simp add: secret_renew_def)
    next
      case False
      then show ?thesis
        using Pair Inr l secret_invD(1,2) [OF assms l(2)]
        by (intro secret_inv_put [OF assms, where k = k and l' = "l\<lparr>slExpiresAt := t + ttl\<rparr>"])
          (auto simp: secret_renew_def Let_def)
    qed
  qed
qed

lemma revoke_inv: "secret_inv e s \<Longrightarrow> secret_inv e (secret_revoke k s)"
  by (auto simp: secret_revoke_def end_lease_inv split: option.split)

lemma cleanup_inv:
  assumes "secret_inv e s"
  shows "secret_inv e (snd (secret_cleanup e rid t s))"
proof -
  let ?s = "snd (secret_cleanup e rid t s)"
  have leases: "map_of (smLeases ?s) k =
      map_option (\<lambda>l. if cleaned rid t l \<and> slStatus l = SlActive then l\<lparr>slStatus := SlExpired\<rparr> else l) (map_of (smLeases s) k)" for k
    by (simp add: secret_cleanup_def Let_def)
  have "live_file ?s path" if f: "map_of (smFiles ?s) path = Some v" for path v
  proof -
    have old: "map_of (smFiles s) path = Some v" "path \<notin> slPath ` set (filter (cleaned rid t) (jvalues (smLeases s)))"
      using f unfolding secret_cleanup_def Let_def by (simp_all add: map_of_filter_key del: filter_filter split: if_splits)
    then obtain k l where l: "map_of (smLeases s) k = Some l" "slStatus l = SlActive" "slPath l = path"
      using secret_invD(3) [OF assms] unfolding live_file_def by blast
    moreover have "l \<in> set (jvalues (smLeases s))" using map_of_SomeD [OF l(1)] by (force simp: jvalues_def)
    then have "\<not> cleaned rid t l" using old(2) l(3) by auto
    ultimately show ?thesis using leases unfolding live_file_def by (intro exI [of _ k] exI [of _ l]) simp
  qed
  moreover have "slLeaseId l = k \<and> (\<exists>i < smDraws ?s. k = ''lease_'' @ uuid e i)" if "map_of (smLeases ?s) k = Some l" for k l
    using that secret_invD(1,2) [OF assms] unfolding leases by (auto simp: secret_cleanup_def Let_def split: if_splits)
  ultimately show ?thesis unfolding secret_inv_def by blast
qed

lemma issue_inv:
  assumes "inj (uuid e)" and "secret_inv e s"
  shows "secret_inv e (fst (snd (secret_issue e prov i ref ttl t (s, p))))"
proof -
  let ?id = "''lease_'' @ uuid e (smDraws s)"
  have fresh: "map_of (smLeases s) ?id = None"
    using secret_invD(2) [OF assms(2), of ?id] assms(1) by (cases "map_of (smLeases s) ?id") (auto dest: injD)
  have draws: "secret_inv e (s\<lparr>smDraws := Suc (smDraws s)\<rparr>)"
    using assms(2) by (auto simp: secret_inv_def live_file_def less_Suc_eq)
  show ?thesis
  proof (cases "fst (secret_issue e prov i ref ttl t (s, p))")
    case (Inl err)
    then have "fst (snd (secret_issue e prov i ref ttl t (s, p))) \<in> {s, s\<lparr>smDraws := Suc (smDraws s)\<rparr>}"
      by (auto simp: secret_issue_def Let_def split: if_splits sum.splits prod.splits)
    then show ?thesis using draws assms(2) by auto
  next
    case (Inr l)
    then obtain path v au where s': "fst (snd (secret_issue e prov i ref ttl t (s, p))) =
        s\<lparr>smDraws := Suc (smDraws s), smFiles := AList.update path v (smFiles s), smLeases := AList.update ?id l (smLeases s),
          smAudit := au\<rparr>" and l: "slLeaseId l = ?id" "slStatus l = SlActive" "slPath l = path"
      by (auto simp: secret_issue_def Let_def split: if_splits sum.splits prod.splits)
    show ?thesis
      unfolding s' by (rule secret_inv_put [OF assms(2), where k = ?id and l' = l])
        (use l fresh in \<open>auto simp: update_conv' split: if_splits\<close>)
  qed
qed

interpretation secret_run: transition_system "\<lambda>sp. \<exists>root. fst sp = newSecretManager root" "secret_step e prov"
  "\<lambda>sp. inj (uuid e) \<longrightarrow> secret_inv e (fst sp)" for e and prov :: "'p secret_provider"
proof
  show "inj (uuid e) \<longrightarrow> secret_inv e (fst sp)" if "\<exists>root. fst sp = newSecretManager root" for sp :: "secret_manager \<times> 'p"
    using that by (auto simp: secret_inv_def newSecretManager_def)
  show "inj (uuid e) \<longrightarrow> secret_inv e (fst sq)"
    if h: "inj (uuid e) \<longrightarrow> secret_inv e (fst sp)" "secret_step e prov sp sq" for sp sq :: "secret_manager \<times> 'p"
  proof
    assume "inj (uuid e)"
    obtain ev where sq: "sq = secret_exec e prov ev sp" using h(2) by (auto elim: secret_stepE)
    obtain s p where sp: "sp = (s, p)" by (cases sp)
    have "secret_inv e s" using h(1) \<open>inj (uuid e)\<close> sp by simp
    then show "secret_inv e (fst sq)"
      using issue_inv [OF \<open>inj (uuid e)\<close>] renew_inv revoke_inv cleanup_inv by (cases ev) (simp_all add: sq sp)
  qed
qed

text \<open>C32. No secret outlives its lease on disk: when random identifiers do not repeat, every secret file of a reachable
  manager belongs to an active lease; revoking a lease removes its file; a sweep at time \<open>t\<close> leaves only files of leases
  that end after \<open>t\<close>, and a sweep of a runtime leaves no file of that runtime's leases.\<close>

theorem secret_files_belong_to_live_leases:
  assumes "inj (uuid e)" and "fst sp = newSecretManager root" and "reaches (secret_step e prov) sp (s, p)"
  shows "(\<forall>path v. map_of (smFiles s) path = Some v \<longrightarrow> live_file s path)
    \<and> (\<forall>k l. map_of (smLeases s) k = Some l \<longrightarrow> map_of (smFiles (secret_revoke k s)) (slPath l) = None)
    \<and> (\<forall>rid t path v. map_of (smFiles (snd (secret_cleanup e rid t s))) path = Some v \<longrightarrow>
         (\<exists>k l. map_of (smLeases s) k = Some l \<and> slPath l = path \<and> slStatus l = SlActive
           \<and> (if truthy rid then rtRuntimeId (slIdentity l) \<noteq> the rid else t < slExpiresAt l)))"
proof (intro conjI allI impI)
  have inv: "secret_inv e s" using secret_run.reachable_inv [of sp e prov "(s, p)"] assms by auto
  show "live_file s path" if "map_of (smFiles s) path = Some v" for path v using secret_invD(3) [OF inv that] .
  show "map_of (smFiles (secret_revoke k s)) (slPath l) = None" if "map_of (smLeases s) k = Some l" for k l
    using that by (simp add: secret_revoke_def end_secret_lease_def delete_conv')
  fix rid t path v
  assume f: "map_of (smFiles (snd (secret_cleanup e rid t s))) path = Some v"
  have old: "map_of (smFiles s) path = Some v" "path \<notin> slPath ` set (filter (cleaned rid t) (jvalues (smLeases s)))"
    using f unfolding secret_cleanup_def Let_def by (simp_all add: map_of_filter_key del: filter_filter split: if_splits)
  then obtain k l where l: "map_of (smLeases s) k = Some l" "slStatus l = SlActive" "slPath l = path"
    using secret_invD(3) [OF inv] unfolding live_file_def by blast
  moreover have "l \<in> set (jvalues (smLeases s))" using map_of_SomeD [OF l(1)] by (force simp: jvalues_def)
  then have "\<not> cleaned rid t l" using old(2) l(3) by auto
  ultimately show "\<exists>k l. map_of (smLeases s) k = Some l \<and> slPath l = path \<and> slStatus l = SlActive
      \<and> (if truthy rid then rtRuntimeId (slIdentity l) \<noteq> the rid else t < slExpiresAt l)"
    by (intro exI [of _ k] exI [of _ l]) (simp add: cleaned_def split: if_splits)
qed

subsection \<open>Content keys: no key survives its lease\<close>

datatype content_event_in = CIssue security_scope string string string instant | CAcquire string instant | CHas string instant
  | CRevoke string | CRevokeAll

fun content_exec :: "js_env \<Rightarrow> content_event_in \<Rightarrow> content_key_manager \<Rightarrow> content_key_manager" where
  "content_exec e (CIssue sc user v key t) s = snd (content_issue e sc user v key t s)"
| "content_exec e (CAcquire ws t) s = snd (content_acquire ws t s)"
| "content_exec e (CHas ws t) s = snd (hasActiveLease ws t s)"
| "content_exec e (CRevoke ws) s = snd (content_revoke ws s)"
| "content_exec e CRevokeAll s = revokeAll s"

inductive content_step :: "js_env \<Rightarrow> content_key_manager \<Rightarrow> content_key_manager \<Rightarrow> bool" for e where
  content_stepI: "content_step e s (content_exec e ev s)"

inductive_cases content_stepE: "content_step e s s'"

text \<open>The address of the key of a live lease; live leases have different keys, and every other buffer is zero.\<close>

definition zero_key :: string where
  "zero_key = replicate 32 CHR 0x00"

definition content_inv :: "content_key_manager \<Rightarrow> bool" where
  "content_inv s \<longleftrightarrow>
    (\<forall>ws l. map_of (ckLeases s) ws = Some l \<longrightarrow> ckContentKey l < length (ckHeap s))
    \<and> (\<forall>ws ws' l l'. map_of (ckLeases s) ws = Some l \<and> map_of (ckLeases s) ws' = Some l' \<and> ckContentKey l = ckContentKey l' \<longrightarrow> ws = ws')
    \<and> (\<forall>i < length (ckHeap s). length (ckHeap s ! i) = 32
        \<and> (ckHeap s ! i = zero_key \<or> (\<exists>ws l. map_of (ckLeases s) ws = Some l \<and> ckContentKey l = i)))"

lemma content_invD:
  assumes "content_inv s"
  shows "map_of (ckLeases s) ws = Some l \<Longrightarrow> ckContentKey l < length (ckHeap s)"
    and "map_of (ckLeases s) ws = Some l \<Longrightarrow> map_of (ckLeases s) ws' = Some l' \<Longrightarrow> ckContentKey l = ckContentKey l' \<Longrightarrow> ws = ws'"
    and "i < length (ckHeap s) \<Longrightarrow> length (ckHeap s ! i) = 32"
    and "i < length (ckHeap s) \<Longrightarrow> ckHeap s ! i = zero_key \<or> (\<exists>ws l. map_of (ckLeases s) ws = Some l \<and> ckContentKey l = i)"
  using assms unfolding content_inv_def by blast+

lemma content_revoke_inv:
  assumes "content_inv s"
  shows "content_inv (snd (content_revoke ws s))"
proof (cases "map_of (ckLeases s) ws")
  case (Some l)
  let ?s = "snd (content_revoke ws s)" and ?a = "ckContentKey l"
  have heap: "ckHeap ?s = (ckHeap s)[?a := zero_key]"
    using Some content_invD(3) [OF assms] content_invD(1) [OF assms Some] by (simp add: content_revoke_def zeroed_def zero_key_def)
  have leases: "map_of (ckLeases ?s) w = (if w = ws then None else map_of (ckLeases s) w)" for w
    using Some by (simp add: content_revoke_def delete_conv')
  show ?thesis
    unfolding content_inv_def
  proof (intro conjI allI impI)
    show "ckContentKey l1 < length (ckHeap ?s)" if "map_of (ckLeases ?s) w = Some l1" for w l1
      using that content_invD(1) [OF assms] by (simp add: heap leases split: if_splits)
    show "w = w'" if "map_of (ckLeases ?s) w = Some l1 \<and> map_of (ckLeases ?s) w' = Some l2 \<and> ckContentKey l1 = ckContentKey l2" for w w' l1 l2
      using that content_invD(2) [OF assms] by (auto simp: leases split: if_splits)
    fix i
    assume i: "i < length (ckHeap ?s)"
    show "length (ckHeap ?s ! i) = 32"
      using i content_invD(3) [OF assms] by (cases "i = ?a") (simp_all add: heap zero_key_def)
    show "ckHeap ?s ! i = zero_key \<or> (\<exists>w l1. map_of (ckLeases ?s) w = Some l1 \<and> ckContentKey l1 = i)"
    proof (cases "i = ?a")
      case True
      then show ?thesis using i by (simp add: heap)
    next
      case False
      with i have "ckHeap s ! i = zero_key \<or> (\<exists>w l1. map_of (ckLeases s) w = Some l1 \<and> ckContentKey l1 = i)"
        using content_invD(4) [OF assms] by (simp add: heap)
      then show ?thesis
      proof (elim disjE exE conjE)
        fix w l1
        assume "map_of (ckLeases s) w = Some l1" "ckContentKey l1 = i"
        moreover from this have "w \<noteq> ws" using False Some by auto
        ultimately show ?thesis by (intro disjI2 exI [of _ w] exI [of _ l1]) (simp add: leases)
      qed (use False in \<open>simp add: heap nth_list_update\<close>)
    qed
  qed
qed (use assms in \<open>simp add: content_revoke_def\<close>)

lemma content_issue_inv:
  assumes "content_inv s"
  shows "content_inv (snd (content_issue e sc user v key t s))"
proof (cases "length key = 32")
  case True
  let ?w = "seWorkspaceId sc"
  define s1 where "s1 = snd (content_revoke ?w s)"
  have inv: "content_inv s1" unfolding s1_def by (rule content_revoke_inv [OF assms])
  let ?s = "snd (content_issue e sc user v key t s)"
  obtain l where l: "ckLeases ?s = AList.update ?w l (ckLeases s1)" "ckHeap ?s = ckHeap s1 @ [key]" "ckContentKey l = length (ckHeap s1)"
    using True by (simp add: content_issue_def Let_def s1_def)
  show ?thesis
    unfolding content_inv_def
  proof (intro conjI allI impI)
    show "ckContentKey l1 < length (ckHeap ?s)" if "map_of (ckLeases ?s) w = Some l1" for w l1
      using that content_invD(1) [OF inv, of w l1] l by (auto simp: update_conv' split: if_splits)
    show "w = w'" if "map_of (ckLeases ?s) w = Some l1 \<and> map_of (ckLeases ?s) w' = Some l2 \<and> ckContentKey l1 = ckContentKey l2" for w w' l1 l2
      using that content_invD(1) [OF inv, of w l1] content_invD(1) [OF inv, of w' l2] content_invD(2) [OF inv, of w l1 w' l2] l
      by (auto simp: update_conv' split: if_splits)
    fix i
    assume i: "i < length (ckHeap ?s)"
    show "length (ckHeap ?s ! i) = 32"
      using i True content_invD(3) [OF inv, of i] by (auto simp: l(2) nth_append less_Suc_eq)
    show "ckHeap ?s ! i = zero_key \<or> (\<exists>w l1. map_of (ckLeases ?s) w = Some l1 \<and> ckContentKey l1 = i)"
    proof (cases "i = length (ckHeap s1)")
      case True
      then show ?thesis by (intro disjI2 exI [of _ ?w] exI [of _ l]) (simp add: l update_conv')
    next
      case False
      with i have "i < length (ckHeap s1)" by (simp add: l(2))
      from content_invD(4) [OF inv this] show ?thesis
      proof (elim disjE exE conjE)
        fix w l1
        assume l1: "map_of (ckLeases s1) w = Some l1" "ckContentKey l1 = i"
        have "map_of (ckLeases s1) ?w = None" by (simp add: s1_def content_revoke_def delete_conv' split: option.split)
        with l1 have "w \<noteq> ?w" by auto
        with l1 show ?thesis by (intro disjI2 exI [of _ w] exI [of _ l1]) (simp add: l update_conv')
      qed (simp add: l(2) nth_append \<open>i < length (ckHeap s1)\<close>)
    qed
  qed
qed (use assms in \<open>simp add: content_issue_def\<close>)

lemma content_acquire_inv:
  assumes "content_inv s"
  shows "content_inv (snd (content_acquire ws t s))"
proof (cases "map_of (ckLeases s) ws")
  case (Some l)
  show ?thesis
  proof (cases "ckExpiresAt l \<le> t")
    case True
    then show ?thesis using Some content_revoke_inv [OF assms] by (simp add: content_acquire_def)
  next
    case False
    let ?s = "snd (content_acquire ws t s)"
    have same: "ckHeap ?s = ckHeap s"
      "map_option ckContentKey (map_of (ckLeases ?s) w) = map_option ckContentKey (map_of (ckLeases s) w)" for w
      using Some False by (simp_all add: content_acquire_def Let_def update_conv')
    have to: "\<exists>l0. map_of (ckLeases s) w = Some l0 \<and> ckContentKey l0 = ckContentKey l1" if "map_of (ckLeases ?s) w = Some l1" for w l1
      using same(2) [of w] that by (cases "map_of (ckLeases s) w") simp_all
    have from_: "\<exists>l1. map_of (ckLeases ?s) w = Some l1 \<and> ckContentKey l1 = ckContentKey l0" if "map_of (ckLeases s) w = Some l0" for w l0
      using same(2) [of w] that by (cases "map_of (ckLeases ?s) w") simp_all
    show ?thesis
      unfolding content_inv_def same(1)
    proof (intro conjI allI impI)
      show "ckContentKey l1 < length (ckHeap s)" if "map_of (ckLeases ?s) w = Some l1" for w l1
        using to [OF that] content_invD(1) [OF assms] by metis
      show "w = w'" if "map_of (ckLeases ?s) w = Some l1 \<and> map_of (ckLeases ?s) w' = Some l2 \<and> ckContentKey l1 = ckContentKey l2" for w w' l1 l2
        using that to [of w l1] to [of w' l2] content_invD(2) [OF assms] by metis
      show "length (ckHeap s ! i) = 32" "ckHeap s ! i = zero_key \<or> (\<exists>w l1. map_of (ckLeases ?s) w = Some l1 \<and> ckContentKey l1 = i)"
        if "i < length (ckHeap s)" for i
        using content_invD(3,4) [OF assms that] from_ by blast+
    qed
  qed
qed (use assms in \<open>simp add: content_acquire_def\<close>)

lemma revokeAll_inv: "content_inv s \<Longrightarrow> content_inv (revokeAll s)"
proof -
  have "content_inv (fold (\<lambda>ws s. snd (content_revoke ws s)) wss s)" if "content_inv s" for wss s
    using that by (induction wss arbitrary: s) (simp_all add: content_revoke_inv)
  then show "content_inv s \<Longrightarrow> content_inv (revokeAll s)" by (simp add: revokeAll_def)
qed

lemma content_exec_inv: "content_inv s \<Longrightarrow> content_inv (content_exec e ev s)"
proof (cases ev)
  case (CHas ws t)
  assume "content_inv s"
  then show ?thesis using CHas by (simp add: hasActiveLease_def content_revoke_inv split: option.split)
qed (simp_all add: content_issue_inv content_acquire_inv content_revoke_inv revokeAll_inv)

interpretation content_run: transition_system "\<lambda>s. \<exists>ttl. newContentKeyManager ttl = Inr s" "content_step e" content_inv for e
proof
  show "content_inv s" if "\<exists>ttl. newContentKeyManager ttl = Inr s" for s
    using that by (auto simp: newContentKeyManager_def content_inv_def split: if_splits)
  show "content_inv s'" if "content_inv s" "content_step e s s'" for s s'
    using that content_exec_inv by (auto elim: content_stepE)
qed

lemma revoke_leases: "map_of (ckLeases (snd (content_revoke ws s))) w = (if w = ws then None else map_of (ckLeases s) w)"
  by (simp add: content_revoke_def delete_conv' split: option.split)

lemma revokeAll_leases: "map_of (ckLeases (revokeAll s)) w = None"
proof -
  have "map_of (ckLeases (fold (\<lambda>ws s. snd (content_revoke ws s)) wss s)) w
      = (if w \<in> set wss then None else map_of (ckLeases s) w)" for wss s
    by (induction wss arbitrary: s) (simp_all add: revoke_leases)
  moreover have "w \<notin> set (jkeys (ckLeases s)) \<Longrightarrow> map_of (ckLeases s) w = None"
    by (simp add: jkeys_def map_of_eq_None_iff)
  ultimately show ?thesis by (simp add: revokeAll_def)
qed

text \<open>C37. No unlocked key survives its lease: in every reachable state each key buffer that no live lease refers to is
  zero, including buffers that were handed out before; an acquired key belongs to a lease that has not expired and
  whose term restarts; and after \<open>revokeAll\<close> every buffer is zero.\<close>

theorem content_keys_are_wiped:
  assumes "newContentKeyManager ttl = Inr s0" and "reaches (content_step e) s0 s"
  shows "(\<forall>i < length (ckHeap s). (\<forall>ws l. map_of (ckLeases s) ws = Some l \<longrightarrow> ckContentKey l \<noteq> i) \<longrightarrow> ckHeap s ! i = zero_key)
    \<and> (\<forall>ws t l s'. content_acquire ws t s = (Some l, s') \<longrightarrow> ckExpiresAt l = t + ckTtlMs s \<and> map_of (ckLeases s') ws = Some l
        \<and> (\<exists>l0. map_of (ckLeases s) ws = Some l0 \<and> t < ckExpiresAt l0 \<and> ckContentKey l = ckContentKey l0))
    \<and> (\<forall>b \<in> set (ckHeap (revokeAll s)). b = zero_key)"
proof (intro conjI allI impI ballI)
  have inv: "content_inv s" using content_run.reachable_inv assms by blast
  show "ckHeap s ! i = zero_key" if "i < length (ckHeap s)" "\<forall>ws l. map_of (ckLeases s) ws = Some l \<longrightarrow> ckContentKey l \<noteq> i" for i
    using content_invD(4) [OF inv that(1)] that(2) by blast
  show "b = zero_key" if "b \<in> set (ckHeap (revokeAll s))" for b
    using that content_invD(4) [OF revokeAll_inv [OF inv]] by (auto simp: in_set_conv_nth revokeAll_leases)
  show "ckExpiresAt l = t + ckTtlMs s" "map_of (ckLeases s') ws = Some l"
    "\<exists>l0. map_of (ckLeases s) ws = Some l0 \<and> t < ckExpiresAt l0 \<and> ckContentKey l = ckContentKey l0"
    if "content_acquire ws t s = (Some l, s')" for ws t l s'
    using that by (auto simp: content_acquire_def Let_def update_conv' split: option.splits if_splits)
qed

definition guard_env :: js_env where
  "guard_env = \<lparr>clock = (\<lambda>n. 0), uuid = (\<lambda>n. replicate n CHR ''u''), token = (\<lambda>n. []), sha256 = (\<lambda>x. x)\<rparr>"

definition sample_scope :: security_scope where
  "sample_scope = \<lparr>seTenantId = ''t'', seOrganizationId = ''o'', seWorkspaceId = ''w''\<rparr>"

definition sample_keys :: content_key_manager where
  "sample_keys = \<lparr>ckTtlMs = 10, ckLeases = [], ckHeap = [], ckAudit = [], ckDraws = 0\<rparr>"

definition issued_keys :: content_key_manager where
  "issued_keys = content_exec guard_env (CIssue sample_scope ''u'' ''1'' (replicate 32 CHR ''k'') 0) sample_keys"

theorem content_keys_are_wiped_witness:
  "ckHeap issued_keys = [replicate 32 CHR ''k''] \<and> length (ckHeap (revokeAll issued_keys)) = 1
   \<and> hd (ckHeap (revokeAll issued_keys)) = zero_key"
proof -
  have 1: "newContentKeyManager 10 = Inr sample_keys" by (simp add: newContentKeyManager_def sample_keys_def)
  have 2: "reaches (content_step guard_env) sample_keys issued_keys"
    unfolding issued_keys_def by (meson reaches_refl reaches_step content_stepI)
  have 3: "ckHeap issued_keys = [replicate 32 CHR ''k'']" "length (ckHeap (revokeAll issued_keys)) = 1" by code_simp+
  then have "hd (ckHeap (revokeAll issued_keys)) \<in> set (ckHeap (revokeAll issued_keys))" by (intro hd_in_set) auto
  then show ?thesis using content_keys_are_wiped [OF 1 2] 3 by blast
qed

definition sample_identity :: workload_identity where
  "sample_identity = \<lparr>seTenantId = ''t'', seOrganizationId = ''o'', seWorkspaceId = ''w'', rtRuntimeId = ''r'', wiSubject = ''s''\<rparr>"

definition sample_secrets :: "secret_manager \<times> (string, string) jsmap" where
  "sample_secrets = secret_exec guard_env DevSecretProvider (SIssue sample_identity ''db'' 5000 0) (newSecretManager ''/run'', [(''db'', ''pw'')])"

theorem secret_files_belong_to_live_leases_witness:
  "map fst (smFiles (fst sample_secrets)) \<noteq> []
   \<and> live_file (fst sample_secrets) (hd (map fst (smFiles (fst sample_secrets))))"
proof -
  have 1: "inj (uuid guard_env)" by (auto simp: inj_def guard_env_def replicate_eq_replicate)
  have 2: "reaches (secret_step guard_env DevSecretProvider) (newSecretManager ''/run'', [(''db'', ''pw'')]) (fst sample_secrets, snd sample_secrets)"
    unfolding sample_secrets_def prod.collapse by (meson reaches_refl reaches_step secret_stepI)
  have 3: "map fst (smFiles (fst sample_secrets)) \<noteq> []" by code_simp
  then have "map_of (smFiles (fst sample_secrets)) (hd (map fst (smFiles (fst sample_secrets)))) \<noteq> None"
    unfolding map_of_eq_None_iff by (metis list.set_map list.set_sel(1))
  then show ?thesis using 3 secret_files_belong_to_live_leases [OF 1 _ 2, of "''/run''"] by auto
qed

end
