(* ===== verification/Credit_Ledger.thy ===== *)
theory Credit_Ledger
  imports Json_Text
begin

section \<open>Prepaid credits: the ledger and its transactions\<close>

text \<open>
  The credit operations of \<open>BillingPostgresRepository\<close> (\<open>packages/billing-platform\<close>).  Every operation is
  a transaction of SQL statements on the tables of migration 0026.  Row level security restricts a
  transaction to the rows of one scope, so the database is a family of tables, one \<open>credit_tables\<close> per
  scope; only the sequence behind \<open>ledger_sequence\<close> is shared, and like every PostgreSQL sequence it is
  not rolled back.  A table is the list of its rows, without the scope columns.  An \<open>INSERT\<close> checks the
  \<open>CHECK\<close>, uniqueness and foreign key constraints of its table and fails with \<open>SqlViolation\<close>; an error
  rolls the transaction back (\<open>withScope\<close>).

  The digest, the collation of text, the existence of the workspace row and the choice that PostgreSQL makes
  among several rows when a query does not order them (\<open>pgPick\<close>) are the environment.  Amounts are exact
  integers: the code keeps them in \<open>bigint\<close> columns and reads them with \<open>Number\<close>, which is exact up to 2^53.
\<close>

record billing_scope =
  bsTenantId :: string
  bsOrganizationId :: string
  bsWorkspaceId :: string

record pg_env =
  pgSha256 :: "string \<Rightarrow> string"
  pgTextLe :: "string \<Rightarrow> string \<Rightarrow> bool"
  pgWorkspace :: "billing_scope \<Rightarrow> bool"
  pgPick :: "nat \<Rightarrow> nat"

datatype credit_error =
    CREDIT_INSUFFICIENT
  | RESERVATION_NOT_FOUND
  | SETTLEMENT_EXCEEDS_RESERVATION
  | RETAIL_PRICE_CATALOG_MISSING
  | CREDIT_CURRENCY_MISMATCH
  | NEGATIVE_BALANCE_FORBIDDEN
  | SqlViolation
  | SchemaInvalid

datatype lot_kind = Paid | Promotional

datatype entry_type =
    Purchase | PromotionalGrant | Reservation | ReservationRelease | UsageSettlement
  | Refund | Chargeback | Expiration | AdminAdjustment

datatype operation = TurnStart | SourceUpload | SourceIndex | SourceRetrieval | WorkspaceConcurrency

datatype reservation_state = Reserved | PartiallySettled | Settled | Released

datatype usage_status = Measured | Estimated | Reconciled | UsageIncomplete

datatype settlement_outcome = OutCompleted | OutFailed | OutInterrupted | OutIncomplete

datatype usage_meter =
    ProviderInputToken | ProviderCachedInputToken | ProviderOutputToken | ProviderReasoningToken
  | ProviderReportedCostMicros | ComputeMillisecond | StorageByteMillisecond | EgressByte
  | IndexEmbeddingToken | RetrievalEmbeddingToken

record retail_catalog =
  rcCatalogId :: string
  rcCatalogVersion :: string
  rcCurrency :: string
  rcRates :: "(usage_meter \<times> int) list"
  rcOperationMaximums :: "(operation \<times> int) list"
  rcIdempotencyKey :: string
  rcPaymentReference :: "string option"
  rcUsageDedupeKey :: "string option"
  rcRunId :: "string option"
  rcOperationReference :: "string option"
  rcOccurredAt :: instant
  rcEffectiveAt :: instant
  rcRetiredAt :: "instant option"

record credit_lot =
  clLotId :: string
  clKind :: lot_kind
  clCurrency :: string
  clOriginalCredits :: int
  clOriginalCash :: int
  clIdempotencyKey :: string
  clPaymentReference :: "string option"
  clOperationReference :: "string option"
  clOccurredAt :: instant
  clExpiresAt :: "instant option"
  clSourceWebhookEventId :: "string option"

record credit_reservation =
  crReservationId :: string
  crCurrency :: string
  crIdempotencyKey :: string
  crOperation :: operation
  crCatalogVersion :: string
  crMaximum :: int
  crSettled :: int
  crReleased :: int
  crState :: reservation_state
  crVersion :: nat
  crPaymentReference :: "string option"
  crUsageDedupeKey :: "string option"
  crRunId :: "string option"
  crOperationReference :: "string option"
  crOccurredAt :: instant
  crResolvedAt :: "instant option"

record credit_allocation =
  caReservationId :: string
  caLotId :: string
  caOrder :: nat
  caReserved :: int
  caSettled :: int
  caReleased :: int

record credit_settlement =
  csSettlementId :: string
  csReservationId :: string
  csCurrency :: string
  csIdempotencyKey :: string
  csCatalogVersion :: string
  csMeasured :: int
  csReleased :: int
  csUsageStatus :: usage_status
  csOutcome :: settlement_outcome
  csTerminal :: bool
  csUsageDedupeKey :: string
  csRunId :: "string option"
  csOperationReference :: "string option"
  csOccurredAt :: instant

record ledger_entry =
  leSequence :: nat
  leEntryId :: string
  leLotId :: string
  leType :: entry_type
  leCurrency :: string
  leCredits :: int
  leCash :: int
  leIdempotencyKey :: string
  lePaymentReference :: "string option"
  leUsageDedupeKey :: "string option"
  leRunId :: "string option"
  leOperationReference :: "string option"
  leReservationId :: "string option"
  leSettlementId :: "string option"
  leSourceWebhookEventId :: "string option"
  leOccurredAt :: instant

text \<open>Usage rows are written elsewhere and only read by the projection.\<close>

record usage_row =
  urMeter :: usage_meter
  urOfficialCost :: "int option"
  urEstimatedCost :: "int option"

record financial_projection =
  fpProjectionId :: string
  fpCurrency :: string
  fpCatalogVersion :: string
  fpWatermark :: string
  fpIdempotencyKey :: string
  fpOccurredAt :: instant
  fpCashCollected :: int
  fpLiability :: int
  fpPaidRevenue :: int
  fpPromotionalConsumption :: int
  fpRefunds :: int
  fpChargebacks :: int
  fpProviderCogs :: int
  fpInfrastructureCogs :: int
  fpGrossMargin :: int

text \<open>Admission decisions and the leases they open are kept beside the credits, see \<open>Admission\<close>.\<close>

datatype admission_outcome = Allow | Warn | DenyAdmission

datatype in_flight_policy = Continue | Interrupt

record quota_decision =
  qdDecisionId :: string
  qdOperation :: operation
  qdOutcome :: admission_outcome
  qdReason :: string
  qdPolicyVersion :: int
  qdWatermark :: string
  qdInFlightPolicy :: in_flight_policy
  qdEvaluatedAt :: instant

record admission_lease =
  alRequestKey :: string
  alDecisionId :: string
  alOperation :: operation
  alSessionId :: "string option"
  alResourceId :: "string option"
  alReservedCount :: int
  alReservedBytes :: int
  alCreatedAt :: instant
  alReleasedAt :: "instant option"

record credit_tables =
  tCatalogs :: "retail_catalog list"
  tLots :: "credit_lot list"
  tReservations :: "credit_reservation list"
  tAllocations :: "credit_allocation list"
  tSettlements :: "credit_settlement list"
  tLedger :: "ledger_entry list"
  tUsage :: "usage_row list"
  tCheckpoints :: "financial_projection list"
  tDecisions :: "quota_decision list"
  tLeases :: "admission_lease list"

record credit_db =
  dbTables :: "billing_scope \<Rightarrow> credit_tables"
  dbSequence :: nat

text \<open>A statement or transaction body works on the tables of its scope and the shared sequence.\<close>

type_synonym 'a tx = "credit_tables \<times> nat \<Rightarrow> (credit_error, 'a, credit_tables \<times> nat) outcome"

definition tx_bind :: "'a tx \<Rightarrow> ('a \<Rightarrow> 'b tx) \<Rightarrow> 'b tx" where
  "tx_bind m f s = (case m s of (Inl err, s1) \<Rightarrow> (Inl err, s1) | (Inr x, s1) \<Rightarrow> f x s1)"

definition tx_return :: "credit_error + 'a \<Rightarrow> 'a tx" where
  "tx_return r s = (r, s)"

subsection \<open>Scopes, identifiers and rows\<close>

text \<open>\<open>z.string().trim().min(1).max(255)\<close> and \<open>billingScopeSchema.parse\<close>.\<close>

definition billing_id :: "string \<Rightarrow> bool" where
  "billing_id x \<longleftrightarrow> js_trim x \<noteq> [] \<and> length (js_trim x) \<le> 255"

definition nullable_id :: "string option \<Rightarrow> bool" where
  "nullable_id x \<longleftrightarrow> (case x of None \<Rightarrow> True | Some y \<Rightarrow> billing_id y)"

definition billingScopeSchema_parse :: "billing_scope \<Rightarrow> billing_scope option" where
  "billingScopeSchema_parse sc =
    (if billing_id (bsTenantId sc) \<and> billing_id (bsOrganizationId sc) \<and> billing_id (bsWorkspaceId sc)
     then Some \<lparr>bsTenantId = js_trim (bsTenantId sc), bsOrganizationId = js_trim (bsOrganizationId sc),
                bsWorkspaceId = js_trim (bsWorkspaceId sc)\<rparr>
     else None)"

text \<open>\<open>/^[A-Z]{3}$/\<close>.\<close>

definition currency_code :: "string \<Rightarrow> bool" where
  "currency_code x \<longleftrightarrow> length x = 3 \<and> list_all (\<lambda>c. 65 \<le> (of_char c :: nat) \<and> of_char c \<le> (90 :: nat)) x"

definition deterministicId :: "pg_env \<Rightarrow> string \<Rightarrow> string list \<Rightarrow> string" where
  "deterministicId E pre parts = pre @ ''_'' @ take 32 (pgSha256 E (stringify (JArr (map JStr parts))))"

text \<open>The first row of a query without a total order: PostgreSQL may answer any of them.\<close>

definition first_row :: "pg_env \<Rightarrow> 'a list \<Rightarrow> 'a option" where
  "first_row E xs = (if xs = [] then None else Some (xs ! (pgPick E (length xs) mod length xs)))"

definition maximal :: "('a \<Rightarrow> 'a \<Rightarrow> bool) \<Rightarrow> 'a list \<Rightarrow> 'a list" where
  "maximal le xs = filter (\<lambda>x. list_all (\<lambda>y. le y x) xs) xs"

fun sorted_insert :: "('a \<Rightarrow> 'a \<Rightarrow> bool) \<Rightarrow> 'a \<Rightarrow> 'a list \<Rightarrow> 'a list" where
  "sorted_insert le x [] = [x]"
| "sorted_insert le x (y # ys) = (if le x y then x # y # ys else y # sorted_insert le x ys)"

definition order_by :: "('a \<Rightarrow> 'a \<Rightarrow> bool) \<Rightarrow> 'a list \<Rightarrow> 'a list" where
  "order_by le xs = foldr (sorted_insert le) xs []"

text \<open>Every table has \<open>CHECK (tenant_id=organization_id)\<close> and refers to the workspace row.\<close>

definition row_scope :: "pg_env \<Rightarrow> billing_scope \<Rightarrow> bool" where
  "row_scope E sc \<longleftrightarrow> bsTenantId sc = bsOrganizationId sc \<and> pgWorkspace E sc"

text \<open>\<open>withScope\<close>: the body runs between \<open>BEGIN\<close> and \<open>COMMIT\<close>, and an error rolls the tables back.\<close>

definition withScope :: "billing_scope \<Rightarrow> (billing_scope \<Rightarrow> 'a tx) \<Rightarrow> credit_db \<Rightarrow> (credit_error, 'a, credit_db) outcome" where
  "withScope scopeInput body d =
    (case billingScopeSchema_parse scopeInput of
       None \<Rightarrow> (Inl SchemaInvalid, d)
     | Some sc \<Rightarrow>
       (case body sc (dbTables d sc, dbSequence d) of
          (Inr x, (T, n)) \<Rightarrow> (Inr x, \<lparr>dbTables = (dbTables d)(sc := T), dbSequence = n\<rparr>)
        | (Inl err, (T, n)) \<Rightarrow> (Inl err, d\<lparr>dbSequence := n\<rparr>)))"

subsection \<open>Amounts of the ledger\<close>

text \<open>The \<open>CASE\<close> expressions of the balance queries.\<close>

definition available_delta :: "ledger_entry \<Rightarrow> int" where
  "available_delta e =
    (if leType e \<in> {Purchase, PromotionalGrant, ReservationRelease, AdminAdjustment} then leCredits e
     else if leType e \<in> {Reservation, Refund, Chargeback, Expiration} then - leCredits e else 0)"

definition reserved_delta :: "ledger_entry \<Rightarrow> int" where
  "reserved_delta e =
    (if leType e = Reservation then leCredits e
     else if leType e \<in> {ReservationRelease, UsageSettlement} then - leCredits e else 0)"

definition consumed_delta :: "ledger_entry \<Rightarrow> int" where
  "consumed_delta e = (if leType e = UsageSettlement then leCredits e else 0)"

definition sum_of :: "('a \<Rightarrow> int) \<Rightarrow> 'a list \<Rightarrow> int" where
  "sum_of f xs = sum_list (map f xs)"

definition available :: "credit_tables \<Rightarrow> int" where
  "available T = sum_of available_delta (tLedger T)"

definition lot_available :: "credit_tables \<Rightarrow> string \<Rightarrow> int" where
  "lot_available T lid = sum_of available_delta (filter (\<lambda>e. leLotId e = lid) (tLedger T))"

subsection \<open>Inserting rows\<close>

definition insert_catalog :: "pg_env \<Rightarrow> billing_scope \<Rightarrow> retail_catalog \<Rightarrow> unit tx" where
  "insert_catalog E sc c s =
    (case s of (T, n) \<Rightarrow>
       if \<not> currency_code (rcCurrency c) then (Inl SqlViolation, s)
       else if list_ex (\<lambda>x. rcCatalogId x = rcCatalogId c \<and> rcCatalogVersion x = rcCatalogVersion c) (tCatalogs T)
         then (Inr (), s)
       else if \<not> row_scope E sc \<or> list_ex (\<lambda>x. rcIdempotencyKey x = rcIdempotencyKey c) (tCatalogs T)
         then (Inl SqlViolation, s)
       else (Inr (), (T\<lparr>tCatalogs := tCatalogs T @ [c]\<rparr>, n)))"

text \<open>The unique constraints of \<open>credit_lots\<close>: primary key, idempotency key, and the partial index on the
  payment reference of paid lots.\<close>

definition same_payment :: "credit_lot \<Rightarrow> credit_lot \<Rightarrow> bool" where
  "same_payment l x \<longleftrightarrow> clPaymentReference l \<noteq> None \<and> clKind l = Paid \<and> clKind x = Paid
     \<and> clPaymentReference x = clPaymentReference l"

definition lot_conflict :: "credit_lot \<Rightarrow> credit_lot \<Rightarrow> bool" where
  "lot_conflict l x \<longleftrightarrow> clLotId x = clLotId l \<or> clIdempotencyKey x = clIdempotencyKey l \<or> same_payment l x"

definition lot_checks :: "pg_env \<Rightarrow> billing_scope \<Rightarrow> credit_lot \<Rightarrow> bool" where
  "lot_checks E sc l \<longleftrightarrow> row_scope E sc \<and> currency_code (clCurrency l) \<and> 0 \<le> clOriginalCredits l \<and> 0 \<le> clOriginalCash l"

text \<open>\<open>ON CONFLICT (payment_reference) ... DO UPDATE SET ... GREATEST ...\<close> of \<open>createCreditLot\<close>.\<close>

definition merge_lot :: "credit_lot \<Rightarrow> credit_lot \<Rightarrow> credit_lot" where
  "merge_lot l x =
    x\<lparr>clOriginalCredits := max (clOriginalCredits x) (clOriginalCredits l),
      clOriginalCash := max (clOriginalCash x) (clOriginalCash l),
      clExpiresAt := nullish (clExpiresAt l) (clExpiresAt x)\<rparr>"

definition upsert_lot :: "pg_env \<Rightarrow> billing_scope \<Rightarrow> credit_lot \<Rightarrow> unit tx" where
  "upsert_lot E sc l s =
    (case s of (T, n) \<Rightarrow>
       if \<not> lot_checks E sc l then (Inl SqlViolation, s)
       else if list_ex (same_payment l) (tLots T) then
         (Inr (), (T\<lparr>tLots := map (\<lambda>x. if same_payment l x then merge_lot l x else x) (tLots T)\<rparr>, n))
       else if list_ex (lot_conflict l) (tLots T) then (Inl SqlViolation, s)
       else (Inr (), (T\<lparr>tLots := tLots T @ [l]\<rparr>, n)))"

text \<open>\<open>ON CONFLICT DO NOTHING\<close> of \<open>appendCreditLifecycle\<close>.\<close>

definition insert_lot_quietly :: "pg_env \<Rightarrow> billing_scope \<Rightarrow> credit_lot \<Rightarrow> unit tx" where
  "insert_lot_quietly E sc l s =
    (case s of (T, n) \<Rightarrow>
       if \<not> lot_checks E sc l then (Inl SqlViolation, s)
       else if list_ex (lot_conflict l) (tLots T) then (Inr (), s)
       else (Inr (), (T\<lparr>tLots := tLots T @ [l]\<rparr>, n)))"

definition ledger_checks :: "pg_env \<Rightarrow> billing_scope \<Rightarrow> ledger_entry \<Rightarrow> bool" where
  "ledger_checks E sc e \<longleftrightarrow> row_scope E sc \<and> currency_code (leCurrency e) \<and> leCredits e \<noteq> 0 \<and> 0 \<le> leCash e"

definition ledger_references :: "credit_tables \<Rightarrow> ledger_entry \<Rightarrow> bool" where
  "ledger_references T e \<longleftrightarrow> list_ex (\<lambda>l. clLotId l = leLotId e) (tLots T)
     \<and> (leReservationId e = None \<or> list_ex (\<lambda>r. Some (crReservationId r) = leReservationId e) (tReservations T))
     \<and> (leSettlementId e = None \<or> list_ex (\<lambda>c. Some (csSettlementId c) = leSettlementId e) (tSettlements T))"

text \<open>The two forms of \<open>INSERT INTO credit_ledger_entries\<close>: with \<open>quiet\<close> a taken idempotency key is passed
  over (\<open>ON CONFLICT (idempotency_key) DO NOTHING\<close>), without it every conflict is an error.  The sequence
  number is drawn before any check.\<close>

definition insert_entry :: "pg_env \<Rightarrow> billing_scope \<Rightarrow> bool \<Rightarrow> ledger_entry \<Rightarrow> unit tx" where
  "insert_entry E sc quiet e0 s =
    (case s of (T, n) \<Rightarrow>
       (let e = e0\<lparr>leSequence := n\<rparr>
        in if \<not> ledger_checks E sc e then (Inl SqlViolation, (T, Suc n))
           else if quiet \<and> list_ex (\<lambda>x. leIdempotencyKey x = leIdempotencyKey e) (tLedger T) then (Inr (), (T, Suc n))
           else if list_ex (\<lambda>x. leEntryId x = leEntryId e \<or> leIdempotencyKey x = leIdempotencyKey e) (tLedger T)
                \<or> \<not> ledger_references T e then (Inl SqlViolation, (T, Suc n))
           else (Inr (), (T\<lparr>tLedger := tLedger T @ [e]\<rparr>, Suc n))))"

definition insert_reservation :: "pg_env \<Rightarrow> billing_scope \<Rightarrow> credit_reservation \<Rightarrow> unit tx" where
  "insert_reservation E sc r s =
    (case s of (T, n) \<Rightarrow>
       if \<not> row_scope E sc \<or> \<not> currency_code (crCurrency r) \<or> crMaximum r \<le> 0
          \<or> list_ex (\<lambda>x. crReservationId x = crReservationId r \<or> crIdempotencyKey x = crIdempotencyKey r) (tReservations T)
       then (Inl SqlViolation, s)
       else (Inr (), (T\<lparr>tReservations := tReservations T @ [r]\<rparr>, n)))"

definition insert_allocation :: "pg_env \<Rightarrow> billing_scope \<Rightarrow> credit_allocation \<Rightarrow> unit tx" where
  "insert_allocation E sc a s =
    (case s of (T, n) \<Rightarrow>
       if \<not> row_scope E sc \<or> caReserved a \<le> 0 \<or> caOrder a = 0
          \<or> list_ex (\<lambda>x. caReservationId x = caReservationId a \<and> (caLotId x = caLotId a \<or> caOrder x = caOrder a)) (tAllocations T)
          \<or> \<not> list_ex (\<lambda>r. crReservationId r = caReservationId a) (tReservations T)
          \<or> \<not> list_ex (\<lambda>l. clLotId l = caLotId a) (tLots T)
       then (Inl SqlViolation, s)
       else (Inr (), (T\<lparr>tAllocations := tAllocations T @ [a]\<rparr>, n)))"

definition insert_settlement :: "pg_env \<Rightarrow> billing_scope \<Rightarrow> credit_settlement \<Rightarrow> unit tx" where
  "insert_settlement E sc c s =
    (case s of (T, n) \<Rightarrow>
       if \<not> row_scope E sc \<or> \<not> currency_code (csCurrency c) \<or> csMeasured c < 0 \<or> csReleased c < 0
          \<or> list_ex (\<lambda>x. csSettlementId x = csSettlementId c \<or> csIdempotencyKey x = csIdempotencyKey c
               \<or> csUsageDedupeKey x = csUsageDedupeKey c) (tSettlements T)
          \<or> \<not> list_ex (\<lambda>r. crReservationId r = csReservationId c) (tReservations T)
       then (Inl SqlViolation, s)
       else (Inr (), (T\<lparr>tSettlements := tSettlements T @ [c]\<rparr>, n)))"

subsection \<open>The answers\<close>

record reservation_view = credit_reservation +
  rvScope :: billing_scope
  rvUnresolved :: int

definition trimmed_reservation :: "credit_reservation \<Rightarrow> credit_reservation" where
  "trimmed_reservation r =
    r\<lparr>crReservationId := js_trim (crReservationId r), crIdempotencyKey := js_trim (crIdempotencyKey r),
      crCatalogVersion := js_trim (crCatalogVersion r), crPaymentReference := map_option js_trim (crPaymentReference r),
      crUsageDedupeKey := map_option js_trim (crUsageDedupeKey r), crRunId := map_option js_trim (crRunId r),
      crOperationReference := map_option js_trim (crOperationReference r)\<rparr>"

definition parseReservation :: "billing_scope \<Rightarrow> credit_reservation \<Rightarrow> credit_error + reservation_view" where
  "parseReservation sc r =
    (let unresolved = crMaximum r - crSettled r - crReleased r
     in if billing_id (crReservationId r) \<and> currency_code (crCurrency r) \<and> billing_id (crIdempotencyKey r)
           \<and> billing_id (crCatalogVersion r) \<and> 0 < crMaximum r \<and> 0 \<le> crSettled r \<and> 0 \<le> crReleased r \<and> 0 \<le> unresolved
           \<and> 0 < crVersion r \<and> nullable_id (crPaymentReference r) \<and> nullable_id (crUsageDedupeKey r)
           \<and> nullable_id (crRunId r) \<and> nullable_id (crOperationReference r)
           \<and> iso_datetime (crOccurredAt r) \<and> nullable_datetime (crResolvedAt r)
        then Inr (credit_reservation.extend (trimmed_reservation r) \<lparr>rvScope = sc, rvUnresolved = unresolved\<rparr>)
        else Inl SchemaInvalid)"

record settlement_view = credit_settlement +
  svScope :: billing_scope

definition trimmed_settlement :: "credit_settlement \<Rightarrow> credit_settlement" where
  "trimmed_settlement c =
    c\<lparr>csSettlementId := js_trim (csSettlementId c), csReservationId := js_trim (csReservationId c),
      csIdempotencyKey := js_trim (csIdempotencyKey c), csCatalogVersion := js_trim (csCatalogVersion c),
      csUsageDedupeKey := js_trim (csUsageDedupeKey c), csRunId := map_option js_trim (csRunId c),
      csOperationReference := map_option js_trim (csOperationReference c)\<rparr>"

definition parseSettlement :: "billing_scope \<Rightarrow> credit_settlement \<Rightarrow> credit_error + settlement_view" where
  "parseSettlement sc c =
    (if billing_id (csSettlementId c) \<and> billing_id (csReservationId c) \<and> currency_code (csCurrency c)
        \<and> billing_id (csIdempotencyKey c) \<and> billing_id (csCatalogVersion c) \<and> 0 \<le> csMeasured c \<and> 0 \<le> csReleased c
        \<and> billing_id (csUsageDedupeKey c) \<and> nullable_id (csRunId c) \<and> nullable_id (csOperationReference c)
        \<and> iso_datetime (csOccurredAt c)
     then Inr (credit_settlement.extend (trimmed_settlement c) \<lparr>svScope = sc\<rparr>)
     else Inl SchemaInvalid)"

record lot_view = credit_lot +
  lvScope :: billing_scope

definition parseLot :: "billing_scope \<Rightarrow> credit_lot \<Rightarrow> credit_error + lot_view" where
  "parseLot sc l =
    (if billing_id (clLotId l) \<and> currency_code (clCurrency l) \<and> 0 \<le> clOriginalCredits l \<and> 0 \<le> clOriginalCash l
        \<and> billing_id (clIdempotencyKey l) \<and> nullable_id (clPaymentReference l) \<and> nullable_id (clOperationReference l)
        \<and> iso_datetime (clOccurredAt l) \<and> nullable_datetime (clExpiresAt l) \<and> nullable_id (clSourceWebhookEventId l)
     then Inr (credit_lot.extend
            (l\<lparr>clLotId := js_trim (clLotId l), clIdempotencyKey := js_trim (clIdempotencyKey l),
               clPaymentReference := map_option js_trim (clPaymentReference l),
               clOperationReference := map_option js_trim (clOperationReference l),
               clSourceWebhookEventId := map_option js_trim (clSourceWebhookEventId l)\<rparr>) \<lparr>lvScope = sc\<rparr>)
     else Inl SchemaInvalid)"

subsection \<open>Catalogs and lots\<close>

definition catalog_valid :: "retail_catalog \<Rightarrow> bool" where
  "catalog_valid c \<longleftrightarrow> billing_id (rcCatalogId c) \<and> billing_id (rcCatalogVersion c) \<and> currency_code (rcCurrency c)
     \<and> rcRates c \<noteq> [] \<and> list_all (\<lambda>(m, p). 0 \<le> p) (rcRates c)
     \<and> rcOperationMaximums c \<noteq> [] \<and> list_all (\<lambda>(op, m). 0 < m) (rcOperationMaximums c)
     \<and> billing_id (rcIdempotencyKey c) \<and> nullable_id (rcPaymentReference c) \<and> nullable_id (rcUsageDedupeKey c)
     \<and> nullable_id (rcRunId c) \<and> nullable_id (rcOperationReference c) \<and> iso_datetime (rcOccurredAt c)
     \<and> iso_datetime (rcEffectiveAt c) \<and> nullable_datetime (rcRetiredAt c)"

definition trimmed_catalog :: "retail_catalog \<Rightarrow> retail_catalog" where
  "trimmed_catalog c =
    c\<lparr>rcCatalogId := js_trim (rcCatalogId c), rcCatalogVersion := js_trim (rcCatalogVersion c),
      rcIdempotencyKey := js_trim (rcIdempotencyKey c), rcPaymentReference := map_option js_trim (rcPaymentReference c),
      rcUsageDedupeKey := map_option js_trim (rcUsageDedupeKey c), rcRunId := map_option js_trim (rcRunId c),
      rcOperationReference := map_option js_trim (rcOperationReference c)\<rparr>"

definition upsertRetailPriceCatalog :: "pg_env \<Rightarrow> billing_scope \<Rightarrow> retail_catalog \<Rightarrow> credit_db \<Rightarrow>
    (credit_error, retail_catalog, credit_db) outcome" where
  "upsertRetailPriceCatalog E scopeInput input d =
    (if \<not> catalog_valid input then (Inl SchemaInvalid, d)
     else
       (let catalog = trimmed_catalog input
        in withScope scopeInput (\<lambda>sc. tx_bind (insert_catalog E sc catalog) (\<lambda>_. tx_return (Inr catalog))) d))"

text \<open>The catalog in force at an instant: the latest, by effective date and then version.\<close>

definition current_catalog :: "pg_env \<Rightarrow> instant \<Rightarrow> credit_tables \<Rightarrow> retail_catalog option" where
  "current_catalog E t T =
    first_row E (maximal
      (\<lambda>x y. rcEffectiveAt x < rcEffectiveAt y
           \<or> rcEffectiveAt x = rcEffectiveAt y \<and> pgTextLe E (rcCatalogVersion x) (rcCatalogVersion y))
      (filter (\<lambda>c. rcEffectiveAt c \<le> t \<and> (case rcRetiredAt c of None \<Rightarrow> True | Some u \<Rightarrow> t < u)) (tCatalogs T)))"

record lot_input =
  liKind :: lot_kind
  liCurrency :: string
  liCredits :: int
  liCash :: int
  liIdempotencyKey :: string
  liPaymentReference :: "string option"
  liOperationReference :: "string option"
  liSourceWebhookEventId :: "string option"
  liOccurredAt :: instant
  liExpiresAt :: "instant option"

text \<open>\<open>input.paymentReference?.trim() || null\<close>.\<close>

definition payment_reference :: "lot_input \<Rightarrow> string option" where
  "payment_reference i =
    (case liPaymentReference i of None \<Rightarrow> None | Some p \<Rightarrow> if js_trim p = [] then None else Some (js_trim p))"

definition lot_kind_text :: "lot_kind \<Rightarrow> string" where
  "lot_kind_text k = (case k of Paid \<Rightarrow> ''paid'' | Promotional \<Rightarrow> ''promotional'')"

definition lot_of :: "pg_env \<Rightarrow> billing_scope \<Rightarrow> lot_input \<Rightarrow> credit_lot" where
  "lot_of E sc i =
    \<lparr>clLotId = deterministicId E ''clot'' [bsTenantId sc, bsOrganizationId sc, bsWorkspaceId sc, lot_kind_text (liKind i),
       (case payment_reference i of Some p \<Rightarrow> p | None \<Rightarrow> liIdempotencyKey i)],
     clKind = liKind i, clCurrency = liCurrency i, clOriginalCredits = liCredits i, clOriginalCash = liCash i,
     clIdempotencyKey = liIdempotencyKey i, clPaymentReference = payment_reference i,
     clOperationReference = liOperationReference i, clOccurredAt = liOccurredAt i, clExpiresAt = liExpiresAt i,
     clSourceWebhookEventId = liSourceWebhookEventId i\<rparr>"

definition grant_entry :: "pg_env \<Rightarrow> lot_input \<Rightarrow> string \<Rightarrow> ledger_entry" where
  "grant_entry E i lid =
    \<lparr>leSequence = 0,
     leEntryId = deterministicId E ''cle'' [liIdempotencyKey i, (if liKind i = Paid then ''purchase'' else ''promotional_grant'')],
     leLotId = lid, leType = (if liKind i = Paid then Purchase else PromotionalGrant), leCurrency = liCurrency i,
     leCredits = liCredits i, leCash = liCash i, leIdempotencyKey = liIdempotencyKey i,
     lePaymentReference = payment_reference i, leUsageDedupeKey = None, leRunId = None,
     leOperationReference = liOperationReference i, leReservationId = None, leSettlementId = None,
     leSourceWebhookEventId = liSourceWebhookEventId i, leOccurredAt = liOccurredAt i\<rparr>"

definition createCreditLot :: "pg_env \<Rightarrow> billing_scope \<Rightarrow> lot_input \<Rightarrow> credit_db \<Rightarrow> (credit_error, lot_view, credit_db) outcome" where
  "createCreditLot E scopeInput i =
    withScope scopeInput (\<lambda>sc. tx_bind (upsert_lot E sc (lot_of E sc i)) (\<lambda>_ s.
      case first_row E (filter (\<lambda>l. clLotId l = clLotId (lot_of E sc i)
             \<or> payment_reference i \<noteq> None \<and> clPaymentReference l = payment_reference i) (tLots (fst s))) of
        None \<Rightarrow> (Inl SqlViolation, s)
      | Some row \<Rightarrow>
        tx_bind (insert_entry E sc True (grant_entry E i (clLotId row))) (\<lambda>_. tx_return (parseLot sc row)) s))"

record lifecycle_input =
  lfType :: entry_type
  lfCurrency :: string
  lfCredits :: int
  lfCash :: "int option"
  lfIdempotencyKey :: string
  lfLotId :: "string option"
  lfPaymentReference :: "string option"
  lfSourceWebhookEventId :: "string option"
  lfOccurredAt :: instant

definition placeholder_lot :: "pg_env \<Rightarrow> billing_scope \<Rightarrow> lifecycle_input \<Rightarrow> string \<Rightarrow> credit_lot" where
  "placeholder_lot E sc i ref =
    \<lparr>clLotId = deterministicId E ''clot'' [bsTenantId sc, bsOrganizationId sc, bsWorkspaceId sc, ''paid'', ref],
     clKind = Paid, clCurrency = lfCurrency i, clOriginalCredits = 0, clOriginalCash = 0,
     clIdempotencyKey = ''placeholder:'' @ ref, clPaymentReference = Some ref, clOperationReference = None,
     clOccurredAt = lfOccurredAt i, clExpiresAt = None, clSourceWebhookEventId = lfSourceWebhookEventId i\<rparr>"

definition lot_for :: "pg_env \<Rightarrow> lifecycle_input \<Rightarrow> credit_tables \<Rightarrow> credit_lot option" where
  "lot_for E i T =
    (case order_by (\<lambda>x y. clOccurredAt x < clOccurredAt y
             \<or> clOccurredAt x = clOccurredAt y \<and> pgTextLe E (clLotId x) (clLotId y))
           (filter (\<lambda>l. lfLotId i = Some (clLotId l)
              \<or> lfPaymentReference i \<noteq> None \<and> clPaymentReference l = lfPaymentReference i) (tLots T)) of
       [] \<Rightarrow> None | l # ls \<Rightarrow> Some l)"

text \<open>The lot of a refund, chargeback, expiration or adjustment: an existing one, or a placeholder for a payment
  whose purchase has not arrived yet.\<close>

definition find_or_place :: "pg_env \<Rightarrow> billing_scope \<Rightarrow> lifecycle_input \<Rightarrow> credit_lot tx" where
  "find_or_place E sc i s =
    (case lot_for E i (fst s) of
       Some l \<Rightarrow> (Inr l, s)
     | None \<Rightarrow>
       if \<not> truthy (lfPaymentReference i) then (Inl RESERVATION_NOT_FOUND, s)
       else tx_bind (insert_lot_quietly E sc (placeholder_lot E sc i (the (lfPaymentReference i)))) (\<lambda>_ s1.
              case first_row E (filter (\<lambda>l. clPaymentReference l = lfPaymentReference i) (tLots (fst s1))) of
                None \<Rightarrow> (Inl RESERVATION_NOT_FOUND, s1)
              | Some l \<Rightarrow> (Inr l, s1)) s)"

definition lifecycle_text :: "entry_type \<Rightarrow> string" where
  "lifecycle_text ty =
    (case ty of Refund \<Rightarrow> ''refund'' | Chargeback \<Rightarrow> ''chargeback'' | Expiration \<Rightarrow> ''expiration''
     | AdminAdjustment \<Rightarrow> ''admin_adjustment'' | Purchase \<Rightarrow> ''purchase'' | PromotionalGrant \<Rightarrow> ''promotional_grant''
     | Reservation \<Rightarrow> ''reservation'' | ReservationRelease \<Rightarrow> ''reservation_release''
     | UsageSettlement \<Rightarrow> ''usage_settlement'')"

definition lifecycle_entry :: "pg_env \<Rightarrow> lifecycle_input \<Rightarrow> credit_lot \<Rightarrow> ledger_entry" where
  "lifecycle_entry E i l =
    \<lparr>leSequence = 0, leEntryId = deterministicId E ''cle'' [lfIdempotencyKey i, lifecycle_text (lfType i)],
     leLotId = clLotId l, leType = lfType i, leCurrency = lfCurrency i,
     leCredits = (if lfType i = AdminAdjustment then lfCredits i else \<bar>lfCredits i\<bar>),
     leCash = (case lfCash i of Some c \<Rightarrow> c | None \<Rightarrow> 0), leIdempotencyKey = lfIdempotencyKey i,
     lePaymentReference = nullish (lfPaymentReference i) (clPaymentReference l), leUsageDedupeKey = None, leRunId = None,
     leOperationReference = None, leReservationId = None, leSettlementId = None,
     leSourceWebhookEventId = lfSourceWebhookEventId i, leOccurredAt = lfOccurredAt i\<rparr>"

text \<open>The type of \<open>input.entryType\<close> admits these four only.\<close>

definition lifecycle_type :: "entry_type \<Rightarrow> bool" where
  "lifecycle_type ty \<longleftrightarrow> ty \<in> {Refund, Chargeback, Expiration, AdminAdjustment}"

definition appendCreditLifecycle :: "pg_env \<Rightarrow> billing_scope \<Rightarrow> lifecycle_input \<Rightarrow> credit_db \<Rightarrow>
    (credit_error, string, credit_db) outcome" where
  "appendCreditLifecycle E scopeInput i =
    withScope scopeInput (\<lambda>sc. tx_bind (find_or_place E sc i) (\<lambda>l.
      if clCurrency l \<noteq> lfCurrency i then tx_return (Inl CREDIT_CURRENCY_MISMATCH)
      else tx_bind (insert_entry E sc True (lifecycle_entry E i l)) (\<lambda>_. tx_return (Inr (clLotId l)))))"

subsection \<open>Reservations\<close>

record reservation_input =
  riOperation :: operation
  riIdempotencyKey :: string
  riMaximum :: "int option"
  riRunId :: "string option"
  riOperationReference :: "string option"
  riOccurredAt :: instant

definition maximum_for :: "reservation_input \<Rightarrow> retail_catalog \<Rightarrow> int option" where
  "maximum_for i c = nullish (riMaximum i) (map_option snd (find (\<lambda>(op, m). op = riOperation i) (rcOperationMaximums c)))"

text \<open>The lots that still have credits, promotional before paid, then by expiry, age and identifier.\<close>

definition lot_before :: "pg_env \<Rightarrow> credit_lot \<Rightarrow> credit_lot \<Rightarrow> bool" where
  "lot_before E x y =
    (if clKind x \<noteq> clKind y then clKind x = Promotional
     else if clExpiresAt x \<noteq> clExpiresAt y then
       (case (clExpiresAt x, clExpiresAt y) of (Some a, Some b) \<Rightarrow> a < b | (Some a, None) \<Rightarrow> True | (None, u) \<Rightarrow> False)
     else if clOccurredAt x \<noteq> clOccurredAt y then clOccurredAt x < clOccurredAt y
     else pgTextLe E (clLotId x) (clLotId y))"

definition spendable_lots :: "pg_env \<Rightarrow> instant \<Rightarrow> credit_tables \<Rightarrow> credit_lot list" where
  "spendable_lots E t T =
    order_by (lot_before E)
      (filter (\<lambda>l. (case clExpiresAt l of None \<Rightarrow> True | Some u \<Rightarrow> t < u) \<and> 0 < lot_available T (clLotId l)) (tLots T))"

text \<open>The allocation loop: what is taken from which lot, and what remains.\<close>

fun allocate :: "string \<Rightarrow> int \<Rightarrow> (credit_lot \<times> int) list \<Rightarrow> (string \<times> int) list \<times> int" where
  "allocate cur remaining [] = ([], remaining)"
| "allocate cur remaining ((l, avail) # ls) =
    (if clCurrency l \<noteq> cur then allocate cur remaining ls
     else
       (let amount = min remaining avail
        in if amount \<le> 0 then allocate cur remaining ls
           else if remaining - amount = 0 then ([(clLotId l, amount)], 0)
           else (case allocate cur (remaining - amount) ls of
                   (as, rest) \<Rightarrow> ((clLotId l, amount) # as, rest))))"

definition new_reservation :: "pg_env \<Rightarrow> billing_scope \<Rightarrow> reservation_input \<Rightarrow> retail_catalog \<Rightarrow> int \<Rightarrow> credit_reservation" where
  "new_reservation E sc i c mx =
    \<lparr>crReservationId = deterministicId E ''cres'' [bsTenantId sc, bsWorkspaceId sc, riIdempotencyKey i],
     crCurrency = rcCurrency c, crIdempotencyKey = riIdempotencyKey i, crOperation = riOperation i,
     crCatalogVersion = rcCatalogVersion c, crMaximum = mx, crSettled = 0, crReleased = 0, crState = Reserved,
     crVersion = 1, crPaymentReference = None, crUsageDedupeKey = None, crRunId = riRunId i,
     crOperationReference = riOperationReference i, crOccurredAt = riOccurredAt i, crResolvedAt = None\<rparr>"

definition reservation_entry :: "pg_env \<Rightarrow> reservation_input \<Rightarrow> credit_reservation \<Rightarrow> string \<Rightarrow> int \<Rightarrow> ledger_entry" where
  "reservation_entry E i r lid amount =
    \<lparr>leSequence = 0, leEntryId = deterministicId E ''cle'' [riIdempotencyKey i, lid], leLotId = lid, leType = Reservation,
     leCurrency = crCurrency r, leCredits = amount, leCash = 0, leIdempotencyKey = riIdempotencyKey i @ '':lot:'' @ lid,
     lePaymentReference = None, leUsageDedupeKey = None, leRunId = riRunId i,
     leOperationReference = riOperationReference i, leReservationId = Some (crReservationId r), leSettlementId = None,
     leSourceWebhookEventId = None, leOccurredAt = riOccurredAt i\<rparr>"

fun insert_allocations :: "pg_env \<Rightarrow> billing_scope \<Rightarrow> reservation_input \<Rightarrow> credit_reservation \<Rightarrow> nat \<Rightarrow>
    (string \<times> int) list \<Rightarrow> unit tx" where
  "insert_allocations E sc i r k [] s = (Inr (), s)"
| "insert_allocations E sc i r k ((lid, amount) # as) s =
    tx_bind (insert_allocation E sc \<lparr>caReservationId = crReservationId r, caLotId = lid, caOrder = Suc k,
        caReserved = amount, caSettled = 0, caReleased = 0\<rparr>) (\<lambda>_.
    tx_bind (insert_entry E sc False (reservation_entry E i r lid amount)) (\<lambda>_.
    insert_allocations E sc i r (Suc k) as)) s"

definition reserve_tx :: "pg_env \<Rightarrow> reservation_input \<Rightarrow> billing_scope \<Rightarrow> reservation_view tx" where
  "reserve_tx E i sc s =
    (case find (\<lambda>r. crIdempotencyKey r = riIdempotencyKey i) (tReservations (fst s)) of
       Some r \<Rightarrow> (parseReservation sc r, s)
     | None \<Rightarrow>
       (case current_catalog E (riOccurredAt i) (fst s) of
          None \<Rightarrow> (Inl RETAIL_PRICE_CATALOG_MISSING, s)
        | Some c \<Rightarrow>
          (case maximum_for i c of
             None \<Rightarrow> (Inl RETAIL_PRICE_CATALOG_MISSING, s)
           | Some mx \<Rightarrow>
             if mx \<le> 0 then (Inl RETAIL_PRICE_CATALOG_MISSING, s)
             else if available (fst s) < mx then
               (Inl (if available (fst s) < 0 then NEGATIVE_BALANCE_FORBIDDEN else CREDIT_INSUFFICIENT), s)
             else
               (case allocate (rcCurrency c) mx
                       (map (\<lambda>l. (l, lot_available (fst s) (clLotId l))) (spendable_lots E (riOccurredAt i) (fst s))) of
                  (as, rest) \<Rightarrow>
                  if 0 < rest then (Inl CREDIT_INSUFFICIENT, s)
                  else
                    (let r = new_reservation E sc i c mx
                     in tx_bind (insert_reservation E sc r) (\<lambda>_.
                        tx_bind (insert_allocations E sc i r 0 as) (\<lambda>_ s1.
                          case find (\<lambda>x. crReservationId x = crReservationId r) (tReservations (fst s1)) of
                            None \<Rightarrow> (Inl SqlViolation, s1)
                          | Some row \<Rightarrow> (parseReservation sc row, s1))) s)))))"

definition reserveCredits :: "pg_env \<Rightarrow> billing_scope \<Rightarrow> reservation_input \<Rightarrow> credit_db \<Rightarrow>
    (credit_error, reservation_view, credit_db) outcome" where
  "reserveCredits E scopeInput i = withScope scopeInput (reserve_tx E i)"

subsection \<open>Settlements\<close>

record settlement_input =
  siIdempotencyKey :: string
  siUsageDedupeKey :: string
  siMeasured :: int
  siUsageStatus :: usage_status
  siOutcome :: settlement_outcome
  siTerminal :: bool
  siRunId :: "string option"
  siOccurredAt :: instant

definition unresolved_of :: "credit_reservation \<Rightarrow> int" where
  "unresolved_of r = crMaximum r - crSettled r - crReleased r"

definition remaining_of :: "credit_allocation \<Rightarrow> int" where
  "remaining_of a = caReserved a - caSettled a - caReleased a"

definition new_settlement :: "pg_env \<Rightarrow> billing_scope \<Rightarrow> settlement_input \<Rightarrow> credit_reservation \<Rightarrow> int \<Rightarrow> credit_settlement" where
  "new_settlement E sc i r release =
    \<lparr>csSettlementId = deterministicId E ''cset'' [bsTenantId sc, bsWorkspaceId sc, siUsageDedupeKey i],
     csReservationId = crReservationId r, csCurrency = crCurrency r, csIdempotencyKey = siIdempotencyKey i,
     csCatalogVersion = crCatalogVersion r, csMeasured = siMeasured i, csReleased = release,
     csUsageStatus = siUsageStatus i, csOutcome = siOutcome i, csTerminal = siTerminal i,
     csUsageDedupeKey = siUsageDedupeKey i, csRunId = nullish (siRunId i) (crRunId r),
     csOperationReference = crOperationReference r, csOccurredAt = siOccurredAt i\<rparr>"

definition settlement_entry :: "pg_env \<Rightarrow> settlement_input \<Rightarrow> credit_reservation \<Rightarrow> credit_settlement \<Rightarrow> bool \<Rightarrow> string \<Rightarrow> int \<Rightarrow> ledger_entry" where
  "settlement_entry E i r c release lid amount =
    \<lparr>leSequence = 0,
     leEntryId = deterministicId E ''cle'' [siIdempotencyKey i, lid, if release then ''release'' else ''settle''],
     leLotId = lid, leType = (if release then ReservationRelease else UsageSettlement), leCurrency = crCurrency r,
     leCredits = amount, leCash = 0,
     leIdempotencyKey = siIdempotencyKey i @ (if release then '':release:'' else '':settle:'') @ lid,
     lePaymentReference = None, leUsageDedupeKey = Some (siUsageDedupeKey i), leRunId = nullish (siRunId i) (crRunId r),
     leOperationReference = crOperationReference r, leReservationId = Some (crReservationId r),
     leSettlementId = Some (csSettlementId c), leSourceWebhookEventId = None, leOccurredAt = siOccurredAt i\<rparr>"

text \<open>\<open>UPDATE credit_reservation_allocations ... WHERE reservation_id=$1 AND lot_id=$2\<close> with its \<open>CHECK\<close>s.\<close>

definition allocation_checks :: "credit_allocation \<Rightarrow> bool" where
  "allocation_checks a \<longleftrightarrow> 0 \<le> caSettled a \<and> 0 \<le> caReleased a \<and> caSettled a + caReleased a \<le> caReserved a"

definition same_allocation :: "credit_allocation \<Rightarrow> credit_allocation \<Rightarrow> bool" where
  "same_allocation a x \<longleftrightarrow> caReservationId x = caReservationId a \<and> caLotId x = caLotId a"

definition update_allocation :: "credit_allocation \<Rightarrow> int \<Rightarrow> int \<Rightarrow> unit tx" where
  "update_allocation a measured released s =
    (case s of (T, n) \<Rightarrow>
       (let rows = map (\<lambda>x. if same_allocation a x
              then x\<lparr>caSettled := caSettled x + measured, caReleased := caReleased x + released\<rparr> else x) (tAllocations T)
        in if list_all allocation_checks (filter (same_allocation a) rows) then (Inr (), (T\<lparr>tAllocations := rows\<rparr>, n))
           else (Inl SqlViolation, s)))"

definition when_positive :: "int \<Rightarrow> unit tx \<Rightarrow> unit tx" where
  "when_positive amount m = (if 0 < amount then m else tx_return (Inr ()))"

text \<open>The loop over the allocations: measured credits first, then what is released.\<close>

fun settle_allocations :: "pg_env \<Rightarrow> billing_scope \<Rightarrow> settlement_input \<Rightarrow> credit_reservation \<Rightarrow> credit_settlement \<Rightarrow>
    int \<Rightarrow> int \<Rightarrow> credit_allocation list \<Rightarrow> unit tx" where
  "settle_allocations E sc i r c measuredRemaining releaseRemaining [] s = (Inr (), s)"
| "settle_allocations E sc i r c measuredRemaining releaseRemaining (a # as) s =
    (let measured = min measuredRemaining (remaining_of a);
         released = min releaseRemaining (remaining_of a - measured)
     in tx_bind (when_positive measured (insert_entry E sc False (settlement_entry E i r c False (caLotId a) measured))) (\<lambda>_.
        tx_bind (when_positive released (insert_entry E sc False (settlement_entry E i r c True (caLotId a) released))) (\<lambda>_.
        tx_bind (if 0 < measured \<or> 0 < released then update_allocation a measured released else tx_return (Inr ())) (\<lambda>_.
        settle_allocations E sc i r c (measuredRemaining - measured) (releaseRemaining - released) as))) s)"

definition next_state :: "int \<Rightarrow> int \<Rightarrow> reservation_state" where
  "next_state nextUnresolved nextSettled =
    (if 0 < nextUnresolved then if 0 < nextSettled then PartiallySettled else Reserved
     else if 0 < nextSettled then Settled else Released)"

definition resolved_reservation :: "settlement_input \<Rightarrow> int \<Rightarrow> credit_reservation \<Rightarrow> credit_reservation" where
  "resolved_reservation i release r =
    (let nextSettled = crSettled r + siMeasured i;
         nextReleased = crReleased r + release;
         nextUnresolved = crMaximum r - nextSettled - nextReleased
     in r\<lparr>crSettled := nextSettled, crReleased := nextReleased, crState := next_state nextUnresolved nextSettled,
          crVersion := Suc (crVersion r), crUsageDedupeKey := nullish (crUsageDedupeKey r) (Some (siUsageDedupeKey i)),
          crRunId := nullish (crRunId r) (siRunId i),
          crResolvedAt := (if nextUnresolved = 0 then Some (siOccurredAt i) else None)\<rparr>)"

definition reservation_checks :: "credit_reservation \<Rightarrow> bool" where
  "reservation_checks r \<longleftrightarrow> 0 \<le> crSettled r \<and> 0 \<le> crReleased r \<and> crSettled r + crReleased r \<le> crMaximum r"

text \<open>\<open>UPDATE credit_reservations ... WHERE reservation_id=$1 AND version=$9\<close>; no row is an error of the code.\<close>

definition update_reservation :: "settlement_input \<Rightarrow> int \<Rightarrow> credit_reservation \<Rightarrow> unit tx" where
  "update_reservation i release r s =
    (case s of (T, n) \<Rightarrow>
       (let hit = (\<lambda>x. crReservationId x = crReservationId r \<and> crVersion x = crVersion r)
        in if \<not> reservation_checks (resolved_reservation i release r) then (Inl SqlViolation, s)
           else if \<not> list_ex hit (tReservations T) then (Inl SETTLEMENT_EXCEEDS_RESERVATION, s)
           else (Inr (), (T\<lparr>tReservations :=
                  map (\<lambda>x. if hit x then resolved_reservation i release r else x) (tReservations T)\<rparr>, n))))"

definition settle_tx :: "pg_env \<Rightarrow> string \<Rightarrow> settlement_input \<Rightarrow> billing_scope \<Rightarrow> settlement_view tx" where
  "settle_tx E rid i sc s =
    (case first_row E (filter (\<lambda>c. csIdempotencyKey c = siIdempotencyKey i \<or> csUsageDedupeKey c = siUsageDedupeKey i)
             (tSettlements (fst s))) of
       Some c \<Rightarrow> (parseSettlement sc c, s)
     | None \<Rightarrow>
       (case find (\<lambda>r. crReservationId r = rid) (tReservations (fst s)) of
          None \<Rightarrow> (Inl RESERVATION_NOT_FOUND, s)
        | Some r \<Rightarrow>
          if unresolved_of r < siMeasured i then (Inl SETTLEMENT_EXCEEDS_RESERVATION, s)
          else
            (let release = (if siTerminal i then unresolved_of r - siMeasured i else 0);
                 c = new_settlement E sc i r release
             in tx_bind (insert_settlement E sc c) (\<lambda>_.
                tx_bind (\<lambda>s1. settle_allocations E sc i r c (siMeasured i) release
                  (order_by (\<lambda>x y. caOrder x \<le> caOrder y)
                    (filter (\<lambda>a. caReservationId a = rid) (tAllocations (fst s1)))) s1) (\<lambda>_.
                tx_bind (update_reservation i release r) (\<lambda>_ s2.
                  case find (\<lambda>x. csSettlementId x = csSettlementId c) (tSettlements (fst s2)) of
                    None \<Rightarrow> (Inl SqlViolation, s2)
                  | Some row \<Rightarrow> (parseSettlement sc row, s2)))) s)))"

definition settleCredits :: "pg_env \<Rightarrow> billing_scope \<Rightarrow> string \<Rightarrow> settlement_input \<Rightarrow> credit_db \<Rightarrow>
    (credit_error, settlement_view, credit_db) outcome" where
  "settleCredits E scopeInput rid i = withScope scopeInput (settle_tx E rid i)"

text \<open>The reservation of a run or operation: the latest one.\<close>

definition reservation_of :: "pg_env \<Rightarrow> string \<Rightarrow> credit_tables \<Rightarrow> credit_reservation option" where
  "reservation_of E resource T =
    first_row E (maximal (\<lambda>x y. crOccurredAt x \<le> crOccurredAt y)
      (filter (\<lambda>r. crRunId r = Some resource \<or> crOperationReference r = Some resource) (tReservations T)))"

definition settleOperation :: "pg_env \<Rightarrow> billing_scope \<Rightarrow> string \<Rightarrow> settlement_input \<Rightarrow> credit_db \<Rightarrow>
    (credit_error, settlement_view, credit_db) outcome" where
  "settleOperation E scopeInput resource i d =
    (case withScope scopeInput (\<lambda>sc s. (Inr (map_option crReservationId (reservation_of E resource (fst s))), s)) d of
       (Inl err, d1) \<Rightarrow> (Inl err, d1)
     | (Inr rid, d1) \<Rightarrow> if \<not> truthy rid then (Inl RESERVATION_NOT_FOUND, d1) else settleCredits E scopeInput (the rid) i d1)"

definition creditReservationForOperation :: "pg_env \<Rightarrow> billing_scope \<Rightarrow> string \<Rightarrow> credit_db \<Rightarrow>
    (credit_error, reservation_view option, credit_db) outcome" where
  "creditReservationForOperation E scopeInput resource =
    withScope scopeInput (\<lambda>sc s.
      case reservation_of E resource (fst s) of
        None \<Rightarrow> (Inr None, s)
      | Some r \<Rightarrow> (map_sum id Some (parseReservation sc r), s))"

subsection \<open>Balances, prices and the financial projection\<close>

record credit_balance =
  cbCurrency :: string
  cbAvailable :: int
  cbReserved :: int
  cbConsumed :: int
  cbPaidAvailable :: int
  cbPromotionalAvailable :: int
  cbPaidReserved :: int
  cbPromotionalReserved :: int
  cbLedgerWatermark :: string
  cbFreshnessAt :: instant

text \<open>\<open>credit_ledger_entries JOIN credit_lots USING (..., lot_id)\<close>; a lot identifier names one lot at most.\<close>

definition lot_kind_of :: "credit_tables \<Rightarrow> string \<Rightarrow> lot_kind option" where
  "lot_kind_of T lid = map_option clKind (find (\<lambda>l. clLotId l = lid) (tLots T))"

definition joined :: "credit_tables \<Rightarrow> ledger_entry list" where
  "joined T = filter (\<lambda>e. lot_kind_of T (leLotId e) \<noteq> None) (tLedger T)"

definition of_kind :: "credit_tables \<Rightarrow> lot_kind \<Rightarrow> ledger_entry list" where
  "of_kind T k = filter (\<lambda>e. lot_kind_of T (leLotId e) = Some k) (tLedger T)"

text \<open>The available part of a kind counts only the grants of that kind.\<close>

definition kind_available_delta :: "lot_kind \<Rightarrow> ledger_entry \<Rightarrow> int" where
  "kind_available_delta k e =
    (if leType e = (if k = Paid then PromotionalGrant else Purchase) then 0 else available_delta e)"

definition watermark :: "ledger_entry list \<Rightarrow> string" where
  "watermark es = ''clw_'' @ show_nat (fold max (map leSequence es) 0)"

fun text_max :: "pg_env \<Rightarrow> string list \<Rightarrow> string option" where
  "text_max E [] = None"
| "text_max E (x # xs) =
    (case text_max E xs of None \<Rightarrow> Some x | Some y \<Rightarrow> if pgTextLe E x y then Some y else Some x)"

definition balance_of :: "pg_env \<Rightarrow> instant \<Rightarrow> credit_tables \<Rightarrow> credit_balance" where
  "balance_of E now T =
    \<lparr>cbCurrency = (case text_max E (map leCurrency (joined T)) of Some c \<Rightarrow> c | None \<Rightarrow> ''USD''),
     cbAvailable = sum_of available_delta (joined T),
     cbReserved = max 0 (sum_of reserved_delta (joined T)),
     cbConsumed = sum_of consumed_delta (joined T),
     cbPaidAvailable = sum_of (kind_available_delta Paid) (of_kind T Paid),
     cbPromotionalAvailable = sum_of (kind_available_delta Promotional) (of_kind T Promotional),
     cbPaidReserved = max 0 (sum_of reserved_delta (of_kind T Paid)),
     cbPromotionalReserved = max 0 (sum_of reserved_delta (of_kind T Promotional)),
     cbLedgerWatermark = watermark (joined T),
     cbFreshnessAt = now\<rparr>"

definition creditBalanceSchema_parse :: "credit_balance \<Rightarrow> credit_error + credit_balance" where
  "creditBalanceSchema_parse b =
    (if currency_code (cbCurrency b) \<and> 0 \<le> cbReserved b \<and> 0 \<le> cbConsumed b \<and> 0 \<le> cbPaidReserved b
        \<and> 0 \<le> cbPromotionalReserved b \<and> billing_id (cbLedgerWatermark b) \<and> iso_datetime (cbFreshnessAt b)
     then Inr (b\<lparr>cbLedgerWatermark := js_trim (cbLedgerWatermark b)\<rparr>) else Inl SchemaInvalid)"

definition creditBalance :: "pg_env \<Rightarrow> billing_scope \<Rightarrow> instant \<Rightarrow> credit_db \<Rightarrow> (credit_error, credit_balance, credit_db) outcome" where
  "creditBalance E scopeInput now =
    withScope scopeInput (\<lambda>sc s. (creditBalanceSchema_parse (balance_of E now (fst s)), s))"

definition retailCreditsForUsage :: "pg_env \<Rightarrow> billing_scope \<Rightarrow> (usage_meter \<Rightarrow> int option) \<Rightarrow> instant \<Rightarrow> credit_db \<Rightarrow>
    (credit_error, string \<times> string \<times> int, credit_db) outcome" where
  "retailCreditsForUsage E scopeInput quantities now =
    withScope scopeInput (\<lambda>sc s.
      case current_catalog E now (fst s) of
        None \<Rightarrow> (Inl RETAIL_PRICE_CATALOG_MISSING, s)
      | Some c \<Rightarrow>
        (Inr (rcCatalogVersion c, rcCurrency c,
              foldl (\<lambda>total (m, p). total + max 0 (case quantities m of Some q \<Rightarrow> q | None \<Rightarrow> 0) * p) 0 (rcRates c)), s))"

definition cash_delta :: "ledger_entry \<Rightarrow> int" where
  "cash_delta e =
    (if leType e = Purchase then leCash e else if leType e \<in> {Refund, Chargeback} then - leCash e else 0)"

definition liability_delta :: "ledger_entry \<Rightarrow> int" where
  "liability_delta e =
    (if leType e \<in> {Purchase, AdminAdjustment} then leCredits e
     else if leType e \<in> {UsageSettlement, Refund, Chargeback, Expiration} then - leCredits e else 0)"

definition cash_of_type :: "entry_type \<Rightarrow> ledger_entry \<Rightarrow> int" where
  "cash_of_type ty e = (if leType e = ty then leCash e else 0)"

definition usage_cost :: "usage_row \<Rightarrow> int" where
  "usage_cost u = (case nullish (urOfficialCost u) (urEstimatedCost u) of Some c \<Rightarrow> c | None \<Rightarrow> 0)"

definition provider_meter :: "usage_meter \<Rightarrow> bool" where
  "provider_meter m \<longleftrightarrow> m \<in> {ProviderInputToken, ProviderCachedInputToken, ProviderOutputToken, ProviderReasoningToken,
     ProviderReportedCostMicros}"

definition infrastructure_meter :: "usage_meter \<Rightarrow> bool" where
  "infrastructure_meter m \<longleftrightarrow> m \<in> {ComputeMillisecond, StorageByteMillisecond, EgressByte, IndexEmbeddingToken,
     RetrievalEmbeddingToken}"

definition projection_of :: "pg_env \<Rightarrow> billing_scope \<Rightarrow> instant \<Rightarrow> retail_catalog \<Rightarrow> credit_tables \<Rightarrow> financial_projection" where
  "projection_of E sc now c T =
    (let mark = watermark (joined T);
         paidRevenue = sum_of consumed_delta (of_kind T Paid);
         providerCogs = sum_of usage_cost (filter (\<lambda>u. provider_meter (urMeter u)) (tUsage T));
         infrastructureCogs = sum_of usage_cost (filter (\<lambda>u. infrastructure_meter (urMeter u)) (tUsage T))
     in \<lparr>fpProjectionId = deterministicId E ''fprj'' [bsTenantId sc, bsWorkspaceId sc, mark, rcCatalogVersion c],
         fpCurrency = rcCurrency c, fpCatalogVersion = rcCatalogVersion c, fpWatermark = mark,
         fpIdempotencyKey = ''projection:'' @ mark @ '':'' @ rcCatalogVersion c, fpOccurredAt = now,
         fpCashCollected = sum_of cash_delta (joined T),
         fpLiability = sum_of liability_delta (of_kind T Paid),
         fpPaidRevenue = paidRevenue,
         fpPromotionalConsumption = sum_of consumed_delta (of_kind T Promotional),
         fpRefunds = sum_of (cash_of_type Refund) (joined T),
         fpChargebacks = sum_of (cash_of_type Chargeback) (joined T),
         fpProviderCogs = providerCogs, fpInfrastructureCogs = infrastructureCogs,
         fpGrossMargin = paidRevenue - providerCogs - infrastructureCogs\<rparr>)"

definition financialProjectionSchema_parse :: "financial_projection \<Rightarrow> credit_error + financial_projection" where
  "financialProjectionSchema_parse p =
    (if billing_id (fpProjectionId p) \<and> currency_code (fpCurrency p) \<and> billing_id (fpCatalogVersion p)
        \<and> billing_id (fpWatermark p) \<and> billing_id (fpIdempotencyKey p) \<and> iso_datetime (fpOccurredAt p)
        \<and> 0 \<le> fpPaidRevenue p \<and> 0 \<le> fpPromotionalConsumption p \<and> 0 \<le> fpRefunds p \<and> 0 \<le> fpChargebacks p
        \<and> 0 \<le> fpProviderCogs p \<and> 0 \<le> fpInfrastructureCogs p
     then Inr (p\<lparr>fpProjectionId := js_trim (fpProjectionId p), fpCatalogVersion := js_trim (fpCatalogVersion p),
                 fpWatermark := js_trim (fpWatermark p), fpIdempotencyKey := js_trim (fpIdempotencyKey p)\<rparr>)
     else Inl SchemaInvalid)"

definition insert_checkpoint :: "pg_env \<Rightarrow> billing_scope \<Rightarrow> financial_projection \<Rightarrow> unit tx" where
  "insert_checkpoint E sc p s =
    (case s of (T, n) \<Rightarrow>
       if list_ex (\<lambda>x. fpWatermark x = fpWatermark p \<and> fpCatalogVersion x = fpCatalogVersion p) (tCheckpoints T)
         then (Inr (), s)
       else if \<not> row_scope E sc
          \<or> list_ex (\<lambda>x. fpProjectionId x = fpProjectionId p \<or> fpIdempotencyKey x = fpIdempotencyKey p) (tCheckpoints T)
         then (Inl SqlViolation, s)
       else (Inr (), (T\<lparr>tCheckpoints := tCheckpoints T @ [p]\<rparr>, n)))"

definition financialProjection :: "pg_env \<Rightarrow> billing_scope \<Rightarrow> instant \<Rightarrow> credit_db \<Rightarrow>
    (credit_error, financial_projection, credit_db) outcome" where
  "financialProjection E scopeInput now =
    withScope scopeInput (\<lambda>sc s.
      case current_catalog E now (fst s) of
        None \<Rightarrow> (Inl RETAIL_PRICE_CATALOG_MISSING, s)
      | Some c \<Rightarrow>
        tx_bind (tx_return (financialProjectionSchema_parse (projection_of E sc now c (fst s)))) (\<lambda>p.
        tx_bind (insert_checkpoint E sc p) (\<lambda>_. tx_return (Inr p))) s)"

end
