(* ===== verification/Credit_Books.thy ===== *)
theory Credit_Books
  imports Credit_Ledger
begin

section \<open>The books of the credit ledger\<close>

text \<open>
  Sums over rows, what a committed statement did, and the relation between the allocations and the ledger that
  every statement of the reservation and settlement loops keeps.
\<close>

subsection \<open>Sums over rows\<close>

lemma sum_of_simps [simp]:
  "sum_of f [] = 0" "sum_of f (x # xs) = f x + sum_of f xs" "sum_of f (xs @ ys) = sum_of f xs + sum_of f ys"
  by (simp_all add: sum_of_def)

lemma sum_of_nonneg: "(\<And>x. x \<in> set xs \<Longrightarrow> 0 \<le> f x) \<Longrightarrow> 0 \<le> sum_of f xs"
  by (induction xs) auto

lemma sum_of_cong: "(\<And>x. x \<in> set xs \<Longrightarrow> f x = g x) \<Longrightarrow> sum_of f xs = sum_of g xs"
  by (induction xs) auto

lemma sum_of_minus: "sum_of (\<lambda>x. f x - g x) xs = sum_of f xs - sum_of g xs"
  by (induction xs) auto

text \<open>Rows are updated by key: one summand changes.\<close>

lemma sum_update:
  assumes "distinct (map k xs)" and "a \<in> set xs" and "\<And>x. Q (u x) = Q x"
  shows "sum_of f (filter Q (map (\<lambda>x. if k x = k a then u x else x) xs))
    = sum_of f (filter Q xs) + (if Q a then f (u a) - f a else 0)"
  using assms(1,2)
proof (induction xs)
  case (Cons x xs)
  show ?case
  proof (cases "x = a")
    case True
    then have "k y \<noteq> k a" if "y \<in> set xs" for y using Cons.prems(1) that by (metis distinct.simps(2) imageI list.map(2) list.set_map)
    then have "map (\<lambda>x. if k x = k a then u x else x) xs = xs" by (induction xs) auto
    then show ?thesis using True assms(3) by simp
  next
    case False
    then have "a \<in> set xs" "k x \<noteq> k a" using Cons.prems by auto
    then show ?thesis using Cons by simp
  qed
qed simp

lemma sum_indicator: "distinct ks \<Longrightarrow> sum_of (\<lambda>k. if k = a then c else 0) ks = (if a \<in> set ks then c else 0)"
  by (induction ks) auto

lemma sum_partition:
  assumes "distinct ks" and "\<And>x. x \<in> set xs \<Longrightarrow> key x \<in> set ks"
  shows "sum_of f xs = sum_of (\<lambda>k. sum_of f (filter (\<lambda>x. key x = k) xs)) ks"
  using assms(2)
proof (induction xs)
  case (Cons x xs)
  have "sum_of (\<lambda>k. sum_of f (filter (\<lambda>x. key x = k) (x # xs))) ks
    = sum_of (\<lambda>k. if k = key x then f x else 0) ks + sum_of (\<lambda>k. sum_of f (filter (\<lambda>x. key x = k) xs)) ks"
    by (induction ks) auto
  moreover have "sum_of (\<lambda>k. if k = key x then f x else 0) ks = f x"
    using assms(1) Cons.prems [of x] by (simp add: sum_indicator)
  ultimately show ?case using Cons by simp
qed (simp add: sum_of_def)

subsection \<open>Transactions\<close>

lemma tx_bind_Inr_iff:
  "tx_bind m f s = (Inr y, s') \<longleftrightarrow> (\<exists>x s1. m s = (Inr x, s1) \<and> f x s1 = (Inr y, s'))"
  by (auto simp: tx_bind_def split: sum.splits prod.splits)

lemma tx_return_iff: "tx_return r s = (r', s') \<longleftrightarrow> r' = r \<and> s' = s"
  by (auto simp: tx_return_def)

lemma withScope_cases:
  assumes "withScope scopeInput body d = (res, d')"
  obtains (rejected) "dbTables d' = dbTables d"
  | (committed) sc x T n where "billingScopeSchema_parse scopeInput = Some sc"
      "body sc (dbTables d sc, dbSequence d) = (Inr x, (T, n))" "res = Inr x"
      "d' = \<lparr>dbTables = (dbTables d)(sc := T), dbSequence = n\<rparr>"
  using assms by (auto simp: withScope_def split: option.splits prod.splits sum.splits)

lemma insert_entry_cases:
  assumes "insert_entry E sc q e (T, n) = (Inr u, s')"
  obtains (passed) "q" "s' = (T, Suc n)"
  | (added) "s' = (T\<lparr>tLedger := tLedger T @ [e\<lparr>leSequence := n\<rparr>]\<rparr>, Suc n)" "ledger_checks E sc e" "ledger_references T e"
      "\<forall>x \<in> set (tLedger T). leIdempotencyKey x \<noteq> leIdempotencyKey e"
  using assms by (auto simp: insert_entry_def Let_def ledger_checks_def ledger_references_def list_ex_iff split: if_splits)


subsection \<open>The books: allocations against the ledger\<close>

definition held_delta :: "ledger_entry \<Rightarrow> int" where
  "held_delta e = (if leType e = Reservation then leCredits e else 0)"

definition released_delta :: "ledger_entry \<Rightarrow> int" where
  "released_delta e = (if leType e = ReservationRelease then leCredits e else 0)"

definition ledger_sum :: "(ledger_entry \<Rightarrow> int) \<Rightarrow> (string \<Rightarrow> string option \<Rightarrow> bool) \<Rightarrow> credit_tables \<Rightarrow> int" where
  "ledger_sum f P T = sum_of f (filter (\<lambda>e. P (leLotId e) (leReservationId e)) (tLedger T))"

definition alloc_sum :: "(credit_allocation \<Rightarrow> int) \<Rightarrow> (string \<Rightarrow> string option \<Rightarrow> bool) \<Rightarrow> credit_tables \<Rightarrow> int" where
  "alloc_sum f P T = sum_of f (filter (\<lambda>a. P (caLotId a) (Some (caReservationId a))) (tAllocations T))"

definition alloc_key :: "credit_allocation \<Rightarrow> string \<times> string" where
  "alloc_key a = (caReservationId a, caLotId a)"

lemma same_allocation_iff: "same_allocation a x \<longleftrightarrow> alloc_key x = alloc_key a"
  by (auto simp: same_allocation_def alloc_key_def)

text \<open>For every selection of lots and reservations, what the allocations say has been reserved, settled and
  released is what the ledger says.\<close>

definition books :: "credit_tables \<Rightarrow> bool" where
  "books T \<longleftrightarrow> distinct (map alloc_key (tAllocations T)) \<and> (\<forall>a \<in> set (tAllocations T). allocation_checks a)
     \<and> (\<forall>P. ledger_sum held_delta P T = alloc_sum caReserved P T)
     \<and> (\<forall>P. ledger_sum consumed_delta P T = alloc_sum caSettled P T)
     \<and> (\<forall>P. ledger_sum released_delta P T = alloc_sum caReleased P T)"

lemma booksD:
  assumes "books T"
  shows "distinct (map alloc_key (tAllocations T))" "a \<in> set (tAllocations T) \<Longrightarrow> allocation_checks a"
    "ledger_sum held_delta P T = alloc_sum caReserved P T" "ledger_sum consumed_delta P T = alloc_sum caSettled P T"
    "ledger_sum released_delta P T = alloc_sum caReleased P T"
  using assms by (auto simp: books_def)

lemma reserved_delta_split: "reserved_delta e = held_delta e - consumed_delta e - released_delta e"
  by (simp add: reserved_delta_def held_delta_def consumed_delta_def released_delta_def)

lemma books_reserved: "books T \<Longrightarrow> ledger_sum reserved_delta P T = alloc_sum remaining_of P T"
  using booksD(3-5) [of T P]
  by (simp add: ledger_sum_def alloc_sum_def reserved_delta_split sum_of_minus remaining_of_def cong: sum_of_cong)

lemma allocation_checksD:
  "allocation_checks a \<Longrightarrow> 0 \<le> caSettled a \<and> 0 \<le> caReleased a \<and> 0 \<le> remaining_of a"
  by (simp add: allocation_checks_def remaining_of_def)

lemma alloc_sum_nonneg:
  assumes "books T"
  shows "0 \<le> alloc_sum caSettled P T" "0 \<le> alloc_sum caReleased P T" "0 \<le> alloc_sum remaining_of P T"
  using allocation_checksD booksD(2) [OF assms] unfolding alloc_sum_def by (auto intro!: sum_of_nonneg)

text \<open>Entries of other types do not touch the books.\<close>

lemma books_plain_entry:
  assumes "books T" and "leType e \<notin> {Reservation, ReservationRelease, UsageSettlement}"
  shows "books (T\<lparr>tLedger := tLedger T @ [e]\<rparr>)"
  using assms by (auto simp: books_def ledger_sum_def alloc_sum_def held_delta_def consumed_delta_def released_delta_def)

lemma books_frame:
  "tLedger T' = tLedger T \<Longrightarrow> tAllocations T' = tAllocations T \<Longrightarrow> books T \<Longrightarrow> books T'"
  by (simp add: books_def ledger_sum_def alloc_sum_def)

text \<open>A new allocation and its entry.\<close>

lemma books_allocate:
  assumes "books T" and "\<forall>x \<in> set (tAllocations T). alloc_key x \<noteq> alloc_key a"
    and "caSettled a = 0" "caReleased a = 0" "0 < caReserved a"
    and "leType e = Reservation" "leLotId e = caLotId a" "leReservationId e = Some (caReservationId a)" "leCredits e = caReserved a"
  shows "books (T\<lparr>tAllocations := tAllocations T @ [a], tLedger := tLedger T @ [e]\<rparr>)"
  using assms
  by (auto simp: books_def ledger_sum_def alloc_sum_def held_delta_def consumed_delta_def released_delta_def allocation_checks_def)

text \<open>One turn of the settlement loop.\<close>

definition share :: "int \<Rightarrow> int \<Rightarrow> credit_allocation \<Rightarrow> credit_allocation" where
  "share m rel a = a\<lparr>caSettled := caSettled a + m, caReleased := caReleased a + rel\<rparr>"

lemma share_simps [simp]:
  "caReservationId (share m rel a) = caReservationId a" "caLotId (share m rel a) = caLotId a" "caReserved (share m rel a) = caReserved a"
  "caSettled (share m rel a) = caSettled a + m" "caReleased (share m rel a) = caReleased a + rel" "alloc_key (share m rel a) = alloc_key a"
  by (simp_all add: share_def alloc_key_def)

lemma share_zero [simp]: "share 0 0 a = a"
  by (cases a) (simp add: share_def)

definition shared :: "credit_allocation \<Rightarrow> int \<Rightarrow> int \<Rightarrow> credit_allocation list \<Rightarrow> credit_allocation list" where
  "shared a m rel xs = map (\<lambda>x. if alloc_key x = alloc_key a then share m rel x else x) xs"

lemma alloc_sum_shared:
  assumes "distinct (map alloc_key (tAllocations T))" and "a \<in> set (tAllocations T)" and "tAllocations T' = shared a m rel (tAllocations T)"
  shows "alloc_sum f P T' = alloc_sum f P T + (if P (caLotId a) (Some (caReservationId a)) then f (share m rel a) - f a else 0)"
  using sum_update [OF assms(1,2), of "\<lambda>a. P (caLotId a) (Some (caReservationId a))" "share m rel" f] assms(3)
  by (simp add: alloc_sum_def shared_def)

lemma alloc_key_shared [simp]: "map alloc_key (shared a m rel xs) = map alloc_key xs"
  by (simp add: shared_def comp_def if_distrib cong: if_cong)

lemma books_share:
  assumes "books T" and "a \<in> set (tAllocations T)" and "allocation_checks (share m rel a)"
    and "tAllocations T' = shared a m rel (tAllocations T)"
    and "\<And>f P. ledger_sum f P T' = ledger_sum f P T + (if P (caLotId a) (Some (caReservationId a)) then g f else 0)"
    and "g held_delta = 0" "g consumed_delta = m" "g released_delta = rel"
  shows "books T'"
proof -
  note d = booksD(1) [OF assms(1)]
  have "x = a" if "x \<in> set (tAllocations T)" "alloc_key x = alloc_key a" for x
    using d that assms(2) by (auto simp: distinct_map inj_on_def)
  then have "\<forall>x \<in> set (tAllocations T'). allocation_checks x"
    using assms(3,4) booksD(2) [OF assms(1)] by (auto simp: shared_def)
  moreover have "distinct (map alloc_key (tAllocations T'))" using d assms(4) by simp
  ultimately show ?thesis
    using booksD(3-5) [OF assms(1)] assms(6-8)
    by (simp add: books_def assms(5) alloc_sum_shared [OF d assms(2,4)])
qed


subsection \<open>The settlement loop\<close>

definition rest_same :: "credit_tables \<Rightarrow> credit_tables \<Rightarrow> bool" where
  "rest_same T T' \<longleftrightarrow> tCatalogs T' = tCatalogs T \<and> tLots T' = tLots T \<and> tReservations T' = tReservations T
     \<and> tSettlements T' = tSettlements T \<and> tUsage T' = tUsage T \<and> tCheckpoints T' = tCheckpoints T
     \<and> tDecisions T' = tDecisions T \<and> tLeases T' = tLeases T"

lemma rest_same_trans: "rest_same T U \<Longrightarrow> rest_same U V \<Longrightarrow> rest_same T V"
  by (simp add: rest_same_def)

lemma settlement_entry_simps [simp]:
  "leLotId (settlement_entry E i r c rl lid m) = lid" "leReservationId (settlement_entry E i r c rl lid m) = Some (crReservationId r)"
  "leCredits (settlement_entry E i r c rl lid m) = m" "leType (settlement_entry E i r c rl lid m) = (if rl then ReservationRelease else UsageSettlement)"
  "leCurrency (settlement_entry E i r c rl lid m) = crCurrency r"
  by (simp_all add: settlement_entry_def)

text \<open>A positive amount is entered, zero is not: either way the sums grow by the amount.\<close>

lemma when_positive_entry:
  assumes "when_positive m (insert_entry E sc False (settlement_entry E i r c rl lid m)) (T, n) = (Inr u, (T', n'))" and "0 \<le> m"
  shows "rest_same T T'" "tAllocations T' = tAllocations T"
    "ledger_sum f P T' = ledger_sum f P T
       + (if P lid (Some (crReservationId r)) \<and> 0 < m then f (settlement_entry E i r c rl lid m\<lparr>leSequence := n\<rparr>) else 0)"
    "\<forall>e \<in> set (tLedger T'). e \<in> set (tLedger T) \<or> leLotId e = lid \<and> currency_code (leCurrency e) \<and> ledger_references T e"
  using assms
  by (auto simp: when_positive_def tx_return_def rest_same_def ledger_sum_def ledger_references_def ledger_checks_def
      split: if_splits elim!: insert_entry_cases)

lemma settle_turn:
  assumes "books T" and "a \<in> set (tAllocations T)" and "caReservationId a = crReservationId r"
    and "0 \<le> m" "0 \<le> rel" "m + rel \<le> remaining_of a"
    and "when_positive m (insert_entry E sc False (settlement_entry E i r c False (caLotId a) m)) (T, n) = (Inr u, (T1, n1))"
    and "when_positive rel (insert_entry E sc False (settlement_entry E i r c True (caLotId a) rel)) (T1, n1) = (Inr u', (T2, n2))"
    and "(if 0 < m \<or> 0 < rel then update_allocation a m rel else tx_return (Inr ())) (T2, n2) = (Inr u'', (T3, n3))"
  shows "books T3" "rest_same T T3" "tAllocations T3 = shared a m rel (tAllocations T)"
proof -
  note e1 = when_positive_entry [OF assms(7,4)] and e2 = when_positive_entry [OF assms(8,5)]
  have zero: "shared a 0 0 xs = xs" for xs by (simp add: shared_def cong: if_cong)
  have al: "tAllocations T3 = shared a m rel (tAllocations T)" and r3: "rest_same T2 T3" and l3: "tLedger T3 = tLedger T2"
    using assms(4,5,9) e1(2) e2(2) zero
    by (auto simp: update_allocation_def tx_return_def Let_def rest_same_def shared_def share_def same_allocation_iff
        split: if_splits)
  show "rest_same T T3" "tAllocations T3 = shared a m rel (tAllocations T)"
    using e1(1) e2(1) r3 rest_same_trans al by blast+
  have sums: "ledger_sum f P T3 = ledger_sum f P T + (if P (caLotId a) (Some (caReservationId a))
      then (if 0 < m then f (settlement_entry E i r c False (caLotId a) m\<lparr>leSequence := n\<rparr>) else 0)
         + (if 0 < rel then f (settlement_entry E i r c True (caLotId a) rel\<lparr>leSequence := n1\<rparr>) else 0) else 0)" for f P
    using e1(3) [of f P] e2(3) [of f P] l3 assms(3) by (simp add: ledger_sum_def)
  show "books T3"
  proof (rule books_share [OF assms(1,2) _ al sums])
    show "allocation_checks (share m rel a)"
      using assms(4-6) booksD(2) [OF assms(1,2)] by (simp add: allocation_checks_def remaining_of_def)
  qed (use assms(4,5) in \<open>auto simp: held_delta_def consumed_delta_def released_delta_def\<close>)
qed


lemma settle_allocations_keeps:
  assumes "settle_allocations E sc i r c m rel as (T, n) = (Inr u, (T', n'))" and "books T"
    and "set as \<subseteq> set (tAllocations T)" and "distinct (map alloc_key as)"
    and "\<forall>a \<in> set as. caReservationId a = crReservationId r" and "0 \<le> m" "0 \<le> rel"
  shows "books T' \<and> rest_same T T'
    \<and> (\<exists>m' rel'. 0 \<le> m' \<and> 0 \<le> rel' \<and> m' + rel' = max 0 (m + rel - sum_of remaining_of as)
         \<and> (\<forall>P. alloc_sum caReserved P T' = alloc_sum caReserved P T)
         \<and> (\<forall>x. alloc_sum caSettled (\<lambda>l y. y = Some x) T' = alloc_sum caSettled (\<lambda>l y. y = Some x) T + (if x = crReservationId r then m - m' else 0))
         \<and> (\<forall>x. alloc_sum caReleased (\<lambda>l y. y = Some x) T' = alloc_sum caReleased (\<lambda>l y. y = Some x) T + (if x = crReservationId r then rel - rel' else 0)))
    \<and> map alloc_key (tAllocations T') = map alloc_key (tAllocations T)"
  using assms
proof (induction as arbitrary: m rel T n)
  case Nil
  then show ?case by (auto simp: rest_same_def intro!: exI [of _ m] exI [of _ rel])
next
  case (Cons a as)
  define m1 where "m1 = min m (remaining_of a)"
  define r1 where "r1 = min rel (remaining_of a - m1)"
  have a: "a \<in> set (tAllocations T)" "caReservationId a = crReservationId r" using Cons.prems(3,5) by auto
  have rem: "0 \<le> remaining_of a" using allocation_checksD booksD(2) [OF Cons.prems(2) a(1)] by blast
  have amounts: "0 \<le> m1" "0 \<le> r1" "m1 + r1 \<le> remaining_of a" "m1 \<le> m" "r1 \<le> rel" "m1 + r1 = min (m + rel) (remaining_of a)"
    using rem Cons.prems(6,7) by (auto simp: m1_def r1_def)
  obtain u1 T1 n1 u2 T2 n2 u3 T3 n3 where turn:
    "when_positive m1 (insert_entry E sc False (settlement_entry E i r c False (caLotId a) m1)) (T, n) = (Inr u1, (T1, n1))"
    "when_positive r1 (insert_entry E sc False (settlement_entry E i r c True (caLotId a) r1)) (T1, n1) = (Inr u2, (T2, n2))"
    "(if 0 < m1 \<or> 0 < r1 then update_allocation a m1 r1 else tx_return (Inr ())) (T2, n2) = (Inr u3, (T3, n3))"
    "settle_allocations E sc i r c (m - m1) (rel - r1) as (T3, n3) = (Inr u, (T', n'))"
    using Cons.prems(1) unfolding settle_allocations.simps Let_def m1_def [symmetric] r1_def [symmetric] tx_bind_Inr_iff
    by (metis prod.collapse)
  note t = settle_turn [OF Cons.prems(2) a amounts(1-3) turn(1-3)]
  have later: "set as \<subseteq> set (tAllocations T3)"
  proof
    fix x assume "x \<in> set as"
    then have "x \<in> set (tAllocations T)" "alloc_key x \<noteq> alloc_key a" using Cons.prems(3,4) by (auto simp: image_iff)
    then show "x \<in> set (tAllocations T3)" using t(3) by (force simp: shared_def)
  qed
  have sums: "alloc_sum f P T3 = alloc_sum f P T + (if P (caLotId a) (Some (crReservationId r)) then f (share m1 r1 a) - f a else 0)" for f P
    using alloc_sum_shared [OF booksD(1) [OF Cons.prems(2)] a(1) t(3)] a(2) by simp
  obtain m' rel' where ih: "books T'" "rest_same T3 T'" "0 \<le> m'" "0 \<le> rel'"
    "m' + rel' = max 0 (m - m1 + (rel - r1) - sum_of remaining_of as)"
    "\<And>P. alloc_sum caReserved P T' = alloc_sum caReserved P T3"
    "\<And>x. alloc_sum caSettled (\<lambda>l y. y = Some x) T' = alloc_sum caSettled (\<lambda>l y. y = Some x) T3 + (if x = crReservationId r then m - m1 - m' else 0)"
    "\<And>x. alloc_sum caReleased (\<lambda>l y. y = Some x) T' = alloc_sum caReleased (\<lambda>l y. y = Some x) T3 + (if x = crReservationId r then rel - r1 - rel' else 0)"
    "map alloc_key (tAllocations T') = map alloc_key (tAllocations T3)"
    using Cons.IH [OF turn(4) t(1) later] Cons.prems(4,5) amounts by auto
  have as: "0 \<le> sum_of remaining_of as"
    using Cons.prems(3) booksD(2) [OF Cons.prems(2)] allocation_checksD by (intro sum_of_nonneg) auto
  have eqs: "m' + rel' = max 0 (m + rel - sum_of remaining_of (a # as))"
    "map alloc_key (tAllocations T') = map alloc_key (tAllocations T)" "rest_same T T'"
    using ih(5,9) amounts(6) as rem t(3) rest_same_trans [OF t(2) ih(2)] by auto
  have "\<forall>P. alloc_sum caReserved P T' = alloc_sum caReserved P T"
    "\<forall>x. alloc_sum caSettled (\<lambda>l y. y = Some x) T' = alloc_sum caSettled (\<lambda>l y. y = Some x) T + (if x = crReservationId r then m - m' else 0)"
    "\<forall>x. alloc_sum caReleased (\<lambda>l y. y = Some x) T' = alloc_sum caReleased (\<lambda>l y. y = Some x) T + (if x = crReservationId r then rel - rel' else 0)"
    using ih(6-8) sums by auto
  then show ?case using eqs ih(1,3,4) by blast
qed

end
