(* ===== verification/Credit_Inv.thy ===== *)
theory Credit_Inv
  imports Credit_Books
begin

section \<open>The invariant of the credit tables\<close>

text \<open>
  The reservation loop, the invariant that ties reservations, allocations, settlements and ledger together, its
  preservation by every operation, and the runs of the repository as a transition system.
\<close>

subsection \<open>The allocation loop\<close>

lemma allocate_takes:
  assumes "allocate cur mx ls = (as, rest)" and "0 < mx"
  shows "sum_of snd as + rest = mx \<and> 0 \<le> rest
    \<and> (\<forall>(lid, m) \<in> set as. 0 < m \<and> (\<exists>l a. (l, a) \<in> set ls \<and> clLotId l = lid \<and> clCurrency l = cur \<and> m \<le> a))
    \<and> (distinct (map (\<lambda>x. clLotId (fst x)) ls) \<longrightarrow> distinct (map fst as))"
  using assms
proof (induction cur mx ls arbitrary: as rest rule: allocate.induct)
  case (2 cur mx l avail ls)
  have sub: "distinct (map (\<lambda>x. clLotId (fst x)) ((l, avail) # ls)) \<Longrightarrow> distinct (map (\<lambda>x. clLotId (fst x)) ls)" by simp
  show ?case
  proof (cases "clCurrency l \<noteq> cur \<or> min mx avail \<le> 0")
    case True
    then have "allocate cur mx ls = (as, rest)" using "2.prems"(1) by (auto simp: Let_def split: if_splits)
    then show ?thesis using "2.IH"(1,2) True "2.prems"(2) sub by (cases "clCurrency l = cur") fastforce+
  next
    case False
    show ?thesis
    proof (cases "mx - min mx avail = 0")
      case True
      then have "as = [(clLotId l, mx)]" "rest = 0" "mx \<le> avail" using False "2.prems" by (auto simp: Let_def split: if_splits)
      then show ?thesis using False "2.prems"(2) by auto
    next
      case more: False
      obtain as' where as': "allocate cur (mx - min mx avail) ls = (as', rest)" "as = (clLotId l, min mx avail) # as'"
        using False more "2.prems"(1) by (auto simp: Let_def split: if_splits prod.splits)
      have "0 < mx - min mx avail" using more by (auto simp: min_def split: if_splits)
      then have ih: "sum_of snd as' + rest = mx - min mx avail" "0 \<le> rest"
        "\<forall>(lid, m) \<in> set as'. 0 < m \<and> (\<exists>l a. (l, a) \<in> set ls \<and> clLotId l = lid \<and> clCurrency l = cur \<and> m \<le> a)"
        "distinct (map (\<lambda>x. clLotId (fst x)) ls) \<Longrightarrow> distinct (map fst as')"
        using "2.IH"(3) [OF _ refl _ _ as'(1)] False more by auto
      have "clLotId l \<notin> set (map fst as')" if "distinct (map (\<lambda>x. clLotId (fst x)) ((l, avail) # ls))"
        using that ih(3) by force
      then show ?thesis using ih as'(2) False sub by fastforce
    qed
  qed
qed auto

lemma reservation_entry_simps [simp]:
  "leLotId (reservation_entry E i r lid m) = lid" "leReservationId (reservation_entry E i r lid m) = Some (crReservationId r)"
  "leCredits (reservation_entry E i r lid m) = m" "leType (reservation_entry E i r lid m) = Reservation"
  by (simp_all add: reservation_entry_def)

lemma insert_allocations_keeps:
  assumes "insert_allocations E sc i r k as (T, n) = (Inr u, (T', n'))" and "books T"
  shows "books T' \<and> rest_same T T' \<and> available T' = available T - sum_of snd as
    \<and> (\<forall>lid. lot_available T' lid = lot_available T lid - sum_of snd (filter (\<lambda>(l, m). l = lid) as))
    \<and> (\<forall>P. alloc_sum caReserved P T' = alloc_sum caReserved P T + sum_of snd (filter (\<lambda>(l, m). P l (Some (crReservationId r))) as))
    \<and> (\<forall>P. alloc_sum caSettled P T' = alloc_sum caSettled P T) \<and> (\<forall>P. alloc_sum caReleased P T' = alloc_sum caReleased P T)
    \<and> (\<forall>a \<in> set (tAllocations T'). a \<in> set (tAllocations T) \<or> caReservationId a = crReservationId r)"
  using assms
proof (induction as arbitrary: k T n)
  case Nil
  then show ?case by (simp add: rest_same_def)
next
  case (Cons x as)
  obtain lid m where x: "x = (lid, m)" by (cases x)
  let ?a = "\<lparr>caReservationId = crReservationId r, caLotId = lid, caOrder = Suc k, caReserved = m, caSettled = 0, caReleased = 0\<rparr>"
  obtain u1 T1 n1 u2 T2 n2 where turn: "insert_allocation E sc ?a (T, n) = (Inr u1, (T1, n1))"
    "insert_entry E sc False (reservation_entry E i r lid m) (T1, n1) = (Inr u2, (T2, n2))"
    "insert_allocations E sc i r (Suc k) as (T2, n2) = (Inr u, (T', n'))"
    using Cons.prems(1) unfolding x insert_allocations.simps tx_bind_Inr_iff by (metis prod.collapse)
  have 1: "T1 = T\<lparr>tAllocations := tAllocations T @ [?a]\<rparr>" "0 < m" "\<forall>y \<in> set (tAllocations T). alloc_key y \<noteq> alloc_key ?a"
    using turn(1) by (auto simp: insert_allocation_def list_ex_iff alloc_key_def split: if_splits)
  have 2: "T2 = T1\<lparr>tLedger := tLedger T1 @ [reservation_entry E i r lid m\<lparr>leSequence := n1\<rparr>]\<rparr>"
    using turn(2) by (auto elim!: insert_entry_cases)
  have b: "books T2" using books_allocate [OF Cons.prems(2) 1(3)] 1 2 by simp
  have upd: "rest_same T T2" "available T2 = available T - m" "lot_available T2 l = lot_available T l - (if l = lid then m else 0)"
    "alloc_sum caReserved P T2 = alloc_sum caReserved P T + (if P lid (Some (crReservationId r)) then m else 0)"
    "alloc_sum caSettled P T2 = alloc_sum caSettled P T" "alloc_sum caReleased P T2 = alloc_sum caReleased P T" for l P
    using 1 2 by (auto simp: rest_same_def available_def lot_available_def alloc_sum_def available_delta_def)
  have al: "tAllocations T2 = tAllocations T @ [?a]" using 1 2 by simp
  note ih = Cons.IH [OF turn(3) b]
  have "lot_available T' l = lot_available T l - sum_of snd (filter (\<lambda>(l', m). l' = l) ((lid, m) # as))" for l
    using ih upd(3) [of l] by auto
  then show ?case
    using ih upd(2,4-) al rest_same_trans [OF upd(1)] unfolding x by auto
qed


subsection \<open>The invariant of the tables\<close>

text \<open>Every entry is in a known currency and belongs to a stored lot.\<close>

definition ledger_ok :: "credit_tables \<Rightarrow> bool" where
  "ledger_ok T \<longleftrightarrow> (\<forall>e \<in> set (tLedger T). currency_code (leCurrency e) \<and> leLotId e \<in> clLotId ` set (tLots T))"

lemma ledger_references_lot: "ledger_references T e \<Longrightarrow> leLotId e \<in> clLotId ` set (tLots T)"
  unfolding ledger_references_def list_ex_iff by (metis imageI)

lemma ledger_ok_entry: "insert_entry E sc q e (T, n) = (Inr u, (T', n')) \<Longrightarrow> ledger_ok T \<Longrightarrow> ledger_ok T'"
  using ledger_references_lot [of T e] by (auto simp: ledger_ok_def ledger_checks_def elim!: insert_entry_cases)

lemma ledger_ok_frame: "tLedger T' = tLedger T \<Longrightarrow> tLots T' = tLots T \<Longrightarrow> ledger_ok T \<Longrightarrow> ledger_ok T'"
  by (simp add: ledger_ok_def)

lemma ledger_ok_allocations:
  "insert_allocations E sc i r k as (T, n) = (Inr u, (T', n')) \<Longrightarrow> ledger_ok T \<Longrightarrow> ledger_ok T'"
proof (induction as arbitrary: k T n)
  case (Cons x as)
  obtain lid m where x: "x = (lid, m)" by (cases x)
  obtain u1 T1 n1 u2 T2 n2 where turn:
    "insert_allocation E sc \<lparr>caReservationId = crReservationId r, caLotId = lid, caOrder = Suc k, caReserved = m, caSettled = 0, caReleased = 0\<rparr> (T, n) = (Inr u1, (T1, n1))"
    "insert_entry E sc False (reservation_entry E i r lid m) (T1, n1) = (Inr u2, (T2, n2))"
    "insert_allocations E sc i r (Suc k) as (T2, n2) = (Inr u, (T', n'))"
    using Cons.prems(1) unfolding x insert_allocations.simps tx_bind_Inr_iff by (metis prod.collapse)
  have "ledger_ok T1"
    using turn(1) Cons.prems(2) by (auto simp: insert_allocation_def ledger_ok_def split: if_splits)
  then show ?case using Cons.IH [OF turn(3)] ledger_ok_entry [OF turn(2)] by blast
qed simp

lemma ledger_ok_settle:
  "settle_allocations E sc i r c m rel as (T, n) = (Inr u, (T', n')) \<Longrightarrow> ledger_ok T \<Longrightarrow> ledger_ok T'"
proof (induction as arbitrary: m rel T n)
  case (Cons a as)
  define m1 where "m1 = min m (remaining_of a)"
  define r1 where "r1 = min rel (remaining_of a - m1)"
  have pos: "when_positive k (insert_entry E sc False e) (U, n) = (Inr w, (U', n')) \<Longrightarrow> ledger_ok U \<Longrightarrow> ledger_ok U'" for k e U n w U' n'
    using ledger_ok_entry by (auto simp: when_positive_def tx_return_def split: if_splits)
  obtain u1 T1 n1 u2 T2 n2 u3 T3 n3 where turn:
    "when_positive m1 (insert_entry E sc False (settlement_entry E i r c False (caLotId a) m1)) (T, n) = (Inr u1, (T1, n1))"
    "when_positive r1 (insert_entry E sc False (settlement_entry E i r c True (caLotId a) r1)) (T1, n1) = (Inr u2, (T2, n2))"
    "(if 0 < m1 \<or> 0 < r1 then update_allocation a m1 r1 else tx_return (Inr ())) (T2, n2) = (Inr u3, (T3, n3))"
    "settle_allocations E sc i r c (m - m1) (rel - r1) as (T3, n3) = (Inr u, (T', n'))"
    using Cons.prems(1) unfolding settle_allocations.simps Let_def m1_def [symmetric] r1_def [symmetric] tx_bind_Inr_iff
    by (metis prod.collapse)
  have "ledger_ok T2" using pos turn(1,2) Cons.prems(2) by blast
  moreover have "tLedger T3 = tLedger T2 \<and> tLots T3 = tLots T2"
    using turn(3) by (auto simp: update_allocation_def tx_return_def Let_def split: if_splits)
  ultimately show ?case using Cons.IH [OF turn(4)] ledger_ok_frame by blast
qed simp

text \<open>A reservation agrees with its allocations and with its settlements.\<close>

definition by_reservation :: "string \<Rightarrow> string \<Rightarrow> string option \<Rightarrow> bool" where
  "by_reservation rid l y \<longleftrightarrow> y = Some rid"

definition settlement_sum :: "(credit_settlement \<Rightarrow> int) \<Rightarrow> string \<Rightarrow> credit_tables \<Rightarrow> int" where
  "settlement_sum f rid T = sum_of f (filter (\<lambda>c. csReservationId c = rid) (tSettlements T))"

definition reservation_ok :: "credit_tables \<Rightarrow> credit_reservation \<Rightarrow> bool" where
  "reservation_ok T r \<longleftrightarrow> crMaximum r = alloc_sum caReserved (by_reservation (crReservationId r)) T
     \<and> crSettled r = alloc_sum caSettled (by_reservation (crReservationId r)) T
     \<and> crReleased r = alloc_sum caReleased (by_reservation (crReservationId r)) T
     \<and> crSettled r = settlement_sum csMeasured (crReservationId r) T
     \<and> crReleased r = settlement_sum csReleased (crReservationId r) T
     \<and> crState r = next_state (unresolved_of r) (crSettled r)"

definition credit_inv :: "credit_tables \<Rightarrow> bool" where
  "credit_inv T \<longleftrightarrow> books T \<and> ledger_ok T \<and> distinct (map clLotId (tLots T))
     \<and> distinct (map crReservationId (tReservations T)) \<and> distinct (map csUsageDedupeKey (tSettlements T))
     \<and> distinct (map csIdempotencyKey (tSettlements T))
     \<and> (\<forall>a \<in> set (tAllocations T). caReservationId a \<in> crReservationId ` set (tReservations T))
     \<and> (\<forall>c \<in> set (tSettlements T). csReservationId c \<in> crReservationId ` set (tReservations T))
     \<and> (\<forall>r \<in> set (tReservations T). reservation_ok T r)"

lemma credit_invI:
  assumes "books T" "ledger_ok T" "distinct (map clLotId (tLots T))" "distinct (map crReservationId (tReservations T))"
    "distinct (map csUsageDedupeKey (tSettlements T))" "distinct (map csIdempotencyKey (tSettlements T))"
    "\<And>a. a \<in> set (tAllocations T) \<Longrightarrow> caReservationId a \<in> crReservationId ` set (tReservations T)"
    "\<And>c. c \<in> set (tSettlements T) \<Longrightarrow> csReservationId c \<in> crReservationId ` set (tReservations T)"
    "\<And>r. r \<in> set (tReservations T) \<Longrightarrow> reservation_ok T r"
  shows "credit_inv T"
  using assms by (simp add: credit_inv_def)

lemma credit_invD:
  assumes "credit_inv T"
  shows "books T" "ledger_ok T" "distinct (map clLotId (tLots T))" "distinct (map crReservationId (tReservations T))"
    "distinct (map csUsageDedupeKey (tSettlements T))" "distinct (map csIdempotencyKey (tSettlements T))"
    "a \<in> set (tAllocations T) \<Longrightarrow> caReservationId a \<in> crReservationId ` set (tReservations T)"
    "c \<in> set (tSettlements T) \<Longrightarrow> csReservationId c \<in> crReservationId ` set (tReservations T)"
    "r \<in> set (tReservations T) \<Longrightarrow> reservation_ok T r"
  using assms by (simp_all add: credit_inv_def)

lemma reservation_ok_frame:
  "tAllocations T' = tAllocations T \<Longrightarrow> tSettlements T' = tSettlements T \<Longrightarrow> reservation_ok T' r = reservation_ok T r"
  by (simp add: reservation_ok_def alloc_sum_def settlement_sum_def)

text \<open>The tables the invariant speaks of.\<close>

lemma credit_inv_frame:
  assumes "credit_inv T" and "tLots T' = tLots T" "tReservations T' = tReservations T" "tAllocations T' = tAllocations T"
    "tSettlements T' = tSettlements T" "tLedger T' = tLedger T"
  shows "credit_inv T'"
  using assms(1) books_frame [OF assms(6,4)] ledger_ok_frame [OF assms(6,2)] reservation_ok_frame [OF assms(4,5)] assms(2-6)
  unfolding credit_inv_def by simp

lemma credit_inv_plain_entry:
  assumes "credit_inv T" and "insert_entry E sc q e (T, n) = (Inr u, (T', n'))"
    and "leType e \<notin> {Reservation, ReservationRelease, UsageSettlement}"
  shows "credit_inv T'"
  using assms(2)
proof (cases rule: insert_entry_cases)
  case added
  then have t: "T' = T\<lparr>tLedger := tLedger T @ [e\<lparr>leSequence := n\<rparr>]\<rparr>" by simp
  show ?thesis
    using assms(1) ledger_ok_entry [OF assms(2)] books_plain_entry [of T "e\<lparr>leSequence := n\<rparr>"] assms(3)
      reservation_ok_frame [of T' T] unfolding credit_inv_def t by simp
qed (use assms(1) in simp)

text \<open>Adding or changing lots.\<close>

lemma credit_inv_lots:
  assumes "credit_inv T" and "distinct (map clLotId ls)" and "clLotId ` set (tLots T) \<subseteq> clLotId ` set ls"
  shows "credit_inv (T\<lparr>tLots := ls\<rparr>)"
  using assms books_frame [of "T\<lparr>tLots := ls\<rparr>" T] reservation_ok_frame [of "T\<lparr>tLots := ls\<rparr>" T]
  unfolding credit_inv_def by (auto simp: ledger_ok_def)


subsection \<open>Every operation keeps the invariant\<close>

definition keeps :: "(credit_tables \<Rightarrow> bool) \<Rightarrow> 'a tx \<Rightarrow> bool" where
  "keeps I m \<longleftrightarrow> (\<forall>T n x T' n'. m (T, n) = (Inr x, (T', n')) \<longrightarrow> I T \<longrightarrow> I T')"

lemma keepsI: "(\<And>T n x T' n'. m (T, n) = (Inr x, (T', n')) \<Longrightarrow> I T \<Longrightarrow> I T') \<Longrightarrow> keeps I m"
  by (simp add: keeps_def)

lemma keepsD: "keeps I m \<Longrightarrow> m (T, n) = (Inr x, (T', n')) \<Longrightarrow> I T \<Longrightarrow> I T'"
  unfolding keeps_def by blast

lemma keeps_bind: "keeps I m \<Longrightarrow> (\<And>x. keeps I (f x)) \<Longrightarrow> keeps I (tx_bind m f)"
  unfolding keeps_def tx_bind_Inr_iff by (metis prod.collapse)

lemma keeps_return: "keeps I (tx_return r)"
  by (simp add: keeps_def tx_return_def)

lemma keeps_withScope:
  assumes "\<And>sc. keeps I (body sc)" and "I (dbTables d sc)"
  shows "I (dbTables (snd (withScope scopeInput body d)) sc)"
proof -
  obtain res d' where w: "withScope scopeInput body d = (res, d')" by fastforce
  then have "I (dbTables d' sc)"
  proof (cases rule: withScope_cases)
    case (committed sc' x T n)
    then show ?thesis using keepsD [OF assms(1) committed(2)] assms(2) by (cases "sc' = sc") simp_all
  qed (use assms(2) in simp)
  then show ?thesis using w by simp
qed

lemma keeps_const: "keeps I (\<lambda>s. (f s, s))"
  by (simp add: keeps_def)

lemma set_sorted_insert: "set (sorted_insert le x ys) = insert x (set ys)"
  by (induction ys) auto

lemma sum_of_sorted_insert: "sum_of f (sorted_insert le x ys) = f x + sum_of f ys"
  by (induction ys) auto

lemma distinct_sorted_insert: "distinct (map k (sorted_insert le x ys)) \<longleftrightarrow> distinct (map k (x # ys))"
  by (induction ys) (auto simp: set_sorted_insert)

lemma order_by_simps [simp]:
  "set (order_by le xs) = set xs" "sum_of f (order_by le xs) = sum_of f xs"
  "distinct (map k (order_by le xs)) \<longleftrightarrow> distinct (map k xs)"
  by (induction xs) (auto simp: order_by_def set_sorted_insert sum_of_sorted_insert distinct_sorted_insert)

lemma keeps_catalog: "keeps credit_inv (insert_catalog E sc c)"
  by (rule keepsI) (auto simp: insert_catalog_def split: if_splits intro: credit_inv_frame)

lemma keeps_checkpoint: "keeps credit_inv (insert_checkpoint E sc p)"
  by (rule keepsI) (auto simp: insert_checkpoint_def split: if_splits intro: credit_inv_frame)

lemma merge_lot_id [simp]: "clLotId (merge_lot l x) = clLotId x"
  by (simp add: merge_lot_def)

lemma new_lot_id: "\<not> list_ex (lot_conflict l) ls \<Longrightarrow> clLotId l \<notin> clLotId ` set ls"
  by (auto simp: list_ex_iff lot_conflict_def)

lemma keeps_upsert_lot: "keeps credit_inv (upsert_lot E sc l)"
proof (rule keepsI)
  fix T n x T' n' assume h: "upsert_lot E sc l (T, n) = (Inr x, (T', n'))" and inv: "credit_inv T"
  let ?ls = "map (\<lambda>x. if same_payment l x then merge_lot l x else x) (tLots T)"
  have "map clLotId ?ls = map clLotId (tLots T)" by simp
  then have "distinct (map clLotId ?ls)" "clLotId ` set ?ls = clLotId ` set (tLots T)"
    using credit_invD(3) [OF inv] by (metis, metis list.set_map)
  then have merged: "credit_inv (T\<lparr>tLots := ?ls\<rparr>)" by (intro credit_inv_lots [OF inv]) auto
  show "credit_inv T'"
    using h inv merged credit_invD(3) [OF inv] new_lot_id [of l "tLots T"]
    by (auto simp: upsert_lot_def split: if_splits intro!: credit_inv_lots)
qed

lemma keeps_placeholder: "keeps credit_inv (insert_lot_quietly E sc l)"
  by (rule keepsI) (auto simp: insert_lot_quietly_def new_lot_id dest: credit_invD(3) split: if_splits intro!: credit_inv_lots)

lemma keeps_grant: "keeps credit_inv (insert_entry E sc q (grant_entry E i lid))"
  by (rule keepsI) (erule credit_inv_plain_entry, assumption, auto simp: grant_entry_def)

lemma keeps_lifecycle: "lifecycle_type (lfType i) \<Longrightarrow> keeps credit_inv (insert_entry E sc q (lifecycle_entry E i l))"
  by (rule keepsI) (erule credit_inv_plain_entry, assumption, auto simp: lifecycle_entry_def lifecycle_type_def)

lemma alloc_sum_remaining:
  "alloc_sum remaining_of P T = alloc_sum caReserved P T - alloc_sum caSettled P T - alloc_sum caReleased P T"
  unfolding alloc_sum_def remaining_of_def [abs_def] by (simp add: sum_of_minus)

lemma sum_of_filter_none: "(\<And>x. x \<in> set xs \<Longrightarrow> \<not> P x) \<Longrightarrow> sum_of f (filter P xs) = 0"
  by (simp add: filter_False)

text \<open>What a committed reservation and a committed settlement did, unless they were replays.\<close>

lemma tx_bindE:
  assumes "tx_bind m f s = (Inr y, s')"
  obtains x T1 n1 where "m s = (Inr x, (T1, n1))" "f x (T1, n1) = (Inr y, s')"
  using assms unfolding tx_bind_Inr_iff by force

lemma reserve_fresh:
  assumes "reserve_tx E i sc (T, n) = (Inr v, (T', n'))" and "find (\<lambda>r. crIdempotencyKey r = riIdempotencyKey i) (tReservations T) = None"
  obtains c mx as rest T1 n1 u w row where "maximum_for i c = Some mx" "0 < mx" "mx \<le> available T"
    "allocate (rcCurrency c) mx (map (\<lambda>l. (l, lot_available T (clLotId l))) (spendable_lots E (riOccurredAt i) T)) = (as, rest)"
    "\<not> 0 < rest" "insert_reservation E sc (new_reservation E sc i c mx) (T, n) = (Inr u, (T1, n1))"
    "insert_allocations E sc i (new_reservation E sc i c mx) 0 as (T1, n1) = (Inr w, (T', n'))"
    "find (\<lambda>x. crReservationId x = crReservationId (new_reservation E sc i c mx)) (tReservations T') = Some row"
    "parseReservation sc row = Inr v"
proof -
  obtain c mx where c: "current_catalog E (riOccurredAt i) T = Some c" "maximum_for i c = Some mx" "0 < mx" "mx \<le> available T"
    using assms by (auto simp: reserve_tx_def split: option.splits if_splits)
  obtain as rest where al: "allocate (rcCurrency c) mx
      (map (\<lambda>l. (l, lot_available T (clLotId l))) (spendable_lots E (riOccurredAt i) T)) = (as, rest)" by fastforce
  let ?r = "new_reservation E sc i c mx"
  have rest: "\<not> 0 < rest" and body: "tx_bind (insert_reservation E sc ?r) (\<lambda>_. tx_bind (insert_allocations E sc i ?r 0 as) (\<lambda>_ s1.
      case find (\<lambda>x. crReservationId x = crReservationId ?r) (tReservations (fst s1)) of
        None \<Rightarrow> (Inl SqlViolation, s1) | Some row \<Rightarrow> (parseReservation sc row, s1))) (T, n) = (Inr v, (T', n'))"
    using assms c al unfolding reserve_tx_def by (simp_all add: Let_def split: if_splits)
  obtain u T1 n1 w T2 n2 where st: "insert_reservation E sc ?r (T, n) = (Inr u, (T1, n1))"
    "insert_allocations E sc i ?r 0 as (T1, n1) = (Inr w, (T2, n2))"
    "(case find (\<lambda>x. crReservationId x = crReservationId ?r) (tReservations (fst (T2, n2))) of
        None \<Rightarrow> (Inl SqlViolation, (T2, n2)) | Some row \<Rightarrow> (parseReservation sc row, (T2, n2))) = (Inr v, (T', n'))"
    using body by (elim tx_bindE)
  then obtain row where "find (\<lambda>x. crReservationId x = crReservationId ?r) (tReservations T2) = Some row" "parseReservation sc row = Inr v"
    "T2 = T'" "n2 = n'" by (auto split: option.splits)
  then show thesis using that [OF c(2-4) al rest st(1)] st(2) by blast
qed

lemma keeps_reserve: "keeps credit_inv (reserve_tx E i sc)"
proof (rule keepsI)
  fix T n x T' n' assume h: "reserve_tx E i sc (T, n) = (Inr x, (T', n'))" and inv: "credit_inv T"
  show "credit_inv T'"
  proof (cases "find (\<lambda>r. crIdempotencyKey r = riIdempotencyKey i) (tReservations T)")
    case (Some r)
    then show ?thesis using h inv by (simp add: reserve_tx_def)
  next
    case None
    obtain c mx as rest T1 n1 u v where c: "0 < mx" and rest: "\<not> 0 < rest"
      and al: "allocate (rcCurrency c) mx (map (\<lambda>l. (l, lot_available T (clLotId l))) (spendable_lots E (riOccurredAt i) T)) = (as, rest)"
      and st: "insert_reservation E sc (new_reservation E sc i c mx) (T, n) = (Inr u, (T1, n1))"
        "insert_allocations E sc i (new_reservation E sc i c mx) 0 as (T1, n1) = (Inr v, (T', n'))"
      by (rule reserve_fresh [OF h None]) (rule that)
    define r where "r = new_reservation E sc i c mx"
    note st = st [folded r_def]
    note st2 = st(2)
    have t1: "T1 = T\<lparr>tReservations := tReservations T @ [r]\<rparr>" "crReservationId r \<notin> crReservationId ` set (tReservations T)"
      using st(1) by (auto simp: insert_reservation_def list_ex_iff split: if_splits)
    have b1: "books T1" using books_frame [of T1 T] credit_invD(1) [OF inv] t1(1) by simp
    note k = insert_allocations_keeps [OF st2 b1]
    have same: "tReservations T' = tReservations T @ [r]" "tLots T' = tLots T" "tSettlements T' = tSettlements T"
      using k t1(1) by (auto simp: rest_same_def)
    have old: "alloc_sum f P T1 = alloc_sum f P T" for f P using t1(1) by (simp add: alloc_sum_def)
    have none: "alloc_sum f (by_reservation (crReservationId r)) T = 0" for f
      unfolding alloc_sum_def using credit_invD(7) [OF inv] t1(2) by (intro sum_of_filter_none) (metis by_reservation_def option.inject)
    show ?thesis
    proof (rule credit_invI)
      show "ledger_ok T'" using ledger_ok_allocations [OF st2] ledger_ok_frame [of T1 T] credit_invD(2) [OF inv] t1(1) by simp
      show "caReservationId a \<in> crReservationId ` set (tReservations T')" if "a \<in> set (tAllocations T')" for a
        using k that same(1) t1(1) credit_invD(7) [OF inv] by auto
      show "reservation_ok T' q" if "q \<in> set (tReservations T')" for q
      proof (cases "q = r")
        case True
        have "settlement_sum f (crReservationId r) T' = 0" for f
          unfolding settlement_sum_def same(3) using credit_invD(8) [OF inv] t1(2) by (intro sum_of_filter_none) metis
        then show ?thesis
          using k True none old rest allocate_takes [OF al c] c
          by (simp add: reservation_ok_def r_def new_reservation_def unresolved_of_def next_state_def by_reservation_def)
      next
        case False
        then have "q \<in> set (tReservations T)" using that same(1) by auto
        moreover from this have "crReservationId q \<noteq> crReservationId r" using t1(2) by (metis imageI)
        ultimately show ?thesis
          using k old credit_invD(9) [OF inv, of q] same(3) by (simp add: reservation_ok_def settlement_sum_def by_reservation_def)
      qed
    qed (use k same t1(2) credit_invD [OF inv] in auto)
  qed
qed


definition released_by :: "settlement_input \<Rightarrow> credit_reservation \<Rightarrow> int" where
  "released_by i r = (if siTerminal i then unresolved_of r - siMeasured i else 0)"

definition ordered_allocations :: "string \<Rightarrow> credit_tables \<Rightarrow> credit_allocation list" where
  "ordered_allocations rid T = order_by (\<lambda>x y. caOrder x \<le> caOrder y) (filter (\<lambda>a. caReservationId a = rid) (tAllocations T))"

lemma settle_fresh:
  assumes "settle_tx E rid i sc (T, n) = (Inr x, (T', n'))"
    and "first_row E (filter (\<lambda>c. csIdempotencyKey c = siIdempotencyKey i \<or> csUsageDedupeKey c = siUsageDedupeKey i) (tSettlements T)) = None"
  obtains r c u T1 n1 v T2 n2 w row where "r \<in> set (tReservations T)" "crReservationId r = rid" "siMeasured i \<le> unresolved_of r"
    "c = new_settlement E sc i r (released_by i r)"
    "insert_settlement E sc c (T, n) = (Inr u, (T1, n1))"
    "settle_allocations E sc i r c (siMeasured i) (released_by i r) (ordered_allocations rid T1) (T1, n1) = (Inr v, (T2, n2))"
    "update_reservation i (released_by i r) r (T2, n2) = (Inr w, (T', n'))"
    "find (\<lambda>x. csSettlementId x = csSettlementId c) (tSettlements T') = Some row" "parseSettlement sc row = Inr x"
proof -
  obtain r where r: "find (\<lambda>r. crReservationId r = rid) (tReservations T) = Some r" "siMeasured i \<le> unresolved_of r"
    using assms by (auto simp: settle_tx_def split: option.splits if_splits)
  then have "r \<in> set (tReservations T)" "crReservationId r = rid" by (auto simp: find_Some_iff)
  then show thesis
    using assms r unfolding settle_tx_def
    by (auto simp: tx_bind_Inr_iff Let_def ordered_allocations_def released_by_def [symmetric] split: option.splits if_splits
        intro: that [OF _ _ r(2) refl])
qed

lemma keeps_settle: "keeps credit_inv (settle_tx E rid i sc)"
proof (rule keepsI)
  fix T n x T' n' assume h: "settle_tx E rid i sc (T, n) = (Inr x, (T', n'))" and inv: "credit_inv T"
  show "credit_inv T'"
  proof (cases "first_row E (filter (\<lambda>c. csIdempotencyKey c = siIdempotencyKey i \<or> csUsageDedupeKey c = siUsageDedupeKey i) (tSettlements T))")
    case (Some c)
    then show ?thesis using h inv by (simp add: settle_tx_def)
  next
    case None
    obtain r c u T1 n1 v T2 n2 w where rin: "r \<in> set (tReservations T)" "crReservationId r = rid" and r2: "siMeasured i \<le> unresolved_of r"
      and c_def: "c = new_settlement E sc i r (released_by i r)" and st: "insert_settlement E sc c (T, n) = (Inr u, (T1, n1))"
        "settle_allocations E sc i r c (siMeasured i) (released_by i r) (ordered_allocations rid T1) (T1, n1) = (Inr v, (T2, n2))"
        "update_reservation i (released_by i r) r (T2, n2) = (Inr w, (T', n'))"
      by (rule settle_fresh [OF h None]) (rule that)
    define release where "release = released_by i r"
    note st = st [folded release_def] and c_def = c_def [folded release_def]
    define as where "as = ordered_allocations rid T"
    have t1: "T1 = T\<lparr>tSettlements := tSettlements T @ [c]\<rparr>" "0 \<le> siMeasured i" "0 \<le> release"
      "csUsageDedupeKey c \<notin> csUsageDedupeKey ` set (tSettlements T)" "csIdempotencyKey c \<notin> csIdempotencyKey ` set (tSettlements T)"
      using st(1) by (auto simp: insert_settlement_def list_ex_iff c_def new_settlement_def split: if_splits)
    have c: "csReservationId c = rid" "csMeasured c = siMeasured i" "csReleased c = release"
      using rin(2) by (simp_all add: c_def new_settlement_def)
    have b1: "books T1" using books_frame [of T1 T] credit_invD(1) [OF inv] t1(1) by simp
    have as: "settle_allocations E sc i r c (siMeasured i) release as (T1, n1) = (Inr v, (T2, n2))" "set as \<subseteq> set (tAllocations T1)"
      "distinct (map alloc_key as)" "\<forall>a \<in> set as. caReservationId a = crReservationId r"
      using st(2) t1(1) rin(2) booksD(1) [OF credit_invD(1) [OF inv]] by (auto simp: as_def ordered_allocations_def distinct_map_filter)
    have old: "alloc_sum f P T1 = alloc_sum f P T" for f P using t1(1) by (simp add: alloc_sum_def)
    have ok: "reservation_ok T r" using credit_invD(9) [OF inv rin(1)] .
    have "sum_of remaining_of as = alloc_sum remaining_of (by_reservation rid) T"
      by (simp add: as_def ordered_allocations_def alloc_sum_def by_reservation_def)
    then have rem: "sum_of remaining_of as = unresolved_of r"
      using ok rin(2) by (simp add: reservation_ok_def unresolved_of_def alloc_sum_remaining)
    have fits: "siMeasured i + release \<le> unresolved_of r" using r2 by (simp add: release_def released_by_def)
    note k0 = settle_allocations_keeps [OF as(1) b1 as(2-4) t1(2,3)]
    have k: "books T2" "rest_same T1 T2" "map alloc_key (tAllocations T2) = map alloc_key (tAllocations T1)"
      "\<And>P. alloc_sum caReserved P T2 = alloc_sum caReserved P T"
      "\<And>q. alloc_sum caSettled (by_reservation q) T2 = alloc_sum caSettled (by_reservation q) T + (if q = rid then siMeasured i else 0)"
      "\<And>q. alloc_sum caReleased (by_reservation q) T2 = alloc_sum caReleased (by_reservation q) T + (if q = rid then release else 0)"
      using k0 rem fits rin(2) old by (auto simp: by_reservation_def [abs_def])
    have t3: "T' = T2\<lparr>tReservations := map (\<lambda>q. if crReservationId q = rid \<and> crVersion q = crVersion r
        then resolved_reservation i release r else q) (tReservations T)\<rparr>"
      using st(3) k(2) t1(1) rin(2) by (auto simp: update_reservation_def rest_same_def Let_def split: if_splits)
    have uniq: "q = r" if "q \<in> set (tReservations T)" "crReservationId q = rid" for q
      using credit_invD(4) [OF inv] rin that by (metis distinct_map inj_onD)
    have same: "tLots T' = tLots T" "tSettlements T' = tSettlements T @ [c]" "tAllocations T' = tAllocations T2"
      using k(2) t1(1) t3 by (auto simp: rest_same_def)
    have id: "crReservationId (resolved_reservation i release r) = rid" using rin(2) by (simp add: resolved_reservation_def Let_def)
    have ids: "map crReservationId (tReservations T') = map crReservationId (tReservations T)" using t3 id by (simp add: comp_def cong: if_cong)
    have idset: "crReservationId ` set (tReservations T') = crReservationId ` set (tReservations T)" using ids by (metis list.set_map)
    show ?thesis
    proof (rule credit_invI)
      show "books T'" using k(1) books_frame [of T' T2] t3 by simp
      show "ledger_ok T'"
        using ledger_ok_settle [OF as(1)] ledger_ok_frame [of T1 T] ledger_ok_frame [of T' T2] credit_invD(2) [OF inv] t1(1) t3 same by simp
      show "distinct (map crReservationId (tReservations T'))" using ids credit_invD(4) [OF inv] by simp
      show "caReservationId a \<in> crReservationId ` set (tReservations T')" if "a \<in> set (tAllocations T')" for a
      proof -
        have "map alloc_key (tAllocations T') = map alloc_key (tAllocations T)" using k(3) t1(1) same(3) by simp
        then have "alloc_key a \<in> alloc_key ` set (tAllocations T)" using that by (metis imageI list.set_map)
        then show ?thesis using credit_invD(7) [OF inv] idset by (auto simp: alloc_key_def)
      qed
      show "csReservationId q \<in> crReservationId ` set (tReservations T')" if "q \<in> set (tSettlements T')" for q
        using that same(2) c(1) credit_invD(8) [OF inv] imageI [OF rin(1), of crReservationId] rin(2) idset by auto
      show "reservation_ok T' q" if q: "q \<in> set (tReservations T')" for q
      proof (cases "crReservationId q = rid")
        case True
        then have "q = resolved_reservation i release r" using q t3 uniq by auto
        then show ?thesis using k(4-6) ok rin(2) id same c
          by (simp add: reservation_ok_def settlement_sum_def alloc_sum_def resolved_reservation_def unresolved_of_def Let_def)
      next
        case False
        then have "q \<in> set (tReservations T)" using q t3 id by auto
        then show ?thesis using credit_invD(9) [OF inv, of q] k(4-6) False same c
          by (simp add: reservation_ok_def settlement_sum_def alloc_sum_def)
      qed
    qed (use same t1(4,5) credit_invD [OF inv] in auto)
  qed
qed


subsection \<open>Runs\<close>

text \<open>The operations, by any client in any scope.  Usage rows, admission decisions and leases are written by other
  parts of the program, and the latter also bind reservations to runs.\<close>

datatype credit_op =
    OpCatalog billing_scope retail_catalog
  | OpLot billing_scope lot_input
  | OpLifecycle billing_scope lifecycle_input
  | OpReserve billing_scope reservation_input
  | OpSettle billing_scope string settlement_input
  | OpSettleOperation billing_scope string settlement_input
  | OpProjection billing_scope instant

fun credit_exec :: "pg_env \<Rightarrow> credit_op \<Rightarrow> credit_db \<Rightarrow> credit_db" where
  "credit_exec E (OpCatalog sc c) d = snd (upsertRetailPriceCatalog E sc c d)"
| "credit_exec E (OpLot sc i) d = snd (createCreditLot E sc i d)"
| "credit_exec E (OpLifecycle sc i) d = snd (appendCreditLifecycle E sc i d)"
| "credit_exec E (OpReserve sc i) d = snd (reserveCredits E sc i d)"
| "credit_exec E (OpSettle sc rid i) d = snd (settleCredits E sc rid i d)"
| "credit_exec E (OpSettleOperation sc res i) d = snd (settleOperation E sc res i d)"
| "credit_exec E (OpProjection sc now) d = snd (financialProjection E sc now d)"

definition op_typed :: "credit_op \<Rightarrow> bool" where
  "op_typed op \<longleftrightarrow> (case op of OpLifecycle sc i \<Rightarrow> lifecycle_type (lfType i) | _ \<Rightarrow> True)"

definition rebound :: "credit_reservation \<Rightarrow> credit_reservation \<Rightarrow> bool" where
  "rebound r r' \<longleftrightarrow> r' = r\<lparr>crRunId := crRunId r', crOperationReference := crOperationReference r'\<rparr>"

definition other_change :: "credit_tables \<Rightarrow> credit_tables \<Rightarrow> bool" where
  "other_change T T' \<longleftrightarrow> tCatalogs T' = tCatalogs T \<and> tLots T' = tLots T \<and> tAllocations T' = tAllocations T
     \<and> tSettlements T' = tSettlements T \<and> tLedger T' = tLedger T \<and> tCheckpoints T' = tCheckpoints T
     \<and> list_all2 rebound (tReservations T) (tReservations T')"

inductive credit_step :: "pg_env \<Rightarrow> credit_db \<Rightarrow> credit_db \<Rightarrow> bool" for E where
  credit_op: "op_typed op \<Longrightarrow> credit_step E d (credit_exec E op d)"
| credit_other: "\<forall>sc. other_change (dbTables d sc) (dbTables d' sc) \<Longrightarrow> dbSequence d' = dbSequence d \<Longrightarrow> credit_step E d d'"

subsection \<open>Properties of the tables of one scope\<close>

text \<open>A property of the tables that every statement and both loops keep is kept by every operation.\<close>

locale statement_law =
  fixes E :: pg_env
    and I :: "credit_tables \<Rightarrow> bool"
  assumes catalog: "keeps I (insert_catalog E sc c)"
    and lot: "keeps I (upsert_lot E sc l)"
    and placeholder: "keeps I (insert_lot_quietly E sc l)"
    and grant: "keeps I (insert_entry E sc q (grant_entry E li lid))"
    and lifecycle: "lifecycle_type (lfType i) \<Longrightarrow> keeps I (insert_entry E sc q (lifecycle_entry E i l))"
    and checkpoint: "keeps I (insert_checkpoint E sc p)"
    and reserve: "keeps I (reserve_tx E ri sc)"
    and settle: "keeps I (settle_tx E rid si sc)"
begin

lemma find_or_place: "keeps I (find_or_place E sc i)"
proof (rule keepsI)
  fix T n x T' n' assume h: "find_or_place E sc i (T, n) = (Inr x, (T', n'))" and "I T"
  then show "I T'"
    by (auto simp: find_or_place_def tx_bind_Inr_iff split: option.splits if_splits dest: keepsD [OF placeholder])
qed

lemma create: "keeps I (tx_bind (upsert_lot E sc l) (\<lambda>_ s.
      case first_row E (P s) of None \<Rightarrow> (Inl SqlViolation, s)
      | Some row \<Rightarrow> tx_bind (insert_entry E sc True (grant_entry E i (clLotId row))) (\<lambda>_. tx_return (parseLot sc row)) s))"
proof (rule keeps_bind [OF lot], rule keepsI)
  fix T n x T' n'
  assume "(case first_row E (P (T, n)) of None \<Rightarrow> (Inl SqlViolation, (T, n))
      | Some row \<Rightarrow> tx_bind (insert_entry E sc True (grant_entry E i (clLotId row))) (\<lambda>_. tx_return (parseLot sc row)) (T, n)) = (Inr x, (T', n'))"
    and "I T"
  then show "I T'"
    using keepsD [OF grant] by (auto simp: tx_bind_Inr_iff tx_return_iff split: option.splits)
qed

lemma project: "keeps I (\<lambda>s. case current_catalog E now (fst s) of None \<Rightarrow> (Inl RETAIL_PRICE_CATALOG_MISSING, s)
      | Some c \<Rightarrow> tx_bind (tx_return (financialProjectionSchema_parse (projection_of E sc' now c (fst s)))) (\<lambda>p.
        tx_bind (insert_checkpoint E sc' p) (\<lambda>_. tx_return (Inr p))) s)"
  by (rule keepsI) (auto simp: tx_bind_Inr_iff tx_return_iff split: option.splits dest: keepsD [OF checkpoint])

lemma settle_at: "I (dbTables d sc) \<Longrightarrow> I (dbTables (snd (settleCredits E sc' rid i d)) sc)"
  unfolding settleCredits_def by (rule keeps_withScope [OF settle])

lemma exec_at:
  assumes "op_typed op" and "I (dbTables d sc)"
  shows "I (dbTables (credit_exec E op d) sc)"
proof (cases op)
  case (OpSettleOperation sc' res i)
  obtain q d1 where w: "withScope sc' (\<lambda>sc s. (Inr (map_option crReservationId (reservation_of E res (fst s))), s)) d = (q, d1)" by fastforce
  moreover have "I (dbTables (snd (withScope sc' (\<lambda>sc s. (Inr (map_option crReservationId (reservation_of E res (fst s))), s)) d)) sc)"
    by (rule keeps_withScope [of I, OF keeps_const assms(2)])
  ultimately have "I (dbTables d1 sc)" by simp
  then show ?thesis using OpSettleOperation w settle_at by (auto simp: settleOperation_def split: sum.splits)
next
  case (OpProjection sc' now)
  have "I (dbTables (snd (financialProjection E sc' now d)) sc)"
    unfolding financialProjection_def by (rule keeps_withScope [of I, OF project assms(2)])
  then show ?thesis using OpProjection by simp
next
  case (OpCatalog sc' c)
  then show ?thesis
    using assms(2) by (auto simp: upsertRetailPriceCatalog_def Let_def intro!: keeps_withScope [of I] keeps_bind catalog keeps_return)
next
  case (OpLot sc' i)
  then show ?thesis using assms(2) by (auto simp: createCreditLot_def intro!: keeps_withScope [of I] create)
next
  case (OpLifecycle sc' i)
  then show ?thesis
    using assms by (auto simp: appendCreditLifecycle_def op_typed_def intro!: keeps_withScope [of I] keeps_bind find_or_place keeps_return lifecycle)
next
  case (OpReserve sc' i)
  then show ?thesis using assms(2) by (auto simp: reserveCredits_def intro!: keeps_withScope [of I] reserve)
next
  case (OpSettle sc' rid i)
  then show ?thesis using settle_at assms(2) by simp
qed

end

text \<open>When the changes by other parts keep it too, it holds along every run.\<close>

locale table_law = statement_law +
  assumes other: "I T \<Longrightarrow> other_change T T' \<Longrightarrow> I T'"
begin

lemma step_at: "credit_step E d d' \<Longrightarrow> I (dbTables d sc) \<Longrightarrow> I (dbTables d' sc)"
  by (induction rule: credit_step.induct) (auto intro: exec_at other)

lemma reaches_at: "reaches (credit_step E) d d' \<Longrightarrow> I (dbTables d sc) \<Longrightarrow> I (dbTables d' sc)"
  by (induction rule: reaches.induct) (auto intro: step_at)

end

definition empty_tables :: credit_tables where
  "empty_tables = \<lparr>tCatalogs = [], tLots = [], tReservations = [], tAllocations = [], tSettlements = [], tLedger = [],
     tUsage = [], tCheckpoints = [], tDecisions = [], tLeases = []\<rparr>"

definition empty_db :: credit_db where
  "empty_db = \<lparr>dbTables = (\<lambda>sc. empty_tables), dbSequence = 1\<rparr>"

definition db_inv :: "credit_db \<Rightarrow> bool" where
  "db_inv d \<longleftrightarrow> (\<forall>sc. credit_inv (dbTables d sc))"

lemma empty_inv: "db_inv empty_db"
  by (simp add: db_inv_def empty_db_def empty_tables_def credit_inv_def books_def ledger_ok_def ledger_sum_def alloc_sum_def)

lemma rebound_ok: "rebound r r' \<Longrightarrow> reservation_ok T r \<Longrightarrow> reservation_ok T r' \<and> crReservationId r' = crReservationId r"
  unfolding rebound_def reservation_ok_def unresolved_of_def by (cases r, cases r') auto

lemma list_all2_source: "list_all2 R xs ys \<Longrightarrow> y \<in> set ys \<Longrightarrow> \<exists>x \<in> set xs. R x y"
  by (induction rule: list_all2_induct) auto

lemma other_change_inv:
  assumes "credit_inv T" and "other_change T T'"
  shows "credit_inv T'"
proof -
  have l: "list_all2 rebound (tReservations T) (tReservations T')" using assms(2) by (simp add: other_change_def)
  then have ids: "map crReservationId (tReservations T') = map crReservationId (tReservations T)"
    by (induction rule: list_all2_induct) (auto simp: rebound_def, metis credit_reservation.select_convs(1) credit_reservation.surjective credit_reservation.update_convs(13,14))
  have "reservation_ok T' r'" if h: "r' \<in> set (tReservations T')" for r'
  proof -
    obtain r where "r \<in> set (tReservations T)" "rebound r r'" using list_all2_source [OF l h] by blast
    then show ?thesis
      using rebound_ok [of r r' T] credit_invD(9) [OF assms(1)] reservation_ok_frame [of T' T] assms(2) by (auto simp: other_change_def)
  qed
  moreover have "crReservationId ` set (tReservations T') = crReservationId ` set (tReservations T)" using ids by (metis list.set_map)
  ultimately show ?thesis
    using assms books_frame [of T' T] ledger_ok_frame [of T' T] ids unfolding credit_inv_def other_change_def by simp
qed

interpretation credit_law: table_law E credit_inv for E
proof
  show "keeps credit_inv (reserve_tx E ri sc)" for ri sc by (rule keeps_reserve)
  show "keeps credit_inv (settle_tx E rid si sc)" for rid si sc by (rule keeps_settle)
qed (auto intro: keeps_catalog keeps_upsert_lot keeps_placeholder keeps_grant keeps_lifecycle keeps_checkpoint other_change_inv)

interpretation credit_run: transition_system "\<lambda>d. d = empty_db" "credit_step E" db_inv for E
  by unfold_locales (auto simp: db_inv_def intro: empty_inv [unfolded db_inv_def, rule_format] credit_law.step_at)

end
