(* ===== verification/Admission.thy ===== *)
theory Admission
  imports Credit_Inv
begin

section \<open>Admission: plans, quotas and prepaid operations\<close>

text \<open>
  \<open>evaluateAdmission\<close> and the admission operations of \<open>BillingPostgresRepository\<close> (\<open>packages/billing-platform\<close>): a
  request is decided against the plan's entitlements and quotas, recorded together with a lease that counts
  towards the concurrency quotas, and, unless the tenant brings its own key, covered by a credit reservation.

  The commercial policy (\<open>snapshot\<close>) and what is measured in tables of other components (sources, chunks, usage)
  are arguments; the leases themselves are counted from the table.
\<close>

datatype quota_meter =
    TenantConcurrentTurn | SessionConcurrentTurn | ProviderSpendMicros | CorpusSource | CorpusByte | CorpusChunk | StorageByte

datatype billing_mode = PlatformManaged | Byok | Hybrid

datatype tax_behavior = ProviderDetermined | Exclusive | Inclusive | TaxUnknown

record quota_policy =
  qpQuotaId :: string
  qpPolicyVersion :: int
  qpMeter :: quota_meter
  qpSoftLimit :: "int option"
  qpHardLimit :: "int option"
  qpInFlightPolicy :: in_flight_policy
  qpEffectiveAt :: instant
  qpExpiresAt :: "instant option"

record entitlement =
  enEntitlementId :: string
  enPlanId :: string
  enPlanVersion :: int
  enKey :: operation
  enEnabled :: bool
  enEffectiveAt :: instant
  enExpiresAt :: "instant option"
  enSourceWebhookEventId :: "string option"

record commercial_plan =
  cpPlanId :: string
  cpPlanVersion :: int
  cpDisplayName :: string
  cpCurrency :: string
  cpEffectiveAt :: instant
  cpRetiredAt :: "instant option"
  cpBillingMode :: billing_mode
  cpTaxBehavior :: tax_behavior

record policy_snapshot =
  psPlan :: commercial_plan
  psEntitlements :: "entitlement list"
  psQuotas :: "quota_policy list"

record admission_request =
  arScope :: billing_scope
  arOperation :: operation
  arMeasurements :: "quota_meter \<Rightarrow> int option"
  arWatermark :: string
  arEvaluatedAt :: instant

definition operationMeters :: "operation \<Rightarrow> quota_meter list" where
  "operationMeters op =
    (case op of TurnStart \<Rightarrow> [TenantConcurrentTurn, SessionConcurrentTurn, ProviderSpendMicros]
     | SourceUpload \<Rightarrow> [CorpusSource, CorpusByte, StorageByte]
     | SourceIndex \<Rightarrow> [CorpusChunk, ProviderSpendMicros]
     | SourceRetrieval \<Rightarrow> [ProviderSpendMicros]
     | WorkspaceConcurrency \<Rightarrow> [TenantConcurrentTurn])"

definition operation_text :: "operation \<Rightarrow> string" where
  "operation_text op =
    (case op of TurnStart \<Rightarrow> ''turn.start'' | SourceUpload \<Rightarrow> ''source.upload'' | SourceIndex \<Rightarrow> ''source.index''
     | SourceRetrieval \<Rightarrow> ''source.retrieval'' | WorkspaceConcurrency \<Rightarrow> ''workspace.concurrency'')"

text \<open>\<open>policy.meter.toUpperCase()\<close>.\<close>

definition meter_upper :: "quota_meter \<Rightarrow> string" where
  "meter_upper m =
    (case m of TenantConcurrentTurn \<Rightarrow> ''TENANT_CONCURRENT_TURN'' | SessionConcurrentTurn \<Rightarrow> ''SESSION_CONCURRENT_TURN''
     | ProviderSpendMicros \<Rightarrow> ''PROVIDER_SPEND_MICROS'' | CorpusSource \<Rightarrow> ''CORPUS_SOURCE'' | CorpusByte \<Rightarrow> ''CORPUS_BYTE''
     | CorpusChunk \<Rightarrow> ''CORPUS_CHUNK'' | StorageByte \<Rightarrow> ''STORAGE_BYTE'')"

definition all_meters :: "quota_meter list" where
  "all_meters = [TenantConcurrentTurn, SessionConcurrentTurn, ProviderSpendMicros, CorpusSource, CorpusByte, CorpusChunk, StorageByte]"

subsection \<open>Schemas\<close>

definition commercialPlanSchema :: "commercial_plan \<Rightarrow> bool" where
  "commercialPlanSchema p \<longleftrightarrow> billing_id (cpPlanId p) \<and> 0 < cpPlanVersion p \<and> billing_id (cpDisplayName p)
     \<and> currency_code (cpCurrency p) \<and> iso_datetime (cpEffectiveAt p) \<and> nullable_datetime (cpRetiredAt p)"

definition entitlementSchema :: "entitlement \<Rightarrow> bool" where
  "entitlementSchema e \<longleftrightarrow> billing_id (enEntitlementId e) \<and> billing_id (enPlanId e) \<and> 0 < enPlanVersion e
     \<and> iso_datetime (enEffectiveAt e) \<and> nullable_datetime (enExpiresAt e) \<and> nullable_id (enSourceWebhookEventId e)"

definition quotaPolicySchema :: "quota_policy \<Rightarrow> bool" where
  "quotaPolicySchema q \<longleftrightarrow> billing_id (qpQuotaId q) \<and> 0 < qpPolicyVersion q
     \<and> (case qpSoftLimit q of None \<Rightarrow> True | Some l \<Rightarrow> 0 \<le> l) \<and> (case qpHardLimit q of None \<Rightarrow> True | Some l \<Rightarrow> 0 < l)
     \<and> iso_datetime (qpEffectiveAt q) \<and> nullable_datetime (qpExpiresAt q)"

definition admissionRequestSchema_parse :: "admission_request \<Rightarrow> admission_request option" where
  "admissionRequestSchema_parse r =
    (case billingScopeSchema_parse (arScope r) of
       None \<Rightarrow> None
     | Some sc \<Rightarrow>
       if list_all (\<lambda>m. case arMeasurements r m of None \<Rightarrow> True | Some x \<Rightarrow> 0 \<le> x) all_meters
          \<and> billing_id (arWatermark r) \<and> iso_datetime (arEvaluatedAt r)
       then Some (r\<lparr>arScope := sc, arWatermark := js_trim (arWatermark r)\<rparr>) else None)"

definition admissionDecisionSchema_parse :: "quota_decision \<Rightarrow> credit_error + quota_decision" where
  "admissionDecisionSchema_parse q =
    (if billing_id (qdDecisionId q) \<and> billing_id (qdReason q) \<and> 0 < qdPolicyVersion q \<and> billing_id (qdWatermark q)
        \<and> iso_datetime (qdEvaluatedAt q)
     then Inr (q\<lparr>qdDecisionId := js_trim (qdDecisionId q), qdReason := js_trim (qdReason q), qdWatermark := js_trim (qdWatermark q)\<rparr>)
     else Inl SchemaInvalid)"

subsection \<open>Evaluating a request\<close>

text \<open>The loop over the quotas: the first exceeded hard limit denies, the first exceeded soft limit is remembered.\<close>

definition measured_of :: "admission_request \<Rightarrow> quota_policy \<Rightarrow> int" where
  "measured_of r p = (case arMeasurements r (qpMeter p) of Some x \<Rightarrow> x | None \<Rightarrow> 0)"

definition reaches_limit :: "int option \<Rightarrow> int \<Rightarrow> bool" where
  "reaches_limit limit measured \<longleftrightarrow> (case limit of None \<Rightarrow> False | Some l \<Rightarrow> l \<le> measured)"

fun apply_quotas :: "admission_request \<Rightarrow> quota_policy option \<Rightarrow> quota_policy list \<Rightarrow> admission_outcome \<times> string \<times> int option \<times> in_flight_policy" where
  "apply_quotas r warning [] =
    (case warning of
       Some p \<Rightarrow> (Warn, ''SOFT_LIMIT_'' @ meter_upper (qpMeter p), Some (qpPolicyVersion p), qpInFlightPolicy p)
     | None \<Rightarrow> (Allow, ''WITHIN_POLICY'', None, Continue))"
| "apply_quotas r warning (p # ps) =
    (if qpMeter p \<notin> set (operationMeters (arOperation r)) then apply_quotas r warning ps
     else if reaches_limit (qpHardLimit p) (measured_of r p) then
       (DenyAdmission, ''HARD_LIMIT_'' @ meter_upper (qpMeter p), Some (qpPolicyVersion p), qpInFlightPolicy p)
     else if reaches_limit (qpSoftLimit p) (measured_of r p) then apply_quotas r (nullish warning (Some p)) ps
     else apply_quotas r warning ps)"

definition decision_id :: "pg_env \<Rightarrow> admission_request \<Rightarrow> commercial_plan \<Rightarrow> string" where
  "decision_id E r p =
    ''qad_'' @ take 32 (pgSha256 E (stringify (JArr [JStr (bsTenantId (arScope r)), JStr (bsOrganizationId (arScope r)),
       JStr (bsWorkspaceId (arScope r)), JStr (operation_text (arOperation r)), JStr (arWatermark r), JNum (cpPlanVersion p)])))"

definition evaluateAdmission :: "pg_env \<Rightarrow> admission_request \<Rightarrow> policy_snapshot \<Rightarrow> credit_error + quota_decision" where
  "evaluateAdmission E requestInput snap =
    (case admissionRequestSchema_parse requestInput of
       None \<Rightarrow> Inl SchemaInvalid
     | Some r \<Rightarrow>
       if \<not> commercialPlanSchema (psPlan snap) \<or> \<not> list_all entitlementSchema (psEntitlements snap) then Inl SchemaInvalid
       else
         (let base = (\<lambda>outcome reason version flight. admissionDecisionSchema_parse
                \<lparr>qdDecisionId = decision_id E r (psPlan snap), qdOperation = arOperation r, qdOutcome = outcome, qdReason = reason,
                 qdPolicyVersion = (case version of Some v \<Rightarrow> v | None \<Rightarrow> cpPlanVersion (psPlan snap)),
                 qdWatermark = arWatermark r, qdInFlightPolicy = flight, qdEvaluatedAt = arEvaluatedAt r\<rparr>)
          in case find (\<lambda>e. enKey e = arOperation r) (psEntitlements snap) of
               None \<Rightarrow> base DenyAdmission ''ENTITLEMENT_DISABLED'' None Continue
             | Some e \<Rightarrow>
               if \<not> enEnabled e then base DenyAdmission ''ENTITLEMENT_DISABLED'' None Continue
               else if \<not> list_all quotaPolicySchema (psQuotas snap) then Inl SchemaInvalid
               else (case apply_quotas r None (psQuotas snap) of
                       (outcome, reason, version, flight) \<Rightarrow> base outcome reason version flight)))"

definition requiresPrepaidCredits :: "billing_mode \<Rightarrow> bool" where
  "requiresPrepaidCredits m \<longleftrightarrow> m \<noteq> Byok"

subsection \<open>Decisions and leases in the database\<close>

text \<open>\<open>INSERT INTO quota_decisions ... ON CONFLICT DO NOTHING\<close>.\<close>

definition insert_decision :: "pg_env \<Rightarrow> billing_scope \<Rightarrow> quota_decision \<Rightarrow> unit tx" where
  "insert_decision E sc q s =
    (case s of (T, n) \<Rightarrow>
       if qdPolicyVersion q \<le> 0 then (Inl SqlViolation, s)
       else if list_ex (\<lambda>x. qdDecisionId x = qdDecisionId q
              \<or> qdOperation x = qdOperation q \<and> qdWatermark x = qdWatermark q \<and> qdPolicyVersion x = qdPolicyVersion q) (tDecisions T)
         then (Inr (), s)
       else if \<not> row_scope E sc then (Inl SqlViolation, s)
       else (Inr (), (T\<lparr>tDecisions := tDecisions T @ [q]\<rparr>, n)))"

definition insert_lease :: "pg_env \<Rightarrow> billing_scope \<Rightarrow> admission_lease \<Rightarrow> unit tx" where
  "insert_lease E sc l s =
    (case s of (T, n) \<Rightarrow>
       if \<not> row_scope E sc \<or> alReservedCount l < 0 \<or> alReservedBytes l < 0
          \<or> list_ex (\<lambda>x. alRequestKey x = alRequestKey l \<or> alDecisionId x = alDecisionId l) (tLeases T)
          \<or> \<not> list_ex (\<lambda>q. qdDecisionId q = alDecisionId l) (tDecisions T)
       then (Inl SqlViolation, s)
       else (Inr (), (T\<lparr>tLeases := tLeases T @ [l]\<rparr>, n)))"

text \<open>What the measuring query reads from other components' tables.\<close>

record corpus_measures =
  cmSources :: int
  cmBytes :: int
  cmChunks :: int
  cmLedgerMark :: string
  cmCorpusMark :: string

record admission_input =
  aiOperation :: operation
  aiRequestKey :: string
  aiSessionId :: "string option"
  aiRequestedBytes :: "int option"
  aiEvaluatedAt :: instant

definition active_turn :: "admission_lease \<Rightarrow> bool" where
  "active_turn l \<longleftrightarrow> alOperation l = TurnStart \<and> alReleasedAt l = None"

definition active_turns :: "credit_tables \<Rightarrow> int" where
  "active_turns T = int (length (filter active_turn (tLeases T)))"

definition uploaded_bytes :: "admission_input \<Rightarrow> int" where
  "uploaded_bytes i = (if aiOperation i = SourceUpload then (case aiRequestedBytes i of Some b \<Rightarrow> b | None \<Rightarrow> 0) else 0)"

definition measure :: "admission_input \<Rightarrow> corpus_measures \<Rightarrow> credit_tables \<Rightarrow> quota_meter \<Rightarrow> int" where
  "measure i cm T m =
    (case m of
       TenantConcurrentTurn \<Rightarrow> active_turns T
     | SessionConcurrentTurn \<Rightarrow>
         int (length (filter (\<lambda>l. active_turn l \<and> alSessionId l \<noteq> None \<and> alSessionId l = aiSessionId i) (tLeases T)))
     | ProviderSpendMicros \<Rightarrow> sum_of usage_cost (tUsage T)
     | CorpusSource \<Rightarrow> cmSources cm
     | CorpusByte \<Rightarrow> cmBytes cm + uploaded_bytes i
     | CorpusChunk \<Rightarrow> cmChunks cm
     | StorageByte \<Rightarrow> cmBytes cm)"

definition admission_watermark :: "pg_env \<Rightarrow> admission_input \<Rightarrow> corpus_measures \<Rightarrow> credit_tables \<Rightarrow> string" where
  "admission_watermark E i cm T =
    ''bwm_'' @ take 32 (pgSha256 E (stringify (JArr [
       JObj [(''tenant_concurrent_turn'', JNum (measure i cm T TenantConcurrentTurn)),
             (''session_concurrent_turn'', JNum (measure i cm T SessionConcurrentTurn)),
             (''provider_spend_micros'', JNum (measure i cm T ProviderSpendMicros)),
             (''corpus_source'', JNum (measure i cm T CorpusSource)),
             (''corpus_byte'', JNum (measure i cm T CorpusByte)),
             (''corpus_chunk'', JNum (measure i cm T CorpusChunk)),
             (''storage_byte'', JNum (measure i cm T StorageByte))],
       JStr (cmLedgerMark cm), JStr (cmCorpusMark cm),
       JStr (show_nat (length (filter (\<lambda>l. alReleasedAt l = None) (tLeases T)))), JStr (aiRequestKey i)])))"

definition lease_of :: "admission_input \<Rightarrow> quota_decision \<Rightarrow> admission_lease" where
  "lease_of i q =
    \<lparr>alRequestKey = aiRequestKey i, alDecisionId = qdDecisionId q, alOperation = qdOperation q, alSessionId = aiSessionId i,
     alResourceId = None, alReservedCount = (if aiOperation i = TurnStart then 1 else 0), alReservedBytes = uploaded_bytes i,
     alCreatedAt = qdEvaluatedAt q, alReleasedAt = (if qdOutcome q = DenyAdmission then Some (qdEvaluatedAt q) else None)\<rparr>"

definition recorded_decision :: "string \<Rightarrow> credit_tables \<Rightarrow> quota_decision option" where
  "recorded_decision key T =
    (case find (\<lambda>l. alRequestKey l = key) (tLeases T) of
       None \<Rightarrow> None
     | Some l \<Rightarrow> find (\<lambda>q. qdDecisionId q = alDecisionId l) (tDecisions T))"

definition admit_tx :: "pg_env \<Rightarrow> admission_input \<Rightarrow> policy_snapshot \<Rightarrow> corpus_measures \<Rightarrow> billing_scope \<Rightarrow> quota_decision tx" where
  "admit_tx E i snap cm sc s =
    (case recorded_decision (aiRequestKey i) (fst s) of
       Some q \<Rightarrow> (admissionDecisionSchema_parse q, s)
     | None \<Rightarrow>
       tx_bind (tx_return (evaluateAdmission E
           \<lparr>arScope = sc, arOperation = aiOperation i, arMeasurements = (\<lambda>m. Some (measure i cm (fst s) m)),
            arWatermark = admission_watermark E i cm (fst s), arEvaluatedAt = aiEvaluatedAt i\<rparr> snap)) (\<lambda>q.
       tx_bind (insert_decision E sc q) (\<lambda>_.
       tx_bind (insert_lease E sc (lease_of i q)) (\<lambda>_. tx_return (Inr q)))) s)"

definition recordDecision :: "pg_env \<Rightarrow> billing_scope \<Rightarrow> quota_decision \<Rightarrow> credit_db \<Rightarrow> (credit_error, unit, credit_db) outcome" where
  "recordDecision E scopeInput q d =
    (case admissionDecisionSchema_parse q of
       Inl err \<Rightarrow> (Inl err, d)
     | Inr q' \<Rightarrow> withScope scopeInput (\<lambda>sc. insert_decision E sc q') d)"

definition release_leases :: "(admission_lease \<Rightarrow> bool) \<Rightarrow> instant \<Rightarrow> credit_tables \<Rightarrow> credit_tables" where
  "release_leases P now T =
    T\<lparr>tLeases := map (\<lambda>l. if P l then l\<lparr>alReleasedAt := nullish (alReleasedAt l) (Some now)\<rparr> else l) (tLeases T)\<rparr>"

definition admission_key :: "string \<Rightarrow> string" where
  "admission_key requestKey = ''admission:'' @ requestKey"

text \<open>The reservation of a decision, through the request key of its lease.\<close>

definition decision_reservations :: "string \<Rightarrow> credit_tables \<Rightarrow> credit_reservation list" where
  "decision_reservations did T =
    filter (\<lambda>r. list_ex (\<lambda>l. alDecisionId l = did \<and> crIdempotencyKey r = admission_key (alRequestKey l)) (tLeases T)) (tReservations T)"

definition cancel_settlement :: "string \<Rightarrow> instant \<Rightarrow> settlement_input" where
  "cancel_settlement did now =
    \<lparr>siIdempotencyKey = ''cancel:'' @ did, siUsageDedupeKey = ''cancel:'' @ did, siMeasured = 0, siUsageStatus = Measured,
     siOutcome = OutFailed, siTerminal = True, siRunId = None, siOccurredAt = now\<rparr>"

definition cancelDecision :: "pg_env \<Rightarrow> billing_scope \<Rightarrow> string \<Rightarrow> instant \<Rightarrow> credit_db \<Rightarrow> (credit_error, unit, credit_db) outcome" where
  "cancelDecision E scopeInput did now d =
    (case withScope scopeInput (\<lambda>sc s.
            (Inr (map_option crReservationId (first_row E (decision_reservations did (fst s)))),
             (release_leases (\<lambda>l. alDecisionId l = did) now (fst s), snd s))) d of
       (Inl err, d1) \<Rightarrow> (Inl err, d1)
     | (Inr rid, d1) \<Rightarrow>
       if \<not> truthy rid then (Inr (), d1)
       else (case settleCredits E scopeInput (the rid) (cancel_settlement did now) d1 of
               (Inl err, d2) \<Rightarrow> (Inl err, d2)
             | (Inr v, d2) \<Rightarrow> (Inr (), d2)))"

definition completeOperation :: "billing_scope \<Rightarrow> string \<Rightarrow> instant \<Rightarrow> credit_db \<Rightarrow> (credit_error, unit, credit_db) outcome" where
  "completeOperation scopeInput resource now =
    withScope scopeInput (\<lambda>sc s. (Inr (), (release_leases (\<lambda>l. alResourceId l = Some resource) now (fst s), snd s)))"

definition bindDecision :: "billing_scope \<Rightarrow> string \<Rightarrow> string \<Rightarrow> credit_db \<Rightarrow> (credit_error, nat, credit_db) outcome" where
  "bindDecision scopeInput did resource =
    withScope scopeInput (\<lambda>sc s.
      (let T = fst s;
           hit = (\<lambda>l. alDecisionId l = did \<and> (alResourceId l = None \<or> alResourceId l = Some resource))
       in (Inr (length (filter hit (tLeases T))),
           (T\<lparr>tLeases := map (\<lambda>l. if hit l then l\<lparr>alResourceId := Some resource\<rparr> else l) (tLeases T),
              tReservations := map (\<lambda>r. if r \<in> set (decision_reservations did T)
                then r\<lparr>crRunId := nullish (crRunId r) (Some resource), crOperationReference := nullish (crOperationReference r) (Some resource)\<rparr>
                else r) (tReservations T)\<rparr>, snd s))))"

definition admission_reservation :: "admission_input \<Rightarrow> reservation_input" where
  "admission_reservation i =
    \<lparr>riOperation = aiOperation i, riIdempotencyKey = admission_key (aiRequestKey i), riMaximum = None, riRunId = None,
     riOperationReference = Some (aiRequestKey i), riOccurredAt = aiEvaluatedAt i\<rparr>"

definition credit_denial :: "pg_env \<Rightarrow> quota_decision \<Rightarrow> credit_error + quota_decision" where
  "credit_denial E q = admissionDecisionSchema_parse
    (q\<lparr>qdDecisionId := deterministicId E ''qad'' [qdDecisionId q, ''credit-insufficient''], qdOutcome := DenyAdmission,
       qdReason := ''HARD_LIMIT_PREPAID_CREDIT'', qdWatermark := qdWatermark q @ '':credit''\<rparr>)"

text \<open>\<open>admit\<close>: decide and lease in one transaction, then reserve the credits in another; without credits the decision is
  cancelled and a denial is recorded and answered.\<close>

definition admit :: "pg_env \<Rightarrow> billing_scope \<Rightarrow> admission_input \<Rightarrow> policy_snapshot \<Rightarrow> corpus_measures \<Rightarrow> instant \<Rightarrow> credit_db \<Rightarrow>
    (credit_error, quota_decision, credit_db) outcome" where
  "admit E scopeInput i snap cm now d =
    (case withScope scopeInput (admit_tx E i snap cm) d of
       (Inl err, d1) \<Rightarrow> (Inl err, d1)
     | (Inr q, d1) \<Rightarrow>
       if qdOutcome q = DenyAdmission \<or> \<not> requiresPrepaidCredits (cpBillingMode (psPlan snap)) then (Inr q, d1)
       else
         (case reserveCredits E scopeInput (admission_reservation i) d1 of
            (Inr v, d2) \<Rightarrow> (Inr q, d2)
          | (Inl err, d2) \<Rightarrow>
            if err \<notin> {CREDIT_INSUFFICIENT, NEGATIVE_BALANCE_FORBIDDEN} then (Inl err, d2)
            else (case cancelDecision E scopeInput (qdDecisionId q) now d2 of
                    (Inl err', d3) \<Rightarrow> (Inl err', d3)
                  | (Inr u, d3) \<Rightarrow>
                    (case credit_denial E q of
                       Inl err' \<Rightarrow> (Inl err', d3)
                     | Inr denied \<Rightarrow>
                       (case recordDecision E scopeInput denied d3 of
                          (Inl err', d4) \<Rightarrow> (Inl err', d4)
                        | (Inr u', d4) \<Rightarrow> (Inr denied, d4))))))"

definition latestDecision :: "pg_env \<Rightarrow> billing_scope \<Rightarrow> credit_db \<Rightarrow> (credit_error, quota_decision option, credit_db) outcome" where
  "latestDecision E scopeInput =
    withScope scopeInput (\<lambda>sc s.
      case first_row E (maximal (\<lambda>x y. qdEvaluatedAt x < qdEvaluatedAt y
             \<or> qdEvaluatedAt x = qdEvaluatedAt y \<and> pgTextLe E (qdDecisionId x) (qdDecisionId y)) (tDecisions (fst s))) of
        None \<Rightarrow> (Inr None, s)
      | Some q \<Rightarrow> (map_sum id Some (admissionDecisionSchema_parse q), s))"

end
