(* ===== verification/Credit_Props.thy ===== *)
theory Credit_Props
  imports Credit_Inv
begin

section \<open>Properties of the prepaid credits\<close>

text \<open>
  What a reservation, a settlement and a grant do to the books along every run of the repository.
\<close>

subsection \<open>The balance\<close>

definition granted_delta :: "ledger_entry \<Rightarrow> int" where
  "granted_delta e = (if leType e \<in> {Purchase, PromotionalGrant, AdminAdjustment} then leCredits e else 0)"

definition withdrawn_delta :: "ledger_entry \<Rightarrow> int" where
  "withdrawn_delta e = (if leType e \<in> {Refund, Chargeback, Expiration} then leCredits e else 0)"

lemma credit_reachable_inv: "reaches (credit_step E) empty_db d \<Longrightarrow> credit_inv (dbTables d sc)"
  using credit_run.reachable_inv [of empty_db E d] by (simp add: db_inv_def)

lemma find_some_in: "(\<exists>x \<in> set xs. P x) \<Longrightarrow> \<exists>y. find P xs = Some y"
  by (induction xs) auto

lemma find_in: "find P xs = Some x \<Longrightarrow> x \<in> set xs \<and> P x"
  by (induction xs) (auto split: if_splits)

lemma joined_all:
  assumes "ledger_ok T"
  shows "joined T = tLedger T" "\<forall>e \<in> set (tLedger T). \<exists>k. lot_kind_of T (leLotId e) = Some k"
proof -
  have "\<exists>k. lot_kind_of T (leLotId e) = Some k" if "e \<in> set (tLedger T)" for e
  proof -
    have "\<exists>l \<in> set (tLots T). clLotId l = leLotId e" using assms that unfolding ledger_ok_def by (metis image_iff)
    then show ?thesis using find_some_in by (fastforce simp: lot_kind_of_def)
  qed
  then show "\<forall>e \<in> set (tLedger T). \<exists>k. lot_kind_of T (leLotId e) = Some k" by blast
  then show "joined T = tLedger T" unfolding joined_def by (intro filter_True) auto
qed

lemma of_kind_sum: "sum_of f (of_kind T k) = ledger_sum f (\<lambda>l y. lot_kind_of T l = Some k) T"
  by (simp add: of_kind_def ledger_sum_def)

lemma ledger_sum_all: "sum_of f (tLedger T) = ledger_sum f (\<lambda>l y. True) T"
  by (simp add: ledger_sum_def)

lemma sum_of_kinds:
  "\<forall>x \<in> set xs. \<exists>k. K x = Some k \<Longrightarrow> sum_of f (filter (\<lambda>x. K x = Some Paid) xs) + sum_of f (filter (\<lambda>x. K x = Some Promotional) xs) = sum_of f xs"
  by (induction xs) (auto, (metis lot_kind.exhaust)+)

lemma alloc_sum_reservations:
  assumes "credit_inv T"
  shows "alloc_sum f (\<lambda>l y. True) T = sum_of (\<lambda>r. alloc_sum f (by_reservation (crReservationId r)) T) (tReservations T)"
proof -
  have "alloc_sum f (\<lambda>l y. True) T = sum_of (\<lambda>k. sum_of f (filter (\<lambda>a. caReservationId a = k) (tAllocations T))) (map crReservationId (tReservations T))"
    unfolding alloc_sum_def using credit_invD(4,7) [OF assms] by (simp add: sum_partition [where key = caReservationId])
  then show ?thesis by (simp add: sum_of_def comp_def alloc_sum_def by_reservation_def)
qed

lemma reservation_bounds:
  assumes "credit_inv T" and "r \<in> set (tReservations T)"
  shows "0 \<le> crSettled r" "0 \<le> crReleased r" "0 \<le> unresolved_of r" "unresolved_of r = alloc_sum remaining_of (by_reservation (crReservationId r)) T"
  using credit_invD(9) [OF assms] alloc_sum_nonneg [OF credit_invD(1) [OF assms(1)]]
  by (simp_all add: reservation_ok_def unresolved_of_def alloc_sum_remaining)

lemma reserved_total:
  assumes "credit_inv T"
  shows "sum_of reserved_delta (tLedger T) = sum_of unresolved_of (tReservations T)"
    "sum_of consumed_delta (tLedger T) = sum_of crSettled (tReservations T)"
proof -
  note b = credit_invD(1) [OF assms]
  show "sum_of reserved_delta (tLedger T) = sum_of unresolved_of (tReservations T)"
    using books_reserved [OF b, of "\<lambda>l y. True"] alloc_sum_reservations [OF assms, of remaining_of] reservation_bounds(4) [OF assms]
      sum_of_cong [of "tReservations T" unresolved_of] by (simp add: ledger_sum_all)
  have "crSettled r = alloc_sum caSettled (by_reservation (crReservationId r)) T" if "r \<in> set (tReservations T)" for r
    using credit_invD(9) [OF assms that] by (simp add: reservation_ok_def)
  then show "sum_of consumed_delta (tLedger T) = sum_of crSettled (tReservations T)"
    using booksD(4) [OF b, of "\<lambda>l y. True"] alloc_sum_reservations [OF assms, of caSettled] sum_of_cong [of "tReservations T" crSettled]
    by (simp add: ledger_sum_all)
qed

text \<open>C19. The balance is the books.  In every reachable state of the database the balance answered for a scope shows as reserved
  exactly what the open reservations have not settled or released yet, and as consumed exactly what they have settled; the reserved
  part splits into its paid and promotional parts; available, reserved and consumed credits together are what was granted minus
  what was refunded, charged back or expired; and reading the balance changes nothing.
\<close>

theorem credit_books_balance:
  assumes "reaches (credit_step E) empty_db d"
    and "creditBalance E scopeInput now d = (Inr b, d')" and "billingScopeSchema_parse scopeInput = Some sc"
  shows "cbReserved b = sum_of unresolved_of (tReservations (dbTables d sc))
    \<and> cbConsumed b = sum_of crSettled (tReservations (dbTables d sc))
    \<and> cbPaidReserved b + cbPromotionalReserved b = cbReserved b
    \<and> cbAvailable b + cbReserved b + cbConsumed b
        = sum_of granted_delta (tLedger (dbTables d sc)) - sum_of withdrawn_delta (tLedger (dbTables d sc))
    \<and> dbTables d' = dbTables d"
proof -
  define T where "T = dbTables d sc"
  have inv: "credit_inv T" using credit_reachable_inv [OF assms(1)] by (simp add: T_def)
  note bk = credit_invD(1) [OF inv] and j = joined_all [OF credit_invD(2) [OF inv]]
  have nonneg: "0 \<le> sum_of reserved_delta (of_kind T k)" for k
    using books_reserved [OF bk] alloc_sum_nonneg(3) [OF bk] by (simp add: of_kind_sum)
  have parts: "sum_of reserved_delta (of_kind T Paid) + sum_of reserved_delta (of_kind T Promotional) = sum_of reserved_delta (tLedger T)"
    unfolding of_kind_def by (rule sum_of_kinds [OF j(2)])
  have total: "sum_of available_delta es + sum_of reserved_delta es + sum_of consumed_delta es = sum_of granted_delta es - sum_of withdrawn_delta es" for es
    by (induction es) (auto simp: available_delta_def reserved_delta_def consumed_delta_def granted_delta_def withdrawn_delta_def)
  have b: "cbReserved b = max 0 (sum_of reserved_delta (tLedger T))" "cbConsumed b = sum_of consumed_delta (tLedger T)"
    "cbAvailable b = sum_of available_delta (tLedger T)" "cbPaidReserved b = max 0 (sum_of reserved_delta (of_kind T Paid))"
    "cbPromotionalReserved b = max 0 (sum_of reserved_delta (of_kind T Promotional))" "dbTables d' = dbTables d"
    using assms(2,3) j(1)
    by (auto simp: creditBalance_def withScope_def creditBalanceSchema_parse_def balance_of_def T_def split: if_splits)
  then show ?thesis
    using nonneg [of Paid] nonneg [of Promotional] parts total [of "tLedger T"] reserved_total [OF inv] by (simp flip: T_def)
qed


subsection \<open>Reserving\<close>

text \<open>Promotional lots come first, whatever the collation.\<close>

definition kind_order :: "credit_lot \<Rightarrow> credit_lot \<Rightarrow> bool" where
  "kind_order x y \<longleftrightarrow> clKind x = Promotional \<or> clKind y = Paid"

lemma kind_order_insert: "sorted_wrt kind_order ls \<Longrightarrow> sorted_wrt kind_order (sorted_insert (lot_before E) x ls)"
proof (induction ls)
  case (Cons y ls)
  then show ?case
    by (cases "clKind x"; cases "clKind y")
      (auto simp: lot_before_def kind_order_def set_sorted_insert dest: lot_kind.exhaust split: if_splits)
qed simp

lemma spendable_order: "sorted_wrt kind_order (spendable_lots E t T)"
proof -
  have "sorted_wrt kind_order (order_by (lot_before E) ls)" for ls
    by (induction ls) (simp_all add: order_by_def kind_order_insert)
  then show ?thesis by (simp add: spendable_lots_def)
qed

lemma spendable_distinct: "distinct (map clLotId (tLots T)) \<Longrightarrow> distinct (map clLotId (spendable_lots E t T))"
  by (simp add: spendable_lots_def distinct_map_filter)

lemma spendable_set:
  "l \<in> set (spendable_lots E t T) \<longleftrightarrow> l \<in> set (tLots T) \<and> (case clExpiresAt l of None \<Rightarrow> True | Some u \<Rightarrow> t < u) \<and> 0 < lot_available T (clLotId l)"
  by (auto simp: spendable_lots_def)

text \<open>A lot is taken from only when the lots before it in the same currency are used up.\<close>

lemma allocate_greedy:
  assumes "allocate cur mx (xs @ (l, a) # ys) = (as, rest)" and "0 < mx" and "(clLotId l, m) \<in> set as"
    and "distinct (map (\<lambda>x. clLotId (fst x)) (xs @ (l, a) # ys))" and "(x, ax) \<in> set xs" and "clCurrency x = cur" and "0 < ax"
  shows "(clLotId x, ax) \<in> set as"
  using assms
proof (induction xs arbitrary: mx as rest)
  case (Cons y xs)
  obtain z az where y: "y = (z, az)" by (cases y)
  let ?ls = "xs @ (l, a) # ys"
  show ?case
  proof (cases "clCurrency z \<noteq> cur \<or> min mx az \<le> 0")
    case True
    then have "allocate cur mx ?ls = (as, rest)" "x \<noteq> z \<or> ax \<noteq> az"
      using Cons.prems(1,2,6,7) y by (auto simp: Let_def split: if_splits)
    then show ?thesis using Cons.IH [OF _ Cons.prems(2,3)] Cons.prems(4-7) y by auto
  next
    case False
    note cur = this
    have lz: "clLotId l \<noteq> clLotId z" using Cons.prems(4) y by auto
    have more: "mx - min mx az \<noteq> 0"
    proof
      assume "mx - min mx az = 0"
      then have "as = [(clLotId z, mx)]" using Cons.prems(1) cur y by (auto simp: Let_def)
      then show False using Cons.prems(3) lz by simp
    qed
    then have less: "az < mx" "min mx az = az" by (auto simp: min_def split: if_splits)
    then obtain as' where as': "allocate cur (mx - az) ?ls = (as', rest)" "as = (clLotId z, az) # as'"
      using Cons.prems(1) cur more y by (auto simp: Let_def split: prod.splits)
    show ?thesis
    proof (cases "(x, ax) = (z, az)")
      case False
      then show ?thesis using Cons.IH [OF as'(1)] less(1) Cons.prems(3-7) as'(2) lz y by auto
    qed (use as' in simp)
  qed
qed simp


lemma sum_of_key: "distinct (map fst as) \<Longrightarrow> sum_of snd (filter (\<lambda>(l, m). l = lid) as) = (case map_of as lid of None \<Rightarrow> 0 | Some m \<Rightarrow> m)"
proof (induction as)
  case (Cons x as)
  have "map_of as (fst x) = None" using Cons.prems by (simp add: map_of_eq_None_iff)
  then show ?case using Cons by (cases x) (auto split: option.splits)
qed simp

definition live_at :: "instant \<Rightarrow> credit_lot \<Rightarrow> bool" where
  "live_at t l \<longleftrightarrow> (case clExpiresAt l of None \<Rightarrow> True | Some u \<Rightarrow> t < u)"

lemma reserve_effect:
  assumes "credit_inv T" and "reserve_tx E i sc (T, n) = (Inr v, (T', n'))"
    and "find (\<lambda>r. crIdempotencyKey r = riIdempotencyKey i) (tReservations T) = None"
  obtains as mx and c :: retail_catalog where "0 < mx" "crMaximum v = mx" "crSettled v = 0" "crReleased v = 0" "crCurrency v = rcCurrency c" "mx \<le> available T"
    "available T' = available T - mx" "distinct (map fst as)" "tLots T' = tLots T"
    "\<And>lid. lot_available T' lid = lot_available T lid - (case map_of as lid of None \<Rightarrow> 0 | Some m \<Rightarrow> m)"
    "allocate (rcCurrency c) mx (map (\<lambda>l. (l, lot_available T (clLotId l))) (spendable_lots E (riOccurredAt i) T)) = (as, 0)"
    "tReservations T' = tReservations T @ [new_reservation E sc i c mx]"
proof -
  obtain c mx as rest T1 n1 u w row where mx: "0 < mx" "mx \<le> available T" and rest: "\<not> 0 < rest"
    and al: "allocate (rcCurrency c) mx (map (\<lambda>l. (l, lot_available T (clLotId l))) (spendable_lots E (riOccurredAt i) T)) = (as, rest)"
    and st: "insert_reservation E sc (new_reservation E sc i c mx) (T, n) = (Inr u, (T1, n1))"
      "insert_allocations E sc i (new_reservation E sc i c mx) 0 as (T1, n1) = (Inr w, (T', n'))"
    and row: "find (\<lambda>x. crReservationId x = crReservationId (new_reservation E sc i c mx)) (tReservations T') = Some row" "parseReservation sc row = Inr v"
    by (rule reserve_fresh [OF assms(2,3)]) (rule that)
  let ?r = "new_reservation E sc i c mx"
  have t1: "T1 = T\<lparr>tReservations := tReservations T @ [?r]\<rparr>" "crReservationId ?r \<notin> crReservationId ` set (tReservations T)"
    using st(1) by (auto simp: insert_reservation_def list_ex_iff split: if_splits)
  have "books T1" using books_frame [of T1 T] credit_invD(1) [OF assms(1)] t1(1) by simp
  note k = insert_allocations_keeps [OF st(2) this]
  have res: "tReservations T' = tReservations T @ [?r]" "tLots T' = tLots T" using k t1(1) by (auto simp: rest_same_def)
  have "row \<in> set (tReservations T @ [?r])" "crReservationId row = crReservationId ?r" using find_in [OF row(1)] res(1) by auto
  then have "row = ?r" using t1(2) by (metis Un_iff empty_iff empty_set image_eqI insert_iff list.simps(15) set_append)
  then have v: "crMaximum v = mx" "crSettled v = 0" "crReleased v = 0" "crCurrency v = rcCurrency c"
    using row(2) by (auto simp: parseReservation_def trimmed_reservation_def new_reservation_def credit_reservation.defs Let_def split: if_splits)
  note tk = allocate_takes [OF al mx(1)]
  have d: "distinct (map fst as)" using tk spendable_distinct [OF credit_invD(3) [OF assms(1)]] by (simp add: comp_def)
  have r0: "rest = 0" "sum_of snd as = mx" using tk rest by auto
  have avail: "available T1 = available T" "lot_available T1 l = lot_available T l" for l
    using t1(1) by (simp_all add: available_def lot_available_def)
  have sums: "available T' = available T - mx"
    "\<And>lid. lot_available T' lid = lot_available T lid - (case map_of as lid of None \<Rightarrow> 0 | Some m \<Rightarrow> m)"
    using k avail r0 sum_of_key [OF d] by auto
  show thesis by (rule that [OF mx(1) v mx(2) sums(1) d res(2)]) (use sums(2) al r0(1) res(1) in simp_all)
qed


text \<open>C20. A reservation sets credits aside and never overdraws.  A new reservation takes exactly its maximum from the available
  credits, which stay non-negative; every lot it takes from is unexpired, in the currency of the reservation and is left with a
  non-negative rest; paid credits are touched only when no promotional credits that could be spent are left; and no other scope
  changes.
\<close>

theorem reservation_spends_what_is_there:
  assumes "reaches (credit_step E) empty_db d" and "billingScopeSchema_parse scopeInput = Some sc"
    and "reserveCredits E scopeInput i d = (Inr v, d')"
    and "\<forall>r \<in> set (tReservations (dbTables d sc)). crIdempotencyKey r \<noteq> riIdempotencyKey i"
  shows "0 < crMaximum v \<and> crSettled v = 0 \<and> crReleased v = 0
    \<and> available (dbTables d' sc) = available (dbTables d sc) - crMaximum v \<and> 0 \<le> available (dbTables d' sc)
    \<and> (\<forall>l \<in> set (tLots (dbTables d sc)).
         lot_available (dbTables d' sc) (clLotId l) = lot_available (dbTables d sc) (clLotId l)
       \<or> lot_available (dbTables d' sc) (clLotId l) < lot_available (dbTables d sc) (clLotId l)
         \<and> 0 \<le> lot_available (dbTables d' sc) (clLotId l) \<and> live_at (riOccurredAt i) l \<and> clCurrency l = crCurrency v
         \<and> (clKind l = Paid \<longrightarrow> (\<forall>p \<in> set (tLots (dbTables d sc)). clKind p = Promotional \<and> live_at (riOccurredAt i) p \<and> clCurrency p = crCurrency v
              \<longrightarrow> lot_available (dbTables d' sc) (clLotId p) \<le> 0)))
    \<and> (\<forall>sc'. sc' \<noteq> sc \<longrightarrow> dbTables d' sc' = dbTables d sc')"
proof -
  define T where "T = dbTables d sc"
  define T' where "T' = dbTables d' sc"
  have inv: "credit_inv T" using credit_reachable_inv [OF assms(1)] by (simp add: T_def)
  obtain n' where tx: "reserve_tx E i sc (T, dbSequence d) = (Inr v, (T', n'))" and other: "\<forall>sc'. sc' \<noteq> sc \<longrightarrow> dbTables d' sc' = dbTables d sc'"
    using assms(3) by (auto simp: reserveCredits_def T_def T'_def assms(2) elim!: withScope_cases split: prod.splits sum.splits simp: withScope_def)
  have None: "find (\<lambda>r. crIdempotencyKey r = riIdempotencyKey i) (tReservations T) = None"
    using assms(4) by (simp add: find_None_iff T_def)
  obtain as mx and c :: retail_catalog where e: "0 < mx" "crMaximum v = mx" "crSettled v = 0" "crReleased v = 0" "crCurrency v = rcCurrency c" "mx \<le> available T"
    "available T' = available T - mx" "distinct (map fst as)" "tLots T' = tLots T"
    "\<And>lid. lot_available T' lid = lot_available T lid - (case map_of as lid of None \<Rightarrow> 0 | Some m \<Rightarrow> m)"
    "allocate (rcCurrency c) mx (map (\<lambda>l. (l, lot_available T (clLotId l))) (spendable_lots E (riOccurredAt i) T)) = (as, 0)"
    by (rule reserve_effect [OF inv tx None]) (rule that)
  let ?sp = "spendable_lots E (riOccurredAt i) T"
  have ids: "distinct (map clLotId (tLots T))" "distinct (map clLotId ?sp)"
    using credit_invD(3) [OF inv] spendable_distinct by blast+
  have taken: "0 < m \<and> m \<le> lot_available T (clLotId l) \<and> l \<in> set ?sp \<and> clCurrency l = rcCurrency c"
    if h: "map_of as (clLotId l) = Some m" "l \<in> set (tLots T)" for l m
  proof -
    obtain l' where l': "l' \<in> set ?sp" "clLotId l' = clLotId l" "clCurrency l' = rcCurrency c" "0 < m" "m \<le> lot_available T (clLotId l')"
      using allocate_takes [OF e(11,1)] map_of_SomeD [OF h(1)] by fastforce
    then have "l' = l" using ids(1) h(2) by (metis distinct_map inj_onD spendable_set)
    then show ?thesis using l' by simp
  qed
  have exhausted: "lot_available T' (clLotId p) \<le> 0"
    if h: "map_of as (clLotId l) = Some m" "l \<in> set (tLots T)" "clKind l = Paid" "p \<in> set (tLots T)" "clKind p = Promotional"
      "live_at (riOccurredAt i) p" "clCurrency p = rcCurrency c" for l m p
  proof (cases "0 < lot_available T (clLotId p)")
    case True
    have "l \<in> set ?sp" "p \<in> set ?sp" using taken [OF h(1,2)] True h(4,6) by (auto simp: spendable_set live_at_def)
    then obtain xs ys where s: "?sp = xs @ l # ys" by (meson split_list)
    have "p \<notin> set ys" using spendable_order [of E "riOccurredAt i" T] h(3,5) unfolding s by (auto simp: sorted_wrt_append kind_order_def)
    then have px: "p \<in> set xs" using \<open>p \<in> set ?sp\<close> h(3,5) s by auto
    have "(clLotId p, lot_available T (clLotId p)) \<in> set as"
      by (rule allocate_greedy [where l = l and m = m and x = p and mx = mx and cur = "rcCurrency c" and rest = 0
            and xs = "map (\<lambda>l. (l, lot_available T (clLotId l))) xs" and ys = "map (\<lambda>l. (l, lot_available T (clLotId l))) ys"])
        (use e(1,11) h(1,7) ids(2) px True s map_of_SomeD in \<open>auto simp: comp_def\<close>)
    then have "map_of as (clLotId p) = Some (lot_available T (clLotId p))" using e(8) by simp
    then show ?thesis using e(10) by simp
  next
    case False
    have "lot_available T' (clLotId p) \<le> lot_available T (clLotId p)"
      using e(10) [of "clLotId p"] taken [OF _ h(4)] by (auto split: option.splits)
    then show ?thesis using False by simp
  qed
  have "lot_available T' (clLotId l) = lot_available T (clLotId l)
       \<or> lot_available T' (clLotId l) < lot_available T (clLotId l) \<and> 0 \<le> lot_available T' (clLotId l) \<and> live_at (riOccurredAt i) l
         \<and> clCurrency l = crCurrency v
         \<and> (clKind l = Paid \<longrightarrow> (\<forall>p \<in> set (tLots T). clKind p = Promotional \<and> live_at (riOccurredAt i) p \<and> clCurrency p = crCurrency v
              \<longrightarrow> lot_available T' (clLotId p) \<le> 0))" if "l \<in> set (tLots T)" for l
  proof (cases "map_of as (clLotId l)")
    case (Some m)
    then show ?thesis using e(5,10) taken [OF Some that] exhausted [OF Some that] by (auto simp: spendable_set live_at_def)
  qed (use e(10) in simp)
  then show ?thesis using e(1-4,6,7) other unfolding T_def [symmetric] T'_def [symmetric] by auto
qed


subsection \<open>Settling\<close>

lemma insert_allocations_rest: "insert_allocations E sc i r k as (T, n) = (Inr u, (T', n')) \<Longrightarrow> rest_same T T'"
proof (induction as arbitrary: k T n)
  case (Cons x as)
  obtain lid m where x: "x = (lid, m)" by (cases x)
  from Cons.prems obtain u1 T1 n1 u2 T2 n2 where turn:
    "insert_allocation E sc \<lparr>caReservationId = crReservationId r, caLotId = lid, caOrder = Suc k, caReserved = m, caSettled = 0, caReleased = 0\<rparr> (T, n) = (Inr u1, (T1, n1))"
    "insert_entry E sc False (reservation_entry E i r lid m) (T1, n1) = (Inr u2, (T2, n2))"
    "insert_allocations E sc i r (Suc k) as (T2, n2) = (Inr u, (T', n'))"
    unfolding x insert_allocations.simps by (elim tx_bindE)
  have "rest_same T T1" using turn(1) by (auto simp: insert_allocation_def rest_same_def split: if_splits)
  moreover have "rest_same T1 T2" using turn(2) by (auto simp: rest_same_def elim!: insert_entry_cases)
  ultimately show ?case using Cons.IH [OF turn(3)] rest_same_trans by blast
qed (simp add: rest_same_def)

lemma settle_allocations_other:
  assumes "\<And>rl lid m n. g (settlement_entry E i r c rl lid m\<lparr>leSequence := n\<rparr>) = 0"
  shows "settle_allocations E sc i r c m rel as (T, n) = (Inr u, (T', n')) \<Longrightarrow> rest_same T T' \<and> sum_of g (tLedger T') = sum_of g (tLedger T)"
proof (induction as arbitrary: m rel T n)
  case (Cons a as)
  define m1 where "m1 = min m (remaining_of a)"
  define r1 where "r1 = min rel (remaining_of a - m1)"
  from Cons.prems obtain u1 T1 n1 u2 T2 n2 u3 T3 n3 where turn:
    "when_positive m1 (insert_entry E sc False (settlement_entry E i r c False (caLotId a) m1)) (T, n) = (Inr u1, (T1, n1))"
    "when_positive r1 (insert_entry E sc False (settlement_entry E i r c True (caLotId a) r1)) (T1, n1) = (Inr u2, (T2, n2))"
    "(if 0 < m1 \<or> 0 < r1 then update_allocation a m1 r1 else tx_return (Inr ())) (T2, n2) = (Inr u3, (T3, n3))"
    "settle_allocations E sc i r c (m - m1) (rel - r1) as (T3, n3) = (Inr u, (T', n'))"
    unfolding settle_allocations.simps Let_def m1_def [symmetric] r1_def [symmetric] by (elim tx_bindE)
  have entry: "rest_same U U' \<and> sum_of g (tLedger U') = sum_of g (tLedger U)"
    if "when_positive k (insert_entry E sc False (settlement_entry E i r c rl lid k)) (U, q) = (Inr w, (U', q'))" for U U' k rl lid q w q'
    using that assms by (auto simp: when_positive_def tx_return_def rest_same_def split: if_splits elim!: insert_entry_cases)
  have "rest_same T2 T3 \<and> tLedger T3 = tLedger T2"
    using turn(3) by (auto simp: update_allocation_def tx_return_def Let_def rest_same_def split: if_splits)
  then show ?case using Cons.IH [OF turn(4)] entry [OF turn(1)] entry [OF turn(2)] rest_same_trans by metis
qed (simp add: rest_same_def)

lemma settle_effect:
  assumes "credit_inv T" and "settle_tx E rid i sc (T, n) = (Inr v, (T', n'))"
    and "\<forall>c \<in> set (tSettlements T). csIdempotencyKey c \<noteq> siIdempotencyKey i \<and> csUsageDedupeKey c \<noteq> siUsageDedupeKey i"
  obtains r where "r \<in> set (tReservations T)" "crReservationId r = rid" "0 \<le> siMeasured i" "siMeasured i \<le> unresolved_of r"
    "tReservations T' = map (\<lambda>q. if crReservationId q = rid then resolved_reservation i (released_by i r) r else q) (tReservations T)"
    "tSettlements T' = tSettlements T @ [new_settlement E sc i r (released_by i r)]"
    "available T' = available T + released_by i r"
proof -
  have none: "first_row E (filter (\<lambda>c. csIdempotencyKey c = siIdempotencyKey i \<or> csUsageDedupeKey c = siUsageDedupeKey i) (tSettlements T)) = None"
    using assms(3) by (auto simp: first_row_def filter_empty_conv)
  obtain r c u T1 n1 w T2 n2 w' where r: "r \<in> set (tReservations T)" "crReservationId r = rid" "siMeasured i \<le> unresolved_of r"
    and c: "c = new_settlement E sc i r (released_by i r)" and st: "insert_settlement E sc c (T, n) = (Inr u, (T1, n1))"
      "settle_allocations E sc i r c (siMeasured i) (released_by i r) (ordered_allocations rid T1) (T1, n1) = (Inr w, (T2, n2))"
      "update_reservation i (released_by i r) r (T2, n2) = (Inr w', (T', n'))"
    by (rule settle_fresh [OF assms(2) none]) (rule that)
  have t1: "T1 = T\<lparr>tSettlements := tSettlements T @ [c]\<rparr>" "0 \<le> siMeasured i"
    using st(1) c by (auto simp: insert_settlement_def new_settlement_def split: if_splits)
  have g0: "granted_delta (settlement_entry E i r c rl lid m\<lparr>leSequence := n\<rparr>) - withdrawn_delta (settlement_entry E i r c rl lid m\<lparr>leSequence := n\<rparr>) = 0" for rl lid m n
    by (simp add: granted_delta_def withdrawn_delta_def)
  note o = settle_allocations_other [where g = "\<lambda>e. granted_delta e - withdrawn_delta e", OF g0 st(2)]
  have uniq: "crReservationId q = rid \<longleftrightarrow> q = r" if "q \<in> set (tReservations T)" for q
    using credit_invD(4) [OF assms(1)] r(1,2) that by (metis distinct_map inj_onD)
  have t3: "T' = T2\<lparr>tReservations := map (\<lambda>q. if crReservationId q = rid \<and> crVersion q = crVersion r
      then resolved_reservation i (released_by i r) r else q) (tReservations T)\<rparr>"
    using st(3) o t1(1) r(2) by (auto simp: update_reservation_def rest_same_def Let_def split: if_splits)
  then have res: "tReservations T' = map (\<lambda>q. if crReservationId q = rid then resolved_reservation i (released_by i r) r else q) (tReservations T)"
    using uniq by auto
  have inv': "credit_inv T'" using keepsD [OF keeps_settle assms(2,1)] .
  have total: "sum_of available_delta es = sum_of (\<lambda>e. granted_delta e - withdrawn_delta e) es - sum_of reserved_delta es - sum_of consumed_delta es" for es
    by (induction es) (auto simp: available_delta_def reserved_delta_def consumed_delta_def granted_delta_def withdrawn_delta_def)
  let ?h = "\<lambda>q. unresolved_of q + crSettled q"
  have "sum_of ?h (tReservations T') = sum_of ?h (tReservations T) - released_by i r"
    using sum_update [OF credit_invD(4) [OF assms(1)] r(1), of "\<lambda>q. True" "\<lambda>q. resolved_reservation i (released_by i r) r" ?h] r(2)
    unfolding res by (simp add: resolved_reservation_def unresolved_of_def Let_def)
  moreover have "sum_of ?h rs = sum_of unresolved_of rs + sum_of crSettled rs" for rs by (induction rs) auto
  moreover have "tLedger T' = tLedger T2" using t3 by simp
  ultimately have "available T' = available T + released_by i r"
    using total reserved_total [OF assms(1)] reserved_total [OF inv'] o t1(1) by (simp add: available_def)
  moreover have "tSettlements T' = tSettlements T @ [c]" using o t1(1) t3 by (simp add: rest_same_def)
  ultimately show thesis using that [OF r(1,2) t1(2) r(3) res] c by blast
qed


text \<open>Settlements are never removed.\<close>

lemma settle_rest:
  assumes "settle_tx E rid i sc (T, n) = (Inr v, (T', n'))"
  shows "set (tSettlements T) \<subseteq> set (tSettlements T')"
proof (cases "first_row E (filter (\<lambda>c. csIdempotencyKey c = siIdempotencyKey i \<or> csUsageDedupeKey c = siUsageDedupeKey i) (tSettlements T))")
  case None
  obtain r c u T1 n1 w T2 n2 w' where st: "insert_settlement E sc c (T, n) = (Inr u, (T1, n1))"
      "settle_allocations E sc i r c (siMeasured i) (released_by i r) (ordered_allocations rid T1) (T1, n1) = (Inr w, (T2, n2))"
      "update_reservation i (released_by i r) r (T2, n2) = (Inr w', (T', n'))"
    by (rule settle_fresh [OF assms None]) (rule that)
  have "set (tSettlements T) \<subseteq> set (tSettlements T1)" using st(1) by (auto simp: insert_settlement_def split: if_splits)
  moreover have "tSettlements T2 = tSettlements T1" using settle_allocations_other [where g = "\<lambda>e. 0", OF refl st(2)] by (simp add: rest_same_def)
  moreover have "tSettlements T' = tSettlements T2" using st(3) by (auto simp: update_reservation_def Let_def split: if_splits)
  ultimately show ?thesis by simp
qed (use assms in \<open>simp add: settle_tx_def\<close>)

lemma reserve_rest:
  assumes "reserve_tx E i sc (T, n) = (Inr v, (T', n'))"
  shows "tSettlements T' = tSettlements T \<and> set (tReservations T) \<subseteq> set (tReservations T')"
proof (cases "find (\<lambda>r. crIdempotencyKey r = riIdempotencyKey i) (tReservations T)")
  case None
  obtain c mx as T1 n1 u w where st: "insert_reservation E sc (new_reservation E sc i c mx) (T, n) = (Inr u, (T1, n1))"
      "insert_allocations E sc i (new_reservation E sc i c mx) 0 as (T1, n1) = (Inr w, (T', n'))"
    by (rule reserve_fresh [OF assms None]) (rule that)
  then show ?thesis using insert_allocations_rest [OF st(2)] by (auto simp: insert_reservation_def rest_same_def split: if_splits)
qed (use assms in \<open>simp add: reserve_tx_def\<close>)

text \<open>The statements outside the loops leave reservations and settlements alone.\<close>

definition debts_only :: "(credit_tables \<Rightarrow> bool) \<Rightarrow> bool" where
  "debts_only I \<longleftrightarrow> (\<forall>T T'. tSettlements T' = tSettlements T \<longrightarrow> tReservations T' = tReservations T \<longrightarrow> I T \<longrightarrow> I T')"

lemma keeps_debts:
  assumes "debts_only I"
    and "\<And>T n x T' n'. m (T, n) = (Inr x, (T', n')) \<Longrightarrow> tSettlements T' = tSettlements T \<and> tReservations T' = tReservations T"
  shows "keeps I m"
  using assms unfolding keeps_def debts_only_def by blast

lemma keeps_plain:
  assumes "debts_only I"
  shows "keeps I (insert_catalog E sc c)" "keeps I (upsert_lot E sc l)" "keeps I (insert_lot_quietly E sc l)"
    "keeps I (insert_entry E sc q e)" "keeps I (insert_checkpoint E sc p)"
proof -
  show "keeps I (insert_catalog E sc c)" by (rule keeps_debts [OF assms]) (auto simp: insert_catalog_def split: if_splits)
  show "keeps I (upsert_lot E sc l)" by (rule keeps_debts [OF assms]) (auto simp: upsert_lot_def split: if_splits)
  show "keeps I (insert_lot_quietly E sc l)" by (rule keeps_debts [OF assms]) (auto simp: insert_lot_quietly_def split: if_splits)
  show "keeps I (insert_entry E sc q e)" by (rule keeps_debts [OF assms]) (auto elim!: insert_entry_cases)
  show "keeps I (insert_checkpoint E sc p)" by (rule keeps_debts [OF assms]) (auto simp: insert_checkpoint_def split: if_splits)
qed

lemma settlement_stored: "debts_only (\<lambda>T. c \<in> set (tSettlements T))"
  by (simp add: debts_only_def)

interpretation settlement_law: table_law E "\<lambda>T. c \<in> set (tSettlements T)" for E c
proof
  show "keeps (\<lambda>T. c \<in> set (tSettlements T)) (reserve_tx E ri sc)" for ri sc by (rule keepsI) (auto dest: reserve_rest)
  show "keeps (\<lambda>T. c \<in> set (tSettlements T)) (settle_tx E rid si sc)" for rid si sc by (rule keepsI) (auto dest: settle_rest)
  show "c \<in> set (tSettlements T')" if "c \<in> set (tSettlements T)" "other_change T T'" for T T' using that by (simp add: other_change_def)
qed (rule keeps_plain [OF settlement_stored])+

lemma settle_replay:
  assumes "billingScopeSchema_parse scopeInput = Some sc" and "c \<in> set (tSettlements (dbTables d sc))"
    and "csUsageDedupeKey c = siUsageDedupeKey j \<or> csIdempotencyKey c = siIdempotencyKey j"
  shows "dbTables (snd (settleCredits E scopeInput rid j d)) = dbTables d"
proof -
  let ?rows = "filter (\<lambda>c. csIdempotencyKey c = siIdempotencyKey j \<or> csUsageDedupeKey c = siUsageDedupeKey j) (tSettlements (dbTables d sc))"
  have "c \<in> set ?rows" using assms(2,3) by auto
  then have "?rows \<noteq> []" by force
  then obtain q where "first_row E ?rows = Some q" unfolding first_row_def by simp
  then have "settle_tx E rid j sc (dbTables d sc, dbSequence d) = (parseSettlement sc q, (dbTables d sc, dbSequence d))"
    by (simp add: settle_tx_def)
  then show ?thesis using assms(1) by (cases "parseSettlement sc q") (simp_all add: settleCredits_def withScope_def)
qed

lemma settled_tx:
  assumes "billingScopeSchema_parse scopeInput = Some sc" and "settleCredits E scopeInput rid i d = (Inr v, d1)"
  obtains n' where "settle_tx E rid i sc (dbTables d sc, dbSequence d) = (Inr v, (dbTables d1 sc, n'))"
  using assms by (auto simp: settleCredits_def withScope_def split: prod.splits sum.splits)

lemma settled_reachable:
  assumes "reaches (credit_step E) empty_db d" and "settleCredits E scopeInput rid i d = (res, d1)"
  shows "reaches (credit_step E) empty_db d1"
proof -
  have "credit_step E d (credit_exec E (OpSettle scopeInput rid i) d)" by (rule credit_op) (simp add: op_typed_def)
  then show ?thesis using reaches_step [OF assms(1)] assms(2) by simp
qed

lemma new_settlement_keys [simp]:
  "csUsageDedupeKey (new_settlement E sc i r m) = siUsageDedupeKey i" "csIdempotencyKey (new_settlement E sc i r m) = siIdempotencyKey i"
  by (simp_all add: new_settlement_def)

lemma length_filter_key: "distinct (map f xs) \<Longrightarrow> a \<in> set xs \<Longrightarrow> length (filter (\<lambda>x. f x = f a) xs) = 1"
proof (induction xs)
  case (Cons x xs)
  show ?case
  proof (cases "f x = f a")
    case True
    then have "f y \<noteq> f a" if "y \<in> set xs" for y using Cons.prems(1) that by (metis distinct.simps(2) imageI list.map(2) list.set_map)
    then show ?thesis using True by (simp add: filter_False)
  qed (use Cons in auto)
qed simp

text \<open>C21. Usage is charged once.  After a settlement, whatever operations run in between, every further settlement with the
  same usage key or the same idempotency key changes no table, and exactly one settlement carries the usage key.
\<close>

theorem usage_is_charged_once:
  assumes "reaches (credit_step E) empty_db d" and "billingScopeSchema_parse scopeInput = Some sc"
    and "settleCredits E scopeInput rid i d = (Inr v, d1)"
    and "\<forall>c \<in> set (tSettlements (dbTables d sc)). csIdempotencyKey c \<noteq> siIdempotencyKey i \<and> csUsageDedupeKey c \<noteq> siUsageDedupeKey i"
    and "reaches (credit_step E) d1 d2"
  shows "length (filter (\<lambda>c. csUsageDedupeKey c = siUsageDedupeKey i) (tSettlements (dbTables d2 sc))) = 1
    \<and> (\<forall>j rid'. siUsageDedupeKey j = siUsageDedupeKey i \<or> siIdempotencyKey j = siIdempotencyKey i
         \<longrightarrow> dbTables (snd (settleCredits E scopeInput rid' j d2)) = dbTables d2)"
proof -
  obtain n' where tx: "settle_tx E rid i sc (dbTables d sc, dbSequence d) = (Inr v, (dbTables d1 sc, n'))"
    by (rule settled_tx [OF assms(2,3)])
  obtain r where "tSettlements (dbTables d1 sc) = tSettlements (dbTables d sc) @ [new_settlement E sc i r (released_by i r)]"
    by (rule settle_effect [OF credit_reachable_inv [OF assms(1)] tx assms(4)]) (rule that)
  then have in2: "new_settlement E sc i r (released_by i r) \<in> set (tSettlements (dbTables d2 sc))"
    using settlement_law.reaches_at [OF assms(5)] by simp
  have "credit_inv (dbTables d2 sc)" using credit_reachable_inv reaches_trans [OF settled_reachable [OF assms(1,3)] assms(5)] by blast
  then show ?thesis
    using length_filter_key [OF credit_invD(5) in2] settle_replay [OF assms(2) in2] by auto
qed


subsection \<open>Closed reservations\<close>

definition closed :: "string \<Rightarrow> int \<Rightarrow> int \<Rightarrow> credit_tables \<Rightarrow> bool" where
  "closed rid S R T \<longleftrightarrow> (\<exists>r \<in> set (tReservations T). crReservationId r = rid \<and> crSettled r = S \<and> crReleased r = R \<and> crMaximum r = S + R)"

lemma closed_debts: "debts_only (closed rid S R)"
  by (simp add: debts_only_def closed_def)

lemma keeps_both: "keeps I m \<Longrightarrow> (\<And>T n x T' n'. m (T, n) = (Inr x, (T', n')) \<Longrightarrow> I T \<Longrightarrow> J T \<Longrightarrow> J T') \<Longrightarrow> keeps (\<lambda>T. I T \<and> J T) m"
  unfolding keeps_def by blast

lemma closed_settle:
  assumes "settle_tx E rid' i sc (T, n) = (Inr v, (T', n'))" and "credit_inv T" and "closed rid S R T"
  shows "closed rid S R T'"
proof (cases "\<forall>c \<in> set (tSettlements T). csIdempotencyKey c \<noteq> siIdempotencyKey i \<and> csUsageDedupeKey c \<noteq> siUsageDedupeKey i")
  case True
  obtain r where r: "r \<in> set (tReservations T)" "crReservationId r = rid'" "0 \<le> siMeasured i" "siMeasured i \<le> unresolved_of r"
    "tReservations T' = map (\<lambda>q. if crReservationId q = rid' then resolved_reservation i (released_by i r) r else q) (tReservations T)"
    by (rule settle_effect [OF assms(2,1) True]) (rule that)
  obtain q where q: "q \<in> set (tReservations T)" "crReservationId q = rid" "crSettled q = S" "crReleased q = R" "crMaximum q = S + R"
    using assms(3) by (auto simp: closed_def)
  let ?q = "if crReservationId q = rid' then resolved_reservation i (released_by i r) r else q"
  have "?q \<in> set (tReservations T')" unfolding r(5) using q(1) by simp
  moreover have "q = r" if "rid = rid'" using credit_invD(4) [OF assms(2)] q(1,2) r(1,2) that by (metis distinct_map inj_onD)
  then have "crReservationId ?q = rid \<and> crSettled ?q = S \<and> crReleased ?q = R \<and> crMaximum ?q = S + R"
    using q r(2-4) by (auto simp: resolved_reservation_def released_by_def unresolved_of_def Let_def)
  ultimately show ?thesis unfolding closed_def by blast
next
  case False
  then obtain c where c: "c \<in> set (filter (\<lambda>c. csIdempotencyKey c = siIdempotencyKey i \<or> csUsageDedupeKey c = siUsageDedupeKey i) (tSettlements T))" by auto
  then have "filter (\<lambda>c. csIdempotencyKey c = siIdempotencyKey i \<or> csUsageDedupeKey c = siUsageDedupeKey i) (tSettlements T) \<noteq> []" by force
  then have "T' = T" using assms(1) by (auto simp: settle_tx_def first_row_def)
  then show ?thesis using assms(3) by simp
qed

lemma list_all2_target: "list_all2 R xs ys \<Longrightarrow> x \<in> set xs \<Longrightarrow> \<exists>y \<in> set ys. R x y"
  by (induction rule: list_all2_induct) auto

lemma rebound_fields:
  "rebound r r' \<Longrightarrow> crReservationId r' = crReservationId r \<and> crSettled r' = crSettled r \<and> crReleased r' = crReleased r \<and> crMaximum r' = crMaximum r"
  unfolding rebound_def by (cases r, cases r') auto

lemma closed_other: "other_change T T' \<Longrightarrow> closed rid S R T \<Longrightarrow> closed rid S R T'"
  unfolding other_change_def closed_def by (metis list_all2_target rebound_fields)

interpretation closed_law: table_law E "\<lambda>T. credit_inv T \<and> closed rid S R T" for E rid S R
proof
  show "keeps (\<lambda>T. credit_inv T \<and> closed rid S R T) (reserve_tx E ri sc)" for ri sc
    by (rule keeps_both [OF keeps_reserve]) (auto simp: closed_def dest: reserve_rest)
  show "keeps (\<lambda>T. credit_inv T \<and> closed rid S R T) (settle_tx E rid' si sc)" for rid' si sc
    by (rule keeps_both [OF keeps_settle]) (rule closed_settle)
  show "credit_inv T' \<and> closed rid S R T'" if "credit_inv T \<and> closed rid S R T" "other_change T T'" for T T'
    using that other_change_inv closed_other by blast
qed (rule keeps_both, rule keeps_catalog keeps_upsert_lot keeps_placeholder keeps_grant keeps_lifecycle keeps_checkpoint,
    (assumption)?, erule keepsD [OF keeps_plain(1) [OF closed_debts]] keepsD [OF keeps_plain(2) [OF closed_debts]]
      keepsD [OF keeps_plain(3) [OF closed_debts]] keepsD [OF keeps_plain(4) [OF closed_debts]] keepsD [OF keeps_plain(5) [OF closed_debts]], assumption)+


text \<open>A terminal settlement closes the reservation for good.  It charges the measured credits, at most what was unresolved,
  returns the rest to the available credits, and from then on, whatever operations run, the reservation stays settled and
  nothing can be charged to it.
\<close>

theorem terminal_settlement_closes:
  assumes "reaches (credit_step E) empty_db d" and "billingScopeSchema_parse scopeInput = Some sc"
    and "settleCredits E scopeInput rid i d = (Inr v, d1)" and "siTerminal i"
    and "\<forall>c \<in> set (tSettlements (dbTables d sc)). csIdempotencyKey c \<noteq> siIdempotencyKey i \<and> csUsageDedupeKey c \<noteq> siUsageDedupeKey i"
    and "reaches (credit_step E) d1 d2"
  shows "\<exists>r \<in> set (tReservations (dbTables d sc)). \<exists>r2 \<in> set (tReservations (dbTables d2 sc)).
      crReservationId r = rid \<and> crReservationId r2 = rid \<and> 0 \<le> siMeasured i \<and> siMeasured i \<le> unresolved_of r
    \<and> crSettled r2 = crSettled r + siMeasured i \<and> crMaximum r2 = crMaximum r \<and> unresolved_of r2 = 0 \<and> crState r2 \<in> {Settled, Released}
    \<and> available (dbTables d1 sc) = available (dbTables d sc) + (unresolved_of r - siMeasured i)
    \<and> (\<forall>j. 0 < siMeasured j \<longrightarrow> dbTables (snd (settleCredits E scopeInput rid j d2)) = dbTables d2)"
proof -
  obtain n' where tx: "settle_tx E rid i sc (dbTables d sc, dbSequence d) = (Inr v, (dbTables d1 sc, n'))"
    by (rule settled_tx [OF assms(2,3)])
  obtain r where r: "r \<in> set (tReservations (dbTables d sc))" "crReservationId r = rid" "0 \<le> siMeasured i" "siMeasured i \<le> unresolved_of r"
    "tReservations (dbTables d1 sc) = map (\<lambda>q. if crReservationId q = rid then resolved_reservation i (released_by i r) r else q) (tReservations (dbTables d sc))"
    "available (dbTables d1 sc) = available (dbTables d sc) + released_by i r"
    by (rule settle_effect [OF credit_reachable_inv [OF assms(1)] tx assms(5)]) (rule that)
  let ?S = "crSettled r + siMeasured i" and ?R = "crReleased r + released_by i r"
  have "resolved_reservation i (released_by i r) r \<in> set (tReservations (dbTables d1 sc))" unfolding r(5) using r(1,2) by force
  then have c1: "closed rid ?S ?R (dbTables d1 sc)"
    unfolding closed_def using r(2) assms(4)
    by (intro bexI [where x = "resolved_reservation i (released_by i r) r"]) (auto simp: resolved_reservation_def released_by_def unresolved_of_def Let_def)
  have reach1: "reaches (credit_step E) empty_db d1" by (rule settled_reachable [OF assms(1,3)])
  then have "credit_inv (dbTables d2 sc) \<and> closed rid ?S ?R (dbTables d2 sc)"
    using closed_law.reaches_at [OF assms(6)] c1 credit_reachable_inv [OF reach1] by blast
  then obtain r2 where inv2: "credit_inv (dbTables d2 sc)" and r2: "r2 \<in> set (tReservations (dbTables d2 sc))" "crReservationId r2 = rid"
    "crSettled r2 = ?S" "crReleased r2 = ?R" "crMaximum r2 = ?S + ?R" by (auto simp: closed_def)
  have u2: "unresolved_of r2 = 0" using r2 by (simp add: unresolved_of_def)
  have "dbTables (snd (settleCredits E scopeInput rid j d2)) = dbTables d2" if h: "0 < siMeasured j" for j
  proof (cases "\<forall>c \<in> set (tSettlements (dbTables d2 sc)). csIdempotencyKey c \<noteq> siIdempotencyKey j \<and> csUsageDedupeKey c \<noteq> siUsageDedupeKey j")
    case True
    have "find (\<lambda>r. crReservationId r = rid) (tReservations (dbTables d2 sc)) = Some q \<Longrightarrow> q = r2" for q
      using find_in credit_invD(4) [OF inv2] r2(1,2) by (metis (mono_tags, lifting) distinct_map inj_onD)
    then have "settle_tx E rid j sc (dbTables d2 sc, dbSequence d2) = (Inl RESERVATION_NOT_FOUND, (dbTables d2 sc, dbSequence d2))
      \<or> settle_tx E rid j sc (dbTables d2 sc, dbSequence d2) = (Inl SETTLEMENT_EXCEEDS_RESERVATION, (dbTables d2 sc, dbSequence d2))"
      using True h u2 by (auto simp: settle_tx_def first_row_def filter_empty_conv split: option.splits)
    then show ?thesis using assms(2) by (auto simp: settleCredits_def withScope_def)
  next
    case False
    then show ?thesis using settle_replay [OF assms(2)] by blast
  qed
  moreover have "crState r2 \<in> {Settled, Released}"
    using credit_invD(9) [OF inv2 r2(1)] u2 by (simp add: reservation_ok_def next_state_def)
  moreover have "crMaximum r2 = crMaximum r" "released_by i r = unresolved_of r - siMeasured i"
    using r2(5) assms(4) by (simp_all add: released_by_def unresolved_of_def)
  ultimately show ?thesis using r(1-4,6) r2(1-3) u2 by (intro bexI [OF _ r(1)] bexI [OF _ r2(1)]) simp
qed


subsection \<open>Grants that are repeated\<close>

lemma created_tx:
  assumes "billingScopeSchema_parse scopeInput = Some sc" and "createCreditLot E scopeInput i d = (Inr v, d1)"
  obtains u T1 n1 lid w n2 where "upsert_lot E sc (lot_of E sc i) (dbTables d sc, dbSequence d) = (Inr u, (T1, n1))"
    "insert_entry E sc True (grant_entry E i lid) (T1, n1) = (Inr w, (dbTables d1 sc, n2))"
  using assms by (auto simp: createCreditLot_def withScope_def tx_bind_Inr_iff tx_return_iff split: prod.splits sum.splits option.splits)

lemma entry_keeps_lots: "insert_entry E sc q e (T, n) = (Inr u, (T', n')) \<Longrightarrow> tLots T' = tLots T"
  by (auto elim!: insert_entry_cases)

lemma entry_added:
  assumes "insert_entry E sc q e (T, n) = (Inr u, (T', n'))" and "\<forall>x \<in> set (tLedger T). leIdempotencyKey x \<noteq> leIdempotencyKey e"
  shows "tLedger T' = tLedger T @ [e\<lparr>leSequence := n\<rparr>]"
  using assms by (auto simp: insert_entry_def Let_def list_ex_iff split: if_splits)

theorem promotional_grant_is_not_retriable:
  assumes "billingScopeSchema_parse scopeInput = Some sc" and "createCreditLot E scopeInput i d = (Inr v, d1)" and "liKind i = Promotional"
  shows "fst (createCreditLot E scopeInput i d1) = Inl SqlViolation"
proof -
  obtain u T1 n1 lid w n2 where st: "upsert_lot E sc (lot_of E sc i) (dbTables d sc, dbSequence d) = (Inr u, (T1, n1))"
    "insert_entry E sc True (grant_entry E i lid) (T1, n1) = (Inr w, (dbTables d1 sc, n2))"
    by (rule created_tx [OF assms(1,2)])
  have no: "\<not> same_payment (lot_of E sc i) x" for x using assms(3) by (simp add: same_payment_def lot_of_def)
  have "lot_of E sc i \<in> set (tLots T1)" "lot_checks E sc (lot_of E sc i)"
    using st(1) no by (auto simp: upsert_lot_def list_ex_iff split: if_splits)
  then have "upsert_lot E sc (lot_of E sc i) (dbTables d1 sc, dbSequence d1) = (Inl SqlViolation, (dbTables d1 sc, dbSequence d1))"
    using no entry_keeps_lots [OF st(2)] by (auto simp: upsert_lot_def list_ex_iff lot_conflict_def)
  then show ?thesis using assms(1) by (simp add: createCreditLot_def withScope_def tx_bind_def)
qed

theorem repeated_payment_notice_credits_again:
  assumes "billingScopeSchema_parse scopeInput = Some sc" and "createCreditLot E scopeInput i d = (Inr v, d1)"
    and "createCreditLot E scopeInput (i\<lparr>liIdempotencyKey := k\<rparr>) d1 = (Inr v', d2)"
    and "liKind i = Paid" and "payment_reference i \<noteq> None" and "k \<noteq> liIdempotencyKey i"
    and "\<forall>e \<in> set (tLedger (dbTables d sc)). leIdempotencyKey e \<noteq> k \<and> leIdempotencyKey e \<noteq> liIdempotencyKey i"
  shows "tLots (dbTables d2 sc) = tLots (dbTables d1 sc) \<and> available (dbTables d2 sc) = available (dbTables d sc) + 2 * liCredits i"
proof -
  let ?j = "i\<lparr>liIdempotencyKey := k\<rparr>"
  obtain u T1 n1 lid w n2 where st: "upsert_lot E sc (lot_of E sc i) (dbTables d sc, dbSequence d) = (Inr u, (T1, n1))"
    "insert_entry E sc True (grant_entry E i lid) (T1, n1) = (Inr w, (dbTables d1 sc, n2))"
    by (rule created_tx [OF assms(1,2)])
  obtain u' T2 n3 lid' w' n4 where st': "upsert_lot E sc (lot_of E sc ?j) (dbTables d1 sc, dbSequence d1) = (Inr u', (T2, n3))"
    "insert_entry E sc True (grant_entry E ?j lid') (T2, n3) = (Inr w', (dbTables d2 sc, n4))"
    by (rule created_tx [OF assms(1,3)])
  have ref: "payment_reference ?j = payment_reference i" by (simp add: payment_reference_def)
  have sp: "same_payment (lot_of E sc ?j) x \<longleftrightarrow> same_payment (lot_of E sc i) x" for x
    by (simp add: same_payment_def lot_of_def ref)
  have self: "same_payment (lot_of E sc i) (lot_of E sc i)" using assms(4,5) by (simp add: same_payment_def lot_of_def)
  have ml: "merge_lot (lot_of E sc ?j) x = merge_lot (lot_of E sc i) x" for x by (simp add: merge_lot_def lot_of_def)
  have idem: "merge_lot (lot_of E sc i) (merge_lot (lot_of E sc i) x) = merge_lot (lot_of E sc i) x" for x
    by (cases "clExpiresAt (lot_of E sc i)") (simp_all add: merge_lot_def)
  have fixed: "merge_lot (lot_of E sc i) (lot_of E sc i) = lot_of E sc i"
    by (cases "clExpiresAt (lot_of E sc i)") (simp_all add: merge_lot_def)
  have merged: "\<forall>x \<in> set (tLots T1). same_payment (lot_of E sc i) x \<longrightarrow> merge_lot (lot_of E sc i) x = x" "\<exists>x \<in> set (tLots T1). same_payment (lot_of E sc i) x"
  proof -
    have kept: "same_payment (lot_of E sc i) (merge_lot (lot_of E sc i) x) = same_payment (lot_of E sc i) x" for x
      by (simp add: same_payment_def merge_lot_def)
    have lots1: "tLots T1 = (if list_ex (same_payment (lot_of E sc i)) (tLots (dbTables d sc))
        then map (\<lambda>x. if same_payment (lot_of E sc i) x then merge_lot (lot_of E sc i) x else x) (tLots (dbTables d sc))
        else tLots (dbTables d sc) @ [lot_of E sc i])"
      using st(1) by (auto simp: upsert_lot_def split: if_splits)
    show "\<forall>x \<in> set (tLots T1). same_payment (lot_of E sc i) x \<longrightarrow> merge_lot (lot_of E sc i) x = x"
      unfolding lots1 using idem fixed kept by (auto simp: list_ex_iff)
    show "\<exists>x \<in> set (tLots T1). same_payment (lot_of E sc i) x"
      unfolding lots1 using self kept by (auto simp: list_ex_iff)
  qed
  have l1: "tLots (dbTables d1 sc) = tLots T1" using entry_keeps_lots [OF st(2)] .
  have T2: "T2 = (dbTables d1 sc)\<lparr>tLots := map (\<lambda>x. if same_payment (lot_of E sc i) x then merge_lot (lot_of E sc i) x else x) (tLots T1)\<rparr>"
    using st'(1) merged(2) l1 by (auto simp: upsert_lot_def list_ex_iff sp ml split: if_splits)
  have "map (\<lambda>x. if same_payment (lot_of E sc i) x then merge_lot (lot_of E sc i) x else x) (tLots T1) = tLots T1"
    using merged(1) by (intro map_idI) auto
  then have lots: "tLots (dbTables d2 sc) = tLots (dbTables d1 sc)" using entry_keeps_lots [OF st'(2)] T2 l1 by simp
  have t1: "tLedger T1 = tLedger (dbTables d sc)" using st(1) by (auto simp: upsert_lot_def split: if_splits)
  have e1: "tLedger (dbTables d1 sc) = tLedger (dbTables d sc) @ [grant_entry E i lid\<lparr>leSequence := n1\<rparr>]"
    using entry_added [OF st(2)] assms(7) t1 by (simp add: grant_entry_def)
  have e2: "tLedger (dbTables d2 sc) = tLedger (dbTables d1 sc) @ [grant_entry E ?j lid'\<lparr>leSequence := n3\<rparr>]"
    using entry_added [OF st'(2)] assms(6,7) e1 T2 by (simp add: grant_entry_def)
  have "available_delta (grant_entry E a lid\<lparr>leSequence := n\<rparr>) = liCredits a" for a lid n by (simp add: available_delta_def grant_entry_def)
  then show ?thesis using lots e1 e2 by (simp add: available_def)
qed


subsection \<open>A sample run\<close>

definition sample_pg :: pg_env where
  "sample_pg = \<lparr>pgSha256 = rev, pgTextLe = (\<lambda>x y. length x \<le> length y), pgWorkspace = (\<lambda>sc. True), pgPick = (\<lambda>n. 0)\<rparr>"

definition sample_billing :: billing_scope where
  "sample_billing = \<lparr>bsTenantId = ''t'', bsOrganizationId = ''t'', bsWorkspaceId = ''w''\<rparr>"

definition sample_catalog :: retail_catalog where
  "sample_catalog = \<lparr>rcCatalogId = ''c'', rcCatalogVersion = ''1'', rcCurrency = ''USD'', rcRates = [(EgressByte, 1)],
     rcOperationMaximums = [(TurnStart, 60)], rcIdempotencyKey = ''cat'', rcPaymentReference = None, rcUsageDedupeKey = None,
     rcRunId = None, rcOperationReference = None, rcOccurredAt = 0, rcEffectiveAt = 0, rcRetiredAt = None\<rparr>"

definition sample_lot :: "lot_kind \<Rightarrow> int \<Rightarrow> string \<Rightarrow> lot_input" where
  "sample_lot k credits key = \<lparr>liKind = k, liCurrency = ''USD'', liCredits = credits, liCash = 0, liIdempotencyKey = key,
     liPaymentReference = (if k = Paid then Some ''pay'' else None), liOperationReference = None, liSourceWebhookEventId = None,
     liOccurredAt = 0, liExpiresAt = None\<rparr>"

definition sample_reserve :: reservation_input where
  "sample_reserve = \<lparr>riOperation = TurnStart, riIdempotencyKey = ''res'', riMaximum = None, riRunId = None,
     riOperationReference = None, riOccurredAt = 5\<rparr>"

definition sample_settle :: settlement_input where
  "sample_settle = \<lparr>siIdempotencyKey = ''set'', siUsageDedupeKey = ''use'', siMeasured = 45, siUsageStatus = Measured,
     siOutcome = OutCompleted, siTerminal = True, siRunId = None, siOccurredAt = 9\<rparr>"

definition funded :: credit_db where
  "funded = credit_exec sample_pg (OpLot sample_billing (sample_lot Promotional 40 ''promo''))
     (credit_exec sample_pg (OpLot sample_billing (sample_lot Paid 100 ''paid''))
       (credit_exec sample_pg (OpCatalog sample_billing sample_catalog) empty_db))"

definition reserved_db :: credit_db where
  "reserved_db = snd (reserveCredits sample_pg sample_billing sample_reserve funded)"

definition sample_rid :: string where
  "sample_rid = deterministicId sample_pg ''cres'' [''t'', ''w'', ''res'']"

definition settled_db :: credit_db where
  "settled_db = snd (settleCredits sample_pg sample_billing sample_rid sample_settle reserved_db)"

lemma sample_parse: "billingScopeSchema_parse sample_billing = Some sample_billing"
  by code_simp

lemma sample_reaches:
  "reaches (credit_step sample_pg) empty_db funded" "reaches (credit_step sample_pg) empty_db reserved_db"
proof -
  have step: "reaches (credit_step sample_pg) empty_db d \<Longrightarrow> op_typed op \<Longrightarrow> reaches (credit_step sample_pg) empty_db (credit_exec sample_pg op d)" for op d
    by (rule reaches_step, assumption, rule credit_op)
  show f: "reaches (credit_step sample_pg) empty_db funded"
    unfolding funded_def by (intro step reaches_refl) (simp_all add: op_typed_def)
  show "reaches (credit_step sample_pg) empty_db reserved_db"
    using step [OF f, of "OpReserve sample_billing sample_reserve"] by (simp add: op_typed_def reserved_db_def)
qed

lemma sample_settled: "\<exists>v. settleCredits sample_pg sample_billing sample_rid sample_settle reserved_db = (Inr v, settled_db)"
proof -
  have "isl (fst (settleCredits sample_pg sample_billing sample_rid sample_settle reserved_db)) = False" by code_simp
  then show ?thesis unfolding settled_db_def by (metis isl_def prod.collapse sum.exhaust_sel)
qed

lemma sample_unsettled: "tSettlements (dbTables reserved_db sample_billing) = []"
  by code_simp

theorem credit_books_balance_witness:
  "\<exists>b d'. creditBalance sample_pg sample_billing 20 reserved_db = (Inr b, d') \<and> cbReserved b = 60 \<and> cbConsumed b = 0"
proof -
  have "isl (fst (creditBalance sample_pg sample_billing 20 reserved_db)) = False" by code_simp
  then obtain b d' where b: "creditBalance sample_pg sample_billing 20 reserved_db = (Inr b, d')"
    by (metis isl_def prod.collapse sum.exhaust_sel)
  have "sum_of unresolved_of (tReservations (dbTables reserved_db sample_billing)) = 60"
    "sum_of crSettled (tReservations (dbTables reserved_db sample_billing)) = 0" by code_simp+
  then show ?thesis using credit_books_balance [OF sample_reaches(2) b sample_parse] b by auto
qed

theorem reservation_spends_what_is_there_witness:
  "\<exists>v. reserveCredits sample_pg sample_billing sample_reserve funded = (Inr v, reserved_db) \<and> crMaximum v = 60
    \<and> available (dbTables reserved_db sample_billing) = 80"
proof -
  have "isl (fst (reserveCredits sample_pg sample_billing sample_reserve funded)) = False" by code_simp
  then obtain v where v: "reserveCredits sample_pg sample_billing sample_reserve funded = (Inr v, reserved_db)"
    unfolding reserved_db_def by (metis isl_def prod.collapse sum.exhaust_sel)
  have 1: "tReservations (dbTables funded sample_billing) = []" by code_simp
  have 2: "available (dbTables funded sample_billing) = 140" "available (dbTables reserved_db sample_billing) = 80" by code_simp+
  show ?thesis using reservation_spends_what_is_there [OF sample_reaches(1) sample_parse v] 1 2 v by auto
qed

theorem usage_is_charged_once_witness:
  "length (filter (\<lambda>c. csUsageDedupeKey c = ''use'') (tSettlements (dbTables settled_db sample_billing))) = 1
   \<and> dbTables (snd (settleCredits sample_pg sample_billing ''other'' sample_settle settled_db)) = dbTables settled_db"
proof -
  obtain v where v: "settleCredits sample_pg sample_billing sample_rid sample_settle reserved_db = (Inr v, settled_db)"
    using sample_settled by blast
  show ?thesis
    using usage_is_charged_once [OF sample_reaches(2) sample_parse v _ reaches_refl] sample_unsettled by (simp add: sample_settle_def)
qed

theorem terminal_settlement_closes_witness:
  "\<exists>r \<in> set (tReservations (dbTables settled_db sample_billing)). crReservationId r = sample_rid \<and> unresolved_of r = 0"
proof -
  obtain v where v: "settleCredits sample_pg sample_billing sample_rid sample_settle reserved_db = (Inr v, settled_db)"
    using sample_settled by blast
  have "siTerminal sample_settle" by (simp add: sample_settle_def)
  then show ?thesis
    using terminal_settlement_closes [OF sample_reaches(2) sample_parse v _ _ reaches_refl] sample_unsettled by auto
qed

end
