(* ===== verification/Admission_Props.thy ===== *)
theory Admission_Props
  imports Admission Credit_Props
begin

text \<open>
  What admission guarantees.  The decision is characterised by the limits that are exceeded (\<open>evaluation_outcome\<close>); runs of
  the repository mix admissions, recordings, cancellations, completions, bindings and the credit operations
  (\<open>admission_step\<close>), and every such run is a run of the credit operations and of changes the books do not see
  (\<open>admission_reaches\<close>), so the invariant of the books carries over.  The limit on concurrent turns is an invariant of the
  runs under policies that set it (interpretation \<open>turn_run\<close>); the credit operations keep the leases
  (interpretation \<open>lease_law\<close>).
\<close>

subsection \<open>The decision\<close>

definition applies :: "admission_request \<Rightarrow> quota_policy \<Rightarrow> bool" where
  "applies r p \<longleftrightarrow> qpMeter p \<in> set (operationMeters (arOperation r))"

definition exceeds_hard :: "admission_request \<Rightarrow> quota_policy \<Rightarrow> bool" where
  "exceeds_hard r p \<longleftrightarrow> applies r p \<and> reaches_limit (qpHardLimit p) (measured_of r p)"

definition exceeds_soft :: "admission_request \<Rightarrow> quota_policy \<Rightarrow> bool" where
  "exceeds_soft r p \<longleftrightarrow> applies r p \<and> reaches_limit (qpSoftLimit p) (measured_of r p)"

lemma apply_quotas_Cons:
  "apply_quotas r w (p # ps) =
    (if exceeds_hard r p then (DenyAdmission, ''HARD_LIMIT_'' @ meter_upper (qpMeter p), Some (qpPolicyVersion p), qpInFlightPolicy p)
     else if exceeds_soft r p then apply_quotas r (nullish w (Some p)) ps else apply_quotas r w ps)"
  by (simp add: exceeds_hard_def exceeds_soft_def applies_def)

declare apply_quotas.simps(2) [simp del]

lemma apply_quotas_outcome:
  "fst (apply_quotas r w ps) =
    (if list_ex (exceeds_hard r) ps then DenyAdmission else if w \<noteq> None \<or> list_ex (exceeds_soft r) ps then Warn else Allow)"
  by (induction ps arbitrary: w) (auto simp: apply_quotas_Cons split: option.splits)

lemma apply_quotas_warns:
  "apply_quotas r w ps = (Warn, reason, version, flight) \<Longrightarrow>
    \<exists>p. nullish w (find (exceeds_soft r) ps) = Some p \<and> version = Some (qpPolicyVersion p) \<and> flight = qpInFlightPolicy p"
proof (induction ps arbitrary: w)
  case (Cons p ps)
  show ?case
  proof (cases "exceeds_soft r p")
    case True
    then have "apply_quotas r (nullish w (Some p)) ps = (Warn, reason, version, flight)" using Cons.prems by (auto simp: apply_quotas_Cons split: if_splits)
    then show ?thesis using Cons.IH True by (cases w) fastforce+
  next
    case False
    then show ?thesis using Cons by (auto simp: apply_quotas_Cons split: if_splits)
  qed
qed (auto split: option.splits)

lemma apply_quotas_denies:
  "apply_quotas r w ps = (DenyAdmission, reason, version, flight) \<Longrightarrow>
    \<exists>p. find (exceeds_hard r) ps = Some p \<and> version = Some (qpPolicyVersion p) \<and> flight = qpInFlightPolicy p"
  by (induction ps arbitrary: w) (auto simp: apply_quotas_Cons split: if_splits option.splits)

lemma decision_parsed:
  "admissionDecisionSchema_parse q = Inr q' \<Longrightarrow> qdOutcome q' = qdOutcome q \<and> qdOperation q' = qdOperation q \<and> qdPolicyVersion q' = qdPolicyVersion q
     \<and> qdInFlightPolicy q' = qdInFlightPolicy q \<and> qdReason q' = js_trim (qdReason q) \<and> qdDecisionId q' = js_trim (qdDecisionId q)"
  by (auto simp: admissionDecisionSchema_parse_def split: if_splits)

definition entitled :: "policy_snapshot \<Rightarrow> operation \<Rightarrow> bool" where
  "entitled snap op \<longleftrightarrow> (case find (\<lambda>e. enKey e = op) (psEntitlements snap) of None \<Rightarrow> False | Some e \<Rightarrow> enEnabled e)"

lemma evaluation_outcome:
  assumes "evaluateAdmission E req snap = Inr q"
  shows "qdOutcome q =
      (if \<not> entitled snap (arOperation req) \<or> list_ex (exceeds_hard req) (psQuotas snap) then DenyAdmission
       else if list_ex (exceeds_soft req) (psQuotas snap) then Warn else Allow)
    \<and> qdOperation q = arOperation req
    \<and> (qdOutcome q = DenyAdmission \<and> entitled snap (arOperation req) \<longrightarrow>
        (\<exists>p. find (exceeds_hard req) (psQuotas snap) = Some p \<and> qdPolicyVersion q = qpPolicyVersion p \<and> qdInFlightPolicy q = qpInFlightPolicy p))
    \<and> (qdOutcome q = Warn \<longrightarrow>
        (\<exists>p. find (exceeds_soft req) (psQuotas snap) = Some p \<and> qdPolicyVersion q = qpPolicyVersion p \<and> qdInFlightPolicy q = qpInFlightPolicy p))"
proof -
  obtain r where r: "admissionRequestSchema_parse req = Some r" using assms by (auto simp: evaluateAdmission_def split: option.splits)
  have same: "exceeds_hard r = exceeds_hard req" "exceeds_soft r = exceeds_soft req" "arOperation r = arOperation req"
    using r by (auto simp: admissionRequestSchema_parse_def exceeds_hard_def exceeds_soft_def applies_def measured_of_def fun_eq_iff split: option.splits if_splits)
  obtain o1 rs v f where ap: "apply_quotas r None (psQuotas snap) = (o1, rs, v, f)" by (metis prod.collapse)
  show ?thesis
  proof (cases "entitled snap (arOperation req)")
    case True
    then have q: "qdOutcome q = o1" "qdOperation q = arOperation req" "qdPolicyVersion q = (case v of Some v \<Rightarrow> v | None \<Rightarrow> cpPlanVersion (psPlan snap))" "qdInFlightPolicy q = f"
      using assms r ap same(3) by (auto simp: evaluateAdmission_def entitled_def Let_def split: option.splits if_splits dest!: decision_parsed)
    then show ?thesis
      using True apply_quotas_outcome [of r None "psQuotas snap"] apply_quotas_warns [of r None "psQuotas snap" rs v f]
        apply_quotas_denies [of r None "psQuotas snap" rs v f] ap unfolding same by auto
  next
    case False
    then have "qdOutcome q = DenyAdmission" "qdOperation q = arOperation req"
      using assms r same(3) by (auto simp: evaluateAdmission_def entitled_def Let_def split: option.splits if_splits dest!: decision_parsed)
    then show ?thesis using False by simp
  qed
qed

subsection \<open>Runs of the repository\<close>

datatype admission_op =
    AdAdmit billing_scope admission_input policy_snapshot corpus_measures instant
  | AdRecord billing_scope quota_decision
  | AdCancel billing_scope string instant
  | AdComplete billing_scope string instant
  | AdBind billing_scope string string
  | AdCredit credit_op

fun admission_exec :: "pg_env \<Rightarrow> admission_op \<Rightarrow> credit_db \<Rightarrow> credit_db" where
  "admission_exec E (AdAdmit sc i snap cm now) d = snd (admit E sc i snap cm now d)"
| "admission_exec E (AdRecord sc q) d = snd (recordDecision E sc q d)"
| "admission_exec E (AdCancel sc did now) d = snd (cancelDecision E sc did now d)"
| "admission_exec E (AdComplete sc res now) d = snd (completeOperation sc res now d)"
| "admission_exec E (AdBind sc did res) d = snd (bindDecision sc did res d)"
| "admission_exec E (AdCredit op) d = credit_exec E op d"

text \<open>The steps, with a condition on the policies that are in force when requests are admitted.\<close>

definition admission_typed :: "(policy_snapshot \<Rightarrow> bool) \<Rightarrow> admission_op \<Rightarrow> bool" where
  "admission_typed S op \<longleftrightarrow> (case op of AdAdmit sc i snap cm now \<Rightarrow> S snap | AdCredit cop \<Rightarrow> op_typed cop | _ \<Rightarrow> True)"

inductive admission_step :: "pg_env \<Rightarrow> (policy_snapshot \<Rightarrow> bool) \<Rightarrow> credit_db \<Rightarrow> credit_db \<Rightarrow> bool" for E S where
  admission_stepI: "admission_typed S op \<Longrightarrow> admission_step E S d (admission_exec E op d)"

inductive_cases admission_stepE: "admission_step E S d d'"

text \<open>A transaction that touches only decisions, leases and the bindings of reservations.\<close>

definition aside :: "'a tx \<Rightarrow> bool" where
  "aside m \<longleftrightarrow> (\<forall>T n r T' n'. m (T, n) = (r, (T', n')) \<longrightarrow> n' = n \<and> (isl r \<or> other_change T T'))"

lemma asideI: "(\<And>T n r T' n'. m (T, n) = (r, (T', n')) \<Longrightarrow> n' = n \<and> (isl r \<or> other_change T T')) \<Longrightarrow> aside m"
  by (simp add: aside_def)

lemma rebound_refl: "list_all2 rebound rs rs"
  by (simp add: list_all2_same rebound_def)

lemma other_change_refl: "other_change T T"
  by (simp add: other_change_def rebound_refl)

lemma other_change_aside:
  "other_change T (T\<lparr>tDecisions := ds\<rparr>)" "other_change T (T\<lparr>tLeases := ls\<rparr>)" "other_change T (T\<lparr>tDecisions := ds, tLeases := ls\<rparr>)"
  by (simp_all add: other_change_def rebound_refl)

lemma aside_run:
  assumes "\<And>sc. aside (body sc)"
  shows "reaches (credit_step E) d (snd (withScope scopeInput body d))"
proof (cases "billingScopeSchema_parse scopeInput")
  case (Some sc)
  obtain r T n where b: "body sc (dbTables d sc, dbSequence d) = (r, (T, n))" by (metis prod.collapse)
  then have n: "n = dbSequence d" and c: "isl r \<or> other_change (dbTables d sc) T" using assms [of sc] unfolding aside_def by blast+
  show ?thesis
  proof (cases r)
    case (Inl e)
    then have "snd (withScope scopeInput body d) = d" using Some b n by (simp add: withScope_def)
    then show ?thesis by (simp add: reaches_refl)
  next
    case (Inr x)
    then have w: "snd (withScope scopeInput body d) = \<lparr>dbTables = (dbTables d)(sc := T), dbSequence = n\<rparr>" using Some b by (simp add: withScope_def)
    have "credit_step E d (snd (withScope scopeInput body d))"
      unfolding w using c Inr n by (intro credit_other) (auto simp: other_change_refl)
    then show ?thesis by (rule reaches_step [OF reaches_refl])
  qed
qed (simp add: withScope_def reaches_refl)

lemma aside_record: "aside (insert_decision E sc q)"
  by (rule asideI) (auto simp: insert_decision_def other_change_refl other_change_aside split: if_splits)

lemma aside_admit: "aside (admit_tx E i snap cm sc)"
proof (rule asideI)
  fix T n r T' n' assume h: "admit_tx E i snap cm sc (T, n) = (r, (T', n'))"
  show "n' = n \<and> (isl r \<or> other_change T T')"
  proof (cases "recorded_decision (aiRequestKey i) T")
    case None
    then show ?thesis
      using h by (auto simp: admit_tx_def tx_bind_def tx_return_def insert_decision_def insert_lease_def other_change_refl other_change_aside
          split: sum.splits if_splits)
  qed (use h in \<open>auto simp: admit_tx_def other_change_refl\<close>)
qed

lemma aside_release: "aside (\<lambda>s. (Inr (f s), (release_leases P now (fst s), snd s)))"
  by (rule asideI) (auto simp: release_leases_def other_change_aside)

lemma aside_bind: "aside (\<lambda>s. (Inr (f s), ((fst s)\<lparr>tLeases := g s, tReservations := map (\<lambda>r. if P s r
    then r\<lparr>crRunId := nullish (crRunId r) (Some resource), crOperationReference := nullish (crOperationReference r) (Some resource)\<rparr> else r)
    (tReservations (fst s))\<rparr>, snd s)))"
  by (rule asideI) (auto simp: other_change_def list_all2_conv_all_nth rebound_def)

lemma credit_run_step: "op_typed op \<Longrightarrow> reaches (credit_step E) d (credit_exec E op d)"
  by (rule reaches_step [OF reaches_refl], rule credit_op)

lemma cancel_run: "reaches (credit_step E) d (snd (cancelDecision E sc did now d))"
proof -
  have 1: "reaches (credit_step E) d (snd (withScope sc (\<lambda>sc s. (Inr (map_option crReservationId (first_row E (decision_reservations did (fst s)))),
      (release_leases (\<lambda>l. alDecisionId l = did) now (fst s), snd s))) d))"
    by (rule aside_run [OF aside_release])
  obtain rid d1 where w: "withScope sc (\<lambda>sc s. (Inr (map_option crReservationId (first_row E (decision_reservations did (fst s)))),
      (release_leases (\<lambda>l. alDecisionId l = did) now (fst s), snd s))) d = (rid, d1)" by fastforce
  have r1: "reaches (credit_step E) d d1" using 1 w by simp
  have 2: "reaches (credit_step E) d (snd (settleCredits E sc r (cancel_settlement did now) d1))" for r
    using reaches_trans [OF r1 credit_run_step [of "OpSettle sc r (cancel_settlement did now)" E d1]] by (simp add: op_typed_def)
  show ?thesis
  proof (cases rid)
    case (Inr q)
    obtain s d2 where s: "settleCredits E sc (the q) (cancel_settlement did now) d1 = (s, d2)" by fastforce
    then show ?thesis using w Inr r1 2 [of "the q"] by (cases s) (simp_all add: cancelDecision_def)
  qed (use w r1 in \<open>simp add: cancelDecision_def\<close>)
qed

lemma record_run: "reaches (credit_step E) d (snd (recordDecision E sc q d))"
  using aside_run [OF aside_record] by (cases "admissionDecisionSchema_parse q") (simp_all add: recordDecision_def reaches_refl)

text \<open>The stages of \<open>admit\<close>.\<close>

lemma admit_run: "reaches (credit_step E) d (snd (admit E sc i snap cm now d))"
proof -
  obtain q d1 where w: "withScope sc (admit_tx E i snap cm) d = (q, d1)" by fastforce
  obtain v d2 where v: "reserveCredits E sc (admission_reservation i) d1 = (v, d2)" by fastforce
  have "reaches (credit_step E) d (snd (withScope sc (admit_tx E i snap cm) d))" by (rule aside_run [OF aside_admit])
  then have 1: "reaches (credit_step E) d d1" using w by simp
  have 2: "reaches (credit_step E) d d2"
    using reaches_trans [OF 1 credit_run_step [of "OpReserve sc (admission_reservation i)" E d1]] v by (simp add: op_typed_def)
  show ?thesis
  proof (cases q)
    case (Inr q0)
    obtain c d3 where c: "cancelDecision E sc (qdDecisionId q0) now d2 = (c, d3)" by fastforce
    have 3: "reaches (credit_step E) d d3" using reaches_trans [OF 2 cancel_run, of sc "qdDecisionId q0" now] c by simp
    show ?thesis
    proof (cases "credit_denial E q0")
      case (Inl e)
      then show ?thesis using w v c Inr 1 2 3 by (auto simp: admit_def split: sum.splits)
    next
      case d: (Inr dn)
      obtain k d4 where k: "recordDecision E sc dn d3 = (k, d4)" by fastforce
      have "reaches (credit_step E) d d4" using reaches_trans [OF 3 record_run, of sc dn] k by simp
      then show ?thesis using w v c d k Inr 1 2 3 by (auto simp: admit_def split: sum.splits)
    qed
  qed (use w 1 in \<open>simp add: admit_def\<close>)
qed

lemma admission_step_run:
  assumes "admission_step E S d d'"
  shows "reaches (credit_step E) d d'"
  using assms
proof (cases rule: admission_step.cases)
  case (admission_stepI op)
  then show ?thesis
  proof (cases op)
    case (AdComplete sc res now)
    then show ?thesis using admission_stepI(1) aside_run [OF aside_release] by (simp add: completeOperation_def)
  next
    case (AdBind sc did res)
    have "reaches (credit_step E) d (snd (bindDecision sc did res d))"
      unfolding bindDecision_def Let_def by (rule aside_run [OF aside_bind])
    then show ?thesis using admission_stepI(1) AdBind by simp
  next
    case (AdCredit cop)
    then show ?thesis using admission_stepI credit_run_step by (simp add: admission_typed_def)
  qed (simp_all add: admit_run record_run cancel_run)
qed

lemma admission_reaches: "reaches (admission_step E S) d d' \<Longrightarrow> reaches (credit_step E) d d'"
  by (induction rule: reaches.induct) (auto intro: reaches_refl reaches_trans admission_step_run)

text \<open>C22. Admission is built on the credit operations and keeps their books: every run of admissions, recordings,
cancellations, completions and bindings is a run of the credit operations, and in the state it reaches the reserved credits of
the ledger are what the reservations have left unresolved, the consumed credits what they have settled, and no reservation has
settled and released more than its maximum.\<close>

theorem admission_runs_keep_the_books:
  assumes "reaches (admission_step E S) empty_db d"
  shows "reaches (credit_step E) empty_db d
    \<and> sum_of reserved_delta (tLedger (dbTables d sc)) = sum_of unresolved_of (tReservations (dbTables d sc))
    \<and> sum_of consumed_delta (tLedger (dbTables d sc)) = sum_of crSettled (tReservations (dbTables d sc))
    \<and> (\<forall>r \<in> set (tReservations (dbTables d sc)). 0 \<le> crSettled r \<and> 0 \<le> crReleased r \<and> crSettled r + crReleased r \<le> crMaximum r
        \<and> crSettled r = settlement_sum csMeasured (crReservationId r) (dbTables d sc))"
proof -
  have r: "reaches (credit_step E) empty_db d" using admission_reaches [OF assms] .
  then have inv: "credit_inv (dbTables d sc)" by (rule credit_reachable_inv)
  have bounds: "0 \<le> crSettled r \<and> 0 \<le> crReleased r \<and> crSettled r + crReleased r \<le> crMaximum r
      \<and> crSettled r = settlement_sum csMeasured (crReservationId r) (dbTables d sc)" if "r \<in> set (tReservations (dbTables d sc))" for r
  proof -
    have "crSettled r = settlement_sum csMeasured (crReservationId r) (dbTables d sc)"
      using credit_invD(9) [OF inv that] unfolding reservation_ok_def by blast
    moreover have "crSettled r + crReleased r \<le> crMaximum r" using reservation_bounds(3) [OF inv that] by (simp add: unresolved_of_def)
    ultimately show ?thesis using reservation_bounds(1,2) [OF inv that] by blast
  qed
  show ?thesis using r reserved_total [OF inv] bounds by blast
qed

subsection \<open>Concurrent turns\<close>

text \<open>The credit operations do not touch the leases.\<close>

lemma leases_frame:
  assumes "\<And>T n x T' n'. m (T, n) = (Inr x, (T', n')) \<Longrightarrow> tLeases T' = tLeases T"
  shows "keeps (\<lambda>T. tLeases T = L) m"
  using assms by (auto simp: keeps_def)

lemma leases_reserve: "reserve_tx E i sc (T, n) = (Inr v, (T', n')) \<Longrightarrow> tLeases T' = tLeases T"
proof (cases "find (\<lambda>r. crIdempotencyKey r = riIdempotencyKey i) (tReservations T)")
  case None
  assume h: "reserve_tx E i sc (T, n) = (Inr v, (T', n'))"
  obtain c mx as T1 n1 u w where st: "insert_reservation E sc (new_reservation E sc i c mx) (T, n) = (Inr u, (T1, n1))"
      "insert_allocations E sc i (new_reservation E sc i c mx) 0 as (T1, n1) = (Inr w, (T', n'))"
    by (rule reserve_fresh [OF h None]) (rule that)
  then show ?thesis using insert_allocations_rest [OF st(2)] by (auto simp: insert_reservation_def rest_same_def split: if_splits)
qed (simp add: reserve_tx_def)

lemma leases_settle: "settle_tx E rid i sc (T, n) = (Inr v, (T', n')) \<Longrightarrow> tLeases T' = tLeases T"
proof (cases "first_row E (filter (\<lambda>c. csIdempotencyKey c = siIdempotencyKey i \<or> csUsageDedupeKey c = siUsageDedupeKey i) (tSettlements T))")
  case None
  assume h: "settle_tx E rid i sc (T, n) = (Inr v, (T', n'))"
  obtain r c u T1 n1 w T2 n2 w' where st: "insert_settlement E sc c (T, n) = (Inr u, (T1, n1))"
      "settle_allocations E sc i r c (siMeasured i) (released_by i r) (ordered_allocations rid T1) (T1, n1) = (Inr w, (T2, n2))"
      "update_reservation i (released_by i r) r (T2, n2) = (Inr w', (T', n'))"
    by (rule settle_fresh [OF h None]) (rule that)
  have "tLeases T1 = tLeases T" using st(1) by (auto simp: insert_settlement_def split: if_splits)
  moreover have "tLeases T2 = tLeases T1" using settle_allocations_other [where g = "\<lambda>e. 0", OF refl st(2)] by (simp add: rest_same_def)
  moreover have "tLeases T' = tLeases T2" using st(3) by (auto simp: update_reservation_def Let_def split: if_splits)
  ultimately show ?thesis by simp
qed (simp add: settle_tx_def)

interpretation lease_law: statement_law E "\<lambda>T. tLeases T = L" for E L
proof
  show "keeps (\<lambda>T. tLeases T = L) (insert_catalog E sc c)" for sc c by (rule leases_frame) (auto simp: insert_catalog_def split: if_splits)
  show "keeps (\<lambda>T. tLeases T = L) (upsert_lot E sc l)" for sc l by (rule leases_frame) (auto simp: upsert_lot_def split: if_splits)
  show "keeps (\<lambda>T. tLeases T = L) (insert_lot_quietly E sc l)" for sc l by (rule leases_frame) (auto simp: insert_lot_quietly_def split: if_splits)
  have entry: "keeps (\<lambda>T. tLeases T = L) (insert_entry E sc q e)" for sc q e by (rule leases_frame) (auto elim!: insert_entry_cases)
  show "keeps (\<lambda>T. tLeases T = L) (insert_entry E sc q (grant_entry E li lid))" for sc q li lid by (rule entry)
  show "keeps (\<lambda>T. tLeases T = L) (insert_entry E sc q (lifecycle_entry E i l))" for sc q i l by (rule entry)
  show "keeps (\<lambda>T. tLeases T = L) (insert_checkpoint E sc p)" for sc p by (rule leases_frame) (auto simp: insert_checkpoint_def split: if_splits)
  show "keeps (\<lambda>T. tLeases T = L) (reserve_tx E ri sc)" for ri sc by (rule leases_frame) (rule leases_reserve)
  show "keeps (\<lambda>T. tLeases T = L) (settle_tx E rid si sc)" for rid si sc by (rule leases_frame) (rule leases_settle)
qed

definition limits_turns :: "int \<Rightarrow> policy_snapshot \<Rightarrow> bool" where
  "limits_turns h snap \<longleftrightarrow> list_ex (\<lambda>p. qpMeter p = TenantConcurrentTurn \<and> qpHardLimit p = Some h) (psQuotas snap)"

lemma admit_leases:
  assumes "admit_tx E i snap cm sc (T, n) = (Inr q, (T', n'))" and "limits_turns h snap" and "active_turns T \<le> h"
  shows "active_turns T' \<le> h"
proof (cases "recorded_decision (aiRequestKey i) T")
  case None
  let ?req = "\<lparr>arScope = sc, arOperation = aiOperation i, arMeasurements = (\<lambda>m. Some (measure i cm T m)),
     arWatermark = admission_watermark E i cm T, arEvaluatedAt = aiEvaluatedAt i\<rparr>"
  have ev: "evaluateAdmission E ?req snap = Inr q" and ls: "tLeases T' = tLeases T @ [lease_of i q]"
    using assms(1) None
    by (auto simp: admit_tx_def tx_bind_Inr_iff tx_return_iff insert_decision_def insert_lease_def split: if_splits)
  note e = evaluation_outcome [OF ev]
  show ?thesis
  proof (cases "active_turn (lease_of i q)")
    case True
    then have op: "aiOperation i = TurnStart" "qdOutcome q \<noteq> DenyAdmission" using e by (auto simp: active_turn_def lease_of_def split: if_splits)
    then have "\<not> list_ex (exceeds_hard ?req) (psQuotas snap)" using e by auto
    moreover obtain p where "p \<in> set (psQuotas snap)" "qpMeter p = TenantConcurrentTurn" "qpHardLimit p = Some h"
      using assms(2) by (auto simp: limits_turns_def list_ex_iff)
    ultimately have "active_turns T < h"
      using op(1) by (auto simp: list_ex_iff exceeds_hard_def applies_def operationMeters_def reaches_limit_def measured_of_def measure_def)
    then show ?thesis using ls by (simp add: active_turns_def True)
  qed (use ls assms(3) in \<open>simp add: active_turns_def\<close>)
qed (use assms in \<open>simp add: admit_tx_def\<close>)

lemma fewer_turns:
  assumes "\<And>l. active_turn (f l) \<Longrightarrow> active_turn l" and "tLeases T' = map f (tLeases T)"
  shows "active_turns T' \<le> active_turns T"
proof -
  have "length (filter active_turn (map f ls)) \<le> length (filter active_turn ls)" for ls
    using assms(1) by (induction ls) (auto intro: le_SucI)
  then show ?thesis unfolding active_turns_def assms(2) by simp
qed

lemma release_turns: "active_turns (release_leases P now T) \<le> active_turns T"
  by (rule fewer_turns [where f = "\<lambda>l. if P l then l\<lparr>alReleasedAt := nullish (alReleasedAt l) (Some now)\<rparr> else l"])
    (auto simp: active_turn_def release_leases_def split: if_splits)

lemma turns_at_scope:
  assumes "\<And>sc. keeps (\<lambda>T. active_turns T \<le> h) (body sc)" and "active_turns (dbTables d sc) \<le> h"
  shows "active_turns (dbTables (snd (withScope scopeInput body d)) sc) \<le> h"
  using keeps_withScope [of "\<lambda>T. active_turns T \<le> h", OF assms] .

lemma turns_credit: "op_typed op \<Longrightarrow> active_turns (dbTables (credit_exec E op d) sc) = active_turns (dbTables d sc)"
  using lease_law.exec_at [of op d sc "tLeases (dbTables d sc)" E] by (simp add: active_turns_def)

lemma keeps_release: "keeps (\<lambda>T. active_turns T \<le> h) (\<lambda>s. (Inr (f s), (release_leases P now (fst s), snd s)))"
  by (rule keepsI) (auto intro: order_trans [OF release_turns])

lemma keeps_record: "keeps (\<lambda>T. active_turns T \<le> h) (insert_decision E sc q)"
  by (rule keepsI) (auto simp: insert_decision_def active_turns_def split: if_splits)

lemma turns_cancel: "active_turns (dbTables d sc) \<le> h \<Longrightarrow> active_turns (dbTables (snd (cancelDecision E sc' did now d)) sc) \<le> h"
proof -
  assume a: "active_turns (dbTables d sc) \<le> h"
  obtain rid d1 where w: "withScope sc' (\<lambda>sc s. (Inr (map_option crReservationId (first_row E (decision_reservations did (fst s)))),
      (release_leases (\<lambda>l. alDecisionId l = did) now (fst s), snd s))) d = (rid, d1)" by fastforce
  have "active_turns (dbTables (snd (withScope sc' (\<lambda>sc s. (Inr (map_option crReservationId (first_row E (decision_reservations did (fst s)))),
      (release_leases (\<lambda>l. alDecisionId l = did) now (fst s), snd s))) d)) sc) \<le> h"
    by (rule turns_at_scope [OF keeps_release a])
  then have 1: "active_turns (dbTables d1 sc) \<le> h" using w by simp
  have 2: "active_turns (dbTables (snd (settleCredits E sc' r (cancel_settlement did now) d1)) sc) \<le> h" for r
    using turns_credit [of "OpSettle sc' r (cancel_settlement did now)" E d1 sc] 1 by (simp add: op_typed_def)
  show ?thesis
  proof (cases rid)
    case (Inr q)
    obtain s d2 where s: "settleCredits E sc' (the q) (cancel_settlement did now) d1 = (s, d2)" by fastforce
    then show ?thesis using w Inr 1 2 [of "the q"] by (cases s) (simp_all add: cancelDecision_def)
  qed (use w 1 in \<open>simp add: cancelDecision_def\<close>)
qed

lemma turns_record: "active_turns (dbTables d sc) \<le> h \<Longrightarrow> active_turns (dbTables (snd (recordDecision E sc' q d)) sc) \<le> h"
  using turns_at_scope [OF keeps_record] by (cases "admissionDecisionSchema_parse q") (simp_all add: recordDecision_def)

lemma turns_admit:
  assumes "limits_turns h snap" and "active_turns (dbTables d sc) \<le> h"
  shows "active_turns (dbTables (snd (admit E sc' i snap cm now d)) sc) \<le> h"
proof -
  obtain q d1 where w: "withScope sc' (admit_tx E i snap cm) d = (q, d1)" by fastforce
  obtain v d2 where v: "reserveCredits E sc' (admission_reservation i) d1 = (v, d2)" by fastforce
  have "keeps (\<lambda>T. active_turns T \<le> h) (admit_tx E i snap cm sc)" for sc
    by (rule keepsI) (rule admit_leases [OF _ assms(1)])
  then have "active_turns (dbTables (snd (withScope sc' (admit_tx E i snap cm) d)) sc) \<le> h" by (rule turns_at_scope [OF _ assms(2)])
  then have 1: "active_turns (dbTables d1 sc) \<le> h" using w by simp
  then have 2: "active_turns (dbTables d2 sc) \<le> h"
    using turns_credit [of "OpReserve sc' (admission_reservation i)" E d1 sc] v by (simp add: op_typed_def)
  show ?thesis
  proof (cases q)
    case (Inr q0)
    obtain c d3 where c: "cancelDecision E sc' (qdDecisionId q0) now d2 = (c, d3)" by fastforce
    have 3: "active_turns (dbTables d3 sc) \<le> h" using turns_cancel [OF 2, of E sc' "qdDecisionId q0" now] c by simp
    show ?thesis
    proof (cases "credit_denial E q0")
      case (Inl e)
      then show ?thesis using w v c Inr 1 2 3 by (auto simp: admit_def split: sum.splits)
    next
      case d: (Inr dn)
      obtain k d4 where k: "recordDecision E sc' dn d3 = (k, d4)" by fastforce
      have "active_turns (dbTables d4 sc) \<le> h" using turns_record [OF 3, of E sc' dn] k by simp
      then show ?thesis using w v c d k Inr 1 2 3 by (auto simp: admit_def split: sum.splits)
    qed
  qed (use w 1 in \<open>simp add: admit_def\<close>)
qed

lemma turns_bind: "active_turns (dbTables d sc) \<le> h \<Longrightarrow> active_turns (dbTables (snd (bindDecision sc' did res d)) sc) \<le> h"
proof -
  assume a: "active_turns (dbTables d sc) \<le> h"
  have "active_turns (T\<lparr>tLeases := map (\<lambda>l. if P l then l\<lparr>alResourceId := Some res\<rparr> else l) (tLeases T), tReservations := rs\<rparr>) \<le> active_turns T" for T P rs
    by (rule fewer_turns [where f = "\<lambda>l. if P l then l\<lparr>alResourceId := Some res\<rparr> else l"]) (auto simp: active_turn_def split: if_splits)
  then have "keeps (\<lambda>T. active_turns T \<le> h) (\<lambda>s. (Inr (f s), ((fst s)\<lparr>tLeases := map (\<lambda>l. if P s l then l\<lparr>alResourceId := Some res\<rparr> else l) (tLeases (fst s)), tReservations := g s\<rparr>, snd s)))" for f P g
    by (intro keepsI) (auto intro: order_trans)
  then show ?thesis unfolding bindDecision_def Let_def by (rule turns_at_scope [OF _ a])
qed

lemma turns_complete: "active_turns (dbTables d sc) \<le> h \<Longrightarrow> active_turns (dbTables (snd (completeOperation sc' res now d)) sc) \<le> h"
  unfolding completeOperation_def by (rule turns_at_scope [OF keeps_release])

interpretation turn_run: transition_system "\<lambda>d. d = empty_db \<and> 0 \<le> h" "admission_step E (limits_turns h)"
  "\<lambda>d. \<forall>sc. active_turns (dbTables d sc) \<le> h" for E h
proof
  show "\<forall>sc. active_turns (dbTables d sc) \<le> h" if "d = empty_db \<and> 0 \<le> h" for d
    using that by (simp add: empty_db_def empty_tables_def active_turns_def)
  fix d d' assume i: "\<forall>sc. active_turns (dbTables d sc) \<le> h" and s: "admission_step E (limits_turns h) d d'"
  from s show "\<forall>sc. active_turns (dbTables d' sc) \<le> h"
  proof (cases rule: admission_step.cases)
    case (admission_stepI op)
    show ?thesis
      using admission_stepI i turns_admit turns_record turns_cancel turns_credit turns_bind turns_complete
      by (cases op) (simp_all add: admission_typed_def)
  qed
qed

text \<open>C23. The limit on concurrent turns holds: when every policy in force while requests are admitted has a quota of
hard limit \<open>h\<close> on the tenant's concurrent turns, no scope ever has more than \<open>h\<close> unreleased turns, whatever
order admissions, cancellations, completions and credit operations come in.\<close>

theorem concurrent_turns_stay_within_the_limit:
  assumes "0 \<le> h" and "reaches (admission_step E (limits_turns h)) empty_db d"
  shows "active_turns (dbTables d sc) \<le> h"
  using turn_run.reachable_inv [OF _ assms(2)] assms(1) by simp

subsection \<open>Admitted operations are covered\<close>


subsection \<open>Sample runs\<close>

definition sample_snapshot :: policy_snapshot where
  "sample_snapshot =
    \<lparr>psPlan = \<lparr>cpPlanId = ''p'', cpPlanVersion = 1, cpDisplayName = ''Plan'', cpCurrency = ''USD'', cpEffectiveAt = 0, cpRetiredAt = None,
       cpBillingMode = PlatformManaged, cpTaxBehavior = Exclusive\<rparr>,
     psEntitlements = [\<lparr>enEntitlementId = ''e'', enPlanId = ''p'', enPlanVersion = 1, enKey = TurnStart, enEnabled = True,
       enEffectiveAt = 0, enExpiresAt = None, enSourceWebhookEventId = None\<rparr>],
     psQuotas = [\<lparr>qpQuotaId = ''q'', qpPolicyVersion = 1, qpMeter = TenantConcurrentTurn, qpSoftLimit = Some 1, qpHardLimit = Some 2,
       qpInFlightPolicy = Continue, qpEffectiveAt = 0, qpExpiresAt = None\<rparr>]\<rparr>"

definition sample_measures :: corpus_measures where
  "sample_measures = \<lparr>cmSources = 0, cmBytes = 0, cmChunks = 0, cmLedgerMark = ''0'', cmCorpusMark = ''epoch''\<rparr>"

definition sample_admission :: admission_input where
  "sample_admission = \<lparr>aiOperation = TurnStart, aiRequestKey = ''k'', aiSessionId = None, aiRequestedBytes = None, aiEvaluatedAt = 7\<rparr>"

definition priced :: credit_db where
  "priced = credit_exec sample_pg (OpCatalog sample_billing sample_catalog) empty_db"

definition refused :: credit_db where
  "refused = snd (admit sample_pg sample_billing sample_admission sample_snapshot sample_measures 8 priced)"

definition topped_up :: credit_db where
  "topped_up = credit_exec sample_pg (OpLot sample_billing (sample_lot Paid 100 ''paid'')) refused"

definition admitted :: credit_db where
  "admitted = snd (admit sample_pg sample_billing sample_admission sample_snapshot sample_measures 8 funded)"

text \<open>A request denied for lack of credit is let through when it is repeated: the decision stored under its key
is still the allowing one, so that after a top-up the repeated request is answered from it, while its lease was released with
the denial and the turn is not counted.\<close>

theorem credit_denied_request_is_admitted_uncounted:
  "map_sum id qdOutcome (fst (admit sample_pg sample_billing sample_admission sample_snapshot sample_measures 8 priced)) = Inr DenyAdmission
   \<and> map_sum id qdOutcome (fst (admit sample_pg sample_billing sample_admission sample_snapshot sample_measures 9 topped_up)) = Inr Allow
   \<and> active_turns (dbTables (snd (admit sample_pg sample_billing sample_admission sample_snapshot sample_measures 9 topped_up)) sample_billing) = 0"
  by code_simp

text \<open>The decision is the policy: an evaluation that answers denies exactly when the operation is not entitled or some
quota of its meters has reached its hard limit, warns exactly when it does not deny and some soft limit is reached, and allows
otherwise; the version and the in-flight policy of a denial or a warning are those of the first quota that caused it.\<close>

theorem evaluation_follows_policy:
  assumes "evaluateAdmission E req snap = Inr q"
  shows "qdOutcome q =
      (if \<not> entitled snap (arOperation req) \<or> list_ex (exceeds_hard req) (psQuotas snap) then DenyAdmission
       else if list_ex (exceeds_soft req) (psQuotas snap) then Warn else Allow)
    \<and> qdOperation q = arOperation req
    \<and> (qdOutcome q = DenyAdmission \<and> entitled snap (arOperation req) \<longrightarrow>
        (\<exists>p. find (exceeds_hard req) (psQuotas snap) = Some p \<and> qdPolicyVersion q = qpPolicyVersion p \<and> qdInFlightPolicy q = qpInFlightPolicy p))
    \<and> (qdOutcome q = Warn \<longrightarrow>
        (\<exists>p. find (exceeds_soft req) (psQuotas snap) = Some p \<and> qdPolicyVersion q = qpPolicyVersion p \<and> qdInFlightPolicy q = qpInFlightPolicy p))"
  using assms by (rule evaluation_outcome)

theorem evaluation_follows_policy_witness:
  "\<exists>q. evaluateAdmission sample_pg \<lparr>arScope = sample_billing, arOperation = TurnStart, arMeasurements = (\<lambda>m. Some 2), arWatermark = ''w'',
      arEvaluatedAt = 0\<rparr> sample_snapshot = Inr q \<and> qdOutcome q = DenyAdmission"
proof -
  let ?req = "\<lparr>arScope = sample_billing, arOperation = TurnStart, arMeasurements = (\<lambda>m. Some 2), arWatermark = ''w'', arEvaluatedAt = 0\<rparr>"
  have "isl (evaluateAdmission sample_pg ?req sample_snapshot) = False" by code_simp
  then obtain q where q: "evaluateAdmission sample_pg ?req sample_snapshot = Inr q" by (metis isl_def sum.exhaust_sel)
  have "list_ex (exceeds_hard ?req) (psQuotas sample_snapshot)" by code_simp
  then show ?thesis using evaluation_follows_policy [OF q] q by auto
qed

lemma admission_next:
  "reaches (admission_step E S) empty_db d \<Longrightarrow> admission_typed S op \<Longrightarrow> reaches (admission_step E S) empty_db (admission_exec E op d)"
  by (rule reaches_step, assumption, rule admission_stepI)

lemma funded_reaches: "reaches (admission_step sample_pg S) empty_db funded"
proof -
  have ops: "funded = admission_exec sample_pg (AdCredit (OpLot sample_billing (sample_lot Promotional 40 ''promo'')))
      (admission_exec sample_pg (AdCredit (OpLot sample_billing (sample_lot Paid 100 ''paid'')))
        (admission_exec sample_pg (AdCredit (OpCatalog sample_billing sample_catalog)) empty_db))"
    by (simp add: funded_def)
  show ?thesis unfolding ops by (intro admission_next reaches_refl) (simp_all add: admission_typed_def op_typed_def)
qed

lemma admitted_reaches: "reaches (admission_step sample_pg (limits_turns 2)) empty_db admitted"
proof -
  have "admission_typed (limits_turns 2) (AdAdmit sample_billing sample_admission sample_snapshot sample_measures 8)"
    by (simp add: admission_typed_def limits_turns_def sample_snapshot_def)
  then show ?thesis using admission_next [OF funded_reaches] by (fastforce simp: admitted_def)
qed

theorem admission_runs_keep_the_books_witness:
  "sum_of unresolved_of (tReservations (dbTables admitted sample_billing)) = 60
   \<and> sum_of reserved_delta (tLedger (dbTables admitted sample_billing)) = 60"
proof -
  have "sum_of unresolved_of (tReservations (dbTables admitted sample_billing)) = 60" by code_simp
  then show ?thesis using admission_runs_keep_the_books [OF admitted_reaches, of sample_billing] by simp
qed

theorem concurrent_turns_stay_within_the_limit_witness:
  "active_turns (dbTables admitted sample_billing) = 1 \<and> active_turns (dbTables admitted sample_billing) \<le> 2"
proof -
  have "active_turns (dbTables admitted sample_billing) = 1" by code_simp
  then show ?thesis using concurrent_turns_stay_within_the_limit [OF _ admitted_reaches, of sample_billing] by simp
qed


end
