(* ===== verification/Timeline_Events.thy ===== *)
theory Timeline_Events
  imports Json_Text
begin

section \<open>Timeline events\<close>

text \<open>
  The events of \<open>packages/domain-events\<close> and the provider types of \<open>packages/provider-platform\<close> that sessions and
  runs carry.  An event is its identity and a payload; the payload's constructor is the event type.  The schemas are
  checks on typed values: the parser answers the value it was given, or fails.  Counts and durations are integers.
\<close>

subsection \<open>Providers and models\<close>

datatype provider_id = Codex | Claude | Gemini | Cursor

datatype reasoning_effort = EffortNone | Minimal | Low | Medium | High | XHigh | MaxEffort

datatype capability_support = Supported | Unsupported | Degraded

record capability_matrix =
  cmStreaming :: capability_support
  cmReasoningSummary :: capability_support
  cmCommandExecution :: capability_support
  cmFileChanges :: capability_support
  cmApprovals :: capability_support
  cmInterrupt :: capability_support
  cmResume :: capability_support
  cmToolCalls :: capability_support
  cmImageInput :: capability_support
  cmUsage :: capability_support
  cmCost :: capability_support

datatype model_alias = Sol | Luna

datatype model_selection = ByAlias model_alias reasoning_effort | ByModel string reasoning_effort

subsection \<open>Payloads\<close>

datatype event_source = CodexAppServer | ClaudeCode | GeminiCli | CursorAgent

datatype event_visibility = VisibleToUser | VisibleToOperator | InternalOnly

datatype request_id = RequestText string | RequestNumber int

datatype change_kind = AddFile | DeleteFile | UpdateFile

record file_change =
  fcPath :: string
  fcKind :: change_kind
  fcMovePath :: "string option"
  fcDiff :: string

record token_usage =
  tuTotal :: int
  tuInput :: int
  tuCachedInput :: int
  tuOutput :: int
  tuReasoningOutput :: int

record artifact_pointer =
  apArtifactId :: string
  apStartByte :: int
  apEndByte :: int
  apByteLength :: int

record command_output =
  coPreviewTail :: string
  coPreviewByteLength :: int
  coTruncated :: bool
  coTotalBytes :: int
  coArtifact :: "artifact_pointer option"
  coSha256 :: "string option"

datatype output_stream = Stdout | Stderr | Combined

datatype tool_kind = McpTool | DynamicTool

datatype approval_subject = CommandApproval | FileApproval | UnknownApproval

datatype event_payload =
    TurnStarted string
  | TurnCompleted string "string option"
  | AgentMessageDelta string
  | AgentMessageCompleted string
  | ReasoningSummaryDelta string
  | PlanDelta string
  | PlanCompleted string
  | CommandProposed string string string
  | CommandOutputDelta string output_stream int int string bool "artifact_pointer option"
  | CommandCompleted string string string command_output "int option" "int option"
  | FileChangeProposed string "file_change list"
  | FileChangeCompleted string "file_change list"
  | DiffText string
  | DiffChanges "file_change list"
  | ToolStarted tool_kind string "string option" string json
  | ToolCompleted tool_kind string "string option" string json "string option" "bool option" "int option"
  | ApprovalRequested request_id "string option" approval_subject "string option" "string option" "string option" "string option"
  | ApprovalResolved request_id approval_subject
  | TokenUsageUpdated token_usage token_usage "int option"
  | ErrorReported string "string option" json bool
  | ContextCompacted "string option"
  | CodexUnknown bool "request_id option" string json
  | ProviderUnknown provider_id string json
  | CursorUnknown string json

record timeline_event =
  teEventId :: string
  teTenantId :: string
  teWorkspaceId :: string
  teSessionId :: string
  teThreadId :: "string option"
  teTurnId :: "string option"
  teItemId :: "string option"
  teSequence :: int
  teOccurredAt :: instant
  teReceivedAt :: instant
  teSource :: event_source
  teSourceVersion :: string
  teSourceMethod :: string
  teVisibility :: event_visibility
  tePayload :: event_payload

definition event_type :: "event_payload \<Rightarrow> string" where
  "event_type p =
    (case p of
       TurnStarted _ \<Rightarrow> ''turn.started''
     | TurnCompleted _ _ \<Rightarrow> ''turn.completed''
     | AgentMessageDelta _ \<Rightarrow> ''agent.message.delta''
     | AgentMessageCompleted _ \<Rightarrow> ''agent.message.completed''
     | ReasoningSummaryDelta _ \<Rightarrow> ''reasoning.summary.delta''
     | PlanDelta _ \<Rightarrow> ''plan.delta''
     | PlanCompleted _ \<Rightarrow> ''plan.completed''
     | CommandProposed _ _ _ \<Rightarrow> ''command.proposed''
     | CommandOutputDelta _ _ _ _ _ _ _ \<Rightarrow> ''command.output.delta''
     | CommandCompleted _ _ _ _ _ _ \<Rightarrow> ''command.completed''
     | FileChangeProposed _ _ \<Rightarrow> ''file.change.proposed''
     | FileChangeCompleted _ _ \<Rightarrow> ''file.change.completed''
     | DiffText _ \<Rightarrow> ''diff.updated''
     | DiffChanges _ \<Rightarrow> ''diff.updated''
     | ToolStarted _ _ _ _ _ \<Rightarrow> ''tool.started''
     | ToolCompleted _ _ _ _ _ _ _ _ \<Rightarrow> ''tool.completed''
     | ApprovalRequested _ _ _ _ _ _ _ \<Rightarrow> ''approval.requested''
     | ApprovalResolved _ _ \<Rightarrow> ''approval.resolved''
     | TokenUsageUpdated _ _ _ \<Rightarrow> ''token.usage.updated''
     | ErrorReported _ _ _ _ \<Rightarrow> ''error.reported''
     | ContextCompacted _ \<Rightarrow> ''context.compacted''
     | CodexUnknown _ _ _ _ \<Rightarrow> ''codex.unknown''
     | ProviderUnknown _ _ _ \<Rightarrow> ''provider.unknown''
     | CursorUnknown _ _ \<Rightarrow> ''cursor.unknown'')"

subsection \<open>Schemas\<close>

definition nullable_count :: "int option \<Rightarrow> bool" where
  "nullable_count x \<longleftrightarrow> (case x of None \<Rightarrow> True | Some n \<Rightarrow> 0 \<le> n)"

definition lower_hex :: "char \<Rightarrow> bool" where
  "lower_hex c \<longleftrightarrow> c \<in> set ''0123456789abcdef''"

definition tokenUsageBreakdownSchema :: "token_usage \<Rightarrow> bool" where
  "tokenUsageBreakdownSchema u \<longleftrightarrow> 0 \<le> tuTotal u \<and> 0 \<le> tuInput u \<and> 0 \<le> tuCachedInput u \<and> 0 \<le> tuOutput u \<and> 0 \<le> tuReasoningOutput u"

definition artifactPointerSchema :: "artifact_pointer \<Rightarrow> bool" where
  "artifactPointerSchema a \<longleftrightarrow> ident (apArtifactId a) \<and> 0 \<le> apStartByte a \<and> 0 \<le> apEndByte a \<and> 0 \<le> apByteLength a"

definition nullable_pointer :: "artifact_pointer option \<Rightarrow> bool" where
  "nullable_pointer x \<longleftrightarrow> (case x of None \<Rightarrow> True | Some a \<Rightarrow> artifactPointerSchema a)"

definition commandOutputStateSchema :: "command_output \<Rightarrow> bool" where
  "commandOutputStateSchema c \<longleftrightarrow> 0 \<le> coPreviewByteLength c \<and> 0 \<le> coTotalBytes c \<and> nullable_pointer (coArtifact c)
     \<and> (case coSha256 c of None \<Rightarrow> True | Some h \<Rightarrow> length h = 64 \<and> list_all lower_hex h)"

definition payload_valid :: "event_payload \<Rightarrow> bool" where
  "payload_valid p \<longleftrightarrow>
    (case p of
       TurnStarted status \<Rightarrow> ident status
     | TurnCompleted status code \<Rightarrow> ident status
     | CommandProposed command cwd status \<Rightarrow> ident status
     | CommandOutputDelta commandId stream index bytes text truncated artifact \<Rightarrow>
         ident commandId \<and> 0 \<le> index \<and> 0 \<le> bytes \<and> length text \<le> 65536 \<and> nullable_pointer artifact
     | CommandCompleted command cwd status output exitCode duration \<Rightarrow>
         ident status \<and> commandOutputStateSchema output \<and> nullable_count duration
     | FileChangeProposed status changes \<Rightarrow> ident status
     | FileChangeCompleted status changes \<Rightarrow> ident status
     | ToolStarted kind tool provider status arguments \<Rightarrow> ident tool \<and> ident status
     | ToolCompleted kind tool provider status result err success duration \<Rightarrow> ident tool \<and> ident status \<and> nullable_count duration
     | ApprovalRequested rid aid subject reason command cwd root \<Rightarrow> subject \<noteq> UnknownApproval
     | TokenUsageUpdated tot lst window \<Rightarrow>
         tokenUsageBreakdownSchema tot \<and> tokenUsageBreakdownSchema lst \<and> nullable_count window
     | ProviderUnknown provider ty env \<Rightarrow> provider \<noteq> Codex
     | _ \<Rightarrow> True)"

definition eventIdentitySchema :: "timeline_event \<Rightarrow> bool" where
  "eventIdentitySchema e \<longleftrightarrow> ident (teEventId e) \<and> ident (teTenantId e) \<and> ident (teWorkspaceId e) \<and> ident (teSessionId e)
     \<and> nullable_ident (teThreadId e) \<and> nullable_ident (teTurnId e) \<and> nullable_ident (teItemId e) \<and> 0 \<le> teSequence e
     \<and> iso_datetime (teOccurredAt e) \<and> iso_datetime (teReceivedAt e) \<and> ident (teSourceVersion e) \<and> ident (teSourceMethod e)"

definition timelineEventSchema :: "timeline_event \<Rightarrow> bool" where
  "timelineEventSchema e \<longleftrightarrow> eventIdentitySchema e \<and> payload_valid (tePayload e)"

definition parseTimelineEvent :: "timeline_event \<Rightarrow> timeline_event option" where
  "parseTimelineEvent e = (if timelineEventSchema e then Some e else None)"

lemma parseTimelineEvent_Some [simp]: "parseTimelineEvent e = Some e' \<longleftrightarrow> timelineEventSchema e \<and> e' = e"
  by (auto simp: parseTimelineEvent_def)

text \<open>The number of an event does not enter its validity.\<close>

lemma timelineEventSchema_sequence: "0 \<le> n \<Longrightarrow> timelineEventSchema e \<Longrightarrow> timelineEventSchema (e\<lparr>teSequence := n\<rparr>)"
  by (simp add: timelineEventSchema_def eventIdentitySchema_def)

end
