(* ===== verification/Provider_Platform.thy ===== *)
theory Provider_Platform
  imports Timeline_Events
begin

section \<open>The provider platform: model selection, prices and official costs\<close>

text \<open>
  \<open>packages/provider-platform/src/index.ts\<close>: an alias or a model identifier is resolved against the catalog a provider
  adapter discovered; the cost of a usage report is estimated from a price catalog in integer arithmetic; official costs
  are fetched page by page and converted from decimal text.  The schemas are checks on typed values; a record keyed by an
  enumeration must have every key, so an alias that is not configured is refused by the schema already.  The HTTP fetcher is an
  argument: it answers the \<open>n\<close>th request for a page with a status and a body.
\<close>

subsection \<open>Catalogs and policies\<close>

datatype provider_error =
    MODEL_ALIAS_NOT_CONFIGURED
  | MODEL_ALIAS_PROVIDER_MISMATCH
  | MODEL_ALIAS_UNRESOLVED
  | REASONING_EFFORT_UNSUPPORTED
  | COST_OUT_OF_RANGE
  | SchemaRejected

record provider_identity =
  piProvider :: provider_id
  piAdapter :: string
  piAdapterVersion :: string
  piUpstreamVersion :: string

record provider_model =
  pmProvider :: provider_id
  pmModelId :: string
  pmDisplayName :: string
  pmHidden :: bool
  pmIsDefault :: bool
  pmReasoningEfforts :: "reasoning_effort list"
  pmDefaultReasoningEffort :: reasoning_effort
  pmInputModalities :: "string list"
  pmCapabilities :: capability_matrix

record model_catalog =
  ctSchemaVersion :: int
  ctIdentity :: provider_identity
  ctDiscoveredAt :: instant
  ctModels :: "provider_model list"

datatype model_selector = SelectModelId string | CatalogDefault

record alias_target =
  atProvider :: provider_id
  atSelector :: model_selector

type_synonym alias_config = "model_alias \<Rightarrow> alias_target option"

record resolved_policy =
  rvRequested :: model_selection
  rvProvider :: provider_id
  rvModelId :: string
  rvReasoningEffort :: reasoning_effort
  rvCapabilities :: capability_matrix
  rvCatalogDiscoveredAt :: instant

definition PROVIDER_CONTRACT_VERSION :: int where
  "PROVIDER_CONTRACT_VERSION = 1"

definition providerIdentitySchema :: "provider_identity \<Rightarrow> bool" where
  "providerIdentitySchema i \<longleftrightarrow> ident (piAdapter i) \<and> ident (piAdapterVersion i) \<and> ident (piUpstreamVersion i)"

definition providerModelSchema :: "provider_model \<Rightarrow> bool" where
  "providerModelSchema m \<longleftrightarrow> ident (pmModelId m) \<and> ident (pmDisplayName m) \<and> list_all ident (pmInputModalities m)"

definition providerModelCatalogSchema :: "model_catalog \<Rightarrow> bool" where
  "providerModelCatalogSchema c \<longleftrightarrow> ctSchemaVersion c = PROVIDER_CONTRACT_VERSION \<and> providerIdentitySchema (ctIdentity c)
     \<and> iso_datetime (ctDiscoveredAt c) \<and> list_all providerModelSchema (ctModels c)"

definition modelSelectionSchema :: "model_selection \<Rightarrow> bool" where
  "modelSelectionSchema s \<longleftrightarrow> (case s of ByAlias _ _ \<Rightarrow> True | ByModel m _ \<Rightarrow> ident m)"

definition alias_target_valid :: "alias_target option \<Rightarrow> bool" where
  "alias_target_valid t \<longleftrightarrow>
    (case t of None \<Rightarrow> False | Some x \<Rightarrow> (case atSelector x of SelectModelId m \<Rightarrow> ident m | CatalogDefault \<Rightarrow> True))"

definition modelAliasConfigSchema :: "alias_config \<Rightarrow> bool" where
  "modelAliasConfigSchema config \<longleftrightarrow> alias_target_valid (config Sol) \<and> alias_target_valid (config Luna)"

definition resolvedModelPolicySchema :: "resolved_policy \<Rightarrow> bool" where
  "resolvedModelPolicySchema r \<longleftrightarrow> modelSelectionSchema (rvRequested r) \<and> ident (rvModelId r) \<and> iso_datetime (rvCatalogDiscoveredAt r)"

definition parse_resolved :: "resolved_policy \<Rightarrow> provider_error + resolved_policy" where
  "parse_resolved r = (if resolvedModelPolicySchema r then Inr r else Inl SchemaRejected)"

definition DEFAULT_MODEL_ALIAS_CONFIG :: alias_config where
  "DEFAULT_MODEL_ALIAS_CONFIG a = Some \<lparr>atProvider = Codex, atSelector = CatalogDefault\<rparr>"

definition selected_model :: "model_selector \<Rightarrow> provider_model list \<Rightarrow> provider_model option" where
  "selected_model s models =
    (case s of
       SelectModelId m \<Rightarrow> find (\<lambda>x. pmModelId x = m) models
     | CatalogDefault \<Rightarrow> find (\<lambda>x. pmIsDefault x \<and> \<not> pmHidden x) models)"

definition resolveModelPolicy :: "model_alias \<Rightarrow> reasoning_effort \<Rightarrow> alias_config \<Rightarrow> model_catalog \<Rightarrow> provider_error + resolved_policy" where
  "resolveModelPolicy alias effort config catalog =
    (if \<not> modelAliasConfigSchema config \<or> \<not> providerModelCatalogSchema catalog then Inl SchemaRejected
     else case config alias of
       None \<Rightarrow> Inl MODEL_ALIAS_NOT_CONFIGURED
     | Some target \<Rightarrow>
         if atProvider target \<noteq> piProvider (ctIdentity catalog) then Inl MODEL_ALIAS_PROVIDER_MISMATCH
         else case selected_model (atSelector target) (ctModels catalog) of
           None \<Rightarrow> Inl MODEL_ALIAS_UNRESOLVED
         | Some m \<Rightarrow>
             if effort \<notin> set (pmReasoningEfforts m) then Inl REASONING_EFFORT_UNSUPPORTED
             else parse_resolved
               \<lparr>rvRequested = ByAlias alias effort, rvProvider = pmProvider m, rvModelId = pmModelId m, rvReasoningEffort = effort,
                rvCapabilities = pmCapabilities m, rvCatalogDiscoveredAt = ctDiscoveredAt catalog\<rparr>)"

definition resolveModelSelection :: "provider_id \<Rightarrow> model_selection \<Rightarrow> alias_config \<Rightarrow> model_catalog \<Rightarrow> provider_error + resolved_policy" where
  "resolveModelSelection provider requested config catalog =
    (if \<not> modelSelectionSchema requested \<or> \<not> providerModelCatalogSchema catalog then Inl SchemaRejected
     else if piProvider (ctIdentity catalog) \<noteq> provider then Inl MODEL_ALIAS_PROVIDER_MISMATCH
     else case requested of
       ByAlias alias effort \<Rightarrow> resolveModelPolicy alias effort config catalog
     | ByModel mid effort \<Rightarrow>
         (case find (\<lambda>x. pmModelId x = mid \<and> \<not> pmHidden x) (ctModels catalog) of
           None \<Rightarrow> Inl MODEL_ALIAS_UNRESOLVED
         | Some m \<Rightarrow>
             if effort \<notin> set (pmReasoningEfforts m) then Inl REASONING_EFFORT_UNSUPPORTED
             else parse_resolved
               \<lparr>rvRequested = requested, rvProvider = provider, rvModelId = pmModelId m, rvReasoningEffort = effort,
                rvCapabilities = pmCapabilities m, rvCatalogDiscoveredAt = ctDiscoveredAt catalog\<rparr>))"

subsection \<open>Usage and prices\<close>

record usage_counters =
  ucInputTokens :: int
  ucCachedInputTokens :: int
  ucOutputTokens :: int
  ucReasoningTokens :: int
  ucToolUnits :: int

definition usageCountersSchema :: "usage_counters \<Rightarrow> bool" where
  "usageCountersSchema c \<longleftrightarrow> 0 \<le> ucInputTokens c \<and> 0 \<le> ucCachedInputTokens c \<and> 0 \<le> ucOutputTokens c
     \<and> 0 \<le> ucReasoningTokens c \<and> 0 \<le> ucToolUnits c"

datatype report_kind = DeltaReport | CumulativeReport

record usage_report =
  urKind :: report_kind
  urProvider :: provider_id
  urRequestId :: string
  urDedupeKey :: string
  urCounters :: usage_counters
  urComplete :: bool
  urOccurredAt :: instant

record model_price =
  mpProvider :: provider_id
  mpModelId :: string
  mpInput :: int
  mpCachedInput :: int
  mpOutput :: int
  mpReasoning :: int
  mpToolUnit :: int

record price_catalog =
  prVersion :: string
  prEffectiveAt :: instant
  prModels :: "model_price list"

definition model_price_valid :: "model_price \<Rightarrow> bool" where
  "model_price_valid p \<longleftrightarrow> ident (mpModelId p) \<and> 0 \<le> mpInput p \<and> 0 \<le> mpCachedInput p \<and> 0 \<le> mpOutput p \<and> 0 \<le> mpReasoning p
     \<and> 0 \<le> mpToolUnit p"

definition priceCatalogSchema :: "price_catalog \<Rightarrow> bool" where
  "priceCatalogSchema c \<longleftrightarrow> ident (prVersion c) \<and> iso_datetime (prEffectiveAt c) \<and> list_all model_price_valid (prModels c)"

definition MAX_SAFE_INTEGER :: int where
  "MAX_SAFE_INTEGER = 9007199254740991"

definition token_cost :: "usage_counters \<Rightarrow> model_price \<Rightarrow> int" where
  "token_cost c p = ucInputTokens c * mpInput p + ucCachedInputTokens c * mpCachedInput p + ucOutputTokens c * mpOutput p
     + ucReasoningTokens c * mpReasoning p"

definition estimateUsageCostMicros :: "provider_id \<Rightarrow> string \<Rightarrow> usage_counters \<Rightarrow> price_catalog \<Rightarrow> provider_error + int \<times> string" where
  "estimateUsageCostMicros provider mid counters catalog =
    (if \<not> usageCountersSchema counters \<or> \<not> priceCatalogSchema catalog then Inl SchemaRejected
     else case find (\<lambda>p. mpProvider p = provider \<and> mpModelId p = mid) (prModels catalog) of
       None \<Rightarrow> Inl MODEL_ALIAS_UNRESOLVED
     | Some p \<Rightarrow>
         (let acc = (token_cost counters p + 500000) div 1000000 + ucToolUnits counters * mpToolUnit p
          in if MAX_SAFE_INTEGER < acc then Inl COST_OUT_OF_RANGE else Inr (acc, prVersion catalog)))"

subsection \<open>Official costs\<close>

datatype reconciliation_error =
    PROVIDER_MISMATCH
  | ADMIN_CREDENTIAL_REJECTED
  | OFFICIAL_COST_UNAVAILABLE
  | INVALID_OFFICIAL_COST_RESPONSE

definition digits_value :: "string \<Rightarrow> int" where
  "digits_value s = fold (\<lambda>c v. 10 * v + int (digit_val c)) s 0"

text \<open>The expression \<open>/^\d+(?:\.\d+)?$/\<close>, with the parts before and after the point.\<close>

definition decimal_parts :: "string \<Rightarrow> (string \<times> string) option" where
  "decimal_parts s =
    (let whole = takeWhile is_digit s
     in if whole = [] then None
        else case dropWhile is_digit s of
          [] \<Rightarrow> Some (whole, [])
        | c # f \<Rightarrow> if c = CHR ''.'' \<and> f \<noteq> [] \<and> list_all is_digit f then Some (whole, f) else None)"

definition decimalUnitsToMicros :: "string \<Rightarrow> int \<Rightarrow> reconciliation_error + int" where
  "decimalUnitsToMicros text unit =
    (case decimal_parts text of
       None \<Rightarrow> Inl INVALID_OFFICIAL_COST_RESPONSE
     | Some (whole, fraction) \<Rightarrow>
         (let denominator = 10 ^ length fraction;
              numerator = digits_value (whole @ fraction) * unit;
              rounded = (numerator + denominator div 2) div denominator
          in if MAX_SAFE_INTEGER < rounded then Inl INVALID_OFFICIAL_COST_RESPONSE else Inr rounded))"

text \<open>A result of a page: the amount as decimal text and the currency.  The amount of the OpenAI endpoint is a number,
  whose text is what \<open>String\<close> prints; a missing amount has no currency either.\<close>

record cost_result =
  coAmount :: "string option"
  coCurrency :: "string option"

record cost_page =
  cgData :: "cost_result list option list option"
  cgHasMore :: bool
  cgNextPage :: "string option"

record cost_response =
  hrStatus :: int
  hrBody :: cost_page

definition officialCostJson :: "cost_response \<Rightarrow> reconciliation_error + cost_page" where
  "officialCostJson r =
    (if hrStatus r = 401 \<or> hrStatus r = 403 then Inl ADMIN_CREDENTIAL_REJECTED
     else if \<not> (200 \<le> hrStatus r \<and> hrStatus r \<le> 299) then Inl OFFICIAL_COST_UNAVAILABLE
     else Inr (hrBody r))"

datatype cost_source = OpenAi | Anthropic

definition cost_provider :: "cost_source \<Rightarrow> provider_id" where
  "cost_provider src = (case src of OpenAi \<Rightarrow> Codex | Anthropic \<Rightarrow> Claude)"

definition cost_unit :: "cost_source \<Rightarrow> int" where
  "cost_unit src = (case src of OpenAi \<Rightarrow> 1000000 | Anthropic \<Rightarrow> 10000)"

definition lower_ascii :: "char \<Rightarrow> char" where
  "lower_ascii c = (let n = of_char c :: nat in if 65 \<le> n \<and> n \<le> 90 then char_of (n + 32) else c)"

definition usd_currency :: "cost_source \<Rightarrow> string option \<Rightarrow> bool" where
  "usd_currency src c \<longleftrightarrow>
    (case src of OpenAi \<Rightarrow> map_option (map lower_ascii) c = Some ''usd'' | Anthropic \<Rightarrow> c = Some ''USD'')"

definition missing_amount :: "cost_source \<Rightarrow> string" where
  "missing_amount src = (case src of OpenAi \<Rightarrow> ''NaN'' | Anthropic \<Rightarrow> ''invalid'')"

definition result_micros :: "cost_source \<Rightarrow> cost_result \<Rightarrow> reconciliation_error + int" where
  "result_micros src r =
    (if \<not> usd_currency src (coCurrency r) then Inl INVALID_OFFICIAL_COST_RESPONSE
     else decimalUnitsToMicros (case coAmount r of Some a \<Rightarrow> a | None \<Rightarrow> missing_amount src) (cost_unit src))"

fun add_results :: "cost_source \<Rightarrow> cost_result list \<Rightarrow> int \<Rightarrow> reconciliation_error + int" where
  "add_results src [] acc = Inr acc"
| "add_results src (r # rs) acc =
    (case result_micros src r of Inl err \<Rightarrow> Inl err | Inr m \<Rightarrow> add_results src rs (acc + m))"

definition page_results :: "cost_page \<Rightarrow> cost_result list" where
  "page_results p = concat (map (\<lambda>b. case b of Some rs \<Rightarrow> rs | None \<Rightarrow> []) (case cgData p of Some bs \<Rightarrow> bs | None \<Rightarrow> []))"

text \<open>The loop over the pages: \<open>n\<close> pages have been read, at most 100 are.\<close>

function cost_pages :: "cost_source \<Rightarrow> (nat \<Rightarrow> string option \<Rightarrow> cost_response) \<Rightarrow> nat \<Rightarrow> string option \<Rightarrow> int \<Rightarrow> reconciliation_error + int" where
  "cost_pages src fetch n page acc =
    (case officialCostJson (fetch n page) of
       Inl err \<Rightarrow> Inl err
     | Inr raw \<Rightarrow>
         (case add_results src (page_results raw) acc of
            Inl err \<Rightarrow> Inl err
          | Inr acc1 \<Rightarrow>
              (let more = (if cgHasMore raw then cgNextPage raw else None)
               in if cgHasMore raw \<and> \<not> truthy more then Inl INVALID_OFFICIAL_COST_RESPONSE
                  else if truthy more \<and> Suc n < 100 then cost_pages src fetch (Suc n) more acc1
                  else if truthy more then Inl OFFICIAL_COST_UNAVAILABLE
                  else Inr acc1)))"
  by pat_completeness auto
termination
  by (relation "measure (\<lambda>(_, _, n, _, _). 100 - n)") auto

declare cost_pages.simps [simp del]

record cost_request =
  cqProvider :: provider_id
  cqFrom :: string
  cqTo :: string

record official_cost =
  ocSourceReference :: string
  ocOfficialCost :: int
  ocReconciledAt :: instant

definition source_prefix :: "cost_source \<Rightarrow> string" where
  "source_prefix src = (case src of OpenAi \<Rightarrow> ''openai'' | Anthropic \<Rightarrow> ''anthropic'')"

text \<open>The constructor refuses a blank credential; a request reads every page and answers one result.\<close>

definition reconcile :: "cost_source \<Rightarrow> string \<Rightarrow> (nat \<Rightarrow> string option \<Rightarrow> cost_response) \<Rightarrow> instant \<Rightarrow> cost_request \<Rightarrow>
    reconciliation_error + official_cost list" where
  "reconcile src adminApiKey fetch now request =
    (if js_trim adminApiKey = [] then Inl ADMIN_CREDENTIAL_REJECTED
     else if cqProvider request \<noteq> cost_provider src then Inl PROVIDER_MISMATCH
     else case cost_pages src fetch 0 None 0 of
       Inl err \<Rightarrow> Inl err
     | Inr acc \<Rightarrow>
         Inr [\<lparr>ocSourceReference = source_prefix src @ '':organization-costs:'' @ cqFrom request @ '':'' @ cqTo request,
               ocOfficialCost = acc, ocReconciledAt = now\<rparr>])"

end
