(* ===== verification/Event_Store.thy ===== *)
theory Event_Store
  imports Provider_Platform
begin

section \<open>The event store: sessions, turns, runs, usage and audit\<close>

text \<open>
  \<open>SqliteEventStore\<close> (\<open>packages/event-store\<close>).  The store is a record of tables; a table is the list of its rows in
  insertion order, with the constraints of \<open>schema.ts\<close> checked by the statements that insert or update.  A violated
  constraint is the error \<open>SqliteConstraint\<close>.  An \<open>INSERT OR IGNORE\<close> that is passed over still uses up a number of an
  autoincrement column.  A transaction that fails gives back the tables it started from, including
  the counters of the autoincrement columns (\<open>transaction\<close>).

  The store is used by one process and its calls are synchronous, so an operation is a function.  The instant \<open>now\<close> is the
  clock, read once per operation.  JSON columns hold typed values.  Realtime listeners are modelled by what they are
  given: committed events and changed approvals, in order.
\<close>

datatype store_error =
    INVALID_ARGUMENT
  | SESSION_NOT_FOUND
  | TURN_NOT_FOUND
  | RUN_NOT_FOUND
  | RUN_IDENTITY_CONFLICT
  | SESSION_TURN_ACTIVE
  | RUN_TURN_IDENTITY_CONFLICT
  | RUN_STATE_CONFLICT
  | RUN_TERMINAL_CONFLICT
  | SESSION_HAS_ACTIVE_RUN
  | INVALID_FOLDER_NAME
  | INVALID_CONVERSATION_TITLE
  | INVALID_MESSAGE
  | AUDIT_IDENTIFIER_REJECTED
  | AUDIT_METADATA_REJECTED
  | AUDIT_RETENTION_CONFLICT
  | USAGE_DEDUPE_CONFLICT
  | USAGE_IDENTITY_CONFLICT
  | USAGE_SCOPE_CONFLICT
  | USAGE_INSERT_FAILED
  | ProviderFailure provider_error
  | ARTIFACT_NOT_FOUND
  | GIT_SNAPSHOT_NOT_FOUND
  | RowMissing
  | SESSION_THREAD_CONFLICT
  | CODEX_THREAD_CONFLICT
  | SESSION_THREAD_REBIND_FORBIDDEN
  | EVENT_SCOPE_MISMATCH
  | INVALID_RAW_STORAGE
  | INGEST_KEY_CONFLICT
  | WORKSPACE_TENANT_CONFLICT
  | INVALID_CURSOR
  | INVALID_LIMIT
  | APPROVAL_NOT_FOUND
  | APPROVAL_ALREADY_RESOLVED
  | APPROVAL_VERSION_CONFLICT
  | IDEMPOTENCY_KEY_NOT_FOUND
  | IDEMPOTENCY_HASH_CONFLICT
  | IDEMPOTENCY_STATE_CONFLICT
  | EventInvalid
  | SqliteConstraint

record store_scope =
  ssTenantId :: string
  ssWorkspaceId :: string
  ssSessionId :: string

subsection \<open>Rows\<close>

record folder_row =
  foTenantId :: string
  foWorkspaceId :: string
  foFolderId :: string
  foName :: string
  foArchivedAt :: "instant option"
  foCreatedAt :: instant
  foUpdatedAt :: instant

record session_row =
  seScope :: store_scope
  seFolderId :: "string option"
  seTitle :: string
  seManualTitleAt :: "instant option"
  seProvider :: provider_id
  seRequestedPolicy :: model_selection
  seResolvedModel :: "string option"
  seReasoningEffort :: "reasoning_effort option"
  seCapabilities :: "capability_matrix option"
  seThreadId :: "string option"
  seStatus :: string
  seArchivedAt :: "instant option"
  seDeletedAt :: "instant option"
  seRecoveryErrorCode :: "string option"
  seLastResumedAt :: "instant option"
  seRuntimeGeneration :: "int option"
  seLastSequence :: int
  seCreatedAt :: instant
  seUpdatedAt :: instant

datatype turn_outcome = Completed | Failed | Interrupted

record turn_row =
  tnScope :: store_scope
  tnTurnId :: string
  tnProviderTurnId :: "string option"
  tnProvider :: provider_id
  tnRequestedPolicy :: model_selection
  tnResolvedModel :: string
  tnReasoningEffort :: reasoning_effort
  tnCapabilities :: capability_matrix
  tnStatus :: "turn_outcome option"
  tnStartedAt :: instant
  tnCompletedAt :: "instant option"

datatype run_status = Queued | Running | Interrupting | Ended turn_outcome | RecoveryRequired

record run_row =
  rnScope :: store_scope
  rnRunId :: string
  rnTurnId :: "string option"
  rnProviderTurnId :: "string option"
  rnProvider :: provider_id
  rnStatus :: run_status
  rnAttempt :: int
  rnRuntimeGeneration :: "int option"
  rnTerminalOutcome :: "turn_outcome option"
  rnRecoveryCode :: "string option"
  rnRecoveryDetail :: "string option"
  rnQueuedAt :: instant
  rnStartedAt :: "instant option"
  rnInterruptRequestedAt :: "instant option"
  rnTerminalAt :: "instant option"
  rnLastReconciledAt :: "instant option"
  rnCreatedAt :: instant
  rnUpdatedAt :: instant

record message_row =
  msScope :: store_scope
  msMessageId :: string
  msIdempotencyKey :: string
  msContent :: string
  msCreatedAt :: instant

datatype usage_kind = UsageEntry | TerminalEntry | ReconciliationEntry | MeterEntry

datatype usage_purpose = ConversationTurn | ConversationTitle

datatype meter_status = MeterMeasured | MeterEstimated | MeterReconciled | MeterIncomplete

record usage_ledger_row =
  ulLedgerId :: nat
  ulScope :: store_scope
  ulTurnId :: string
  ulRequestId :: "string option"
  ulProvider :: provider_id
  ulModelId :: string
  ulEntryKind :: usage_kind
  ulPurpose :: usage_purpose
  ulReportKind :: "report_kind option"
  ulDedupeKey :: string
  ulReported :: usage_counters
  ulEffective :: usage_counters
  ulOutcome :: "turn_outcome option"
  ulComplete :: bool
  ulReconciled :: bool
  ulPriceCatalogVersion :: "string option"
  ulEstimatedCost :: "int option"
  ulOfficialCost :: "int option"
  ulSourceReference :: "string option"
  ulMeter :: "string option"
  ulMeterVersion :: "int option"
  ulMeterQuantity :: "int option"
  ulUsageStatus :: "meter_status option"
  ulCurrency :: "string option"
  ulOccurredAt :: instant
  ulCreatedAt :: instant

record usage_cursor =
  cuScope :: store_scope
  cuTurnId :: string
  cuRequestId :: string
  cuProvider :: provider_id
  cuModelId :: string
  cuAccounted :: usage_counters
  cuUpdatedAt :: instant

record raw_row =
  rwId :: nat
  rwScope :: store_scope
  rwIngestKey :: string
  rwChecksum :: string
  rwInline :: "json option"
  rwArtifactPointer :: "string option"
  rwSourceMethod :: string
  rwSourceVersion :: string
  rwSourceMetadata :: "(string \<times> json) list"
  rwReceivedAt :: instant
  rwCreatedAt :: instant

record event_row =
  erEvent :: timeline_event
  erRawId :: nat

datatype approval_kind = CommandExecution | FileChange

datatype approval_decision = AcceptOnce | AcceptForSession | Decline | CancelTurn

datatype approval_status = ApPending | ApResolving | ApResolved | ApExpired | ApSuperseded

datatype upstream_status = UpPending | UpSent | UpAcknowledged | UpUnknown

record approval_row =
  avApprovalId :: string
  avScope :: store_scope
  avTurnId :: string
  avItemId :: string
  avRequestId :: request_id
  avRuntimeInstanceId :: string
  avProcessGeneration :: int
  avKind :: approval_kind
  avStatus :: approval_status
  avContext :: "(string \<times> json) list"
  avAvailableDecisions :: "approval_decision list"
  avRequestedAt :: instant
  avResolvedAt :: "instant option"
  avResolvingUserId :: "string option"
  avSelectedDecision :: "approval_decision option"
  avVersion :: int
  avUpstreamStatus :: upstream_status

datatype idempotency_status = IdPending | IdCompleted | IdFailed | IdOutcomeUnknown

record idempotency_row =
  idTenantId :: string
  idWorkspaceId :: string
  idSessionId :: "string option"
  idScope :: string
  idKey :: string
  idRequestHash :: string
  idStatus :: idempotency_status
  idResponse :: "json option"
  idCreatedAt :: instant
  idUpdatedAt :: instant

datatype audit_actor = UserActor | SystemActor | RuntimeActor

datatype audit_outcome = AuRequested | AuSuccess | AuFailure

record audit_row =
  adAuditId :: nat
  adTenantId :: string
  adWorkspaceId :: string
  adSessionId :: "string option"
  adActor :: audit_actor
  adActorPrincipalId :: "string option"
  adAction :: string
  adOutcome :: audit_outcome
  adCorrelationId :: "string option"
  adRequestId :: "string option"
  adTraceId :: "string option"
  adIdempotencyKey :: string
  adMetadata :: "(string \<times> json) list"
  adMetadataBytes :: int
  adOccurredAt :: instant
  adCreatedAt :: instant

record sequence_row =
  sqWorkspaceId :: string
  sqTenantId :: string
  sqLastSequence :: int
  sqUpdatedAt :: instant

datatype job_status = JobQueued | JobRunning | JobCompleted | JobFailed

record title_job =
  tjScope :: store_scope
  tjJobId :: string
  tjIdempotencyKey :: string
  tjStatus :: job_status
  tjAttempt :: int
  tjMaxAttempts :: int
  tjLastErrorCode :: "string option"
  tjQueuedAt :: instant
  tjStartedAt :: "instant option"
  tjCompletedAt :: "instant option"
  tjUpdatedAt :: instant

datatype artifact_kind = CommandOutputArtifact | GitDiffArtifact

datatype artifact_status = ArtifactOpen | ArtifactFinalized | ArtifactRecovery

record artifact_row =
  arArtifactId :: string
  arScope :: store_scope
  arTurnId :: string
  arItemId :: string
  arKind :: artifact_kind
  arByteLength :: int
  arSha256 :: "string option"
  arChunkCount :: int
  arFinalized :: bool
  arStatus :: artifact_status
  arCreatedAt :: instant
  arFinalizedAt :: "instant option"

datatype snapshot_phase = BeforeTurn | AfterTurn | RefreshSnapshot

text \<open>The payload of a snapshot is the record as it was captured, with the repository's state kept as JSON.\<close>

record git_snapshot =
  gsSnapshotId :: string
  gsScope :: store_scope
  gsTurnId :: "string option"
  gsPhase :: snapshot_phase
  gsState :: json
  gsCapturedAt :: instant

record snapshot_row =
  grKey :: string
  grTurnId :: "string option"
  grPayload :: git_snapshot

datatype member_status = MembershipActive | MembershipDisabled | MembershipRevoked

datatype organization_role = OwnerRole | AdminRole | DeveloperRole | ViewerRole | BillingRole

record organization_row =
  ogOrganizationId :: string
  ogName :: string
  ogActive :: bool
  ogCreatedAt :: instant
  ogUpdatedAt :: instant

record principal_row =
  ppIssuer :: string
  ppSubject :: string
  ppActive :: bool
  ppCreatedAt :: instant
  ppLastSeenAt :: instant

record membership_row =
  omOrganizationId :: string
  omIssuer :: string
  omSubject :: string
  omRole :: organization_role
  omStatus :: member_status
  omVersion :: int
  omCreatedAt :: instant
  omUpdatedAt :: instant

record override_row =
  wvOrganizationId :: string
  wvWorkspaceId :: string
  wvIssuer :: string
  wvSubject :: string
  wvUpdatedAt :: instant

record membership_audit =
  maOrganizationId :: string
  maIssuer :: string
  maSubject :: string
  maRole :: organization_role
  maStatus :: member_status
  maVersion :: int
  maOccurredAt :: instant

text \<open>The tables beside the log: title jobs, artifacts, snapshots, and the directory of members.\<close>

record catalog_tables =
  ktJobs :: "title_job list"
  ktArtifacts :: "artifact_row list"
  ktSnapshots :: "snapshot_row list"
  ktOrganizations :: "organization_row list"
  ktPrincipals :: "principal_row list"
  ktMemberships :: "membership_row list"
  ktOverrides :: "override_row list"
  ktMembershipAudit :: "membership_audit list"

record store =
  stFolders :: "folder_row list"
  stSessions :: "session_row list"
  stTurns :: "turn_row list"
  stRuns :: "run_row list"
  stMessages :: "message_row list"
  stUsage :: "usage_ledger_row list"
  stLedgerNext :: nat
  stCursors :: "usage_cursor list"
  stCatalog :: catalog_tables
  stSequences :: "sequence_row list"
  stRaw :: "raw_row list"
  stRawNext :: nat
  stEvents :: "event_row list"
  stIdempotency :: "idempotency_row list"
  stApprovals :: "approval_row list"
  stAudit :: "audit_row list"
  stAuditNext :: nat
  stCommitted :: "timeline_event list"
  stApprovalNotices :: "approval_row list"

definition empty_catalog :: catalog_tables where
  "empty_catalog = \<lparr>ktJobs = [], ktArtifacts = [], ktSnapshots = [], ktOrganizations = [], ktPrincipals = [], ktMemberships = [],
     ktOverrides = [], ktMembershipAudit = []\<rparr>"

definition empty_store :: store where
  "empty_store =
    \<lparr>stFolders = [], stSessions = [], stTurns = [], stRuns = [], stMessages = [], stUsage = [], stLedgerNext = 1, stCursors = [], stCatalog = empty_catalog, stSequences = [],
     stRaw = [], stRawNext = 1, stEvents = [], stIdempotency = [], stApprovals = [], stAudit = [], stAuditNext = 1,
     stCommitted = [], stApprovalNotices = []\<rparr>"

text \<open>The digest and the limits of audit retention are the store's configuration.\<close>

record store_env =
  evSha256 :: "string \<Rightarrow> string"
  evMaxAgeMs :: int
  evMaxRecords :: nat
  evMaxMetadataBytes :: int

type_synonym 'a store_op = "store \<Rightarrow> (store_error, 'a, store) outcome"

definition st_bind :: "'a store_op \<Rightarrow> ('a \<Rightarrow> 'b store_op) \<Rightarrow> 'b store_op" where
  "st_bind m f d = (case m d of (Inl err, d1) \<Rightarrow> (Inl err, d1) | (Inr x, d1) \<Rightarrow> f x d1)"

definition st_return :: "store_error + 'a \<Rightarrow> 'a store_op" where
  "st_return r d = (r, d)"

text \<open>\<open>BEGIN IMMEDIATE ... COMMIT\<close>, with \<open>ROLLBACK\<close> when the body throws.\<close>

definition transaction :: "'a store_op \<Rightarrow> 'a store_op" where
  "transaction m d = (case m d of (Inl err, d1) \<Rightarrow> (Inl err, d) | (Inr x, d1) \<Rightarrow> (Inr x, d1))"

definition assertScope :: "store_scope \<Rightarrow> bool" where
  "assertScope sc \<longleftrightarrow> ssTenantId sc \<noteq> [] \<and> ssWorkspaceId sc \<noteq> [] \<and> ssSessionId sc \<noteq> []"

text \<open>\<open>UPDATE ... SET ... WHERE\<close> on a table.\<close>

definition update_where :: "('a \<Rightarrow> bool) \<Rightarrow> ('a \<Rightarrow> 'a) \<Rightarrow> 'a list \<Rightarrow> 'a list" where
  "update_where P f rows = map (\<lambda>r. if P r then f r else r) rows"

definition find_session :: "store_scope \<Rightarrow> store \<Rightarrow> session_row option" where
  "find_session sc d = find (\<lambda>s. seScope s = sc) (stSessions d)"

definition getSession :: "store_scope \<Rightarrow> session_row store_op" where
  "getSession sc d =
    (if \<not> assertScope sc then (Inl INVALID_ARGUMENT, d)
     else case find (\<lambda>s. seScope s = sc \<and> seDeletedAt s = None) (stSessions d) of
            None \<Rightarrow> (Inl SESSION_NOT_FOUND, d)
          | Some s \<Rightarrow> (Inr s, d))"

subsection \<open>Audit records\<close>

definition AUDIT_METADATA_KEYS :: "string list" where
  "AUDIT_METADATA_KEYS =
    [''fromState'', ''toState'', ''turnOutcome'', ''approvalKind'', ''decision'', ''authState'', ''runtimeState'',
     ''processGeneration'', ''recoveryCode'', ''operation'', ''phase'', ''artifactKind'', ''byteBucket'', ''status'',
     ''reasonCode'', ''policyVersion'', ''measurementWatermark'', ''inFlightPolicy'']"

text \<open>\<open>SAFE_AUDIT_IDENTIFIER\<close>.\<close>

definition alpha_num :: "char \<Rightarrow> bool" where
  "alpha_num c \<longleftrightarrow> (let n = of_char c :: nat in 48 \<le> n \<and> n \<le> 57 \<or> 65 \<le> n \<and> n \<le> 90 \<or> 97 \<le> n \<and> n \<le> 122)"

definition safe_identifier :: "string \<Rightarrow> bool" where
  "safe_identifier s \<longleftrightarrow> s \<noteq> [] \<and> length s \<le> 128 \<and> list_all (\<lambda>c. alpha_num c \<or> c \<in> set ''._:-'') s"

text \<open>\<open>SENSITIVE_AUDIT_VALUE\<close>: a match of the expression at some position; \<open>before\<close> is the character in front of it.\<close>

definition lower_char :: "char \<Rightarrow> char" where
  "lower_char c = (let n = of_char c :: nat in if 65 \<le> n \<and> n \<le> 90 then char_of (n + 32) else c)"

definition starts_with :: "string \<Rightarrow> string \<Rightarrow> bool" where
  "starts_with p s \<longleftrightarrow> map lower_char (take (length p) s) = p"

definition token_after :: "string \<Rightarrow> string \<Rightarrow> bool" where
  "token_after p s \<longleftrightarrow> starts_with p s
     \<and> (case drop (length p) s of [] \<Rightarrow> False | c # _ \<Rightarrow> alpha_num c \<or> c = CHR ''_'' \<or> c = CHR ''-'')"

definition sensitive_here :: "char option \<Rightarrow> string \<Rightarrow> bool" where
  "sensitive_here before s \<longleftrightarrow>
     starts_with ''bearer'' s \<and> (case drop 6 s of [] \<Rightarrow> False | c # _ \<Rightarrow> js_white c)
   \<or> (case before of None \<Rightarrow> True | Some c \<Rightarrow> \<not> (alpha_num c \<or> c = CHR ''_'')) \<and> (token_after ''sk-'' s \<or> token_after ''sess-'' s)
   \<or> starts_with ''/users/'' s \<or> starts_with ''/home/'' s \<or> starts_with ''/proc/'' s \<or> starts_with ''/sys/'' s
   \<or> starts_with ''..'' s
   \<or> (case s of [] \<Rightarrow> False | c # _ \<Rightarrow> c = CHR 0x0D \<or> c = CHR 0x0A)"

fun sensitive_from :: "char option \<Rightarrow> string \<Rightarrow> bool" where
  "sensitive_from before [] = sensitive_here before []"
| "sensitive_from before (c # s) = (sensitive_here before (c # s) \<or> sensitive_from (Some c) s)"

definition sensitive_value :: "string \<Rightarrow> bool" where
  "sensitive_value s = sensitive_from None s"

record audit_input =
  aiTenantId :: string
  aiWorkspaceId :: string
  aiSessionId :: "string option"
  aiActor :: audit_actor
  aiActorPrincipalId :: "string option"
  aiAction :: string
  aiOutcome :: audit_outcome
  aiIdempotencyKey :: string
  aiCorrelationId :: "string option"
  aiRequestId :: "string option"
  aiTraceId :: "string option"
  aiMetadata :: "(string \<times> json) list"
  aiOccurredAt :: "instant option"

definition auditStorageKey :: "store_env \<Rightarrow> string \<Rightarrow> string" where
  "auditStorageKey E key = ''sha256:'' @ evSha256 E key"

definition unsafe_reference :: "string option \<Rightarrow> bool" where
  "unsafe_reference x \<longleftrightarrow> (case x of None \<Rightarrow> False | Some v \<Rightarrow> \<not> safe_identifier v \<or> sensitive_value v)"

definition bad_metadata :: "string \<times> json \<Rightarrow> bool" where
  "bad_metadata kv \<longleftrightarrow> fst kv \<notin> set AUDIT_METADATA_KEYS
     \<or> (case snd kv of JStr v \<Rightarrow> 128 < length v \<or> sensitive_value v | _ \<Rightarrow> False)"

definition metadata_bytes :: "audit_input \<Rightarrow> int" where
  "metadata_bytes i = int (length (stringify (JObj (aiMetadata i))))"

definition audit_of :: "store_env \<Rightarrow> audit_input \<Rightarrow> instant \<Rightarrow> nat \<Rightarrow> audit_row" where
  "audit_of E i now n =
    \<lparr>adAuditId = n, adTenantId = aiTenantId i, adWorkspaceId = aiWorkspaceId i, adSessionId = aiSessionId i, adActor = aiActor i,
     adActorPrincipalId = aiActorPrincipalId i, adAction = aiAction i, adOutcome = aiOutcome i, adCorrelationId = aiCorrelationId i,
     adRequestId = aiRequestId i, adTraceId = aiTraceId i, adIdempotencyKey = auditStorageKey E (aiIdempotencyKey i),
     adMetadata = aiMetadata i, adMetadataBytes = metadata_bytes i,
     adOccurredAt = (case aiOccurredAt i of Some t \<Rightarrow> t | None \<Rightarrow> now), adCreatedAt = now\<rparr>"

definition same_audit :: "store_env \<Rightarrow> audit_input \<Rightarrow> audit_row \<Rightarrow> bool" where
  "same_audit E i a \<longleftrightarrow> adTenantId a = aiTenantId i \<and> adWorkspaceId a = aiWorkspaceId i
     \<and> adIdempotencyKey a = auditStorageKey E (aiIdempotencyKey i)"

definition insertAudit :: "store_env \<Rightarrow> audit_input \<Rightarrow> instant \<Rightarrow> unit store_op" where
  "insertAudit E i now d =
    (if aiTenantId i = [] \<or> aiWorkspaceId i = [] \<or> aiIdempotencyKey i = [] then (Inl INVALID_ARGUMENT, d)
     else if list_ex unsafe_reference [aiCorrelationId i, aiRequestId i, aiTraceId i, aiActorPrincipalId i]
       then (Inl AUDIT_IDENTIFIER_REJECTED, d)
     else if list_ex bad_metadata (aiMetadata i) \<or> 2048 < metadata_bytes i then (Inl AUDIT_METADATA_REJECTED, d)
     else if list_ex (same_audit E i) (stAudit d) then (Inr (), d\<lparr>stAuditNext := Suc (stAuditNext d)\<rparr>)
     else if (case aiSessionId i of None \<Rightarrow> False
              | Some sid \<Rightarrow> find_session \<lparr>ssTenantId = aiTenantId i, ssWorkspaceId = aiWorkspaceId i, ssSessionId = sid\<rparr> d = None)
       then (Inl SqliteConstraint, d)
     else (Inr (), d\<lparr>stAudit := stAudit d @ [audit_of E i now (stAuditNext d)], stAuditNext := Suc (stAuditNext d)\<rparr>))"

text \<open>The three rules of \<open>#pruneAudit\<close>: age, number, and the size of the metadata, oldest first.  Rows are kept in the
  order of their identifiers.\<close>

fun drop_until_fits :: "int \<Rightarrow> int \<Rightarrow> audit_row list \<Rightarrow> audit_row list" where
  "drop_until_fits bound remaining [] = []"
| "drop_until_fits bound remaining (a # as) =
    (if remaining \<le> bound then a # as else drop_until_fits bound (remaining - adMetadataBytes a) as)"

definition pruneAudit :: "store_env \<Rightarrow> instant \<Rightarrow> store \<Rightarrow> store" where
  "pruneAudit E now d =
    (let young = filter (\<lambda>a. now - evMaxAgeMs E \<le> adCreatedAt a) (stAudit d);
         few = drop (length young - evMaxRecords E) young;
         total = sum_list (map adMetadataBytes few)
     in d\<lparr>stAudit := (if evMaxMetadataBytes E < total then drop_until_fits (evMaxMetadataBytes E) total few else few)\<rparr>)"

definition with_audit :: "store_env \<Rightarrow> audit_input \<Rightarrow> instant \<Rightarrow> unit store_op" where
  "with_audit E i now = st_bind (insertAudit E i now) (\<lambda>_ d. (Inr (), pruneAudit E now d))"

definition appendAudit :: "store_env \<Rightarrow> audit_input \<Rightarrow> instant \<Rightarrow> audit_row store_op" where
  "appendAudit E i now =
    transaction (st_bind (with_audit E i now) (\<lambda>_ d.
      case find (same_audit E i) (stAudit d) of
        None \<Rightarrow> (Inl AUDIT_RETENTION_CONFLICT, d)
      | Some a \<Rightarrow> (Inr a, d)))"

text \<open>A page of the audit log of a session, newest first; the cursor is the last identifier of the page before.\<close>

definition listAudit :: "store_scope \<Rightarrow> nat option \<Rightarrow> int option \<Rightarrow> store \<Rightarrow> store_error + audit_row list \<times> nat option" where
  "listAudit sc cursor limit d =
    (if \<not> assertScope sc then Inl INVALID_ARGUMENT
     else
       (let lim = nat (min (max (case limit of Some l \<Rightarrow> l | None \<Rightarrow> 50) 1) 100);
            rows = take (Suc lim) (rev (filter (\<lambda>a. adTenantId a = ssTenantId sc \<and> adWorkspaceId a = ssWorkspaceId sc
              \<and> adSessionId a = Some (ssSessionId sc) \<and> (case cursor of None \<Rightarrow> True | Some c \<Rightarrow> adAuditId a < c)) (stAudit d)));
            page = take lim rows
        in Inr (page, if lim < length rows then map_option adAuditId (at_last page) else None)))"

end
