(* ===== verification/Durable_Runs.thy ===== *)
theory Durable_Runs
  imports Event_Store
begin

section \<open>The event store: operations on sessions, turns and durable runs\<close>

text \<open>
  The operations of \<open>SqliteEventStore\<close> on conversations, turns, durable runs and the usage ledger.  A durable run is
  the persistent record of one provider turn: it is queued, bound to a turn, possibly interrupted, and finalised with one
  outcome; a run whose fate is unknown after a restart is \<open>recovery_required\<close>.
\<close>

subsection \<open>Conversations\<close>

record session_input =
  siScope :: store_scope
  siStatus :: "string option"
  siFolderId :: "string option"
  siTitle :: "string option"
  siProvider :: "provider_id option"
  siRequestedPolicy :: "model_selection option"
  siResolvedModel :: "string option"
  siReasoningEffort :: "reasoning_effort option"
  siCapabilities :: "capability_matrix option"

definition default_title :: string where
  "default_title = ''Yeni konu'' @ [CHR 0xC5, CHR 0x9F] @ ''ma''"

definition session_of :: "session_input \<Rightarrow> instant \<Rightarrow> session_row" where
  "session_of i now =
    \<lparr>seScope = siScope i, seFolderId = siFolderId i, seTitle = (case siTitle i of Some t \<Rightarrow> t | None \<Rightarrow> default_title),
     seManualTitleAt = None, seProvider = (case siProvider i of Some p \<Rightarrow> p | None \<Rightarrow> Codex),
     seRequestedPolicy = (case siRequestedPolicy i of Some p \<Rightarrow> p | None \<Rightarrow> ByAlias Sol Medium),
     seResolvedModel = siResolvedModel i, seReasoningEffort = siReasoningEffort i, seCapabilities = siCapabilities i,
     seThreadId = None, seStatus = (case siStatus i of Some s \<Rightarrow> s | None \<Rightarrow> ''active''), seArchivedAt = None, seDeletedAt = None,
     seRecoveryErrorCode = None, seLastResumedAt = None, seRuntimeGeneration = None, seLastSequence = 0,
     seCreatedAt = now, seUpdatedAt = now\<rparr>"

definition folder_exists :: "store_scope \<Rightarrow> string \<Rightarrow> store \<Rightarrow> bool" where
  "folder_exists sc f d \<longleftrightarrow>
    list_ex (\<lambda>r. foTenantId r = ssTenantId sc \<and> foWorkspaceId r = ssWorkspaceId sc \<and> foFolderId r = f) (stFolders d)"

definition missing_folder :: "store_scope \<Rightarrow> string option \<Rightarrow> store \<Rightarrow> bool" where
  "missing_folder sc f d \<longleftrightarrow> (case f of None \<Rightarrow> False | Some f' \<Rightarrow> \<not> folder_exists sc f' d)"

text \<open>\<open>INSERT OR IGNORE INTO sessions\<close>: a taken primary key is passed over, a missing folder is an error.\<close>

definition insert_session :: "session_row \<Rightarrow> unit store_op" where
  "insert_session s d =
    (if find_session (seScope s) d \<noteq> None then (Inr (), d)
     else if missing_folder (seScope s) (seFolderId s) d then (Inl SqliteConstraint, d)
     else (Inr (), d\<lparr>stSessions := stSessions d @ [s]\<rparr>))"

definition createSession :: "session_input \<Rightarrow> instant \<Rightarrow> session_row store_op" where
  "createSession i now d =
    (if \<not> assertScope (siScope i) \<or> siStatus i = Some [] then (Inl INVALID_ARGUMENT, d)
     else st_bind (insert_session (session_of i now)) (\<lambda>_. getSession (siScope i)) d)"

definition createSessionWithAudit :: "store_env \<Rightarrow> session_input \<Rightarrow> audit_input \<Rightarrow> instant \<Rightarrow> session_row store_op" where
  "createSessionWithAudit E i a now d =
    (if \<not> assertScope (siScope i) \<or> siStatus i = Some [] then (Inl INVALID_ARGUMENT, d)
     else st_bind (transaction (st_bind (insert_session (session_of i now)) (\<lambda>_. with_audit E a now)))
            (\<lambda>_. getSession (siScope i)) d)"

definition createConversationFolder :: "string \<Rightarrow> string \<Rightarrow> string \<Rightarrow> string \<Rightarrow> instant \<Rightarrow> folder_row store_op" where
  "createConversationFolder tenant workspace folder name now d =
    (if tenant = [] \<or> workspace = [] \<or> folder = [] then (Inl INVALID_ARGUMENT, d)
     else if js_trim name = [] \<or> 80 < length (js_trim name) then (Inl INVALID_FOLDER_NAME, d)
     else if list_ex (\<lambda>r. foTenantId r = tenant \<and> foWorkspaceId r = workspace \<and> foFolderId r = folder) (stFolders d)
       then (Inl SqliteConstraint, d)
     else
       (let row = \<lparr>foTenantId = tenant, foWorkspaceId = workspace, foFolderId = folder, foName = js_trim name,
                   foArchivedAt = None, foCreatedAt = now, foUpdatedAt = now\<rparr>
        in (Inr row, d\<lparr>stFolders := stFolders d @ [row]\<rparr>)))"

definition in_folder :: "string \<Rightarrow> string \<Rightarrow> string \<Rightarrow> session_row \<Rightarrow> bool" where
  "in_folder tenant workspace folder s \<longleftrightarrow> ssTenantId (seScope s) = tenant \<and> ssWorkspaceId (seScope s) = workspace
     \<and> seFolderId s = Some folder"

definition deleteConversationFolder :: "string \<Rightarrow> string \<Rightarrow> string \<Rightarrow> instant \<Rightarrow> unit store_op" where
  "deleteConversationFolder tenant workspace folder now d =
    (if tenant = [] \<or> workspace = [] \<or> folder = [] then (Inl INVALID_ARGUMENT, d)
     else if \<not> list_ex (\<lambda>r. foTenantId r = tenant \<and> foWorkspaceId r = workspace \<and> foFolderId r = folder) (stFolders d)
       then (Inl SESSION_NOT_FOUND, d)
     else (Inr (), d\<lparr>stSessions := update_where (in_folder tenant workspace folder)
              (\<lambda>s. s\<lparr>seFolderId := None, seUpdatedAt := now\<rparr>) (stSessions d),
            stFolders := filter (\<lambda>r. \<not> (foTenantId r = tenant \<and> foWorkspaceId r = workspace \<and> foFolderId r = folder)) (stFolders d)\<rparr>))"

text \<open>\<open>folder = None\<close> leaves the folder, \<open>Some None\<close> takes the conversation out of it.\<close>

definition updateConversation :: "store_scope \<Rightarrow> string option option \<Rightarrow> string option \<Rightarrow> instant \<Rightarrow> session_row store_op" where
  "updateConversation sc folder title now =
    st_bind (getSession sc) (\<lambda>s d.
      (let t = (case title of Some x \<Rightarrow> js_trim x | None \<Rightarrow> seTitle s);
           f = (case folder of None \<Rightarrow> seFolderId s | Some x \<Rightarrow> x)
       in if t = [] \<or> 120 < length t then (Inl INVALID_CONVERSATION_TITLE, d)
          else if missing_folder sc f d then (Inl SqliteConstraint, d)
          else getSession sc (d\<lparr>stSessions := update_where (\<lambda>r. seScope r = sc \<and> seDeletedAt r = None)
                 (\<lambda>r. r\<lparr>seFolderId := f, seTitle := t, seManualTitleAt := (if title \<noteq> None then Some now else seManualTitleAt r),
                        seUpdatedAt := now\<rparr>) (stSessions d)\<rparr>)))"

definition setSessionArchived :: "store_scope \<Rightarrow> bool \<Rightarrow> instant \<Rightarrow> session_row store_op" where
  "setSessionArchived sc archived now =
    st_bind (getSession sc) (\<lambda>s d.
      getSession sc (d\<lparr>stSessions := update_where (\<lambda>r. seScope r = sc \<and> seDeletedAt r = None)
        (\<lambda>r. r\<lparr>seArchivedAt := (if archived then Some now else None), seUpdatedAt := now\<rparr>) (stSessions d)\<rparr>))"

definition recordDurableUserMessage :: "store_scope \<Rightarrow> string \<Rightarrow> string \<Rightarrow> string \<Rightarrow> instant \<Rightarrow> nat store_op" where
  "recordDurableUserMessage sc mid key content now d =
    (if \<not> assertScope sc \<or> mid = [] \<or> key = [] then (Inl INVALID_ARGUMENT, d)
     else if js_trim content = [] then (Inl INVALID_MESSAGE, d)
     else
       (let known = list_ex (\<lambda>m. msScope m = sc \<and> (msMessageId m = mid \<or> msIdempotencyKey m = key)) (stMessages d);
            d1 = (if known then d else d\<lparr>stMessages := stMessages d @
                    [\<lparr>msScope = sc, msMessageId = mid, msIdempotencyKey = key, msContent = js_trim content, msCreatedAt = now\<rparr>]\<rparr>)
        in if \<not> known \<and> find_session sc d = None then (Inl SqliteConstraint, d)
           else (Inr (length (filter (\<lambda>m. msScope m = sc) (stMessages d1))), d1)))"

subsection \<open>Turns\<close>

definition find_turn :: "store_scope \<Rightarrow> string \<Rightarrow> store \<Rightarrow> turn_row option" where
  "find_turn sc tid d = find (\<lambda>t. tnScope t = sc \<and> tnTurnId t = tid) (stTurns d)"

definition getTurn :: "store_scope \<Rightarrow> string \<Rightarrow> turn_row store_op" where
  "getTurn sc tid d =
    (if \<not> assertScope sc \<or> tid = [] then (Inl INVALID_ARGUMENT, d)
     else case find_turn sc tid d of None \<Rightarrow> (Inl TURN_NOT_FOUND, d) | Some t \<Rightarrow> (Inr t, d))"

text \<open>The row carries the input's fields; \<open>startedAt\<close> and \<open>completedAt\<close> are set here.\<close>

definition createTurn :: "turn_row \<Rightarrow> instant option \<Rightarrow> instant \<Rightarrow> turn_row store_op" where
  "createTurn i startedAt now d =
    (if \<not> assertScope (tnScope i) \<or> tnTurnId i = [] then (Inl INVALID_ARGUMENT, d)
     else if find_turn (tnScope i) (tnTurnId i) d \<noteq> None then getTurn (tnScope i) (tnTurnId i) d
     else if find_session (tnScope i) d = None then (Inl SqliteConstraint, d)
     else getTurn (tnScope i) (tnTurnId i)
            (d\<lparr>stTurns := stTurns d @ [i\<lparr>tnStartedAt := (case startedAt of Some t \<Rightarrow> t | None \<Rightarrow> now), tnCompletedAt := None\<rparr>]\<rparr>))"

definition completeTurn :: "store_scope \<Rightarrow> string \<Rightarrow> turn_outcome \<Rightarrow> instant \<Rightarrow> turn_row store_op" where
  "completeTurn sc tid outcome completedAt d =
    (if find_turn sc tid d = None then (Inl TURN_NOT_FOUND, d)
     else getTurn sc tid (d\<lparr>stTurns := update_where (\<lambda>t. tnScope t = sc \<and> tnTurnId t = tid)
            (\<lambda>t. t\<lparr>tnStatus := Some outcome, tnCompletedAt := Some completedAt\<rparr>) (stTurns d)\<rparr>))"

subsection \<open>Durable runs\<close>

definition run_key :: "store_scope \<Rightarrow> string \<Rightarrow> run_row \<Rightarrow> bool" where
  "run_key sc rid r \<longleftrightarrow> rnScope r = sc \<and> rnRunId r = rid"

definition findDurableRun :: "store_scope \<Rightarrow> string \<Rightarrow> store \<Rightarrow> run_row option" where
  "findDurableRun sc rid d = find (run_key sc rid) (stRuns d)"

text \<open>The statuses of the partial index \<open>durable_runs_one_active_per_session_idx\<close>.\<close>

definition active_status :: "run_status \<Rightarrow> bool" where
  "active_status s \<longleftrightarrow> s \<in> {Queued, Running, Interrupting}"

definition active_run :: "store_scope \<Rightarrow> run_row \<Rightarrow> bool" where
  "active_run sc r \<longleftrightarrow> rnScope r = sc \<and> active_status (rnStatus r)"

definition getDurableRun :: "store_scope \<Rightarrow> string \<Rightarrow> run_row store_op" where
  "getDurableRun sc rid d =
    (if \<not> assertScope sc \<or> rid = [] then (Inl INVALID_ARGUMENT, d)
     else case findDurableRun sc rid d of None \<Rightarrow> (Inl RUN_NOT_FOUND, d) | Some r \<Rightarrow> (Inr r, d))"

text \<open>\<open>ORDER BY created_at DESC LIMIT 1\<close>; the index admits one active run.\<close>

fun latest_run :: "run_row list \<Rightarrow> run_row option" where
  "latest_run [] = None"
| "latest_run (r # rs) =
    (case latest_run rs of None \<Rightarrow> Some r | Some q \<Rightarrow> if rnCreatedAt r < rnCreatedAt q then Some q else Some r)"

definition findActiveDurableRun :: "store_scope \<Rightarrow> store \<Rightarrow> run_row option" where
  "findActiveDurableRun sc d = latest_run (filter (active_run sc) (stRuns d))"

definition getActiveDurableRun :: "store_scope \<Rightarrow> run_row option store_op" where
  "getActiveDurableRun sc d = (if assertScope sc then Inr (findActiveDurableRun sc d) else Inl INVALID_ARGUMENT, d)"

definition getLatestDurableRun :: "store_scope \<Rightarrow> run_row option store_op" where
  "getLatestDurableRun sc d =
    (if assertScope sc then Inr (latest_run (filter (\<lambda>r. rnScope r = sc) (stRuns d))) else Inl INVALID_ARGUMENT, d)"

definition getDurableRunByTurn :: "store_scope \<Rightarrow> string \<Rightarrow> run_row option store_op" where
  "getDurableRunByTurn sc tid d =
    (if assertScope sc then Inr (find (\<lambda>r. rnScope r = sc \<and> rnTurnId r = Some tid) (stRuns d)) else Inl INVALID_ARGUMENT, d)"

definition deleteSession :: "store_scope \<Rightarrow> instant \<Rightarrow> unit store_op" where
  "deleteSession sc now d =
    (if \<not> assertScope sc then (Inl INVALID_ARGUMENT, d)
     else if findActiveDurableRun sc d \<noteq> None then (Inl SESSION_HAS_ACTIVE_RUN, d)
     else if \<not> list_ex (\<lambda>s. seScope s = sc \<and> seDeletedAt s = None) (stSessions d) then (Inl SESSION_NOT_FOUND, d)
     else (Inr (), d\<lparr>stSessions := update_where (\<lambda>s. seScope s = sc \<and> seDeletedAt s = None)
            (\<lambda>s. s\<lparr>seDeletedAt := Some now, seArchivedAt := nullish (seArchivedAt s) (Some now), seUpdatedAt := now\<rparr>) (stSessions d)\<rparr>))"

record run_input =
  riScope :: store_scope
  riRunId :: string
  riProvider :: provider_id
  riRuntimeGeneration :: "int option"
  riAttempt :: "int option"

definition run_of :: "run_input \<Rightarrow> instant \<Rightarrow> run_row" where
  "run_of i now =
    \<lparr>rnScope = riScope i, rnRunId = riRunId i, rnTurnId = None, rnProviderTurnId = None, rnProvider = riProvider i, rnStatus = Queued,
     rnAttempt = (case riAttempt i of Some a \<Rightarrow> a | None \<Rightarrow> 1), rnRuntimeGeneration = riRuntimeGeneration i,
     rnTerminalOutcome = None, rnRecoveryCode = None, rnRecoveryDetail = None, rnQueuedAt = now, rnStartedAt = None,
     rnInterruptRequestedAt = None, rnTerminalAt = None, rnLastReconciledAt = None, rnCreatedAt = now, rnUpdatedAt = now\<rparr>"

text \<open>A run identifier that is known answers the run; otherwise the session must exist and have no active run.\<close>

definition createDurableRun :: "run_input \<Rightarrow> instant \<Rightarrow> run_row store_op" where
  "createDurableRun i now d =
    (if \<not> assertScope (riScope i) \<or> riRunId i = [] then (Inl INVALID_ARGUMENT, d)
     else case findDurableRun (riScope i) (riRunId i) d of
       Some r \<Rightarrow> (if rnProvider r \<noteq> riProvider i then Inl RUN_IDENTITY_CONFLICT else Inr r, d)
     | None \<Rightarrow>
         if findActiveDurableRun (riScope i) d \<noteq> None then (Inl SESSION_TURN_ACTIVE, d)
         else if find_session (riScope i) d = None \<or> rnAttempt (run_of i now) \<le> 0 then (Inl SqliteConstraint, d)
         else (Inr (run_of i now), d\<lparr>stRuns := stRuns d @ [run_of i now]\<rparr>))"

text \<open>The constraints an update of runs is checked against: one active run and distinct turns per session.\<close>

fun distinct_on :: "('a \<Rightarrow> 'b option) \<Rightarrow> 'a list \<Rightarrow> bool" where
  "distinct_on f [] = True"
| "distinct_on f (x # xs) = ((case f x of None \<Rightarrow> True | Some v \<Rightarrow> \<not> list_ex (\<lambda>y. f y = Some v) xs) \<and> distinct_on f xs)"

definition active_key :: "run_row \<Rightarrow> store_scope option" where
  "active_key r = (if active_status (rnStatus r) then Some (rnScope r) else None)"

definition turn_key :: "run_row \<Rightarrow> (store_scope \<times> string) option" where
  "turn_key r = map_option (\<lambda>t. (rnScope r, t)) (rnTurnId r)"

definition runs_allowed :: "run_row list \<Rightarrow> bool" where
  "runs_allowed rs \<longleftrightarrow> distinct_on active_key rs \<and> distinct_on turn_key rs"

definition update_run :: "store_scope \<Rightarrow> string \<Rightarrow> (run_row \<Rightarrow> run_row) \<Rightarrow> unit store_op" where
  "update_run sc rid f d =
    (let rs = update_where (run_key sc rid) f (stRuns d)
     in if runs_allowed rs then (Inr (), d\<lparr>stRuns := rs\<rparr>) else (Inl SqliteConstraint, d))"

record bind_input =
  biScope :: store_scope
  biRunId :: string
  biTurnId :: string
  biProviderTurnId :: "string option"
  biRuntimeGeneration :: "int option"

definition bound_run :: "bind_input \<Rightarrow> instant \<Rightarrow> run_row \<Rightarrow> run_row" where
  "bound_run i now r =
    r\<lparr>rnTurnId := Some (biTurnId i), rnProviderTurnId := biProviderTurnId i, rnStatus := Running,
      rnRuntimeGeneration := biRuntimeGeneration i, rnStartedAt := nullish (rnStartedAt r) (Some now),
      rnRecoveryCode := None, rnRecoveryDetail := None, rnLastReconciledAt := Some now, rnUpdatedAt := now\<rparr>"

definition the_run :: "store_scope \<Rightarrow> string \<Rightarrow> run_row store_op" where
  "the_run sc rid d = (case findDurableRun sc rid d of None \<Rightarrow> (Inl RUN_NOT_FOUND, d) | Some r \<Rightarrow> (Inr r, d))"

definition bindDurableRunTurn :: "bind_input \<Rightarrow> instant \<Rightarrow> run_row store_op" where
  "bindDurableRunTurn i now d =
    (if \<not> assertScope (biScope i) \<or> biTurnId i = [] then (Inl INVALID_ARGUMENT, d)
     else transaction (st_bind (the_run (biScope i) (biRunId i)) (\<lambda>r.
       if truthy (rnTurnId r) \<and> rnTurnId r \<noteq> Some (biTurnId i) then st_return (Inl RUN_TURN_IDENTITY_CONFLICT)
       else if rnStatus r \<notin> {Queued, Running, RecoveryRequired} then
         st_return (if rnTurnId r = Some (biTurnId i) then Inr r else Inl RUN_STATE_CONFLICT)
       else st_bind (update_run (biScope i) (biRunId i) (bound_run i now)) (\<lambda>_. the_run (biScope i) (biRunId i)))) d)"

definition markDurableRunInterrupting :: "store_scope \<Rightarrow> string \<Rightarrow> instant \<Rightarrow> run_row store_op" where
  "markDurableRunInterrupting sc rid now d =
    (let running = (\<lambda>r. run_key sc rid r \<and> rnStatus r = Running);
         d1 = d\<lparr>stRuns := update_where running (\<lambda>r. r\<lparr>rnStatus := Interrupting,
                  rnInterruptRequestedAt := nullish (rnInterruptRequestedAt r) (Some now), rnUpdatedAt := now\<rparr>) (stRuns d)\<rparr>
     in st_bind (getDurableRun sc rid) (\<lambda>r.
          st_return (if \<not> list_ex running (stRuns d) \<and> rnStatus r \<noteq> Interrupting then Inl RUN_STATE_CONFLICT else Inr r)) d1)"

definition recoverable :: "run_status \<Rightarrow> bool" where
  "recoverable s \<longleftrightarrow> s \<in> {Queued, Running, Interrupting, RecoveryRequired}"

definition lost_run :: "string \<Rightarrow> string \<Rightarrow> instant \<Rightarrow> run_row \<Rightarrow> run_row" where
  "lost_run code detail now r =
    r\<lparr>rnStatus := RecoveryRequired, rnRecoveryCode := Some code, rnRecoveryDetail := Some detail, rnLastReconciledAt := Some now,
      rnUpdatedAt := now\<rparr>"

definition markDurableRunRecoveryRequired :: "store_scope \<Rightarrow> string \<Rightarrow> string \<Rightarrow> string \<Rightarrow> instant \<Rightarrow> run_row store_op" where
  "markDurableRunRecoveryRequired sc rid code detail now d =
    (let hit = (\<lambda>r. run_key sc rid r \<and> recoverable (rnStatus r));
         d1 = d\<lparr>stRuns := update_where hit (lost_run code detail now) (stRuns d)\<rparr>
     in st_bind (getDurableRun sc rid) (\<lambda>r.
          if \<not> list_ex hit (stRuns d) \<and> rnStatus r \<noteq> RecoveryRequired then st_return (Inl RUN_STATE_CONFLICT)
          else getDurableRun sc rid) d1)"

definition cli_provider :: "provider_id \<Rightarrow> bool" where
  "cli_provider p \<longleftrightarrow> p \<in> {Claude, Gemini, Cursor}"

definition needs_recovery :: "store_scope \<Rightarrow> run_row list \<Rightarrow> bool" where
  "needs_recovery sc rs \<longleftrightarrow> list_ex (\<lambda>r. rnScope r = sc \<and> rnStatus r = RecoveryRequired \<and> rnTerminalOutcome r = None) rs"

definition markDetachedCliRunsRecoveryRequired :: "instant \<Rightarrow> nat store_op" where
  "markDetachedCliRunsRecoveryRequired now d =
    (let hit = (\<lambda>r. cli_provider (rnProvider r) \<and> active_status (rnStatus r));
         rs = update_where hit (lost_run ''RECOVERY_OUTCOME_UNKNOWN''
           ''Detached CLI process state was lost during control-plane restart; prompt was not resubmitted'' now) (stRuns d)
     in (Inr (length (filter hit (stRuns d))),
         d\<lparr>stRuns := rs, stSessions := update_where (\<lambda>s. cli_provider (seProvider s) \<and> needs_recovery (seScope s) rs)
           (\<lambda>s. s\<lparr>seStatus := ''recovery_required'', seRecoveryErrorCode := Some ''RECOVERY_OUTCOME_UNKNOWN'', seUpdatedAt := now\<rparr>)
           (stSessions d)\<rparr>))"

definition zeroUsageCounters :: usage_counters where
  "zeroUsageCounters = \<lparr>ucInputTokens = 0, ucCachedInputTokens = 0, ucOutputTokens = 0, ucReasoningTokens = 0, ucToolUnits = 0\<rparr>"

text \<open>\<open>INSERT OR IGNORE INTO usage_ledger\<close>: the row gets the next number, which is used up also when the row is passed over.\<close>

definition insert_usage :: "usage_ledger_row \<Rightarrow> unit store_op" where
  "insert_usage u d =
    (if list_ex (\<lambda>x. ulScope x = ulScope u \<and> ulDedupeKey x = ulDedupeKey u) (stUsage d) 
       then (Inr (), d\<lparr>stLedgerNext := Suc (stLedgerNext d)\<rparr>)
     else if find_session (ulScope u) d = None then (Inl SqliteConstraint, d)
     else (Inr (), d\<lparr>stUsage := stUsage d @ [u\<lparr>ulLedgerId := stLedgerNext d\<rparr>], stLedgerNext := Suc (stLedgerNext d)\<rparr>))"

definition terminal_usage :: "store_scope \<Rightarrow> string \<Rightarrow> provider_id \<Rightarrow> string \<Rightarrow> usage_purpose \<Rightarrow> string \<Rightarrow> turn_outcome \<Rightarrow> bool \<Rightarrow>
    instant \<Rightarrow> instant \<Rightarrow> usage_ledger_row" where
  "terminal_usage sc tid provider model purpose key outcome complete occurredAt now =
    \<lparr>ulLedgerId = 0, ulScope = sc, ulTurnId = tid, ulRequestId = None, ulProvider = provider, ulModelId = model, ulEntryKind = TerminalEntry,
     ulPurpose = purpose, ulReportKind = None, ulDedupeKey = key, ulReported = zeroUsageCounters, ulEffective = zeroUsageCounters,
     ulOutcome = Some outcome, ulComplete = complete, ulReconciled = False, ulPriceCatalogVersion = None, ulEstimatedCost = None,
     ulOfficialCost = None, ulSourceReference = None, ulMeter = None, ulMeterVersion = None, ulMeterQuantity = None,
     ulUsageStatus = None, ulCurrency = None, ulOccurredAt = occurredAt, ulCreatedAt = now\<rparr>"

record finalize_input =
  fiScope :: store_scope
  fiRunId :: string
  fiOutcome :: turn_outcome
  fiComplete :: bool
  fiOccurredAt :: "instant option"

definition finished_run :: "turn_outcome \<Rightarrow> instant \<Rightarrow> run_row \<Rightarrow> run_row" where
  "finished_run outcome t r =
    r\<lparr>rnStatus := Ended outcome, rnTerminalOutcome := Some outcome, rnTerminalAt := Some t, rnLastReconciledAt := Some t,
      rnRecoveryCode := None, rnRecoveryDetail := None, rnUpdatedAt := t\<rparr>"

definition end_turn :: "store_scope \<Rightarrow> string option \<Rightarrow> turn_outcome \<Rightarrow> instant \<Rightarrow> store \<Rightarrow> store" where
  "end_turn sc tid outcome t d =
    (if truthy tid then d\<lparr>stTurns := update_where (\<lambda>x. tnScope x = sc \<and> Some (tnTurnId x) = tid)
       (\<lambda>x. x\<lparr>tnStatus := Some outcome, tnCompletedAt := nullish (tnCompletedAt x) (Some t)\<rparr>) (stTurns d)\<rparr> else d)"

definition terminal_entry :: "finalize_input \<Rightarrow> run_row \<Rightarrow> instant \<Rightarrow> instant \<Rightarrow> unit store_op" where
  "terminal_entry i r t now d =
    (let model = (case find_session (fiScope i) d of None \<Rightarrow> None | Some s \<Rightarrow> seResolvedModel s)
     in if truthy (rnTurnId r) \<and> truthy model
        then insert_usage (terminal_usage (fiScope i) (the (rnTurnId r)) (rnProvider r) (the model) ConversationTurn
               (''terminal:run:'' @ rnRunId r) (fiOutcome i) (fiComplete i) t now) d
        else (Inr (), d))"

definition finalizeDurableRun :: "finalize_input \<Rightarrow> instant \<Rightarrow> run_row store_op" where
  "finalizeDurableRun i now =
    (let t = (case fiOccurredAt i of Some x \<Rightarrow> x | None \<Rightarrow> now)
     in transaction (st_bind (the_run (fiScope i) (fiRunId i)) (\<lambda>r.
       case rnTerminalOutcome r of
         Some o1 \<Rightarrow> st_return (if o1 \<noteq> fiOutcome i then Inl RUN_TERMINAL_CONFLICT else Inr r)
       | None \<Rightarrow>
           if \<not> recoverable (rnStatus r) then st_return (Inl RUN_STATE_CONFLICT)
           else st_bind (update_run (fiScope i) (fiRunId i) (finished_run (fiOutcome i) t)) (\<lambda>_ d.
                st_bind (terminal_entry i r t now) (\<lambda>_. the_run (fiScope i) (fiRunId i))
                  (end_turn (fiScope i) (rnTurnId r) (fiOutcome i) t d)))))"

end
