(* ===== verification/Event_Log.thy ===== *)
theory Event_Log
  imports Durable_Runs
begin

section \<open>The event store: the event log, approvals and idempotency keys\<close>

text \<open>
  \<open>ingest\<close> stores a raw envelope and its normalised event under the next number of the workspace; \<open>replaySessionEvents\<close>
  pages through the events of a session.  An approval is a request of the runtime for a decision of the user: pending,
  taken by one decision (\<open>resolving\<close>), resolved, or ended without one.  An idempotency key remembers the answer of a
  request.  \<open>restart\<close> is what the constructor does with rows a previous process left behind.
\<close>

subsection \<open>Restart\<close>

definition restart :: "instant \<Rightarrow> store \<Rightarrow> store" where
  "restart now d =
    d\<lparr>stIdempotency := update_where (\<lambda>k. idStatus k = IdPending)
        (\<lambda>k. k\<lparr>idStatus := IdOutcomeUnknown, idResponse := Some (JObj [(''code'', JStr ''RECOVERY_OUTCOME_UNKNOWN'')]), idUpdatedAt := now\<rparr>)
        (stIdempotency d),
      stApprovals := update_where (\<lambda>a. avStatus a = ApResolving)
        (\<lambda>a. a\<lparr>avStatus := ApExpired, avUpstreamStatus := UpUnknown, avResolvedAt := Some now, avVersion := avVersion a + 1\<rparr>)
        (stApprovals d),
      stRuns := update_where (\<lambda>r. rnStatus r = Interrupting \<or> rnStatus r = Queued \<and> rnTurnId r = None)
        (lost_run ''RECOVERY_OUTCOME_UNKNOWN''
          ''Control plane restarted before the provider turn identity or interrupt outcome was durable'' now)
        (stRuns d),
      stCatalog := (stCatalog d)\<lparr>ktJobs := update_where (\<lambda>j. tjStatus j = JobRunning \<and> tjAttempt j < tjMaxAttempts j)
        (\<lambda>j. j\<lparr>tjStatus := JobQueued\<rparr>) (ktJobs (stCatalog d))\<rparr>\<rparr>"

subsection \<open>Ingesting\<close>

record raw_input =
  rwiChecksum :: string
  rwiEnvelope :: "json option"
  rwiArtifactPointer :: "string option"
  rwiSourceMethod :: string
  rwiSourceVersion :: string
  rwiSourceMetadata :: "(string \<times> json) list"
  rwiReceivedAt :: instant

record approval_input =
  apiApprovalId :: string
  apiScope :: store_scope
  apiTurnId :: string
  apiItemId :: string
  apiRequestId :: request_id
  apiRuntimeInstanceId :: string
  apiProcessGeneration :: int
  apiKind :: approval_kind
  apiContext :: "(string \<times> json) list"
  apiAvailableDecisions :: "approval_decision list"
  apiRequestedAt :: instant

record ingest_input =
  inScope :: store_scope
  inIngestKey :: string
  inRaw :: raw_input
  inEvent :: timeline_event
  inApproval :: "approval_input option"

definition event_scope :: "timeline_event \<Rightarrow> store_scope" where
  "event_scope e = \<lparr>ssTenantId = teTenantId e, ssWorkspaceId = teWorkspaceId e, ssSessionId = teSessionId e\<rparr>"

definition invalid_storage :: "raw_input \<Rightarrow> bool" where
  "invalid_storage r \<longleftrightarrow> (rwiEnvelope r \<noteq> None) = (rwiArtifactPointer r \<noteq> None)"

definition raw_of :: "store_scope \<Rightarrow> string \<Rightarrow> raw_input \<Rightarrow> instant \<Rightarrow> nat \<Rightarrow> raw_row" where
  "raw_of sc key r now n =
    \<lparr>rwId = n, rwScope = sc, rwIngestKey = key, rwChecksum = rwiChecksum r, rwInline = rwiEnvelope r,
     rwArtifactPointer = rwiArtifactPointer r, rwSourceMethod = rwiSourceMethod r, rwSourceVersion = rwiSourceVersion r,
     rwSourceMetadata = rwiSourceMetadata r, rwReceivedAt = rwiReceivedAt r, rwCreatedAt = now\<rparr>"

definition same_ingest :: "store_scope \<Rightarrow> string \<Rightarrow> raw_row \<Rightarrow> bool" where
  "same_ingest sc key w \<longleftrightarrow> ssTenantId (rwScope w) = ssTenantId sc \<and> ssWorkspaceId (rwScope w) = ssWorkspaceId sc \<and> rwIngestKey w = key"

definition ingestRawOnly :: "store_scope \<Rightarrow> string \<Rightarrow> raw_input \<Rightarrow> instant \<Rightarrow> unit store_op" where
  "ingestRawOnly sc key r now d =
    (if \<not> assertScope sc \<or> key = [] then (Inl INVALID_ARGUMENT, d)
     else st_bind (getSession sc) (\<lambda>_ d.
       if invalid_storage r then (Inl INVALID_RAW_STORAGE, d)
       else if list_ex (same_ingest sc key) (stRaw d) then (Inr (), d)
       else (Inr (), d\<lparr>stRaw := stRaw d @ [raw_of sc key r now (stRawNext d)], stRawNext := Suc (stRawNext d)\<rparr>)) d)"

text \<open>The join of \<open>raw_events\<close> and \<open>events\<close> on an ingest key.\<close>

definition ingested :: "store_scope \<Rightarrow> string \<Rightarrow> store \<Rightarrow> (raw_row \<times> timeline_event) option" where
  "ingested sc key d =
    (case find (same_ingest sc key) (stRaw d) of
       None \<Rightarrow> None
     | Some w \<Rightarrow> map_option (\<lambda>x. (w, erEvent x)) (find (\<lambda>x. erRawId x = rwId w) (stEvents d)))"

text \<open>\<open>INSERT INTO workspace_sequence ... ON CONFLICT DO NOTHING\<close> and \<open>UPDATE ... RETURNING last_sequence\<close>.\<close>

definition next_sequence :: "store_scope \<Rightarrow> instant \<Rightarrow> int store_op" where
  "next_sequence sc now d =
    (let ws = (\<lambda>q. sqWorkspaceId q = ssWorkspaceId sc);
         qs = (if list_ex ws (stSequences d) then stSequences d
               else stSequences d @ [\<lparr>sqWorkspaceId = ssWorkspaceId sc, sqTenantId = ssTenantId sc, sqLastSequence = 0, sqUpdatedAt = now\<rparr>]);
         hit = (\<lambda>q. ws q \<and> sqTenantId q = ssTenantId sc)
     in case find hit qs of
          None \<Rightarrow> (Inl WORKSPACE_TENANT_CONFLICT, d)
        | Some q \<Rightarrow> (Inr (sqLastSequence q + 1),
            d\<lparr>stSequences := update_where hit (\<lambda>q. q\<lparr>sqLastSequence := sqLastSequence q + 1, sqUpdatedAt := now\<rparr>) qs\<rparr>))"

definition insert_raw :: "store_scope \<Rightarrow> string \<Rightarrow> raw_input \<Rightarrow> instant \<Rightarrow> nat store_op" where
  "insert_raw sc key r now d =
    (if list_ex (same_ingest sc key) (stRaw d) then (Inl SqliteConstraint, d)
     else (Inr (stRawNext d), d\<lparr>stRaw := stRaw d @ [raw_of sc key r now (stRawNext d)], stRawNext := Suc (stRawNext d)\<rparr>))"

definition insert_event :: "timeline_event \<Rightarrow> nat \<Rightarrow> unit store_op" where
  "insert_event e raw d =
    (if teSequence e \<le> 0 \<or> list_ex (\<lambda>x. teEventId (erEvent x) = teEventId e
          \<or> teWorkspaceId (erEvent x) = teWorkspaceId e \<and> teSequence (erEvent x) = teSequence e \<or> erRawId x = raw) (stEvents d)
     then (Inl SqliteConstraint, d)
     else (Inr (), d\<lparr>stEvents := stEvents d @ [\<lparr>erEvent = e, erRawId = raw\<rparr>]\<rparr>))"

definition approval_of :: "approval_input \<Rightarrow> approval_row" where
  "approval_of a =
    \<lparr>avApprovalId = apiApprovalId a, avScope = apiScope a, avTurnId = apiTurnId a, avItemId = apiItemId a,
     avRequestId = apiRequestId a, avRuntimeInstanceId = apiRuntimeInstanceId a, avProcessGeneration = apiProcessGeneration a,
     avKind = apiKind a, avStatus = ApPending, avContext = apiContext a, avAvailableDecisions = apiAvailableDecisions a,
     avRequestedAt = apiRequestedAt a, avResolvedAt = None, avResolvingUserId = None, avSelectedDecision = None,
     avVersion = 1, avUpstreamStatus = UpPending\<rparr>"

definition same_request :: "approval_row \<Rightarrow> approval_row \<Rightarrow> bool" where
  "same_request a x \<longleftrightarrow> ssTenantId (avScope x) = ssTenantId (avScope a) \<and> ssWorkspaceId (avScope x) = ssWorkspaceId (avScope a)
     \<and> avRuntimeInstanceId x = avRuntimeInstanceId a \<and> avProcessGeneration x = avProcessGeneration a \<and> avRequestId x = avRequestId a"

text \<open>\<open>INSERT OR IGNORE INTO approvals\<close>.\<close>

definition insert_approval :: "approval_row \<Rightarrow> unit store_op" where
  "insert_approval a d =
    (if list_ex (\<lambda>x. avApprovalId x = avApprovalId a \<or> same_request a x) (stApprovals d) then (Inr (), d)
     else if find_session (avScope a) d = None then (Inl SqliteConstraint, d)
     else (Inr (), d\<lparr>stApprovals := stApprovals d @ [a]\<rparr>))"

definition runtime_audit :: "store_scope \<Rightarrow> string \<Rightarrow> audit_outcome \<Rightarrow> string \<Rightarrow> string option \<Rightarrow> (string \<times> json) list \<Rightarrow> instant \<Rightarrow> audit_input" where
  "runtime_audit sc action outcome key request metadata occurredAt =
    \<lparr>aiTenantId = ssTenantId sc, aiWorkspaceId = ssWorkspaceId sc, aiSessionId = Some (ssSessionId sc), aiActor = RuntimeActor,
     aiActorPrincipalId = None, aiAction = action, aiOutcome = outcome, aiIdempotencyKey = key, aiCorrelationId = None,
     aiRequestId = request, aiTraceId = None, aiMetadata = metadata, aiOccurredAt = Some occurredAt\<rparr>"

definition request_text :: "request_id \<Rightarrow> string" where
  "request_text r = (case r of RequestText s \<Rightarrow> s | RequestNumber n \<Rightarrow> show_int n)"

definition approval_kind_text :: "approval_kind \<Rightarrow> string" where
  "approval_kind_text k = (case k of CommandExecution \<Rightarrow> ''command'' | FileChange \<Rightarrow> ''file'')"

definition store_approval :: "store_env \<Rightarrow> ingest_input \<Rightarrow> timeline_event \<Rightarrow> instant \<Rightarrow> unit store_op" where
  "store_approval E i e now =
    (case inApproval i of
       None \<Rightarrow> st_return (Inr ())
     | Some a \<Rightarrow>
         st_bind (insert_approval (approval_of a)) (\<lambda>_. insertAudit E
           (runtime_audit (inScope i) ''approval.requested'' AuRequested (''event:'' @ teEventId e) (Some (request_text (apiRequestId a)))
             [(''approvalKind'', JStr (approval_kind_text (apiKind a)))] (teOccurredAt e)) now))"

definition turn_reference :: "timeline_event \<Rightarrow> string" where
  "turn_reference e = (case teTurnId e of Some t \<Rightarrow> t | None \<Rightarrow> teEventId e)"

definition audit_turn :: "store_env \<Rightarrow> ingest_input \<Rightarrow> timeline_event \<Rightarrow> instant \<Rightarrow> unit store_op" where
  "audit_turn E i e now =
    (case tePayload e of
       TurnStarted status \<Rightarrow> insertAudit E (runtime_audit (inScope i) ''turn.started'' AuSuccess
         (''turn:'' @ turn_reference e @ '':started'') None [(''status'', JStr status)] (teOccurredAt e)) now
     | TurnCompleted status code \<Rightarrow>
         (let failed = status \<notin> {''completed'', ''success''}
          in insertAudit E (runtime_audit (inScope i) (if failed then ''turn.failed'' else ''turn.completed'')
               (if failed then AuFailure else AuSuccess) (''turn:'' @ turn_reference e @ '':completed'') None
               [(''turnOutcome'', JStr status)] (teOccurredAt e)) now)
     | _ \<Rightarrow> st_return (Inr ()))"

definition touch_session :: "store_scope \<Rightarrow> int \<Rightarrow> instant \<Rightarrow> store \<Rightarrow> store" where
  "touch_session sc n now d =
    d\<lparr>stSessions := update_where (\<lambda>s. seScope s = sc) (\<lambda>s. s\<lparr>seLastSequence := n, seUpdatedAt := now\<rparr>) (stSessions d)\<rparr>"

definition number_event :: "timeline_event \<Rightarrow> int \<Rightarrow> timeline_event store_op" where
  "number_event e n d = (case parseTimelineEvent (e\<lparr>teSequence := n\<rparr>) of None \<Rightarrow> (Inl EventInvalid, d) | Some e' \<Rightarrow> (Inr e', d))"

text \<open>The part of the transaction that stores a new event.\<close>

definition store_event :: "store_env \<Rightarrow> ingest_input \<Rightarrow> instant \<Rightarrow> timeline_event store_op" where
  "store_event E i now =
    st_bind (next_sequence (inScope i) now) (\<lambda>n.
    st_bind (number_event (inEvent i) n) (\<lambda>e.
    st_bind (insert_raw (inScope i) (inIngestKey i) (inRaw i) now) (\<lambda>raw.
    st_bind (insert_event e raw) (\<lambda>_ d.
    st_bind (store_approval E i e now) (\<lambda>_.
    st_bind (audit_turn E i e now) (\<lambda>_. st_return (Inr e))) (touch_session (inScope i) n now d)))))"

definition ingest_tx :: "store_env \<Rightarrow> ingest_input \<Rightarrow> instant \<Rightarrow> (timeline_event \<times> bool) store_op" where
  "ingest_tx E i now =
    st_bind (getSession (inScope i)) (\<lambda>_ d.
      case ingested (inScope i) (inIngestKey i) d of
        Some (w, e) \<Rightarrow>
          (if rwScope w \<noteq> inScope i \<or> rwChecksum w \<noteq> rwiChecksum (inRaw i) then (Inl INGEST_KEY_CONFLICT, d)
           else case parseTimelineEvent e of None \<Rightarrow> (Inl EventInvalid, d) | Some e' \<Rightarrow> (Inr (e', True), d))
      | None \<Rightarrow> st_bind (store_event E i now) (\<lambda>e. st_return (Inr (e, False))) d)"

definition getApproval :: "string \<Rightarrow> string \<Rightarrow> string \<Rightarrow> approval_row store_op" where
  "getApproval tenant workspace aid d =
    (case find (\<lambda>a. ssTenantId (avScope a) = tenant \<and> ssWorkspaceId (avScope a) = workspace \<and> avApprovalId a = aid) (stApprovals d) of
       None \<Rightarrow> (Inl APPROVAL_NOT_FOUND, d)
     | Some a \<Rightarrow> (Inr a, d))"

definition notify_approval :: "string \<Rightarrow> string \<Rightarrow> string \<Rightarrow> approval_row store_op" where
  "notify_approval tenant workspace aid =
    st_bind (getApproval tenant workspace aid) (\<lambda>a d. (Inr a, d\<lparr>stApprovalNotices := stApprovalNotices d @ [a]\<rparr>))"

text \<open>A committed event is handed to the listeners, and then the approval it brought.\<close>

definition ingest :: "store_env \<Rightarrow> ingest_input \<Rightarrow> instant \<Rightarrow> (timeline_event \<times> bool) store_op" where
  "ingest E i now d =
    (if \<not> assertScope (inScope i) \<or> inIngestKey i = [] then (Inl INVALID_ARGUMENT, d)
     else if event_scope (inEvent i) \<noteq> inScope i then (Inl EVENT_SCOPE_MISMATCH, d)
     else if invalid_storage (inRaw i) then (Inl INVALID_RAW_STORAGE, d)
     else st_bind (transaction (ingest_tx E i now)) (\<lambda>(e, duplicate) d1.
       if duplicate then (Inr (e, True), d1)
       else
         (let d2 = d1\<lparr>stCommitted := stCommitted d1 @ [e]\<rparr>
          in case inApproval i of
               None \<Rightarrow> (Inr (e, False), d2)
             | Some a \<Rightarrow> st_bind (notify_approval (ssTenantId (inScope i)) (ssWorkspaceId (inScope i)) (apiApprovalId a))
                          (\<lambda>_. st_return (Inr (e, False))) d2)) d)"

definition findIngestedEvent :: "store_scope \<Rightarrow> string \<Rightarrow> string \<Rightarrow> store \<Rightarrow> store_error + timeline_event option" where
  "findIngestedEvent sc key checksum d =
    (if \<not> assertScope sc then Inl INVALID_ARGUMENT
     else case ingested sc key d of
       None \<Rightarrow> Inr None
     | Some (w, e) \<Rightarrow>
         if rwScope w \<noteq> sc \<or> rwChecksum w \<noteq> checksum then Inl INGEST_KEY_CONFLICT
         else (case parseTimelineEvent e of None \<Rightarrow> Inl EventInvalid | Some e' \<Rightarrow> Inr (Some e')))"

subsection \<open>Replay\<close>

record replay_page =
  rpEvents :: "timeline_event list"
  rpHighWater :: int
  rpNextAfter :: int
  rpHasMore :: bool

definition session_events :: "store_scope \<Rightarrow> store \<Rightarrow> timeline_event list" where
  "session_events sc d = sort_key teSequence (filter (\<lambda>e. event_scope e = sc) (map erEvent (stEvents d)))"

definition replaySessionEvents :: "store_scope \<Rightarrow> int \<Rightarrow> int \<Rightarrow> int option \<Rightarrow> store \<Rightarrow> store_error + replay_page" where
  "replaySessionEvents sc after limit through d =
    (if \<not> assertScope sc then Inl INVALID_ARGUMENT
     else if after < 0 then Inl INVALID_CURSOR
     else if limit < 1 \<or> 500 < limit then Inl INVALID_LIMIT
     else case fst (getSession sc d) of
       Inl err \<Rightarrow> Inl err
     | Inr s \<Rightarrow>
         (let high = (case through of Some t \<Rightarrow> t | None \<Rightarrow> seLastSequence s)
          in if high < 0 then Inl INVALID_CURSOR
             else
               (let rows = take (nat limit + 1) (filter (\<lambda>e. after < teSequence e \<and> teSequence e \<le> high) (session_events sc d))
                in case those (map parseTimelineEvent (take (nat limit) rows)) of
                     None \<Rightarrow> Inl EventInvalid
                   | Some es \<Rightarrow> Inr \<lparr>rpEvents = es, rpHighWater = high,
                       rpNextAfter = (case at_last es of Some e \<Rightarrow> teSequence e | None \<Rightarrow> after),
                       rpHasMore = nat limit < length rows\<rparr>)))"

subsection \<open>Approvals\<close>

definition approval_key :: "string \<Rightarrow> string \<Rightarrow> string \<Rightarrow> approval_row \<Rightarrow> bool" where
  "approval_key tenant workspace aid a \<longleftrightarrow> ssTenantId (avScope a) = tenant \<and> ssWorkspaceId (avScope a) = workspace \<and> avApprovalId a = aid"

record resolution_input =
  reTenantId :: string
  reWorkspaceId :: string
  reApprovalId :: string
  reExpectedVersion :: int
  reDecision :: approval_decision
  reUserId :: string

definition beginApprovalResolution :: "resolution_input \<Rightarrow> approval_row store_op" where
  "beginApprovalResolution i =
    st_bind (transaction (st_bind (getApproval (reTenantId i) (reWorkspaceId i) (reApprovalId i)) (\<lambda>a d.
       if avStatus a \<noteq> ApPending then (Inl APPROVAL_ALREADY_RESOLVED, d)
       else if avVersion a \<noteq> reExpectedVersion i then (Inl APPROVAL_VERSION_CONFLICT, d)
       else (Inr (), d\<lparr>stApprovals := update_where (\<lambda>x. approval_key (reTenantId i) (reWorkspaceId i) (reApprovalId i) x
                \<and> avStatus x = ApPending \<and> avVersion x = reExpectedVersion i)
              (\<lambda>x. x\<lparr>avStatus := ApResolving, avSelectedDecision := Some (reDecision i), avResolvingUserId := Some (reUserId i),
                     avVersion := avVersion x + 1\<rparr>) (stApprovals d)\<rparr>))))
      (\<lambda>_. notify_approval (reTenantId i) (reWorkspaceId i) (reApprovalId i))"

definition ended_approval :: "approval_status \<Rightarrow> upstream_status \<Rightarrow> instant \<Rightarrow> approval_row \<Rightarrow> approval_row" where
  "ended_approval status upstream now a =
    a\<lparr>avStatus := status, avUpstreamStatus := upstream, avResolvedAt := Some now, avVersion := avVersion a + 1\<rparr>"

text \<open>\<open>status\<close> is \<open>resolved\<close>, \<open>expired\<close> or \<open>superseded\<close>.\<close>

definition finishApproval :: "string \<Rightarrow> string \<Rightarrow> string \<Rightarrow> approval_status \<Rightarrow> upstream_status \<Rightarrow> instant \<Rightarrow> approval_row store_op" where
  "finishApproval tenant workspace aid status upstream now d =
    (let open = (\<lambda>a. approval_key tenant workspace aid a \<and> avStatus a \<in> {ApPending, ApResolving, ApResolved})
     in if \<not> list_ex open (stApprovals d) then getApproval tenant workspace aid d
        else notify_approval tenant workspace aid
               (d\<lparr>stApprovals := update_where open (ended_approval status upstream now) (stApprovals d)\<rparr>))"

definition finishApprovalWithAudit :: "store_env \<Rightarrow> string \<Rightarrow> string \<Rightarrow> string \<Rightarrow> upstream_status \<Rightarrow> audit_input \<Rightarrow> instant \<Rightarrow> approval_row store_op" where
  "finishApprovalWithAudit E tenant workspace aid upstream a now =
    st_bind (transaction (\<lambda>d.
      (let resolving = (\<lambda>x. approval_key tenant workspace aid x \<and> avStatus x = ApResolving)
       in if \<not> list_ex resolving (stApprovals d) then (Inl APPROVAL_ALREADY_RESOLVED, d)
          else with_audit E a now
                 (d\<lparr>stApprovals := update_where resolving (ended_approval ApResolved upstream now) (stApprovals d)\<rparr>))))
      (\<lambda>_. notify_approval tenant workspace aid)"

fun finish_all :: "approval_status \<Rightarrow> instant \<Rightarrow> approval_row list \<Rightarrow> approval_row list store_op" where
  "finish_all status now [] = st_return (Inr [])"
| "finish_all status now (a # as) =
    st_bind (finishApproval (ssTenantId (avScope a)) (ssWorkspaceId (avScope a)) (avApprovalId a) status UpUnknown now) (\<lambda>x.
    st_bind (finish_all status now as) (\<lambda>xs. st_return (Inr (x # xs))))"

definition expireApprovals :: "store_scope \<Rightarrow> approval_status \<Rightarrow> instant \<Rightarrow> approval_row list store_op" where
  "expireApprovals sc status now d =
    finish_all status now (sort_key avRequestedAt (filter (\<lambda>a. avScope a = sc \<and> avStatus a = ApPending) (stApprovals d))) d"

definition expireRuntimeApprovals :: "string \<Rightarrow> string \<Rightarrow> string \<Rightarrow> int option \<Rightarrow> instant \<Rightarrow> approval_row list store_op" where
  "expireRuntimeApprovals tenant workspace runtime generation now d =
    finish_all ApExpired now (filter (\<lambda>a. ssTenantId (avScope a) = tenant \<and> ssWorkspaceId (avScope a) = workspace
      \<and> avRuntimeInstanceId a = runtime \<and> avStatus a \<in> {ApPending, ApResolving}
      \<and> (case generation of None \<Rightarrow> True | Some g \<Rightarrow> avProcessGeneration a \<noteq> g)) (stApprovals d)) d"

subsection \<open>Idempotency keys\<close>

record key_input =
  kiTenantId :: string
  kiWorkspaceId :: string
  kiScope :: string
  kiKey :: string

definition same_key :: "key_input \<Rightarrow> idempotency_row \<Rightarrow> bool" where
  "same_key i k \<longleftrightarrow> idTenantId k = kiTenantId i \<and> idWorkspaceId k = kiWorkspaceId i \<and> idScope k = kiScope i \<and> idKey k = kiKey i"

definition getIdempotencyKey :: "key_input \<Rightarrow> idempotency_row store_op" where
  "getIdempotencyKey i d = (case find (same_key i) (stIdempotency d) of None \<Rightarrow> (Inl IDEMPOTENCY_KEY_NOT_FOUND, d) | Some k \<Rightarrow> (Inr k, d))"

definition reserveIdempotencyKey :: "key_input \<Rightarrow> string option \<Rightarrow> string \<Rightarrow> instant \<Rightarrow> (idempotency_row \<times> bool) store_op" where
  "reserveIdempotencyKey i session hash now d =
    (if kiTenantId i = [] \<or> kiWorkspaceId i = [] \<or> kiScope i = [] \<or> kiKey i = [] \<or> hash = [] then (Inl INVALID_ARGUMENT, d)
     else
       (let known = list_ex (same_key i) (stIdempotency d);
            d1 = (if known then d else d\<lparr>stIdempotency := stIdempotency d @
                   [\<lparr>idTenantId = kiTenantId i, idWorkspaceId = kiWorkspaceId i, idSessionId = session, idScope = kiScope i, idKey = kiKey i,
                     idRequestHash = hash, idStatus = IdPending, idResponse = None, idCreatedAt = now, idUpdatedAt = now\<rparr>]\<rparr>)
        in st_bind (getIdempotencyKey i) (\<lambda>k.
             st_return (if idRequestHash k \<noteq> hash then Inl IDEMPOTENCY_HASH_CONFLICT else Inr (k, \<not> known))) d1))"

definition completeIdempotencyKey :: "key_input \<Rightarrow> idempotency_status \<Rightarrow> json \<Rightarrow> instant \<Rightarrow> idempotency_row store_op" where
  "completeIdempotencyKey i status response now d =
    (let pending = (\<lambda>k. same_key i k \<and> idStatus k = IdPending)
     in if list_ex pending (stIdempotency d)
        then getIdempotencyKey i (d\<lparr>stIdempotency := update_where pending
               (\<lambda>k. k\<lparr>idStatus := status, idResponse := Some response, idUpdatedAt := now\<rparr>) (stIdempotency d)\<rparr>)
        else st_bind (getIdempotencyKey i) (\<lambda>k.
          st_return (if idStatus k = status \<and> stringify (case idResponse k of Some r \<Rightarrow> r | None \<Rightarrow> JNull) = stringify response
                     then Inr k else Inl IDEMPOTENCY_STATE_CONFLICT)) d)"

subsection \<open>Sessions and provider threads\<close>

definition thread_taken :: "store_scope \<Rightarrow> string \<Rightarrow> store \<Rightarrow> bool" where
  "thread_taken sc thread d \<longleftrightarrow> list_ex (\<lambda>s. ssTenantId (seScope s) = ssTenantId sc \<and> ssWorkspaceId (seScope s) = ssWorkspaceId sc
     \<and> seScope s \<noteq> sc \<and> seThreadId s = Some thread) (stSessions d)"

definition set_session :: "store_scope \<Rightarrow> (session_row \<Rightarrow> session_row) \<Rightarrow> store \<Rightarrow> store" where
  "set_session sc f d = d\<lparr>stSessions := update_where (\<lambda>s. seScope s = sc) f (stSessions d)\<rparr>"

definition bindCodexThread :: "store_scope \<Rightarrow> string \<Rightarrow> instant \<Rightarrow> session_row store_op" where
  "bindCodexThread sc thread now d =
    (if \<not> assertScope sc \<or> thread = [] then (Inl INVALID_ARGUMENT, d)
     else st_bind (getSession sc) (\<lambda>s d.
       if seThreadId s = Some thread then (Inr s, d)
       else if seThreadId s \<noteq> None then (Inl SESSION_THREAD_CONFLICT, d)
       else if thread_taken sc thread d then (Inl CODEX_THREAD_CONFLICT, d)
       else getSession sc (set_session sc (\<lambda>s. s\<lparr>seThreadId := Some thread, seUpdatedAt := now\<rparr>) d)) d)"

definition pristine :: "store_scope \<Rightarrow> store \<Rightarrow> bool" where
  "pristine sc d \<longleftrightarrow> \<not> list_ex (\<lambda>r. rnScope r = sc) (stRuns d) \<and> \<not> list_ex (\<lambda>t. tnScope t = sc) (stTurns d)
     \<and> \<not> list_ex (\<lambda>m. msScope m = sc) (stMessages d)"

definition rebindPristineCodexThreadWithAudit :: "store_env \<Rightarrow> store_scope \<Rightarrow> string \<Rightarrow> string \<Rightarrow> int \<Rightarrow> audit_input \<Rightarrow> instant \<Rightarrow> session_row store_op" where
  "rebindPristineCodexThreadWithAudit E sc expected thread generation a now d =
    (if \<not> assertScope sc \<or> expected = [] \<or> thread = [] then (Inl INVALID_ARGUMENT, d)
     else if expected = thread then getSession sc d
     else st_bind (transaction (\<lambda>d.
       if \<not> (case find_session sc d of None \<Rightarrow> False | Some s \<Rightarrow> seProvider s = Codex \<and> seThreadId s = Some expected) \<or> \<not> pristine sc d
       then (Inl SESSION_THREAD_REBIND_FORBIDDEN, d)
       else if thread_taken sc thread d then (Inl CODEX_THREAD_CONFLICT, d)
       else with_audit E a now (set_session sc (\<lambda>s. s\<lparr>seThreadId := Some thread, seStatus := ''active'', seRecoveryErrorCode := None,
              seRuntimeGeneration := Some generation, seLastResumedAt := Some now, seUpdatedAt := now\<rparr>) d)))
       (\<lambda>_. getSession sc) d)"

definition updateSessionStatus :: "store_scope \<Rightarrow> string \<Rightarrow> instant \<Rightarrow> session_row store_op" where
  "updateSessionStatus sc status now d =
    (if \<not> assertScope sc \<or> status = [] then (Inl INVALID_ARGUMENT, d)
     else if find_session sc d = None then (Inl SESSION_NOT_FOUND, d)
     else getSession sc (set_session sc (\<lambda>s. s\<lparr>seStatus := status, seUpdatedAt := now\<rparr>) d))"

definition updateSessionStatusWithAudit :: "store_env \<Rightarrow> store_scope \<Rightarrow> string \<Rightarrow> audit_input \<Rightarrow> instant \<Rightarrow> session_row store_op" where
  "updateSessionStatusWithAudit E sc status a now d =
    (if \<not> assertScope sc \<or> status = [] then (Inl INVALID_ARGUMENT, d)
     else st_bind (transaction (\<lambda>d.
       if find_session sc d = None then (Inl SESSION_NOT_FOUND, d)
       else with_audit E a now (set_session sc (\<lambda>s. s\<lparr>seStatus := status, seUpdatedAt := now\<rparr>) d))) (\<lambda>_. getSession sc) d)"

record recovery_input =
  rcStatus :: string
  rcErrorCode :: "string option"
  rcGeneration :: "int option"
  rcResumed :: bool

definition recovered_session :: "recovery_input \<Rightarrow> instant \<Rightarrow> session_row \<Rightarrow> session_row" where
  "recovered_session i now s =
    s\<lparr>seStatus := rcStatus i, seRecoveryErrorCode := rcErrorCode i, seRuntimeGeneration := rcGeneration i,
      seLastResumedAt := (if rcResumed i then Some now else seLastResumedAt s), seUpdatedAt := now\<rparr>"

definition updateSessionRecovery :: "store_scope \<Rightarrow> recovery_input \<Rightarrow> instant \<Rightarrow> session_row store_op" where
  "updateSessionRecovery sc i now d =
    (if \<not> assertScope sc then (Inl INVALID_ARGUMENT, d)
     else if find_session sc d = None then (Inl SESSION_NOT_FOUND, d)
     else getSession sc (set_session sc (recovered_session i now) d))"

definition updateSessionRecoveryWithAudit :: "store_env \<Rightarrow> store_scope \<Rightarrow> recovery_input \<Rightarrow> audit_input \<Rightarrow> instant \<Rightarrow> session_row store_op" where
  "updateSessionRecoveryWithAudit E sc i a now d =
    (if \<not> assertScope sc then (Inl INVALID_ARGUMENT, d)
     else st_bind (transaction (\<lambda>d.
       if find_session sc d = None then (Inl SESSION_NOT_FOUND, d)
       else with_audit E a now (set_session sc (recovered_session i now) d))) (\<lambda>_. getSession sc) d)"

end
