(* ===== verification/Usage_Ledger.thy ===== *)
theory Usage_Ledger
  imports Durable_Runs
begin

section \<open>The event store: the usage ledger\<close>

text \<open>
  The usage ledger of \<open>SqliteEventStore\<close>.  A provider reports the usage of a request either as increments or as running
  totals; \<open>appendUsage\<close> turns a report into what it adds (\<open>effective\<close>) with a cursor per request that holds what has been
  accounted for.  Terminal, reconciliation and meter entries are inserted unless their key is taken.  \<open>getUsageSummary\<close> adds
  the entries of a session or of a turn up.
\<close>

subsection \<open>Counters\<close>

definition combine_counters :: "(int \<Rightarrow> int \<Rightarrow> int) \<Rightarrow> usage_counters \<Rightarrow> usage_counters \<Rightarrow> usage_counters" where
  "combine_counters f a b =
    \<lparr>ucInputTokens = f (ucInputTokens a) (ucInputTokens b), ucCachedInputTokens = f (ucCachedInputTokens a) (ucCachedInputTokens b),
     ucOutputTokens = f (ucOutputTokens a) (ucOutputTokens b), ucReasoningTokens = f (ucReasoningTokens a) (ucReasoningTokens b),
     ucToolUnits = f (ucToolUnits a) (ucToolUnits b)\<rparr>"

definition addUsageCounters :: "usage_counters \<Rightarrow> usage_counters \<Rightarrow> usage_counters" where
  "addUsageCounters = combine_counters (+)"

definition effective_usage :: "report_kind \<Rightarrow> usage_counters \<Rightarrow> usage_counters \<Rightarrow> usage_counters" where
  "effective_usage kind counters accounted =
    (case kind of DeltaReport \<Rightarrow> counters | CumulativeReport \<Rightarrow> combine_counters (\<lambda>c a. max 0 (c - a)) counters accounted)"

subsection \<open>Reports\<close>

record usage_input =
  uiScope :: store_scope
  uiTurnId :: string
  uiModelId :: string
  uiReport :: usage_report
  uiPriceCatalog :: "price_catalog option"
  uiPurpose :: "usage_purpose option"

definition usage_key :: "store_scope \<Rightarrow> string \<Rightarrow> usage_ledger_row \<Rightarrow> bool" where
  "usage_key sc key u \<longleftrightarrow> ulScope u = sc \<and> ulDedupeKey u = key"

definition cursor_key :: "store_scope \<Rightarrow> string \<Rightarrow> string \<Rightarrow> usage_cursor \<Rightarrow> bool" where
  "cursor_key sc tid rid c \<longleftrightarrow> cuScope c = sc \<and> cuTurnId c = tid \<and> cuRequestId c = rid"

definition find_cursor :: "usage_input \<Rightarrow> store \<Rightarrow> usage_cursor option" where
  "find_cursor i d = find (cursor_key (uiScope i) (uiTurnId i) (urRequestId (uiReport i))) (stCursors d)"

definition usage_purpose_of :: "usage_purpose option \<Rightarrow> usage_purpose" where
  "usage_purpose_of p = (case p of Some x \<Rightarrow> x | None \<Rightarrow> ConversationTurn)"

definition same_report :: "usage_input \<Rightarrow> usage_ledger_row \<Rightarrow> bool" where
  "same_report i u \<longleftrightarrow> ulTurnId u = uiTurnId i \<and> ulRequestId u = Some (urRequestId (uiReport i)) \<and> ulProvider u = urProvider (uiReport i)
     \<and> ulModelId u = uiModelId i \<and> ulPurpose u = usage_purpose_of (uiPurpose i) \<and> ulReportKind u = Some (urKind (uiReport i))
     \<and> ulReported u = urCounters (uiReport i)"

definition estimate_for :: "usage_input \<Rightarrow> usage_counters \<Rightarrow> store_error + (int \<times> string) option" where
  "estimate_for i eff =
    (case uiPriceCatalog i of
       None \<Rightarrow> Inr None
     | Some pc \<Rightarrow> (case estimateUsageCostMicros (urProvider (uiReport i)) (uiModelId i) eff pc of
         Inl err \<Rightarrow> Inl (ProviderFailure err)
       | Inr e \<Rightarrow> Inr (Some e)))"

definition usage_of :: "usage_input \<Rightarrow> usage_counters \<Rightarrow> (int \<times> string) option \<Rightarrow> instant \<Rightarrow> nat \<Rightarrow> usage_ledger_row" where
  "usage_of i eff est now n =
    \<lparr>ulLedgerId = n, ulScope = uiScope i, ulTurnId = uiTurnId i, ulRequestId = Some (urRequestId (uiReport i)),
     ulProvider = urProvider (uiReport i), ulModelId = uiModelId i, ulEntryKind = UsageEntry,
     ulPurpose = usage_purpose_of (uiPurpose i), ulReportKind = Some (urKind (uiReport i)), ulDedupeKey = urDedupeKey (uiReport i),
     ulReported = urCounters (uiReport i), ulEffective = eff, ulOutcome = None, ulComplete = urComplete (uiReport i),
     ulReconciled = False, ulPriceCatalogVersion = map_option snd est, ulEstimatedCost = map_option fst est, ulOfficialCost = None,
     ulSourceReference = None, ulMeter = None, ulMeterVersion = None, ulMeterQuantity = None, ulUsageStatus = None, ulCurrency = None,
     ulOccurredAt = urOccurredAt (uiReport i), ulCreatedAt = now\<rparr>"

definition cursor_of :: "usage_input \<Rightarrow> usage_counters \<Rightarrow> instant \<Rightarrow> usage_cursor" where
  "cursor_of i acc now =
    \<lparr>cuScope = uiScope i, cuTurnId = uiTurnId i, cuRequestId = urRequestId (uiReport i), cuProvider = urProvider (uiReport i),
     cuModelId = uiModelId i, cuAccounted = acc, cuUpdatedAt = now\<rparr>"

text \<open>\<open>INSERT INTO usage_cursors ... ON CONFLICT DO UPDATE\<close>.\<close>

definition upsert_cursor :: "usage_input \<Rightarrow> usage_counters \<Rightarrow> instant \<Rightarrow> store \<Rightarrow> store" where
  "upsert_cursor i acc now d =
    (if find_cursor i d = None then d\<lparr>stCursors := stCursors d @ [cursor_of i acc now]\<rparr>
     else d\<lparr>stCursors := update_where (cursor_key (uiScope i) (uiTurnId i) (urRequestId (uiReport i)))
       (\<lambda>c. c\<lparr>cuAccounted := acc, cuUpdatedAt := now\<rparr>) (stCursors d)\<rparr>)"

text \<open>
  What \<open>appendUsage\<close> answers: the ledger row whose number is \<open>last_insert_rowid()\<close>.  The last insertion is the one into
  \<open>usage_cursors\<close> when the request has no cursor yet, and its number is the number of cursors; a cursor that is updated leaves
  \<open>last_insert_rowid()\<close> alone.  When there is no such row the answer fails after the commit.
\<close>

definition inserted_row :: "usage_input \<Rightarrow> store \<Rightarrow> nat" where
  "inserted_row i d = (if find_cursor i d = None then Suc (length (stCursors d)) else stLedgerNext d)"

definition ledger_row :: "nat \<Rightarrow> store \<Rightarrow> store_error + usage_ledger_row" where
  "ledger_row n d = (case find (\<lambda>u. ulLedgerId u = n) (stUsage d) of None \<Rightarrow> Inl RowMissing | Some u \<Rightarrow> Inr u)"

definition accounted_so_far :: "usage_input \<Rightarrow> store \<Rightarrow> usage_counters" where
  "accounted_so_far i d = (case find_cursor i d of None \<Rightarrow> zeroUsageCounters | Some c \<Rightarrow> cuAccounted c)"

definition other_identity :: "usage_input \<Rightarrow> store \<Rightarrow> bool" where
  "other_identity i d \<longleftrightarrow>
    (case find_cursor i d of None \<Rightarrow> False | Some c \<Rightarrow> cuProvider c \<noteq> urProvider (uiReport i) \<or> cuModelId c \<noteq> uiModelId i)"

definition store_usage :: "usage_input \<Rightarrow> instant \<Rightarrow> usage_ledger_row store_op" where
  "store_usage i now d =
    (let accounted = accounted_so_far i d;
         eff = effective_usage (urKind (uiReport i)) (urCounters (uiReport i)) accounted
     in case estimate_for i eff of
          Inl err \<Rightarrow> (Inl err, d)
        | Inr est \<Rightarrow>
            if find_session (uiScope i) d = None then (Inl SqliteConstraint, d)
            else
              (let d1 = d\<lparr>stUsage := stUsage d @ [usage_of i eff est now (stLedgerNext d)], stLedgerNext := Suc (stLedgerNext d)\<rparr>;
                   d2 = upsert_cursor i (addUsageCounters accounted eff) now d1
               in (ledger_row (inserted_row i d) d2, d2)))"

definition appendUsage :: "usage_input \<Rightarrow> instant \<Rightarrow> usage_ledger_row store_op" where
  "appendUsage i now d =
    (if \<not> assertScope (uiScope i) \<or> uiTurnId i = [] \<or> uiModelId i = [] then (Inl INVALID_ARGUMENT, d)
     else if \<not> usageCountersSchema (urCounters (uiReport i)) then (Inl (ProviderFailure SchemaRejected), d)
     else case find (usage_key (uiScope i) (urDedupeKey (uiReport i))) (stUsage d) of
       Some u \<Rightarrow> (if same_report i u then Inr u else Inl USAGE_DEDUPE_CONFLICT, d)
     | None \<Rightarrow> if other_identity i d then (Inl USAGE_IDENTITY_CONFLICT, d) else store_usage i now d)"

subsection \<open>Other entries\<close>

definition the_usage :: "store_scope \<Rightarrow> string \<Rightarrow> usage_ledger_row store_op" where
  "the_usage sc key d = (case find (usage_key sc key) (stUsage d) of None \<Rightarrow> (Inl RowMissing, d) | Some u \<Rightarrow> (Inr u, d))"

record outcome_input =
  oiScope :: store_scope
  oiTurnId :: string
  oiProvider :: provider_id
  oiModelId :: string
  oiDedupeKey :: string
  oiOutcome :: turn_outcome
  oiComplete :: bool
  oiPurpose :: "usage_purpose option"
  oiOccurredAt :: "instant option"

definition appendUsageOutcome :: "outcome_input \<Rightarrow> instant \<Rightarrow> usage_ledger_row store_op" where
  "appendUsageOutcome i now =
    st_bind (insert_usage (terminal_usage (oiScope i) (oiTurnId i) (oiProvider i) (oiModelId i) (usage_purpose_of (oiPurpose i)) (oiDedupeKey i)
        (oiOutcome i) (oiComplete i) (case oiOccurredAt i of Some t \<Rightarrow> t | None \<Rightarrow> now) now))
      (\<lambda>_. the_usage (oiScope i) (oiDedupeKey i))"

record reconciliation_input =
  liScope :: store_scope
  liTurnId :: string
  liProvider :: provider_id
  liModelId :: string
  liPurpose :: "usage_purpose option"
  liDedupeKey :: string
  liResult :: official_cost

definition reconciliation_entry :: "reconciliation_input \<Rightarrow> instant \<Rightarrow> usage_ledger_row" where
  "reconciliation_entry i now =
    \<lparr>ulLedgerId = 0, ulScope = liScope i, ulTurnId = liTurnId i, ulRequestId = None, ulProvider = liProvider i, ulModelId = liModelId i,
     ulEntryKind = ReconciliationEntry, ulPurpose = usage_purpose_of (liPurpose i), ulReportKind = None, ulDedupeKey = liDedupeKey i,
     ulReported = zeroUsageCounters, ulEffective = zeroUsageCounters, ulOutcome = None, ulComplete = True, ulReconciled = True,
     ulPriceCatalogVersion = None, ulEstimatedCost = None, ulOfficialCost = Some (ocOfficialCost (liResult i)),
     ulSourceReference = Some (ocSourceReference (liResult i)), ulMeter = None, ulMeterVersion = None, ulMeterQuantity = None,
     ulUsageStatus = None, ulCurrency = None, ulOccurredAt = ocReconciledAt (liResult i), ulCreatedAt = now\<rparr>"

definition appendUsageReconciliation :: "reconciliation_input \<Rightarrow> instant \<Rightarrow> usage_ledger_row store_op" where
  "appendUsageReconciliation i now =
    st_bind (insert_usage (reconciliation_entry i now)) (\<lambda>_. the_usage (liScope i) (liDedupeKey i))"

record commercial_entry =
  ceTenantId :: string
  ceOrganizationId :: string
  ceWorkspaceId :: string
  ceLedgerEntryId :: string
  ceSessionId :: "string option"
  ceTurnId :: "string option"
  ceSourceId :: "string option"
  ceMeter :: string
  ceQuantity :: int
  ceStatus :: meter_status
  cePriceCatalogVersion :: "string option"
  ceCurrency :: "string option"
  ceEstimatedCost :: "int option"
  ceOfficialCost :: "int option"
  ceDedupeKey :: string
  ceOccurredAt :: instant

definition USAGE_METERS :: "string list" where
  "USAGE_METERS =
    [''provider_input_token'', ''provider_cached_input_token'', ''provider_output_token'', ''provider_reasoning_token'',
     ''provider_reported_cost_micros'', ''compute_millisecond'', ''storage_byte_millisecond'', ''egress_byte'',
     ''index_embedding_token'', ''retrieval_embedding_token'']"

definition upper_letter :: "char \<Rightarrow> bool" where
  "upper_letter c \<longleftrightarrow> (let n = of_char c :: nat in 65 \<le> n \<and> n \<le> 90)"

definition commercialUsageEntrySchema :: "commercial_entry \<Rightarrow> bool" where
  "commercialUsageEntrySchema e \<longleftrightarrow> ident (ceTenantId e) \<and> ident (ceOrganizationId e) \<and> ident (ceWorkspaceId e) \<and> ident (ceLedgerEntryId e)
     \<and> nullable_ident (ceSessionId e) \<and> nullable_ident (ceTurnId e) \<and> nullable_ident (ceSourceId e) \<and> ceMeter e \<in> set USAGE_METERS
     \<and> 0 \<le> ceQuantity e \<and> nullable_ident (cePriceCatalogVersion e)
     \<and> (case ceCurrency e of None \<Rightarrow> True | Some c \<Rightarrow> length c = 3 \<and> list_all upper_letter c)
     \<and> nullable_count (ceEstimatedCost e) \<and> nullable_count (ceOfficialCost e) \<and> ident (ceDedupeKey e) \<and> iso_datetime (ceOccurredAt e)"

definition meter_entry :: "store_scope \<Rightarrow> commercial_entry \<Rightarrow> instant \<Rightarrow> usage_ledger_row" where
  "meter_entry sc e now =
    \<lparr>ulLedgerId = 0, ulScope = sc, ulTurnId = (case ceTurnId e of Some t \<Rightarrow> t | None \<Rightarrow> ''workspace-meter''), ulRequestId = None,
     ulProvider = Codex, ulModelId = ''platform-meter-v1'', ulEntryKind = MeterEntry, ulPurpose = ConversationTurn, ulReportKind = None,
     ulDedupeKey = ceDedupeKey e, ulReported = zeroUsageCounters, ulEffective = zeroUsageCounters, ulOutcome = None,
     ulComplete = (ceStatus e \<noteq> MeterIncomplete), ulReconciled = (ceStatus e = MeterReconciled),
     ulPriceCatalogVersion = cePriceCatalogVersion e, ulEstimatedCost = ceEstimatedCost e, ulOfficialCost = ceOfficialCost e,
     ulSourceReference = None, ulMeter = Some (ceMeter e), ulMeterVersion = Some 1, ulMeterQuantity = Some (ceQuantity e),
     ulUsageStatus = Some (ceStatus e), ulCurrency = ceCurrency e, ulOccurredAt = ceOccurredAt e, ulCreatedAt = now\<rparr>"

definition same_meter :: "commercial_entry \<Rightarrow> usage_ledger_row \<Rightarrow> bool" where
  "same_meter e u \<longleftrightarrow> ulEntryKind u = MeterEntry \<and> ulMeter u = Some (ceMeter e) \<and> ulMeterQuantity u = Some (ceQuantity e)
     \<and> ulUsageStatus u = Some (ceStatus e)"

definition appendCommercialUsage :: "store_scope \<Rightarrow> commercial_entry \<Rightarrow> instant \<Rightarrow> usage_ledger_row store_op" where
  "appendCommercialUsage sc e now d =
    (if \<not> assertScope sc then (Inl INVALID_ARGUMENT, d)
     else if \<not> commercialUsageEntrySchema e then (Inl (ProviderFailure SchemaRejected), d)
     else if ceTenantId e \<noteq> ssTenantId sc \<or> ceOrganizationId e \<noteq> ssTenantId sc \<or> ceWorkspaceId e \<noteq> ssWorkspaceId sc
          \<or> ceSessionId e \<noteq> Some (ssSessionId sc) then (Inl USAGE_SCOPE_CONFLICT, d)
     else st_bind (insert_usage (meter_entry sc e now)) (\<lambda>_ d1.
       case find (usage_key sc (ceDedupeKey e)) (stUsage d1) of
         None \<Rightarrow> (Inl USAGE_INSERT_FAILED, d1)
       | Some u \<Rightarrow> (if same_meter e u then Inr u else Inl USAGE_DEDUPE_CONFLICT, d1)) d)"

subsection \<open>Summaries\<close>

record usage_summary =
  usTurnId :: "string option"
  usCounters :: usage_counters
  usOutcome :: "turn_outcome option"
  usComplete :: bool
  usReconciled :: bool
  usEstimatedCost :: "int option"
  usOfficialCost :: "int option"
  usPriceCatalogVersions :: "string list"

definition usage_rows :: "store_scope \<Rightarrow> string option \<Rightarrow> store \<Rightarrow> usage_ledger_row list" where
  "usage_rows sc tid d = filter (\<lambda>u. ulScope u = sc \<and> (case tid of None \<Rightarrow> True | Some t \<Rightarrow> ulTurnId u = t)) (stUsage d)"

definition entries_of :: "usage_kind \<Rightarrow> usage_ledger_row list \<Rightarrow> usage_ledger_row list" where
  "entries_of k us = filter (\<lambda>u. ulEntryKind u = k) us"

definition sum_counters :: "usage_ledger_row list \<Rightarrow> usage_counters" where
  "sum_counters us = foldl (\<lambda>acc u. addUsageCounters acc (ulEffective u)) zeroUsageCounters us"

definition value_or_zero :: "int option \<Rightarrow> int" where
  "value_or_zero x = (case x of Some v \<Rightarrow> v | None \<Rightarrow> 0)"

definition terminal_of :: "usage_ledger_row list \<Rightarrow> string \<Rightarrow> usage_ledger_row option" where
  "terminal_of us t = at_last (filter (\<lambda>u. ulTurnId u = t) (entries_of TerminalEntry us))"

definition summarize :: "string option \<Rightarrow> usage_ledger_row list \<Rightarrow> usage_summary" where
  "summarize tid records =
    (let usage = entries_of UsageEntry records;
         priced = filter (\<lambda>u. ulEstimatedCost u \<noteq> None) usage;
         reconciliations = entries_of ReconciliationEntry records;
         measured = map ulTurnId usage
     in \<lparr>usTurnId = tid, usCounters = sum_counters usage,
         usOutcome = Option.bind (at_last (entries_of TerminalEntry records)) ulOutcome,
         usComplete = (measured \<noteq> [] \<and> length priced = length usage
           \<and> list_all (\<lambda>t. map_option ulComplete (terminal_of records t) = Some True) measured),
         usReconciled = (measured \<noteq> [] \<and> list_all (\<lambda>t. t \<in> ulTurnId ` set reconciliations) measured),
         usEstimatedCost = (if priced = [] then None else Some (sum_list (map (\<lambda>u. value_or_zero (ulEstimatedCost u)) priced))),
         usOfficialCost = (if reconciliations = [] then None
           else Some (sum_list (map (\<lambda>u. value_or_zero (ulOfficialCost u)) reconciliations))),
         usPriceCatalogVersions = js_unique (concat (map (\<lambda>u. if truthy (ulPriceCatalogVersion u) then [the (ulPriceCatalogVersion u)] else []) usage))\<rparr>)"

definition getUsageSummary :: "store_scope \<Rightarrow> string option \<Rightarrow> store \<Rightarrow> store_error + usage_summary" where
  "getUsageSummary sc tid d = (if assertScope sc then Inr (summarize tid (usage_rows sc tid d)) else Inl INVALID_ARGUMENT)"

definition hasUsage :: "store_scope \<Rightarrow> string \<Rightarrow> store \<Rightarrow> store_error + bool" where
  "hasUsage sc tid d =
    (if assertScope sc then Inr (list_ex (\<lambda>u. ulScope u = sc \<and> ulTurnId u = tid \<and> ulEntryKind u = UsageEntry) (stUsage d))
     else Inl INVALID_ARGUMENT)"

record cost_item =
  ciTurnId :: string
  ciSummary :: usage_summary
  ciProvider :: provider_id
  ciModelId :: string
  ciPurpose :: usage_purpose
  ciOccurredAt :: instant

definition item_key :: "usage_ledger_row \<Rightarrow> string \<times> usage_purpose" where
  "item_key u = (ulTurnId u, ulPurpose u)"

definition cost_item_of :: "store_scope \<Rightarrow> store \<Rightarrow> string \<times> usage_purpose \<Rightarrow> cost_item option" where
  "cost_item_of sc d k =
    (case filter (\<lambda>u. item_key u = k) (usage_rows sc None d) of
       [] \<Rightarrow> None
     | first # others \<Rightarrow> Some
         \<lparr>ciTurnId = ulTurnId first, ciSummary = summarize (Some (ulTurnId first)) (usage_rows sc (Some (ulTurnId first)) d),
          ciProvider = ulProvider first, ciModelId = ulModelId first, ciPurpose = ulPurpose first,
          ciOccurredAt = foldl (\<lambda>e u. min e (ulOccurredAt u)) (ulOccurredAt first) others\<rparr>)"

text \<open>The items in the order of their first instant; the order of the instants is the order of their texts.\<close>

definition getConversationUsageCost :: "store_scope \<Rightarrow> store \<Rightarrow> store_error + usage_summary \<times> cost_item list" where
  "getConversationUsageCost sc d =
    (if assertScope sc
     then Inr (summarize None (usage_rows sc None d),
            sort_key ciOccurredAt (List.map_filter (cost_item_of sc d) (js_unique (map item_key (usage_rows sc None d)))))
     else Inl INVALID_ARGUMENT)"

end
