(* ===== verification/Store_Catalog.thy ===== *)
theory Store_Catalog
  imports Durable_Runs
begin

section \<open>The event store: folders, title jobs, artifacts, snapshots and members\<close>

text \<open>
  The remaining tables of \<open>SqliteEventStore\<close>.  A conversation gets one job that finds a title for it; artifacts and
  snapshots are recorded under identifiers of their own; the directory of members keeps a version per membership and
  appends a record for every change.
\<close>

definition set_catalog :: "(catalog_tables \<Rightarrow> catalog_tables) \<Rightarrow> store \<Rightarrow> store" where
  "set_catalog f d = d\<lparr>stCatalog := f (stCatalog d)\<rparr>"

text \<open>The binary collation of SQLite.\<close>

fun text_compare :: "string \<Rightarrow> string \<Rightarrow> int" where
  "text_compare [] [] = 0"
| "text_compare [] (c # s) = -1"
| "text_compare (c # s) [] = 1"
| "text_compare (c # s) (c' # s') =
    (if (of_char c :: int) < of_char c' then -1 else if (of_char c' :: int) < of_char c then 1 else text_compare s s')"

subsection \<open>Folders and messages\<close>

definition folder_key :: "string \<Rightarrow> string \<Rightarrow> string \<Rightarrow> folder_row \<Rightarrow> bool" where
  "folder_key tenant workspace folder r \<longleftrightarrow> foTenantId r = tenant \<and> foWorkspaceId r = workspace \<and> foFolderId r = folder"

definition setConversationFolderArchived :: "string \<Rightarrow> string \<Rightarrow> string \<Rightarrow> bool \<Rightarrow> instant \<Rightarrow> folder_row store_op" where
  "setConversationFolderArchived tenant workspace folder archived now d =
    (if tenant = [] \<or> workspace = [] \<or> folder = [] then (Inl INVALID_ARGUMENT, d)
     else if \<not> list_ex (folder_key tenant workspace folder) (stFolders d) then (Inl SESSION_NOT_FOUND, d)
     else
       (let fs = update_where (folder_key tenant workspace folder)
                   (\<lambda>r. r\<lparr>foArchivedAt := (if archived then Some now else None), foUpdatedAt := now\<rparr>) (stFolders d)
        in (case find (folder_key tenant workspace folder) fs of None \<Rightarrow> Inl RowMissing | Some r \<Rightarrow> Inr r, d\<lparr>stFolders := fs\<rparr>)))"

definition compare_messages :: "message_row \<Rightarrow> message_row \<Rightarrow> int" where
  "compare_messages m n =
    (if msCreatedAt m < msCreatedAt n then -1 else if msCreatedAt n < msCreatedAt m then 1
     else text_compare (msMessageId m) (msMessageId n))"

definition listDurableUserMessages :: "store_scope \<Rightarrow> nat \<Rightarrow> store \<Rightarrow> store_error + string list" where
  "listDurableUserMessages sc limit d =
    (if assertScope sc
     then Inr (map msContent (take limit (js_sort compare_messages (filter (\<lambda>m. msScope m = sc) (stMessages d)))))
     else Inl INVALID_ARGUMENT)"

subsection \<open>Title jobs\<close>

definition job_of :: "store_scope \<Rightarrow> title_job \<Rightarrow> bool" where
  "job_of sc j \<longleftrightarrow> tjScope j = sc"

definition getConversationTitleJob :: "store_scope \<Rightarrow> store \<Rightarrow> title_job option" where
  "getConversationTitleJob sc d = find (job_of sc) (ktJobs (stCatalog d))"

definition new_job :: "store_env \<Rightarrow> store_scope \<Rightarrow> instant \<Rightarrow> title_job" where
  "new_job E sc now =
    \<lparr>tjScope = sc,
     tjJobId = ''title_'' @ take 24 (evSha256 E (ssTenantId sc @ '':'' @ ssWorkspaceId sc @ '':'' @ ssSessionId sc)),
     tjIdempotencyKey = ''conversation-title:'' @ ssSessionId sc @ '':v1'', tjStatus = JobQueued, tjAttempt = 0, tjMaxAttempts = 3,
     tjLastErrorCode = None, tjQueuedAt = now, tjStartedAt = None, tjCompletedAt = None, tjUpdatedAt = now\<rparr>"

definition set_jobs :: "(title_job list \<Rightarrow> title_job list) \<Rightarrow> store \<Rightarrow> store" where
  "set_jobs f = set_catalog (\<lambda>k. k\<lparr>ktJobs := f (ktJobs k)\<rparr>)"

definition same_job :: "title_job \<Rightarrow> title_job \<Rightarrow> bool" where
  "same_job j i \<longleftrightarrow> tjScope i = tjScope j \<and> (tjJobId i = tjJobId j \<or> tjIdempotencyKey i = tjIdempotencyKey j)"

definition enqueueConversationTitleJob :: "store_env \<Rightarrow> store_scope \<Rightarrow> instant \<Rightarrow> title_job option store_op" where
  "enqueueConversationTitleJob E sc now =
    st_bind (getSession sc) (\<lambda>s d.
      if seManualTitleAt s \<noteq> None then (Inr None, d)
      else
        (let j = new_job E sc now;
             d1 = (if 2 \<le> length (filter (\<lambda>m. msScope m = sc) (stMessages d)) \<and> \<not> list_ex (same_job j) (ktJobs (stCatalog d))
                   then set_jobs (\<lambda>js. js @ [j]) d else d)
         in (Inr (getConversationTitleJob sc d1), d1)))"

definition runnable_job :: "title_job \<Rightarrow> bool" where
  "runnable_job j \<longleftrightarrow> tjStatus j = JobQueued \<or> tjStatus j = JobRunning \<and> tjAttempt j < tjMaxAttempts j"

definition listRunnableConversationTitleJobs :: "store \<Rightarrow> title_job list" where
  "listRunnableConversationTitleJobs d =
    List.map_filter (\<lambda>j. getConversationTitleJob (tjScope j) d) (sort_key tjQueuedAt (filter runnable_job (ktJobs (stCatalog d))))"

definition claimable :: "store_scope \<Rightarrow> title_job \<Rightarrow> bool" where
  "claimable sc j \<longleftrightarrow> job_of sc j \<and> tjStatus j = JobQueued \<and> tjAttempt j < tjMaxAttempts j"

definition claimConversationTitleJob :: "store_scope \<Rightarrow> instant \<Rightarrow> title_job option store_op" where
  "claimConversationTitleJob sc now d =
    (let d1 = set_jobs (update_where (claimable sc) (\<lambda>j. j\<lparr>tjStatus := JobRunning, tjAttempt := tjAttempt j + 1, tjStartedAt := Some now,
                tjUpdatedAt := now\<rparr>)) d
     in (Inr (if length (filter (claimable sc) (ktJobs (stCatalog d))) = 1 then getConversationTitleJob sc d1 else None), d1))"

text \<open>\<open>replace(/.../g, ' ')\<close> on runs of characters.\<close>

function replace_runs :: "(char \<Rightarrow> bool) \<Rightarrow> string \<Rightarrow> string" where
  "replace_runs P [] = []"
| "replace_runs P (c # s) = (if P c then CHR '' '' # replace_runs P (dropWhile P s) else c # replace_runs P s)"
  by pat_completeness auto
termination
  by (relation "measure (\<lambda>(_, s). length s)") (simp_all add: le_imp_less_Suc length_dropWhile_le)

definition line_break :: "char \<Rightarrow> bool" where
  "line_break c \<longleftrightarrow> of_char c \<in> {9, 10, 13 :: nat}"

definition normalized_title :: "string \<Rightarrow> string" where
  "normalized_title title = take 80 (js_trim (replace_runs js_white (replace_runs line_break title)))"

definition completeConversationTitleJob :: "store_scope \<Rightarrow> string \<Rightarrow> instant \<Rightarrow> bool store_op" where
  "completeConversationTitleJob sc title now d =
    (if normalized_title title = [] then (Inr False, d)
     else (Inr True, set_jobs (update_where (job_of sc) (\<lambda>j. j\<lparr>tjStatus := JobCompleted, tjCompletedAt := Some now, tjUpdatedAt := now\<rparr>))
            (d\<lparr>stSessions := update_where (\<lambda>s. seScope s = sc \<and> seManualTitleAt s = None)
              (\<lambda>s. s\<lparr>seTitle := normalized_title title, seUpdatedAt := now\<rparr>) (stSessions d)\<rparr>)))"

definition failConversationTitleJob :: "store_scope \<Rightarrow> string \<Rightarrow> instant \<Rightarrow> title_job option store_op" where
  "failConversationTitleJob sc code now d =
    (case getConversationTitleJob sc d of
       None \<Rightarrow> (Inr None, d)
     | Some j \<Rightarrow>
         (let d1 = set_jobs (update_where (job_of sc) (\<lambda>i. i\<lparr>tjStatus := (if tjMaxAttempts j \<le> tjAttempt j then JobFailed else JobQueued),
                     tjLastErrorCode := Some code, tjUpdatedAt := now\<rparr>)) d
          in (Inr (getConversationTitleJob sc d1), d1)))"

subsection \<open>Artifacts\<close>

definition artifact_key :: "string \<Rightarrow> string \<Rightarrow> string \<Rightarrow> artifact_row \<Rightarrow> bool" where
  "artifact_key tenant workspace aid a \<longleftrightarrow> ssTenantId (arScope a) = tenant \<and> ssWorkspaceId (arScope a) = workspace \<and> arArtifactId a = aid"

definition getArtifact :: "string \<Rightarrow> string \<Rightarrow> string \<Rightarrow> artifact_row store_op" where
  "getArtifact tenant workspace aid d =
    (case find (artifact_key tenant workspace aid) (ktArtifacts (stCatalog d)) of
       None \<Rightarrow> (Inl ARTIFACT_NOT_FOUND, d) | Some a \<Rightarrow> (Inr a, d))"

definition set_artifacts :: "(artifact_row list \<Rightarrow> artifact_row list) \<Rightarrow> store \<Rightarrow> store" where
  "set_artifacts f = set_catalog (\<lambda>k. k\<lparr>ktArtifacts := f (ktArtifacts k)\<rparr>)"

definition refreshed_artifact :: "artifact_row \<Rightarrow> artifact_row \<Rightarrow> artifact_row" where
  "refreshed_artifact i a =
    a\<lparr>arByteLength := arByteLength i, arSha256 := arSha256 i, arChunkCount := arChunkCount i, arFinalized := arFinalized i,
      arStatus := arStatus i, arFinalizedAt := arFinalizedAt i\<rparr>"

text \<open>An artifact with a taken identifier is refreshed when it belongs to the same workspace, and left alone otherwise.\<close>

definition upsertArtifact :: "artifact_row \<Rightarrow> artifact_row store_op" where
  "upsertArtifact i d =
    (let tenant = ssTenantId (arScope i); workspace = ssWorkspaceId (arScope i)
     in if \<not> assertScope (arScope i) then (Inl INVALID_ARGUMENT, d)
        else if arByteLength i < 0 \<or> arChunkCount i < 0 then (Inl SqliteConstraint, d)
        else if list_ex (\<lambda>a. arArtifactId a = arArtifactId i) (ktArtifacts (stCatalog d))
          then getArtifact tenant workspace (arArtifactId i)
                 (set_artifacts (update_where (artifact_key tenant workspace (arArtifactId i)) (refreshed_artifact i)) d)
        else if find_session (arScope i) d = None then (Inl SqliteConstraint, d)
        else getArtifact tenant workspace (arArtifactId i) (set_artifacts (\<lambda>as. as @ [i]) d))"

definition listRecoverableArtifacts :: "store \<Rightarrow> artifact_row list" where
  "listRecoverableArtifacts d = filter (\<lambda>a. arStatus a \<noteq> ArtifactFinalized) (ktArtifacts (stCatalog d))"

definition listArtifacts :: "string \<Rightarrow> string \<Rightarrow> store \<Rightarrow> artifact_row list" where
  "listArtifacts tenant workspace d =
    sort_key arCreatedAt (filter (\<lambda>a. ssTenantId (arScope a) = tenant \<and> ssWorkspaceId (arScope a) = workspace) (ktArtifacts (stCatalog d)))"

subsection \<open>Snapshots\<close>

definition snapshot_key :: "store_scope \<Rightarrow> string \<Rightarrow> snapshot_row \<Rightarrow> bool" where
  "snapshot_key sc key r \<longleftrightarrow> gsScope (grPayload r) = sc \<and> grKey r = key"

definition set_snapshots :: "(snapshot_row list \<Rightarrow> snapshot_row list) \<Rightarrow> store \<Rightarrow> store" where
  "set_snapshots f = set_catalog (\<lambda>k. k\<lparr>ktSnapshots := f (ktSnapshots k)\<rparr>)"

definition findGitSnapshotByIdempotency :: "store_scope \<Rightarrow> string \<Rightarrow> store \<Rightarrow> store_error + git_snapshot option" where
  "findGitSnapshotByIdempotency sc key d =
    (if assertScope sc then Inr (map_option grPayload (find (snapshot_key sc key) (ktSnapshots (stCatalog d)))) else Inl INVALID_ARGUMENT)"

text \<open>\<open>INSERT OR IGNORE\<close>, then the row under the key; an identifier that is taken by another key leaves no such row.\<close>

definition putGitSnapshot :: "git_snapshot \<Rightarrow> string \<Rightarrow> git_snapshot store_op" where
  "putGitSnapshot g key d =
    (if \<not> assertScope (gsScope g) \<or> gsSnapshotId g = [] \<or> key = [] then (Inl INVALID_ARGUMENT, d)
     else
       (let taken = list_ex (\<lambda>r. gsSnapshotId (grPayload r) = gsSnapshotId g \<or> snapshot_key (gsScope g) key r) (ktSnapshots (stCatalog d));
            d1 = (if taken then d else set_snapshots (\<lambda>rs. rs @ [\<lparr>grKey = key, grTurnId = gsTurnId g, grPayload = g\<rparr>]) d)
        in if \<not> taken \<and> find_session (gsScope g) d = None then (Inl SqliteConstraint, d)
           else (case find (snapshot_key (gsScope g) key) (ktSnapshots (stCatalog d1)) of
                   None \<Rightarrow> Inl RowMissing | Some r \<Rightarrow> Inr (grPayload r), d1)))"

definition snapshot_id :: "store_scope \<Rightarrow> string \<Rightarrow> snapshot_row \<Rightarrow> bool" where
  "snapshot_id sc sid r \<longleftrightarrow> gsScope (grPayload r) = sc \<and> gsSnapshotId (grPayload r) = sid"

definition bindGitSnapshotTurn :: "store_scope \<Rightarrow> string \<Rightarrow> string \<Rightarrow> git_snapshot store_op" where
  "bindGitSnapshotTurn sc sid tid d =
    (if \<not> assertScope sc then (Inl INVALID_ARGUMENT, d)
     else case find (snapshot_id sc sid) (ktSnapshots (stCatalog d)) of
       None \<Rightarrow> (Inl GIT_SNAPSHOT_NOT_FOUND, d)
     | Some r \<Rightarrow>
         (let payload = (grPayload r)\<lparr>gsTurnId := Some tid\<rparr>
          in (Inr payload, set_snapshots (update_where (snapshot_id sc sid) (\<lambda>x. x\<lparr>grTurnId := Some tid, grPayload := payload\<rparr>)) d)))"

definition compare_snapshots :: "snapshot_row \<Rightarrow> snapshot_row \<Rightarrow> int" where
  "compare_snapshots r s =
    (if gsCapturedAt (grPayload s) < gsCapturedAt (grPayload r) then -1
     else if gsCapturedAt (grPayload r) < gsCapturedAt (grPayload s) then 1
     else text_compare (gsSnapshotId (grPayload s)) (gsSnapshotId (grPayload r)))"

definition listGitSnapshots :: "store_scope \<Rightarrow> nat \<Rightarrow> store \<Rightarrow> store_error + git_snapshot list" where
  "listGitSnapshots sc limit d =
    (if assertScope sc
     then Inr (map grPayload (take limit (js_sort compare_snapshots (filter (\<lambda>r. gsScope (grPayload r) = sc) (ktSnapshots (stCatalog d))))))
     else Inl INVALID_ARGUMENT)"

subsection \<open>Members\<close>

definition put_organization :: "string \<Rightarrow> string \<Rightarrow> bool option \<Rightarrow> instant \<Rightarrow> catalog_tables \<Rightarrow> catalog_tables" where
  "put_organization org name active now k =
    (let act = (case active of Some b \<Rightarrow> b | None \<Rightarrow> True)
     in if list_ex (\<lambda>o1. ogOrganizationId o1 = org) (ktOrganizations k)
        then k\<lparr>ktOrganizations := update_where (\<lambda>o1. ogOrganizationId o1 = org)
               (\<lambda>o1. o1\<lparr>ogName := name, ogActive := act, ogUpdatedAt := now\<rparr>) (ktOrganizations k)\<rparr>
        else k\<lparr>ktOrganizations := ktOrganizations k @
               [\<lparr>ogOrganizationId = org, ogName = name, ogActive = act, ogCreatedAt = now, ogUpdatedAt = now\<rparr>]\<rparr>)"

definition upsertOrganization :: "string \<Rightarrow> string \<Rightarrow> bool option \<Rightarrow> instant \<Rightarrow> unit store_op" where
  "upsertOrganization org name active now d =
    (if name = [] \<or> 120 < length name then (Inl SqliteConstraint, d)
     else (Inr (), set_catalog (put_organization org name active now) d))"

definition principal_key :: "string \<Rightarrow> string \<Rightarrow> principal_row \<Rightarrow> bool" where
  "principal_key issuer subject p \<longleftrightarrow> ppIssuer p = issuer \<and> ppSubject p = subject"

definition put_principal :: "string \<Rightarrow> string \<Rightarrow> bool option \<Rightarrow> instant \<Rightarrow> catalog_tables \<Rightarrow> catalog_tables" where
  "put_principal issuer subject active now k =
    (let act = (case active of Some b \<Rightarrow> b | None \<Rightarrow> True)
     in if list_ex (principal_key issuer subject) (ktPrincipals k)
        then k\<lparr>ktPrincipals := update_where (principal_key issuer subject) (\<lambda>p. p\<lparr>ppActive := act, ppLastSeenAt := now\<rparr>) (ktPrincipals k)\<rparr>
        else k\<lparr>ktPrincipals := ktPrincipals k @
               [\<lparr>ppIssuer = issuer, ppSubject = subject, ppActive = act, ppCreatedAt = now, ppLastSeenAt = now\<rparr>]\<rparr>)"

definition upsertPrincipalIdentity :: "string \<Rightarrow> string \<Rightarrow> bool option \<Rightarrow> instant \<Rightarrow> unit store_op" where
  "upsertPrincipalIdentity issuer subject active now d = (Inr (), set_catalog (put_principal issuer subject active now) d)"

record member_input =
  viOrganizationId :: string
  viIssuer :: string
  viSubject :: string
  viRole :: organization_role
  viStatus :: "member_status option"
  viWorkspaceIds :: "string list"

definition member_key :: "string \<Rightarrow> string \<Rightarrow> string \<Rightarrow> membership_row \<Rightarrow> bool" where
  "member_key org issuer subject m \<longleftrightarrow> omOrganizationId m = org \<and> omIssuer m = issuer \<and> omSubject m = subject"

definition input_key :: "member_input \<Rightarrow> membership_row \<Rightarrow> bool" where
  "input_key i = member_key (viOrganizationId i) (viIssuer i) (viSubject i)"

definition input_status :: "member_input \<Rightarrow> member_status" where
  "input_status i = (case viStatus i of Some s \<Rightarrow> s | None \<Rightarrow> MembershipActive)"

definition put_membership :: "member_input \<Rightarrow> instant \<Rightarrow> membership_row list \<Rightarrow> membership_row list" where
  "put_membership i now ms =
    (if list_ex (input_key i) ms
     then update_where (input_key i) (\<lambda>m. m\<lparr>omRole := viRole i, omStatus := input_status i,
            omVersion := omVersion m + 1, omUpdatedAt := now\<rparr>) ms
     else ms @ [\<lparr>omOrganizationId = viOrganizationId i, omIssuer = viIssuer i, omSubject = viSubject i, omRole = viRole i,
                 omStatus = input_status i, omVersion = 1, omCreatedAt = now, omUpdatedAt = now\<rparr>])"

definition override_of :: "string \<Rightarrow> string \<Rightarrow> string \<Rightarrow> override_row \<Rightarrow> bool" where
  "override_of org issuer subject w \<longleftrightarrow> wvOrganizationId w = org \<and> wvIssuer w = issuer \<and> wvSubject w = subject"

definition put_overrides :: "member_input \<Rightarrow> instant \<Rightarrow> override_row list \<Rightarrow> override_row list" where
  "put_overrides i now ws =
    filter (\<lambda>w. \<not> override_of (viOrganizationId i) (viIssuer i) (viSubject i) w) ws
    @ map (\<lambda>w. \<lparr>wvOrganizationId = viOrganizationId i, wvWorkspaceId = w, wvIssuer = viIssuer i, wvSubject = viSubject i,
                wvUpdatedAt = now\<rparr>) (viWorkspaceIds i)"

definition member_version :: "member_input \<Rightarrow> membership_row list \<Rightarrow> int" where
  "member_version i ms = (case find (input_key i) ms of None \<Rightarrow> 0 | Some m \<Rightarrow> omVersion m)"

definition put_member :: "member_input \<Rightarrow> instant \<Rightarrow> catalog_tables \<Rightarrow> catalog_tables" where
  "put_member i now k =
    (let ms = put_membership i now (ktMemberships k)
     in k\<lparr>ktMemberships := ms, ktOverrides := put_overrides i now (ktOverrides k),
          ktMembershipAudit := ktMembershipAudit k @
            [\<lparr>maOrganizationId = viOrganizationId i, maIssuer = viIssuer i, maSubject = viSubject i, maRole = viRole i,
              maStatus = input_status i, maVersion = member_version i ms, maOccurredAt = now\<rparr>]\<rparr>)"

record stored_membership =
  smOrganizationId :: string
  smIssuer :: string
  smSubject :: string
  smRole :: organization_role
  smStatus :: member_status
  smWorkspaceIds :: "string list"
  smUpdatedAt :: instant

text \<open>A membership is listed as disabled when its organization or its principal is.\<close>

definition listed_status :: "catalog_tables \<Rightarrow> membership_row \<Rightarrow> member_status" where
  "listed_status k m =
    (if list_ex (\<lambda>o1. ogOrganizationId o1 = omOrganizationId m \<and> \<not> ogActive o1) (ktOrganizations k)
        \<or> list_ex (\<lambda>p. principal_key (omIssuer m) (omSubject m) p \<and> \<not> ppActive p) (ktPrincipals k)
     then MembershipDisabled else omStatus m)"

definition joins :: "catalog_tables \<Rightarrow> membership_row \<Rightarrow> bool" where
  "joins k m \<longleftrightarrow> list_ex (\<lambda>o1. ogOrganizationId o1 = omOrganizationId m) (ktOrganizations k)
     \<and> list_ex (principal_key (omIssuer m) (omSubject m)) (ktPrincipals k)"

definition allowed_workspaces :: "catalog_tables \<Rightarrow> membership_row \<Rightarrow> string list" where
  "allowed_workspaces k m = js_sort text_compare (map wvWorkspaceId (filter
     (override_of (omOrganizationId m) (omIssuer m) (omSubject m)) (ktOverrides k)))"

definition listOrganizationMemberships :: "string \<Rightarrow> string \<Rightarrow> store \<Rightarrow> stored_membership list" where
  "listOrganizationMemberships subject issuer d =
    (let k = stCatalog d
     in map (\<lambda>m. \<lparr>smOrganizationId = omOrganizationId m, smIssuer = omIssuer m, smSubject = omSubject m,
               smRole = omRole m, smStatus = listed_status k m, smWorkspaceIds = allowed_workspaces k m,
               smUpdatedAt = omUpdatedAt m\<rparr>)
          (js_sort (\<lambda>l r. text_compare (omOrganizationId l) (omOrganizationId r))
            (filter (\<lambda>m. omSubject m = subject \<and> omIssuer m = issuer \<and> joins k m) (ktMemberships k))))"

definition upsertOrganizationMembership :: "member_input \<Rightarrow> instant \<Rightarrow> stored_membership store_op" where
  "upsertOrganizationMembership i now =
    st_bind (transaction (st_bind (upsertOrganization (viOrganizationId i) (viOrganizationId i) None now) (\<lambda>_.
        st_bind (upsertPrincipalIdentity (viIssuer i) (viSubject i) None now) (\<lambda>_ d.
          if distinct (viWorkspaceIds i) then (Inr (), set_catalog (put_member i now) d) else (Inl SqliteConstraint, d)))))
      (\<lambda>_ d. (case find (\<lambda>v. smOrganizationId v = viOrganizationId i) (listOrganizationMemberships (viSubject i) (viIssuer i) d) of
                None \<Rightarrow> Inl RowMissing | Some v \<Rightarrow> Inr v, d))"

definition countMembershipAuditRecords :: "string \<Rightarrow> string \<Rightarrow> string \<Rightarrow> store \<Rightarrow> nat" where
  "countMembershipAuditRecords org issuer subject d =
    length (filter (\<lambda>a. maOrganizationId a = org \<and> maIssuer a = issuer \<and> maSubject a = subject) (ktMembershipAudit (stCatalog d)))"

end
