(* ===== verification/Event_Store_Inv.thy ===== *)
theory Event_Store_Inv
  imports Event_Log Usage_Ledger Store_Catalog
begin

section \<open>The event store: steps and invariants\<close>

text \<open>
  What every operation leaves alone (\<open>same\<close>, with a view of the store for each group of operations), the steps of the
  store, and the invariant of the event log: the events of a workspace are numbered \<open>1, 2, ...\<close> in the order they were
  stored, a session knows its last number, every event has one raw row under its ingest key, and the listeners were given
  exactly the stored events.
\<close>

subsection \<open>What an operation leaves alone\<close>

text \<open>\<open>same v d r\<close>: the outcome \<open>r\<close> of an operation started in \<open>d\<close> shows the same view \<open>v\<close> of the store.\<close>

definition same :: "(store \<Rightarrow> 'v) \<Rightarrow> store \<Rightarrow> (store_error, 'a, store) outcome \<Rightarrow> bool" where
  "same v d r \<longleftrightarrow> v (snd r) = v d"

lemma sameD: "same v d (r, d') \<Longrightarrow> v d' = v d"
  by (simp add: same_def)

lemma same_pair [simp]: "same v d (r, d') \<longleftrightarrow> v d' = v d"
  by (simp add: same_def)

lemma same_bind:
  assumes "same v d (m d)" and "\<And>x d1. m d = (Inr x, d1) \<Longrightarrow> same v d1 (f x d1)"
  shows "same v d (st_bind m f d)"
proof (cases "m d")
  case (Pair r d1)
  then show ?thesis using assms by (cases r) (auto simp: st_bind_def same_def)
qed

lemma same_tx: "same v d (m d) \<Longrightarrow> same v d (transaction m d)"
  by (auto simp: transaction_def same_def split: prod.splits sum.splits)

lemma same_return [simp]: "same v d (st_return r d)"
  by (simp add: st_return_def)

lemma same_getSession [simp]: "same v d (getSession sc d)"
  by (auto simp: getSession_def split: option.splits)

lemma same_getTurn [simp]: "same v d (getTurn sc t d)"
  by (auto simp: getTurn_def split: option.splits)

lemma same_getDurableRun [simp]: "same v d (getDurableRun sc t d)"
  by (auto simp: getDurableRun_def split: option.splits)

lemma same_the_run [simp]: "same v d (the_run sc t d)"
  by (auto simp: the_run_def split: option.splits)

lemma same_getApproval [simp]: "same v d (getApproval t w a d)"
  by (auto simp: getApproval_def split: option.splits)

lemma same_getIdempotencyKey [simp]: "same v d (getIdempotencyKey i d)"
  by (auto simp: getIdempotencyKey_def split: option.splits)

lemma map_update_where [simp]: "(\<And>x. P x \<Longrightarrow> g (f x) = g x) \<Longrightarrow> map g (update_where P f xs) = map g xs"
  by (auto simp: update_where_def)

lemma in_update_where: "y \<in> set (update_where P f xs) \<Longrightarrow> \<exists>x \<in> set xs. y = (if P x then f x else x)"
  by (auto simp: update_where_def)

lemma same_notify: "(\<And>n. v (d\<lparr>stApprovalNotices := n\<rparr>) = v d) \<Longrightarrow> same v d (notify_approval t w a d)"
  unfolding notify_approval_def by (rule same_bind) (auto simp: getApproval_def split: option.splits)

lemma same_insertAudit:
  assumes "\<And>x n. v (d\<lparr>stAudit := x, stAuditNext := n\<rparr>) = v d"
  shows "same v d (insertAudit E i now d)"
  using assms assms [where x = "stAudit d"] by (auto simp: insertAudit_def)

lemma same_with_audit:
  assumes "\<And>d x n. v (d\<lparr>stAudit := x, stAuditNext := n\<rparr>) = v d" and "\<And>d x. v (d\<lparr>stAudit := x\<rparr>) = v d"
  shows "same v d (with_audit E i now d)"
  unfolding with_audit_def by (rule same_bind) (auto simp: same_insertAudit assms pruneAudit_def Let_def)

text \<open>The log as everything but the sessions' own data.\<close>

definition log_view :: "store \<Rightarrow> sequence_row list \<times> raw_row list \<times> nat \<times> event_row list \<times> timeline_event list \<times> (store_scope \<times> int) list" where
  "log_view d = (stSequences d, stRaw d, stRawNext d, stEvents d, stCommitted d, map (\<lambda>s. (seScope s, seLastSequence s)) (stSessions d))"

definition core_view :: "store \<Rightarrow> _" where
  "core_view d = (log_view d, stRuns d, stApprovals d, stIdempotency d)"

lemmas view_defs = core_view_def log_view_def

lemma same_insert_usage: "(\<And>u n. v (d\<lparr>stUsage := u, stLedgerNext := n\<rparr>) = v d) \<Longrightarrow> (\<And>n. v (d\<lparr>stLedgerNext := n\<rparr>) = v d) \<Longrightarrow> same v d (insert_usage u d)"
  by (auto simp: insert_usage_def)

lemma core_turn:
  "same core_view d (createTurn ti st now d)" "same core_view d (completeTurn sc t oc now d)"
  "same core_view d (recordDurableUserMessage sc m k c now d)" "same core_view d (createConversationFolder tn w f nm now d)"
  by (auto simp: createTurn_def completeTurn_def recordDurableUserMessage_def createConversationFolder_def view_defs Let_def getTurn_def
      split: option.splits)

lemma core_conversation:
  "same core_view d (deleteConversationFolder tn w f now d)" "same core_view d (updateConversation sc fo ti now d)"
  "same core_view d (setSessionArchived sc ar now d)" "same core_view d (deleteSession sc now d)"
  "same core_view d (updateSessionStatus sc st now d)" "same core_view d (updateSessionRecovery sc ri now d)"
  by (auto simp: deleteConversationFolder_def updateConversation_def setSessionArchived_def deleteSession_def
      updateSessionStatus_def updateSessionRecovery_def set_session_def recovered_session_def getSession_def view_defs Let_def
      intro!: same_bind split: option.splits)


lemma core_audit:
  "core_view (d\<lparr>stAudit := x, stAuditNext := n\<rparr>) = core_view d" "core_view (d\<lparr>stAudit := x\<rparr>) = core_view d"
  by (simp_all add: view_defs)

lemma same_core_audit [simp]: "same core_view d (with_audit E a now d)"
  by (rule same_with_audit) (rule core_audit)+

lemma core_set_session:
  "(\<And>s. seScope (f s) = seScope s \<and> seLastSequence (f s) = seLastSequence s) \<Longrightarrow> core_view (set_session sc f d) = core_view d"
  by (simp add: view_defs set_session_def)

lemma same_via: "same v d1 r \<Longrightarrow> v d1 = v d \<Longrightarrow> same v d r"
  by (simp add: same_def)

lemma core_audited:
  "(\<And>s. seScope (f s) = seScope s \<and> seLastSequence (f s) = seLastSequence s) \<Longrightarrow> same core_view d (with_audit E a now (set_session sc f d))"
  by (rule same_via [OF same_core_audit core_set_session])

lemma core_sessions:
  "same core_view d (updateSessionStatusWithAudit E sc st a now d)" "same core_view d (updateSessionRecoveryWithAudit E sc ri a now d)"
  "same core_view d (rebindPristineCodexThreadWithAudit E sc ex th g a now d)"
  by (auto simp: updateSessionStatusWithAudit_def updateSessionRecoveryWithAudit_def rebindPristineCodexThreadWithAudit_def
      recovered_session_def intro!: same_bind same_tx core_audited)

lemma core_thread: "same core_view d (bindCodexThread sc th now d)" "same core_view d (appendAudit E a now d)"
  by (auto simp: bindCodexThread_def appendAudit_def intro!: same_bind same_tx same_via [OF same_getSession] core_set_session split: option.splits)

lemma same_the_usage [simp]: "same v d (the_usage sc key d)"
  by (auto simp: the_usage_def split: option.splits)

lemma core_insert_usage [simp]: "same core_view d (insert_usage u d)"
  by (rule same_insert_usage) (simp_all add: view_defs)

lemma core_upsert_cursor [simp]: "core_view (upsert_cursor i acc now d) = core_view d"
  by (simp add: upsert_cursor_def view_defs)

lemma core_usage:
  "same core_view d (appendUsage ui now d)" "same core_view d (appendUsageOutcome oi now d)"
  "same core_view d (appendUsageReconciliation li now d)" "same core_view d (appendCommercialUsage sc ce now d)"
proof -
  have "same core_view d (store_usage ui now d)"
    by (auto simp: store_usage_def Let_def split: sum.splits) (simp add: view_defs)
  then show "same core_view d (appendUsage ui now d)" by (auto simp: appendUsage_def split: option.splits)
qed (auto simp: appendUsageOutcome_def appendUsageReconciliation_def appendCommercialUsage_def intro!: same_bind split: option.splits)

lemma core_set_catalog [simp]: "core_view (set_catalog f d) = core_view d"
  by (simp add: set_catalog_def view_defs)

lemmas catalog_setters = set_jobs_def set_artifacts_def set_snapshots_def

lemma core_jobs:
  "same core_view d (enqueueConversationTitleJob E sc now d)" "same core_view d (claimConversationTitleJob sc now d)"
  "same core_view d (completeConversationTitleJob sc title now d)" "same core_view d (failConversationTitleJob sc code now d)"
proof -
  show "same core_view d (completeConversationTitleJob sc title now d)"
    by (simp add: completeConversationTitleJob_def catalog_setters) (simp add: view_defs)
qed (auto simp: enqueueConversationTitleJob_def claimConversationTitleJob_def failConversationTitleJob_def catalog_setters Let_def
      intro!: same_bind split: option.splits)

lemma core_records:
  "same core_view d (upsertArtifact ar d)" "same core_view d (putGitSnapshot gs key d)" "same core_view d (bindGitSnapshotTurn sc sid tid d)"
  "same core_view d (setConversationFolderArchived tn w fo archived now d)"
  by (auto simp: upsertArtifact_def getArtifact_def putGitSnapshot_def bindGitSnapshotTurn_def catalog_setters Let_def split: option.splits)
     (simp add: setConversationFolderArchived_def Let_def view_defs)

lemma core_members:
  "same core_view d (upsertOrganization org name active now d)" "same core_view d (upsertPrincipalIdentity iss sub active now d)"
  "same core_view d (upsertOrganizationMembership mi now d)"
  by (auto simp: upsertOrganization_def upsertPrincipalIdentity_def upsertOrganizationMembership_def intro!: same_bind same_tx)

subsection \<open>Runs, approvals and keys\<close>

text \<open>What the operations on runs, on approvals and on keys leave alone.\<close>

definition run_frame :: "store \<Rightarrow> _" where
  "run_frame d = (log_view d, stApprovals d, stIdempotency d)"

definition approval_frame :: "store \<Rightarrow> _" where
  "approval_frame d = (log_view d, stRuns d, stIdempotency d)"

definition key_frame :: "store \<Rightarrow> _" where
  "key_frame d = (log_view d, stRuns d, stApprovals d)"

definition ingest_frame :: "store \<Rightarrow> _" where
  "ingest_frame d = (stRuns d, stIdempotency d)"

lemmas frame_defs = run_frame_def approval_frame_def key_frame_def ingest_frame_def log_view_def

lemma run_frame_update [simp]: "run_frame (d\<lparr>stRuns := rs\<rparr>) = run_frame d"
  by (simp add: frame_defs)

lemma run_frame_ops:
  "same run_frame d (createDurableRun i now d)" "same run_frame d (bindDurableRunTurn bi now d)"
  "same run_frame d (markDurableRunInterrupting sc rid now d)" "same run_frame d (markDurableRunRecoveryRequired sc rid c de now d)"
  by (auto simp: createDurableRun_def bindDurableRunTurn_def markDurableRunInterrupting_def markDurableRunRecoveryRequired_def update_run_def
      Let_def intro!: same_bind same_tx same_via [OF same_bind] split: option.splits)

lemma run_frame_detached: "same run_frame d (markDetachedCliRunsRecoveryRequired now d)"
  by (simp add: markDetachedCliRunsRecoveryRequired_def Let_def frame_defs)

lemma run_frame_finalize: "same run_frame d (finalizeDurableRun i now d)"
proof -
  have "same run_frame d1 (st_bind (terminal_entry i r t now) (\<lambda>_. the_run (fiScope i) (fiRunId i)) (end_turn (fiScope i) tid oc t d1))" for d1 r t tid oc
    by (rule same_via [OF same_bind]) (auto simp: terminal_entry_def Let_def end_turn_def frame_defs intro!: same_insert_usage)
  then show ?thesis
    by (auto simp: finalizeDurableRun_def Let_def update_run_def intro!: same_tx same_bind split: option.splits)
qed

lemma approval_frame_update [simp]:
  "approval_frame (d\<lparr>stApprovals := x\<rparr>) = approval_frame d" "approval_frame (d\<lparr>stApprovalNotices := y\<rparr>) = approval_frame d"
  by (simp_all add: frame_defs)

lemma approval_frame_notify [simp]: "same approval_frame d (notify_approval t w a d)"
  by (rule same_notify) simp

lemma approval_frame_audit [simp]: "same approval_frame d (with_audit E a now d)"
  by (rule same_with_audit) (simp_all add: frame_defs)

lemma approval_frame_finish [simp]: "same approval_frame d (finishApproval t w a st up now d)"
  by (auto simp: finishApproval_def Let_def intro!: same_via [OF approval_frame_notify])

lemma approval_frame_all [simp]: "same approval_frame d (finish_all st now as d)"
  by (induction as arbitrary: d) (auto intro!: same_bind)

lemma approval_frame_ops:
  "same approval_frame d (beginApprovalResolution ri d)" "same approval_frame d (finishApprovalWithAudit E t w aid up a now d)"
  "same approval_frame d (expireApprovals sc st now d)" "same approval_frame d (expireRuntimeApprovals t w rt g now d)"
  by (auto simp: beginApprovalResolution_def finishApprovalWithAudit_def expireApprovals_def expireRuntimeApprovals_def Let_def
      intro!: same_bind same_tx same_via [OF approval_frame_audit])

lemma key_frame_ops:
  "same key_frame d (reserveIdempotencyKey i ses h now d)" "same key_frame d (completeIdempotencyKey i st rs now d)"
  by (auto simp: reserveIdempotencyKey_def completeIdempotencyKey_def Let_def frame_defs
      intro!: same_bind same_via [OF same_bind] same_via [OF same_getIdempotencyKey])

lemma ingest_frame_update [simp]:
  "ingest_frame (d\<lparr>stApprovals := a\<rparr>) = ingest_frame d" "ingest_frame (d\<lparr>stSequences := q\<rparr>) = ingest_frame d"
  "ingest_frame (d\<lparr>stRaw := w, stRawNext := n\<rparr>) = ingest_frame d" "ingest_frame (d\<lparr>stEvents := es\<rparr>) = ingest_frame d"
  "ingest_frame (d\<lparr>stAudit := x, stAuditNext := m\<rparr>) = ingest_frame d" "ingest_frame (d\<lparr>stCommitted := c\<rparr>) = ingest_frame d"
  "ingest_frame (d\<lparr>stApprovalNotices := o1\<rparr>) = ingest_frame d" "ingest_frame (touch_session sc sq now d) = ingest_frame d"
  by (simp_all add: frame_defs touch_session_def)

lemma ingest_frame_audit [simp]: "same ingest_frame d (insertAudit E i now d)"
  by (rule same_insertAudit) simp

lemma ingest_frame_notify [simp]: "same ingest_frame d (notify_approval t w a d)"
  by (rule same_notify) simp

lemma ingest_frame_approval [simp]: "same ingest_frame d (store_approval E i e now d)"
  by (auto simp: store_approval_def insert_approval_def intro!: same_bind split: option.splits)

lemma ingest_frame_turn [simp]: "same ingest_frame d (audit_turn E i e now d)"
  by (simp add: audit_turn_def Let_def split: event_payload.splits)

lemma ingest_frame_store [simp]: "same ingest_frame d (store_event E i now d)"
  unfolding store_event_def
  by (auto simp: next_sequence_def number_event_def insert_raw_def insert_event_def Let_def intro!: same_bind same_via [OF same_bind] split: option.splits)

lemma ingest_frame_ops: "same ingest_frame d (ingest E i now d)" "same ingest_frame d (ingestRawOnly sc k rw now d)"
  by (auto simp: ingest_def ingest_tx_def ingestRawOnly_def Let_def intro!: same_bind same_tx same_via [OF same_bind] split: option.splits)

subsection \<open>The log invariant\<close>

definition in_workspace :: "string \<Rightarrow> event_row \<Rightarrow> bool" where
  "in_workspace w x \<longleftrightarrow> teWorkspaceId (erEvent x) = w"

definition workspace_events :: "string \<Rightarrow> event_row list \<Rightarrow> timeline_event list" where
  "workspace_events w evs = map erEvent (filter (in_workspace w) evs)"

definition in_session :: "store_scope \<Rightarrow> event_row \<Rightarrow> bool" where
  "in_session sc x \<longleftrightarrow> event_scope (erEvent x) = sc"

definition stored_events :: "store_scope \<Rightarrow> event_row list \<Rightarrow> timeline_event list" where
  "stored_events sc evs = map erEvent (filter (in_session sc) evs)"

definition last_number :: "timeline_event list \<Rightarrow> int" where
  "last_number es = (case at_last es of None \<Rightarrow> 0 | Some e \<Rightarrow> teSequence e)"

definition raw_key :: "raw_row \<Rightarrow> string \<times> string \<times> string" where
  "raw_key w = (ssTenantId (rwScope w), ssWorkspaceId (rwScope w), rwIngestKey w)"

definition sequence_ok :: "event_row list \<Rightarrow> sequence_row \<Rightarrow> bool" where
  "sequence_ok evs q \<longleftrightarrow> 0 \<le> sqLastSequence q \<and> map teSequence (workspace_events (sqWorkspaceId q) evs) = [1..sqLastSequence q]
     \<and> (\<forall>e \<in> set (workspace_events (sqWorkspaceId q) evs). teTenantId e = sqTenantId q)"

definition event_ok :: "sequence_row list \<Rightarrow> raw_row list \<Rightarrow> (store_scope \<times> int) list \<Rightarrow> event_row \<Rightarrow> bool" where
  "event_ok qs raws ses x \<longleftrightarrow> timelineEventSchema (erEvent x) \<and> teWorkspaceId (erEvent x) \<in> sqWorkspaceId ` set qs
     \<and> event_scope (erEvent x) \<in> fst ` set ses \<and> (\<exists>w \<in> set raws. rwId w = erRawId x \<and> rwScope w = event_scope (erEvent x))"

fun log_ok :: "sequence_row list \<times> raw_row list \<times> nat \<times> event_row list \<times> timeline_event list \<times> (store_scope \<times> int) list \<Rightarrow> bool" where
  "log_ok (qs, raws, n, evs, com, ses) \<longleftrightarrow>
     distinct (map fst ses) \<and> distinct (map sqWorkspaceId qs) \<and> (\<forall>q \<in> set qs. sequence_ok evs q)
   \<and> (\<forall>x \<in> set evs. event_ok qs raws ses x) \<and> (\<forall>(sc, k) \<in> set ses. k = last_number (stored_events sc evs))
   \<and> distinct (map rwId raws) \<and> (\<forall>w \<in> set raws. rwId w < n) \<and> distinct (map raw_key raws)
   \<and> distinct (map erRawId evs) \<and> com = map erEvent evs"

definition log_inv :: "store \<Rightarrow> bool" where
  "log_inv d = log_ok (log_view d)"

lemma log_inv_frame: "log_view d' = log_view d \<Longrightarrow> log_inv d' = log_inv d"
  by (simp add: log_inv_def)

lemma log_inv_empty: "log_inv empty_store"
  by (simp add: log_inv_def log_view_def empty_store_def)

lemma log_inv_iff:
  "log_inv d \<longleftrightarrow>
     distinct (map seScope (stSessions d)) \<and> distinct (map sqWorkspaceId (stSequences d)) \<and> (\<forall>q \<in> set (stSequences d). sequence_ok (stEvents d) q)
   \<and> (\<forall>x \<in> set (stEvents d). timelineEventSchema (erEvent x)) \<and> (\<forall>x \<in> set (stEvents d). teWorkspaceId (erEvent x) \<in> sqWorkspaceId ` set (stSequences d))
   \<and> (\<forall>x \<in> set (stEvents d). event_scope (erEvent x) \<in> seScope ` set (stSessions d))
   \<and> (\<forall>x \<in> set (stEvents d). \<exists>w \<in> set (stRaw d). rwId w = erRawId x \<and> rwScope w = event_scope (erEvent x))
   \<and> (\<forall>s \<in> set (stSessions d). seLastSequence s = last_number (stored_events (seScope s) (stEvents d)))
   \<and> distinct (map rwId (stRaw d)) \<and> (\<forall>w \<in> set (stRaw d). rwId w < stRawNext d) \<and> distinct (map raw_key (stRaw d))
   \<and> distinct (map erRawId (stEvents d)) \<and> stCommitted d = map erEvent (stEvents d)"
  by (auto simp: log_inv_def log_view_def event_ok_def comp_def image_image)

lemma log_invD:
  assumes "log_inv d"
  shows "distinct (map seScope (stSessions d))" "distinct (map sqWorkspaceId (stSequences d))" "q \<in> set (stSequences d) \<Longrightarrow> sequence_ok (stEvents d) q"
    "x \<in> set (stEvents d) \<Longrightarrow> timelineEventSchema (erEvent x)" "x \<in> set (stEvents d) \<Longrightarrow> teWorkspaceId (erEvent x) \<in> sqWorkspaceId ` set (stSequences d)"
    "x \<in> set (stEvents d) \<Longrightarrow> event_scope (erEvent x) \<in> seScope ` set (stSessions d)"
    "x \<in> set (stEvents d) \<Longrightarrow> \<exists>w \<in> set (stRaw d). rwId w = erRawId x \<and> rwScope w = event_scope (erEvent x)"
    "s \<in> set (stSessions d) \<Longrightarrow> seLastSequence s = last_number (stored_events (seScope s) (stEvents d))"
    "distinct (map rwId (stRaw d))" "w \<in> set (stRaw d) \<Longrightarrow> rwId w < stRawNext d" "distinct (map raw_key (stRaw d))"
    "distinct (map erRawId (stEvents d))" "stCommitted d = map erEvent (stEvents d)"
  using assms unfolding log_inv_iff by blast+

lemma log_inv_session:
  assumes inv: "log_inv d" and "insert_session s d = (r, d')" and "seLastSequence s = 0"
  shows "log_inv d'"
proof (cases "d' = d")
  case False
  then have d': "d' = d\<lparr>stSessions := stSessions d @ [s]\<rparr>" and new: "seScope s \<notin> seScope ` set (stSessions d)"
    using assms(2) by (auto simp: insert_session_def find_session_def find_None_iff split: if_splits)
  have "stored_events (seScope s) (stEvents d) = []"
    unfolding stored_events_def map_is_Nil_conv filter_empty_conv in_session_def using log_invD(6) [OF inv] new by metis
  then show ?thesis using inv new assms(3) unfolding log_inv_iff d' by (simp add: last_number_def at_last_def)
qed (use inv in simp)

lemma workspace_events_append:
  "workspace_events w (evs @ [x]) = workspace_events w evs @ (if in_workspace w x then [erEvent x] else [])"
  by (simp add: workspace_events_def)

lemma stored_events_append:
  "stored_events sc (evs @ [x]) = stored_events sc evs @ (if in_session sc x then [erEvent x] else [])"
  by (simp add: stored_events_def)

lemma last_number_append [simp]: "last_number (es @ [e]) = teSequence e" "last_number [] = 0"
  by (simp_all add: last_number_def at_last_def)

lemma next_sequence_cases:
  assumes "next_sequence sc now d = (r, d')"
  obtains (fail) "isl r" "d' = d"
  | (known) q where "q \<in> set (stSequences d)" "sqWorkspaceId q = ssWorkspaceId sc" "sqTenantId q = ssTenantId sc" "r = Inr (sqLastSequence q + 1)"
      "d' = d\<lparr>stSequences := update_where (\<lambda>q. sqWorkspaceId q = ssWorkspaceId sc \<and> sqTenantId q = ssTenantId sc)
        (\<lambda>q. q\<lparr>sqLastSequence := sqLastSequence q + 1, sqUpdatedAt := now\<rparr>) (stSequences d)\<rparr>"
  | (new) "ssWorkspaceId sc \<notin> sqWorkspaceId ` set (stSequences d)" "r = Inr 1"
      "d' = d\<lparr>stSequences := stSequences d @
        [\<lparr>sqWorkspaceId = ssWorkspaceId sc, sqTenantId = ssTenantId sc, sqLastSequence = 1, sqUpdatedAt = now\<rparr>]\<rparr>"
proof (cases "list_ex (\<lambda>q. sqWorkspaceId q = ssWorkspaceId sc) (stSequences d)")
  case True
  show thesis
  proof (cases "find (\<lambda>q. sqWorkspaceId q = ssWorkspaceId sc \<and> sqTenantId q = ssTenantId sc) (stSequences d)")
    case None
    then show thesis using assms True by (intro fail) (auto simp: next_sequence_def Let_def)
  next
    case (Some q)
    then have "q \<in> set (stSequences d)" "sqWorkspaceId q = ssWorkspaceId sc" "sqTenantId q = ssTenantId sc"
      by (auto simp: find_Some_iff)
    then show thesis using assms True Some known [of q] by (simp add: next_sequence_def Let_def)
  qed
next
  case False
  then have "find (\<lambda>q. sqWorkspaceId q = ssWorkspaceId sc \<and> sqTenantId q = ssTenantId sc) (stSequences d) = None"
    by (auto simp: list_ex_iff find_None_iff)
  moreover have "update_where (\<lambda>q. sqWorkspaceId q = ssWorkspaceId sc \<and> sqTenantId q = ssTenantId sc)
      (\<lambda>q. q\<lparr>sqLastSequence := sqLastSequence q + 1, sqUpdatedAt := now\<rparr>) (stSequences d) = stSequences d"
    using False by (auto simp: update_where_def list_ex_iff intro!: map_idI)
  moreover have "find P (xs @ ys) = (case find P xs of None \<Rightarrow> find P ys | Some x \<Rightarrow> Some x)" for P :: "sequence_row \<Rightarrow> bool" and xs ys
    by (induction xs) auto
  ultimately show thesis
    using assms False by (intro new) (auto simp: next_sequence_def Let_def list_ex_iff update_where_def)
qed


text \<open>Approvals and audit records do not touch the log.\<close>

lemma log_view_update [simp]:
  "log_view (d\<lparr>stApprovals := a\<rparr>) = log_view d" "log_view (d\<lparr>stAudit := x, stAuditNext := m\<rparr>) = log_view d"
  "log_view (d\<lparr>stApprovalNotices := o1\<rparr>) = log_view d"
  by (simp_all add: log_view_def)

lemma log_view_approval [simp]: "same log_view d (store_approval E i e now d)"
  by (auto simp: store_approval_def insert_approval_def intro!: same_bind same_insertAudit split: option.splits)

lemma log_view_turn [simp]: "same log_view d (audit_turn E i e now d)"
  by (simp add: audit_turn_def Let_def same_insertAudit split: event_payload.splits)

lemma st_bind_InrE:
  assumes "st_bind m f d = (Inr y, d')"
  obtains x d1 where "m d = (Inr x, d1)" "f x d1 = (Inr y, d')"
  using assms by (auto simp: st_bind_def split: prod.splits sum.splits)

lemma st_return_iff [simp]: "st_return r d = (q, d') \<longleftrightarrow> q = r \<and> d' = d"
  by (auto simp: st_return_def)

lemma transaction_Inr: "transaction m d = (Inr x, d') \<longleftrightarrow> m d = (Inr x, d')"
  by (auto simp: transaction_def split: prod.splits sum.splits)

lemma transaction_Inl: "transaction m d = (Inl err, d') \<Longrightarrow> d' = d"
  by (auto simp: transaction_def split: prod.splits sum.splits)

lemma store_event_effect:
  assumes "store_event E i now d = (Inr e, d')"
  obtains n d1 where "next_sequence (inScope i) now d = (Inr n, d1)" "e = (inEvent i)\<lparr>teSequence := n\<rparr>" "timelineEventSchema e" "0 < n"
    "log_view d' = (stSequences d1, stRaw d @ [raw_of (inScope i) (inIngestKey i) (inRaw i) now (stRawNext d)], Suc (stRawNext d),
      stEvents d @ [\<lparr>erEvent = e, erRawId = stRawNext d\<rparr>], stCommitted d,
      map (\<lambda>s. (seScope s, if seScope s = inScope i then n else seLastSequence s)) (stSessions d))"
    "\<not> list_ex (same_ingest (inScope i) (inIngestKey i)) (stRaw d)"
proof -
  obtain n d1 where 1: "next_sequence (inScope i) now d = (Inr n, d1)" and r1: "st_bind (number_event (inEvent i) n) (\<lambda>e.
    st_bind (insert_raw (inScope i) (inIngestKey i) (inRaw i) now) (\<lambda>raw.
    st_bind (insert_event e raw) (\<lambda>_ d.
    st_bind (store_approval E i e now) (\<lambda>_.
    st_bind (audit_turn E i e now) (\<lambda>_. st_return (Inr e))) (touch_session (inScope i) n now d)))) d1 = (Inr e, d')"
    using assms unfolding store_event_def by (rule st_bind_InrE)
  obtain e0 d2 where 2: "number_event (inEvent i) n d1 = (Inr e0, d2)" and r2: "st_bind (insert_raw (inScope i) (inIngestKey i) (inRaw i) now) (\<lambda>raw.
    st_bind (insert_event e0 raw) (\<lambda>_ d.
    st_bind (store_approval E i e0 now) (\<lambda>_.
    st_bind (audit_turn E i e0 now) (\<lambda>_. st_return (Inr e0))) (touch_session (inScope i) n now d))) d2 = (Inr e, d')"
    using r1 by (rule st_bind_InrE)
  obtain raw d3 where 3: "insert_raw (inScope i) (inIngestKey i) (inRaw i) now d2 = (Inr raw, d3)" and r3: "st_bind (insert_event e0 raw) (\<lambda>_ d.
    st_bind (store_approval E i e0 now) (\<lambda>_.
    st_bind (audit_turn E i e0 now) (\<lambda>_. st_return (Inr e0))) (touch_session (inScope i) n now d)) d3 = (Inr e, d')"
    using r2 by (rule st_bind_InrE)
  obtain u4 d4 where 4: "insert_event e0 raw d3 = (Inr u4, d4)" and r4: "st_bind (store_approval E i e0 now) (\<lambda>_.
    st_bind (audit_turn E i e0 now) (\<lambda>_. st_return (Inr e0))) (touch_session (inScope i) n now d4) = (Inr e, d')"
    using r3 by (rule st_bind_InrE)
  obtain u5 d5 where 5: "store_approval E i e0 now (touch_session (inScope i) n now d4) = (Inr u5, d5)"
    and r5: "st_bind (audit_turn E i e0 now) (\<lambda>_. st_return (Inr e0)) d5 = (Inr e, d')"
    using r4 by (rule st_bind_InrE)
  obtain u6 d6 where r6: "audit_turn E i e0 now d5 = (Inr u6, d6)" and r7: "st_return (Inr e0) d6 = (Inr e, d')"
    using r5 by (rule st_bind_InrE)
  have 6: "audit_turn E i e0 now d5 = (Inr u6, d')" and e: "e0 = e" using r6 r7 by simp_all
  have views: "log_view d' = log_view (touch_session (inScope i) n now d4)"
    using log_view_approval [of "touch_session (inScope i) n now d4" E i e0 now] log_view_turn [of d5 E i e0 now] 5 6 by (simp add: same_def)
  have d1: "stRaw d1 = stRaw d" "stRawNext d1 = stRawNext d" "stEvents d1 = stEvents d" "stCommitted d1 = stCommitted d" "stSessions d1 = stSessions d"
    using 1 by (cases rule: next_sequence_cases; simp)+
  have d2: "d2 = d1" "e = (inEvent i)\<lparr>teSequence := n\<rparr>" "timelineEventSchema e"
    using 2 e by (auto simp: number_event_def split: option.splits)
  have d3: "raw = stRawNext d" "d3 = d1\<lparr>stRaw := stRaw d @ [raw_of (inScope i) (inIngestKey i) (inRaw i) now (stRawNext d)], stRawNext := Suc (stRawNext d)\<rparr>"
    "\<not> list_ex (same_ingest (inScope i) (inIngestKey i)) (stRaw d)"
    using 3 d1 d2 by (auto simp: insert_raw_def split: if_splits)
  have d4: "d4 = d3\<lparr>stEvents := stEvents d @ [\<lparr>erEvent = e, erRawId = raw\<rparr>]\<rparr>" "0 < teSequence e"
    using 4 d1 d3(2) e by (auto simp: insert_event_def split: if_splits)
  show thesis
  proof (rule that [OF 1 d2(2,3)])
    show "0 < n" using d4(2) d2(2) by simp
    show "log_view d' = (stSequences d1, stRaw d @ [raw_of (inScope i) (inIngestKey i) (inRaw i) now (stRawNext d)], Suc (stRawNext d),
      stEvents d @ [\<lparr>erEvent = e, erRawId = stRawNext d\<rparr>], stCommitted d,
      map (\<lambda>s. (seScope s, if seScope s = inScope i then n else seLastSequence s)) (stSessions d))"
      unfolding views d4(1) d3(2) using d1 d3(1) by (simp add: log_view_def touch_session_def update_where_def)
  qed (rule d3(3))
qed


lemma event_scope_sel:
  "event_scope e = sc \<Longrightarrow> teTenantId e = ssTenantId sc" "event_scope e = sc \<Longrightarrow> teWorkspaceId e = ssWorkspaceId sc"
  by (auto simp: event_scope_def)

lemma same_by_key: "distinct (map f xs) \<Longrightarrow> x \<in> set xs \<Longrightarrow> y \<in> set xs \<Longrightarrow> f x = f y \<Longrightarrow> x = y"
  by (metis distinct_map inj_onD)

text \<open>The number that is handed out continues the workspace.\<close>

definition continues :: "store_scope \<Rightarrow> int \<Rightarrow> event_row list \<Rightarrow> bool" where
  "continues sc n evs \<longleftrightarrow> 1 \<le> n \<and> map teSequence (workspace_events (ssWorkspaceId sc) evs) = [1..n - 1]
     \<and> (\<forall>e \<in> set (workspace_events (ssWorkspaceId sc) evs). teTenantId e = ssTenantId sc)"

lemma next_sequence_effect:
  assumes inv: "log_inv d" and "next_sequence sc now d = (Inr n, d1)"
  shows "distinct (map sqWorkspaceId (stSequences d1))"
    "sqWorkspaceId ` set (stSequences d1) = insert (ssWorkspaceId sc) (sqWorkspaceId ` set (stSequences d))"
    "continues sc n (stEvents d)"
    "q \<in> set (stSequences d1) \<Longrightarrow> q \<in> set (stSequences d) \<and> sqWorkspaceId q \<noteq> ssWorkspaceId sc
       \<or> sqWorkspaceId q = ssWorkspaceId sc \<and> sqTenantId q = ssTenantId sc \<and> sqLastSequence q = n"
proof -
  note dist = log_invD(2) [OF inv]
  have "distinct (map sqWorkspaceId (stSequences d1))
    \<and> sqWorkspaceId ` set (stSequences d1) = insert (ssWorkspaceId sc) (sqWorkspaceId ` set (stSequences d))
    \<and> continues sc n (stEvents d)
    \<and> (\<forall>q \<in> set (stSequences d1). q \<in> set (stSequences d) \<and> sqWorkspaceId q \<noteq> ssWorkspaceId sc
       \<or> sqWorkspaceId q = ssWorkspaceId sc \<and> sqTenantId q = ssTenantId sc \<and> sqLastSequence q = n)"
    using assms(2)
  proof (cases rule: next_sequence_cases)
    case (known p)
    have only: "q = p" if "q \<in> set (stSequences d)" "sqWorkspaceId q = ssWorkspaceId sc" for q
      using same_by_key [OF dist that(1) known(1)] that(2) known(2) by simp
    have "sequence_ok (stEvents d) p" using log_invD(3) [OF inv known(1)] .
    then have "continues sc n (stEvents d)" using known by (simp add: continues_def sequence_ok_def)
    moreover have "map sqWorkspaceId (stSequences d1) = map sqWorkspaceId (stSequences d)" using known(5) by simp
    moreover from this have "sqWorkspaceId ` set (stSequences d1) = sqWorkspaceId ` set (stSequences d)" by (metis list.set_map)
    moreover have "q \<in> set (stSequences d) \<and> sqWorkspaceId q \<noteq> ssWorkspaceId sc
       \<or> sqWorkspaceId q = ssWorkspaceId sc \<and> sqTenantId q = ssTenantId sc \<and> sqLastSequence q = n" if "q \<in> set (stSequences d1)" for q
      using that known(2-5) only by (auto dest!: in_update_where split: if_splits)
    moreover have "ssWorkspaceId sc \<in> sqWorkspaceId ` set (stSequences d)" using known(1,2) by (metis imageI)
    ultimately show ?thesis using dist by (auto simp: insert_absorb)
  next
    case new
    have none: "workspace_events (ssWorkspaceId sc) (stEvents d) = []"
      unfolding workspace_events_def map_is_Nil_conv filter_empty_conv in_workspace_def using log_invD(5) [OF inv] new(1) by metis
    then have "continues sc n (stEvents d)" using new(2) by (simp add: continues_def)
    moreover have "sqWorkspaceId q \<noteq> ssWorkspaceId sc" if "q \<in> set (stSequences d)" for q using new(1) that by (metis imageI)
    ultimately show ?thesis using dist new by auto
  qed simp
  then show "distinct (map sqWorkspaceId (stSequences d1))"
    "sqWorkspaceId ` set (stSequences d1) = insert (ssWorkspaceId sc) (sqWorkspaceId ` set (stSequences d))"
    "continues sc n (stEvents d)"
    "q \<in> set (stSequences d1) \<Longrightarrow> q \<in> set (stSequences d) \<and> sqWorkspaceId q \<noteq> ssWorkspaceId sc
       \<or> sqWorkspaceId q = ssWorkspaceId sc \<and> sqTenantId q = ssTenantId sc \<and> sqLastSequence q = n"
    by blast+
qed

lemma sequence_ok_append:
  assumes "continues sc n evs" and "teWorkspaceId e = ssWorkspaceId sc" "teTenantId e = ssTenantId sc" "teSequence e = n"
    and "sequence_ok evs q \<and> sqWorkspaceId q \<noteq> ssWorkspaceId sc
       \<or> sqWorkspaceId q = ssWorkspaceId sc \<and> sqTenantId q = ssTenantId sc \<and> sqLastSequence q = n"
  shows "sequence_ok (evs @ [\<lparr>erEvent = e, erRawId = k\<rparr>]) q"
proof (cases "sqWorkspaceId q = ssWorkspaceId sc")
  case True
  then show ?thesis using assms
    by (auto simp: sequence_ok_def workspace_events_append in_workspace_def continues_def upto_rec2)
next
  case False
  then have "\<not> in_workspace (sqWorkspaceId q) \<lparr>erEvent = e, erRawId = k\<rparr>" using assms(2) by (simp add: in_workspace_def)
  then show ?thesis using assms(5) False by (simp add: sequence_ok_def workspace_events_append)
qed

lemma log_inv_store:
  assumes inv: "log_inv d" and st: "store_event E i now d = (Inr e, d')" and sc: "event_scope (inEvent i) = inScope i"
    and ses: "inScope i \<in> seScope ` set (stSessions d)"
  shows "log_inv (d'\<lparr>stCommitted := stCommitted d' @ [e]\<rparr>)"
proof -
  let ?raw = "raw_of (inScope i) (inIngestKey i) (inRaw i) now (stRawNext d)" and ?x = "\<lparr>erEvent = e, erRawId = stRawNext d\<rparr>"
  obtain n d1 where n: "next_sequence (inScope i) now d = (Inr n, d1)" and e: "e = (inEvent i)\<lparr>teSequence := n\<rparr>" "timelineEventSchema e" "0 < n"
    and v: "log_view d' = (stSequences d1, stRaw d @ [?raw], Suc (stRawNext d), stEvents d @ [?x], stCommitted d,
      map (\<lambda>s. (seScope s, if seScope s = inScope i then n else seLastSequence s)) (stSessions d))"
    and key: "\<not> list_ex (same_ingest (inScope i) (inIngestKey i)) (stRaw d)"
    using st by (rule store_event_effect)
  have es: "event_scope e = inScope i" using sc e(1) by (simp add: event_scope_def)
  then have ids: "teWorkspaceId e = ssWorkspaceId (inScope i)" "teTenantId e = ssTenantId (inScope i)" "teSequence e = n"
    using e(1) by (simp_all add: event_scope_sel)
  note q = next_sequence_effect [OF inv n]
  have raw: "rwId ?raw = stRawNext d" "rwScope ?raw = inScope i" "raw_key ?raw \<notin> raw_key ` set (stRaw d)"
    using key by (auto simp: raw_of_def raw_key_def same_ingest_def list_ex_iff)
  have old: "\<exists>w \<in> set (stRaw d @ [?raw]). rwId w = erRawId x \<and> rwScope w = event_scope (erEvent x)" if "x \<in> set (stEvents d)" for x
    using log_invD(7) [OF inv that] by auto
  have fresh: "stRawNext d \<notin> erRawId ` set (stEvents d)" using log_invD(7,10) [OF inv] by fastforce
  have freshraw: "stRawNext d \<notin> rwId ` set (stRaw d)" using log_invD(10) [OF inv] by (metis imageE less_irrefl)
  have seq: "sequence_ok (stEvents d @ [?x]) p" if "p \<in> set (stSequences d1)" for p
    using sequence_ok_append [OF q(3) ids] q(4) [OF that] log_invD(3) [OF inv] by blast
  have lst: "(if seScope s = inScope i then n else seLastSequence s) = last_number (stored_events (seScope s) (stEvents d @ [?x]))"
    if "s \<in> set (stSessions d)" for s
    using log_invD(8) [OF inv that] es ids(3) by (auto simp: stored_events_append in_session_def)
  have "log_view (d'\<lparr>stCommitted := stCommitted d' @ [e]\<rparr>) = (stSequences d1, stRaw d @ [?raw], Suc (stRawNext d), stEvents d @ [?x],
      stCommitted d @ [e], map (\<lambda>s. (seScope s, if seScope s = inScope i then n else seLastSequence s)) (stSessions d))"
    using v by (simp add: log_view_def)
  then show ?thesis
    unfolding log_inv_def
    using q(1,2) seq old lst fresh freshraw raw e(2) es ids ses log_invD(1,4-6,9-13) [OF inv]
    by (auto simp: event_ok_def comp_def image_image less_Suc_eq)
qed


lemma getSession_Inr:
  "getSession sc d = (Inr s, d') \<Longrightarrow> d' = d \<and> s \<in> set (stSessions d) \<and> seScope s = sc \<and> seDeletedAt s = None \<and> assertScope sc"
  by (auto simp: getSession_def find_Some_iff split: if_splits option.splits)

lemma getSession_snd: "getSession sc d = (r, d') \<Longrightarrow> d' = d"
  by (auto simp: getSession_def split: if_splits option.splits)

text \<open>What the transaction of \<open>ingest\<close> may answer.\<close>

lemma ingest_tx_cases:
  assumes "ingest_tx E i now d = (Inr (e, dup), d')"
  obtains (duplicate) w where dup "d' = d" "ingested (inScope i) (inIngestKey i) d = Some (w, e)" "rwScope w = inScope i"
      "rwChecksum w = rwiChecksum (inRaw i)"
  | (stored) s where "\<not> dup" "ingested (inScope i) (inIngestKey i) d = None" "store_event E i now d = (Inr e, d')" "inScope i \<in> seScope ` set (stSessions d)"
      "getSession (inScope i) d = (Inr s, d)"
proof -
  obtain s d1 where g: "getSession (inScope i) d = (Inr s, d1)" and r: "(case ingested (inScope i) (inIngestKey i) d1 of
        Some (w, e) \<Rightarrow>
          (if rwScope w \<noteq> inScope i \<or> rwChecksum w \<noteq> rwiChecksum (inRaw i) then (Inl INGEST_KEY_CONFLICT, d1)
           else case parseTimelineEvent e of None \<Rightarrow> (Inl EventInvalid, d1) | Some e' \<Rightarrow> (Inr (e', True), d1))
      | None \<Rightarrow> st_bind (store_event E i now) (\<lambda>e. st_return (Inr (e, False))) d1) = (Inr (e, dup), d')"
    using assms unfolding ingest_tx_def by (rule st_bind_InrE)
  note g' = getSession_Inr [OF g]
  show thesis
  proof (cases "ingested (inScope i) (inIngestKey i) d")
    case None
    then have "st_bind (store_event E i now) (\<lambda>e. st_return (Inr (e, False))) d = (Inr (e, dup), d')" using r g' by simp
    moreover have "inScope i \<in> seScope ` set (stSessions d)" using g' by (metis imageI)
    ultimately show thesis using None g g' by (elim st_bind_InrE) (auto intro!: stored)
  next
    case (Some p)
    then show thesis using r g' duplicate [of "fst p"] by (cases p) (auto split: if_splits option.splits)
  qed
qed

text \<open>What \<open>ingest\<close> does to the log: nothing, or it stores one event.\<close>

lemma ingest_outcome:
  obtains (kept) "log_view (snd (ingest E i now d)) = log_view d"
  | (stored) e d1 s where "store_event E i now d = (Inr e, d1)" "event_scope (inEvent i) = inScope i" "inScope i \<in> seScope ` set (stSessions d)"
      "getSession (inScope i) d = (Inr s, d)" "log_view (snd (ingest E i now d)) = log_view (d1\<lparr>stCommitted := stCommitted d1 @ [e]\<rparr>)"
proof (cases "assertScope (inScope i) \<and> inIngestKey i \<noteq> [] \<and> event_scope (inEvent i) = inScope i \<and> \<not> invalid_storage (inRaw i)")
  case True
  obtain r d1 where t: "transaction (ingest_tx E i now) d = (r, d1)" by fastforce
  show thesis
  proof (cases r)
    case (Inl err)
    then have "snd (ingest E i now d) = d" using True t transaction_Inl [of "ingest_tx E i now" d err d1] by (simp add: ingest_def st_bind_def)
    then show thesis using kept by simp
  next
    case (Inr p)
    obtain e dup where p: "p = (e, dup)" by fastforce
    have tx: "ingest_tx E i now d = (Inr (e, dup), d1)" using t Inr p by (simp add: transaction_Inr)
    have n: "same log_view d2 (st_bind (notify_approval tn w a) (\<lambda>_. st_return (Inr (e, False))) d2)" for d2 tn w a
      by (intro same_bind same_notify) auto
    have final: "log_view (snd (ingest E i now d)) = log_view (if dup then d1 else d1\<lparr>stCommitted := stCommitted d1 @ [e]\<rparr>)"
      using True t Inr p n [unfolded same_def] by (simp add: ingest_def st_bind_def Let_def split: option.splits)
    from tx show thesis by (cases rule: ingest_tx_cases) (use final True kept stored in auto)
  qed
qed (auto simp: ingest_def intro: kept)

lemma log_inv_ingest:
  assumes inv: "log_inv d"
  shows "log_inv (snd (ingest E i now d))"
proof (cases rule: ingest_outcome [of E i now d])
  case kept
  then show ?thesis using inv log_inv_frame by blast
next
  case (stored e d1)
  then show ?thesis using log_inv_store [OF inv] log_inv_frame by metis
qed

lemma log_inv_raw:
  assumes inv: "log_inv d"
  shows "log_inv (snd (ingestRawOnly sc key r now d))"
proof (cases "snd (ingestRawOnly sc key r now d) = d")
  case False
  then have d': "snd (ingestRawOnly sc key r now d)
      = d\<lparr>stRaw := stRaw d @ [raw_of sc key r now (stRawNext d)], stRawNext := Suc (stRawNext d)\<rparr>"
    and new: "\<not> list_ex (same_ingest sc key) (stRaw d)"
    by (auto simp: ingestRawOnly_def st_bind_def dest!: getSession_snd split: if_splits prod.splits sum.splits)
  have "raw_key (raw_of sc key r now (stRawNext d)) \<notin> raw_key ` set (stRaw d)" "rwId (raw_of sc key r now (stRawNext d)) = stRawNext d"
    using new by (auto simp: raw_of_def raw_key_def same_ingest_def list_ex_iff)
  then show ?thesis unfolding d' using inv unfolding log_inv_iff by (auto simp: less_Suc_eq)
qed (use inv in simp)


end
