(* ===== verification/Store_Lives.thy ===== *)
theory Store_Lives
  imports Event_Store_Inv
begin

section \<open>The event store: the lives of runs, approvals and idempotency keys\<close>

text \<open>
  The rows of a table move along a life cycle and new rows are appended.  \<open>row_life\<close> is what the three tables have in
  common: a row that may not move any more stays as it is, whatever the store does.  \<open>run_life\<close>, \<open>approval_life\<close> and
  \<open>key_life\<close> are the life cycles, and every operation of the store is shown to follow them.
\<close>

subsection \<open>Tables whose rows have a life\<close>

definition table_moves :: "('r \<Rightarrow> 'r \<Rightarrow> bool) \<Rightarrow> ('r \<Rightarrow> bool) \<Rightarrow> 'r list \<Rightarrow> 'r list \<Rightarrow> bool" where
  "table_moves moves fresh rs rs' \<longleftrightarrow> (\<exists>rs1 new. rs' = rs1 @ new \<and> list_all2 moves rs rs1 \<and> list_all fresh new)"

locale row_life =
  fixes moves :: "'r \<Rightarrow> 'r \<Rightarrow> bool"
    and fresh :: "'r \<Rightarrow> bool"
    and key :: "'r \<Rightarrow> 'k"
  assumes moves_stay: "moves r r"
    and moves_identity: "moves r r' \<Longrightarrow> key r' = key r"
begin

lemma table_stays: "table_moves moves fresh rs rs"
  unfolding table_moves_def by (intro exI [of _ rs] exI [of _ "[]"]) (simp add: list_all2_same moves_stay)

lemma table_grows: "fresh r \<Longrightarrow> table_moves moves fresh rs (rs @ [r])"
  unfolding table_moves_def by (intro exI [of _ rs] exI [of _ "[r]"]) (simp add: list_all2_same moves_stay)

lemma table_updated:
  assumes "\<And>r. r \<in> set rs \<Longrightarrow> P r \<Longrightarrow> moves r (f r)"
  shows "table_moves moves fresh rs (update_where P f rs)"
  unfolding table_moves_def using assms moves_stay
  by (intro exI [of _ "update_where P f rs"] exI [of _ "[]"]) (simp add: update_where_def list_all2_conv_all_nth)

lemma updated_keys: "(\<And>r. r \<in> set rs \<Longrightarrow> P r \<Longrightarrow> moves r (f r)) \<Longrightarrow> map key (update_where P f rs) = map key rs"
  using moves_identity by (auto simp: update_where_def)

lemma row_moves: "table_moves moves fresh rs rs' \<Longrightarrow> r \<in> set rs \<Longrightarrow> \<exists>r' \<in> set rs'. moves r r'"
  by (auto simp: table_moves_def list_all2_conv_all_nth in_set_conv_nth)
     (metis UnCI in_set_conv_nth set_append)

lemma row_survives:
  assumes "(table_moves moves fresh)\<^sup>*\<^sup>* rs rs'" and "r \<in> set rs"
  shows "\<exists>r' \<in> set rs'. moves\<^sup>*\<^sup>* r r'"
  using assms
proof (induction rule: rtranclp_induct)
  case (step rs1 rs2)
  then show ?case by (meson row_moves rtranclp.rtrancl_into_rtrancl)
qed auto

lemma moves_keep:
  assumes "moves\<^sup>*\<^sup>* r r'" and "Q r" and "\<And>a b. Q a \<Longrightarrow> moves a b \<Longrightarrow> Q b"
  shows "Q r'"
  using assms by (induction rule: rtranclp_induct) auto

lemma final_row_stays:
  assumes "(table_moves moves fresh)\<^sup>*\<^sup>* rs rs'" and "r \<in> set rs" and "\<And>r'. moves r r' \<Longrightarrow> r' = r"
  shows "r \<in> set rs'"
proof -
  obtain r' where "r' \<in> set rs'" and m: "moves\<^sup>*\<^sup>* r r'" using row_survives [OF assms(1,2)] by blast
  moreover have "r' = r" using moves_keep [OF m, of "\<lambda>x. x = r"] assms(3) by blast
  ultimately show ?thesis by simp
qed

end

subsection \<open>The life of a run\<close>

inductive run_life :: "run_status \<Rightarrow> run_status \<Rightarrow> bool" where
  life_bind: "s \<in> {Queued, Running, RecoveryRequired} \<Longrightarrow> run_life s Running"
| life_interrupt: "run_life Running Interrupting"
| life_lost: "recoverable s \<Longrightarrow> run_life s RecoveryRequired"
| life_end: "recoverable s \<Longrightarrow> run_life s (Ended outcome)"

inductive_cases run_life_EndedE: "run_life (Ended outcome) s"
inductive_simps run_life_simps: "run_life s t"

definition settled_outcome :: "run_row \<Rightarrow> bool" where
  "settled_outcome r \<longleftrightarrow> rnTerminalOutcome r = (case rnStatus r of Ended outcome \<Rightarrow> Some outcome | _ \<Rightarrow> None)"

definition run_moves :: "run_row \<Rightarrow> run_row \<Rightarrow> bool" where
  "run_moves r r' \<longleftrightarrow> r' = r \<or> rnScope r' = rnScope r \<and> rnRunId r' = rnRunId r \<and> rnProvider r' = rnProvider r
     \<and> run_life (rnStatus r) (rnStatus r') \<and> (truthy (rnTurnId r) \<longrightarrow> rnTurnId r' = rnTurnId r) \<and> (settled_outcome r \<longrightarrow> settled_outcome r')"

definition new_run :: "run_row \<Rightarrow> bool" where
  "new_run r \<longleftrightarrow> rnStatus r = Queued \<and> rnTerminalOutcome r = None"

definition runs_move :: "run_row list \<Rightarrow> run_row list \<Rightarrow> bool" where
  "runs_move = table_moves run_moves new_run"

lemma run_moves_refl [simp]: "run_moves r r"
  by (simp add: run_moves_def)

lemma run_moves_key: "run_moves r r' \<Longrightarrow> rnScope r' = rnScope r \<and> rnRunId r' = rnRunId r \<and> rnProvider r' = rnProvider r"
  by (auto simp: run_moves_def)

lemma run_moves_settled: "run_moves r r' \<Longrightarrow> settled_outcome r \<Longrightarrow> settled_outcome r'"
  by (auto simp: run_moves_def)

interpretation run_rows: row_life run_moves new_run "\<lambda>r. (rnScope r, rnRunId r)"
  by unfold_locales (auto simp: run_moves_def)

lemma runs_move_refl [simp]: "runs_move rs rs"
  unfolding runs_move_def by (rule run_rows.table_stays)

lemma runs_move_update: "(\<And>r. r \<in> set rs \<Longrightarrow> P r \<Longrightarrow> run_moves r (f r)) \<Longrightarrow> runs_move rs (update_where P f rs)"
  unfolding runs_move_def by (rule run_rows.table_updated)

definition runs_inv :: "run_row list \<Rightarrow> bool" where
  "runs_inv rs \<longleftrightarrow> distinct (map (\<lambda>r. (rnScope r, rnRunId r)) rs) \<and> runs_allowed rs \<and> list_all settled_outcome rs"

lemma distinct_on_append: "distinct_on f (xs @ [x]) \<longleftrightarrow> distinct_on f xs \<and> (f x = None \<or> f x \<notin> f ` set xs)"
  by (induction xs) (auto simp: list_ex_iff split: option.splits)

lemma distinct_on_weaken:
  "distinct_on f xs \<Longrightarrow> (\<And>x. x \<in> set xs \<Longrightarrow> f (g x) = f x \<or> f (g x) = None) \<Longrightarrow> distinct_on f (map g xs)"
proof (induction xs)
  case (Cons x xs)
  then have "distinct_on f (map g xs)" by auto
  moreover have "\<not> list_ex (\<lambda>y. f y = Some v) (map g xs)" if "f (g x) = Some v" for v
  proof -
    have "f x = Some v" using that Cons.prems(2) [of x] by auto
    then have no: "f y \<noteq> Some v" if "y \<in> set xs" for y using Cons.prems(1) that by (auto simp: list_ex_iff)
    have "f (g y) \<noteq> Some v" if "y \<in> set xs" for y using Cons.prems(2) [of y] no [OF that] that by auto
    then show ?thesis by (auto simp: list_ex_iff)
  qed
  ultimately show ?case by (auto split: option.splits)
qed simp

lemma active_key_Some: "active_key r = Some sc \<longleftrightarrow> active_run sc r"
  by (auto simp: active_key_def active_run_def)

lemma distinct_on_active: "distinct_on active_key rs \<Longrightarrow> length (filter (active_run sc) rs) \<le> 1"
proof (induction rs)
  case (Cons r rs)
  show ?case
  proof (cases "active_run sc r")
    case True
    then have "active_key r = Some sc" by (simp add: active_key_Some)
    then have "\<not> list_ex (\<lambda>y. active_key y = Some sc) rs" using Cons.prems by simp
    then have "filter (active_run sc) rs = []" by (auto simp: list_ex_iff active_key_Some filter_empty_conv)
    then show ?thesis by simp
  qed (use Cons in \<open>simp split: option.splits\<close>)
qed simp

lemma no_active_run: "findActiveDurableRun sc d = None \<Longrightarrow> r \<in> set (stRuns d) \<Longrightarrow> \<not> active_run sc r"
proof -
  have "latest_run rs = None \<longleftrightarrow> rs = []" for rs by (induction rs) (auto split: option.splits)
  then show "findActiveDurableRun sc d = None \<Longrightarrow> r \<in> set (stRuns d) \<Longrightarrow> \<not> active_run sc r"
    by (auto simp: findActiveDurableRun_def filter_empty_conv)
qed

text \<open>An update that keeps turns and does not activate a run keeps the constraints.\<close>

lemma runs_inv_update:
  assumes "runs_inv rs" and "\<And>r. r \<in> set rs \<Longrightarrow> P r \<Longrightarrow> run_moves r (f r)"
    and "runs_allowed (update_where P f rs)"
  shows "runs_inv (update_where P f rs)"
proof -
  note run_rows.updated_keys [OF assms(2)]
  moreover have "list_all settled_outcome (update_where P f rs)"
    using assms(1) run_moves_settled [OF assms(2)] by (auto simp: runs_inv_def update_where_def list_all_iff)
  ultimately show ?thesis using assms(1,3) by (simp add: runs_inv_def)
qed

lemma runs_allowed_update:
  assumes "runs_allowed rs" and "\<And>r. r \<in> set rs \<Longrightarrow> P r \<Longrightarrow> rnScope (f r) = rnScope r \<and> rnTurnId (f r) = rnTurnId r
      \<and> (active_status (rnStatus (f r)) \<longrightarrow> active_status (rnStatus r))"
  shows "runs_allowed (update_where P f rs)"
  unfolding runs_allowed_def update_where_def
proof (intro conjI distinct_on_weaken)
  fix r assume "r \<in> set rs"
  then show "active_key (if P r then f r else r) = active_key r \<or> active_key (if P r then f r else r) = None"
    and "turn_key (if P r then f r else r) = turn_key r \<or> turn_key (if P r then f r else r) = None"
    using assms(2) [of r] by (auto simp: active_key_def turn_key_def)
qed (use assms(1) in \<open>simp_all add: runs_allowed_def\<close>)

definition runs_step :: "run_row list \<Rightarrow> run_row list \<Rightarrow> bool" where
  "runs_step rs rs' \<longleftrightarrow> (runs_inv rs \<longrightarrow> runs_move rs rs' \<and> runs_inv rs')"

lemma runs_step_refl [simp]: "runs_step rs rs"
  by (simp add: runs_step_def)

lemma runs_step_update:
  assumes "\<And>r. r \<in> set rs \<Longrightarrow> P r \<Longrightarrow> settled_outcome r \<Longrightarrow> run_moves r (f r) \<and> rnTurnId (f r) = rnTurnId r
      \<and> (active_status (rnStatus (f r)) \<longrightarrow> active_status (rnStatus r))"
  shows "runs_step rs (update_where P f rs)"
  unfolding runs_step_def
proof
  assume inv: "runs_inv rs"
  have m: "run_moves r (f r) \<and> rnTurnId (f r) = rnTurnId r \<and> (active_status (rnStatus (f r)) \<longrightarrow> active_status (rnStatus r))"
    if "r \<in> set rs" "P r" for r using assms [OF that] inv that(1) by (simp add: runs_inv_def list_all_iff)
  have "runs_allowed (update_where P f rs)"
    by (rule runs_allowed_update) (use inv m run_moves_key in \<open>auto simp: runs_inv_def\<close>)
  then show "runs_move rs (update_where P f rs) \<and> runs_inv (update_where P f rs)"
    using m runs_move_update [of rs P f] runs_inv_update [OF inv, of P f] by blast
qed

lemma life_interrupting:
  "settled_outcome r \<Longrightarrow> rnStatus r = Running \<Longrightarrow> run_moves r (r\<lparr>rnStatus := Interrupting, rnInterruptRequestedAt := x, rnUpdatedAt := y\<rparr>)"
  by (simp add: run_moves_def settled_outcome_def life_interrupt)

lemma unsettled: "settled_outcome r \<Longrightarrow> recoverable (rnStatus r) \<Longrightarrow> rnTerminalOutcome r = None"
  by (auto simp: settled_outcome_def recoverable_def)

lemma life_lost_run: "settled_outcome r \<Longrightarrow> recoverable (rnStatus r) \<Longrightarrow> run_moves r (lost_run code detail now r)"
  using unsettled [of r] by (simp add: run_moves_def lost_run_def life_lost settled_outcome_def [of "lost_run code detail now r", unfolded lost_run_def])

lemma life_finished: "recoverable (rnStatus r) \<Longrightarrow> run_moves r (finished_run outcome now r)"
  by (simp add: run_moves_def finished_run_def life_end settled_outcome_def)

lemma life_bound:
  "settled_outcome r \<Longrightarrow> rnStatus r \<in> {Queued, Running, RecoveryRequired} \<Longrightarrow> \<not> (truthy (rnTurnId r) \<and> rnTurnId r \<noteq> Some (biTurnId i)) \<Longrightarrow>
    run_moves r (bound_run i now r)"
  using unsettled [of r] by (auto simp: run_moves_def bound_run_def life_bind settled_outcome_def recoverable_def)


lemma the_run_Inr: "the_run sc rid d = (Inr r, d') \<Longrightarrow> d' = d \<and> r \<in> set (stRuns d) \<and> run_key sc rid r"
  by (auto simp: the_run_def findDurableRun_def find_Some_iff split: option.splits)

lemma runs_create: "runs_step (stRuns d) (stRuns (snd (createDurableRun i now d)))"
proof (cases "stRuns (snd (createDurableRun i now d)) = stRuns d")
  case False
  then have rs: "stRuns (snd (createDurableRun i now d)) = stRuns d @ [run_of i now]" and none: "findDurableRun (riScope i) (riRunId i) d = None"
    and idle: "findActiveDurableRun (riScope i) d = None"
    by (auto simp: createDurableRun_def split: if_splits option.splits)
  let ?r = "run_of i now"
  have r: "rnScope ?r = riScope i" "rnRunId ?r = riRunId i" "rnStatus ?r = Queued" "rnTurnId ?r = None" "rnTerminalOutcome ?r = None"
    by (simp_all add: run_of_def)
  have move: "runs_move (stRuns d) (stRuns d @ [?r])"
    unfolding runs_move_def by (rule run_rows.table_grows) (simp add: new_run_def r)
  have "(riScope i, riRunId i) \<notin> (\<lambda>r. (rnScope r, rnRunId r)) ` set (stRuns d)"
    using none by (auto simp: findDurableRun_def find_None_iff run_key_def)
  moreover have "Some (riScope i) \<notin> active_key ` set (stRuns d)"
    using no_active_run [OF idle] active_key_Some by (metis imageE)
  ultimately have "runs_inv (stRuns d) \<Longrightarrow> runs_inv (stRuns d @ [?r])"
    using r by (simp add: runs_inv_def runs_allowed_def distinct_on_append active_key_def active_status_def turn_key_def settled_outcome_def)
  then show ?thesis using move rs by (simp add: runs_step_def)
qed simp

lemma update_run_runs:
  assumes "update_run sc rid f d = (r, d')" and "\<And>x. x \<in> set (stRuns d) \<Longrightarrow> run_key sc rid x \<Longrightarrow> settled_outcome x \<Longrightarrow> run_moves x (f x)"
  shows "runs_step (stRuns d) (stRuns d')"
proof (cases "runs_allowed (update_where (run_key sc rid) f (stRuns d))")
  case True
  have "runs_move (stRuns d) (update_where (run_key sc rid) f (stRuns d)) \<and> runs_inv (update_where (run_key sc rid) f (stRuns d))" if inv: "runs_inv (stRuns d)"
  proof -
    have m: "run_moves x (f x)" if "x \<in> set (stRuns d)" "run_key sc rid x" for x
      using assms(2) [OF that] inv that(1) by (simp add: runs_inv_def list_all_iff)
    show ?thesis using runs_move_update [of "stRuns d", OF m] runs_inv_update [OF inv m True] by simp
  qed
  then show ?thesis using assms(1) True by (auto simp: update_run_def Let_def runs_step_def)
qed (use assms(1) in \<open>auto simp: update_run_def Let_def\<close>)

lemma run_row_unique:
  "runs_inv rs \<Longrightarrow> r \<in> set rs \<Longrightarrow> x \<in> set rs \<Longrightarrow> run_key sc rid r \<Longrightarrow> run_key sc rid x \<Longrightarrow> x = r"
  using same_by_key [of "\<lambda>r. (rnScope r, rnRunId r)" rs x r] by (auto simp: runs_inv_def run_key_def)

lemma runs_stepI: "(runs_inv rs \<Longrightarrow> runs_step rs rs') \<Longrightarrow> runs_step rs rs'"
  by (auto simp: runs_step_def)

lemma runs_bind: "runs_step (stRuns d) (stRuns (snd (bindDurableRunTurn i now d)))"
proof (rule runs_stepI)
  assume inv: "runs_inv (stRuns d)"
  show "runs_step (stRuns d) (stRuns (snd (bindDurableRunTurn i now d)))"
  proof (cases "fst (bindDurableRunTurn i now d)")
    case (Inl err)
    then have "snd (bindDurableRunTurn i now d) = d"
      by (auto simp: bindDurableRunTurn_def transaction_def split: prod.splits sum.splits if_splits)
    then show ?thesis by simp
  next
    case (Inr v)
    then obtain d' where b: "bindDurableRunTurn i now d = (Inr v, d')" by (metis prod.collapse)
    then have "st_bind (the_run (biScope i) (biRunId i)) (\<lambda>r.
       if truthy (rnTurnId r) \<and> rnTurnId r \<noteq> Some (biTurnId i) then st_return (Inl RUN_TURN_IDENTITY_CONFLICT)
       else if rnStatus r \<notin> {Queued, Running, RecoveryRequired} then
         st_return (if rnTurnId r = Some (biTurnId i) then Inr r else Inl RUN_STATE_CONFLICT)
       else st_bind (update_run (biScope i) (biRunId i) (bound_run i now)) (\<lambda>_. the_run (biScope i) (biRunId i))) d = (Inr v, d')"
      by (simp add: bindDurableRunTurn_def transaction_Inr split: if_splits)
    then obtain r where r: "r \<in> set (stRuns d)" "run_key (biScope i) (biRunId i) r" and rest: "(if truthy (rnTurnId r) \<and> rnTurnId r \<noteq> Some (biTurnId i) then st_return (Inl RUN_TURN_IDENTITY_CONFLICT)
       else if rnStatus r \<notin> {Queued, Running, RecoveryRequired} then
         st_return (if rnTurnId r = Some (biTurnId i) then Inr r else Inl RUN_STATE_CONFLICT)
       else st_bind (update_run (biScope i) (biRunId i) (bound_run i now)) (\<lambda>_. the_run (biScope i) (biRunId i))) d = (Inr v, d')"
      by (elim st_bind_InrE) (auto dest!: the_run_Inr)
    show ?thesis
    proof (cases "rnStatus r \<in> {Queued, Running, RecoveryRequired}")
      case True
      then have ok: "\<not> (truthy (rnTurnId r) \<and> rnTurnId r \<noteq> Some (biTurnId i))"
        and up: "st_bind (update_run (biScope i) (biRunId i) (bound_run i now)) (\<lambda>_. the_run (biScope i) (biRunId i)) d = (Inr v, d')"
        using rest by (simp_all split: if_splits)
      obtain u where u: "update_run (biScope i) (biRunId i) (bound_run i now) d = (Inr u, d')"
        using up by (elim st_bind_InrE) (auto dest!: the_run_Inr)
      have "runs_step (stRuns d) (stRuns d')"
        by (rule update_run_runs [OF u]) (use life_bound True ok run_row_unique [OF inv r(1) _ r(2)] in blast)
      then show ?thesis using b by simp
    next
      case False
      then have "d' = d" using rest by (auto split: if_splits)
      then show ?thesis using b by simp
    qed
  qed
qed

lemma runs_interrupt: "runs_step (stRuns d) (stRuns (snd (markDurableRunInterrupting sc rid now d)))"
proof -
  have "stRuns (snd (markDurableRunInterrupting sc rid now d)) = update_where (\<lambda>r. run_key sc rid r \<and> rnStatus r = Running)
      (\<lambda>r. r\<lparr>rnStatus := Interrupting, rnInterruptRequestedAt := nullish (rnInterruptRequestedAt r) (Some now), rnUpdatedAt := now\<rparr>) (stRuns d)"
    by (auto simp: markDurableRunInterrupting_def Let_def st_bind_def getDurableRun_def st_return_def split: option.splits)
  then show ?thesis
    by (auto simp: active_status_def intro!: runs_step_update life_interrupting)
qed

lemma lost_fields [simp]: "rnTurnId (lost_run c e now r) = rnTurnId r" "\<not> active_status (rnStatus (lost_run c e now r))"
  by (simp_all add: lost_run_def active_status_def)

lemma runs_recovery: "runs_step (stRuns d) (stRuns (snd (markDurableRunRecoveryRequired sc rid c e now d)))"
proof -
  have "stRuns (snd (markDurableRunRecoveryRequired sc rid c e now d))
      = update_where (\<lambda>r. run_key sc rid r \<and> recoverable (rnStatus r)) (lost_run c e now) (stRuns d)"
    by (auto simp: markDurableRunRecoveryRequired_def Let_def st_bind_def getDurableRun_def st_return_def split: option.splits)
  then show ?thesis by (auto intro!: runs_step_update life_lost_run)
qed

lemma active_recoverable: "active_status s \<Longrightarrow> recoverable s"
  by (auto simp: active_status_def recoverable_def)

lemma runs_detached: "runs_step (stRuns d) (stRuns (snd (markDetachedCliRunsRecoveryRequired now d)))"
  by (auto simp: markDetachedCliRunsRecoveryRequired_def Let_def intro!: runs_step_update life_lost_run active_recoverable)

lemma runs_restart: "runs_step (stRuns d) (stRuns (restart now d))"
  by (auto simp: restart_def recoverable_def intro!: runs_step_update life_lost_run)

text \<open>The body of \<open>finalizeDurableRun\<close> after the run was read.\<close>

definition finalize_body :: "finalize_input \<Rightarrow> instant \<Rightarrow> instant \<Rightarrow> run_row \<Rightarrow> run_row store_op" where
  "finalize_body i t now r =
    (case rnTerminalOutcome r of
       Some o1 \<Rightarrow> st_return (if o1 \<noteq> fiOutcome i then Inl RUN_TERMINAL_CONFLICT else Inr r)
     | None \<Rightarrow>
         if \<not> recoverable (rnStatus r) then st_return (Inl RUN_STATE_CONFLICT)
         else st_bind (update_run (fiScope i) (fiRunId i) (finished_run (fiOutcome i) t)) (\<lambda>_ d.
              st_bind (terminal_entry i r t now) (\<lambda>_. the_run (fiScope i) (fiRunId i))
                (end_turn (fiScope i) (rnTurnId r) (fiOutcome i) t d)))"

lemma finalize_body:
  "finalizeDurableRun i now = transaction (st_bind (the_run (fiScope i) (fiRunId i)) (finalize_body i (case fiOccurredAt i of Some x \<Rightarrow> x | None \<Rightarrow> now) now))"
  unfolding finalizeDurableRun_def Let_def finalize_body_def ..

lemma transaction_failed: "fst (transaction m d) = Inl err \<Longrightarrow> snd (transaction m d) = d"
  by (auto simp: transaction_def split: prod.splits sum.splits)

lemma finalize_tail: "same stRuns d (st_bind (terminal_entry i r t now) (\<lambda>_. the_run sc rid) (end_turn sc tid oc t d))"
  by (rule same_via [OF same_bind]) (auto simp: terminal_entry_def Let_def end_turn_def intro!: same_insert_usage)

lemma finalize_body_runs:
  assumes inv: "runs_inv (stRuns d)" and r: "r \<in> set (stRuns d)" "run_key (fiScope i) (fiRunId i) r"
    and body: "finalize_body i t now r d = (Inr v, d')"
  shows "runs_step (stRuns d) (stRuns d')"
proof (cases "rnTerminalOutcome r = None \<and> recoverable (rnStatus r)")
  case True
  then obtain u d1 where u: "update_run (fiScope i) (fiRunId i) (finished_run (fiOutcome i) t) d = (Inr u, d1)"
    and en: "st_bind (terminal_entry i r t now) (\<lambda>_. the_run (fiScope i) (fiRunId i)) (end_turn (fiScope i) (rnTurnId r) (fiOutcome i) t d1) = (Inr v, d')"
    using body by (auto simp: finalize_body_def elim: st_bind_InrE)
  have "stRuns d' = stRuns d1" using finalize_tail [of d1 i r t now] en by (metis sameD)
  moreover have "runs_step (stRuns d) (stRuns d1)"
    by (rule update_run_runs [OF u]) (use life_finished True run_row_unique [OF inv r(1) _ r(2)] in blast)
  ultimately show ?thesis by simp
next
  case False
  then have "d' = d" using body by (auto simp: finalize_body_def split: if_splits option.splits)
  then show ?thesis by simp
qed

lemma runs_finalize: "runs_step (stRuns d) (stRuns (snd (finalizeDurableRun i now d)))"
proof (rule runs_stepI)
  assume inv: "runs_inv (stRuns d)"
  show "runs_step (stRuns d) (stRuns (snd (finalizeDurableRun i now d)))"
  proof (cases "finalizeDurableRun i now d")
    case (Pair r d')
    show ?thesis
    proof (cases r)
      case (Inl err)
      then have "d' = d" using Pair transaction_failed [of _ d err] unfolding finalize_body by (metis fst_conv snd_conv)
      then show ?thesis using Pair by simp
    next
      case (Inr v)
      then obtain r d1 where "the_run (fiScope i) (fiRunId i) d = (Inr r, d1)"
        and body: "finalize_body i (case fiOccurredAt i of Some x \<Rightarrow> x | None \<Rightarrow> now) now r d1 = (Inr v, d')"
        using Pair unfolding Inr finalize_body by (auto simp: transaction_Inr elim: st_bind_InrE)
      then show ?thesis using finalize_body_runs [OF inv] Pair the_run_Inr by (metis snd_conv)
    qed
  qed
qed

subsection \<open>The life of an approval\<close>

type_synonym approval_choice = "approval_decision option \<times> string option"

definition choice :: "approval_row \<Rightarrow> approval_choice" where
  "choice a = (avSelectedDecision a, avResolvingUserId a)"

inductive approval_life :: "approval_status \<Rightarrow> approval_choice \<Rightarrow> approval_status \<Rightarrow> approval_choice \<Rightarrow> bool" where
  life_take: "approval_life ApPending (None, None) ApResolving (Some decision, Some user)"
| life_finish: "s \<in> {ApPending, ApResolving, ApResolved} \<Longrightarrow> s' \<in> {ApResolved, ApExpired, ApSuperseded} \<Longrightarrow> approval_life s c s' c"

inductive_cases approval_lifeE: "approval_life s c s' c'"

definition approval_moves :: "approval_row \<Rightarrow> approval_row \<Rightarrow> bool" where
  "approval_moves a a' \<longleftrightarrow> a' = a \<or> avApprovalId a' = avApprovalId a \<and> avScope a' = avScope a \<and> avRequestId a' = avRequestId a
     \<and> avVersion a' = avVersion a + 1 \<and> approval_life (avStatus a) (choice a) (avStatus a') (choice a')"

definition new_approval :: "approval_row \<Rightarrow> bool" where
  "new_approval a \<longleftrightarrow> avStatus a = ApPending \<and> choice a = (None, None) \<and> avVersion a = 1"

definition approval_ok :: "approval_row \<Rightarrow> bool" where
  "approval_ok a \<longleftrightarrow> (avStatus a = ApPending \<longrightarrow> choice a = (None, None)) \<and> (avStatus a = ApResolving \<longrightarrow> avSelectedDecision a \<noteq> None) \<and> 1 \<le> avVersion a"

definition approvals_inv :: "approval_row list \<Rightarrow> bool" where
  "approvals_inv as \<longleftrightarrow> distinct (map avApprovalId as) \<and> list_all approval_ok as"

interpretation approval_rows: row_life approval_moves new_approval "\<lambda>a. (avApprovalId a, avScope a, avRequestId a)"
  by unfold_locales (auto simp: approval_moves_def)

text \<open>An operation of the store takes approvals along their life cycle, perhaps several of them.\<close>

definition approvals_step :: "approval_row list \<Rightarrow> approval_row list \<Rightarrow> bool" where
  "approvals_step as as' \<longleftrightarrow> (approvals_inv as \<longrightarrow> (table_moves approval_moves new_approval)\<^sup>*\<^sup>* as as' \<and> approvals_inv as')"

lemma approvals_step_refl [simp]: "approvals_step as as"
  by (simp add: approvals_step_def)

lemma approvals_step_trans: "approvals_step as bs \<Longrightarrow> approvals_step bs cs \<Longrightarrow> approvals_step as cs"
  by (auto simp: approvals_step_def)

lemma approval_life_ok: "approval_moves a a' \<Longrightarrow> approval_ok a \<Longrightarrow> approval_ok a'"
  by (auto simp: approval_moves_def approval_ok_def choice_def elim!: approval_lifeE)

lemma list_all_update:
  "list_all Q xs \<Longrightarrow> (\<And>x. x \<in> set xs \<Longrightarrow> P x \<Longrightarrow> Q x \<Longrightarrow> Q (f x)) \<Longrightarrow> list_all Q (update_where P f xs)"
  by (auto simp: update_where_def list_all_iff)

lemma approval_moves_id: "approval_moves a a' \<Longrightarrow> avApprovalId a' = avApprovalId a"
  by (auto simp: approval_moves_def)

lemma approvals_update:
  assumes "\<And>a. a \<in> set as \<Longrightarrow> P a \<Longrightarrow> approval_ok a \<Longrightarrow> approval_moves a (f a)"
  shows "approvals_step as (update_where P f as)"
  unfolding approvals_step_def
proof
  assume inv: "approvals_inv as"
  then have m: "approval_moves a (f a)" if "a \<in> set as" "P a" for a
    using assms that by (auto simp: approvals_inv_def list_all_iff)
  have "map avApprovalId (update_where P f as) = map avApprovalId as"
    using approval_moves_id [OF m] by (auto simp: update_where_def)
  then have "approvals_inv (update_where P f as)"
    using inv list_all_update [of approval_ok as P f] approval_life_ok [OF m] by (simp add: approvals_inv_def)
  then show "(table_moves approval_moves new_approval)\<^sup>*\<^sup>* as (update_where P f as) \<and> approvals_inv (update_where P f as)"
    using approval_rows.table_updated [of as P f] m by blast
qed

lemma approvals_insert: "approvals_step (stApprovals d) (stApprovals (snd (insert_approval (approval_of x) d)))"
proof -
  have new: "new_approval (approval_of x)" by (simp add: new_approval_def approval_of_def choice_def)
  moreover from this have "approval_ok (approval_of x)" by (simp add: new_approval_def approval_ok_def)
  ultimately have "approvals_step as (as @ [approval_of x])" if "avApprovalId (approval_of x) \<notin> avApprovalId ` set as" for as
    using that approval_rows.table_grows [OF new, of as] by (auto simp: approvals_step_def approvals_inv_def)
  note grow = this
  have "approvals_step (stApprovals d) (stApprovals d @ [approval_of x])" if "\<not> list_ex (\<lambda>a. avApprovalId a = avApprovalId (approval_of x) \<or> same_request (approval_of x) a) (stApprovals d)"
    by (rule grow) (use that in \<open>force simp: list_ex_iff\<close>)
  then show ?thesis by (simp add: insert_approval_def)
qed

text \<open>\<open>approving\<close>: the outcome of an operation follows the life cycle of the approvals.\<close>

definition approving :: "store \<Rightarrow> (store_error, 'a, store) outcome \<Rightarrow> bool" where
  "approving d r \<longleftrightarrow> approvals_step (stApprovals d) (stApprovals (snd r))"

lemma approving_pair [simp]: "approving d (r, d') \<longleftrightarrow> approvals_step (stApprovals d) (stApprovals d')"
  by (simp add: approving_def)

lemma approving_same: "same stApprovals d r \<Longrightarrow> approving d r"
  by (simp add: approving_def same_def)

lemma approving_bind:
  assumes "approving d (m d)" and "\<And>x d1. m d = (Inr x, d1) \<Longrightarrow> approving d1 (f x d1)"
  shows "approving d (st_bind m f d)"
proof (cases "m d")
  case (Pair r d1)
  then show ?thesis using assms approvals_step_trans by (cases r) (auto simp: st_bind_def approving_def)
qed

lemma approving_tx: "approving d (m d) \<Longrightarrow> approving d (transaction m d)"
  by (auto simp: transaction_def approving_def split: prod.splits sum.splits)

lemma approving_after: "approvals_step (stApprovals d) (stApprovals d1) \<Longrightarrow> approving d1 r \<Longrightarrow> approving d r"
  using approvals_step_trans by (auto simp: approving_def)

lemma approving_reads [simp]:
  "approving d (st_return r d)" "approving d (getApproval t w a d)" "approving d (getSession sc d)" "approving d (notify_approval t w a d)"
  "approving d (with_audit E ai now d)" "approving d (insertAudit E ai now d)" "approving d (audit_turn E i e now d)"
  by (auto intro!: approving_same same_notify same_with_audit same_insertAudit simp: audit_turn_def Let_def split: event_payload.splits)

lemma approvals_finish:
  assumes "status \<in> {ApResolved, ApExpired, ApSuperseded}" and "\<And>a. P a \<Longrightarrow> avStatus a \<in> {ApPending, ApResolving, ApResolved}"
  shows "approvals_step as (update_where P (ended_approval status upstream now) as)"
proof (rule approvals_update)
  fix a assume "P a"
  then show "approval_moves a (ended_approval status upstream now a)"
    using life_finish [OF assms(2) assms(1)] by (simp add: approval_moves_def ended_approval_def choice_def)
qed

lemma approving_finish: "status \<in> {ApResolved, ApExpired, ApSuperseded} \<Longrightarrow> approving d (finishApproval t w aid status up now d)"
  by (auto simp: finishApproval_def Let_def intro!: approving_after [OF _ approving_reads(4)] approvals_finish)

lemma approving_all: "status \<in> {ApResolved, ApExpired, ApSuperseded} \<Longrightarrow> approving d (finish_all status now as d)"
proof (induction as arbitrary: d)
  case (Cons a as)
  then show ?case unfolding finish_all.simps by (intro approving_bind approving_finish) simp_all
qed simp

lemma approving_audited: "approving d (finishApprovalWithAudit E t w aid up a now d)"
proof -
  have "approving d (with_audit E a now (d\<lparr>stApprovals := update_where (\<lambda>x. approval_key t w aid x \<and> avStatus x = ApResolving)
      (ended_approval ApResolved up now) (stApprovals d)\<rparr>))" for d
    by (rule approving_after [OF _ approving_reads(5)]) (auto intro: approvals_finish)
  then show ?thesis
    unfolding finishApprovalWithAudit_def Let_def by (intro approving_bind approving_tx) simp_all
qed

lemma approving_begin: "approving d (beginApprovalResolution i d)"
proof -
  have "approvals_step as (update_where (\<lambda>x. approval_key t w aid x \<and> avStatus x = ApPending \<and> avVersion x = v)
      (\<lambda>x. x\<lparr>avStatus := ApResolving, avSelectedDecision := Some dec, avResolvingUserId := Some u, avVersion := avVersion x + 1\<rparr>) as)" for as t w aid v dec u
    by (rule approvals_update) (auto simp: approval_moves_def approval_ok_def choice_def intro: life_take)
  then show ?thesis
    unfolding beginApprovalResolution_def by (intro approving_bind approving_tx) simp_all
qed

lemma approving_store_approval: "approving d (store_approval E i e now d)"
proof (cases "inApproval i")
  case (Some x)
  have "approving d (insert_approval (approval_of x) d)" by (simp add: approving_def approvals_insert)
  then show ?thesis using Some by (auto simp: store_approval_def intro: approving_bind)
qed (simp add: store_approval_def)

lemma approving_store: "approving d (store_event E i now d)"
  unfolding store_event_def
proof (intro approving_bind)
  show "approving d (st_bind (store_approval E i e now) (\<lambda>_. st_bind (audit_turn E i e now) (\<lambda>_. st_return (Inr e))) (touch_session sc n now d))" for d e sc n
    by (rule approving_after [where ?d1.0 = "touch_session sc n now d"])
       (auto simp: touch_session_def intro!: approving_bind approving_store_approval)
qed (auto simp: approving_def next_sequence_def number_event_def insert_raw_def insert_event_def Let_def split: option.splits)

lemma approving_ingest: "approving d (ingest E i now d)"
proof -
  have tx: "approving d (transaction (ingest_tx E i now) d)"
    unfolding ingest_tx_def
    by (intro approving_tx approving_bind) (auto intro!: approving_bind approving_store split: option.splits)
  have "approving d1 (case inApproval i of None \<Rightarrow> (Inr (e, False), d1\<lparr>stCommitted := c\<rparr>)
      | Some a \<Rightarrow> st_bind (notify_approval t w (apiApprovalId a)) (\<lambda>_. st_return (Inr (e, False))) (d1\<lparr>stCommitted := c\<rparr>))" for d1 e c t w
    by (rule approving_after [where ?d1.0 = "d1\<lparr>stCommitted := c\<rparr>"]) (auto intro!: approving_bind split: option.splits)
  then show ?thesis unfolding ingest_def Let_def using tx by (auto intro!: approving_bind)
qed

lemma approving_restart: "approvals_step (stApprovals d) (stApprovals (restart now d))"
proof -
  have "approvals_step as (update_where (\<lambda>a. avStatus a = ApResolving) (\<lambda>a. a\<lparr>avStatus := ApExpired, avUpstreamStatus := UpUnknown, avResolvedAt := Some now, avVersion := avVersion a + 1\<rparr>) as)" for as
    by (rule approvals_update) (auto simp: approval_moves_def choice_def intro: life_finish)
  then show ?thesis by (simp add: restart_def)
qed

subsection \<open>The life of an idempotency key\<close>

definition key_identity :: "idempotency_row \<Rightarrow> string \<times> string \<times> string \<times> string" where
  "key_identity k = (idTenantId k, idWorkspaceId k, idScope k, idKey k)"

text \<open>A pending key gets its answer, once.\<close>

definition key_moves :: "idempotency_row \<Rightarrow> idempotency_row \<Rightarrow> bool" where
  "key_moves k k' \<longleftrightarrow> k' = k \<or> key_identity k' = key_identity k \<and> idRequestHash k' = idRequestHash k \<and> idSessionId k' = idSessionId k
     \<and> idStatus k = IdPending \<and> idStatus k' \<noteq> IdPending \<and> idResponse k' \<noteq> None"

definition new_key :: "idempotency_row \<Rightarrow> bool" where
  "new_key k \<longleftrightarrow> idStatus k = IdPending \<and> idResponse k = None"

definition key_ok :: "idempotency_row \<Rightarrow> bool" where
  "key_ok k \<longleftrightarrow> (idStatus k = IdPending) = (idResponse k = None)"

lemma key_moves_ok: "key_moves k k' \<Longrightarrow> key_ok k \<Longrightarrow> key_ok k'"
  by (auto simp: key_moves_def key_ok_def)

definition keys_inv :: "idempotency_row list \<Rightarrow> bool" where
  "keys_inv ks \<longleftrightarrow> distinct (map key_identity ks) \<and> list_all key_ok ks"

interpretation key_rows: row_life key_moves new_key key_identity
  by unfold_locales (auto simp: key_moves_def)

definition keys_step :: "idempotency_row list \<Rightarrow> idempotency_row list \<Rightarrow> bool" where
  "keys_step ks ks' \<longleftrightarrow> (keys_inv ks \<longrightarrow> (table_moves key_moves new_key)\<^sup>*\<^sup>* ks ks' \<and> keys_inv ks')"

lemma keys_step_refl [simp]: "keys_step ks ks"
  by (simp add: keys_step_def)

lemma keys_update:
  assumes "\<And>k. k \<in> set ks \<Longrightarrow> P k \<Longrightarrow> key_moves k (f k)"
  shows "keys_step ks (update_where P f ks)"
  unfolding keys_step_def
proof
  assume "keys_inv ks"
  then have "keys_inv (update_where P f ks)"
    using key_rows.updated_keys [of ks P f, OF assms] list_all_update [of key_ok ks P f] key_moves_ok [OF assms]
    by (simp add: keys_inv_def)
  then show "(table_moves key_moves new_key)\<^sup>*\<^sup>* ks (update_where P f ks) \<and> keys_inv (update_where P f ks)"
    using key_rows.table_updated [of ks P f] assms by blast
qed

lemma same_key_identity: "same_key i k \<longleftrightarrow> key_identity k = (kiTenantId i, kiWorkspaceId i, kiScope i, kiKey i)"
  by (auto simp: same_key_def key_identity_def)

lemma getIdempotencyKey_snd: "snd (getIdempotencyKey i d) = d"
  by (simp add: getIdempotencyKey_def split: option.splits)

lemma snd_bind_return: "snd (st_bind m (\<lambda>k. st_return (f k)) d) = snd (m d)"
  by (auto simp: st_bind_def st_return_def split: prod.splits sum.splits)

lemma keys_append:
  assumes "new_key k" and "key_identity k \<notin> key_identity ` set ks"
  shows "keys_step ks (ks @ [k])"
  using assms key_rows.table_grows [OF assms(1), of ks] by (auto simp: keys_step_def keys_inv_def new_key_def key_ok_def)

lemma keys_reserve: "keys_step (stIdempotency d) (stIdempotency (snd (reserveIdempotencyKey i session hash now d)))"
  by (auto simp: reserveIdempotencyKey_def Let_def snd_bind_return getIdempotencyKey_snd list_ex_iff same_key_identity key_identity_def
      new_key_def image_iff intro!: keys_append)

lemma keys_complete:
  "status \<noteq> IdPending \<Longrightarrow> keys_step (stIdempotency d) (stIdempotency (snd (completeIdempotencyKey i status response now d)))"
  by (auto simp: completeIdempotencyKey_def Let_def snd_bind_return getIdempotencyKey_snd key_moves_def key_identity_def intro!: keys_update)

lemma keys_restart: "keys_step (stIdempotency d) (stIdempotency (restart now d))"
  by (auto simp: restart_def key_moves_def key_identity_def intro!: keys_update)

end
