(* ===== verification/Store_Steps.thy ===== *)
theory Store_Steps
  imports Store_Lives
begin

section \<open>The event store: steps, reachable stores and their properties\<close>

text \<open>
  \<open>store_step\<close> runs one operation of the store, whether it succeeds or fails; a store is reachable when a sequence of
  operations leads to it from the empty one, restarts of the process included.  \<open>store_inv\<close> joins the invariants of the
  log, of the runs, of the approvals and of the idempotency keys; the properties of the store hold of every reachable
  store and of every sequence of operations that follows.
\<close>

subsection \<open>Operations\<close>

inductive run_op :: "store \<Rightarrow> store \<Rightarrow> bool" where
  op_create_run: "run_op d (snd (createDurableRun i now d))"
| op_bind_run: "run_op d (snd (bindDurableRunTurn bi now d))"
| op_interrupt_run: "run_op d (snd (markDurableRunInterrupting sc rid now d))"
| op_recover_run: "run_op d (snd (markDurableRunRecoveryRequired sc rid code detail now d))"
| op_detach_runs: "run_op d (snd (markDetachedCliRunsRecoveryRequired now d))"
| op_finalize_run: "run_op d (snd (finalizeDurableRun fi now d))"

inductive approval_op :: "store_env \<Rightarrow> store \<Rightarrow> store \<Rightarrow> bool" for E where
  op_begin: "approval_op E d (snd (beginApprovalResolution i d))"
| op_finish: "status \<in> {ApResolved, ApExpired, ApSuperseded} \<Longrightarrow> approval_op E d (snd (finishApproval t w aid status up now d))"
| op_finish_audit: "approval_op E d (snd (finishApprovalWithAudit E t w aid up a now d))"
| op_expire: "status \<in> {ApExpired, ApSuperseded} \<Longrightarrow> approval_op E d (snd (expireApprovals sc status now d))"
| op_expire_runtime: "approval_op E d (snd (expireRuntimeApprovals t w runtime generation now d))"

inductive key_op :: "store \<Rightarrow> store \<Rightarrow> bool" where
  op_reserve: "key_op d (snd (reserveIdempotencyKey i session hash now d))"
| op_complete: "status \<noteq> IdPending \<Longrightarrow> key_op d (snd (completeIdempotencyKey i status response now d))"

inductive session_op :: "store_env \<Rightarrow> store \<Rightarrow> store \<Rightarrow> bool" for E where
  op_turn: "session_op E d (snd (createTurn t started now d))"
| op_complete_turn: "session_op E d (snd (completeTurn sc tid outcome now d))"
| op_message: "session_op E d (snd (recordDurableUserMessage sc m k c now d))"
| op_folder: "session_op E d (snd (createConversationFolder tn w f name now d))"
| op_delete_folder: "session_op E d (snd (deleteConversationFolder tn w f now d))"
| op_conversation: "session_op E d (snd (updateConversation sc folder title now d))"
| op_archive: "session_op E d (snd (setSessionArchived sc archived now d))"
| op_delete: "session_op E d (snd (deleteSession sc now d))"
| op_status: "session_op E d (snd (updateSessionStatus sc status now d))"
| op_status_audit: "session_op E d (snd (updateSessionStatusWithAudit E sc status a now d))"
| op_recovery: "session_op E d (snd (updateSessionRecovery sc ri now d))"
| op_recovery_audit: "session_op E d (snd (updateSessionRecoveryWithAudit E sc ri a now d))"
| op_thread: "session_op E d (snd (bindCodexThread sc thread now d))"
| op_rebind: "session_op E d (snd (rebindPristineCodexThreadWithAudit E sc expected thread generation a now d))"
| op_audit: "session_op E d (snd (appendAudit E a now d))"

inductive log_op :: "store_env \<Rightarrow> store \<Rightarrow> store \<Rightarrow> bool" for E where
  op_session: "log_op E d (snd (createSession i now d))"
| op_session_audit: "log_op E d (snd (createSessionWithAudit E i a now d))"
| op_ingest: "log_op E d (snd (ingest E ii now d))"
| op_raw: "log_op E d (snd (ingestRawOnly sc key raw now d))"

inductive usage_op :: "store \<Rightarrow> store \<Rightarrow> bool" where
  op_usage: "usage_op d (snd (appendUsage ui now d))"
| op_outcome: "usage_op d (snd (appendUsageOutcome oi now d))"
| op_reconciliation: "usage_op d (snd (appendUsageReconciliation li now d))"
| op_meter: "usage_op d (snd (appendCommercialUsage sc ce now d))"

inductive catalog_op :: "store_env \<Rightarrow> store \<Rightarrow> store \<Rightarrow> bool" for E where
  op_enqueue_title: "catalog_op E d (snd (enqueueConversationTitleJob E sc now d))"
| op_claim_title: "catalog_op E d (snd (claimConversationTitleJob sc now d))"
| op_complete_title: "catalog_op E d (snd (completeConversationTitleJob sc title now d))"
| op_fail_title: "catalog_op E d (snd (failConversationTitleJob sc code now d))"
| op_artifact: "catalog_op E d (snd (upsertArtifact ar d))"
| op_snapshot: "catalog_op E d (snd (putGitSnapshot gs key d))"
| op_bind_snapshot: "catalog_op E d (snd (bindGitSnapshotTurn sc sid tid d))"
| op_archive_folder: "catalog_op E d (snd (setConversationFolderArchived tn w fo archived now d))"
| op_organization: "catalog_op E d (snd (upsertOrganization org name active now d))"
| op_principal: "catalog_op E d (snd (upsertPrincipalIdentity iss sub active now d))"
| op_member: "catalog_op E d (snd (upsertOrganizationMembership mi now d))"

inductive store_step :: "store_env \<Rightarrow> store \<Rightarrow> store \<Rightarrow> bool" for E where
  step_run: "run_op d d' \<Longrightarrow> store_step E d d'"
| step_approval: "approval_op E d d' \<Longrightarrow> store_step E d d'"
| step_key: "key_op d d' \<Longrightarrow> store_step E d d'"
| step_session: "session_op E d d' \<Longrightarrow> store_step E d d'"
| step_log: "log_op E d d' \<Longrightarrow> store_step E d d'"
| step_usage: "usage_op d d' \<Longrightarrow> store_step E d d'"
| step_catalog: "catalog_op E d d' \<Longrightarrow> store_step E d d'"
| step_restart: "store_step E d (restart now d)"

inductive_cases store_stepE: "store_step E d d'"

lemmas store_ops = run_op.intros approval_op.intros key_op.intros session_op.intros log_op.intros usage_op.intros
  catalog_op.intros

subsection \<open>What an operation changes\<close>

lemmas run_effects = run_frame_ops [unfolded same_def] run_frame_detached [unfolded same_def] run_frame_finalize [unfolded same_def]
  runs_create runs_bind runs_interrupt runs_recovery runs_detached runs_finalize

lemma run_op_effect: "run_op d d' \<Longrightarrow> run_frame d' = run_frame d \<and> runs_step (stRuns d) (stRuns d')"
  by (induction rule: run_op.induct) (simp_all add: run_effects)

lemma approving_expire:
  "status \<in> {ApExpired, ApSuperseded} \<Longrightarrow> approving d (expireApprovals sc status now d)"
  "approving d (expireRuntimeApprovals t w runtime generation now d)"
  unfolding expireApprovals_def expireRuntimeApprovals_def by (auto intro: approving_all)

lemmas approval_effects = approval_frame_ops [unfolded same_def] approval_frame_finish [unfolded same_def]
  approving_begin [unfolded approving_def] approving_finish [unfolded approving_def] approving_audited [unfolded approving_def]
  approving_expire [unfolded approving_def]

lemma approval_op_effect: "approval_op E d d' \<Longrightarrow> approval_frame d' = approval_frame d \<and> approvals_step (stApprovals d) (stApprovals d')"
  by (induction rule: approval_op.induct) (simp_all add: approval_effects)

lemma key_op_effect: "key_op d d' \<Longrightarrow> key_frame d' = key_frame d \<and> keys_step (stIdempotency d) (stIdempotency d')"
  by (induction rule: key_op.induct) (simp_all add: key_frame_ops [unfolded same_def] keys_reserve keys_complete)

lemma session_op_effect: "session_op E d d' \<Longrightarrow> core_view d' = core_view d"
  by (induction rule: session_op.induct)
     (simp_all add: core_turn [unfolded same_def] core_conversation [unfolded same_def] core_sessions [unfolded same_def] core_thread [unfolded same_def])

lemma usage_op_core: "usage_op d d' \<Longrightarrow> core_view d' = core_view d"
  by (induction rule: usage_op.induct) (simp_all add: core_usage [unfolded same_def])

lemma catalog_op_core: "catalog_op E d d' \<Longrightarrow> core_view d' = core_view d"
  by (induction rule: catalog_op.induct)
     (simp_all add: core_jobs [unfolded same_def] core_records [unfolded same_def] core_members [unfolded same_def])

text \<open>The log only grows: by raw rows and by one event.\<close>

definition log_grows :: "store \<Rightarrow> store \<Rightarrow> bool" where
  "log_grows d d' \<longleftrightarrow> (\<exists>raws evs. stRaw d' = stRaw d @ raws \<and> stEvents d' = stEvents d @ evs)"

lemma log_grows_refl [simp]: "log_grows d d"
  by (simp add: log_grows_def)

lemma log_grows_trans: "log_grows d d1 \<Longrightarrow> log_grows d1 d2 \<Longrightarrow> log_grows d d2"
  by (auto simp: log_grows_def)

lemma log_grows_frame: "log_view d' = log_view d \<Longrightarrow> log_grows d d'"
  by (simp add: log_grows_def log_view_def)

lemma ingest_grows: "log_grows d (snd (ingest E i now d))"
proof (cases rule: ingest_outcome [of E i now d])
  case (stored e d1)
  from stored(1) show ?thesis
    by (rule store_event_effect) (use stored(5) in \<open>auto simp: log_grows_def log_view_def\<close>)
qed (rule log_grows_frame)

lemma raw_grows: "log_grows d (snd (ingestRawOnly sc key r now d))"
  by (auto simp: ingestRawOnly_def st_bind_def log_grows_def dest!: getSession_snd split: prod.splits sum.splits)

text \<open>Creating a session leaves everything else alone.\<close>

definition session_frame :: "store \<Rightarrow> _" where
  "session_frame d = (stSequences d, stRaw d, stRawNext d, stEvents d, stCommitted d, stRuns d, stApprovals d, stIdempotency d)"

lemma session_frame_insert [simp]: "same session_frame d (insert_session s d)"
  by (auto simp: insert_session_def session_frame_def)

lemma session_frame_audit [simp]: "same session_frame d (with_audit E a now d)"
  by (rule same_with_audit) (simp_all add: session_frame_def)

lemma session_frame_create:
  "same session_frame d (createSession i now d)" "same session_frame d (createSessionWithAudit E i a now d)"
  by (auto simp: createSession_def createSessionWithAudit_def intro!: same_bind same_tx)

text \<open>\<open>logging\<close>: the outcome of an operation keeps the invariant of the log.\<close>

definition logging :: "store \<Rightarrow> (store_error, 'a, store) outcome \<Rightarrow> bool" where
  "logging d r \<longleftrightarrow> (log_inv d \<longrightarrow> log_inv (snd r))"

lemma logging_bind:
  assumes "logging d (m d)" and "\<And>x d1. m d = (Inr x, d1) \<Longrightarrow> logging d1 (f x d1)"
  shows "logging d (st_bind m f d)"
proof (cases "m d")
  case (Pair r d1)
  then show ?thesis using assms by (cases r) (auto simp: st_bind_def logging_def)
qed

lemma logging_tx: "logging d (m d) \<Longrightarrow> logging d (transaction m d)"
  by (auto simp: transaction_def logging_def split: prod.splits sum.splits)

lemma logging_same: "same log_view d r \<Longrightarrow> logging d r"
  unfolding logging_def same_def using log_inv_frame by blast

lemma logging_session: "logging d (insert_session (session_of i now) d)"
  using log_inv_session [of d "session_of i now"] by (cases "insert_session (session_of i now) d") (simp add: logging_def session_of_def)

lemma logging_audit: "logging d (with_audit E a now d)"
  by (rule logging_same) (auto intro: same_with_audit simp: log_view_def)

lemma logging_create: "logging d (createSession i now d)" "logging d (createSessionWithAudit E i a now d)"
  unfolding createSession_def createSessionWithAudit_def
  by (auto simp: logging_same intro!: logging_bind logging_tx logging_session logging_audit)

lemma log_op_effect:
  assumes "log_op E d d'"
  shows "(log_inv d \<longrightarrow> log_inv d') \<and> log_grows d d' \<and> ingest_frame d' = ingest_frame d \<and> approvals_step (stApprovals d) (stApprovals d')"
  using assms
proof (induction rule: log_op.induct)
  case (op_session d i now)
  have "session_frame (snd (createSession i now d)) = session_frame d" using session_frame_create(1) by (simp add: same_def)
  then show ?case using logging_create(1) [of d i now] by (simp add: logging_def session_frame_def ingest_frame_def log_grows_def)
next
  case (op_session_audit d i a now)
  have "session_frame (snd (createSessionWithAudit E i a now d)) = session_frame d" using session_frame_create(2) by (simp add: same_def)
  then show ?case using logging_create(2) [of d E i a now] by (simp add: logging_def session_frame_def ingest_frame_def log_grows_def)
next
  case (op_ingest d ii now)
  then show ?case using log_inv_ingest ingest_grows ingest_frame_ops(1) approving_ingest by (auto simp: same_def approving_def)
next
  case (op_raw d sc key raw now)
  have "same stApprovals d (ingestRawOnly sc key raw now d)"
    by (auto simp: ingestRawOnly_def intro!: same_bind)
  then show ?case using log_inv_raw raw_grows ingest_frame_ops(2) by (auto simp: same_def)
qed

subsection \<open>Reachable stores\<close>

definition store_inv :: "store \<Rightarrow> bool" where
  "store_inv d \<longleftrightarrow> log_inv d \<and> runs_inv (stRuns d) \<and> approvals_inv (stApprovals d) \<and> keys_inv (stIdempotency d)"

definition store_moves :: "store \<Rightarrow> store \<Rightarrow> bool" where
  "store_moves d d' \<longleftrightarrow> log_grows d d' \<and> (runs_move)\<^sup>*\<^sup>* (stRuns d) (stRuns d')
     \<and> (table_moves approval_moves new_approval)\<^sup>*\<^sup>* (stApprovals d) (stApprovals d')
     \<and> (table_moves key_moves new_key)\<^sup>*\<^sup>* (stIdempotency d) (stIdempotency d')"

lemma store_moves_refl [simp]: "store_moves d d"
  by (simp add: store_moves_def)

lemma store_moves_trans: "store_moves d d1 \<Longrightarrow> store_moves d1 d2 \<Longrightarrow> store_moves d d2"
  unfolding store_moves_def by (meson log_grows_trans rtranclp_trans)

lemma restart_log: "log_view (restart now d) = log_view d"
  by (simp add: restart_def log_view_def)

lemma log_kept: "log_view d' = log_view d \<Longrightarrow> store_inv d \<Longrightarrow> log_inv d' \<and> log_grows d d'"
  unfolding store_inv_def using log_inv_frame log_grows_frame by blast

lemma core_kept: "core_view d' = core_view d \<Longrightarrow> store_inv d \<Longrightarrow> store_inv d' \<and> store_moves d d'"
  using log_kept by (auto simp: core_view_def store_inv_def store_moves_def)

lemma store_step_effect:
  assumes "store_step E d d'" and inv: "store_inv d"
  shows "store_inv d' \<and> store_moves d d'"
  using assms(1)
proof (cases rule: store_step.cases)
  case step_run
  then have "log_view d' = log_view d" "stApprovals d' = stApprovals d" "stIdempotency d' = stIdempotency d" "runs_step (stRuns d) (stRuns d')"
    using run_op_effect [of d d'] by (auto simp: run_frame_def)
  then show ?thesis using inv log_kept [OF _ inv] by (auto simp: store_inv_def store_moves_def runs_step_def)
next
  case step_approval
  then have "log_view d' = log_view d" "stRuns d' = stRuns d" "stIdempotency d' = stIdempotency d" "approvals_step (stApprovals d) (stApprovals d')"
    using approval_op_effect [of E d d'] by (auto simp: approval_frame_def)
  then show ?thesis using inv log_kept [OF _ inv] by (auto simp: store_inv_def store_moves_def approvals_step_def)
next
  case step_key
  then have "log_view d' = log_view d" "stRuns d' = stRuns d" "stApprovals d' = stApprovals d" "keys_step (stIdempotency d) (stIdempotency d')"
    using key_op_effect [of d d'] by (auto simp: key_frame_def)
  then show ?thesis using inv log_kept [OF _ inv] by (auto simp: store_inv_def store_moves_def keys_step_def)
next
  case step_session
  then show ?thesis using inv core_kept session_op_effect by blast
next
  case step_usage
  then show ?thesis using inv core_kept usage_op_core by blast
next
  case step_catalog
  then show ?thesis using inv core_kept catalog_op_core by blast
next
  case step_log
  then show ?thesis using log_op_effect [of E d d'] inv by (auto simp: store_inv_def store_moves_def ingest_frame_def approvals_step_def)
next
  case (step_restart now)
  then show ?thesis
    using inv log_inv_frame [OF restart_log [of now d]] log_grows_frame [OF restart_log [of now d]] runs_restart [of d now] approving_restart [of d now] keys_restart [of d now]
    by (auto simp: store_inv_def store_moves_def runs_step_def approvals_step_def keys_step_def)
qed

lemma store_inv_empty: "store_inv empty_store"
  by (simp add: store_inv_def log_inv_empty) (simp add: empty_store_def runs_inv_def runs_allowed_def approvals_inv_def keys_inv_def)

interpretation event_store: transition_system "\<lambda>d. d = empty_store" "store_step E" store_inv
  by unfold_locales (use store_inv_empty store_step_effect in blast)+

text \<open>A reachable store, and what the operations after it may do.\<close>

definition reachable_store :: "store_env \<Rightarrow> store \<Rightarrow> bool" where
  "reachable_store E d \<longleftrightarrow> reaches (store_step E) empty_store d"

lemma reachable_store_inv: "reachable_store E d \<Longrightarrow> store_inv d"
  unfolding reachable_store_def using event_store.reachable_inv by blast

lemma store_reaches_inv: "reaches (store_step E) d d' \<Longrightarrow> store_inv d \<Longrightarrow> store_inv d'"
  by (rule event_store.reaches_inv)

lemma store_reaches_moves:
  assumes "reaches (store_step E) d d'" and "store_inv d"
  shows "store_moves d d'"
  using event_store.reaches_preserves [OF assms, of "store_moves d"] store_step_effect store_moves_trans store_moves_refl by blast

end
