(* ===== verification/Realtime.thy ===== *)
theory Realtime
  imports Store_Steps Authorization "HOL-Library.Sublist"
begin

section \<open>The realtime connection\<close>

text \<open>
  \<open>services/control-plane/src/server.ts\<close>, the route \<open>/v1/realtime\<close>: a client subscribes to the events of a session after
  a cursor; the stored events are replayed in pages, events that are committed meanwhile are buffered, and from then on
  every committed event is sent as it comes.  \<open>BoundedRealtimeSender\<close> is the queue between the connection and the socket.

  The byte length of a serialised event or message is an argument (\<open>bytes\<close>), as are the answers of the authentication
  adapter and of the shared folders, and the readings of \<open>socket.bufferedAmount\<close>.  \<open>cnOut\<close> is what the connection hands to
  \<open>send\<close>, in that order.
\<close>

subsection \<open>Messages and state\<close>

datatype resync_reason = SlowConsumer | QueueOverflow

datatype server_message =
    ReplayMessage store_scope int "timeline_event list"
  | SubscribedMessage store_scope int
  | EventMessage store_scope timeline_event
  | AckMessage store_scope int
  | ErrorMessage string string
  | ApprovalMessage store_scope approval_row
  | ResyncMessage store_scope resync_reason int int int

record subscription =
  sbScope :: store_scope
  sbReplaying :: bool
  sbHighWater :: int
  sbLastSent :: int
  sbAck :: int
  sbBuffer :: "timeline_event list"
  sbBufferBytes :: int
  sbDropped :: int

record connection_auth =
  caPrincipal :: auth_principal
  caMemberships :: "org_membership list"
  caExpiresAt :: instant

record outbound_cursor =
  ocScope :: store_scope
  ocAfter :: int
  ocHighWater :: int

record connection =
  cnSubscription :: "subscription option"
  cnAuth :: "connection_auth option"
  cnCursor :: "outbound_cursor option"
  cnPending :: "timeline_event list"
  cnOut :: "server_message list"
  cnClosed :: "(int \<times> string) option"

definition new_connection :: connection where
  "new_connection = \<lparr>cnSubscription = None, cnAuth = None, cnCursor = None, cnPending = [], cnOut = [], cnClosed = None\<rparr>"

definition REALTIME_MAX_QUEUE_EVENTS :: nat where
  "REALTIME_MAX_QUEUE_EVENTS = 256"

definition REALTIME_MAX_QUEUE_BYTES :: int where
  "REALTIME_MAX_QUEUE_BYTES = 1024 * 1024"

definition startsWith :: "string \<Rightarrow> string \<Rightarrow> bool" where
  "startsWith s t \<longleftrightarrow> take (length t) s = t"

definition endsWith :: "string \<Rightarrow> string \<Rightarrow> bool" where
  "endsWith s t \<longleftrightarrow> startsWith (rev s) (rev t)"

definition isAuthoritative :: "timeline_event \<Rightarrow> bool" where
  "isAuthoritative e \<longleftrightarrow> endsWith (event_type (tePayload e)) ''.completed''
     \<or> startsWith (event_type (tePayload e)) ''approval.'' \<or> event_type (tePayload e) = ''error.reported''"

definition send :: "server_message \<Rightarrow> connection \<Rightarrow> connection" where
  "send m c = c\<lparr>cnOut := cnOut c @ [m]\<rparr>"

definition sendError :: "string \<Rightarrow> string \<Rightarrow> connection \<Rightarrow> connection" where
  "sendError code text = send (ErrorMessage code text)"

definition close_socket :: "int \<Rightarrow> string \<Rightarrow> connection \<Rightarrow> connection" where
  "close_socket code reason c = c\<lparr>cnClosed := Some (code, reason)\<rparr>"

text \<open>A session that is not found is answered; any other failure is caught by the handler.\<close>

definition store_failure :: "store_error \<Rightarrow> connection \<Rightarrow> connection" where
  "store_failure err =
    (if err = SESSION_NOT_FOUND then sendError ''SESSION_NOT_FOUND'' ''Session not found in the requested scope''
     else sendError ''INTERNAL_ERROR'' ''Subscription could not be established'')"

subsection \<open>Committed events\<close>

definition output_delta :: "timeline_event \<Rightarrow> bool" where
  "output_delta e \<longleftrightarrow> event_type (tePayload e) = ''command.output.delta''"

fun remove_first :: "('a \<Rightarrow> bool) \<Rightarrow> 'a list \<Rightarrow> 'a list" where
  "remove_first P [] = []"
| "remove_first P (x # xs) = (if P x then xs else x # remove_first P xs)"

definition push_buffer :: "(timeline_event \<Rightarrow> int) \<Rightarrow> timeline_event \<Rightarrow> subscription \<Rightarrow> subscription" where
  "push_buffer bytes e s = s\<lparr>sbBuffer := sbBuffer s @ [e], sbBufferBytes := sbBufferBytes s + bytes e\<rparr>"

definition buffer_event :: "(timeline_event \<Rightarrow> int) \<Rightarrow> store \<Rightarrow> timeline_event \<Rightarrow> subscription \<Rightarrow> connection \<Rightarrow> connection" where
  "buffer_event bytes d e s c =
    (if REALTIME_MAX_QUEUE_EVENTS \<le> length (sbBuffer s) \<or> REALTIME_MAX_QUEUE_BYTES < sbBufferBytes s + bytes e then
       (case find output_delta (sbBuffer s) of
          Some removed \<Rightarrow>
            c\<lparr>cnSubscription := Some (push_buffer bytes e (s\<lparr>sbBuffer := remove_first output_delta (sbBuffer s),
                sbBufferBytes := sbBufferBytes s - bytes removed, sbDropped := sbDropped s + 1\<rparr>))\<rparr>
        | None \<Rightarrow>
            if \<not> isAuthoritative e then c\<lparr>cnSubscription := Some (s\<lparr>sbDropped := sbDropped s + 1\<rparr>)\<rparr>
            else (case fst (getSession (sbScope s) d) of
                Inl err \<Rightarrow> c
              | Inr ses \<Rightarrow>
                  (send (ResyncMessage (sbScope s) QueueOverflow (sbAck s) (seLastSequence ses) (sbDropped s)) c)
                    \<lparr>cnSubscription := Some (s\<lparr>sbBuffer := [], sbBufferBytes := 0\<rparr>)\<rparr>))
     else c\<lparr>cnSubscription := Some (push_buffer bytes e s)\<rparr>)"

definition deliver :: "(timeline_event \<Rightarrow> int) \<Rightarrow> store \<Rightarrow> timeline_event \<Rightarrow> connection \<Rightarrow> connection" where
  "deliver bytes d e c =
    (case cnSubscription c of
       None \<Rightarrow> c
     | Some s \<Rightarrow>
         if teSequence e \<le> sbHighWater s then c
         else if sbReplaying s then buffer_event bytes d e s c
         else if teSequence e \<le> sbLastSent s then c
         else (send (EventMessage (sbScope s) e) c)\<lparr>cnSubscription := Some (s\<lparr>sbLastSent := teSequence e\<rparr>)\<rparr>)"

definition shared_folder :: "session_row \<Rightarrow> bool" where
  "shared_folder ses \<longleftrightarrow> (case seFolderId ses of None \<Rightarrow> False | Some f \<Rightarrow> startsWith f ''fld_'')"

text \<open>The listener: an event of a session in a shared folder waits for the answer of the shared folders.\<close>

definition on_committed :: "(timeline_event \<Rightarrow> int) \<Rightarrow> store \<Rightarrow> timeline_event \<Rightarrow> connection \<Rightarrow> connection" where
  "on_committed bytes d e c =
    (case cnSubscription c of
       None \<Rightarrow> c
     | Some s \<Rightarrow>
         if sbScope s \<noteq> event_scope e then c
         else (case fst (getSession (sbScope s) d) of
             Inl err \<Rightarrow> c
           | Inr ses \<Rightarrow> if \<not> shared_folder ses then deliver bytes d e c else c\<lparr>cnPending := cnPending c @ [e]\<rparr>))"

definition folder_answer :: "(timeline_event \<Rightarrow> int) \<Rightarrow> store \<Rightarrow> nat \<Rightarrow> bool \<Rightarrow> connection \<Rightarrow> connection" where
  "folder_answer bytes d i allowed c =
    (if length (cnPending c) \<le> i then c
     else
       (let e = cnPending c ! i; c1 = c\<lparr>cnPending := take i (cnPending c) @ drop (Suc i) (cnPending c)\<rparr>
        in if allowed then deliver bytes d e c1
           else close_socket 4403 ''access revoked'' (sendError ''ACCESS_REVOKED'' ''Folder access was revoked'' c1)))"

definition on_approval :: "approval_row \<Rightarrow> connection \<Rightarrow> connection" where
  "on_approval a c =
    (case cnSubscription c of
       None \<Rightarrow> c
     | Some s \<Rightarrow> if sbScope s \<noteq> avScope a then c else send (ApprovalMessage (sbScope s) a) c)"

subsection \<open>Subscribing\<close>

record subscribe_message =
  smScope :: store_scope
  smAfter :: int

record request_context =
  rqId :: string
  rqCorrelationId :: "string option"
  rqRequestId :: "string option"
  rqTraceId :: "string option"

datatype authentication = NoAuthentication | Rejected | Authenticated auth_principal

definition realtime_resource :: "store_scope \<Rightarrow> auth_resource" where
  "realtime_resource sc =
    \<lparr>rsOrganizationId = ssTenantId sc, rsWorkspaceId = Some (ssWorkspaceId sc), rsSessionId = Some (ssSessionId sc),
     rsResourceType = ''realtime'', rsResourceId = Some (ssSessionId sc)\<rparr>"

definition reason_text :: "reason_code \<Rightarrow> string" where
  "reason_text r =
    (case r of ROLE_ALLOWED \<Rightarrow> ''ROLE_ALLOWED'' | ROLE_DENIED \<Rightarrow> ''ROLE_DENIED'' | UNKNOWN_ACTION \<Rightarrow> ''UNKNOWN_ACTION''
     | RESOURCE_SCOPE_MISSING \<Rightarrow> ''RESOURCE_SCOPE_MISSING'' | PRINCIPAL_KIND_MISMATCH \<Rightarrow> ''PRINCIPAL_KIND_MISMATCH''
     | MEMBERSHIP_INACTIVE \<Rightarrow> ''MEMBERSHIP_INACTIVE'' | WORKSPACE_MEMBERSHIP_MISSING \<Rightarrow> ''WORKSPACE_MEMBERSHIP_MISSING'')"

definition subscribe_audit :: "(auth_principal \<Rightarrow> string) \<Rightarrow> request_context \<Rightarrow> store_scope \<Rightarrow> auth_principal \<Rightarrow> auth_decision \<Rightarrow> audit_input" where
  "subscribe_audit opaque rq sc p z =
    \<lparr>aiTenantId = ssTenantId sc, aiWorkspaceId = ssWorkspaceId sc, aiSessionId = None, aiActor = UserActor,
     aiActorPrincipalId = Some (opaque p), aiAction = ''authorization.decided'', aiOutcome = (if allow z then AuSuccess else AuFailure),
     aiIdempotencyKey = ''authz:ws:'' @ rqId rq @ '':'' @ ssSessionId sc, aiCorrelationId = rqCorrelationId rq, aiRequestId = rqRequestId rq,
     aiTraceId = rqTraceId rq,
     aiMetadata = [(''operation'', JStr ''event.subscribe''), (''reasonCode'', JStr (reason_text (reasonCode z))),
       (''status'', JStr (if allow z then ''allow'' else ''deny''))],
     aiOccurredAt = None\<rparr>"

definition resolved_memberships :: "org_membership list \<Rightarrow> auth_principal \<Rightarrow> org_membership list" where
  "resolved_memberships directory p =
    (if apMemberships p \<noteq> [] then apMemberships p else membershipsFor directory (apSubject p) (apIssuer p))"

text \<open>
  Up to the cursor: \<open>None\<close> when the subscription is refused, with what was sent.  \<open>folder_read\<close> is the answer of the
  shared folders for the session's folder.
\<close>

definition subscribe_admit :: "store_env \<Rightarrow> (auth_principal \<Rightarrow> string) \<Rightarrow> org_membership list \<Rightarrow> (string \<Rightarrow> bool) \<Rightarrow> request_context \<Rightarrow>
    subscribe_message \<Rightarrow> authentication \<Rightarrow> instant \<Rightarrow> store \<times> connection \<Rightarrow> bool \<times> store \<times> connection" where
  "subscribe_admit E opaque directory folder_read rq m auth now = (\<lambda>(d, c).
    if cnSubscription c \<noteq> None then
      (False, d, sendError ''ALREADY_SUBSCRIBED'' ''Connection already has a subscription'' c)
    else case auth of
      NoAuthentication \<Rightarrow> (False, d, close_socket 4403 ''authentication unavailable'' (sendError ''AUTH_CONFIGURATION_REQUIRED'' ''Access is denied'' c))
    | Rejected \<Rightarrow> (False, d, close_socket 4401 ''authentication required'' (sendError ''AUTH_REQUIRED'' ''Authentication is required'' c))
    | Authenticated p \<Rightarrow>
        (let ms = resolved_memberships directory p;
             z = authorize p ''event.subscribe'' (Some (realtime_resource (smScope m))) ms
         in case appendAudit E (subscribe_audit opaque rq (smScope m) p z) now d of
              (Inl err, d1) \<Rightarrow> (False, d1, sendError ''INTERNAL_ERROR'' ''Subscription could not be established'' c)
            | (Inr row, d1) \<Rightarrow>
                if \<not> allow z then (False, d1, close_socket 4403 ''access denied'' (sendError ''ACCESS_DENIED'' ''Access is denied'' c))
                else
                  (let c1 = c\<lparr>cnAuth := Some \<lparr>caPrincipal = p, caMemberships = ms, caExpiresAt = apExpiresAt p\<rparr>\<rparr>
                   in if apExpiresAt p - now \<le> 0
                        then (False, d1, close_socket 4401 ''token expired'' (sendError ''TOKEN_EXPIRED'' ''Authentication expired'' c1))
                      else case fst (getSession (smScope m) d1) of
                        Inl err \<Rightarrow> (False, d1, store_failure err c1)
                      | Inr ses \<Rightarrow>
                          if shared_folder ses \<and> \<not> folder_read (the (seFolderId ses))
                          then (False, d1, close_socket 4403 ''access denied'' (sendError ''ACCESS_DENIED'' ''Access is denied'' c1))
                          else (True, d1, c1))))"

definition send_page :: "store_scope \<Rightarrow> int \<Rightarrow> replay_page \<Rightarrow> connection \<Rightarrow> connection" where
  "send_page sc high p c =
    (let c1 = send (ReplayMessage sc high (rpEvents p)) c
     in c1\<lparr>cnSubscription := map_option (\<lambda>s. s\<lparr>sbLastSent := rpNextAfter p\<rparr>) (cnSubscription c1)\<rparr>)"

partial_function (option) replay_loop :: "store \<Rightarrow> store_scope \<Rightarrow> int \<Rightarrow> int \<Rightarrow> connection \<Rightarrow> (store_error option \<times> connection) option" where
  "replay_loop d sc high cursor c =
    (case replaySessionEvents sc cursor 500 (Some high) d of
       Inl err \<Rightarrow> Some (Some err, c)
     | Inr p \<Rightarrow>
         if rpHasMore p then replay_loop d sc high (rpNextAfter p) (send_page sc high p c)
         else Some (None, send_page sc high p c))"

definition start_subscription :: "store_scope \<Rightarrow> int \<Rightarrow> int \<Rightarrow> connection \<Rightarrow> connection" where
  "start_subscription sc after high c =
    c\<lparr>cnSubscription := Some \<lparr>sbScope = sc, sbReplaying = True, sbHighWater = high, sbLastSent = after, sbAck = after,
        sbBuffer = [], sbBufferBytes = 0, sbDropped = 0\<rparr>,
      cnCursor := Some \<lparr>ocScope = sc, ocAfter = after, ocHighWater = high\<rparr>\<rparr>"

text \<open>
  From the high-water mark to the end of the replay, without interruption; the flag says that the subscription goes on
  to its last part.
\<close>

definition subscribe_replay :: "subscribe_message \<Rightarrow> store \<Rightarrow> connection \<Rightarrow> (bool \<times> connection) option" where
  "subscribe_replay m d c =
    (case fst (getSession (smScope m) d) of
       Inl err \<Rightarrow> Some (False, store_failure err c)
     | Inr ses \<Rightarrow>
         if seLastSequence ses < smAfter m
         then Some (False, sendError ''INVALID_CURSOR'' ''afterSequence cannot be greater than the session high-water mark'' c)
         else map_option (\<lambda>(err, c1). case err of
                  Some x \<Rightarrow> (False, sendError ''INTERNAL_ERROR'' ''Subscription could not be established'' c1)
                | None \<Rightarrow> (True, c1))
              (replay_loop d (smScope m) (seLastSequence ses) (smAfter m)
                (start_subscription (smScope m) (smAfter m) (seLastSequence ses) c)))"

fun drain :: "store_scope \<Rightarrow> int list \<Rightarrow> timeline_event list \<Rightarrow> connection \<Rightarrow> connection" where
  "drain sc delivered [] c = c"
| "drain sc delivered (e # es) c =
    (case cnSubscription c of
       None \<Rightarrow> c
     | Some s \<Rightarrow>
         if teSequence e \<in> set delivered \<or> teSequence e \<le> sbLastSent s then drain sc delivered es c
         else drain sc (teSequence e # delivered) es
                ((send (EventMessage sc e) c)\<lparr>cnSubscription := Some (s\<lparr>sbLastSent := teSequence e\<rparr>)\<rparr>))"

definition subscribe_finish :: "store_scope \<Rightarrow> int \<Rightarrow> connection \<Rightarrow> connection" where
  "subscribe_finish sc high c =
    (case cnSubscription c of
       None \<Rightarrow> c
     | Some s \<Rightarrow>
         drain sc [] (sort_key teSequence (filter (\<lambda>e. high < teSequence e) (sbBuffer s)))
           ((send (SubscribedMessage sc high) c)\<lparr>cnSubscription := Some (s\<lparr>sbReplaying := False, sbBuffer := [], sbBufferBytes := 0\<rparr>)\<rparr>))"

subsection \<open>Acknowledgements\<close>

definition acknowledge :: "org_membership list \<Rightarrow> store_scope \<Rightarrow> int \<Rightarrow> instant \<Rightarrow> store \<Rightarrow> connection \<Rightarrow> connection" where
  "acknowledge directory sc sequence now d c =
    (case cnSubscription c of
       None \<Rightarrow> sendError ''NOT_SUBSCRIBED'' ''Subscribe before acknowledging events'' c
     | Some s \<Rightarrow>
         if (case cnAuth c of None \<Rightarrow> True | Some a \<Rightarrow> caExpiresAt a \<le> now)
         then close_socket 4401 ''token expired'' (sendError ''TOKEN_EXPIRED'' ''Authentication expired'' c)
         else
           (let a = the (cnAuth c); p = caPrincipal a;
                ms = (if apMemberships p \<noteq> [] then caMemberships a else membershipsFor directory (apSubject p) (apIssuer p))
            in if \<not> allow (authorize p ''event.subscribe'' (Some (realtime_resource (sbScope s))) ms)
                 then close_socket 4403 ''access revoked'' (sendError ''ACCESS_REVOKED'' ''Access is denied'' c)
               else if sbScope s \<noteq> sc then sendError ''ACK_SCOPE_MISMATCH'' ''Ack scope does not match the subscription'' c
               else if sequence < sbAck s then sendError ''ACK_REGRESSION'' ''Ack sequence cannot move backwards'' c
               else if sbLastSent s < sequence then sendError ''ACK_AHEAD'' ''Ack sequence cannot exceed the last delivered sequence'' c
               else case fst (getSession (sbScope s) d) of
                   Inl err \<Rightarrow> c\<lparr>cnSubscription := Some (s\<lparr>sbAck := sequence\<rparr>)\<rparr>
                 | Inr ses \<Rightarrow>
                     send (AckMessage sc sequence)
                       (c\<lparr>cnSubscription := Some (s\<lparr>sbAck := sequence\<rparr>),
                          cnCursor := Some \<lparr>ocScope = sbScope s, ocAfter = sequence, ocHighWater = seLastSequence ses\<rparr>\<rparr>)))"

subsection \<open>The sender\<close>

record sender_limits =
  slEvents :: nat
  slBytes :: int

record realtime_sender =
  rsQueue :: "(server_message \<times> bool) list"
  rsBytes :: int
  rsScheduled :: bool
  rsResyncQueued :: bool
  rsCursor :: "outbound_cursor option"
  rsSent :: "server_message list"

definition new_sender :: realtime_sender where
  "new_sender = \<lparr>rsQueue = [], rsBytes = 0, rsScheduled = False, rsResyncQueued = False, rsCursor = None, rsSent = []\<rparr>"

definition updateCursor :: "outbound_cursor \<Rightarrow> realtime_sender \<Rightarrow> realtime_sender" where
  "updateCursor v s = s\<lparr>rsCursor := Some v\<rparr>"

text \<open>\<open>amount k\<close> is \<open>socket.bufferedAmount\<close> after \<open>k\<close> messages of this flush.\<close>

fun flush_queue :: "(server_message \<Rightarrow> int) \<Rightarrow> sender_limits \<Rightarrow> (nat \<Rightarrow> int) \<Rightarrow> nat \<Rightarrow> (server_message \<times> bool) list \<Rightarrow> realtime_sender \<Rightarrow> realtime_sender" where
  "flush_queue bytes lim amount k [] s = s\<lparr>rsQueue := []\<rparr>"
| "flush_queue bytes lim amount k ((m, a) # q) s =
    (if amount k < slBytes lim then
       (let s1 = s\<lparr>rsQueue := q, rsBytes := rsBytes s - bytes m, rsSent := rsSent s @ [m]\<rparr>
        in if rsResyncQueued s then s1\<lparr>rsResyncQueued := False\<rparr> else flush_queue bytes lim amount (Suc k) q s1)
     else s\<lparr>rsQueue := (m, a) # q\<rparr>)"

definition flush :: "(server_message \<Rightarrow> int) \<Rightarrow> sender_limits \<Rightarrow> (nat \<Rightarrow> int) \<Rightarrow> realtime_sender \<Rightarrow> realtime_sender" where
  "flush bytes lim amount s =
    (if slBytes lim < amount 0 then s\<lparr>rsScheduled := True\<rparr> else flush_queue bytes lim amount 0 (rsQueue s) s)"

definition flush_timer :: "(server_message \<Rightarrow> int) \<Rightarrow> sender_limits \<Rightarrow> (nat \<Rightarrow> int) \<Rightarrow> realtime_sender \<Rightarrow> realtime_sender" where
  "flush_timer bytes lim amount s = (if rsScheduled s then flush bytes lim amount (s\<lparr>rsScheduled := False\<rparr>) else s)"

definition queueResync :: "(server_message \<Rightarrow> int) \<Rightarrow> sender_limits \<Rightarrow> (nat \<Rightarrow> int) \<Rightarrow> resync_reason \<Rightarrow> realtime_sender \<Rightarrow> realtime_sender" where
  "queueResync bytes lim amount reason s =
    (if rsResyncQueued s then s
     else case rsCursor s of
       None \<Rightarrow> s
     | Some v \<Rightarrow>
         (let m = ResyncMessage (ocScope v) reason (ocAfter v) (ocHighWater v) 1
          in flush bytes lim amount (s\<lparr>rsQueue := [(m, True)], rsBytes := bytes m, rsResyncQueued := True\<rparr>)))"

definition authoritative_message :: "server_message \<Rightarrow> bool" where
  "authoritative_message m \<longleftrightarrow> (case m of EventMessage sc e \<Rightarrow> isAuthoritative e | _ \<Rightarrow> True)"

definition push_message :: "(server_message \<Rightarrow> int) \<Rightarrow> sender_limits \<Rightarrow> (nat \<Rightarrow> int) \<Rightarrow> server_message \<Rightarrow> realtime_sender \<Rightarrow> realtime_sender" where
  "push_message bytes lim amount m s =
    flush bytes lim amount (s\<lparr>rsQueue := rsQueue s @ [(m, authoritative_message m)], rsBytes := rsBytes s + bytes m\<rparr>)"

definition enqueue :: "(server_message \<Rightarrow> int) \<Rightarrow> sender_limits \<Rightarrow> (nat \<Rightarrow> int) \<Rightarrow> server_message \<Rightarrow> realtime_sender \<Rightarrow> realtime_sender" where
  "enqueue bytes lim amount m s =
    (if slEvents lim \<le> length (rsQueue s) \<or> slBytes lim < rsBytes s + bytes m then
       if \<not> authoritative_message m then queueResync bytes lim amount QueueOverflow s
       else case find (\<lambda>v. \<not> snd v) (rsQueue s) of
           None \<Rightarrow> queueResync bytes lim amount SlowConsumer s
         | Some removed \<Rightarrow>
             push_message bytes lim amount m
               (s\<lparr>rsQueue := remove_first (\<lambda>v. \<not> snd v) (rsQueue s), rsBytes := rsBytes s - bytes (fst removed)\<rparr>)
     else push_message bytes lim amount m s)"

end
