(* ===== verification/Realtime_Inv.thy ===== *)
theory Realtime_Inv
  imports Realtime
begin

section \<open>The realtime connection: replay, delivery and the sender\<close>

text \<open>
  The replay loop returns and its pages are the events that are due; what a subscribed connection has been given is part
  of the events after its cursor, in order, and complete unless something was dropped or a resync was sent (\<open>stream_ok\<close>,
  an invariant of \<open>rt_step\<close>); the sender passes on every authoritative message unless it queues a resync (\<open>faithful\<close>,
  an invariant of \<open>sender_run\<close>).
\<close>

subsection \<open>The events of a session in order\<close>

lemma stored_in_workspace: "stored_events sc evs = filter (\<lambda>e. event_scope e = sc) (workspace_events (ssWorkspaceId sc) evs)"
  by (induction evs) (auto simp: stored_events_def workspace_events_def in_session_def in_workspace_def event_scope_def)

lemma workspace_ascending: "log_inv d \<Longrightarrow> sorted_wrt (<) (map teSequence (workspace_events w (stEvents d)))"
proof (cases "w \<in> sqWorkspaceId ` set (stSequences d)")
  case True
  assume inv: "log_inv d"
  from True obtain q where "q \<in> set (stSequences d)" "sqWorkspaceId q = w" by auto
  then show ?thesis using log_invD(3) [OF inv] by (auto simp: sequence_ok_def)
next
  case False
  assume inv: "log_inv d"
  then have "workspace_events w (stEvents d) = []"
    unfolding workspace_events_def map_is_Nil_conv filter_empty_conv in_workspace_def using False log_invD(5) [OF inv] by metis
  then show ?thesis by simp
qed

lemma stored_ascending: "log_inv d \<Longrightarrow> sorted_wrt (\<lambda>a b. teSequence a < teSequence b) (stored_events sc (stEvents d))"
  using workspace_ascending [of d "ssWorkspaceId sc"] by (simp add: stored_in_workspace sorted_wrt_map sorted_wrt_filter)

lemma session_events_stored:
  assumes "log_inv d"
  shows "session_events sc d = stored_events sc (stEvents d)"
proof -
  have "filter (\<lambda>e. event_scope e = sc) (map erEvent (stEvents d)) = stored_events sc (stEvents d)"
    by (simp add: stored_events_def in_session_def [abs_def] filter_map comp_def)
  moreover have "sorted (map teSequence (stored_events sc (stEvents d)))"
    using stored_ascending [OF assms, of sc] by (simp add: sorted_wrt_map sorted_wrt_mono_rel [where P = "\<lambda>a b. teSequence a < teSequence b"])
  ultimately show ?thesis by (simp add: session_events_def sorted_sort_id sort_key_id_if_sorted)
qed

lemma stored_valid: "log_inv d \<Longrightarrow> e \<in> set (stored_events sc (stEvents d)) \<Longrightarrow> timelineEventSchema e \<and> event_scope e = sc"
  using log_invD(4) by (auto simp: stored_events_def in_session_def)

lemma ascending_rest:
  assumes "sorted_wrt (\<lambda>a b. f a < (f b :: int)) xs" and "0 < k" and "k \<le> length xs"
  shows "filter (\<lambda>x. f (last (take k xs)) < f x) xs = drop k xs"
proof -
  let ?l = "last (take k xs)"
  have ne: "take k xs \<noteq> []" using assms(2,3) by auto
  have split: "sorted_wrt (\<lambda>a b. f a < f b) (take k xs @ drop k xs)" using assms(1) by simp
  have "f x \<le> f ?l" if "x \<in> set (take k xs)" for x
  proof -
    have "sorted_wrt (\<lambda>a b. f a < f b) (butlast (take k xs) @ [?l])" using ne split by (simp add: sorted_wrt_append)
    moreover have "x = ?l \<or> x \<in> set (butlast (take k xs))" using that ne by (metis append_butlast_last_id in_set_conv_decomp rotate1.simps(2) set_ConsD set_rotate1)
    ultimately show ?thesis by (auto simp: sorted_wrt_append)
  qed
  then have "filter (\<lambda>x. f ?l < f x) (take k xs) = []" by (auto simp: filter_empty_conv linorder_not_less)
  moreover have "filter (\<lambda>x. f ?l < f x) (drop k xs) = drop k xs"
    using split [unfolded sorted_wrt_append] last_in_set [OF ne] by (intro filter_True) blast
  ultimately show ?thesis by (metis append_Nil append_take_drop_id filter_append)
qed

subsection \<open>A page of the replay\<close>

definition due :: "store \<Rightarrow> store_scope \<Rightarrow> int \<Rightarrow> int \<Rightarrow> timeline_event list" where
  "due d sc after high = filter (\<lambda>e. after < teSequence e \<and> teSequence e \<le> high) (stored_events sc (stEvents d))"

lemma those_valid: "list_all timelineEventSchema es \<Longrightarrow> those (map parseTimelineEvent es) = Some es"
  by (induction es) (auto simp: parseTimelineEvent_def)

lemma due_ascending: "log_inv d \<Longrightarrow> sorted_wrt (\<lambda>a b. teSequence a < teSequence b) (due d sc after high)"
  unfolding due_def by (intro sorted_wrt_filter stored_ascending)

lemma due_valid: "log_inv d \<Longrightarrow> list_all timelineEventSchema (due d sc after high)"
  using stored_valid by (auto simp: due_def list_all_iff)

lemma replay_page:
  assumes inv: "log_inv d" and ses: "getSession sc d = (Inr ses, d)" and "0 \<le> after" and "0 \<le> high"
  shows "replaySessionEvents sc after 500 (Some high) d
    = Inr \<lparr>rpEvents = take 500 (due d sc after high), rpHighWater = high,
        rpNextAfter = (case at_last (take 500 (due d sc after high)) of Some e \<Rightarrow> teSequence e | None \<Rightarrow> after),
        rpHasMore = 500 < length (due d sc after high)\<rparr>"
proof -
  have scope: "assertScope sc" using getSession_Inr [OF ses] by simp
  have "list_all timelineEventSchema (take 500 (due d sc after high))"
    using due_valid [OF inv, of sc after high] by (auto simp: list_all_iff dest: in_set_takeD)
  then have "those (map parseTimelineEvent (take 500 (due d sc after high))) = Some (take 500 (due d sc after high))" by (rule those_valid)
  then show ?thesis
    using assms scope by (simp add: replaySessionEvents_def session_events_stored due_def [symmetric] take_map)
qed

lemma due_next:
  assumes "log_inv d" and "500 < length (due d sc after high)"
  shows "due d sc (teSequence (last (take 500 (due d sc after high)))) high = drop 500 (due d sc after high)"
proof -
  let ?R = "due d sc after high" and ?l = "teSequence (last (take 500 (due d sc after high)))"
  have "last (take 500 ?R) \<in> set (take 500 ?R)" using assms(2) by (intro last_in_set) auto
  then have "last (take 500 ?R) \<in> set ?R" by (rule in_set_takeD)
  then have "after < ?l" by (simp add: due_def)
  then have "due d sc ?l high = filter (\<lambda>e. ?l < teSequence e) ?R" by (auto simp: due_def intro!: filter_cong)
  then show ?thesis using ascending_rest [OF due_ascending [OF assms(1), of sc after high], of 500] assms(2) by simp
qed

text \<open>The loop returns, and its pages are the events that are due, in order.\<close>

lemma replay_loop_pages:
  assumes inv: "log_inv d" and ses: "getSession sc d = (Inr ses, d)" and "0 \<le> high" and "0 \<le> after"
  shows "\<exists>pages. replay_loop d sc high after c = Some (None, c\<lparr>cnOut := cnOut c @ map (ReplayMessage sc high) pages,
      cnSubscription := map_option (\<lambda>s. s\<lparr>sbLastSent := (if due d sc after high = [] then after else teSequence (last (due d sc after high)))\<rparr>) (cnSubscription c)\<rparr>)
    \<and> concat pages = due d sc after high \<and> list_all (\<lambda>p. length p \<le> 500) pages"
  using assms(4)
proof (induction "length (due d sc after high)" arbitrary: after c rule: less_induct)
  case less
  let ?R = "due d sc after high"
  note page = replay_page [OF inv ses less.prems assms(3)]
  show ?case
  proof (cases "500 < length ?R")
    case True
    let ?l = "teSequence (last (take 500 ?R))" and ?c = "send_page sc high \<lparr>rpEvents = take 500 ?R, rpHighWater = high, rpNextAfter = teSequence (last (take 500 ?R)), rpHasMore = True\<rparr> c"
    have ne: "take 500 ?R \<noteq> []" using True by auto
    have rest: "due d sc ?l high = drop 500 ?R" by (rule due_next [OF inv True])
    have "last (take 500 ?R) \<in> set ?R" using ne by (meson in_set_takeD last_in_set)
    then have "0 \<le> ?l" using less.prems by (simp add: due_def)
    moreover have "length (due d sc ?l high) < length ?R" using rest True by simp
    ultimately obtain pages where p: "replay_loop d sc high ?l ?c = Some (None, ?c\<lparr>cnOut := cnOut ?c @ map (ReplayMessage sc high) pages,
        cnSubscription := map_option (\<lambda>s. s\<lparr>sbLastSent := (if drop 500 ?R = [] then ?l else teSequence (last (drop 500 ?R)))\<rparr>) (cnSubscription ?c)\<rparr>)"
      "concat pages = drop 500 ?R" "list_all (\<lambda>p. length p \<le> 500) pages"
      using less.hyps [of ?l ?c] rest by metis
    have step: "replay_loop d sc high after c = replay_loop d sc high ?l ?c"
      using page True ne by (subst replay_loop.simps) (simp add: at_last_def)
    show ?thesis
      by (rule exI [of _ "take 500 ?R # pages"])
         (use step p True in \<open>auto simp: send_page_def send_def Let_def option.map_comp comp_def\<close>)
  next
    case False
    then show ?thesis
      by (intro exI [of _ "[?R]"]) (subst replay_loop.simps, auto simp: page send_page_def send_def Let_def at_last_def)
  qed
qed

subsection \<open>Only ingesting adds an event, and the session is there\<close>

definition live_view :: "store \<Rightarrow> (store_scope \<times> instant option) list" where
  "live_view d = map (\<lambda>s. (seScope s, seDeletedAt s)) (stSessions d)"

definition live_session :: "store_scope \<Rightarrow> store \<Rightarrow> bool" where
  "live_session sc d \<longleftrightarrow> assertScope sc \<and> (sc, None) \<in> set (live_view d)"

lemma live_session_get: "live_session sc d \<Longrightarrow> \<exists>ses. getSession sc d = (Inr ses, d)"
  by (force simp: live_session_def live_view_def getSession_def find_None_iff split: option.splits)

lemma live_get: "getSession sc d = (Inr ses, d') \<Longrightarrow> live_session sc d"
  using getSession_Inr [of sc d ses d'] by (force simp: live_session_def live_view_def)

lemma live_view_update [simp]:
  "live_view (d\<lparr>stApprovals := a\<rparr>) = live_view d" "live_view (d\<lparr>stSequences := q\<rparr>) = live_view d"
  "live_view (d\<lparr>stRaw := w, stRawNext := n\<rparr>) = live_view d" "live_view (d\<lparr>stEvents := es\<rparr>) = live_view d"
  "live_view (d\<lparr>stAudit := x, stAuditNext := m\<rparr>) = live_view d" "live_view (d\<lparr>stCommitted := c\<rparr>) = live_view d"
  "live_view (d\<lparr>stApprovalNotices := o1\<rparr>) = live_view d" "live_view (touch_session sc sq now d) = live_view d"
  by (simp_all add: live_view_def touch_session_def)

lemma live_store: "same live_view d (store_event E i now d)"
proof -
  have "same live_view d (insertAudit E a now d)" for d a by (rule same_insertAudit) simp
  then have "same live_view d (store_approval E i e now d)" "same live_view d (audit_turn E i e now d)" for e d
    by (auto simp: store_approval_def insert_approval_def audit_turn_def Let_def intro!: same_bind split: option.splits event_payload.splits)
  then show ?thesis unfolding store_event_def
    by (auto simp: next_sequence_def number_event_def insert_raw_def insert_event_def Let_def intro!: same_bind same_via [OF same_bind] split: option.splits)
qed

lemma live_ingest: "same live_view d (ingest E i now d)"
proof -
  have "same live_view d (notify_approval t w a d)" for d t w a by (rule same_notify) simp
  then show ?thesis
    by (auto simp: ingest_def ingest_tx_def Let_def live_store intro!: same_bind same_tx same_via [OF same_bind] split: option.splits)
qed

lemma events_by_ingest:
  assumes "store_step E d d'" and "stEvents d' \<noteq> stEvents d"
  obtains i now where "d' = snd (ingest E i now d)"
  using assms(1)
proof (cases rule: store_step.cases)
  case step_log
  then show thesis
  proof (cases rule: log_op.cases)
    case (op_session i now)
    then show thesis using assms(2) session_frame_create(1) [of d i now] by (simp add: same_def session_frame_def)
  next
    case (op_session_audit i a now)
    then show thesis using assms(2) session_frame_create(2) [of d E i a now] by (simp add: same_def session_frame_def)
  next
    case (op_raw sc key raw now)
    have "same stEvents d (ingestRawOnly sc key raw now d)" by (auto simp: ingestRawOnly_def intro!: same_bind)
    then show thesis using assms(2) op_raw by (simp add: same_def)
  qed (rule that)
qed (use assms(2) run_op_effect [of d d'] approval_op_effect [of E d d'] key_op_effect [of d d'] session_op_effect [of E d d'] usage_op_core [of d d']
    catalog_op_core [of E d d'] in
    \<open>auto simp: run_frame_def approval_frame_def key_frame_def core_view_def log_view_def restart_def\<close>)

text \<open>A step adds at most one event, of a live session.\<close>

lemma step_adds:
  assumes "store_step E d d'" and inv: "log_inv d"
  obtains (nothing) "stEvents d' = stEvents d"
  | (event) x where "stEvents d' = stEvents d @ [x]" "live_session (event_scope (erEvent x)) d'"
proof (cases "stEvents d' = stEvents d")
  case False
  obtain i now where d': "d' = snd (ingest E i now d)" using assms(1) False by (rule events_by_ingest)
  show thesis
  proof (cases rule: ingest_outcome [of E i now d])
    case kept
    then show thesis using False d' by (simp add: log_view_def)
  next
    case (stored e d1)
    from stored(1) obtain n d2 where e: "e = (inEvent i)\<lparr>teSequence := n\<rparr>" and v: "stEvents d1 = stEvents d @ [\<lparr>erEvent = e, erRawId = stRawNext d\<rparr>]"
      by (rule store_event_effect) (simp add: log_view_def)
    have "live_session (inScope i) d" by (rule live_get [OF stored(4)])
    then have "live_session (inScope i) d'" using live_ingest [of d E i now] d' by (simp add: live_session_def same_def)
    moreover have "event_scope e = inScope i" using stored(2) e by (simp add: event_scope_def)
    ultimately show thesis using event v stored(5) d' by (simp add: log_view_def)
  qed
qed (rule nothing)

subsection \<open>What the client has been given\<close>

fun message_events :: "server_message \<Rightarrow> timeline_event list" where
  "message_events (ReplayMessage sc high es) = es"
| "message_events (EventMessage sc e) = [e]"
| "message_events m = []"

definition delivered :: "server_message list \<Rightarrow> timeline_event list" where
  "delivered out = concat (map message_events out)"

fun is_resync :: "server_message \<Rightarrow> bool" where
  "is_resync (ResyncMessage sc reason after high n) = True"
| "is_resync m = False"

definition resynced :: "server_message list \<Rightarrow> bool" where
  "resynced out = list_ex is_resync out"

lemma delivered_append [simp]: "delivered (out @ ms) = delivered out @ delivered ms" "delivered [] = []" "delivered (m # ms) = message_events m @ delivered ms"
  by (simp_all add: delivered_def)

lemma resynced_append [simp]: "resynced (out @ ms) \<longleftrightarrow> resynced out \<or> resynced ms" "\<not> resynced []" "resynced (m # ms) \<longleftrightarrow> is_resync m \<or> resynced ms"
  by (simp_all add: resynced_def)

text \<open>
  \<open>seen\<close>, given or buffered, is part of the events after the cursor, in their order; no authoritative event is missing
  unless the client was told to start again, and no event at all when moreover none was dropped.
\<close>

definition in_stream :: "int \<Rightarrow> timeline_event list \<Rightarrow> timeline_event list \<Rightarrow> bool \<Rightarrow> int \<Rightarrow> bool" where
  "in_stream after es seen lost dropped \<longleftrightarrow>
     subseq seen (filter (\<lambda>e. after < teSequence e) es)
   \<and> (\<not> lost \<longrightarrow> filter isAuthoritative seen = filter isAuthoritative (filter (\<lambda>e. after < teSequence e) es))
   \<and> (\<not> lost \<and> dropped = 0 \<longrightarrow> seen = filter (\<lambda>e. after < teSequence e) es)"

lemma in_stream_push: "in_stream after es seen lost n \<Longrightarrow> after < teSequence e \<Longrightarrow> in_stream after (es @ [e]) (seen @ [e]) lost n"
  by (simp add: in_stream_def)

lemma in_stream_drop:
  "in_stream after es seen lost n \<Longrightarrow> 0 \<le> n \<Longrightarrow> \<not> isAuthoritative e \<Longrightarrow> in_stream after (es @ [e]) seen lost (n + 1)"
  by (auto simp: in_stream_def intro: subseq_rev_drop_many)

lemma in_stream_lost: "in_stream after es (given @ buffer) lost n \<Longrightarrow> in_stream after (es @ [e]) given True n"
  using subseq_order.trans [OF subseq_rev_drop_many [OF subseq_order.refl]] by (auto simp: in_stream_def intro: subseq_rev_drop_many)

lemma remove_first_subseq: "subseq (remove_first P xs) xs"
  by (induction xs) auto

lemma remove_first_set: "set (remove_first P xs) \<subseteq> set xs"
  by (induction xs) auto

lemma remove_first_filter: "(\<And>x. P x \<Longrightarrow> \<not> Q x) \<Longrightarrow> filter Q (remove_first P xs) = filter Q xs"
  by (induction xs) auto

lemma delta_not_authoritative: "output_delta e \<Longrightarrow> \<not> isAuthoritative e"
  by (simp add: output_delta_def isAuthoritative_def endsWith_def startsWith_def)

lemma in_stream_remove:
  assumes "in_stream after es (given @ buffer) lost n" and "0 \<le> n"
  shows "in_stream after es (given @ remove_first output_delta buffer) lost (n + 1)"
proof -
  have "subseq (given @ remove_first output_delta buffer) (given @ buffer)" by (rule list_emb_append_mono [OF subseq_order.refl remove_first_subseq])
  then show ?thesis
    using assms remove_first_filter [of output_delta isAuthoritative buffer] delta_not_authoritative
    by (auto simp: in_stream_def intro: subseq_order.trans)
qed

definition position_ok :: "int \<Rightarrow> timeline_event list \<Rightarrow> subscription \<Rightarrow> bool" where
  "position_ok after es s \<longleftrightarrow> 0 \<le> sbDropped s \<and> after \<le> sbAck s \<and> sbAck s \<le> sbLastSent s \<and> sbLastSent s \<le> last_number es
     \<and> sbHighWater s \<le> last_number es \<and> (sbReplaying s \<longrightarrow> sbLastSent s = sbHighWater s) \<and> (\<forall>e \<in> set (sbBuffer s). sbHighWater s < teSequence e)
     \<and> (\<not> sbReplaying s \<longrightarrow> sbBuffer s = [])"

definition stream_ok :: "int \<Rightarrow> store_scope \<Rightarrow> event_row list \<Rightarrow> connection \<Rightarrow> bool" where
  "stream_ok after sc evs c \<longleftrightarrow> cnPending c = [] \<and> (\<exists>s. cnSubscription c = Some s \<and> sbScope s = sc \<and> position_ok after (stored_events sc evs) s
     \<and> in_stream after (stored_events sc evs) (delivered (cnOut c) @ sbBuffer s) (resynced (cnOut c)) (sbDropped s))"

lemma stream_buffer:
  assumes pos: "position_ok after es s" and str: "in_stream after es (delivered (cnOut c) @ sbBuffer s) (resynced (cnOut c)) (sbDropped s)"
    and new: "last_number es < teSequence e" and rep: "sbReplaying s" and live: "getSession (sbScope s) d = (Inr ses, d)"
    and sub: "cnSubscription c = Some s"
  shows "\<exists>s'. cnSubscription (buffer_event bytes d e s c) = Some s' \<and> sbScope s' = sbScope s \<and> cnPending (buffer_event bytes d e s c) = cnPending c
    \<and> position_ok after (es @ [e]) s'
    \<and> in_stream after (es @ [e]) (delivered (cnOut (buffer_event bytes d e s c)) @ sbBuffer s') (resynced (cnOut (buffer_event bytes d e s c))) (sbDropped s')"
proof -
  have e: "after < teSequence e" "sbHighWater s < teSequence e" "sbLastSent s < teSequence e" using pos new by (auto simp: position_ok_def)
  have keep: "position_ok after (es @ [e]) s'" if "sbHighWater s' = sbHighWater s" "sbLastSent s' = sbLastSent s" "sbAck s' = sbAck s" "sbReplaying s'"
      "set (sbBuffer s') \<subseteq> insert e (set (sbBuffer s))" "0 \<le> sbDropped s'" for s'
    using pos e rep that by (auto simp: position_ok_def)
  show ?thesis
  proof (cases "REALTIME_MAX_QUEUE_EVENTS \<le> length (sbBuffer s) \<or> REALTIME_MAX_QUEUE_BYTES < sbBufferBytes s + bytes e")
    case full: True
    have dr: "0 \<le> sbDropped s" using pos by (simp add: position_ok_def)
    show ?thesis
    proof (cases "find output_delta (sbBuffer s)")
      case None
      then show ?thesis
        using full live sub rep dr in_stream_drop [OF str dr, of e] in_stream_lost [OF str, of e]
        by (cases "isAuthoritative e") (auto simp: buffer_event_def send_def intro!: keep)
    next
      case (Some removed)
      have "set (remove_first output_delta (sbBuffer s)) \<subseteq> set (sbBuffer s)"
        by (rule remove_first_set)
      then show ?thesis
        using full Some rep dr in_stream_push [OF in_stream_remove [OF str dr] e(1)]
        by (auto simp: buffer_event_def push_buffer_def intro!: keep)
    qed
  next
    case False
    then show ?thesis
      using rep in_stream_push [OF str e(1)] pos e
      by (auto simp: buffer_event_def push_buffer_def position_ok_def)
  qed
qed

lemma stream_event:
  assumes ok: "stream_ok after sc evs c" and new: "event_scope (erEvent x) = sc \<Longrightarrow> last_number (stored_events sc evs) < teSequence (erEvent x)"
    and live: "event_scope (erEvent x) = sc \<Longrightarrow> getSession sc d = (Inr ses, d) \<and> \<not> shared_folder ses"
  shows "stream_ok after sc (evs @ [x]) (on_committed bytes d (erEvent x) c)"
proof -
  obtain s where s: "cnSubscription c = Some s" "sbScope s = sc" "cnPending c = []" and pos: "position_ok after (stored_events sc evs) s"
    and str: "in_stream after (stored_events sc evs) (delivered (cnOut c) @ sbBuffer s) (resynced (cnOut c)) (sbDropped s)"
    using ok by (auto simp: stream_ok_def)
  show ?thesis
  proof (cases "event_scope (erEvent x) = sc")
    case False
    then have "on_committed bytes d (erEvent x) c = c" using s by (auto simp: on_committed_def)
    then show ?thesis using ok False by (simp add: stream_ok_def stored_events_append in_session_def)
  next
    case True
    have e: "after < teSequence (erEvent x)" "sbHighWater s < teSequence (erEvent x)" "sbLastSent s < teSequence (erEvent x)"
      using pos new [OF True] by (auto simp: position_ok_def)
    have st: "stored_events sc (evs @ [x]) = stored_events sc evs @ [erEvent x]" using True by (simp add: stored_events_append in_session_def)
    have on: "on_committed bytes d (erEvent x) c = deliver bytes d (erEvent x) c" using s True live [OF True] by (simp add: on_committed_def)
    show ?thesis
    proof (cases "sbReplaying s")
      case rep: True
      then have "deliver bytes d (erEvent x) c = buffer_event bytes d (erEvent x) s c" using s(1) e(2) by (simp add: deliver_def)
      then show ?thesis
        using stream_buffer [OF pos str new [OF True] rep _ s(1), of d ses bytes] live [OF True] s st on by (auto simp: stream_ok_def)
    next
      case live': False
      then have "deliver bytes d (erEvent x) c = (send (EventMessage sc (erEvent x)) c)\<lparr>cnSubscription := Some (s\<lparr>sbLastSent := teSequence (erEvent x)\<rparr>)\<rparr>"
        using s e by (simp add: deliver_def)
      moreover have "sbBuffer s = []" using pos live' by (simp add: position_ok_def)
      ultimately show ?thesis
        using on st s pos e live' in_stream_push [OF str e(1)] by (auto simp: stream_ok_def send_def position_ok_def)
    qed
  qed
qed


subsection \<open>The end of the replay\<close>

definition ascending :: "timeline_event list \<Rightarrow> bool" where
  "ascending = sorted_wrt (\<lambda>a b. teSequence a < teSequence b)"

lemma subseq_ascending: "subseq xs ys \<Longrightarrow> ascending ys \<Longrightarrow> ascending xs"
  by (induction rule: list_emb.induct) (auto simp: ascending_def dest: list_emb_set)

lemma ascending_sort: "ascending es \<Longrightarrow> sort_key teSequence es = es"
  unfolding ascending_def
  by (intro sort_key_id_if_sorted) (simp add: sorted_wrt_map sorted_wrt_mono_rel [where P = "\<lambda>a b. teSequence a < teSequence b"])

lemma ascending_last: "ascending es \<Longrightarrow> e \<in> set es \<Longrightarrow> teSequence e \<le> last_number es"
  by (cases es rule: rev_cases) (auto simp: ascending_def sorted_wrt_append)

lemma drain_all:
  assumes "cnSubscription c = Some s" and "ascending es" and "\<forall>e \<in> set es. sbLastSent s < teSequence e" and "\<forall>n \<in> set done. n \<le> sbLastSent s"
  shows "drain sc done es c = c\<lparr>cnOut := cnOut c @ map (EventMessage sc) es,
      cnSubscription := Some (s\<lparr>sbLastSent := (if es = [] then sbLastSent s else teSequence (last es))\<rparr>)\<rparr>"
  using assms
proof (induction es arbitrary: c s "done")
  case (Cons e es)
  let ?s = "s\<lparr>sbLastSent := teSequence e\<rparr>" and ?c = "(send (EventMessage sc e) c)\<lparr>cnSubscription := Some (s\<lparr>sbLastSent := teSequence e\<rparr>)\<rparr>"
  have e: "sbLastSent s < teSequence e" using Cons.prems(3) by simp
  then have "drain sc done (e # es) c = drain sc (teSequence e # done) es ?c"
    using Cons.prems(1,4) by fastforce
  also have "\<dots> = ?c\<lparr>cnOut := cnOut ?c @ map (EventMessage sc) es,
      cnSubscription := Some (?s\<lparr>sbLastSent := (if es = [] then sbLastSent ?s else teSequence (last es))\<rparr>)\<rparr>"
    using Cons.prems e by (intro Cons.IH) (auto simp: ascending_def)
  finally show ?case by (simp add: send_def)
qed simp

lemma in_stream_member: "in_stream after es seen lost n \<Longrightarrow> e \<in> set seen \<Longrightarrow> e \<in> set es"
  unfolding in_stream_def by (elim conjE, drule (1) list_emb_set) auto

lemma event_messages: "delivered (map (EventMessage sc) es) = es" "\<not> resynced (map (EventMessage sc) es)"
  by (induction es) auto

lemma stream_finish:
  assumes ok: "stream_ok after sc evs c" and asc: "ascending (stored_events sc evs)" and sub: "cnSubscription c = Some s" and rep: "sbReplaying s"
  shows "stream_ok after sc evs (subscribe_finish (sbScope s) (sbHighWater s) c)"
proof -
  have s: "sbScope s = sc" "cnPending c = []" and pos: "position_ok after (stored_events sc evs) s"
    and str: "in_stream after (stored_events sc evs) (delivered (cnOut c) @ sbBuffer s) (resynced (cnOut c)) (sbDropped s)"
    using ok sub by (auto simp: stream_ok_def)
  let ?B = "sbBuffer s" and ?s = "s\<lparr>sbReplaying := False, sbBuffer := [], sbBufferBytes := 0\<rparr>"
  have asc_seen: "ascending (delivered (cnOut c) @ ?B)"
  proof (rule subseq_ascending)
    show "subseq (delivered (cnOut c) @ ?B) (filter (\<lambda>e. after < teSequence e) (stored_events sc evs))" using str by (simp add: in_stream_def)
    show "ascending (filter (\<lambda>e. after < teSequence e) (stored_events sc evs))" using asc by (simp add: ascending_def sorted_wrt_filter)
  qed
  then have ascB: "ascending ?B" by (simp add: ascending_def sorted_wrt_append)
  have above: "\<forall>e \<in> set ?B. sbHighWater s < teSequence e" and lst: "sbLastSent s = sbHighWater s" using pos rep by (auto simp: position_ok_def)
  have "filter (\<lambda>e. sbHighWater s < teSequence e) ?B = ?B" using above by simp
  then have fin: "subscribe_finish (sbScope s) (sbHighWater s) c = drain sc [] ?B ((send (SubscribedMessage sc (sbHighWater s)) c)\<lparr>cnSubscription := Some ?s\<rparr>)"
    using sub s ascending_sort [OF ascB] by (simp add: subscribe_finish_def)
  also have "\<dots> = c\<lparr>cnOut := cnOut c @ SubscribedMessage sc (sbHighWater s) # map (EventMessage sc) ?B,
      cnSubscription := Some (?s\<lparr>sbLastSent := (if ?B = [] then sbLastSent s else teSequence (last ?B))\<rparr>)\<rparr>"
    using ascB above lst by (subst drain_all [where s = ?s]) (auto simp: send_def)
  finally have fin': "subscribe_finish (sbScope s) (sbHighWater s) c = \<dots>" .
  note event_messages [of sc ?B]
  moreover have "teSequence (last ?B) \<le> last_number (stored_events sc evs)" if "?B \<noteq> []"
  proof -
    have "last ?B \<in> set (stored_events sc evs)" using in_stream_member [OF str, of "last ?B"] that by simp
    then show ?thesis by (rule ascending_last [OF asc])
  qed
  moreover have "sbLastSent s < teSequence (last ?B)" if "?B \<noteq> []" using above lst that by auto
  ultimately show ?thesis
    using s pos str unfolding fin' by (auto simp: stream_ok_def position_ok_def)
qed

lemma stream_messages:
  assumes "stream_ok after sc evs c" and "cnPending c' = cnPending c" and "cnSubscription c' = map_option (\<lambda>s. s\<lparr>sbAck := n\<rparr>) (cnSubscription c)"
    and "cnOut c' = cnOut c @ ms" and "delivered ms = []" "\<not> resynced ms" and "\<And>s. cnSubscription c = Some s \<Longrightarrow> sbAck s \<le> n \<and> n \<le> sbLastSent s"
  shows "stream_ok after sc evs c'"
  using assms by (auto simp: stream_ok_def position_ok_def)

lemma stream_send:
  assumes "stream_ok after sc evs c" and "cnPending c' = cnPending c" "cnSubscription c' = cnSubscription c"
    and "cnOut c' = cnOut c @ ms" and "delivered ms = []" "\<not> resynced ms"
  shows "stream_ok after sc evs c'"
  using assms by (auto simp: stream_ok_def)

definition ack_sent :: "int \<Rightarrow> connection \<Rightarrow> connection \<Rightarrow> bool" where
  "ack_sent n c c' \<longleftrightarrow> cnPending c' = cnPending c \<and> cnSubscription c' = map_option (\<lambda>s. s\<lparr>sbAck := n\<rparr>) (cnSubscription c)
     \<and> (\<exists>ms. cnOut c' = cnOut c @ ms \<and> delivered ms = [] \<and> \<not> resynced ms)"

lemma error_sent: "stream_ok after sc evs c \<Longrightarrow> stream_ok after sc evs (sendError code text c)"
  "stream_ok after sc evs c \<Longrightarrow> stream_ok after sc evs (close_socket k reason (sendError code text c))"
  by (rule stream_send [where ms = "[ErrorMessage code text]"], assumption, simp_all add: sendError_def send_def close_socket_def)+

lemma stream_ack:
  assumes ok: "stream_ok after sc evs c"
  shows "stream_ok after sc evs (acknowledge directory sc' n now d c)"
proof -
  obtain s where s: "cnSubscription c = Some s" using ok by (auto simp: stream_ok_def)
  have taken: "stream_ok after sc evs c'" if "ack_sent n c c'" "sbAck s \<le> n" "n \<le> sbLastSent s" for c'
    using that stream_messages [OF ok, of c' n] s by (auto simp: ack_sent_def)
  have branch: "(P \<Longrightarrow> stream_ok after sc evs a) \<Longrightarrow> (\<not> P \<Longrightarrow> stream_ok after sc evs b) \<Longrightarrow> stream_ok after sc evs (if P then a else b)" for P a b
    by simp
  have answer: "stream_ok after sc evs a \<Longrightarrow> (\<And>v. stream_ok after sc evs (g v)) \<Longrightarrow> stream_ok after sc evs (case x of Inl e \<Rightarrow> a | Inr v \<Rightarrow> g v)"
    for a g and x :: "store_error + session_row" by (cases x) simp_all
  show ?thesis
    unfolding acknowledge_def s option.case Let_def
    by (intro branch answer error_sent ok) (rule taken; simp add: ack_sent_def send_def s)+
qed

lemma stream_approvals: "stream_ok after sc evs c \<Longrightarrow> stream_ok after sc evs (fold on_approval as c)"
proof (induction as arbitrary: c)
  case (Cons a as)
  have "stream_ok after sc evs (on_approval a c)"
    using Cons.prems by (auto simp: on_approval_def send_def split: option.splits intro: stream_send [OF Cons.prems])
  then show ?case using Cons.IH by simp
qed simp


subsection \<open>Runs of the store and of one subscribed connection\<close>

text \<open>Every step of the store runs the listeners on what it committed; the end of the replay, acknowledgements and answers of the shared folders come in between.\<close>

inductive rt_step :: "(timeline_event \<Rightarrow> int) \<Rightarrow> store_env \<Rightarrow> org_membership list \<Rightarrow> store \<times> connection \<Rightarrow> store \<times> connection \<Rightarrow> bool" for bytes E directory where
  rt_store: "store_step E d d' \<Longrightarrow> rt_step bytes E directory (d, c)
     (d', fold on_approval (drop (length (stApprovalNotices d)) (stApprovalNotices d'))
            (fold (on_committed bytes d') (drop (length (stCommitted d)) (stCommitted d')) c))"
| rt_finish: "cnSubscription c = Some s \<Longrightarrow> sbReplaying s \<Longrightarrow> rt_step bytes E directory (d, c) (d, subscribe_finish (sbScope s) (sbHighWater s) c)"
| rt_ack: "rt_step bytes E directory (d, c) (d, acknowledge directory sc n now d c)"
| rt_folder: "rt_step bytes E directory (d, c) (d, folder_answer bytes d i allowed c)"

inductive_cases rt_stepE: "rt_step bytes E directory x y"

definition private_session :: "store_scope \<Rightarrow> store \<Rightarrow> bool" where
  "private_session sc d \<longleftrightarrow> (case fst (getSession sc d) of Inl err \<Rightarrow> True | Inr ses \<Rightarrow> \<not> shared_folder ses)"

definition rt_inv :: "int \<Rightarrow> store_scope \<Rightarrow> store \<times> connection \<Rightarrow> bool" where
  "rt_inv after sc = (\<lambda>(d, c). store_inv d \<and> stream_ok after sc (stEvents d) c)"

lemma last_number_less: "ascending (es @ [e]) \<Longrightarrow> 0 < teSequence e \<Longrightarrow> last_number es < teSequence e"
  by (cases es rule: rev_cases) (auto simp: ascending_def sorted_wrt_append last_number_def at_last_def)

lemma stored_positive:
  assumes inv: "log_inv d" and "x \<in> set (stEvents d)"
  shows "0 < teSequence (erEvent x)"
proof -
  have "erEvent x \<in> set (workspace_events (teWorkspaceId (erEvent x)) (stEvents d))"
    using assms(2) by (auto simp: workspace_events_def in_workspace_def)
  moreover obtain q where "q \<in> set (stSequences d)" "sqWorkspaceId q = teWorkspaceId (erEvent x)" using log_invD(5) [OF assms] by auto
  ultimately have "teSequence (erEvent x) \<in> set [1..sqLastSequence q]"
    using log_invD(3) [OF inv] unfolding sequence_ok_def by (metis image_eqI set_map)
  then show ?thesis by simp
qed

lemma rt_store_stream:
  assumes inv: "store_inv d" and st: "store_step E d d'" and ok: "stream_ok after sc (stEvents d) c" and priv: "private_session sc d'"
  shows "stream_ok after sc (stEvents d') (fold (on_committed bytes d') (drop (length (stCommitted d)) (stCommitted d')) c)"
proof -
  have logs: "log_inv d" "log_inv d'" using inv store_step_effect [OF st inv] by (auto simp: store_inv_def)
  note com = log_invD(13) [OF logs(1)] log_invD(13) [OF logs(2)]
  from st logs(1) show ?thesis
  proof (cases rule: step_adds)
    case nothing
    then show ?thesis using com ok by simp
  next
    case (event x)
    have new: "drop (length (stCommitted d)) (stCommitted d') = [erEvent x]" using com event(1) by simp
    have "stream_ok after sc (stEvents d @ [x]) (on_committed bytes d' (erEvent x) c)"
    proof (cases "event_scope (erEvent x) = sc")
      case True
      obtain ses where ses: "getSession sc d' = (Inr ses, d')" using live_session_get [OF event(2)] True by auto
      have "ascending (stored_events sc (stEvents d) @ [erEvent x])"
        using stored_ascending [OF logs(2), of sc] event(1) True by (simp add: ascending_def stored_events_append in_session_def)
      moreover have "0 < teSequence (erEvent x)" by (rule stored_positive [OF logs(2)]) (simp add: event(1))
      ultimately show ?thesis using stream_event [OF ok, of x d' ses] last_number_less ses priv by (simp add: private_session_def)
    next
      case False
      then show ?thesis using stream_event [OF ok, of x d'] by blast
    qed
    then show ?thesis using new event(1) by simp
  qed
qed

lemma rt_step_inv:
  assumes inv: "rt_inv after sc x" and "rt_step bytes E directory x y" and priv: "private_session sc (fst y)"
  shows "rt_inv after sc y"
  using assms(2)
proof (cases rule: rt_step.cases)
  case (rt_store d d' c)
  then show ?thesis using inv priv rt_store_stream [of d E d' after sc c bytes] stream_approvals store_step_effect [of E d d']
    by (auto simp: rt_inv_def)
next
  case (rt_finish c s d)
  then have "ascending (stored_events sc (stEvents d))" using inv stored_ascending [of d sc] by (auto simp: rt_inv_def store_inv_def ascending_def)
  then show ?thesis using inv rt_finish stream_finish [of after sc "stEvents d" c s] by (auto simp: rt_inv_def)
next
  case (rt_ack d c sc' n now)
  then show ?thesis using inv stream_ack by (auto simp: rt_inv_def)
next
  case (rt_folder d c i allowed)
  then show ?thesis using inv by (auto simp: rt_inv_def folder_answer_def stream_ok_def)
qed

interpretation realtime: transition_system "rt_inv after sc" "\<lambda>x y. rt_step bytes E directory x y \<and> private_session sc (fst y)" "rt_inv after sc"
  by unfold_locales (use rt_step_inv in blast)+

subsection \<open>Subscribing\<close>

lemma session_last:
  assumes "log_inv d" and "getSession sc d = (Inr ses, d)"
  shows "seLastSequence ses = last_number (stored_events sc (stEvents d))"
  using log_invD(8) [OF assms(1)] getSession_Inr [OF assms(2)] by auto

lemma due_all:
  assumes "log_inv d"
  shows "due d sc after (last_number (stored_events sc (stEvents d))) = filter (\<lambda>e. after < teSequence e) (stored_events sc (stEvents d))"
  unfolding due_def using ascending_last stored_ascending [OF assms] by (intro filter_cong) (auto simp: ascending_def)

lemma last_number_nonneg: "log_inv d \<Longrightarrow> 0 \<le> last_number (stored_events sc (stEvents d))"
  using stored_valid [of d _ sc]
  by (cases "stored_events sc (stEvents d)" rule: rev_cases) (auto simp: timelineEventSchema_def eventIdentitySchema_def)

lemma due_end:
  assumes inv: "log_inv d" and "0 \<le> after" and le: "after \<le> last_number (stored_events sc (stEvents d))"
  shows "(if due d sc after (last_number (stored_events sc (stEvents d))) = [] then after
      else teSequence (last (due d sc after (last_number (stored_events sc (stEvents d)))))) = last_number (stored_events sc (stEvents d))"
proof (cases "stored_events sc (stEvents d)" rule: rev_cases)
  case Nil
  then show ?thesis using assms due_all [OF inv, of sc after] by simp
next
  case (snoc es e)
  have "filter (\<lambda>x. teSequence e < teSequence x) es = []"
    using stored_ascending [OF inv, of sc] snoc by (auto simp: sorted_wrt_append filter_empty_conv dest!: bspec)
  then show ?thesis using snoc assms due_all [OF inv, of sc after] by (cases "after < teSequence e") auto
qed

lemma subscribe_replays:
  assumes inv: "log_inv d" and ses: "getSession sc d = (Inr ses, d)" and "0 \<le> after" and le: "after \<le> seLastSequence ses"
  shows "\<exists>pages. subscribe_replay \<lparr>smScope = sc, smAfter = after\<rparr> d c
      = Some (True, (start_subscription sc after (seLastSequence ses) c)
          \<lparr>cnOut := cnOut c @ map (ReplayMessage sc (seLastSequence ses)) pages,
           cnSubscription := Some \<lparr>sbScope = sc, sbReplaying = True, sbHighWater = seLastSequence ses, sbLastSent = seLastSequence ses,
             sbAck = after, sbBuffer = [], sbBufferBytes = 0, sbDropped = 0\<rparr>\<rparr>)
    \<and> concat pages = filter (\<lambda>e. after < teSequence e) (stored_events sc (stEvents d)) \<and> list_all (\<lambda>p. length p \<le> 500) pages"
proof -
  let ?h = "seLastSequence ses" and ?c = "start_subscription sc after (seLastSequence ses) c"
  have h: "?h = last_number (stored_events sc (stEvents d))" by (rule session_last [OF inv ses])
  then have "0 \<le> ?h" using last_number_nonneg [OF inv, of sc] by simp
  from replay_loop_pages [OF inv ses this assms(3), of ?c] obtain pages where
    p: "replay_loop d sc ?h after ?c = Some (None, ?c\<lparr>cnOut := cnOut ?c @ map (ReplayMessage sc ?h) pages,
      cnSubscription := map_option (\<lambda>s. s\<lparr>sbLastSent := (if due d sc after ?h = [] then after else teSequence (last (due d sc after ?h)))\<rparr>) (cnSubscription ?c)\<rparr>)"
    and c: "concat pages = due d sc after ?h" "list_all (\<lambda>p. length p \<le> 500) pages" by blast
  have e: "(if due d sc after ?h = [] then after else teSequence (last (due d sc after ?h))) = ?h"
    unfolding h by (rule due_end [OF inv assms(3) le [unfolded h]])
  have "replay_loop d sc ?h after ?c = Some (None, ?c\<lparr>cnOut := cnOut c @ map (ReplayMessage sc ?h) pages,
      cnSubscription := Some \<lparr>sbScope = sc, sbReplaying = True, sbHighWater = ?h, sbLastSent = ?h, sbAck = after, sbBuffer = [], sbBufferBytes = 0, sbDropped = 0\<rparr>\<rparr>)"
    unfolding p e by (simp add: start_subscription_def)
  then show ?thesis using ses le c due_all [OF inv, of sc after] h by (auto simp: subscribe_replay_def)
qed

lemma subscribed_inv:
  assumes inv: "store_inv d" and sub: "subscribe_replay m d c = Some (True, c0)"
    and c: "cnPending c = []" "delivered (cnOut c) = []" "\<not> resynced (cnOut c)"
  shows "rt_inv (smAfter m) (smScope m) (d, c0)"
proof -
  have log: "log_inv d" using inv by (simp add: store_inv_def)
  obtain ses where ses: "getSession (smScope m) d = (Inr ses, d)" and le: "smAfter m \<le> seLastSequence ses"
    using sub by (auto simp: subscribe_replay_def getSession_def split: option.splits if_splits sum.splits)
  have "0 \<le> smAfter m"
  proof (rule ccontr)
    assume "\<not> 0 \<le> smAfter m"
    then have "replay_loop d (smScope m) h (smAfter m) c1 = Some (Some INVALID_CURSOR, c1)" for h c1
      using getSession_Inr [OF ses] by (subst replay_loop.simps) (simp add: replaySessionEvents_def)
    then show False using sub ses by (simp add: subscribe_replay_def split: if_splits)
  qed
  have m: "\<lparr>smScope = smScope m, smAfter = smAfter m\<rparr> = m" by simp
  from subscribe_replays [OF log ses \<open>0 \<le> smAfter m\<close> le, of c, unfolded m] obtain pages where
    r: "subscribe_replay m d c
      = Some (True, (start_subscription (smScope m) (smAfter m) (seLastSequence ses) c)
          \<lparr>cnOut := cnOut c @ map (ReplayMessage (smScope m) (seLastSequence ses)) pages,
           cnSubscription := Some \<lparr>sbScope = smScope m, sbReplaying = True, sbHighWater = seLastSequence ses, sbLastSent = seLastSequence ses,
             sbAck = smAfter m, sbBuffer = [], sbBufferBytes = 0, sbDropped = 0\<rparr>\<rparr>)"
    and p: "concat pages = filter (\<lambda>e. smAfter m < teSequence e) (stored_events (smScope m) (stEvents d))" by blast
  have "delivered (map (ReplayMessage sc h) pages) = concat pages" "\<not> resynced (map (ReplayMessage sc h) pages)" for sc h
    by (induction pages) auto
  then show ?thesis
    using inv r p c le sub session_last [OF log ses]
    by (auto simp: rt_inv_def stream_ok_def position_ok_def in_stream_def start_subscription_def)
qed

subsection \<open>The sender\<close>

definition sender_ok :: "(server_message \<Rightarrow> int) \<Rightarrow> sender_limits \<Rightarrow> realtime_sender \<Rightarrow> bool" where
  "sender_ok bytes lim s \<longleftrightarrow> rsBytes s = sum_list (map (\<lambda>v. bytes (fst v)) (rsQueue s)) \<and> length (rsQueue s) \<le> slEvents lim
     \<and> (\<forall>v \<in> set (rsQueue s). snd v = authoritative_message (fst v))"

definition held :: "realtime_sender \<Rightarrow> server_message list" where
  "held s = rsSent s @ map fst (rsQueue s)"

lemma flush_queue_keeps:
  assumes "rsBytes s = sum_list (map (\<lambda>v. bytes (fst v)) q)" and "length q \<le> slEvents lim" and "\<forall>v \<in> set q. snd v = authoritative_message (fst v)"
  shows "sender_ok bytes lim (flush_queue bytes lim amount k q s) \<and> held (flush_queue bytes lim amount k q s) = rsSent s @ map fst q
    \<and> rsCursor (flush_queue bytes lim amount k q s) = rsCursor s
    \<and> (rsResyncQueued (flush_queue bytes lim amount k q s) \<longrightarrow> rsResyncQueued s)"
  using assms
proof (induction q arbitrary: s k)
  case (Cons v q)
  show ?case
  proof (cases v)
    case (Pair m a)
    then show ?thesis
      using Cons.prems Cons.IH [of "s\<lparr>rsQueue := q, rsBytes := rsBytes s - bytes m, rsSent := rsSent s @ [m]\<rparr>" "Suc k"]
      by (auto simp: sender_ok_def held_def Let_def)
  qed
qed (simp add: sender_ok_def held_def)

lemma flush_keeps:
  assumes "sender_ok bytes lim s"
  shows "sender_ok bytes lim (flush bytes lim amount s) \<and> held (flush bytes lim amount s) = held s \<and> rsCursor (flush bytes lim amount s) = rsCursor s
    \<and> (rsResyncQueued (flush bytes lim amount s) \<longrightarrow> rsResyncQueued s)"
  using assms flush_queue_keeps [of s bytes "rsQueue s" lim amount 0] by (auto simp: flush_def sender_ok_def held_def)

text \<open>What the connection has handed over, and what became of it.\<close>

inductive sender_run :: "(server_message \<Rightarrow> int) \<Rightarrow> sender_limits \<Rightarrow> server_message list \<Rightarrow> realtime_sender \<Rightarrow> bool" for bytes lim where
  run_start: "rsCursor s \<noteq> None \<Longrightarrow> rsQueue s = [] \<Longrightarrow> rsSent s = [] \<Longrightarrow> rsBytes s = 0 \<Longrightarrow> \<not> rsResyncQueued s \<Longrightarrow> sender_run bytes lim [] s"
| run_enqueue: "sender_run bytes lim ms s \<Longrightarrow> sender_run bytes lim (ms @ [m]) (enqueue bytes lim amount m s)"
| run_cursor: "sender_run bytes lim ms s \<Longrightarrow> sender_run bytes lim ms (updateCursor v s)"
| run_timer: "sender_run bytes lim ms s \<Longrightarrow> sender_run bytes lim ms (flush_timer bytes lim amount s)"

definition faithful :: "server_message list \<Rightarrow> realtime_sender \<Rightarrow> bool" where
  "faithful ms s \<longleftrightarrow> rsCursor s \<noteq> None \<and> (rsResyncQueued s \<longrightarrow> resynced (held s))
     \<and> (\<not> resynced (held s) \<longrightarrow> subseq (held s) ms \<and> filter authoritative_message (held s) = filter authoritative_message ms)"

lemma faithful_push:
  assumes "subseq xs ms" and "filter authoritative_message xs = filter authoritative_message ms"
  shows "subseq (xs @ [m]) (ms @ [m])" "filter authoritative_message (xs @ [m]) = filter authoritative_message (ms @ [m])"
  using assms by simp_all

lemma resync_queued:
  assumes "0 < slEvents lim" and "sender_ok bytes lim s" and "faithful ms s"
  shows "sender_ok bytes lim (queueResync bytes lim amount reason s) \<and> faithful (ms @ [m]) (queueResync bytes lim amount reason s)"
proof (cases "rsResyncQueued s")
  case True
  then show ?thesis using assms by (auto simp: queueResync_def faithful_def)
next
  case False
  obtain v where v: "rsCursor s = Some v" using assms(3) by (auto simp: faithful_def)
  let ?m = "ResyncMessage (ocScope v) reason (ocAfter v) (ocHighWater v) 1"
  let ?s = "s\<lparr>rsQueue := [(?m, True)], rsBytes := bytes ?m, rsResyncQueued := True\<rparr>"
  have "sender_ok bytes lim ?s" using assms(1) by (simp add: sender_ok_def authoritative_message_def)
  moreover have "resynced (held ?s)" by (simp add: held_def)
  ultimately show ?thesis
    using False v flush_keeps [of bytes lim ?s amount] by (simp add: queueResync_def Let_def faithful_def)
qed

lemma pushed:
  assumes "sender_ok bytes lim s" and "length (rsQueue s) < slEvents lim" and "faithful ms s"
  shows "sender_ok bytes lim (push_message bytes lim amount m s) \<and> faithful (ms @ [m]) (push_message bytes lim amount m s)"
proof -
  let ?s = "s\<lparr>rsQueue := rsQueue s @ [(m, authoritative_message m)], rsBytes := rsBytes s + bytes m\<rparr>"
  have "sender_ok bytes lim ?s" using assms by (auto simp: sender_ok_def)
  moreover have "held ?s = held s @ [m]" by (simp add: held_def)
  ultimately show ?thesis
    using assms(3) flush_keeps [of bytes lim ?s amount] by (auto simp: push_message_def faithful_def)
qed

lemma evicted:
  assumes "sender_ok bytes lim s" and "find (\<lambda>v. \<not> snd v) (rsQueue s) = Some r" and "faithful ms s"
  shows "sender_ok bytes lim (s\<lparr>rsQueue := remove_first (\<lambda>v. \<not> snd v) (rsQueue s), rsBytes := rsBytes s - bytes (fst r)\<rparr>)
    \<and> length (remove_first (\<lambda>v. \<not> snd v) (rsQueue s)) < slEvents lim
    \<and> faithful ms (s\<lparr>rsQueue := remove_first (\<lambda>v. \<not> snd v) (rsQueue s), rsBytes := rsBytes s - bytes (fst r)\<rparr>)"
proof -
  have removed: "find P q = Some r \<Longrightarrow> sum_list (map (\<lambda>v. bytes (fst v)) (remove_first P q)) = sum_list (map (\<lambda>v. bytes (fst v)) q) - bytes (fst r)
      \<and> Suc (length (remove_first P q)) = length q" for P and q :: "(server_message \<times> bool) list"
    by (induction q) auto
  have flags: "\<forall>v \<in> set (rsQueue s). snd v = authoritative_message (fst v)" using assms(1) by (simp add: sender_ok_def)
  have auth: "filter authoritative_message (map fst (remove_first (\<lambda>v. \<not> snd v) q)) = filter authoritative_message (map fst q)"
    and res: "resynced (map fst (remove_first (\<lambda>v. \<not> snd v) q)) = resynced (map fst q)"
    if "\<forall>v \<in> set q. snd v = authoritative_message (fst v)" for q
  proof -
    have r: "\<not> is_resync (fst v)" if "\<not> authoritative_message (fst v)" for v :: "server_message \<times> bool"
      using that by (cases "fst v") (auto simp: authoritative_message_def)
    show "filter authoritative_message (map fst (remove_first (\<lambda>v. \<not> snd v) q)) = filter authoritative_message (map fst q)"
      and "resynced (map fst (remove_first (\<lambda>v. \<not> snd v) q)) = resynced (map fst q)"
      using that r by (induction q) auto
  qed
  let ?s = "s\<lparr>rsQueue := remove_first (\<lambda>v. \<not> snd v) (rsQueue s), rsBytes := rsBytes s - bytes (fst r)\<rparr>"
  have "subseq (held ?s) (held s)"
    unfolding held_def by (auto intro!: list_emb_append_mono subseq_map remove_first_subseq)
  moreover have "resynced (held ?s) = resynced (held s)" "filter authoritative_message (held ?s) = filter authoritative_message (held s)"
    using auth [OF flags] res [OF flags] by (simp_all add: held_def)
  ultimately have "faithful ms ?s" using assms(3) by (auto simp: faithful_def intro: subseq_order.trans)
  moreover have "set (remove_first (\<lambda>v. \<not> snd v) (rsQueue s)) \<subseteq> set (rsQueue s)" by (rule remove_first_set)
  ultimately show ?thesis using assms(1) removed [OF assms(2)] flags by (auto simp: sender_ok_def)
qed

lemma enqueued:
  assumes "0 < slEvents lim" and "sender_ok bytes lim s" and "faithful ms s"
  shows "sender_ok bytes lim (enqueue bytes lim amount m s) \<and> faithful (ms @ [m]) (enqueue bytes lim amount m s)"
proof (cases "slEvents lim \<le> length (rsQueue s) \<or> slBytes lim < rsBytes s + bytes m")
  case True
  show ?thesis
  proof (cases "find (\<lambda>v. \<not> snd v) (rsQueue s)")
    case None
    then show ?thesis using True resync_queued [OF assms] by (simp add: enqueue_def)
  next
    case (Some r)
    then show ?thesis using True resync_queued [OF assms] evicted [OF assms(2) Some assms(3)] pushed by (auto simp: enqueue_def)
  qed
next
  case False
  then show ?thesis using pushed [OF assms(2) _ assms(3)] by (simp add: enqueue_def)
qed

lemma sender_runs:
  assumes "sender_run bytes lim ms s" and "0 < slEvents lim"
  shows "sender_ok bytes lim s \<and> faithful ms s"
  using assms
proof (induction rule: sender_run.induct)
  case (run_start s)
  then show ?case by (auto simp: sender_ok_def faithful_def held_def)
next
  case (run_enqueue ms s m amount)
  then show ?case using enqueued by blast
next
  case (run_cursor ms s v)
  then show ?case by (auto simp: updateCursor_def sender_ok_def faithful_def held_def)
next
  case (run_timer ms s amount)
  have "sender_ok bytes lim (s\<lparr>rsScheduled := False\<rparr>)" "held (s\<lparr>rsScheduled := False\<rparr>) = held s" using run_timer by (auto simp: sender_ok_def held_def)
  then show ?case using run_timer flush_keeps [of bytes lim "s\<lparr>rsScheduled := False\<rparr>" amount] by (auto simp: flush_timer_def faithful_def)
qed

end
