(* ===== verification/Event_Store_Props.thy ===== *)
theory Event_Store_Props
  imports Store_Steps
begin

section \<open>The event store: properties\<close>

text \<open>
  What holds of every reachable store, and of every sequence of operations that follows: the numbers of the events, the
  lives of runs, the single decision of an approval, the final answer of an idempotency key and the idempotence of
  \<open>ingest\<close>.  The sample store is used by the witnesses.
\<close>

subsection \<open>A sample store\<close>

definition sample_env :: store_env where
  "sample_env = \<lparr>evSha256 = (\<lambda>x. x), evMaxAgeMs = 1000000, evMaxRecords = 100, evMaxMetadataBytes = 65536\<rparr>"

definition sample_scope :: store_scope where
  "sample_scope = \<lparr>ssTenantId = ''t'', ssWorkspaceId = ''w'', ssSessionId = ''s''\<rparr>"

definition sample_session :: session_input where
  "sample_session = \<lparr>siScope = sample_scope, siStatus = None, siFolderId = None, siTitle = None, siProvider = None, siRequestedPolicy = None,
     siResolvedModel = None, siReasoningEffort = None, siCapabilities = None\<rparr>"

definition sample_event :: "string \<Rightarrow> event_payload \<Rightarrow> timeline_event" where
  "sample_event eid p = \<lparr>teEventId = eid, teTenantId = ''t'', teWorkspaceId = ''w'', teSessionId = ''s'', teThreadId = None, teTurnId = Some ''u'',
     teItemId = None, teSequence = 0, teOccurredAt = 1, teReceivedAt = 1, teSource = CodexAppServer, teSourceVersion = ''1'', teSourceMethod = ''m'',
     teVisibility = VisibleToUser, tePayload = p\<rparr>"

definition sample_raw :: "string \<Rightarrow> raw_input" where
  "sample_raw checksum = \<lparr>rwiChecksum = checksum, rwiEnvelope = Some JNull, rwiArtifactPointer = None, rwiSourceMethod = ''m'', rwiSourceVersion = ''1'',
     rwiSourceMetadata = [], rwiReceivedAt = 1\<rparr>"

definition sample_ingest :: "string \<Rightarrow> event_payload \<Rightarrow> approval_input option \<Rightarrow> ingest_input" where
  "sample_ingest key p a = \<lparr>inScope = sample_scope, inIngestKey = key, inRaw = sample_raw key, inEvent = sample_event key p, inApproval = a\<rparr>"

definition sample_approval :: approval_input where
  "sample_approval = \<lparr>apiApprovalId = ''a'', apiScope = sample_scope, apiTurnId = ''u'', apiItemId = ''i'', apiRequestId = RequestNumber 7,
     apiRuntimeInstanceId = ''rt'', apiProcessGeneration = 1, apiKind = CommandExecution, apiContext = [], apiAvailableDecisions = [], apiRequestedAt = 1\<rparr>"

definition sample_request :: event_payload where
  "sample_request = ApprovalRequested (RequestNumber 7) None CommandApproval None None None None"

definition sample1 :: store where
  "sample1 = snd (createSession sample_session 1 empty_store)"

definition sample2 :: store where
  "sample2 = snd (ingest sample_env (sample_ingest ''k1'' (AgentMessageDelta ''hi'') None) 2 sample1)"

definition sample3 :: store where
  "sample3 = snd (ingest sample_env (sample_ingest ''k2'' sample_request (Some sample_approval)) 3 sample2)"

definition sample_run :: run_input where
  "sample_run = \<lparr>riScope = sample_scope, riRunId = ''r'', riProvider = Codex, riRuntimeGeneration = None, riAttempt = None\<rparr>"

definition sample_end :: finalize_input where
  "sample_end = \<lparr>fiScope = sample_scope, fiRunId = ''r'', fiOutcome = Completed, fiComplete = True, fiOccurredAt = None\<rparr>"

definition sample4 :: store where
  "sample4 = snd (createDurableRun sample_run 4 sample3)"

definition sample5 :: store where
  "sample5 = snd (finalizeDurableRun sample_end 5 sample4)"

definition sample_key :: key_input where
  "sample_key = \<lparr>kiTenantId = ''t'', kiWorkspaceId = ''w'', kiScope = ''x'', kiKey = ''k''\<rparr>"

definition sample6 :: store where
  "sample6 = snd (reserveIdempotencyKey sample_key None ''h'' 6 sample5)"

definition sample7 :: store where
  "sample7 = snd (completeIdempotencyKey sample_key IdCompleted JNull 7 sample6)"

definition sample_resolution :: "approval_decision \<Rightarrow> int \<Rightarrow> resolution_input" where
  "sample_resolution decision version = \<lparr>reTenantId = ''t'', reWorkspaceId = ''w'', reApprovalId = ''a'', reExpectedVersion = version,
     reDecision = decision, reUserId = ''me''\<rparr>"

definition sample_taken :: store where
  "sample_taken = snd (beginApprovalResolution (sample_resolution AcceptOnce 1) sample3)"

lemma reachable_step: "reachable_store E d \<Longrightarrow> store_step E d d' \<Longrightarrow> reachable_store E d'"
  unfolding reachable_store_def by (rule reaches_step)

lemma one_step: "store_step E d d' \<Longrightarrow> reaches (store_step E) d d'"
  by (blast intro: reaches.intros)

lemma sample1_reachable: "reachable_store sample_env sample1"
  unfolding sample1_def by (rule reachable_step [OF _ step_log [OF op_session]]) (simp add: reachable_store_def reaches_refl)

lemma sample2_reachable: "reachable_store sample_env sample2"
  unfolding sample2_def by (intro reachable_step [OF sample1_reachable] step_log op_ingest)

lemma sample_step3: "reaches (store_step sample_env) sample2 sample3"
  unfolding sample3_def by (intro one_step step_log op_ingest)

lemma sample3_reachable: "reachable_store sample_env sample3"
  unfolding sample3_def by (intro reachable_step [OF sample2_reachable] step_log op_ingest)

lemma sample4_reachable: "reachable_store sample_env sample4"
  unfolding sample4_def by (intro reachable_step [OF sample3_reachable] step_run op_create_run)

lemma sample5_reachable: "reachable_store sample_env sample5"
  unfolding sample5_def by (intro reachable_step [OF sample4_reachable] step_run op_finalize_run)

lemma sample6_reachable: "reachable_store sample_env sample6"
  unfolding sample6_def by (intro reachable_step [OF sample5_reachable] step_key op_reserve)

lemma sample_restart: "reaches (store_step sample_env) sample5 (restart 9 sample5)"
  and sample_taken_restart: "reaches (store_step sample_env) sample_taken (restart 9 sample_taken)"
  by (intro one_step step_restart)+

lemma sample1_events: "stEvents sample1 = []"
  by code_simp

lemma sample2_events: "length (workspace_events ''w'' (stEvents sample2)) = 1"
  by code_simp

lemma sample3_events: "length (workspace_events ''w'' (stEvents sample3)) = 2"
  by code_simp

lemma sample4_runs: "map rnRunId (filter (active_run sample_scope) (stRuns sample4)) = [''r'']"
  by code_simp

lemma sample5_runs: "hd (stRuns sample5) \<in> set (stRuns sample5) \<and> rnStatus (hd (stRuns sample5)) = Ended Completed"
  by code_simp

lemma sample2_ingest: "\<exists>e. ingest sample_env (sample_ingest ''k1'' (AgentMessageDelta ''hi'') None) 2 sample1 = (Inr (e, False), sample2)"
proof -
  have "case fst (ingest sample_env (sample_ingest ''k1'' (AgentMessageDelta ''hi'') None) 2 sample1) of Inl err \<Rightarrow> False | Inr p \<Rightarrow> \<not> snd p"
    by code_simp
  then show ?thesis
    by (cases "ingest sample_env (sample_ingest ''k1'' (AgentMessageDelta ''hi'') None) 2 sample1") (auto simp: sample2_def split: sum.splits)
qed

lemma sample3_last: "\<exists>s. getSession sample_scope sample3 = (Inr s, sample3) \<and> seLastSequence s = 2"
proof -
  have "case fst (getSession sample_scope sample3) of Inl err \<Rightarrow> False | Inr s \<Rightarrow> seLastSequence s = 2" by code_simp
  then show ?thesis by (auto simp: getSession_def split: if_splits option.splits)
qed

lemma sample_begins: "beginApprovalResolution (sample_resolution AcceptOnce 1) sample3 = (Inr (hd (stApprovals sample_taken)), sample_taken)"
proof -
  have "fst (beginApprovalResolution (sample_resolution AcceptOnce 1) sample3) = Inr (hd (stApprovals sample_taken))" by code_simp
  then show ?thesis by (simp add: sample_taken_def prod_eq_iff)
qed

lemma sample_completes: "completeIdempotencyKey sample_key IdCompleted JNull 7 sample6 = (Inr (hd (stIdempotency sample7)), sample7)"
proof -
  have "fst (completeIdempotencyKey sample_key IdCompleted JNull 7 sample6) = Inr (hd (stIdempotency sample7))" by code_simp
  then show ?thesis by (simp add: sample7_def prod_eq_iff)
qed

lemma sample7_key: "idRequestHash (hd (stIdempotency sample7)) = ''h''"
  by code_simp

subsection \<open>The event log\<close>

lemma store_log: "reachable_store E d \<Longrightarrow> log_inv d"
  using reachable_store_inv by (simp add: store_inv_def)

lemma upto_length: "xs = [1..n] \<Longrightarrow> 0 \<le> n \<Longrightarrow> n = int (length xs)"
  by simp

lemma upto_append: "0 \<le> n \<Longrightarrow> n \<le> m \<Longrightarrow> [1..m] = [1..n] @ [n + 1..(m::int)]"
  by (cases "n = 0") (use upto_split2 [of 1 n m] in auto)

lemma workspace_numbers:
  assumes inv: "log_inv d"
  shows "map teSequence (workspace_events w (stEvents d)) = [1..int (length (workspace_events w (stEvents d)))]"
proof (cases "w \<in> sqWorkspaceId ` set (stSequences d)")
  case True
  then obtain q where "q \<in> set (stSequences d)" "sqWorkspaceId q = w" by auto
  then have *: "0 \<le> sqLastSequence q" "map teSequence (workspace_events w (stEvents d)) = [1..sqLastSequence q]"
    using log_invD(3) [OF inv] by (auto simp: sequence_ok_def)
  have "sqLastSequence q = int (length (workspace_events w (stEvents d)))"
    using upto_length [OF *(2) *(1)] unfolding length_map .
  then show ?thesis using *(2) by metis
next
  case False
  then have "workspace_events w (stEvents d) = []"
    unfolding workspace_events_def map_is_Nil_conv filter_empty_conv in_workspace_def using log_invD(5) [OF inv] by metis
  then show ?thesis by simp
qed

text \<open>C3. 
  The event log has no gaps: in every store the operations can reach, the events of a workspace are numbered 1, 2, ...
  in the order they were stored, the listeners were given exactly the stored events, and a session's last number is the
  number of its last event.
\<close>

theorem event_log_is_gap_free:
  assumes "reachable_store E d"
  shows "map teSequence (workspace_events w (stEvents d)) = [1..int (length (workspace_events w (stEvents d)))]
    \<and> stCommitted d = map erEvent (stEvents d)
    \<and> (\<forall>s \<in> set (stSessions d). seLastSequence s = last_number (stored_events (seScope s) (stEvents d)))"
  using workspace_numbers log_invD(8,13) store_log [OF assms] by blast

theorem event_log_is_gap_free_witness:
  "length (workspace_events ''w'' (stEvents sample3)) = 2 \<and> map teSequence (workspace_events ''w'' (stEvents sample3)) = [1..2]
   \<and> stCommitted sample3 = map erEvent (stEvents sample3)"
  using event_log_is_gap_free [OF sample3_reachable, of "''w''"] sample3_events by simp

lemma reachable_moves: "reachable_store E d \<Longrightarrow> reaches (store_step E) d d' \<Longrightarrow> store_inv d' \<and> store_moves d d'"
  using store_reaches_inv store_reaches_moves reachable_store_inv by blast

lemma reachable_more: "reachable_store E d \<Longrightarrow> reaches (store_step E) d d' \<Longrightarrow> reachable_store E d'"
  unfolding reachable_store_def by (rule reaches_trans)

text \<open>
  The event log only grows: whatever operations follow, restarts included, the stored events of a workspace stay as they
  are, and the numbers of the later ones continue theirs.
\<close>

theorem event_log_only_grows:
  assumes "reachable_store E d" and "reaches (store_step E) d d'"
  shows "\<exists>later. workspace_events w (stEvents d') = workspace_events w (stEvents d) @ later
    \<and> map teSequence later = [int (length (workspace_events w (stEvents d))) + 1..int (length (workspace_events w (stEvents d')))]"
proof -
  let ?n = "int (length (workspace_events w (stEvents d)))" and ?m = "int (length (workspace_events w (stEvents d')))"
  obtain evs where "stEvents d' = stEvents d @ evs"
    using reachable_moves [OF assms] by (auto simp: store_moves_def log_grows_def)
  then have grow: "workspace_events w (stEvents d') = workspace_events w (stEvents d) @ workspace_events w evs"
    by (simp add: workspace_events_def)
  have "[1..?n] @ map teSequence (workspace_events w evs) = [1..?m]"
    using workspace_numbers [OF store_log [OF assms(1)]] workspace_numbers [OF store_log [OF reachable_more [OF assms]]] grow
    by (metis map_append)
  also have "\<dots> = [1..?n] @ [?n + 1..?m]" using grow by (intro upto_append) simp_all
  finally show ?thesis using grow by blast
qed

theorem event_log_only_grows_witness:
  "\<exists>later. workspace_events ''w'' (stEvents sample3) = workspace_events ''w'' (stEvents sample2) @ later \<and> map teSequence later = [2..2]"
  using event_log_only_grows [OF sample2_reachable sample_step3, of "''w''"] sample3_events sample2_events by simp

subsection \<open>Runs\<close>

text \<open>C9. At most one run of a session is active (queued, running or interrupting) in any reachable store.\<close>

theorem one_active_run:
  assumes "reachable_store E d"
  shows "length (filter (active_run sc) (stRuns d)) \<le> 1"
  using reachable_store_inv [OF assms] distinct_on_active by (simp add: store_inv_def runs_inv_def runs_allowed_def)

theorem one_active_run_witness:
  "length (filter (active_run sample_scope) (stRuns sample4)) \<le> 1 \<and> map rnRunId (filter (active_run sample_scope) (stRuns sample4)) = [''r'']"
  using one_active_run [OF sample4_reachable] sample4_runs by simp

lemma moved_run:
  assumes "run_moves\<^sup>*\<^sup>* r r'"
  shows "rnScope r' = rnScope r \<and> rnRunId r' = rnRunId r \<and> rnProvider r' = rnProvider r \<and> run_life\<^sup>*\<^sup>* (rnStatus r) (rnStatus r')"
  by (rule run_rows.moves_keep [OF assms]) (auto simp: run_moves_def intro: rtranclp.rtrancl_into_rtrancl)

lemma ended_run_stays: "run_moves r r' \<Longrightarrow> rnStatus r = Ended oc \<Longrightarrow> r' = r"
  by (auto simp: run_moves_def recoverable_def elim: run_life_EndedE)

text \<open>C8. 
  A run keeps its identity and provider and moves along its life cycle only, whatever operations follow: queued, running,
  interrupting or in need of recovery, and ended; the row of a run that has ended never changes again.
\<close>

theorem run_follows_its_life:
  assumes "reachable_store E d" and "reaches (store_step E) d d'" and "r \<in> set (stRuns d)"
  shows "(\<exists>r' \<in> set (stRuns d'). rnScope r' = rnScope r \<and> rnRunId r' = rnRunId r \<and> rnProvider r' = rnProvider r
      \<and> run_life\<^sup>*\<^sup>* (rnStatus r) (rnStatus r')) \<and> (rnStatus r = Ended outcome \<longrightarrow> r \<in> set (stRuns d'))"
proof -
  have m: "(table_moves run_moves new_run)\<^sup>*\<^sup>* (stRuns d) (stRuns d')"
    using reachable_moves [OF assms(1,2)] by (simp add: store_moves_def runs_move_def)
  have "r \<in> set (stRuns d')" if "rnStatus r = Ended outcome"
    using run_rows.final_row_stays [OF m assms(3)] ended_run_stays that by blast
  then show ?thesis using run_rows.row_survives [OF m assms(3)] moved_run by blast
qed

theorem run_follows_its_life_witness:
  "hd (stRuns sample5) \<in> set (stRuns (restart 9 sample5)) \<and> rnStatus (hd (stRuns sample5)) = Ended Completed"
  using run_follows_its_life [OF sample5_reachable sample_restart, of "hd (stRuns sample5)" Completed] sample5_runs by simp

subsection \<open>Approvals\<close>

definition taken :: "approval_row \<Rightarrow> approval_row \<Rightarrow> bool" where
  "taken a x \<longleftrightarrow> avStatus x \<noteq> ApPending \<and> choice x = choice a \<and> avApprovalId x = avApprovalId a \<and> avScope x = avScope a \<and> avVersion a \<le> avVersion x"

lemma taken_moves: "taken a x \<Longrightarrow> approval_moves x y \<Longrightarrow> taken a y"
  by (auto simp: taken_def approval_moves_def elim!: approval_lifeE)

lemma getApproval_Inr:
  "getApproval t w aid d = (Inr a, d') \<Longrightarrow> d' = d \<and> a \<in> set (stApprovals d) \<and> approval_key t w aid a"
  by (auto simp: getApproval_def find_Some_iff approval_key_def split: option.splits)

lemma getApproval_unique:
  assumes "approvals_inv (stApprovals d)" and "a \<in> set (stApprovals d)" and "approval_key t w aid a"
  shows "getApproval t w aid d = (Inr a, d)"
proof -
  let ?P = "\<lambda>a. ssTenantId (avScope a) = t \<and> ssWorkspaceId (avScope a) = w \<and> avApprovalId a = aid"
  have "find ?P (stApprovals d) = Some b \<Longrightarrow> b = a" for b
  proof -
    assume "find ?P (stApprovals d) = Some b"
    then have "b \<in> set (stApprovals d)" "avApprovalId b = avApprovalId a" using assms(3) by (auto simp: find_Some_iff approval_key_def)
    then show "b = a" using assms(1,2) same_by_key [of avApprovalId "stApprovals d" b a] by (simp add: approvals_inv_def)
  qed
  moreover have "find ?P (stApprovals d) \<noteq> None"
    using assms(2,3) by (auto simp: find_None_iff approval_key_def)
  ultimately show ?thesis unfolding getApproval_def by (cases "find ?P (stApprovals d)") simp_all
qed

lemma begin_takes:
  assumes inv: "approvals_inv (stApprovals d)" and "beginApprovalResolution i d = (Inr a, d1)"
  shows "a \<in> set (stApprovals d1) \<and> approval_key (reTenantId i) (reWorkspaceId i) (reApprovalId i) a
    \<and> avStatus a = ApResolving \<and> choice a = (Some (reDecision i), Some (reUserId i)) \<and> avVersion a = reExpectedVersion i + 1"
proof -
  let ?P = "\<lambda>x. approval_key (reTenantId i) (reWorkspaceId i) (reApprovalId i) x \<and> avStatus x = ApPending \<and> avVersion x = reExpectedVersion i"
  let ?f = "\<lambda>x. x\<lparr>avStatus := ApResolving, avSelectedDecision := Some (reDecision i), avResolvingUserId := Some (reUserId i), avVersion := avVersion x + 1\<rparr>"
  let ?T = "getApproval (reTenantId i) (reWorkspaceId i) (reApprovalId i)" and ?d = "d\<lparr>stApprovals := update_where ?P ?f (stApprovals d)\<rparr>"
  obtain u d0 where "transaction (st_bind ?T (\<lambda>a d. if avStatus a \<noteq> ApPending then (Inl APPROVAL_ALREADY_RESOLVED, d)
       else if avVersion a \<noteq> reExpectedVersion i then (Inl APPROVAL_VERSION_CONFLICT, d)
       else (Inr (), d\<lparr>stApprovals := update_where ?P ?f (stApprovals d)\<rparr>))) d = (Inr u, d0)"
    and n0: "notify_approval (reTenantId i) (reWorkspaceId i) (reApprovalId i) d0 = (Inr a, d1)"
    using assms(2) unfolding beginApprovalResolution_def by (rule st_bind_InrE)
  then obtain a0 da where g: "?T d = (Inr a0, da)" and r: "(if avStatus a0 \<noteq> ApPending then (Inl APPROVAL_ALREADY_RESOLVED, da)
       else if avVersion a0 \<noteq> reExpectedVersion i then (Inl APPROVAL_VERSION_CONFLICT, da)
       else (Inr (), da\<lparr>stApprovals := update_where ?P ?f (stApprovals da)\<rparr>)) = (Inr u, d0)"
    unfolding transaction_Inr by (elim st_bind_InrE)
  have "da = d" using getApproval_Inr [OF g] by simp
  then have p: "avStatus a0 = ApPending" "avVersion a0 = reExpectedVersion i" and n: "notify_approval (reTenantId i) (reWorkspaceId i) (reApprovalId i) ?d = (Inr a, d1)"
    using r n0 by (auto split: if_splits)
  have a0: "a0 \<in> set (stApprovals d)" "approval_key (reTenantId i) (reWorkspaceId i) (reApprovalId i) a0" using getApproval_Inr [OF g] by auto
  obtain d2 where g2: "getApproval (reTenantId i) (reWorkspaceId i) (reApprovalId i) (d\<lparr>stApprovals := update_where ?P ?f (stApprovals d)\<rparr>) = (Inr a, d2)"
    and d1: "stApprovals d1 = stApprovals d2"
    using n unfolding notify_approval_def by (auto elim!: st_bind_InrE)
  have a: "a \<in> set (update_where ?P ?f (stApprovals d))" "approval_key (reTenantId i) (reWorkspaceId i) (reApprovalId i) a" "stApprovals d2 = update_where ?P ?f (stApprovals d)"
    using getApproval_Inr [OF g2] by auto
  obtain x where x: "x \<in> set (stApprovals d)" "a = (if ?P x then ?f x else x)" using in_update_where [OF a(1)] by blast
  then have "avApprovalId x = avApprovalId a0" using a(2) a0(2) by (auto simp: approval_key_def split: if_splits)
  then have "x = a0" using same_by_key [OF _ x(1) a0(1)] inv by (auto simp: approvals_inv_def)
  then have "a = ?f a0" using x(2) p a0(2) by simp
  then show ?thesis using a d1 p by (simp add: choice_def)
qed

text \<open>C6. 
  An approval is decided once: when \<open>beginApprovalResolution\<close> took it for a decision, then after any further operations
  the approval still carries this decision and this user with a version that only grew, and every other attempt to
  decide it is refused as already resolved and changes nothing.
\<close>

theorem approval_is_decided_once:
  assumes "reachable_store E d" and "beginApprovalResolution i d = (Inr a, d1)" and "reaches (store_step E) d1 d2"
    and "reTenantId j = reTenantId i" "reWorkspaceId j = reWorkspaceId i" "reApprovalId j = reApprovalId i"
  shows "avSelectedDecision a = Some (reDecision i) \<and> avVersion a = reExpectedVersion i + 1
    \<and> (\<exists>b. fst (getApproval (reTenantId i) (reWorkspaceId i) (reApprovalId i) d2) = Inr b \<and> avSelectedDecision b = Some (reDecision i)
      \<and> avResolvingUserId b = Some (reUserId i) \<and> avVersion a \<le> avVersion b)
    \<and> beginApprovalResolution j d2 = (Inl APPROVAL_ALREADY_RESOLVED, d2)"
proof -
  have inv: "store_inv d" by (rule reachable_store_inv [OF assms(1)])
  have t: "a \<in> set (stApprovals d1)" "approval_key (reTenantId i) (reWorkspaceId i) (reApprovalId i) a" "avStatus a = ApResolving"
    "choice a = (Some (reDecision i), Some (reUserId i))" "avVersion a = reExpectedVersion i + 1"
    using begin_takes [OF _ assms(2)] inv by (auto simp: store_inv_def)
  have "store_step E d d1" using step_approval [OF op_begin [of E d i]] assms(2) by simp
  then have "store_inv d1" using store_step_effect inv by blast
  then have inv2: "store_inv d2" and m: "(table_moves approval_moves new_approval)\<^sup>*\<^sup>* (stApprovals d1) (stApprovals d2)"
    using store_reaches_inv store_reaches_moves assms(3) by (auto simp: store_moves_def)
  obtain b where b: "b \<in> set (stApprovals d2)" "approval_moves\<^sup>*\<^sup>* a b" using approval_rows.row_survives [OF m t(1)] by blast
  have "taken a a" using t(3) by (simp add: taken_def)
  then have tb: "taken a b" by (rule approval_rows.moves_keep [OF b(2)]) (rule taken_moves)
  then have g: "getApproval (reTenantId i) (reWorkspaceId i) (reApprovalId i) d2 = (Inr b, d2)"
    using getApproval_unique [OF _ b(1)] inv2 t(2) by (auto simp: store_inv_def taken_def approval_key_def)
  have "avSelectedDecision a = Some (reDecision i) \<and> avVersion a = reExpectedVersion i + 1" using t by (simp add: choice_def)
  moreover have "\<exists>b. fst (getApproval (reTenantId i) (reWorkspaceId i) (reApprovalId i) d2) = Inr b \<and> avSelectedDecision b = Some (reDecision i)
      \<and> avResolvingUserId b = Some (reUserId i) \<and> avVersion a \<le> avVersion b"
    using g tb t(4) by (auto simp: taken_def choice_def)
  moreover have "beginApprovalResolution j d2 = (Inl APPROVAL_ALREADY_RESOLVED, d2)"
    using g tb assms(4-6) by (simp add: beginApprovalResolution_def st_bind_def transaction_def taken_def)
  ultimately show ?thesis by blast
qed

theorem approval_is_decided_once_witness:
  "beginApprovalResolution (sample_resolution Decline 1) (restart 9 sample_taken) = (Inl APPROVAL_ALREADY_RESOLVED, restart 9 sample_taken)"
  using approval_is_decided_once [OF sample3_reachable sample_begins sample_taken_restart, of "sample_resolution Decline 1"]
  by (simp add: sample_resolution_def)

subsection \<open>Idempotency keys\<close>

lemma find_key:
  assumes "keys_inv ks" and "k \<in> set ks" and "same_key i k"
  shows "find (same_key i) ks = Some k"
proof -
  have "find (same_key i) ks = Some b \<Longrightarrow> b = k" for b
    using assms same_by_key [of key_identity ks k b] unfolding find_Some_iff keys_inv_def same_key_identity by (metis nth_mem)
  then show ?thesis using assms(2,3) by (cases "find (same_key i) ks") (auto simp: find_None_iff)
qed

lemma getIdempotencyKey_Inr: "getIdempotencyKey i d = (Inr k, d') \<Longrightarrow> d' = d \<and> k \<in> set (stIdempotency d) \<and> same_key i k"
  by (auto simp: getIdempotencyKey_def find_Some_iff split: option.splits)

definition answered :: "idempotency_row \<Rightarrow> idempotency_status \<Rightarrow> json \<Rightarrow> bool" where
  "answered k status response \<longleftrightarrow> idStatus k = status \<and> stringify (case idResponse k of Some r \<Rightarrow> r | None \<Rightarrow> JNull) = stringify response"

lemma complete_answers:
  assumes inv: "keys_inv (stIdempotency d)" and c: "completeIdempotencyKey i status response now d = (Inr k, d1)"
  shows "k \<in> set (stIdempotency d1) \<and> same_key i k \<and> answered k status response"
proof (cases "list_ex (\<lambda>k. same_key i k \<and> idStatus k = IdPending) (stIdempotency d)")
  case True
  let ?P = "\<lambda>k. same_key i k \<and> idStatus k = IdPending" and ?f = "\<lambda>k. k\<lparr>idStatus := status, idResponse := Some response, idUpdatedAt := now\<rparr>"
  have g: "getIdempotencyKey i (d\<lparr>stIdempotency := update_where ?P ?f (stIdempotency d)\<rparr>) = (Inr k, d1)"
    using c True by (simp add: completeIdempotencyKey_def Let_def)
  obtain y where y: "y \<in> set (stIdempotency d)" "?P y" using True by (auto simp: list_ex_iff)
  have k: "k \<in> set (update_where ?P ?f (stIdempotency d))" "same_key i k" "stIdempotency d1 = update_where ?P ?f (stIdempotency d)"
    using getIdempotencyKey_Inr [OF g] by auto
  obtain x where x: "x \<in> set (stIdempotency d)" "k = (if ?P x then ?f x else x)" using in_update_where [OF k(1)] by blast
  then have "same_key i x" using k(2) by (auto simp: same_key_def split: if_splits)
  then have "x = y" using find_key [OF inv x(1), of i] find_key [OF inv y(1), of i] y(2) by simp
  then have "k = ?f y" using x(2) y(2) by simp
  then show ?thesis using k by (simp add: answered_def)
next
  case False
  then have "st_bind (getIdempotencyKey i) (\<lambda>k. st_return (if idStatus k = status \<and> stringify (case idResponse k of Some r \<Rightarrow> r | None \<Rightarrow> JNull) = stringify response
                     then Inr k else Inl IDEMPOTENCY_STATE_CONFLICT)) d = (Inr k, d1)"
    using c by (simp only: completeIdempotencyKey_def Let_def if_False)
  then obtain k0 d0 where "getIdempotencyKey i d = (Inr k0, d0)" and "st_return (if idStatus k0 = status \<and> stringify (case idResponse k0 of Some r \<Rightarrow> r | None \<Rightarrow> JNull) = stringify response
                     then Inr k0 else Inl IDEMPOTENCY_STATE_CONFLICT) d0 = (Inr k, d1)"
    by (rule st_bind_InrE)
  then show ?thesis using getIdempotencyKey_Inr [of i d k0 d0] by (auto simp: answered_def split: if_splits)
qed

text \<open>C7. 
  A recorded answer is final: once \<open>completeIdempotencyKey\<close> has answered, the key keeps this answer whatever operations
  follow, a repetition of the request is given it and is not carried out again, and a different request under the same
  key is refused.
\<close>

theorem recorded_answer_is_final:
  assumes "reachable_store E d" and "completeIdempotencyKey i status response now d = (Inr k, d1)" and "status \<noteq> IdPending"
    and "reaches (store_step E) d1 d2"
    and "kiTenantId i \<noteq> []" "kiWorkspaceId i \<noteq> []" "kiScope i \<noteq> []" "kiKey i \<noteq> []" "hash \<noteq> []"
  shows "answered k status response \<and> getIdempotencyKey i d2 = (Inr k, d2)
    \<and> reserveIdempotencyKey i session hash later d2 = (if hash = idRequestHash k then Inr (k, False) else Inl IDEMPOTENCY_HASH_CONFLICT, d2)"
proof -
  have inv: "store_inv d" by (rule reachable_store_inv [OF assms(1)])
  have k: "k \<in> set (stIdempotency d1)" "same_key i k" "answered k status response"
    using complete_answers [OF _ assms(2)] inv by (auto simp: store_inv_def)
  have "store_step E d d1" using step_key [OF op_complete [OF assms(3), of d i response now]] assms(2) by simp
  then have "store_inv d1" using store_step_effect inv by blast
  then have inv2: "keys_inv (stIdempotency d2)" and m: "(table_moves key_moves new_key)\<^sup>*\<^sup>* (stIdempotency d1) (stIdempotency d2)"
    using store_reaches_inv [OF assms(4)] store_reaches_moves [OF assms(4)] by (auto simp: store_moves_def store_inv_def)
  have "k \<in> set (stIdempotency d2)"
    by (rule key_rows.final_row_stays [OF m k(1)]) (use k(3) assms(3) in \<open>auto simp: key_moves_def answered_def\<close>)
  then have f: "find (same_key i) (stIdempotency d2) = Some k" and ex: "list_ex (same_key i) (stIdempotency d2)"
    using find_key [OF inv2] k(2) by (auto simp: list_ex_iff)
  have g: "getIdempotencyKey i d2 = (Inr k, d2)" using f by (simp add: getIdempotencyKey_def)
  have "reserveIdempotencyKey i session hash later d2 = (if hash = idRequestHash k then Inr (k, False) else Inl IDEMPOTENCY_HASH_CONFLICT, d2)"
    using assms(5-9) g ex by (auto simp: reserveIdempotencyKey_def Let_def st_bind_def)
  then show ?thesis using g k(3) by blast
qed

theorem recorded_answer_is_final_witness:
  "reserveIdempotencyKey sample_key None ''h'' 9 sample7 = (Inr (hd (stIdempotency sample7), False), sample7)"
  using recorded_answer_is_final [OF sample6_reachable sample_completes, of sample7 "''h''" None 9] sample7_key
  by (simp add: sample_key_def reaches_refl)

subsection \<open>Ingesting\<close>

lemma find_append: "find P (xs @ ys) = (case find P xs of None \<Rightarrow> find P ys | Some x \<Rightarrow> Some x)"
  by (induction xs) auto

lemma ingested_stays: "log_grows d1 d2 \<Longrightarrow> ingested sc key d1 = Some p \<Longrightarrow> ingested sc key d2 = Some p"
  by (auto simp: log_grows_def ingested_def find_append split: option.splits)

lemma ingested_new:
  assumes inv: "log_inv d" and st: "store_event E i now d = (Inr e, d1)" and v: "log_view d2 = log_view (d1\<lparr>stCommitted := c\<rparr>)"
  shows "ingested (inScope i) (inIngestKey i) d2 = Some (raw_of (inScope i) (inIngestKey i) (inRaw i) now (stRawNext d), e)"
proof -
  let ?raw = "raw_of (inScope i) (inIngestKey i) (inRaw i) now (stRawNext d)"
  have d2: "stRaw d2 = stRaw d @ [?raw]" "stEvents d2 = stEvents d @ [\<lparr>erEvent = e, erRawId = stRawNext d\<rparr>]"
    "\<not> list_ex (same_ingest (inScope i) (inIngestKey i)) (stRaw d)"
    using store_event_effect [OF st] v by (auto simp: log_view_def)
  have "find (same_ingest (inScope i) (inIngestKey i)) (stRaw d) = None" using d2(3) by (auto simp: find_None_iff list_ex_iff)
  moreover have "same_ingest (inScope i) (inIngestKey i) ?raw" "rwId ?raw = stRawNext d" by (simp_all add: same_ingest_def raw_of_def)
  moreover have "find (\<lambda>x. erRawId x = stRawNext d) (stEvents d) = None"
    using log_invD(7,10) [OF inv] by (fastforce simp: find_None_iff)
  ultimately show ?thesis using d2(1,2) by (simp add: ingested_def find_append)
qed

text \<open>What a successful \<open>ingest\<close> leaves behind.\<close>

lemma ingest_committed:
  assumes "ingest E i now d = (Inr (e, dup), d1)"
  obtains dt where "ingest_tx E i now d = (Inr (e, dup), dt)" "log_view d1 = log_view (if dup then dt else dt\<lparr>stCommitted := stCommitted dt @ [e]\<rparr>)"
    "assertScope (inScope i)" "inIngestKey i \<noteq> []"
proof -
  let ?k = "\<lambda>(e, duplicate) d1. if duplicate then (Inr (e, True), d1)
       else let d2 = d1\<lparr>stCommitted := stCommitted d1 @ [e]\<rparr>
          in case inApproval i of
               None \<Rightarrow> (Inr (e, False), d2)
             | Some a \<Rightarrow> st_bind (notify_approval (ssTenantId (inScope i)) (ssWorkspaceId (inScope i)) (apiApprovalId a))
                          (\<lambda>_. st_return (Inr (e, False))) d2"
  have ok: "assertScope (inScope i)" "inIngestKey i \<noteq> []" and "st_bind (transaction (ingest_tx E i now)) ?k d = (Inr (e, dup), d1)"
    using assms by (auto simp: ingest_def split: if_splits)
  then obtain p dt where tx: "transaction (ingest_tx E i now) d = (Inr p, dt)" and k: "?k p dt = (Inr (e, dup), d1)" by (elim st_bind_InrE)
  have notify: "log_view d3 = log_view d2 \<and> x = y" if n: "st_bind (notify_approval t w a) (\<lambda>_. st_return (Inr x)) d2 = (Inr y, d3)" for d2 d3 t w a and x y :: "timeline_event \<times> bool"
  proof -
    obtain u dn where "notify_approval t w a d2 = (Inr u, dn)" and "st_return (Inr x) dn = (Inr y, d3)" using n by (rule st_bind_InrE)
    then show ?thesis using same_notify [of log_view d2 t w a] by (simp add: same_def)
  qed
  have "p = (e, dup) \<and> log_view d1 = log_view (if dup then dt else dt\<lparr>stCommitted := stCommitted dt @ [e]\<rparr>)"
    using k by (cases p) (auto simp: Let_def dest!: notify split: if_splits option.splits)
  then show thesis using that tx ok by (simp add: transaction_Inr)
qed

lemma ingest_recorded:
  assumes inv: "log_inv d" and "ingest E i now d = (Inr (e, dup), d1)"
  obtains w where "ingested (inScope i) (inIngestKey i) d1 = Some (w, e)" "rwScope w = inScope i" "rwChecksum w = rwiChecksum (inRaw i)"
    "assertScope (inScope i)" "inIngestKey i \<noteq> []" "timelineEventSchema e"
    "\<not> dup \<Longrightarrow> teSequence e = int (length (workspace_events (ssWorkspaceId (inScope i)) (stEvents d))) + 1"
proof -
  obtain dt where tx: "ingest_tx E i now d = (Inr (e, dup), dt)" and v: "log_view d1 = log_view (if dup then dt else dt\<lparr>stCommitted := stCommitted dt @ [e]\<rparr>)"
    and ok: "assertScope (inScope i)" "inIngestKey i \<noteq> []" using assms(2) by (rule ingest_committed)
  from tx show thesis
  proof (cases rule: ingest_tx_cases)
    case (duplicate w)
    then have "ingested (inScope i) (inIngestKey i) d1 = Some (w, e)" using v by (auto simp: ingested_def log_view_def split: option.splits)
    moreover have "timelineEventSchema e"
      using duplicate(3) log_invD(4) [OF inv] by (auto simp: ingested_def find_Some_iff split: option.splits)
    ultimately show thesis using that [of w] duplicate ok by simp
  next
    case stored
    from stored(3) obtain n d2 where n: "next_sequence (inScope i) now d = (Inr n, d2)" "e = (inEvent i)\<lparr>teSequence := n\<rparr>" "timelineEventSchema e"
      by (rule store_event_effect)
    have "length [1..n - 1] = length (workspace_events (ssWorkspaceId (inScope i)) (stEvents d))" and "1 \<le> n"
      using next_sequence_effect(3) [OF inv n(1)] unfolding continues_def by (metis length_map)+
    then have "teSequence e = int (length (workspace_events (ssWorkspaceId (inScope i)) (stEvents d))) + 1" using n(2) by simp
    moreover have "ingested (inScope i) (inIngestKey i) d1 = Some (raw_of (inScope i) (inIngestKey i) (inRaw i) now (stRawNext d), e)"
      by (rule ingested_new [OF inv stored(3)]) (use v stored(1) in simp)
    ultimately show thesis using that ok n(3) by (simp add: raw_of_def)
  qed
qed

text \<open>C4. 
  Ingesting is idempotent: when \<open>ingest\<close> stored or found an event, then after any further operations the same key with
  the same checksum is answered with this event as a duplicate and with another checksum by \<open>INGEST_KEY_CONFLICT\<close>, the
  store unchanged in both cases; a new event gets the next number of its workspace.
\<close>

theorem ingest_is_idempotent:
  assumes "reachable_store E d" and "ingest E i now d = (Inr (e, dup), d1)" and "reaches (store_step E) d1 d2"
    and "inScope j = inScope i" "inIngestKey j = inIngestKey i" "event_scope (inEvent j) = inScope i" "\<not> invalid_storage (inRaw j)"
    and "getSession (inScope i) d2 = (Inr s, d2)"
  shows "ingest E j later d2 = (if rwiChecksum (inRaw j) = rwiChecksum (inRaw i) then Inr (e, True) else Inl INGEST_KEY_CONFLICT, d2)
    \<and> findIngestedEvent (inScope i) (inIngestKey i) (rwiChecksum (inRaw i)) d2 = Inr (Some e)
    \<and> (\<not> dup \<longrightarrow> teSequence e = int (length (workspace_events (ssWorkspaceId (inScope i)) (stEvents d))) + 1)"
proof -
  have inv: "store_inv d" by (rule reachable_store_inv [OF assms(1)])
  have "store_step E d d1" using step_log [OF op_ingest [of E d i now]] assms(2) by simp
  then have "store_inv d1" using store_step_effect inv by blast
  then have g: "log_grows d1 d2" using store_reaches_moves [OF assms(3)] by (simp add: store_moves_def)
  obtain w where w: "ingested (inScope i) (inIngestKey i) d1 = Some (w, e)" "rwScope w = inScope i" "rwChecksum w = rwiChecksum (inRaw i)"
    and ok: "assertScope (inScope i)" "inIngestKey i \<noteq> []" "timelineEventSchema e"
    and n: "\<not> dup \<Longrightarrow> teSequence e = int (length (workspace_events (ssWorkspaceId (inScope i)) (stEvents d))) + 1"
    using ingest_recorded [OF _ assms(2)] inv by (auto simp: store_inv_def)
  have w2: "ingested (inScope i) (inIngestKey i) d2 = Some (w, e)" by (rule ingested_stays [OF g w(1)])
  have "ingest E j later d2 = (if rwiChecksum (inRaw j) = rwiChecksum (inRaw i) then Inr (e, True) else Inl INGEST_KEY_CONFLICT, d2)"
    using assms(4-8) ok w2 w by (simp add: parseTimelineEvent_def ingest_def st_bind_def transaction_def ingest_tx_def)
  moreover have "findIngestedEvent (inScope i) (inIngestKey i) (rwiChecksum (inRaw i)) d2 = Inr (Some e)"
    using ok w2 w by (simp add: parseTimelineEvent_def findIngestedEvent_def)
  ultimately show ?thesis using n by blast
qed

theorem ingest_is_idempotent_witness:
  "\<exists>e. ingest sample_env (sample_ingest ''k1'' (AgentMessageDelta ''again'') None) 9 sample3 = (Inr (e, True), sample3) \<and> teSequence e = 1"
proof -
  obtain e where e: "ingest sample_env (sample_ingest ''k1'' (AgentMessageDelta ''hi'') None) 2 sample1 = (Inr (e, False), sample2)" using sample2_ingest by blast
  obtain s where s: "getSession sample_scope sample3 = (Inr s, sample3)" using sample3_last by blast
  show ?thesis
    using ingest_is_idempotent [OF sample1_reachable e sample_step3, of "sample_ingest ''k1'' (AgentMessageDelta ''again'') None" s 9] s sample1_events
    by (auto simp: workspace_events_def sample_ingest_def sample_event_def sample_scope_def sample_raw_def event_scope_def invalid_storage_def)
qed

end
