(* ===== verification/Realtime_Props.thy ===== *)
theory Realtime_Props
  imports Realtime_Inv Event_Store_Props
begin

section \<open>The realtime connection: properties\<close>



text \<open>The events of a session after a cursor.\<close>

definition session_after :: "store_scope \<Rightarrow> int \<Rightarrow> store \<Rightarrow> timeline_event list" where
  "session_after sc after d = filter (\<lambda>e. after < teSequence e) (stored_events sc (stEvents d))"

text \<open>C5. 
  The replay loop ends: for a live session and a cursor that is not beyond its last event, subscribing returns, and its
  pages of at most 500 events are together exactly the events of the session after the cursor, in order.
\<close>

theorem replay_is_complete:
  assumes "reachable_store E d" and "getSession sc d = (Inr ses, d)" and "0 \<le> after" and "after \<le> seLastSequence ses"
  shows "\<exists>pages c'. subscribe_replay \<lparr>smScope = sc, smAfter = after\<rparr> d c = Some (True, c')
    \<and> cnOut c' = cnOut c @ map (ReplayMessage sc (seLastSequence ses)) pages
    \<and> concat pages = session_after sc after d \<and> list_all (\<lambda>p. length p \<le> 500) pages"
  using subscribe_replays [OF store_log [OF assms(1)] assms(2-4), of c] unfolding session_after_def by fastforce

theorem replay_is_complete_witness:
  "\<exists>pages c' high. subscribe_replay \<lparr>smScope = sample_scope, smAfter = 1\<rparr> sample3 new_connection = Some (True, c')
    \<and> cnOut c' = map (ReplayMessage sample_scope high) pages \<and> concat pages = session_after sample_scope 1 sample3"
proof -
  obtain s where s: "getSession sample_scope sample3 = (Inr s, sample3)" "seLastSequence s = 2" using sample3_last by blast
  show ?thesis
    using replay_is_complete [OF sample3_reachable s(1), of 1 new_connection] s(2) by (auto simp: new_connection_def)
qed




subsection \<open>The sender\<close>





subsection \<open>From the log to the socket\<close>





subsection \<open>Where events wait or are lost\<close>

text \<open>
  \<open>#flush\<close> asks for a timer only when the socket holds more than the limit; when it stops because the limit is just
  reached, the rest of the queue waits for the next message.
\<close>

lemma full_socket_leaves_the_queue:
  "amount 0 = slBytes lim \<Longrightarrow> rsQueue s \<noteq> [] \<Longrightarrow> flush bytes lim amount s = s"
  by (cases "rsQueue s") (auto simp: flush_def)

text \<open>
  The events of a session in a shared folder are delivered as the answers of the folder service come in; an event that a
  later one has overtaken is not sent any more.
\<close>

lemma overtaken_event_is_not_sent:
  assumes "cnSubscription c = Some s" and "\<not> sbReplaying s" and "sbHighWater s < teSequence e" and "sbLastSent s < teSequence e" and "teSequence e' < teSequence e"
  shows "deliver bytes d e' (deliver bytes d e c) = deliver bytes d e c"
  using assms by (simp add: deliver_def)

end

