(* ===== verification/Store_Sides.thy ===== *)
theory Store_Sides
  imports Store_Steps
begin

section \<open>The event store: tables beside the log\<close>

text \<open>
  The usage ledger and the catalog are tables that most operations leave alone.  \<open>side_table\<close> is a view of the store that does
  not read the tables of sessions, runs, events, approvals, keys and audit records; every operation on those keeps it.  It is
  interpreted on the ledger and on the catalog.
\<close>

lemma distinct_find:
  "distinct (map f xs) \<Longrightarrow> x \<in> set xs \<Longrightarrow> (\<And>y. P y \<longleftrightarrow> f y = f x) \<Longrightarrow> find P xs = Some x"
  by (induction xs) (auto simp: rev_image_eqI)


lemma distinct_filter_one: "distinct (map f xs) \<Longrightarrow> x \<in> set xs \<Longrightarrow> filter (\<lambda>y. f y = f x) xs = [x]"
proof (induction xs)
  case (Cons a xs)
  then show ?case by (auto simp: filter_empty_conv) (metis image_eqI)+
qed simp

locale side_table =
  fixes v :: "store \<Rightarrow> 'v"
  assumes tables [simp]:
    "\<And>d x. v (d\<lparr>stFolders := x\<rparr>) = v d" "\<And>d x. v (d\<lparr>stSessions := x\<rparr>) = v d" "\<And>d x. v (d\<lparr>stTurns := x\<rparr>) = v d"
    "\<And>d x. v (d\<lparr>stRuns := x\<rparr>) = v d" "\<And>d x. v (d\<lparr>stMessages := x\<rparr>) = v d" "\<And>d x. v (d\<lparr>stSequences := x\<rparr>) = v d"
    "\<And>d x. v (d\<lparr>stRaw := x\<rparr>) = v d" "\<And>d x. v (d\<lparr>stRawNext := x\<rparr>) = v d" "\<And>d x. v (d\<lparr>stEvents := x\<rparr>) = v d"
    "\<And>d x. v (d\<lparr>stIdempotency := x\<rparr>) = v d" "\<And>d x. v (d\<lparr>stApprovals := x\<rparr>) = v d" "\<And>d x. v (d\<lparr>stAudit := x\<rparr>) = v d"
    "\<And>d x. v (d\<lparr>stAuditNext := x\<rparr>) = v d" "\<And>d x. v (d\<lparr>stCommitted := x\<rparr>) = v d" "\<And>d x. v (d\<lparr>stApprovalNotices := x\<rparr>) = v d"
begin

lemma side_set_session [simp]: "v (set_session sc f d) = v d"
  by (simp add: set_session_def)

lemma side_with_audit [simp]: "same v d (with_audit E a now d)"
  by (rule same_with_audit) simp_all

lemma side_insertAudit [simp]: "same v d (insertAudit E a now d)"
  by (rule same_insertAudit) simp

lemma side_notify [simp]: "same v d (notify_approval t w a d)"
  by (rule same_notify) simp

lemma side_audited [simp]: "same v d (with_audit E a now (set_session sc f d))"
  by (rule same_via [OF side_with_audit]) simp

lemma side_session_ops:
  "same v d (createTurn ti st now d)" "same v d (completeTurn sc t oc now d)"
  "same v d (recordDurableUserMessage sc m k c now d)" "same v d (createConversationFolder tn w f nm now d)"
  "same v d (deleteConversationFolder tn w f now d)" "same v d (deleteSession sc now d)"
  by (auto simp: createTurn_def completeTurn_def recordDurableUserMessage_def createConversationFolder_def deleteConversationFolder_def
      deleteSession_def Let_def getTurn_def split: option.splits)

lemma side_conversation_ops:
  "same v d (updateConversation sc fo ti now d)" "same v d (setSessionArchived sc ar now d)"
  "same v d (updateSessionStatus sc st now d)" "same v d (updateSessionRecovery sc ri now d)"
  by (auto simp: updateConversation_def setSessionArchived_def updateSessionStatus_def updateSessionRecovery_def getSession_def
      Let_def intro!: same_bind split: option.splits)

lemma side_audit_ops:
  "same v d (updateSessionStatusWithAudit E sc st a now d)" "same v d (updateSessionRecoveryWithAudit E sc ri a now d)"
  "same v d (rebindPristineCodexThreadWithAudit E sc ex th g a now d)"
  "same v d (bindCodexThread sc th now d)" "same v d (appendAudit E a now d)"
  by (auto simp: updateSessionStatusWithAudit_def updateSessionRecoveryWithAudit_def rebindPristineCodexThreadWithAudit_def bindCodexThread_def
      appendAudit_def intro!: same_bind same_tx same_via [OF same_getSession] split: option.splits)

lemma session_op_keeps: "session_op E d d' \<Longrightarrow> v d' = v d"
  by (induction rule: session_op.induct)
     (simp_all add: side_session_ops [unfolded same_def] side_conversation_ops [unfolded same_def] side_audit_ops [unfolded same_def])

lemma side_update_run: "same v d (update_run sc rid f d)"
  by (simp add: update_run_def Let_def)

lemma side_run_ops:
  "same v d (createDurableRun i now d)" "same v d (bindDurableRunTurn bi now d)"
  "same v d (markDurableRunInterrupting sc rid now d)" "same v d (markDurableRunRecoveryRequired sc rid c de now d)"
  "same v d (markDetachedCliRunsRecoveryRequired now d)"
  by (auto simp: createDurableRun_def bindDurableRunTurn_def markDurableRunInterrupting_def markDurableRunRecoveryRequired_def update_run_def
      markDetachedCliRunsRecoveryRequired_def Let_def intro!: same_bind same_tx same_via [OF same_bind] split: option.splits)

lemma side_end_turn [simp]: "v (end_turn sc tid oc t d) = v d"
  by (simp add: end_turn_def)

lemma side_finish [simp]: "same v d (finishApproval t w a st up now d)"
  by (auto simp: finishApproval_def Let_def intro!: same_via [OF side_notify])

lemma side_finish_all [simp]: "same v d (finish_all st now as d)"
  by (induction as arbitrary: d) (auto intro!: same_bind)

lemma side_approval_ops:
  "same v d (beginApprovalResolution ri d)" "same v d (finishApprovalWithAudit E t w aid up a now d)"
  "same v d (expireApprovals sc st now d)" "same v d (expireRuntimeApprovals t w rt g now d)"
  by (auto simp: beginApprovalResolution_def finishApprovalWithAudit_def expireApprovals_def expireRuntimeApprovals_def Let_def
      intro!: same_bind same_tx same_via [OF side_with_audit])

lemma approval_op_keeps: "approval_op E d d' \<Longrightarrow> v d' = v d"
  by (induction rule: approval_op.induct) (simp_all add: side_approval_ops [unfolded same_def] side_finish [unfolded same_def])

lemma side_key_ops:
  "same v d (reserveIdempotencyKey i ses h now d)" "same v d (completeIdempotencyKey i st rs now d)"
  by (auto simp: reserveIdempotencyKey_def completeIdempotencyKey_def Let_def
      intro!: same_bind same_via [OF same_bind] same_via [OF same_getIdempotencyKey])

lemma key_op_keeps: "key_op d d' \<Longrightarrow> v d' = v d"
  by (induction rule: key_op.induct) (simp_all add: side_key_ops [unfolded same_def])

lemma side_store_approval [simp]: "same v d (store_approval E i e now d)"
  by (auto simp: store_approval_def insert_approval_def intro!: same_bind split: option.splits)

lemma side_audit_turn [simp]: "same v d (audit_turn E i e now d)"
  by (simp add: audit_turn_def Let_def split: event_payload.splits)

lemma side_touch_session [simp]: "v (touch_session sc sq now d) = v d"
  by (simp add: touch_session_def)

lemma side_store_event [simp]: "same v d (store_event E i now d)"
  unfolding store_event_def
  by (auto simp: next_sequence_def number_event_def insert_raw_def insert_event_def Let_def intro!: same_bind same_via [OF same_bind] split: option.splits)

lemma side_log_ops:
  "same v d (ingest E i now d)" "same v d (ingestRawOnly sc k rw now d)"
  "same v d (createSession si now d)" "same v d (createSessionWithAudit E si a now d)"
  by (auto simp: ingest_def ingest_tx_def ingestRawOnly_def createSession_def createSessionWithAudit_def insert_session_def Let_def
      intro!: same_bind same_tx same_via [OF same_bind] split: option.splits)

lemma log_op_keeps: "log_op E d d' \<Longrightarrow> v d' = v d"
  by (induction rule: log_op.induct) (simp_all add: side_log_ops [unfolded same_def])

end

text \<open>The ledger with its counter and cursors, and the catalog.\<close>

definition usage_view :: "store \<Rightarrow> usage_ledger_row list \<times> nat \<times> usage_cursor list" where
  "usage_view d = (stUsage d, stLedgerNext d, stCursors d)"

interpretation usage_side: side_table usage_view
  by unfold_locales (simp_all add: usage_view_def)

interpretation catalog_side: side_table stCatalog
  by unfold_locales simp_all

text \<open>The catalog operations leave the ledger alone, and the ledger operations the catalog.\<close>

lemma usage_catalog [simp]: "usage_view (set_catalog f d) = usage_view d"
  by (simp add: usage_view_def set_catalog_def)

lemma usage_job_ops:
  "same usage_view d (enqueueConversationTitleJob E sc now d)" "same usage_view d (claimConversationTitleJob sc now d)"
  "same usage_view d (completeConversationTitleJob sc title now d)" "same usage_view d (failConversationTitleJob sc code now d)"
  by (auto simp: enqueueConversationTitleJob_def claimConversationTitleJob_def completeConversationTitleJob_def failConversationTitleJob_def
      catalog_setters Let_def intro!: same_bind split: option.splits)

lemma usage_record_ops:
  "same usage_view d (upsertArtifact ar d)" "same usage_view d (putGitSnapshot gs key d)" "same usage_view d (bindGitSnapshotTurn sc sid tid d)"
  "same usage_view d (setConversationFolderArchived tn w fo archived now d)"
  by (auto simp: upsertArtifact_def getArtifact_def putGitSnapshot_def bindGitSnapshotTurn_def setConversationFolderArchived_def catalog_setters
      Let_def split: option.splits)

lemma usage_member_ops:
  "same usage_view d (upsertOrganization org name active now d)" "same usage_view d (upsertPrincipalIdentity iss sub active now d)"
  "same usage_view d (upsertOrganizationMembership mi now d)"
  by (auto simp: upsertOrganization_def upsertPrincipalIdentity_def upsertOrganizationMembership_def intro!: same_bind same_tx)

lemma usage_catalog_op: "catalog_op E d d' \<Longrightarrow> usage_view d' = usage_view d"
  by (induction rule: catalog_op.induct)
     (simp_all add: usage_job_ops [unfolded same_def] usage_record_ops [unfolded same_def] usage_member_ops [unfolded same_def])

lemma usage_restart: "usage_view (restart now d) = usage_view d"
  by (simp add: restart_def usage_view_def)

lemma catalog_insert_usage [simp]: "same stCatalog d (insert_usage u d)"
  by (rule same_insert_usage) simp_all

lemma catalog_run_op: "run_op d d' \<Longrightarrow> stCatalog d' = stCatalog d"
proof (induction rule: run_op.induct)
  case (op_finalize_run d i now)
  have "same stCatalog d1 (st_bind (terminal_entry i r t now) (\<lambda>_. the_run (fiScope i) (fiRunId i)) (end_turn (fiScope i) tid oc t d1))" for d1 r t tid oc
    by (rule same_via [OF same_bind]) (auto simp: terminal_entry_def Let_def)
  then have "same stCatalog d (finalizeDurableRun i now d)"
    by (auto simp: finalizeDurableRun_def Let_def update_run_def intro!: same_tx same_bind split: option.splits)
  then show ?case by (simp add: same_def)
qed (simp_all add: catalog_side.side_run_ops [unfolded same_def])

lemma catalog_usage_op: "usage_op d d' \<Longrightarrow> stCatalog d' = stCatalog d"
proof (induction rule: usage_op.induct)
  case (op_usage d i now)
  have "same stCatalog d (store_usage i now d)"
    by (auto simp: store_usage_def upsert_cursor_def Let_def split: sum.splits)
  then have "same stCatalog d (appendUsage i now d)" by (auto simp: appendUsage_def split: option.splits)
  then show ?case by (simp add: same_def)
next
  case (op_outcome d i now)
  have "same stCatalog d (appendUsageOutcome i now d)" by (auto simp: appendUsageOutcome_def intro!: same_bind)
  then show ?case by (simp add: same_def)
next
  case (op_reconciliation d i now)
  have "same stCatalog d (appendUsageReconciliation i now d)" by (auto simp: appendUsageReconciliation_def intro!: same_bind)
  then show ?case by (simp add: same_def)
next
  case (op_meter d sc e now)
  have "same stCatalog d (appendCommercialUsage sc e now d)"
    by (auto simp: appendCommercialUsage_def intro!: same_bind split: option.splits)
  then show ?case by (simp add: same_def)
qed

text \<open>The catalog changes by its own operations and at a restart.\<close>

lemma catalog_step:
  assumes "store_step E d d'"
  obtains (same) "stCatalog d' = stCatalog d" | (catalog) "catalog_op E d d'" | (restart) now where "d' = restart now d"
  using assms
  by (cases rule: store_step.cases)
     (blast intro: catalog_run_op catalog_usage_op catalog_side.session_op_keeps catalog_side.approval_op_keeps catalog_side.key_op_keeps catalog_side.log_op_keeps)+

end
