(* ===== verification/Usage_Props.thy ===== *)
theory Usage_Props
  imports Event_Store_Props Store_Sides
begin

section \<open>The usage ledger: properties\<close>

text \<open>
  Every operation leaves the ledger and its cursors alone, uses up a number, inserts an entry that counts nothing, or records
  a report (\<open>ledger_moves\<close>).  From that, along every run of the store: keys are used once, entries are never changed, and
  what a request is charged is what its reports amount to.
\<close>

subsection \<open>How the ledger moves\<close>

text \<open>What \<open>store_usage\<close> does to the ledger when it gets as far as inserting.\<close>

definition recorded :: "usage_input \<Rightarrow> (int \<times> string) option \<Rightarrow> instant \<Rightarrow> store \<Rightarrow> store" where
  "recorded i est now d =
    (let acc = accounted_so_far i d;
         eff = effective_usage (urKind (uiReport i)) (urCounters (uiReport i)) acc
     in upsert_cursor i (addUsageCounters acc eff) now
          (d\<lparr>stUsage := stUsage d @ [usage_of i eff est now (stLedgerNext d)], stLedgerNext := Suc (stLedgerNext d)\<rparr>))"

inductive ledger_moves :: "store \<Rightarrow> store \<Rightarrow> bool" where
  same_ledger: "usage_view d' = usage_view d \<Longrightarrow> ledger_moves d d'"
| used_number: "usage_view d' = (stUsage d, Suc (stLedgerNext d), stCursors d) \<Longrightarrow> ledger_moves d d'"
| inserted: "usage_view d' = (stUsage d @ [u\<lparr>ulLedgerId := stLedgerNext d\<rparr>], Suc (stLedgerNext d), stCursors d) \<Longrightarrow> ulEntryKind u \<noteq> UsageEntry \<Longrightarrow>
    \<not> list_ex (usage_key (ulScope u) (ulDedupeKey u)) (stUsage d) \<Longrightarrow> ledger_moves d d'"
| reported: "usage_view d' = usage_view (recorded i est now d) \<Longrightarrow> \<not> list_ex (usage_key (uiScope i) (urDedupeKey (uiReport i))) (stUsage d) \<Longrightarrow>
    usageCountersSchema (urCounters (uiReport i)) \<Longrightarrow> \<not> other_identity i d \<Longrightarrow> ledger_moves d d'"

lemma find_none_list_ex: "find P xs = None \<longleftrightarrow> \<not> list_ex P xs"
  by (auto simp: find_None_iff list_ex_iff)

lemma recorded_outcome:
  obtains (failed) err where "store_usage i now d = (Inl err, d)"
  | (stored) est where "store_usage i now d = (ledger_row (inserted_row i d) (recorded i est now d), recorded i est now d)"
proof (cases "estimate_for i (effective_usage (urKind (uiReport i)) (urCounters (uiReport i)) (accounted_so_far i d))")
  case (Inl err)
  then show thesis by (intro failed [of err]) (simp add: store_usage_def Let_def)
next
  case (Inr est)
  show thesis
  proof (cases "find_session (uiScope i) d")
    case None
    with Inr show thesis by (intro failed [of SqliteConstraint]) (simp add: store_usage_def Let_def)
  next
    case (Some s)
    with Inr show thesis by (intro stored [of est]) (simp add: store_usage_def recorded_def Let_def)
  qed
qed

lemma append_usage_moves: "ledger_moves d (snd (appendUsage i now d))"
proof (cases rule: recorded_outcome [of i now d])
  case (failed err)
  then show ?thesis by (intro same_ledger) (auto simp: appendUsage_def split: option.splits)
next
  case (stored est)
  show ?thesis
  proof (cases "snd (appendUsage i now d) = d")
    case False
    with stored have "snd (appendUsage i now d) = recorded i est now d" "\<not> list_ex (usage_key (uiScope i) (urDedupeKey (uiReport i))) (stUsage d)"
      "usageCountersSchema (urCounters (uiReport i))" "\<not> other_identity i d"
      by (auto simp: appendUsage_def find_none_list_ex [symmetric] split: if_splits option.splits)
    then show ?thesis by (intro reported) simp_all
  qed (simp add: same_ledger)
qed

lemma insert_moves_from:
  assumes "usage_view d0 = usage_view d" and "ulEntryKind u \<noteq> UsageEntry"
  shows "ledger_moves d (snd (insert_usage u d0))"
proof (cases "list_ex (usage_key (ulScope u) (ulDedupeKey u)) (stUsage d0)")
  case True
  then have "snd (insert_usage u d0) = d0\<lparr>stLedgerNext := Suc (stLedgerNext d0)\<rparr>" by (auto simp: insert_usage_def usage_key_def list_ex_iff)
  then show ?thesis using assms(1) by (intro used_number) (simp add: usage_view_def)
next
  case False
  then have "insert_usage u d0 = (if find_session (ulScope u) d0 = None then (Inl SqliteConstraint, d0)
      else (Inr (), d0\<lparr>stUsage := stUsage d0 @ [u\<lparr>ulLedgerId := stLedgerNext d0\<rparr>], stLedgerNext := Suc (stLedgerNext d0)\<rparr>))"
    by (auto simp: insert_usage_def usage_key_def list_ex_iff)
  then show ?thesis using assms False same_ledger [of d0 d] inserted [of _ d u]
    by (cases "find_session (ulScope u) d0") (simp_all add: usage_view_def)
qed

lemmas insert_usage_moves = insert_moves_from [OF refl]

lemma moves_frame: "ledger_moves d d1 \<Longrightarrow> usage_view d2 = usage_view d1 \<Longrightarrow> ledger_moves d d2"
  by (erule ledger_moves.cases) (auto intro: ledger_moves.intros)

lemma bind_moves: "ledger_moves d (snd (m d)) \<Longrightarrow> (\<And>x d1. same usage_view d1 (f x d1)) \<Longrightarrow> ledger_moves d (snd (st_bind m f d))"
  by (auto simp: st_bind_def same_def split: prod.splits sum.splits intro: moves_frame)

lemma entry_kinds [simp]:
  "ulEntryKind (terminal_usage sc t p m pu k oc co at now) = TerminalEntry" "ulEntryKind (reconciliation_entry li now) = ReconciliationEntry"
  "ulEntryKind (meter_entry sc e now) = MeterEntry"
  by (simp_all add: terminal_usage_def reconciliation_entry_def meter_entry_def)

lemma bind_same_moves:
  assumes "same usage_view d (m d)" and "\<And>x d1. m d = (Inr x, d1) \<Longrightarrow> usage_view d1 = usage_view d \<Longrightarrow> ledger_moves d (snd (f x d1))"
  shows "ledger_moves d (snd (st_bind m f d))"
proof (cases "m d")
  case (Pair r d1)
  then show ?thesis using assms by (cases r) (auto simp: st_bind_def intro: same_ledger)
qed

lemma tx_moves: "ledger_moves d (snd (m d)) \<Longrightarrow> ledger_moves d (snd (transaction m d))"
  by (auto simp: transaction_def same_ledger split: prod.splits sum.splits)

lemma commercial_moves: "ledger_moves d (snd (appendCommercialUsage sc e now d))"
proof -
  have "ledger_moves d (snd (st_bind (insert_usage (meter_entry sc e now)) (\<lambda>_ d1.
       case find (usage_key sc (ceDedupeKey e)) (stUsage d1) of
         None \<Rightarrow> (Inl USAGE_INSERT_FAILED, d1)
       | Some u \<Rightarrow> (if same_meter e u then Inr u else Inl USAGE_DEDUPE_CONFLICT, d1)) d))"
    by (rule bind_moves) (auto intro: insert_usage_moves split: option.splits)
  then show ?thesis by (simp add: appendCommercialUsage_def same_ledger)
qed

lemma usage_op_moves: "usage_op d d' \<Longrightarrow> ledger_moves d d'"
  by (induction rule: usage_op.induct)
     (auto simp: appendUsageOutcome_def appendUsageReconciliation_def append_usage_moves commercial_moves intro!: bind_moves insert_usage_moves)

lemma terminal_moves: "usage_view d0 = usage_view d \<Longrightarrow> ledger_moves d (snd (terminal_entry i r t now d0))"
  unfolding terminal_entry_def Let_def by (auto intro: insert_moves_from same_ledger)

lemma ending_moves:
  assumes "usage_view d0 = usage_view d"
  shows "ledger_moves d (snd (st_bind (terminal_entry i r t now) (\<lambda>_. the_run (fiScope i) (fiRunId i)) (end_turn (fiScope i) tid oc t d0)))"
proof -
  have "usage_view (end_turn (fiScope i) tid oc t d0) = usage_view d" using assms by (simp add: end_turn_def usage_view_def)
  then have "ledger_moves d (snd (terminal_entry i r t now (end_turn (fiScope i) tid oc t d0)))" by (rule terminal_moves)
  then show ?thesis using same_the_run [of usage_view]
    by (auto simp: st_bind_def same_def split: prod.splits sum.splits intro: moves_frame)
qed

lemma finalize_moves: "ledger_moves d (snd (finalizeDurableRun i now d))"
  unfolding finalizeDurableRun_def Let_def
proof (intro tx_moves bind_same_moves same_the_run, goal_cases)
  case (1 r d1)
  have "ledger_moves d (snd (st_bind (update_run (fiScope i) (fiRunId i) f) (\<lambda>_ d. st_bind (terminal_entry i r t now) (\<lambda>_. the_run (fiScope i) (fiRunId i))
      (end_turn (fiScope i) (rnTurnId r) (fiOutcome i) t d)) d1))" for f t
  proof (cases "update_run (fiScope i) (fiRunId i) f d1")
    case (Pair x d2)
    then have "usage_view d2 = usage_view d" using usage_side.side_update_run [of d1 "fiScope i" "fiRunId i" f] 1 by simp
    then show ?thesis using Pair ending_moves same_ledger by (cases x) (auto simp: st_bind_def)
  qed
  then show ?case using 1 by (auto simp: st_return_def intro: same_ledger split: option.splits)
qed

lemma run_op_moves: "run_op d d' \<Longrightarrow> ledger_moves d d'"
  by (induction rule: run_op.induct)
     (auto simp: finalize_moves intro!: same_ledger usage_side.side_run_ops [unfolded same_def])

lemma store_step_ledger: "store_step E d d' \<Longrightarrow> ledger_moves d d'"
  by (erule store_step.cases)
     (auto intro: run_op_moves usage_op_moves same_ledger usage_side.approval_op_keeps usage_side.key_op_keeps
      usage_side.session_op_keeps usage_side.log_op_keeps usage_catalog_op usage_restart)


subsection \<open>What the reports amount to\<close>

text \<open>The usage a list of reports stands for: increments add up, a running total stands for itself, unless it falls behind.\<close>

definition account :: "usage_counters \<Rightarrow> usage_ledger_row \<Rightarrow> usage_counters" where
  "account acc u = (case ulReportKind u of Some CumulativeReport \<Rightarrow> combine_counters max acc (ulReported u)
     | _ \<Rightarrow> combine_counters (+) acc (ulReported u))"

definition reports_total :: "usage_ledger_row list \<Rightarrow> usage_counters" where
  "reports_total us = foldl account zeroUsageCounters us"

definition request_of :: "store_scope \<Rightarrow> string \<Rightarrow> string \<Rightarrow> usage_ledger_row \<Rightarrow> bool" where
  "request_of sc tid rid u \<longleftrightarrow> ulEntryKind u = UsageEntry \<and> ulScope u = sc \<and> ulTurnId u = tid \<and> ulRequestId u = Some rid"

definition request_rows :: "store_scope \<Rightarrow> string \<Rightarrow> string \<Rightarrow> usage_ledger_row list \<Rightarrow> usage_ledger_row list" where
  "request_rows sc tid rid us = filter (request_of sc tid rid) us"

definition cursor_id :: "usage_cursor \<Rightarrow> store_scope \<times> string \<times> string" where
  "cursor_id c = (cuScope c, cuTurnId c, cuRequestId c)"

definition cursor_rows :: "usage_cursor \<Rightarrow> usage_ledger_row list \<Rightarrow> usage_ledger_row list" where
  "cursor_rows c = request_rows (cuScope c) (cuTurnId c) (cuRequestId c)"

definition cursor_ok :: "usage_ledger_row list \<Rightarrow> usage_cursor \<Rightarrow> bool" where
  "cursor_ok us c \<longleftrightarrow> cuAccounted c = reports_total (cursor_rows c us) \<and> cuAccounted c = sum_counters (cursor_rows c us)"

definition entry_ok :: "nat \<Rightarrow> usage_cursor list \<Rightarrow> usage_ledger_row \<Rightarrow> bool" where
  "entry_ok n cs u \<longleftrightarrow> 0 < ulLedgerId u \<and> ulLedgerId u < n
     \<and> (ulEntryKind u = UsageEntry \<longrightarrow> usageCountersSchema (ulEffective u) \<and> (\<exists>rid. ulRequestId u = Some rid \<and> (ulScope u, ulTurnId u, rid) \<in> cursor_id ` set cs))"

fun ledger_ok :: "usage_ledger_row list \<times> nat \<times> usage_cursor list \<Rightarrow> bool" where
  "ledger_ok (us, n, cs) \<longleftrightarrow> 0 < n \<and> distinct (map (\<lambda>u. (ulScope u, ulDedupeKey u)) us) \<and> distinct (map ulLedgerId us) \<and> distinct (map cursor_id cs)
     \<and> (\<forall>u \<in> set us. entry_ok n cs u) \<and> (\<forall>c \<in> set cs. cursor_ok us c)"

definition ledger_inv :: "store \<Rightarrow> bool" where
  "ledger_inv d = ledger_ok (usage_view d)"

lemma sum_counters_snoc: "sum_counters (us @ [u]) = addUsageCounters (sum_counters us) (ulEffective u)"
  by (simp add: sum_counters_def)

lemma reports_total_snoc: "reports_total (us @ [u]) = account (reports_total us) u"
  by (simp add: reports_total_def)

lemma sum_counters_Nil [simp]: "sum_counters [] = zeroUsageCounters" "reports_total [] = zeroUsageCounters"
  by (simp_all add: sum_counters_def reports_total_def)

text \<open>What a report adds is what it changes in the amount of the reports.\<close>

lemma effective_accounts:
  "addUsageCounters acc (effective_usage k c acc) = account acc (usage_of i (effective_usage k c acc) est now n)"
  if "urKind (uiReport i) = k" and "urCounters (uiReport i) = c"
  using that by (auto simp: addUsageCounters_def effective_usage_def account_def usage_of_def combine_counters_def max_def split: report_kind.splits)

lemma effective_valid: "usageCountersSchema c \<Longrightarrow> usageCountersSchema (effective_usage k c acc)"
  by (cases k) (auto simp: effective_usage_def usageCountersSchema_def combine_counters_def)

lemma usage_of_simps [simp]:
  "ulEntryKind (usage_of i eff est now n) = UsageEntry" "ulScope (usage_of i eff est now n) = uiScope i" "ulTurnId (usage_of i eff est now n) = uiTurnId i"
  "ulRequestId (usage_of i eff est now n) = Some (urRequestId (uiReport i))" "ulLedgerId (usage_of i eff est now n) = n"
  "ulDedupeKey (usage_of i eff est now n) = urDedupeKey (uiReport i)" "ulEffective (usage_of i eff est now n) = eff"
  by (simp_all add: usage_of_def)

definition input_id :: "usage_input \<Rightarrow> store_scope \<times> string \<times> string" where
  "input_id i = (uiScope i, uiTurnId i, urRequestId (uiReport i))"

lemma cursor_key_id: "cursor_key (uiScope i) (uiTurnId i) (urRequestId (uiReport i)) c \<longleftrightarrow> cursor_id c = input_id i"
  by (auto simp: cursor_key_def cursor_id_def input_id_def)

lemma find_cursor_cases:
  obtains (new) "find_cursor i d = None" "input_id i \<notin> cursor_id ` set (stCursors d)"
  | (known) c where "find_cursor i d = Some c" "c \<in> set (stCursors d)" "cursor_id c = input_id i"
proof (cases "find_cursor i d")
  case None
  then have "input_id i \<notin> cursor_id ` set (stCursors d)" by (auto simp: find_cursor_def find_None_iff cursor_key_id)
  with None show thesis by (rule new)
next
  case (Some c)
  then have "c \<in> set (stCursors d)" "cursor_id c = input_id i"
    by (auto simp: find_cursor_def find_Some_iff cursor_key_id)
  with Some show thesis by (rule known)
qed

lemma cursor_rows_input: "cursor_id c = input_id i \<Longrightarrow> cursor_rows c = request_rows (uiScope i) (uiTurnId i) (urRequestId (uiReport i))"
  by (auto simp: cursor_rows_def cursor_id_def input_id_def)

lemma cursor_rows_append:
  "cursor_rows c (us @ [u]) = cursor_rows c us @ (if request_of (cuScope c) (cuTurnId c) (cuRequestId c) u then [u] else [])"
  by (simp add: cursor_rows_def request_rows_def)

lemma request_of_usage: "request_of (cuScope c) (cuTurnId c) (cuRequestId c) (usage_of i eff est now n) \<longleftrightarrow> cursor_id c = input_id i"
  by (auto simp: request_of_def cursor_id_def input_id_def)

lemma accounted_ok:
  assumes "ledger_inv d"
  shows "accounted_so_far i d = reports_total (request_rows (uiScope i) (uiTurnId i) (urRequestId (uiReport i)) (stUsage d))"
    and "accounted_so_far i d = sum_counters (request_rows (uiScope i) (uiTurnId i) (urRequestId (uiReport i)) (stUsage d))"
proof -
  have "cuAccounted c = reports_total (request_rows (uiScope i) (uiTurnId i) (urRequestId (uiReport i)) (stUsage d))
      \<and> cuAccounted c = sum_counters (request_rows (uiScope i) (uiTurnId i) (urRequestId (uiReport i)) (stUsage d))"
    if "c \<in> set (stCursors d)" "cursor_id c = input_id i" for c
    using that assms cursor_rows_input [of c i] by (auto simp: ledger_inv_def usage_view_def cursor_ok_def)
  moreover have "request_rows (uiScope i) (uiTurnId i) (urRequestId (uiReport i)) (stUsage d) = []" if "input_id i \<notin> cursor_id ` set (stCursors d)"
    using that assms unfolding request_rows_def filter_empty_conv
    by (auto simp: ledger_inv_def usage_view_def entry_ok_def request_of_def input_id_def)
  ultimately show "accounted_so_far i d = reports_total (request_rows (uiScope i) (uiTurnId i) (urRequestId (uiReport i)) (stUsage d))"
    and "accounted_so_far i d = sum_counters (request_rows (uiScope i) (uiTurnId i) (urRequestId (uiReport i)) (stUsage d))"
    by (cases rule: find_cursor_cases [of i d]; simp add: accounted_so_far_def)+
qed


text \<open>The cursor table after a report.\<close>

lemma upserted_cursors:
  assumes "distinct (map cursor_id (stCursors d))"
  shows "distinct (map cursor_id (stCursors (upsert_cursor i acc now d)))"
    and "cursor_id ` set (stCursors (upsert_cursor i acc now d)) = insert (input_id i) (cursor_id ` set (stCursors d))"
    and "c \<in> set (stCursors (upsert_cursor i acc now d)) \<Longrightarrow> cursor_id c = input_id i \<and> cuAccounted c = acc \<or> c \<in> set (stCursors d) \<and> cursor_id c \<noteq> input_id i"
proof -
  have new: "cursor_id (cursor_of i acc now) = input_id i" "cuAccounted (cursor_of i acc now) = acc"
    by (simp_all add: cursor_of_def cursor_id_def input_id_def)
  have upd: "cursor_id (x\<lparr>cuAccounted := acc, cuUpdatedAt := now\<rparr>) = cursor_id x" for x by (simp add: cursor_id_def)
  show "distinct (map cursor_id (stCursors (upsert_cursor i acc now d)))"
    by (cases rule: find_cursor_cases [of i d]) (use assms new upd in \<open>auto simp: upsert_cursor_def\<close>)
  have "map cursor_id (update_where P (\<lambda>c. c\<lparr>cuAccounted := acc, cuUpdatedAt := now\<rparr>) cs) = map cursor_id cs" for P cs
    by (rule map_update_where) (rule upd)
  then have kept: "cursor_id ` set (update_where P (\<lambda>c. c\<lparr>cuAccounted := acc, cuUpdatedAt := now\<rparr>) cs) = cursor_id ` set cs" for P cs
    by (metis list.set_map)
  show "cursor_id ` set (stCursors (upsert_cursor i acc now d)) = insert (input_id i) (cursor_id ` set (stCursors d))"
  proof (cases rule: find_cursor_cases [of i d])
    case (known c)
    then have "input_id i \<in> cursor_id ` set (stCursors d)" by (metis image_eqI)
    then show ?thesis using known(1) kept by (simp add: upsert_cursor_def insert_absorb)
  qed (simp add: upsert_cursor_def new)
  show "c \<in> set (stCursors (upsert_cursor i acc now d)) \<Longrightarrow> cursor_id c = input_id i \<and> cuAccounted c = acc \<or> c \<in> set (stCursors d) \<and> cursor_id c \<noteq> input_id i"
    by (cases rule: find_cursor_cases [of i d])
       (use new upd in \<open>auto simp: upsert_cursor_def update_where_def cursor_key_id image_iff split: if_splits\<close>)
qed

lemma usage_view_upsert: "stUsage (upsert_cursor i acc now d) = stUsage d" "stLedgerNext (upsert_cursor i acc now d) = stLedgerNext d"
  by (simp_all add: upsert_cursor_def)

lemma upsert_cursor_frame:
  "stCursors (upsert_cursor i acc now (d\<lparr>stUsage := us, stLedgerNext := n\<rparr>)) = stCursors (upsert_cursor i acc now d)"
  by (simp add: upsert_cursor_def find_cursor_def)

lemma recorded_ok:
  assumes inv: "ledger_inv d" and fresh: "\<not> list_ex (usage_key (uiScope i) (urDedupeKey (uiReport i))) (stUsage d)"
    and valid: "usageCountersSchema (urCounters (uiReport i))"
  shows "ledger_inv (recorded i est now d)"
proof -
  define acc where "acc = accounted_so_far i d"
  define eff where "eff = effective_usage (urKind (uiReport i)) (urCounters (uiReport i)) acc"
  define u where "u = usage_of i eff est now (stLedgerNext d)"
  define cs where "cs = stCursors (upsert_cursor i (addUsageCounters acc eff) now d)"
  have view: "usage_view (recorded i est now d) = (stUsage d @ [u], Suc (stLedgerNext d), cs)"
    by (simp add: recorded_def usage_view_def usage_view_upsert acc_def eff_def u_def cs_def Let_def upsert_cursor_frame)
  have ok: "distinct (map (\<lambda>u. (ulScope u, ulDedupeKey u)) (stUsage d))" "distinct (map ulLedgerId (stUsage d))" "distinct (map cursor_id (stCursors d))"
    "\<forall>u \<in> set (stUsage d). entry_ok (stLedgerNext d) (stCursors d) u" "\<forall>c \<in> set (stCursors d). cursor_ok (stUsage d) c" "0 < stLedgerNext d"
    using inv by (simp_all add: ledger_inv_def usage_view_def)
  note cur = upserted_cursors [OF ok(3), where i = i and acc = "addUsageCounters acc eff" and now = now, folded cs_def]
  have sums: "addUsageCounters acc eff = reports_total (request_rows (uiScope i) (uiTurnId i) (urRequestId (uiReport i)) (stUsage d @ [u]))"
    "addUsageCounters acc eff = sum_counters (request_rows (uiScope i) (uiTurnId i) (urRequestId (uiReport i)) (stUsage d @ [u]))"
    using accounted_ok [OF inv, of i] effective_accounts [of i "urKind (uiReport i)" "urCounters (uiReport i)" acc est now "stLedgerNext d"]
    by (simp_all add: request_rows_def request_of_def u_def reports_total_snoc sum_counters_snoc acc_def eff_def)
  have "cursor_ok (stUsage d @ [u]) c" if "c \<in> set cs" for c
    using cur(3) [OF that]
  proof
    assume "cursor_id c = input_id i \<and> cuAccounted c = addUsageCounters acc eff"
    then show ?thesis using sums cursor_rows_input [of c i] unfolding cursor_ok_def by simp
  next
    assume "c \<in> set (stCursors d) \<and> cursor_id c \<noteq> input_id i"
    then have "cursor_ok (stUsage d) c" "cursor_rows c (stUsage d @ [u]) = cursor_rows c (stUsage d)"
      using ok(5) request_of_usage [of c i eff est now "stLedgerNext d"] by (simp_all add: cursor_rows_append u_def)
    then show ?thesis unfolding cursor_ok_def by argo
  qed
  moreover have "entry_ok (Suc (stLedgerNext d)) cs x" if "x \<in> set (stUsage d @ [u])" for x
    using that ok(4,6) cur(2) effective_valid [OF valid] by (auto simp: entry_ok_def u_def eff_def input_id_def less_Suc_eq)
  moreover have "ulLedgerId u \<notin> ulLedgerId ` set (stUsage d)" using ok(4) by (auto simp: entry_ok_def u_def)
  moreover have "(uiScope i, urDedupeKey (uiReport i)) \<notin> (\<lambda>u. (ulScope u, ulDedupeKey u)) ` set (stUsage d)"
    using fresh by (auto simp: list_ex_iff usage_key_def)
  ultimately show ?thesis using view ok cur(1) by (auto simp: ledger_inv_def u_def)
qed

lemma entry_ok_mono: "entry_ok n cs u \<Longrightarrow> entry_ok (Suc n) cs u"
  by (auto simp: entry_ok_def)

lemma cursor_ok_other: "ulEntryKind u \<noteq> UsageEntry \<Longrightarrow> cursor_ok (us @ [u]) c = cursor_ok us c"
  by (simp add: cursor_ok_def cursor_rows_append request_of_def)

lemma ledger_moves_inv:
  assumes "ledger_moves d d'" and "ledger_inv d"
  shows "ledger_inv d'"
  using assms(1)
proof cases
  case same_ledger
  then show ?thesis using assms(2) by (simp add: ledger_inv_def)
next
  case used_number
  then show ?thesis using assms(2) entry_ok_mono by (auto simp: ledger_inv_def usage_view_def)
next
  case (inserted u)
  have "entry_ok (Suc (stLedgerNext d)) (stCursors d) (u\<lparr>ulLedgerId := stLedgerNext d\<rparr>)"
    using inserted(2) assms(2) by (simp add: entry_ok_def ledger_inv_def usage_view_def)
  moreover have "stLedgerNext d \<notin> ulLedgerId ` set (stUsage d)" using assms(2) by (auto simp: ledger_inv_def usage_view_def entry_ok_def)
  moreover have "(ulScope u, ulDedupeKey u) \<notin> (\<lambda>u. (ulScope u, ulDedupeKey u)) ` set (stUsage d)"
    using inserted(3) by (auto simp: list_ex_iff usage_key_def)
  ultimately show ?thesis
    using assms(2) inserted(1,2) entry_ok_mono by (auto simp: ledger_inv_def usage_view_def cursor_ok_other)
next
  case (reported i est now)
  then show ?thesis using recorded_ok [OF assms(2) reported(2,3), of est now] by (simp add: ledger_inv_def)
qed

lemma ledger_inv_empty: "ledger_inv empty_store"
  by (simp add: ledger_inv_def usage_view_def empty_store_def)

interpretation usage_ledger: transition_system "\<lambda>d. d = empty_store" "store_step E" ledger_inv
  by unfold_locales (use ledger_inv_empty ledger_moves_inv store_step_ledger in blast)+

lemma reachable_ledger: "reachable_store E d \<Longrightarrow> ledger_inv d"
  unfolding reachable_store_def using usage_ledger.reachable_inv by blast


lemma request_accounted:
  assumes "ledger_inv d"
  shows "sum_counters (request_rows sc tid rid (stUsage d)) = reports_total (request_rows sc tid rid (stUsage d))"
proof (cases "(sc, tid, rid) \<in> cursor_id ` set (stCursors d)")
  case True
  then obtain c where "c \<in> set (stCursors d)" "cursor_id c = (sc, tid, rid)" by auto
  then have "cursor_ok (stUsage d) c" "cursor_rows c = request_rows sc tid rid"
    using assms by (auto simp: ledger_inv_def usage_view_def cursor_rows_def cursor_id_def)
  then show ?thesis unfolding cursor_ok_def by argo
next
  case False
  then have "request_rows sc tid rid (stUsage d) = []"
    using assms unfolding request_rows_def filter_empty_conv
    by (auto simp: ledger_inv_def usage_view_def entry_ok_def request_of_def)
  then show ?thesis by simp
qed

subsection \<open>Sums over requests\<close>

lemma sum_over_keys:
  fixes f :: "'a \<Rightarrow> int"
  assumes "finite K" and "g ` set xs \<subseteq> K"
  shows "(\<Sum>k \<in> K. sum_list (map f (filter (\<lambda>x. g x = k) xs))) = sum_list (map f xs)"
  using assms(2)
proof (induction xs)
  case (Cons x xs)
  have "(\<Sum>k \<in> K. sum_list (map f (filter (\<lambda>y. g y = k) (x # xs)))) =
      (\<Sum>k \<in> K. (if k = g x then f x else 0) + sum_list (map f (filter (\<lambda>y. g y = k) xs)))"
    by (rule sum.cong) auto
  then show ?case using Cons assms(1) by (simp add: sum.distrib)
qed simp

lemma sum_list_by_key:
  fixes f :: "'a \<Rightarrow> int"
  shows "sum_list (map (\<lambda>k. sum_list (map f (filter (\<lambda>x. g x = k) xs))) (js_unique (map g xs))) = sum_list (map f xs)"
  using sum_over_keys [of "g ` set xs" g xs f] by (simp add: sum_list_distinct_conv_sum_set distinct_js_unique)

definition total_of :: "usage_counters list \<Rightarrow> usage_counters" where
  "total_of cs = foldl addUsageCounters zeroUsageCounters cs"

text \<open>A counter: a field that is zero at the start and adds up.\<close>

definition counter :: "(usage_counters \<Rightarrow> int) \<Rightarrow> bool" where
  "counter p \<longleftrightarrow> p zeroUsageCounters = 0 \<and> (\<forall>a b. p (addUsageCounters a b) = p a + p b)"

lemma counters [simp]: "counter ucInputTokens" "counter ucCachedInputTokens" "counter ucOutputTokens" "counter ucReasoningTokens" "counter ucToolUnits"
  by (simp_all add: counter_def zeroUsageCounters_def addUsageCounters_def combine_counters_def)

lemma counters_eqI: "(\<And>p. counter p \<Longrightarrow> p a = p b) \<Longrightarrow> a = (b :: usage_counters)"
  by (rule usage_counters.equality) simp_all

lemma counter_total: "counter p \<Longrightarrow> p (total_of cs) = sum_list (map p cs)"
  by (induction cs rule: rev_induct) (simp_all add: total_of_def counter_def)

lemma sum_counters_total: "sum_counters us = total_of (map ulEffective us)"
  by (simp add: sum_counters_def total_of_def foldl_map)

lemma total_by_key:
  "total_of (map (\<lambda>k. sum_counters (filter (\<lambda>x. g x = k) us)) (js_unique (map g us))) = sum_counters us"
proof (rule counters_eqI)
  fix p assume p: "counter p"
  show "p (total_of (map (\<lambda>k. sum_counters (filter (\<lambda>x. g x = k) us)) (js_unique (map g us)))) = p (sum_counters us)"
    using sum_list_by_key [of "\<lambda>u. p (ulEffective u)" g us] by (simp add: counter_total [OF p] sum_counters_total comp_def)
qed

definition turn_requests :: "store_scope \<Rightarrow> string \<Rightarrow> store \<Rightarrow> string list" where
  "turn_requests sc tid d = js_unique (map (\<lambda>u. the (ulRequestId u)) (entries_of UsageEntry (usage_rows sc (Some tid) d)))"

lemma turn_rows:
  assumes "ledger_inv d"
  shows "filter (\<lambda>u. the (ulRequestId u) = rid) (entries_of UsageEntry (usage_rows sc (Some tid) d)) = request_rows sc tid rid (stUsage d)"
  unfolding entries_of_def usage_rows_def request_rows_def filter_filter
  by (rule filter_cong) (use assms in \<open>auto simp: ledger_inv_def usage_view_def entry_ok_def request_of_def\<close>)

lemma usage_grows:
  assumes "ledger_moves d d'"
  shows "\<exists>us. stUsage d' = stUsage d @ us"
  using assms by cases (auto simp: usage_view_def recorded_def usage_view_upsert Let_def)

lemma usage_run_grows: "reaches (store_step E) d d' \<Longrightarrow> \<exists>us. stUsage d' = stUsage d @ us"
proof (induction rule: reaches.induct)
  case (reaches_step s t u)
  then show ?case using usage_grows [OF store_step_ledger] by (metis append.assoc)
qed simp

text \<open>An accepted report leaves its entry under its key.\<close>

lemma accepted_report_stored:
  assumes "appendUsage i now d = (Inr u, d')"
  shows "assertScope (uiScope i) \<and> uiTurnId i \<noteq> [] \<and> uiModelId i \<noteq> [] \<and> usageCountersSchema (urCounters (uiReport i))
    \<and> (\<exists>u' \<in> set (stUsage d'). usage_key (uiScope i) (urDedupeKey (uiReport i)) u' \<and> same_report i u')"
proof (cases "find (usage_key (uiScope i) (urDedupeKey (uiReport i))) (stUsage d)")
  case (Some u0)
  then have "u0 \<in> set (stUsage d)" "usage_key (uiScope i) (urDedupeKey (uiReport i)) u0" by (auto simp: find_Some_iff)
  then show ?thesis using assms Some by (auto simp: appendUsage_def split: if_splits)
next
  case None
  show ?thesis
  proof (cases rule: recorded_outcome [of i now d])
    case (failed err)
    then show ?thesis using assms None by (simp add: appendUsage_def split: if_splits)
  next
    case (stored est)
    then have "d' = recorded i est now d" using assms None by (simp add: appendUsage_def split: if_splits)
    then have "\<exists>eff. usage_of i eff est now (stLedgerNext d) \<in> set (stUsage d')" by (auto simp: recorded_def usage_view_upsert Let_def)
    moreover have "usage_key (uiScope i) (urDedupeKey (uiReport i)) (usage_of i eff est now n) \<and> same_report i (usage_of i eff est now n)" for eff n
      by (simp add: usage_key_def same_report_def) (simp add: usage_of_def)
    ultimately show ?thesis using assms by (auto simp: appendUsage_def split: if_splits)
  qed
qed

subsection \<open>A sample ledger\<close>

definition sample_report :: "string \<Rightarrow> string \<Rightarrow> report_kind \<Rightarrow> int \<Rightarrow> usage_input" where
  "sample_report request key kind n =
    \<lparr>uiScope = sample_scope, uiTurnId = ''u'', uiModelId = ''m'',
     uiReport = \<lparr>urKind = kind, urProvider = Codex, urRequestId = request, urDedupeKey = key,
       urCounters = zeroUsageCounters\<lparr>ucInputTokens := n\<rparr>, urComplete = True, urOccurredAt = 1\<rparr>,
     uiPriceCatalog = None, uiPurpose = None\<rparr>"

definition sample_usage1 :: store where
  "sample_usage1 = snd (appendUsage (sample_report ''q'' ''a'' CumulativeReport 10) 2 sample1)"

definition sample_usage2 :: store where
  "sample_usage2 = snd (appendUsage (sample_report ''q'' ''b'' CumulativeReport 15) 3 sample_usage1)"

lemma sample_usage1_reachable: "reachable_store sample_env sample_usage1"
  unfolding sample_usage1_def by (intro reachable_step [OF sample1_reachable] step_usage op_usage)

lemma sample_usage2_step: "store_step sample_env sample_usage1 sample_usage2"
  unfolding sample_usage2_def by (intro step_usage op_usage)

lemma sample_usage2_reachable: "reachable_store sample_env sample_usage2"
  by (rule reachable_step [OF sample_usage1_reachable sample_usage2_step])

subsection \<open>Properties\<close>

text \<open>C11. 
  The ledger charges what was reported: whatever mixture of increments and running totals a provider reports for a request,
  in whatever order and with whatever repetitions, the entries of the request add up to what the distinct reports stand for.
\<close>

theorem ledger_charges_what_was_reported:
  assumes "reachable_store E d"
  shows "sum_counters (request_rows sc tid rid (stUsage d)) = reports_total (request_rows sc tid rid (stUsage d))
    \<and> distinct (map (\<lambda>u. (ulScope u, ulDedupeKey u)) (stUsage d))"
  using request_accounted [OF reachable_ledger [OF assms]] reachable_ledger [OF assms] by (simp add: ledger_inv_def usage_view_def)

theorem ledger_charges_what_was_reported_witness:
  "ucInputTokens (reports_total (request_rows sample_scope ''u'' ''q'' (stUsage sample_usage2))) = 15
    \<and> sum_counters (request_rows sample_scope ''u'' ''q'' (stUsage sample_usage2)) = reports_total (request_rows sample_scope ''u'' ''q'' (stUsage sample_usage2))"
proof -
  have "ucInputTokens (reports_total (request_rows sample_scope ''u'' ''q'' (stUsage sample_usage2))) = 15" by code_simp
  then show ?thesis using ledger_charges_what_was_reported [OF sample_usage2_reachable] by blast
qed

text \<open>C13. 
  The usage of a turn adds up: the summary of a turn counts, for every request of the turn once, what the reports of that
  request stand for.
\<close>

theorem turn_usage_adds_up:
  assumes "reachable_store E d" and "getUsageSummary sc (Some tid) d = Inr s"
  shows "usCounters s = total_of (map (\<lambda>rid. reports_total (request_rows sc tid rid (stUsage d))) (turn_requests sc tid d))"
proof -
  note inv = reachable_ledger [OF assms(1)]
  have "usCounters s = sum_counters (entries_of UsageEntry (usage_rows sc (Some tid) d))"
    using assms(2) by (auto simp: getUsageSummary_def summarize_def Let_def split: if_splits)
  then show ?thesis
    using total_by_key [of "\<lambda>u. the (ulRequestId u)" "entries_of UsageEntry (usage_rows sc (Some tid) d)"]
    by (simp add: turn_requests_def turn_rows [OF inv] request_accounted [OF inv])
qed

theorem turn_usage_adds_up_witness:
  "\<exists>s. getUsageSummary sample_scope (Some ''u'') sample_usage2 = Inr s \<and> turn_requests sample_scope ''u'' sample_usage2 = [''q'']
    \<and> usCounters s = total_of [reports_total (request_rows sample_scope ''u'' ''q'' (stUsage sample_usage2))]"
proof -
  have q: "turn_requests sample_scope ''u'' sample_usage2 = [''q'']" by code_simp
  have "assertScope sample_scope" by code_simp
  then obtain s where s: "getUsageSummary sample_scope (Some ''u'') sample_usage2 = Inr s" by (simp add: getUsageSummary_def)
  then show ?thesis using turn_usage_adds_up [OF sample_usage2_reachable s] q by simp
qed

text \<open>C12. 
  A report is counted once: when a report was accepted and is sent again, at once or after any other operations and restarts, it is
  accepted, the answer is the entry of that report, and the store is as before.
\<close>

theorem usage_report_is_counted_once:
  assumes "reachable_store E d" and "appendUsage i now d = (Inr u, d1)" and "reaches (store_step E) d1 d2"
  shows "\<exists>u'. appendUsage i later d2 = (Inr u', d2) \<and> usage_key (uiScope i) (urDedupeKey (uiReport i)) u' \<and> same_report i u'"
proof -
  have "reaches (store_step E) d d1"
    using assms(2) one_step [OF step_usage [OF op_usage [of d i now]]] by simp
  then have "ledger_inv d2" using assms(1,3) reachable_ledger usage_ledger.reaches_inv by metis
  moreover obtain u' where u': "u' \<in> set (stUsage d1)" "usage_key (uiScope i) (urDedupeKey (uiReport i)) u'" "same_report i u'"
    using accepted_report_stored [OF assms(2)] by blast
  moreover have "u' \<in> set (stUsage d2)" using usage_run_grows [OF assms(3)] u'(1) by auto
  ultimately have "find (usage_key (uiScope i) (urDedupeKey (uiReport i))) (stUsage d2) = Some u'"
    by (intro distinct_find [where f = "\<lambda>u. (ulScope u, ulDedupeKey u)"]) (auto simp: ledger_inv_def usage_view_def usage_key_def)
  then show ?thesis using accepted_report_stored [OF assms(2)] u'(2,3) by (auto simp: appendUsage_def)
qed


lemma sample_usage1_accepted: "\<exists>u. appendUsage (sample_report ''q'' ''a'' CumulativeReport 10) 2 sample1 = (Inr u, sample_usage1)"
proof -
  have "\<not> isl (fst (appendUsage (sample_report ''q'' ''a'' CumulativeReport 10) 2 sample1))" by code_simp
  then show ?thesis
    by (cases "appendUsage (sample_report ''q'' ''a'' CumulativeReport 10) 2 sample1"; cases "fst (appendUsage (sample_report ''q'' ''a'' CumulativeReport 10) 2 sample1)")
       (auto simp: sample_usage1_def)
qed

theorem usage_report_is_counted_once_witness:
  "\<exists>u'. appendUsage (sample_report ''q'' ''a'' CumulativeReport 10) 9 sample_usage2 = (Inr u', sample_usage2) \<and> ulDedupeKey u' = ''a''"
proof -
  obtain u where "appendUsage (sample_report ''q'' ''a'' CumulativeReport 10) 2 sample1 = (Inr u, sample_usage1)"
    using sample_usage1_accepted by blast
  from usage_report_is_counted_once [OF sample1_reachable this one_step [OF sample_usage2_step], of 9]
  show ?thesis by (auto simp: usage_key_def sample_report_def)
qed

text \<open>
  What \<open>appendUsage\<close> answers is not always the entry it stored: the first report of a second request is answered with
  another entry, because the number of the cursor is taken for the number of the entry.
\<close>

theorem first_report_answers_another_entry:
  "reachable_store sample_env sample_usage2
    \<and> (case fst (appendUsage (sample_report ''q2'' ''c'' DeltaReport 1) 4 sample_usage2) of Inl err \<Rightarrow> False | Inr u \<Rightarrow> ulDedupeKey u = ''b'')"
proof -
  have "case fst (appendUsage (sample_report ''q2'' ''c'' DeltaReport 1) 4 sample_usage2) of Inl err \<Rightarrow> False | Inr u \<Rightarrow> ulDedupeKey u = ''b''"
    by code_simp
  then show ?thesis using sample_usage2_reachable by blast
qed

end
