(* ===== verification/Catalog_Props.thy ===== *)
theory Catalog_Props
  imports Event_Store_Props Store_Sides
begin

section \<open>Title jobs and members: properties\<close>

text \<open>
  The invariant of the catalog tables: a session has one title job with at most three attempts, a membership has one row, and
  the records of a membership are numbered from one to its version, the last one saying what the row says.
\<close>

subsection \<open>Title jobs\<close>

definition job_ok :: "title_job \<Rightarrow> bool" where
  "job_ok j \<longleftrightarrow> tjMaxAttempts j = 3 \<and> 0 \<le> tjAttempt j \<and> tjAttempt j \<le> 3 \<and> (tjStatus j = JobRunning \<longrightarrow> 0 < tjAttempt j)
     \<and> tjIdempotencyKey j = ''conversation-title:'' @ ssSessionId (tjScope j) @ '':v1''"

definition jobs_ok :: "title_job list \<Rightarrow> bool" where
  "jobs_ok js \<longleftrightarrow> distinct (map tjScope js) \<and> list_all job_ok js"

lemma jobs_ok_update:
  assumes "jobs_ok js" and "\<And>j. job_ok j \<Longrightarrow> P j \<Longrightarrow> job_ok (f j) \<and> tjScope (f j) = tjScope j"
  shows "jobs_ok (update_where P f js)"
proof -
  have "map tjScope (update_where P f js) = map tjScope js"
    using assms by (auto simp: jobs_ok_def update_where_def list_all_iff)
  then show ?thesis using assms unfolding jobs_ok_def by (auto simp: list_all_iff dest!: in_update_where)
qed

lemma jobs_ok_new:
  assumes "jobs_ok js" and "\<not> list_ex (same_job (new_job E sc now)) js"
  shows "jobs_ok (js @ [new_job E sc now])"
  using assms by (auto simp: jobs_ok_def job_ok_def same_job_def new_job_def list_all_iff list_ex_iff)

subsection \<open>Members\<close>

definition member_id :: "membership_row \<Rightarrow> string \<times> string \<times> string" where
  "member_id m = (omOrganizationId m, omIssuer m, omSubject m)"

definition record_id :: "membership_audit \<Rightarrow> string \<times> string \<times> string" where
  "record_id a = (maOrganizationId a, maIssuer a, maSubject a)"

definition history :: "string \<times> string \<times> string \<Rightarrow> membership_audit list \<Rightarrow> membership_audit list" where
  "history k as = filter (\<lambda>a. record_id a = k) as"

definition history_ok :: "membership_audit list \<Rightarrow> membership_row \<Rightarrow> bool" where
  "history_ok as m \<longleftrightarrow> map maVersion (history (member_id m) as) = [1..omVersion m] \<and> 0 < omVersion m
     \<and> map_option (\<lambda>a. (maRole a, maStatus a)) (at_last (history (member_id m) as)) = Some (omRole m, omStatus m)"

definition members_ok :: "membership_row list \<Rightarrow> membership_audit list \<Rightarrow> bool" where
  "members_ok ms as \<longleftrightarrow> distinct (map member_id ms) \<and> (\<forall>m \<in> set ms. history_ok as m) \<and> record_id ` set as \<subseteq> member_id ` set ms"

definition member_input_id :: "member_input \<Rightarrow> string \<times> string \<times> string" where
  "member_input_id i = (viOrganizationId i, viIssuer i, viSubject i)"

lemma input_key_id: "input_key i m \<longleftrightarrow> member_id m = member_input_id i"
  by (auto simp: input_key_def member_key_def member_id_def member_input_id_def)

definition changed_member :: "member_input \<Rightarrow> instant \<Rightarrow> membership_row \<Rightarrow> membership_row" where
  "changed_member i now m = m\<lparr>omRole := viRole i, omStatus := input_status i, omVersion := omVersion m + 1, omUpdatedAt := now\<rparr>"

definition member_record :: "member_input \<Rightarrow> instant \<Rightarrow> int \<Rightarrow> membership_audit" where
  "member_record i now n =
    \<lparr>maOrganizationId = viOrganizationId i, maIssuer = viIssuer i, maSubject = viSubject i, maRole = viRole i,
     maStatus = input_status i, maVersion = n, maOccurredAt = now\<rparr>"

lemma member_ids [simp]:
  "member_id (changed_member i now m) = member_id m" "record_id (member_record i now n) = member_input_id i"
  by (simp_all add: member_id_def changed_member_def record_id_def member_record_def member_input_id_def)

lemma history_snoc: "history k (as @ [a]) = history k as @ (if record_id a = k then [a] else [])"
  by (simp add: history_def)

lemma history_other: "member_id m \<noteq> member_input_id i \<Longrightarrow> history_ok (as @ [member_record i now n]) m = history_ok as m"
  by (auto simp: history_ok_def history_snoc)

lemma upto_snoc: "0 \<le> n \<Longrightarrow> [1..n] @ [n + 1] = [1..n + (1 :: int)]"
  using upto_rec2 [of 1 "n + 1"] by simp

lemma members_ok_changed:
  assumes "members_ok ms as" and "m \<in> set ms" and "member_id m = member_input_id i"
  shows "members_ok (update_where (input_key i) (changed_member i now) ms) (as @ [member_record i now (omVersion m + 1)])"
proof -
  have ids: "map member_id (update_where (input_key i) (changed_member i now) ms) = map member_id ms"
    by (rule map_update_where) simp
  have one: "x = m" if "x \<in> set ms" "member_id x = member_input_id i" for x
    using that assms by (auto simp: members_ok_def distinct_map inj_on_def)
  have "history_ok as m" using assms(1,2) by (simp add: members_ok_def)
  then have "history_ok (as @ [member_record i now (omVersion m + 1)]) (changed_member i now m)"
    using assms(3) upto_snoc [of "omVersion m"] by (auto simp: history_ok_def history_snoc at_last_def) (simp_all add: changed_member_def member_record_def)
  moreover have "x = changed_member i now m \<or> x \<in> set ms \<and> member_id x \<noteq> member_input_id i"
    if "x \<in> set (update_where (input_key i) (changed_member i now) ms)" for x
    using in_update_where [OF that] one by (auto simp: input_key_id split: if_splits)
  ultimately have "history_ok (as @ [member_record i now (omVersion m + 1)]) x"
    if "x \<in> set (update_where (input_key i) (changed_member i now) ms)" for x
    using that assms(1) history_other by (metis members_ok_def)
  moreover have "member_id ` set (update_where (input_key i) (changed_member i now) ms) = member_id ` set ms"
    using ids by (metis list.set_map)
  ultimately show ?thesis using assms ids by (auto simp: members_ok_def) (metis image_eqI)
qed

definition added_member :: "member_input \<Rightarrow> instant \<Rightarrow> membership_row" where
  "added_member i now = \<lparr>omOrganizationId = viOrganizationId i, omIssuer = viIssuer i, omSubject = viSubject i, omRole = viRole i,
     omStatus = input_status i, omVersion = 1, omCreatedAt = now, omUpdatedAt = now\<rparr>"

lemma members_ok_added:
  assumes "members_ok ms as" and new: "member_input_id i \<notin> member_id ` set ms"
  shows "members_ok (ms @ [added_member i now]) (as @ [member_record i now 1])"
proof -
  have id: "member_id (added_member i now) = member_input_id i" by (simp add: member_id_def added_member_def member_input_id_def)
  have "member_input_id i \<notin> record_id ` set as" using assms unfolding members_ok_def by (meson subsetD)
  then have "history (member_input_id i) as = []" by (auto simp: history_def filter_empty_conv image_iff)
  then have "history_ok (as @ [member_record i now 1]) (added_member i now)"
    unfolding history_ok_def id history_snoc by (simp add: at_last_def) (simp add: added_member_def member_record_def)
  moreover have "history_ok (as @ [member_record i now 1]) m" if "m \<in> set ms" for m
    using that assms history_other [of m i as now 1] unfolding members_ok_def by (metis image_eqI)
  ultimately show ?thesis using assms(1) new id unfolding members_ok_def by auto
qed

lemma put_member_ok:
  assumes "members_ok (ktMemberships k) (ktMembershipAudit k)"
  shows "members_ok (ktMemberships (put_member i now k)) (ktMembershipAudit (put_member i now k))"
proof (cases "find (input_key i) (ktMemberships k)")
  case None
  then have new: "member_input_id i \<notin> member_id ` set (ktMemberships k)" "\<not> list_ex (input_key i) (ktMemberships k)"
    by (auto simp: find_None_iff input_key_id list_ex_iff)
  then have "put_membership i now (ktMemberships k) = ktMemberships k @ [added_member i now]"
    by (simp add: put_membership_def added_member_def)
  moreover have "member_version i (ktMemberships k @ [added_member i now]) = 1"
    using None by (simp add: member_version_def find_append) (simp add: input_key_id member_id_def member_input_id_def added_member_def)
  ultimately show ?thesis using members_ok_added [OF assms new(1), of now] by (simp add: put_member_def member_record_def Let_def)
next
  case (Some m)
  then have m: "m \<in> set (ktMemberships k)" "member_id m = member_input_id i" "list_ex (input_key i) (ktMemberships k)"
    by (auto simp: find_Some_iff input_key_id list_ex_iff)
  then have ms: "put_membership i now (ktMemberships k) = update_where (input_key i) (changed_member i now) (ktMemberships k)"
    by (simp add: put_membership_def changed_member_def [abs_def])
  have "distinct (map member_id (update_where (input_key i) (changed_member i now) (ktMemberships k)))"
    using assms by (simp add: members_ok_def)
  moreover have "changed_member i now m \<in> set (update_where (input_key i) (changed_member i now) (ktMemberships k))"
    using m by (auto simp: update_where_def input_key_id image_iff)
  ultimately have "find (input_key i) (update_where (input_key i) (changed_member i now) (ktMemberships k)) = Some (changed_member i now m)"
    using m(2) by (intro distinct_find [where f = member_id]) (auto simp: input_key_id)
  then have "member_version i (put_membership i now (ktMemberships k)) = omVersion m + 1"
    by (simp add: member_version_def ms) (simp add: changed_member_def)
  then show ?thesis using members_ok_changed [OF assms m(1,2), of now] ms by (simp add: put_member_def member_record_def Let_def)
qed


subsection \<open>Steps\<close>

definition catalog_ok :: "catalog_tables \<Rightarrow> bool" where
  "catalog_ok k \<longleftrightarrow> jobs_ok (ktJobs k) \<and> members_ok (ktMemberships k) (ktMembershipAudit k)"

lemma set_catalog_simps [simp]: "stCatalog (set_catalog f d) = f (stCatalog d)"
  by (simp add: set_catalog_def)

lemma organization_frame [simp]:
  "ktJobs (put_organization org name active now k) = ktJobs k" "ktMemberships (put_organization org name active now k) = ktMemberships k"
  "ktMembershipAudit (put_organization org name active now k) = ktMembershipAudit k"
  "ktJobs (put_principal iss sub active now k) = ktJobs k" "ktMemberships (put_principal iss sub active now k) = ktMemberships k"
  "ktMembershipAudit (put_principal iss sub active now k) = ktMembershipAudit k" "ktJobs (put_member i now k) = ktJobs k"
  by (simp_all add: put_organization_def put_principal_def put_member_def Let_def)

lemma catalog_ok_organization [simp]:
  "catalog_ok (put_organization org name active now k) = catalog_ok k" "catalog_ok (put_principal iss sub active now k) = catalog_ok k"
  by (simp_all add: catalog_ok_def)

lemma catalog_ok_jobs: "catalog_ok k \<Longrightarrow> jobs_ok (f (ktJobs k)) \<Longrightarrow> catalog_ok (k\<lparr>ktJobs := f (ktJobs k)\<rparr>)"
  by (simp add: catalog_ok_def)

lemma catalog_ok_member: "catalog_ok k \<Longrightarrow> catalog_ok (put_member i now k)"
  using put_member_ok by (simp add: catalog_ok_def)

lemma membership_catalog:
  "stCatalog (snd (upsertOrganizationMembership i now d)) =
    (if viOrganizationId i = [] \<or> 120 < length (viOrganizationId i) \<or> \<not> distinct (viWorkspaceIds i) then stCatalog d
     else put_member i now (put_principal (viIssuer i) (viSubject i) None now (put_organization (viOrganizationId i) (viOrganizationId i) None now (stCatalog d))))"
  by (simp add: upsertOrganizationMembership_def upsertOrganization_def upsertPrincipalIdentity_def transaction_def st_bind_def)

lemma job_ops_ok:
  assumes "catalog_ok (stCatalog d)"
  shows "catalog_ok (stCatalog (snd (enqueueConversationTitleJob E sc now d)))" "catalog_ok (stCatalog (snd (claimConversationTitleJob sc now d)))"
    "catalog_ok (stCatalog (snd (completeConversationTitleJob sc title now d)))" "catalog_ok (stCatalog (snd (failConversationTitleJob sc code now d)))"
proof -
  note ok = assms [unfolded catalog_ok_def]
  show "catalog_ok (stCatalog (snd (enqueueConversationTitleJob E sc now d)))"
    using ok jobs_ok_new by (auto simp: enqueueConversationTitleJob_def st_bind_def set_jobs_def catalog_ok_def Let_def dest!: getSession_snd split: prod.splits sum.splits)
  have "jobs_ok (update_where (claimable sc) (\<lambda>j. j\<lparr>tjStatus := JobRunning, tjAttempt := tjAttempt j + 1, tjStartedAt := Some now, tjUpdatedAt := now\<rparr>) (ktJobs (stCatalog d)))"
    using ok by (intro jobs_ok_update) (auto simp: job_ok_def claimable_def)
  then show "catalog_ok (stCatalog (snd (claimConversationTitleJob sc now d)))"
    using ok by (simp add: claimConversationTitleJob_def set_jobs_def catalog_ok_def Let_def)
  have "jobs_ok (update_where (job_of sc) (\<lambda>j. j\<lparr>tjStatus := JobCompleted, tjCompletedAt := Some now, tjUpdatedAt := now\<rparr>) (ktJobs (stCatalog d)))"
    using ok by (intro jobs_ok_update) (auto simp: job_ok_def)
  then show "catalog_ok (stCatalog (snd (completeConversationTitleJob sc title now d)))"
    using ok by (simp add: completeConversationTitleJob_def set_jobs_def catalog_ok_def)
  have "jobs_ok (update_where (job_of sc) (\<lambda>i. i\<lparr>tjStatus := (if b then JobFailed else JobQueued), tjLastErrorCode := Some code, tjUpdatedAt := now\<rparr>) (ktJobs (stCatalog d)))" for b
    using ok by (intro jobs_ok_update) (auto simp: job_ok_def)
  then show "catalog_ok (stCatalog (snd (failConversationTitleJob sc code now d)))"
    using ok by (auto simp: failConversationTitleJob_def set_jobs_def catalog_ok_def Let_def split: option.splits)
qed

lemma record_ops_ok:
  assumes "catalog_ok (stCatalog d)"
  shows "catalog_ok (stCatalog (snd (upsertArtifact ar d)))" "catalog_ok (stCatalog (snd (putGitSnapshot gs key d)))"
    "catalog_ok (stCatalog (snd (bindGitSnapshotTurn sc sid tid d)))" "catalog_ok (stCatalog (snd (setConversationFolderArchived tn w fo archived now d)))"
  using assms
  by (auto simp: upsertArtifact_def getArtifact_def putGitSnapshot_def bindGitSnapshotTurn_def setConversationFolderArchived_def set_artifacts_def
      set_snapshots_def catalog_ok_def Let_def split: option.splits)

lemma catalog_op_ok: "catalog_op E d d' \<Longrightarrow> catalog_ok (stCatalog d) \<Longrightarrow> catalog_ok (stCatalog d')"
  by (induction rule: catalog_op.induct)
     (auto simp: job_ops_ok record_ops_ok membership_catalog upsertOrganization_def upsertPrincipalIdentity_def intro!: catalog_ok_member)

lemma restart_ok: "catalog_ok (stCatalog d) \<Longrightarrow> catalog_ok (stCatalog (restart now d))"
  unfolding catalog_ok_def restart_def by (auto intro!: jobs_ok_update simp: job_ok_def)

lemma catalog_step_ok: "store_step E d d' \<Longrightarrow> catalog_ok (stCatalog d) \<Longrightarrow> catalog_ok (stCatalog d')"
  by (erule catalog_step) (auto intro: catalog_op_ok restart_ok)

lemma catalog_ok_empty: "catalog_ok (stCatalog empty_store)"
  by (simp add: catalog_ok_def empty_store_def empty_catalog_def jobs_ok_def members_ok_def)

interpretation catalog_run: transition_system "\<lambda>d. d = empty_store" "store_step E" "\<lambda>d. catalog_ok (stCatalog d)"
  by unfold_locales (use catalog_ok_empty catalog_step_ok in blast)+

lemma reachable_catalog: "reachable_store E d \<Longrightarrow> catalog_ok (stCatalog d)"
  unfolding reachable_store_def using catalog_run.reachable_inv by blast


subsection \<open>Properties\<close>

definition sample_member :: "organization_role \<Rightarrow> member_input" where
  "sample_member r = \<lparr>viOrganizationId = ''o'', viIssuer = ''i'', viSubject = ''p'', viRole = r, viStatus = None, viWorkspaceIds = [''w'']\<rparr>"

definition sample_members :: store where
  "sample_members = snd (upsertOrganizationMembership (sample_member ViewerRole) 2 (snd (upsertOrganizationMembership (sample_member OwnerRole) 1 empty_store)))"

lemma sample_members_reachable: "reachable_store sample_env sample_members"
  unfolding sample_members_def
  by (rule reachable_step [OF reachable_step [OF _ step_catalog [OF op_member]] step_catalog [OF op_member]]) (simp add: reachable_store_def reaches_refl)

text \<open>C14. 
  The history of a membership is complete: along every run of the store a person has one membership row per organization, its
  version is the number of records about it, the records are numbered from one to that version without a gap, and the last
  record has the role and the status of the row.
\<close>

theorem membership_history_is_complete:
  assumes "reachable_store E d" and "m \<in> set (ktMemberships (stCatalog d))"
  shows "map maVersion (history (member_id m) (ktMembershipAudit (stCatalog d))) = [1..omVersion m]
    \<and> map_option (\<lambda>a. (maRole a, maStatus a)) (at_last (history (member_id m) (ktMembershipAudit (stCatalog d)))) = Some (omRole m, omStatus m)
    \<and> int (countMembershipAuditRecords (omOrganizationId m) (omIssuer m) (omSubject m) d) = omVersion m
    \<and> filter (\<lambda>x. member_id x = member_id m) (ktMemberships (stCatalog d)) = [m]"
proof -
  have ok: "members_ok (ktMemberships (stCatalog d)) (ktMembershipAudit (stCatalog d))"
    using reachable_catalog [OF assms(1)] by (simp add: catalog_ok_def)
  then have h: "history_ok (ktMembershipAudit (stCatalog d)) m" and "distinct (map member_id (ktMemberships (stCatalog d)))"
    using assms(2) by (simp_all add: members_ok_def)
  then have one: "filter (\<lambda>x. member_id x = member_id m) (ktMemberships (stCatalog d)) = [m]"
    using assms(2) by (intro distinct_filter_one)
  have len: "length (map maVersion (history (member_id m) (ktMembershipAudit (stCatalog d)))) = length [1..omVersion m]" and pos: "0 < omVersion m"
    using h unfolding history_ok_def by metis+
  have "countMembershipAuditRecords (omOrganizationId m) (omIssuer m) (omSubject m) d = length (history (member_id m) (ktMembershipAudit (stCatalog d)))"
    by (simp add: countMembershipAuditRecords_def history_def record_id_def member_id_def)
  also have "int \<dots> = omVersion m" using len pos by simp
  finally show ?thesis using h one by (simp add: history_ok_def)
qed

theorem membership_history_is_complete_witness:
  "\<exists>m. ktMemberships (stCatalog sample_members) = [m] \<and> omVersion m = 2
    \<and> map maVersion (history (member_id m) (ktMembershipAudit (stCatalog sample_members))) = [1..2]"
proof -
  have "map omVersion (ktMemberships (stCatalog sample_members)) = [2]" by code_simp
  then obtain m where m: "ktMemberships (stCatalog sample_members) = [m]" "omVersion m = 2" by auto
  then show ?thesis using membership_history_is_complete [OF sample_members_reachable, of m] by simp
qed

text \<open>
  A session has at most one title job, which is tried at most three times, whatever the order of claims, failures,
  completions and restarts.
\<close>

theorem title_job_is_tried_three_times:
  assumes "reachable_store E d" and "j \<in> set (ktJobs (stCatalog d))"
  shows "tjAttempt j \<le> 3 \<and> (tjStatus j = JobRunning \<longrightarrow> 0 < tjAttempt j) \<and> getConversationTitleJob (tjScope j) d = Some j"
proof -
  have ok: "jobs_ok (ktJobs (stCatalog d))" using reachable_catalog [OF assms(1)] by (simp add: catalog_ok_def)
  then have "find (job_of (tjScope j)) (ktJobs (stCatalog d)) = Some j"
    using assms(2) by (intro distinct_find [where f = tjScope]) (auto simp: jobs_ok_def job_of_def)
  then show ?thesis using ok assms(2) by (auto simp: jobs_ok_def job_ok_def list_all_iff getConversationTitleJob_def)
qed

text \<open>A title given by hand stays: the job of a session never replaces it.\<close>

lemma manual_title_stays:
  assumes "s \<in> set (stSessions d)" and "seManualTitleAt s \<noteq> None"
  shows "s \<in> set (stSessions (snd (completeConversationTitleJob sc title now d)))"
  using assms by (auto simp: completeConversationTitleJob_def set_jobs_def set_catalog_def update_where_def image_iff)

text \<open>
  A job that was running its last attempt when the process stopped is not queued again at the restart and cannot be claimed: it
  stays as it is.
\<close>

lemma last_attempt_is_lost:
  assumes "catalog_ok (stCatalog d)" and "j \<in> set (ktJobs (stCatalog d))" and "tjStatus j = JobRunning" and "tjAttempt j = 3"
  shows "j \<in> set (ktJobs (stCatalog (snd (claimConversationTitleJob (tjScope j) now (restart t d)))))"
proof -
  have "tjMaxAttempts j = 3" using assms(1,2) by (auto simp: catalog_ok_def jobs_ok_def job_ok_def list_all_iff)
  then have "j \<in> set (ktJobs (stCatalog (restart t d)))" using assms(2,4) by (force simp: restart_def update_where_def image_iff)
  then show ?thesis using assms(3) by (force simp: claimConversationTitleJob_def set_jobs_def claimable_def update_where_def image_iff Let_def)
qed

text \<open>Whoever becomes a member activates the organization again, and gives it its identifier as a name.\<close>

lemma new_member_activates_the_organization:
  assumes "snd (upsertOrganizationMembership i now d) = d'" and "viOrganizationId i \<noteq> []" "length (viOrganizationId i) \<le> 120" "distinct (viWorkspaceIds i)"
    and "x \<in> set (ktOrganizations (stCatalog d'))" and "ogOrganizationId x = viOrganizationId i"
  shows "ogActive x \<and> ogName x = viOrganizationId i"
  using assms(2-) membership_catalog [of i now d, unfolded assms(1)]
  by (auto simp: put_member_def put_principal_def put_organization_def Let_def update_where_def list_ex_iff split: if_splits)

end
