(* ===== verification/Provider_Props.thy ===== *)
theory Provider_Props
  imports Provider_Platform
begin

section \<open>The provider platform: properties\<close>

text \<open>
  A resolved policy names a model the catalog offers; an estimate is the exact price rounded to the nearest micro; an official
  cost is the sum of the amounts of every page, each the decimal rounded to the nearest micro.
\<close>

subsection \<open>Model selection\<close>

lemma find_member: "find P xs = Some x \<Longrightarrow> x \<in> set xs \<and> P x"
  by (auto simp: find_Some_iff)

text \<open>The last check of a resolution never fails.\<close>

lemma resolved_is_valid:
  assumes "providerModelCatalogSchema catalog" and "m \<in> set (ctModels catalog)" and "modelSelectionSchema requested"
  shows "parse_resolved \<lparr>rvRequested = requested, rvProvider = p, rvModelId = pmModelId m, rvReasoningEffort = e, rvCapabilities = c,
    rvCatalogDiscoveredAt = ctDiscoveredAt catalog\<rparr> = Inr \<lparr>rvRequested = requested, rvProvider = p, rvModelId = pmModelId m, rvReasoningEffort = e,
    rvCapabilities = c, rvCatalogDiscoveredAt = ctDiscoveredAt catalog\<rparr>"
  using assms by (auto simp: parse_resolved_def resolvedModelPolicySchema_def providerModelCatalogSchema_def providerModelSchema_def list_all_iff)

text \<open>An alias that is not configured is refused by the schema; the error made for it is never given.\<close>

lemma alias_is_configured: "resolveModelPolicy al effort config catalog \<noteq> Inl MODEL_ALIAS_NOT_CONFIGURED"
proof (cases al)
  case Sol
  then show ?thesis by (auto simp: resolveModelPolicy_def modelAliasConfigSchema_def alias_target_valid_def parse_resolved_def split: option.splits)
next
  case Luna
  then show ?thesis by (auto simp: resolveModelPolicy_def modelAliasConfigSchema_def alias_target_valid_def parse_resolved_def split: option.splits)
qed

lemma selected_member: "selected_model s models = Some m \<Longrightarrow> m \<in> set models \<and> (s = CatalogDefault \<longrightarrow> \<not> pmHidden m)"
  by (auto simp: selected_model_def dest: find_member split: model_selector.splits)

definition offered :: "model_catalog \<Rightarrow> resolved_policy \<Rightarrow> provider_model \<Rightarrow> bool" where
  "offered catalog r m \<longleftrightarrow> m \<in> set (ctModels catalog) \<and> rvModelId r = pmModelId m \<and> rvCapabilities r = pmCapabilities m
     \<and> rvReasoningEffort r \<in> set (pmReasoningEfforts m) \<and> rvCatalogDiscoveredAt r = ctDiscoveredAt catalog"

lemma policy_offered:
  assumes "resolveModelPolicy al effort config catalog = Inr r"
  shows "\<exists>m. offered catalog r m \<and> rvRequested r = ByAlias al effort \<and> rvReasoningEffort r = effort
    \<and> (map_option atSelector (config al) = Some CatalogDefault \<longrightarrow> \<not> pmHidden m)"
  using assms
  by (auto simp: resolveModelPolicy_def parse_resolved_def offered_def split: if_splits option.splits dest!: selected_member)

text \<open>
  A resolved policy is offered: what a selection resolves to is a model of the catalog of the requested provider, with the
  capabilities the catalog gives it and an effort it supports; a model that was asked for by its identifier is that model and is
  not hidden.
\<close>

theorem resolved_model_is_offered:
  assumes "resolveModelSelection provider requested config catalog = Inr r"
  shows "\<exists>m. offered catalog r m \<and> rvRequested r = requested \<and> piProvider (ctIdentity catalog) = provider
    \<and> (case requested of ByAlias al effort \<Rightarrow> rvReasoningEffort r = effort \<and> (map_option atSelector (config al) = Some CatalogDefault \<longrightarrow> \<not> pmHidden m)
        | ByModel mid effort \<Rightarrow> rvReasoningEffort r = effort \<and> pmModelId m = mid \<and> \<not> pmHidden m)"
proof (cases requested)
  case (ByAlias al effort)
  then have "resolveModelPolicy al effort config catalog = Inr r" "piProvider (ctIdentity catalog) = provider"
    using assms by (auto simp: resolveModelSelection_def split: if_splits)
  then show ?thesis using ByAlias policy_offered by fastforce
next
  case (ByModel mid effort)
  then show ?thesis using assms
    by (auto simp: resolveModelSelection_def parse_resolved_def offered_def split: if_splits option.splits dest!: find_member)
qed

definition sample_capabilities :: capability_matrix where
  "sample_capabilities = \<lparr>cmStreaming = Supported, cmReasoningSummary = Supported, cmCommandExecution = Supported, cmFileChanges = Supported,
     cmApprovals = Supported, cmInterrupt = Supported, cmResume = Supported, cmToolCalls = Supported, cmImageInput = Unsupported,
     cmUsage = Supported, cmCost = Unsupported\<rparr>"

definition sample_model :: provider_model where
  "sample_model = \<lparr>pmProvider = Codex, pmModelId = ''a'', pmDisplayName = ''A'', pmHidden = False, pmIsDefault = True,
     pmReasoningEfforts = [EffortNone, Medium], pmDefaultReasoningEffort = Medium, pmInputModalities = [''text''], pmCapabilities = sample_capabilities\<rparr>"

definition sample_catalog :: model_catalog where
  "sample_catalog = \<lparr>ctSchemaVersion = 1,
     ctIdentity = \<lparr>piProvider = Codex, piAdapter = ''x'', piAdapterVersion = ''1'', piUpstreamVersion = ''f''\<rparr>,
     ctDiscoveredAt = 0, ctModels = [sample_model]\<rparr>"

theorem resolved_model_is_offered_witness:
  "\<exists>r m. resolveModelSelection Codex (ByAlias Sol Medium) DEFAULT_MODEL_ALIAS_CONFIG sample_catalog = Inr r \<and> offered sample_catalog r m \<and> rvModelId r = ''a''"
proof -
  have "case resolveModelSelection Codex (ByAlias Sol Medium) DEFAULT_MODEL_ALIAS_CONFIG sample_catalog of Inl err \<Rightarrow> False | Inr r \<Rightarrow> rvModelId r = ''a''"
    by code_simp
  then obtain r where r: "resolveModelSelection Codex (ByAlias Sol Medium) DEFAULT_MODEL_ALIAS_CONFIG sample_catalog = Inr r" "rvModelId r = ''a''"
    by (auto split: sum.splits)
  then show ?thesis using resolved_model_is_offered [OF r(1)] by blast
qed

subsection \<open>Rounding\<close>

lemma round_nearest:
  fixes n k :: int
  assumes "0 < k"
  shows "2 * \<bar>((n + k div 2) div k) * k - n\<bar> \<le> k"
proof -
  have "((n + k div 2) div k) * k = n + k div 2 - (n + k div 2) mod k" by (simp add: minus_mod_eq_div_mult [symmetric])
  moreover have "0 \<le> (n + k div 2) mod k" "(n + k div 2) mod k < k" using assms by simp_all
  moreover have "2 * (k div 2) \<le> k" "k \<le> 2 * (k div 2) + 1" by presburger+
  ultimately show ?thesis unfolding abs_le_iff by (simp add: abs_if)
qed

lemma digits_value_nonneg: "0 \<le> digits_value s"
proof -
  have "0 \<le> v \<Longrightarrow> 0 \<le> fold (\<lambda>c v. 10 * v + int (digit_val c)) s v" for v by (induction s arbitrary: v) simp_all
  then show ?thesis by (simp add: digits_value_def)
qed

lemma decimal_rounded:
  assumes "decimalUnitsToMicros t unit = Inr m" and "0 \<le> unit"
  shows "\<exists>w f. decimal_parts t = Some (w, f) \<and> 2 * \<bar>m * 10 ^ length f - digits_value (w @ f) * unit\<bar> \<le> 10 ^ length f
    \<and> 0 \<le> m \<and> m \<le> MAX_SAFE_INTEGER"
proof -
  obtain w f where parts: "decimal_parts t = Some (w, f)" and m: "m = (digits_value (w @ f) * unit + 10 ^ length f div 2) div 10 ^ length f" "m \<le> MAX_SAFE_INTEGER"
    using assms(1) by (auto simp: decimalUnitsToMicros_def Let_def split: option.splits if_splits)
  have "0 \<le> digits_value (w @ f) * unit + 10 ^ length f div 2" using digits_value_nonneg assms(2) by simp
  then have "0 \<le> m" using m(1) by (simp add: pos_imp_zdiv_nonneg_iff)
  then show ?thesis using parts m round_nearest [of "10 ^ length f" "digits_value (w @ f) * unit"] by auto
qed





subsection \<open>Official costs\<close>

text \<open>The pages a fetcher serves, from the \<open>n\<close>th request on; only the last one says that there is no more.\<close>

fun served :: "(nat \<Rightarrow> string option \<Rightarrow> cost_response) \<Rightarrow> nat \<Rightarrow> string option \<Rightarrow> cost_page list \<Rightarrow> bool" where
  "served fetch n page [] = False"
| "served fetch n page (p # ps) \<longleftrightarrow> officialCostJson (fetch n page) = Inr p
     \<and> (if ps = [] then \<not> cgHasMore p else cgHasMore p \<and> truthy (cgNextPage p) \<and> served fetch (Suc n) (cgNextPage p) ps)"

lemma add_results_sum:
  "add_results src rs acc = Inr t \<longleftrightarrow> (\<exists>ms. map (result_micros src) rs = map Inr ms \<and> t = acc + sum_list ms)"
proof (induction rs arbitrary: acc)
  case (Cons r rs)
  show ?case
  proof (cases "result_micros src r")
    case (Inl e)
    then show ?thesis by (auto simp: Cons_eq_map_conv)
  next
    case (Inr m)
    have "(\<exists>ms. map (result_micros src) (r # rs) = map Inr ms \<and> t = acc + sum_list ms) \<longleftrightarrow>
        (\<exists>ms. map (result_micros src) rs = map Inr ms \<and> t = acc + m + sum_list ms)" (is "?l = ?r")
    proof
      assume ?l
      then obtain ms where "map (result_micros src) (r # rs) = map Inr ms" "t = acc + sum_list ms" by blast
      then show ?r using Inr by (cases ms) (auto simp: add.assoc)
    next
      assume ?r
      then obtain ms where "map (result_micros src) rs = map Inr ms" "t = acc + m + sum_list ms" by blast
      then show ?l using Inr by (intro exI [of _ "m # ms"]) simp
    qed
    then show ?thesis using Inr Cons by simp
  qed
qed auto

lemma page_read:
  assumes "cost_pages src fetch n page acc = Inr t"
  obtains raw acc1 where "officialCostJson (fetch n page) = Inr raw" "add_results src (page_results raw) acc = Inr acc1"
    "\<not> cgHasMore raw \<Longrightarrow> t = acc1"
    "cgHasMore raw \<Longrightarrow> truthy (cgNextPage raw) \<and> Suc n < 100 \<and> cost_pages src fetch (Suc n) (cgNextPage raw) acc1 = Inr t"
proof -
  have "\<exists>raw acc1. officialCostJson (fetch n page) = Inr raw \<and> add_results src (page_results raw) acc = Inr acc1"
    using assms by (simp only: cost_pages.simps [of src fetch n page acc]) (auto split: sum.splits)
  then obtain raw acc1 where raw: "officialCostJson (fetch n page) = Inr raw" "add_results src (page_results raw) acc = Inr acc1" by blast
  from assms raw show thesis
    by (intro that [OF raw]) (simp_all only: cost_pages.simps [of src fetch n page acc], simp_all add: Let_def split: if_splits)
qed

lemma pages_sum:
  assumes "cost_pages src fetch n page acc = Inr t" and "n < 100"
  shows "\<exists>ps ms. served fetch n page ps \<and> n + length ps \<le> 100
    \<and> map (result_micros src) (concat (map page_results ps)) = map Inr ms \<and> t = acc + sum_list ms"
  using assms
proof (induction src fetch n page acc rule: cost_pages.induct)
  case (1 src fetch n page acc)
  obtain raw acc1 where raw: "officialCostJson (fetch n page) = Inr raw" "add_results src (page_results raw) acc = Inr acc1"
    and final: "\<not> cgHasMore raw \<Longrightarrow> t = acc1"
    and more: "cgHasMore raw \<Longrightarrow> truthy (cgNextPage raw) \<and> Suc n < 100 \<and> cost_pages src fetch (Suc n) (cgNextPage raw) acc1 = Inr t"
    using "1.prems"(1) by (rule page_read) blast
  obtain ms where ms: "map (result_micros src) (page_results raw) = map Inr ms" "acc1 = acc + sum_list ms"
    using raw(2) add_results_sum by blast
  show ?case
  proof (cases "cgHasMore raw")
    case False
    then show ?thesis using raw ms final "1.prems"(2) by (intro exI [of _ "[raw]"] exI [of _ ms]) simp
  next
    case True
    obtain ps ms' where ps: "served fetch (Suc n) (cgNextPage raw) ps" "Suc n + length ps \<le> 100"
      "map (result_micros src) (concat (map page_results ps)) = map Inr ms'" "t = acc1 + sum_list ms'"
      using "1.IH" [OF raw, of "cgNextPage raw"] True more [OF True] by auto
    then have "ps \<noteq> []" by auto
    then show ?thesis using ps raw ms True more [OF True] by (intro exI [of _ "raw # ps"] exI [of _ "ms @ ms'"]) simp
  qed
qed

text \<open>C15. 
  An official cost is complete: a reconciliation that succeeds has read every page the provider serves, at most a hundred, and
  its cost is the sum of the amounts of all results, each of which was in dollars and is its decimal rounded to the nearest micro.
\<close>

theorem official_cost_is_complete:
  assumes "reconcile src key fetch now request = Inr costs"
  shows "\<exists>ps ms. served fetch 0 None ps \<and> length ps \<le> 100 \<and> map ocOfficialCost costs = [sum_list ms]
    \<and> list_all2 (\<lambda>r m. usd_currency src (coCurrency r) \<and> (\<exists>t w f. coAmount r = Some t \<and> decimal_parts t = Some (w, f)
          \<and> 2 * \<bar>m * 10 ^ length f - digits_value (w @ f) * cost_unit src\<bar> \<le> 10 ^ length f)) (concat (map page_results ps)) ms"
proof -
  obtain total where t: "cost_pages src fetch 0 None 0 = Inr total" "map ocOfficialCost costs = [total]"
    using assms by (auto simp: reconcile_def split: if_splits sum.splits)
  obtain ps ms where ps: "served fetch 0 None ps" "length ps \<le> 100" "map (result_micros src) (concat (map page_results ps)) = map Inr ms" "total = sum_list ms"
    using pages_sum [OF t(1)] by auto
  have unit: "0 \<le> cost_unit src" by (cases src) (simp_all add: cost_unit_def)
  have "usd_currency src (coCurrency r) \<and> (\<exists>t w f. coAmount r = Some t \<and> decimal_parts t = Some (w, f)
      \<and> 2 * \<bar>m * 10 ^ length f - digits_value (w @ f) * cost_unit src\<bar> \<le> 10 ^ length f)" if h: "result_micros src r = Inr m" for r m
  proof (cases "coAmount r")
    case None
    have "decimal_parts (missing_amount src) = None" by (cases src) (simp_all add: missing_amount_def, code_simp+)
    then show ?thesis using h None by (simp add: result_micros_def decimalUnitsToMicros_def split: if_splits)
  next
    case (Some t)
    then show ?thesis using h decimal_rounded [OF _ unit, of t m] by (auto simp: result_micros_def split: if_splits)
  qed
  moreover have "list_all2 (\<lambda>r m. result_micros src r = Inr m) (concat (map page_results ps)) ms"
    using ps(3) by (simp add: list_all2_conv_all_nth list_eq_iff_nth_eq)
  ultimately have "list_all2 (\<lambda>r m. usd_currency src (coCurrency r) \<and> (\<exists>t w f. coAmount r = Some t \<and> decimal_parts t = Some (w, f)
      \<and> 2 * \<bar>m * 10 ^ length f - digits_value (w @ f) * cost_unit src\<bar> \<le> 10 ^ length f)) (concat (map page_results ps)) ms"
    by (rule list_all2_mono [rotated])
  then show ?thesis using ps(1,2,4) t(2) by (intro exI [of _ ps] exI [of _ ms] conjI) simp_all
qed


definition sample_pages :: "nat \<Rightarrow> string option \<Rightarrow> cost_response" where
  "sample_pages n page = \<lparr>hrStatus = 200, hrBody =
     (if page = None then \<lparr>cgData = Some [Some [\<lparr>coAmount = Some ''1.25'', coCurrency = Some ''USD''\<rparr>]], cgHasMore = True, cgNextPage = Some ''p''\<rparr>
      else \<lparr>cgData = Some [Some [\<lparr>coAmount = Some ''0.75'', coCurrency = Some ''USD''\<rparr>]], cgHasMore = False, cgNextPage = None\<rparr>)\<rparr>"

definition sample_cost_request :: cost_request where
  "sample_cost_request = \<lparr>cqProvider = Claude, cqFrom = ''f'', cqTo = ''t''\<rparr>"

theorem official_cost_is_complete_witness:
  "\<exists>costs ps. reconcile Anthropic ''key'' sample_pages 5 sample_cost_request = Inr costs \<and> map ocOfficialCost costs = [20000]
    \<and> served sample_pages 0 None ps"
proof -
  have "case reconcile Anthropic ''key'' sample_pages 5 sample_cost_request of Inl err \<Rightarrow> False | Inr costs \<Rightarrow> map ocOfficialCost costs = [20000]"
    by code_simp
  then obtain costs where c: "reconcile Anthropic ''key'' sample_pages 5 sample_cost_request = Inr costs" "map ocOfficialCost costs = [20000]"
    by (auto split: sum.splits)
  obtain ps where "served sample_pages 0 None ps" using official_cost_is_complete [OF c(1)] by auto
  then show ?thesis using c by (intro exI [of _ costs] exI [of _ ps] conjI)
qed

end
