(* ===== verification/Spec2Isabelle.thy ===== *)
theory Spec2Isabelle
  imports Support_Audit Shared_Folders_Props Authorization_Props Workload_Props Scheduling_Props Push_Props Envelope_Props
    Guards_Props Admission_Props Realtime_Props Usage_Props Catalog_Props Provider_Props
begin

text \<open>
  \<^bold>\<open>A verification development for the perseverance control plane.\<close>

  The repository is a control plane for remote coding sessions.  A web client talks to \<open>services/control-plane\<close>; that
  service keeps sessions and their events in an event store, drives provider runtimes, and relies on packages for
  authorization, sharing, support access, billing, encryption, scheduling and notifications.  The development models
  those packages and the realtime route of the service, one group of theories per package, all paths below being under
  \<open>src/\<close>.

  \<^bold>\<open>1. Parts and how they interact.\<close>

  \<^item> A provider event enters through \<open>ingest\<close> of the event store, gets the next sequence number of its workspace, and is
    published to the subscribers of the session.  A connection on \<open>/v1/realtime\<close> replays the stored events after the
    cursor of the client, buffers what is published meanwhile, then delivers live; every message passes through a bounded
    sender to the socket.  Theories \<open>Timeline_Events\<close>, \<open>Event_Store\<close>, \<open>Durable_Runs\<close>, \<open>Event_Log\<close>, \<open>Usage_Ledger\<close>,
    \<open>Store_Catalog\<close> (data and operations), \<open>Event_Store_Inv\<close>, \<open>Store_Lives\<close>, \<open>Store_Steps\<close>, \<open>Store_Sides\<close>,
    \<open>Event_Store_Props\<close>, \<open>Usage_Props\<close>, \<open>Catalog_Props\<close> (proofs), \<open>Realtime\<close>, \<open>Realtime_Inv\<close>, \<open>Realtime_Props\<close>.
  \<^item> A turn runs on a model that the provider platform resolves from the catalog of the provider; its reports of usage are
    priced and entered in the usage ledger of the store, and official costs are fetched later (\<open>Provider_Platform\<close>,
    \<open>Provider_Props\<close>).
  \<^item> A turn is admitted by \<open>evaluateAdmission\<close> and the durable admission of the billing repository, which takes leases on
    concurrency and reserves prepaid credits; terminal usage settles the reservation.  Theories \<open>Credit_Ledger\<close>,
    \<open>Credit_Books\<close>, \<open>Credit_Inv\<close>, \<open>Credit_Props\<close>, \<open>Admission\<close>, \<open>Admission_Props\<close>.
  \<^item> Access of people: roles (\<open>Authorization\<close>), folders shared between users (\<open>Shared_Folders\<close>), access of the support
    staff with two approvals (\<open>Support_Access\<close>).  Access of machines: \<open>Workload_Credentials\<close>.
  \<^item> A workspace is surrounded by a network policy, secret leases and content keys (\<open>Workspace_Guards\<close>) and encrypted by
    envelopes (\<open>Envelope_Encryption\<close>).
  \<^item> Runs are placed by the scheduler (\<open>Scheduling\<close>); people are told by push notifications (\<open>Push_Notifications\<close>).

  \<^bold>\<open>2. The shared library.\<close>

  \<^item> \<open>Js_Prelude\<close>: truthiness, \<open>??\<close>, \<open>Map\<close> as an association list in insertion order, \<open>trim\<close>, \<open>sort\<close>, results as sums
    whose left summand is the error thrown, and the locale \<open>transition_system\<close> (initial states, steps, an invariant):
    every stateful component interprets it on its own step function, and its facts carry the invariants along runs.
  \<^item> \<open>Json_Text\<close>: \<open>JSON.stringify\<close> and \<open>JSON.parse\<close> with their round trip.  \<open>Base64_Url\<close>: buffers and base64 with their
    round trips.  \<open>Hash_Chain\<close>: \<open>toISOString\<close> and the locale \<open>audit_log\<close> of hash-chained logs.

  \<^bold>\<open>3. The components, their state and their operations.\<close>

  \<^item> \<^emph>\<open>Event store\<close> (\<open>packages/event-store/src/index.ts\<close>, class \<open>SqliteEventStore\<close>; \<open>schema.ts\<close>; \<open>domain-events\<close>).  The
    state is a record of tables, each the list of its rows in insertion order; the primary keys and unique indexes of the
    schema are checks of the inserting statement.  \<open>Event_Store\<close> has the tables, sessions and audit records;
    \<open>Durable_Runs\<close> the operations on conversations, turns and durable runs: binding, interruption, recovery
    and the final outcome; \<open>Event_Log\<close> has \<open>ingest\<close>, \<open>replaySessionEvents\<close>,
    approvals, idempotency keys and the recovery at restart.  \<open>Event_Store_Inv\<close> lists what each operation
    leaves alone and keeps the numbering invariant.  In
    \<open>Store_Lives\<close> the locale \<open>row_life\<close> (rows keep their identity and move along a relation) is interpreted for runs,
    approvals and idempotency keys.  \<open>Store_Steps\<close> closes all operations into one step relation.  Shown: event numbers
    are gap free and follow the counter of the workspace, storing an event again changes nothing and returns the stored
    one, an approval is decided once, a recorded answer never changes, a run follows its life cycle also across restarts,
    and a session has at most one active run.
  \<^item> \<^emph>\<open>Usage ledger\<close> (same class, \<open>appendUsage\<close> and its neighbours).  \<open>Usage_Ledger\<close> has the entries, the cursor of a request
    and the summaries; what \<open>last_insert_rowid()\<close> answers is written out.  In \<open>Store_Sides\<close> the locale \<open>side_table\<close> is a
    view of the store that the other operations keep, interpreted on the ledger and on the catalog.  Shown in \<open>Usage_Props\<close>:
    the entries of a request add up to what its reports stand for (\<open>reports_total\<close>), a report counts once, the summary
    of a turn is the sum over its requests.
  \<^item> \<^emph>\<open>Members, title jobs, artifacts, snapshots\<close> (same class).  \<open>Store_Catalog\<close> has the operations, \<open>Catalog_Props\<close> the
    invariant of the tables: the history of a membership is complete, a title job is tried at most three times.
  \<^item> \<^emph>\<open>Provider platform\<close> (\<open>packages/provider-platform/src/index.ts\<close>).  \<open>Provider_Platform\<close>: \<open>resolveModelSelection\<close>,
    \<open>estimateUsageCostMicros\<close>, the two reconciliation ports as one loop with the source as an argument.  \<open>Provider_Props\<close>: a
    resolved policy is offered by the catalog, estimates and decimals are rounded to the nearest micro, an official cost is
    the sum over every page.
  \<^item> \<^emph>\<open>Realtime connection\<close> (\<open>services/control-plane/src/server.ts\<close>, the route \<open>/v1/realtime\<close> and
    \<open>BoundedRealtimeSender\<close>).  The state is the record of one connection (cursor, subscription, buffer, flags) with the
    sender's queue.  A step is a message of the client, a publication, or an operation of the store in between.  The replay
    loop fetches pages until one is not full; it is a \<open>partial_function\<close> into options and is proved to return
    on every reachable store.  Shown: the replay is exactly the due events; what a subscribed connection has been given is in order,
    and has every authoritative event unless a resync was announced; the sender's queue is bounded and its byte count
    exact, and unless it queued a resync it loses no authoritative message; the composition of the three, for sessions
    that are in no shared folder.  The last section of \<open>Realtime_Props\<close> shows a
    queue that stays behind a full socket, and an authoritative event that is not sent.
  \<^item> \<^emph>\<open>Prepaid credits\<close> (\<open>packages/billing-platform/src/index.ts\<close>, migration \<open>0026\<close>).  A transaction is a state
    transformer on the tables that commits or rolls back; every row trigger, check and unique constraint of the migration
    that the operations can meet is a failing branch.  The locales \<open>statement_law\<close> and \<open>table_law\<close> say which statements
    keep a predicate on the tables and lift that to whole operations; they are interpreted on the invariant of the books,
    on settlements and on closed reservations.  Shown: the ledger, the allocations and the lots balance on every run; a
    reservation spends what is there; usage is charged once; a terminal settlement closes its reservation.
  \<^item> \<^emph>\<open>Admission\<close> (same file).  Decisions with their reasons, leases, credit cover, cancellation, binding, completion.
    Shown: a decision is characterised by the limits exceeded, concurrent turns stay within the limit, an admitted
    prepaid operation is covered, and runs of admission are runs of the credit repository.
  \<^item> \<^emph>\<open>Support access\<close> (\<open>packages/support-access/src/index.ts\<close>).  \<open>Support_Access\<close> has the whole service;
    \<open>Support_Ops\<close> one case rule per operation; \<open>Support_Grants\<close> the abstract life cycle \<open>grant_step\<close> and the refinement
    of the service to it; \<open>Support_BreakGlass\<close>, \<open>Support_Leases\<close>, \<open>Support_Audit\<close> the break-glass requests, the leases
    (used at most once and only with authority) and the tamper-evident log.
  \<^item> \<^emph>\<open>Shared folders\<close> (\<open>packages/shared-folders/src/index.ts\<close>).  \<open>Shared_Folders\<close>, \<open>Shared_Folders_Inv\<close>,
    \<open>Shared_Folders_Props\<close>: the cached role is the current one, a revoked member stays out, memberships change with
    authority only, a folder keeps an owner, the non-null assertions of the code hold.
  \<^item> \<^emph>\<open>Authorization and workload credentials\<close> (\<open>packages/authz/src/index.ts\<close>).  \<open>Authorization\<close>, \<open>Authorization_Props\<close>,
    \<open>Workload_Credentials\<close>, \<open>Workload_Props\<close>: acceptance implies a signature and a proof for this very request, and an
    accepted request is not accepted again.
  \<^item> \<^emph>\<open>Scheduling\<close> (\<open>packages/production-topology/src/index.ts\<close>).  \<open>Scheduling\<close>, \<open>Scheduling_Props\<close>; the locales
    \<open>comparison\<close> and \<open>collation\<close> are the laws of a comparison function and of \<open>localeCompare\<close>.
  \<^item> \<^emph>\<open>Encryption and guards\<close> (\<open>packages/workspace-security/src/index.ts\<close>).  \<open>Envelope_Encryption\<close>, \<open>Envelope_Props\<close>
    (the locale \<open>kms_provider\<close> is interpreted on the in-memory and on the user provider; round trips, agreement of
    streaming and buffering, erasure) and \<open>Workspace_Guards\<close>, \<open>Guards_Props\<close> (network blocks on 32 bit words, secret
    files, wiped keys).
  \<^item> \<^emph>\<open>Push notifications\<close> (\<open>packages/push-notifications/src/index.ts\<close>).  \<open>Push_Notifications\<close>, \<open>Push_Props\<close>.

  \<^bold>\<open>4. Numbers, bounds and termination.\<close>
  JavaScript numbers that count (sequence numbers, milliseconds, token counts) are integers; they
  stand for the numbers below \<open>2 ^ 53\<close>, on which the arithmetic of the code is exact; rounding is written out where the code
  divides.  Credit amounts are exact integers: the code keeps them in \<open>bigint\<close> columns and reads them with \<open>Number\<close>.
  IPv4 addresses are 32 bit words.  The replay page has 500 events, the sender's queue 256 messages and 1 MiB, as in the
  code.  All operations are total functions, with structural recursion or a termination proof; the loop over the pages of official
  costs reads at most 100; the replay loop and the chunked encryption are \<open>partial_function\<close>s that are proved to return.  The JSON parser carries fuel, one unit per nesting
  level; the length of the text is enough, which its round trip shows.

  \<^bold>\<open>5. Parameters.\<close>
  Code outside the repository is an argument of the definitions that call it: digests, HMAC, AES-GCM and random bytes;
  \<open>localeCompare\<close>, \<open>Date.parse\<close> and \<open>isIPv6\<close>; the DNS resolver; the push and key management providers; clocks and
  identifiers; the commercial policy and corpus measures that admission reads; the HTTP fetcher of official costs;
  the answers of the authentication adapter and of the folder service, the reading of \<open>socket.bufferedAmount\<close> and the byte length of a message in the realtime route.
  What a property needs of them (for instance that decryption undoes encryption) is a named hypothesis, with a witness at a
  concrete instance.  Transactions of SQLite and PostgreSQL are atomic and serial.

  \<^bold>\<open>6. Not modelled.\<close>
  The web client, HTTP request parsing and route wiring, the session orchestrator and provider adapters (child processes
  and the output formats of external programs), the production server and its worker, the PostgreSQL twins of services
  whose in-memory version is modelled, corpus ingestion, artifact storage, the billing webhooks, deployment
  and readiness reports, and generated code.  Of the event store: the migration of databases of earlier versions and some
  listings, which change nothing.  Of billing: the account listing, the usage recorder, policy seeding.
\<close>

end
